(* ===== verification/Prelude.thy ===== *)
theory Prelude
  imports Main "HOL-Library.Multiset"
begin

text \<open>
  Shared vocabulary of the development.

  \<^item> \<open>jmap\<close>: the insertion-ordered \<open>Map\<close> of JavaScript as an association list with
    \<open>jget\<close>, \<open>jset\<close>, \<open>jdel\<close>; \<open>jset\<close> keeps the position of an existing key and appends a
    new one, which is what every eviction loop of the program relies on.
  \<^item> \<open>js_or\<close>, \<open>falsy_num\<close>: the truthiness rules of \<open>x || d\<close> and \<open>!x\<close> on numbers.
  \<^item> \<open>ascii_lower\<close>, \<open>contains\<close>, \<open>trim\<close>: \<open>toLowerCase\<close>, \<open>includes\<close>, \<open>trim\<close> on strings.
  \<^item> The interfaces \<open>keyed_store\<close>, \<open>ordered_store\<close> and \<open>capped_backoff\<close>, with the lemmas
    their clients share.

  Times and durations are milliseconds, of type \<open>int\<close>: the values the code computes are
  integral and stay far below \<open>2 ^ 53\<close>.
\<close>

section \<open>Lemma collections\<close>

named_theorems jmap_simps \<open>laws of the ordered map\<close>
named_theorems step_defs \<open>definitions a step proof unfolds\<close>

section \<open>JavaScript values\<close>

type_synonym millis = int

definition falsy_num :: "int option \<Rightarrow> bool" where
  "falsy_num v \<longleftrightarrow> (case v of None \<Rightarrow> True | Some n \<Rightarrow> n = 0)"

definition js_or :: "int option \<Rightarrow> int \<Rightarrow> int" where
  "js_or v d = (if falsy_num v then d else the v)"

definition nullish :: "'a option \<Rightarrow> 'a \<Rightarrow> 'a" where
  "nullish v d = (case v of None \<Rightarrow> d | Some x \<Rightarrow> x)"

lemma falsy_num_simps [simp]:
  "falsy_num None"
  "falsy_num (Some n) \<longleftrightarrow> n = 0"
  by (simp_all add: falsy_num_def)

lemma js_or_simps [simp]:
  "js_or None d = d"
  "js_or (Some n) d = (if n = 0 then d else n)"
  by (simp_all add: js_or_def)

lemma nullish_simps [simp]:
  "nullish None d = d"
  "nullish (Some x) d = x"
  by (simp_all add: nullish_def)

definition ascii_lower :: "char \<Rightarrow> char" where
  "ascii_lower c = (let n = (of_char c :: nat) in if 65 \<le> n \<and> n \<le> 90 then char_of (n + 32) else c)"

definition toLowerCase :: "string \<Rightarrow> string" where
  "toLowerCase s = map ascii_lower s"

fun starts_with :: "string \<Rightarrow> string \<Rightarrow> bool" where
  "starts_with [] s = True"
| "starts_with (p # ps) [] = False"
| "starts_with (p # ps) (c # cs) = (p = c \<and> starts_with ps cs)"

fun contains :: "string \<Rightarrow> string \<Rightarrow> bool" where
  "contains p [] = (p = [])"
| "contains p (c # cs) = (starts_with p (c # cs) \<or> contains p cs)"

definition isSpace :: "char \<Rightarrow> bool" where
  "isSpace c \<longleftrightarrow> (let n = (of_char c :: nat) in n = 32 \<or> 9 \<le> n \<and> n \<le> 13 \<or> n = 160)"

definition trim :: "string \<Rightarrow> string" where
  "trim s = rev (dropWhile isSpace (rev (dropWhile isSpace s)))"

section \<open>The insertion-ordered map\<close>

type_synonym ('k, 'v) jmap = "('k \<times> 'v) list"

definition jget :: "'k \<Rightarrow> ('k, 'v) jmap \<Rightarrow> 'v option" where
  "jget k m = map_of m k"

fun jset :: "'k \<Rightarrow> 'v \<Rightarrow> ('k, 'v) jmap \<Rightarrow> ('k, 'v) jmap" where
  "jset k v [] = [(k, v)]"
| "jset k v (p # m) = (if fst p = k then (k, v) # m else p # jset k v m)"

definition jdel :: "'k \<Rightarrow> ('k, 'v) jmap \<Rightarrow> ('k, 'v) jmap" where
  "jdel k m = filter (\<lambda>p. fst p \<noteq> k) m"

definition jhas :: "'k \<Rightarrow> ('k, 'v) jmap \<Rightarrow> bool" where
  "jhas k m \<longleftrightarrow> jget k m \<noteq> None"

definition jkeys :: "('k, 'v) jmap \<Rightarrow> 'k list" where
  "jkeys m = map fst m"

definition jsize :: "('k, 'v) jmap \<Rightarrow> nat" where
  "jsize m = length m"

definition jinv :: "('k, 'v) jmap \<Rightarrow> bool" where
  "jinv m \<longleftrightarrow> distinct (jkeys m)"

text \<open>Deleting the keys of a list, one after the other.\<close>

definition jdel_all :: "'k list \<Rightarrow> ('k, 'v) jmap \<Rightarrow> ('k, 'v) jmap" where
  "jdel_all ks m = filter (\<lambda>p. fst p \<notin> set ks) m"

lemma jget_Nil [simp, jmap_simps]: "jget k [] = None"
  by (simp add: jget_def)

lemma jget_Cons [jmap_simps]: "jget k (p # m) = (if fst p = k then Some (snd p) else jget k m)"
  by (cases p) (simp add: jget_def)

lemma jget_jset [simp, jmap_simps]: "jget k' (jset k v m) = (if k' = k then Some v else jget k' m)"
  by (induction m) (auto simp: jget_Cons)

lemma jget_jdel [simp, jmap_simps]: "jget k' (jdel k m) = (if k' = k then None else jget k' m)"
  by (induction m) (auto simp: jdel_def jget_Cons)

lemma jget_jdel_all [simp, jmap_simps]:
  "jget k (jdel_all ks m) = (if k \<in> set ks then None else jget k m)"
  by (induction m) (auto simp: jdel_all_def jget_Cons)

lemma jget_filter_key:
  "jget k (filter (\<lambda>p. P (fst p)) m) = (if P k then jget k m else None)"
  by (induction m) (auto simp: jget_Cons)

lemma jkeys_jset [jmap_simps]:
  "jkeys (jset k v m) = (if k \<in> set (jkeys m) then jkeys m else jkeys m @ [k])"
  by (induction m) (auto simp: jkeys_def)

lemma jkeys_jdel [jmap_simps]: "jkeys (jdel k m) = filter (\<lambda>x. x \<noteq> k) (jkeys m)"
  by (induction m) (auto simp: jkeys_def jdel_def)

lemma jhas_iff [jmap_simps]: "jhas k m \<longleftrightarrow> k \<in> set (jkeys m)"
  by (induction m) (auto simp: jhas_def jkeys_def jget_Cons)

lemma jget_None_iff: "jget k m = None \<longleftrightarrow> k \<notin> set (jkeys m)"
  by (induction m) (auto simp: jkeys_def jget_Cons)

lemma jget_in_set: "jget k m = Some v \<Longrightarrow> (k, v) \<in> set m"
  by (simp add: jget_def map_of_SomeD)

lemma jget_eq_Some_iff: "jinv m \<Longrightarrow> jget k m = Some v \<longleftrightarrow> (k, v) \<in> set m"
  by (simp add: jget_def jinv_def jkeys_def)

lemma jinv_Nil [simp]: "jinv []"
  by (simp add: jinv_def jkeys_def)

lemma jinv_jset [simp]: "jinv m \<Longrightarrow> jinv (jset k v m)"
  by (simp add: jinv_def jkeys_jset)

lemma jinv_filter [simp]: "jinv m \<Longrightarrow> jinv (filter P m)"
  by (simp add: jinv_def jkeys_def distinct_map_filter)

lemma jinv_jdel [simp]: "jinv m \<Longrightarrow> jinv (jdel k m)"
  by (simp add: jdel_def)

lemma jinv_jdel_all [simp]: "jinv m \<Longrightarrow> jinv (jdel_all ks m)"
  by (simp add: jdel_all_def)

lemma jsize_keys: "jsize m = length (jkeys m)"
  by (simp add: jsize_def jkeys_def)

lemma jsize_jset: "jsize (jset k v m) = (if jhas k m then jsize m else Suc (jsize m))"
  by (auto simp: jsize_keys jkeys_jset jhas_iff)

lemma jsize_jdel_le: "jsize (jdel k m) \<le> jsize m"
  by (simp add: jsize_def jdel_def)

lemma jsize_jdel: "jinv m \<Longrightarrow> jhas k m \<Longrightarrow> Suc (jsize (jdel k m)) = jsize m"
proof (induction m)
  case Nil
  then show ?case by (simp add: jhas_def)
next
  case (Cons p m)
  then show ?case
  proof (cases "fst p = k")
    case True
    with Cons.prems(1) have "filter (\<lambda>p. fst p \<noteq> k) m = m"
      by (induction m) (auto simp: jinv_def jkeys_def)
    with True show ?thesis by (simp add: jsize_def jdel_def)
  next
    case False
    with Cons show ?thesis
      by (auto simp: jsize_def jdel_def jinv_def jkeys_def jhas_iff)
  qed
qed

lemma jset_absent: "jget k m = None \<Longrightarrow> jset k v m = m @ [(k, v)]"
  by (induction m) (auto simp: jget_Cons split: if_splits)

lemma jset_set_subset: "set (jset k v m) \<subseteq> insert (k, v) (set m)"
  by (induction m) auto

lemma jdel_set: "set (jdel k m) = {p \<in> set m. fst p \<noteq> k}"
  by (auto simp: jdel_def)

lemma jsize_jdel_all:
  assumes "jinv m" and "distinct ks" and "set ks \<subseteq> set (jkeys m)"
  shows "jsize (jdel_all ks m) + length ks = jsize m"
proof -
  have "jkeys (jdel_all ks m) = filter (\<lambda>x. x \<notin> set ks) (jkeys m)"
    by (induction m) (auto simp: jkeys_def jdel_all_def)
  then have "jsize (jdel_all ks m) = card (set (jkeys m) - set ks)"
    using assms(1) distinct_card [of "filter (\<lambda>x. x \<notin> set ks) (jkeys m)"]
    by (simp add: jsize_keys jinv_def set_diff_eq)
  also have "\<dots> = card (set (jkeys m)) - length ks"
    using assms(2,3) by (simp add: card_Diff_subset distinct_card)
  finally show ?thesis
    using assms card_mono [OF _ assms(3)] by (simp add: jsize_keys jinv_def distinct_card)
qed

section \<open>Interface: keyed stores\<close>

text \<open>
  What every registry of the program promises its clients: a read after a write, a read
  after a delete, and a well-formedness invariant that both keep.
\<close>

locale keyed_store =
  fixes get :: "'k \<Rightarrow> 'm \<Rightarrow> 'v option"
    and put :: "'k \<Rightarrow> 'v \<Rightarrow> 'm \<Rightarrow> 'm"
    and del :: "'k \<Rightarrow> 'm \<Rightarrow> 'm"
    and keys :: "'m \<Rightarrow> 'k list"
    and inv :: "'m \<Rightarrow> bool"
  assumes get_put: "get k' (put k v m) = (if k' = k then Some v else get k' m)"
    and get_del: "get k' (del k m) = (if k' = k then None else get k' m)"
    and get_keys: "get k m = None \<longleftrightarrow> k \<notin> set (keys m)"
    and inv_keys: "inv m \<Longrightarrow> distinct (keys m)"
    and inv_put: "inv m \<Longrightarrow> inv (put k v m)"
    and inv_del: "inv m \<Longrightarrow> inv (del k m)"
begin

lemma put_put_get: "get k'' (put k w (put k v m)) = get k'' (put k w m)"
  by (simp add: get_put)

lemma put_commute: "k \<noteq> k' \<Longrightarrow> get k'' (put k v (put k' v' m)) = get k'' (put k' v' (put k v m))"
  by (simp add: get_put)

lemma put_del_get: "get k'' (del k (put k v m)) = get k'' (del k m)"
  by (simp add: get_put get_del)

lemma set_keys_put: "set (keys (put k v m)) = insert k (set (keys m))"
proof (rule set_eqI)
  fix x
  show "x \<in> set (keys (put k v m)) \<longleftrightarrow> x \<in> insert k (set (keys m))"
    using get_keys [of x "put k v m"] get_keys [of x m] get_put [of x k v m] by (auto split: if_splits)
qed

lemma set_keys_del: "set (keys (del k m)) = set (keys m) - {k}"
proof (rule set_eqI)
  fix x
  show "x \<in> set (keys (del k m)) \<longleftrightarrow> x \<in> set (keys m) - {k}"
    using get_keys [of x "del k m"] get_keys [of x m] get_del [of x k m] by (auto split: if_splits)
qed

end

text \<open>
  A store that also keeps the order of first insertion, as \<open>Map\<close> does. The bounded
  insertion below is the shape of every eviction of the program: when the key is new and
  the store is full, the oldest entry goes first.
\<close>

locale ordered_store = keyed_store get put del keys inv
  for get :: "'k \<Rightarrow> 'm \<Rightarrow> 'v option"
    and put :: "'k \<Rightarrow> 'v \<Rightarrow> 'm \<Rightarrow> 'm"
    and del :: "'k \<Rightarrow> 'm \<Rightarrow> 'm"
    and keys :: "'m \<Rightarrow> 'k list"
    and inv :: "'m \<Rightarrow> bool" +
  assumes keys_put: "keys (put k v m) = (if k \<in> set (keys m) then keys m else keys m @ [k])"
    and keys_del: "keys (del k m) = filter (\<lambda>x. x \<noteq> k) (keys m)"
begin

lemma evict_oldest_size:
  assumes "inv m" and "length (keys m) \<le> cap" and "0 < cap"
  shows "length (keys (put k v (if get k m = None \<and> cap \<le> length (keys m)
           then del (hd (keys m)) m else m))) \<le> cap"
proof (cases "get k m = None \<and> cap \<le> length (keys m)")
  case True
  with assms obtain x xs where xs: "keys m = x # xs"
    by (cases "keys m") auto
  have "distinct (keys m)" by (rule inv_keys [OF assms(1)])
  then have "filter (\<lambda>y. y \<noteq> x) (keys m) = xs"
    unfolding xs by (auto simp: filter_id_conv)
  then have "keys (put k v (del x m)) = (if k \<in> set xs then xs else xs @ [k])"
    by (simp add: keys_put keys_del)
  moreover have "length xs + 1 \<le> cap" using assms(2) xs by simp
  ultimately show ?thesis using True xs by simp
next
  case False
  then show ?thesis
    using assms(2) get_keys [of k m] by (auto simp: keys_put not_le)
qed

lemma evict_oldest_frame:
  assumes "k' \<noteq> k" and "k' \<noteq> hd (keys m)"
  shows "get k' (put k v (if P then del (hd (keys m)) m else m)) = get k' m"
  using assms by (simp add: get_put get_del)

lemma evict_oldest_inv:
  assumes "inv m"
  shows "inv (put k v (if P then del (hd (keys m)) m else m))"
  using assms by (simp add: inv_put inv_del)

end

interpretation jm: ordered_store jget jset jdel jkeys jinv
  by unfold_locales (auto simp: jget_None_iff jkeys_jset jkeys_jdel jinv_def)

section \<open>Interface: capped exponential backoff\<close>

text \<open>
  Three parts of the program scale a delay with the number of failures: the reset timeout
  of the circuit breaker, the cooldown of a model lockout and the cooldown of a provider.
  Each at most doubles from one failure to the next, never shrinks and never passes a cap.
\<close>

locale capped_backoff =
  fixes delay :: "nat \<Rightarrow> int" and cap :: int
  assumes delay_0: "0 \<le> delay 0"
    and delay_step: "delay n \<le> delay (Suc n)"
    and delay_double: "delay (Suc n) \<le> 2 * delay n"
    and delay_cap: "delay n \<le> cap"
begin

lemma delay_mono: "m \<le> n \<Longrightarrow> delay m \<le> delay n"
  by (rule lift_Suc_mono_le [of delay]) (use delay_step in auto)

lemma delay_nonneg: "0 \<le> delay n"
  using delay_0 delay_mono [of 0 n] by simp

lemma delay_growth: "delay n \<le> 2 ^ n * delay 0"
proof (induction n)
  case 0
  then show ?case by simp
next
  case (Suc n)
  with delay_double [of n] show ?case by simp
qed

lemma total_delay: "(\<Sum>i < n. delay i) \<le> int n * cap"
  using sum_bounded_above [of "{..<n}" delay cap] delay_cap by simp

end

text \<open>The arithmetic that discharges the laws for a doubling capped at \<open>c\<close>.\<close>

lemma min_pow_step: "0 \<le> (b::int) \<Longrightarrow> m \<le> n \<Longrightarrow> min (b * 2 ^ m) c \<le> min (b * 2 ^ n) c"
  by (intro min.mono mult_left_mono power_increasing) auto

lemma min_pow_double: "0 \<le> (b::int) \<Longrightarrow> 0 \<le> c \<Longrightarrow> n \<le> Suc m \<Longrightarrow> min (b * 2 ^ n) c \<le> 2 * min (b * 2 ^ m) c"
proof -
  assume a: "0 \<le> b" "0 \<le> c" "n \<le> Suc m"
  then have "b * 2 ^ n \<le> b * 2 ^ Suc m"
    by (intro mult_left_mono power_increasing) auto
  with a show ?thesis by (auto simp: min_def)
qed

end
