(* ===== verification/CircuitBreaker.thy ===== *)
theory CircuitBreaker
  imports Prelude
begin

text \<open>
  The provider circuit breaker of \<open>src/shared/utils/circuitBreaker.ts\<close>: the class
  \<open>CircuitBreaker\<close> as a record with one function per method, \<open>execute\<close> split where it
  awaits the request, and the registry with its eviction.

  \<open>Date.now()\<close> is the parameter \<open>now\<close>. The row handed to \<open>saveCircuitBreakerState\<close> is
  the field \<open>savedRow\<close>, the calls of \<open>onStateChange\<close> are the list \<open>notified\<close>; a
  \<open>reason\<close> keeps the text of a transition as a constructor with its numbers.
\<close>

section \<open>Local lifecycle errors\<close>

datatype js_error = ErrNone | ErrText string | ErrObject "string option" "string option"

definition isLocalStreamLifecycleError :: "js_error \<Rightarrow> bool" where
  "isLocalStreamLifecycleError e =
     (case e of
        ErrNone \<Rightarrow> False
      | _ \<Rightarrow>
        (let errName = (case e of ErrObject (Some n) m \<Rightarrow> n | _ \<Rightarrow> []);
             message = (case e of ErrText t \<Rightarrow> t | ErrObject n (Some m) \<Rightarrow> m | _ \<Rightarrow> []);
             lower = toLowerCase message
         in if e = ErrText [] then False
            else if errName = ''AbortError'' then True
            else if message = [] then False
            else contains ''controller is already closed'' lower
               \<or> contains ''request_signal_aborted'' lower
               \<or> contains ''client disconnected'' lower
               \<or> contains ''operation was aborted'' lower))"

section \<open>Data\<close>

datatype circuit_state = CLOSED | DEGRADED | OPEN | HALF_OPEN

datatype failure_kind = Rate_limit | Quota_exhausted | Transient

record kind_threshold =
  kt_threshold :: "int option"
  kt_cooldown :: "int option"
  kt_immediateOpen :: bool

datatype reason =
    NoReason | ManualReset | SuccessRecovery | ProbeSuccess | Recovery
  | ProbeFailed int | KindOpened failure_kind | ElevatedFailures int int | TimeoutElapsed

record transition =
  tr_from :: circuit_state
  tr_to :: circuit_state
  tr_timestamp :: int
  tr_failureCount :: int
  tr_reason :: reason

record saved_state =
  sv_state :: "circuit_state option"
  sv_failureCount :: int
  sv_lastFailureTime :: "int option"
  sv_lastFailureKind :: "failure_kind option"
  sv_openCycleCount :: "int option"
  sv_kindFailureCounts :: "(failure_kind \<rightharpoonup> int) option"

record breaker =
  cb_name :: string
  failureThreshold :: int
  resetTimeout :: int
  halfOpenRequests :: int
  onStateChange :: bool
  state :: circuit_state
  failureCount :: int
  successCount :: int
  lastFailureTime :: "int option"
  halfOpenAllowed :: int
  cooldownByKind :: "failure_kind \<rightharpoonup> int"
  lastFailureKind :: "failure_kind option"
  kindThresholds :: "failure_kind \<rightharpoonup> kind_threshold"
  degradationThreshold :: int
  maxBackoffMultiplier :: int
  backoffEscalationCount :: int
  kindFailureCounts :: "failure_kind \<rightharpoonup> int"
  openCycleCount :: int
  transitionHistory :: "transition list"
  maxTransitionHistory :: nat
  savedRow :: "saved_state option"
  notified :: "(string \<times> circuit_state \<times> circuit_state) list"

record breaker_options =
  o_failureThreshold :: "int option"
  o_resetTimeout :: "int option"
  o_halfOpenRequests :: "int option"
  o_onStateChange :: bool
  o_cooldownByKind :: "(failure_kind \<rightharpoonup> int) option"
  o_kindThresholds :: "(failure_kind \<rightharpoonup> kind_threshold) option"
  o_degradationThreshold :: "int option"
  o_maxBackoffMultiplier :: "int option"
  o_backoffEscalationCount :: "int option"

definition no_options :: breaker_options where
  "no_options = \<lparr>o_failureThreshold = None, o_resetTimeout = None, o_halfOpenRequests = None,
     o_onStateChange = False, o_cooldownByKind = None, o_kindThresholds = None,
     o_degradationThreshold = None, o_maxBackoffMultiplier = None,
     o_backoffEscalationCount = None\<rparr>"

section \<open>Construction and persistence\<close>

text \<open>\<open>Math.ceil((failureThreshold * 60) / 100)\<close>.\<close>

definition defaultDegradation :: "int \<Rightarrow> int" where
  "defaultDegradation ft = - ((- (ft * 60)) div 100)"

definition newBreaker :: "string \<Rightarrow> breaker_options \<Rightarrow> breaker" where
  "newBreaker nm opts =
     (let ft = nullish (o_failureThreshold opts) 5 in
      \<lparr>cb_name = nm,
       failureThreshold = ft,
       resetTimeout = nullish (o_resetTimeout opts) 30000,
       halfOpenRequests = nullish (o_halfOpenRequests opts) 1,
       onStateChange = o_onStateChange opts,
       state = CLOSED,
       failureCount = 0,
       successCount = 0,
       lastFailureTime = None,
       halfOpenAllowed = 0,
       cooldownByKind = nullish (o_cooldownByKind opts) Map.empty,
       lastFailureKind = None,
       kindThresholds = nullish (o_kindThresholds opts) Map.empty,
       degradationThreshold = nullish (o_degradationThreshold opts) (defaultDegradation ft),
       maxBackoffMultiplier = nullish (o_maxBackoffMultiplier opts) 16,
       backoffEscalationCount = nullish (o_backoffEscalationCount opts) 3,
       kindFailureCounts = Map.empty,
       openCycleCount = 0,
       transitionHistory = [],
       maxTransitionHistory = 20,
       savedRow = None,
       notified = []\<rparr>)"

definition restoreFromDb :: "saved_state option \<Rightarrow> breaker \<Rightarrow> breaker" where
  "restoreFromDb saved b =
     (case saved of
        None \<Rightarrow> b
      | Some sv \<Rightarrow>
        (let b1 = (case sv_state sv of Some st \<Rightarrow> b\<lparr>state := st\<rparr> | None \<Rightarrow> b);
             b2 = b1\<lparr>failureCount := sv_failureCount sv, lastFailureTime := sv_lastFailureTime sv\<rparr>;
             b3 = (case sv_lastFailureKind sv of
                     Some k \<Rightarrow> b2\<lparr>lastFailureKind := Some k\<rparr> | None \<Rightarrow> b2);
             b4 = b3\<lparr>openCycleCount := nullish (sv_openCycleCount sv) 0,
                     kindFailureCounts := nullish (sv_kindFailureCounts sv) Map.empty\<rparr>
         in if state b4 = HALF_OPEN then b4\<lparr>halfOpenAllowed := halfOpenRequests b4\<rparr> else b4))"

definition rowOf :: "breaker \<Rightarrow> saved_state" where
  "rowOf b = \<lparr>sv_state = Some (state b), sv_failureCount = failureCount b,
     sv_lastFailureTime = lastFailureTime b, sv_lastFailureKind = lastFailureKind b,
     sv_openCycleCount = Some (openCycleCount b),
     sv_kindFailureCounts = Some (kindFailureCounts b)\<rparr>"

definition persistToDb :: "breaker \<Rightarrow> breaker" where
  "persistToDb b = b\<lparr>savedRow := Some (rowOf b)\<rparr>"

section \<open>Timeouts\<close>

definition effectiveResetTimeout :: "breaker \<Rightarrow> int" where
  "effectiveResetTimeout b =
     (if openCycleCount b \<le> backoffEscalationCount b then resetTimeout b
      else let escalationFactor = 2 ^ nat (openCycleCount b - backoffEscalationCount b)
           in min (resetTimeout b * escalationFactor) (resetTimeout b * maxBackoffMultiplier b))"

definition effectiveCooldown :: "breaker \<Rightarrow> int" where
  "effectiveCooldown b =
     (let baseTimeout = effectiveResetTimeout b in
      case lastFailureKind b of
        None \<Rightarrow> baseTimeout
      | Some k \<Rightarrow> (case cooldownByKind b k of
                     Some override \<Rightarrow> (if 0 \<le> override then override else baseTimeout)
                   | None \<Rightarrow> baseTimeout))"

definition shouldAttemptReset :: "int \<Rightarrow> breaker \<Rightarrow> bool" where
  "shouldAttemptReset now b =
     (if falsy_num (lastFailureTime b) then True
      else effectiveCooldown b \<le> now - the (lastFailureTime b))"

definition timeUntilReset :: "int \<Rightarrow> breaker \<Rightarrow> int" where
  "timeUntilReset now b =
     (if falsy_num (lastFailureTime b) then 0
      else max 0 (effectiveCooldown b - (now - the (lastFailureTime b))))"

section \<open>Transitions\<close>

definition pushHistory :: "transition \<Rightarrow> breaker \<Rightarrow> breaker" where
  "pushHistory tr b =
     (let h = transitionHistory b @ [tr]
      in b\<lparr>transitionHistory := (if maxTransitionHistory b < length h then tl h else h)\<rparr>)"

definition transitionTo :: "int \<Rightarrow> circuit_state \<Rightarrow> reason \<Rightarrow> breaker \<Rightarrow> breaker" where
  "transitionTo now newState r b =
     (let oldState = state b;
          b1 = b\<lparr>state := newState\<rparr>;
          b2 = (if newState = HALF_OPEN then b1\<lparr>halfOpenAllowed := halfOpenRequests b1\<rparr> else b1);
          b3 = pushHistory \<lparr>tr_from = oldState, tr_to = newState, tr_timestamp = now,
                 tr_failureCount = failureCount b2, tr_reason = r\<rparr> b2
      in if onStateChange b3 \<and> oldState \<noteq> newState
         then b3\<lparr>notified := notified b3 @ [(cb_name b3, oldState, newState)]\<rparr> else b3)"

definition refreshOpenState :: "int \<Rightarrow> breaker \<Rightarrow> breaker" where
  "refreshOpenState now b =
     (if state b = OPEN \<and> shouldAttemptReset now b
      then persistToDb (transitionTo now HALF_OPEN TimeoutElapsed b) else b)"

definition openCircuit :: "int \<Rightarrow> failure_kind option \<Rightarrow> breaker \<Rightarrow> breaker" where
  "openCircuit now kind b =
     transitionTo now OPEN (case kind of Some k \<Rightarrow> KindOpened k | None \<Rightarrow> NoReason) b"

definition onSuccess :: "int \<Rightarrow> breaker \<Rightarrow> breaker" where
  "onSuccess now b =
     persistToDb
       (if state b = OPEN then
          (transitionTo now CLOSED SuccessRecovery b)
            \<lparr>failureCount := 0, successCount := 0, lastFailureTime := None, lastFailureKind := None,
             openCycleCount := 0, kindFailureCounts := Map.empty\<rparr>
        else if state b = HALF_OPEN then
          (transitionTo now CLOSED ProbeSuccess (b\<lparr>successCount := successCount b + 1\<rparr>))
            \<lparr>failureCount := 0, lastFailureKind := None, openCycleCount := 0,
             kindFailureCounts := Map.empty\<rparr>
        else
          (let b1 = b\<lparr>failureCount := max 0 (failureCount b - 1)\<rparr>
           in if state b1 = DEGRADED \<and> failureCount b1 \<le> degradationThreshold b1
              then transitionTo now CLOSED Recovery b1 else b1))"

text \<open>
  The counting part of \<open>_onFailure\<close>, then the test of the per-kind threshold, then the
  transition by total count. The source leaves the function right after a kind threshold
  opened the circuit, before \<open>_persistToDb\<close>; so does \<open>onFailure\<close>.
\<close>

definition countFailure :: "int \<Rightarrow> failure_kind option \<Rightarrow> breaker \<Rightarrow> breaker" where
  "countFailure now kind b =
     (let b1 = b\<lparr>failureCount := failureCount b + 1, lastFailureTime := Some now,
                 lastFailureKind := kind\<rparr>
      in case kind of
           None \<Rightarrow> b1
         | Some k \<Rightarrow> b1\<lparr>kindFailureCounts :=
                      (kindFailureCounts b1)(k \<mapsto> js_or (kindFailureCounts b1 k) 0 + 1)\<rparr>)"

definition kindThresholdReached :: "failure_kind option \<Rightarrow> breaker \<Rightarrow> bool" where
  "kindThresholdReached kind b =
     (case kind of
        None \<Rightarrow> False
      | Some k \<Rightarrow>
        (case kindThresholds b k of
           None \<Rightarrow> False
         | Some cfg \<Rightarrow>
           (let kindCount = js_or (kindFailureCounts b k) 0 in
            (kt_immediateOpen cfg \<and> js_or (kt_threshold cfg) 1 \<le> kindCount)
            \<or> js_or (kt_threshold cfg) (failureThreshold b) \<le> kindCount)))"

definition transitionByCount :: "int \<Rightarrow> failure_kind option \<Rightarrow> breaker \<Rightarrow> breaker" where
  "transitionByCount now kind b =
     (case state b of
        OPEN \<Rightarrow> b
      | HALF_OPEN \<Rightarrow>
          (let b1 = b\<lparr>openCycleCount := openCycleCount b + 1\<rparr>
           in transitionTo now OPEN (ProbeFailed (openCycleCount b1)) b1)
      | DEGRADED \<Rightarrow>
          (if failureThreshold b \<le> failureCount b then openCircuit now kind b else b)
      | CLOSED \<Rightarrow>
          (if failureThreshold b \<le> failureCount b then openCircuit now kind b
           else if degradationThreshold b \<le> failureCount b
           then transitionTo now DEGRADED (ElevatedFailures (failureCount b) (failureThreshold b)) b
           else b))"

definition onFailure :: "int \<Rightarrow> failure_kind option \<Rightarrow> breaker \<Rightarrow> breaker" where
  "onFailure now kind b =
     (let b1 = countFailure now kind b
      in if kindThresholdReached kind b1 then openCircuit now kind b1
         else persistToDb (transitionByCount now kind b1))"

section \<open>Public operations\<close>

text \<open>
  \<open>execute\<close> up to the call of \<open>fn\<close>: the error thrown, or the breaker while the request is
  in flight. Then \<open>executeEnd\<close> is what runs when the promise settles: \<open>Inr\<close> a result,
  \<open>Inl\<close> an error that \<open>isFailure\<close> and \<open>classifyError\<close> judge (a \<open>classifyError\<close> that throws
  is one that answers \<open>None\<close>).
\<close>

datatype open_error = CircuitOpen int | NoProbeLeft int

definition executeBegin :: "int \<Rightarrow> breaker \<Rightarrow> (open_error + unit) \<times> breaker" where
  "executeBegin now b0 =
     (let b = refreshOpenState now b0
      in if state b = OPEN then (Inl (CircuitOpen (timeUntilReset now b)), b)
         else if state b = HALF_OPEN \<and> halfOpenAllowed b \<le> 0
         then (Inl (NoProbeLeft (timeUntilReset now b)), b)
         else if state b = HALF_OPEN then (Inr (), b\<lparr>halfOpenAllowed := halfOpenAllowed b - 1\<rparr>)
         else (Inr (), b))"

definition executeEnd ::
  "('e \<Rightarrow> bool) \<Rightarrow> ('e \<Rightarrow> failure_kind option) option \<Rightarrow> int \<Rightarrow> 'e + 'a \<Rightarrow> breaker \<Rightarrow> breaker" where
  "executeEnd isFailure classifyError now result b =
     (case result of
        Inr v \<Rightarrow> onSuccess now b
      | Inl e \<Rightarrow>
        (if isFailure e
         then onFailure now (case classifyError of Some c \<Rightarrow> c e | None \<Rightarrow> None) b
         else b))"

definition canExecute :: "int \<Rightarrow> breaker \<Rightarrow> bool \<times> breaker" where
  "canExecute now b0 =
     (let b = refreshOpenState now b0
      in (case state b of
            CLOSED \<Rightarrow> True | DEGRADED \<Rightarrow> True | OPEN \<Rightarrow> False | HALF_OPEN \<Rightarrow> 0 < halfOpenAllowed b, b))"

definition getRetryAfterMs :: "int \<Rightarrow> breaker \<Rightarrow> int \<times> breaker" where
  "getRetryAfterMs now b0 =
     (let b = refreshOpenState now b0
      in (if state b = CLOSED \<or> state b = DEGRADED then 0 else timeUntilReset now b, b))"

record breaker_status =
  st_name :: string
  st_state :: circuit_state
  st_failureCount :: int
  st_lastFailureTime :: "int option"
  st_retryAfterMs :: int
  st_lastFailureKind :: "failure_kind option"
  st_openCycleCount :: int
  st_kindFailureCounts :: "failure_kind \<rightharpoonup> int"
  st_degradationThreshold :: int
  st_effectiveResetTimeout :: int

definition getStatus :: "int \<Rightarrow> breaker \<Rightarrow> breaker_status \<times> breaker" where
  "getStatus now b0 =
     (let b = refreshOpenState now b0; (retryAfter, b') = getRetryAfterMs now b
      in (\<lparr>st_name = cb_name b, st_state = state b, st_failureCount = failureCount b,
           st_lastFailureTime = lastFailureTime b, st_retryAfterMs = retryAfter,
           st_lastFailureKind = lastFailureKind b', st_openCycleCount = openCycleCount b',
           st_kindFailureCounts = kindFailureCounts b',
           st_degradationThreshold = degradationThreshold b',
           st_effectiveResetTimeout = effectiveResetTimeout b'\<rparr>, b'))"

definition resetBreaker :: "int \<Rightarrow> breaker \<Rightarrow> breaker" where
  "resetBreaker now b =
     persistToDb ((transitionTo now CLOSED ManualReset b)
       \<lparr>failureCount := 0, successCount := 0, lastFailureTime := None, lastFailureKind := None,
        openCycleCount := 0, kindFailureCounts := Map.empty\<rparr>)"

section \<open>Registry\<close>

text \<open>
  The registry maps names to breakers in insertion order. An operation that calls
  \<open>deleteCircuitBreakerState\<close> also returns the names it was called for.
\<close>

type_synonym registry = "(string, breaker) jmap"

definition MAX_REGISTRY_SIZE :: nat where
  "MAX_REGISTRY_SIZE = 500"

definition refreshAll :: "int \<Rightarrow> registry \<Rightarrow> registry" where
  "refreshAll now reg = map (\<lambda>(nm, b). (nm, snd (getStatus now b))) reg"

definition isIdleStatus :: "int \<Rightarrow> breaker_status \<Rightarrow> bool" where
  "isIdleStatus now st \<longleftrightarrow> st_state st = CLOSED \<and> st_failureCount st = 0
     \<and> (falsy_num (st_lastFailureTime st) \<or> 30 * 60 * 1000 < now - the (st_lastFailureTime st))"

definition registrySweep :: "int \<Rightarrow> registry \<Rightarrow> registry \<times> string list" where
  "registrySweep now reg =
     (let doomed = map fst (filter (\<lambda>(nm, b). isIdleStatus now (fst (getStatus now b))) reg)
      in (jdel_all doomed (refreshAll now reg), doomed))"

definition coldCandidates :: "int \<Rightarrow> registry \<Rightarrow> (string \<times> int) list" where
  "coldCandidates now reg =
     sort_key snd
       (map (\<lambda>(nm, b). (nm, js_or (st_lastFailureTime (fst (getStatus now b))) 0))
          (filter (\<lambda>(nm, b). let st = fst (getStatus now b)
                             in st_state st = CLOSED \<and> st_failureCount st = 0) reg))"

definition evictColdBreakersIfNeeded :: "int \<Rightarrow> registry \<Rightarrow> registry \<times> string list" where
  "evictColdBreakersIfNeeded now reg =
     (if jsize reg < MAX_REGISTRY_SIZE then (reg, [])
      else let target = jsize reg - MAX_REGISTRY_SIZE + 1;
               doomed = map fst (take target (coldCandidates now reg))
           in (jdel_all doomed (refreshAll now reg), doomed))"

definition applyOptions :: "breaker_options \<Rightarrow> breaker \<Rightarrow> breaker" where
  "applyOptions opts b0 =
     (let b1 = (case o_failureThreshold opts of Some v \<Rightarrow> b0\<lparr>failureThreshold := v\<rparr> | None \<Rightarrow> b0);
          b2 = (case o_resetTimeout opts of Some v \<Rightarrow> b1\<lparr>resetTimeout := v\<rparr> | None \<Rightarrow> b1);
          b3 = (case o_halfOpenRequests opts of
                  Some v \<Rightarrow>
                    (let b' = b2\<lparr>halfOpenRequests := v\<rparr>
                     in if state b' = HALF_OPEN
                        then b'\<lparr>halfOpenAllowed := min (halfOpenAllowed b') (halfOpenRequests b')\<rparr>
                        else b')
                | None \<Rightarrow> b2);
          b4 = (if o_onStateChange opts then b3\<lparr>onStateChange := True\<rparr> else b3);
          b5 = (case o_cooldownByKind opts of
                  Some m \<Rightarrow> b4\<lparr>cooldownByKind := cooldownByKind b4 ++ m\<rparr> | None \<Rightarrow> b4);
          b6 = (case o_kindThresholds opts of
                  Some m \<Rightarrow> b5\<lparr>kindThresholds := kindThresholds b5 ++ m\<rparr> | None \<Rightarrow> b5);
          b7 = (case o_degradationThreshold opts of
                  Some v \<Rightarrow> b6\<lparr>degradationThreshold := v\<rparr> | None \<Rightarrow> b6);
          b8 = (case o_maxBackoffMultiplier opts of
                  Some v \<Rightarrow> b7\<lparr>maxBackoffMultiplier := v\<rparr> | None \<Rightarrow> b7);
          b9 = (case o_backoffEscalationCount opts of
                  Some v \<Rightarrow> b8\<lparr>backoffEscalationCount := v\<rparr> | None \<Rightarrow> b8)
      in persistToDb b9)"

definition getCircuitBreaker ::
  "int \<Rightarrow> string \<Rightarrow> breaker_options option \<Rightarrow> registry \<Rightarrow> breaker \<times> registry" where
  "getCircuitBreaker now nm options reg =
     (let reg1 = (if jhas nm reg then reg
                  else jset nm (newBreaker nm (nullish options no_options))
                         (fst (evictColdBreakersIfNeeded now reg)));
          b = the (jget nm reg1);
          b' = (case options of Some opts \<Rightarrow> applyOptions opts b | None \<Rightarrow> b)
      in (b', jset nm b' reg1))"

text \<open>
  \<open>getAllCircuitBreakerStatuses\<close>: the names of the persisted rows are an input (an empty
  list when the table cannot be read), and each unknown one is registered.
\<close>

definition registerPersisted :: "int \<Rightarrow> string list \<Rightarrow> registry \<Rightarrow> registry" where
  "registerPersisted now persisted reg =
     fold (\<lambda>nm r. if jhas nm r then r else snd (getCircuitBreaker now nm None r)) persisted reg"

definition getAllCircuitBreakerStatuses ::
  "int \<Rightarrow> string list \<Rightarrow> registry \<Rightarrow> breaker_status list \<times> registry" where
  "getAllCircuitBreakerStatuses now persisted reg =
     (let reg1 = registerPersisted now persisted reg
      in (map (\<lambda>(nm, b). fst (getStatus now b)) reg1, refreshAll now reg1))"

text \<open>\<open>resetAllCircuitBreakers\<close> resets every breaker object and then empties the registry.\<close>

definition resetAllCircuitBreakers :: "int \<Rightarrow> registry \<Rightarrow> breaker list \<times> registry" where
  "resetAllCircuitBreakers now reg = (map (\<lambda>(nm, b). resetBreaker now b) reg, [])"

section \<open>What one transition does\<close>

lemma pushHistory_frame [simp]:
  "state (pushHistory tr b) = state b"
  "failureCount (pushHistory tr b) = failureCount b"
  "successCount (pushHistory tr b) = successCount b"
  "lastFailureTime (pushHistory tr b) = lastFailureTime b"
  "lastFailureKind (pushHistory tr b) = lastFailureKind b"
  "halfOpenAllowed (pushHistory tr b) = halfOpenAllowed b"
  "halfOpenRequests (pushHistory tr b) = halfOpenRequests b"
  "failureThreshold (pushHistory tr b) = failureThreshold b"
  "degradationThreshold (pushHistory tr b) = degradationThreshold b"
  "openCycleCount (pushHistory tr b) = openCycleCount b"
  "maxTransitionHistory (pushHistory tr b) = maxTransitionHistory b"
  "kindThresholds (pushHistory tr b) = kindThresholds b"
  "kindFailureCounts (pushHistory tr b) = kindFailureCounts b"
  "cooldownByKind (pushHistory tr b) = cooldownByKind b"
  "resetTimeout (pushHistory tr b) = resetTimeout b"
  "maxBackoffMultiplier (pushHistory tr b) = maxBackoffMultiplier b"
  "backoffEscalationCount (pushHistory tr b) = backoffEscalationCount b"
  "savedRow (pushHistory tr b) = savedRow b"
  "cb_name (pushHistory tr b) = cb_name b"
  by (simp_all add: pushHistory_def Let_def)

lemma transitionTo_frame [simp]:
  "state (transitionTo now st r b) = st"
  "failureCount (transitionTo now st r b) = failureCount b"
  "successCount (transitionTo now st r b) = successCount b"
  "lastFailureTime (transitionTo now st r b) = lastFailureTime b"
  "lastFailureKind (transitionTo now st r b) = lastFailureKind b"
  "halfOpenAllowed (transitionTo now st r b) =
     (if st = HALF_OPEN then halfOpenRequests b else halfOpenAllowed b)"
  "halfOpenRequests (transitionTo now st r b) = halfOpenRequests b"
  "failureThreshold (transitionTo now st r b) = failureThreshold b"
  "degradationThreshold (transitionTo now st r b) = degradationThreshold b"
  "openCycleCount (transitionTo now st r b) = openCycleCount b"
  "maxTransitionHistory (transitionTo now st r b) = maxTransitionHistory b"
  "kindThresholds (transitionTo now st r b) = kindThresholds b"
  "kindFailureCounts (transitionTo now st r b) = kindFailureCounts b"
  "cooldownByKind (transitionTo now st r b) = cooldownByKind b"
  "resetTimeout (transitionTo now st r b) = resetTimeout b"
  "maxBackoffMultiplier (transitionTo now st r b) = maxBackoffMultiplier b"
  "backoffEscalationCount (transitionTo now st r b) = backoffEscalationCount b"
  "savedRow (transitionTo now st r b) = savedRow b"
  "cb_name (transitionTo now st r b) = cb_name b"
  by (simp_all add: transitionTo_def Let_def)

lemma transitionTo_history:
  "length (transitionHistory b) \<le> maxTransitionHistory b \<Longrightarrow> maxTransitionHistory b = m \<Longrightarrow>
   length (transitionHistory (transitionTo now st r b)) \<le> m"
  by (simp add: transitionTo_def pushHistory_def Let_def)

lemma persistToDb_frame [simp]:
  "state (persistToDb b) = state b"
  "failureCount (persistToDb b) = failureCount b"
  "lastFailureTime (persistToDb b) = lastFailureTime b"
  "lastFailureKind (persistToDb b) = lastFailureKind b"
  "halfOpenAllowed (persistToDb b) = halfOpenAllowed b"
  "halfOpenRequests (persistToDb b) = halfOpenRequests b"
  "failureThreshold (persistToDb b) = failureThreshold b"
  "degradationThreshold (persistToDb b) = degradationThreshold b"
  "openCycleCount (persistToDb b) = openCycleCount b"
  "maxTransitionHistory (persistToDb b) = maxTransitionHistory b"
  "transitionHistory (persistToDb b) = transitionHistory b"
  "kindThresholds (persistToDb b) = kindThresholds b"
  "kindFailureCounts (persistToDb b) = kindFailureCounts b"
  "cooldownByKind (persistToDb b) = cooldownByKind b"
  "resetTimeout (persistToDb b) = resetTimeout b"
  "maxBackoffMultiplier (persistToDb b) = maxBackoffMultiplier b"
  "backoffEscalationCount (persistToDb b) = backoffEscalationCount b"
  "savedRow (persistToDb b) = Some (rowOf b)"
  by (simp_all add: persistToDb_def)

lemma countFailure_frame [simp]:
  "state (countFailure now k b) = state b"
  "failureCount (countFailure now k b) = failureCount b + 1"
  "lastFailureTime (countFailure now k b) = Some now"
  "lastFailureKind (countFailure now k b) = k"
  "halfOpenAllowed (countFailure now k b) = halfOpenAllowed b"
  "halfOpenRequests (countFailure now k b) = halfOpenRequests b"
  "failureThreshold (countFailure now k b) = failureThreshold b"
  "degradationThreshold (countFailure now k b) = degradationThreshold b"
  "openCycleCount (countFailure now k b) = openCycleCount b"
  "maxTransitionHistory (countFailure now k b) = maxTransitionHistory b"
  "transitionHistory (countFailure now k b) = transitionHistory b"
  "savedRow (countFailure now k b) = savedRow b"
  "cooldownByKind (countFailure now k b) = cooldownByKind b"
  by (simp_all add: countFailure_def Let_def split: option.split)

lemma effectiveTimes_frame [simp]:
  "effectiveCooldown (transitionTo now st r b) = effectiveCooldown b"
  "effectiveCooldown (persistToDb b) = effectiveCooldown b"
  by (simp_all add: effectiveCooldown_def effectiveResetTimeout_def Let_def split: option.split)

lemma getRetryAfterMs_snd [simp]: "snd (getRetryAfterMs now b) = refreshOpenState now b"
  by (simp add: getRetryAfterMs_def Let_def)

lemma refreshOpenState_idle: "state b \<noteq> OPEN \<Longrightarrow> refreshOpenState now b = b"
  by (simp add: refreshOpenState_def)

lemma refreshOpenState_idem [simp]:
  "refreshOpenState now (refreshOpenState now b) = refreshOpenState now b"
  by (cases "state b = OPEN \<and> shouldAttemptReset now b") (auto simp: refreshOpenState_def)

lemma getStatus_snd [simp]: "snd (getStatus now b) = refreshOpenState now b"
  by (simp add: getStatus_def Let_def getRetryAfterMs_def)

lemma getStatus_state [simp]:
  "st_state (fst (getStatus now b)) = state (refreshOpenState now b)"
  "st_failureCount (fst (getStatus now b)) = failureCount (refreshOpenState now b)"
  "st_lastFailureTime (fst (getStatus now b)) = lastFailureTime (refreshOpenState now b)"
  by (simp_all add: getStatus_def Let_def getRetryAfterMs_def)

lemma refreshOpenState_count [simp]:
  "failureCount (refreshOpenState now b) = failureCount b"
  "lastFailureTime (refreshOpenState now b) = lastFailureTime b"
  by (simp_all add: refreshOpenState_def)

section \<open>The invariant of a breaker\<close>

definition valid_config :: "breaker \<Rightarrow> bool" where
  "valid_config b \<longleftrightarrow> 0 < failureThreshold b \<and> 0 \<le> degradationThreshold b \<and> 0 \<le> halfOpenRequests b"

definition breaker_inv :: "breaker \<Rightarrow> bool" where
  "breaker_inv b \<longleftrightarrow>
     0 \<le> failureCount b \<and> 0 \<le> openCycleCount b
     \<and> length (transitionHistory b) \<le> maxTransitionHistory b
     \<and> (state b = CLOSED \<longrightarrow> failureCount b < failureThreshold b \<and> failureCount b \<le> degradationThreshold b)
     \<and> (state b = DEGRADED \<longrightarrow> failureCount b < failureThreshold b)
     \<and> (state b = OPEN \<or> state b = HALF_OPEN \<longrightarrow> lastFailureTime b \<noteq> None)
     \<and> (state b = HALF_OPEN \<longrightarrow> 0 \<le> halfOpenAllowed b \<and> halfOpenAllowed b \<le> halfOpenRequests b)"

inductive breaker_step :: "breaker \<Rightarrow> breaker \<Rightarrow> bool" where
  begin_request: "breaker_step b (snd (executeBegin now b))"
| request_ok: "breaker_step b (onSuccess now b)"
| request_failed: "breaker_step b (onFailure now kind b)"
| probe_state: "breaker_step b (snd (canExecute now b))"
| read_status: "breaker_step b (snd (getStatus now b))"
| manual_reset: "breaker_step b (resetBreaker now b)"

inductive breaker_reaches :: "breaker \<Rightarrow> breaker \<Rightarrow> bool" where
  reaches_refl: "breaker_reaches b b"
| reaches_step: "breaker_reaches b b' \<Longrightarrow> breaker_step b' b'' \<Longrightarrow> breaker_reaches b b''"

inductive_cases breaker_stepE: "breaker_step b b'"

lemma refresh_inv:
  "valid_config b \<Longrightarrow> breaker_inv b \<Longrightarrow>
   valid_config (refreshOpenState now b) \<and> breaker_inv (refreshOpenState now b)"
  using transitionTo_history [of b "maxTransitionHistory b" now HALF_OPEN TimeoutElapsed]
  by (auto simp: refreshOpenState_def breaker_inv_def valid_config_def)

lemma executeBegin_inv:
  "valid_config b \<Longrightarrow> breaker_inv b \<Longrightarrow>
   valid_config (snd (executeBegin now b)) \<and> breaker_inv (snd (executeBegin now b))"
  using refresh_inv [of b now] by (auto simp: executeBegin_def Let_def valid_config_def breaker_inv_def)

lemma onSuccess_inv:
  "valid_config b \<Longrightarrow> breaker_inv b \<Longrightarrow> valid_config (onSuccess now b) \<and> breaker_inv (onSuccess now b)"
  by (cases "state b")
     (auto simp: onSuccess_def Let_def valid_config_def breaker_inv_def transitionTo_history)

lemma onFailure_inv:
  "valid_config b \<Longrightarrow> breaker_inv b \<Longrightarrow>
   valid_config (onFailure now k b) \<and> breaker_inv (onFailure now k b)"
  by (cases "state b")
     (auto simp: onFailure_def Let_def openCircuit_def transitionByCount_def valid_config_def
        breaker_inv_def transitionTo_history)

lemma reset_inv:
  "valid_config b \<Longrightarrow> breaker_inv b \<Longrightarrow>
   valid_config (resetBreaker now b) \<and> breaker_inv (resetBreaker now b)"
  by (auto simp: resetBreaker_def valid_config_def breaker_inv_def transitionTo_history)

lemma breaker_step_inv:
  "breaker_step b b' \<Longrightarrow> valid_config b \<and> breaker_inv b \<Longrightarrow> valid_config b' \<and> breaker_inv b'"
  by (erule breaker_stepE)
     (auto simp: canExecute_def Let_def
        dest: executeBegin_inv onSuccess_inv onFailure_inv reset_inv refresh_inv)

lemma breaker_reaches_inv:
  "breaker_reaches b b' \<Longrightarrow> valid_config b \<and> breaker_inv b \<Longrightarrow> valid_config b' \<and> breaker_inv b'"
  by (induction rule: breaker_reaches.induct) (auto dest: breaker_step_inv)

lemma newBreaker_inv: "valid_config (newBreaker nm opts) \<Longrightarrow> breaker_inv (newBreaker nm opts)"
  by (auto simp: newBreaker_def Let_def breaker_inv_def valid_config_def)

end
