(* ===== verification/BreakerLaws.thy ===== *)
theory BreakerLaws
  imports CircuitBreaker
begin

text \<open>
  What the circuit breaker guarantees: its invariant over every interleaving of operations,
  the exact thresholds, the fence while \<open>OPEN\<close>, the bound on probes, the escalation of the
  reset timeout (an interpretation of \<open>capped_backoff\<close>), the bounded registry and the
  persistence round trip; and two behaviours that its comments do not intend (a breaker
  wedged in \<open>HALF_OPEN\<close>, an opening that is not saved).
\<close>

section \<open>Properties of a breaker\<close>

text \<open>
  C20. The breaker keeps its invariant through every interleaving of requests starting and
  settling, state probes, status reads and manual resets: counters never negative, history
  never longer than its bound, a passing state only below the failure threshold, probe
  permits between 0 and \<open>halfOpenRequests\<close> while \<open>HALF_OPEN\<close>.
\<close>

theorem breaker_invariant:
  assumes "0 < nullish (o_failureThreshold opts) 5"
    and "0 \<le> degradationThreshold (newBreaker nm opts)"
    and "0 \<le> nullish (o_halfOpenRequests opts) 1"
    and "breaker_reaches (newBreaker nm opts) b"
  shows "breaker_inv b"
proof -
  have "valid_config (newBreaker nm opts)"
    using assms(1-3) by (simp add: valid_config_def newBreaker_def Let_def)
  with breaker_reaches_inv [OF assms(4)] newBreaker_inv show ?thesis by blast
qed

text \<open>
  Used on a breaker with the default options that has seen five failures and a status read
  after the reset timeout: it is probing.
\<close>

theorem breaker_invariant_witness:
  "let b = refreshOpenState 40000 (fold (\<lambda>t. onFailure t None) [1, 2, 3, 4, 5] (newBreaker ''glm'' no_options))
   in state b = HALF_OPEN \<and> breaker_inv b"
proof -
  let ?n = "newBreaker ''glm'' no_options"
  let ?b5 = "fold (\<lambda>t. onFailure t None) [1, 2, 3, 4, 5] ?n"
  let ?b = "refreshOpenState 40000 ?b5"
  have r: "breaker_reaches b0 b \<Longrightarrow> breaker_reaches b0 (fold (\<lambda>t. onFailure t None) ts b)" for b0 b ts
    by (induction ts arbitrary: b) (auto intro: reaches_step request_failed)
  have s: "breaker_step b (refreshOpenState t b)" for b t
    using read_status [of b t] by simp
  have "breaker_reaches ?n ?b"
    by (rule reaches_step [OF r s]) (rule reaches_refl)
  from breaker_invariant [OF _ _ _ this] have "breaker_inv ?b"
    by (simp add: no_options_def newBreaker_def Let_def defaultDegradation_def)
  moreover have "state ?b = HALF_OPEN" by code_simp
  ultimately show ?thesis by (simp add: Let_def)
qed

lemma onFailure_plain:
  "onFailure now None b = persistToDb (transitionByCount now None (countFailure now None b))"
  by (simp add: onFailure_def kindThresholdReached_def Let_def)

lemma onFailure_passing:
  assumes "state b = (if degradationThreshold b \<le> failureCount b then DEGRADED else CLOSED)"
    and "0 < degradationThreshold b" and "degradationThreshold b \<le> failureThreshold b"
  shows "state (onFailure now None b) =
           (if failureThreshold b \<le> failureCount b + 1 then OPEN
            else if degradationThreshold b \<le> failureCount b + 1 then DEGRADED else CLOSED)"
  using assms by (auto simp: onFailure_plain transitionByCount_def openCircuit_def Let_def)

lemma onFailure_frame [simp]:
  "failureThreshold (onFailure now k b) = failureThreshold b"
  "degradationThreshold (onFailure now k b) = degradationThreshold b"
  "failureCount (onFailure now k b) = failureCount b + 1"
  "cooldownByKind (onFailure now k b) = cooldownByKind b"
  by (cases "state b";
      simp add: onFailure_def transitionByCount_def openCircuit_def Let_def)+

lemma onFailure_open: "state b = OPEN \<Longrightarrow> state (onFailure now k b) = OPEN"
  by (simp add: onFailure_def transitionByCount_def openCircuit_def Let_def)

lemma fresh_failures:
  assumes "state n = CLOSED" and "failureCount n = 0"
    and "0 < degradationThreshold n" and "degradationThreshold n \<le> failureThreshold n"
  shows "state (fold (\<lambda>t. onFailure t None) ts n) =
     (if failureThreshold n \<le> int (length ts) then OPEN
      else if degradationThreshold n \<le> int (length ts) then DEGRADED
      else CLOSED)"
proof -
  have frame: "failureThreshold (fold (\<lambda>t. onFailure t None) ts b) = failureThreshold b
      \<and> degradationThreshold (fold (\<lambda>t. onFailure t None) ts b) = degradationThreshold b
      \<and> failureCount (fold (\<lambda>t. onFailure t None) ts b) = failureCount b + int (length ts)" for ts b
    by (induction ts arbitrary: b) auto
  show ?thesis
  proof (induction ts rule: rev_induct)
    case Nil
    then show ?case using assms by simp
  next
    case (snoc t ts)
    let ?b = "fold (\<lambda>t. onFailure t None) ts n"
    show ?case
    proof (cases "failureThreshold n \<le> int (length ts)")
      case True
      with snoc show ?thesis by (simp add: onFailure_open)
    next
      case False
      with snoc frame [of ts n] assms
      have "state ?b = (if degradationThreshold ?b \<le> failureCount ?b then DEGRADED else CLOSED)"
        by simp
      from onFailure_passing [OF this, of t] frame [of ts n] assms show ?thesis by simp
    qed
  qed
qed

text \<open>
  C29. The thresholds are exact: after \<open>n\<close> uninterrupted unclassified failures a fresh
  breaker is \<open>OPEN\<close> exactly when \<open>n\<close> reaches the failure threshold, \<open>DEGRADED\<close> exactly
  when it reaches the degradation threshold but not the former, and \<open>CLOSED\<close> below.
\<close>

theorem consecutive_failures:
  assumes "0 < degradationThreshold (newBreaker nm opts)"
    and "degradationThreshold (newBreaker nm opts) \<le> failureThreshold (newBreaker nm opts)"
  shows "state (fold (\<lambda>t. onFailure t None) ts (newBreaker nm opts)) =
     (if failureThreshold (newBreaker nm opts) \<le> int (length ts) then OPEN
      else if degradationThreshold (newBreaker nm opts) \<le> int (length ts) then DEGRADED
      else CLOSED)"
  by (rule fresh_failures) (use assms in \<open>simp_all add: newBreaker_def Let_def\<close>)

theorem consecutive_failures_witness:
  "state (fold (\<lambda>t. onFailure t None) [1, 2, 3] (newBreaker ''glm'' no_options)) = DEGRADED"
  using consecutive_failures [of "''glm''" no_options "[1, 2, 3]"]
  by (simp add: newBreaker_def no_options_def defaultDegradation_def)

text \<open>
  C29. An \<open>OPEN\<close> breaker is a fence for exactly its cooldown: before it has elapsed every
  request is refused with the remaining time, and waiting exactly the reported time gives
  the first probe its slot.
\<close>

theorem open_fence:
  assumes "state b = OPEN" and "lastFailureTime b = Some t" and "t \<noteq> 0"
    and "now - t < effectiveCooldown b" and "0 < halfOpenRequests b"
  shows "executeBegin now b = (Inl (CircuitOpen (effectiveCooldown b - (now - t))), b)
    \<and> fst (canExecute now b) = False
    \<and> 0 < fst (getRetryAfterMs now b)
    \<and> fst (executeBegin (now + fst (getRetryAfterMs now b)) b) = Inr ()"
proof -
  have shut: "refreshOpenState now b = b"
    using assms by (simp add: refreshOpenState_def shouldAttemptReset_def)
  have wait: "fst (getRetryAfterMs now b) = effectiveCooldown b - (now - t)"
    using assms shut by (simp add: getRetryAfterMs_def timeUntilReset_def Let_def)
  have "refreshOpenState (now + fst (getRetryAfterMs now b)) b
      = persistToDb (transitionTo (now + fst (getRetryAfterMs now b)) HALF_OPEN TimeoutElapsed b)"
    using assms wait by (simp add: refreshOpenState_def shouldAttemptReset_def)
  with assms shut wait show ?thesis
    by (simp add: executeBegin_def canExecute_def timeUntilReset_def Let_def)
qed

theorem open_fence_witness:
  "let b = fold (\<lambda>t. onFailure t None) [1, 2, 3, 4, 5] (newBreaker ''glm'' no_options)
   in fst (executeBegin 100 b) = Inl (CircuitOpen 29905) \<and> fst (executeBegin 30005 b) = Inr ()"
proof -
  let ?b = "fold (\<lambda>t. onFailure t None) [1, 2, 3, 4, 5] (newBreaker ''glm'' no_options)"
  have h: "state ?b = OPEN" "lastFailureTime ?b = Some 5" "effectiveCooldown ?b = 30000"
      "halfOpenRequests ?b = 1" "fst (getRetryAfterMs 100 ?b) = 29905"
    by code_simp+
  then have "(100::int) - 5 < effectiveCooldown ?b" "0 < halfOpenRequests ?b" by simp_all
  from open_fence [OF h(1,2) _ this] h show ?thesis by (simp add: Let_def)
qed

text \<open>Starting requests one after the other, counting the admitted ones.\<close>

fun admits :: "int list \<Rightarrow> breaker \<Rightarrow> nat \<times> breaker" where
  "admits [] b = (0, b)"
| "admits (t # ts) b =
     (let (r, b1) = executeBegin t b; (n, b2) = admits ts b1
      in (case r of Inr _ \<Rightarrow> Suc n | Inl _ \<Rightarrow> n, b2))"

lemma admits_half_open:
  "state b = HALF_OPEN \<Longrightarrow> fst (admits ts b) = min (length ts) (nat (halfOpenAllowed b))"
proof (induction ts arbitrary: b)
  case Nil
  then show ?case by simp
next
  case (Cons t ts)
  have r: "refreshOpenState t b = b" using Cons.prems by (simp add: refreshOpenState_idle)
  show ?case
  proof (cases "0 < halfOpenAllowed b")
    case True
    let ?b = "b\<lparr>halfOpenAllowed := halfOpenAllowed b - 1\<rparr>"
    have "executeBegin t b = (Inr (), ?b)"
      using r True Cons.prems by (simp add: executeBegin_def Let_def)
    moreover from Cons.prems have "state ?b = HALF_OPEN" by simp
    note Cons.IH [OF this]
    ultimately show ?thesis using True by (simp add: split_beta nat_diff_distrib)
  next
    case False
    then have "executeBegin t b = (Inl (NoProbeLeft (timeUntilReset t b)), b)"
      using r Cons.prems by (simp add: executeBegin_def Let_def)
    with False Cons show ?thesis by (simp add: split_beta)
  qed
qed

text \<open>
  C33. The thundering herd is contained: of any burst of requests that starts when the
  cooldown has elapsed, exactly \<open>halfOpenRequests\<close> are let through before one of them
  settles (all of them, when the burst is smaller).
\<close>

theorem probe_burst_bound:
  assumes "state b = OPEN" and "shouldAttemptReset t b"
  shows "fst (admits (t # ts) b) = min (Suc (length ts)) (nat (halfOpenRequests b))"
proof -
  let ?h = "refreshOpenState t b"
  have h: "?h = persistToDb (transitionTo t HALF_OPEN TimeoutElapsed b)"
    using assms by (simp add: refreshOpenState_def)
  have "executeBegin t b = executeBegin t ?h"
    by (simp add: executeBegin_def)
  then have "admits (t # ts) b = admits (t # ts) ?h" by simp
  also have "fst \<dots> = min (length (t # ts)) (nat (halfOpenAllowed ?h))"
    by (rule admits_half_open) (simp add: h)
  finally show ?thesis by (simp add: h)
qed

theorem probe_burst_bound_witness:
  "let b = fold (\<lambda>t. onFailure t None) [1, 2, 3, 4, 5] (newBreaker ''glm'' no_options)
   in fst (admits [30005, 30005, 30006, 30007] b) = 1"
proof -
  let ?b = "fold (\<lambda>t. onFailure t None) [1, 2, 3, 4, 5] (newBreaker ''glm'' no_options)"
  have "state ?b = OPEN" "shouldAttemptReset 30005 ?b" "halfOpenRequests ?b = 1"
    by code_simp+
  with probe_burst_bound [of ?b 30005 "[30005, 30006, 30007]"] show ?thesis by (simp add: Let_def)
qed

text \<open>
  A request that neither counts as a success nor as a failure: it starts, and settles with
  an error that \<open>isFailure\<close> rejects (\<open>src/sse/handlers/chatHelpers.ts\<close> passes
  \<open>!isLocalStreamLifecycleError\<close>, so every client abort is one).
\<close>

definition ignoredRequest :: "int \<Rightarrow> breaker \<Rightarrow> breaker" where
  "ignoredRequest now b =
     (case executeBegin now b of
        (Inr _, b1) \<Rightarrow>
          executeEnd (\<lambda>e. \<not> isLocalStreamLifecycleError e) None now
            (Inl (ErrObject (Some ''AbortError'') None) :: js_error + unit) b1
      | (Inl _, b1) \<Rightarrow> b1)"

lemma ignoredRequest_eq: "ignoredRequest now b = snd (executeBegin now b)"
  by (simp add: ignoredRequest_def executeEnd_def isLocalStreamLifecycleError_def Let_def
      split: prod.split sum.split)

text \<open>
  A half-open breaker whose probes were all aborted by their clients is stuck: once the
  permits are used up by requests whose errors do not count, no later request is admitted,
  at any time, however long the breaker waits, and no state probe or status read changes
  that. Only an explicit reset, or another request that was already in flight, ends it.
\<close>

theorem half_open_wedge:
  assumes "state b = OPEN" and "shouldAttemptReset t0 b" and "halfOpenRequests b = 1"
  shows "let w = ignoredRequest t0 b in
    state w = HALF_OPEN
    \<and> fst (executeBegin t w) = Inl (NoProbeLeft (timeUntilReset t w))
    \<and> fst (canExecute t w) = False
    \<and> ignoredRequest t w = w \<and> snd (canExecute t w) = w \<and> snd (getStatus t w) = w"
proof -
  let ?w = "ignoredRequest t0 b"
  have "refreshOpenState t0 b = persistToDb (transitionTo t0 HALF_OPEN TimeoutElapsed b)"
    using assms by (simp add: refreshOpenState_def)
  then have w: "state ?w = HALF_OPEN" "halfOpenAllowed ?w = 0"
    using assms(3) by (simp_all add: ignoredRequest_eq executeBegin_def Let_def)
  then have "refreshOpenState t ?w = ?w" by (simp add: refreshOpenState_idle)
  with w show ?thesis
    by (simp add: Let_def executeBegin_def canExecute_def ignoredRequest_eq)
qed

theorem half_open_wedge_witness:
  "let b = fold (\<lambda>t. onFailure t None) [1, 2, 3, 4, 5] (newBreaker ''codex'' no_options)
   in fst (executeBegin 999999999 (ignoredRequest 30005 b)) = Inl (NoProbeLeft 0)"
proof -
  let ?b = "fold (\<lambda>t. onFailure t None) [1, 2, 3, 4, 5] (newBreaker ''codex'' no_options)"
  have "state ?b = OPEN" "shouldAttemptReset 30005 ?b" "halfOpenRequests ?b = 1"
    "timeUntilReset 999999999 (ignoredRequest 30005 ?b) = 0"
    by code_simp+
  with half_open_wedge [of ?b 30005 999999999] show ?thesis by (simp add: Let_def)
qed

text \<open>
  A failure that reaches the threshold of its kind opens the circuit in memory, but the
  function returns before the state is saved: the row last handed to the database is the
  one from before the failure, and an escalation cycle is not counted.
\<close>

theorem kind_threshold_open_not_saved:
  assumes "kindThresholdReached kind (countFailure now kind b)"
  shows "state (onFailure now kind b) = OPEN
    \<and> savedRow (onFailure now kind b) = savedRow b
    \<and> openCycleCount (onFailure now kind b) = openCycleCount b"
  using assms by (simp add: onFailure_def openCircuit_def Let_def)

definition quotaOptions :: breaker_options where
  "quotaOptions = no_options\<lparr>o_kindThresholds :=
     Some [Quota_exhausted \<mapsto> \<lparr>kt_threshold = Some 2, kt_cooldown = None, kt_immediateOpen = True\<rparr>]\<rparr>"

theorem kind_threshold_open_not_saved_witness:
  "let b = onFailure 5 (Some Quota_exhausted) (newBreaker ''glm'' quotaOptions);
       b' = onFailure 6 (Some Quota_exhausted) b
   in state b' = OPEN \<and> map_option sv_state (savedRow b') = Some (Some CLOSED)"
proof -
  let ?b = "onFailure 5 (Some Quota_exhausted) (newBreaker ''glm'' quotaOptions)"
  have "kindThresholdReached (Some Quota_exhausted) (countFailure 6 (Some Quota_exhausted) ?b)"
    "map_option sv_state (savedRow ?b) = Some (Some CLOSED)"
    by code_simp+
  with kind_threshold_open_not_saved [of "Some Quota_exhausted" 6 ?b] show ?thesis
    by (simp add: Let_def)
qed

section \<open>Backoff\<close>

text \<open>The reset timeout as a function of the number of failed probe cycles.\<close>

definition timeoutAfterCycles :: "breaker \<Rightarrow> nat \<Rightarrow> int" where
  "timeoutAfterCycles b n = effectiveResetTimeout (b\<lparr>openCycleCount := int n\<rparr>)"

lemma timeoutAfterCycles_eq:
  assumes "0 \<le> resetTimeout b" and "1 \<le> maxBackoffMultiplier b"
  shows "timeoutAfterCycles b n =
    min (resetTimeout b * 2 ^ nat (int n - backoffEscalationCount b))
        (resetTimeout b * maxBackoffMultiplier b)"
proof (cases "int n \<le> backoffEscalationCount b")
  case True
  have "resetTimeout b * 1 \<le> resetTimeout b * maxBackoffMultiplier b"
    by (rule mult_left_mono) (use assms in auto)
  with True show ?thesis by (simp add: timeoutAfterCycles_def effectiveResetTimeout_def)
next
  case False
  then show ?thesis by (simp add: timeoutAfterCycles_def effectiveResetTimeout_def)
qed

interpretation breaker_backoff:
  capped_backoff
    "timeoutAfterCycles (b\<lparr>resetTimeout := int r, maxBackoffMultiplier := int (Suc m)\<rparr>)"
    "int r * int (Suc m)"
  for b :: breaker and r m :: nat
proof
  let ?b = "b\<lparr>resetTimeout := int r, maxBackoffMultiplier := int (Suc m)\<rparr>"
  let ?e = "\<lambda>n. nat (int n - backoffEscalationCount b)"
  have eq: "timeoutAfterCycles ?b n = min (int r * 2 ^ ?e n) (int r * int (Suc m))" for n
    by (subst timeoutAfterCycles_eq) simp_all
  show "0 \<le> timeoutAfterCycles ?b 0"
    unfolding eq by simp
  show "timeoutAfterCycles ?b n \<le> timeoutAfterCycles ?b (Suc n)" for n
    unfolding eq by (rule min_pow_step) auto
  show "timeoutAfterCycles ?b (Suc n) \<le> 2 * timeoutAfterCycles ?b n" for n
    unfolding eq by (rule min_pow_double) auto
  show "timeoutAfterCycles ?b n \<le> int r * int (Suc m)" for n
    unfolding eq by simp
qed

text \<open>
  The reset timeout escalates safely: it never shrinks as probe cycles fail, at most
  doubles from one cycle to the next, and stays between \<open>resetTimeout\<close> and
  \<open>resetTimeout * maxBackoffMultiplier\<close>.
\<close>

theorem reset_timeout_backoff:
  assumes "0 \<le> resetTimeout b" and "1 \<le> maxBackoffMultiplier b" and "i \<le> j"
  shows "timeoutAfterCycles b i \<le> timeoutAfterCycles b j
    \<and> timeoutAfterCycles b (Suc i) \<le> 2 * timeoutAfterCycles b i
    \<and> min (resetTimeout b) (timeoutAfterCycles b 0) \<le> timeoutAfterCycles b i
    \<and> timeoutAfterCycles b i \<le> resetTimeout b * maxBackoffMultiplier b"
proof -
  obtain r where r: "resetTimeout b = int r" using assms(1) nonneg_int_cases by blast
  obtain m where m: "maxBackoffMultiplier b = int (Suc m)"
    using assms(2) by (auto intro: that [of "nat (maxBackoffMultiplier b - 1)"])
  have b: "b\<lparr>resetTimeout := int r, maxBackoffMultiplier := int (Suc m)\<rparr> = b"
    using r m by simp
  show ?thesis
    using breaker_backoff.delay_mono [OF assms(3), of m r b] breaker_backoff.delay_mono [of 0 i m r b]
      breaker_backoff.delay_double [of m r b i] breaker_backoff.delay_cap [of m r b i]
    unfolding b using r m by simp
qed

theorem reset_timeout_backoff_witness:
  "timeoutAfterCycles (newBreaker ''glm'' no_options) 5 = 120000
   \<and> timeoutAfterCycles (newBreaker ''glm'' no_options) 50 \<le> 480000"
proof -
  let ?b = "newBreaker ''glm'' no_options"
  have "resetTimeout ?b = 30000" "maxBackoffMultiplier ?b = 16" "timeoutAfterCycles ?b 5 = 120000"
    by code_simp+
  with reset_timeout_backoff [of ?b 50 50] show ?thesis by simp
qed

section \<open>The registry\<close>

definition isCold :: "int \<Rightarrow> breaker \<Rightarrow> bool" where
  "isCold now b \<longleftrightarrow> state (refreshOpenState now b) = CLOSED \<and> failureCount b = 0"

lemma jkeys_refreshAll [simp]: "jkeys (refreshAll now reg) = jkeys reg"
  by (induction reg) (auto simp: jkeys_def refreshAll_def)

lemma jinv_refreshAll [simp]: "jinv (refreshAll now reg) = jinv reg"
  by (simp add: jinv_def)

lemma jget_refreshAll [simp]:
  "jget nm (refreshAll now reg) = map_option (refreshOpenState now) (jget nm reg)"
  by (induction reg) (auto simp: refreshAll_def jget_Cons)

lemma coldCandidates_mset:
  "mset (map fst (coldCandidates now reg)) = mset (map fst (filter (\<lambda>(nm, b). isCold now b) reg))"
proof -
  have "mset (map fst (coldCandidates now reg)) = image_mset fst (mset (coldCandidates now reg))"
    by simp
  also have "\<dots> = mset (map fst (map (\<lambda>(nm, b). (nm, js_or (st_lastFailureTime (fst (getStatus now b))) 0))
          (filter (\<lambda>(nm, b). let st = fst (getStatus now b)
                             in st_state st = CLOSED \<and> st_failureCount st = 0) reg)))"
    by (simp only: coldCandidates_def mset_sort mset_map)
  also have "\<dots> = mset (map fst (filter (\<lambda>(nm, b). isCold now b) reg))"
    by (simp add: isCold_def Let_def comp_def split_beta)
  finally show ?thesis .
qed

lemma coldCandidates_facts:
  assumes "jinv reg"
  shows "distinct (map fst (coldCandidates now reg))"
    and "nm \<in> set (map fst (coldCandidates now reg)) \<longleftrightarrow> (\<exists>b. jget nm reg = Some b \<and> isCold now b)"
    and "length (coldCandidates now reg) = length (filter (\<lambda>(nm, b). isCold now b) reg)"
proof -
  note m = coldCandidates_mset [of now reg]
  have "distinct (map fst (filter (\<lambda>(nm, b). isCold now b) reg))"
    using assms by (simp add: jinv_def jkeys_def distinct_map_filter)
  then show "distinct (map fst (coldCandidates now reg))"
    using m by (metis mset_eq_imp_distinct_iff)
  have "set (map fst (coldCandidates now reg)) = set (map fst (filter (\<lambda>(nm, b). isCold now b) reg))"
    using m by (rule mset_eq_setD)
  then show "nm \<in> set (map fst (coldCandidates now reg)) \<longleftrightarrow> (\<exists>b. jget nm reg = Some b \<and> isCold now b)"
  proof -
    assume "set (map fst (coldCandidates now reg)) = set (map fst (filter (\<lambda>(nm, b). isCold now b) reg))"
    moreover have "nm \<in> set (map fst (filter (\<lambda>(nm, b). isCold now b) reg))
        \<longleftrightarrow> (\<exists>b. (nm, b) \<in> set reg \<and> isCold now b)"
      by force
    ultimately show ?thesis using assms by (simp add: jget_eq_Some_iff)
  qed
  show "length (coldCandidates now reg) = length (filter (\<lambda>(nm, b). isCold now b) reg)"
    using m by (metis length_map size_mset)
qed

lemma evict_facts:
  fixes now :: int and reg :: registry
  assumes "jinv reg"
  defines "r \<equiv> fst (evictColdBreakersIfNeeded now reg)"
  shows "jinv r"
    and "jget nm reg = Some b \<Longrightarrow> \<not> isCold now b \<Longrightarrow> jget nm r = Some b \<or> jget nm r = Some (refreshOpenState now b)"
    and "jget nm reg = Some b \<Longrightarrow> isCold now b \<Longrightarrow> jsize reg \<le> MAX_REGISTRY_SIZE \<Longrightarrow> jsize r < MAX_REGISTRY_SIZE"
proof -
  let ?cs = "coldCandidates now reg"
  let ?t = "jsize reg - MAX_REGISTRY_SIZE + 1"
  let ?d = "map fst (take ?t ?cs)"
  note c = coldCandidates_facts [OF assms(1)]
  show "jinv r"
    using assms(1) by (simp add: r_def evictColdBreakersIfNeeded_def Let_def)
  show "jget nm r = Some b \<or> jget nm r = Some (refreshOpenState now b)"
    if "jget nm reg = Some b" "\<not> isCold now b"
  proof -
    have "nm \<notin> set (map fst ?cs)" using c(2) [of nm now] that by simp
    then have "nm \<notin> set ?d" by (metis take_map in_set_takeD)
    with that show ?thesis by (simp add: r_def evictColdBreakersIfNeeded_def Let_def)
  qed
  show "jsize r < MAX_REGISTRY_SIZE"
    if b: "jget nm reg = Some b" "isCold now b" and le: "jsize reg \<le> MAX_REGISTRY_SIZE"
  proof (cases "jsize reg < MAX_REGISTRY_SIZE")
    case True
    then show ?thesis by (simp add: r_def evictColdBreakersIfNeeded_def)
  next
    case False
    with le have t: "?t = 1" by simp
    have "nm \<in> set (map fst ?cs)" using c(2) [of nm now] b by blast
    then have "?cs \<noteq> []" by auto
    then obtain x xs where cs: "?cs = x # xs" by (cases ?cs) auto
    have "fst x \<in> set (jkeys reg)"
      using c(2) [of "fst x" now] cs by (auto simp: jhas_def simp flip: jhas_iff)
    then have "jsize (jdel_all [fst x] (refreshAll now reg)) + 1 = jsize (refreshAll now reg)"
      using jsize_jdel_all [of "refreshAll now reg" "[fst x]"] assms(1) by simp
    moreover have "jsize (refreshAll now reg) = jsize reg" by (simp add: jsize_keys)
    ultimately show ?thesis
      using False le t cs by (simp add: r_def evictColdBreakersIfNeeded_def Let_def)
  qed
qed

lemma getCircuitBreaker_new:
  "\<not> jhas nm reg \<Longrightarrow> jget n (snd (getCircuitBreaker now nm options reg)) =
     (if n = nm then Some (fst (getCircuitBreaker now nm options reg))
      else jget n (fst (evictColdBreakersIfNeeded now reg)))"
  by (simp add: getCircuitBreaker_def Let_def)

lemma jsize_getCircuitBreaker:
  "jsize (snd (getCircuitBreaker now nm options reg)) =
     (if jhas nm reg then jsize reg
      else jsize (jset nm (newBreaker nm (nullish options no_options))
             (fst (evictColdBreakersIfNeeded now reg))))"
  by (auto simp: getCircuitBreaker_def Let_def jsize_jset jhas_def)

text \<open>
  C30. Asking for a breaker never pushes the registry over its bound while an idle one can
  make room, and the eviction is safe: a breaker of another provider that is not
  \<open>CLOSED\<close> with zero failures is still registered afterwards, unchanged but for an
  elapsed \<open>OPEN\<close> state having become \<open>HALF_OPEN\<close>.
\<close>

theorem registry_bounded_and_safe:
  assumes "jinv reg" and "jsize reg \<le> MAX_REGISTRY_SIZE"
    and "jget n0 reg = Some b0" and "isCold now b0"
  shows "jsize (snd (getCircuitBreaker now nm options reg)) \<le> MAX_REGISTRY_SIZE
    \<and> (\<forall>n b. n \<noteq> nm \<and> jget n reg = Some b \<and> \<not> isCold now b \<longrightarrow>
         jget n (snd (getCircuitBreaker now nm options reg)) \<in> {Some b, Some (refreshOpenState now b)})"
proof (cases "jhas nm reg")
  case True
  have "jget n (snd (getCircuitBreaker now nm options reg)) = jget n reg" if "n \<noteq> nm" for n
    using that True by (simp add: getCircuitBreaker_def Let_def)
  with True assms(2) show ?thesis by (simp add: jsize_getCircuitBreaker)
next
  case False
  note e = evict_facts [OF assms(1)]
  have "jsize (fst (evictColdBreakersIfNeeded now reg)) < MAX_REGISTRY_SIZE"
    by (rule e(3) [OF assms(3,4,2)])
  with False have "jsize (snd (getCircuitBreaker now nm options reg)) \<le> MAX_REGISTRY_SIZE"
    by (simp add: jsize_getCircuitBreaker jsize_jset)
  moreover have "jget n (snd (getCircuitBreaker now nm options reg)) \<in> {Some b, Some (refreshOpenState now b)}"
    if "n \<noteq> nm" "jget n reg = Some b" "\<not> isCold now b" for n b
    using e(2) [OF that(2,3)] that(1) False by (simp add: getCircuitBreaker_new)
  ultimately show ?thesis by blast
qed

theorem registry_bounded_and_safe_witness:
  "jsize (snd (getCircuitBreaker 9 ''new'' None [(''glm'', newBreaker ''glm'' no_options)])) \<le> MAX_REGISTRY_SIZE"
proof -
  let ?reg = "[(''glm'', newBreaker ''glm'' no_options)]"
  have "jinv ?reg" "jsize ?reg \<le> MAX_REGISTRY_SIZE" "isCold 9 (newBreaker ''glm'' no_options)"
    by (simp_all add: jinv_def jkeys_def jsize_def MAX_REGISTRY_SIZE_def isCold_def refreshOpenState_def
          newBreaker_def Let_def)
  moreover have "jget ''glm'' ?reg = Some (newBreaker ''glm'' no_options)"
    by (simp add: jget_Cons)
  ultimately show ?thesis
    using registry_bounded_and_safe [of ?reg "''glm''" "newBreaker ''glm'' no_options" 9 "''new''" None]
    by simp
qed

text \<open>
  C36. Persistence round trip: a breaker rebuilt from the row of another one has its state,
  its counters, its last failure and its cooldown, and only in \<open>HALF_OPEN\<close> does it start
  with a full set of probe permits.
\<close>

theorem persist_restore_roundtrip:
  assumes "resetTimeout n = resetTimeout b" and "backoffEscalationCount n = backoffEscalationCount b"
    and "maxBackoffMultiplier n = maxBackoffMultiplier b" and "cooldownByKind n = cooldownByKind b"
    and "lastFailureKind n = None"
    and "savedRow (persistToDb b) = Some row"
  shows "let r = restoreFromDb (Some row) n in
    state r = state b \<and> failureCount r = failureCount b \<and> lastFailureTime r = lastFailureTime b
    \<and> openCycleCount r = openCycleCount b \<and> kindFailureCounts r = kindFailureCounts b
    \<and> effectiveCooldown r = effectiveCooldown b \<and> timeUntilReset now r = timeUntilReset now b
    \<and> (state b = HALF_OPEN \<longrightarrow> halfOpenAllowed r = halfOpenRequests n)"
proof -
  have row: "row = rowOf b" using assms(6) by simp
  let ?r = "restoreFromDb (Some (rowOf b)) n"
  have f: "state ?r = state b" "failureCount ?r = failureCount b" "lastFailureTime ?r = lastFailureTime b"
    "openCycleCount ?r = openCycleCount b" "kindFailureCounts ?r = kindFailureCounts b"
    "lastFailureKind ?r = lastFailureKind b" "resetTimeout ?r = resetTimeout n"
    "backoffEscalationCount ?r = backoffEscalationCount n"
    "maxBackoffMultiplier ?r = maxBackoffMultiplier n" "cooldownByKind ?r = cooldownByKind n"
    "state b = HALF_OPEN \<longrightarrow> halfOpenAllowed ?r = halfOpenRequests n"
    using assms(5) by (cases "lastFailureKind b"; simp add: restoreFromDb_def rowOf_def Let_def)+
  have c: "effectiveCooldown ?r = effectiveCooldown b"
    unfolding effectiveCooldown_def effectiveResetTimeout_def f assms(1-4) ..
  show ?thesis unfolding row Let_def timeUntilReset_def c f using f(11) by simp
qed

theorem persist_restore_roundtrip_witness:
  "let b = fold (\<lambda>t. onFailure t None) [1, 2, 3, 4, 5] (newBreaker ''glm'' no_options);
       r = restoreFromDb (savedRow b) (newBreaker ''glm'' no_options)
   in state r = OPEN \<and> timeUntilReset 100 r = 29905"
proof -
  let ?n = "newBreaker ''glm'' no_options"
  let ?b = "fold (\<lambda>t. onFailure t None) [1, 2, 3, 4, 5] ?n"
  have "resetTimeout ?n = resetTimeout ?b" "backoffEscalationCount ?n = backoffEscalationCount ?b"
    "maxBackoffMultiplier ?n = maxBackoffMultiplier ?b" "lastFailureKind ?n = None"
    "state ?b = OPEN" "timeUntilReset 100 ?b = 29905"
    by code_simp+
  moreover have "cooldownByKind ?n = cooldownByKind ?b"
    by simp
  moreover have "savedRow (persistToDb ?b) = savedRow ?b"
    by (simp add: onFailure_plain persistToDb_def rowOf_def)
  ultimately show ?thesis
    using persist_restore_roundtrip [of ?n ?b "rowOf ?b" 100] by (simp add: Let_def)
qed

end
