(* ===== verification/SlotGate.thy ===== *)
theory SlotGate
  imports Prelude
begin

text \<open>
  The contract of a gate that hands out a limited number of slots in FIFO order. Both
  semaphores of the program (\<open>accountSemaphore.ts\<close>, \<open>rateLimitSemaphore.ts\<close>) drain their
  queue with the same loop over their own gate type; the laws below are that loop, and the
  lemmas are what every caller of \<open>drainQueue\<close> relies on.
\<close>

section \<open>Interface: a FIFO slot gate\<close>

locale slot_gate =
  fixes running :: "'g \<Rightarrow> int"
    and cap :: "'g \<Rightarrow> int"
    and waiting :: "'g \<Rightarrow> 'w list"
    and blocked :: "'g \<Rightarrow> bool"
    and admit :: "'g \<Rightarrow> 'g"
    and drain :: "'g \<Rightarrow> 'g \<times> 'w list"
  assumes waiting_admit: "waiting g \<noteq> [] \<Longrightarrow> waiting (admit g) = tl (waiting g)"
    and running_admit: "running (admit g) = running g + 1"
    and cap_admit: "cap (admit g) = cap g"
    and blocked_admit: "\<not> blocked g \<Longrightarrow> \<not> blocked (admit g)"
    and drain_unfold: "drain g =
      (if waiting g \<noteq> [] \<and> running g < cap g \<and> \<not> blocked g
       then (let (g', ws) = drain (admit g) in (g', hd (waiting g) # ws)) else (g, []))"
begin

lemma drain_induct [case_names admit stop]:
  assumes "\<And>g. waiting g \<noteq> [] \<Longrightarrow> running g < cap g \<Longrightarrow> \<not> blocked g \<Longrightarrow> P (admit g) \<Longrightarrow> P g"
    and "\<And>g. \<not> (waiting g \<noteq> [] \<and> running g < cap g \<and> \<not> blocked g) \<Longrightarrow> P g"
  shows "P g"
proof (induction "length (waiting g)" arbitrary: g rule: less_induct)
  case less
  show ?case
  proof (cases "waiting g \<noteq> [] \<and> running g < cap g \<and> \<not> blocked g")
    case True
    then have "length (waiting (admit g)) < length (waiting g)"
      by (simp add: waiting_admit)
    with less True show ?thesis by (auto intro: assms(1))
  next
    case False
    then show ?thesis by (rule assms(2))
  qed
qed

lemma drain_step:
  assumes "waiting g \<noteq> []" and "running g < cap g" and "\<not> blocked g"
  shows "drain g = (fst (drain (admit g)), hd (waiting g) # snd (drain (admit g)))"
proof -
  have c: "waiting g \<noteq> [] \<and> running g < cap g \<and> \<not> blocked g" using assms by blast
  obtain g' ws where d: "drain (admit g) = (g', ws)" by (rule prod.exhaust)
  have "drain g = (let (g', ws) = drain (admit g) in (g', hd (waiting g) # ws))"
    using drain_unfold [of g] if_P [OF c] by (rule trans)
  then show ?thesis by (simp only: d Let_def prod.case fst_conv snd_conv)
qed

lemma drain_stop:
  "\<not> (waiting g \<noteq> [] \<and> running g < cap g \<and> \<not> blocked g) \<Longrightarrow> drain g = (g, [])"
  by (simp only: drain_unfold [of g] if_False)

text \<open>Waiters leave in FIFO order: the served ones are a prefix of the queue.\<close>

lemma drain_fifo: "snd (drain g) @ waiting (fst (drain g)) = waiting g"
proof (induction g rule: drain_induct)
  case (admit g)
  then show ?case by (simp add: drain_step waiting_admit)
next
  case (stop g)
  then show ?case by (simp add: drain_stop)
qed

lemma drain_running: "running (fst (drain g)) = running g + int (length (snd (drain g)))"
proof (induction g rule: drain_induct)
  case (admit g)
  then show ?case by (simp add: drain_step running_admit)
next
  case (stop g)
  then show ?case by (simp add: drain_stop)
qed

lemma drain_cap: "cap (fst (drain g)) = cap g"
proof (induction g rule: drain_induct)
  case (admit g)
  then show ?case by (simp add: drain_step cap_admit)
next
  case (stop g)
  then show ?case by (simp add: drain_stop)
qed

lemma drain_bound: "running g \<le> c \<Longrightarrow> cap g \<le> c \<Longrightarrow> running (fst (drain g)) \<le> c"
proof (induction g rule: drain_induct)
  case (admit g)
  then show ?case by (simp add: drain_step running_admit cap_admit)
next
  case (stop g)
  then show ?case by (simp add: drain_stop)
qed

text \<open>The loop leaves no waiter behind while a slot is free.\<close>

lemma drain_exhausts:
  "waiting (fst (drain g)) = [] \<or> cap g \<le> running (fst (drain g)) \<or> blocked (fst (drain g))"
proof (induction g rule: drain_induct)
  case (admit g)
  then show ?case by (simp add: drain_step cap_admit)
next
  case (stop g)
  then show ?case by (auto simp: drain_stop)
qed

lemma drain_unblocked: "\<not> blocked g \<Longrightarrow> \<not> blocked (fst (drain g))"
proof (induction g rule: drain_induct)
  case (admit g)
  then show ?case by (simp add: drain_step blocked_admit)
next
  case (stop g)
  then show ?case by (simp add: drain_stop)
qed

text \<open>How many are served is determined.\<close>

lemma drain_count:
  "\<not> blocked g \<Longrightarrow> length (snd (drain g)) = min (length (waiting g)) (nat (cap g - running g))"
proof (induction g rule: drain_induct)
  case (admit g)
  then have "length (snd (drain (admit g))) = min (length (waiting g) - 1) (nat (cap g - running g - 1))"
    by (simp add: blocked_admit waiting_admit cap_admit running_admit diff_diff_eq)
  with admit show ?case by (cases "waiting g") (auto simp: drain_step nat_diff_distrib)
next
  case (stop g)
  then show ?case by (auto simp: drain_stop)
qed

end

end
