(* ===== verification/AccountSemaphore.thy ===== *)
theory AccountSemaphore
  imports SlotGate
begin

text \<open>
  The per-account concurrency limiter of \<open>open-sse/services/accountSemaphore.ts\<close>.

  Every call of \<open>acquire\<close> gets a number; it is the identity of its promise, of its queue
  timer and of the release function it may return. The state holds the gates, the release
  functions that have not been called yet (\<open>held\<close>), the pending queue timers and the
  abort listeners, and the settled promises (\<open>settled\<close>). A timer firing, an abort and a
  cleanup are operations of their own, so that every interleaving of the event loop is a
  sequence of operations.
\<close>

section \<open>State\<close>

record gate =
  running :: int
  maxConcurrency :: int
  queue :: "nat list"
  blockedUntil :: "int option"
  cleanupTimer :: bool

datatype outcome = Granted | TimedOut | QueueFull | ResetErr | Aborted

record semaphore =
  gates :: "(string, gate) jmap"
  nextId :: nat
  held :: "(nat \<times> string) list"
  timers :: "(nat \<times> string) list"
  listeners :: "nat list"
  settled :: "(nat \<times> outcome) list"

definition DEFAULT_TIMEOUT_MS :: int where "DEFAULT_TIMEOUT_MS = 30000"

definition DEFAULT_MAX_QUEUE_SIZE :: nat where "DEFAULT_MAX_QUEUE_SIZE = 20"

definition emptySemaphore :: semaphore where
  "emptySemaphore = \<lparr>gates = [], nextId = 0, held = [], timers = [], listeners = [], settled = []\<rparr>"

definition buildAccountSemaphoreKey :: "string \<Rightarrow> string \<Rightarrow> string" where
  "buildAccountSemaphoreKey provider accountKey = provider @ '':'' @ accountKey"

section \<open>Gate helpers\<close>

definition isBypassed :: "int option \<Rightarrow> bool" where
  "isBypassed m \<longleftrightarrow> (case m of None \<Rightarrow> True | Some c \<Rightarrow> c \<le> 0)"

definition newGate :: "int \<Rightarrow> gate" where
  "newGate c = \<lparr>running = 0, maxConcurrency = c, queue = [], blockedUntil = None, cleanupTimer = False\<rparr>"

definition ensureGate :: "string \<Rightarrow> int \<Rightarrow> semaphore \<Rightarrow> semaphore" where
  "ensureGate k c s =
     (case jget k (gates s) of
        Some g \<Rightarrow> s\<lparr>gates := jset k (g\<lparr>maxConcurrency := c\<rparr>) (gates s)\<rparr>
      | None \<Rightarrow> s\<lparr>gates := jset k (newGate c) (gates s)\<rparr>)"

text \<open>\<open>isBlocked\<close> answers and clears an expired \<open>blockedUntil\<close>.\<close>

definition isBlocked :: "int \<Rightarrow> gate \<Rightarrow> bool" where
  "isBlocked now g \<longleftrightarrow> \<not> falsy_num (blockedUntil g) \<and> now < the (blockedUntil g)"

definition clearExpired :: "int \<Rightarrow> gate \<Rightarrow> gate" where
  "clearExpired now g =
     (if falsy_num (blockedUntil g) \<or> isBlocked now g then g else g\<lparr>blockedUntil := None\<rparr>)"

definition setGate :: "string \<Rightarrow> gate \<Rightarrow> semaphore \<Rightarrow> semaphore" where
  "setGate k g s = s\<lparr>gates := jset k g (gates s)\<rparr>"

definition settle :: "nat \<Rightarrow> outcome \<Rightarrow> semaphore \<Rightarrow> semaphore" where
  "settle i r s = s\<lparr>settled := settled s @ [(i, r)], listeners := removeAll i (listeners s)\<rparr>"

definition scheduleCleanup :: "string \<Rightarrow> semaphore \<Rightarrow> semaphore" where
  "scheduleCleanup k s =
     (case jget k (gates s) of None \<Rightarrow> s | Some g \<Rightarrow> setGate k (g\<lparr>cleanupTimer := True\<rparr>) s)"

definition cleanupGateIfIdle :: "int \<Rightarrow> string \<Rightarrow> semaphore \<Rightarrow> semaphore" where
  "cleanupGateIfIdle now k s =
     (case jget k (gates s) of
        None \<Rightarrow> s
      | Some g \<Rightarrow>
        (if 0 < running g \<or> queue g \<noteq> [] then s
         else if isBlocked now g then s
         else s\<lparr>gates := jdel k (gates s)\<rparr>))"

section \<open>Draining the queue\<close>

text \<open>One round of the loop takes the head of the queue and gives it a slot.\<close>

definition admitHead :: "int \<Rightarrow> gate \<Rightarrow> gate" where
  "admitHead now g =
     (let g1 = clearExpired now g in g1\<lparr>queue := tl (queue g1), running := running g1 + 1\<rparr>)"

function drainGate :: "int \<Rightarrow> gate \<Rightarrow> gate \<times> nat list" where
  "drainGate now g =
     (if queue g \<noteq> [] \<and> running g < maxConcurrency g \<and> \<not> isBlocked now g
      then (let (g', ws) = drainGate now (admitHead now g) in (g', hd (queue g) # ws))
      else (g, []))"
  by pat_completeness auto
termination
  by (relation "measure (\<lambda>(now, g). length (queue g))")
     (auto simp: admitHead_def clearExpired_def Let_def)

declare drainGate.simps [simp del]

definition grantAll :: "string \<Rightarrow> nat list \<Rightarrow> semaphore \<Rightarrow> semaphore" where
  "grantAll k ws s =
     fold (\<lambda>i s. settle i Granted
                   (s\<lparr>timers := removeAll (i, k) (timers s), held := held s @ [(i, k)]\<rparr>)) ws s"

definition drainQueue :: "int \<Rightarrow> string \<Rightarrow> semaphore \<Rightarrow> semaphore" where
  "drainQueue now k s =
     (case jget k (gates s) of
        None \<Rightarrow> s
      | Some g \<Rightarrow>
        (let (g', ws) = drainGate now g;
             s1 = grantAll k ws (setGate k g' s)
         in if running g' = 0 \<and> queue g' = [] then scheduleCleanup k s1 else s1))"

section \<open>Operations\<close>

text \<open>
  A release function: the second call does nothing, the first gives the slot back and hands
  it to the queue.
\<close>

definition release :: "int \<Rightarrow> nat \<times> string \<Rightarrow> semaphore \<Rightarrow> semaphore" where
  "release now t s =
     (if t \<notin> set (held s) then s
      else let s1 = s\<lparr>held := removeAll t (held s)\<rparr>; k = snd t
           in (case jget k (gates s1) of
                 None \<Rightarrow> s1
               | Some g \<Rightarrow>
                 (let g1 = (if 0 < running g then g\<lparr>running := running g - 1\<rparr> else g);
                      s2 = setGate k g1 s1
                  in if queue g1 \<noteq> [] then drainQueue now k s2 else scheduleCleanup k s2)))"

record acquire_options =
  ao_maxConcurrency :: "int option"
  ao_signalGiven :: bool
  ao_aborted :: bool
  ao_maxQueueSize :: nat

text \<open>
  \<open>acquire\<close> returns the number of the call. \<open>timeoutMs\<close> only decides when the timer fires,
  which is the operation \<open>onTimeout\<close>.
\<close>

definition acquire :: "int \<Rightarrow> string \<Rightarrow> acquire_options \<Rightarrow> semaphore \<Rightarrow> nat \<times> semaphore" where
  "acquire now k opts s0 =
     (let i = nextId s0; s = s0\<lparr>nextId := Suc i\<rparr>
      in if isBypassed (ao_maxConcurrency opts) then (i, settle i Granted s)
         else if ao_signalGiven opts \<and> ao_aborted opts then (i, settle i Aborted s)
         else
           (let s1 = ensureGate k (the (ao_maxConcurrency opts)) s;
                g = (the (jget k (gates s1)))\<lparr>cleanupTimer := False\<rparr>
            in if running g < maxConcurrency g \<and> \<not> isBlocked now g
               then (let g1 = clearExpired now g
                     in (i, settle i Granted
                             ((setGate k (g1\<lparr>running := running g1 + 1\<rparr>) s1)
                               \<lparr>held := held s1 @ [(i, k)]\<rparr>)))
               else
                 (let s2 = setGate k g s1
                  in if ao_maxQueueSize opts \<le> length (queue g) then (i, settle i QueueFull s2)
                     else (i, (setGate k (g\<lparr>queue := queue g @ [i]\<rparr>) s2)
                                \<lparr>timers := timers s2 @ [(i, k)],
                                 listeners := (if ao_signalGiven opts then listeners s2 @ [i]
                                               else listeners s2)\<rparr>))))"

definition leaveQueue :: "nat \<Rightarrow> string \<Rightarrow> semaphore \<Rightarrow> semaphore" where
  "leaveQueue i k s =
     (case jget k (gates s) of
        None \<Rightarrow> s
      | Some g \<Rightarrow>
        (let g1 = g\<lparr>queue := removeAll i (queue g)\<rparr>; s1 = setGate k g1 s
         in if running g1 = 0 \<and> queue g1 = [] then scheduleCleanup k s1 else s1))"

definition onTimeout :: "nat \<times> string \<Rightarrow> semaphore \<Rightarrow> semaphore" where
  "onTimeout t s =
     (if t \<notin> set (timers s) then s
      else settle (fst t) TimedOut
             (leaveQueue (fst t) (snd t) (s\<lparr>timers := removeAll t (timers s)\<rparr>)))"

definition onAbort :: "nat \<times> string \<Rightarrow> semaphore \<Rightarrow> semaphore" where
  "onAbort t s =
     (if fst t \<notin> set (listeners s) \<or> t \<notin> set (timers s) then s
      else settle (fst t) Aborted
             (leaveQueue (fst t) (snd t) (s\<lparr>timers := removeAll t (timers s)\<rparr>)))"

definition onCleanup :: "int \<Rightarrow> string \<Rightarrow> semaphore \<Rightarrow> semaphore" where
  "onCleanup now k s =
     (case jget k (gates s) of
        None \<Rightarrow> s
      | Some g \<Rightarrow>
        (if cleanupTimer g then cleanupGateIfIdle now k (setGate k (g\<lparr>cleanupTimer := False\<rparr>) s)
         else s))"

definition markBlocked :: "int \<Rightarrow> string \<Rightarrow> int \<Rightarrow> semaphore \<Rightarrow> semaphore" where
  "markBlocked now k cooldownMs s =
     (if cooldownMs \<le> 0 then
        (case jget k (gates s) of
           None \<Rightarrow> s
         | Some g \<Rightarrow> drainQueue now k (setGate k (g\<lparr>blockedUntil := None\<rparr>) s))
      else
        (let s1 = (if jhas k (gates s) then s else ensureGate k 1 s);
             g = the (jget k (gates s1))
         in setGate k (g\<lparr>cleanupTimer := False, blockedUntil := Some (now + cooldownMs)\<rparr>) s1))"

text \<open>The timer \<open>markBlocked\<close> starts.\<close>

definition onUnblock :: "int \<Rightarrow> string \<Rightarrow> semaphore \<Rightarrow> semaphore" where
  "onUnblock now k s =
     (case jget k (gates s) of
        None \<Rightarrow> s
      | Some g \<Rightarrow>
        (if \<not> falsy_num (blockedUntil g) \<and> the (blockedUntil g) \<le> now
         then (let s1 = drainQueue now k (setGate k (g\<lparr>blockedUntil := None\<rparr>) s)
               in case jget k (gates s1) of
                    None \<Rightarrow> s1
                  | Some g' \<Rightarrow> (if running g' = 0 \<and> queue g' = [] then scheduleCleanup k s1 else s1))
         else s))"

definition reset :: "string \<Rightarrow> semaphore \<Rightarrow> semaphore" where
  "reset k s =
     (case jget k (gates s) of
        None \<Rightarrow> s
      | Some g \<Rightarrow>
        (let s1 = fold (\<lambda>i s. settle i ResetErr (s\<lparr>timers := removeAll (i, k) (timers s)\<rparr>)) (queue g) s
         in s1\<lparr>gates := jdel k (gates s1)\<rparr>))"

definition resetAll :: "semaphore \<Rightarrow> semaphore" where
  "resetAll s = fold reset (jkeys (gates s)) s"

record stats_entry =
  se_running :: int
  se_queued :: nat
  se_maxConcurrency :: int
  se_blockedUntil :: "int option"

definition getStats :: "semaphore \<Rightarrow> (string, stats_entry) jmap" where
  "getStats s = map (\<lambda>(k, g). (k, \<lparr>se_running = running g, se_queued = length (queue g),
     se_maxConcurrency = maxConcurrency g,
     se_blockedUntil = (if falsy_num (blockedUntil g) then None else blockedUntil g)\<rparr>)) (gates s)"

end
