(* ===== verification/AccountSemaphoreLaws.thy ===== *)
theory AccountSemaphoreLaws
  imports AccountSemaphore
begin

text \<open>
  Laws of the per-account semaphore: its queue is a FIFO \<open>slot_gate\<close>; the invariant \<open>sem_inv\<close>
  (slots counted by the release functions, waiters with their timers, promises settled once)
  and the capacity bound \<open>cap_inv\<close> are kept by every operation. A reset forgets the slots of a gate that are in use;
  the invariant counts how many holders of a key its gate does not know of. The properties follow, among them two ways in
  which the code misses its intent.
\<close>

section \<open>The queue is a FIFO slot gate\<close>

interpretation account: slot_gate running maxConcurrency queue "isBlocked now" "admitHead now" "drainGate now"
  for now :: int
proof
  fix g :: gate
  show "queue g \<noteq> [] \<Longrightarrow> queue (admitHead now g) = tl (queue g)"
    and "running (admitHead now g) = running g + 1"
    and "maxConcurrency (admitHead now g) = maxConcurrency g"
    and "\<not> isBlocked now g \<Longrightarrow> \<not> isBlocked now (admitHead now g)"
    by (auto simp: admitHead_def clearExpired_def isBlocked_def Let_def)
  show "drainGate now g =
    (if queue g \<noteq> [] \<and> running g < maxConcurrency g \<and> \<not> isBlocked now g
     then (let (g', ws) = drainGate now (admitHead now g) in (g', hd (queue g) # ws)) else (g, []))"
    by (rule drainGate.simps)
qed

section \<open>The invariant\<close>

lemma filter_removeAll: "filter P (removeAll t xs) = removeAll t (filter P xs)"
  by (induction xs) auto

definition holders :: "string \<Rightarrow> semaphore \<Rightarrow> int" where
  "holders k s = int (length (filter (\<lambda>p. snd p = k) (held s)))"

definition runningOf :: "string \<Rightarrow> semaphore \<Rightarrow> int" where
  "runningOf k s = (case jget k (gates s) of None \<Rightarrow> 0 | Some g \<Rightarrow> running g)"

definition queueOf :: "string \<Rightarrow> semaphore \<Rightarrow> nat list" where
  "queueOf k s = (case jget k (gates s) of None \<Rightarrow> [] | Some g \<Rightarrow> queue g)"

text \<open>
  Slots: a gate counts the release functions not called yet, but for the \<open>L k\<close> that resets of the key have forgotten. Queues: a call waits in
  a gate exactly when its timer is armed. Promises: every call has settled or is waiting,
  never both, and none settles twice.
\<close>

definition slots_inv :: "(string \<Rightarrow> int) \<Rightarrow> semaphore \<Rightarrow> bool" where
  "slots_inv L s \<longleftrightarrow> jinv (gates s) \<and> distinct (map fst (held s)) \<and> (\<forall>k. 0 \<le> L k \<and> 0 \<le> runningOf k s \<and> runningOf k s + L k = holders k s)"

definition queue_inv :: "semaphore \<Rightarrow> bool" where
  "queue_inv s \<longleftrightarrow> distinct (map fst (timers s))
     \<and> (\<forall>k. distinct (queueOf k s) \<and> set (queueOf k s) = {i. (i, k) \<in> set (timers s)})"

definition promise_inv :: "semaphore \<Rightarrow> bool" where
  "promise_inv s \<longleftrightarrow> distinct (map fst (settled s))
     \<and> fst ` set (settled s) \<inter> fst ` set (timers s) = {}
     \<and> fst ` set (settled s) \<union> fst ` set (timers s) = {..<nextId s}
     \<and> fst ` set (held s) \<subseteq> fst ` set (settled s)"

definition sem_inv :: "(string \<Rightarrow> int) \<Rightarrow> semaphore \<Rightarrow> bool" where
  "sem_inv L s \<longleftrightarrow> slots_inv L s \<and> queue_inv s \<and> promise_inv s"

lemmas sem_inv_defs = sem_inv_def slots_inv_def queue_inv_def promise_inv_def

lemma setGate_frame [simp]:
  "gates (setGate k g s) = jset k g (gates s)" "nextId (setGate k g s) = nextId s"
  "held (setGate k g s) = held s" "timers (setGate k g s) = timers s"
  "settled (setGate k g s) = settled s" "holders k' (setGate k g s) = holders k' s"
  by (simp_all add: setGate_def holders_def)

lemma settle_frame [simp]:
  "gates (settle i r s) = gates s" "nextId (settle i r s) = nextId s"
  "held (settle i r s) = held s" "timers (settle i r s) = timers s"
  "settled (settle i r s) = settled s @ [(i, r)]"
  by (simp_all add: settle_def)

lemma holders_update [simp]:
  "holders k (settle i r s) = holders k s"
  "holders k (s\<lparr>gates := gs\<rparr>) = holders k s"
  "holders k (s\<lparr>timers := ts\<rparr>) = holders k s"
  "holders k (s\<lparr>nextId := n\<rparr>) = holders k s"
  "holders k (s\<lparr>listeners := ls\<rparr>) = holders k s"
  by (simp_all add: holders_def settle_def)

lemma runningOf_setGate [simp]:
  "runningOf k' (setGate k g s) = (if k' = k then running g else runningOf k' s)"
  "queueOf k' (setGate k g s) = (if k' = k then queue g else queueOf k' s)"
  by (simp_all add: runningOf_def queueOf_def)

lemma runningOf_gates:
  "gates s = gates s' \<Longrightarrow> runningOf k s = runningOf k s'"
  "gates s = gates s' \<Longrightarrow> queueOf k s = queueOf k s'"
  by (simp_all add: runningOf_def queueOf_def)

lemma gate_views: "jget k (gates s) = Some g \<Longrightarrow> running g = runningOf k s \<and> queue g = queueOf k s"
  by (simp add: runningOf_def queueOf_def)

text \<open>Replacing a gate by one with the same counter and queue keeps everything.\<close>

lemma sem_inv_setGate:
  assumes "sem_inv L s" and "running g = runningOf k s" and "queue g = queueOf k s"
  shows "sem_inv L (setGate k g s)"
  using assms by (auto simp: sem_inv_defs)

lemma scheduleCleanup_inv [simp]: "sem_inv L s \<Longrightarrow> sem_inv L (scheduleCleanup k s)"
  by (auto simp: scheduleCleanup_def split: option.split intro!: sem_inv_setGate dest: gate_views)

lemma scheduleCleanup_frame [simp]:
  "held (scheduleCleanup k s) = held s" "settled (scheduleCleanup k s) = settled s"
  "timers (scheduleCleanup k s) = timers s" "nextId (scheduleCleanup k s) = nextId s"
  "holders k' (scheduleCleanup k s) = holders k' s"
  by (simp_all add: scheduleCleanup_def split: option.split)

lemma runningOf_scheduleCleanup [simp]:
  "runningOf k' (scheduleCleanup k s) = runningOf k' s"
  "queueOf k' (scheduleCleanup k s) = queueOf k' s"
  by (auto simp: scheduleCleanup_def split: option.split dest: gate_views)

lemma grantAll_Cons:
  "grantAll k (i # ws) s = grantAll k ws
     (settle i Granted (s\<lparr>timers := removeAll (i, k) (timers s), held := held s @ [(i, k)]\<rparr>))"
  by (simp add: grantAll_def)

lemma grantAll_Nil [simp]: "grantAll k [] s = s"
  by (simp add: grantAll_def)

lemma grantAll_plain [simp]:
  "gates (grantAll k ws s) = gates s" "nextId (grantAll k ws s) = nextId s"
  by (induction ws arbitrary: s) (simp_all add: grantAll_Cons)

lemma grantAll_held [simp]: "held (grantAll k ws s) = held s @ map (\<lambda>i. (i, k)) ws"
  by (induction ws arbitrary: s) (simp_all add: grantAll_Cons)

lemma grantAll_settled [simp]: "settled (grantAll k ws s) = settled s @ map (\<lambda>i. (i, Granted)) ws"
  by (induction ws arbitrary: s) (simp_all add: grantAll_Cons)

lemma grantAll_timers [simp]:
  "timers (grantAll k ws s) = filter (\<lambda>t. t \<notin> (\<lambda>i. (i, k)) ` set ws) (timers s)"
  by (induction ws arbitrary: s)
     (auto simp: grantAll_Cons removeAll_filter_not_eq intro!: filter_cong)

text \<open>
  The heart of the invariant: moving a prefix \<open>ws\<close> of the queue of \<open>k\<close> to the running slots.
\<close>

lemma grant_prefix_inv:
  assumes inv: "sem_inv L s" and q: "queueOf k s = ws @ queue g'"
    and r: "running g' = runningOf k s + int (length ws)"
  shows "sem_inv L (grantAll k ws (setGate k g' s))"
proof -
  let ?s = "grantAll k ws (setGate k g' s)"
  have sl: "slots_inv L s" and qu: "queue_inv s" and pr: "promise_inv s"
    using inv by (simp_all add: sem_inv_def)
  have dq: "distinct (ws @ queue g')" and sq: "set (ws @ queue g') = {i. (i, k) \<in> set (timers s)}"
    using qu by (simp_all add: queue_inv_def flip: q)
  have wt: "(i, k) \<in> set (timers s)" if "i \<in> set ws" for i
    using that sq by auto
  have one: "k' = k" if "i \<in> set ws" "(i, k') \<in> set (timers s)" for i k'
    using qu that(2) wt [OF that(1)] unfolding queue_inv_def by (blast intro: eq_key_imp_eq_value)
  have unset: "i \<notin> fst ` set (settled s)" if "i \<in> set ws" for i
    using wt [OF that] pr by (force simp: promise_inv_def)
  have "fst ` set (held s) \<subseteq> fst ` set (settled s)"
    using pr by (simp add: promise_inv_def)
  with unset have "fst ` set (held s) \<inter> set ws = {}" by blast
  then have dh: "distinct (map fst (held ?s))"
    using sl dq by (auto simp: slots_inv_def comp_def)
  have hl: "holders k' ?s = holders k' s + (if k' = k then int (length ws) else 0)" for k'
    by (simp add: holders_def filter_map comp_def)
  have rl: "runningOf k' ?s = (if k' = k then running g' else runningOf k' s)" for k'
    by (simp add: runningOf_gates(1) [of ?s "setGate k g' s"])
  have "slots_inv L ?s"
    using sl r dh unfolding slots_inv_def hl rl by simp
  moreover have "queue_inv ?s"
    unfolding queue_inv_def
  proof (intro conjI allI)
    show "distinct (map fst (timers ?s))"
      using qu by (simp add: queue_inv_def distinct_map_filter)
    fix k'
    have v: "queueOf k' ?s = (if k' = k then queue g' else queueOf k' s)"
      by (simp add: runningOf_gates(2) [of ?s "setGate k g' s"])
    show "distinct (queueOf k' ?s)" using v dq qu by (auto simp: queue_inv_def)
    show "set (queueOf k' ?s) = {i. (i, k') \<in> set (timers ?s)}"
    proof (cases "k' = k")
      case True
      have "set (queue g') = set (ws @ queue g') - set ws" using dq by auto
      also have "\<dots> = {i. (i, k) \<in> set (timers ?s)}"
        unfolding sq grantAll_timers setGate_frame by auto
      finally show ?thesis using True v by simp
    next
      case False
      with v qu one show ?thesis by (auto simp: queue_inv_def)
    qed
  qed
  moreover have "promise_inv ?s"
  proof -
    have t: "fst ` set (timers ?s) = fst ` set (timers s) - set ws"
    proof (intro set_eqI iffI)
      fix x assume "x \<in> fst ` set (timers ?s)"
      then obtain k' where "(x, k') \<in> set (timers s)" "(x, k') \<notin> (\<lambda>i. (i, k)) ` set ws" by auto
      with one [of x k'] show "x \<in> fst ` set (timers s) - set ws" by (auto intro: image_eqI [of _ _ "(x, k')"])
    next
      fix x assume "x \<in> fst ` set (timers s) - set ws"
      then obtain k' where "(x, k') \<in> set (timers s)" "x \<notin> set ws" by auto
      then have "(x, k') \<in> set (timers ?s)" by auto
      then show "x \<in> fst ` set (timers ?s)" by (rule image_eqI [rotated]) simp
    qed
    have w: "set ws \<subseteq> fst ` set (timers s)" using wt by force
    have st: "fst ` set (settled ?s) = fst ` set (settled s) \<union> set ws" by force
    have hd: "fst ` set (held ?s) = fst ` set (held s) \<union> set ws" by force
    show ?thesis
      unfolding promise_inv_def t st hd
      using pr w unset dq by (auto simp: promise_inv_def comp_def)
  qed
  ultimately show ?thesis by (simp add: sem_inv_def)
qed

lemma drainQueue_inv:
  assumes "sem_inv L s"
  shows "sem_inv L (drainQueue now k s)"
proof (cases "jget k (gates s)")
  case None
  with assms show ?thesis by (simp add: drainQueue_def)
next
  case (Some g)
  obtain g' ws where d: "drainGate now g = (g', ws)" by (rule prod.exhaust)
  have "sem_inv L (grantAll k ws (setGate k g' s))"
  proof (rule grant_prefix_inv [OF assms])
    show "queueOf k s = ws @ queue g'"
      using account.drain_fifo [of now g] d Some by (simp add: queueOf_def)
    show "running g' = runningOf k s + int (length ws)"
      using account.drain_running [of now g] d Some by (simp add: runningOf_def)
  qed
  with Some d show ?thesis by (simp add: drainQueue_def Let_def)
qed


text \<open>Letting a waiter go: its timer is gone, it leaves its queue and its promise is settled.\<close>

lemma leave_inv:
  assumes inv: "sem_inv L s" and t: "(i, k) \<in> set (timers s)"
  shows "sem_inv L (settle i r (leaveQueue i k (s\<lparr>timers := removeAll (i, k) (timers s)\<rparr>)))"
proof -
  have sl: "slots_inv L s" and qu: "queue_inv s" and pr: "promise_inv s"
    using inv by (simp_all add: sem_inv_def)
  have "i \<in> set (queueOf k s)" using qu t by (simp add: queue_inv_def)
  then obtain g where g: "jget k (gates s) = Some g"
    by (cases "jget k (gates s)") (auto simp: queueOf_def)
  let ?g = "g\<lparr>queue := removeAll i (queue g)\<rparr>"
  let ?s = "settle i r (setGate k ?g (s\<lparr>timers := removeAll (i, k) (timers s)\<rparr>))"
  have only: "(i, k') \<in> set (timers s) \<Longrightarrow> k' = k" for k'
    using qu t unfolding queue_inv_def by (blast intro: eq_key_imp_eq_value)
  have gv: "running g = runningOf k s" "queue g = queueOf k s"
    using gate_views [OF g] by simp_all
  have r: "runningOf k' ?s = runningOf k' s" for k'
    using gv by (simp add: runningOf_def)
  have q: "queueOf k' ?s = (if k' = k then removeAll i (queueOf k s) else queueOf k' s)" for k'
    using gv by (simp add: queueOf_def)
  have "slots_inv L ?s"
    using sl r by (simp add: slots_inv_def)
  moreover have "queue_inv ?s"
    using qu only unfolding queue_inv_def q
    by (auto simp: distinct_map distinct_removeAll removeAll_filter_not_eq inj_on_def)
  moreover have "promise_inv ?s"
  proof -
    have ts: "fst ` set (timers ?s) = fst ` set (timers s) - {i}"
      using only by force
    have st: "fst ` set (settled ?s) = insert i (fst ` set (settled s))" by simp
    have "i \<in> fst ` set (timers s)" using t by force
    then show ?thesis
      using pr unfolding promise_inv_def ts st by auto
  qed
  ultimately have i0: "sem_inv L ?s" by (simp add: sem_inv_def)
  have "settle i r (scheduleCleanup k u) = scheduleCleanup k (settle i r u)" for u
    by (simp add: settle_def scheduleCleanup_def setGate_def split: option.split)
  note comm = this
  show ?thesis
  proof (cases "running ?g = 0 \<and> queue ?g = []")
    case True
    then have "leaveQueue i k (s\<lparr>timers := removeAll (i, k) (timers s)\<rparr>)
        = scheduleCleanup k (setGate k ?g (s\<lparr>timers := removeAll (i, k) (timers s)\<rparr>))"
      using g by (simp only: leaveQueue_def Let_def semaphore.simps option.case) simp
    then show ?thesis using i0 by (simp only: comm scheduleCleanup_inv)
  next
    case False
    then have "leaveQueue i k (s\<lparr>timers := removeAll (i, k) (timers s)\<rparr>)
        = setGate k ?g (s\<lparr>timers := removeAll (i, k) (timers s)\<rparr>)"
      using g by (auto simp: leaveQueue_def Let_def)
    then show ?thesis using i0 by (simp only:)
  qed
qed

lemma onTimeout_inv: "sem_inv L s \<Longrightarrow> sem_inv L (onTimeout t s)"
  using leave_inv [of L s "fst t" "snd t"] by (auto simp: onTimeout_def)

lemma onAbort_inv: "sem_inv L s \<Longrightarrow> sem_inv L (onAbort t s)"
  using leave_inv [of L s "fst t" "snd t"] by (auto simp: onAbort_def)

lemma onCleanup_inv:
  assumes "sem_inv L s"
  shows "sem_inv L (onCleanup now k s)"
proof (cases "jget k (gates s)")
  case None
  with assms show ?thesis by (simp add: onCleanup_def)
next
  case (Some g)
  let ?s = "setGate k (g\<lparr>cleanupTimer := False\<rparr>) s"
  have s: "sem_inv L ?s"
    using assms gate_views [OF Some] by (simp add: sem_inv_setGate)
  have "sem_inv L (?s\<lparr>gates := jdel k (gates ?s)\<rparr>)" if "\<not> 0 < running g" "queue g = []"
  proof -
    have z: "runningOf k s = 0"
    proof -
      have "0 \<le> runningOf k s" using assms by (simp add: sem_inv_def slots_inv_def)
      then show ?thesis using that(1) gate_views [OF Some] by simp
    qed
    have "runningOf k' (?s\<lparr>gates := jdel k (gates ?s)\<rparr>) = runningOf k' s"
      "queueOf k' (?s\<lparr>gates := jdel k (gates ?s)\<rparr>) = queueOf k' s" for k'
      using z that gate_views [OF Some] by (simp_all add: runningOf_def queueOf_def)
    with assms show ?thesis by (simp add: sem_inv_defs)
  qed
  with s Some assms show ?thesis
    by (auto simp: onCleanup_def cleanupGateIfIdle_def)
qed

text \<open>
  A release whose gate counts a slot gives it back; one whose gate was forgotten, and whose successor counts none, takes
  itself off the holders that the gate does not know of.
\<close>

lemma holders_removed:
  assumes "distinct (map fst (held s))" and "(i, k) \<in> set (held s)" and "held s' = removeAll (i, k) (held s)"
  shows "holders k' s' = holders k' s - (if k' = k then 1 else 0)" and "0 < holders k s"
proof -
  show pos: "0 < holders k s" using assms(2) by (force simp: holders_def filter_empty_conv)
  show "holders k' s' = holders k' s - (if k' = k then 1 else 0)"
  proof (cases "k' = k")
    case True
    have "distinct (filter (\<lambda>p. snd p = k) (held s))" "(i, k) \<in> set (filter (\<lambda>p. snd p = k) (held s))"
      using assms(1,2) by (auto simp: distinct_map)
    then have "length (removeAll (i, k) (filter (\<lambda>p. snd p = k) (held s))) = length (filter (\<lambda>p. snd p = k) (held s)) - 1"
      by (simp flip: distinct_remove1_removeAll add: length_remove1)
    moreover have "0 < length (filter (\<lambda>p. snd p = k) (held s))" using pos by (simp add: holders_def)
    ultimately show ?thesis using True by (simp add: holders_def assms(3) filter_removeAll of_nat_diff del: length_greater_0_conv)
  next
    case False
    then have "filter (\<lambda>p. snd p = k') (removeAll (i, k) (held s)) = filter (\<lambda>p. snd p = k') (held s)"
      by (auto simp: removeAll_filter_not_eq intro!: filter_cong)
    with False show ?thesis by (simp add: holders_def assms(3))
  qed
qed

lemma release_frames:
  assumes "sem_inv L s" and "(i, k) \<in> set (held s)" and "held s' = removeAll (i, k) (held s)"
    and "timers s' = timers s" and "settled s' = settled s" and "nextId s' = nextId s" and "jinv (gates s')"
    and "\<And>k'. queueOf k' s' = queueOf k' s" and "\<And>k'. 0 \<le> M k' \<and> 0 \<le> runningOf k' s'"
    and "\<And>k'. runningOf k' s' + M k' = runningOf k' s + L k' - (if k' = k then 1 else 0)"
  shows "sem_inv M s'"
proof -
  have d: "distinct (map fst (held s))" using assms(1) by (simp add: sem_inv_def slots_inv_def)
  then have "distinct (map fst (held s'))" by (simp add: assms(3) distinct_map inj_on_def removeAll_filter_not_eq)
  then have "slots_inv M s'"
    using assms(1,7,9,10) holders_removed(1) [OF d assms(2,3)] by (auto simp: sem_inv_def slots_inv_def)
  moreover have "queue_inv s'" using assms(1) by (simp add: sem_inv_def queue_inv_def assms(4,8))
  moreover have "promise_inv s'" using assms(1) by (auto simp: sem_inv_def promise_inv_def assms(3-6))
  ultimately show ?thesis by (simp add: sem_inv_def)
qed

lemma release_inv_running:
  assumes inv: "sem_inv L s" and t: "(i, k) \<in> set (held s)" and g: "jget k (gates s) = Some g" and pos: "0 < running g"
  shows "sem_inv L (release now (i, k) s)"
proof -
  let ?s2 = "setGate k (g\<lparr>running := running g - 1\<rparr>) (s\<lparr>held := removeAll (i, k) (held s)\<rparr>)"
  have v: "runningOf k' ?s2 = (if k' = k then runningOf k s - 1 else runningOf k' s)" "queueOf k' ?s2 = queueOf k' s" for k'
    using gate_views [OF g] by (simp_all add: runningOf_def queueOf_def)
  have nonneg: "0 \<le> L k' \<and> 0 \<le> runningOf k' s" for k' using inv by (simp add: sem_inv_def slots_inv_def)
  have "sem_inv L ?s2"
  proof (rule release_frames [OF inv t])
    show "jinv (gates ?s2)" using inv by (simp add: sem_inv_def slots_inv_def)
    show "0 \<le> L k' \<and> 0 \<le> runningOf k' ?s2" for k' using nonneg [of k'] pos gate_views [OF g] unfolding v by simp
    show "queueOf k' ?s2 = queueOf k' s" for k' by (rule v(2))
    show "runningOf k' ?s2 + L k' = runningOf k' s + L k' - (if k' = k then 1 else 0)" for k' unfolding v by simp
  qed simp_all
  moreover have "release now (i, k) s = (if queue g \<noteq> [] then drainQueue now k ?s2 else scheduleCleanup k ?s2)"
    using t g pos by (simp add: release_def Let_def)
  ultimately show ?thesis by (simp add: drainQueue_inv)
qed

lemma release_inv_forgotten:
  assumes inv: "sem_inv L s" and t: "(i, k) \<in> set (held s)" and none: "runningOf k s \<le> 0"
  shows "sem_inv (L(k := L k - 1)) (release now (i, k) s)"
proof -
  let ?M = "L(k := L k - 1)" and ?s1 = "s\<lparr>held := removeAll (i, k) (held s)\<rparr>"
  have d: "distinct (map fst (held s))" and all: "\<And>k'. 0 \<le> L k' \<and> 0 \<le> runningOf k' s \<and> runningOf k' s + L k' = holders k' s"
    using inv by (simp_all add: sem_inv_def slots_inv_def)
  have "0 < holders k s" by (rule holders_removed(2) [OF d t, of ?s1]) simp
  then have L: "1 \<le> L k" using all [of k] none by simp
  have v: "runningOf k' ?s1 = runningOf k' s" "queueOf k' ?s1 = queueOf k' s" for k' by (simp_all add: runningOf_def queueOf_def)
  have s1: "sem_inv ?M ?s1"
  proof (rule release_frames [OF inv t])
    show "jinv (gates ?s1)" using inv by (simp add: sem_inv_def slots_inv_def)
    show "0 \<le> ?M k' \<and> 0 \<le> runningOf k' ?s1" for k' using all [of k'] L v(1) [of k'] by simp
  qed (simp_all add: v)
  show ?thesis
  proof (cases "jget k (gates s)")
    case None
    then show ?thesis using s1 t by (simp add: release_def)
  next
    case (Some g)
    then have g: "\<not> 0 < running g" using none gate_views [OF Some] by simp
    have "sem_inv ?M (setGate k g ?s1)" using sem_inv_setGate [OF s1] gate_views [OF Some] v by simp
    moreover have "release now (i, k) s = (if queue g \<noteq> [] then drainQueue now k (setGate k g ?s1) else scheduleCleanup k (setGate k g ?s1))"
      using Some g t by (simp add: release_def Let_def)
    ultimately show ?thesis by (simp add: drainQueue_inv)
  qed
qed

lemma release_inv:
  assumes inv: "sem_inv L s"
  obtains M where "sem_inv M (release now t s)" and "\<And>k. M k \<le> L k"
proof (cases "t \<in> set (held s)")
  case False
  then show ?thesis using inv that [of L] by (simp add: release_def)
next
  case True
  obtain i k where t: "t = (i, k)" by (rule prod.exhaust)
  show ?thesis
  proof (cases "runningOf k s \<le> 0")
    case True
    then show ?thesis using release_inv_forgotten [OF inv _ True, of i now] that [of "L(k := L k - 1)"] t \<open>t \<in> set (held s)\<close> by simp
  next
    case False
    then obtain g where g: "jget k (gates s) = Some g" "0 < running g" by (cases "jget k (gates s)") (auto simp: runningOf_def)
    then show ?thesis using release_inv_running [OF inv _ g, of i now] that [of L] t True by simp
  qed
qed

text \<open>A reset rejects the waiters and forgets the slots in use.\<close>

definition rejectAll :: "string \<Rightarrow> nat list \<Rightarrow> semaphore \<Rightarrow> semaphore" where
  "rejectAll k ws s = fold (\<lambda>i s. settle i ResetErr (s\<lparr>timers := removeAll (i, k) (timers s)\<rparr>)) ws s"

lemma rejectAll_frame [simp]:
  "gates (rejectAll k ws s) = gates s" "held (rejectAll k ws s) = held s" "nextId (rejectAll k ws s) = nextId s"
  "settled (rejectAll k ws s) = settled s @ map (\<lambda>i. (i, ResetErr)) ws"
  "timers (rejectAll k ws s) = filter (\<lambda>t. t \<notin> (\<lambda>i. (i, k)) ` set ws) (timers s)"
  by (induction ws arbitrary: s) (auto simp: rejectAll_def removeAll_filter_not_eq intro!: filter_cong)

lemma gate_reset_inv:
  assumes inv: "sem_inv L s"
  shows "sem_inv (L(k := L k + runningOf k s)) (reset k s)"
proof (cases "jget k (gates s)")
  case None
  then show ?thesis using inv by (simp add: reset_def runningOf_def)
next
  case (Some g)
  let ?s = "(rejectAll k (queue g) s)\<lparr>gates := jdel k (gates s)\<rparr>" and ?M = "L(k := L k + runningOf k s)"
  have q: "queue g = queueOf k s" using gate_views [OF Some] by simp
  have sl: "slots_inv L s" and qu: "queue_inv s" and pr: "promise_inv s" using inv by (simp_all add: sem_inv_def)
  have wt: "i \<in> set (queue g) \<longleftrightarrow> (i, k) \<in> set (timers s)" for i using qu by (simp add: q queue_inv_def)
  have one: "k' = k" if "i \<in> set (queue g)" "(i, k') \<in> set (timers s)" for i k'
    using qu that wt [of i] unfolding queue_inv_def by (blast intro: eq_key_imp_eq_value)
  have v: "runningOf k' ?s = (if k' = k then 0 else runningOf k' s)" "queueOf k' ?s = (if k' = k then [] else queueOf k' s)"
    "holders k' ?s = holders k' s" for k' by (simp_all add: runningOf_def queueOf_def holders_def)
  have "runningOf k' s + L k' = holders k' s" for k' using sl by (simp add: slots_inv_def)
  then have "L k' + runningOf k' s = holders k' s" for k' by (metis add.commute)
  moreover have "0 \<le> holders k' s" for k' by (simp add: holders_def)
  ultimately have "slots_inv ?M ?s" using sl unfolding slots_inv_def v by auto
  moreover have "queue_inv ?s"
    unfolding queue_inv_def v
  proof (intro conjI allI)
    show "distinct (map fst (timers ?s))" using qu by (simp add: queue_inv_def distinct_map_filter)
    fix k'
    show "distinct (if k' = k then [] else queueOf k' s)" using qu by (simp add: queue_inv_def)
    show "set (if k' = k then [] else queueOf k' s) = {i. (i, k') \<in> set (timers ?s)}" using qu one wt by (auto simp: queue_inv_def)
  qed
  moreover have "promise_inv ?s"
  proof -
    have t: "fst ` set (timers ?s) = fst ` set (timers s) - set (queue g)"
    proof (intro set_eqI iffI)
      fix x assume "x \<in> fst ` set (timers ?s)"
      then obtain k' where "(x, k') \<in> set (timers s)" "(x, k') \<notin> (\<lambda>i. (i, k)) ` set (queue g)" by auto
      with one [of x k'] show "x \<in> fst ` set (timers s) - set (queue g)" by (auto intro: image_eqI [of _ _ "(x, k')"])
    next
      fix x assume "x \<in> fst ` set (timers s) - set (queue g)"
      then obtain k' where "(x, k') \<in> set (timers s)" "x \<notin> set (queue g)" by auto
      then have "(x, k') \<in> set (timers ?s)" by auto
      then show "x \<in> fst ` set (timers ?s)" by (rule image_eqI [rotated]) simp
    qed
    have st: "fst ` set (settled ?s) = fst ` set (settled s) \<union> set (queue g)" by force
    have w: "set (queue g) \<subseteq> fst ` set (timers s)" using wt by force
    have dq: "distinct (queue g)" using qu by (simp add: q queue_inv_def)
    have "distinct (map fst (settled ?s))" using pr w dq by (auto simp: promise_inv_def comp_def)
    then show ?thesis using pr w unfolding promise_inv_def t st by auto
  qed
  ultimately have "sem_inv ?M ?s" by (simp add: sem_inv_def)
  then show ?thesis using Some by (simp add: reset_def rejectAll_def [symmetric] Let_def)
qed

text \<open>
  A call takes the next number before it does anything else: \<open>before L i s\<close> is the invariant of
  the state in which the call \<open>i\<close> is counted but has neither settled nor queued.
\<close>

definition before :: "(string \<Rightarrow> int) \<Rightarrow> nat \<Rightarrow> semaphore \<Rightarrow> bool" where
  "before L i s \<longleftrightarrow> nextId s = Suc i \<and> sem_inv L (s\<lparr>nextId := i\<rparr>)"

lemma before_start: "sem_inv L s \<Longrightarrow> before L (nextId s) (s\<lparr>nextId := Suc (nextId s)\<rparr>)"
  by (simp add: before_def)

lemma before_views:
  assumes "before L i s"
  shows "slots_inv L s" and "queue_inv s" and "i \<notin> fst ` set (settled s)" and "i \<notin> fst ` set (timers s)"
    and "i \<notin> fst ` set (held s)"
proof -
  have v: "runningOf k (s\<lparr>nextId := i\<rparr>) = runningOf k s" "queueOf k (s\<lparr>nextId := i\<rparr>) = queueOf k s" for k
    by (simp_all add: runningOf_def queueOf_def)
  show "slots_inv L s" "queue_inv s"
    using assms by (simp_all add: before_def sem_inv_def slots_inv_def queue_inv_def v)
  have u: "fst ` set (settled s) \<union> fst ` set (timers s) = {..<i}"
    and h: "fst ` set (held s) \<subseteq> fst ` set (settled s)"
    using assms by (simp_all add: before_def sem_inv_def promise_inv_def)
  show "i \<notin> fst ` set (settled s)" "i \<notin> fst ` set (timers s)" using u by auto
  then show "i \<notin> fst ` set (held s)" using h by blast
qed

lemma before_promise:
  assumes "before L i s"
  shows "distinct (map fst (settled s))" and "fst ` set (settled s) \<inter> fst ` set (timers s) = {}"
    and "fst ` set (settled s) \<union> fst ` set (timers s) = {..<i}"
    and "fst ` set (held s) \<subseteq> fst ` set (settled s)" and "nextId s = Suc i"
  using assms by (simp_all add: before_def sem_inv_def promise_inv_def)

lemma before_setGate:
  "before L i s \<Longrightarrow> running g = runningOf k s \<Longrightarrow> queue g = queueOf k s \<Longrightarrow> before L i (setGate k g s)"
proof -
  assume a: "before L i s" "running g = runningOf k s" "queue g = queueOf k s"
  have "setGate k g (s\<lparr>nextId := i\<rparr>) = (setGate k g s)\<lparr>nextId := i\<rparr>"
    by (simp add: setGate_def)
  moreover have "sem_inv L (setGate k g (s\<lparr>nextId := i\<rparr>))"
    by (rule sem_inv_setGate) (use a in \<open>simp_all add: before_def runningOf_def queueOf_def\<close>)
  ultimately show ?thesis using a(1) by (simp add: before_def)
qed

lemma before_settle: "before L i s \<Longrightarrow> sem_inv L (settle i r s)"
proof -
  assume b: "before L i s"
  have v: "runningOf k (settle i r s) = runningOf k s" "queueOf k (settle i r s) = queueOf k s" for k
    by (simp_all add: runningOf_def queueOf_def)
  have "slots_inv L (settle i r s)" "queue_inv (settle i r s)"
    using before_views(1,2) [OF b] by (simp_all add: slots_inv_def queue_inv_def v)
  moreover have "promise_inv (settle i r s)"
    using before_promise [OF b] before_views(3,4) [OF b]
    by (auto simp: promise_inv_def lessThan_Suc)
  ultimately show ?thesis by (simp add: sem_inv_def)
qed

lemma before_grant:
  assumes b: "before L i s" and r: "running g = runningOf k s + 1" and q: "queue g = queueOf k s"
  shows "sem_inv L (settle i Granted ((setGate k g s)\<lparr>held := held s @ [(i, k)]\<rparr>))"
proof -
  let ?s = "settle i Granted ((setGate k g s)\<lparr>held := held s @ [(i, k)]\<rparr>)"
  have v: "runningOf k' ?s = (if k' = k then running g else runningOf k' s)"
    "queueOf k' ?s = queueOf k' s" "holders k' ?s = holders k' s + (if k' = k then 1 else 0)" for k'
    using q by (simp_all add: runningOf_def queueOf_def holders_def)
  have "slots_inv L ?s"
    using before_views(1,5) [OF b] r unfolding slots_inv_def v by auto
  moreover have "queue_inv ?s"
    using before_views(2) [OF b] unfolding queue_inv_def v by simp
  moreover have "promise_inv ?s"
    using before_promise [OF b] before_views(3,4) [OF b]
    by (auto simp: promise_inv_def lessThan_Suc)
  ultimately show ?thesis by (simp add: sem_inv_def)
qed

lemma before_enqueue:
  assumes b: "before L i s" and r: "running g = runningOf k s" and q: "queue g = queueOf k s @ [i]"
  shows "sem_inv L ((setGate k g s)\<lparr>timers := timers s @ [(i, k)], listeners := ls\<rparr>)"
proof -
  let ?s = "(setGate k g s)\<lparr>timers := timers s @ [(i, k)], listeners := ls\<rparr>"
  have v: "runningOf k' ?s = runningOf k' s"
    "queueOf k' ?s = (if k' = k then queueOf k s @ [i] else queueOf k' s)"
    "holders k' ?s = holders k' s" for k'
    using r q by (simp_all add: runningOf_def queueOf_def holders_def)
  have fresh: "(i, k') \<notin> set (timers s)" for k'
    using before_views(4) [OF b] by force
  have "slots_inv L ?s"
    using before_views(1) [OF b] unfolding slots_inv_def v by simp
  moreover have "queue_inv ?s"
    using before_views(2,4) [OF b] fresh unfolding queue_inv_def v by auto
  moreover have "promise_inv ?s"
    using before_promise [OF b] before_views(3,4) [OF b]
    by (auto simp: promise_inv_def lessThan_Suc)
  ultimately show ?thesis by (simp add: sem_inv_def)
qed

lemma ensureGate_eq:
  "ensureGate k c s = setGate k (case jget k (gates s) of Some g \<Rightarrow> g\<lparr>maxConcurrency := c\<rparr> | None \<Rightarrow> newGate c) s"
  by (simp add: ensureGate_def setGate_def split: option.split)

lemma ensureGate_views:
  "running (the (jget k (gates (ensureGate k c s)))) = runningOf k s"
  "queue (the (jget k (gates (ensureGate k c s)))) = queueOf k s"
  "maxConcurrency (the (jget k (gates (ensureGate k c s)))) = c"
  by (simp_all add: ensureGate_eq runningOf_def queueOf_def newGate_def split: option.split)

lemma ensureGate_before: "before L i s \<Longrightarrow> before L i (ensureGate k c s)"
  unfolding ensureGate_eq
  by (rule before_setGate) (auto simp: runningOf_def queueOf_def newGate_def split: option.split)

lemma ensureGate_frame [simp]:
  "runningOf k' (ensureGate k c s) = runningOf k' s" "queueOf k' (ensureGate k c s) = queueOf k' s"
  "held (ensureGate k c s) = held s" "timers (ensureGate k c s) = timers s"
  "settled (ensureGate k c s) = settled s" "nextId (ensureGate k c s) = nextId s"
  by (auto simp: ensureGate_eq runningOf_def queueOf_def newGate_def split: option.split)

lemma clearExpired_frame [simp]:
  "running (clearExpired now g) = running g" "queue (clearExpired now g) = queue g"
  "maxConcurrency (clearExpired now g) = maxConcurrency g"
  by (simp_all add: clearExpired_def)

lemma sem_inv_if: "(c \<Longrightarrow> sem_inv L a) \<Longrightarrow> (\<not> c \<Longrightarrow> sem_inv L b) \<Longrightarrow> sem_inv L (if c then a else b)"
  by simp

lemma acquire_inv:
  assumes "sem_inv L s0"
  shows "sem_inv L (snd (acquire now k opts s0))"
proof -
  let ?i = "nextId s0"
  let ?s = "s0\<lparr>nextId := Suc ?i\<rparr>"
  let ?s1 = "ensureGate k (the (ao_maxConcurrency opts)) ?s"
  let ?g = "(the (jget k (gates ?s1)))\<lparr>cleanupTimer := False\<rparr>"
  have b: "before L ?i ?s" using assms by (rule before_start)
  then have b1: "before L ?i ?s1" by (rule ensureGate_before)
  have g: "running ?g = runningOf k ?s1" "queue ?g = queueOf k ?s1"
    by (simp_all add: ensureGate_views)
  then have b2: "before L ?i (setGate k ?g ?s1)" by (intro before_setGate [OF b1])
  have grant: "sem_inv L (settle ?i Granted ((setGate k ((clearExpired now ?g)\<lparr>running :=
      running (clearExpired now ?g) + 1\<rparr>) ?s1)\<lparr>held := held ?s1 @ [(?i, k)]\<rparr>))"
    by (rule before_grant [OF b1]) (use g in simp_all)
  have enq: "sem_inv L ((setGate k (?g\<lparr>queue := queue ?g @ [?i]\<rparr>) (setGate k ?g ?s1))
      \<lparr>timers := timers (setGate k ?g ?s1) @ [(?i, k)], listeners := ls\<rparr>)" for ls
    by (rule before_enqueue [OF b2]) (use g in simp_all)
  show ?thesis
    unfolding acquire_def Let_def if_distrib [of snd] snd_conv
    by (intro sem_inv_if before_settle [OF b] before_settle [OF b2] grant enq)
qed

lemma markBlocked_inv:
  assumes "sem_inv L s"
  shows "sem_inv L (markBlocked now k cooldownMs s)"
proof (cases "cooldownMs \<le> 0")
  case True
  show ?thesis
  proof (cases "jget k (gates s)")
    case None
    with assms True show ?thesis by (simp add: markBlocked_def)
  next
    case (Some g)
    then have "sem_inv L (setGate k (g\<lparr>blockedUntil := None\<rparr>) s)"
      using assms gate_views [OF Some] by (simp add: sem_inv_setGate)
    with True Some show ?thesis by (simp add: markBlocked_def drainQueue_inv)
  qed
next
  case False
  let ?s1 = "if jhas k (gates s) then s else ensureGate k 1 s"
  let ?g = "the (jget k (gates ?s1))"
  have s1: "sem_inv L ?s1"
    using assms
    by (auto simp: ensureGate_eq newGate_def jhas_def runningOf_def queueOf_def intro!: sem_inv_setGate)
  have "running ?g = runningOf k ?s1" "queue ?g = queueOf k ?s1"
    by (auto simp: jhas_def runningOf_def queueOf_def ensureGate_eq)
  with s1 have "sem_inv L (setGate k (?g\<lparr>cleanupTimer := False, blockedUntil := Some (now + cooldownMs)\<rparr>) ?s1)"
    by (intro sem_inv_setGate) simp_all
  with False show ?thesis by (simp add: markBlocked_def Let_def)
qed

lemma onUnblock_inv:
  assumes "sem_inv L s"
  shows "sem_inv L (onUnblock now k s)"
proof (cases "jget k (gates s)")
  case None
  with assms show ?thesis by (simp add: onUnblock_def)
next
  case (Some g)
  have "sem_inv L (drainQueue now k (setGate k (g\<lparr>blockedUntil := None\<rparr>) s))"
    by (intro drainQueue_inv sem_inv_setGate [OF assms]) (use gate_views [OF Some] in simp_all)
  with assms Some show ?thesis
    by (auto simp: onUnblock_def Let_def split: option.split)
qed

section \<open>Capacity\<close>

text \<open>The gates of a system in which every call for the key \<open>k\<close> asks for the capacity \<open>caps k\<close>.\<close>

definition cap_inv :: "(string \<Rightarrow> int) \<Rightarrow> semaphore \<Rightarrow> bool" where
  "cap_inv caps s \<longleftrightarrow>
     (\<forall>k g. jget k (gates s) = Some g \<longrightarrow> running g \<le> caps k \<and> maxConcurrency g \<le> caps k)"

lemma cap_inv_setGate:
  "cap_inv caps s \<Longrightarrow> running g \<le> caps k \<Longrightarrow> maxConcurrency g \<le> caps k \<Longrightarrow> cap_inv caps (setGate k g s)"
  by (auto simp: cap_inv_def)

lemma cap_inv_gates: "gates s = gates s' \<Longrightarrow> cap_inv caps s \<longleftrightarrow> cap_inv caps s'"
  by (simp add: cap_inv_def)

lemma cap_inv_gate:
  "cap_inv caps s \<Longrightarrow> jget k (gates s) = Some g \<Longrightarrow> running g \<le> caps k \<and> maxConcurrency g \<le> caps k"
  by (simp add: cap_inv_def)

lemma scheduleCleanup_cap: "cap_inv caps s \<Longrightarrow> cap_inv caps (scheduleCleanup k s)"
  by (auto simp: scheduleCleanup_def split: option.split intro!: cap_inv_setGate dest: cap_inv_gate)

lemma drainQueue_cap:
  assumes "cap_inv caps s"
  shows "cap_inv caps (drainQueue now k s)"
proof (cases "jget k (gates s)")
  case None
  with assms show ?thesis by (simp add: drainQueue_def)
next
  case (Some g)
  obtain g' ws where d: "drainGate now g = (g', ws)" by (rule prod.exhaust)
  have "running g' \<le> caps k" "maxConcurrency g' \<le> caps k"
    using account.drain_bound [of g "caps k" now] account.drain_cap [of now g]
      cap_inv_gate [OF assms Some] d by simp_all
  then have c: "cap_inv caps (setGate k g' s)"
    by (intro cap_inv_setGate assms)
  then have "cap_inv caps (grantAll k ws (setGate k g' s))"
    by (subst cap_inv_gates [of _ "setGate k g' s"]) simp_all
  with Some d show ?thesis by (simp add: drainQueue_def Let_def scheduleCleanup_cap)
qed

lemma leaveQueue_cap: "cap_inv caps s \<Longrightarrow> cap_inv caps (leaveQueue i k s)"
  by (auto simp: leaveQueue_def Let_def split: option.split
      intro!: cap_inv_setGate scheduleCleanup_cap dest: cap_inv_gate)

lemma cap_inv_frame [simp]:
  "cap_inv caps (settle i r s) = cap_inv caps s"
  "cap_inv caps (s\<lparr>timers := ts\<rparr>) = cap_inv caps s"
  "cap_inv caps (s\<lparr>held := hs\<rparr>) = cap_inv caps s"
  "cap_inv caps (s\<lparr>nextId := n\<rparr>) = cap_inv caps s"
  "cap_inv caps (s\<lparr>listeners := ls\<rparr>) = cap_inv caps s"
  "cap_inv caps (s\<lparr>timers := ts, listeners := ls\<rparr>) = cap_inv caps s"
  by (simp_all add: cap_inv_def)

lemma release_cap:
  assumes "cap_inv caps s"
  shows "cap_inv caps (release now t s)"
proof -
  have "cap_inv caps (setGate k (g\<lparr>running := running g - 1\<rparr>) (s\<lparr>held := hs\<rparr>))"
    "cap_inv caps (setGate k g (s\<lparr>held := hs\<rparr>))"
    if "jget k (gates s) = Some g" for g k hs
    using assms cap_inv_gate [OF assms that] by (auto intro!: cap_inv_setGate)
  with assms show ?thesis
    by (auto simp: release_def Let_def intro!: drainQueue_cap scheduleCleanup_cap split: option.split)
qed

lemma acquire_cap:
  assumes "cap_inv caps s" and "case ao_maxConcurrency opts of None \<Rightarrow> True | Some c \<Rightarrow> c \<le> caps k"
  shows "cap_inv caps (snd (acquire now k opts s))"
proof (cases "isBypassed (ao_maxConcurrency opts)")
  case True
  with assms(1) show ?thesis by (simp add: acquire_def Let_def)
next
  case False
  with assms(2) obtain c where m: "ao_maxConcurrency opts = Some c" "0 < c" "c \<le> caps k"
    by (auto simp: isBypassed_def split: option.splits)
  let ?s = "s\<lparr>nextId := Suc (nextId s)\<rparr>"
  let ?g = "the (jget k (gates (ensureGate k c ?s)))"
  have r: "running ?g \<le> caps k" "maxConcurrency ?g = c"
    using assms(1) m(2,3) cap_inv_gate [OF assms(1), of k]
    by (auto simp: ensureGate_views runningOf_def split: option.split)
  then have c: "cap_inv caps (ensureGate k c ?s)"
    using assms(1) m(3) by (auto simp: ensureGate_eq intro!: cap_inv_setGate)
  have "cap_inv caps (setGate k h (ensureGate k c ?s))"
    if "running h \<le> caps k" "maxConcurrency h = c" for h
    using that c m(3) by (intro cap_inv_setGate) simp_all
  with assms(1) m r c show ?thesis
    by (simp add: acquire_def Let_def cap_inv_setGate)
qed

lemma onCleanup_cap: "cap_inv caps s \<Longrightarrow> cap_inv caps (onCleanup now k s)"
  by (auto simp: onCleanup_def cleanupGateIfIdle_def cap_inv_def split: option.split)

lemma markBlocked_cap:
  assumes "cap_inv caps s" and "1 \<le> caps k"
  shows "cap_inv caps (markBlocked now k cooldownMs s)"
proof -
  have "cap_inv caps (setGate k (g\<lparr>blockedUntil := b\<rparr>) s)"
    "cap_inv caps (setGate k (g\<lparr>cleanupTimer := False, blockedUntil := b\<rparr>) s)"
    if "jget k (gates s) = Some g" for g b
    using assms(1) cap_inv_gate [OF assms(1) that] by (auto intro!: cap_inv_setGate)
  with assms show ?thesis
    by (auto simp: markBlocked_def Let_def jhas_def ensureGate_eq newGate_def
        intro!: drainQueue_cap cap_inv_setGate dest: cap_inv_gate [OF assms(1)] split: option.split)
qed

lemma onUnblock_cap:
  assumes "cap_inv caps s"
  shows "cap_inv caps (onUnblock now k s)"
proof -
  have "cap_inv caps (setGate k (g\<lparr>blockedUntil := None\<rparr>) s)" if "jget k (gates s) = Some g" for g
    using assms cap_inv_gate [OF assms that] by (auto intro!: cap_inv_setGate)
  with assms show ?thesis
    by (auto simp: onUnblock_def Let_def intro!: drainQueue_cap scheduleCleanup_cap split: option.split)
qed

lemma reset_gates [simp]: "gates (reset k s) = jdel k (gates s)"
proof (cases "jget k (gates s)")
  case None
  then have "\<forall>p \<in> set (gates s). fst p \<noteq> k" by (force simp: jget_None_iff jkeys_def)
  then show ?thesis using None by (simp add: reset_def jdel_def)
next
  case (Some g)
  then show ?thesis by (simp add: reset_def rejectAll_def [symmetric] Let_def)
qed

lemma reset_cap: "cap_inv caps s \<Longrightarrow> cap_inv caps (reset k s)"
  by (simp add: cap_inv_def)

section \<open>Runs\<close>

text \<open>
  Every operation at any time and in any order. No call asks for more than \<open>caps k\<close> slots of the key \<open>k\<close>, and
  \<open>n k\<close> counts the resets of the key; \<open>resetAll\<close> is a reset of every key.
\<close>

inductive sem_step :: "(string \<Rightarrow> int) \<Rightarrow> semaphore \<Rightarrow> semaphore \<Rightarrow> bool" for caps where
  call: "(case ao_maxConcurrency opts of None \<Rightarrow> True | Some c \<Rightarrow> c \<le> caps k) \<Longrightarrow>
    sem_step caps s (snd (acquire now k opts s))"
| give_back: "sem_step caps s (release now t s)"
| timer: "sem_step caps s (onTimeout t s)"
| abort: "sem_step caps s (onAbort t s)"
| cleanup: "sem_step caps s (onCleanup now k s)"
| block: "sem_step caps s (markBlocked now k cooldownMs s)"
| unblock: "sem_step caps s (onUnblock now k s)"

definition countResets :: "string list \<Rightarrow> (string \<Rightarrow> nat) \<Rightarrow> string \<Rightarrow> nat" where
  "countResets ks n k = n k + length (filter (\<lambda>k'. k' = k) ks)"

lemma countResets_Cons: "countResets ks (countResets [k] n) = countResets (k # ks) n"
  by (rule ext) (simp add: countResets_def)

inductive sem_reaches :: "(string \<Rightarrow> int) \<Rightarrow> (string \<Rightarrow> nat) \<Rightarrow> semaphore \<Rightarrow> bool" for caps where
  start: "sem_reaches caps (\<lambda>_. 0) emptySemaphore"
| step: "sem_reaches caps n s \<Longrightarrow> sem_step caps s s' \<Longrightarrow> sem_reaches caps n s'"
| reset_one: "sem_reaches caps n s \<Longrightarrow> sem_reaches caps (countResets [k] n) (reset k s)"
| reset_all: "sem_reaches caps n s \<Longrightarrow> sem_reaches caps (countResets (jkeys (gates s)) n) (resetAll s)"

inductive_cases sem_stepE: "sem_step caps s s'"

lemma empty_inv: "sem_inv (\<lambda>_. 0) emptySemaphore" "cap_inv caps emptySemaphore"
  by (simp_all add: sem_inv_defs emptySemaphore_def runningOf_def queueOf_def holders_def cap_inv_def)

lemmas op_inv = acquire_inv onTimeout_inv onAbort_inv onCleanup_inv markBlocked_inv onUnblock_inv

lemma sem_step_inv:
  assumes "sem_step caps s s'" and "sem_inv L s"
  obtains M where "sem_inv M s'" and "\<And>k. M k \<le> L k"
proof -
  have "sem_inv L s' \<or> (\<exists>now t. s' = release now t s)"
    using assms(1) by (cases rule: sem_step.cases) (auto intro: op_inv [OF assms(2)])
  then show thesis
  proof
    assume "sem_inv L s'"
    then show thesis by (rule that) simp
  next
    assume "\<exists>now t. s' = release now t s"
    then obtain now t where s': "s' = release now t s" by blast
    from release_inv [OF assms(2), of now t] obtain M where "sem_inv M (release now t s)" "\<And>k. M k \<le> L k" by blast
    then show thesis unfolding s' [symmetric] by (rule that)
  qed
qed

lemma sem_step_cap:
  assumes "\<And>k. 1 \<le> caps k"
  shows "sem_step caps s s' \<Longrightarrow> cap_inv caps s \<Longrightarrow> cap_inv caps s'"
  using assms
  by (erule_tac sem_stepE)
     (simp_all add: acquire_cap release_cap onCleanup_cap markBlocked_cap onUnblock_cap
        onTimeout_def onAbort_def leaveQueue_cap)

text \<open>What a reset forgets is at most the capacity, so the holders unknown to a gate are at most that many per reset.\<close>

definition forgotten :: "(string \<Rightarrow> int) \<Rightarrow> (string \<Rightarrow> nat) \<Rightarrow> (string \<Rightarrow> int) \<Rightarrow> bool" where
  "forgotten caps n L \<longleftrightarrow> (\<forall>k. L k \<le> int (n k) * caps k)"

lemma resets_inv:
  assumes caps: "\<And>k. 1 \<le> caps k"
  shows "sem_inv L s \<Longrightarrow> cap_inv caps s \<Longrightarrow> forgotten caps n L \<Longrightarrow>
    \<exists>M. sem_inv M (fold reset ks s) \<and> cap_inv caps (fold reset ks s) \<and> forgotten caps (countResets ks n) M"
proof (induction ks arbitrary: L s n)
  case Nil
  then show ?case by (auto simp: countResets_def [abs_def])
next
  case (Cons k ks)
  have run: "runningOf k s \<le> caps k" using Cons.prems(2) caps [of k] by (auto simp: runningOf_def cap_inv_def split: option.split)
  have "forgotten caps (countResets [k] n) (L(k := L k + runningOf k s))"
    using Cons.prems(3) run by (auto simp: forgotten_def countResets_def distrib_right add_mono)
  from Cons.IH [OF gate_reset_inv [OF Cons.prems(1)] reset_cap [OF Cons.prems(2)] this] show ?case
    by (simp only: countResets_Cons fold_simps)
qed

lemma sem_reaches_all:
  assumes caps: "\<And>k. 1 \<le> caps k" and "sem_reaches caps n s"
  shows "\<exists>L. sem_inv L s \<and> cap_inv caps s \<and> forgotten caps n L"
  using assms(2)
proof (induction rule: sem_reaches.induct)
  case start
  then show ?case using empty_inv by (auto simp: forgotten_def)
next
  case (step n s s')
  then obtain L where L: "sem_inv L s" "cap_inv caps s" "forgotten caps n L" by blast
  from sem_step_inv [OF step.hyps(2) L(1)] obtain M where M: "sem_inv M s'" "\<And>k. M k \<le> L k" by blast
  then have "forgotten caps n M" using L(3) by (meson forgotten_def order_trans)
  then show ?case using M(1) sem_step_cap [OF caps step.hyps(2) L(2)] by blast
next
  case (reset_one n s k)
  then obtain L where L: "sem_inv L s" "cap_inv caps s" "forgotten caps n L" by blast
  from resets_inv [OF caps this, of "[k]"] show ?case by simp
next
  case (reset_all n s)
  then obtain L where L: "sem_inv L s" "cap_inv caps s" "forgotten caps n L" by blast
  from resets_inv [OF caps this, of "jkeys (gates s)"] show ?case by (simp add: resetAll_def)
qed

lemma sem_reaches_inv: "sem_reaches caps n s \<Longrightarrow> \<exists>L. sem_inv L s"
proof (induction rule: sem_reaches.induct)
  case start
  then show ?case using empty_inv by blast
next
  case (step n s s')
  then show ?case using sem_step_inv by blast
next
  case (reset_one n s k)
  then show ?case using gate_reset_inv by blast
next
  case (reset_all n s)
  have "sem_inv L u \<Longrightarrow> \<exists>M. sem_inv M (fold reset ks u)" for L u ks
    by (induction ks arbitrary: L u) (auto dest: gate_reset_inv)
  then show ?case using reset_all.IH by (auto simp: resetAll_def)
qed

section \<open>Properties\<close>

definition plainCall :: "int \<Rightarrow> acquire_options" where
  "plainCall c = \<lparr>ao_maxConcurrency = Some c, ao_signalGiven = False, ao_aborted = False,
     ao_maxQueueSize = DEFAULT_MAX_QUEUE_SIZE\<rparr>"

text \<open>
  C1. Whatever the order of calls (with whatever capacities, and with none), releases (also repeated ones), timeouts,
  aborts, cooldowns, cleanups and resets: the calls that hold a slot of an account are never more than the largest
  capacity (1 or more) that calls ask for its key, as long as the key has not been reset, and every reset of the key, which forgets the
  slots in use, lets in at most as many again.
\<close>

theorem account_capacity:
  assumes "\<And>k. 1 \<le> caps k" and "sem_reaches caps n s"
  shows "holders k s \<le> (1 + int (n k)) * caps k"
proof -
  obtain L where L: "sem_inv L s" "cap_inv caps s" "forgotten caps n L" using sem_reaches_all [OF assms] by blast
  have "runningOf k s + L k = holders k s" using L(1) by (simp add: sem_inv_def slots_inv_def)
  moreover have "runningOf k s \<le> caps k"
    using L(2) assms(1) [of k] by (auto simp: runningOf_def cap_inv_def split: option.split)
  moreover have "L k \<le> int (n k) * caps k" using L(3) by (simp add: forgotten_def)
  ultimately show ?thesis by (simp add: distrib_right)
qed

definition twoCalls :: semaphore where
  "twoCalls = snd (acquire 2 ''glm:a'' (plainCall 1) (snd (acquire 1 ''glm:a'' (plainCall 1) emptySemaphore)))"

lemma call_step: "sem_step (\<lambda>_. 1) s (snd (acquire now k (plainCall 1) s))"
  by (rule sem_step.call) (simp add: plainCall_def)

lemma twoCalls_reached: "sem_reaches (\<lambda>_. 1) (\<lambda>_. 0) twoCalls"
  unfolding twoCalls_def by (rule sem_reaches.step [OF sem_reaches.step [OF sem_reaches.start call_step] call_step])

text \<open>The bound is met: one call, a reset, another call.\<close>

theorem account_capacity_witness:
  "let s = snd (acquire 3 ''glm:a'' (plainCall 1) (reset ''glm:a'' twoCalls))
   in holders ''glm:a'' s = 2 \<and> holders ''glm:a'' s \<le> (1 + 1) * 1 \<and> holders ''glm:a'' twoCalls \<le> 1"
proof -
  let ?s = "snd (acquire 3 ''glm:a'' (plainCall 1) (reset ''glm:a'' twoCalls))"
  have "sem_reaches (\<lambda>_. 1) (countResets [''glm:a''] (\<lambda>_. 0)) ?s"
    by (rule sem_reaches.step [OF sem_reaches.reset_one [OF twoCalls_reached] call_step])
  from account_capacity [OF _ this, of "''glm:a''"] have "holders ''glm:a'' ?s \<le> (1 + 1) * 1" by (simp add: countResets_def)
  moreover have "holders ''glm:a'' twoCalls \<le> 1" using account_capacity [OF _ twoCalls_reached, of "''glm:a''"] by simp
  moreover have "holders ''glm:a'' ?s = 2" by code_simp
  ultimately show ?thesis by (simp add: Let_def)
qed

text \<open>
  C28. No promise is lost and none settles twice: every call made so far has either settled
  exactly once and no longer waits, or has not settled, waits in exactly one queue and has
  its timer armed.
\<close>

theorem account_promises:
  assumes "sem_reaches caps n s" and "i < nextId s"
  shows "((\<exists>!r. (i, r) \<in> set (settled s)) \<and> (\<forall>k. i \<notin> set (queueOf k s)))
    \<or> (i \<notin> fst ` set (settled s) \<and> (\<exists>!k. i \<in> set (queueOf k s)) \<and> (\<forall>k. i \<in> set (queueOf k s) \<longrightarrow> (i, k) \<in> set (timers s)))"
proof -
  have inv: "queue_inv s" "promise_inv s"
    using sem_reaches_inv [OF assms(1)] by (auto simp: sem_inv_def)
  have q: "i \<in> set (queueOf k s) \<longleftrightarrow> (i, k) \<in> set (timers s)" for k
    using inv(1) by (simp add: queue_inv_def)
  have dt: "distinct (map fst (timers s))" and ds: "distinct (map fst (settled s))"
    using inv by (simp_all add: queue_inv_def promise_inv_def)
  have either: "i \<in> fst ` set (settled s) \<or> i \<in> fst ` set (timers s)"
    and disj: "fst ` set (settled s) \<inter> fst ` set (timers s) = {}"
    using inv(2) assms(2) by (auto simp: promise_inv_def)
  show ?thesis
  proof (cases "i \<in> fst ` set (settled s)")
    case True
    then obtain r where r: "(i, r) \<in> set (settled s)" by auto
    have "\<exists>!r. (i, r) \<in> set (settled s)"
      using r ds by (blast intro: eq_key_imp_eq_value)
    moreover have "i \<notin> set (queueOf k s)" for k
      using True disj by (force simp: q)
    ultimately show ?thesis by blast
  next
    case False
    with either obtain k where k: "(i, k) \<in> set (timers s)" by auto
    have "\<exists>!k. i \<in> set (queueOf k s)"
      unfolding q using k dt by (blast intro: eq_key_imp_eq_value)
    with False show ?thesis by (simp add: q)
  qed
qed

theorem account_promises_witness:
  "1 \<notin> fst ` set (settled twoCalls) \<and> (\<exists>!k. 1 \<in> set (queueOf k twoCalls))"
proof -
  have "nextId twoCalls = 2" "settled twoCalls = [(0, Granted)]" by code_simp+
  with account_promises [OF twoCalls_reached, of 1] show ?thesis by auto
qed

text \<open>
  A returned slot goes to the waiter at the head: when the account is saturated and not
  blocked, a release settles exactly the oldest waiting call with the slot, the others keep
  their order and the number of holders does not change.
\<close>

theorem account_handoff:
  assumes inv: "sem_inv L s" and t: "(i, k) \<in> set (held s)"
    and g: "jget k (gates s) = Some g" and pos: "0 < running g" and q: "queue g = w # ws"
    and free: "\<not> isBlocked now g" and full: "running g = maxConcurrency g"
  shows "let s' = release now (i, k) s in
    settled s' = settled s @ [(w, Granted)] \<and> (w, k) \<in> set (held s') \<and> queueOf k s' = ws
    \<and> holders k s' = holders k s"
proof -
  let ?g1 = "g\<lparr>running := running g - 1\<rparr>"
  let ?s = "setGate k ?g1 (s\<lparr>held := removeAll (i, k) (held s)\<rparr>)"
  have r: "running g + L k = holders k s" using inv gate_views [OF g] by (simp add: sem_inv_def slots_inv_def)
  obtain g' vs where d: "drainGate now ?g1 = (g', vs)" by (rule prod.exhaust)
  have "isBlocked now ?g1 = isBlocked now g" by (simp add: isBlocked_def)
  with free full q have "length vs = 1"
    using account.drain_count [of now ?g1] d by simp
  with account.drain_fifo [of now ?g1] d q have vs: "vs = [w]" and q': "queue g' = ws"
    by (cases vs; simp)+
  have run: "running g' = running g"
    using account.drain_running [of now ?g1] d vs by simp
  have rel: "release now (i, k) s = drainQueue now k ?s"
    using t g q pos by (simp add: release_def Let_def)
  have dr: "drainQueue now k ?s = grantAll k [w] (setGate k g' ?s)"
    using d vs run pos by (simp add: drainQueue_def Let_def)
  have eq: "release now (i, k) s = grantAll k [w] (setGate k g' ?s)"
    using rel dr by simp
  have "sem_inv L (release now (i, k) s)" by (rule release_inv_running [OF inv t g pos])
  then have "runningOf k (release now (i, k) s) + L k = holders k (release now (i, k) s)"
    by (simp add: sem_inv_def slots_inv_def)
  moreover have "runningOf k (release now (i, k) s) = running g" unfolding eq by (simp add: runningOf_def run)
  ultimately have h: "holders k (release now (i, k) s) = holders k s" using r by simp
  have "queueOf k (release now (i, k) s) = ws" unfolding eq by (simp add: queueOf_def q')
  with h show ?thesis unfolding Let_def eq by simp
qed

theorem account_handoff_witness:
  "settled (release 5 (0, ''glm:a'') twoCalls) = [(0, Granted), (1, Granted)]"
proof -
  obtain L where i: "sem_inv L twoCalls" using sem_reaches_inv [OF twoCalls_reached] by blast
  obtain g where g: "jget ''glm:a'' (gates twoCalls) = Some g" "0 < running g" "queue g = [1]" "\<not> isBlocked 5 g"
    "running g = maxConcurrency g"
  proof
    show "jget ''glm:a'' (gates twoCalls) = Some (the (jget ''glm:a'' (gates twoCalls)))" by code_simp
    show "0 < running (the (jget ''glm:a'' (gates twoCalls)))" "queue (the (jget ''glm:a'' (gates twoCalls))) = [1]"
      "\<not> isBlocked 5 (the (jget ''glm:a'' (gates twoCalls)))"
      "running (the (jget ''glm:a'' (gates twoCalls))) = maxConcurrency (the (jget ''glm:a'' (gates twoCalls)))"
      by code_simp+
  qed
  have "held twoCalls = [(0, ''glm:a'')]" "settled twoCalls = [(0, Granted)]" by code_simp+
  with account_handoff [OF i _ g] show ?thesis by (simp add: Let_def)
qed

text \<open>
  A cooldown can swallow the wakeup of its waiters. Calls queued during a cooldown are
  to be drained by the timer of \<open>markBlocked\<close>, 50 ms after it ends; but a newcomer in that
  gap takes a slot ahead of them and clears \<open>blockedUntil\<close>, and the timer then does
  nothing: the waiters stay queued although slots are free and nothing blocks the gate.
\<close>

theorem unblock_wakeup_lost:
  assumes "jget k (gates s) = Some g" and "blockedUntil g = Some b" and "b \<noteq> 0" and "b \<le> now"
    and "queue g = w # ws" and "running g + 1 < c"
    and "ao_maxConcurrency opts = Some c" and "0 < c" and "\<not> ao_aborted opts"
  shows "let s1 = snd (acquire now k opts s); s2 = onUnblock later k s1; g2 = the (jget k (gates s2)) in
    (nextId s, k) \<in> set (held s2) \<and> queueOf k s2 = w # ws
    \<and> running g2 < maxConcurrency g2 \<and> \<not> isBlocked later g2"
proof -
  let ?h = "(clearExpired now (g\<lparr>maxConcurrency := c, cleanupTimer := False\<rparr>))"
  have nb: "\<not> isBlocked now (g\<lparr>maxConcurrency := c, cleanupTimer := False\<rparr>)"
    using assms(2,4) by (simp add: isBlocked_def)
  have h: "?h = g\<lparr>maxConcurrency := c, cleanupTimer := False, blockedUntil := None\<rparr>"
    using assms(2-4) nb by (simp add: clearExpired_def)
  let ?s1 = "snd (acquire now k opts s)"
  let ?g2 = "g\<lparr>maxConcurrency := c, cleanupTimer := False, blockedUntil := None, running := running g + 1\<rparr>"
  have g2: "jget k (gates ?s1) = Some ?g2" and hd: "held ?s1 = held s @ [(nextId s, k)]"
    using assms nb h by (simp_all add: acquire_def Let_def isBypassed_def ensureGate_def)
  have "onUnblock later k ?s1 = ?s1"
    using g2 by (simp add: onUnblock_def)
  with g2 hd assms(5,6) show ?thesis
    by (simp add: Let_def queueOf_def isBlocked_def)
qed

definition blockedWaiters :: semaphore where
  "blockedWaiters = snd (acquire 20 ''glm:a'' (plainCall 3) (markBlocked 10 ''glm:a'' 1000 emptySemaphore))"

theorem unblock_wakeup_lost_witness:
  "let s2 = onUnblock 1060 ''glm:a'' (snd (acquire 1015 ''glm:a'' (plainCall 3) blockedWaiters))
   in queueOf ''glm:a'' s2 = [0] \<and> running (the (jget ''glm:a'' (gates s2))) < 3"
proof -
  have "jget ''glm:a'' (gates blockedWaiters) =
      Some \<lparr>running = 0, maxConcurrency = 3, queue = [0], blockedUntil = Some 1010, cleanupTimer = False\<rparr>"
    by code_simp
  from unblock_wakeup_lost [OF this, of 1010 1015 0 "[]" 3 "plainCall 3" 1060]
  have "let s1 = snd (acquire 1015 ''glm:a'' (plainCall 3) blockedWaiters); s2 = onUnblock 1060 ''glm:a'' s1;
      g2 = the (jget ''glm:a'' (gates s2)) in queueOf ''glm:a'' s2 = [0] \<and> running g2 < maxConcurrency g2"
    by (simp add: plainCall_def Let_def)
  moreover have "maxConcurrency (the (jget ''glm:a'' (gates (onUnblock 1060 ''glm:a''
      (snd (acquire 1015 ''glm:a'' (plainCall 3) blockedWaiters)))))) = 3" by code_simp
  ultimately show ?thesis by (simp add: Let_def)
qed

text \<open>
  What a reset does to the capacity: after \<open>reset\<close>
  forgets a gate whose slot is in use, the release of the forgotten holder gives back a slot
  of the new gate, and an account of capacity 1 ends up with two holders at once.
\<close>

theorem stale_release_after_reset:
  "let s1 = snd (acquire 1 ''glm:a'' (plainCall 1) emptySemaphore);
       s2 = snd (acquire 3 ''glm:a'' (plainCall 1) (reset ''glm:a'' s1));
       s3 = release 4 (0, ''glm:a'') s2;
       s4 = snd (acquire 5 ''glm:a'' (plainCall 1) s3)
   in settled s4 = [(0, Granted), (1, Granted), (2, Granted)]
      \<and> held s4 = [(1, ''glm:a''), (2, ''glm:a'')] \<and> holders ''glm:a'' s4 = 2"
  by code_simp

end
