(* ===== verification/JsValues.thy ===== *)
theory JsValues
  imports Prelude Complex_Main
begin

text \<open>
  Values that come from outside (stored settings, request bodies): JSON values with
  \<open>undefined\<close>, and what the program does with them: \<open>asRecord\<close>, property access, \<open>Number\<close> and
  \<open>parseInt\<close> on strings, \<open>Math.trunc\<close>.

  A number is a rational, or \<open>JNaN\<close> when it is not finite. \<open>Number(s)\<close> is \<open>None\<close> when it is
  not finite; the rounding of a literal to a double is not modelled.
\<close>

section \<open>Values\<close>

datatype json =
    JUndefined
  | JNull
  | JBool bool
  | JNum rat
  | JNaN
  | JStr string
  | JArr "json list"
  | JObj "(string \<times> json) list"

type_synonym json_object = "(string \<times> json) list"

text \<open>\<open>value && typeof value === "object" && !Array.isArray(value) ? value : {}\<close>\<close>

definition asRecord :: "json \<Rightarrow> json_object" where
  "asRecord v = (case v of JObj fs \<Rightarrow> fs | _ \<Rightarrow> [])"

definition field :: "string \<Rightarrow> json_object \<Rightarrow> json" where
  "field k fs = (case map_of fs k of Some v \<Rightarrow> v | None \<Rightarrow> JUndefined)"

definition hasOwn :: "string \<Rightarrow> json_object \<Rightarrow> bool" where
  "hasOwn k fs \<longleftrightarrow> map_of fs k \<noteq> None"

lemma asRecord_simps [simp]:
  "asRecord JUndefined = []" "asRecord JNull = []" "asRecord (JBool b) = []" "asRecord (JNum n) = []"
  "asRecord JNaN = []" "asRecord (JStr s) = []" "asRecord (JArr xs) = []" "asRecord (JObj fs) = fs"
  by (simp_all add: asRecord_def)

lemma field_simps' [simp]:
  "field k [] = JUndefined"
  "field k ((k', v) # fs) = (if k = k' then v else field k fs)"
  by (simp_all add: field_def)

lemma hasOwn_simps [simp]:
  "\<not> hasOwn k []"
  "hasOwn k ((k', v) # fs) \<longleftrightarrow> k = k' \<or> hasOwn k fs"
  by (auto simp: hasOwn_def)

section \<open>Numbers\<close>

definition mathTrunc :: "rat \<Rightarrow> int" where
  "mathTrunc r = (if 0 \<le> r then \<lfloor>r\<rfloor> else \<lceil>r\<rceil>)"

lemma mathTrunc_of_int [simp]: "mathTrunc (of_int n) = n"
  by (simp add: mathTrunc_def)

definition digitValue :: "int \<Rightarrow> char \<Rightarrow> int option" where
  "digitValue radix c =
     (let n = (of_char c :: int);
          d = (if 48 \<le> n \<and> n \<le> 57 then n - 48
               else if 97 \<le> n \<and> n \<le> 122 then n - 87
               else if 65 \<le> n \<and> n \<le> 90 then n - 55 else 99)
      in if d < radix then Some d else None)"

text \<open>The longest prefix of digits: its value, its length, and the rest.\<close>

fun spanDigits :: "int \<Rightarrow> int \<Rightarrow> nat \<Rightarrow> string \<Rightarrow> int \<times> nat \<times> string" where
  "spanDigits radix v n [] = (v, n, [])"
| "spanDigits radix v n (c # cs) =
     (case digitValue radix c of
        None \<Rightarrow> (v, n, c # cs)
      | Some d \<Rightarrow> spanDigits radix (v * radix + d) (n + 1) cs)"

definition splitSign :: "string \<Rightarrow> int \<times> string" where
  "splitSign s = (case s of [] \<Rightarrow> (1, [])
     | c # cs \<Rightarrow> if c = CHR ''-'' then (-1, cs) else if c = CHR ''+'' then (1, cs) else (1, c # cs))"

definition parseDecimal :: "string \<Rightarrow> rat option" where
  "parseDecimal t =
     (let (sgn, r) = splitSign t;
          (ip, ni, r1) = spanDigits 10 0 0 r;
          (fp, nf, r2) = (case r1 of [] \<Rightarrow> (0, 0, [])
                          | c # q \<Rightarrow> if c = CHR ''.'' then spanDigits 10 0 0 q else (0, 0, c # q));
          m = of_int sgn * (of_int ip + of_int fp / 10 ^ nf)
      in if ni + nf = 0 then None
         else (case r2 of
                 [] \<Rightarrow> Some m
               | c # q \<Rightarrow>
                 (if c = CHR ''e'' \<or> c = CHR ''E''
                  then (let (es, q1) = splitSign q; (e, ne, q2) = spanDigits 10 0 0 q1
                        in if ne = 0 \<or> q2 \<noteq> [] then None
                           else Some (if es = 1 then m * 10 ^ nat e else m / 10 ^ nat e))
                  else None)))"

definition parseRadix :: "int \<Rightarrow> string \<Rightarrow> rat option" where
  "parseRadix radix t =
     (let (v, n, r) = spanDigits radix 0 0 t in if n = 0 \<or> r \<noteq> [] then None else Some (of_int v))"

definition jsNumber :: "string \<Rightarrow> rat option" where
  "jsNumber s =
     (let t = trim s
      in if t = [] then Some 0
         else if starts_with ''0x'' t \<or> starts_with ''0X'' t then parseRadix 16 (drop 2 t)
         else if starts_with ''0o'' t \<or> starts_with ''0O'' t then parseRadix 8 (drop 2 t)
         else if starts_with ''0b'' t \<or> starts_with ''0B'' t then parseRadix 2 (drop 2 t)
         else parseDecimal t)"

text \<open>\<open>parseInt(s, 10)\<close>: leading blanks, a sign, the longest prefix of digits.\<close>

definition jsParseInt :: "string \<Rightarrow> int option" where
  "jsParseInt s =
     (let (sgn, r) = splitSign (dropWhile isSpace s); (v, n, rest) = spanDigits 10 0 0 r
      in if n = 0 then None else Some (sgn * v))"

text \<open>\<open>typeof v === "number" ? v : typeof v === "string" && v.trim() !== "" ? Number(v) : NaN\<close>\<close>

definition numberOrText :: "json \<Rightarrow> rat option" where
  "numberOrText v =
     (case v of
        JNum r \<Rightarrow> Some r
      | JStr s \<Rightarrow> if trim s = [] then None else jsNumber s
      | _ \<Rightarrow> None)"

lemma numberOrText_simps [simp]:
  "numberOrText (JNum r) = Some r"
  "numberOrText JUndefined = None"
  by (simp_all add: numberOrText_def)

text \<open>\<open>String.prototype.split\<close> by one character.\<close>

fun splitOn :: "char \<Rightarrow> string \<Rightarrow> string list" where
  "splitOn sep [] = [[]]"
| "splitOn sep (c # cs) =
     (if c = sep then [] # splitOn sep cs
      else (case splitOn sep cs of [] \<Rightarrow> [[c]] | w # ws \<Rightarrow> (c # w) # ws))"

lemma splitOn_nonempty [simp]: "splitOn sep s \<noteq> []"
  by (induction s) (auto split: list.split)

lemma splitOn_none: "sep \<notin> set s \<Longrightarrow> splitOn sep s = [s]"
  by (induction s) auto

lemma splitOn_append: "sep \<notin> set s \<Longrightarrow> splitOn sep (s @ sep # t) = s # splitOn sep t"
  by (induction s) auto

section \<open>Entries of objects, numbers of values\<close>

fun decimalDigits :: "nat \<Rightarrow> string" where
  "decimalDigits n = (if n < 10 then [char_of (48 + n)] else decimalDigits (n div 10) @ [char_of (48 + n mod 10)])"

declare decimalDigits.simps [simp del]

text \<open>\<open>Object.entries\<close> of an object or an array; \<open>None\<close> for what is not an object.\<close>

definition objectEntries :: "json \<Rightarrow> json_object option" where
  "objectEntries v =
     (case v of
        JObj fs \<Rightarrow> Some fs
      | JArr xs \<Rightarrow> Some (map (\<lambda>(i, x). (decimalDigits i, x)) (List.enumerate 0 xs))
      | _ \<Rightarrow> None)"

text \<open>\<open>a ?? b\<close>\<close>

definition orElse :: "json \<Rightarrow> json \<Rightarrow> json" where
  "orElse a b = (case a of JUndefined \<Rightarrow> b | JNull \<Rightarrow> b | _ \<Rightarrow> a)"

text \<open>
  \<open>Number(v)\<close> for any value: an array is converted through its text, which is a number only for
  the empty array and for one element.
\<close>

fun jsNumberOf :: "json \<Rightarrow> rat option" where
  "jsNumberOf JUndefined = None"
| "jsNumberOf JNull = Some 0"
| "jsNumberOf (JBool b) = Some (if b then 1 else 0)"
| "jsNumberOf (JNum r) = Some r"
| "jsNumberOf JNaN = None"
| "jsNumberOf (JStr s) = jsNumber s"
| "jsNumberOf (JArr []) = Some 0"
| "jsNumberOf (JArr [x]) =
     (case x of JUndefined \<Rightarrow> Some 0 | JNull \<Rightarrow> Some 0 | JBool b \<Rightarrow> None | _ \<Rightarrow> jsNumberOf x)"
| "jsNumberOf (JArr (x # y # zs)) = None"
| "jsNumberOf (JObj fs) = None"

lemma objectEntries_simps [simp]:
  "objectEntries (JObj fs) = Some fs" "objectEntries JUndefined = None" "objectEntries JNull = None"
  by (simp_all add: objectEntries_def)

lemma orElse_simps [simp]:
  "orElse JUndefined b = b" "orElse JNull b = b" "orElse (JObj fs) b = JObj fs"
  by (simp_all add: orElse_def)

text \<open>Whether a value counts as true in a condition.\<close>

definition isTruthy :: "json \<Rightarrow> bool" where
  "isTruthy v = (case v of
      JUndefined \<Rightarrow> False | JNull \<Rightarrow> False | JNaN \<Rightarrow> False
    | JBool b \<Rightarrow> b | JNum n \<Rightarrow> n \<noteq> 0 | JStr s \<Rightarrow> s \<noteq> [] | JArr xs \<Rightarrow> True | JObj fs \<Rightarrow> True)"

lemma isTruthy_simps [simp]: "\<not> isTruthy JUndefined" "isTruthy (JObj fs)"
  by (simp_all add: isTruthy_def)

lemma field_append: "field k (xs @ ys) = (if hasOwn k xs then field k xs else field k ys)"
  by (induction xs) auto

lemma field_absent: "\<not> hasOwn k xs \<Longrightarrow> field k xs = JUndefined"
  by (simp add: field_def hasOwn_def)

lemma field_jset [simp]: "field k (jset k' v xs) = (if k = k' then v else field k xs)"
  by (induction xs) auto

text \<open>\<open>{ ...base, ...over }\<close>: the keys of \<open>over\<close> are set one after the other.\<close>

definition spread :: "json_object \<Rightarrow> json_object \<Rightarrow> json_object" where
  "spread over base = fold (\<lambda>k. jset k (field k over)) (map fst over) base"

lemma field_fold_jset:
  "field k (fold (\<lambda>k. jset k (f k)) ks base) = (if k \<in> set ks then f k else field k base)"
  by (induction ks arbitrary: base) auto

lemma hasOwn_iff: "hasOwn k xs \<longleftrightarrow> k \<in> fst ` set xs"
  by (induction xs) auto

lemma field_spread [simp]: "field k (spread over base) = (if hasOwn k over then field k over else field k base)"
  by (simp add: spread_def field_fold_jset hasOwn_iff)

lemma field_defined: "field k xs \<noteq> JUndefined \<Longrightarrow> hasOwn k xs"
  using field_absent by blast

lemma field_filter:
  "distinct (map fst xs) \<Longrightarrow> field k (filter P xs) = (if P (k, field k xs) then field k xs else JUndefined)"
proof (induction xs)
  case (Cons p xs)
  obtain k' v where p: "p = (k', v)" by (cases p)
  show ?case
  proof (cases "k = k'")
    case True
    then have "\<not> hasOwn k (filter P xs)" using Cons.prems by (auto simp: p hasOwn_iff)
    then show ?thesis using True by (simp add: p field_absent)
  qed (use Cons in \<open>simp add: p\<close>)
qed simp

lemma hasOwn_filter:
  "distinct (map fst xs) \<Longrightarrow> hasOwn k (filter P xs) \<longleftrightarrow> hasOwn k xs \<and> P (k, field k xs)"
proof (induction xs)
  case (Cons p xs)
  obtain k' v where p: "p = (k', v)" by (cases p)
  show ?case
  proof (cases "k = k'")
    case True
    then have "\<not> hasOwn k xs" using Cons.prems by (auto simp: p hasOwn_iff)
    then have "\<not> hasOwn k (filter P xs)" by (auto simp: hasOwn_iff)
    then show ?thesis using True by (simp add: p)
  qed (use Cons in \<open>simp add: p\<close>)
qed simp

end
