(* ===== verification/ComboSteps.thy ===== *)
theory ComboSteps
  imports JsValues
begin

text \<open>
  The steps of a combo, \<open>src/lib/combos/steps.ts\<close>: what an entry of a combo's list means (a model
  or a reference to another combo), its weight, its identifier. Entries are JSON values. A
  collection of combos is what \<open>collectComboNames\<close> makes of it, the list of their names.
\<close>

section \<open>Strings\<close>

text \<open>A string that is not blank, trimmed.\<close>

definition toTrimmedString :: "json \<Rightarrow> string option" where
  "toTrimmedString v = (case v of JStr s \<Rightarrow> if trim s \<noteq> [] then Some (trim s) else None | _ \<Rightarrow> None)"

text \<open>\<open>a || b\<close> on strings that are null or not empty.\<close>

definition firstSome :: "'a option \<Rightarrow> 'a option \<Rightarrow> 'a option" where
  "firstSome a b = (case a of Some x \<Rightarrow> Some x | None \<Rightarrow> b)"

definition toWeight :: "json \<Rightarrow> rat" where
  "toWeight v = (case numberOrText v of Some r \<Rightarrow> max 0 (min 100 r) | None \<Rightarrow> 0)"

definition parseProviderId :: "string \<Rightarrow> string option" where
  "parseProviderId model =
     (let trimmed = trim model; before = takeWhile (\<lambda>c. c \<noteq> CHR ''/'') trimmed
      in if CHR ''/'' \<notin> set trimmed \<or> before = [] then None
         else if trim before \<noteq> [] then Some (trim before) else None)"

definition toFullModelString :: "string \<Rightarrow> string option \<Rightarrow> string" where
  "toFullModelString model providerId =
     (let trimmedModel = trim model
      in if CHR ''/'' \<in> set trimmedModel then trimmedModel
         else (case Option.bind providerId (\<lambda>p. toTrimmedString (JStr p)) of
                 Some p \<Rightarrow> p @ ''/'' @ trimmedModel
               | None \<Rightarrow> trimmedModel))"

definition slugChar :: "char \<Rightarrow> bool" where
  "slugChar c \<longleftrightarrow> (let n = (of_char c :: nat) in 97 \<le> n \<and> n \<le> 122 \<or> 48 \<le> n \<and> n \<le> 57)"

text \<open>\<open>replace(/[^a-z0-9]+/g, "-")\<close>; the flag says whether the run has had its dash.\<close>

fun squash :: "bool \<Rightarrow> string \<Rightarrow> string" where
  "squash inRun [] = []"
| "squash inRun (c # cs) =
     (if slugChar c then c # squash False cs
      else if inRun then squash True cs else CHR ''-'' # squash True cs)"

definition slugify :: "string \<Rightarrow> string" where
  "slugify value =
     (let dashes = (\<lambda>s. dropWhile (\<lambda>c. c = CHR ''-'') s);
          slug = rev (dashes (rev (dashes (squash False (toLowerCase value)))))
      in if slug \<noteq> [] then slug else ''step'')"

definition buildStepId :: "bool \<Rightarrow> string option \<Rightarrow> nat \<Rightarrow> string \<Rightarrow> string" where
  "buildStepId isRef comboName index seed =
     take 200 (slugify (nullish comboName ''combo'') @ ''-'' @ (if isRef then ''ref'' else ''model'') @ ''-''
               @ decimalDigits (index + 1) @ ''-'' @ slugify seed)"

section \<open>Steps\<close>

record model_step =
  ms_id :: string
  ms_model :: string
  ms_providerId :: "string option"
  ms_connectionId :: "string option option"
  ms_weight :: rat
  ms_label :: "string option"
  ms_tags :: "string list"
  ms_allowedConnectionIds :: "string list"

record ref_step =
  rs_id :: string
  rs_comboName :: string
  rs_weight :: rat
  rs_label :: "string option"

datatype combo_step = ModelStep model_step | RefStep ref_step

record step_options =
  so_comboName :: json
  so_index :: nat
  so_comboNames :: "string list"

definition shouldTreatAsComboRef :: "string \<Rightarrow> string option \<Rightarrow> step_options \<Rightarrow> bool" where
  "shouldTreatAsComboRef target providerId opts \<longleftrightarrow>
     providerId = None \<and> (target \<in> set (so_comboNames opts) \<or> Some target = toTrimmedString (so_comboName opts))"

definition getComboStepWeight :: "json \<Rightarrow> rat" where
  "getComboStepWeight v = (case v of JObj fs \<Rightarrow> toWeight (field ''weight'' fs) | _ \<Rightarrow> 0)"

definition isKind :: "string \<Rightarrow> json_object \<Rightarrow> bool" where
  "isKind k fs \<longleftrightarrow> field ''kind'' fs = JStr k"

text \<open>\<open>toTrimmedString(providerId) || toTrimmedString(provider) || parseProviderId(rawModel)\<close>\<close>

definition stepProvider :: "json_object \<Rightarrow> string \<Rightarrow> string option" where
  "stepProvider fs rawModel =
     firstSome (toTrimmedString (field ''providerId'' fs))
       (firstSome (toTrimmedString (field ''provider'' fs)) (parseProviderId rawModel))"

definition getComboModelString :: "json \<Rightarrow> string option" where
  "getComboModelString v =
     (case v of
        JStr s \<Rightarrow> toTrimmedString (JStr s)
      | JObj fs \<Rightarrow>
        (if isKind ''combo-ref'' fs then None
         else map_option (\<lambda>m. toFullModelString m (stepProvider fs m)) (toTrimmedString (field ''model'' fs)))
      | _ \<Rightarrow> None)"

definition getComboModelProvider :: "json \<Rightarrow> string option" where
  "getComboModelProvider v =
     (case v of
        JStr s \<Rightarrow> parseProviderId s
      | JObj fs \<Rightarrow>
        (if isKind ''combo-ref'' fs then None
         else stepProvider fs (nullish (toTrimmedString (field ''model'' fs)) []))
      | _ \<Rightarrow> None)"

definition getComboStepTarget :: "json \<Rightarrow> step_options \<Rightarrow> string option" where
  "getComboStepTarget v opts =
     (case v of
        JStr s \<Rightarrow> toTrimmedString (JStr s)
      | JObj fs \<Rightarrow>
        (if isKind ''combo-ref'' fs then toTrimmedString (field ''comboName'' fs)
         else (case toTrimmedString (field ''model'' fs) of
                 None \<Rightarrow> None
               | Some rawModel \<Rightarrow>
                 (let providerId = stepProvider fs rawModel
                  in if \<not> isKind ''model'' fs \<and> shouldTreatAsComboRef rawModel providerId opts
                     then Some rawModel else Some (toFullModelString rawModel providerId))))
      | _ \<Rightarrow> None)"

definition trimmedStrings :: "json \<Rightarrow> string list" where
  "trimmedStrings v = (case v of JArr xs \<Rightarrow> List.map_filter toTrimmedString xs | _ \<Rightarrow> [])"

definition stepConnection :: "json_object \<Rightarrow> string option option" where
  "stepConnection fs =
     (case field ''connectionId'' fs of JNull \<Rightarrow> Some None | v \<Rightarrow> map_option Some (toTrimmedString v))"

definition normalizeComboStep :: "json \<Rightarrow> step_options \<Rightarrow> combo_step option" where
  "normalizeComboStep v opts =
     (let comboName = toTrimmedString (so_comboName opts); index = so_index opts
      in case v of
        JStr s \<Rightarrow>
          (case toTrimmedString (JStr s) of
             None \<Rightarrow> None
           | Some target \<Rightarrow>
             (if shouldTreatAsComboRef target None opts
              then Some (RefStep \<lparr>rs_id = buildStepId True comboName index target, rs_comboName = target,
                                  rs_weight = 1, rs_label = None\<rparr>)
              else Some (ModelStep \<lparr>ms_id = buildStepId False comboName index target, ms_model = target,
                                    ms_providerId = parseProviderId target, ms_connectionId = None, ms_weight = 1,
                                    ms_label = None, ms_tags = [], ms_allowedConnectionIds = []\<rparr>)))
      | JObj fs \<Rightarrow>
          (let explicitId = toTrimmedString (field ''id'' fs); weight = toWeight (field ''weight'' fs);
               label = toTrimmedString (field ''label'' fs);
               ref = (\<lambda>name. Some (RefStep
                        \<lparr>rs_id = nullish explicitId (buildStepId True comboName index name), rs_comboName = name,
                         rs_weight = weight, rs_label = label\<rparr>))
           in if isKind ''combo-ref'' fs
              then (case toTrimmedString (field ''comboName'' fs) of None \<Rightarrow> None | Some name \<Rightarrow> ref name)
              else (case toTrimmedString (field ''model'' fs) of
                      None \<Rightarrow> None
                    | Some rawModel \<Rightarrow>
                      (let providerId = stepProvider fs rawModel
                       in if \<not> isKind ''model'' fs \<and> shouldTreatAsComboRef rawModel providerId opts then ref rawModel
                          else (let model = toFullModelString rawModel providerId; conn = stepConnection fs;
                                    seed = (case conn of Some (Some c) \<Rightarrow> model @ '':'' @ c | _ \<Rightarrow> model)
                                in Some (ModelStep
                                     \<lparr>ms_id = nullish explicitId (buildStepId False comboName index seed),
                                      ms_model = model, ms_providerId = providerId, ms_connectionId = conn,
                                      ms_weight = weight, ms_label = label, ms_tags = trimmedStrings (field ''tags'' fs),
                                      ms_allowedConnectionIds = trimmedStrings (field ''allowedConnectionIds'' fs)\<rparr>)))))
      | _ \<Rightarrow> None)"

definition normalizeComboModels :: "json \<Rightarrow> json \<Rightarrow> string list \<Rightarrow> combo_step list" where
  "normalizeComboModels models comboName comboNames =
     (case models of
        JArr xs \<Rightarrow>
          List.map_filter
            (\<lambda>(i, v). normalizeComboStep v \<lparr>so_comboName = comboName, so_index = i, so_comboNames = comboNames\<rparr>)
            (List.enumerate 0 xs)
      | _ \<Rightarrow> [])"

text \<open>A normalized step as the object it is; an optional key is left out.\<close>

definition optionalKey :: "string \<Rightarrow> json option \<Rightarrow> json_object" where
  "optionalKey k v = (case v of None \<Rightarrow> [] | Some x \<Rightarrow> [(k, x)])"

definition optionalStrings :: "string \<Rightarrow> string list \<Rightarrow> json_object" where
  "optionalStrings k xs = (if xs = [] then [] else [(k, JArr (map JStr xs))])"

fun stepJson :: "combo_step \<Rightarrow> json" where
  "stepJson (RefStep r) =
     JObj ([(''id'', JStr (rs_id r)), (''kind'', JStr ''combo-ref''), (''comboName'', JStr (rs_comboName r)),
            (''weight'', JNum (rs_weight r))] @ optionalKey ''label'' (map_option JStr (rs_label r)))"
| "stepJson (ModelStep m) =
     JObj ([(''id'', JStr (ms_id m)), (''kind'', JStr ''model''), (''model'', JStr (ms_model m))]
           @ optionalKey ''providerId'' (map_option JStr (ms_providerId m))
           @ optionalKey ''connectionId'' (map_option (\<lambda>c. case c of Some s \<Rightarrow> JStr s | None \<Rightarrow> JNull) (ms_connectionId m))
           @ [(''weight'', JNum (ms_weight m))]
           @ optionalKey ''label'' (map_option JStr (ms_label m))
           @ optionalStrings ''tags'' (ms_tags m)
           @ optionalStrings ''allowedConnectionIds'' (ms_allowedConnectionIds m))"

text \<open>\<open>normalizeComboRecord\<close>: the record with its version and its steps.\<close>

definition normalizeComboRecord :: "json_object \<Rightarrow> string list \<Rightarrow> json_object" where
  "normalizeComboRecord combo comboNames =
     spread [(''version'', JNum 2),
             (''models'', JArr (map stepJson
                (normalizeComboModels (field ''models'' combo)
                   (case toTrimmedString (field ''name'' combo) of Some s \<Rightarrow> JStr s | None \<Rightarrow> JNull) comboNames)))]
       combo"

section \<open>Normalized steps\<close>

definition tidy :: "string \<Rightarrow> bool" where
  "tidy s \<longleftrightarrow> s \<noteq> [] \<and> \<not> isSpace (hd s) \<and> \<not> isSpace (last s)"

lemma dropWhile_hd: "s \<noteq> [] \<Longrightarrow> \<not> P (hd s) \<Longrightarrow> dropWhile P s = s"
  by (cases s) auto

lemma trim_tidy: "tidy s \<Longrightarrow> trim s = s"
  by (simp add: tidy_def trim_def dropWhile_hd hd_rev)

lemma tidy_trim: "trim s \<noteq> [] \<Longrightarrow> tidy (trim s)"
proof -
  define b where "b = dropWhile isSpace s"
  define c where "c = dropWhile isSpace (rev b)"
  assume "trim s \<noteq> []"
  then have c: "c \<noteq> []" by (simp add: trim_def b_def c_def)
  then have "\<not> isSpace (hd c)" unfolding c_def by (rule hd_dropWhile)
  moreover have "\<not> isSpace (last c)"
  proof -
    have "b \<noteq> []" using c by (auto simp: c_def)
    then have "\<not> isSpace (hd b)" unfolding b_def by (rule hd_dropWhile)
    moreover have "last c = last (rev b)"
      using c unfolding c_def by (metis last_append takeWhile_dropWhile_id)
    ultimately show ?thesis using \<open>b \<noteq> []\<close> by (simp add: last_rev)
  qed
  ultimately show ?thesis using c by (simp add: tidy_def trim_def b_def [symmetric] c_def [symmetric] hd_rev last_rev)
qed

lemma trimmed_tidy: "toTrimmedString v = Some s \<Longrightarrow> tidy s"
  by (auto simp: toTrimmedString_def tidy_trim split: json.splits if_splits)

lemma trimmed_of_tidy [simp]: "tidy s \<Longrightarrow> toTrimmedString (JStr s) = Some s"
  by (auto simp: toTrimmedString_def trim_tidy) (simp add: tidy_def)

lemma trimmed_nontext [simp]:
  "toTrimmedString JUndefined = None" "toTrimmedString JNull = None" "toTrimmedString (JNum r) = None"
  by (simp_all add: toTrimmedString_def)

lemma tidy_join: "tidy p \<Longrightarrow> tidy m \<Longrightarrow> tidy (p @ ''/'' @ m)"
  by (auto simp: tidy_def)

lemma parse_tidy: "parseProviderId m = Some p \<Longrightarrow> tidy p \<and> CHR ''/'' \<in> set (trim m)"
  by (auto simp: parseProviderId_def Let_def tidy_trim split: if_splits)

lemma stepProvider_tidy: "stepProvider fs m = Some p \<Longrightarrow> tidy p"
  by (auto simp: stepProvider_def firstSome_def dest: parse_tidy trimmed_tidy split: option.splits)

text \<open>Generated identifiers have no blanks.\<close>

lemma slugChar_noSpace: "slugChar c \<Longrightarrow> \<not> isSpace c"
  by (auto simp: slugChar_def isSpace_def Let_def)

definition idChar :: "char \<Rightarrow> bool" where
  "idChar c \<longleftrightarrow> slugChar c \<or> c = CHR ''-''"

lemma idChar_noSpace: "idChar c \<Longrightarrow> \<not> isSpace c"
proof -
  have "\<not> isSpace (CHR ''-'')" by code_simp
  then show "idChar c \<Longrightarrow> \<not> isSpace c" by (auto simp: idChar_def slugChar_noSpace)
qed

lemma squash_chars: "c \<in> set (squash r s) \<Longrightarrow> idChar c"
  by (induction r s rule: squash.induct) (auto simp: idChar_def split: if_splits)

lemma slugify_chars: "c \<in> set (slugify s) \<Longrightarrow> idChar c"
proof -
  have "list_all idChar ''step''" by code_simp
  then have "c \<in> set ''step'' \<Longrightarrow> idChar c" unfolding list_all_iff by blast
  then show "c \<in> set (slugify s) \<Longrightarrow> idChar c"
    by (auto simp: slugify_def Let_def split: if_splits dest!: set_dropWhileD squash_chars)
qed

lemma slugify_nonempty: "slugify s \<noteq> []"
  by (simp add: slugify_def Let_def)

lemma decimal_idChar: "c \<in> set (decimalDigits n) \<Longrightarrow> idChar c"
proof (induction n rule: decimalDigits.induct)
  case (1 n)
  have d: "idChar (char_of (48 + k :: nat))" if "k < 10" for k
    using that by (auto simp: idChar_def slugChar_def Let_def of_char_of)
  show ?case
    using 1 d [of n] d [of "n mod 10"] by (subst (asm) (2) decimalDigits.simps) (auto split: if_splits)
qed

lemma stepId_tidy: "tidy (buildStepId isRef name index seed)"
proof -
  define parts where "parts = slugify (nullish name ''combo'') @ ''-'' @ (if isRef then ''ref'' else ''model'') @ ''-''
    @ decimalDigits (index + 1) @ ''-'' @ slugify seed"
  have "list_all idChar ''-'' \<and> list_all idChar ''ref'' \<and> list_all idChar ''model''" by code_simp
  then have "list_all idChar parts"
    by (auto simp: parts_def list_all_iff dest: slugify_chars decimal_idChar)
  then have chars: "\<forall>c \<in> set (take 200 parts). \<not> isSpace c"
    by (auto simp: list_all_iff idChar_noSpace dest: in_set_takeD)
  have "take 200 parts \<noteq> []" by (simp add: parts_def slugify_nonempty)
  moreover from this have "hd (take 200 parts) \<in> set (take 200 parts)" "last (take 200 parts) \<in> set (take 200 parts)"
    by (rule hd_in_set, rule last_in_set)
  ultimately have "tidy (take 200 parts)" using chars unfolding tidy_def by blast
  then show ?thesis by (simp add: buildStepId_def parts_def)
qed

fun wfStep :: "combo_step \<Rightarrow> bool" where
  "wfStep (RefStep r) \<longleftrightarrow> tidy (rs_id r) \<and> tidy (rs_comboName r) \<and> 0 \<le> rs_weight r \<and> rs_weight r \<le> 100
     \<and> pred_option tidy (rs_label r)"
| "wfStep (ModelStep m) \<longleftrightarrow> tidy (ms_id m) \<and> tidy (ms_model m) \<and> 0 \<le> ms_weight m \<and> ms_weight m \<le> 100
     \<and> pred_option tidy (ms_label m) \<and> pred_option tidy (ms_providerId m)
     \<and> (if ms_providerId m = None then parseProviderId (ms_model m) = None else CHR ''/'' \<in> set (ms_model m))
     \<and> pred_option (pred_option tidy) (ms_connectionId m)
     \<and> list_all tidy (ms_tags m) \<and> list_all tidy (ms_allowedConnectionIds m)"

lemma toWeight_range: "0 \<le> toWeight v \<and> toWeight v \<le> 100"
  by (simp add: toWeight_def split: option.split)

lemma toWeight_num: "0 \<le> r \<Longrightarrow> r \<le> 100 \<Longrightarrow> toWeight (JNum r) = r"
  by (simp add: toWeight_def)

lemma trimmedStrings_tidy: "list_all tidy (trimmedStrings v)"
  by (auto simp: trimmedStrings_def list_all_iff List.map_filter_def dest: trimmed_tidy split: json.splits)

lemma trimmedStrings_id: "list_all tidy xs \<Longrightarrow> trimmedStrings (JArr (map JStr xs)) = xs"
  by (induction xs) (auto simp: trimmedStrings_def List.map_filter_simps)

lemma trimmedStrings_undefined [simp]: "trimmedStrings JUndefined = []"
  by (simp add: trimmedStrings_def)

lemma trimmed_option: "pred_option tidy (toTrimmedString v)"
  by (auto simp: pred_option_def elim!: option.set_cases intro: trimmed_tidy dest: sym)

lemma stepConnection_tidy: "pred_option (pred_option tidy) (stepConnection fs)"
  by (auto simp: stepConnection_def option.pred_map comp_def trimmed_option split: json.splits)

lemma fullModel_wf:
  assumes "tidy raw"
  shows "tidy (toFullModelString raw (stepProvider fs raw))
    \<and> (if stepProvider fs raw = None then parseProviderId (toFullModelString raw (stepProvider fs raw)) = None
       else CHR ''/'' \<in> set (toFullModelString raw (stepProvider fs raw)))"
proof (cases "stepProvider fs raw")
  case None
  then have "parseProviderId raw = None" by (auto simp: stepProvider_def firstSome_def split: option.splits)
  then show ?thesis using assms None by (simp add: toFullModelString_def trim_tidy)
next
  case (Some p)
  then show ?thesis using assms stepProvider_tidy [OF Some] tidy_join [of p raw]
    by (auto simp: toFullModelString_def trim_tidy)
qed

lemma normalized_wf:
  assumes "normalizeComboStep v opts = Some s"
  shows "wfStep s"
proof (cases v)
  case (JStr x)
  then obtain t where t: "toTrimmedString (JStr x) = Some t"
    using assms by (cases "toTrimmedString (JStr x)") (simp_all add: normalizeComboStep_def)
  have "tidy t" by (rule trimmed_tidy [OF t])
  then show ?thesis using assms JStr t parse_tidy [of t]
    by (auto simp: normalizeComboStep_def Let_def stepId_tidy trim_tidy pred_option_def split: if_splits)
next
  case (JObj fs)
  have id: "tidy (nullish (toTrimmedString (field ''id'' fs)) (buildStepId b n i x))" for b n i x
    by (cases "toTrimmedString (field ''id'' fs)") (auto simp: stepId_tidy dest: trimmed_tidy)
  show ?thesis
  proof (cases "isKind ''combo-ref'' fs")
    case True
    then obtain n where n: "toTrimmedString (field ''comboName'' fs) = Some n"
      using assms JObj by (cases "toTrimmedString (field ''comboName'' fs)") (simp_all add: normalizeComboStep_def)
    show ?thesis using assms JObj True n id trimmed_tidy [OF n]
      by (auto simp: normalizeComboStep_def Let_def toWeight_range trimmed_option)
  next
    case False
    then obtain m where m: "toTrimmedString (field ''model'' fs) = Some m"
      using assms JObj by (cases "toTrimmedString (field ''model'' fs)") (simp_all add: normalizeComboStep_def)
    have t: "tidy m" by (rule trimmed_tidy [OF m])
    have p: "pred_option tidy (stepProvider fs m)"
      by (cases "stepProvider fs m") (auto dest: stepProvider_tidy)
    show ?thesis using assms JObj False m id t p fullModel_wf [OF t, of fs] stepConnection_tidy [of fs]
      by (auto simp: normalizeComboStep_def Let_def toWeight_range trimmed_option trimmedStrings_tidy
          simp del: trimmed_nontext split: if_splits)
  qed
qed (use assms in \<open>simp_all add: normalizeComboStep_def\<close>)

lemma optionalKey_field [simp]:
  "field k (optionalKey k' v) = (if k = k' then nullish v JUndefined else JUndefined)"
  "hasOwn k (optionalKey k' v) \<longleftrightarrow> k = k' \<and> v \<noteq> None"
  by (cases v; simp add: optionalKey_def)+

lemma optionalStrings_field [simp]:
  "field k (optionalStrings k' xs) = (if k = k' \<and> xs \<noteq> [] then JArr (map JStr xs) else JUndefined)"
  "hasOwn k (optionalStrings k' xs) \<longleftrightarrow> k = k' \<and> xs \<noteq> []"
  by (simp_all add: optionalStrings_def)

lemma stepJson_fields:
  fixes m :: model_step
  defines "fs \<equiv> asRecord (stepJson (ModelStep m))"
  shows "field ''kind'' fs = JStr ''model''" "field ''id'' fs = JStr (ms_id m)" "field ''model'' fs = JStr (ms_model m)"
    "field ''weight'' fs = JNum (ms_weight m)" "field ''provider'' fs = JUndefined"
    "field ''label'' fs = nullish (map_option JStr (ms_label m)) JUndefined"
    "field ''providerId'' fs = nullish (map_option JStr (ms_providerId m)) JUndefined"
    "field ''connectionId'' fs
       = nullish (map_option (\<lambda>c. case c of Some s \<Rightarrow> JStr s | None \<Rightarrow> JNull) (ms_connectionId m)) JUndefined"
    "field ''tags'' fs = (if ms_tags m \<noteq> [] then JArr (map JStr (ms_tags m)) else JUndefined)"
    "field ''allowedConnectionIds'' fs
       = (if ms_allowedConnectionIds m \<noteq> [] then JArr (map JStr (ms_allowedConnectionIds m)) else JUndefined)"
  by (simp_all add: fs_def field_append)

lemma trimmed_nullish: "pred_option tidy v \<Longrightarrow> toTrimmedString (nullish (map_option JStr v) JUndefined) = v"
  by (cases v) simp_all

lemma stepJson_stable:
  assumes "wfStep s"
  shows "normalizeComboStep (stepJson s) opts = Some s"
proof (cases s)
  case (RefStep r)
  then show ?thesis using assms
    by (cases "rs_label r") (simp_all add: normalizeComboStep_def isKind_def toWeight_num optionalKey_def)
next
  case (ModelStep m)
  define fs where "fs = asRecord (stepJson (ModelStep m))"
  note fields = stepJson_fields [of m, folded fs_def]
  have v: "stepJson (ModelStep m) = JObj fs" by (simp add: fs_def)
  have c: "stepConnection fs = ms_connectionId m"
    using assms ModelStep by (auto simp: stepConnection_def fields split: option.splits)
      (cases "ms_connectionId m"; simp add: pred_option_def split: option.splits)+
  have p: "stepProvider fs (ms_model m) = ms_providerId m"
    using assms ModelStep by (cases "ms_providerId m") (simp_all add: stepProvider_def fields firstSome_def)
  have full: "toFullModelString (ms_model m) (ms_providerId m) = ms_model m"
    using assms ModelStep by (cases "ms_providerId m") (auto simp: toFullModelString_def Let_def trim_tidy)
  have "normalizeComboStep (JObj fs) opts = Some (ModelStep m)" using assms ModelStep
    by (simp add: normalizeComboStep_def isKind_def fields p c full toWeight_num Let_def trimmed_nullish trimmedStrings_id)
  then show ?thesis by (simp only: v ModelStep)
qed

section \<open>Records\<close>

lemma map_filter_fixed:
  "(\<And>i x. x \<in> set xs \<Longrightarrow> f (i, g x) = Some x) \<Longrightarrow> List.map_filter f (List.enumerate n (map g xs)) = xs"
  by (induction xs arbitrary: n) (simp_all add: List.map_filter_simps)

lemma normalizeModels_wf: "list_all wfStep (normalizeComboModels models name ns)"
  by (auto simp: normalizeComboModels_def list_all_iff List.map_filter_def dest: normalized_wf split: json.splits)

lemma normalizeModels_stable:
  "list_all wfStep steps \<Longrightarrow> normalizeComboModels (JArr (map stepJson steps)) name ns = steps"
  unfolding normalizeComboModels_def
  by (simp, rule map_filter_fixed) (simp add: list_all_iff stepJson_stable)

lemma jset_same: "hasOwn k m \<Longrightarrow> jset k (field k m) m = m"
proof (induction m)
  case (Cons p m)
  then show ?case by (cases p) auto
qed simp

lemma spread_same:
  "(\<And>k. hasOwn k over \<Longrightarrow> hasOwn k base \<and> field k over = field k base) \<Longrightarrow> spread over base = base"
proof -
  assume a: "\<And>k. hasOwn k over \<Longrightarrow> hasOwn k base \<and> field k over = field k base"
  have "fold (\<lambda>k. jset k (field k over)) ks base = base" if "set ks \<subseteq> fst ` set over" for ks
    using that
  proof (induction ks)
    case (Cons k ks)
    then have "hasOwn k over" by (auto simp: hasOwn_iff)
    then have "jset k (field k over) base = base" using a [of k] jset_same [of k base] by simp
    then show ?case using Cons by simp
  qed simp
  then show ?thesis by (simp add: spread_def)
qed

lemma hasOwn_jset [simp]: "hasOwn k (jset k' v xs) \<longleftrightarrow> k = k' \<or> hasOwn k xs"
  by (induction xs) auto

lemma hasOwn_spread [simp]: "hasOwn k (spread over base) \<longleftrightarrow> hasOwn k over \<or> hasOwn k base"
proof -
  have "hasOwn k (fold (\<lambda>k. jset k (g k)) ks base) \<longleftrightarrow> k \<in> set ks \<or> hasOwn k base" for ks g base
    by (induction ks arbitrary: base) auto
  then show ?thesis by (simp add: spread_def hasOwn_iff)
qed

text \<open>
  Normalizing a combo is stable: what \<open>normalizeComboRecord\<close> has made of a record is left
  unchanged when it is normalized again, even when other combos exist by then, because every entry
  has become an explicit step with a fixed identifier. So a stored reference stays a reference and a
  stored model stays a model whatever combos are created or renamed later.
\<close>

theorem stored_combo_stable:
  "normalizeComboRecord (normalizeComboRecord combo ns) ns' = normalizeComboRecord combo ns"
proof -
  define once where "once = normalizeComboRecord combo ns"
  define steps where "steps = normalizeComboModels (field ''models'' combo)
    (case toTrimmedString (field ''name'' combo) of Some s \<Rightarrow> JStr s | None \<Rightarrow> JNull) ns"
  have o: "once = spread [(''version'', JNum 2), (''models'', JArr (map stepJson steps))] combo"
    by (simp add: once_def normalizeComboRecord_def steps_def)
  then have models: "field ''models'' once = JArr (map stepJson steps)" "field ''version'' once = JNum 2"
    "hasOwn ''models'' once" "hasOwn ''version'' once" by simp_all
  have "list_all wfStep steps" by (simp add: steps_def normalizeModels_wf)
  then have "normalizeComboRecord once ns' = spread [(''version'', JNum 2), (''models'', JArr (map stepJson steps))] once"
    by (simp add: normalizeComboRecord_def models normalizeModels_stable)
  also have "\<dots> = once" by (rule spread_same) (auto simp: models)
  finally show ?thesis by (simp add: once_def)
qed

end
