(* ===== verification/ComboPredicates.thy ===== *)
theory ComboPredicates
  imports CircuitBreaker Complex_Main
begin

text \<open>
  The pure decisions of the combo dispatchers: \<open>open-sse/services/combo/comboPredicates.ts\<close>,
  the response of an open circuit (\<open>providerCircuitOpenResponse\<close> in
  \<open>open-sse/utils/error.ts\<close>) and what the combo loop extracts from an error response
  (\<open>errorText\<close> and \<open>structuredError\<close> in \<open>open-sse/services/combo.ts\<close>).

  The patterns that are tested here are plain words with the flag \<open>i\<close>, so a test is
  \<open>contains\<close> on the lower-cased text. A number the code reads with \<open>Number(value)\<close> is a
  rational, \<open>None\<close> when it is not finite.
\<close>

section \<open>Responses\<close>

record http_result =
  hr_status :: int
  hr_headers :: "(string, string) jmap"

text \<open>\<open>Headers.get\<close> ignores case.\<close>

definition headerGet :: "string \<Rightarrow> http_result \<Rightarrow> string option" where
  "headerGet name r = map_option snd (find (\<lambda>p. toLowerCase (fst p) = toLowerCase name) (hr_headers r))"

text \<open>The \<open>error\<close> member of a JSON body: a string, or an object with a message, a code and a type.\<close>

record error_object =
  eo_message :: "string option"
  eo_code :: "string option"
  eo_type :: "string option"

datatype error_member = NoError | ErrorString string | ErrorObject error_object

text \<open>\<open>statusText\<close>, overwritten by the text of the body, then by its most specific message.\<close>

definition orText :: "string option \<Rightarrow> string \<Rightarrow> string" where
  "orText v d = (case v of None \<Rightarrow> d | Some t \<Rightarrow> if t = [] then d else t)"

definition comboErrorText :: "error_member \<Rightarrow> string option \<Rightarrow> string \<Rightarrow> string" where
  "comboErrorText parsedError bodyMessage text =
     (let fallback = orText bodyMessage (take 500 text)
      in case parsedError of
           ErrorObject e \<Rightarrow> orText (eo_message e) fallback
         | ErrorString t \<Rightarrow> orText (Some t) fallback
         | NoError \<Rightarrow> fallback)"

record structured_error =
  se_code :: "string option"
  se_type :: "string option"

definition structuredErrorOf :: "error_member \<Rightarrow> structured_error option" where
  "structuredErrorOf rawError =
     (case rawError of
        ErrorObject e \<Rightarrow> Some \<lparr>se_code = eo_code e, se_type = eo_type e\<rparr>
      | _ \<Rightarrow> None)"

definition providerCircuitOpenResponse :: "string \<Rightarrow> string \<Rightarrow> http_result \<times> error_member" where
  "providerCircuitOpenResponse provider retryAfterSec =
     (\<lparr>hr_status = 503,
       hr_headers = [(''Content-Type'', ''application/json''), (''Retry-After'', retryAfterSec),
                     (''X-AI-Gate-Provider-Breaker'', ''open'')]\<rparr>,
      ErrorObject \<lparr>eo_message = Some (''Provider '' @ provider @ '' circuit breaker is open''),
                   eo_code = Some ''provider_circuit_open'', eo_type = Some ''server_error''\<rparr>)"

section \<open>Predicates\<close>

definition TRANSIENT_FOR_SEMAPHORE :: "int list" where
  "TRANSIENT_FOR_SEMAPHORE = [429, 502, 503, 504]"

definition ALL_ACCOUNTS_RATE_LIMITED_PATTERNS :: "string list" where
  "ALL_ACCOUNTS_RATE_LIMITED_PATTERNS = [''unavailable'', ''service temporarily unavailable'']"

definition isAllAccountsRateLimitedResponse :: "int \<Rightarrow> string option \<Rightarrow> string \<Rightarrow> bool" where
  "isAllAccountsRateLimitedResponse status contentType errorText =
     (if status \<noteq> 503 then False
      else if \<not> (case contentType of Some c \<Rightarrow> contains ''application/json'' c | None \<Rightarrow> False) then False
      else list_ex (\<lambda>p. contains p (toLowerCase errorText)) ALL_ACCOUNTS_RATE_LIMITED_PATTERNS)"

definition isProviderCircuitOpenResult :: "http_result \<Rightarrow> string \<Rightarrow> bool" where
  "isProviderCircuitOpenResult result errorText =
     (case headerGet ''x-omniroute-provider-breaker'' result of
        Some h \<Rightarrow> if toLowerCase h = ''open'' then True
                  else contains ''provider_circuit_open'' (toLowerCase errorText)
      | None \<Rightarrow> contains ''provider_circuit_open'' (toLowerCase errorText))"

definition MAX_COMBO_DEPTH :: int where "MAX_COMBO_DEPTH = 3"
definition MAX_COMBO_DEPTH_HARD_CAP :: int where "MAX_COMBO_DEPTH_HARD_CAP = 10"

definition clampComboDepth :: "rat option \<Rightarrow> int" where
  "clampComboDepth value =
     (case value of
        None \<Rightarrow> MAX_COMBO_DEPTH
      | Some r \<Rightarrow> (let n = \<lfloor>r\<rfloor> in if n < 1 then MAX_COMBO_DEPTH else min n MAX_COMBO_DEPTH_HARD_CAP))"

definition PREDICTIVE_TTFT_MIN_SAMPLES :: rat where "PREDICTIVE_TTFT_MIN_SAMPLES = 5"

record ttft_metric =
  tm_requests :: "rat option"
  tm_avgLatencyMs :: "rat option"

definition shouldSkipForPredictedTtft :: "ttft_metric option \<Rightarrow> rat \<Rightarrow> bool" where
  "shouldSkipForPredictedTtft metric predictiveTtftMs =
     (case metric of
        None \<Rightarrow> False
      | Some m \<Rightarrow> if \<not> 0 < predictiveTtftMs then False
                  else PREDICTIVE_TTFT_MIN_SAMPLES \<le> nullish (tm_requests m) 0
                     \<and> predictiveTtftMs < nullish (tm_avgLatencyMs m) 0)"

definition PROVIDER_BREAKER_FAILURE_STATUSES :: "int list" where
  "PROVIDER_BREAKER_FAILURE_STATUSES = [408, 500, 502, 503, 504]"

record breaker_args =
  ba_isStreamReadinessFailure :: bool
  ba_status :: int
  ba_sameProviderNext :: bool
  ba_skipProviderBreaker :: bool
  ba_requestScopedFailure :: bool
  ba_error :: js_error
  ba_isProxyUnreachable :: bool

definition shouldRecordProviderBreakerFailure :: "breaker_args \<Rightarrow> bool" where
  "shouldRecordProviderBreakerFailure args \<longleftrightarrow>
     \<not> ba_isStreamReadinessFailure args
     \<and> ba_status args \<in> set PROVIDER_BREAKER_FAILURE_STATUSES
     \<and> (\<not> ba_sameProviderNext args \<or> ba_isProxyUnreachable args)
     \<and> \<not> ba_skipProviderBreaker args
     \<and> \<not> ba_requestScopedFailure args
     \<and> \<not> isLocalStreamLifecycleError (ba_error args)"

definition REQUEST_SCOPED_UPSTREAM_ERROR_CODES :: "string list" where
  "REQUEST_SCOPED_UPSTREAM_ERROR_CODES =
     [''context_length_exceeded'', ''upstream_empty_response'', ''upstream_response_failed'']"

definition lowerCode :: "structured_error option \<Rightarrow> string" where
  "lowerCode error = (case error of None \<Rightarrow> [] | Some e \<Rightarrow> toLowerCase (nullish (se_code e) []))"

definition lowerType :: "structured_error option \<Rightarrow> string" where
  "lowerType error = (case error of None \<Rightarrow> [] | Some e \<Rightarrow> toLowerCase (nullish (se_type e) []))"

definition isRequestScopedUpstreamFailure :: "structured_error option \<Rightarrow> bool" where
  "isRequestScopedUpstreamFailure error \<longleftrightarrow>
     lowerCode error \<in> set REQUEST_SCOPED_UPSTREAM_ERROR_CODES \<or> lowerType error = ''context_length_exceeded''"

definition INPUT_BOUND_ERROR_CODES :: "string list" where
  "INPUT_BOUND_ERROR_CODES = [''context_length_exceeded'', ''context_window_exceeded'']"

definition isInputBoundRequestFailure :: "structured_error option \<Rightarrow> bool" where
  "isInputBoundRequestFailure error \<longleftrightarrow>
     lowerCode error \<in> set INPUT_BOUND_ERROR_CODES \<or> lowerType error = ''context_length_exceeded''"

definition isSelfInflictedUpstreamTimeout :: "int \<Rightarrow> string option \<Rightarrow> string \<Rightarrow> bool" where
  "isSelfInflictedUpstreamTimeout status errorType provider \<longleftrightarrow>
     status = 504 \<and> errorType = Some ''upstream_timeout'' \<and> provider \<noteq> ''antigravity''"

record attempt_result =
  ar_status :: int
  ar_errorCode :: "string option"
  ar_errorType :: "string option"
  ar_error :: js_error

definition shouldSkipConnDisable :: "attempt_result \<Rightarrow> bool \<Rightarrow> bool \<Rightarrow> string \<Rightarrow> bool" where
  "shouldSkipConnDisable result is401 hasExtraKeys provider \<longleftrightarrow>
     ar_status result = 499
     \<or> ar_errorCode result = Some ''client_disconnected''
     \<or> ar_errorType result = Some ''client_disconnected''
     \<or> isLocalStreamLifecycleError (ar_error result)
     \<or> ar_errorCode result = Some ''plugin_block''
     \<or> ar_errorType result = Some ''plugin_block''
     \<or> (is401 \<and> hasExtraKeys)
     \<or> isRequestScopedUpstreamFailure (Some \<lparr>se_code = ar_errorCode result, se_type = ar_errorType result\<rparr>)
     \<or> isSelfInflictedUpstreamTimeout (ar_status result) (ar_errorType result) provider"

definition resolveDelayMs :: "rat option \<Rightarrow> rat \<Rightarrow> rat" where
  "resolveDelayMs value fallback =
     (case value of None \<Rightarrow> fallback | Some r \<Rightarrow> if r < 0 then fallback else r)"

definition effectiveMaxConcurrency :: "rat option \<Rightarrow> int \<Rightarrow> int" where
  "effectiveMaxConcurrency cap fallback =
     (case cap of Some c \<Rightarrow> if 0 < c then \<lfloor>c\<rfloor> else fallback | None \<Rightarrow> fallback)"

definition isStreamReadinessFailureErrorBody :: "error_member \<Rightarrow> bool" where
  "isStreamReadinessFailureErrorBody error \<longleftrightarrow>
     (case error of
        ErrorObject e \<Rightarrow> eo_code e = Some ''STREAM_READINESS_TIMEOUT'' \<or> eo_code e = Some ''STREAM_EARLY_EOF''
      | _ \<Rightarrow> False)"

definition isTokenLimitBreachErrorBody :: "error_member \<Rightarrow> bool" where
  "isTokenLimitBreachErrorBody error \<longleftrightarrow>
     (case error of ErrorObject e \<Rightarrow> eo_code e = Some ''TOKEN_LIMIT_EXCEEDED'' | _ \<Rightarrow> False)"

section \<open>Remaining quota\<close>

definition clampPercent :: "rat option \<Rightarrow> rat" where
  "clampPercent value = (case value of None \<Rightarrow> 100 | Some v \<Rightarrow> max 0 (min 100 v))"

definition remainingOf :: "rat \<Rightarrow> rat" where
  "remainingOf percentUsed = clampPercent (Some ((1 - percentUsed) * 100))"

text \<open>The window list holds \<open>Number(percentUsed)\<close> of each window that is an object.\<close>

record quota_info =
  qi_limitReached :: bool
  qi_windows :: "rat option list option"
  qi_percentUsed :: "rat option"

fun minRemainingLoop :: "rat option list \<Rightarrow> rat option \<Rightarrow> rat option" where
  "minRemainingLoop [] acc = acc"
| "minRemainingLoop (None # ws) acc = minRemainingLoop ws acc"
| "minRemainingLoop (Some u # ws) acc =
     (let remaining = remainingOf u
      in minRemainingLoop ws (Some (case acc of None \<Rightarrow> remaining | Some m \<Rightarrow> min m remaining)))"

definition quotaRemainingPercentFromQuota :: "quota_info option \<Rightarrow> rat" where
  "quotaRemainingPercentFromQuota quota =
     (case quota of
        None \<Rightarrow> 100
      | Some q \<Rightarrow>
        (if qi_limitReached q then 0
         else (let overall = (case qi_percentUsed q of
                                Some u \<Rightarrow> remainingOf u | None \<Rightarrow> 100)
               in case qi_windows q of
                    Some ws \<Rightarrow> (case minRemainingLoop ws None of Some m \<Rightarrow> m | None \<Rightarrow> overall)
                  | None \<Rightarrow> overall)))"

definition QUOTA_BLOCKING_CONNECTION_STATUSES :: "string list" where
  "QUOTA_BLOCKING_CONNECTION_STATUSES =
     [''banned'', ''credits_exhausted'', ''deactivated'', ''expired'', ''rate_limited'']"

definition normalizeConnectionStatus :: "string option \<Rightarrow> string" where
  "normalizeConnectionStatus value = (case value of Some s \<Rightarrow> toLowerCase (trim s) | None \<Rightarrow> [])"

text \<open>The limit instant is the epoch value of \<open>new Date(String(value))\<close>, \<open>None\<close> when there is none.\<close>

definition hasFutureRateLimitUntil :: "millis \<Rightarrow> millis option \<Rightarrow> bool" where
  "hasFutureRateLimitUntil now value = (case value of None \<Rightarrow> False | Some t \<Rightarrow> now < t)"

definition getConnectionStatusQuotaCutoffReason ::
  "millis \<Rightarrow> (string option \<times> millis option) option \<Rightarrow> string option" where
  "getConnectionStatusQuotaCutoffReason now connection =
     (case connection of
        None \<Rightarrow> None
      | Some (testStatus, rateLimitedUntil) \<Rightarrow>
        (let status = normalizeConnectionStatus testStatus
         in if status \<in> set QUOTA_BLOCKING_CONNECTION_STATUSES then Some status
            else if status = ''unavailable'' \<and> hasFutureRateLimitUntil now rateLimitedUntil then Some ''rate_limited''
            else None))"

section \<open>Ranges\<close>

lemma clampComboDepth_range: "1 \<le> clampComboDepth v \<and> clampComboDepth v \<le> MAX_COMBO_DEPTH_HARD_CAP"
  by (simp add: clampComboDepth_def MAX_COMBO_DEPTH_def MAX_COMBO_DEPTH_HARD_CAP_def Let_def split: option.split)

lemma clampPercent_range: "0 \<le> clampPercent v \<and> clampPercent v \<le> 100"
  by (simp add: clampPercent_def split: option.split)

lemma remainingOf_range: "0 \<le> remainingOf u \<and> remainingOf u \<le> 100"
  by (simp add: remainingOf_def clampPercent_range)

lemma minRemainingLoop_le:
  "\<forall>m. acc = Some m \<longrightarrow> 0 \<le> m \<and> m \<le> 100 \<Longrightarrow> minRemainingLoop ws acc = Some r \<Longrightarrow>
   0 \<le> r \<and> r \<le> 100 \<and> (\<forall>m. acc = Some m \<longrightarrow> r \<le> m) \<and>
   (\<forall>u. Some u \<in> set ws \<longrightarrow> r \<le> remainingOf u)"
proof (induction ws acc rule: minRemainingLoop.induct)
  case (1 acc)
  then show ?case by simp
next
  case (2 ws acc)
  then show ?case by simp
next
  case (3 u ws acc)
  let ?c = "remainingOf u"
  let ?a = "case acc of None \<Rightarrow> ?c | Some m \<Rightarrow> min m ?c"
  have "0 \<le> ?a \<and> ?a \<le> 100 \<and> ?a \<le> ?c \<and> (\<forall>m. acc = Some m \<longrightarrow> ?a \<le> m)"
    using 3(2) remainingOf_range [of u] by (cases acc) (auto simp: min_def)
  moreover have "0 \<le> r \<and> r \<le> 100 \<and> r \<le> ?a \<and> (\<forall>u. Some u \<in> set ws \<longrightarrow> r \<le> remainingOf u)"
    using 3(1) [OF refl] 3(3) calculation by (simp add: Let_def)
  ultimately show ?case by auto
qed

lemma minRemainingLoop_None: "minRemainingLoop ws None = None \<longleftrightarrow> (\<forall>w \<in> set ws. w = None)"
proof -
  have "minRemainingLoop ws acc = None \<longleftrightarrow> acc = None \<and> (\<forall>w \<in> set ws. w = None)" for acc
    by (induction ws acc rule: minRemainingLoop.induct) auto
  then show ?thesis by simp
qed

text \<open>
  The remaining percentage is in range, and no window has less left than what is reported.
\<close>

lemma quota_remaining_range:
  "0 \<le> quotaRemainingPercentFromQuota q \<and> quotaRemainingPercentFromQuota q \<le> 100"
proof -
  have "\<And>ws m. minRemainingLoop ws None = Some m \<Longrightarrow> 0 \<le> m \<and> m \<le> 100"
    using minRemainingLoop_le [of None] by blast
  then show ?thesis
    by (auto simp: quotaRemainingPercentFromQuota_def Let_def remainingOf_range split: option.split)
qed

lemma quota_remaining_worst_window:
  assumes "qi_windows q = Some ws" and "Some u \<in> set ws"
  shows "quotaRemainingPercentFromQuota (Some q) \<le> remainingOf u"
proof -
  have "minRemainingLoop ws None \<noteq> None" using assms(2) by (auto simp: minRemainingLoop_None)
  then obtain m where m: "minRemainingLoop ws None = Some m" by blast
  have "m \<le> remainingOf u"
    using minRemainingLoop_le [of None ws m] m assms(2) by blast
  then show ?thesis
    using m assms(1) remainingOf_range [of u] by (simp add: quotaRemainingPercentFromQuota_def)
qed

text \<open>A rate limit is never the provider's failure; a client abort is never the connection's.\<close>

lemma rate_limit_never_trips: "ba_status a = 429 \<Longrightarrow> \<not> shouldRecordProviderBreakerFailure a"
  by (simp add: shouldRecordProviderBreakerFailure_def PROVIDER_BREAKER_FAILURE_STATUSES_def)

lemma local_abort_harmless:
  assumes "isLocalStreamLifecycleError e"
  shows "\<not> shouldRecordProviderBreakerFailure (a\<lparr>ba_error := e\<rparr>)"
    and "shouldSkipConnDisable (r\<lparr>ar_error := e\<rparr>) b c p"
  using assms by (simp_all add: shouldRecordProviderBreakerFailure_def shouldSkipConnDisable_def)

lemma effectiveMaxConcurrency_pos:
  "1 \<le> fallback \<Longrightarrow> (\<forall>c. cap = Some c \<longrightarrow> c \<le> 0 \<or> 1 \<le> c) \<Longrightarrow> 1 \<le> effectiveMaxConcurrency cap fallback"
  by (auto simp: effectiveMaxConcurrency_def split: option.split)

text \<open>A positive cap below one slot is floored to no slot at all.\<close>

lemma fractional_cap_blocks: "effectiveMaxConcurrency (Some (1 / 2)) 3 = 0"
  by code_simp

end
