(* ===== verification/ComboStructure.thy ===== *)
theory ComboStructure
  imports ComboSteps ComboPredicates
begin

text \<open>
  From a combo to the targets of a request, \<open>open-sse/services/combo/comboStructure.ts\<close> with
  \<open>targetSorters.ts\<close> and \<open>comboData.ts\<close>: runtime steps, the order of composite tiers, the expansion
  of nested combos, the validation of their references, and the weighted choice.

  \<open>parse\<close> is what \<open>parseModel\<close> answers for a model string: its provider, or the alias when it has
  none. A collection of combos is a list of \<open>combo_like\<close>, what \<open>getCombosArray\<close> makes of it; a
  \<open>None\<close> is a call without a collection. \<open>visited\<close> is a set because the code copies it for every
  nested call, so it always holds the combos on the way down.
\<close>

section \<open>Combos\<close>

record combo_like =
  cl_name :: string
  cl_models :: "json list"
  cl_config :: "json_object option"

definition toComboLike :: "json_object \<Rightarrow> combo_like" where
  "toComboLike combo =
     \<lparr>cl_name = nullish (toTrimmedString (field ''name'' combo)) [],
      cl_models = (case field ''models'' combo of JArr xs \<Rightarrow> xs | _ \<Rightarrow> []),
      cl_config = (case field ''config'' combo of JObj fs \<Rightarrow> Some fs | _ \<Rightarrow> None)\<rparr>"

definition getCombosArray :: "json \<Rightarrow> combo_like list" where
  "getCombosArray allCombos =
     (case allCombos of
        JArr xs \<Rightarrow> map (toComboLike \<circ> asRecord) xs
      | JObj fs \<Rightarrow> (case field ''combos'' fs of JArr xs \<Rightarrow> map (toComboLike \<circ> asRecord) xs | _ \<Rightarrow> [])
      | _ \<Rightarrow> [])"

definition collectComboNames :: "combo_like list option \<Rightarrow> string list" where
  "collectComboNames allCombos =
     (case allCombos of None \<Rightarrow> [] | Some cs \<Rightarrow> filter (\<lambda>n. n \<noteq> []) (map cl_name cs))"

definition findCombo :: "string \<Rightarrow> combo_like list \<Rightarrow> combo_like option" where
  "findCombo name combos = find (\<lambda>c. cl_name c = name) combos"

section \<open>Runtime steps\<close>

record resolved_target =
  rt_stepId :: string
  rt_executionKey :: string
  rt_modelStr :: string
  rt_provider :: string
  rt_providerId :: "string option"
  rt_connectionId :: "string option"
  rt_allowedConnectionIds :: "string list option"
  rt_weight :: rat
  rt_label :: "string option"

record resolved_ref =
  rr_stepId :: string
  rr_executionKey :: string
  rr_comboName :: string
  rr_weight :: rat
  rr_label :: "string option"

datatype runtime_step = TargetStep resolved_target | ComboRef resolved_ref

fun stepIdOf :: "runtime_step \<Rightarrow> string" where
  "stepIdOf (TargetStep t) = rt_stepId t"
| "stepIdOf (ComboRef r) = rr_stepId r"

fun executionKeyOf :: "runtime_step \<Rightarrow> string" where
  "executionKeyOf (TargetStep t) = rt_executionKey t"
| "executionKeyOf (ComboRef r) = rr_executionKey r"

fun weightOf :: "runtime_step \<Rightarrow> rat" where
  "weightOf (TargetStep t) = rt_weight t"
| "weightOf (ComboRef r) = rr_weight r"

fun joinKey :: "string list \<Rightarrow> string" where
  "joinKey [] = []"
| "joinKey [x] = x"
| "joinKey (x # y # ys) = x @ ''>'' @ joinKey (y # ys)"

definition buildExecutionKey :: "string list \<Rightarrow> string \<Rightarrow> string" where
  "buildExecutionKey path stepId = joinKey (path @ [stepId])"

definition getTargetProvider :: "(string \<Rightarrow> string option) \<Rightarrow> string \<Rightarrow> string option \<Rightarrow> string" where
  "getTargetProvider parse modelStr providerId = nullish (firstSome providerId (parse modelStr)) ''unknown''"

definition normalizeRuntimeStep ::
  "(string \<Rightarrow> string option) \<Rightarrow> json \<Rightarrow> string \<Rightarrow> nat \<Rightarrow> string list \<Rightarrow> string list \<Rightarrow> runtime_step option" where
  "normalizeRuntimeStep parse entry comboName index comboNames path =
     (case normalizeComboStep entry \<lparr>so_comboName = JStr comboName, so_index = index, so_comboNames = comboNames\<rparr> of
        None \<Rightarrow> None
      | Some (RefStep r) \<Rightarrow>
          Some (ComboRef \<lparr>rr_stepId = rs_id r, rr_executionKey = buildExecutionKey path (rs_id r),
                          rr_comboName = rs_comboName r, rr_weight = rs_weight r, rr_label = rs_label r\<rparr>)
      | Some (ModelStep m) \<Rightarrow>
          (case getComboModelString (stepJson (ModelStep m)) of
             None \<Rightarrow> None
           | Some modelStr \<Rightarrow>
             Some (TargetStep
               \<lparr>rt_stepId = ms_id m, rt_executionKey = buildExecutionKey path (ms_id m), rt_modelStr = modelStr,
                rt_provider = getTargetProvider parse modelStr (ms_providerId m), rt_providerId = ms_providerId m,
                rt_connectionId = nullish (ms_connectionId m) None,
                rt_allowedConnectionIds =
                  (if ms_allowedConnectionIds m \<noteq> [] then Some (ms_allowedConnectionIds m) else None),
                rt_weight = ms_weight m, rt_label = ms_label m\<rparr>)))"

definition getTopLevelRuntimeSteps ::
  "(string \<Rightarrow> string option) \<Rightarrow> combo_like \<Rightarrow> string list \<Rightarrow> string list \<Rightarrow> runtime_step list" where
  "getTopLevelRuntimeSteps parse combo comboNames path =
     List.map_filter (\<lambda>(i, entry). normalizeRuntimeStep parse entry (cl_name combo) i comboNames path)
       (List.enumerate 0 (cl_models combo))"

section \<open>Composite tiers\<close>

record tier_entry =
  te_stepId :: string
  te_fallbackTier :: "string option"

definition tierEntry :: "string \<times> json \<Rightarrow> (string \<times> tier_entry) option" where
  "tierEntry e =
     (case snd e of
        JObj rawTier \<Rightarrow>
          (case (toTrimmedString (JStr (fst e)), toTrimmedString (field ''stepId'' rawTier)) of
             (Some name, Some stepId) \<Rightarrow>
               Some (name, \<lparr>te_stepId = stepId, te_fallbackTier = toTrimmedString (field ''fallbackTier'' rawTier)\<rparr>)
           | _ \<Rightarrow> None)
      | _ \<Rightarrow> None)"

text \<open>\<open>new Map(entries)\<close>\<close>

definition mapOfEntries :: "('k \<times> 'v) list \<Rightarrow> ('k, 'v) jmap" where
  "mapOfEntries es = fold (\<lambda>(k, v). jset k v) es []"

definition pushStep :: "string \<Rightarrow> string list \<Rightarrow> string list" where
  "pushStep s ids = (if s \<in> set ids then ids else ids @ [s])"

text \<open>The chain of fallbacks from the current tier, until it ends or comes back to a visited tier.\<close>

lemma fresh_key_shorter:
  "jget c entries = Some e \<Longrightarrow> c \<notin> set visited
   \<Longrightarrow> length (filter (\<lambda>k. k \<notin> set (c # visited)) (jkeys entries))
       < length (filter (\<lambda>k. k \<notin> set visited) (jkeys entries))"
proof (induction entries)
  case (Cons p m)
  show ?case
  proof (cases "fst p = c")
    case True
    have "length (filter (\<lambda>k. k \<notin> set (c # visited)) (jkeys m)) \<le> length (filter (\<lambda>k. k \<notin> set visited) (jkeys m))"
      by (induction m) (auto simp: jkeys_def)
    then show ?thesis using True Cons.prems by (simp add: jkeys_def)
  next
    case False
    then show ?thesis using Cons by (auto simp: jkeys_def jget_Cons)
  qed
qed simp

function tierChain ::
  "(string, tier_entry) jmap \<Rightarrow> string list \<Rightarrow> string list \<Rightarrow> string option \<Rightarrow> string list" where
  "tierChain entries visited ids currentTier =
     (case currentTier of
        None \<Rightarrow> ids
      | Some c \<Rightarrow>
        (case jget c entries of
           None \<Rightarrow> ids
         | Some e \<Rightarrow>
           (if c \<in> set visited then ids
            else tierChain entries (c # visited) (pushStep (te_stepId e) ids) (te_fallbackTier e))))"
  by pat_completeness auto

termination tierChain
  by (relation "measure (\<lambda>(entries, visited, ids, c). length (filter (\<lambda>k. k \<notin> set visited) (jkeys entries)))")
     (auto simp del: set_simps intro: fresh_key_shorter)

declare tierChain.simps [simp del]

definition getCompositeTierStepOrder :: "combo_like \<Rightarrow> string list" where
  "getCompositeTierStepOrder combo =
     (let compositeTiers = (case cl_config combo of Some fs \<Rightarrow> field ''compositeTiers'' fs | None \<Rightarrow> JNull)
      in (case compositeTiers of
            JObj ct \<Rightarrow>
              (case (toTrimmedString (field ''defaultTier'' ct), field ''tiers'' ct) of
                 (Some defaultTier, JObj tiers) \<Rightarrow>
                   (let entries = mapOfEntries (List.map_filter tierEntry tiers)
                    in fold (\<lambda>(k, e). pushStep (te_stepId e)) entries (tierChain entries [] [] (Some defaultTier)))
               | _ \<Rightarrow> [])
          | _ \<Rightarrow> []))"

definition hasCompositeTierRuntimeOrder :: "combo_like \<Rightarrow> bool" where
  "hasCompositeTierRuntimeOrder combo \<longleftrightarrow> getCompositeTierStepOrder combo \<noteq> []"

definition takeStep :: "runtime_step \<Rightarrow> runtime_step list \<times> string list \<Rightarrow> runtime_step list \<times> string list" where
  "takeStep step st =
     (if stepIdOf step \<in> set (snd st) then st else (fst st @ [step], stepIdOf step # snd st))"

definition orderRuntimeStepsByCompositeTiers :: "runtime_step list \<Rightarrow> combo_like \<Rightarrow> runtime_step list" where
  "orderRuntimeStepsByCompositeTiers steps combo =
     (let orderedStepIds = getCompositeTierStepOrder combo
      in if orderedStepIds = [] then steps
         else (let byStepId = mapOfEntries (map (\<lambda>s. (stepIdOf s, s)) steps);
                   tiered = fold (\<lambda>i st. case jget i byStepId of None \<Rightarrow> st | Some s \<Rightarrow> takeStep s st)
                              orderedStepIds ([], [])
               in fst (fold takeStep steps tiered)))"

definition getOrderedTopLevelRuntimeSteps ::
  "(string \<Rightarrow> string option) \<Rightarrow> combo_like \<Rightarrow> combo_like list option \<Rightarrow> string list \<Rightarrow> runtime_step list" where
  "getOrderedTopLevelRuntimeSteps parse combo allCombos path =
     orderRuntimeStepsByCompositeTiers (getTopLevelRuntimeSteps parse combo (collectComboNames allCombos) path) combo"

definition targetOf :: "runtime_step \<Rightarrow> resolved_target option" where
  "targetOf s = (case s of TargetStep t \<Rightarrow> Some t | ComboRef r \<Rightarrow> None)"

definition getDirectComboTargets :: "(string \<Rightarrow> string option) \<Rightarrow> combo_like \<Rightarrow> resolved_target list" where
  "getDirectComboTargets parse combo = List.map_filter targetOf (getOrderedTopLevelRuntimeSteps parse combo None [])"

section \<open>Nested combos\<close>

function resolveNestedComboTargets ::
  "(string \<Rightarrow> string option) \<Rightarrow> combo_like list \<Rightarrow> nat \<Rightarrow> string set \<Rightarrow> nat \<Rightarrow> string list \<Rightarrow> combo_like
   \<Rightarrow> resolved_target list"
and expandRuntimeStep ::
  "(string \<Rightarrow> string option) \<Rightarrow> combo_like list \<Rightarrow> nat \<Rightarrow> string set \<Rightarrow> nat \<Rightarrow> string list \<Rightarrow> runtime_step
   \<Rightarrow> resolved_target list" where
  "resolveNestedComboTargets parse combos maxDepth visited depth path combo =
     (if maxDepth < depth then List.map_filter targetOf (getTopLevelRuntimeSteps parse combo [] path)
      else if cl_name combo \<in> visited then []
      else concat (map (expandRuntimeStep parse combos maxDepth (insert (cl_name combo) visited) depth path)
                     (getOrderedTopLevelRuntimeSteps parse combo (Some combos) path)))"
| "expandRuntimeStep parse combos maxDepth visited depth path step =
     (case step of
        TargetStep t \<Rightarrow> [t]
      | ComboRef r \<Rightarrow>
        (if maxDepth < depth then []
         else (case findCombo (rr_comboName r) combos of
                 None \<Rightarrow> []
               | Some nestedCombo \<Rightarrow>
                 (if rr_comboName r \<in> visited then []
                  else resolveNestedComboTargets parse combos maxDepth visited (depth + 1)
                         (path @ [rr_stepId r]) nestedCombo))))"
  by pat_completeness auto

termination
  by (relation "measure (case_sum (\<lambda>(p, cs, m, v, d, path, c). 2 * (m + 1 - d) + 1)
                                  (\<lambda>(p, cs, m, v, d, path, s). 2 * (m + 1 - d)))") auto

declare resolveNestedComboTargets.simps [simp del] expandRuntimeStep.simps [simp del]

definition MAX_COMBO_DEPTH_N :: nat where "MAX_COMBO_DEPTH_N = 3"

definition resolveComboTargets ::
  "(string \<Rightarrow> string option) \<Rightarrow> combo_like \<Rightarrow> combo_like list option \<Rightarrow> nat \<Rightarrow> resolved_target list" where
  "resolveComboTargets parse combo allCombos maxDepth =
     (case allCombos of
        Some combos \<Rightarrow> resolveNestedComboTargets parse combos maxDepth {} 0 [] combo
      | None \<Rightarrow> getDirectComboTargets parse combo)"

text \<open>\<open>normalizeModelEntry(entry).model\<close>\<close>

definition entryModel :: "json \<Rightarrow> string" where
  "entryModel entry =
     nullish (getComboStepTarget entry \<lparr>so_comboName = JUndefined, so_index = 0, so_comboNames = []\<rparr>) []"

definition getComboFromData :: "string \<Rightarrow> json \<Rightarrow> combo_like option" where
  "getComboFromData modelStr combosData =
     (case findCombo modelStr (getCombosArray combosData) of
        Some c \<Rightarrow> if cl_models c \<noteq> [] then Some c else None
      | None \<Rightarrow> None)"

definition getComboModelsFromData :: "string \<Rightarrow> json \<Rightarrow> string list option" where
  "getComboModelsFromData modelStr combosData =
     map_option (\<lambda>c. map entryModel (cl_models c)) (getComboFromData modelStr combosData)"

datatype dag_error = MaxDepthExceeded string | CircularReference string

fun firstError :: "('a \<Rightarrow> 'e option) \<Rightarrow> 'a list \<Rightarrow> 'e option" where
  "firstError f [] = None"
| "firstError f (x # xs) = (case f x of Some e \<Rightarrow> Some e | None \<Rightarrow> firstError f xs)"

lemma firstError_cong [fundef_cong]:
  "xs = ys \<Longrightarrow> (\<And>x. x \<in> set ys \<Longrightarrow> f x = g x) \<Longrightarrow> firstError f xs = firstError g ys"
  by (induction xs arbitrary: ys) (auto split: option.split)

lemma firstError_None: "firstError f xs = None \<longleftrightarrow> (\<forall>x \<in> set xs. f x = None)"
  by (induction xs) (auto split: option.split)

lemma firstError_Some: "firstError f xs = Some e \<Longrightarrow> \<exists>x \<in> set xs. f x = Some e"
  by (induction xs) (auto split: option.splits)

text \<open>The error that the validation throws; \<open>None\<close> when it returns.\<close>

function validateComboDAG :: "combo_like list \<Rightarrow> nat \<Rightarrow> string set \<Rightarrow> nat \<Rightarrow> string \<Rightarrow> dag_error option" where
  "validateComboDAG combos maxDepth visited depth comboName =
     (if maxDepth < depth then Some (MaxDepthExceeded comboName)
      else if comboName \<in> visited then Some (CircularReference comboName)
      else (case findCombo comboName combos of
              None \<Rightarrow> None
            | Some combo \<Rightarrow>
              firstError (\<lambda>modelName. if findCombo modelName combos = None then None
                            else validateComboDAG combos maxDepth (insert comboName visited) (depth + 1) modelName)
                (map entryModel (cl_models combo))))"
  by pat_completeness auto

termination validateComboDAG
  by (relation "measure (\<lambda>(cs, m, v, d, n). m + 1 - d)") auto

declare validateComboDAG.simps [simp del]

function resolveNestedComboModels ::
  "combo_like list \<Rightarrow> nat \<Rightarrow> string set \<Rightarrow> nat \<Rightarrow> combo_like \<Rightarrow> string list" where
  "resolveNestedComboModels combos maxDepth visited depth combo =
     (if maxDepth < depth then map entryModel (cl_models combo)
      else if cl_name combo \<in> visited then []
      else concat (map (\<lambda>modelName.
             case findCombo modelName combos of
               Some nestedCombo \<Rightarrow>
                 resolveNestedComboModels combos maxDepth (insert (cl_name combo) visited) (depth + 1) nestedCombo
             | None \<Rightarrow> [modelName]) (map entryModel (cl_models combo))))"
  by pat_completeness auto

termination resolveNestedComboModels
  by (relation "measure (\<lambda>(cs, m, v, d, c). m + 1 - d)") auto

declare resolveNestedComboModels.simps [simp del]

definition resolveComboRuntimeUnits ::
  "(string \<Rightarrow> string option) \<Rightarrow> combo_like \<Rightarrow> combo_like list option \<Rightarrow> string \<Rightarrow> nat \<Rightarrow> dag_error + runtime_step list" where
  "resolveComboRuntimeUnits parse combo allCombos mode maxDepth =
     (case allCombos of
        None \<Rightarrow> Inr (map TargetStep (resolveComboTargets parse combo allCombos maxDepth))
      | Some combos \<Rightarrow>
        (if mode = ''flatten'' then Inr (map TargetStep (resolveComboTargets parse combo allCombos maxDepth))
         else (case validateComboDAG combos maxDepth {} 0 (cl_name combo) of
                 Some e \<Rightarrow> Inl e
               | None \<Rightarrow> Inr (getOrderedTopLevelRuntimeSteps parse combo allCombos []))))"

section \<open>Weighted combos\<close>

fun weightedPick :: "('a \<Rightarrow> rat) \<Rightarrow> rat \<Rightarrow> 'a list \<Rightarrow> 'a option" where
  "weightedPick w random [] = None"
| "weightedPick w random (t # ts) =
     (let random' = random - w t in if random' \<le> 0 then Some t else weightedPick w random' ts)"

text \<open>\<open>draw\<close> is \<open>secureRandomFloat\<close>, \<open>pick\<close> the \<open>secureRandomInt\<close> of the length.\<close>

definition selectWeightedTarget :: "('a \<Rightarrow> rat) \<Rightarrow> rat \<Rightarrow> nat \<Rightarrow> 'a list \<Rightarrow> 'a option" where
  "selectWeightedTarget w draw pick targets =
     (if targets = [] then None
      else (let totalWeight = sum_list (map w targets)
            in if totalWeight \<le> 0 then Some (targets ! pick)
               else (case weightedPick w (draw * totalWeight) targets of
                       Some t \<Rightarrow> Some t
                     | None \<Rightarrow> Some (List.last targets))))"

text \<open>\<open>rest.sort((a, b) => b.weight - a.weight)\<close> is stable.\<close>

definition orderTargetsForWeightedFallback :: "runtime_step list \<Rightarrow> string \<Rightarrow> bool \<Rightarrow> runtime_step list" where
  "orderTargetsForWeightedFallback targets selectedExecutionKey preserveExistingOrder =
     (let selected = find (\<lambda>t. executionKeyOf t = selectedExecutionKey) targets;
          rest = filter (\<lambda>t. executionKeyOf t \<noteq> selectedExecutionKey) targets;
          rest' = (if preserveExistingOrder then rest else sort_key (\<lambda>t. - weightOf t) rest)
      in (case selected of Some s \<Rightarrow> s # rest' | None \<Rightarrow> rest'))"

fun dedupeFrom :: "string set \<Rightarrow> resolved_target list \<Rightarrow> resolved_target list" where
  "dedupeFrom seen [] = []"
| "dedupeFrom seen (t # ts) =
     (if rt_executionKey t \<in> seen then dedupeFrom seen ts
      else t # dedupeFrom (insert (rt_executionKey t) seen) ts)"

definition dedupeTargetsByExecutionKey :: "resolved_target list \<Rightarrow> resolved_target list" where
  "dedupeTargetsByExecutionKey targets = dedupeFrom {} targets"

definition resolveWeightedStepGroups ::
  "(string \<Rightarrow> string option) \<Rightarrow> combo_like \<Rightarrow> combo_like list option \<Rightarrow> (runtime_step \<times> resolved_target list) list" where
  "resolveWeightedStepGroups parse combo allCombos =
     filter (\<lambda>g. snd g \<noteq> [])
       (map (\<lambda>step. (step,
               (case allCombos of
                  None \<Rightarrow> (case step of TargetStep t \<Rightarrow> [t] | ComboRef r \<Rightarrow> [])
                | Some combos \<Rightarrow> expandRuntimeStep parse combos MAX_COMBO_DEPTH_N {cl_name combo} 0 [] step)))
         (getOrderedTopLevelRuntimeSteps parse combo allCombos []))"

record weighted_resolution =
  wr_orderedTargets :: "resolved_target list"
  wr_selectedStep :: "runtime_step option"
  wr_orderedSteps :: "runtime_step list"

definition resolveWeightedTargets ::
  "(string \<Rightarrow> string option) \<Rightarrow> combo_like \<Rightarrow> combo_like list option \<Rightarrow> string option \<Rightarrow> string set option
   \<Rightarrow> (runtime_step \<times> resolved_target list) list option \<Rightarrow> rat \<Rightarrow> nat \<Rightarrow> weighted_resolution" where
  "resolveWeightedTargets parse combo allCombos preferredExecutionKey eligibleExecutionKeys stepGroups draw pick =
     (let topLevelSteps = filter (\<lambda>s. case eligibleExecutionKeys of Some ks \<Rightarrow> executionKeyOf s \<in> ks | None \<Rightarrow> True)
                            (getOrderedTopLevelRuntimeSteps parse combo allCombos []);
          preferredStep = (case preferredExecutionKey of
                             None \<Rightarrow> None
                           | Some k \<Rightarrow> if k = [] then None else find (\<lambda>s. executionKeyOf s = k) topLevelSteps);
          selectedStep = (case preferredStep of Some s \<Rightarrow> Some s
                          | None \<Rightarrow> selectWeightedTarget weightOf draw pick topLevelSteps)
      in (case selectedStep of
            None \<Rightarrow> \<lparr>wr_orderedTargets = [], wr_selectedStep = None, wr_orderedSteps = []\<rparr>
          | Some sel \<Rightarrow>
            (let orderedSteps = orderTargetsForWeightedFallback topLevelSteps (executionKeyOf sel)
                                  (hasCompositeTierRuntimeOrder combo);
                 targetsByStep = mapOfEntries (map (\<lambda>(s, ts). (executionKeyOf s, ts))
                                   (nullish stepGroups (resolveWeightedStepGroups parse combo allCombos)));
                 expandedTargets = concat (map (\<lambda>s. nullish (jget (executionKeyOf s) targetsByStep) []) orderedSteps)
             in \<lparr>wr_orderedTargets = dedupeTargetsByExecutionKey expandedTargets,
                 wr_selectedStep = Some sel, wr_orderedSteps = orderedSteps\<rparr>)))"

end
