(* ===== verification/ComboStructureLaws.thy ===== *)
theory ComboStructureLaws
  imports ComboStructure
begin

text \<open>
  Lemmas about \<open>ComboStructure\<close>: the order of composite tiers, the references between combos as a
  relation, the unbounded expansion as a reference for the bounded one, the execution keys, and the
  share of a weighted choice.
\<close>

section \<open>Composite tiers\<close>

lemma find_Some_in: "find P xs = Some x \<Longrightarrow> x \<in> set xs \<and> P x"
  by (auto simp: find_Some_iff)

lemma jget_mapOfEntries_fold:
  "jget k (fold (\<lambda>(k, v). jset k v) es m) = (case map_of (rev es) k of Some v \<Rightarrow> Some v | None \<Rightarrow> jget k m)"
  by (induction es arbitrary: m) (auto simp: map_add_def split: option.splits)

lemma jget_mapOfEntries: "jget k (mapOfEntries es) = map_of (rev es) k"
  by (simp add: mapOfEntries_def jget_mapOfEntries_fold split: option.split)

lemma jget_byStepId:
  assumes "distinct (map stepIdOf steps)"
  shows "jget i (mapOfEntries (map (\<lambda>s. (stepIdOf s, s)) steps)) = find (\<lambda>s. stepIdOf s = i) steps"
proof -
  have "map_of (rev es) k = map_of es k" if "distinct (map fst es)" for es and k :: string
    using that map_of_inject_set [of "rev es" es] by (simp add: rev_map [symmetric])
  moreover have "map_of (map (\<lambda>s. (stepIdOf s, s)) steps) i = find (\<lambda>s. stepIdOf s = i) steps"
    by (induction steps) auto
  moreover have "distinct (map fst (map (\<lambda>s. (stepIdOf s, s)) steps))" using assms by (simp add: comp_def)
  ultimately show ?thesis unfolding jget_mapOfEntries by metis
qed

lemma pushStep_facts: "distinct ids \<Longrightarrow> distinct (pushStep s ids)" "set (pushStep s ids) = insert s (set ids)"
  by (auto simp: pushStep_def)

lemma tierChain_distinct: "distinct ids \<Longrightarrow> distinct (tierChain entries visited ids c)"
proof (induction entries visited ids c rule: tierChain.induct)
  case (1 entries visited ids c)
  show ?case
    by (subst tierChain.simps) (use 1 in \<open>auto simp: pushStep_facts split: option.split\<close>)
qed

lemma tierOrder_distinct: "distinct (getCompositeTierStepOrder combo)"
proof -
  have "distinct (fold (\<lambda>(k, e). pushStep (te_stepId e)) es ids)" if "distinct ids" for es :: "(string, tier_entry) jmap" and ids
    using that by (induction es arbitrary: ids) (auto simp: pushStep_facts)
  then show ?thesis
    by (auto simp: getCompositeTierStepOrder_def Let_def tierChain_distinct split: json.split option.split)
qed

text \<open>What a fold of \<open>takeStep\<close> does to the identifiers.\<close>

definition taken :: "runtime_step list \<times> string list \<Rightarrow> bool" where
  "taken st \<longleftrightarrow> set (snd st) = stepIdOf ` set (fst st)"

lemma takeStep_taken: "taken st \<Longrightarrow> taken (takeStep s st)"
  by (auto simp: taken_def takeStep_def)

lemma take_steps:
  assumes "taken st" and "distinct (map stepIdOf steps)"
  shows "fst (fold takeStep steps st) = fst st @ filter (\<lambda>s. stepIdOf s \<notin> stepIdOf ` set (fst st)) steps"
  using assms
proof (induction steps arbitrary: st)
  case (Cons s steps)
  have "fst (fold takeStep steps (takeStep s st))
      = fst (takeStep s st) @ filter (\<lambda>x. stepIdOf x \<notin> stepIdOf ` set (fst (takeStep s st))) steps"
    using Cons by (simp add: takeStep_taken)
  also have "\<dots> = fst st @ filter (\<lambda>x. stepIdOf x \<notin> stepIdOf ` set (fst st)) (s # steps)"
  proof (cases "stepIdOf s \<in> set (snd st)")
    case True
    then show ?thesis using Cons.prems(1) by (simp add: takeStep_def taken_def)
  next
    case False
    have "stepIdOf x \<noteq> stepIdOf s" if "x \<in> set steps" for x using Cons.prems(2) that by (auto simp: image_iff)
    then show ?thesis using False Cons.prems(1)
      by (auto simp: takeStep_def taken_def intro!: filter_cong)
  qed
  finally show ?case by simp
qed simp

lemma take_tiers:
  assumes "\<And>i s. find (\<lambda>s. stepIdOf s = i) steps = Some s \<longleftrightarrow> g i = Some s"
    and "distinct (map stepIdOf steps)" and "distinct ids"
    and "taken st" and "set ids \<inter> set (snd st) = {}"
  shows "taken (fold (\<lambda>i st. case g i of None \<Rightarrow> st | Some s \<Rightarrow> takeStep s st) ids st)
    \<and> fst (fold (\<lambda>i st. case g i of None \<Rightarrow> st | Some s \<Rightarrow> takeStep s st) ids st)
      = fst st @ List.map_filter g ids"
  using assms(3-)
proof (induction ids arbitrary: st)
  case (Cons i ids)
  show ?case
  proof (cases "g i")
    case None
    then show ?thesis using Cons by (simp add: List.map_filter_simps)
  next
    case (Some s)
    then have "stepIdOf s = i" using assms(1) [of i s] by (auto simp: find_Some_iff)
    then have "takeStep s st = (fst st @ [s], i # snd st)" using Cons.prems(3) by (simp add: takeStep_def)
    moreover have "taken (takeStep s st)" by (rule takeStep_taken) (rule Cons.prems(2))
    ultimately show ?thesis using Some Cons by (simp add: List.map_filter_simps)
  qed
qed (simp add: List.map_filter_simps)

lemma find_ids: "map stepIdOf (List.map_filter (\<lambda>i. find (\<lambda>s. stepIdOf s = i) steps) ids)
  = filter (\<lambda>i. i \<in> stepIdOf ` set steps) ids"
proof (induction ids)
  case (Cons i ids)
  show ?case
  proof (cases "find (\<lambda>s. stepIdOf s = i) steps")
    case None
    then have "i \<notin> stepIdOf ` set steps" by (auto simp: find_None_iff)
    then show ?thesis using None Cons by (simp add: List.map_filter_simps)
  next
    case (Some s)
    then have "stepIdOf s = i" "i \<in> stepIdOf ` set steps" by (auto simp: find_Some_iff)
    then show ?thesis using Some Cons by (simp add: List.map_filter_simps)
  qed
qed (simp add: List.map_filter_simps)

lemma order_steps:
  assumes "distinct (map stepIdOf steps)" and "getCompositeTierStepOrder combo \<noteq> []"
  defines "front \<equiv> List.map_filter (\<lambda>i. find (\<lambda>s. stepIdOf s = i) steps) (getCompositeTierStepOrder combo)"
  shows "orderRuntimeStepsByCompositeTiers steps combo
    = front @ filter (\<lambda>s. stepIdOf s \<notin> stepIdOf ` set front) steps"
proof -
  let ?g = "\<lambda>i. find (\<lambda>s. stepIdOf s = i) steps"
  have "taken (fold (\<lambda>i st. case ?g i of None \<Rightarrow> st | Some s \<Rightarrow> takeStep s st) (getCompositeTierStepOrder combo) ([], []))
    \<and> fst (fold (\<lambda>i st. case ?g i of None \<Rightarrow> st | Some s \<Rightarrow> takeStep s st) (getCompositeTierStepOrder combo) ([], []))
      = [] @ List.map_filter ?g (getCompositeTierStepOrder combo)"
    by (rule take_tiers [where st = "([], [])", simplified fst_conv])
      (use assms(1) tierOrder_distinct in \<open>simp_all add: taken_def\<close>)
  then show ?thesis using assms(2)
    by (simp add: orderRuntimeStepsByCompositeTiers_def Let_def jget_byStepId [OF assms(1)]
        take_steps [OF _ assms(1)] front_def)
qed

lemma order_exact:
  assumes "distinct (map stepIdOf steps)"
  shows "mset (orderRuntimeStepsByCompositeTiers steps combo) = mset steps
    \<and> map stepIdOf (orderRuntimeStepsByCompositeTiers steps combo)
      = filter (\<lambda>i. i \<in> stepIdOf ` set steps) (getCompositeTierStepOrder combo)
        @ filter (\<lambda>i. i \<notin> set (getCompositeTierStepOrder combo)) (map stepIdOf steps)"
proof -
  have ids: "map stepIdOf (orderRuntimeStepsByCompositeTiers steps combo)
      = filter (\<lambda>i. i \<in> stepIdOf ` set steps) (getCompositeTierStepOrder combo)
        @ filter (\<lambda>i. i \<notin> set (getCompositeTierStepOrder combo)) (map stepIdOf steps)"
  proof (cases "getCompositeTierStepOrder combo = []")
    case False
    have front: "stepIdOf ` set (List.map_filter (\<lambda>i. find (\<lambda>s. stepIdOf s = i) steps) (getCompositeTierStepOrder combo))
      = set (filter (\<lambda>i. i \<in> stepIdOf ` set steps) (getCompositeTierStepOrder combo))"
      by (simp only: set_map [symmetric] find_ids)
    have "map stepIdOf (filter (\<lambda>s. stepIdOf s \<notin> S) steps) = filter (\<lambda>i. i \<notin> S) (map stepIdOf steps)" for S
      by (simp add: filter_map comp_def)
    then show ?thesis
      by (simp only: order_steps [OF assms False] map_append find_ids front)
        (auto simp: filter_map comp_def intro!: arg_cong [of _ _ "map stepIdOf"] filter_cong)
  qed (simp add: orderRuntimeStepsByCompositeTiers_def)
  have sub: "set (orderRuntimeStepsByCompositeTiers steps combo) \<subseteq> set steps"
  proof (cases "getCompositeTierStepOrder combo = []")
    case False
    show ?thesis
      by (simp only: order_steps [OF assms False]) (auto simp: List.map_filter_def dest: find_Some_in)
  qed (simp add: orderRuntimeStepsByCompositeTiers_def)
  have "distinct (map stepIdOf (orderRuntimeStepsByCompositeTiers steps combo))"
    unfolding ids using assms tierOrder_distinct [of combo] by auto
  then have d: "distinct (orderRuntimeStepsByCompositeTiers steps combo)" by (simp add: distinct_map)
  have "x \<in> set (orderRuntimeStepsByCompositeTiers steps combo)" if "x \<in> set steps" for x
  proof -
    have "stepIdOf x \<in> set (map stepIdOf (orderRuntimeStepsByCompositeTiers steps combo))"
      unfolding ids using that by auto
    then obtain y where "y \<in> set (orderRuntimeStepsByCompositeTiers steps combo)" "stepIdOf y = stepIdOf x" by auto
    then show ?thesis using sub that assms by (auto simp: distinct_map dest: inj_onD)
  qed
  then have "mset (orderRuntimeStepsByCompositeTiers steps combo) = mset steps"
    using sub d assms by (intro set_eq_iff_mset_eq_distinct [THEN iffD1]) (auto simp: distinct_map)
  then show ?thesis using ids by (rule conjI)
qed

text \<open>
  The order of composite tiers is exact: when the step identifiers of a combo are distinct, the
  ordered steps are the same steps, first those whose identifiers the chain of fallback tiers names,
  in the order of the chain, then all others in their own order.
\<close>

theorem composite_tier_order:
  assumes "distinct (map stepIdOf steps)"
  shows "mset (orderRuntimeStepsByCompositeTiers steps combo) = mset steps
    \<and> map stepIdOf (orderRuntimeStepsByCompositeTiers steps combo)
      = filter (\<lambda>i. i \<in> stepIdOf ` set steps) (getCompositeTierStepOrder combo)
        @ filter (\<lambda>i. i \<notin> set (getCompositeTierStepOrder combo)) (map stepIdOf steps)"
  using assms by (rule order_exact)

definition tierExample :: combo_like where
  "tierExample =
     \<lparr>cl_name = ''main'',
      cl_models = [JObj [(''id'', JStr ''a''), (''model'', JStr ''x/1'')], JObj [(''id'', JStr ''b''), (''model'', JStr ''x/2'')],
                   JObj [(''id'', JStr ''c''), (''model'', JStr ''x/3'')]],
      cl_config = Some [(''compositeTiers'', JObj [(''defaultTier'', JStr ''best''),
        (''tiers'', JObj [(''cheap'', JObj [(''stepId'', JStr ''a'')]),
                          (''best'', JObj [(''stepId'', JStr ''c''), (''fallbackTier'', JStr ''cheap'')])])])]\<rparr>"

theorem composite_tier_order_witness:
  "map stepIdOf (orderRuntimeStepsByCompositeTiers (getTopLevelRuntimeSteps (\<lambda>m. None) tierExample [] []) tierExample)
    = [''c'', ''a'', ''b'']"
proof -
  define steps where "steps = getTopLevelRuntimeSteps (\<lambda>m. None) tierExample [] []"
  have ids: "map stepIdOf steps = [''a'', ''b'', ''c'']" unfolding steps_def by code_simp
  have tiers: "getCompositeTierStepOrder tierExample = [''c'', ''a'']" by code_simp
  have "stepIdOf ` set steps = {''a'', ''b'', ''c''}" unfolding set_map [symmetric] ids by simp
  moreover have "distinct (map stepIdOf steps)" by (simp add: ids)
  ultimately show ?thesis
    using composite_tier_order [of steps tierExample] by (simp add: ids tiers steps_def [symmetric])
qed

section \<open>Keys\<close>

definition noSep :: "string \<Rightarrow> bool" where
  "noSep s \<longleftrightarrow> CHR ''>'' \<notin> set s"

lemma split_joinKey: "xs \<noteq> [] \<Longrightarrow> list_all noSep xs \<Longrightarrow> splitOn (CHR ''>'') (joinKey xs) = xs"
  by (induction xs rule: joinKey.induct) (simp_all add: noSep_def splitOn_none splitOn_append)

lemma joinKey_inj:
  "joinKey xs = joinKey ys \<Longrightarrow> xs \<noteq> [] \<Longrightarrow> ys \<noteq> [] \<Longrightarrow> list_all noSep xs \<Longrightarrow> list_all noSep ys \<Longrightarrow> xs = ys"
  using split_joinKey by metis

lemma step_key:
  "normalizeRuntimeStep parse entry name i names path = Some s \<Longrightarrow> executionKeyOf s = buildExecutionKey path (stepIdOf s)"
  by (auto simp: normalizeRuntimeStep_def split: option.splits combo_step.splits)

lemma step_id_path:
  "map_option stepIdOf (normalizeRuntimeStep parse entry name i names path)
   = map_option stepIdOf (normalizeRuntimeStep parse entry name i names [])"
  by (simp add: normalizeRuntimeStep_def split: option.split combo_step.split)

lemma top_keys:
  "s \<in> set (getTopLevelRuntimeSteps parse combo names path) \<Longrightarrow> executionKeyOf s = buildExecutionKey path (stepIdOf s)"
  by (auto simp: getTopLevelRuntimeSteps_def List.map_filter_def dest: step_key)

lemma top_ids:
  "map stepIdOf (getTopLevelRuntimeSteps parse combo names path) = map stepIdOf (getTopLevelRuntimeSteps parse combo names [])"
proof -
  have "map stepIdOf (List.map_filter (\<lambda>(i, e). normalizeRuntimeStep parse e (cl_name combo) i names path) es)
      = map stepIdOf (List.map_filter (\<lambda>(i, e). normalizeRuntimeStep parse e (cl_name combo) i names []) es)" for es
  proof (induction es)
    case (Cons p es)
    then show ?case using step_id_path [of parse "snd p" "cl_name combo" "fst p" names path]
      by (cases p; cases "normalizeRuntimeStep parse (snd p) (cl_name combo) (fst p) names path";
          cases "normalizeRuntimeStep parse (snd p) (cl_name combo) (fst p) names []")
        (auto simp: List.map_filter_simps)
  qed (simp add: List.map_filter_simps)
  then show ?thesis by (simp add: getTopLevelRuntimeSteps_def)
qed

section \<open>Weighted choice\<close>

text \<open>The weight of the first \<open>i\<close> targets.\<close>

definition cumulative :: "('a \<Rightarrow> rat) \<Rightarrow> 'a list \<Rightarrow> nat \<Rightarrow> rat" where
  "cumulative w ts i = sum_list (map w (take i ts))"

lemma cumulative_mono:
  assumes "list_all (\<lambda>t. 0 \<le> w t) ts" and "i \<le> j"
  shows "cumulative w ts i \<le> cumulative w ts j"
proof -
  obtain k where j: "j = i + k" using assms(2) le_Suc_ex by blast
  have "0 \<le> sum_list (map w (take k (drop i ts)))"
    using assms(1) by (intro sum_list_nonneg) (auto simp: list_all_iff dest: in_set_takeD in_set_dropD)
  then show ?thesis by (simp add: j cumulative_def take_add)
qed

lemma weightedPick_index:
  assumes "list_all (\<lambda>t. 0 \<le> w t) ts" and "0 < r" and "r \<le> sum_list (map w ts)"
  shows "\<exists>j < length ts. weightedPick w r ts = Some (ts ! j) \<and> cumulative w ts j < r \<and> r \<le> cumulative w ts (Suc j)"
  using assms
proof (induction ts arbitrary: r)
  case (Cons t ts)
  show ?case
  proof (cases "r \<le> w t")
    case True
    then show ?thesis using Cons.prems by (intro exI [of _ 0]) (simp add: cumulative_def)
  next
    case False
    then obtain j where "j < length ts" "weightedPick w (r - w t) ts = Some (ts ! j)"
      "cumulative w ts j < r - w t" "r - w t \<le> cumulative w ts (Suc j)"
      using Cons.IH [of "r - w t"] Cons.prems by auto
    then show ?thesis using False by (intro exI [of _ "Suc j"]) (simp add: cumulative_def)
  qed
qed simp

lemma cumulative_index_unique:
  assumes "list_all (\<lambda>t. 0 \<le> w t) ts" and "cumulative w ts i < r" "r \<le> cumulative w ts (Suc i)"
    and "cumulative w ts j < r" "r \<le> cumulative w ts (Suc j)"
  shows "i = j"
proof (rule ccontr)
  assume "i \<noteq> j"
  then consider "Suc i \<le> j" | "Suc j \<le> i" by linarith
  then show False
  proof cases
    case 1
    show False using cumulative_mono [OF assms(1) 1] assms(3,4) by linarith
  next
    case 2
    show False using cumulative_mono [OF assms(1) 2] assms(2,5) by linarith
  qed
qed

text \<open>
  C21. The weighted choice is proportional: of the draws between 0 and 1, those that choose a target
  are exactly an interval whose length is the share of its weight in the total weight, so the
  target with weight \<open>w\<close> is drawn with probability \<open>w / total\<close>.
\<close>

theorem weighted_share:
  assumes "list_all (\<lambda>t. 0 \<le> w t) ts" and "0 < sum_list (map w ts)" and "distinct ts" and "i < length ts"
    and "0 < u" and "u \<le> 1"
  shows "selectWeightedTarget w u pick ts = Some (ts ! i) \<longleftrightarrow>
    cumulative w ts i / sum_list (map w ts) < u \<and> u \<le> cumulative w ts i / sum_list (map w ts) + w (ts ! i) / sum_list (map w ts)"
proof -
  let ?T = "sum_list (map w ts)"
  have r: "0 < u * ?T" "u * ?T \<le> ?T" using assms(2,5,6) by (simp_all add: mult_left_le_one_le)
  obtain j where j: "j < length ts" "weightedPick w (u * ?T) ts = Some (ts ! j)" "cumulative w ts j < u * ?T"
    "u * ?T \<le> cumulative w ts (Suc j)" using weightedPick_index [OF assms(1) r] by blast
  have "ts \<noteq> []" using assms(4) by auto
  then have "selectWeightedTarget w u pick ts = Some (ts ! j)"
    using assms(2) j(2) by (simp add: selectWeightedTarget_def Let_def)
  then have "selectWeightedTarget w u pick ts = Some (ts ! i) \<longleftrightarrow> i = j"
    using assms(3,4) j(1) by (auto simp: nth_eq_iff_index_eq)
  also have "\<dots> \<longleftrightarrow> cumulative w ts i < u * ?T \<and> u * ?T \<le> cumulative w ts (Suc i)"
  proof
    assume "i = j"
    then show "cumulative w ts i < u * ?T \<and> u * ?T \<le> cumulative w ts (Suc i)" using j(3,4) by simp
  next
    assume "cumulative w ts i < u * ?T \<and> u * ?T \<le> cumulative w ts (Suc i)"
    then show "i = j" by (intro cumulative_index_unique [OF assms(1) _ _ j(3,4)]) simp_all
  qed
  also have "cumulative w ts (Suc i) = cumulative w ts i + w (ts ! i)"
    using assms(4) by (simp add: cumulative_def take_Suc_conv_app_nth)
  finally show ?thesis using assms(2) by (simp add: pos_divide_less_eq pos_le_divide_eq add_divide_distrib [symmetric])
qed

theorem weighted_share_witness:
  "selectWeightedTarget (\<lambda>n :: nat. of_nat n) (1 / 2) 0 [3, 1] = Some 3
   \<and> selectWeightedTarget (\<lambda>n :: nat. of_nat n) (4 / 5) 0 [3, 1] = Some 1"
  using weighted_share [of "\<lambda>n :: nat. of_nat n" "[3, 1]" 0 "1 / 2" 0]
    weighted_share [of "\<lambda>n :: nat. of_nat n" "[3, 1]" 1 "4 / 5" 0]
  by (simp add: cumulative_def)

lemma weighted_order:
  assumes "distinct (map executionKeyOf steps)" and "s \<in> set steps"
  shows "mset (orderTargetsForWeightedFallback steps (executionKeyOf s) keep) = mset steps
    \<and> hd (orderTargetsForWeightedFallback steps (executionKeyOf s) keep) = s
    \<and> orderTargetsForWeightedFallback steps (executionKeyOf s) keep \<noteq> []
    \<and> (if keep then tl (orderTargetsForWeightedFallback steps (executionKeyOf s) keep) = filter (\<lambda>t. t \<noteq> s) steps
       else sorted_wrt (\<lambda>a b. weightOf b \<le> weightOf a) (tl (orderTargetsForWeightedFallback steps (executionKeyOf s) keep)))"
proof -
  have eq: "executionKeyOf t = executionKeyOf s \<longleftrightarrow> t = s" if "t \<in> set steps" for t
    using assms that by (auto simp: distinct_map dest: inj_onD)
  have d: "distinct steps" using assms(1) by (simp add: distinct_map)
  have f: "find (\<lambda>t. executionKeyOf t = executionKeyOf s) steps = Some s"
  proof (cases "find (\<lambda>t. executionKeyOf t = executionKeyOf s) steps")
    case None
    then show ?thesis using assms(2) by (auto simp: find_None_iff)
  next
    case (Some t)
    then show ?thesis using eq [of t] find_Some_in [OF Some] by simp
  qed
  let ?rest = "filter (\<lambda>t. t \<noteq> s) steps"
  have rest: "filter (\<lambda>t. executionKeyOf t \<noteq> executionKeyOf s) steps = ?rest" using eq by (intro filter_cong) auto
  have o: "orderTargetsForWeightedFallback steps (executionKeyOf s) keep
      = s # (if keep then ?rest else sort_key (\<lambda>t. - weightOf t) ?rest)"
    by (simp add: orderTargetsForWeightedFallback_def f rest)
  have "mset (s # ?rest) = mset steps"
    using d assms(2) by (intro set_eq_iff_mset_eq_distinct [THEN iffD1]) auto
  then have m: "add_mset s (mset ?rest) = mset steps" by simp
  have "sorted_wrt (\<lambda>a b. - weightOf a \<le> - weightOf b) (sort_key (\<lambda>t. - weightOf t) ?rest)"
    using sorted_sort_key [of "\<lambda>t. - weightOf t" ?rest] by (simp only: sorted_wrt_map)
  then show ?thesis unfolding o using m by (cases keep) simp_all
qed

lemma dedupe_facts:
  "distinct (map rt_executionKey (dedupeFrom seen ts))
   \<and> rt_executionKey ` set (dedupeFrom seen ts) = rt_executionKey ` set ts - seen"
  by (induction seen ts rule: dedupeFrom.induct) (auto simp: image_iff)

lemma map_of_rev: "distinct (map fst es) \<Longrightarrow> map_of (rev es) = map_of es"
  using map_of_inject_set [of "rev es" es] by (simp add: rev_map [symmetric])

lemma group_targets:
  assumes "distinct (map executionKeyOf steps)" and "s \<in> set steps"
  shows "nullish (jget (executionKeyOf s) (mapOfEntries (map (\<lambda>(s, ts). (executionKeyOf s, ts))
           (filter (\<lambda>g. snd g \<noteq> []) (map (\<lambda>s. (s, f s)) steps))))) [] = f s"
proof -
  define es where "es = map (\<lambda>s. (executionKeyOf s, f s)) (filter (\<lambda>s. f s \<noteq> []) steps)"
  have es: "map (\<lambda>(s, ts). (executionKeyOf s, ts)) (filter (\<lambda>g. snd g \<noteq> []) (map (\<lambda>s. (s, f s)) steps)) = es"
    by (simp add: es_def filter_map comp_def)
  have "distinct (map executionKeyOf (filter (\<lambda>s. f s \<noteq> []) steps))" by (rule distinct_map_filter) (rule assms(1))
  then have d: "distinct (map fst es)" by (simp add: es_def comp_def)
  have same: "t = s" if "t \<in> set steps" "executionKeyOf t = executionKeyOf s" for t
    using assms that by (auto simp: distinct_map dest: inj_onD)
  have "map_of es (executionKeyOf s) = (if f s \<noteq> [] then Some (f s) else None)"
  proof (cases "f s = []")
    case True
    then have "executionKeyOf s \<notin> fst ` set es" using same by (fastforce simp: es_def)
    then show ?thesis using True by (simp add: map_of_eq_None_iff)
  next
    case False
    then have "(executionKeyOf s, f s) \<in> set es" using assms(2) by (simp add: es_def)
    then show ?thesis using False d by (simp add: map_of_is_SomeI)
  qed
  then show ?thesis by (simp add: es jget_mapOfEntries map_of_rev [OF d])
qed

lemma weightedPick_in: "weightedPick w r ts = Some t \<Longrightarrow> t \<in> set ts"
  by (induction w r ts rule: weightedPick.induct) (auto simp: Let_def split: if_splits)

lemma selectWeighted_in:
  "ts \<noteq> [] \<Longrightarrow> pick < length ts \<Longrightarrow> \<exists>t \<in> set ts. selectWeightedTarget w u pick ts = Some t"
  by (auto simp: selectWeightedTarget_def Let_def dest: weightedPick_in split: option.split)

text \<open>
  A weighted request keeps every fallback: the step that is drawn (or preferred) comes first, the
  others follow, none is lost, and the targets are exactly those of all steps, each key once.
\<close>

theorem weighted_fallback_complete:
  fixes preferred :: "string option"
  assumes "distinct (map executionKeyOf (getOrderedTopLevelRuntimeSteps parse combo allCombos []))"
    and "pick < length (getOrderedTopLevelRuntimeSteps parse combo allCombos [])"
  shows "let r = resolveWeightedTargets parse combo allCombos preferred None None u pick;
             steps = getOrderedTopLevelRuntimeSteps parse combo allCombos []
         in wr_selectedStep r = Some (hd (wr_orderedSteps r)) \<and> mset (wr_orderedSteps r) = mset steps
            \<and> distinct (map rt_executionKey (wr_orderedTargets r))
            \<and> rt_executionKey ` set (wr_orderedTargets r)
              = rt_executionKey ` (\<Union>g \<in> set (resolveWeightedStepGroups parse combo allCombos). set (snd g))"
proof -
  define steps where "steps = getOrderedTopLevelRuntimeSteps parse combo allCombos []"
  define f where "f = (\<lambda>step. case allCombos of None \<Rightarrow> (case step of TargetStep t \<Rightarrow> [t] | ComboRef r \<Rightarrow> [])
    | Some combos \<Rightarrow> expandRuntimeStep parse combos MAX_COMBO_DEPTH_N {cl_name combo} 0 [] step)"
  have groups: "resolveWeightedStepGroups parse combo allCombos = filter (\<lambda>g. snd g \<noteq> []) (map (\<lambda>s. (s, f s)) steps)"
    by (simp add: resolveWeightedStepGroups_def steps_def f_def)
  define sel where "sel = (case (case preferred of None \<Rightarrow> None
      | Some k \<Rightarrow> if k = [] then None else find (\<lambda>s. executionKeyOf s = k) steps) of
     Some s \<Rightarrow> Some s | None \<Rightarrow> selectWeightedTarget weightOf u pick steps)"
  have "pick < length steps" "steps \<noteq> []" using assms(2) by (auto simp: steps_def)
  then have "\<exists>s \<in> set steps. sel = Some s"
    using selectWeighted_in [of steps pick weightOf u]
    by (auto simp: sel_def dest: find_Some_in split: option.split)
  then obtain s where s: "s \<in> set steps" "sel = Some s" by blast
  define ord where "ord = orderTargetsForWeightedFallback steps (executionKeyOf s) (hasCompositeTierRuntimeOrder combo)"
  note o = weighted_order [OF assms(1) [folded steps_def] s(1), of "hasCompositeTierRuntimeOrder combo", folded ord_def]
  define expanded where "expanded = concat (map (\<lambda>s. nullish (jget (executionKeyOf s) (mapOfEntries (map (\<lambda>(s, ts).
    (executionKeyOf s, ts)) (resolveWeightedStepGroups parse combo allCombos)))) []) ord)"
  have set_ord: "set ord = set steps" using o by (metis set_mset_mset)
  have "expanded = concat (map f ord)"
    unfolding expanded_def groups
    by (intro arg_cong [of _ _ concat] map_cong refl group_targets [OF assms(1) [folded steps_def]]) (simp add: set_ord)
  then have ex: "set expanded = (\<Union>g \<in> set (resolveWeightedStepGroups parse combo allCombos). set (snd g))"
    by (auto simp: groups set_ord)
  have r: "resolveWeightedTargets parse combo allCombos preferred None None u pick
    = \<lparr>wr_orderedTargets = dedupeTargetsByExecutionKey expanded, wr_selectedStep = Some s, wr_orderedSteps = ord\<rparr>"
    using s(2) unfolding sel_def
    by (simp add: resolveWeightedTargets_def Let_def steps_def [symmetric] ord_def expanded_def split: option.splits)
  show ?thesis
    using o dedupe_facts [of "{}" expanded] unfolding r steps_def [symmetric] Let_def
    by (simp add: ex dedupeTargetsByExecutionKey_def)
qed

theorem weighted_fallback_complete_witness:
  "map rt_modelStr (wr_orderedTargets (resolveWeightedTargets (\<lambda>m. None) tierExample (Some []) None None None (1 / 2) 1))
    = [''x/1'', ''x/3'', ''x/2'']
   \<and> mset (wr_orderedSteps (resolveWeightedTargets (\<lambda>m. None) tierExample (Some []) None None None (1 / 2) 1))
    = mset (getOrderedTopLevelRuntimeSteps (\<lambda>m. None) tierExample (Some []) [])"
proof -
  have k: "map executionKeyOf (getOrderedTopLevelRuntimeSteps (\<lambda>m. None) tierExample (Some []) []) = [''c'', ''a'', ''b'']"
    and t: "map rt_modelStr (wr_orderedTargets (resolveWeightedTargets (\<lambda>m. None) tierExample (Some []) None None None (1 / 2) 1))
      = [''x/1'', ''x/3'', ''x/2'']" by code_simp+
  have l: "length (getOrderedTopLevelRuntimeSteps (\<lambda>m. None) tierExample (Some []) []) = 3"
    using arg_cong [OF k, of length] by simp
  show ?thesis
    using weighted_fallback_complete [of "\<lambda>m. None" tierExample "Some []" 1 None "1 / 2"] k l t by (simp add: Let_def)
qed

end
