(* ===== verification/ComboNesting.thy ===== *)
theory ComboNesting
  imports ComboStructureLaws
begin

text \<open>
  Nested combos: the references between combos as a relation and what the validation decides about
  it, the unbounded expansion as an inductive reference and that an accepted combo is expanded
  without loss, what is dispatched beyond the depth limit, and that execution keys tell the targets
  of a combo apart.
\<close>

section \<open>References\<close>

definition refersTo :: "combo_like list \<Rightarrow> (string \<times> string) set" where
  "refersTo combos =
     {(n, m). \<exists>combo. findCombo n combos = Some combo \<and> m \<in> set (map entryModel (cl_models combo))
              \<and> findCombo m combos \<noteq> None}"

lemma find_combo_name: "findCombo n combos = Some c \<Longrightarrow> cl_name c = n"
  by (auto simp: findCombo_def find_Some_iff)

lemma validate_step:
  assumes "depth \<le> maxDepth" and "n \<notin> visited"
  shows "validateComboDAG combos maxDepth visited depth n = None \<longleftrightarrow>
    (\<forall>m. (n, m) \<in> refersTo combos \<longrightarrow> validateComboDAG combos maxDepth (insert n visited) (depth + 1) m = None)"
  using assms
  by (subst validateComboDAG.simps) (auto simp: refersTo_def firstError_None split: option.split)

lemma validate_limit: "validateComboDAG combos maxDepth visited depth n = None \<Longrightarrow> depth \<le> maxDepth \<and> n \<notin> visited"
  by (subst (asm) validateComboDAG.simps) (auto split: if_splits)

lemma relpow_cycle:
  assumes "(v, v) \<in> R\<^sup>+" and "(x, v) \<in> R\<^sup>*"
  shows "\<exists>m. (x, m) \<in> R ^^ n"
  using assms(2)
proof (induction n arbitrary: x)
  case (Suc n)
  have "\<exists>y. (x, y) \<in> R \<and> (y, v) \<in> R\<^sup>*"
    using Suc.prems tranclD [OF assms(1)] by (cases rule: converse_rtranclE) auto
  then show ?case using Suc.IH relpow_Suc_I2 [of x _ R] by blast
qed auto

lemma rejected_chain:
  assumes "validateComboDAG combos maxDepth visited depth n \<noteq> None"
  shows "(\<exists>m. (n, m) \<in> refersTo combos ^^ (maxDepth + 1 - depth)) \<or> (\<exists>v \<in> visited. (n, v) \<in> (refersTo combos)\<^sup>*)"
  using assms
proof (induction combos maxDepth visited depth n rule: validateComboDAG.induct)
  case (1 combos maxDepth visited depth n)
  let ?R = "refersTo combos"
  show ?case
  proof (cases "depth \<le> maxDepth \<and> n \<notin> visited")
    case False
    then consider "maxDepth < depth" | "n \<in> visited" by linarith
    then show ?thesis by cases auto
  next
    case True
    then obtain m where m: "(n, m) \<in> ?R" "validateComboDAG combos maxDepth (insert n visited) (depth + 1) m \<noteq> None"
      using 1(2) validate_step [of depth maxDepth n visited combos] by auto
    then obtain combo where combo: "findCombo n combos = Some combo" "m \<in> set (map entryModel (cl_models combo))"
      "findCombo m combos \<noteq> None" by (auto simp: refersTo_def)
    have s: "maxDepth + 1 - depth = Suc (maxDepth + 1 - (depth + 1))" using True by (simp add: Suc_diff_le)
    from 1(1) [OF _ _ combo m(2)] True
    have "(\<exists>x. (m, x) \<in> ?R ^^ (maxDepth + 1 - (depth + 1))) \<or> (\<exists>v \<in> insert n visited. (m, v) \<in> ?R\<^sup>*)" by simp
    then show ?thesis
    proof
      assume "\<exists>x. (m, x) \<in> ?R ^^ (maxDepth + 1 - (depth + 1))"
      then show ?thesis using m(1) relpow_Suc_I2 [of n m ?R] unfolding s by blast
    next
      assume "\<exists>v \<in> insert n visited. (m, v) \<in> ?R\<^sup>*"
      then obtain v where v: "v \<in> insert n visited" "(m, v) \<in> ?R\<^sup>*" by blast
      show ?thesis
      proof (cases "v = n")
        case True
        then have "(n, n) \<in> ?R\<^sup>+" using v rtrancl_into_trancl2 [OF m(1), of n] by simp
        then show ?thesis by (rule relpow_cycle [THEN disjI1]) simp
      next
        case False
        then have "v \<in> visited" using v(1) by simp
        moreover have "(n, v) \<in> ?R\<^sup>*" using m(1) v(2) by (rule converse_rtrancl_into_rtrancl)
        ultimately show ?thesis by blast
      qed
    qed
  qed
qed

lemma accepted_chains:
  "validateComboDAG combos maxDepth visited depth n = None \<Longrightarrow> (n, m) \<in> refersTo combos ^^ k \<Longrightarrow> depth + k \<le> maxDepth"
proof (induction k arbitrary: visited depth n)
  case 0
  then show ?case using validate_limit by force
next
  case (Suc k)
  obtain y where y: "(n, y) \<in> refersTo combos" "(y, m) \<in> refersTo combos ^^ k"
    using Suc.prems(2) by (blast dest: relpow_Suc_D2)
  have "validateComboDAG combos maxDepth (insert n visited) (depth + 1) y = None"
    using validate_step [of depth maxDepth n visited combos] validate_limit [OF Suc.prems(1)] Suc.prems(1) y(1) by blast
  from Suc.IH [OF this y(2)] show ?case by simp
qed

text \<open>
  C30. The validation of a combo decides exactly this: it accepts when every chain of references that
  starts at the combo has at most \<open>maxDepth\<close> links. A circular reference is a chain without end, so
  it is always rejected, and nothing else is.
\<close>

theorem dag_accepts_iff:
  "validateComboDAG combos maxDepth {} 0 n = None \<longleftrightarrow> (\<nexists>m. (n, m) \<in> refersTo combos ^^ Suc maxDepth)"
proof
  assume "validateComboDAG combos maxDepth {} 0 n = None"
  from accepted_chains [OF this, of _ "Suc maxDepth"] show "\<nexists>m. (n, m) \<in> refersTo combos ^^ Suc maxDepth" by auto
next
  assume no: "\<nexists>m. (n, m) \<in> refersTo combos ^^ Suc maxDepth"
  show "validateComboDAG combos maxDepth {} 0 n = None"
    by (rule ccontr, drule rejected_chain) (use no in simp)
qed

section \<open>The full expansion\<close>

text \<open>The expansion of nested combos without a limit, as a relation: it need not exist.\<close>

inductive expandsTo ::
  "(string \<Rightarrow> string option) \<Rightarrow> combo_like list \<Rightarrow> string list \<Rightarrow> combo_like \<Rightarrow> resolved_target list \<Rightarrow> bool"
and stepExpandsTo ::
  "(string \<Rightarrow> string option) \<Rightarrow> combo_like list \<Rightarrow> string list \<Rightarrow> runtime_step \<Rightarrow> resolved_target list \<Rightarrow> bool"
for parse combos where
  "list_all2 (stepExpandsTo parse combos path) (getOrderedTopLevelRuntimeSteps parse combo (Some combos) path) tss
   \<Longrightarrow> expandsTo parse combos path combo (concat tss)"
| "stepExpandsTo parse combos path (TargetStep t) [t]"
| "findCombo (rr_comboName r) combos = None \<Longrightarrow> stepExpandsTo parse combos path (ComboRef r) []"
| "findCombo (rr_comboName r) combos = Some nestedCombo
   \<Longrightarrow> expandsTo parse combos (path @ [rr_stepId r]) nestedCombo ts
   \<Longrightarrow> stepExpandsTo parse combos path (ComboRef r) ts"

inductive_cases expandsToE: "expandsTo parse combos path combo ts"
inductive_cases stepTargetE: "stepExpandsTo parse combos path (TargetStep t) ts"
inductive_cases stepRefE: "stepExpandsTo parse combos path (ComboRef r) ts"

lemma list_all2_unique:
  "list_all2 (\<lambda>x y. \<forall>u. P x u \<longrightarrow> u = y) xs ys \<Longrightarrow> list_all2 P xs zs \<Longrightarrow> ys = zs"
proof (induction xs arbitrary: ys zs)
  case (Cons x xs)
  obtain y ys' where y: "ys = y # ys'" "\<forall>u. P x u \<longrightarrow> u = y" "list_all2 (\<lambda>x y. \<forall>u. P x u \<longrightarrow> u = y) xs ys'"
    using Cons.prems(1) by (auto simp: list_all2_Cons1)
  obtain z zs' where z: "zs = z # zs'" "P x z" "list_all2 P xs zs'"
    using Cons.prems(2) by (auto simp: list_all2_Cons1)
  show ?case using Cons.IH [OF y(3) z(3)] y(1,2) z(1,2) by simp
qed simp

lemma expands_functional:
  "expandsTo parse combos path combo ts \<Longrightarrow> expandsTo parse combos path combo us \<Longrightarrow> us = ts"
  "stepExpandsTo parse combos path step ts \<Longrightarrow> stepExpandsTo parse combos path step us \<Longrightarrow> us = ts"
proof (induction arbitrary: us and us rule: expandsTo_stepExpandsTo.inducts)
  case (1 path combo tss)
  obtain uss where uss: "us = concat uss"
    "list_all2 (stepExpandsTo parse combos path) (getOrderedTopLevelRuntimeSteps parse combo (Some combos) path) uss"
    using 1(2) by (rule expandsToE)
  have "tss = uss" by (rule list_all2_unique [OF _ uss(2)]) (rule list_all2_mono [OF 1(1)], blast)
  then show ?case by (simp add: uss)
next
  case (2 path t)
  then show ?case by (rule stepTargetE)
next
  case (3 r path)
  from 3(2) show ?case by (rule stepRefE) (use 3(1) in simp_all)
next
  case (4 r nestedCombo path ts)
  from 4(4) show ?case by (rule stepRefE) (use 4(1,3) in simp_all)
qed

text \<open>A reference at run time is a reference for the validation.\<close>

lemma refStep_entry:
  assumes "normalizeComboStep v opts = Some (RefStep s)"
  shows "entryModel v = rs_comboName s"
proof (cases v)
  case (JStr x)
  then show ?thesis using assms
    by (auto simp: normalizeComboStep_def entryModel_def getComboStepTarget_def Let_def split: option.splits if_splits)
next
  case (JObj fs)
  show ?thesis
  proof (cases "isKind ''combo-ref'' fs")
    case True
    then show ?thesis using assms JObj
      by (auto simp: normalizeComboStep_def entryModel_def getComboStepTarget_def Let_def split: option.splits)
  next
    case False
    then obtain m where m: "toTrimmedString (field ''model'' fs) = Some m"
      using assms JObj by (cases "toTrimmedString (field ''model'' fs)") (simp_all add: normalizeComboStep_def)
    then have "trim m = m" using trim_tidy trimmed_tidy by blast
    then show ?thesis using assms JObj False m
      by (auto simp: normalizeComboStep_def entryModel_def getComboStepTarget_def Let_def shouldTreatAsComboRef_def
          toFullModelString_def split: if_splits)
  qed
qed (use assms in \<open>simp_all add: normalizeComboStep_def\<close>)

lemma top_level_refs:
  assumes "ComboRef r \<in> set (getTopLevelRuntimeSteps parse combo names path)"
  shows "rr_comboName r \<in> set (map entryModel (cl_models combo))"
proof -
  obtain i entry where e: "entry \<in> set (cl_models combo)"
    "normalizeRuntimeStep parse entry (cl_name combo) i names path = Some (ComboRef r)"
    using assms by (auto simp: getTopLevelRuntimeSteps_def List.map_filter_def dest!: set_zip_rightD
        simp: enumerate_eq_zip)
  then obtain s where s: "normalizeComboStep entry \<lparr>so_comboName = JStr (cl_name combo), so_index = i, so_comboNames = names\<rparr>
      = Some (RefStep s)" "rr_comboName r = rs_comboName s"
    by (auto simp: normalizeRuntimeStep_def split: option.splits combo_step.splits)
  have "entryModel entry = rs_comboName s" using s(1) by (rule refStep_entry)
  then show ?thesis using e(1) s(2) by force
qed

lemma ordered_subset: "set (orderRuntimeStepsByCompositeTiers steps combo) \<subseteq> set steps"
proof -
  have take: "set (fst (takeStep s st)) \<subseteq> set steps" if "set (fst st) \<subseteq> set steps" "s \<in> set steps" for s st
    using that by (auto simp: takeStep_def)
  have all: "set (fst (fold takeStep ss st)) \<subseteq> set steps" if "set (fst st) \<subseteq> set steps" "set ss \<subseteq> set steps" for ss st
    using that by (induction ss arbitrary: st) (auto simp: take)
  have tiers: "set (fst (fold (\<lambda>i st. case jget i m of None \<Rightarrow> st | Some s \<Rightarrow> takeStep s st) ids st)) \<subseteq> set steps"
    if "set (fst st) \<subseteq> set steps" "\<And>i s. jget i m = Some s \<Longrightarrow> s \<in> set steps" for ids st m
    using that by (induction ids arbitrary: st) (auto simp: take split: option.split)
  have mapped: "s \<in> set steps" if "jget i (mapOfEntries (map (\<lambda>s. (stepIdOf s, s)) steps)) = Some s" for i s
    using map_of_SomeD [OF that [unfolded jget_mapOfEntries]] by auto
  show ?thesis
  proof (cases "getCompositeTierStepOrder combo = []")
    case False
    show ?thesis using False unfolding orderRuntimeStepsByCompositeTiers_def Let_def
      by (simp only: if_False) (intro all tiers subset_refl, simp, rule mapped)
  qed (simp add: orderRuntimeStepsByCompositeTiers_def)
qed

lemma run_time_refs:
  assumes "ComboRef r \<in> set (getOrderedTopLevelRuntimeSteps parse combo allCombos path)"
    and "findCombo (cl_name combo) combos = Some combo" and "findCombo (rr_comboName r) combos \<noteq> None"
  shows "(cl_name combo, rr_comboName r) \<in> refersTo combos"
proof -
  have "ComboRef r \<in> set (getTopLevelRuntimeSteps parse combo (collectComboNames allCombos) path)"
    using assms(1) ordered_subset unfolding getOrderedTopLevelRuntimeSteps_def by blast
  then show ?thesis using assms(2-) top_level_refs by (force simp: refersTo_def)
qed

lemma accepted_expands:
  "validateComboDAG combos maxDepth visited depth (cl_name combo) = None \<Longrightarrow> findCombo (cl_name combo) combos = Some combo
   \<Longrightarrow> expandsTo parse combos path combo (resolveNestedComboTargets parse combos maxDepth visited depth path combo)"
  "(\<And>r. step = ComboRef r \<Longrightarrow> findCombo (rr_comboName r) combos \<noteq> None
      \<Longrightarrow> depth \<le> maxDepth \<and> validateComboDAG combos maxDepth visited (depth + 1) (rr_comboName r) = None)
   \<Longrightarrow> stepExpandsTo parse combos path step (expandRuntimeStep parse combos maxDepth visited depth path step)"
proof (induction parse combos maxDepth visited depth path combo and parse combos maxDepth visited depth path step
    rule: resolveNestedComboTargets_expandRuntimeStep.induct)
  case (1 parse combos maxDepth visited depth path combo)
  have ok: "depth \<le> maxDepth" "cl_name combo \<notin> visited" using validate_limit [OF 1(2)] by simp_all
  let ?steps = "getOrderedTopLevelRuntimeSteps parse combo (Some combos) path"
  let ?expand = "expandRuntimeStep parse combos maxDepth (insert (cl_name combo) visited) depth path"
  have "stepExpandsTo parse combos path s (?expand s)" if s: "s \<in> set ?steps" for s
  proof (rule 1(1) [OF _ ok(2) s])
    show "\<not> maxDepth < depth" using ok by simp
    fix r assume "s = ComboRef r" and f: "findCombo (rr_comboName r) combos \<noteq> None"
    then have "(cl_name combo, rr_comboName r) \<in> refersTo combos" using s 1(3) run_time_refs by blast
    then show "depth \<le> maxDepth \<and>
        validateComboDAG combos maxDepth (insert (cl_name combo) visited) (depth + 1) (rr_comboName r) = None"
      using 1(2) validate_step [OF ok] ok by simp
  qed
  then have "list_all2 (stepExpandsTo parse combos path) ?steps (map ?expand ?steps)"
    by (simp add: list_all2_map2 list.rel_refl_strong)
  then show ?case using ok
    by (subst resolveNestedComboTargets.simps) (simp add: expandsTo_stepExpandsTo.intros(1))
next
  case (2 parse combos maxDepth visited depth path step)
  show ?case
  proof (cases step)
    case (ComboRef r)
    show ?thesis
    proof (cases "findCombo (rr_comboName r) combos")
      case None
      then show ?thesis by (subst expandRuntimeStep.simps) (simp add: ComboRef expandsTo_stepExpandsTo.intros(3))
    next
      case (Some c)
      then have v: "depth \<le> maxDepth" "validateComboDAG combos maxDepth visited (depth + 1) (rr_comboName r) = None"
        using 2(2) [OF ComboRef] by simp_all
      then have "rr_comboName r \<notin> visited" using validate_limit by blast
      moreover have "cl_name c = rr_comboName r" using Some by (rule find_combo_name)
      ultimately show ?thesis using 2(1) [OF ComboRef _ Some] v Some
        by (subst expandRuntimeStep.simps) (auto simp: ComboRef intro!: expandsTo_stepExpandsTo.intros(4) [OF Some])
    qed
  qed (subst expandRuntimeStep.simps, simp add: expandsTo_stepExpandsTo.intros(2))
qed

text \<open>
  C7. Equivalence with the unbounded expansion: for a combo that the validation accepts, the depth
  limit and the cut of cycles change nothing; the targets of a request are exactly the full
  expansion of all nested combos, in order.
\<close>

theorem accepted_combo_expands_fully:
  assumes "validateComboDAG combos maxDepth {} 0 name = None" and "findCombo name combos = Some combo"
  shows "expandsTo parse combos [] combo ts \<longleftrightarrow> ts = resolveComboTargets parse combo (Some combos) maxDepth"
proof -
  have n: "cl_name combo = name" using assms(2) by (rule find_combo_name)
  have "expandsTo parse combos [] combo (resolveComboTargets parse combo (Some combos) maxDepth)"
    using accepted_expands(1) [of combos maxDepth "{}" 0 combo parse "[]"] assms by (simp add: n resolveComboTargets_def)
  then show ?thesis using expands_functional(1) by blast
qed

definition exampleCombos :: "combo_like list" where
  "exampleCombos =
     [\<lparr>cl_name = ''top'', cl_models = [JStr ''fast'', JStr ''openai/gpt-4o''], cl_config = None\<rparr>,
      \<lparr>cl_name = ''fast'', cl_models = [JStr ''groq/llama''], cl_config = None\<rparr>]"

theorem accepted_combo_expands_fully_witness:
  "expandsTo (\<lambda>m. None) exampleCombos [] (hd exampleCombos)
     (resolveComboTargets (\<lambda>m. None) (hd exampleCombos) (Some exampleCombos) 3)
   \<and> map rt_modelStr (resolveComboTargets (\<lambda>m. None) (hd exampleCombos) (Some exampleCombos) 3)
     = [''groq/llama'', ''openai/gpt-4o'']"
proof -
  have "validateComboDAG exampleCombos 3 {} 0 ''top'' = None"
    and "findCombo ''top'' exampleCombos = Some (hd exampleCombos)"
    and "map rt_modelStr (resolveComboTargets (\<lambda>m. None) (hd exampleCombos) (Some exampleCombos) 3)
      = [''groq/llama'', ''openai/gpt-4o'']"
    by code_simp+
  then show ?thesis using accepted_combo_expands_fully [of exampleCombos 3 "''top''" "hd exampleCombos" "\<lambda>m. None"]
    by blast
qed

section \<open>Beyond the depth limit\<close>

lemma plain_entry:
  assumes "trim s \<noteq> []" and "Some (trim s) \<noteq> toTrimmedString (JStr name)"
  shows "\<exists>t. normalizeRuntimeStep parse (JStr s) name i [] path = Some (TargetStep t) \<and> rt_modelStr t = trim s"
proof -
  have t: "tidy (trim s)" using assms(1) by (rule tidy_trim)
  define m where "m = \<lparr>ms_id = buildStepId False (toTrimmedString (JStr name)) i (trim s), ms_model = trim s,
    ms_providerId = parseProviderId (trim s), ms_connectionId = None, ms_weight = 1, ms_label = None, ms_tags = [],
    ms_allowedConnectionIds = []\<rparr>"
  have n: "normalizeComboStep (JStr s) \<lparr>so_comboName = JStr name, so_index = i, so_comboNames = []\<rparr> = Some (ModelStep m)"
    using assms t by (simp add: normalizeComboStep_def Let_def shouldTreatAsComboRef_def toTrimmedString_def m_def)
  have w: "wfStep (ModelStep m)" using n by (rule normalized_wf)
  define fs where "fs = asRecord (stepJson (ModelStep m))"
  note f = stepJson_fields [of m, folded fs_def]
  have "stepProvider fs (ms_model m) = ms_providerId m"
    using w by (cases "ms_providerId m") (simp_all add: stepProvider_def f firstSome_def)
  moreover have "toFullModelString (ms_model m) (ms_providerId m) = ms_model m"
    using w by (cases "ms_providerId m") (auto simp: toFullModelString_def Let_def trim_tidy)
  moreover have "ms_model m = trim s" by (simp add: m_def)
  ultimately have "getComboModelString (JObj fs) = Some (trim s)"
    using t by (simp add: getComboModelString_def isKind_def f)
  moreover have "stepJson (ModelStep m) = JObj fs" by (simp add: fs_def)
  ultimately have "getComboModelString (stepJson (ModelStep m)) = Some (trim s)" by (simp only:)
  then show ?thesis by (simp add: normalizeRuntimeStep_def n)
qed

text \<open>
  Beyond the depth limit a nested combo is not expanded but its name is dispatched: the last
  level is normalized without the collection of combos, so a plain entry that names a combo becomes
  a model target with the name of the combo as its model.
\<close>

theorem depth_limit_dispatches_name:
  assumes "maxDepth < depth" and "JStr s \<in> set (cl_models combo)" and "trim s \<noteq> []"
    and "Some (trim s) \<noteq> toTrimmedString (JStr (cl_name combo))"
  shows "\<exists>t \<in> set (resolveNestedComboTargets parse combos maxDepth visited depth path combo). rt_modelStr t = trim s"
proof -
  obtain i where i: "(i, JStr s) \<in> set (List.enumerate 0 (cl_models combo))"
    using assms(2) by (auto simp: in_set_enumerate_eq in_set_conv_nth [of "JStr s"])
  obtain t where t: "normalizeRuntimeStep parse (JStr s) (cl_name combo) i [] path = Some (TargetStep t)" "rt_modelStr t = trim s"
    using plain_entry [OF assms(3,4)] by blast
  have "TargetStep t \<in> set (getTopLevelRuntimeSteps parse combo [] path)"
    using i t(1) by (force simp: getTopLevelRuntimeSteps_def List.map_filter_def)
  then have "t \<in> set (List.map_filter targetOf (getTopLevelRuntimeSteps parse combo [] path))"
    by (force simp: List.map_filter_def targetOf_def)
  then show ?thesis using t(2) assms(1)
    by (subst resolveNestedComboTargets.simps) auto
qed

definition deepCombos :: "combo_like list" where
  "deepCombos =
     map (\<lambda>(n, m). \<lparr>cl_name = n, cl_models = [JStr m], cl_config = None\<rparr>)
       [(''a'', ''b''), (''b'', ''c''), (''c'', ''d''), (''d'', ''openai/gpt-4o'')]"

theorem depth_limit_dispatches_name_witness:
  "(\<exists>t \<in> set (resolveNestedComboTargets (\<lambda>m. None) deepCombos 1 {''a'', ''b''} 2 [] (deepCombos ! 2)). rt_modelStr t = ''d'')
   \<and> map rt_modelStr (resolveComboTargets (\<lambda>m. None) (deepCombos ! 0) (Some deepCombos) 1) = [''d'']
   \<and> findCombo ''d'' deepCombos \<noteq> None"
proof -
  have d: "trim ''d'' = ''d''" and n: "Some ''d'' \<noteq> toTrimmedString (JStr (cl_name (deepCombos ! 2)))"
    and r: "map rt_modelStr (resolveComboTargets (\<lambda>m. None) (deepCombos ! 0) (Some deepCombos) 1) = [''d'']"
    and f: "findCombo ''d'' deepCombos \<noteq> None"
    by code_simp+
  have m: "JStr ''d'' \<in> set (cl_models (deepCombos ! 2))" by (simp add: deepCombos_def)
  from depth_limit_dispatches_name [of 1 2 "''d''" "deepCombos ! 2" "\<lambda>m. None" deepCombos "{''a'', ''b''}" "[]"] d n m
  have "\<exists>t \<in> set (resolveNestedComboTargets (\<lambda>m. None) deepCombos 1 {''a'', ''b''} 2 [] (deepCombos ! 2)). rt_modelStr t = ''d''"
    by simp
  then show ?thesis using r f by blast
qed

section \<open>Execution keys\<close>

text \<open>Step identifiers that are distinct and free of the separator.\<close>

definition cleanIds :: "(string \<Rightarrow> string option) \<Rightarrow> string list \<Rightarrow> combo_like \<Rightarrow> bool" where
  "cleanIds parse names combo \<longleftrightarrow>
     (let ids = map stepIdOf (getTopLevelRuntimeSteps parse combo names []) in distinct ids \<and> list_all noSep ids)"

lemma clean_steps:
  fixes path :: "string list"
  assumes "cleanIds parse (collectComboNames allCombos) combo"
  defines "steps \<equiv> getOrderedTopLevelRuntimeSteps parse combo allCombos path"
  shows "distinct (map stepIdOf steps)"
    and "s \<in> set steps \<Longrightarrow> noSep (stepIdOf s) \<and> executionKeyOf s = buildExecutionKey path (stepIdOf s)"
proof -
  let ?top = "getTopLevelRuntimeSteps parse combo (collectComboNames allCombos) path"
  have ids: "map stepIdOf ?top = map stepIdOf (getTopLevelRuntimeSteps parse combo (collectComboNames allCombos) [])"
    by (rule top_ids)
  then have d: "distinct (map stepIdOf ?top)" and n: "list_all noSep (map stepIdOf ?top)"
    using assms(1) by (simp_all add: cleanIds_def Let_def)
  have m: "mset steps = mset ?top" using order_exact [OF d] by (simp add: steps_def getOrderedTopLevelRuntimeSteps_def)
  then have "mset (map stepIdOf steps) = mset (map stepIdOf ?top)" by (simp only: mset_map)
  then show "distinct (map stepIdOf steps)" using d by (rule mset_eq_imp_distinct_iff [THEN iffD2])
  assume "s \<in> set steps"
  then have "s \<in> set ?top" using mset_eq_setD [OF m] by simp
  then show "noSep (stepIdOf s) \<and> executionKeyOf s = buildExecutionKey path (stepIdOf s)"
    using n top_keys by (auto simp: list_all_iff)
qed

text \<open>Targets below a path, with distinct keys.\<close>

definition below :: "string list \<Rightarrow> resolved_target list \<Rightarrow> bool" where
  "below path ts \<longleftrightarrow>
     distinct (map rt_executionKey ts)
     \<and> (\<forall>t \<in> set ts. \<exists>q. q \<noteq> [] \<and> list_all noSep q \<and> rt_executionKey t = joinKey (path @ q))"

lemma below_weaken:
  "below (path @ [i]) ts \<Longrightarrow> noSep i \<Longrightarrow> t \<in> set ts
   \<Longrightarrow> \<exists>q. list_all noSep q \<and> rt_executionKey t = joinKey (path @ i # q)"
  by (fastforce simp: below_def)

lemma below_concat:
  assumes "distinct (map stepIdOf steps)" and "list_all noSep path"
    and "\<And>s. s \<in> set steps \<Longrightarrow> noSep (stepIdOf s)"
    and "\<And>s. s \<in> set steps \<Longrightarrow> distinct (map rt_executionKey (f s))"
    and "\<And>s t. s \<in> set steps \<Longrightarrow> t \<in> set (f s)
          \<Longrightarrow> \<exists>q. list_all noSep q \<and> rt_executionKey t = joinKey (path @ stepIdOf s # q)"
  shows "below path (concat (map f steps))"
  using assms
proof (induction steps)
  case (Cons s steps)
  have rest: "below path (concat (map f steps))" using Cons by simp
  have apart: "rt_executionKey t \<noteq> rt_executionKey u" if t: "t \<in> set (f s)" and u: "u \<in> set (concat (map f steps))" for t u
  proof
    assume eq: "rt_executionKey t = rt_executionKey u"
    obtain s' where s': "s' \<in> set steps" "u \<in> set (f s')" using u by auto
    obtain q where q: "list_all noSep q" "rt_executionKey t = joinKey (path @ stepIdOf s # q)"
      using Cons.prems(5) [of s t] t by auto
    obtain r where r: "list_all noSep r" "rt_executionKey u = joinKey (path @ stepIdOf s' # r)"
      using Cons.prems(5) [of s' u] s' by auto
    have "path @ stepIdOf s # q = path @ stepIdOf s' # r"
      using eq q r Cons.prems(2,3) s'(1) by (intro joinKey_inj) auto
    then have "stepIdOf s = stepIdOf s'" by simp
    then show False using Cons.prems(1) s'(1) by force
  qed
  have "\<exists>q. q \<noteq> [] \<and> list_all noSep q \<and> rt_executionKey t = joinKey (path @ q)" if "t \<in> set (f s)" for t
  proof -
    obtain q where "list_all noSep q" "rt_executionKey t = joinKey (path @ stepIdOf s # q)"
      using Cons.prems(5) [of s t] \<open>t \<in> set (f s)\<close> by auto
    then show ?thesis using Cons.prems(3) [of s] by (intro exI [of _ "stepIdOf s # q"]) simp
  qed
  then show ?case using rest apart Cons.prems(4) [of s] unfolding below_def by (auto simp: image_iff)
qed (simp add: below_def)

lemma nested_keys:
  assumes clean: "list_all (\<lambda>c. cleanIds parse (collectComboNames (Some combos)) c \<and> cleanIds parse [] c) combos"
  shows "combo \<in> set combos \<Longrightarrow> list_all noSep path
      \<Longrightarrow> below path (resolveNestedComboTargets parse combos maxDepth visited depth path combo)"
    and "noSep (stepIdOf step) \<Longrightarrow> executionKeyOf step = buildExecutionKey path (stepIdOf step) \<Longrightarrow> list_all noSep path
      \<Longrightarrow> distinct (map rt_executionKey (expandRuntimeStep parse combos maxDepth visited depth path step))
          \<and> (\<forall>t \<in> set (expandRuntimeStep parse combos maxDepth visited depth path step).
               \<exists>q. list_all noSep q \<and> rt_executionKey t = joinKey (path @ stepIdOf step # q))"
  using clean
proof (induction parse combos maxDepth visited depth path combo and parse combos maxDepth visited depth path step
    rule: resolveNestedComboTargets_expandRuntimeStep.induct)
  case (1 parse combos maxDepth visited depth path combo)
  have c: "cleanIds parse (collectComboNames (Some combos)) combo" "cleanIds parse [] combo"
    using 1(2,4) by (simp_all add: list_all_iff)
  consider "maxDepth < depth" | "depth \<le> maxDepth" "cl_name combo \<in> visited" | "depth \<le> maxDepth" "cl_name combo \<notin> visited"
    by linarith
  then show ?case
  proof cases
    case 1
    let ?top = "getTopLevelRuntimeSteps parse combo [] path"
    have ids: "distinct (map stepIdOf ?top)" "list_all noSep (map stepIdOf ?top)"
      using c(2) top_ids [of parse combo "[]" path] by (simp_all add: cleanIds_def Let_def)
    have direct: "concat (map (\<lambda>s. case targetOf s of Some t \<Rightarrow> [t] | None \<Rightarrow> []) ss) = List.map_filter targetOf ss" for ss
      by (induction ss) (auto simp: List.map_filter_simps split: option.split)
    have "below path (concat (map (\<lambda>s. case targetOf s of Some t \<Rightarrow> [t] | None \<Rightarrow> []) ?top))"
    proof (rule below_concat [OF ids(1) \<open>list_all noSep path\<close>])
      show "noSep (stepIdOf s)" if "s \<in> set ?top" for s using ids(2) that by (simp add: list_all_iff)
      show "distinct (map rt_executionKey (case targetOf s of Some t \<Rightarrow> [t] | None \<Rightarrow> []))" for s
        by (simp split: option.split)
      show "\<exists>q. list_all noSep q \<and> rt_executionKey t = joinKey (path @ stepIdOf s # q)"
        if "s \<in> set ?top" "t \<in> set (case targetOf s of Some t \<Rightarrow> [t] | None \<Rightarrow> [])" for s t
        using top_keys [OF that(1)] that(2)
        by (intro exI [of _ "[]"]) (auto simp: buildExecutionKey_def targetOf_def split: runtime_step.splits)
    qed
    then show ?thesis using 1 by (subst resolveNestedComboTargets.simps) (simp add: direct)
  next
    case 2
    then show ?thesis by (subst resolveNestedComboTargets.simps) (simp add: below_def)
  next
    case 3
    let ?steps = "getOrderedTopLevelRuntimeSteps parse combo (Some combos) path"
    note steps = clean_steps [OF c(1), where path = path]
    have IH: "distinct (map rt_executionKey (expandRuntimeStep parse combos maxDepth (insert (cl_name combo) visited) depth path s))
        \<and> (\<forall>t \<in> set (expandRuntimeStep parse combos maxDepth (insert (cl_name combo) visited) depth path s).
               \<exists>q. list_all noSep q \<and> rt_executionKey t = joinKey (path @ stepIdOf s # q))" if "s \<in> set ?steps" for s
      using 1(1) [of s] 3 that steps(2) [OF that] \<open>list_all noSep path\<close> 1(4) by simp
    have "below path (concat (map (expandRuntimeStep parse combos maxDepth (insert (cl_name combo) visited) depth path) ?steps))"
      by (rule below_concat [OF steps(1) \<open>list_all noSep path\<close>]) (use steps(2) IH in auto)
    then show ?thesis using 3 by (subst resolveNestedComboTargets.simps) simp
  qed
next
  case (2 parse combos maxDepth visited depth path step)
  show ?case
  proof (cases step)
    case (TargetStep t)
    then have "expandRuntimeStep parse combos maxDepth visited depth path step = [t]"
      by (subst expandRuntimeStep.simps) simp
    then show ?thesis using 2(3) TargetStep by (auto simp: buildExecutionKey_def intro!: exI [of _ "[]"])
  next
    case (ComboRef r)
    show ?thesis
    proof (cases "maxDepth < depth \<or> findCombo (rr_comboName r) combos = None \<or> rr_comboName r \<in> visited")
      case True
      then have "expandRuntimeStep parse combos maxDepth visited depth path step = []"
        by (subst expandRuntimeStep.simps) (auto simp: ComboRef split: option.split)
      then show ?thesis by simp
    next
      case False
      then obtain c where c: "findCombo (rr_comboName r) combos = Some c" by auto
      then have m: "c \<in> set combos" unfolding findCombo_def by (blast dest: find_Some_in)
      let ?ts = "resolveNestedComboTargets parse combos maxDepth visited (depth + 1) (path @ [rr_stepId r]) c"
      have e: "expandRuntimeStep parse combos maxDepth visited depth path step = ?ts"
        using False c by (subst expandRuntimeStep.simps) (simp add: ComboRef)
      have s: "noSep (rr_stepId r)" using 2(2) by (simp add: ComboRef)
      have b: "below (path @ [rr_stepId r]) ?ts" using 2(1) [OF ComboRef _ c] False m s 2(4,5) by simp
      have "stepIdOf step = rr_stepId r" by (simp add: ComboRef)
      then show ?thesis unfolding e using b below_weaken [OF b s] by (simp add: below_def)
    qed
  qed
qed

text \<open>
  Execution keys tell the targets of a request apart: when the step identifiers of every combo
  are distinct and free of the separator, all targets that nested combos expand to have different
  keys, so removing duplicates by key never loses a target.
\<close>

theorem execution_keys_distinct:
  assumes "list_all (\<lambda>c. cleanIds parse (collectComboNames (Some combos)) c \<and> cleanIds parse [] c) combos"
    and "combo \<in> set combos"
  shows "distinct (map rt_executionKey (resolveComboTargets parse combo (Some combos) maxDepth))
    \<and> dedupeTargetsByExecutionKey (resolveComboTargets parse combo (Some combos) maxDepth)
      = resolveComboTargets parse combo (Some combos) maxDepth"
proof -
  have dedupe: "dedupeFrom seen ts = ts" if "distinct (map rt_executionKey ts)" "seen \<inter> rt_executionKey ` set ts = {}" for seen ts
    using that by (induction seen ts rule: dedupeFrom.induct) auto
  have "distinct (map rt_executionKey (resolveComboTargets parse combo (Some combos) maxDepth))"
    using nested_keys(1) [OF assms(1,2), of "[]" maxDepth "{}" 0] by (simp add: resolveComboTargets_def below_def)
  then show ?thesis by (simp add: dedupeTargetsByExecutionKey_def dedupe)
qed

theorem execution_keys_distinct_witness:
  "distinct (map rt_executionKey (resolveComboTargets (\<lambda>m. None) (hd exampleCombos) (Some exampleCombos) 3))
   \<and> map rt_executionKey (resolveComboTargets (\<lambda>m. None) (hd exampleCombos) (Some exampleCombos) 3)
     = [''top-ref-1-fast>fast-model-1-groq-llama'', ''top-model-2-openai-gpt-4o'']"
proof -
  have "list_all (\<lambda>c. cleanIds (\<lambda>m. None) (collectComboNames (Some exampleCombos)) c \<and> cleanIds (\<lambda>m. None) [] c) exampleCombos"
    and "map rt_executionKey (resolveComboTargets (\<lambda>m. None) (hd exampleCombos) (Some exampleCombos) 3)
      = [''top-ref-1-fast>fast-model-1-groq-llama'', ''top-model-2-openai-gpt-4o'']"
    by code_simp+
  moreover have "hd exampleCombos \<in> set exampleCombos" by (simp add: exampleCombos_def)
  ultimately show ?thesis using execution_keys_distinct [of "\<lambda>m. None" exampleCombos "hd exampleCombos" 3] by simp
qed

end
