(* ===== verification/ComboCompat.thy ===== *)
theory ComboCompat
  imports ComboStructure
begin

text \<open>
  Which targets of a combo can serve a request: the requirements derived from a body, the filter by
  capabilities and its fallbacks, the error for an emptied pool (the second half of
  \<open>open-sse/services/combo/comboStructure.ts\<close>), \<open>contextOverrideGate.ts\<close>, \<open>knownContextOverflow.ts\<close>
  and \<open>comboCompatFallback.ts\<close>.

  The capabilities of a model (\<open>caps\<close>, \<open>getResolvedModelCapabilities\<close>), its stored context override
  (\<open>override\<close>), whether its provider emulates tools (\<open>emulated\<close>) and the token estimate of a payload
  (\<open>estimate\<close>) are arguments; targets are compared by what they are, since the code compares the
  objects of one list.
\<close>

section \<open>Requirements\<close>

record requirements =
  rq_tools :: bool
  rq_vision :: bool
  rq_structured :: bool
  rq_inputTokens :: int
  rq_outputTokens :: int
  rq_contextTokens :: int

record capabilities =
  cap_supportsTools :: "bool option"
  cap_toolCalling :: bool
  cap_supportsVision :: "bool option"
  cap_structuredOutput :: "bool option"
  cap_maxOutputTokens :: "int option"
  cap_maxInputTokens :: "int option"
  cap_contextWindow :: "int option"

definition getPositiveTokenCount :: "json \<Rightarrow> int" where
  "getPositiveTokenCount v = (case jsNumberOf v of Some r \<Rightarrow> if 0 < r then \<lceil>r\<rceil> else 0 | None \<Rightarrow> 0)"

definition nonEmptyArray :: "json \<Rightarrow> bool" where
  "nonEmptyArray v = (case v of JArr xs \<Rightarrow> xs \<noteq> [] | _ \<Rightarrow> False)"

definition requestRequiresTools :: "json_object \<Rightarrow> bool" where
  "requestRequiresTools body \<longleftrightarrow> nonEmptyArray (field ''tools'' body) \<or> nonEmptyArray (field ''functions'' body)"

definition requestRequiresStructuredOutput :: "json_object \<Rightarrow> bool" where
  "requestRequiresStructuredOutput body \<longleftrightarrow>
     field ''type'' (asRecord (field ''response_format'' body)) \<in> {JStr ''json_object'', JStr ''json_schema''}"

definition hasEstimableContent :: "json \<Rightarrow> bool" where
  "hasEstimableContent v =
     (case v of JUndefined \<Rightarrow> False | JNull \<Rightarrow> False | JArr xs \<Rightarrow> xs \<noteq> [] | JObj fs \<Rightarrow> fs \<noteq> [] | _ \<Rightarrow> True)"

definition estimatePayload :: "json_object \<Rightarrow> json_object" where
  "estimatePayload body =
     filter (\<lambda>f. hasEstimableContent (snd f))
       (map (\<lambda>k. (k, field k body)) [''messages'', ''input'', ''tools'', ''functions'', ''response_format''])"

definition estimateRequestInputTokens :: "(json \<Rightarrow> int) \<Rightarrow> json_object \<Rightarrow> int" where
  "estimateRequestInputTokens estimate body =
     (if estimatePayload body \<noteq> [] then estimate (JObj (estimatePayload body)) else 0)"

definition lowerText :: "json \<Rightarrow> string" where
  "lowerText v = (case v of JStr s \<Rightarrow> toLowerCase s | _ \<Rightarrow> [])"

definition isImageRecord :: "json_object \<Rightarrow> bool" where
  "isImageRecord fs \<longleftrightarrow>
     lowerText (field ''type'' fs) \<in> {''image'', ''image_url'', ''input_image''}
     \<or> hasOwn ''image_url'' fs \<or> hasOwn ''input_image'' fs
     \<or> starts_with ''image/'' (lowerText (field ''media_type'' (asRecord (field ''source'' fs))))"

fun valueContainsImagePart :: "nat \<Rightarrow> json \<Rightarrow> bool" where
  "valueContainsImagePart depth (JStr s) \<longleftrightarrow> depth \<le> 8 \<and> starts_with ''data:image/'' s"
| "valueContainsImagePart depth (JArr xs) \<longleftrightarrow> depth \<le> 8 \<and> list_ex (valueContainsImagePart (depth + 1)) xs"
| "valueContainsImagePart depth (JObj fs) \<longleftrightarrow>
     depth \<le> 8 \<and> (isImageRecord fs \<or> list_ex (\<lambda>f. valueContainsImagePart (depth + 1) (snd f)) fs)"
| "valueContainsImagePart depth v = False"

definition deriveRequestCompatibilityRequirements :: "(json \<Rightarrow> int) \<Rightarrow> json_object \<Rightarrow> requirements" where
  "deriveRequestCompatibilityRequirements estimate body =
     (let input = estimateRequestInputTokens estimate body;
          output = max (getPositiveTokenCount (field ''max_tokens'' body))
                       (getPositiveTokenCount (field ''max_completion_tokens'' body))
      in \<lparr>rq_tools = requestRequiresTools body,
          rq_vision = (valueContainsImagePart 0 (field ''messages'' body) \<or> valueContainsImagePart 0 (field ''input'' body)),
          rq_structured = requestRequiresStructuredOutput body, rq_inputTokens = input, rq_outputTokens = output,
          rq_contextTokens = input + output\<rparr>)"

section \<open>One target\<close>

text \<open>\<open>None\<close> is the verdict of a model whose limits are unknown.\<close>

definition evaluateContextLimit :: "(string \<Rightarrow> int option) \<Rightarrow> capabilities \<Rightarrow> requirements \<Rightarrow> string \<Rightarrow> bool option" where
  "evaluateContextLimit override c r modelStr =
     (case (if modelStr = [] then None else override modelStr) of
        Some limit \<Rightarrow> Some (rq_contextTokens r \<le> limit)
      | None \<Rightarrow>
        (if cap_maxInputTokens c = None \<and> cap_contextWindow c = None then None
         else Some ((case cap_maxInputTokens c of Some m \<Rightarrow> rq_inputTokens r \<le> m | None \<Rightarrow> True)
                    \<and> (case cap_contextWindow c of Some w \<Rightarrow> rq_contextTokens r \<le> w | None \<Rightarrow> True))))"

definition exceedsKnownOutputLimit :: "int \<Rightarrow> int option \<Rightarrow> bool" where
  "exceedsKnownOutputLimit requested limit \<longleftrightarrow> 0 < requested \<and> (case limit of Some m \<Rightarrow> m < requested | None \<Rightarrow> False)"

record model_facts =
  mf_caps :: "string \<Rightarrow> capabilities"
  mf_override :: "string \<Rightarrow> int option"
  mf_emulated :: "string \<Rightarrow> bool"

definition contextVerdict :: "model_facts \<Rightarrow> requirements \<Rightarrow> resolved_target \<Rightarrow> bool option" where
  "contextVerdict mf r t = evaluateContextLimit (mf_override mf) (mf_caps mf (rt_modelStr t)) r (rt_modelStr t)"

definition hasKnownCompatibleContextLimit :: "model_facts \<Rightarrow> requirements \<Rightarrow> resolved_target \<Rightarrow> bool" where
  "hasKnownCompatibleContextLimit mf r t \<longleftrightarrow> 0 < rq_contextTokens r \<and> contextVerdict mf r t = Some True"

definition isVisionIncompatibleTarget :: "model_facts \<Rightarrow> requirements \<Rightarrow> resolved_target \<Rightarrow> bool" where
  "isVisionIncompatibleTarget mf r t \<longleftrightarrow> rq_vision r \<and> cap_supportsVision (mf_caps mf (rt_modelStr t)) \<noteq> Some True"

definition getTargetCompatibilityFailures :: "model_facts \<Rightarrow> requirements \<Rightarrow> resolved_target \<Rightarrow> string list" where
  "getTargetCompatibilityFailures mf r t =
     (let c = mf_caps mf (rt_modelStr t)
      in (if rq_tools r \<and> (cap_supportsTools c = Some False \<or> \<not> cap_toolCalling c) \<and> \<not> mf_emulated mf (rt_provider t)
          then [''tools''] else [])
         @ (if rq_vision r \<and> cap_supportsVision c \<noteq> Some True then [''vision''] else [])
         @ (if rq_structured r \<and> cap_structuredOutput c = Some False then [''structured_output''] else [])
         @ (if exceedsKnownOutputLimit (rq_outputTokens r) (cap_maxOutputTokens c) then [''output_tokens''] else [])
         @ (if 0 < rq_contextTokens r \<and> contextVerdict mf r t = Some False then [''context_window''] else []))"

definition HARD_COMPAT_REASONS :: "string list" where
  "HARD_COMPAT_REASONS = [''tools'', ''vision'', ''structured_output'']"

definition hasHardCapabilityFailure :: "string list \<Rightarrow> bool" where
  "hasHardCapabilityFailure reasons \<longleftrightarrow> list_ex (\<lambda>r. r \<in> set HARD_COMPAT_REASONS) reasons"

definition hasOnlyContextWindowFailures :: "string list \<Rightarrow> bool" where
  "hasOnlyContextWindowFailures reasons \<longleftrightarrow> reasons \<noteq> [] \<and> list_all (\<lambda>r. r = ''context_window'') reasons"

section \<open>The filter\<close>

text \<open>
  \<open>targets.filter((target) => !isVisionIncompatibleTarget(target, requirements))\<close>: the predicate is
  asynchronous, so its value is a promise, and the negation of a promise is false.
\<close>

definition visionSafe :: "model_facts \<Rightarrow> requirements \<Rightarrow> resolved_target list \<Rightarrow> resolved_target list" where
  "visionSafe mf r targets = filter (\<lambda>t. False) targets"

definition filterTargetsByRequestCompatibility ::
  "(json \<Rightarrow> int) \<Rightarrow> model_facts \<Rightarrow> bool \<Rightarrow> resolved_target list \<Rightarrow> json_object \<Rightarrow> resolved_target list" where
  "filterTargetsByRequestCompatibility estimate mf failOpen targets body =
     (let r = deriveRequestCompatibilityRequirements estimate body;
          failures = getTargetCompatibilityFailures mf r;
          needsFiltering = (rq_tools r \<or> rq_vision r \<or> rq_structured r \<or> 0 < rq_contextTokens r);
          rejected = filter (\<lambda>t. failures t \<noteq> []) targets;
          compatible = filter (\<lambda>t. failures t = []) targets;
          rejectedForContext = list_ex (\<lambda>t. ''context_window'' \<in> set (failures t)) rejected;
          known = filter (hasKnownCompatibleContextLimit mf r) compatible;
          contextOnly = filter (\<lambda>t. failures t = [] \<or> hasOnlyContextWindowFailures (failures t)) targets
      in if targets = [] \<or> \<not> needsFiltering then targets
         else if 0 < rq_contextTokens r \<and> rejectedForContext \<and> known \<noteq> [] \<and> length known < length compatible
              then known
         else if 0 < rq_contextTokens r \<and> rejectedForContext \<and> known = [] \<and> compatible \<noteq> []
                 \<and> length compatible < length contextOnly
              then contextOnly
         else if length compatible = length targets then targets
         else if compatible = []
              then (if rq_vision r then (if visionSafe mf r targets = [] then [] else visionSafe mf r targets)
                    else if \<not> list_ex (\<lambda>t. hasHardCapabilityFailure (failures t)) rejected \<or> failOpen then targets
                    else [])
         else compatible)"

definition computeCompatRejectedTargets ::
  "(json \<Rightarrow> int) \<Rightarrow> model_facts \<Rightarrow> resolved_target list \<Rightarrow> resolved_target list \<Rightarrow> json_object \<Rightarrow> resolved_target list" where
  "computeCompatRejectedTargets estimate mf ranked kept body =
     (let r = deriveRequestCompatibilityRequirements estimate body
      in filter (\<lambda>t. t \<notin> set kept \<and> \<not> isVisionIncompatibleTarget mf r t) ranked)"

record excluded_target =
  ex_provider :: string
  ex_model :: string
  ex_reason :: string

record capability_exhaustion =
  ce_unmet :: "string list"
  ce_excluded :: "excluded_target list"
  ce_message :: string

fun joinPlus :: "string list \<Rightarrow> string" where
  "joinPlus [] = []"
| "joinPlus [x] = x"
| "joinPlus (x # y # ys) = x @ ''+'' @ joinPlus (y # ys)"

definition describeCapabilityFilterExhaustion ::
  "(json \<Rightarrow> int) \<Rightarrow> model_facts \<Rightarrow> resolved_target list \<Rightarrow> json_object \<Rightarrow> string \<Rightarrow> capability_exhaustion option" where
  "describeCapabilityFilterExhaustion estimate mf targets body comboName =
     (let r = deriveRequestCompatibilityRequirements estimate body;
          failures = getTargetCompatibilityFailures mf r;
          unmet = rev (remdups (rev (filter (\<lambda>x. x \<in> set HARD_COMPAT_REASONS) (concat (map failures targets)))))
      in if targets = [] \<or> unmet = [] then None
         else (let primary = (if ''tools'' \<in> set unmet then ''tools''
                              else if ''vision'' \<in> set unmet then ''vision'' else hd unmet);
                   toolCount = (case field ''tools'' body of JArr xs \<Rightarrow> length xs | _ \<Rightarrow> 0);
                   name = (if trim comboName \<noteq> [] then comboName else ''this combo'')
               in Some \<lparr>ce_unmet = unmet,
                        ce_excluded = map (\<lambda>t. \<lparr>ex_provider = rt_provider t, ex_model = rt_modelStr t,
                          ex_reason = (if failures t = [] then primary else joinPlus (failures t))\<rparr>) targets,
                        ce_message = ''No target in combo '' @ name
                          @ (if primary = ''tools''
                             then '' supports tool calling; request carried '' @ decimalDigits toolCount @ '' tools''
                             else if primary = ''vision'' then '' has confirmed vision support for this image request''
                             else '' supports structured output for this request'')\<rparr>))"

section \<open>Known context overflow and the last resort\<close>

definition getKnownContextLimit :: "capabilities \<Rightarrow> int \<Rightarrow> int option" where
  "getKnownContextLimit c requestedOutput =
     (case (cap_maxInputTokens c, cap_contextWindow c) of
        (Some m, Some w) \<Rightarrow> Some (min (m + requestedOutput) w)
      | (Some m, None) \<Rightarrow> Some (m + requestedOutput)
      | (None, Some w) \<Rightarrow> Some w
      | (None, None) \<Rightarrow> None)"

text \<open>The largest known limit when the request overflows every target.\<close>

definition getKnownContextOverflow ::
  "(json \<Rightarrow> int) \<Rightarrow> model_facts \<Rightarrow> resolved_target list \<Rightarrow> json_object \<Rightarrow> int option" where
  "getKnownContextOverflow estimate mf targets body =
     (let r = deriveRequestCompatibilityRequirements estimate body;
          limits = map (\<lambda>t. getKnownContextLimit (mf_caps mf (rt_modelStr t)) (rq_outputTokens r)) targets
      in if targets = [] \<or> rq_contextTokens r \<le> 0 \<or> None \<in> set limits then None
         else (let maxKnown = Max (set (map the limits))
               in if rq_contextTokens r \<le> maxKnown then None else Some maxKnown))"

text \<open>Availability, cooldown and the success of a dispatch are what the world answers for a target.\<close>

fun attemptCompatRejectedFallback ::
  "(resolved_target \<Rightarrow> bool) \<Rightarrow> (resolved_target \<Rightarrow> bool) \<Rightarrow> (resolved_target \<Rightarrow> bool) \<Rightarrow> resolved_target list
   \<Rightarrow> resolved_target option" where
  "attemptCompatRejectedFallback available inCooldown ok [] = None"
| "attemptCompatRejectedFallback available inCooldown ok (t # ts) =
     (if available t \<and> \<not> inCooldown t \<and> ok t then Some t
      else attemptCompatRejectedFallback available inCooldown ok ts)"

section \<open>Lemmas\<close>

lemma hard_failures:
  "hasHardCapabilityFailure (getTargetCompatibilityFailures mf r t) \<longleftrightarrow>
     rq_tools r \<and> (cap_supportsTools (mf_caps mf (rt_modelStr t)) = Some False \<or> \<not> cap_toolCalling (mf_caps mf (rt_modelStr t)))
       \<and> \<not> mf_emulated mf (rt_provider t)
     \<or> isVisionIncompatibleTarget mf r t
     \<or> rq_structured r \<and> cap_structuredOutput (mf_caps mf (rt_modelStr t)) = Some False"
  by (auto simp: hasHardCapabilityFailure_def getTargetCompatibilityFailures_def HARD_COMPAT_REASONS_def Let_def
      isVisionIncompatibleTarget_def)

lemma context_only_soft: "hasOnlyContextWindowFailures fs \<Longrightarrow> \<not> hasHardCapabilityFailure fs"
  by (auto simp: hasOnlyContextWindowFailures_def hasHardCapabilityFailure_def HARD_COMPAT_REASONS_def list_all_iff list_ex_iff)

lemma no_failures_soft: "\<not> hasHardCapabilityFailure []"
  by (simp add: hasHardCapabilityFailure_def)

lemma all_compatible: "length (filter P xs) = length xs \<Longrightarrow> x \<in> set xs \<Longrightarrow> P x"
  by (metis filter_id_conv length_filter_less less_irrefl)

lemma filter_result:
  "\<exists>P. filterTargetsByRequestCompatibility estimate mf failOpen targets body = filter P targets"
proof -
  have t: "\<exists>P. targets = filter P targets" by (rule exI [of _ "\<lambda>t. True"]) simp
  have e: "\<exists>P. [] = filter P targets" by (rule exI [of _ "\<lambda>t. False"]) simp
  have f: "\<exists>P. filter Q targets = filter P targets" for Q by blast
  have ff: "\<exists>P. filter Q (filter R targets) = filter P targets" for Q R
    by (rule exI [of _ "\<lambda>t. R t \<and> Q t"]) (simp add: conj_commute)
  have ite: "\<exists>P. (if c then a else b) = filter P targets"
    if "\<exists>P. a = filter P targets" "\<exists>P. b = filter P targets" for c a b
    using that by (cases c) simp_all
  show ?thesis
    unfolding filterTargetsByRequestCompatibility_def visionSafe_def Let_def
    by (intro ite t e f ff)
qed

lemma empty_hard:
  assumes "filter (\<lambda>t. getTargetCompatibilityFailures mf r t = []) targets = []"
    and "\<not> list_ex (\<lambda>t. hasHardCapabilityFailure (getTargetCompatibilityFailures mf r t))
      (filter (\<lambda>t. getTargetCompatibilityFailures mf r t \<noteq> []) targets)"
    and "t \<in> set targets"
  shows "\<not> hasHardCapabilityFailure (getTargetCompatibilityFailures mf r t)"
  using assms by (auto simp: list_ex_iff filter_empty_conv)

text \<open>
  The capability filter is sound: whatever it returns keeps the order of the targets, for an
  image request every target has confirmed vision support, even when the operator lets the filter
  fail open, and without that option no target is returned that fails a hard requirement (tools,
  vision, structured output).
\<close>

theorem compat_filter_sound:
  fixes estimate :: "json \<Rightarrow> int"
  defines "r \<equiv> \<lambda>body. deriveRequestCompatibilityRequirements estimate body"
  assumes "t \<in> set (filterTargetsByRequestCompatibility estimate mf failOpen targets body)"
  shows "t \<in> set targets \<and> \<not> isVisionIncompatibleTarget mf (r body) t
    \<and> (failOpen \<or> \<not> hasHardCapabilityFailure (getTargetCompatibilityFailures mf (r body) t))"
proof -
  let ?f = "getTargetCompatibilityFailures mf (r body)"
  have hard: "\<not> hasHardCapabilityFailure (?f t) \<Longrightarrow> \<not> isVisionIncompatibleTarget mf (r body) t"
    by (simp add: hard_failures)
  have none: "?f t = [] \<Longrightarrow> \<not> hasHardCapabilityFailure (?f t)" by (simp add: no_failures_soft)
  have plain: "\<not> (rq_tools (r body) \<or> rq_vision (r body) \<or> rq_structured (r body) \<or> 0 < rq_contextTokens (r body))
      \<Longrightarrow> \<not> hasHardCapabilityFailure (?f t)"
    by (simp add: hard_failures isVisionIncompatibleTarget_def)
  have all: "length (filter (\<lambda>t. ?f t = []) targets) = length targets \<Longrightarrow> t \<in> set targets \<Longrightarrow> \<not> hasHardCapabilityFailure (?f t)"
    using all_compatible [of "\<lambda>t. ?f t = []" targets t] none by blast
  have "t \<in> set targets" using assms(2) filter_result [of estimate mf failOpen targets body] by auto
  moreover have "\<not> hasHardCapabilityFailure (?f t) \<or> failOpen \<and> \<not> rq_vision (r body)"
    using assms(2) \<open>t \<in> set targets\<close> plain all none empty_hard [of mf "r body" targets t] context_only_soft
    unfolding filterTargetsByRequestCompatibility_def visionSafe_def Let_def r_def
    by (auto split: if_splits)
  ultimately show ?thesis using hard by (auto simp: isVisionIncompatibleTarget_def)
qed

definition plainTarget :: "string \<Rightarrow> resolved_target" where
  "plainTarget m =
     \<lparr>rt_stepId = m, rt_executionKey = m, rt_modelStr = m, rt_provider = ''openai'', rt_providerId = None,
      rt_connectionId = None, rt_allowedConnectionIds = None, rt_weight = 0, rt_label = None\<rparr>"

definition sampleCaps :: "bool option \<Rightarrow> int option \<Rightarrow> int option \<Rightarrow> capabilities" where
  "sampleCaps vision output window =
     \<lparr>cap_supportsTools = Some True, cap_toolCalling = True, cap_supportsVision = vision, cap_structuredOutput = None,
      cap_maxOutputTokens = output, cap_maxInputTokens = None, cap_contextWindow = window\<rparr>"

definition sampleFacts :: model_facts where
  "sampleFacts =
     \<lparr>mf_caps = (\<lambda>m. sampleCaps (if m = ''text'' then None else Some True) (Some 100) (Some 1000)),
      mf_override = (\<lambda>m. None), mf_emulated = (\<lambda>p. False)\<rparr>"

definition imageBody :: "int \<Rightarrow> json_object" where
  "imageBody n =
     [(''messages'', JArr [JObj [(''role'', JStr ''user''),
         (''content'', JArr [JObj [(''type'', JStr ''image_url''), (''image_url'', JObj [])]])]]),
      (''max_tokens'', JNum (of_int n))]"

theorem compat_filter_sound_witness:
  "\<not> isVisionIncompatibleTarget sampleFacts (deriveRequestCompatibilityRequirements (\<lambda>v. 10) (imageBody 50)) (plainTarget ''eyes'')
   \<and> filterTargetsByRequestCompatibility (\<lambda>v. 10) sampleFacts True [plainTarget ''text'', plainTarget ''eyes''] (imageBody 50)
     = [plainTarget ''eyes'']"
proof -
  have f: "filterTargetsByRequestCompatibility (\<lambda>v. 10) sampleFacts True [plainTarget ''text'', plainTarget ''eyes''] (imageBody 50)
     = [plainTarget ''eyes'']" by code_simp
  then have "plainTarget ''eyes''
      \<in> set (filterTargetsByRequestCompatibility (\<lambda>v. 10) sampleFacts True [plainTarget ''text'', plainTarget ''eyes''] (imageBody 50))"
    by simp
  from compat_filter_sound [OF this] f show ?thesis by blast
qed

text \<open>
  An image request that no target can serve in full always ends with an empty pool, although the
  branch is written to restore the targets with confirmed vision support: its predicate is
  asynchronous and never holds. So an image request that only exceeds an output limit is refused
  where the same request without an image is let through.
\<close>

theorem vision_pool_never_restored:
  fixes estimate :: "json \<Rightarrow> int"
  defines "r \<equiv> \<lambda>body. deriveRequestCompatibilityRequirements estimate body"
  assumes "rq_vision (r body)"
    and "list_all (\<lambda>t. getTargetCompatibilityFailures mf (r body) t \<noteq> []
      \<and> \<not> hasHardCapabilityFailure (getTargetCompatibilityFailures mf (r body) t)) targets"
  shows "filterTargetsByRequestCompatibility estimate mf failOpen targets body = []
    \<and> describeCapabilityFilterExhaustion estimate mf targets body name = None
    \<and> (\<exists>t \<in> set targets. \<not> isVisionIncompatibleTarget mf (r body) t) = (targets \<noteq> [])"
proof -
  have none: "filter (\<lambda>t. getTargetCompatibilityFailures mf (r body) t = []) targets = []"
    using assms(3) by (auto simp: list_all_iff filter_empty_conv)
  have "filter (\<lambda>x. x \<in> set HARD_COMPAT_REASONS) (concat (map (getTargetCompatibilityFailures mf (r body)) targets)) = []"
    using assms(3) by (auto simp: list_all_iff filter_empty_conv hasHardCapabilityFailure_def list_ex_iff)
  moreover have "\<not> isVisionIncompatibleTarget mf (r body) t" if "t \<in> set targets" for t
    using assms(3) that by (auto simp: list_all_iff hard_failures)
  ultimately show ?thesis using assms(2) none
    by (auto simp: filterTargetsByRequestCompatibility_def visionSafe_def describeCapabilityFilterExhaustion_def
        r_def Let_def neq_Nil_conv)
qed

theorem vision_pool_never_restored_witness:
  "filterTargetsByRequestCompatibility (\<lambda>v. 10) sampleFacts True [plainTarget ''eyes''] (imageBody 200) = []
   \<and> filterTargetsByRequestCompatibility (\<lambda>v. 10) sampleFacts True [plainTarget ''eyes'']
        [(''messages'', JArr [JObj [(''content'', JStr ''hi'')]]), (''max_tokens'', JNum 200)] = [plainTarget ''eyes'']"
proof -
  have "rq_vision (deriveRequestCompatibilityRequirements (\<lambda>v. 10) (imageBody 200))"
    and "list_all (\<lambda>t. getTargetCompatibilityFailures sampleFacts (deriveRequestCompatibilityRequirements (\<lambda>v. 10) (imageBody 200)) t \<noteq> []
      \<and> \<not> hasHardCapabilityFailure (getTargetCompatibilityFailures sampleFacts
            (deriveRequestCompatibilityRequirements (\<lambda>v. 10) (imageBody 200)) t)) [plainTarget ''eyes'']"
    and "filterTargetsByRequestCompatibility (\<lambda>v. 10) sampleFacts True [plainTarget ''eyes'']
        [(''messages'', JArr [JObj [(''content'', JStr ''hi'')]]), (''max_tokens'', JNum 200)] = [plainTarget ''eyes'']"
    by code_simp+
  then show ?thesis
    using vision_pool_never_restored [of "\<lambda>v. 10" "imageBody 200" sampleFacts "[plainTarget ''eyes'']" True "[]"] by blast
qed

text \<open>
  The gate for known overflows ignores the context override of an operator, which is documented
  to supersede both limits of the catalog: a request that the filter accepts on every target because
  of their overrides is refused before the filter runs.
\<close>

theorem overflow_ignores_override:
  fixes estimate :: "json \<Rightarrow> int"
  defines "r \<equiv> \<lambda>body. deriveRequestCompatibilityRequirements estimate body"
  assumes "targets \<noteq> []" and "0 < rq_contextTokens (r body)"
    and "list_all (\<lambda>t. cap_maxInputTokens (mf_caps mf (rt_modelStr t)) = None
      \<and> (case cap_contextWindow (mf_caps mf (rt_modelStr t)) of Some w \<Rightarrow> w < rq_contextTokens (r body) | None \<Rightarrow> False)
      \<and> rt_modelStr t \<noteq> []
      \<and> (case mf_override mf (rt_modelStr t) of Some limit \<Rightarrow> rq_contextTokens (r body) \<le> limit | None \<Rightarrow> False)) targets"
  shows "getKnownContextOverflow estimate mf targets body \<noteq> None
    \<and> list_all (\<lambda>t. contextVerdict mf (r body) t = Some True) targets"
proof -
  let ?lim = "\<lambda>t. getKnownContextLimit (mf_caps mf (rt_modelStr t)) (rq_outputTokens (r body))"
  have small: "\<exists>w. ?lim t = Some w \<and> w < rq_contextTokens (r body)" if "t \<in> set targets" for t
    using assms(4) that by (auto simp: list_all_iff getKnownContextLimit_def split: option.splits)
  have known: "None \<notin> set (map ?lim targets)" using small by force
  define M where "M = Max (set (map the (map ?lim targets)))"
  have "M < rq_contextTokens (r body)"
    unfolding M_def using small assms(2) by (subst Max_less_iff) fastforce+
  then have "getKnownContextOverflow estimate mf targets body = Some M"
    using known assms(2,3) unfolding getKnownContextOverflow_def Let_def r_def [symmetric] M_def [symmetric] by simp
  then have "getKnownContextOverflow estimate mf targets body \<noteq> None" by simp
  moreover have "list_all (\<lambda>t. contextVerdict mf (r body) t = Some True) targets"
    using assms(4) by (auto simp: list_all_iff contextVerdict_def evaluateContextLimit_def split: option.splits)
  ultimately show ?thesis by (rule conjI)
qed

theorem overflow_ignores_override_witness:
  "getKnownContextOverflow (\<lambda>v. 5000) (sampleFacts\<lparr>mf_override := \<lambda>m. Some 8000\<rparr>) [plainTarget ''eyes'']
     [(''messages'', JArr [JStr ''long''])] = Some 1000
   \<and> filterTargetsByRequestCompatibility (\<lambda>v. 5000) (sampleFacts\<lparr>mf_override := \<lambda>m. Some 8000\<rparr>) False [plainTarget ''eyes'']
       [(''messages'', JArr [JStr ''long''])] = [plainTarget ''eyes'']
   \<and> contextVerdict (sampleFacts\<lparr>mf_override := \<lambda>m. Some 8000\<rparr>)
       (deriveRequestCompatibilityRequirements (\<lambda>v. 5000) [(''messages'', JArr [JStr ''long''])]) (plainTarget ''eyes'') = Some True"
proof -
  let ?mf = "sampleFacts\<lparr>mf_override := \<lambda>m. Some 8000\<rparr>"
  let ?body = "[(''messages'', JArr [JStr ''long''])]"
  have "list_all (\<lambda>t. cap_maxInputTokens (mf_caps ?mf (rt_modelStr t)) = None
      \<and> (case cap_contextWindow (mf_caps ?mf (rt_modelStr t)) of
           Some w \<Rightarrow> w < rq_contextTokens (deriveRequestCompatibilityRequirements (\<lambda>v. 5000) ?body) | None \<Rightarrow> False)
      \<and> rt_modelStr t \<noteq> []
      \<and> (case mf_override ?mf (rt_modelStr t) of
           Some limit \<Rightarrow> rq_contextTokens (deriveRequestCompatibilityRequirements (\<lambda>v. 5000) ?body) \<le> limit
         | None \<Rightarrow> False)) [plainTarget ''eyes'']"
    and "0 < rq_contextTokens (deriveRequestCompatibilityRequirements (\<lambda>v. 5000) ?body)"
    and "getKnownContextOverflow (\<lambda>v. 5000) ?mf [plainTarget ''eyes''] ?body = Some 1000"
    and "filterTargetsByRequestCompatibility (\<lambda>v. 5000) ?mf False [plainTarget ''eyes''] ?body = [plainTarget ''eyes'']"
    by code_simp+
  then show ?thesis
    using overflow_ignores_override [of "[plainTarget ''eyes'']" "\<lambda>v. 5000" ?body ?mf] by simp
qed

end
