(* ===== verification/CompositeTiers.thy ===== *)
theory CompositeTiers
  imports ComboStructureLaws
begin

text \<open>
  The validation of composite tiers, \<open>src/lib/combos/compositeTiers.ts\<close>: which configurations of
  tiers and fallbacks are accepted, and what acceptance means for the order that
  \<open>getCompositeTierStepOrder\<close> computes at run time.
\<close>

section \<open>The validation\<close>

datatype tier_problem =
    TiersNotObject | DefaultRequired | TiersRequired | BlankName string | NotObject string | StepRequired string
  | UnknownStep string string | StepTaken string string string | SelfFallback string | DefaultMissing string
  | FallbackMissing string string | FallbackCycle "string list"

record tier_scan =
  ts_entries :: "(string, tier_entry) jmap"
  ts_owners :: "(string, string) jmap"
  ts_details :: "tier_problem list"

definition scanTier :: "string list \<Rightarrow> string \<times> json \<Rightarrow> tier_scan \<Rightarrow> tier_scan" where
  "scanTier stepIds e st =
     (case toTrimmedString (JStr (fst e)) of
        None \<Rightarrow> st\<lparr>ts_details := ts_details st @ [BlankName (fst e)]\<rparr>
      | Some tierName \<Rightarrow>
        (case snd e of
           JObj raw \<Rightarrow>
             (case toTrimmedString (field ''stepId'' raw) of
                None \<Rightarrow> st\<lparr>ts_details := ts_details st @ [StepRequired tierName]\<rparr>
              | Some stepId \<Rightarrow>
                (let fallbackTier = toTrimmedString (field ''fallbackTier'' raw);
                     previous = jget stepId (ts_owners st);
                     taken = (case previous of Some p \<Rightarrow> p \<noteq> tierName | None \<Rightarrow> False)
                 in \<lparr>ts_entries = jset tierName \<lparr>te_stepId = stepId, te_fallbackTier = fallbackTier\<rparr> (ts_entries st),
                     ts_owners = (if taken then ts_owners st else jset stepId tierName (ts_owners st)),
                     ts_details = ts_details st
                       @ (if stepId \<notin> set stepIds then [UnknownStep tierName stepId] else [])
                       @ (if taken then [StepTaken tierName stepId (the previous)] else [])
                       @ (if fallbackTier = Some tierName then [SelfFallback tierName] else [])\<rparr>))
         | _ \<Rightarrow> st\<lparr>ts_details := ts_details st @ [NotObject tierName]\<rparr>))"

text \<open>The visit of a tier; a state is \<open>True\<close> once it has been left.\<close>

function visitTier ::
  "(string, tier_entry) jmap \<Rightarrow> string list \<Rightarrow> string \<Rightarrow> (string, bool) jmap \<times> tier_problem list
   \<Rightarrow> (string, bool) jmap \<times> tier_problem list" where
  "visitTier entries path tierName st =
     (case jget tierName (fst st) of
        Some True \<Rightarrow> st
      | Some False \<Rightarrow> (fst st, snd st @ [FallbackCycle (path @ [tierName])])
      | None \<Rightarrow>
        (let st1 = (jset tierName False (fst st), snd st);
             st2 = (case jget tierName entries of
                      None \<Rightarrow> st1
                    | Some e \<Rightarrow>
                      (case te_fallbackTier e of
                         None \<Rightarrow> st1
                       | Some f \<Rightarrow>
                         if jhas f entries then visitTier entries (path @ [tierName]) f st1 else st1))
         in (jset tierName True (fst st2), snd st2)))"
  by pat_completeness auto

termination visitTier
proof (relation "measure (\<lambda>(entries, path, t, st). length (filter (\<lambda>k. k \<notin> set (jkeys (fst st))) (jkeys entries)))", goal_cases)
  case (2 entries path t st st1 e f)
  have "filter (\<lambda>k. k \<notin> set (jkeys (jset t False (fst st)))) ks
      = filter (\<lambda>k. k \<notin> set (t # jkeys (fst st))) ks" for ks
    by (rule filter_cong) (auto simp: jkeys_jset)
  moreover have "t \<notin> set (jkeys (fst st))" using 2(1) by (simp add: jget_None_iff)
  ultimately show ?case using fresh_key_shorter [OF 2(3), of "jkeys (fst st)"] 2(2) by simp
qed simp

declare visitTier.simps [simp del]

definition validateCompositeTiersConfig :: "json_object \<Rightarrow> tier_problem list" where
  "validateCompositeTiersConfig combo =
     (case field ''config'' combo of
        JObj config \<Rightarrow>
          (case field ''compositeTiers'' config of
             JUndefined \<Rightarrow> []
           | JNull \<Rightarrow> []
           | JObj ct \<Rightarrow>
             (let defaultTier = toTrimmedString (field ''defaultTier'' ct);
                  missing = (if defaultTier = None then [DefaultRequired] else []);
                  tiers = asRecord (field ''tiers'' ct)
              in if tiers = [] then missing @ [TiersRequired]
                 else (let stepIds = List.map_filter (\<lambda>s. toTrimmedString (JStr (case s of ModelStep m \<Rightarrow> ms_id m | RefStep r \<Rightarrow> rs_id r)))
                             (normalizeComboModels (field ''models'' combo)
                                (case toTrimmedString (field ''name'' combo) of Some n \<Rightarrow> JStr n | None \<Rightarrow> JNull) []);
                           scan = fold (scanTier stepIds) tiers
                                    \<lparr>ts_entries = [], ts_owners = [], ts_details = missing\<rparr>;
                           entries = ts_entries scan;
                           dflt = (case defaultTier of
                                     Some d \<Rightarrow> if jhas d entries then [] else [DefaultMissing d]
                                   | None \<Rightarrow> []);
                           fallbacks = concat (map (\<lambda>(t, e). case te_fallbackTier e of
                                                      Some f \<Rightarrow> if jhas f entries then [] else [FallbackMissing t f]
                                                    | None \<Rightarrow> []) entries)
                       in snd (fold (visitTier entries []) (jkeys entries) ([], ts_details scan @ dflt @ fallbacks))))
           | _ \<Rightarrow> [TiersNotObject])
      | _ \<Rightarrow> [])"

section \<open>The scan\<close>

lemma scan_details: "\<exists>ds. ts_details (fold (scanTier ids) es st) = ts_details st @ ds"
proof (induction es arbitrary: st)
  case (Cons e es)
  have "\<exists>ds. ts_details (scanTier ids e st) = ts_details st @ ds"
    by (auto simp: scanTier_def Let_def split: option.split json.split)
  then show ?case using Cons [of "scanTier ids e st"] by fastforce
qed simp

text \<open>Without a problem the scan collects what the runtime collects, and every step is known and owned once.\<close>

definition scanned :: "string list \<Rightarrow> tier_scan \<Rightarrow> bool" where
  "scanned ids st \<longleftrightarrow>
     (\<forall>t e. jget t (ts_entries st) = Some e \<longrightarrow> te_stepId e \<in> set ids \<and> te_fallbackTier e \<noteq> Some t
            \<and> jget (te_stepId e) (ts_owners st) = Some t)"

lemma scan_tier:
  assumes "ts_details (scanTier ids e st) = []" and "scanned ids st"
  shows "scanned ids (scanTier ids e st)"
    and "\<exists>k v. tierEntry e = Some (k, v) \<and> ts_entries (scanTier ids e st) = jset k v (ts_entries st)"
proof -
  obtain k where k: "toTrimmedString (JStr (fst e)) = Some k"
    using assms(1) by (cases "toTrimmedString (JStr (fst e))") (simp_all add: scanTier_def)
  obtain raw where raw: "snd e = JObj raw"
    using assms(1) k by (cases "snd e") (simp_all add: scanTier_def)
  obtain s where s: "toTrimmedString (field ''stepId'' raw) = Some s"
    using assms(1) k raw by (cases "toTrimmedString (field ''stepId'' raw)") (simp_all add: scanTier_def)
  define f where "f = toTrimmedString (field ''fallbackTier'' raw)"
  have d: "s \<in> set ids" "f \<noteq> Some k" "case jget s (ts_owners st) of Some p \<Rightarrow> p = k | None \<Rightarrow> True"
    using assms(1) k raw s by (auto simp: scanTier_def Let_def f_def split: if_splits option.splits)
  then have st': "scanTier ids e st = \<lparr>ts_entries = jset k \<lparr>te_stepId = s, te_fallbackTier = f\<rparr> (ts_entries st),
      ts_owners = jset s k (ts_owners st), ts_details = ts_details st\<rparr>"
    using k raw s by (auto simp: scanTier_def Let_def f_def split: option.splits)
  show "\<exists>k v. tierEntry e = Some (k, v) \<and> ts_entries (scanTier ids e st) = jset k v (ts_entries st)"
    unfolding st' using k raw s by (simp add: tierEntry_def f_def)
  show "scanned ids (scanTier ids e st)"
    unfolding st' scanned_def using assms(2) d by (auto simp: scanned_def split: option.splits if_splits)
qed

lemma scan_all:
  assumes "ts_details (fold (scanTier ids) es st) = []" and "scanned ids st"
  shows "scanned ids (fold (scanTier ids) es st)
    \<and> ts_entries (fold (scanTier ids) es st) = fold (\<lambda>(k, v). jset k v) (List.map_filter tierEntry es) (ts_entries st)"
  using assms
proof (induction es arbitrary: st)
  case (Cons e es)
  have "ts_details (scanTier ids e st) = []" using Cons.prems(1) scan_details [of ids es "scanTier ids e st"] by auto
  note one = scan_tier [OF this Cons.prems(2)]
  obtain k v where kv: "tierEntry e = Some (k, v)" "ts_entries (scanTier ids e st) = jset k v (ts_entries st)"
    using one(2) by blast
  show ?case using Cons.IH [OF _ one(1)] Cons.prems(1) kv by (simp add: List.map_filter_simps)
qed (simp add: List.map_filter_simps)

section \<open>The visits\<close>

text \<open>The chain of fallbacks from a tier, to its end.\<close>

inductive followed :: "(string, tier_entry) jmap \<Rightarrow> string \<Rightarrow> string list \<Rightarrow> bool" for entries where
  "jget t entries = Some e \<Longrightarrow> te_fallbackTier e = None \<Longrightarrow> followed entries t [t]"
| "jget t entries = Some e \<Longrightarrow> te_fallbackTier e = Some f \<Longrightarrow> followed entries f ts \<Longrightarrow> followed entries t (t # ts)"

inductive_cases followedE: "followed entries t ts"

lemma followed_unique: "followed entries t ts \<Longrightarrow> followed entries t us \<Longrightarrow> us = ts"
proof (induction arbitrary: us rule: followed.induct)
  case (1 t e)
  from 1(3) show ?case by (rule followedE) (use 1(1,2) in simp_all)
next
  case (2 t e f ts)
  from 2(5) show ?case by (rule followedE) (use 2(1,2,4) in simp_all)
qed

lemma followed_suffix: "followed entries t ts \<Longrightarrow> u \<in> set ts \<Longrightarrow> \<exists>us vs. ts = us @ vs \<and> followed entries u vs"
proof (induction rule: followed.induct)
  case (1 t e)
  then show ?case using followed.intros(1) [OF 1(1,2)] by (intro exI [of _ "[]"] exI [of _ "[t]"]) simp
next
  case (2 t e f ts)
  show ?case
  proof (cases "u = t")
    case True
    then show ?thesis using followed.intros(2) [OF 2(1-3)] by (intro exI [of _ "[]"] exI [of _ "t # ts"]) simp
  next
    case False
    then obtain us vs where "ts = us @ vs" "followed entries u vs" using 2 by auto
    then show ?thesis by (intro exI [of _ "t # us"] exI [of _ vs]) simp
  qed
qed

lemma followed_distinct: "followed entries t ts \<Longrightarrow> distinct ts"
proof (induction rule: followed.induct)
  case (2 t e f ts)
  have "t \<notin> set ts"
  proof
    assume "t \<in> set ts"
    then obtain us vs where s: "ts = us @ vs" "followed entries t vs" using followed_suffix [OF 2(3)] by blast
    then have "vs = t # ts" using followed_unique [OF followed.intros(2) [OF 2(1-3)]] by simp
    then show False using s(1) by simp
  qed
  then show ?case using 2 by simp
qed simp

lemma followed_known: "followed entries t ts \<Longrightarrow> u \<in> set ts \<Longrightarrow> jget u entries \<noteq> None"
  by (induction rule: followed.induct) auto

definition leftEnds :: "(string, tier_entry) jmap \<Rightarrow> (string, bool) jmap \<Rightarrow> bool" where
  "leftEnds entries vs \<longleftrightarrow> (\<forall>t. jget t vs = Some True \<longrightarrow> (\<exists>ts. followed entries t ts))"

lemma visit_details: "\<exists>ds. snd (visitTier entries path t st) = snd st @ ds"
proof (induction entries path t st rule: visitTier.induct)
  case (1 entries path t st)
  show ?case
  proof (cases "jget t (fst st) = None")
    case True
    then show ?thesis using 1 [OF True refl]
      by (subst visitTier.simps) (auto simp: Let_def split: option.splits)
  next
    case False
    then show ?thesis by (subst visitTier.simps) (auto split: option.splits bool.splits)
  qed
qed

lemma visit_ends:
  assumes "snd (visitTier entries path t st) = []" and "leftEnds entries (fst st)" and "jget t entries \<noteq> None"
    and "\<And>u e f. jget u entries = Some e \<Longrightarrow> te_fallbackTier e = Some f \<Longrightarrow> jhas f entries"
  shows "leftEnds entries (fst (visitTier entries path t st)) \<and> jget t (fst (visitTier entries path t st)) = Some True"
  using assms
proof (induction entries path t st rule: visitTier.induct)
  case (1 entries path t st)
  consider "jget t (fst st) = Some True" | "jget t (fst st) = Some False" | "jget t (fst st) = None"
    by (cases "jget t (fst st)") auto
  then show ?case
  proof cases
    case 1
    then show ?thesis using "1.prems"(2) by (simp add: visitTier.simps [of entries path t st])
  next
    case 2
    then show ?thesis using "1.prems"(1) by (simp add: visitTier.simps [of entries path t st])
  next
    case 3
    obtain e where e: "jget t entries = Some e" using "1.prems"(3) by blast
    let ?st1 = "(jset t False (fst st), snd st)"
    have l1: "leftEnds entries (fst ?st1)" using "1.prems"(2) by (simp add: leftEnds_def)
    show ?thesis
    proof (cases "te_fallbackTier e")
      case None
      then show ?thesis using l1 e followed.intros(1) [OF e None]
        by (auto simp: visitTier.simps [of entries path t st] 3 leftEnds_def)
    next
      case (Some f)
      have f: "jhas f entries" using "1.prems"(4) [OF e Some] .
      let ?st2 = "visitTier entries (path @ [t]) f ?st1"
      have v: "visitTier entries path t st = (jset t True (fst ?st2), snd ?st2)"
        by (simp add: visitTier.simps [of entries path t st] 3 e Some f Let_def)
      have IH: "leftEnds entries (fst ?st2) \<and> jget f (fst ?st2) = Some True"
      proof (rule "1.IH" [OF 3 refl e Some f])
        show "snd ?st2 = []" using "1.prems"(1) by (simp add: v)
        show "jget f entries \<noteq> None" using f by (simp add: jhas_def)
      qed (use l1 "1.prems"(4) in auto)
      then obtain ts where "followed entries f ts" by (auto simp: leftEnds_def)
      then have "followed entries t (t # ts)" by (rule followed.intros(2) [OF e Some])
      then show ?thesis using IH by (auto simp: v leftEnds_def)
    qed
  qed
qed

lemma visits_end:
  assumes "snd (fold (visitTier entries []) ts st) = []" and "leftEnds entries (fst st)"
    and "\<And>t. t \<in> set ts \<Longrightarrow> jget t entries \<noteq> None"
    and "\<And>u e f. jget u entries = Some e \<Longrightarrow> te_fallbackTier e = Some f \<Longrightarrow> jhas f entries"
  shows "\<forall>t \<in> set ts. \<exists>xs. followed entries t xs"
  using assms(1-3)
proof (induction ts arbitrary: st)
  case (Cons t ts)
  have more: "\<exists>ds. snd (fold (visitTier entries []) us st) = snd st @ ds" for us st
  proof (induction us arbitrary: st)
    case (Cons u us)
    obtain ds where "snd (visitTier entries [] u st) = snd st @ ds" using visit_details by blast
    then show ?case using Cons [of "visitTier entries [] u st"] by auto
  qed simp
  have "snd (visitTier entries [] t st) = []" using Cons.prems(1) more [of ts "visitTier entries [] t st"] by auto
  then have v: "leftEnds entries (fst (visitTier entries [] t st))" "jget t (fst (visitTier entries [] t st)) = Some True"
    using visit_ends [of entries "[]" t st] Cons.prems(2) Cons.prems(3) [of t] assms(4) by simp_all
  then have "\<exists>xs. followed entries t xs" by (auto simp: leftEnds_def)
  then show ?case using Cons.IH [OF _ v(1)] Cons.prems(1,3) by simp
qed simp

section \<open>The chain at run time\<close>

lemma tierChain_followed:
  assumes "followed entries t ts" and "set ts \<inter> set visited = {}" and "distinct ts"
  shows "tierChain entries visited ids (Some t)
    = fold (\<lambda>t. pushStep (te_stepId (the (jget t entries)))) ts ids"
  using assms
proof (induction arbitrary: visited ids rule: followed.induct)
  case (1 t e)
  then show ?case by (simp add: tierChain.simps [of entries visited ids "Some t"] tierChain.simps [of entries _ _ None])
next
  case (2 t e f ts)
  then show ?case by (simp add: tierChain.simps [of entries visited ids "Some t"])
qed

lemma push_fresh:
  "distinct (map g ts) \<Longrightarrow> set (map g ts) \<inter> set ids = {} \<Longrightarrow> fold (\<lambda>t. pushStep (g t)) ts ids = ids @ map g ts"
  by (induction ts arbitrary: ids) (auto simp: pushStep_def)

lemma push_all: "set (fold (\<lambda>t. pushStep (g t)) ts ids) = set ids \<union> g ` set ts"
  by (induction ts arbitrary: ids) (auto simp: pushStep_facts)

lemma push_extends: "\<exists>rest. fold (\<lambda>t. pushStep (g t)) ts ids = ids @ rest"
proof (induction ts arbitrary: ids)
  case (Cons t ts)
  obtain one where one: "pushStep (g t) ids = ids @ one" by (cases "g t \<in> set ids") (simp_all add: pushStep_def)
  obtain rest where "fold (\<lambda>t. pushStep (g t)) ts (pushStep (g t) ids) = pushStep (g t) ids @ rest" using Cons by blast
  then show ?case by (simp add: one)
qed simp

text \<open>
  An accepted configuration, in the terms of the runtime: the default tier has a chain of fallbacks that ends,
  the order starts with the steps of the chain, and it names exactly the steps of the tiers.
\<close>

definition tiersOf :: "json_object \<Rightarrow> (string, tier_entry) jmap" where
  "tiersOf ct = mapOfEntries (List.map_filter tierEntry (asRecord (field ''tiers'' ct)))"

definition comboStepIds :: "json_object \<Rightarrow> string list" where
  "comboStepIds combo =
     List.map_filter (\<lambda>s. toTrimmedString (JStr (case s of ModelStep m \<Rightarrow> ms_id m | RefStep r \<Rightarrow> rs_id r)))
       (normalizeComboModels (field ''models'' combo)
          (case toTrimmedString (field ''name'' combo) of Some n \<Rightarrow> JStr n | None \<Rightarrow> JNull) [])"

lemma tier_map_inv: "jinv (fold (\<lambda>(k, v). jset k v) es m)" if "jinv m" for m :: "('k, 'v) jmap"
  using that by (induction es arbitrary: m) auto

lemma visits_details: "\<exists>ds. snd (fold (visitTier entries []) ts st) = snd st @ ds"
proof (induction ts arbitrary: st)
  case (Cons t ts)
  obtain one where one: "snd (visitTier entries [] t st) = snd st @ one" using visit_details by blast
  obtain rest where "snd (fold (visitTier entries []) ts (visitTier entries [] t st)) = snd (visitTier entries [] t st) @ rest"
    using Cons by blast
  then show ?case by (simp add: one)
qed simp

lemma accepted_tiers:
  assumes "validateCompositeTiersConfig combo = []"
    and "field ''config'' combo = JObj config" and "field ''compositeTiers'' config = JObj ct"
  obtains d where "toTrimmedString (field ''defaultTier'' ct) = Some d" and "jget d (tiersOf ct) \<noteq> None"
    and "\<And>t e. jget t (tiersOf ct) = Some e \<Longrightarrow> te_stepId e \<in> set (comboStepIds combo)"
    and "\<And>t u e f. jget t (tiersOf ct) = Some e \<Longrightarrow> jget u (tiersOf ct) = Some f \<Longrightarrow> te_stepId e = te_stepId f \<Longrightarrow> t = u"
    and "\<And>t. jget t (tiersOf ct) \<noteq> None \<Longrightarrow> \<exists>ts. followed (tiersOf ct) t ts"
    and "asRecord (field ''tiers'' ct) \<noteq> []"
proof -
  define tiers where "tiers = asRecord (field ''tiers'' ct)"
  define dt where "dt = toTrimmedString (field ''defaultTier'' ct)"
  define missing where "missing = (if dt = None then [DefaultRequired] else [])"
  define st0 where "st0 = \<lparr>ts_entries = [], ts_owners = [], ts_details = missing\<rparr>"
  define scan where "scan = fold (scanTier (comboStepIds combo)) tiers st0"
  define entries where "entries = ts_entries scan"
  define dflt where "dflt = (case dt of Some d \<Rightarrow> if jhas d entries then [] else [DefaultMissing d] | None \<Rightarrow> [])"
  define fallbacks where "fallbacks = concat (map (\<lambda>(t, e). case te_fallbackTier e of
      Some f \<Rightarrow> if jhas f entries then [] else [FallbackMissing t f] | None \<Rightarrow> []) entries)"
  have v: "(if tiers = [] then missing @ [TiersRequired]
      else snd (fold (visitTier entries []) (jkeys entries) ([], ts_details scan @ dflt @ fallbacks))) = []"
    using assms(1) unfolding validateCompositeTiersConfig_def assms(2,3) json.case Let_def
      comboStepIds_def [symmetric] tiers_def [symmetric] dt_def [symmetric] missing_def [symmetric]
      st0_def [symmetric] scan_def [symmetric] entries_def [symmetric] dflt_def [symmetric] fallbacks_def [symmetric] .
  then have ne: "tiers \<noteq> []"
    and vs: "snd (fold (visitTier entries []) (jkeys entries) ([], ts_details scan @ dflt @ fallbacks)) = []"
    by (simp_all split: if_splits)
  have clean: "ts_details scan = []" "dflt = []" "fallbacks = []"
    using visits_details [of entries "jkeys entries" "([], ts_details scan @ dflt @ fallbacks)"] vs by auto
  have "missing = []" using scan_details [of "comboStepIds combo" tiers st0] clean(1) by (auto simp: scan_def st0_def)
  then obtain d where d: "dt = Some d" by (auto simp: missing_def split: if_splits)
  have s0: "scanned (comboStepIds combo) st0" "ts_entries st0 = []" by (simp_all add: scanned_def st0_def)
  have sc: "scanned (comboStepIds combo) scan" "entries = tiersOf ct"
    using scan_all [OF _ s0(1), of tiers, folded scan_def] clean(1) s0(2)
    by (simp_all add: entries_def tiersOf_def mapOfEntries_def tiers_def)
  have inv: "jinv entries" unfolding sc(2) tiersOf_def mapOfEntries_def by (simp add: tier_map_inv)
  have fb: "jhas f entries" if "jget u entries = Some e" "te_fallbackTier e = Some f" for u e f
    using clean(3) that inv by (force simp: fallbacks_def jget_eq_Some_iff split: option.splits if_splits)
  have "\<forall>t \<in> set (jkeys entries). \<exists>xs. followed entries t xs"
  proof (rule visits_end)
    show "snd (fold (visitTier entries []) (jkeys entries) ([], [])) = []" using vs clean by simp
  qed (use fb in \<open>auto simp: leftEnds_def jget_None_iff\<close>)
  then have ends: "\<exists>ts. followed entries t ts" if "jget t entries \<noteq> None" for t
    using that by (simp add: jget_None_iff)
  have "jget d entries \<noteq> None" using clean(2) d by (simp add: dflt_def jhas_def split: if_splits)
  then show thesis
    using that [of d] d ends ne sc(1) unfolding scanned_def sc(2) entries_def [symmetric] dt_def tiers_def
    by (metis option.inject)
qed

lemma accepted_order:
  assumes "validateCompositeTiersConfig combo = []"
    and "field ''config'' combo = JObj config" and "field ''compositeTiers'' config = JObj ct"
  shows "\<exists>d ts rest. toTrimmedString (field ''defaultTier'' ct) = Some d \<and> followed (tiersOf ct) d ts
    \<and> getCompositeTierStepOrder (toComboLike combo) = map (\<lambda>t. te_stepId (the (jget t (tiersOf ct)))) ts @ rest
    \<and> set (getCompositeTierStepOrder (toComboLike combo)) = te_stepId ` snd ` set (tiersOf ct)
    \<and> set (getCompositeTierStepOrder (toComboLike combo)) \<subseteq> set (comboStepIds combo)"
proof -
  let ?m = "tiersOf ct" and ?step = "\<lambda>t. te_stepId (the (jget t (tiersOf ct)))"
  from accepted_tiers [OF assms] obtain d where
    d: "toTrimmedString (field ''defaultTier'' ct) = Some d" "jget d ?m \<noteq> None"
    and ids: "\<And>t e. jget t ?m = Some e \<Longrightarrow> te_stepId e \<in> set (comboStepIds combo)"
    and once: "\<And>t u e f. jget t ?m = Some e \<Longrightarrow> jget u ?m = Some f \<Longrightarrow> te_stepId e = te_stepId f \<Longrightarrow> t = u"
    and ends: "\<And>t. jget t ?m \<noteq> None \<Longrightarrow> \<exists>ts. followed ?m t ts"
    and ne: "asRecord (field ''tiers'' ct) \<noteq> []" by blast
  obtain tiers where tiers: "field ''tiers'' ct = JObj tiers" using ne by (cases "field ''tiers'' ct") simp_all
  obtain ts where ts: "followed ?m d ts" using ends [OF d(2)] by blast
  have inv: "jinv ?m" unfolding tiersOf_def mapOfEntries_def by (simp add: tier_map_inv)
  have inj: "distinct (map ?step ts)"
    unfolding distinct_map
  proof (intro conjI inj_onI)
    fix t u assume t: "t \<in> set ts" and u: "u \<in> set ts" and eq: "?step t = ?step u"
    obtain e f where "jget t ?m = Some e" "jget u ?m = Some f"
      using followed_known [OF ts t] followed_known [OF ts u] by blast
    then show "t = u" using once eq by simp
  qed (rule followed_distinct [OF ts])
  have chain: "tierChain ?m [] [] (Some d) = map ?step ts"
    using tierChain_followed [OF ts _ followed_distinct [OF ts], of "[]" "[]"] push_fresh [of ?step ts "[]"] inj by simp
  have order: "getCompositeTierStepOrder (toComboLike combo) = fold (\<lambda>p. pushStep (te_stepId (snd p))) ?m (map ?step ts)"
    using d(1) chain
    by (simp add: getCompositeTierStepOrder_def toComboLike_def assms(2,3) tiers tiersOf_def Let_def case_prod_beta')
  have names: "set (map ?step ts) \<subseteq> te_stepId ` snd ` set ?m"
  proof
    fix s assume "s \<in> set (map ?step ts)"
    then obtain t where t: "t \<in> set ts" "s = ?step t" by auto
    then obtain e where "jget t ?m = Some e" using followed_known [OF ts] by blast
    then show "s \<in> te_stepId ` snd ` set ?m" using t(2) jget_in_set [of t ?m e] by force
  qed
  have all: "set (getCompositeTierStepOrder (toComboLike combo)) = te_stepId ` snd ` set ?m"
    unfolding order push_all using names by auto
  have known: "te_stepId ` snd ` set ?m \<subseteq> set (comboStepIds combo)"
    using ids inv by (auto simp: jget_eq_Some_iff)
  obtain rest where "getCompositeTierStepOrder (toComboLike combo) = map ?step ts @ rest"
    using push_extends [of "\<lambda>p. te_stepId (snd p)" ?m "map ?step ts"] unfolding order by blast
  then show ?thesis using d(1) ts all known by blast
qed

text \<open>
  The validation of composite tiers delivers what the runtime order needs: when it reports no problem, the
  fallbacks from the default tier form a chain that ends, the computed order starts with the steps of that chain in
  the chain's order, mentions the steps of all the tiers and nothing else, each once, and every one of them is a
  step of the combo.
\<close>

theorem validated_tiers_run:
  assumes "validateCompositeTiersConfig combo = []"
    and "field ''config'' combo = JObj config" and "field ''compositeTiers'' config = JObj ct"
  shows "\<exists>d ts rest. toTrimmedString (field ''defaultTier'' ct) = Some d \<and> followed (tiersOf ct) d ts
    \<and> getCompositeTierStepOrder (toComboLike combo) = map (\<lambda>t. te_stepId (the (jget t (tiersOf ct)))) ts @ rest
    \<and> distinct (getCompositeTierStepOrder (toComboLike combo))
    \<and> set (getCompositeTierStepOrder (toComboLike combo)) = te_stepId ` snd ` set (tiersOf ct)
    \<and> set (getCompositeTierStepOrder (toComboLike combo)) \<subseteq> set (comboStepIds combo)"
  using accepted_order [OF assms] tierOrder_distinct [of "toComboLike combo"] by blast

text \<open>A combo of two steps, the default tier falling back to the other.\<close>

definition exampleTiers :: json_object where
  "exampleTiers =
     [(''defaultTier'', JStr ''high''),
      (''tiers'', JObj [(''low'', JObj [(''stepId'', JStr ''s1'')]),
                        (''high'', JObj [(''stepId'', JStr ''s2''), (''fallbackTier'', JStr ''low'')])])]"

definition tieredCombo :: json_object where
  "tieredCombo =
     [(''name'', JStr ''c''),
      (''models'', JArr [JObj [(''id'', JStr ''s1''), (''model'', JStr ''p/a'')],
                         JObj [(''id'', JStr ''s2''), (''model'', JStr ''p/b'')]]),
      (''config'', JObj [(''compositeTiers'', JObj exampleTiers)])]"

theorem validated_tiers_run_witness:
  "getCompositeTierStepOrder (toComboLike tieredCombo) = [''s2'', ''s1'']
   \<and> set (getCompositeTierStepOrder (toComboLike tieredCombo)) \<subseteq> set (comboStepIds tieredCombo)"
proof -
  have o: "getCompositeTierStepOrder (toComboLike tieredCombo) = [''s2'', ''s1'']"
    and v: "validateCompositeTiersConfig tieredCombo = []" by code_simp+
  have f: "field ''config'' tieredCombo = JObj [(''compositeTiers'', JObj exampleTiers)]"
    "field ''compositeTiers'' [(''compositeTiers'', JObj exampleTiers)] = JObj exampleTiers" by (simp_all add: tieredCombo_def)
  show ?thesis using validated_tiers_run [OF v f] o by blast
qed

end
