(* ===== verification/RateLimitSemaphore.thy ===== *)
theory RateLimitSemaphore
  imports SlotGate
begin

text \<open>
  The per-model concurrency limiter of \<open>open-sse/services/rateLimitSemaphore.ts\<close> and its client
  \<open>open-sse/services/combo/quotaShareConcurrency.ts\<close>.

  Unlike the account semaphore, the closures of this module keep the gate object itself: the
  queue timer of a call and the timer of \<open>markRateLimited\<close> act on the object they captured,
  even when the map holds another object for the model by then. So the gates live in a heap
  of addresses and the map goes from models to addresses.
\<close>

section \<open>State\<close>

record model_gate =
  mg_running :: int
  mg_max :: int
  mg_queue :: "nat list"
  mg_rateLimitedUntil :: "int option"

datatype rl_outcome = RlGranted | RlTimedOut | RlQueueFull | RlReset

record rl_state =
  rl_gates :: "(string, nat) jmap"
  rl_heap :: "(nat, model_gate) jmap"
  rl_next :: nat
  rl_held :: "(nat \<times> string) list"
  rl_timers :: "(nat \<times> nat) list"
  rl_marks :: "(nat \<times> string) list"
  rl_settled :: "(nat \<times> rl_outcome) list"

definition rlEmpty :: rl_state where
  "rlEmpty = \<lparr>rl_gates = [], rl_heap = [], rl_next = 0, rl_held = [], rl_timers = [],
     rl_marks = [], rl_settled = []\<rparr>"

definition gateAt :: "nat \<Rightarrow> rl_state \<Rightarrow> model_gate" where
  "gateAt a s = the (jget a (rl_heap s))"

definition writeGate :: "nat \<Rightarrow> model_gate \<Rightarrow> rl_state \<Rightarrow> rl_state" where
  "writeGate a g s = s\<lparr>rl_heap := jset a g (rl_heap s)\<rparr>"

definition rlSettle :: "nat \<Rightarrow> rl_outcome \<Rightarrow> rl_state \<Rightarrow> rl_state" where
  "rlSettle i r s = s\<lparr>rl_settled := rl_settled s @ [(i, r)]\<rparr>"

section \<open>Gates\<close>

text \<open>The address of the gate and the state; a new gate takes the next number as address.\<close>

definition getGate :: "string \<Rightarrow> int \<Rightarrow> rl_state \<Rightarrow> nat \<times> rl_state" where
  "getGate m c s =
     (case jget m (rl_gates s) of
        Some a \<Rightarrow> (a, writeGate a ((gateAt a s)\<lparr>mg_max := c\<rparr>) s)
      | None \<Rightarrow>
        (let a = rl_next s
         in (a, writeGate a \<lparr>mg_running = 0, mg_max = c, mg_queue = [], mg_rateLimitedUntil = None\<rparr>
                  (s\<lparr>rl_gates := jset m a (rl_gates s), rl_next := Suc a\<rparr>))))"

definition isRateLimited :: "int \<Rightarrow> model_gate \<Rightarrow> bool" where
  "isRateLimited now g \<longleftrightarrow>
     \<not> falsy_num (mg_rateLimitedUntil g) \<and> \<not> the (mg_rateLimitedUntil g) \<le> now"

definition clearLimit :: "int \<Rightarrow> model_gate \<Rightarrow> model_gate" where
  "clearLimit now g =
     (if falsy_num (mg_rateLimitedUntil g) \<or> isRateLimited now g then g
      else g\<lparr>mg_rateLimitedUntil := None\<rparr>)"

section \<open>Draining\<close>

definition shiftQueue :: "int \<Rightarrow> model_gate \<Rightarrow> model_gate" where
  "shiftQueue now g =
     (let g1 = clearLimit now g in g1\<lparr>mg_queue := tl (mg_queue g1), mg_running := mg_running g1 + 1\<rparr>)"

function drainLoop :: "int \<Rightarrow> model_gate \<Rightarrow> model_gate \<times> nat list" where
  "drainLoop now g =
     (if mg_queue g \<noteq> [] \<and> mg_running g < mg_max g \<and> \<not> isRateLimited now g
      then (let (g', ws) = drainLoop now (shiftQueue now g) in (g', hd (mg_queue g) # ws))
      else (g, []))"
  by pat_completeness auto
termination
  by (relation "measure (\<lambda>(now, g). length (mg_queue g))")
     (auto simp: shiftQueue_def clearLimit_def Let_def)

declare drainLoop.simps [simp del]

text \<open>Every admitted call loses its timer, gets a release function and resolves.\<close>

definition resolveAll :: "string \<Rightarrow> nat list \<Rightarrow> rl_state \<Rightarrow> rl_state" where
  "resolveAll m ws s =
     s\<lparr>rl_timers := filter (\<lambda>t. fst t \<notin> set ws) (rl_timers s),
       rl_held := rl_held s @ map (\<lambda>i. (i, m)) ws,
       rl_settled := rl_settled s @ map (\<lambda>i. (i, RlGranted)) ws\<rparr>"

definition dropIfIdle :: "string \<Rightarrow> model_gate \<Rightarrow> rl_state \<Rightarrow> rl_state" where
  "dropIfIdle m g s =
     (if mg_running g = 0 \<and> mg_queue g = [] then s\<lparr>rl_gates := jdel m (rl_gates s)\<rparr> else s)"

definition rlDrainQueue :: "int \<Rightarrow> string \<Rightarrow> rl_state \<Rightarrow> rl_state" where
  "rlDrainQueue now m s =
     (case jget m (rl_gates s) of
        None \<Rightarrow> s
      | Some a \<Rightarrow>
        (let (g, ws) = drainLoop now (gateAt a s)
         in dropIfIdle m g (resolveAll m ws (writeGate a g s))))"

section \<open>Operations\<close>

definition rlRelease :: "int \<Rightarrow> nat \<times> string \<Rightarrow> rl_state \<Rightarrow> rl_state" where
  "rlRelease now t s0 =
     (if t \<notin> set (rl_held s0) then s0
      else let s = s0\<lparr>rl_held := removeAll t (rl_held s0)\<rparr>; m = snd t
           in (case jget m (rl_gates s) of
                 None \<Rightarrow> s
               | Some a \<Rightarrow>
                 (let g = gateAt a s
                  in if 0 < mg_running g
                     then (let g1 = g\<lparr>mg_running := mg_running g - 1\<rparr>; s1 = writeGate a g1 s
                           in if mg_running g1 = 0 \<and> mg_queue g1 = []
                              then s1\<lparr>rl_gates := jdel m (rl_gates s1)\<rparr>
                              else rlDrainQueue now m s1)
                     else s)))"

text \<open>\<open>maxQueueSize\<close> is \<open>None\<close> when it is not a number; a negative one means no bound.\<close>

definition queueFull :: "int option \<Rightarrow> model_gate \<Rightarrow> bool" where
  "queueFull mq g \<longleftrightarrow> (case mq of None \<Rightarrow> False | Some q \<Rightarrow> 0 \<le> q \<and> q \<le> int (length (mg_queue g)))"

definition rlAcquire :: "int \<Rightarrow> string \<Rightarrow> int \<Rightarrow> int option \<Rightarrow> rl_state \<Rightarrow> nat \<times> rl_state" where
  "rlAcquire now m c mq s0 =
     (let i = rl_next s0; (a, s) = getGate m c (s0\<lparr>rl_next := Suc i\<rparr>); g = gateAt a s
      in if mg_running g < mg_max g \<and> \<not> isRateLimited now g
         then (i, resolveAll m [i] (writeGate a ((clearLimit now g)\<lparr>mg_running := mg_running g + 1\<rparr>) s))
         else if queueFull mq g
         then (i, rlSettle i RlQueueFull (dropIfIdle m g s))
         else (i, (writeGate a (g\<lparr>mg_queue := mg_queue g @ [i]\<rparr>) s)\<lparr>rl_timers := rl_timers s @ [(i, a)]\<rparr>))"

definition rlOnTimeout :: "nat \<times> nat \<Rightarrow> rl_state \<Rightarrow> rl_state" where
  "rlOnTimeout t s =
     (if t \<notin> set (rl_timers s) then s
      else let g = gateAt (snd t) s
           in rlSettle (fst t) RlTimedOut
                (writeGate (snd t) (g\<lparr>mg_queue := removeAll (fst t) (mg_queue g)\<rparr>)
                   (s\<lparr>rl_timers := removeAll t (rl_timers s)\<rparr>)))"

text \<open>\<open>getGate\<close> is called with its default capacity 3.\<close>

definition markRateLimited :: "int \<Rightarrow> string \<Rightarrow> int \<Rightarrow> rl_state \<Rightarrow> rl_state" where
  "markRateLimited now m cooldownMs s =
     (let (a, s1) = getGate m 3 s
      in (writeGate a ((gateAt a s1)\<lparr>mg_rateLimitedUntil := Some (now + cooldownMs)\<rparr>) s1)
           \<lparr>rl_marks := rl_marks s1 @ [(a, m)]\<rparr>)"

definition onLimitTimer :: "int \<Rightarrow> nat \<times> string \<Rightarrow> rl_state \<Rightarrow> rl_state" where
  "onLimitTimer now t s0 =
     (if t \<notin> set (rl_marks s0) then s0
      else let s = s0\<lparr>rl_marks := remove1 t (rl_marks s0)\<rparr>; g = gateAt (fst t) s
           in if \<not> falsy_num (mg_rateLimitedUntil g) \<and> the (mg_rateLimitedUntil g) \<le> now
              then rlDrainQueue now (snd t) (writeGate (fst t) (g\<lparr>mg_rateLimitedUntil := None\<rparr>) s)
              else s)"

definition rlGetStats :: "rl_state \<Rightarrow> (string \<times> int \<times> nat \<times> int \<times> int option) list" where
  "rlGetStats s = map (\<lambda>(m, a). let g = gateAt a s in
     (m, mg_running g, length (mg_queue g), mg_max g,
      if falsy_num (mg_rateLimitedUntil g) then None else mg_rateLimitedUntil g)) (rl_gates s)"

definition rlResetAll :: "rl_state \<Rightarrow> rl_state" where
  "rlResetAll s =
     (let ws = concat (map (\<lambda>(m, a). mg_queue (gateAt a s)) (rl_gates s))
      in s\<lparr>rl_timers := filter (\<lambda>t. fst t \<notin> set ws) (rl_timers s),
           rl_settled := rl_settled s @ map (\<lambda>i. (i, RlReset)) ws,
           rl_gates := []\<rparr>)"

section \<open>The quota-share client\<close>

definition quotaShareConcurrencyKey :: "string \<Rightarrow> string" where
  "quotaShareConcurrencyKey c = ''qsconn:'' @ c"

text \<open>
  The request starts waiting: \<open>None\<close> when no limit applies (it runs without a slot), the
  number of the call otherwise. The awaited promise then either gave a release function or
  was rejected, and the rejection is swallowed.
\<close>

definition quotaShareBegin ::
  "int \<Rightarrow> string option \<Rightarrow> int option \<Rightarrow> int \<Rightarrow> rl_state \<Rightarrow> nat option \<times> rl_state" where
  "quotaShareBegin now connectionId cap mq s =
     (case (nullish connectionId '''', cap) of
        ('''', _) \<Rightarrow> (None, s)
      | (_, None) \<Rightarrow> (None, s)
      | (conn, Some c) \<Rightarrow>
        (if c \<le> 0 then (None, s)
         else let (i, s') = rlAcquire now (quotaShareConcurrencyKey conn) c (Some mq) s in (Some i, s')))"

datatype slot_result = Waiting | Slot nat | NoSlot

definition quotaShareEnd :: "nat option \<Rightarrow> rl_state \<Rightarrow> slot_result" where
  "quotaShareEnd call s =
     (case call of
        None \<Rightarrow> NoSlot
      | Some i \<Rightarrow>
        (case map_of (rl_settled s) i of
           None \<Rightarrow> Waiting
         | Some RlGranted \<Rightarrow> Slot i
         | Some _ \<Rightarrow> NoSlot))"

end
