(* ===== verification/RateLimitLaws.thy ===== *)
theory RateLimitLaws
  imports RateLimitSemaphore
begin

text \<open>
  Laws of the per-model limiter: its queue is a \<open>slot_gate\<close>, the addresses of live gates are
  distinct and allocated, a gate counts the release functions not called yet, and capacities
  stay within a limit per model. The properties state the bound, its failure through the
  default capacity of \<open>markRateLimited\<close>, the loss of a cooldown with the last slot, and that
  the quota-share client never fails.
\<close>

section \<open>The queue is a FIFO slot gate\<close>

interpretation model: slot_gate mg_running mg_max mg_queue "isRateLimited now" "shiftQueue now" "drainLoop now"
  for now :: int
proof
  fix g :: model_gate
  show "mg_queue g \<noteq> [] \<Longrightarrow> mg_queue (shiftQueue now g) = tl (mg_queue g)"
    and "mg_running (shiftQueue now g) = mg_running g + 1"
    and "mg_max (shiftQueue now g) = mg_max g"
    and "\<not> isRateLimited now g \<Longrightarrow> \<not> isRateLimited now (shiftQueue now g)"
    by (auto simp: shiftQueue_def clearLimit_def isRateLimited_def Let_def)
  show "drainLoop now g =
    (if mg_queue g \<noteq> [] \<and> mg_running g < mg_max g \<and> \<not> isRateLimited now g
     then (let (g', ws) = drainLoop now (shiftQueue now g) in (g', hd (mg_queue g) # ws)) else (g, []))"
    by (rule drainLoop.simps)
qed

section \<open>Invariant\<close>

definition gateOf :: "string \<Rightarrow> rl_state \<Rightarrow> model_gate option" where
  "gateOf m s = (case jget m (rl_gates s) of None \<Rightarrow> None | Some a \<Rightarrow> jget a (rl_heap s))"

definition rlHolders :: "string \<Rightarrow> rl_state \<Rightarrow> int" where
  "rlHolders m s = int (length (filter (\<lambda>p. snd p = m) (rl_held s)))"

definition addr_inv :: "rl_state \<Rightarrow> bool" where
  "addr_inv s \<longleftrightarrow> jinv (rl_gates s)
     \<and> (\<forall>m a. jget m (rl_gates s) = Some a \<longrightarrow> a < rl_next s \<and> jget a (rl_heap s) \<noteq> None)
     \<and> (\<forall>m m' a. jget m (rl_gates s) = Some a \<longrightarrow> jget m' (rl_gates s) = Some a \<longrightarrow> m = m')"

definition count_inv :: "(string \<Rightarrow> int) \<Rightarrow> rl_state \<Rightarrow> bool" where
  "count_inv lim s \<longleftrightarrow> distinct (rl_held s)
     \<and> (\<forall>m. gateOf m s = None \<longrightarrow> rlHolders m s = 0)
     \<and> (\<forall>m g. gateOf m s = Some g \<longrightarrow>
          mg_running g = rlHolders m s \<and> rlHolders m s \<le> lim m \<and> mg_max g \<le> lim m)"

text \<open>The numbers of the waiting calls and of the holders are apart and already given out.\<close>

definition wait_inv :: "rl_state \<Rightarrow> bool" where
  "wait_inv s \<longleftrightarrow> fst ` set (rl_held s) \<subseteq> {..<rl_next s}
     \<and> (\<forall>m g. gateOf m s = Some g \<longrightarrow> distinct (mg_queue g) \<and> set (mg_queue g) \<subseteq> {..<rl_next s}
          \<and> set (mg_queue g) \<inter> fst ` set (rl_held s) = {})
     \<and> (\<forall>m m' g g'. m \<noteq> m' \<longrightarrow> gateOf m s = Some g \<longrightarrow> gateOf m' s = Some g' \<longrightarrow>
          set (mg_queue g) \<inter> set (mg_queue g') = {})"

definition rl_ok :: "(string \<Rightarrow> int) \<Rightarrow> rl_state \<Rightarrow> bool" where
  "rl_ok lim s \<longleftrightarrow> addr_inv s \<and> count_inv lim s \<and> wait_inv s"

lemma gateOf_live: "addr_inv s \<Longrightarrow> jget m (rl_gates s) = Some a \<Longrightarrow> gateOf m s = Some (gateAt a s)"
  by (auto simp: addr_inv_def gateOf_def gateAt_def)

lemma wait_inv_gate:
  assumes "wait_inv s" and "gateOf m s = Some g"
  shows "distinct (mg_queue g)" "set (mg_queue g) \<subseteq> {..<rl_next s}"
    "set (mg_queue g) \<inter> fst ` set (rl_held s) = {}" "rl_next s \<notin> set (mg_queue g)"
    "set (mg_queue g) \<subseteq> {..<Suc (rl_next s)}"
proof -
  show sub: "set (mg_queue g) \<subseteq> {..<rl_next s}" and "distinct (mg_queue g)"
    and "set (mg_queue g) \<inter> fst ` set (rl_held s) = {}"
    using assms unfolding wait_inv_def by simp_all
  from sub show "rl_next s \<notin> set (mg_queue g)" "set (mg_queue g) \<subseteq> {..<Suc (rl_next s)}" by fastforce+
qed

lemma addr_inj: "addr_inv s \<Longrightarrow> jget m (rl_gates s) = Some a \<Longrightarrow> jget m' (rl_gates s) = Some a \<Longrightarrow> m' = m"
  unfolding addr_inv_def by blast

lemma wait_inv_fresh: "wait_inv s \<Longrightarrow> rl_next s \<notin> fst ` set (rl_held s)"
  unfolding wait_inv_def by auto

lemma gateOf_write:
  assumes "addr_inv s" and "rl_gates s' = rl_gates s" and "rl_heap s' = jset a g (rl_heap s)"
  shows "gateOf m s' = (if jget m (rl_gates s) = Some a then Some g else gateOf m s)"
  using assms by (auto simp: gateOf_def split: option.split)

lemma count_inv_gate:
  "count_inv lim s \<Longrightarrow> gateOf m s = Some g \<Longrightarrow>
   mg_running g = rlHolders m s \<and> mg_running g \<le> lim m \<and> mg_max g \<le> lim m"
  unfolding count_inv_def by simp

lemma rlHolders_nonneg: "0 \<le> rlHolders m s" by (simp add: rlHolders_def)

text \<open>Writing a live gate, or an object no model points to, together with the other fields.\<close>

lemma ok_write:
  assumes ok: "rl_ok lim s" and a: "jget m (rl_gates s) = Some a"
    and s': "rl_gates s' = rl_gates s" "rl_heap s' = jset a g (rl_heap s)" "rl_next s \<le> rl_next s'"
    and held: "distinct (rl_held s')" "mg_running g = rlHolders m s'"
      "\<And>m'. m' \<noteq> m \<Longrightarrow> rlHolders m' s' = rlHolders m' s"
    and lim: "mg_running g \<le> lim m" "mg_max g \<le> lim m"
    and q: "distinct (mg_queue g)" "set (mg_queue g) \<inter> fst ` set (rl_held s') = {}"
      "fst ` set (rl_held s') \<subseteq> fst ` set (rl_held s) \<union> W" "W \<subseteq> {..<rl_next s'}"
      "set (mg_queue g) \<subseteq> {..<rl_next s'}"
      "\<And>m' g'. m' \<noteq> m \<Longrightarrow> gateOf m' s = Some g' \<Longrightarrow> set (mg_queue g') \<inter> (W \<union> set (mg_queue g)) = {}"
  shows "rl_ok lim s'"
proof -
  have ai: "addr_inv s" and ci: "count_inv lim s" and wi: "wait_inv s"
    using ok by (simp_all add: rl_ok_def)
  have uniq: "jget m' (rl_gates s) = Some a \<longleftrightarrow> m' = m" for m'
    using ai a by (auto simp: addr_inv_def)
  have gv: "gateOf m' s' = (if m' = m then Some g else gateOf m' s)" for m'
    using gateOf_write [OF ai s'(1,2), of m'] uniq by simp
  have "addr_inv s'"
    using ai s' by (fastforce simp: addr_inv_def)
  moreover have "count_inv lim s'"
    unfolding count_inv_def
  proof (intro conjI allI impI)
    fix m' g'
    show "rlHolders m' s' = 0" if "gateOf m' s' = None"
      using that ci held(3) by (auto simp: gv count_inv_def split: if_splits)
    assume "gateOf m' s' = Some g'"
    then show "mg_running g' = rlHolders m' s'" "rlHolders m' s' \<le> lim m'" "mg_max g' \<le> lim m'"
      using count_inv_gate [OF ci, of m' g'] held lim by (auto simp: gv split: if_splits)
  qed (rule held(1))
  moreover have "wait_inv s'"
    unfolding wait_inv_def
  proof (intro conjI allI impI)
    show "fst ` set (rl_held s') \<subseteq> {..<rl_next s'}"
      using wi q(3,4) s'(3) by (fastforce simp: wait_inv_def)
  next
    fix m' g'
    assume g': "gateOf m' s' = Some g'"
    show "distinct (mg_queue g')"
      using g' wi q(1) by (auto simp: gv wait_inv_def split: if_splits)
    show "set (mg_queue g') \<subseteq> {..<rl_next s'}"
      using g' wi q(5) s'(3) by (fastforce simp: gv wait_inv_def split: if_splits)
    show "set (mg_queue g') \<inter> fst ` set (rl_held s') = {}"
    proof (cases "m' = m")
      case True
      with g' q(2) show ?thesis by (simp add: gv)
    next
      case False
      with g' have g'': "gateOf m' s = Some g'" by (simp add: gv)
      then have "set (mg_queue g') \<inter> fst ` set (rl_held s) = {}"
        using wi by (simp add: wait_inv_def)
      with q(6) [OF False g''] q(3) show ?thesis by blast
    qed
  next
    fix m1 m2 g1 g2
    assume m: "m1 \<noteq> m2" "gateOf m1 s' = Some g1" "gateOf m2 s' = Some g2"
    have d: "set (mg_queue g') \<inter> set (mg_queue g) = {}" if "m' \<noteq> m" "gateOf m' s = Some g'" for m' g'
      using q(6) [OF that] by blast
    have "set (mg_queue g1) \<inter> set (mg_queue g2) = {}" if "m1 \<noteq> m" "m2 \<noteq> m"
      using wi m that by (simp add: wait_inv_def gv)
    with m d [of m1 g1] d [of m2 g2] show "set (mg_queue g1) \<inter> set (mg_queue g2) = {}"
      by (auto simp: gv split: if_splits)
  qed
  ultimately show ?thesis by (simp add: rl_ok_def)
qed

text \<open>The gate alone changes.\<close>

lemma ok_write_gate:
  assumes ok: "rl_ok lim s" and a: "jget m (rl_gates s) = Some a"
    and g: "mg_running g = mg_running (gateAt a s)" "mg_max g \<le> lim m"
      "set (mg_queue g) \<subseteq> set (mg_queue (gateAt a s))" "distinct (mg_queue g)"
    and s': "rl_gates s' = rl_gates s" "rl_heap s' = jset a g (rl_heap s)" "rl_next s' = rl_next s"
      "rl_held s' = rl_held s"
  shows "rl_ok lim s'"
proof -
  have ai: "addr_inv s" and ci: "count_inv lim s" and wi: "wait_inv s"
    using ok by (simp_all add: rl_ok_def)
  have go: "gateOf m s = Some (gateAt a s)" by (rule gateOf_live [OF ai a])
  have h: "rlHolders m' s' = rlHolders m' s" for m' by (simp add: rlHolders_def s')
  have q: "set (mg_queue (gateAt a s)) \<inter> fst ` set (rl_held s) = {}"
    "set (mg_queue (gateAt a s)) \<subseteq> {..<rl_next s}"
    "\<And>m' g'. m' \<noteq> m \<Longrightarrow> gateOf m' s = Some g' \<Longrightarrow> set (mg_queue g') \<inter> set (mg_queue (gateAt a s)) = {}"
    using wi go unfolding wait_inv_def by simp_all
  show ?thesis
  proof (rule ok_write [OF ok a s'(1,2), where W = "{}"])
    show "mg_running g = rlHolders m s'" "mg_running g \<le> lim m"
      using count_inv_gate [OF ci go] g(1) by (simp_all add: h)
    show "set (mg_queue g) \<inter> fst ` set (rl_held s') = {}" "set (mg_queue g) \<subseteq> {..<rl_next s'}"
      unfolding s' using q(1,2) g(3) by blast+
    show "set (mg_queue g') \<inter> ({} \<union> set (mg_queue g)) = {}"
      if "m' \<noteq> m" "gateOf m' s = Some g'" for m' g'
      using q(3) [OF that] g(3) by blast
  qed (use g s' ci h in \<open>auto simp: count_inv_def\<close>)
qed

lemma ok_delete:
  assumes ok: "rl_ok lim s" and a: "jget m (rl_gates s) = Some a"
    and g: "mg_running (gateAt a s) = 0"
    and s': "rl_gates s' = jdel m (rl_gates s)" "rl_heap s' = rl_heap s" "rl_next s' = rl_next s"
      "rl_held s' = rl_held s"
  shows "rl_ok lim s'"
proof -
  have ai: "addr_inv s" and ci: "count_inv lim s" and wi: "wait_inv s"
    using ok by (simp_all add: rl_ok_def)
  have go: "gateOf m s = Some (gateAt a s)" by (rule gateOf_live [OF ai a])
  have gv: "gateOf m' s' = (if m' = m then None else gateOf m' s)" for m'
    by (simp add: gateOf_def s' split: option.split)
  have h: "rlHolders m' s' = rlHolders m' s" for m' by (simp add: rlHolders_def s')
  have "rlHolders m s = 0" using count_inv_gate [OF ci go] g by simp
  then have "count_inv lim s'"
    using ci unfolding count_inv_def gv h s'(4) by (auto split: if_splits)
  moreover have "addr_inv s'"
    using ai by (auto simp: addr_inv_def s')
  moreover have "wait_inv s'"
    using wi by (auto simp: wait_inv_def gv s' split: if_splits)
  ultimately show ?thesis by (simp add: rl_ok_def)
qed

lemma rl_ok_frame:
  assumes "rl_ok lim s" and "rl_gates s' = rl_gates s" "rl_heap s' = rl_heap s" "rl_next s' = rl_next s"
    "rl_held s' = rl_held s"
  shows "rl_ok lim s'"
proof -
  have "gateOf m s' = gateOf m s" "rlHolders m s' = rlHolders m s" for m
    using assms by (simp_all add: gateOf_def rlHolders_def split: option.split)
  then show ?thesis
    using assms(1) unfolding rl_ok_def addr_inv_def count_inv_def wait_inv_def assms(2-) by simp
qed

section \<open>Operations keep the invariant\<close>

lemma removeAll_filter: "filter P (removeAll t xs) = removeAll t (filter P xs)"
  by (induction xs) auto

lemma rlHolders_add: "rlHolders m (s\<lparr>rl_held := rl_held s @ map (\<lambda>i. (i, m')) ws\<rparr>)
    = rlHolders m s + (if m = m' then int (length ws) else 0)"
  by (simp add: rlHolders_def filter_map comp_def)

lemma rlHolders_cong: "rl_held s = rl_held s' \<Longrightarrow> rlHolders m s = rlHolders m s'"
  by (simp add: rlHolders_def)

lemma writeGate_sel [simp]:
  "rl_gates (writeGate a g s) = rl_gates s" "rl_heap (writeGate a g s) = jset a g (rl_heap s)"
  "rl_next (writeGate a g s) = rl_next s" "rl_held (writeGate a g s) = rl_held s"
  "rl_timers (writeGate a g s) = rl_timers s" "rl_marks (writeGate a g s) = rl_marks s"
  "rl_settled (writeGate a g s) = rl_settled s"
  by (simp_all add: writeGate_def)

lemma resolveAll_sel [simp]:
  "rl_gates (resolveAll m ws s) = rl_gates s" "rl_heap (resolveAll m ws s) = rl_heap s"
  "rl_next (resolveAll m ws s) = rl_next s"
  "rl_held (resolveAll m ws s) = rl_held s @ map (\<lambda>i. (i, m)) ws"
  "rl_settled (resolveAll m ws s) = rl_settled s @ map (\<lambda>i. (i, RlGranted)) ws"
  by (simp_all add: resolveAll_def)

text \<open>Waiting calls, or a new call, get slots of a gate that has room for them.\<close>

lemma ok_resolve:
  assumes ok: "rl_ok lim s" and a: "jget m (rl_gates s) = Some a"
    and g: "mg_running g = mg_running (gateAt a s) + int (length ws)" "mg_running g \<le> lim m"
      "mg_max g \<le> lim m"
    and q: "distinct (ws @ mg_queue g)" "set (ws @ mg_queue g) \<subseteq> set (mg_queue (gateAt a s)) \<union> new"
      "new \<subseteq> {..<rl_next s}" "new \<inter> fst ` set (rl_held s) = {}"
      "\<And>m' g'. gateOf m' s = Some g' \<Longrightarrow> set (mg_queue g') \<inter> new = {}"
  shows "rl_ok lim (resolveAll m ws (writeGate a g s))"
proof -
  have ai: "addr_inv s" and ci: "count_inv lim s" and wi: "wait_inv s"
    using ok by (simp_all add: rl_ok_def)
  have go: "gateOf m s = Some (gateAt a s)" by (rule gateOf_live [OF ai a])
  let ?s' = "resolveAll m ws (writeGate a g s)"
  have h: "rlHolders m' ?s' = rlHolders m' s + (if m' = m then int (length ws) else 0)" for m'
    by (simp add: rlHolders_def filter_map comp_def)
  have old: "set (mg_queue (gateAt a s)) \<inter> fst ` set (rl_held s) = {}"
    "set (mg_queue (gateAt a s)) \<subseteq> {..<rl_next s}"
    "\<And>m' g'. m' \<noteq> m \<Longrightarrow> gateOf m' s = Some g' \<Longrightarrow> set (mg_queue g') \<inter> set (mg_queue (gateAt a s)) = {}"
    using wi go unfolding wait_inv_def by simp_all
  have fresh: "set (ws @ mg_queue g) \<inter> fst ` set (rl_held s) = {}"
    using q(2,4) old(1) by blast
  show ?thesis
  proof (rule ok_write [OF ok a, where W = "set ws"])
    show "distinct (rl_held ?s')"
      using ci q(1) fresh by (force simp: count_inv_def distinct_map inj_on_def)
    show "mg_running g = rlHolders m ?s'"
      using count_inv_gate [OF ci go] g(1) by (simp add: h)
    show "set (mg_queue g) \<inter> fst ` set (rl_held ?s') = {}"
      using fresh q(1) by (auto simp: image_image)
    show "fst ` set (rl_held ?s') \<subseteq> fst ` set (rl_held s) \<union> set ws"
      by (auto simp: image_image)
    show "set ws \<subseteq> {..<rl_next ?s'}" "set (mg_queue g) \<subseteq> {..<rl_next ?s'}"
      using q(2,3) old(2) by auto
    show "set (mg_queue g') \<inter> (set ws \<union> set (mg_queue g)) = {}" if "m' \<noteq> m" "gateOf m' s = Some g'" for m' g'
      using old(3) [OF that] q(2) q(5) [OF that(2)] by auto
  qed (use g q h in auto)
qed

lemma ok_dropIfIdle:
  assumes "rl_ok lim s" and "jget m (rl_gates s) = Some a" and "gateAt a s = g"
  shows "rl_ok lim (dropIfIdle m g s)"
  using assms by (auto simp: dropIfIdle_def intro: ok_delete)

lemma ok_drain:
  assumes ok: "rl_ok lim s"
  shows "rl_ok lim (rlDrainQueue now m s)"
proof (cases "jget m (rl_gates s)")
  case None
  with ok show ?thesis by (simp add: rlDrainQueue_def)
next
  case (Some a)
  obtain g ws where d: "drainLoop now (gateAt a s) = (g, ws)" by (rule prod.exhaust)
  have ai: "addr_inv s" and ci: "count_inv lim s" and wi: "wait_inv s"
    using ok by (simp_all add: rl_ok_def)
  have go: "gateOf m s = Some (gateAt a s)" by (rule gateOf_live [OF ai Some])
  have lim: "mg_running (gateAt a s) \<le> lim m" "mg_max (gateAt a s) \<le> lim m"
    using count_inv_gate [OF ci go] by simp_all
  have fifo: "ws @ mg_queue g = mg_queue (gateAt a s)"
    using model.drain_fifo [of now "gateAt a s"] d by simp
  have "rl_ok lim (resolveAll m ws (writeGate a g s))"
  proof (rule ok_resolve [OF ok Some, where new = "{}"])
    show "mg_running g = mg_running (gateAt a s) + int (length ws)"
      using model.drain_running [of now "gateAt a s"] d by simp
    show "mg_running g \<le> lim m" "mg_max g \<le> lim m"
      using model.drain_bound [OF lim, of now] model.drain_cap [of now "gateAt a s"] lim d by simp_all
    show "distinct (ws @ mg_queue g)"
      unfolding fifo using wi go by (simp add: wait_inv_def)
  qed (simp_all add: fifo [symmetric])
  moreover have "gateAt a (resolveAll m ws (writeGate a g s)) = g"
    by (simp add: gateAt_def)
  ultimately show ?thesis
    using Some d by (simp add: rlDrainQueue_def ok_dropIfIdle [where a = a])
qed

lemma ok_write_any:
  assumes ok: "rl_ok lim s"
    and g: "mg_running g = mg_running (gateAt a s)"
      "\<And>m. jget m (rl_gates s) = Some a \<Longrightarrow> mg_max g \<le> lim m"
      "set (mg_queue g) \<subseteq> set (mg_queue (gateAt a s))"
      "distinct (mg_queue (gateAt a s)) \<Longrightarrow> distinct (mg_queue g)"
  shows "rl_ok lim (writeGate a g s)"
proof (cases "\<exists>m. jget m (rl_gates s) = Some a")
  case True
  then obtain m where m: "jget m (rl_gates s) = Some a" by blast
  have ai: "addr_inv s" and wi: "wait_inv s" using ok by (simp_all add: rl_ok_def)
  have "distinct (mg_queue (gateAt a s))"
    using wi gateOf_live [OF ai m] by (simp add: wait_inv_def)
  with g(2) [OF m] g(1,3,4) show ?thesis
    by (intro ok_write_gate [OF ok m]) simp_all
next
  case False
  then have gv: "gateOf m (writeGate a g s) = gateOf m s" for m
    by (auto simp: gateOf_def split: option.split)
  have h: "rlHolders m (writeGate a g s) = rlHolders m s" for m by (simp add: rlHolders_def)
  have "addr_inv (writeGate a g s)" using ok by (auto simp: rl_ok_def addr_inv_def)
  with ok gv h show ?thesis
    unfolding rl_ok_def count_inv_def wait_inv_def by simp
qed

lemma ok_new_gate:
  assumes ok: "rl_ok lim s" and m: "jget m (rl_gates s) = None" and c: "c \<le> lim m" "0 \<le> lim m"
    and g: "mg_running g = 0" "mg_max g = c" "mg_queue g = []"
  shows "rl_ok lim (writeGate (rl_next s) g (s\<lparr>rl_gates := jset m (rl_next s) (rl_gates s), rl_next := Suc (rl_next s)\<rparr>))"
    (is "rl_ok lim ?s'")
proof -
  have ai: "addr_inv s" and ci: "count_inv lim s" and wi: "wait_inv s"
    using ok by (simp_all add: rl_ok_def)
  have fresh: "jget m' (rl_gates s) = Some a \<Longrightarrow> a \<noteq> rl_next s" for m' a
    using ai by (auto simp: addr_inv_def)
  have gv: "gateOf m' ?s' = (if m' = m then Some g else gateOf m' s)" for m'
    using fresh by (auto simp: gateOf_def split: option.split)
  have h: "rlHolders m' ?s' = rlHolders m' s" for m' by (simp add: rlHolders_def)
  have "rlHolders m s = 0"
    using ci m by (simp add: count_inv_def gateOf_def)
  then have "count_inv lim ?s'"
    using ci c g unfolding count_inv_def gv h by auto
  moreover have "addr_inv ?s'"
    using ai fresh by (fastforce simp: addr_inv_def)
  moreover have "wait_inv ?s'"
    unfolding wait_inv_def gv
  proof (intro conjI allI impI)
    show "fst ` set (rl_held ?s') \<subseteq> {..<rl_next ?s'}" using wi by (fastforce simp: wait_inv_def)
  next
    fix m1 m2 g1 g2
    assume "m1 \<noteq> m2" "(if m1 = m then Some g else gateOf m1 s) = Some g1"
      "(if m2 = m then Some g else gateOf m2 s) = Some g2"
    then show "set (mg_queue g1) \<inter> set (mg_queue g2) = {}"
      using wi g(3) by (auto simp: wait_inv_def split: if_splits)
  next
    fix m1 g1
    assume g1: "(if m1 = m then Some g else gateOf m1 s) = Some g1"
    show "set (mg_queue g1) \<subseteq> {..<rl_next ?s'}" "distinct (mg_queue g1)"
      "set (mg_queue g1) \<inter> fst ` set (rl_held ?s') = {}"
      using g1 g(3) wait_inv_gate [OF wi, of m1 g1] by (simp_all split: if_splits)
  qed
  ultimately show ?thesis by (simp add: rl_ok_def)
qed

lemma ok_next: "rl_ok lim s \<Longrightarrow> rl_next s \<le> n \<Longrightarrow> rl_ok lim (s\<lparr>rl_next := n\<rparr>)"
  by (fastforce simp: rl_ok_def addr_inv_def count_inv_def wait_inv_def gateOf_def rlHolders_def
      cong: option.case_cong)

lemma getGate_ok:
  assumes ok: "rl_ok lim s" and c: "c \<le> lim m" "0 \<le> lim m" and gg: "getGate m c s = (a, s')"
  shows "rl_ok lim s' \<and> jget m (rl_gates s') = Some a \<and> mg_max (gateAt a s') = c
    \<and> rl_held s' = rl_held s \<and> rl_next s \<le> rl_next s'
    \<and> (\<forall>m' g. gateOf m' s' = Some g \<longrightarrow> mg_queue g = [] \<or> (\<exists>g0. gateOf m' s = Some g0 \<and> mg_queue g0 = mg_queue g))"
proof (cases "jget m (rl_gates s)")
  case None
  with gg have s': "a = rl_next s" "s' = writeGate (rl_next s)
      \<lparr>mg_running = 0, mg_max = c, mg_queue = [], mg_rateLimitedUntil = None\<rparr>
      (s\<lparr>rl_gates := jset m (rl_next s) (rl_gates s), rl_next := Suc (rl_next s)\<rparr>)"
    by (auto simp: getGate_def Let_def)
  have "gateOf m' s' = Some g \<Longrightarrow> mg_queue g = [] \<or> gateOf m' s = Some g" for m' g
    by (auto simp: s' gateOf_def split: option.splits if_splits)
  with ok_new_gate [OF ok None c] show ?thesis
    by (auto simp: s' gateAt_def)
next
  case (Some a')
  with gg have s': "a' = a" "s' = writeGate a ((gateAt a s)\<lparr>mg_max := c\<rparr>) s"
    by (auto simp: getGate_def)
  have ai: "addr_inv s" using ok by (simp add: rl_ok_def)
  have a: "jget m (rl_gates s) = Some a" using Some s' by simp
  have gv: "gateOf m' s' = (if m' = m then Some ((gateAt a s)\<lparr>mg_max := c\<rparr>) else gateOf m' s)" for m'
    using ai a by (subst gateOf_write [OF ai, of _ a]) (auto simp: s' addr_inv_def)
  have "rl_ok lim s'"
    unfolding s'(2)
  proof (rule ok_write_any [OF ok])
    show "mg_max ((gateAt a s)\<lparr>mg_max := c\<rparr>) \<le> lim m'" if "jget m' (rl_gates s) = Some a" for m'
      using addr_inj [OF ai a that] c(1) by simp
  qed simp_all
  with a gateOf_live [OF ai a] gv show ?thesis by (auto simp: s' gateAt_def)
qed

lemma rlAcquire_ok:
  assumes ok: "rl_ok lim s" and c: "c \<le> lim m" "0 \<le> lim m"
  shows "rl_ok lim (snd (rlAcquire now m c mq s))"
proof -
  let ?i = "rl_next s"
  obtain a s1 where gg: "getGate m c (s\<lparr>rl_next := Suc ?i\<rparr>) = (a, s1)" by (rule prod.exhaust)
  have ok0: "rl_ok lim (s\<lparr>rl_next := Suc ?i\<rparr>)" by (rule ok_next [OF ok]) simp
  note g1 = getGate_ok [OF ok0 c gg]
  let ?g = "gateAt a s1"
  have ok1: "rl_ok lim s1" and a: "jget m (rl_gates s1) = Some a" and nx: "?i < rl_next s1"
    using g1 by auto
  have ai: "addr_inv s1" and ci: "count_inv lim s1" and wi: "wait_inv s1"
    using ok1 by (simp_all add: rl_ok_def)
  have go: "gateOf m s1 = Some ?g" by (rule gateOf_live [OF ai a])
  have lim: "mg_max ?g \<le> lim m" "mg_running ?g \<le> lim m" "mg_running ?g = rlHolders m s1"
    using count_inv_gate [OF ci go] by simp_all
  have new_held: "?i \<notin> fst ` set (rl_held s1)"
    using g1 ok wait_inv_fresh by (simp add: rl_ok_def)
  have "?i \<notin> set (mg_queue g)" if "gateOf m' s = Some g" for m' g
    using that ok wait_inv_gate(4) by (simp add: rl_ok_def)
  moreover have "gateOf m' (s\<lparr>rl_next := Suc ?i\<rparr>) = gateOf m' s" for m'
    by (simp add: gateOf_def split: option.split)
  ultimately have new_q: "?i \<notin> set (mg_queue g)" if "gateOf m' s1 = Some g" for m' g
    using g1 that by (metis empty_iff empty_set)
  show ?thesis
  proof (cases "mg_running ?g < mg_max ?g \<and> \<not> isRateLimited now ?g")
    case True
    have "rl_ok lim (resolveAll m [?i] (writeGate a ((clearLimit now ?g)\<lparr>mg_running := mg_running ?g + 1\<rparr>) s1))"
    proof (rule ok_resolve [OF ok1 a, where new = "{?i}"])
      have q: "mg_queue (clearLimit now ?g) = mg_queue ?g" "mg_max (clearLimit now ?g) = mg_max ?g"
        by (simp_all add: clearLimit_def)
      show "distinct ([?i] @ mg_queue ((clearLimit now ?g)\<lparr>mg_running := mg_running ?g + 1\<rparr>))"
        using wi go new_q [OF go] by (simp add: q wait_inv_def)
      show "set (mg_queue g') \<inter> {?i} = {}" if "gateOf m' s1 = Some g'" for m' g'
        using new_q [OF that] by simp
    qed (use True lim nx new_held in \<open>auto simp: clearLimit_def\<close>)
    with True gg show ?thesis by (simp add: rlAcquire_def Let_def)
  next
    case False
    have d: "rl_ok lim (rlSettle ?i RlQueueFull (dropIfIdle m ?g s1))"
      by (rule rl_ok_frame [OF ok_dropIfIdle [OF ok1 a refl]]) (simp_all add: rlSettle_def)
    have "rl_ok lim ((writeGate a (?g\<lparr>mg_queue := mg_queue ?g @ [?i]\<rparr>) s1)\<lparr>rl_timers := rl_timers s1 @ [(?i, a)]\<rparr>)"
    proof (rule ok_write [OF ok1 a, where W = "{}" and g = "?g\<lparr>mg_queue := mg_queue ?g @ [?i]\<rparr>"])
      show "set (mg_queue g') \<inter> ({} \<union> set (mg_queue (?g\<lparr>mg_queue := mg_queue ?g @ [?i]\<rparr>))) = {}"
        if "m' \<noteq> m" "gateOf m' s1 = Some g'" for m' g'
        using new_q [OF that(2)] wi that go by (simp add: wait_inv_def)
    qed (use lim nx new_held new_q [OF go] go wi ci in
          \<open>auto simp: wait_inv_def count_inv_def rlHolders_def\<close>)
    with d False gg show ?thesis by (auto simp: rlAcquire_def Let_def)
  qed
qed

lemma rlRelease_ok:
  assumes ok: "rl_ok lim s"
  shows "rl_ok lim (rlRelease now t s)"
proof (cases "t \<in> set (rl_held s)")
  case False
  with ok show ?thesis by (simp add: rlRelease_def)
next
  case True
  obtain i m where t: "t = (i, m)" by (cases t)
  have ai: "addr_inv s" and ci: "count_inv lim s" and wi: "wait_inv s"
    using ok by (simp_all add: rl_ok_def)
  let ?held = "removeAll t (rl_held s)"
  have dh: "distinct (rl_held s)" using ci by (simp add: count_inv_def)
  have len: "length (removeAll t (filter (\<lambda>p. snd p = m) (rl_held s))) + 1 = length (filter (\<lambda>p. snd p = m) (rl_held s))"
  proof -
    let ?f = "filter (\<lambda>p. snd p = m) (rl_held s)"
    have m: "t \<in> set ?f" using True t by simp
    have "distinct ?f" using dh by simp
    then have "length (removeAll t ?f) = length ?f - 1"
      using m by (simp add: distinct_remove1_removeAll [symmetric] length_remove1)
    with length_pos_if_in_set [OF m] show ?thesis by linarith
  qed
  have "rlHolders m s \<noteq> 0" using len by (auto simp: rlHolders_def simp del: filter_empty_conv)
  with ci have "gateOf m s \<noteq> None" by (auto simp: count_inv_def)
  then obtain a where a: "jget m (rl_gates s) = Some a" by (auto simp: gateOf_def split: option.splits)
  have go: "gateOf m s = Some (gateAt a s)" by (rule gateOf_live [OF ai a])
  let ?g = "gateAt a s" let ?g1 = "?g\<lparr>mg_running := mg_running ?g - 1\<rparr>"
  let ?s1 = "writeGate a ?g1 (s\<lparr>rl_held := ?held\<rparr>)"
  have h: "rlHolders m' ?s1 = rlHolders m' s - (if m' = m then 1 else 0)" for m'
  proof (cases "m' = m")
    case True
    with len show ?thesis by (simp add: rlHolders_def removeAll_filter)
  next
    case False
    then have "t \<notin> set (filter (\<lambda>p. snd p = m') (rl_held s))" using t by auto
    with False show ?thesis by (simp add: rlHolders_def removeAll_filter)
  qed
  have run: "mg_running ?g = rlHolders m s" "mg_running ?g \<le> lim m" "mg_max ?g \<le> lim m"
    using count_inv_gate [OF ci go] by simp_all
  have pos: "0 < mg_running ?g" using \<open>rlHolders m s \<noteq> 0\<close> run(1) rlHolders_nonneg [of m s] by simp
  have ok1: "rl_ok lim ?s1"
  proof (rule ok_write [OF ok a, where W = "{}" and g = ?g1])
    show "set (mg_queue g') \<inter> ({} \<union> set (mg_queue ?g1)) = {}" if "m' \<noteq> m" "gateOf m' s = Some g'" for m' g'
      using wi that go by (simp add: wait_inv_def)
  qed (use run h dh wait_inv_gate [OF wi go] in \<open>auto simp: distinct_removeAll\<close>)
  have ga: "gateAt a (s\<lparr>rl_held := ?held\<rparr>) = ?g" "gateAt a ?s1 = ?g1" by (simp_all add: gateAt_def)
  have "rl_ok lim (?s1\<lparr>rl_gates := jdel m (rl_gates ?s1)\<rparr>)" if "mg_running ?g1 = 0"
    by (rule ok_delete [OF ok1, of m a]) (use a that ga in simp_all)
  then show ?thesis
    using True t a pos ga ok_drain [OF ok1] by (simp add: rlRelease_def Let_def)
qed

lemma rlOnTimeout_ok:
  assumes ok: "rl_ok lim s"
  shows "rl_ok lim (rlOnTimeout t s)"
proof -
  let ?g = "gateAt (snd t) s"
  let ?s = "s\<lparr>rl_timers := removeAll t (rl_timers s)\<rparr>"
  have ga: "gateAt (snd t) ?s = ?g" by (simp add: gateAt_def)
  have ok1: "rl_ok lim ?s" by (rule rl_ok_frame [OF ok]) simp_all
  have "rl_ok lim (writeGate (snd t) (?g\<lparr>mg_queue := removeAll (fst t) (mg_queue ?g)\<rparr>) ?s)"
  proof (rule ok_write_any [OF ok1])
    show "mg_max (?g\<lparr>mg_queue := removeAll (fst t) (mg_queue ?g)\<rparr>) \<le> lim m"
      if "jget m (rl_gates ?s) = Some (snd t)" for m
      using count_inv_gate [of lim s m ?g] gateOf_live [of s m "snd t"] ok that
      by (simp add: rl_ok_def)
  qed (auto simp: ga distinct_removeAll)
  then have "rl_ok lim (rlSettle (fst t) RlTimedOut
      (writeGate (snd t) (?g\<lparr>mg_queue := removeAll (fst t) (mg_queue ?g)\<rparr>) ?s))"
    by (rule rl_ok_frame) (simp_all add: rlSettle_def)
  with ok show ?thesis by (simp add: rlOnTimeout_def Let_def)
qed

lemma set_limit_ok:
  assumes ok: "rl_ok lim s"
  shows "rl_ok lim (writeGate a ((gateAt a s)\<lparr>mg_rateLimitedUntil := b\<rparr>) s)"
proof (rule ok_write_any [OF ok])
  show "mg_max ((gateAt a s)\<lparr>mg_rateLimitedUntil := b\<rparr>) \<le> lim m" if "jget m (rl_gates s) = Some a" for m
    using count_inv_gate [of lim s m "gateAt a s"] gateOf_live [OF _ that] ok by (simp add: rl_ok_def)
qed simp_all

lemma markRateLimited_ok:
  assumes ok: "rl_ok lim s" and c: "3 \<le> lim m"
  shows "rl_ok lim (markRateLimited now m d s)"
proof -
  obtain a s1 where gg: "getGate m 3 s = (a, s1)" by (rule prod.exhaust)
  have "rl_ok lim s1" using getGate_ok [OF ok c _ gg] c by simp
  from set_limit_ok [OF this, of a "Some (now + d)"] show ?thesis
    by (rule rl_ok_frame) (simp_all add: markRateLimited_def gg)
qed

lemma onLimitTimer_ok:
  assumes ok: "rl_ok lim s"
  shows "rl_ok lim (onLimitTimer now t s)"
proof -
  let ?s = "s\<lparr>rl_marks := remove1 t (rl_marks s)\<rparr>"
  have ok1: "rl_ok lim ?s" by (rule rl_ok_frame [OF ok]) simp_all
  with ok show ?thesis
    using ok_drain [OF set_limit_ok [OF ok1]] by (simp add: onLimitTimer_def Let_def)
qed

section \<open>Runs\<close>

text \<open>
  Every operation but \<open>resetAll\<close>, at any time and in any order. \<open>lim\<close> bounds the capacities the
  calls of a model ask for; a model that is ever rate-limited is called with capacity 3 too.
\<close>

inductive rl_step :: "(string \<Rightarrow> int) \<Rightarrow> rl_state \<Rightarrow> rl_state \<Rightarrow> bool" for lim where
  call: "0 \<le> lim m \<Longrightarrow> c \<le> lim m \<Longrightarrow> rl_step lim s (snd (rlAcquire now m c mq s))"
| give_back: "rl_step lim s (rlRelease now t s)"
| timer: "rl_step lim s (rlOnTimeout t' s)"
| mark: "3 \<le> lim m \<Longrightarrow> rl_step lim s (markRateLimited now m d s)"
| expiry: "rl_step lim s (onLimitTimer now t s)"

inductive rl_reaches :: "(string \<Rightarrow> int) \<Rightarrow> rl_state \<Rightarrow> bool" for lim where
  start: "rl_reaches lim rlEmpty"
| step: "rl_reaches lim s \<Longrightarrow> rl_step lim s s' \<Longrightarrow> rl_reaches lim s'"

inductive_cases rl_stepE: "rl_step lim s s'"

lemma rl_step_ok: "rl_step lim s s' \<Longrightarrow> rl_ok lim s \<Longrightarrow> rl_ok lim s'"
  by (erule rl_stepE)
     (simp_all add: rlAcquire_ok rlRelease_ok rlOnTimeout_ok markRateLimited_ok onLimitTimer_ok)

lemma rlEmpty_ok: "rl_ok lim rlEmpty"
  by (simp add: rl_ok_def addr_inv_def count_inv_def wait_inv_def gateOf_def rlHolders_def rlEmpty_def)

lemma rl_reaches_ok: "rl_reaches lim s \<Longrightarrow> rl_ok lim s"
  by (induction rule: rl_reaches.induct) (simp_all add: rlEmpty_ok rl_step_ok)

section \<open>Properties\<close>

text \<open>
  Bounded concurrency: in every interleaving of calls, releases, queue timeouts, rate
  limits and their expiries, the number of unreleased slots of a model is at most the largest
  capacity it is called with, where a rate limit counts as a call with capacity 3.
\<close>

theorem rate_limit_capacity:
  assumes "rl_reaches lim s"
  shows "rlHolders m s \<le> max 0 (lim m)"
proof (cases "gateOf m s")
  case None
  with rl_reaches_ok [OF assms] show ?thesis by (simp add: rl_ok_def count_inv_def)
next
  case (Some g)
  have "count_inv lim s" using rl_reaches_ok [OF assms] by (simp add: rl_ok_def)
  from count_inv_gate [OF this Some] show ?thesis by linarith
qed

definition rlTwoCalls :: rl_state where
  "rlTwoCalls = snd (rlAcquire 2 ''gpt'' 1 None (snd (rlAcquire 1 ''gpt'' 1 None rlEmpty)))"

theorem rate_limit_capacity_witness:
  "rlHolders ''gpt'' rlTwoCalls = 1 \<and> length (rl_timers rlTwoCalls) = 1 \<and> rlHolders ''gpt'' rlTwoCalls \<le> max 0 1"
proof -
  have call: "rl_step (\<lambda>_. 1) s (snd (rlAcquire n k 1 mq s))" for n k mq s
    by (rule rl_step.call) simp_all
  have "rl_reaches (\<lambda>_. 1) rlTwoCalls"
    unfolding rlTwoCalls_def by (rule rl_reaches.step [OF rl_reaches.step [OF rl_reaches.start call] call])
  then have "rlHolders ''gpt'' rlTwoCalls \<le> max 0 1" by (rule rate_limit_capacity)
  moreover have "rlHolders ''gpt'' rlTwoCalls = 1" "length (rl_timers rlTwoCalls) = 1" by code_simp+
  ultimately show ?thesis by simp
qed

text \<open>
  A rate limit raises the capacity: \<open>markRateLimited\<close> looks its gate up with the default
  capacity 3, so when its timer fires a waiting call is admitted although the gate is at the
  configured capacity.
\<close>

theorem rate_limit_raises_capacity:
  assumes ok: "rl_ok lim s" and g: "gateOf m s = Some g" and q: "mg_queue g = w # ws"
    and full: "mg_max g \<le> mg_running g" and run: "mg_running g < 3"
    and t: "0 < now + d" "now + d \<le> later"
  shows "\<exists>a. (w, m) \<in> set (rl_held (onLimitTimer later (a, m) (markRateLimited now m d s)))"
proof -
  obtain a where a: "jget m (rl_gates s) = Some a"
    using g by (auto simp: gateOf_def split: option.splits)
  have ga: "gateAt a s = g" using g a by (simp add: gateOf_def gateAt_def)
  let ?g1 = "g\<lparr>mg_max := 3, mg_rateLimitedUntil := Some (now + d)\<rparr>" let ?g2 = "g\<lparr>mg_max := 3, mg_rateLimitedUntil := None\<rparr>"
  let ?s1 = "markRateLimited now m d s"
  have s1: "gateAt a ?s1 = ?g1" "jget m (rl_gates ?s1) = Some a" "(a, m) \<in> set (rl_marks ?s1)"
    using a ga by (simp_all add: markRateLimited_def getGate_def gateAt_def)
  let ?s2 = "writeGate a ?g2 (?s1\<lparr>rl_marks := remove1 (a, m) (rl_marks ?s1)\<rparr>)"
  have t2: "onLimitTimer later (a, m) ?s1 = rlDrainQueue later m ?s2"
    using s1 t by (simp add: onLimitTimer_def Let_def gateAt_def)
  obtain g' vs where d: "drainLoop later ?g2 = (g', vs)" by (rule prod.exhaust)
  have "vs \<noteq> []"
    using d q run by (subst (asm) drainLoop.simps) (auto simp: isRateLimited_def split: prod.splits)
  with model.drain_fifo [of later ?g2] d q have "w \<in> set vs" by (cases vs) auto
  moreover have "gateAt a ?s2 = ?g2" "jget m (rl_gates ?s2) = Some a" using s1 by (simp_all add: gateAt_def)
  ultimately have "(w, m) \<in> set (rl_held (rlDrainQueue later m ?s2))"
    using d by (simp add: rlDrainQueue_def dropIfIdle_def)
  then show ?thesis unfolding t2 [symmetric] by (rule exI)
qed

theorem rate_limit_raises_capacity_witness:
  "mg_max (the (gateOf ''gpt'' rlTwoCalls)) = 1
   \<and> (\<exists>a. (2, ''gpt'') \<in> set (rl_held (onLimitTimer 151 (a, ''gpt'') (markRateLimited 1 ''gpt'' 100 rlTwoCalls))))"
proof -
  have call: "rl_step (\<lambda>_. 1) s (snd (rlAcquire n k 1 mq s))" for n k mq s
    by (rule rl_step.call) simp_all
  have "rl_reaches (\<lambda>_. 1) rlTwoCalls"
    unfolding rlTwoCalls_def by (rule rl_reaches.step [OF rl_reaches.step [OF rl_reaches.start call] call])
  then have ok: "rl_ok (\<lambda>_. 1) rlTwoCalls" by (rule rl_reaches_ok)
  have g: "gateOf ''gpt'' rlTwoCalls = Some \<lparr>mg_running = 1, mg_max = 1, mg_queue = [2], mg_rateLimitedUntil = None\<rparr>"
    by code_simp
  from rate_limit_raises_capacity [OF ok g, of 2 "[]" 1 100 151] g show ?thesis by simp
qed

text \<open>
  A cooldown dies with the last slot: releasing the only slot of a rate-limited model with
  an empty queue drops the gate together with \<open>rateLimitedUntil\<close>, and the next call is granted
  at once, however much of the cooldown is left.
\<close>

theorem rate_limit_forgotten:
  assumes ok: "rl_ok lim s" and g: "gateOf m s = Some g" and lim: "isRateLimited now g"
    and last: "mg_running g = 1" "mg_queue g = []" and t: "(i, m) \<in> set (rl_held s)" and c: "0 < c"
  shows "let s' = rlRelease now (i, m) s in
    gateOf m s' = None \<and> (fst (rlAcquire now m c mq s'), RlGranted) \<in> set (rl_settled (snd (rlAcquire now m c mq s')))"
proof -
  obtain a where a: "jget m (rl_gates s) = Some a"
    using g by (auto simp: gateOf_def split: option.splits)
  have ga: "gateAt a s = g" using g a by (simp add: gateOf_def gateAt_def)
  let ?s = "s\<lparr>rl_held := removeAll (i, m) (rl_held s)\<rparr>"
  have "gateAt a ?s = g" using ga by (simp add: gateAt_def)
  then have "jget m (rl_gates (rlRelease now (i, m) s)) = None"
    using t a last by (simp add: rlRelease_def Let_def)
  then show ?thesis
    using c by (simp add: Let_def gateOf_def rlAcquire_def getGate_def gateAt_def isRateLimited_def)
qed

definition rlLimitedHolder :: rl_state where
  "rlLimitedHolder = markRateLimited 2 ''gpt'' 60000 (snd (rlAcquire 1 ''gpt'' 3 None rlEmpty))"

theorem rate_limit_forgotten_witness:
  "(let s' = rlRelease 10 (0, ''gpt'') rlLimitedHolder in
     (fst (rlAcquire 10 ''gpt'' 3 None s'), RlGranted) \<in> set (rl_settled (snd (rlAcquire 10 ''gpt'' 3 None s'))))"
proof -
  have call: "rl_step (\<lambda>_. 3) s (snd (rlAcquire n k 3 mq s))" for n k mq s
    by (rule rl_step.call) simp_all
  have mark: "rl_step (\<lambda>_. 3) s (markRateLimited n k d s)" for n k d s
    by (rule rl_step.mark) simp
  have "rl_reaches (\<lambda>_. 3) rlLimitedHolder"
    unfolding rlLimitedHolder_def by (rule rl_reaches.step [OF rl_reaches.step [OF rl_reaches.start call] mark])
  then have ok: "rl_ok (\<lambda>_. 3) rlLimitedHolder" by (rule rl_reaches_ok)
  have g: "gateOf ''gpt'' rlLimitedHolder = Some \<lparr>mg_running = 1, mg_max = 3, mg_queue = [], mg_rateLimitedUntil = Some 60002\<rparr>"
    by code_simp
  have h: "rl_held rlLimitedHolder = [(0, ''gpt'')]" by code_simp
  from rate_limit_forgotten [OF ok g, of 10 0 3 None] show ?thesis
    by (simp add: isRateLimited_def h Let_def)
qed

end
