(* ===== verification/WorkflowFSM.thy ===== *)
theory WorkflowFSM
  imports Prelude
begin

text \<open>
  The workflow state machine of \<open>open-sse/services/workflowFSM.ts\<close>: risk classification, the
  transition table \<open>T\<close>, \<open>advance\<close>, \<open>pause\<close> and \<open>resume\<close>. The table is a list of records, as in
  the source, so that the first enabled entry wins; times are given by the caller.
\<close>

section \<open>Data\<close>

datatype phase = Classify | Plan | PlanReview | Execute | CodeReview | QualityReview | Security
  | Testing | OutputReview | Done | Failed | Paused

datatype risk_level = LowRisk | MediumRisk | HighRisk

datatype verdict = Approve | ApproveWithNotes | RequestChanges | Reject | Block

record phase_record =
  pr_phase :: phase
  enteredAt :: millis
  exitedAt :: "millis option"
  pr_verdict :: "verdict option"
  pr_provider :: "string option"
  pr_model :: "string option"
  retryCount :: int
  pr_notes :: "string option"

text \<open>\<open>'m\<close> is the type of the values of \<open>metadata\<close>, which the machine never reads.\<close>

record 'm workflow =
  wf_id :: string
  currentPhase :: phase
  risk :: risk_level
  lastVerdict :: "verdict option"
  retries :: "(phase, int) jmap"
  maxRetries :: int
  testsPass :: bool
  history :: "phase_record list"
  createdAt :: millis
  metadata :: "(string, 'm) jmap"

record 'm wf_transition =
  from_phase :: phase
  to_phase :: phase
  condition :: "'m workflow \<Rightarrow> bool"
  description :: string

section \<open>Risk\<close>

definition HIGH_KEYWORDS :: "string list" where
  "HIGH_KEYWORDS = [''schema'', ''migration'', ''deploy'', ''delete'', ''drop'', ''env'', ''database'',
     ''refactor'', ''security'', ''auth'', ''production'', ''secrets'', ''credentials'', ''permission'']"

definition MED_KEYWORDS :: "string list" where
  "MED_KEYWORDS = [''endpoint'', ''feature'', ''service'', ''model'', ''api'', ''integration'',
     ''webhook'', ''middleware'', ''route'']"

definition classifyRisk :: "string \<Rightarrow> risk_level" where
  "classifyRisk desc =
     (let l = toLowerCase desc
      in if \<exists>k \<in> set HIGH_KEYWORDS. contains k l then HighRisk
         else if \<exists>k \<in> set MED_KEYWORDS. contains k l then MediumRisk
         else LowRisk)"

section \<open>Transitions\<close>

definition PHASE_ORDER :: "phase list" where
  "PHASE_ORDER = [Classify, Plan, PlanReview, Execute, CodeReview, QualityReview, Security,
     Testing, OutputReview]"

fun indexOf :: "'a list \<Rightarrow> 'a \<Rightarrow> int" where
  "indexOf [] y = -1"
| "indexOf (x # xs) y = (if x = y then 0 else let i = indexOf xs y in if i < 0 then -1 else i + 1)"

definition retriesOf :: "phase \<Rightarrow> 'm workflow \<Rightarrow> int" where
  "retriesOf p c = nullish (jget p (retries c)) 0"

definition approved :: "'m workflow \<Rightarrow> bool" where
  "approved c \<longleftrightarrow> lastVerdict c = Some Approve \<or> lastVerdict c = Some ApproveWithNotes"

definition refused :: "'m workflow \<Rightarrow> bool" where
  "refused c \<longleftrightarrow> lastVerdict c = Some Reject \<or> lastVerdict c = Some RequestChanges"

definition edge :: "phase \<Rightarrow> phase \<Rightarrow> ('m workflow \<Rightarrow> bool) \<Rightarrow> string \<Rightarrow> 'm wf_transition" where
  "edge p q c d = \<lparr>from_phase = p, to_phase = q, condition = c, description = d\<rparr>"

definition T :: "'m wf_transition list" where
  "T = [
    edge Classify Plan (\<lambda>c. risk c = HighRisk) ''High risk -> full planning'',
    edge Classify Execute (\<lambda>c. risk c = MediumRisk) ''Medium risk -> skip planner'',
    edge Classify Execute (\<lambda>c. risk c = LowRisk) ''Low risk -> direct execute'',
    edge Plan PlanReview (\<lambda>c. True) ''Plan -> review'',
    edge PlanReview Execute approved ''Plan approved -> execute'',
    edge PlanReview Plan (\<lambda>c. refused c \<and> retriesOf Plan c < maxRetries c) ''Plan rejected -> retry'',
    edge PlanReview Failed (\<lambda>c. refused c \<and> retriesOf Plan c \<ge> maxRetries c) ''Plan rejected max retries'',
    edge Execute CodeReview (\<lambda>c. risk c \<noteq> LowRisk) ''Non-low -> code review'',
    edge Execute Testing (\<lambda>c. risk c = LowRisk) ''Low -> skip reviews'',
    edge CodeReview QualityReview approved ''Code approved -> quality'',
    edge CodeReview Execute (\<lambda>c. refused c \<and> retriesOf Execute c < maxRetries c) ''Code rejected -> re-execute'',
    edge CodeReview Failed (\<lambda>c. refused c \<and> retriesOf Execute c \<ge> maxRetries c) ''Code rejected max retries'',
    edge QualityReview Security (\<lambda>c. risk c = HighRisk) ''High -> security audit'',
    edge QualityReview Testing (\<lambda>c. risk c \<noteq> HighRisk) ''Non-high -> skip security'',
    edge Security Failed (\<lambda>c. lastVerdict c = Some Block) ''Security BLOCK -> failed'',
    edge Security Testing (\<lambda>c. lastVerdict c \<noteq> Some Block) ''Security passed -> test'',
    edge Testing OutputReview testsPass ''Tests pass -> output review'',
    edge Testing Execute (\<lambda>c. \<not> testsPass c \<and> retriesOf Execute c < maxRetries c) ''Tests fail -> re-execute'',
    edge Testing Failed (\<lambda>c. \<not> testsPass c \<and> retriesOf Execute c \<ge> maxRetries c) ''Tests fail max retries'',
    edge OutputReview Done (\<lambda>c. True) ''Output reviewed -> done'']"

section \<open>Operations\<close>

definition enter :: "millis \<Rightarrow> phase \<Rightarrow> int \<Rightarrow> string option \<Rightarrow> phase_record" where
  "enter now p n notes = \<lparr>pr_phase = p, enteredAt = now, exitedAt = None, pr_verdict = None,
     pr_provider = None, pr_model = None, retryCount = n, pr_notes = notes\<rparr>"

definition riskNote :: "risk_level \<Rightarrow> string" where
  "riskNote r = ''Risk: '' @ (case r of LowRisk \<Rightarrow> ''low'' | MediumRisk \<Rightarrow> ''medium'' | HighRisk \<Rightarrow> ''high'')"

definition createWorkflow ::
  "millis \<Rightarrow> string \<Rightarrow> string \<Rightarrow> int option \<Rightarrow> (string, 'm) jmap option \<Rightarrow> 'm workflow" where
  "createWorkflow now i desc mr md =
     (let r = classifyRisk desc
      in \<lparr>wf_id = i, currentPhase = Classify, risk = r, lastVerdict = None, retries = [],
          maxRetries = nullish mr 3, testsPass = False,
          history = [enter now Classify 0 (Some (riskNote r))],
          createdAt = now, metadata = nullish md []\<rparr>)"

record result =
  res_verdict :: "verdict option"
  res_testsPass :: "bool option"
  res_provider :: "string option"
  res_model :: "string option"
  res_notes :: "string option"

text \<open>The record of the phase that is left.\<close>

definition closePhase :: "millis \<Rightarrow> result \<Rightarrow> phase_record \<Rightarrow> phase_record" where
  "closePhase now r p = p\<lparr>exitedAt := Some now, pr_verdict := res_verdict r, pr_provider := res_provider r,
     pr_model := res_model r, pr_notes := res_notes r\<rparr>"

definition updateLast :: "('a \<Rightarrow> 'a) \<Rightarrow> 'a list \<Rightarrow> 'a list" where
  "updateLast f xs = (if xs = [] then [] else butlast xs @ [f (last xs)])"

definition noteResult :: "millis \<Rightarrow> result \<Rightarrow> 'm workflow \<Rightarrow> 'm workflow" where
  "noteResult now r c =
     c\<lparr>lastVerdict := (case res_verdict r of None \<Rightarrow> lastVerdict c | Some v \<Rightarrow> Some v),
       testsPass := nullish (res_testsPass r) (testsPass c),
       history := updateLast (closePhase now r) (history c)\<rparr>"

definition isBackward :: "phase \<Rightarrow> phase \<Rightarrow> bool" where
  "isBackward p q =
     (let fi = indexOf PHASE_ORDER p; ti = indexOf PHASE_ORDER q in 0 \<le> ti \<and> 0 \<le> fi \<and> ti \<le> fi)"

definition follow :: "millis \<Rightarrow> 'm wf_transition \<Rightarrow> 'm workflow \<Rightarrow> 'm workflow" where
  "follow now t c =
     (let q = to_phase t;
          c1 = (if isBackward (from_phase t) q then c\<lparr>retries := jset q (retriesOf q c + 1) (retries c)\<rparr> else c)
      in c1\<lparr>currentPhase := q, history := history c1 @ [enter now q (retriesOf q c1) (Some (description t))]\<rparr>)"

definition enabled :: "'m workflow \<Rightarrow> 'm wf_transition \<Rightarrow> bool" where
  "enabled c t \<longleftrightarrow> from_phase t = currentPhase c \<and> condition t c"

definition advance :: "millis \<Rightarrow> result \<Rightarrow> 'm workflow \<Rightarrow> phase option \<times> 'm workflow" where
  "advance now r c0 =
     (let c = noteResult now r c0
      in case find (enabled c) T of
           None \<Rightarrow> (None, c)
         | Some t \<Rightarrow> (Some (to_phase t), follow now t c))"

definition pause :: "millis \<Rightarrow> string \<Rightarrow> 'm workflow \<Rightarrow> 'm workflow" where
  "pause now reason c =
     c\<lparr>currentPhase := Paused, history := history c @ [enter now Paused 0 (Some reason)]\<rparr>"

definition resume :: "millis \<Rightarrow> phase \<Rightarrow> 'm workflow \<Rightarrow> 'm workflow" where
  "resume now p c =
     c\<lparr>currentPhase := p,
       history := updateLast (\<lambda>r. r\<lparr>exitedAt := Some now\<rparr>) (history c)
                    @ [enter now p (retriesOf p c) (Some ''Resumed'')]\<rparr>"

definition isTerminated :: "'m workflow \<Rightarrow> bool" where
  "isTerminated c \<longleftrightarrow> currentPhase c = Done \<or> currentPhase c = Failed"

definition getPhaseSequence :: "'m workflow \<Rightarrow> phase list" where
  "getPhaseSequence c = map pr_phase (history c)"

definition getLLMCallCount :: "'m workflow \<Rightarrow> nat" where
  "getLLMCallCount c =
     length (filter (\<lambda>r. pr_phase r \<notin> {Classify, Paused, Done, Failed} \<and> exitedAt r \<noteq> None) (history c))"

end
