(* ===== verification/WorkflowLaws.thy ===== *)
theory WorkflowLaws
  imports WorkflowFSM
begin

text \<open>
  Laws of the workflow machine: the table decides every context and agrees with a decision
  function per phase; every workflow makes boundedly many moves, whatever the reviewers
  answer; a high-risk workflow cannot skip a review; an approving one ends.
\<close>

section \<open>The table as a function\<close>

text \<open>The reference: what each phase does next.\<close>

definition onReview :: "'m workflow \<Rightarrow> phase \<Rightarrow> phase \<Rightarrow> phase option" where
  "onReview c ok again =
     (if approved c then Some ok
      else if refused c then Some (if retriesOf again c < maxRetries c then again else Failed)
      else None)"

definition nextPhase :: "'m workflow \<Rightarrow> phase option" where
  "nextPhase c =
     (case currentPhase c of
        Classify \<Rightarrow> Some (if risk c = HighRisk then Plan else Execute)
      | Plan \<Rightarrow> Some PlanReview
      | PlanReview \<Rightarrow> onReview c Execute Plan
      | Execute \<Rightarrow> Some (if risk c = LowRisk then Testing else CodeReview)
      | CodeReview \<Rightarrow> onReview c QualityReview Execute
      | QualityReview \<Rightarrow> Some (if risk c = HighRisk then Security else Testing)
      | Security \<Rightarrow> Some (if lastVerdict c = Some Block then Failed else Testing)
      | Testing \<Rightarrow> Some (if testsPass c then OutputReview
                         else if retriesOf Execute c < maxRetries c then Execute else Failed)
      | OutputReview \<Rightarrow> Some Done
      | _ \<Rightarrow> None)"

lemma edge_sel [simp]:
  "from_phase (edge p q g d) = p" "to_phase (edge p q g d) = q" "condition (edge p q g d) = g"
  by (simp_all add: edge_def)

lemma approved_refused: "approved c \<Longrightarrow> \<not> refused c"
  by (auto simp: approved_def refused_def)

lemma enabled_targets:
  "map to_phase (filter (enabled c) T) = (case nextPhase c of None \<Rightarrow> [] | Some q \<Rightarrow> [q])"
  by (cases "currentPhase c"; cases "risk c")
     (auto simp: T_def enabled_def nextPhase_def onReview_def approved_refused)

lemma find_filter: "find P xs = (case filter P xs of [] \<Rightarrow> None | x # _ \<Rightarrow> Some x)"
  by (induction xs) auto

lemma find_enabled:
  "nextPhase c = None \<Longrightarrow> find (enabled c) T = None"
  "nextPhase c = Some q \<Longrightarrow> \<exists>t. find (enabled c) T = Some t \<and> to_phase t = q \<and> from_phase t = currentPhase c"
proof -
  have s: "set (filter (enabled c) T) = {t \<in> set T. enabled c t}" by auto
  show "nextPhase c = None \<Longrightarrow> find (enabled c) T = None"
    using enabled_targets [of c] by (simp add: find_filter)
  assume "nextPhase c = Some q"
  with enabled_targets [of c] obtain t where t: "filter (enabled c) T = [t]" "to_phase t = q"
    by (cases "filter (enabled c) T") auto
  then have "enabled c t" using s by auto
  with t show "\<exists>t. find (enabled c) T = Some t \<and> to_phase t = q \<and> from_phase t = currentPhase c"
    by (auto simp: find_filter enabled_def)
qed

lemma noteResult_sel [simp]:
  "currentPhase (noteResult now r c) = currentPhase c" "risk (noteResult now r c) = risk c"
  "retries (noteResult now r c) = retries c" "maxRetries (noteResult now r c) = maxRetries c"
  "retriesOf p (noteResult now r c) = retriesOf p c"
  by (simp_all add: noteResult_def retriesOf_def)

lemma updateLast_phases: "(\<And>r. pr_phase (f r) = pr_phase r) \<Longrightarrow> map pr_phase (updateLast f h) = map pr_phase h"
  by (cases h rule: rev_cases) (simp_all add: updateLast_def)

lemma noteResult_phases [simp]: "getPhaseSequence (noteResult now r c) = getPhaseSequence c"
  by (simp add: getPhaseSequence_def noteResult_def updateLast_phases closePhase_def)

lemma follow_sel [simp]:
  "currentPhase (follow now t c) = to_phase t" "risk (follow now t c) = risk c"
  "maxRetries (follow now t c) = maxRetries c"
  "retriesOf p (follow now t c) =
     retriesOf p c + (if p = to_phase t \<and> isBackward (from_phase t) (to_phase t) then 1 else 0)"
  "getPhaseSequence (follow now t c) = getPhaseSequence c @ [to_phase t]"
  by (simp_all add: follow_def Let_def retriesOf_def getPhaseSequence_def enter_def)

text \<open>\<open>advance\<close>, seen from outside.\<close>

lemma advance_None:
  "nextPhase (noteResult now r c) = None \<Longrightarrow> advance now r c = (None, noteResult now r c)"
  using find_enabled(1) [of "noteResult now r c"] by (simp add: advance_def)

lemma advance_Some:
  assumes "nextPhase (noteResult now r c) = Some q"
  shows "\<exists>c'. advance now r c = (Some q, c') \<and> currentPhase c' = q \<and> risk c' = risk c
    \<and> maxRetries c' = maxRetries c \<and> getPhaseSequence c' = getPhaseSequence c @ [q]
    \<and> (\<forall>p. retriesOf p c' = retriesOf p c + (if p = q \<and> isBackward (currentPhase c) q then 1 else 0))"
  using find_enabled(2) [OF assms] by (auto simp: advance_def)

lemma advance_cases:
  obtains (stall) "advance now r c = (None, noteResult now r c)" "nextPhase (noteResult now r c) = None"
  | (move) q c' where "nextPhase (noteResult now r c) = Some q" "advance now r c = (Some q, c')"
      "currentPhase c' = q" "risk c' = risk c" "maxRetries c' = maxRetries c"
      "getPhaseSequence c' = getPhaseSequence c @ [q]"
      "\<And>p. retriesOf p c' = retriesOf p c + (if p = q \<and> isBackward (currentPhase c) q then 1 else 0)"
proof (cases "nextPhase (noteResult now r c)")
  case None
  with advance_None [OF None] show ?thesis by (rule stall)
next
  case (Some q)
  with advance_Some [OF Some] move show ?thesis by blast
qed

section \<open>Bounded work\<close>

fun rank :: "phase \<Rightarrow> int" where
  "rank Classify = 9" | "rank Plan = 8" | "rank PlanReview = 7" | "rank Execute = 6"
| "rank CodeReview = 5" | "rank QualityReview = 4" | "rank Security = 3" | "rank Testing = 2"
| "rank OutputReview = 1" | "rank _ = 0"

definition potential :: "'m workflow \<Rightarrow> int" where
  "potential c = 5 * max 0 (maxRetries c - retriesOf Plan c)
     + 5 * max 0 (maxRetries c - retriesOf Execute c) + rank (currentPhase c)"

lemma potential_nonneg: "0 \<le> potential c"
  by (cases "currentPhase c") (simp_all add: potential_def)

lemma backward_moves:
  "isBackward p q \<longleftrightarrow> rank p \<le> rank q \<and> 0 < rank p \<and> 0 < rank q"
  by (cases p; cases q) (simp_all add: isBackward_def PHASE_ORDER_def Let_def)

lemma nextPhase_decreases:
  assumes "nextPhase c = Some q" and "currentPhase c' = q" and "maxRetries c' = maxRetries c"
    and "\<And>p. retriesOf p c' = retriesOf p c + (if p = q \<and> isBackward (currentPhase c) q then 1 else 0)"
  shows "potential c' < potential c"
  using assms
  by (cases "currentPhase c")
     (auto simp: nextPhase_def onReview_def potential_def backward_moves split: if_splits)

lemma advance_decreases: "advance now r c = (Some q, c') \<Longrightarrow> potential c' < potential c"
proof (cases rule: advance_cases [of now r c])
  case (move q' d)
  assume "advance now r c = (Some q, c')"
  with move(2) have e: "q' = q" "d = c'" by simp_all
  have "potential c' < potential (noteResult now r c)"
    by (rule nextPhase_decreases [OF move(1)]) (use move(3-7) e in simp_all)
  then show ?thesis by (simp add: potential_def)
qed simp

text \<open>The number of moves in a sequence of calls of \<open>advance\<close>.\<close>

fun moves :: "(millis \<times> result) list \<Rightarrow> 'm workflow \<Rightarrow> nat" where
  "moves [] c = 0"
| "moves ((now, r) # rs) c =
     (case advance now r c of (None, c') \<Rightarrow> moves rs c' | (Some q, c') \<Rightarrow> Suc (moves rs c'))"

lemma moves_potential: "int (moves rs c) \<le> potential c"
proof (induction rs c rule: moves.induct)
  case (1 c)
  then show ?case by (simp add: potential_nonneg)
next
  case (2 now r rs c)
  show ?case
  proof (cases rule: advance_cases [of now r c])
    case stall
    then have "int (moves rs (noteResult now r c)) \<le> potential (noteResult now r c)"
      using 2(1) by simp
    then show ?thesis by (simp add: stall(1)) (simp add: potential_def)
  next
    case (move q c')
    then have "int (moves rs c') \<le> potential c'" using 2(2) by simp
    with move(2) advance_decreases [OF move(2)] show ?thesis by simp
  qed
qed

section \<open>Runs\<close>

text \<open>A workflow driven by \<open>advance\<close> alone, with whatever results.\<close>

inductive wf_reaches :: "'m workflow \<Rightarrow> bool" where
  start: "wf_reaches (createWorkflow now i d mr md)"
| step: "wf_reaches c \<Longrightarrow> wf_reaches (snd (advance now r c))"

definition highEdge :: "phase \<Rightarrow> phase \<Rightarrow> bool" where
  "highEdge p q \<longleftrightarrow> (q = Done \<longrightarrow> p = OutputReview) \<and> (q = OutputReview \<longrightarrow> p = Testing)
     \<and> (q = Testing \<longrightarrow> p = Security) \<and> (q = Security \<longrightarrow> p = QualityReview)
     \<and> (q = QualityReview \<longrightarrow> p = CodeReview) \<and> (q = CodeReview \<longrightarrow> p = Execute)
     \<and> (q = Execute \<longrightarrow> p \<in> {PlanReview, CodeReview, Testing}) \<and> (q = PlanReview \<longrightarrow> p = Plan)"

lemma nextPhase_highEdge: "nextPhase c = Some q \<Longrightarrow> risk c = HighRisk \<Longrightarrow> highEdge (currentPhase c) q"
  by (cases "currentPhase c")
     (auto simp: nextPhase_def onReview_def highEdge_def split: if_splits)

lemma wf_sequence:
  "wf_reaches c \<Longrightarrow> getPhaseSequence c \<noteq> [] \<and> hd (getPhaseSequence c) = Classify
     \<and> last (getPhaseSequence c) = currentPhase c
     \<and> (risk c = HighRisk \<longrightarrow> successively highEdge (getPhaseSequence c))"
proof (induction rule: wf_reaches.induct)
  case (start now i d mr md)
  then show ?case by (simp add: createWorkflow_def Let_def getPhaseSequence_def enter_def)
next
  case (step c now r)
  show ?case
  proof (cases rule: advance_cases [of now r c])
    case stall
    with step show ?thesis by simp
  next
    case (move q c')
    with step nextPhase_highEdge [OF move(1)] show ?thesis
      by (simp add: successively_append_iff)
  qed
qed

section \<open>Properties\<close>

text \<open>
  The transition table is deterministic and complete for its phases: at most one entry is
  enabled in any context, so its order does not matter, and \<open>advance\<close> moves exactly as the
  decision function of the current phase says.
\<close>

theorem fsm_decides:
  fixes c c0 :: "'m workflow"
  shows "map to_phase (filter (enabled c) T) = (case nextPhase c of None \<Rightarrow> [] | Some q \<Rightarrow> [q])
    \<and> fst (advance now r c0) = nextPhase (noteResult now r c0)"
proof
  show "map to_phase (filter (enabled c) T) = (case nextPhase c of None \<Rightarrow> [] | Some q \<Rightarrow> [q])"
    by (rule enabled_targets)
  show "fst (advance now r c0) = nextPhase (noteResult now r c0)"
    by (cases rule: advance_cases [of now r c0]) simp_all
qed

text \<open>
  A workflow always comes to rest: however the reviewers answer and whatever the tests
  say, a sequence of calls of \<open>advance\<close>, of any length, makes at most \<open>9 + 10 * maxRetries\<close>
  moves from its creation on.
\<close>

theorem fsm_bounded:
  "int (moves rs (createWorkflow now i d mr md)) \<le> 9 + 10 * max 0 (nullish mr 3)"
  using moves_potential [of rs "createWorkflow now i d mr md"]
  by (simp add: potential_def createWorkflow_def Let_def retriesOf_def)

lemma successively_predecessor:
  "successively P xs \<Longrightarrow> q \<in> set xs \<Longrightarrow> q \<noteq> hd xs \<Longrightarrow> \<exists>p \<in> set xs. P p q"
proof (induction xs)
  case (Cons x xs)
  show ?case
  proof (cases "q = hd xs")
    case True
    with Cons.prems show ?thesis by (cases xs) auto
  next
    case False
    with Cons.prems have "\<exists>p \<in> set xs. P p q"
      by (intro Cons.IH) (auto simp: successively_Cons)
    then show ?thesis by auto
  qed
qed simp

lemma before_plan_review:
  "successively highEdge xs \<Longrightarrow> xs \<noteq> [] \<Longrightarrow> hd xs \<in> {Classify, Plan, Failed, Paused} \<Longrightarrow>
   PlanReview \<notin> set xs \<Longrightarrow> set xs \<subseteq> {Classify, Plan, Failed, Paused}"
proof (induction xs)
  case (Cons x xs)
  show ?case
  proof (cases xs)
    case Nil
    with Cons.prems show ?thesis by simp
  next
    case (Cons y ys)
    with Cons.prems have "highEdge x y" "x \<in> {Classify, Plan, Failed, Paused}" "y \<noteq> PlanReview"
      by auto
    then have "y \<in> {Classify, Plan, Failed, Paused}" by (cases y) (auto simp: highEdge_def)
    with Cons Cons.prems Cons.IH show ?thesis by simp
  qed
qed simp

text \<open>
  No shortcut for high risk: a workflow of high risk that reaches \<open>done\<close> has been planned,
  reviewed at plan, code and quality level, audited for security and tested, and each of
  these phases was entered only from the one before it.
\<close>

theorem fsm_high_risk_gate:
  assumes "wf_reaches c" and "risk c = HighRisk"
  shows "successively highEdge (getPhaseSequence c)
    \<and> (currentPhase c = Done \<longrightarrow> {Plan, PlanReview, Execute, CodeReview, QualityReview, Security,
         Testing, OutputReview} \<subseteq> set (getPhaseSequence c))"
proof -
  let ?h = "getPhaseSequence c"
  have ne: "?h \<noteq> []" and hd: "hd ?h = Classify" and last: "last ?h = currentPhase c"
    and ed: "successively highEdge ?h"
    using wf_sequence [OF assms(1)] assms(2) by simp_all
  have pred: "\<exists>p \<in> set ?h. highEdge p q" if "q \<in> set ?h" "q \<noteq> Classify" for q
    using successively_predecessor [OF ed that(1)] that(2) hd by simp
  have "{Plan, PlanReview, Execute, CodeReview, QualityReview, Security, Testing, OutputReview} \<subseteq> set ?h"
    if "currentPhase c = Done"
  proof -
    have "Done \<in> set ?h" using that last ne last_in_set by metis
    then have o: "OutputReview \<in> set ?h" using pred [of Done] by (auto simp: highEdge_def)
    then have t: "Testing \<in> set ?h" using pred [of OutputReview] by (auto simp: highEdge_def)
    then have s: "Security \<in> set ?h" using pred [of Testing] by (auto simp: highEdge_def)
    then have u: "QualityReview \<in> set ?h" using pred [of Security] by (auto simp: highEdge_def)
    then have r: "CodeReview \<in> set ?h" using pred [of QualityReview] by (auto simp: highEdge_def)
    then have e: "Execute \<in> set ?h" using pred [of CodeReview] by (auto simp: highEdge_def)
    have v: "PlanReview \<in> set ?h"
      using before_plan_review [OF ed ne] hd e by auto
    then have "Plan \<in> set ?h" using pred [of PlanReview] by (auto simp: highEdge_def)
    with o t s u r e v show ?thesis by simp
  qed
  with ed show ?thesis by simp
qed

definition okResult :: result where
  "okResult = \<lparr>res_verdict = Some Approve, res_testsPass = Some True, res_provider = None,
     res_model = None, res_notes = None\<rparr>"

definition silentResult :: result where
  "silentResult = \<lparr>res_verdict = None, res_testsPass = None, res_provider = None,
     res_model = None, res_notes = None\<rparr>"

text \<open>\<open>n\<close> calls with the same result.\<close>

fun drive :: "nat \<Rightarrow> result \<Rightarrow> 'm workflow \<Rightarrow> 'm workflow" where
  "drive 0 r c = c"
| "drive (Suc n) r c = drive n r (snd (advance 0 r c))"

lemma drive_reaches: "wf_reaches c \<Longrightarrow> wf_reaches (drive n r c)"
  by (induction n arbitrary: c) (simp_all add: wf_reaches.step)

definition okNext :: "risk_level \<Rightarrow> phase \<Rightarrow> phase option" where
  "okNext k p =
     (case p of
        Classify \<Rightarrow> Some (if k = HighRisk then Plan else Execute)
      | Plan \<Rightarrow> Some PlanReview | PlanReview \<Rightarrow> Some Execute
      | Execute \<Rightarrow> Some (if k = LowRisk then Testing else CodeReview)
      | CodeReview \<Rightarrow> Some QualityReview
      | QualityReview \<Rightarrow> Some (if k = HighRisk then Security else Testing)
      | Security \<Rightarrow> Some Testing | Testing \<Rightarrow> Some OutputReview | OutputReview \<Rightarrow> Some Done
      | _ \<Rightarrow> None)"

fun okPath :: "nat \<Rightarrow> risk_level \<Rightarrow> phase \<Rightarrow> phase list" where
  "okPath 0 k p = []"
| "okPath (Suc n) k p = (case okNext k p of None \<Rightarrow> okPath n k p | Some q \<Rightarrow> q # okPath n k q)"

lemma nextPhase_ok: "nextPhase (noteResult now okResult c) = okNext (risk c) (currentPhase c)"
  by (cases "currentPhase c")
     (simp_all add: nextPhase_def okNext_def onReview_def approved_def noteResult_def okResult_def)

lemma drive_ok: "getPhaseSequence (drive n okResult c) = getPhaseSequence c @ okPath n (risk c) (currentPhase c)"
proof (induction n arbitrary: c)
  case (Suc n)
  show ?case
  proof (cases rule: advance_cases [of 0 okResult c])
    case stall
    with Suc show ?thesis by (simp add: nextPhase_ok)
  next
    case (move q c')
    with Suc show ?thesis by (simp add: nextPhase_ok)
  qed
qed simp

theorem fsm_high_risk_gate_witness:
  "currentPhase (drive 9 okResult (createWorkflow 0 ''w'' ''drop the table'' None None :: nat workflow)) = Done
   \<and> Security \<in> set (getPhaseSequence (drive 9 okResult (createWorkflow 0 ''w'' ''drop the table'' None None :: nat workflow)))"
proof -
  let ?w = "drive 9 okResult (createWorkflow 0 ''w'' ''drop the table'' None None :: nat workflow)"
  have r: "wf_reaches ?w" by (rule drive_reaches [OF wf_reaches.start])
  have "risk ?w = HighRisk" "currentPhase ?w = Done" by code_simp+
  with fsm_high_risk_gate [OF r] show ?thesis by simp
qed

text \<open>
  An approved workflow finishes: when every review approves and the tests pass, nine calls
  bring a new workflow to \<open>done\<close> along the path of its risk level, and later calls change
  nothing.
\<close>

theorem fsm_completes:
  "getPhaseSequence (drive (9 + n) okResult (createWorkflow now i d mr md)) =
     (case classifyRisk d of
        HighRisk \<Rightarrow> [Classify, Plan, PlanReview, Execute, CodeReview, QualityReview, Security, Testing, OutputReview, Done]
      | MediumRisk \<Rightarrow> [Classify, Execute, CodeReview, QualityReview, Testing, OutputReview, Done]
      | LowRisk \<Rightarrow> [Classify, Execute, Testing, OutputReview, Done])"
proof -
  have "okPath (m + k) r p = okPath m r p @ okPath k r (last (p # okPath m r p))" for m k r p
    by (induction m arbitrary: p) (auto split: option.split)
  moreover have "okPath n r Done = []" for n r by (induction n) (simp_all add: okNext_def)
  moreover have "okPath 9 r Classify = (case r of
        HighRisk \<Rightarrow> [Plan, PlanReview, Execute, CodeReview, QualityReview, Security, Testing, OutputReview, Done]
      | MediumRisk \<Rightarrow> [Execute, CodeReview, QualityReview, Testing, OutputReview, Done]
      | LowRisk \<Rightarrow> [Execute, Testing, OutputReview, Done])" for r
    by (cases r) (simp_all add: okNext_def eval_nat_numeral)
  moreover have "getPhaseSequence (createWorkflow now i d mr md) = [Classify]"
    "risk (createWorkflow now i d mr md) = classifyRisk d"
    "currentPhase (createWorkflow now i d mr md) = Classify"
    by (simp_all add: createWorkflow_def Let_def getPhaseSequence_def enter_def)
  ultimately show ?thesis
    by (cases "classifyRisk d") (simp_all add: drive_ok)
qed

text \<open>
  A verdict outlives its review: a call without a verdict in \<open>code_review\<close> passes on the
  approval of the plan, and the security phase stops only a \<open>block\<close>: a \<open>reject\<close> of the
  auditor moves on to the tests.
\<close>

theorem fsm_stale_verdict:
  "(currentPhase c = CodeReview \<and> lastVerdict c = Some Approve \<longrightarrow> fst (advance now silentResult c) = Some QualityReview)
   \<and> (currentPhase c = Security \<longrightarrow>
      fst (advance now (silentResult\<lparr>res_verdict := Some Reject\<rparr>) c) = Some Testing)"
proof -
  have a: "fst (advance now r c) = nextPhase (noteResult now r c)" for r
    by (cases rule: advance_cases [of now r c]) simp_all
  show ?thesis
    by (simp add: a nextPhase_def onReview_def approved_def noteResult_def silentResult_def)
qed

theorem fsm_stale_verdict_witness:
  "(let c = drive 4 okResult (createWorkflow 0 ''w'' ''drop the table'' None None :: nat workflow)
    in currentPhase c = CodeReview \<and> fst (advance 0 silentResult c) = Some QualityReview)"
proof -
  let ?c = "drive 4 okResult (createWorkflow 0 ''w'' ''drop the table'' None None :: nat workflow)"
  have "currentPhase ?c = CodeReview" "lastVerdict ?c = Some Approve" by code_simp+
  with fsm_stale_verdict [of ?c 0] show ?thesis by (simp add: Let_def)
qed

end
