(* ===== verification/ModelLockout.thy ===== *)
theory ModelLockout
  imports Prelude
begin

text \<open>
  Model lockouts: \<open>open-sse/services/accountFallback.ts\<close> (the lockout section),
  \<open>accountFallback/lockoutEviction.ts\<close>, \<open>accountFallback/cooldownCap.ts\<close>, and the functions
  that derive the key of a lock (\<open>codexQuotaScopes.ts\<close>, \<open>antigravityQuotaFamily.ts\<close>,
  \<open>resolveProviderId\<close>). The provider registry and the compatibility sets, which are data of
  the repository, are the record \<open>registry\<close>; the start of the next local day is an argument,
  because it comes from the time zone of \<open>Date\<close>.
\<close>

section \<open>Lock keys\<close>

record provider_def =
  pd_id :: string
  pd_alias :: "string option"

record registry =
  sections :: "provider_def list"
  passthrough :: "string list"
  oauthProviders :: "string list"

text \<open>The sections of the registry in their order, flattened.\<close>

definition getProviderByAlias :: "registry \<Rightarrow> string \<Rightarrow> provider_def option" where
  "getProviderByAlias reg a = find (\<lambda>p. pd_alias p = Some a \<or> pd_id p = a) (sections reg)"

definition resolveProviderId :: "registry \<Rightarrow> string \<Rightarrow> string" where
  "resolveProviderId reg a =
     (case getProviderByAlias reg a of
        None \<Rightarrow> a
      | Some p \<Rightarrow> (if pd_id p = '''' then a else pd_id p))"

text \<open>The memo of the source, and the function it computes.\<close>

definition cachedLockProvider ::
  "registry \<Rightarrow> (string, string) jmap \<Rightarrow> string \<Rightarrow> string \<times> (string, string) jmap" where
  "cachedLockProvider reg cache p =
     (case jget p cache of
        Some c \<Rightarrow> (if c = '''' then (resolveProviderId reg p, jset p (resolveProviderId reg p) cache)
                   else (c, cache))
      | None \<Rightarrow> (resolveProviderId reg p, jset p (resolveProviderId reg p) cache))"

definition getCanonicalLockProvider :: "registry \<Rightarrow> string \<Rightarrow> string" where
  "getCanonicalLockProvider reg p = fst (cachedLockProvider reg [] p)"

datatype codex_scope = CodexScope | SparkScope

definition CODEX_SCOPE_PATTERNS :: "(string \<times> codex_scope) list" where
  "CODEX_SCOPE_PATTERNS = [(''codex-spark'', SparkScope), (''spark'', SparkScope),
     (''bengalfox'', SparkScope), (''codex'', CodexScope), (''gpt-5'', CodexScope)]"

definition getCodexModelScope :: "string \<Rightarrow> codex_scope" where
  "getCodexModelScope m =
     (case find (\<lambda>(p, s). contains p (toLowerCase m)) CODEX_SCOPE_PATTERNS of
        None \<Rightarrow> CodexScope
      | Some (p, s) \<Rightarrow> s)"

fun scopeName :: "codex_scope \<Rightarrow> string" where
  "scopeName CodexScope = ''codex''"
| "scopeName SparkScope = ''spark''"

definition normalizeModelId :: "string \<Rightarrow> string" where
  "normalizeModelId m = toLowerCase (trim m)"

datatype quota_family = GeminiFamily | ClaudeFamily | OtherFamily

definition stripPrefix :: "string \<Rightarrow> string \<Rightarrow> string" where
  "stripPrefix p s = (if starts_with p s then drop (length p) s else s)"

definition getAntigravityQuotaFamily :: "string \<Rightarrow> quota_family" where
  "getAntigravityQuotaFamily m =
     (let n0 = normalizeModelId m;
          n = (if starts_with ''antigravity/'' n0 then stripPrefix ''antigravity/'' n0 else stripPrefix ''agy/'' n0);
          bare = (if contains ''/'' n then tl (dropWhile (\<lambda>c. c \<noteq> CHR ''/'') n) else n)
      in if starts_with ''gemini-'' bare \<or> contains ''/gemini-'' bare \<or> contains ''gemini'' bare then GeminiFamily
         else if starts_with ''claude-'' bare \<or> starts_with ''cloud-'' bare \<or> contains ''/claude-'' bare
                 \<or> contains ''/cloud-'' bare \<or> contains ''anthropic'' bare then ClaudeFamily
         else OtherFamily)"

definition getQuotaScopedModelForProvider :: "string \<Rightarrow> string \<Rightarrow> string option" where
  "getQuotaScopedModelForProvider p m =
     (if m = '''' then None
      else if p \<noteq> ''antigravity'' \<and> p \<noteq> ''agy'' then Some m
      else (case getAntigravityQuotaFamily m of
              OtherFamily \<Rightarrow> Some m
            | GeminiFamily \<Rightarrow> Some ''family:gemini''
            | ClaudeFamily \<Rightarrow> Some ''family:claude''))"

definition getQuotaScopeLabelForProvider :: "string \<Rightarrow> string \<Rightarrow> string" where
  "getQuotaScopeLabelForProvider p m =
     (if p \<noteq> ''antigravity'' \<and> p \<noteq> ''agy'' then ''model''
      else if getAntigravityQuotaFamily m = OtherFamily then ''model'' else ''family'')"

definition lockKey :: "string \<Rightarrow> string \<Rightarrow> string \<Rightarrow> string" where
  "lockKey p c m = p @ '':'' @ c @ '':'' @ m"

definition exactLockKey :: "registry \<Rightarrow> string \<Rightarrow> string \<Rightarrow> string \<Rightarrow> string" where
  "exactLockKey reg p c m = lockKey (getCanonicalLockProvider reg p) c m"

definition getModelLockKey ::
  "registry \<Rightarrow> string \<Rightarrow> string \<Rightarrow> string \<Rightarrow> string option \<Rightarrow> int option \<Rightarrow> string" where
  "getModelLockKey reg p c m reason status =
     (let canonical = getCanonicalLockProvider reg p;
          lockModel = (if reason = Some ''not_found'' \<or> status = Some 404 then m
                       else if canonical = ''codex'' then scopeName (getCodexModelScope m)
                       else (case getQuotaScopedModelForProvider canonical m of
                               None \<Rightarrow> m
                             | Some q \<Rightarrow> (if q = '''' then m else q)))
      in lockKey canonical c lockModel)"

section \<open>State\<close>

record lockout_entry =
  le_reason :: string
  le_until :: millis
  le_lockedAt :: millis
  le_failureCount :: int
  le_lastFailureAt :: millis
  le_resetAfterMs :: millis

record failure_state =
  fs_failureCount :: int
  fs_lastFailureAt :: millis
  fs_resetAfterMs :: millis
  fs_lastCooldownMs :: "millis option"

record lockouts =
  modelLockouts :: "(string, lockout_entry) jmap"
  modelFailureState :: "(string, failure_state) jmap"

definition noLockouts :: lockouts where
  "noLockouts = \<lparr>modelLockouts = [], modelFailureState = []\<rparr>"

text \<open>The fields of \<open>ProviderProfile\<close> that the lockout code reads.\<close>

record lock_profile =
  lp_baseCooldownMs :: "int option"
  lp_resetTimeoutMs :: "int option"
  lp_maxBackoffSteps :: "int option"

definition RATE_LIMITED :: int where "RATE_LIMITED = 429"
definition BACKOFF_base :: int where "BACKOFF_base = 1000"
definition BACKOFF_max :: int where "BACKOFF_max = 120000"
definition BACKOFF_maxLevel :: int where "BACKOFF_maxLevel = 15"
definition transientInitial :: int where "transientInitial = 5000"

section \<open>Cooldown arithmetic\<close>

definition getFailureWindowMs :: "lock_profile option \<Rightarrow> int" where
  "getFailureWindowMs p =
     (case Option.bind p lp_resetTimeoutMs of
        None \<Rightarrow> 30 * 60 * 1000
      | Some n \<Rightarrow> (if 0 < n then n else 30 * 60 * 1000))"

definition calculateBackoffCooldown :: "int \<Rightarrow> int" where
  "calculateBackoffCooldown level = min (BACKOFF_base * 2 ^ nat (max 0 level)) BACKOFF_max"

definition getQuotaCooldown :: "int \<Rightarrow> int" where
  "getQuotaCooldown level = calculateBackoffCooldown level"

definition getModelLockBaseCooldown :: "int \<Rightarrow> int \<Rightarrow> lock_profile option \<Rightarrow> int" where
  "getModelLockBaseCooldown status fallbackMs p =
     (if 0 < fallbackMs then fallbackMs
      else (case Option.bind p lp_baseCooldownMs of
              Some b \<Rightarrow> (if 0 \<le> b then b
                         else if status = RATE_LIMITED then getQuotaCooldown 0 else transientInitial)
            | None \<Rightarrow> (if status = RATE_LIMITED then getQuotaCooldown 0 else transientInitial)))"

definition getScaledCooldown :: "int \<Rightarrow> int \<Rightarrow> int \<Rightarrow> int" where
  "getScaledCooldown base failureCount maxBackoffLevel =
     (let safeBase = (if 0 < base then base else 1000);
          e = min (max 0 (failureCount - 1)) (max 0 maxBackoffLevel)
      in safeBase * 2 ^ nat e)"

definition capScaledCooldownMs :: "int \<Rightarrow> int option \<Rightarrow> int \<Rightarrow> int" where
  "capScaledCooldownMs c mx fallbackMax =
     min c (case mx of None \<Rightarrow> fallbackMax | Some m \<Rightarrow> (if 0 < m then m else fallbackMax))"

definition selectLockoutCooldownMs :: "int \<Rightarrow> int \<Rightarrow> bool \<Rightarrow> int" where
  "selectLockoutCooldownMs parsed base useExponentialBackoff =
     (if base < parsed then parsed else if useExponentialBackoff then 0 else base)"

text \<open>\<open>ms\<close> is the distance to the next local midnight that \<open>Date\<close> computes.\<close>

definition getMsUntilTomorrow :: "int \<Rightarrow> int" where
  "getMsUntilTomorrow ms = (if 0 < ms \<and> ms \<le> 25 * 60 * 60 * 1000 then ms else 24 * 60 * 60 * 1000)"

section \<open>Cleanup and eviction\<close>

definition cleanupModelLockKey :: "millis \<Rightarrow> string \<Rightarrow> lockouts \<Rightarrow> lockouts" where
  "cleanupModelLockKey now key s =
     (let s1 = (case jget key (modelLockouts s) of
                  None \<Rightarrow> s
                | Some e \<Rightarrow> (if le_until e < now then s\<lparr>modelLockouts := jdel key (modelLockouts s)\<rparr> else s))
      in case jget key (modelFailureState s1) of
           None \<Rightarrow> s1
         | Some f \<Rightarrow>
           (if now - fs_lastFailureAt f \<le> fs_resetAfterMs f + nullish (fs_lastCooldownMs f) 0 then s1
            else if jhas key (modelLockouts s1) then s1
            else s1\<lparr>modelFailureState := jdel key (modelFailureState s1)\<rparr>))"

definition MODEL_LOCKOUT_EVICTION_CAP :: nat where "MODEL_LOCKOUT_EVICTION_CAP = 1000"

definition evictLocks :: "millis \<Rightarrow> nat \<Rightarrow> lockouts \<Rightarrow> lockouts" where
  "evictLocks now cap s =
     (if cap < jsize (modelLockouts s)
      then (let ks = map fst (take (jsize (modelLockouts s) - cap)
                                (filter (\<lambda>(k, e). le_until e \<le> now) (modelLockouts s)))
            in \<lparr>modelLockouts = fold jdel ks (modelLockouts s),
                modelFailureState = fold jdel ks (modelFailureState s)\<rparr>)
      else s)"

definition evictFailures :: "nat \<Rightarrow> lockouts \<Rightarrow> lockouts" where
  "evictFailures cap s =
     (if cap < jsize (modelFailureState s)
      then s\<lparr>modelFailureState :=
               fold (\<lambda>k m. if jhas k (modelLockouts s) then m else jdel k m)
                 (take (jsize (modelFailureState s) - cap) (jkeys (modelFailureState s)))
                 (modelFailureState s)\<rparr>
      else s)"

definition evictLockoutOverflow :: "millis \<Rightarrow> nat \<Rightarrow> lockouts \<Rightarrow> lockouts" where
  "evictLockoutOverflow now cap s = evictFailures cap (evictLocks now cap s)"

definition cleanupTick :: "millis \<Rightarrow> lockouts \<Rightarrow> lockouts" where
  "cleanupTick now s =
     (let s1 = fold (cleanupModelLockKey now) (jkeys (modelLockouts s)) s;
          s2 = fold (cleanupModelLockKey now) (jkeys (modelFailureState s1)) s1
      in evictLockoutOverflow now MODEL_LOCKOUT_EVICTION_CAP s2)"

section \<open>Locking\<close>

record lock_metadata =
  md_failureCount :: "int option"
  md_lastFailureAt :: "millis option"
  md_resetAfterMs :: "millis option"

definition noMetadata :: lock_metadata where
  "noMetadata = \<lparr>md_failureCount = None, md_lastFailureAt = None, md_resetAfterMs = None\<rparr>"

definition setLock :: "string \<Rightarrow> lockout_entry \<Rightarrow> lockouts \<Rightarrow> lockouts" where
  "setLock key e s = s\<lparr>modelLockouts := jset key e (modelLockouts s)\<rparr>"

definition keepLonger :: "lock_metadata \<Rightarrow> lockout_entry \<Rightarrow> lockout_entry" where
  "keepLonger md e =
     (if \<not> falsy_num (md_failureCount md) \<and> le_failureCount e < the (md_failureCount md)
      then e\<lparr>le_failureCount := the (md_failureCount md),
             le_lastFailureAt := nullish (md_lastFailureAt md) (le_lastFailureAt e),
             le_resetAfterMs := nullish (md_resetAfterMs md) (le_resetAfterMs e)\<rparr>
      else e)"

definition lockModel ::
  "registry \<Rightarrow> millis \<Rightarrow> string \<Rightarrow> string \<Rightarrow> string option \<Rightarrow> string \<Rightarrow> int \<Rightarrow> lock_metadata
   \<Rightarrow> lockouts \<Rightarrow> lockouts" where
  "lockModel reg now p c model reason cooldownMs md s0 =
     (case nullish model '''' of
        '''' \<Rightarrow> s0
      | m \<Rightarrow>
        (let key = getModelLockKey reg p c m (Some reason) None;
             s = cleanupModelLockKey now key s0;
             existing = jget key (modelLockouts s)
         in if existing \<noteq> None \<and> now + cooldownMs < le_until (the existing)
            then setLock key (keepLonger md (the existing)) s
            else setLock key
                   \<lparr>le_reason = reason, le_until = now + cooldownMs, le_lockedAt = now,
                    le_failureCount = nullish (md_failureCount md) (nullish (map_option le_failureCount existing) 1),
                    le_lastFailureAt = nullish (md_lastFailureAt md) now,
                    le_resetAfterMs = nullish (md_resetAfterMs md) (nullish (map_option le_resetAfterMs existing) 0)\<rparr> s))"

record lock_options =
  lo_exactCooldownMs :: "int option"
  lo_maxCooldownMs :: "int option"
  lo_upstreamReset :: bool

text \<open>The cooldown that a failure gets; \<open>n\<close> is the number of failures including this one.\<close>

definition failureCooldown :: "int \<Rightarrow> int \<Rightarrow> lock_profile option \<Rightarrow> lock_options \<Rightarrow> int \<Rightarrow> int" where
  "failureCooldown status fallbackMs p opts n =
     (let maxMs = (case lo_maxCooldownMs opts of None \<Rightarrow> None | Some m \<Rightarrow> (if 0 < m then Some m else None));
          scaled = min (getScaledCooldown (getModelLockBaseCooldown status fallbackMs p) n
                          (nullish (Option.bind p lp_maxBackoffSteps) BACKOFF_maxLevel))
                     (nullish maxMs BACKOFF_max)
      in case lo_exactCooldownMs opts of
           None \<Rightarrow> scaled
         | Some x \<Rightarrow>
           (if 0 < x
            then (if maxMs \<noteq> None \<and> \<not> lo_upstreamReset opts then min x (the maxMs) else x)
            else scaled))"

record failure_result =
  fr_cooldownMs :: int
  fr_failureCount :: int
  fr_resetAfterMs :: int

definition recordModelLockoutFailure ::
  "registry \<Rightarrow> int \<Rightarrow> millis \<Rightarrow> string \<Rightarrow> string \<Rightarrow> string \<Rightarrow> string \<Rightarrow> int \<Rightarrow> int
   \<Rightarrow> lock_profile option \<Rightarrow> lock_options \<Rightarrow> lockouts \<Rightarrow> failure_result \<times> lockouts" where
  "recordModelLockoutFailure reg midnight now p c m reason status fallbackMs profile opts0 s0 =
     (let key = getModelLockKey reg p c m (Some reason) (Some status);
          s = cleanupModelLockKey now key s0;
          opts = (if reason = ''quota_exhausted'' \<and> lo_exactCooldownMs opts0 = None
                  then opts0\<lparr>lo_exactCooldownMs := Some (getMsUntilTomorrow midnight)\<rparr> else opts0);
          resetAfterMs = getFailureWindowMs profile;
          n = (case jget key (modelFailureState s) of
                     None \<Rightarrow> 1
                   | Some f \<Rightarrow>
                     (if now - fs_lastFailureAt f \<le> fs_resetAfterMs f + nullish (fs_lastCooldownMs f) 0
                      then fs_failureCount f + 1 else 1));
          cooldownMs = failureCooldown status fallbackMs profile opts n;
          s1 = s\<lparr>modelFailureState := jset key \<lparr>fs_failureCount = n, fs_lastFailureAt = now,
                   fs_resetAfterMs = resetAfterMs, fs_lastCooldownMs = Some cooldownMs\<rparr> (modelFailureState s)\<rparr>
      in (\<lparr>fr_cooldownMs = cooldownMs, fr_failureCount = n, fr_resetAfterMs = resetAfterMs\<rparr>,
          lockModel reg now p c (Some m) reason cooldownMs
            \<lparr>md_failureCount = Some n, md_lastFailureAt = Some now, md_resetAfterMs = Some resetAfterMs\<rparr> s1))"

definition clearModelLock :: "registry \<Rightarrow> string \<Rightarrow> string \<Rightarrow> string option \<Rightarrow> lockouts \<Rightarrow> bool \<times> lockouts" where
  "clearModelLock reg p c model s =
     (case nullish model '''' of
        '''' \<Rightarrow> (False, s)
      | m \<Rightarrow>
        (let fk = getModelLockKey reg p c m None None; ek = exactLockKey reg p c m
         in (jhas fk (modelLockouts s) \<or> jhas fk (modelFailureState s)
               \<or> jhas ek (modelLockouts s) \<or> jhas ek (modelFailureState s),
             \<lparr>modelLockouts = jdel ek (jdel fk (modelLockouts s)),
              modelFailureState = jdel ek (jdel fk (modelFailureState s))\<rparr>)))"

section \<open>Queries and recovery\<close>

definition isCompatibleProvider :: "string option \<Rightarrow> bool" where
  "isCompatibleProvider p \<longleftrightarrow>
     (case p of None \<Rightarrow> False
      | Some x \<Rightarrow> starts_with ''openai-compatible-'' x \<or> starts_with ''anthropic-compatible-'' x)"

definition hasPerModelQuota :: "registry \<Rightarrow> string option \<Rightarrow> bool option \<Rightarrow> bool" where
  "hasPerModelQuota reg p override =
     (case override of
        Some b \<Rightarrow> b
      | None \<Rightarrow>
        (case nullish p '''' of
           '''' \<Rightarrow> False
         | x \<Rightarrow> getCanonicalLockProvider reg x = ''codex'' \<or> x = ''gemini'' \<or> x = ''github''
             \<or> starts_with ''opencode'' (toLowerCase x) \<or> x \<in> set (passthrough reg)
             \<or> isCompatibleProvider (Some x)))"

text \<open>\<open>inCooldown\<close> is the answer of \<open>isProviderInCooldown\<close>.\<close>

definition lockModelIfPerModelQuota ::
  "registry \<Rightarrow> bool \<Rightarrow> millis \<Rightarrow> string \<Rightarrow> string \<Rightarrow> string option \<Rightarrow> string \<Rightarrow> int \<Rightarrow> bool option
   \<Rightarrow> lockouts \<Rightarrow> bool \<times> lockouts" where
  "lockModelIfPerModelQuota reg inCooldown now p c model reason cooldownMs override s =
     (if \<not> hasPerModelQuota reg (Some p) override \<or> nullish model '''' = '''' then (False, s)
      else if inCooldown then (False, s)
      else (True, lockModel reg now p c model reason cooldownMs noMetadata s))"

datatype failure_kind = RateLimitKind | TransientKind | OtherKind

definition shouldPreserveQuotaSignals :: "registry \<Rightarrow> string option \<Rightarrow> bool" where
  "shouldPreserveQuotaSignals reg p \<longleftrightarrow> (case nullish p '''' of '''' \<Rightarrow> True | x \<Rightarrow> x \<in> set (oauthProviders reg))"

definition shouldMarkAccountExhaustedFrom429 ::
  "registry \<Rightarrow> string option \<Rightarrow> bool option \<Rightarrow> failure_kind option \<Rightarrow> bool" where
  "shouldMarkAccountExhaustedFrom429 reg p override kind =
     (if kind = Some RateLimitKind \<or> kind = Some TransientKind then False
      else shouldPreserveQuotaSignals reg p \<and> \<not> hasPerModelQuota reg p override)"

definition classifyLockoutReason :: "int \<Rightarrow> string" where
  "classifyLockoutReason status =
     (if status = 429 then ''rate_limit'' else if status = 403 then ''quota_exhausted'' else ''unknown'')"

definition decayModelFailureCount ::
  "registry \<Rightarrow> string \<Rightarrow> string \<Rightarrow> string \<Rightarrow> lockouts \<Rightarrow> (bool \<times> int) \<times> lockouts" where
  "decayModelFailureCount reg p c m s =
     (let key = getModelLockKey reg p c m None None
      in case jget key (modelFailureState s) of
           None \<Rightarrow> ((False, 0), s)
         | Some f \<Rightarrow>
           (let n = fs_failureCount f div 2
            in if n = 0 then ((True, 0), s\<lparr>modelFailureState := jdel key (modelFailureState s)\<rparr>)
               else ((False, n), s\<lparr>modelFailureState := jset key (f\<lparr>fs_failureCount := n\<rparr>) (modelFailureState s)\<rparr>)))"

definition clearAllModelLockouts :: "lockouts \<Rightarrow> lockouts" where
  "clearAllModelLockouts s = noLockouts"

definition isModelLocked ::
  "registry \<Rightarrow> millis \<Rightarrow> string \<Rightarrow> string \<Rightarrow> string option \<Rightarrow> lockouts \<Rightarrow> bool \<times> lockouts" where
  "isModelLocked reg now p c model s =
     (case nullish model '''' of
        '''' \<Rightarrow> (False, s)
      | m \<Rightarrow>
        (let ek = exactLockKey reg p c m; s1 = cleanupModelLockKey now ek s
         in if jhas ek (modelLockouts s1) then (True, s1)
            else (let fk = getModelLockKey reg p c m None None; s2 = cleanupModelLockKey now fk s1
                  in (jhas fk (modelLockouts s2), s2))))"

record lockout_info =
  li_reason :: string
  li_remainingMs :: int
  li_lockedAt :: millis
  li_failureCount :: int

definition infoOf :: "millis \<Rightarrow> lockout_entry \<Rightarrow> lockout_info" where
  "infoOf now e = \<lparr>li_reason = le_reason e, li_remainingMs = le_until e - now,
     li_lockedAt = le_lockedAt e, li_failureCount = le_failureCount e\<rparr>"

definition getModelLockoutInfo ::
  "registry \<Rightarrow> millis \<Rightarrow> string \<Rightarrow> string \<Rightarrow> string option \<Rightarrow> lockouts \<Rightarrow> lockout_info option \<times> lockouts" where
  "getModelLockoutInfo reg now p c model s =
     (case nullish model '''' of
        '''' \<Rightarrow> (None, s)
      | m \<Rightarrow>
        (let ek = exactLockKey reg p c m; s1 = cleanupModelLockKey now ek s
         in case jget ek (modelLockouts s1) of
              Some e \<Rightarrow> (Some (infoOf now e), s1)
            | None \<Rightarrow>
              (let fk = getModelLockKey reg p c m None None; s2 = cleanupModelLockKey now fk s1
               in (map_option (infoOf now) (jget fk (modelLockouts s2)), s2))))"

text \<open>A key is split at the colons; the model keeps the colons after the second one.\<close>

fun splitColon :: "string \<Rightarrow> string \<times> string option" where
  "splitColon [] = ([], None)"
| "splitColon (c # cs) =
     (if c = CHR '':'' then ([], Some cs) else let (a, b) = splitColon cs in (c # a, b))"

definition parseLockKey :: "string \<Rightarrow> string \<times> string option \<times> string" where
  "parseLockKey k =
     (let (p, r) = splitColon k
      in case r of
           None \<Rightarrow> (p, None, '''')
         | Some x \<Rightarrow> (let (c, m) = splitColon x in (p, Some c, nullish m '''')))"

definition getAllModelLockouts ::
  "millis \<Rightarrow> lockouts \<Rightarrow> ((string \<times> string option \<times> string) \<times> lockout_info \<times> millis) list \<times> lockouts" where
  "getAllModelLockouts now s0 =
     (let s = fold (cleanupModelLockKey now) (jkeys (modelLockouts s0)) s0
      in (map (\<lambda>(k, e). (parseLockKey k, infoOf now e, le_until e)) (modelLockouts s), s))"

end
