(* ===== verification/LockoutLaws.thy ===== *)
theory LockoutLaws
  imports ModelLockout
begin

text \<open>
  Laws of the model lockouts: a lock is kept by every operation until its time (only the
  explicit clears remove it), consecutive failures escalate by the capped doubling of
  \<open>capped_backoff\<close>, the eviction removes expired locks only, and two places where a lock and
  its failure count are kept under different keys or lives.
\<close>

section \<open>Keys\<close>

lemma getCanonicalLockProvider_eq [simp]: "getCanonicalLockProvider reg p = resolveProviderId reg p"
  by (simp add: getCanonicalLockProvider_def cachedLockProvider_def)

text \<open>The memo of \<open>getCanonicalLockProvider\<close> never changes an answer.\<close>

lemma cachedLockProvider_correct:
  assumes "\<And>q c. jget q cache = Some c \<Longrightarrow> c = resolveProviderId reg q"
  shows "fst (cachedLockProvider reg cache p) = resolveProviderId reg p"
    and "jget q (snd (cachedLockProvider reg cache p)) = Some c \<Longrightarrow> c = resolveProviderId reg q"
  using assms by (auto simp: cachedLockProvider_def split: option.splits if_splits)

lemma key_not_found: "getModelLockKey reg p c m (Some ''not_found'') st = exactLockKey reg p c m"
  by (simp add: getModelLockKey_def exactLockKey_def)

lemma key_404: "getModelLockKey reg p c m r (Some 404) = exactLockKey reg p c m"
  by (simp add: getModelLockKey_def exactLockKey_def)

lemma key_family: "r \<noteq> ''not_found'' \<Longrightarrow> getModelLockKey reg p c m (Some r) None = getModelLockKey reg p c m None None"
  by (simp add: getModelLockKey_def)

lemma key_status: "st \<noteq> 404 \<Longrightarrow> getModelLockKey reg p c m r (Some st) = getModelLockKey reg p c m r None"
  by (simp add: getModelLockKey_def)

section \<open>Locks are kept\<close>

definition lockedTo :: "string \<Rightarrow> millis \<Rightarrow> lockouts \<Rightarrow> bool" where
  "lockedTo k t s \<longleftrightarrow> jinv (modelLockouts s)
     \<and> (case jget k (modelLockouts s) of None \<Rightarrow> False | Some e \<Rightarrow> t \<le> le_until e)"

lemma lockedTo_has: "lockedTo k t s \<Longrightarrow> jhas k (modelLockouts s)"
  by (auto simp: lockedTo_def jhas_def split: option.splits)

lemma cleanup_locks:
  "modelLockouts (cleanupModelLockKey now k s) =
     (case jget k (modelLockouts s) of
        None \<Rightarrow> modelLockouts s
      | Some e \<Rightarrow> if le_until e < now then jdel k (modelLockouts s) else modelLockouts s)"
  by (auto simp: cleanupModelLockKey_def Let_def split: option.splits)

lemma cleanup_lockedTo: "lockedTo k t s \<Longrightarrow> now \<le> t \<Longrightarrow> lockedTo k t (cleanupModelLockKey now k' s)"
  by (auto simp: lockedTo_def cleanup_locks split: option.splits)

lemma cleanup_all_lockedTo:
  "lockedTo k t s \<Longrightarrow> now \<le> t \<Longrightarrow> lockedTo k t (fold (cleanupModelLockKey now) ks s)"
  by (induction ks arbitrary: s) (simp_all add: cleanup_lockedTo)

lemma fold_jdel: "fold jdel ks m = jdel_all ks m"
proof (induction ks arbitrary: m)
  case Nil
  then show ?case by (simp add: jdel_all_def)
next
  case (Cons k ks)
  then show ?case by (auto simp: jdel_all_def jdel_def intro: filter_cong)
qed

lemma setLock_lockedTo:
  "lockedTo k t s \<Longrightarrow> (k = k' \<longrightarrow> t \<le> le_until e) \<Longrightarrow> lockedTo k t (setLock k' e s)"
  by (auto simp: lockedTo_def setLock_def)

lemma keepLonger_until [simp]: "le_until (keepLonger md e) = le_until e"
  by (simp add: keepLonger_def)

lemma lockModel_lockedTo:
  assumes "lockedTo k t s" and "now \<le> t"
  shows "lockedTo k t (lockModel reg now p c model reason d md s)"
proof (cases "nullish model ''''")
  case Nil
  with assms show ?thesis by (simp add: lockModel_def)
next
  case (Cons a as)
  let ?key = "getModelLockKey reg p c (a # as) (Some reason) None"
  let ?s = "cleanupModelLockKey now ?key s"
  have l: "lockedTo k t ?s" by (rule cleanup_lockedTo [OF assms])
  show ?thesis
  proof (cases "k = ?key")
    case True
    with l obtain e where e: "jget ?key (modelLockouts ?s) = Some e" "t \<le> le_until e"
      by (auto simp: lockedTo_def split: option.splits)
    show ?thesis
      using l e Cons by (auto simp: lockModel_def Let_def intro!: setLock_lockedTo)
  next
    case False
    with l Cons show ?thesis by (auto simp: lockModel_def Let_def intro!: setLock_lockedTo)
  qed
qed

lemma lockModel_sets:
  assumes "jinv (modelLockouts s)" and "nullish model '''' \<noteq> ''''"
  shows "lockedTo (getModelLockKey reg p c (the model) (Some reason) None) (now + d)
           (lockModel reg now p c model reason d md s)"
proof -
  obtain a as where m: "model = Some (a # as)" using assms(2) by (cases model) (auto simp: neq_Nil_conv)
  let ?key = "getModelLockKey reg p c (a # as) (Some reason) None"
  have "jinv (modelLockouts (cleanupModelLockKey now ?key s))"
    using assms(1) by (simp add: cleanup_locks split: option.split)
  then show ?thesis by (auto simp: m lockModel_def Let_def lockedTo_def setLock_def)
qed

lemma evictLocks_lockedTo:
  assumes "lockedTo k t s" and "now < t"
  shows "lockedTo k t (evictLocks now cap s)"
proof -
  let ?m = "modelLockouts s"
  let ?ks = "map fst (take (jsize ?m - cap) (filter (\<lambda>(k, e). le_until e \<le> now) ?m))"
  obtain e where e: "jget k ?m = Some e" "t \<le> le_until e" and i: "jinv ?m"
    using assms(1) by (auto simp: lockedTo_def split: option.splits)
  have "k \<notin> set ?ks"
  proof
    assume "k \<in> set ?ks"
    then obtain e' where "(k, e') \<in> set ?m" "le_until e' \<le> now"
      by (auto dest!: in_set_takeD)
    moreover have "jget k ?m = Some e'" using i calculation(1) by (simp add: jget_eq_Some_iff)
    ultimately show False using e assms(2) by simp
  qed
  with e i assms(1) show ?thesis by (auto simp: evictLocks_def Let_def fold_jdel lockedTo_def)
qed

lemma lockedTo_locks [simp]: "lockedTo k t (s\<lparr>modelFailureState := f\<rparr>) = lockedTo k t s"
  by (simp add: lockedTo_def)

lemma evict_lockedTo: "lockedTo k t s \<Longrightarrow> now < t \<Longrightarrow> lockedTo k t (evictLockoutOverflow now cap s)"
  using evictLocks_lockedTo [of k t s now cap]
  by (simp add: evictLockoutOverflow_def evictFailures_def)

lemma cleanupTick_lockedTo: "lockedTo k t s \<Longrightarrow> now < t \<Longrightarrow> lockedTo k t (cleanupTick now s)"
  by (simp add: cleanupTick_def Let_def evict_lockedTo cleanup_all_lockedTo)

lemma record_locks:
  "snd (recordModelLockoutFailure reg mid now p c m reason st fb pr opts s) =
     (let key = getModelLockKey reg p c m (Some reason) (Some st); r = fst (recordModelLockoutFailure reg mid now p c m reason st fb pr opts s)
      in lockModel reg now p c (Some m) reason (fr_cooldownMs r)
           \<lparr>md_failureCount = Some (fr_failureCount r), md_lastFailureAt = Some now, md_resetAfterMs = Some (fr_resetAfterMs r)\<rparr>
           ((cleanupModelLockKey now key s)\<lparr>modelFailureState := jset key
              \<lparr>fs_failureCount = fr_failureCount r, fs_lastFailureAt = now, fs_resetAfterMs = fr_resetAfterMs r,
               fs_lastCooldownMs = Some (fr_cooldownMs r)\<rparr> (modelFailureState (cleanupModelLockKey now key s))\<rparr>))"
  by (simp only: recordModelLockoutFailure_def Let_def fst_conv snd_conv failure_result.select_convs)

lemma record_lockedTo:
  assumes "lockedTo k t s" and "now \<le> t"
  shows "lockedTo k t (snd (recordModelLockoutFailure reg mid now p c m reason st fb pr opts s))"
  unfolding record_locks Let_def
  using assms by (intro lockModel_lockedTo) (simp_all add: cleanup_lockedTo)

lemma record_sets:
  assumes "jinv (modelLockouts s)" and "m \<noteq> ''''"
  shows "lockedTo (getModelLockKey reg p c m (Some reason) None)
    (now + fr_cooldownMs (fst (recordModelLockoutFailure reg mid now p c m reason st fb pr opts s)))
    (snd (recordModelLockoutFailure reg mid now p c m reason st fb pr opts s))"
proof -
  have "jinv (modelLockouts (cleanupModelLockKey now k s))" for k
    using assms(1) by (simp add: cleanup_locks split: option.split)
  then show ?thesis
    unfolding record_locks Let_def using assms(2)
    by (intro lockModel_sets [where model = "Some m", unfolded option.sel]) simp_all
qed

lemma isModelLocked_lockedTo: "lockedTo k t s \<Longrightarrow> now \<le> t \<Longrightarrow> lockedTo k t (snd (isModelLocked reg now p c m s))"
  by (cases "nullish m ''''") (simp_all add: isModelLocked_def Let_def cleanup_lockedTo)

lemma info_lockedTo: "lockedTo k t s \<Longrightarrow> now \<le> t \<Longrightarrow> lockedTo k t (snd (getModelLockoutInfo reg now p c m s))"
  by (cases "nullish m ''''") (auto simp: getModelLockoutInfo_def Let_def cleanup_lockedTo split: option.split)

lemma decay_lockedTo: "lockedTo k t s \<Longrightarrow> lockedTo k t (snd (decayModelFailureCount reg p c m s))"
  by (auto simp: decayModelFailureCount_def Let_def lockedTo_def split: option.splits)

section \<open>Runs\<close>

text \<open>Every operation but the two clears, at times before \<open>bound\<close>, in any order.\<close>

inductive lock_run :: "registry \<Rightarrow> millis \<Rightarrow> lockouts \<Rightarrow> lockouts \<Rightarrow> bool" for reg bound where
  stay: "lock_run reg bound s s"
| locking: "lock_run reg bound s u \<Longrightarrow> now < bound \<Longrightarrow>
    lock_run reg bound s (lockModel reg now p c model reason d md u)"
| failure: "lock_run reg bound s u \<Longrightarrow> now < bound \<Longrightarrow>
    lock_run reg bound s (snd (recordModelLockoutFailure reg mid now p c m reason st fb pr opts u))"
| decay: "lock_run reg bound s u \<Longrightarrow> lock_run reg bound s (snd (decayModelFailureCount reg p c m u))"
| query: "lock_run reg bound s u \<Longrightarrow> now < bound \<Longrightarrow> lock_run reg bound s (snd (isModelLocked reg now p c model u))"
| info: "lock_run reg bound s u \<Longrightarrow> now < bound \<Longrightarrow> lock_run reg bound s (snd (getModelLockoutInfo reg now p c model u))"
| listing: "lock_run reg bound s u \<Longrightarrow> now < bound \<Longrightarrow> lock_run reg bound s (snd (getAllModelLockouts now u))"
| tick: "lock_run reg bound s u \<Longrightarrow> now < bound \<Longrightarrow> lock_run reg bound s (cleanupTick now u)"
| evict: "lock_run reg bound s u \<Longrightarrow> now < bound \<Longrightarrow> lock_run reg bound s (evictLockoutOverflow now cap u)"

lemma lock_run_lockedTo: "lock_run reg bound s u \<Longrightarrow> lockedTo k bound s \<Longrightarrow> lockedTo k bound u"
  by (induction rule: lock_run.induct)
     (simp_all add: lockModel_lockedTo record_lockedTo decay_lockedTo isModelLocked_lockedTo
        info_lockedTo getAllModelLockouts_def Let_def cleanup_all_lockedTo cleanupTick_lockedTo evict_lockedTo)

lemma isModelLocked_exact:
  "lockedTo (exactLockKey reg p c m) t s \<Longrightarrow> now \<le> t \<Longrightarrow> m \<noteq> '''' \<Longrightarrow> fst (isModelLocked reg now p c (Some m) s)"
  using cleanup_lockedTo [of "exactLockKey reg p c m" t s now "exactLockKey reg p c m"]
  by (cases m) (simp_all add: isModelLocked_def Let_def lockedTo_has)

lemma isModelLocked_family:
  assumes "lockedTo (getModelLockKey reg p c m None None) t s" and "now \<le> t" and "m \<noteq> ''''"
  shows "fst (isModelLocked reg now p c (Some m) s)"
proof -
  let ?fk = "getModelLockKey reg p c m None None"
  have "lockedTo ?fk t (cleanupModelLockKey now ?fk (cleanupModelLockKey now (exactLockKey reg p c m) s))"
    by (intro cleanup_lockedTo assms)
  from lockedTo_has [OF this] show ?thesis
    using assms(3) by (cases m) (simp_all add: isModelLocked_def Let_def)
qed

lemma isModelLocked_any:
  "lockedTo (getModelLockKey reg p c m (Some r) None) t s \<Longrightarrow> now \<le> t \<Longrightarrow> m \<noteq> '''' \<Longrightarrow>
   fst (isModelLocked reg now p c (Some m) s)"
  by (cases "r = ''not_found''") (auto simp: key_not_found key_family intro: isModelLocked_exact isModelLocked_family)

section \<open>Escalation\<close>

text \<open>The cap of the scaled cooldown and the cooldown without an exact one.\<close>

definition lockCap :: "lock_options \<Rightarrow> int" where
  "lockCap opts = (case lo_maxCooldownMs opts of None \<Rightarrow> BACKOFF_max | Some m \<Rightarrow> (if 0 < m then m else BACKOFF_max))"

definition lockSteps :: "lock_profile option \<Rightarrow> int" where
  "lockSteps pr = max 0 (nullish (Option.bind pr lp_maxBackoffSteps) BACKOFF_maxLevel)"

definition lockBase :: "int \<Rightarrow> int \<Rightarrow> lock_profile option \<Rightarrow> int" where
  "lockBase status fb pr =
     (let b = getModelLockBaseCooldown status fb pr in if 0 < b then b else 1000)"

lemma lockCap_pos: "0 < lockCap opts"
  by (simp add: lockCap_def BACKOFF_max_def split: option.split)

lemma lockBase_pos: "0 < lockBase status fb pr"
  by (simp add: lockBase_def Let_def)

definition scaledDelay :: "int \<Rightarrow> int \<Rightarrow> lock_profile option \<Rightarrow> lock_options \<Rightarrow> nat \<Rightarrow> int" where
  "scaledDelay status fb pr opts n = min (lockBase status fb pr * 2 ^ min n (nat (lockSteps pr))) (lockCap opts)"

lemma nat_min_steps: "nat (min (max 0 (int n)) (max 0 k)) = min n (nat (max 0 k))"
  by (auto simp: min_def max_def nat_le_iff le_nat_iff)

lemma failureCooldown_scaled:
  assumes "lo_exactCooldownMs opts = None \<or> (\<exists>x \<le> 0. lo_exactCooldownMs opts = Some x)"
  shows "failureCooldown status fb pr opts (int n + 1) = scaledDelay status fb pr opts n"
proof -
  have "getScaledCooldown (getModelLockBaseCooldown status fb pr) (int n + 1)
      (nullish (Option.bind pr lp_maxBackoffSteps) BACKOFF_maxLevel)
    = lockBase status fb pr * 2 ^ min n (nat (lockSteps pr))"
    using nat_min_steps [of n "nullish (Option.bind pr lp_maxBackoffSteps) BACKOFF_maxLevel"]
    by (simp add: getScaledCooldown_def lockBase_def lockSteps_def Let_def)
  with assms show ?thesis
    by (auto simp: failureCooldown_def scaledDelay_def lockCap_def Let_def split: option.split)
qed

interpretation lockout: capped_backoff "scaledDelay status fb pr opts" "lockCap opts"
  for status fb pr opts
proof
  fix n
  let ?b = "lockBase status fb pr" let ?k = "nat (lockSteps pr)"
  have b: "0 \<le> ?b" and c: "0 \<le> lockCap opts"
    using lockBase_pos [of status fb pr] lockCap_pos [of opts] by simp_all
  show "0 \<le> scaledDelay status fb pr opts 0" using b c by (simp add: scaledDelay_def)
  show "scaledDelay status fb pr opts n \<le> lockCap opts" by (simp add: scaledDelay_def)
  show "scaledDelay status fb pr opts n \<le> scaledDelay status fb pr opts (Suc n)"
    unfolding scaledDelay_def by (rule min_pow_step [OF b]) simp
  show "scaledDelay status fb pr opts (Suc n) \<le> 2 * scaledDelay status fb pr opts n"
    unfolding scaledDelay_def by (rule min_pow_double [OF b c]) simp
qed

lemma getFailureWindowMs_pos: "0 < getFailureWindowMs pr"
  by (simp add: getFailureWindowMs_def split: option.split)

text \<open>What a failure leaves behind: its count, and what the next one finds.\<close>

definition failureKnown :: "string \<Rightarrow> int \<Rightarrow> millis \<Rightarrow> int \<Rightarrow> int \<Rightarrow> lockouts \<Rightarrow> bool" where
  "failureKnown key n now w d s \<longleftrightarrow>
     jget key (modelFailureState s) = Some \<lparr>fs_failureCount = n, fs_lastFailureAt = now,
       fs_resetAfterMs = w, fs_lastCooldownMs = Some d\<rparr>"

lemma cleanup_known:
  "failureKnown key n t w d s \<Longrightarrow> now - t \<le> w + d \<Longrightarrow> failureKnown key n t w d (cleanupModelLockKey now k s)"
  by (auto simp: failureKnown_def cleanupModelLockKey_def Let_def split: option.split)

lemma setLock_known [simp]: "failureKnown key n t w d (setLock k e s) = failureKnown key n t w d s"
  by (simp add: failureKnown_def setLock_def)

lemma lockModel_known:
  assumes "failureKnown key n t w d s" and "now - t \<le> w + d"
  shows "failureKnown key n t w d (lockModel reg now p c model reason d' md s)"
  using assms cleanup_known [OF assms]
  by (cases "nullish model ''''") (auto simp: lockModel_def Let_def)

lemma record_count:
  assumes "failureKnown (getModelLockKey reg p c m (Some reason) (Some st)) n t w d s" and "now - t \<le> w + d"
  shows "fr_failureCount (fst (recordModelLockoutFailure reg mid now p c m reason st fb pr opts s)) = n + 1"
  using cleanup_known [OF assms, of "getModelLockKey reg p c m (Some reason) (Some st)"] assms(2)
  by (simp add: recordModelLockoutFailure_def Let_def failureKnown_def)

lemma record_cooldown:
  assumes "reason \<noteq> ''quota_exhausted''"
  shows "fr_cooldownMs (fst (recordModelLockoutFailure reg mid now p c m reason st fb pr opts s)) =
    failureCooldown st fb pr opts (fr_failureCount (fst (recordModelLockoutFailure reg mid now p c m reason st fb pr opts s)))"
  using assms by (simp add: recordModelLockoutFailure_def Let_def)

lemma record_window:
  "fr_resetAfterMs (fst (recordModelLockoutFailure reg mid now p c m reason st fb pr opts s)) = getFailureWindowMs pr"
  by (simp add: recordModelLockoutFailure_def Let_def)

lemma record_known:
  assumes "0 \<le> fr_resetAfterMs r + fr_cooldownMs r"
    and "r = fst (recordModelLockoutFailure reg mid now p c m reason st fb pr opts s)"
  shows "failureKnown (getModelLockKey reg p c m (Some reason) (Some st)) (fr_failureCount r) now
    (fr_resetAfterMs r) (fr_cooldownMs r) (snd (recordModelLockoutFailure reg mid now p c m reason st fb pr opts s))"
  unfolding record_locks Let_def assms(2) [symmetric]
  using assms(1) by (intro lockModel_known) (simp_all add: failureKnown_def)

text \<open>The results of failures of one model at the given times.\<close>

fun failureRun ::
  "registry \<Rightarrow> string \<Rightarrow> string \<Rightarrow> string \<Rightarrow> string \<Rightarrow> int \<Rightarrow> int \<Rightarrow> lock_profile option \<Rightarrow> lock_options
   \<Rightarrow> millis list \<Rightarrow> lockouts \<Rightarrow> failure_result list" where
  "failureRun reg p c m reason st fb pr opts [] s = []"
| "failureRun reg p c m reason st fb pr opts (t # ts) s =
     (let (r, s') = recordModelLockoutFailure reg 0 t p c m reason st fb pr opts s
      in r # failureRun reg p c m reason st fb pr opts ts s')"

text \<open>Each failure comes within the window of the one before, counted from its cooldown on.\<close>

fun withinWindows :: "int \<Rightarrow> (nat \<Rightarrow> int) \<Rightarrow> nat \<Rightarrow> millis list \<Rightarrow> bool" where
  "withinWindows w delay n (t # u # ts) \<longleftrightarrow> u - t \<le> w + delay n \<and> withinWindows w delay (Suc n) (u # ts)"
| "withinWindows w delay n ts \<longleftrightarrow> True"

lemma failureRun_known:
  assumes "reason \<noteq> ''quota_exhausted''" and exact: "lo_exactCooldownMs opts = None"
    and "failureKnown (getModelLockKey reg p c m (Some reason) (Some st)) (int n + 1) t0
      (getFailureWindowMs pr) (scaledDelay st fb pr opts n) s"
    and "withinWindows (getFailureWindowMs pr) (scaledDelay st fb pr opts) n (t0 # ts)"
  shows "map fr_failureCount (failureRun reg p c m reason st fb pr opts ts s) = map (\<lambda>i. int i + 1) [Suc n ..< Suc n + length ts]
    \<and> map fr_cooldownMs (failureRun reg p c m reason st fb pr opts ts s) = map (scaledDelay st fb pr opts) [Suc n ..< Suc n + length ts]"
  using assms(3,4)
proof (induction ts arbitrary: n t0 s)
  case Nil
  then show ?case by simp
next
  case (Cons t ts)
  let ?key = "getModelLockKey reg p c m (Some reason) (Some st)"
  obtain r s' where rs: "recordModelLockoutFailure reg 0 t p c m reason st fb pr opts s = (r, s')" by (rule prod.exhaust)
  have win: "t - t0 \<le> getFailureWindowMs pr + scaledDelay st fb pr opts n"
    using Cons.prems(2) by simp
  have n: "fr_failureCount r = int (Suc n) + 1"
    using record_count [OF Cons.prems(1) win, of 0 fb pr opts] rs by simp
  have d: "fr_cooldownMs r = scaledDelay st fb pr opts (Suc n)" "fr_resetAfterMs r = getFailureWindowMs pr"
    using record_cooldown [OF assms(1), of reg 0 t p c m st fb pr opts s] rs n
      record_window [of reg 0 t p c m reason st fb pr opts s]
      failureCooldown_scaled [of opts st fb pr "Suc n"] exact by simp_all
  have k: "failureKnown ?key (int (Suc n) + 1) t (getFailureWindowMs pr) (scaledDelay st fb pr opts (Suc n)) s'"
  proof -
    have "0 \<le> fr_resetAfterMs r + fr_cooldownMs r"
      using lockout.delay_nonneg [of st fb pr opts "Suc n"] getFailureWindowMs_pos [of pr] by (simp add: d)
    moreover have "r = fst (recordModelLockoutFailure reg 0 t p c m reason st fb pr opts s)" by (simp add: rs)
    ultimately have "failureKnown ?key (fr_failureCount r) t (fr_resetAfterMs r) (fr_cooldownMs r)
        (snd (recordModelLockoutFailure reg 0 t p c m reason st fb pr opts s))"
      by (rule record_known)
    then show ?thesis unfolding rs snd_conv n d .
  qed
  have w: "withinWindows (getFailureWindowMs pr) (scaledDelay st fb pr opts) (Suc n) (t # ts)"
    using Cons.prems(2) by (cases ts) simp_all
  have u: "[Suc n ..< Suc n + length (t # ts)] = Suc n # [Suc (Suc n) ..< Suc (Suc n) + length ts]"
    by (subst upt_conv_Cons) (simp_all del: upt_Suc)
  have run: "failureRun reg p c m reason st fb pr opts (t # ts) s = r # failureRun reg p c m reason st fb pr opts ts s'"
    by (simp add: rs)
  show ?case
    unfolding run u list.map n d(1) using Cons.IH [OF k w] by simp
qed

section \<open>Properties\<close>

text \<open>
  C18. A lockout holds for its whole time: after a failure was recorded with cooldown \<open>d\<close> at
  \<open>now\<close>, the model is reported as locked until \<open>now + d\<close>, whatever other failures, locks of
  any length, decays, queries, cleanups and evictions happen in between. A decay of the failure count to 0 does not
  end it, although the guide says that it deletes the lockout and re-enables the model.
\<close>

theorem lockout_holds:
  assumes "jinv (modelLockouts s)" and "m \<noteq> ''''"
    and "recordModelLockoutFailure reg mid now p c m reason st fb pr opts s = (r, s1)"
    and "lock_run reg (now + fr_cooldownMs r) s1 s2" and "t \<le> now + fr_cooldownMs r"
  shows "fst (isModelLocked reg t p c (Some m) s2)"
proof -
  have "lockedTo (getModelLockKey reg p c m (Some reason) None) (now + fr_cooldownMs r) s1"
    using record_sets [OF assms(1,2), of reg p c reason now mid st fb pr opts] assms(3) by simp
  then have "lockedTo (getModelLockKey reg p c m (Some reason) None) (now + fr_cooldownMs r) s2"
    by (rule lock_run_lockedTo [OF assms(4)])
  then show ?thesis by (rule isModelLocked_any [OF _ assms(5,2)])
qed

definition emptyRegistry :: registry where
  "emptyRegistry = \<lparr>sections = [], passthrough = [], oauthProviders = []\<rparr>"

definition noOptions :: lock_options where
  "noOptions = \<lparr>lo_exactCooldownMs = None, lo_maxCooldownMs = None, lo_upstreamReset = False\<rparr>"

definition lockedGpt :: "failure_result \<times> lockouts" where
  "lockedGpt = recordModelLockoutFailure emptyRegistry 0 1000 ''openai'' ''c1'' ''gpt-4'' ''rate_limit'' 429 5000 None noOptions noLockouts"

theorem lockout_holds_witness:
  "fst (isModelLocked emptyRegistry 6000 ''openai'' ''c1'' (Some ''gpt-4'')
      (cleanupTick 5500 (snd (decayModelFailureCount emptyRegistry ''openai'' ''c1'' ''gpt-4'' (snd lockedGpt)))))"
proof -
  have d: "fr_cooldownMs (fst lockedGpt) = 5000" by code_simp
  have run: "lock_run emptyRegistry 6000 (snd lockedGpt)
      (cleanupTick 5500 (snd (decayModelFailureCount emptyRegistry ''openai'' ''c1'' ''gpt-4'' (snd lockedGpt))))"
    by (intro lock_run.tick lock_run.decay lock_run.stay) simp
  have i: "jinv (modelLockouts noLockouts)" by (simp add: noLockouts_def)
  show ?thesis
    by (rule lockout_holds [OF i _ _ _ , of "''gpt-4''" emptyRegistry 0 1000 "''openai''" "''c1''" "''rate_limit''" 429 5000
          None noOptions "fst lockedGpt" "snd lockedGpt"]) (use run d in \<open>simp_all add: lockedGpt_def\<close>)
qed

text \<open>
  C28. Failures escalate exactly: the \<open>i\<close>-th of a series of failures of a model, each within
  the window that the one before left open, is counted as \<open>i\<close> and gets the cooldown
  \<open>min (base * 2 ^ min (i - 1) steps) cap\<close>; so the cooldowns never shrink, at most double and
  never pass the cap.
\<close>

theorem lockout_escalation:
  assumes "reason \<noteq> ''quota_exhausted''" and "lo_exactCooldownMs opts = None"
    and "withinWindows (getFailureWindowMs pr) (scaledDelay st fb pr opts) 0 ts"
  shows "map fr_failureCount (failureRun reg p c m reason st fb pr opts ts noLockouts) = map (\<lambda>i. int i + 1) [0 ..< length ts]
    \<and> map fr_cooldownMs (failureRun reg p c m reason st fb pr opts ts noLockouts) =
        map (\<lambda>i. min (lockBase st fb pr * 2 ^ min i (nat (lockSteps pr))) (lockCap opts)) [0 ..< length ts]"
proof (cases ts)
  case Nil
  then show ?thesis by simp
next
  case (Cons t ts')
  let ?key = "getModelLockKey reg p c m (Some reason) (Some st)"
  obtain r s' where rs: "recordModelLockoutFailure reg 0 t p c m reason st fb pr opts noLockouts = (r, s')"
    by (rule prod.exhaust)
  have n: "fr_failureCount r = 1"
    using rs by (auto simp: recordModelLockoutFailure_def Let_def noLockouts_def cleanupModelLockKey_def)
  have d: "fr_cooldownMs r = scaledDelay st fb pr opts 0" "fr_resetAfterMs r = getFailureWindowMs pr"
    using record_cooldown [OF assms(1), of reg 0 t p c m st fb pr opts noLockouts] rs n
      record_window [of reg 0 t p c m reason st fb pr opts noLockouts]
      failureCooldown_scaled [of opts st fb pr 0] assms(2) by simp_all
  have k: "failureKnown ?key (int 0 + 1) t (getFailureWindowMs pr) (scaledDelay st fb pr opts 0) s'"
  proof -
    have "0 \<le> fr_resetAfterMs r + fr_cooldownMs r"
      using lockout.delay_nonneg [of st fb pr opts 0] getFailureWindowMs_pos [of pr] by (simp add: d)
    moreover have "r = fst (recordModelLockoutFailure reg 0 t p c m reason st fb pr opts noLockouts)" by (simp add: rs)
    ultimately have "failureKnown ?key (fr_failureCount r) t (fr_resetAfterMs r) (fr_cooldownMs r)
        (snd (recordModelLockoutFailure reg 0 t p c m reason st fb pr opts noLockouts))"
      by (rule record_known)
    then show ?thesis unfolding rs snd_conv n d by simp
  qed
  have u: "[0 ..< length ts] = 0 # [Suc 0 ..< Suc 0 + length ts']"
    unfolding Cons by (subst upt_conv_Cons) (simp_all del: upt_Suc)
  have run: "failureRun reg p c m reason st fb pr opts ts noLockouts = r # failureRun reg p c m reason st fb pr opts ts' s'"
    by (simp add: Cons rs)
  have "withinWindows (getFailureWindowMs pr) (scaledDelay st fb pr opts) 0 (t # ts')"
    using assms(3) Cons by simp
  from failureRun_known [OF assms(1,2) k this]
  show ?thesis
    unfolding run u list.map n d(1) by (simp add: scaledDelay_def)
qed

theorem lockout_escalation_witness:
  "map fr_cooldownMs (failureRun emptyRegistry ''openai'' ''c1'' ''gpt-4'' ''rate_limit'' 429 40000 None noOptions
      [0, 50000, 140000, 300000] noLockouts) = [40000, 80000, 120000, 120000]"
proof -
  have w: "withinWindows (getFailureWindowMs None) (scaledDelay 429 40000 None noOptions) 0 [0, 50000, 140000, 300000]"
    by code_simp
  have e: "lo_exactCooldownMs noOptions = None" by (simp add: noOptions_def)
  have "map fr_cooldownMs (failureRun emptyRegistry ''openai'' ''c1'' ''gpt-4'' ''rate_limit'' 429 40000 None noOptions
      [0, 50000, 140000, 300000] noLockouts) =
    map (\<lambda>i. min (lockBase 429 40000 None * 2 ^ min i (nat (lockSteps None))) (lockCap noOptions))
      [0 ..< length [0, 50000, 140000, 300000 :: int]]"
    by (rule conjunct2 [OF lockout_escalation [OF _ e w]]) simp
  also have "\<dots> = [40000, 80000, 120000, 120000]" by code_simp
  finally show ?thesis .
qed

text \<open>
  A missing model locks its whole family: a failure with status 404 and a reason other
  than \<open>not_found\<close> is counted under the key of the model alone, but the lock is set under the
  family key, so that every other model of the family is locked as well.
\<close>

theorem lockout_404_locks_family:
  assumes "jinv (modelLockouts s)" and "m \<noteq> ''''" and "m' \<noteq> ''''" and "reason \<noteq> ''not_found''"
    and "getModelLockKey reg p c m' None None = getModelLockKey reg p c m None None"
    and "recordModelLockoutFailure reg mid now p c m reason 404 fb pr opts s = (r, s1)"
    and "t \<le> now + fr_cooldownMs r" and "0 \<le> fr_resetAfterMs r + fr_cooldownMs r"
  shows "fst (isModelLocked reg t p c (Some m') s1)
    \<and> map_option fs_failureCount (jget (exactLockKey reg p c m) (modelFailureState s1)) = Some (fr_failureCount r)"
proof -
  have "lockedTo (getModelLockKey reg p c m None None) (now + fr_cooldownMs r) s1"
    using record_sets [OF assms(1,2), of reg p c reason now mid 404 fb pr opts] assms(6) key_family [OF assms(4)] by simp
  then have "fst (isModelLocked reg t p c (Some m') s1)"
    by (intro isModelLocked_family [OF _ assms(7,3)]) (simp add: assms(5))
  moreover have "failureKnown (exactLockKey reg p c m) (fr_failureCount r) now (fr_resetAfterMs r) (fr_cooldownMs r)
      (snd (recordModelLockoutFailure reg mid now p c m reason 404 fb pr opts s))"
    using record_known [OF assms(8), of reg mid now p c m reason 404 fb pr opts s] assms(6) by (simp add: key_404)
  ultimately show ?thesis using assms(6) by (simp add: failureKnown_def)
qed

theorem lockout_404_locks_family_witness:
  "fst (isModelLocked emptyRegistry 2000 ''codex'' ''c1'' (Some ''gpt-5'')
     (snd (recordModelLockoutFailure emptyRegistry 0 1000 ''codex'' ''c1'' ''gpt-5-retired'' (classifyLockoutReason 404) 404
        120000 None noOptions noLockouts)))"
proof -
  let ?x = "recordModelLockoutFailure emptyRegistry 0 1000 ''codex'' ''c1'' ''gpt-5-retired'' (classifyLockoutReason 404) 404
        120000 None noOptions noLockouts"
  have i: "jinv (modelLockouts noLockouts)" by (simp add: noLockouts_def)
  have f: "getModelLockKey emptyRegistry ''codex'' ''c1'' ''gpt-5'' None None = getModelLockKey emptyRegistry ''codex'' ''c1'' ''gpt-5-retired'' None None"
    by code_simp
  have d: "2000 \<le> 1000 + fr_cooldownMs (fst ?x)" "0 \<le> fr_resetAfterMs (fst ?x) + fr_cooldownMs (fst ?x)"
    by code_simp+
  have r: "classifyLockoutReason 404 \<noteq> ''not_found''" by code_simp
  from lockout_404_locks_family [OF i _ _ r f _ d, where mid = 0 and fb = 120000 and pr = None
      and opts = noOptions and ?s1.0 = "snd ?x"]
  show ?thesis by simp
qed

text \<open>
  C37. Eviction never drops a running lock and otherwise respects the cap: afterwards at most
  \<open>cap\<close> locks are left, or as many as are still running if these are more.
\<close>

theorem lockout_eviction_bound:
  assumes "jinv (modelLockouts s)"
  shows "filter (\<lambda>(k, e). now < le_until e) (modelLockouts (evictLockoutOverflow now cap s))
      = filter (\<lambda>(k, e). now < le_until e) (modelLockouts s)
    \<and> jsize (modelLockouts (evictLockoutOverflow now cap s))
      \<le> max cap (length (filter (\<lambda>(k, e). now < le_until e) (modelLockouts s)))"
proof (cases "cap < jsize (modelLockouts s)")
  case False
  then show ?thesis by (simp add: evictLockoutOverflow_def evictFailures_def evictLocks_def)
next
  case True
  let ?m = "modelLockouts s"
  let ?old = "filter (\<lambda>(k, e). le_until e \<le> now) ?m"
  let ?ks = "map fst (take (jsize ?m - cap) ?old)"
  have m': "modelLockouts (evictLockoutOverflow now cap s) = jdel_all ?ks ?m"
    using True by (simp add: evictLockoutOverflow_def evictFailures_def evictLocks_def Let_def fold_jdel)
  have di: "distinct (map fst ?m)" using assms by (simp add: jinv_def jkeys_def)
  have dk: "distinct ?ks"
    using di by (simp add: take_map [symmetric] distinct_map_filter)
  have sub: "set ?ks \<subseteq> set (jkeys ?m)"
    by (auto simp: jkeys_def dest!: in_set_takeD)
  have keep: "k \<notin> set ?ks" if "(k, e) \<in> set ?m" "now < le_until e" for k e
  proof
    assume "k \<in> set ?ks"
    then obtain e' where "(k, e') \<in> set ?m" "le_until e' \<le> now" by (auto dest!: in_set_takeD)
    then have "e' = e" using eq_key_imp_eq_value [OF di] that(1) by blast
    with \<open>le_until e' \<le> now\<close> that(2) show False by simp
  qed
  have "filter (\<lambda>(k, e). now < le_until e) (jdel_all ?ks ?m) = filter (\<lambda>(k, e). now < le_until e) ?m"
    unfolding jdel_all_def filter_filter
    by (rule filter_cong [OF refl]) (use keep in force)
  moreover have "length ?ks = min (length ?old) (jsize ?m - cap)" by simp
  moreover have "length ?old + length (filter (\<lambda>(k, e). now < le_until e) ?m) = jsize ?m"
    using sum_length_filter_compl [of "\<lambda>(k, e). le_until e \<le> now" ?m]
    by (simp add: jsize_def case_prod_unfold not_le)
  ultimately show ?thesis
    using jsize_jdel_all [OF assms dk sub] m' True by simp
qed

theorem lockout_eviction_bound_witness:
  "jsize (modelLockouts (evictLockoutOverflow 2000 0 (snd lockedGpt))) = 1
   \<and> jsize (modelLockouts (evictLockoutOverflow 7000 0 (snd lockedGpt))) \<le> 0"
proof -
  have i: "jinv (modelLockouts (snd lockedGpt))" by code_simp
  have "filter (\<lambda>(k, e). 7000 < le_until e) (modelLockouts (snd lockedGpt)) = []" by code_simp
  with lockout_eviction_bound [OF i, of 7000 0]
  have "jsize (modelLockouts (evictLockoutOverflow 7000 0 (snd lockedGpt))) \<le> 0" by simp
  moreover have "jsize (modelLockouts (evictLockoutOverflow 2000 0 (snd lockedGpt))) = 1" by code_simp
  ultimately show ?thesis by simp
qed

text \<open>
  A recovered model stays locked: the decay that reports \<open>cleared\<close> forgets the failure
  count only; a lock that has not run out is still in force.
\<close>

theorem lockout_decay_keeps_lock:
  assumes "lockedTo (getModelLockKey reg p c m None None) until s" and "m \<noteq> ''''" and "t \<le> until"
    and "jget (getModelLockKey reg p c m None None) (modelFailureState s) = Some f" and "fs_failureCount f = 1"
  shows "fst (decayModelFailureCount reg p c m s) = (True, 0)
    \<and> fst (isModelLocked reg t p c (Some m) (snd (decayModelFailureCount reg p c m s)))"
proof
  show "fst (decayModelFailureCount reg p c m s) = (True, 0)"
    using assms(4,5) by (simp add: decayModelFailureCount_def Let_def)
  show "fst (isModelLocked reg t p c (Some m) (snd (decayModelFailureCount reg p c m s)))"
    using isModelLocked_family [OF decay_lockedTo [OF assms(1)] assms(3,2)] .
qed

theorem lockout_decay_keeps_lock_witness:
  "fst (decayModelFailureCount emptyRegistry ''openai'' ''c1'' ''gpt-4'' (snd lockedGpt)) = (True, 0)
   \<and> fst (isModelLocked emptyRegistry 5999 ''openai'' ''c1'' (Some ''gpt-4'')
        (snd (decayModelFailureCount emptyRegistry ''openai'' ''c1'' ''gpt-4'' (snd lockedGpt))))"
proof -
  let ?k = "getModelLockKey emptyRegistry ''openai'' ''c1'' ''gpt-4'' None None"
  have l: "lockedTo ?k 6000 (snd lockedGpt)" by code_simp
  have f: "jget ?k (modelFailureState (snd lockedGpt)) = Some \<lparr>fs_failureCount = 1, fs_lastFailureAt = 1000,
      fs_resetAfterMs = 1800000, fs_lastCooldownMs = Some 5000\<rparr>" by code_simp
  from lockout_decay_keeps_lock [OF l _ _ f, of 5999] show ?thesis by simp
qed

end
