(* ===== verification/WindowLog.thy ===== *)
theory WindowLog
  imports Prelude
begin

text \<open>
  Interface: limiters over a trailing window. A limiter answers calls at given times; of the
  calls it accepts for one client, at most \<open>N\<close> may fall into any window of length \<open>w\<close>. The
  program has two: the sliding-window rate limiter and the login lockout. What they share is
  that they keep the accepted times that still matter, and accept while there are fewer than
  \<open>N\<close> of them.
\<close>

definition inWindow :: "int \<Rightarrow> int \<Rightarrow> int list \<Rightarrow> int list" where
  "inWindow w t xs = filter (\<lambda>x. t - w < x \<and> x \<le> t) xs"

definition windowBounded :: "int \<Rightarrow> nat \<Rightarrow> int list \<Rightarrow> bool" where
  "windowBounded w N xs \<longleftrightarrow> (\<forall>t. length (inWindow w t xs) \<le> N)"

lemma length_filter_mono: "(\<And>x. x \<in> set xs \<Longrightarrow> P x \<Longrightarrow> Q x) \<Longrightarrow> length (filter P xs) \<le> length (filter Q xs)"
  by (induction xs) auto

lemma windowBounded_Nil [simp]: "windowBounded w N []"
  by (simp add: windowBounded_def inWindow_def)

lemma windowBounded_snoc:
  assumes "windowBounded w N xs" and "length (filter (\<lambda>x. now - w < x) xs) < N"
  shows "windowBounded w N (xs @ [now])"
  unfolding windowBounded_def
proof
  fix t
  show "length (inWindow w t (xs @ [now])) \<le> N"
  proof (cases "t - w < now \<and> now \<le> t")
    case True
    have "length (inWindow w t xs) \<le> length (filter (\<lambda>x. now - w < x) xs)"
      unfolding inWindow_def by (rule length_filter_mono) (use True in auto)
    with assms(2) True show ?thesis by (simp add: inWindow_def)
  next
    case False
    with assms(1) show ?thesis by (auto simp: windowBounded_def inWindow_def)
  qed
qed

text \<open>
  \<open>rep s log t\<close>: at time \<open>t\<close> the state \<open>s\<close> stands for the accepted calls \<open>log\<close> of the observed
  client. Calls of other clients are calls with \<open>mine c = False\<close>.
\<close>

locale window_limiter =
  fixes attempt :: "'c \<Rightarrow> int \<Rightarrow> 's \<Rightarrow> bool \<times> 's"
    and mine :: "'c \<Rightarrow> bool"
    and good :: "'c \<Rightarrow> bool"
    and rep :: "'s \<Rightarrow> int list \<Rightarrow> int \<Rightarrow> bool"
    and w :: int and N :: nat
  assumes other: "rep s log t \<Longrightarrow> t \<le> now \<Longrightarrow> good c \<Longrightarrow> \<not> mine c \<Longrightarrow> rep (snd (attempt c now s)) log now"
    and refused: "rep s log t \<Longrightarrow> t \<le> now \<Longrightarrow> good c \<Longrightarrow> mine c \<Longrightarrow> \<not> fst (attempt c now s) \<Longrightarrow>
      rep (snd (attempt c now s)) log now"
    and accepted: "rep s log t \<Longrightarrow> t \<le> now \<Longrightarrow> good c \<Longrightarrow> mine c \<Longrightarrow> fst (attempt c now s) \<Longrightarrow>
      rep (snd (attempt c now s)) (log @ [now]) now"
    and room: "rep s log t \<Longrightarrow> t \<le> now \<Longrightarrow> good c \<Longrightarrow> mine c \<Longrightarrow> fst (attempt c now s) \<Longrightarrow>
      length (filter (\<lambda>x. now - w < x) log) < N"
begin

text \<open>The accepted calls of the client in a sequence of calls.\<close>

fun acceptedTimes :: "('c \<times> int) list \<Rightarrow> 's \<Rightarrow> int list" where
  "acceptedTimes [] s = []"
| "acceptedTimes ((c, now) # cs) s =
     (let (ok, s') = attempt c now s
      in if ok \<and> mine c then now # acceptedTimes cs s' else acceptedTimes cs s')"

lemma accepted_bounded:
  assumes "rep s log t" and "windowBounded w N log" and "sorted (t # map snd cs)"
    and "\<forall>c \<in> set cs. good (fst c)"
  shows "windowBounded w N (log @ acceptedTimes cs s)"
  using assms
proof (induction cs arbitrary: s log t)
  case Nil
  then show ?case by simp
next
  case (Cons cn cs)
  obtain c now where cn: "cn = (c, now)" by (cases cn)
  have t: "t \<le> now" and good: "good c" using Cons.prems(3,4) cn by auto
  have rest: "sorted (now # map snd cs)" "\<forall>c \<in> set cs. good (fst c)" using Cons.prems(3,4) cn by auto
  obtain ok s' where a: "attempt c now s = (ok, s')" by (rule prod.exhaust)
  show ?case
  proof (cases "ok \<and> mine c")
    case True
    have "rep s' (log @ [now]) now" "length (filter (\<lambda>x. now - w < x) log) < N"
      using accepted [OF Cons.prems(1) t good] room [OF Cons.prems(1) t good] True a by simp_all
    with Cons.IH [of s' "log @ [now]" now] rest windowBounded_snoc [OF Cons.prems(2)] True a cn
    show ?thesis by simp
  next
    case False
    have "rep s' log now"
      using other [OF Cons.prems(1) t good] refused [OF Cons.prems(1) t good] False a by (cases "mine c") simp_all
    with Cons.IH [of s' log now] rest Cons.prems(2) False a cn show ?thesis by auto
  qed
qed

end

end
