(* ===== verification/SlidingWindow.thy ===== *)
theory SlidingWindow
  imports WindowLog
begin

text \<open>
  The sliding-window rate limiter of \<open>open-sse/services/slidingWindowLimiter.ts\<close>: the map of
  hits per key, \<open>tryAcquire\<close>, \<open>reset\<close> and the bound on the number of keys. It is a
  \<open>window_limiter\<close>; the properties are the trailing-window bound and the exactness of
  \<open>retryAfterMs\<close>.
\<close>

section \<open>Model\<close>

record rate_window =
  rw_requests :: int
  rw_windowMs :: int

record acquire_result =
  allowed :: bool
  retryAfterMs :: int

type_synonym hit_map = "(string, int list) jmap"

definition MAX_KEYS :: nat where "MAX_KEYS = 5000"

definition setHits :: "string \<Rightarrow> int list \<Rightarrow> hit_map \<Rightarrow> hit_map" where
  "setHits k live h =
     jset k live (if \<not> jhas k h \<and> MAX_KEYS \<le> jsize h then jdel (hd (jkeys h)) h else h)"

definition liveHits :: "string \<Rightarrow> int \<Rightarrow> int \<Rightarrow> hit_map \<Rightarrow> int list" where
  "liveHits k w now h = (case jget k h of None \<Rightarrow> [] | Some ts \<Rightarrow> filter (\<lambda>t. now - w < t) ts)"

definition tryAcquire :: "int \<Rightarrow> string \<Rightarrow> rate_window \<Rightarrow> hit_map \<Rightarrow> acquire_result \<times> hit_map" where
  "tryAcquire now k win h =
     (if \<not> 0 < rw_requests win \<or> \<not> 0 < rw_windowMs win then (\<lparr>allowed = True, retryAfterMs = 0\<rparr>, h)
      else
        (let live = liveHits k (rw_windowMs win) now h
         in if rw_requests win \<le> int (length live)
            then (\<lparr>allowed = False, retryAfterMs = max 0 (hd live + rw_windowMs win - now)\<rparr>, jset k live h)
            else (\<lparr>allowed = True, retryAfterMs = 0\<rparr>, setHits k (live @ [now]) h)))"

definition resetHits :: "string option \<Rightarrow> hit_map \<Rightarrow> hit_map" where
  "resetHits key h = (case key of None \<Rightarrow> [] | Some k \<Rightarrow> jdel k h)"

section \<open>The limiter as a window\<close>

text \<open>
  The keys in use are among \<open>K\<close>, no more than the map can hold; the hits of \<open>k\<close> agree with
  the log on every time that is still in the window.
\<close>

definition hitsRep :: "string \<Rightarrow> int \<Rightarrow> string list \<Rightarrow> hit_map \<Rightarrow> int list \<Rightarrow> int \<Rightarrow> bool" where
  "hitsRep k w K h log t \<longleftrightarrow> jinv h \<and> set (jkeys h) \<subseteq> set K
     \<and> liveHits k w t h = filter (\<lambda>x. t - w < x) log"

lemma filter_later: "t \<le> now \<Longrightarrow> filter (\<lambda>x. t - w < x \<and> now - w < x) xs = filter (\<lambda>x. now - w < (x::int)) xs"
  by (rule filter_cong) auto

lemma liveHits_later: "t \<le> now \<Longrightarrow> liveHits k w now h = filter (\<lambda>x. now - w < x) (liveHits k w t h)"
  by (simp add: liveHits_def filter_later split: option.split)

lemma no_eviction:
  assumes "jinv h" and "set (jkeys h) \<subseteq> set K" and "k \<in> set K" and "length K \<le> MAX_KEYS"
  shows "setHits k live h = jset k live h"
proof (cases "jhas k h")
  case False
  then have "set (jkeys h) \<subseteq> set K - {k}" using assms(2) by (auto simp: jhas_iff)
  then have "jsize h \<le> card (set K - {k})"
    using assms(1) card_mono [of "set K - {k}" "set (jkeys h)"]
    by (simp add: jsize_keys jinv_def distinct_card)
  also have "\<dots> < card (set K)" using assms(3) by (intro card_Diff1_less) simp_all
  also have "\<dots> \<le> MAX_KEYS" using card_length [of K] assms(4) by simp
  finally show ?thesis by (simp add: setHits_def)
qed (simp add: setHits_def)

lemma hitsRep_later: "hitsRep k w K h log t \<Longrightarrow> t \<le> now \<Longrightarrow> hitsRep k w K h log now"
  by (simp add: hitsRep_def liveHits_later filter_later)

lemma tryAcquire_other:
  assumes "hitsRep k w K h log t" and "t \<le> now" and "k' \<in> set K" and "k' \<noteq> k" and "length K \<le> MAX_KEYS"
  shows "hitsRep k w K (snd (tryAcquire now k' win h)) log now"
proof -
  have r: "hitsRep k w K h log now" by (rule hitsRep_later [OF assms(1,2)])
  have frame: "hitsRep k w K (jset k' live h) log now" for live
    using r assms(3,4) by (auto simp: hitsRep_def liveHits_def jkeys_jset)
  have "setHits k' live h = jset k' live h" for live
    using r assms(3,5) by (intro no_eviction [of _ K]) (simp_all add: hitsRep_def)
  with r frame show ?thesis by (simp add: tryAcquire_def Let_def)
qed

lemma tryAcquire_mine:
  assumes "hitsRep k (rw_windowMs win) K h log t" and "t \<le> now" and "k \<in> set K" and "length K \<le> MAX_KEYS"
    and "0 < rw_requests win" and "0 < rw_windowMs win"
  shows "hitsRep k (rw_windowMs win) K (snd (tryAcquire now k win h))
      (if allowed (fst (tryAcquire now k win h)) then log @ [now] else log) now"
    and "allowed (fst (tryAcquire now k win h)) \<Longrightarrow>
      int (length (filter (\<lambda>x. now - rw_windowMs win < x) log)) < rw_requests win"
proof -
  let ?w = "rw_windowMs win"
  have r: "hitsRep k ?w K h log now" by (rule hitsRep_later [OF assms(1,2)])
  then have live: "liveHits k ?w now h = filter (\<lambda>x. now - ?w < x) log" by (simp add: hitsRep_def)
  have set_live: "hitsRep k ?w K (jset k (filter (\<lambda>x. now - ?w < x) log) h) log now"
    using r assms(3) by (auto simp: hitsRep_def liveHits_def jkeys_jset)
  have add_now: "hitsRep k ?w K (jset k (filter (\<lambda>x. now - ?w < x) log @ [now]) h) (log @ [now]) now"
    using r assms(3,6) by (auto simp: hitsRep_def liveHits_def jkeys_jset)
  show "hitsRep k ?w K (snd (tryAcquire now k win h))
      (if allowed (fst (tryAcquire now k win h)) then log @ [now] else log) now"
  proof -
    have "setHits k hs h = jset k hs h" for hs
      using r assms(3,4) by (intro no_eviction [of _ K]) (simp_all add: hitsRep_def)
    with assms(5,6) set_live add_now show ?thesis by (simp add: tryAcquire_def Let_def live)
  qed
  show "allowed (fst (tryAcquire now k win h)) \<Longrightarrow>
      int (length (filter (\<lambda>x. now - ?w < x) log)) < rw_requests win"
    using assms(5,6) by (simp add: tryAcquire_def Let_def live split: if_splits)
qed

text \<open>
  Calls name a key; \<open>wins\<close> gives the window each key is called with. The calls keep to the
  keys \<open>K\<close>.
\<close>

definition callWindow :: "(string \<Rightarrow> rate_window) \<Rightarrow> string \<Rightarrow> int \<Rightarrow> hit_map \<Rightarrow> bool \<times> hit_map" where
  "callWindow wins k now h = (let (r, h') = tryAcquire now k (wins k) h in (allowed r, h'))"

lemma callWindow_sel [simp]:
  "fst (callWindow wins k now h) = allowed (fst (tryAcquire now k (wins k) h))"
  "snd (callWindow wins k now h) = snd (tryAcquire now k (wins k) h)"
  by (simp_all add: callWindow_def split: prod.split)

text \<open>The interface needs a limit that is configured and a map that can hold the keys.\<close>

definition configured :: "(string \<Rightarrow> rate_window) \<Rightarrow> string list \<Rightarrow> string \<Rightarrow> bool" where
  "configured wins K k \<longleftrightarrow> k \<in> set K \<and> length K \<le> MAX_KEYS \<and> 0 < rw_requests (wins k) \<and> 0 < rw_windowMs (wins k)"

interpretation sliding: window_limiter "callWindow wins" "\<lambda>c. c = k" "configured wins K"
    "\<lambda>h log t. hitsRep k (rw_windowMs (wins k)) K h log t" "rw_windowMs (wins k)" "nat (rw_requests (wins k))"
  for wins :: "string \<Rightarrow> rate_window" and k :: string and K :: "string list"
proof
  fix h log t now c
  assume r: "hitsRep k (rw_windowMs (wins k)) K h log t" and t: "t \<le> now" and c: "configured wins K c"
  show "hitsRep k (rw_windowMs (wins k)) K (snd (callWindow wins c now h)) log now" if "c \<noteq> k"
    using tryAcquire_other [OF r t _ that] c by (simp add: configured_def)
  assume k: "c = k"
  have m: "k \<in> set K" "length K \<le> MAX_KEYS" "0 < rw_requests (wins k)" "0 < rw_windowMs (wins k)"
    using c k by (simp_all add: configured_def)
  show "hitsRep k (rw_windowMs (wins k)) K (snd (callWindow wins c now h)) log now" if "\<not> fst (callWindow wins c now h)"
    using tryAcquire_mine(1) [OF r t m] that k by simp
  assume a: "fst (callWindow wins c now h)"
  show "hitsRep k (rw_windowMs (wins k)) K (snd (callWindow wins c now h)) (log @ [now]) now"
    using tryAcquire_mine(1) [OF r t m] a k by simp
  show "length (filter (\<lambda>x. now - rw_windowMs (wins k) < x) log) < nat (rw_requests (wins k))"
    using tryAcquire_mine(2) [OF r t m] a k by (simp add: zless_nat_eq_int_zless)
qed

section \<open>Properties\<close>

text \<open>The times at which calls of \<open>k\<close> are allowed, in a sequence of calls of any keys.\<close>

fun allowedTimes :: "(string \<Rightarrow> rate_window) \<Rightarrow> string \<Rightarrow> (string \<times> int) list \<Rightarrow> hit_map \<Rightarrow> int list" where
  "allowedTimes wins k [] h = []"
| "allowedTimes wins k ((c, now) # cs) h =
     (let (r, h') = tryAcquire now c (wins c) h
      in if allowed r \<and> c = k then now # allowedTimes wins k cs h' else allowedTimes wins k cs h')"

lemma allowedTimes_eq: "allowedTimes wins k cs h = sliding.acceptedTimes wins k cs h"
proof (induction cs arbitrary: h)
  case (Cons cn cs)
  then show ?case by (cases cn) (auto simp: case_prod_unfold Let_def)
qed simp

text \<open>
  C31. The window is a true sliding window: in any sequence of calls, of any keys the map can
  hold, at times that do not go back, at most \<open>requests\<close> calls of a key are allowed within
  any trailing window of \<open>windowMs\<close>, at whatever time the window ends.
\<close>

theorem sliding_window_bound:
  assumes "0 < rw_requests (wins k)" and "0 < rw_windowMs (wins k)" and "length K \<le> MAX_KEYS"
    and "\<forall>c \<in> set cs. fst c \<in> set K \<and> 0 < rw_requests (wins (fst c)) \<and> 0 < rw_windowMs (wins (fst c))"
    and "sorted (map snd cs)"
  shows "int (length (inWindow (rw_windowMs (wins k)) t (allowedTimes wins k cs []))) \<le> rw_requests (wins k)"
proof (cases cs)
  case Nil
  with assms(1) show ?thesis by (simp add: inWindow_def)
next
  case (Cons c cs')
  have r: "hitsRep k (rw_windowMs (wins k)) K [] [] (snd c)"
    by (simp add: hitsRep_def liveHits_def jkeys_def)
  have s: "sorted (snd c # map snd cs)" using assms(5) Cons by simp
  have g: "\<forall>c \<in> set cs. configured wins K (fst c)" using assms(3,4) by (simp add: configured_def)
  have "windowBounded (rw_windowMs (wins k)) (nat (rw_requests (wins k))) (allowedTimes wins k cs [])"
    using sliding.accepted_bounded [OF r _ s g] by (simp add: allowedTimes_eq)
  then have "length (inWindow (rw_windowMs (wins k)) t (allowedTimes wins k cs [])) \<le> nat (rw_requests (wins k))"
    by (simp add: windowBounded_def)
  with assms(1) show ?thesis by linarith
qed

theorem sliding_window_bound_witness:
  "let w = (\<lambda>_. \<lparr>rw_requests = 2, rw_windowMs = 100\<rparr>);
       ts = allowedTimes w ''p'' [(''p'', 0), (''q'', 10), (''p'', 90), (''p'', 95), (''p'', 100), (''p'', 189)] []
   in ts = [0, 90, 100] \<and> length (inWindow 100 150 ts) \<le> 2"
proof -
  let ?w = "\<lambda>_::string. \<lparr>rw_requests = 2, rw_windowMs = 100\<rparr>"
  let ?cs = "[(''p'', 0), (''q'', 10), (''p'', 90), (''p'', 95), (''p'', 100), (''p'', 189)] :: (string \<times> int) list"
  have "int (length (inWindow (rw_windowMs (?w ''p'')) 150 (allowedTimes ?w ''p'' ?cs []))) \<le> rw_requests (?w ''p'')"
    by (rule sliding_window_bound [where K = "[''p'', ''q'']"]) (simp_all add: MAX_KEYS_def)
  moreover have "allowedTimes ?w ''p'' ?cs [] = [0, 90, 100]" by code_simp
  ultimately show ?thesis by (simp add: Let_def)
qed

text \<open>
  \<open>retryAfterMs\<close> is exact: when a call is refused, a call of the same key at any earlier
  time than \<open>now + retryAfterMs\<close> is refused as well, and one at that time is allowed.
\<close>

theorem sliding_window_retry_exact:
  assumes "tryAcquire now k win h = (r, h')" and "\<not> allowed r"
    and "sorted (liveHits k (rw_windowMs win) now h)" and "int (length (liveHits k (rw_windowMs win) now h)) = rw_requests win"
  shows "(\<forall>t. now \<le> t \<and> t < now + retryAfterMs r \<longrightarrow> \<not> allowed (fst (tryAcquire t k win h')))
    \<and> allowed (fst (tryAcquire (now + retryAfterMs r) k win h'))"
proof -
  let ?w = "rw_windowMs win" let ?live = "liveHits k ?w now h"
  have pos: "0 < rw_requests win" "0 < ?w" and r: "retryAfterMs r = max 0 (hd ?live + ?w - now)"
    and h': "h' = jset k ?live h"
    using assms(1,2) by (auto simp: tryAcquire_def Let_def split: if_splits)
  obtain x xs where xs: "?live = x # xs" using assms(4) pos by (cases ?live) auto
  have inw: "\<forall>y \<in> set ?live. now - ?w < y"
    by (auto simp: liveHits_def split: option.splits)
  then have x: "now - ?w < x" using xs by simp
  have ge: "\<forall>y \<in> set ?live. x \<le> y" using assms(3) xs by auto
  have live': "liveHits k ?w t h' = filter (\<lambda>y. t - ?w < y) ?live" for t
    by (simp add: h' liveHits_def)
  have "\<not> allowed (fst (tryAcquire t k win h'))" if "now \<le> t" "t < now + retryAfterMs r" for t
  proof -
    have "t - ?w < x" using that r xs x by simp
    then have "filter (\<lambda>y. t - ?w < y) ?live = ?live" using ge by (intro filter_True) auto
    with pos assms(4) show ?thesis by (simp add: tryAcquire_def Let_def live')
  qed
  moreover have "allowed (fst (tryAcquire (now + retryAfterMs r) k win h'))"
  proof -
    have "now + retryAfterMs r = x + ?w" using r xs x by simp
    then have "length (filter (\<lambda>y. now + retryAfterMs r - ?w < y) ?live) < length ?live"
      using xs by (simp add: le_imp_less_Suc)
    with pos assms(4) show ?thesis by (simp add: tryAcquire_def Let_def live')
  qed
  ultimately show ?thesis by blast
qed

theorem sliding_window_retry_exact_witness:
  "let h = [(''p'', [0, 90])]; w = \<lparr>rw_requests = 2, rw_windowMs = 100\<rparr>; (r, h') = tryAcquire 95 ''p'' w h
   in retryAfterMs r = 5 \<and> allowed (fst (tryAcquire 100 ''p'' w h'))"
proof -
  let ?h = "[(''p'', [0, 90 :: int])]" let ?w = "\<lparr>rw_requests = 2, rw_windowMs = 100\<rparr>"
  have t: "tryAcquire 95 ''p'' ?w ?h = (\<lparr>allowed = False, retryAfterMs = 5\<rparr>, ?h)" by code_simp
  have l: "sorted (liveHits ''p'' (rw_windowMs ?w) 95 ?h)"
    "int (length (liveHits ''p'' (rw_windowMs ?w) 95 ?h)) = rw_requests ?w" "\<not> allowed \<lparr>allowed = False, retryAfterMs = 5\<rparr>"
    by code_simp+
  from sliding_window_retry_exact [OF t l(3) l(1,2)] show ?thesis by (simp add: t Let_def)
qed
end
