(* ===== verification/LockoutPolicy.thy ===== *)
theory LockoutPolicy
  imports WindowLog
begin

text \<open>
  The login lockout of \<open>src/domain/lockoutPolicy.ts\<close> with the rows it keeps in
  \<open>src/lib/db/domainState.ts\<close>. The table is a map; \<open>up\<close> says whether the database answers (the
  code swallows its errors). An operation runs at one time, and its awaits are not interleaved
  with other operations on the same identifier.
\<close>

section \<open>State\<close>

record lockout_config =
  maxAttempts :: nat
  lockoutDurationMs :: int
  attemptWindowMs :: int

definition DEFAULT_CONFIG :: lockout_config where
  "DEFAULT_CONFIG = \<lparr>maxAttempts = 5, lockoutDurationMs = 15 * 60 * 1000, attemptWindowMs = 5 * 60 * 1000\<rparr>"

record attempt_state =
  attempts :: "millis list"
  lockedUntil :: "millis option"

record policy =
  lockoutCache :: "(string, attempt_state) jmap"
  lockoutTable :: "(string, attempt_state) jmap"

definition emptyPolicy :: policy where
  "emptyPolicy = \<lparr>lockoutCache = [], lockoutTable = []\<rparr>"

section \<open>Rows\<close>

definition saveLockoutState :: "string \<Rightarrow> attempt_state \<Rightarrow> policy \<Rightarrow> policy" where
  "saveLockoutState i st s = s\<lparr>lockoutTable := jset i st (lockoutTable s)\<rparr>"

definition loadLockoutState :: "string \<Rightarrow> policy \<Rightarrow> attempt_state option" where
  "loadLockoutState i s = jget i (lockoutTable s)"

definition deleteLockoutState :: "string \<Rightarrow> policy \<Rightarrow> policy" where
  "deleteLockoutState i s = s\<lparr>lockoutTable := jdel i (lockoutTable s)\<rparr>"

definition loadAllLockedIdentifiers :: "millis \<Rightarrow> policy \<Rightarrow> (string \<times> millis) list" where
  "loadAllLockedIdentifiers now s =
     filter (\<lambda>(i, u). i \<noteq> '''')
       (map (\<lambda>(i, st). (i, the (lockedUntil st)))
         (filter (\<lambda>(i, st). lockedUntil st \<noteq> None \<and> now < the (lockedUntil st)) (lockoutTable s)))"

section \<open>Operations\<close>

definition getState :: "bool \<Rightarrow> string \<Rightarrow> policy \<Rightarrow> attempt_state option \<times> policy" where
  "getState up i s =
     (case jget i (lockoutCache s) of
        Some st \<Rightarrow> (Some st, s)
      | None \<Rightarrow>
        (case (if up then loadLockoutState i s else None) of
           Some st \<Rightarrow> (Some st, s\<lparr>lockoutCache := jset i st (lockoutCache s)\<rparr>)
         | None \<Rightarrow> (None, s)))"

definition persistState :: "bool \<Rightarrow> string \<Rightarrow> attempt_state \<Rightarrow> policy \<Rightarrow> policy" where
  "persistState up i st s =
     (let s1 = s\<lparr>lockoutCache := jset i st (lockoutCache s)\<rparr>
      in if up then saveLockoutState i st s1 else s1)"

record lockout_answer =
  la_locked :: bool
  la_remainingMs :: "int option"
  la_attempts :: "nat option"

definition checkLockout :: "bool \<Rightarrow> millis \<Rightarrow> string \<Rightarrow> lockout_config \<Rightarrow> policy \<Rightarrow> lockout_answer \<times> policy" where
  "checkLockout up now i cfg s0 =
     (case getState up i s0 of
        (None, s) \<Rightarrow> (\<lparr>la_locked = False, la_remainingMs = None, la_attempts = Some 0\<rparr>, s)
      | (Some st, s) \<Rightarrow>
        (if \<not> falsy_num (lockedUntil st) \<and> now < the (lockedUntil st)
         then (\<lparr>la_locked = True, la_remainingMs = Some (the (lockedUntil st) - now),
                la_attempts = Some (length (attempts st))\<rparr>, s)
         else
           (let st1 = (if falsy_num (lockedUntil st) then st else \<lparr>attempts = [], lockedUntil = None\<rparr>);
                s1 = (if falsy_num (lockedUntil st) then s else persistState up i st1 s);
                recent = filter (\<lambda>t. now - attemptWindowMs cfg < t) (attempts st1);
                s2 = persistState up i (st1\<lparr>attempts := recent\<rparr>) s1
            in (\<lparr>la_locked = False, la_remainingMs = None, la_attempts = Some (length recent)\<rparr>, s2))))"

definition recordFailedAttempt ::
  "bool \<Rightarrow> millis \<Rightarrow> string \<Rightarrow> lockout_config \<Rightarrow> policy \<Rightarrow> lockout_answer \<times> policy" where
  "recordFailedAttempt up now i cfg s0 =
     (let (found, s) = getState up i s0;
          st = nullish found \<lparr>attempts = [], lockedUntil = None\<rparr>;
          tried = filter (\<lambda>t. now - attemptWindowMs cfg < t) (attempts st) @ [now];
          st1 = st\<lparr>attempts := tried\<rparr>
      in if maxAttempts cfg \<le> length tried
         then (\<lparr>la_locked = True, la_remainingMs = Some (lockoutDurationMs cfg), la_attempts = None\<rparr>,
               persistState up i (st1\<lparr>lockedUntil := Some (now + lockoutDurationMs cfg)\<rparr>) s)
         else (\<lparr>la_locked = False, la_remainingMs = None, la_attempts = None\<rparr>, persistState up i st1 s))"

definition recordSuccess :: "bool \<Rightarrow> string \<Rightarrow> policy \<Rightarrow> policy" where
  "recordSuccess up i s =
     (let s1 = s\<lparr>lockoutCache := jdel i (lockoutCache s)\<rparr> in if up then deleteLockoutState i s1 else s1)"

definition forceUnlock :: "bool \<Rightarrow> string \<Rightarrow> policy \<Rightarrow> policy" where
  "forceUnlock up i s =
     (let s1 = s\<lparr>lockoutCache := jdel i (lockoutCache s)\<rparr> in if up then deleteLockoutState i s1 else s1)"

definition getLockedIdentifiers :: "bool \<Rightarrow> millis \<Rightarrow> policy \<Rightarrow> (string \<times> millis \<times> int) list \<times> policy" where
  "getLockedIdentifiers up now s =
     (let c = fold (\<lambda>(i, u) c. if jhas i c then c else jset i \<lparr>attempts = [], lockedUntil = Some u\<rparr> c)
                (if up then loadAllLockedIdentifiers now s else []) (lockoutCache s)
      in (map (\<lambda>(i, st). (i, the (lockedUntil st), the (lockedUntil st) - now))
            (filter (\<lambda>(i, st). \<not> falsy_num (lockedUntil st) \<and> now < the (lockedUntil st)) c),
          s\<lparr>lockoutCache := c\<rparr>))"

section \<open>Failed logins as a window\<close>

text \<open>
  A client that always fails: each try asks \<open>checkLockout\<close> first and reports its failure when
  it was let in.
\<close>

definition tryLogin :: "bool \<Rightarrow> lockout_config \<Rightarrow> string \<Rightarrow> millis \<Rightarrow> policy \<Rightarrow> bool \<times> policy" where
  "tryLogin up cfg i now s =
     (let (a, s1) = checkLockout up now i cfg s
      in if la_locked a then (False, s1) else (True, snd (recordFailedAttempt up now i cfg s1)))"

definition windowConfig :: "lockout_config \<Rightarrow> bool" where
  "windowConfig cfg \<longleftrightarrow> 0 < maxAttempts cfg \<and> 0 < attemptWindowMs cfg \<and> attemptWindowMs cfg \<le> lockoutDurationMs cfg"

definition recentIn :: "lockout_config \<Rightarrow> int \<Rightarrow> int list \<Rightarrow> int list" where
  "recentIn cfg t xs = filter (\<lambda>x. t - attemptWindowMs cfg < x) xs"

lemma recentIn_later: "t \<le> now \<Longrightarrow> recentIn cfg t xs = recentIn cfg t ys \<Longrightarrow> recentIn cfg now xs = recentIn cfg now ys"
proof -
  assume t: "t \<le> now" and e: "recentIn cfg t xs = recentIn cfg t ys"
  have "recentIn cfg now zs = recentIn cfg now (recentIn cfg t zs)" for zs
    using t unfolding recentIn_def filter_filter by (intro filter_cong) auto
  with e show ?thesis by metis
qed

lemma recentIn_length: "t \<le> now \<Longrightarrow> length (recentIn cfg now xs) \<le> length (recentIn cfg t xs)"
  unfolding recentIn_def by (rule length_filter_mono) auto

lemma recentIn_none: "(\<forall>x \<in> set xs. x \<le> now - attemptWindowMs cfg) \<Longrightarrow> recentIn cfg now xs = []"
  by (auto simp: recentIn_def filter_empty_conv)

definition stateRep :: "lockout_config \<Rightarrow> attempt_state \<Rightarrow> int list \<Rightarrow> int \<Rightarrow> bool" where
  "stateRep cfg st log t \<longleftrightarrow>
     (case lockedUntil st of
        None \<Rightarrow> recentIn cfg t (attempts st) = recentIn cfg t log \<and> length (recentIn cfg t log) < maxAttempts cfg
      | Some u \<Rightarrow> 0 < u \<and> (\<forall>x \<in> set log. x + lockoutDurationMs cfg \<le> u))"

definition loginRep :: "lockout_config \<Rightarrow> string \<Rightarrow> policy \<Rightarrow> int list \<Rightarrow> int \<Rightarrow> bool" where
  "loginRep cfg i s log t \<longleftrightarrow> 0 \<le> t \<and> (\<forall>x \<in> set log. x \<le> t)
     \<and> (case jget i (lockoutCache s) of
          None \<Rightarrow> jget i (lockoutTable s) = None \<and> log = []
        | Some st \<Rightarrow> stateRep cfg st log t)"

lemma persist_get [simp]:
  "jget i' (lockoutCache (persistState up i st s)) = (if i' = i then Some st else jget i' (lockoutCache s))"
  "i' \<noteq> i \<Longrightarrow> jget i' (lockoutTable (persistState up i st s)) = jget i' (lockoutTable s)"
  by (simp_all add: persistState_def saveLockoutState_def Let_def)

lemma getState_other:
  "i' \<noteq> i \<Longrightarrow> jget i' (lockoutCache (snd (getState up i s))) = jget i' (lockoutCache s)"
  "lockoutTable (snd (getState up i s)) = lockoutTable s"
  by (auto simp: getState_def split: option.splits)

lemma check_other:
  assumes "i' \<noteq> i"
  shows "jget i' (lockoutCache (snd (checkLockout up now i cfg s))) = jget i' (lockoutCache s)
    \<and> jget i' (lockoutTable (snd (checkLockout up now i cfg s))) = jget i' (lockoutTable s)"
proof -
  obtain f s1 where g: "getState up i s = (f, s1)" by (rule prod.exhaust)
  with getState_other(1) [of i' i up s] getState_other(2) [of up i s] assms show ?thesis
    by (cases f) (auto simp: checkLockout_def Let_def)
qed

lemma record_other:
  assumes "i' \<noteq> i"
  shows "jget i' (lockoutCache (snd (recordFailedAttempt up now i cfg s))) = jget i' (lockoutCache s)
    \<and> jget i' (lockoutTable (snd (recordFailedAttempt up now i cfg s))) = jget i' (lockoutTable s)"
proof -
  obtain f s1 where g: "getState up i s = (f, s1)" by (rule prod.exhaust)
  with getState_other(1) [of i' i up s] getState_other(2) [of up i s] assms show ?thesis
    by (auto simp: recordFailedAttempt_def Let_def)
qed

lemma tryLogin_other:
  assumes "i' \<noteq> i"
  shows "jget i' (lockoutCache (snd (tryLogin up cfg i now s))) = jget i' (lockoutCache s)
    \<and> jget i' (lockoutTable (snd (tryLogin up cfg i now s))) = jget i' (lockoutTable s)"
proof -
  obtain a s1 where c: "checkLockout up now i cfg s = (a, s1)" by (rule prod.exhaust)
  with check_other [OF assms, of up now cfg s] record_other [OF assms, of up now cfg s1] show ?thesis
    by (auto simp: tryLogin_def)
qed

text \<open>What a try does to the identifier, seen through its cached state.\<close>

definition afterFailure :: "lockout_config \<Rightarrow> millis \<Rightarrow> millis list \<Rightarrow> attempt_state" where
  "afterFailure cfg now tried =
     \<lparr>attempts = tried @ [now],
      lockedUntil = (if maxAttempts cfg \<le> Suc (length tried) then Some (now + lockoutDurationMs cfg) else None)\<rparr>"

lemma filter_idem: "filter P (filter P xs) = filter P xs"
  by simp

lemma tryLogin_None:
  assumes "jget i (lockoutCache s) = None" and "jget i (lockoutTable s) = None"
  shows "fst (tryLogin up cfg i now s)
    \<and> jget i (lockoutCache (snd (tryLogin up cfg i now s))) = Some (afterFailure cfg now [])"
  using assms
  by (simp add: tryLogin_def checkLockout_def getState_def loadLockoutState_def recordFailedAttempt_def
      Let_def afterFailure_def)

lemma tryLogin_open:
  assumes "jget i (lockoutCache s) = Some st" and "lockedUntil st = None"
  shows "fst (tryLogin up cfg i now s)
    \<and> jget i (lockoutCache (snd (tryLogin up cfg i now s))) = Some (afterFailure cfg now (recentIn cfg now (attempts st)))"
  using assms
  by (simp add: tryLogin_def checkLockout_def getState_def recordFailedAttempt_def Let_def afterFailure_def recentIn_def)

lemma tryLogin_expired:
  assumes "jget i (lockoutCache s) = Some st" and "lockedUntil st = Some u" and "u \<noteq> 0" and "u \<le> now"
  shows "fst (tryLogin up cfg i now s)
    \<and> jget i (lockoutCache (snd (tryLogin up cfg i now s))) = Some (afterFailure cfg now [])"
  using assms
  by (simp add: tryLogin_def checkLockout_def getState_def recordFailedAttempt_def Let_def afterFailure_def)

lemma tryLogin_locked:
  assumes "jget i (lockoutCache s) = Some st" and "lockedUntil st = Some u" and "u \<noteq> 0" and "now < u"
  shows "tryLogin up cfg i now s = (False, s)"
  using assms by (simp add: tryLogin_def checkLockout_def getState_def)

lemma stateRep_later:
  "stateRep cfg st log t \<Longrightarrow> t \<le> now \<Longrightarrow> stateRep cfg st log now"
  using recentIn_later [of t now cfg "attempts st" log] recentIn_length [of t now cfg log]
  by (auto simp: stateRep_def split: option.splits)

lemma afterFailure_rep:
  assumes "windowConfig cfg" and "0 \<le> now" and "\<forall>x \<in> set log. x \<le> now" and "tried = recentIn cfg now log"
  shows "stateRep cfg (afterFailure cfg now tried) (log @ [now]) now"
proof -
  have "recentIn cfg now tried = tried" unfolding assms(4) recentIn_def by simp
  moreover have "recentIn cfg now [now] = [now]" using assms(1) by (simp add: recentIn_def windowConfig_def)
  moreover have app: "recentIn cfg now (xs @ ys) = recentIn cfg now xs @ recentIn cfg now ys" for xs ys
    by (simp add: recentIn_def)
  ultimately show ?thesis
    using assms by (auto simp: stateRep_def afterFailure_def windowConfig_def app)
qed

text \<open>One try, by the three things it can find.\<close>

lemma tryLogin_cases:
  assumes cfg: "windowConfig cfg" and rep: "loginRep cfg i s log t" and t: "t \<le> now"
  shows "if fst (tryLogin up cfg i now s)
    then loginRep cfg i (snd (tryLogin up cfg i now s)) (log @ [now]) now \<and> length (recentIn cfg now log) < maxAttempts cfg
    else loginRep cfg i (snd (tryLogin up cfg i now s)) log now"
proof -
  have pos: "0 \<le> now" and old: "\<forall>x \<in> set log. x \<le> now" using rep t by (auto simp: loginRep_def)
  have N: "0 < maxAttempts cfg" and D: "attemptWindowMs cfg \<le> lockoutDurationMs cfg"
    using cfg by (simp_all add: windowConfig_def)
  let ?r = "tryLogin up cfg i now s"
  have fin: ?thesis
    if "fst ?r \<and> jget i (lockoutCache (snd ?r)) = Some (afterFailure cfg now tried)"
      "tried = recentIn cfg now log" "length (recentIn cfg now log) < maxAttempts cfg" for tried
    using that afterFailure_rep [OF cfg pos old that(2)] pos old by (auto simp: loginRep_def)
  show ?thesis
  proof (cases "jget i (lockoutCache s)")
    case None
    with rep have e: "jget i (lockoutTable s) = None" "log = []" by (simp_all add: loginRep_def)
    show ?thesis
      by (rule fin [OF tryLogin_None [OF None e(1)]]) (simp_all add: e(2) recentIn_def N)
  next
    case (Some st)
    then have sr: "stateRep cfg st log now" using rep stateRep_later [OF _ t] by (simp add: loginRep_def)
    show ?thesis
    proof (cases "lockedUntil st")
      case None
      with sr show ?thesis by (intro fin [OF tryLogin_open [OF Some None]]) (simp_all add: stateRep_def)
    next
      case u: (Some u)
      with sr have "u \<noteq> 0" and before: "\<forall>x \<in> set log. x + lockoutDurationMs cfg \<le> u"
        by (simp_all add: stateRep_def)
      show ?thesis
      proof (cases "now < u")
        case True
        with tryLogin_locked [OF Some u \<open>u \<noteq> 0\<close> True] Some sr pos old show ?thesis by (simp add: loginRep_def)
      next
        case False
        then have "\<forall>x \<in> set log. x \<le> now - attemptWindowMs cfg" using before D by fastforce
        then have "recentIn cfg now log = []" by (rule recentIn_none)
        with False show ?thesis
          by (intro fin [OF tryLogin_expired [OF Some u \<open>u \<noteq> 0\<close>]]) (simp_all add: N)
      qed
    qed
  qed
qed

lemma loginRep_cong:
  "loginRep cfg i s log t \<Longrightarrow> t \<le> now \<Longrightarrow> jget i (lockoutCache s') = jget i (lockoutCache s) \<Longrightarrow>
   jget i (lockoutTable s') = jget i (lockoutTable s) \<Longrightarrow> loginRep cfg i s' log now"
  using stateRep_later [of cfg _ log t now] by (force simp: loginRep_def split: option.splits)

interpretation login: window_limiter "tryLogin up cfg" "\<lambda>c. c = i" "\<lambda>c. windowConfig cfg"
    "loginRep cfg i" "attemptWindowMs cfg" "maxAttempts cfg"
  for up :: bool and cfg :: lockout_config and i :: string
proof
  fix s log t now c
  assume r: "loginRep cfg i s log t" and t: "t \<le> now" and cfg: "windowConfig cfg"
  show "loginRep cfg i (snd (tryLogin up cfg c now s)) log now" if "c \<noteq> i"
    using tryLogin_other [of i c up cfg now s] that by (intro loginRep_cong [OF r t]) auto
  note step = tryLogin_cases [OF cfg r t, of up]
  assume c: "c = i"
  show "loginRep cfg i (snd (tryLogin up cfg c now s)) log now" if "\<not> fst (tryLogin up cfg c now s)"
    using step that c by simp
  assume a: "fst (tryLogin up cfg c now s)"
  show "loginRep cfg i (snd (tryLogin up cfg c now s)) (log @ [now]) now" using step a c by simp
  show "length (filter (\<lambda>x. now - attemptWindowMs cfg < x) log) < maxAttempts cfg"
    using step a c by (simp add: recentIn_def)
qed

section \<open>Properties\<close>

text \<open>The times at which a client with identifier \<open>i\<close> gets to try a password.\<close>

fun triedTimes :: "bool \<Rightarrow> lockout_config \<Rightarrow> string \<Rightarrow> (string \<times> millis) list \<Rightarrow> policy \<Rightarrow> millis list" where
  "triedTimes up cfg i [] s = []"
| "triedTimes up cfg i ((c, now) # cs) s =
     (let (ok, s') = tryLogin up cfg c now s
      in if ok \<and> c = i then now # triedTimes up cfg i cs s' else triedTimes up cfg i cs s')"

lemma triedTimes_eq: "triedTimes up cfg i cs s = login.acceptedTimes up cfg i cs s"
proof (induction cs arbitrary: s)
  case (Cons cn cs)
  then show ?case by (cases cn) (auto simp: case_prod_unfold Let_def)
qed simp

text \<open>
  C32. Guessing is bounded: whatever the identifiers and times of the login attempts, and
  whether or not the database works, an identifier gets at most \<open>maxAttempts\<close> wrong tries in
  any trailing window of \<open>attemptWindowMs\<close>, provided the lockout lasts at least as long as
  that window, as it does by default.
\<close>

theorem login_attempts_bounded:
  assumes "windowConfig cfg" and "sorted (0 # map snd cs)"
  shows "length (inWindow (attemptWindowMs cfg) t (triedTimes up cfg i cs emptyPolicy)) \<le> maxAttempts cfg"
proof -
  have r: "loginRep cfg i emptyPolicy [] 0" by (simp add: loginRep_def emptyPolicy_def)
  have "windowBounded (attemptWindowMs cfg) (maxAttempts cfg) (triedTimes up cfg i cs emptyPolicy)"
    using login.accepted_bounded [OF r _ assms(2)] assms(1) by (simp add: triedTimes_eq)
  then show ?thesis by (simp add: windowBounded_def)
qed

theorem login_attempts_bounded_witness:
  "triedTimes True DEFAULT_CONFIG ''eve'' (map (\<lambda>n. (''eve'', int n * 1000)) [0 ..< 8]) emptyPolicy
     = [0, 1000, 2000, 3000, 4000]
   \<and> length (inWindow 300000 7000
        (triedTimes True DEFAULT_CONFIG ''eve'' (map (\<lambda>n. (''eve'', int n * 1000)) [0 ..< 8]) emptyPolicy)) \<le> 5"
proof -
  have c: "windowConfig DEFAULT_CONFIG" by (simp add: windowConfig_def DEFAULT_CONFIG_def)
  have s: "sorted (0 # map snd (map (\<lambda>n. (''eve'', int n * 1000)) [0 ..< 8]))"
    by (simp add: eval_nat_numeral)
  have v: "triedTimes True DEFAULT_CONFIG ''eve'' (map (\<lambda>n. (''eve'', int n * 1000)) [0 ..< 8]) emptyPolicy
     = [0, 1000, 2000, 3000, 4000]" by code_simp
  from login_attempts_bounded [OF c s, of 7000 True "''eve''"] v
  show ?thesis by (simp add: DEFAULT_CONFIG_def)
qed

text \<open>
  A lockout is exact: the failure that reaches \<open>maxAttempts\<close> locks the identifier until
  \<open>now + lockoutDurationMs\<close>; checks report it with the remaining time until then, and from
  that time on the identifier starts afresh with no attempts.
\<close>

theorem login_lockout_exact:
  assumes "recordFailedAttempt up now i cfg s = (a, s1)" and "la_locked a" and "0 < now + lockoutDurationMs cfg"
  shows "fst (checkLockout up t i cfg s1) =
    (if t < now + lockoutDurationMs cfg
     then \<lparr>la_locked = True, la_remainingMs = Some (now + lockoutDurationMs cfg - t),
           la_attempts = Some (length (attempts (the (jget i (lockoutCache s1)))))\<rparr>
     else \<lparr>la_locked = False, la_remainingMs = None, la_attempts = Some 0\<rparr>)"
proof -
  obtain st where st: "jget i (lockoutCache s1) = Some st" "lockedUntil st = Some (now + lockoutDurationMs cfg)"
    using assms(1,2) by (auto simp: recordFailedAttempt_def Let_def split: prod.splits if_splits)
  then show ?thesis using assms(3) by (simp add: checkLockout_def getState_def Let_def)
qed

theorem login_lockout_exact_witness:
  "la_locked (fst (checkLockout False 899999 ''eve'' DEFAULT_CONFIG
      (snd (recordFailedAttempt False 0 ''eve'' (DEFAULT_CONFIG\<lparr>maxAttempts := 1\<rparr>) emptyPolicy))))
   \<and> \<not> la_locked (fst (checkLockout False 900000 ''eve'' (DEFAULT_CONFIG\<lparr>maxAttempts := 1\<rparr>)
      (snd (recordFailedAttempt False 0 ''eve'' (DEFAULT_CONFIG\<lparr>maxAttempts := 1\<rparr>) emptyPolicy))))"
proof -
  let ?c = "DEFAULT_CONFIG\<lparr>maxAttempts := 1\<rparr>"
  have l: "la_locked (fst (recordFailedAttempt False 0 ''eve'' ?c emptyPolicy))" by code_simp
  have d: "0 < 0 + lockoutDurationMs ?c" by (simp add: DEFAULT_CONFIG_def)
  from login_lockout_exact [OF surjective_pairing l d, of 900000]
  have "\<not> la_locked (fst (checkLockout False 900000 ''eve'' ?c (snd (recordFailedAttempt False 0 ''eve'' ?c emptyPolicy))))"
    by (simp add: DEFAULT_CONFIG_def)
  moreover have "la_locked (fst (checkLockout False 899999 ''eve'' DEFAULT_CONFIG
      (snd (recordFailedAttempt False 0 ''eve'' ?c emptyPolicy))))" by code_simp
  ultimately show ?thesis by simp
qed

end
