(* ===== verification/ProviderCooldown.thy ===== *)
theory ProviderCooldown
  imports Prelude
begin

text \<open>
  The cooldown of providers and connections of \<open>open-sse/services/providerCooldownTracker.ts\<close>.
  The settings are the two numbers the tracker reads, each of which may be missing; the
  defaults are those of \<open>DEFAULT_RESILIENCE_SETTINGS\<close> without environment overrides.
\<close>

section \<open>Model\<close>

record cooldown_entry =
  ce_lastFailureAt :: millis
  ce_failureCount :: int
  ce_retentionMs :: int

record cooldown_settings =
  minRetryCooldownMs :: "int option"
  maxRetryCooldownMs :: "int option"

type_synonym cooldown_map = "(string, cooldown_entry) jmap"

definition DEFAULT_ENTRY_RETENTION_MS :: int where "DEFAULT_ENTRY_RETENTION_MS = 30 * 60 * 1000"

definition minCooldown :: "cooldown_settings \<Rightarrow> int" where
  "minCooldown st = nullish (minRetryCooldownMs st) 5000"

definition maxCooldown :: "cooldown_settings \<Rightarrow> int" where
  "maxCooldown st = nullish (maxRetryCooldownMs st) 300000"

definition getEntryRetentionMs :: "cooldown_settings \<Rightarrow> int" where
  "getEntryRetentionMs st = max DEFAULT_ENTRY_RETENTION_MS (maxCooldown st)"

definition cleanupExpiredCooldownEntries :: "millis \<Rightarrow> cooldown_map \<Rightarrow> cooldown_map" where
  "cleanupExpiredCooldownEntries now m =
     filter (\<lambda>(k, e). \<not> ce_retentionMs e < now - ce_lastFailureAt e) m"

definition cooldownKey :: "string \<Rightarrow> string option \<Rightarrow> string" where
  "cooldownKey p c = (case nullish c '''' of '''' \<Rightarrow> p | x \<Rightarrow> p @ '':'' @ x)"

definition untracked :: "string \<Rightarrow> bool" where
  "untracked p \<longleftrightarrow> p = '''' \<or> p = ''unknown''"

definition recordProviderCooldown ::
  "millis \<Rightarrow> string \<Rightarrow> string option \<Rightarrow> cooldown_settings \<Rightarrow> cooldown_map \<Rightarrow> cooldown_map" where
  "recordProviderCooldown now p c st m =
     (if untracked p then m
      else (case jget (cooldownKey p c) m of
              Some e \<Rightarrow> jset (cooldownKey p c)
                (e\<lparr>ce_lastFailureAt := now, ce_failureCount := ce_failureCount e + 1,
                   ce_retentionMs := max (ce_retentionMs e) (getEntryRetentionMs st)\<rparr>) m
            | None \<Rightarrow> jset (cooldownKey p c)
                \<lparr>ce_lastFailureAt = now, ce_failureCount = 1, ce_retentionMs = getEntryRetentionMs st\<rparr> m))"

definition scaledCooldown :: "cooldown_settings \<Rightarrow> int \<Rightarrow> int" where
  "scaledCooldown st n = min (minCooldown st * 2 ^ nat (min (max 0 (n - 1)) 10)) (maxCooldown st)"

definition isProviderInCooldown :: "millis \<Rightarrow> string \<Rightarrow> string option \<Rightarrow> cooldown_settings \<Rightarrow> cooldown_map \<Rightarrow> bool" where
  "isProviderInCooldown now p c st m =
     (if untracked p then False
      else (case jget (cooldownKey p c) m of
              None \<Rightarrow> False
            | Some e \<Rightarrow> (if ce_failureCount e = 0 then False
                         else now - ce_lastFailureAt e < scaledCooldown st (ce_failureCount e))))"

definition getRemainingCooldownMs :: "millis \<Rightarrow> string \<Rightarrow> string option \<Rightarrow> cooldown_settings \<Rightarrow> cooldown_map \<Rightarrow> int" where
  "getRemainingCooldownMs now p c st m =
     (if untracked p then 0
      else (case jget (cooldownKey p c) m of
              None \<Rightarrow> 0
            | Some e \<Rightarrow>
              (let remaining = scaledCooldown st (ce_failureCount e) - (now - ce_lastFailureAt e)
               in if 0 < remaining then remaining else 0)))"

definition recordProviderSuccess :: "string \<Rightarrow> string option \<Rightarrow> cooldown_map \<Rightarrow> cooldown_map" where
  "recordProviderSuccess p c m =
     (if untracked p then m
      else (case jget (cooldownKey p c) m of
              None \<Rightarrow> m
            | Some e \<Rightarrow> jset (cooldownKey p c) (e\<lparr>ce_failureCount := 0\<rparr>) m))"

definition clearCooldownState :: "cooldown_map \<Rightarrow> cooldown_map" where
  "clearCooldownState m = []"

definition getCooldownEntryCount :: "cooldown_map \<Rightarrow> nat" where
  "getCooldownEntryCount m = jsize m"

section \<open>Laws\<close>

text \<open>Failures at the given times, with other entries and cleanups around them.\<close>

fun failAt :: "string \<Rightarrow> string option \<Rightarrow> cooldown_settings \<Rightarrow> millis list \<Rightarrow> cooldown_map \<Rightarrow> cooldown_map" where
  "failAt p c st [] m = m"
| "failAt p c st (t # ts) m = failAt p c st ts (recordProviderCooldown t p c st m)"

lemma failAt_snoc: "failAt p c st (ts @ [t]) m = recordProviderCooldown t p c st (failAt p c st ts m)"
  by (induction ts arbitrary: m) simp_all

lemma failAt_entry:
  assumes "\<not> untracked p" and "jget (cooldownKey p c) m = None" and "ts \<noteq> []"
  shows "jget (cooldownKey p c) (failAt p c st ts m) = Some \<lparr>ce_lastFailureAt = last ts,
    ce_failureCount = int (length ts), ce_retentionMs = getEntryRetentionMs st\<rparr>"
  using assms(3)
proof (induction ts rule: rev_induct)
  case (snoc t ts)
  show ?case
  proof (cases "ts = []")
    case True
    with assms show ?thesis by (simp add: recordProviderCooldown_def)
  next
    case False
    with snoc.IH assms(1) show ?thesis by (simp add: failAt_snoc recordProviderCooldown_def)
  qed
qed simp

lemma scaledCooldown_cap: "scaledCooldown st n \<le> getEntryRetentionMs st"
  by (simp add: scaledCooldown_def getEntryRetentionMs_def)

lemma jget_cleanup:
  "jinv m \<Longrightarrow> jget k (cleanupExpiredCooldownEntries now m) =
     (case jget k m of None \<Rightarrow> None | Some e \<Rightarrow> if ce_retentionMs e < now - ce_lastFailureAt e then None else Some e)"
proof (induction m)
  case (Cons x m)
  obtain k' e where x: "x = (k', e)" by (cases x)
  have i: "jinv m" and new: "jget k' m = None"
    using Cons.prems by (simp_all add: jinv_def jkeys_def x jget_None_iff)
  with Cons.IH [OF i] x show ?case
    by (auto simp: cleanupExpiredCooldownEntries_def jget_Cons)
qed (simp add: cleanupExpiredCooldownEntries_def)

section \<open>Properties\<close>

text \<open>
  The cooldown is the capped doubling of the minimum: after \<open>n\<close> failures without a success,
  the last at \<open>t\<close>, the provider is in cooldown at \<open>now\<close> exactly while
  \<open>now - t < min (min * 2 ^ min (n - 1) 10) max\<close>; the remaining time counts down to that
  moment; and no cleanup, at any time, changes the answer.
\<close>

theorem provider_cooldown_exact:
  assumes "\<not> untracked p" and "jinv m" and "jget (cooldownKey p c) m = None" and "ts \<noteq> []"
    and "n = length ts" and "m' = failAt p c st ts m"
  defines "d \<equiv> min (minCooldown st * 2 ^ min (n - 1) 10) (maxCooldown st)"
  shows "(isProviderInCooldown now p c st m' \<longleftrightarrow> now - last ts < d)
    \<and> getRemainingCooldownMs now p c st m' = max 0 (last ts + d - now)
    \<and> isProviderInCooldown now p c st (cleanupExpiredCooldownEntries now m') = isProviderInCooldown now p c st m'"
proof -
  have e: "jget (cooldownKey p c) m' = Some \<lparr>ce_lastFailureAt = last ts, ce_failureCount = int n,
      ce_retentionMs = getEntryRetentionMs st\<rparr>"
    using failAt_entry [OF assms(1,3,4)] assms(5,6) by simp
  have n: "0 < n" using assms(4,5) by simp
  then have "nat (min (max 0 (int n - 1)) 10) = min (n - 1) 10" by (auto simp: min_def max_def nat_diff_distrib)
  then have d: "scaledCooldown st (int n) = d" by (simp add: scaledCooldown_def d_def)
  have "jinv m'"
    unfolding assms(6) using assms(2)
    by (induction ts arbitrary: m) (auto simp: recordProviderCooldown_def split: option.split)
  then have k: "jget (cooldownKey p c) (cleanupExpiredCooldownEntries now m') =
      (if getEntryRetentionMs st < now - last ts then None else jget (cooldownKey p c) m')"
    by (simp add: jget_cleanup e)
  have "d \<le> getEntryRetentionMs st" using scaledCooldown_cap [of st "int n"] d by simp
  with e d n k assms(1) show ?thesis
    by (auto simp: isProviderInCooldown_def getRemainingCooldownMs_def Let_def)
qed

definition defaultCooldown :: cooldown_settings where
  "defaultCooldown = \<lparr>minRetryCooldownMs = None, maxRetryCooldownMs = None\<rparr>"

theorem provider_cooldown_exact_witness:
  "isProviderInCooldown 22999 ''openai'' None defaultCooldown (failAt ''openai'' None defaultCooldown [0, 1000, 3000] [])
   \<and> \<not> isProviderInCooldown 23000 ''openai'' None defaultCooldown (failAt ''openai'' None defaultCooldown [0, 1000, 3000] [])"
proof -
  have u: "\<not> untracked ''openai''" by (simp add: untracked_def)
  have "isProviderInCooldown now ''openai'' None defaultCooldown (failAt ''openai'' None defaultCooldown [0, 1000, 3000] [])
      \<longleftrightarrow> now - 3000 < 20000" for now
    using provider_cooldown_exact [OF u, of "[]" None "[0, 1000, 3000]" 3 _ defaultCooldown now]
    by (simp add: minCooldown_def maxCooldown_def defaultCooldown_def)
  then show ?thesis by simp
qed

text \<open>
  The two queries disagree after a success: a success ends the cooldown, but the remaining
  time is still reported as if one failure were running.
\<close>

theorem provider_cooldown_after_success:
  assumes "\<not> untracked p" and "jget (cooldownKey p c) m = Some e"
    and "now - ce_lastFailureAt e < min (minCooldown st) (maxCooldown st)"
  shows "\<not> isProviderInCooldown now p c st (recordProviderSuccess p c m)
    \<and> 0 < getRemainingCooldownMs now p c st (recordProviderSuccess p c m)"
  using assms
  by (simp add: isProviderInCooldown_def getRemainingCooldownMs_def recordProviderSuccess_def scaledCooldown_def Let_def)

theorem provider_cooldown_after_success_witness:
  "getRemainingCooldownMs 2000 ''openai'' None defaultCooldown
     (recordProviderSuccess ''openai'' None (recordProviderCooldown 1000 ''openai'' None defaultCooldown [])) > 0"
proof -
  let ?m = "recordProviderCooldown 1000 ''openai'' None defaultCooldown []"
  have u: "\<not> untracked ''openai''" by (simp add: untracked_def)
  have e: "jget (cooldownKey ''openai'' None) ?m = Some \<lparr>ce_lastFailureAt = 1000, ce_failureCount = 1, ce_retentionMs = 1800000\<rparr>"
    by code_simp
  have "2000 - ce_lastFailureAt \<lparr>ce_lastFailureAt = 1000, ce_failureCount = 1, ce_retentionMs = 1800000\<rparr>
      < min (minCooldown defaultCooldown) (maxCooldown defaultCooldown)" by code_simp
  from provider_cooldown_after_success [OF u e this] show ?thesis by simp
qed

end
