(* ===== verification/FailureTracker.thy ===== *)
theory FailureTracker
  imports Prelude
begin

text \<open>
  The consecutive-failure tracker of \<open>open-sse/services/combo/failureTracker.ts\<close>. Dropping a
  session pin (\<open>deleteSessionModelHistory\<close>) is an output: the flag \<open>pinClearedNow\<close> says that
  it was called, and the code ignores its failure.
\<close>

section \<open>Model\<close>

definition COMBO_FAILURE_THRESHOLD :: nat where "COMBO_FAILURE_THRESHOLD = 3"
definition COUNTER_TTL_MS :: int where "COUNTER_TTL_MS = 5 * 60 * 1000"
definition MAX_ENTRIES :: nat where "MAX_ENTRIES = 2000"

record failure_entry =
  fe_count :: nat
  fe_lastFailureAt :: millis
  fe_pinCleared :: bool

type_synonym tracker = "(string, failure_entry) jmap"

definition keyOf :: "string \<Rightarrow> string \<Rightarrow> string" where
  "keyOf sessionId comboName = sessionId @ ''::'' @ comboName"

text \<open>The first key with the smallest time, found by a walk in map order.\<close>

fun oldestFrom :: "(string \<times> int) option \<Rightarrow> tracker \<Rightarrow> (string \<times> int) option" where
  "oldestFrom best [] = best"
| "oldestFrom best ((k, e) # m) =
     oldestFrom (case best of
         None \<Rightarrow> Some (k, fe_lastFailureAt e)
       | Some (k', t) \<Rightarrow> (if fe_lastFailureAt e < t then Some (k, fe_lastFailureAt e) else best)) m"

function capEntries :: "tracker \<Rightarrow> tracker" where
  "capEntries m =
     (if MAX_ENTRIES < jsize m
      then (case oldestFrom None m of None \<Rightarrow> m | Some (k, t) \<Rightarrow>
              (if jhas k m then capEntries (jdel k m) else m))
      else m)"
  by pat_completeness auto
termination
proof (relation "measure length")
  fix m :: tracker and p k and t :: int
  assume "jhas k m"
  then obtain x where "x \<in> set m" "\<not> fst x \<noteq> k" by (auto simp: jhas_iff jkeys_def)
  then have "length (filter (\<lambda>x. fst x \<noteq> k) m) < length m" by (rule length_filter_less)
  then show "(jdel k m, m) \<in> measure length" by (simp add: jdel_def)
qed simp

declare capEntries.simps [simp del]

definition expireEntries :: "millis \<Rightarrow> tracker \<Rightarrow> tracker" where
  "expireEntries now m = filter (\<lambda>(k, e). \<not> COUNTER_TTL_MS < now - fe_lastFailureAt e) m"

definition evict :: "millis \<Rightarrow> tracker \<Rightarrow> tracker" where
  "evict now m = capEntries (expireEntries now m)"

record failure_outcome =
  fo_count :: nat
  pinClearedNow :: bool

definition recordComboFailure :: "millis \<Rightarrow> string option \<Rightarrow> string \<Rightarrow> tracker \<Rightarrow> failure_outcome \<times> tracker" where
  "recordComboFailure now sessionId combo m0 =
     (case nullish sessionId '''' of
        '''' \<Rightarrow> (\<lparr>fo_count = 0, pinClearedNow = False\<rparr>, m0)
      | sid \<Rightarrow>
        (let m = evict now m0;
             key = keyOf sid combo;
             existing = jget key m;
             n = (case existing of None \<Rightarrow> 0 | Some e \<Rightarrow> fe_count e) + 1;
             before = (case existing of None \<Rightarrow> False | Some e \<Rightarrow> fe_pinCleared e);
             clearNow = (COMBO_FAILURE_THRESHOLD \<le> n \<and> \<not> before)
         in (\<lparr>fo_count = n, pinClearedNow = clearNow\<rparr>,
             jset key \<lparr>fe_count = n, fe_lastFailureAt = now, fe_pinCleared = (clearNow \<or> before)\<rparr> m)))"

definition clearComboFailureTracking :: "string option \<Rightarrow> string \<Rightarrow> tracker \<Rightarrow> tracker" where
  "clearComboFailureTracking sessionId combo m =
     (case nullish sessionId '''' of '''' \<Rightarrow> m | sid \<Rightarrow> jdel (keyOf sid combo) m)"

definition getComboFailureCount :: "millis \<Rightarrow> string option \<Rightarrow> string \<Rightarrow> tracker \<Rightarrow> nat" where
  "getComboFailureCount now sessionId combo m =
     (case nullish sessionId '''' of
        '''' \<Rightarrow> 0
      | sid \<Rightarrow>
        (case jget (keyOf sid combo) m of
           None \<Rightarrow> 0
         | Some e \<Rightarrow> (if COUNTER_TTL_MS < now - fe_lastFailureAt e then 0 else fe_count e)))"

section \<open>Eviction\<close>

lemma oldestFrom_Some: "\<exists>k t. oldestFrom (Some p) m = Some (k, t) \<and> (k = fst p \<or> jhas k m)"
proof (induction m arbitrary: p)
  case Nil
  then show ?case by (cases p) simp
next
  case (Cons x m)
  obtain k e where x: "x = (k, e)" by (cases x)
  obtain k' t where p: "p = (k', t)" by (cases p)
  show ?case
  proof (cases "fe_lastFailureAt e < t")
    case True
    with Cons.IH [of "(k, fe_lastFailureAt e)"] x p show ?thesis by (fastforce simp: jhas_iff jkeys_def)
  next
    case False
    with Cons.IH [of p] x p show ?thesis by (fastforce simp: jhas_iff jkeys_def)
  qed
qed

lemma oldest_key: "m \<noteq> [] \<Longrightarrow> \<exists>k t. oldestFrom None m = Some (k, t) \<and> jhas k m"
proof (cases m)
  case (Cons x m')
  obtain k e where x: "x = (k, e)" by (cases x)
  from oldestFrom_Some [of "(k, fe_lastFailureAt e)" m'] Cons x show ?thesis
    by (auto simp: jhas_iff jkeys_def)
qed simp

lemma capEntries_size: "jsize (capEntries m) \<le> MAX_ENTRIES"
proof (induction m rule: capEntries.induct)
  case (1 m)
  show ?case
  proof (cases "MAX_ENTRIES < jsize m")
    case True
    then have "m \<noteq> []" by (auto simp: jsize_def)
    then obtain k t where k: "oldestFrom None m = Some (k, t)" "jhas k m" using oldest_key by blast
    then have "jsize (capEntries (jdel k m)) \<le> MAX_ENTRIES" using 1 [OF True] by simp
    with True k show ?thesis by (subst capEntries.simps) simp
  next
    case False
    then show ?thesis by (subst capEntries.simps) simp
  qed
qed

lemma capEntries_small: "jsize m \<le> MAX_ENTRIES \<Longrightarrow> capEntries m = m"
  by (subst capEntries.simps) simp

lemma capEntries_subset: "set (capEntries m) \<subseteq> set m"
proof (induction m rule: capEntries.induct)
  case (1 m)
  show ?case
  proof (cases "MAX_ENTRIES < jsize m")
    case True
    then have "m \<noteq> []" by (auto simp: jsize_def)
    then obtain k t where k: "oldestFrom None m = Some (k, t)" "jhas k m" using oldest_key by blast
    then have "set (capEntries (jdel k m)) \<subseteq> set (jdel k m)" using 1 [OF True] by simp
    also have "\<dots> \<subseteq> set m" by (auto simp: jdel_def)
    finally show ?thesis using True k by (subst capEntries.simps) simp
  next
    case False
    then show ?thesis by (subst capEntries.simps) simp
  qed
qed

lemma expireEntries_get:
  "jinv m \<Longrightarrow> jget k m = Some e \<Longrightarrow> now - fe_lastFailureAt e \<le> COUNTER_TTL_MS \<Longrightarrow>
   jget k (expireEntries now m) = Some e"
  by (auto simp: jget_eq_Some_iff expireEntries_def jget_in_set)

lemma expireEntries_size: "jsize (expireEntries now m) \<le> jsize m"
  by (simp add: expireEntries_def jsize_def)

lemma evict_get:
  assumes "jinv m" and "jsize m \<le> MAX_ENTRIES" and "jget k m = Some e" and "now - fe_lastFailureAt e \<le> COUNTER_TTL_MS"
  shows "jget k (evict now m) = Some e"
proof -
  have "jsize (expireEntries now m) \<le> MAX_ENTRIES"
    using assms(2) expireEntries_size [of now m] by simp
  then show ?thesis
    using expireEntries_get [OF assms(1,3,4)] by (simp add: evict_def capEntries_small)
qed

section \<open>Streaks\<close>

text \<open>A session that fails at the given times.\<close>

fun failStreak :: "string \<Rightarrow> string \<Rightarrow> millis list \<Rightarrow> tracker \<Rightarrow> failure_outcome list" where
  "failStreak sid combo [] m = []"
| "failStreak sid combo (t # ts) m =
     (let (r, m') = recordComboFailure t (Some sid) combo m in r # failStreak sid combo ts m')"

fun withinTtl :: "millis list \<Rightarrow> bool" where
  "withinTtl (t # u # ts) \<longleftrightarrow> u - t \<le> COUNTER_TTL_MS \<and> withinTtl (u # ts)"
| "withinTtl ts \<longleftrightarrow> True"

definition streakOutcome :: "nat \<Rightarrow> failure_outcome" where
  "streakOutcome n = \<lparr>fo_count = n, pinClearedNow = (n = COMBO_FAILURE_THRESHOLD)\<rparr>"

lemma jinv_evict: "jinv m \<Longrightarrow> jinv (evict now m)"
proof -
  have "jinv m \<Longrightarrow> jinv (capEntries m)" for m
  proof (induction m rule: capEntries.induct)
    case (1 m)
    then show ?case
      by (subst capEntries.simps) (auto split: option.split)
  qed
  then show "jinv m \<Longrightarrow> jinv (evict now m)" by (simp add: evict_def expireEntries_def)
qed

lemma record_size: "jsize (snd (recordComboFailure now sid combo m)) \<le> max (jsize m) (Suc MAX_ENTRIES)"
  using capEntries_size [of "expireEntries now m"]
  by (cases "nullish sid ''''") (auto simp: recordComboFailure_def Let_def jsize_jset evict_def)

lemma recordComboFailure_step:
  assumes "sid \<noteq> ''''" and "n = (case jget (keyOf sid combo) (evict now m) of None \<Rightarrow> 0 | Some e \<Rightarrow> fe_count e)"
    and "(case jget (keyOf sid combo) (evict now m) of None \<Rightarrow> False | Some e \<Rightarrow> fe_pinCleared e) = (COMBO_FAILURE_THRESHOLD \<le> n)"
  shows "recordComboFailure now (Some sid) combo m = (streakOutcome (Suc n),
    jset (keyOf sid combo) \<lparr>fe_count = Suc n, fe_lastFailureAt = now, fe_pinCleared = (COMBO_FAILURE_THRESHOLD \<le> Suc n)\<rparr> (evict now m))"
proof -
  obtain c cs where sid: "sid = c # cs" using assms(1) by (cases sid) auto
  show ?thesis
    using assms(2,3) unfolding sid recordComboFailure_def Let_def
    by (simp add: streakOutcome_def COMBO_FAILURE_THRESHOLD_def) auto
qed

lemma failStreak_known:
  assumes "sid \<noteq> ''''" and "jinv m" and "jsize m \<le> MAX_ENTRIES"
    and "jget (keyOf sid combo) m = Some \<lparr>fe_count = n, fe_lastFailureAt = t0, fe_pinCleared = (COMBO_FAILURE_THRESHOLD \<le> n)\<rparr>"
    and "withinTtl (t0 # ts)"
  shows "failStreak sid combo ts m = map streakOutcome [Suc n ..< Suc n + length ts]"
  using assms(2-)
proof (induction ts arbitrary: n t0 m)
  case Nil
  then show ?case by simp
next
  case (Cons t ts)
  let ?e = "\<lparr>fe_count = n, fe_lastFailureAt = t0, fe_pinCleared = (COMBO_FAILURE_THRESHOLD \<le> n)\<rparr>"
  let ?k = "keyOf sid combo"
  let ?e' = "\<lparr>fe_count = Suc n, fe_lastFailureAt = t, fe_pinCleared = (COMBO_FAILURE_THRESHOLD \<le> Suc n)\<rparr>"
  have ev: "jget ?k (evict t m) = Some ?e"
    using evict_get [OF Cons.prems(1,2,3)] Cons.prems(4) by simp
  have r: "recordComboFailure t (Some sid) combo m = (streakOutcome (Suc n), jset ?k ?e' (evict t m))"
    by (rule recordComboFailure_step [OF assms(1)]) (simp_all add: ev)
  have "jhas ?k (evict t m)" using ev by (simp add: jhas_def)
  then have "jsize (jset ?k ?e' (evict t m)) \<le> MAX_ENTRIES"
    using capEntries_size [of "expireEntries t m"] by (simp add: jsize_jset evict_def)
  moreover have "withinTtl (t # ts)" using Cons.prems(4) by simp
  ultimately have "failStreak sid combo ts (jset ?k ?e' (evict t m)) = map streakOutcome [Suc (Suc n) ..< Suc (Suc n) + length ts]"
    by (intro Cons.IH [of _ _ t]) (simp_all add: Cons.prems(1) jinv_evict)
  moreover have "[Suc n ..< Suc n + length (t # ts)] = Suc n # [Suc (Suc n) ..< Suc (Suc n) + length ts]"
    by (subst upt_conv_Cons) (simp_all del: upt_Suc)
  ultimately show ?case by (simp add: r)
qed

section \<open>Properties\<close>

text \<open>
  The pin is dropped once per streak, at the third failure: of a session's failures of a
  combo, each within the time-to-live of the one before, the \<open>n\<close>-th is counted as \<open>n\<close> and
  exactly the one that reaches the threshold clears the pin; afterwards the table holds at
  most one entry more than its cap.
\<close>

theorem combo_failure_streak:
  assumes "sid \<noteq> ''''" and "jinv m" and "jsize m < MAX_ENTRIES" and "jget (keyOf sid combo) m = None"
    and "withinTtl ts"
  shows "failStreak sid combo ts m = map streakOutcome [1 ..< Suc (length ts)]
    \<and> (\<forall>now s c m. jsize m \<le> Suc MAX_ENTRIES \<longrightarrow> jsize (snd (recordComboFailure now s c m)) \<le> Suc MAX_ENTRIES)"
proof
  show "\<forall>now s c m. jsize m \<le> Suc MAX_ENTRIES \<longrightarrow> jsize (snd (recordComboFailure now s c m)) \<le> Suc MAX_ENTRIES"
    using record_size by (metis max.absorb2)
  show "failStreak sid combo ts m = map streakOutcome [1 ..< Suc (length ts)]"
  proof (cases ts)
    case (Cons t ts')
    let ?k = "keyOf sid combo"
    let ?e = "\<lparr>fe_count = 1, fe_lastFailureAt = t, fe_pinCleared = (COMBO_FAILURE_THRESHOLD \<le> 1)\<rparr>"
    have le: "jsize (evict t m) \<le> jsize m" "jget ?k (evict t m) = None"
    proof -
      have small: "jsize (expireEntries t m) \<le> MAX_ENTRIES" "jsize (expireEntries t m) \<le> jsize m"
        using assms(3) expireEntries_size [of t m] by simp_all
      then show "jsize (evict t m) \<le> jsize m" by (simp add: evict_def capEntries_small)
      have "set (jkeys (expireEntries t m)) \<subseteq> set (jkeys m)" by (auto simp: expireEntries_def jkeys_def)
      with assms(4) small show "jget ?k (evict t m) = None"
        by (auto simp: evict_def capEntries_small jget_None_iff)
    qed
    have r: "recordComboFailure t (Some sid) combo m = (streakOutcome (Suc 0),
        jset ?k \<lparr>fe_count = Suc 0, fe_lastFailureAt = t, fe_pinCleared = (COMBO_FAILURE_THRESHOLD \<le> Suc 0)\<rparr> (evict t m))"
      by (rule recordComboFailure_step [OF assms(1)]) (simp_all add: le COMBO_FAILURE_THRESHOLD_def)
    have "jsize (jset ?k ?e (evict t m)) \<le> MAX_ENTRIES"
      using le assms(3) by (simp add: jsize_jset jhas_def)
    then have "failStreak sid combo ts' (jset ?k ?e (evict t m)) = map streakOutcome [Suc 1 ..< Suc 1 + length ts']"
      using assms(5) Cons by (intro failStreak_known [OF assms(1)]) (simp_all add: jinv_evict assms(2))
    moreover have "[1 ..< Suc (length ts)] = Suc 0 # [Suc 1 ..< Suc 1 + length ts']"
      unfolding Cons by (subst upt_conv_Cons) (simp_all del: upt_Suc)
    ultimately show ?thesis by (simp add: Cons r)
  qed simp
qed

theorem combo_failure_streak_witness:
  "map pinClearedNow (failStreak ''s1'' ''fast'' [0, 1000, 2000, 3000] []) = [False, False, True, False]"
proof -
  have "failStreak ''s1'' ''fast'' [0, 1000, 2000, 3000] [] = map streakOutcome [1 ..< Suc (length [0, 1000, 2000, 3000 :: int])]"
    by (rule conjunct1 [OF combo_failure_streak]) (simp_all add: MAX_ENTRIES_def jsize_def COUNTER_TTL_MS_def)
  then show ?thesis by (simp add: streakOutcome_def COMBO_FAILURE_THRESHOLD_def eval_nat_numeral)
qed

end
