(* ===== verification/AccountBuckets.thy ===== *)
theory AccountBuckets
  imports Prelude Complex_Main
begin

text \<open>
  The two in-process signals of the quota-share strategy: the saturation buckets of
  \<open>src/lib/quota/accountBuckets.ts\<close> and the in-flight counters of
  \<open>open-sse/services/combo/quotaShareInflight.ts\<close>.

  Percentages are rational numbers. A reset instant enters as the epoch milliseconds that
  \<open>Date.parse\<close> gives, \<open>None\<close> when there is none or it cannot be parsed.
\<close>

section \<open>Saturation buckets\<close>

record bucket_entry =
  be_saturated :: bool
  be_resetsAtMs :: millis

type_synonym buckets = "(string, bucket_entry) jmap"

definition SATURATION_THRESHOLD_PCT :: rat where "SATURATION_THRESHOLD_PCT = 100"

definition storeKey :: "string \<Rightarrow> string \<Rightarrow> string" where
  "storeKey connectionId windowKey = connectionId @ ''::'' @ windowKey"

definition parseResetAtMs :: "millis option \<Rightarrow> millis" where
  "parseResetAtMs r = (case r of None \<Rightarrow> 0 | Some ms \<Rightarrow> (if 0 < ms then ms else 0))"

definition isBucketSaturated :: "string \<Rightarrow> string \<Rightarrow> millis \<Rightarrow> buckets \<Rightarrow> bool \<times> buckets" where
  "isBucketSaturated c w now b =
     (if c = '''' \<or> w = '''' then (False, b)
      else (case jget (storeKey c w) b of
              None \<Rightarrow> (False, b)
            | Some e \<Rightarrow>
              (if 0 < be_resetsAtMs e \<and> be_resetsAtMs e \<le> now then (False, jdel (storeKey c w) b)
               else (be_saturated e, b))))"

definition recordUsage :: "string \<Rightarrow> string \<Rightarrow> rat \<Rightarrow> millis option \<Rightarrow> millis \<Rightarrow> buckets \<Rightarrow> buckets" where
  "recordUsage c w usedPct resetAt now b =
     (if c = '''' \<or> w = '''' then b
      else (let r = parseResetAtMs resetAt
            in if 0 < r \<and> r \<le> now then jdel (storeKey c w) b
               else if \<not> SATURATION_THRESHOLD_PCT \<le> usedPct then jdel (storeKey c w) b
               else jset (storeKey c w) \<lparr>be_saturated = True, be_resetsAtMs = r\<rparr> b))"

record usage_quota =
  uq_used :: "rat option"
  uq_resetAt :: "millis option"

definition processQuotaEntry :: "string \<Rightarrow> string \<Rightarrow> usage_quota option \<Rightarrow> millis \<Rightarrow> buckets \<Rightarrow> buckets" where
  "processQuotaEntry c w entry now b =
     (case entry of
        None \<Rightarrow> b
      | Some q \<Rightarrow> (case uq_used q of None \<Rightarrow> b | Some u \<Rightarrow> recordUsage c w u (uq_resetAt q) now b))"

text \<open>The match of \<open>^weekly (.+) \(7d\)$\<close>.\<close>

definition ends_with :: "string \<Rightarrow> string \<Rightarrow> bool" where
  "ends_with p s = starts_with (rev p) (rev s)"

definition weeklyModel :: "string \<Rightarrow> string option" where
  "weeklyModel key =
     (if starts_with ''weekly '' key \<and> ends_with '' (7d)'' key \<and> 12 < length key
         \<and> CHR 0x0A \<notin> set key \<and> CHR 0x0D \<notin> set key
      then Some (take (length key - 12) (drop 7 key)) else None)"

definition updateAccountBuckets ::
  "string \<Rightarrow> (string, usage_quota option) jmap option \<Rightarrow> millis \<Rightarrow> buckets \<Rightarrow> buckets" where
  "updateAccountBuckets c usage now b0 =
     (case (c, usage) of
        ('''', _) \<Rightarrow> b0
      | (_, None) \<Rightarrow> b0
      | (_, Some quotas) \<Rightarrow>
        (let b1 = processQuotaEntry c ''5h'' (nullish (jget ''session (5h)'' quotas) None) now b0;
             b2 = processQuotaEntry c ''7d'' (nullish (jget ''weekly (7d)'' quotas) None) now b1
         in fold (\<lambda>(key, entry) b. case weeklyModel key of
                    None \<Rightarrow> b
                  | Some m \<Rightarrow> processQuotaEntry c (''7d:'' @ m) entry now b) quotas b2))"

section \<open>In-flight counters\<close>

definition DEFAULT_LEASE_MS :: int where "DEFAULT_LEASE_MS = 120000"

record inflight_slot =
  is_count :: int
  is_expiresAtMs :: millis

type_synonym inflight = "(string, inflight_slot) jmap"

definition pruneExpired :: "millis \<Rightarrow> inflight \<Rightarrow> inflight" where
  "pruneExpired now m = filter (\<lambda>(k, s). \<not> is_expiresAtMs s \<le> now) m"

definition incrementInflight :: "string \<Rightarrow> int \<Rightarrow> millis \<Rightarrow> inflight \<Rightarrow> int \<times> inflight" where
  "incrementInflight c lease now m0 =
     (if c = '''' then (0, m0)
      else (let m = pruneExpired now m0;
                base = (case jget c m of None \<Rightarrow> 0 | Some s \<Rightarrow> (if now < is_expiresAtMs s then is_count s else 0))
            in (base + 1, jset c \<lparr>is_count = base + 1, is_expiresAtMs = now + lease\<rparr> m)))"

definition decrementInflight :: "string \<Rightarrow> millis \<Rightarrow> inflight \<Rightarrow> inflight" where
  "decrementInflight c now m =
     (if c = '''' then m
      else (case jget c m of
              None \<Rightarrow> jdel c m
            | Some s \<Rightarrow>
              (if is_expiresAtMs s \<le> now then jdel c m
               else let n = max 0 (is_count s - 1)
                    in if n = 0 then jdel c m
                       else jset c \<lparr>is_count = n, is_expiresAtMs = is_expiresAtMs s\<rparr> m)))"

definition getInflight :: "string \<Rightarrow> millis \<Rightarrow> inflight \<Rightarrow> int" where
  "getInflight c now m =
     (if c = '''' then 0
      else (case jget c m of
              None \<Rightarrow> 0
            | Some s \<Rightarrow> (if is_expiresAtMs s \<le> now then 0 else is_count s)))"

section \<open>Laws\<close>

text \<open>A bucket read twice at the same time gives the same answer; the lazy reset is not seen.\<close>

definition saturatedAt :: "string \<Rightarrow> string \<Rightarrow> millis \<Rightarrow> buckets \<Rightarrow> bool" where
  "saturatedAt c w now b = fst (isBucketSaturated c w now b)"

lemma storeKey_shape: "storeKey c w = storeKey c w' \<longleftrightarrow> w = w'"
  by (simp add: storeKey_def)

lemma isBucketSaturated_pure: "saturatedAt c' w' now (snd (isBucketSaturated c w now b)) = saturatedAt c' w' now b"
  by (auto simp: saturatedAt_def isBucketSaturated_def split: option.splits if_splits)

text \<open>Each increment of a live slot is visible, and a decrement at the same clock undoes it.\<close>

lemma jget_prune:
  "jinv m \<Longrightarrow> jget c (pruneExpired now m) =
     (case jget c m of None \<Rightarrow> None | Some s \<Rightarrow> if is_expiresAtMs s \<le> now then None else Some s)"
proof (induction m)
  case (Cons x m)
  obtain k s where x: "x = (k, s)" by (cases x)
  have "jinv m" "jget k m = None" using Cons.prems by (simp_all add: jinv_def jkeys_def x jget_None_iff)
  with Cons.IH x show ?case by (auto simp: pruneExpired_def jget_Cons)
qed (simp add: pruneExpired_def)

lemma increment_get:
  assumes "jinv m" and "c \<noteq> ''''" and "0 < lease"
  shows "getInflight c' now (snd (incrementInflight c lease now m)) =
    getInflight c' now m + (if c' = c then 1 else 0)"
  using assms by (auto simp: getInflight_def incrementInflight_def Let_def jget_prune split: option.split)

lemma increment_inv: "jinv m \<Longrightarrow> jinv (snd (incrementInflight c lease now m))"
  by (simp add: incrementInflight_def Let_def pruneExpired_def)

lemma decrement_get:
  assumes "0 < getInflight c now m"
  shows "getInflight c' now (decrementInflight c now m) = getInflight c' now m - (if c' = c then 1 else 0)"
  using assms by (auto simp: getInflight_def decrementInflight_def Let_def split: option.splits if_splits)

end
