(* ===== verification/QuotaShare.thy ===== *)
theory QuotaShare
  imports AccountBuckets
begin

text \<open>
  The selection strategy of quota-share combos, \<open>open-sse/services/combo/quotaShareStrategy.ts\<close>:
  gating by saturated buckets and by concurrency caps, deficit round robin (DRR), and the
  choice between the two first candidates by in-flight load (P2C). Weights and deficits are
  rational numbers, where the code has floating-point ones; a weight that is missing or not
  finite is \<open>None\<close>.
\<close>

section \<open>State\<close>

record qtarget =
  tg_connectionId :: "string option"
  tg_executionKey :: string
  tg_weight :: "rat option"

type_synonym deficits = "(string, rat) jmap"

record qs_state =
  drrState :: "(string, deficits) jmap"
  qsBuckets :: buckets
  qsInflight :: inflight

definition MAX_DRR_COMBOS :: nat where "MAX_DRR_COMBOS = 200"

definition getDrrDeficits :: "string \<Rightarrow> (string, deficits) jmap \<Rightarrow> deficits \<times> (string, deficits) jmap" where
  "getDrrDeficits combo m =
     (case jget combo m of
        Some d \<Rightarrow> (d, m)
      | None \<Rightarrow> ([], jset combo [] (if MAX_DRR_COMBOS \<le> jsize m then jdel (hd (jkeys m)) m else m)))"

section \<open>Gating\<close>

definition bareModelName :: "string \<Rightarrow> string" where
  "bareModelName m = (if CHR ''/'' \<in> set m then tl (dropWhile (\<lambda>c. c \<noteq> CHR ''/'') m) else m)"

definition connOf :: "qtarget \<Rightarrow> string" where
  "connOf t = nullish (tg_connectionId t) ''''"

definition targetSaturated :: "string \<Rightarrow> millis \<Rightarrow> qtarget \<Rightarrow> buckets \<Rightarrow> bool \<times> buckets" where
  "targetSaturated model now t b =
     (let c = connOf t
      in if c = '''' then (False, b)
         else (let (s1, b1) = isBucketSaturated c ''5h'' now b
               in if s1 then (True, b1)
                  else (let (s2, b2) = isBucketSaturated c ''7d'' now b1
                        in if s2 then (True, b2)
                           else if model = '''' then (False, b2)
                           else isBucketSaturated c (''7d:'' @ model) now b2)))"

fun eligibleLoop :: "string \<Rightarrow> millis \<Rightarrow> qtarget list \<Rightarrow> buckets \<Rightarrow> qtarget list \<times> buckets" where
  "eligibleLoop model now [] b = ([], b)"
| "eligibleLoop model now (t # ts) b =
     (let (s, b1) = targetSaturated model now t b; (es, b2) = eligibleLoop model now ts b1
      in (if s then es else t # es, b2))"

definition filterEligibleBySaturation ::
  "qtarget list \<Rightarrow> string \<Rightarrow> millis \<Rightarrow> buckets \<Rightarrow> qtarget list \<times> buckets" where
  "filterEligibleBySaturation ts modelStr now b =
     (let (es, b') = eligibleLoop (bareModelName modelStr) now ts b
      in (if es \<noteq> [] then es else ts, b'))"

type_synonym caps = "(string, int option) jmap"

definition resolveConnectionCap :: "string \<Rightarrow> caps option \<Rightarrow> int option" where
  "resolveConnectionCap c cs =
     (case (c, cs) of
        ('''', _) \<Rightarrow> None
      | (_, None) \<Rightarrow> None
      | (_, Some m) \<Rightarrow>
        (case jget c m of
           None \<Rightarrow> None
         | Some None \<Rightarrow> None
         | Some (Some cap) \<Rightarrow> (if cap \<le> 0 then None else Some cap)))"

definition atCapNow :: "caps option \<Rightarrow> millis \<Rightarrow> inflight \<Rightarrow> qtarget \<Rightarrow> bool" where
  "atCapNow cs now m t =
     (case resolveConnectionCap (connOf t) cs of
        None \<Rightarrow> False
      | Some cap \<Rightarrow> cap \<le> getInflight (connOf t) now m)"

definition partitionByConcurrencyCap ::
  "qtarget list \<Rightarrow> caps option \<Rightarrow> millis \<Rightarrow> inflight \<Rightarrow> qtarget list \<times> qtarget list" where
  "partitionByConcurrencyCap ts cs now m =
     (if cs = None \<or> cs = Some [] then (ts, [])
      else (let withRoom = filter (\<lambda>t. \<not> atCapNow cs now m t) ts; atCap = filter (atCapNow cs now m) ts
            in if withRoom = [] then (ts, []) else (withRoom, atCap)))"

section \<open>Deficit round robin\<close>

definition normalizeWeight :: "rat option \<Rightarrow> rat" where
  "normalizeWeight w = (case w of None \<Rightarrow> 1 | Some x \<Rightarrow> (if 0 < x then x else 1))"

definition totalWeight :: "qtarget list \<Rightarrow> rat" where
  "totalWeight ts = foldl (\<lambda>s t. s + normalizeWeight (tg_weight t)) 0 ts"

definition deficitOf :: "deficits \<Rightarrow> qtarget \<Rightarrow> rat" where
  "deficitOf d t = nullish (jget (tg_executionKey t) d) 0"

definition addQuantum :: "rat \<Rightarrow> qtarget \<Rightarrow> deficits \<Rightarrow> deficits" where
  "addQuantum sumW t d =
     jset (tg_executionKey t) (deficitOf d t + normalizeWeight (tg_weight t) / sumW) d"

text \<open>The scan for the largest deficit; a later target wins only with a larger one.\<close>

definition pickWinner :: "deficits \<Rightarrow> qtarget list \<Rightarrow> qtarget" where
  "pickWinner d ts = foldl (\<lambda>w t. if deficitOf d w < deficitOf d t then t else w) (hd ts) (tl ts)"

definition drrRound :: "qtarget list \<Rightarrow> deficits \<Rightarrow> qtarget \<times> deficits" where
  "drrRound ts d0 =
     (let d = fold (addQuantum (totalWeight ts)) ts d0; w = pickWinner d ts
      in (w, jset (tg_executionKey w) (deficitOf d w - 1) d))"

definition applyDrr :: "qtarget list \<Rightarrow> string \<Rightarrow> (string, deficits) jmap \<Rightarrow> qtarget list \<times> (string, deficits) jmap" where
  "applyDrr ts combo m0 =
     (if length ts \<le> 1 then (ts, m0)
      else (let (d, m) = getDrrDeficits combo m0; (w, d') = drrRound ts d
            in (w # filter (\<lambda>t. tg_executionKey t \<noteq> tg_executionKey w) ts, jset combo d' m)))"

section \<open>Selection\<close>

definition pickByInflightP2C :: "qtarget \<Rightarrow> qtarget \<Rightarrow> millis \<Rightarrow> inflight \<Rightarrow> nat" where
  "pickByInflightP2C t u now m =
     (if getInflight (connOf u) now m < getInflight (connOf t) now m then 1 else 0)"

definition orderByLoad :: "millis \<Rightarrow> inflight \<Rightarrow> qtarget list \<Rightarrow> qtarget list" where
  "orderByLoad now m ts =
     (case ts of
        t # u # rest \<Rightarrow> (if pickByInflightP2C t u now m = 1 then u # t # rest else ts)
      | _ \<Rightarrow> ts)"

record qs_result =
  qr_target :: "qtarget option"
  qr_orderedTargets :: "qtarget list"

definition selectQuotaShareTarget ::
  "qtarget list \<Rightarrow> string \<Rightarrow> string \<Rightarrow> millis \<Rightarrow> caps option \<Rightarrow> qs_state \<Rightarrow> qs_result \<times> qs_state" where
  "selectQuotaShareTarget ts combo modelStr now cs s =
     (if ts = [] then (\<lparr>qr_target = None, qr_orderedTargets = []\<rparr>, s)
      else
        (let (eligible, b) = filterEligibleBySaturation ts modelStr now (qsBuckets s);
             saturated = filter (\<lambda>t. t \<notin> set eligible) ts;
             (withRoom, atCap) = partitionByConcurrencyCap eligible cs now (qsInflight s);
             (ordered, m) = applyDrr withRoom combo (drrState s);
             byLoad = orderByLoad now (qsInflight s) ordered;
             winner = hd byLoad
         in (\<lparr>qr_target = Some winner, qr_orderedTargets = byLoad @ atCap @ saturated\<rparr>,
             \<lparr>drrState = m, qsBuckets = b,
              qsInflight = (if connOf winner \<noteq> '''' then snd (incrementInflight (connOf winner) DEFAULT_LEASE_MS now (qsInflight s))
                            else qsInflight s)\<rparr>)))"

text \<open>
  The callback the caller gets: it acts once, at the clock of the selection. \<open>released\<close> is the
  flag it closes over.
\<close>

definition decrementOnce :: "qtarget \<Rightarrow> millis \<Rightarrow> bool \<times> qs_state \<Rightarrow> bool \<times> qs_state" where
  "decrementOnce winner now rs =
     (let (released, s) = rs
      in if released then rs
         else (True, if connOf winner \<noteq> '''' then s\<lparr>qsInflight := decrementInflight (connOf winner) now (qsInflight s)\<rparr> else s))"

section \<open>No target is lost\<close>

definition saturatedPred :: "string \<Rightarrow> millis \<Rightarrow> buckets \<Rightarrow> qtarget \<Rightarrow> bool" where
  "saturatedPred model now b t \<longleftrightarrow> connOf t \<noteq> ''''
     \<and> (saturatedAt (connOf t) ''5h'' now b \<or> saturatedAt (connOf t) ''7d'' now b
        \<or> (model \<noteq> '''' \<and> saturatedAt (connOf t) (''7d:'' @ model) now b))"

lemma targetSaturated_pred:
  "fst (targetSaturated model now t b) = saturatedPred model now b t"
  "saturatedAt c w now (snd (targetSaturated model now t b)) = saturatedAt c w now b"
proof -
  have p: "saturatedAt c' w' now b2 = saturatedAt c' w' now b1" "r = saturatedAt c w now b1"
    if "isBucketSaturated c w now b1 = (r, b2)" for c w c' w' b1 b2 r
    using isBucketSaturated_pure [of c' w' now c w b1] that by (simp_all add: saturatedAt_def)
  obtain r1 b1 where i1: "isBucketSaturated (connOf t) ''5h'' now b = (r1, b1)" by (rule prod.exhaust)
  obtain r2 b2 where i2: "isBucketSaturated (connOf t) ''7d'' now b1 = (r2, b2)" by (rule prod.exhaust)
  obtain r3 b3 where i3: "isBucketSaturated (connOf t) (''7d:'' @ model) now b2 = (r3, b3)" by (rule prod.exhaust)
  show "fst (targetSaturated model now t b) = saturatedPred model now b t"
    "saturatedAt c w now (snd (targetSaturated model now t b)) = saturatedAt c w now b"
    using p [OF i1] p [OF i2] p [OF i3]
    by (auto simp: targetSaturated_def saturatedPred_def Let_def i1 i2 i3 [simplified])
qed

lemma eligibleLoop_filter: "fst (eligibleLoop model now ts b) = filter (\<lambda>t. \<not> saturatedPred model now b t) ts"
proof (induction ts arbitrary: b)
  case (Cons t ts)
  obtain s b1 where s: "targetSaturated model now t b = (s, b1)" by (rule prod.exhaust)
  have "saturatedPred model now b1 = saturatedPred model now b"
    using targetSaturated_pred(2) [of _ _ now model t b] s by (auto simp: saturatedPred_def)
  with Cons.IH [of b1] targetSaturated_pred(1) [of model now t b] s show ?case
    by (simp add: case_prod_unfold Let_def)
qed simp

lemma mset_filter_split: "mset (filter P xs) + mset (filter (\<lambda>x. \<not> P x) xs) = mset xs"
  by (induction xs) auto

lemma eligible_mset:
  assumes "filterEligibleBySaturation ts modelStr now b = (es, b')"
  shows "mset es + mset (filter (\<lambda>t. t \<notin> set es) ts) = mset ts" and "ts \<noteq> [] \<Longrightarrow> es \<noteq> []" and "set es \<subseteq> set ts"
    and "distinct (map f ts) \<Longrightarrow> distinct (map f es)"
proof -
  let ?P = "\<lambda>t. \<not> saturatedPred (bareModelName modelStr) now b t"
  have "fst (eligibleLoop (bareModelName modelStr) now ts b) = filter ?P ts" by (rule eligibleLoop_filter)
  with assms have es: "es = (if filter ?P ts \<noteq> [] then filter ?P ts else ts)"
    by (simp add: filterEligibleBySaturation_def case_prod_unfold Let_def split: if_splits)
  then show "ts \<noteq> [] \<Longrightarrow> es \<noteq> []" "set es \<subseteq> set ts" "distinct (map f ts) \<Longrightarrow> distinct (map f es)"
    by (auto simp: distinct_map_filter)
  show "mset es + mset (filter (\<lambda>t. t \<notin> set es) ts) = mset ts"
  proof (cases "filter ?P ts = []")
    case True
    then have "filter (\<lambda>t. t \<notin> set ts) ts = []" by simp
    with True es show ?thesis by simp
  next
    case False
    then have "es = filter ?P ts" using es by simp
    moreover have "filter (\<lambda>t. t \<notin> set (filter ?P ts)) ts = filter (\<lambda>t. \<not> ?P t) ts" by (rule filter_cong) auto
    ultimately show ?thesis using mset_filter_split [of ?P ts] by simp
  qed
qed

lemma partition_mset:
  assumes "partitionByConcurrencyCap ts cs now m = (withRoom, atCap)"
  shows "mset withRoom + mset atCap = mset ts" and "ts \<noteq> [] \<Longrightarrow> withRoom \<noteq> []"
    and "distinct (map f ts) \<Longrightarrow> distinct (map f withRoom)"
  using assms mset_filter_split [of "\<lambda>t. \<not> atCapNow cs now m t" ts]
  by (auto simp: partitionByConcurrencyCap_def Let_def distinct_map_filter split: if_splits)

lemma pickWinner_in: "ts \<noteq> [] \<Longrightarrow> pickWinner d ts \<in> set ts"
proof -
  have "foldl (\<lambda>w t. if deficitOf d w < deficitOf d t then t else w) w us \<in> set (w # us)" for w us
    by (induction us arbitrary: w) auto
  then show "ts \<noteq> [] \<Longrightarrow> pickWinner d ts \<in> set ts" by (cases ts) (simp_all add: pickWinner_def)
qed

lemma pickWinner_max: "t \<in> set ts \<Longrightarrow> deficitOf d t \<le> deficitOf d (pickWinner d ts)"
proof -
  let ?f = "\<lambda>w t. if deficitOf d w < deficitOf d t then t else w"
  have acc: "deficitOf d w \<le> deficitOf d (foldl ?f w us)" for w us
  proof (induction us arbitrary: w)
    case (Cons u us)
    have "deficitOf d w \<le> deficitOf d (?f w u)" by simp
    with Cons.IH [of "?f w u"] show ?case by simp
  qed simp
  have "\<forall>t \<in> set us. deficitOf d t \<le> deficitOf d (foldl ?f w us)" for w us
  proof (induction us arbitrary: w)
    case (Cons u us)
    have "deficitOf d u \<le> deficitOf d (?f w u)" by simp
    with acc [of "?f w u" us] Cons.IH [of "?f w u"] show ?case by simp
  qed simp
  with acc [of "hd ts" "tl ts"] show "t \<in> set ts \<Longrightarrow> deficitOf d t \<le> deficitOf d (pickWinner d ts)"
    by (cases ts) (auto simp: pickWinner_def)
qed

lemma applyDrr_mset:
  assumes "applyDrr ts combo m = (ordered, m')" and "distinct (map tg_executionKey ts)"
  shows "mset ordered = mset ts"
proof (cases "length ts \<le> 1")
  case True
  with assms show ?thesis by (simp add: applyDrr_def)
next
  case False
  then have ne: "ts \<noteq> []" by auto
  obtain d where "ordered = pickWinner d ts # filter (\<lambda>t. tg_executionKey t \<noteq> tg_executionKey (pickWinner d ts)) ts"
    using assms(1) False by (auto simp: applyDrr_def drrRound_def Let_def case_prod_unfold)
  moreover have "filter (\<lambda>t. tg_executionKey t \<noteq> tg_executionKey w) ts = remove1 w ts" if "w \<in> set ts" for w
  proof -
    have "distinct ts" using assms(2) by (simp add: distinct_map)
    moreover have "filter (\<lambda>t. w \<noteq> t) ts = filter (\<lambda>t. t \<noteq> w) ts" by (rule filter_cong) auto
    ultimately have "remove1 w ts = filter (\<lambda>t. t \<noteq> w) ts" by (simp add: distinct_remove1_removeAll removeAll_filter_not_eq)
    moreover have "filter (\<lambda>t. tg_executionKey t \<noteq> tg_executionKey w) ts = filter (\<lambda>t. t \<noteq> w) ts"
      using assms(2) that by (intro filter_cong) (auto simp: distinct_map inj_on_def)
    ultimately show ?thesis by simp
  qed
  ultimately show ?thesis using pickWinner_in [OF ne] by simp
qed

lemma orderByLoad_mset: "mset (orderByLoad now m ts) = mset ts"
  by (auto simp: orderByLoad_def split: list.split)

end
