(* ===== verification/QuotaShareLaws.thy ===== *)
theory QuotaShareLaws
  imports QuotaShare
begin

text \<open>
  Laws of the quota-share strategy: the dispatch list is a permutation of the targets; deficit
  round robin serves every target in proportion to its weight with a bounded error; and two
  places where the in-flight counters and the deficits part from what they should count.
\<close>

section \<open>Deficits\<close>

definition quantum :: "qtarget list \<Rightarrow> qtarget \<Rightarrow> rat" where
  "quantum ts t = normalizeWeight (tg_weight t) / totalWeight ts"

lemma normalizeWeight_pos: "0 < normalizeWeight w"
  by (simp add: normalizeWeight_def split: option.split)

lemma totalWeight_sum: "totalWeight ts = sum_list (map (\<lambda>t. normalizeWeight (tg_weight t)) ts)"
proof -
  have "foldl (\<lambda>s t. s + normalizeWeight (tg_weight t)) a ts = a + sum_list (map (\<lambda>t. normalizeWeight (tg_weight t)) ts)" for a
    by (induction ts arbitrary: a) simp_all
  then show ?thesis by (simp add: totalWeight_def)
qed

lemma totalWeight_pos: "ts \<noteq> [] \<Longrightarrow> 0 < totalWeight ts"
proof -
  have "0 \<le> sum_list (map (\<lambda>t. normalizeWeight (tg_weight t)) us)" for us
    using normalizeWeight_pos by (intro sum_list_nonneg) (auto intro: less_imp_le)
  then show "ts \<noteq> [] \<Longrightarrow> 0 < totalWeight ts"
    by (cases ts) (auto simp: totalWeight_sum intro: add_pos_nonneg normalizeWeight_pos)
qed

lemma quantum_pos: "ts \<noteq> [] \<Longrightarrow> 0 < quantum ts t"
  by (simp add: quantum_def normalizeWeight_pos totalWeight_pos)

lemma quantum_sum: "ts \<noteq> [] \<Longrightarrow> sum_list (map (quantum ts) ts) = 1"
proof -
  assume "ts \<noteq> []"
  have "sum_list (map (\<lambda>t. normalizeWeight (tg_weight t) / W) us) = sum_list (map (\<lambda>t. normalizeWeight (tg_weight t)) us) / W" for W us
    by (induction us) (simp_all add: add_divide_distrib)
  from this [of "totalWeight ts" ts] have "sum_list (map (quantum ts) ts) = totalWeight ts / totalWeight ts"
    unfolding quantum_def [abs_def] totalWeight_sum [symmetric] .
  with totalWeight_pos [OF \<open>ts \<noteq> []\<close>] show ?thesis by simp
qed

lemma addQuantum_get:
  "deficitOf (addQuantum W u d) t =
     (if tg_executionKey t = tg_executionKey u then deficitOf d u + normalizeWeight (tg_weight u) / W else deficitOf d t)"
  by (simp add: deficitOf_def addQuantum_def)

lemma addAll_other: "tg_executionKey t \<notin> tg_executionKey ` set us \<Longrightarrow> deficitOf (fold (addQuantum W) us d) t = deficitOf d t"
  by (induction us arbitrary: d) (auto simp: addQuantum_get)

lemma addAll_get:
  "distinct (map tg_executionKey us) \<Longrightarrow> t \<in> set us \<Longrightarrow>
   deficitOf (fold (addQuantum W) us d) t = deficitOf d t + normalizeWeight (tg_weight t) / W"
proof (induction us arbitrary: d)
  case (Cons u us)
  show ?case
  proof (cases "t = u")
    case True
    with Cons.prems have "tg_executionKey t \<notin> tg_executionKey ` set us" by simp
    with True show ?thesis by (simp add: addAll_other addQuantum_get)
  next
    case False
    with Cons.prems(2) have t: "t \<in> set us" by simp
    moreover have "tg_executionKey u \<notin> tg_executionKey ` set us" using Cons.prems(1) by simp
    ultimately have "tg_executionKey t \<noteq> tg_executionKey u" by (metis imageI)
    with Cons t show ?thesis by (simp add: addQuantum_get)
  qed
qed simp

text \<open>One round, seen from a target.\<close>

lemma drrRound_get:
  assumes "distinct (map tg_executionKey ts)" and "ts \<noteq> []" and "drrRound ts d = (w, d')" and "t \<in> set ts"
  shows "deficitOf d' t = deficitOf d t + quantum ts t - (if t = w then 1 else 0)"
    and "w \<in> set ts" and "deficitOf d t + quantum ts t \<le> deficitOf d w + quantum ts w"
proof -
  let ?d = "fold (addQuantum (totalWeight ts)) ts d"
  have w: "w = pickWinner ?d ts" and d': "d' = jset (tg_executionKey w) (deficitOf ?d w - 1) ?d"
    using assms(3) by (auto simp: drrRound_def Let_def)
  show wi: "w \<in> set ts" unfolding w by (rule pickWinner_in [OF assms(2)])
  have g: "deficitOf ?d u = deficitOf d u + quantum ts u" if "u \<in> set ts" for u
    using addAll_get [OF assms(1) that] by (simp add: quantum_def)
  have "tg_executionKey t = tg_executionKey w \<longleftrightarrow> t = w"
    using assms(1,4) wi by (auto simp: distinct_map inj_on_def)
  then show "deficitOf d' t = deficitOf d t + quantum ts t - (if t = w then 1 else 0)"
    using g [OF assms(4)] g [OF wi] by (simp add: d' deficitOf_def)
  show "deficitOf d t + quantum ts t \<le> deficitOf d w + quantum ts w"
    using pickWinner_max [OF assms(4), of ?d] g [OF assms(4)] g [OF wi] w by simp
qed

definition balanced :: "qtarget list \<Rightarrow> deficits \<Rightarrow> bool" where
  "balanced ts d \<longleftrightarrow> (\<forall>t \<in> set ts. -1 < deficitOf d t) \<and> sum_list (map (deficitOf d) ts) = 0"

lemma sum_list_sub_one:
  "distinct ts \<Longrightarrow> w \<in> set ts \<Longrightarrow> sum_list (map (\<lambda>t. f t - (if t = w then 1 else 0)) ts) = sum_list (map f ts) - (1 :: rat)"
proof (induction ts)
  case (Cons t ts)
  show ?case
  proof (cases "t = w")
    case True
    with Cons.prems have "\<forall>x \<in> set ts. x \<noteq> w" by auto
    then have "map (\<lambda>t. f t - (if t = w then 1 else 0)) ts = map f ts" by (intro map_cong) auto
    then have "sum_list (map (\<lambda>t. f t - (if t = w then 1 else 0)) ts) = sum_list (map f ts)" by (rule arg_cong)
    with True show ?thesis by simp
  next
    case False
    with Cons show ?thesis by simp
  qed
qed simp

lemma drrRound_balanced:
  assumes d: "distinct (map tg_executionKey ts)" and ne: "ts \<noteq> []" and b: "balanced ts d" and r: "drrRound ts d = (w, d')"
  shows "balanced ts d'"
proof -
  note get = drrRound_get [OF d ne r]
  have w: "w \<in> set ts" using get(2) ne by (cases ts) auto
  have dt: "distinct ts" using d by (simp add: distinct_map)
  let ?a = "\<lambda>t. deficitOf d t + quantum ts t"
  have s: "sum_list (map ?a ts) = 1"
    using b quantum_sum [OF ne] by (simp add: balanced_def sum_list_addf)
  have "map (deficitOf d') ts = map (\<lambda>t. ?a t - (if t = w then 1 else 0)) ts"
    using get(1) by (intro map_cong) auto
  then have "sum_list (map (deficitOf d') ts) = sum_list (map (\<lambda>t. ?a t - (if t = w then 1 else 0)) ts)"
    by (rule arg_cong)
  also have "\<dots> = 0" unfolding sum_list_sub_one [OF dt w] s by simp
  finally have "sum_list (map (deficitOf d') ts) = 0" .
  moreover have "0 < ?a w"
  proof (rule ccontr)
    assume "\<not> 0 < ?a w"
    then have "?a t \<le> 0" if "t \<in> set ts" for t using get(3) [OF that] by simp
    then have "sum_list (map ?a ts) \<le> 0" by (intro sum_list_nonpos) auto
    with s show False by simp
  qed
  then have "-1 < deficitOf d' t" if "t \<in> set ts" for t
  proof (cases "t = w")
    case True
    with get(1) [OF that] \<open>0 < ?a w\<close> show ?thesis by simp
  next
    case False
    have "-1 < deficitOf d t" using b that by (simp add: balanced_def)
    with False get(1) [OF that] quantum_pos [OF ne, of t] show ?thesis by simp
  qed
  ultimately show ?thesis by (simp add: balanced_def)
qed

lemma balanced_upper:
  assumes "balanced ts d" and "distinct ts" and "t \<in> set ts" and "2 \<le> length ts"
  shows "deficitOf d t < of_nat (length ts) - 1"
proof -
  obtain us vs where ts: "ts = us @ t # vs" using assms(3) by (auto simp: in_set_conv_decomp)
  have lower: "sum_list (map (deficitOf d) xs) > - of_nat (length xs)" if "xs \<noteq> []" "set xs \<subseteq> set ts" for xs
    using that
  proof (induction xs rule: list_nonempty_induct)
    case (single x)
    with assms(1) show ?case by (simp add: balanced_def)
  next
    case (cons x xs)
    then have "-1 < deficitOf d x" "- of_nat (length xs) < sum_list (map (deficitOf d) xs)"
      using assms(1) by (auto simp: balanced_def)
    then show ?case by simp
  qed
  have "us @ vs \<noteq> []" using assms(4) ts by auto
  moreover have "set (us @ vs) \<subseteq> set ts" using ts by auto
  ultimately have "- of_nat (length (us @ vs)) < sum_list (map (deficitOf d) (us @ vs))" by (rule lower)
  moreover have "deficitOf d t + sum_list (map (deficitOf d) (us @ vs)) = 0"
    using assms(1) by (simp add: balanced_def ts)
  ultimately show ?thesis by (simp add: ts)
qed

section \<open>Runs of rounds\<close>

fun drrRun :: "nat \<Rightarrow> qtarget list \<Rightarrow> deficits \<Rightarrow> qtarget list \<times> deficits" where
  "drrRun 0 ts d = ([], d)"
| "drrRun (Suc n) ts d =
     (let (w, d1) = drrRound ts d; (ws, d2) = drrRun n ts d1 in (w # ws, d2))"

text \<open>The targets that \<open>applyDrr\<close> puts first in \<open>n\<close> calls for one combo.\<close>

fun applyRun :: "nat \<Rightarrow> qtarget list \<Rightarrow> string \<Rightarrow> (string, deficits) jmap \<Rightarrow> qtarget list" where
  "applyRun 0 ts combo m = []"
| "applyRun (Suc n) ts combo m = (let (ordered, m') = applyDrr ts combo m in hd ordered # applyRun n ts combo m')"

lemma applyRun_drrRun:
  assumes "2 \<le> length ts"
  shows "applyRun n ts combo m = fst (drrRun n ts (fst (getDrrDeficits combo m)))"
proof (induction n arbitrary: m)
  case (Suc n)
  obtain d m1 where g: "getDrrDeficits combo m = (d, m1)" by (rule prod.exhaust)
  obtain w d' where r: "drrRound ts d = (w, d')" by (rule prod.exhaust)
  have "fst (getDrrDeficits combo (jset combo d' m1)) = d'" by (simp add: getDrrDeficits_def)
  with Suc.IH [of "jset combo d' m1"] g r assms show ?case
    by (simp add: applyDrr_def case_prod_unfold Let_def)
qed simp

lemma drrRun_account:
  assumes "distinct (map tg_executionKey ts)" and "ts \<noteq> []" and "t \<in> set ts" and "balanced ts d"
  shows "balanced ts (snd (drrRun n ts d))
    \<and> deficitOf (snd (drrRun n ts d)) t = deficitOf d t + of_nat n * quantum ts t
        - of_nat (length (filter ((=) t) (fst (drrRun n ts d))))"
  using assms(4)
proof (induction n arbitrary: d)
  case (Suc n)
  obtain w d1 where r: "drrRound ts d = (w, d1)" by (rule prod.exhaust)
  have b: "balanced ts d1" by (rule drrRound_balanced [OF assms(1,2) Suc.prems r])
  from Suc.IH [OF b] drrRound_get(1) [OF assms(1,2) r assms(3)] r show ?case
    by (auto simp: case_prod_unfold Let_def algebra_simps)
qed simp

lemma balanced_Nil: "balanced ts []"
proof -
  have "sum_list (map (deficitOf []) ts) = 0" by (induction ts) (simp_all add: deficitOf_def)
  then show ?thesis by (simp add: balanced_def deficitOf_def)
qed

section \<open>Properties\<close>

text \<open>
  Quota-share routing fails open: whatever is saturated or at its cap, the dispatch list
  is a permutation of the given targets, and the selected target is its first element.
\<close>

theorem quota_share_permutation:
  assumes "ts \<noteq> []" and "distinct (map tg_executionKey ts)"
    and "selectQuotaShareTarget ts combo model now cs s = (r, s')"
  shows "mset (qr_orderedTargets r) = mset ts \<and> qr_target r = Some (hd (qr_orderedTargets r))"
proof -
  obtain es b where e: "filterEligibleBySaturation ts model now (qsBuckets s) = (es, b)" by (rule prod.exhaust)
  obtain wr ac where p: "partitionByConcurrencyCap es cs now (qsInflight s) = (wr, ac)" by (rule prod.exhaust)
  obtain od m where a: "applyDrr wr combo (drrState s) = (od, m)" by (rule prod.exhaust)
  let ?l = "orderByLoad now (qsInflight s) od"
  have r: "qr_target r = Some (hd ?l)" "qr_orderedTargets r = ?l @ ac @ filter (\<lambda>t. t \<notin> set es) ts"
    using assms(1,3) e p a by (auto simp: selectQuotaShareTarget_def Let_def)
  have de: "distinct (map tg_executionKey wr)"
    by (rule partition_mset(3) [OF p eligible_mset(4) [OF e assms(2)]])
  have ml: "mset ?l = mset wr" using applyDrr_mset [OF a de] by (simp add: orderByLoad_mset)
  have "wr \<noteq> []" by (rule partition_mset(2) [OF p eligible_mset(2) [OF e assms(1)]])
  then have "?l \<noteq> []" using ml by (metis mset_zero_iff)
  moreover have "mset (qr_orderedTargets r) = mset ts"
    using ml partition_mset(1) [OF p] eligible_mset(1) [OF e] by (simp add: r(2) add.assoc [symmetric])
  ultimately show ?thesis by (simp add: r)
qed

definition tgt :: "string \<Rightarrow> rat \<Rightarrow> qtarget" where
  "tgt k w = \<lparr>tg_connectionId = Some k, tg_executionKey = k, tg_weight = Some w\<rparr>"

definition emptyQs :: qs_state where
  "emptyQs = \<lparr>drrState = [], qsBuckets = [], qsInflight = []\<rparr>"

theorem quota_share_permutation_witness:
  "mset (qr_orderedTargets (fst (selectQuotaShareTarget [tgt ''a'' 1, tgt ''b'' 3] ''qtSd/x'' ''claude/opus'' 0 None emptyQs)))
    = {#tgt ''a'' 1, tgt ''b'' 3#}"
proof -
  have "distinct (map tg_executionKey [tgt ''a'' 1, tgt ''b'' 3])" by (simp add: tgt_def)
  from quota_share_permutation [OF _ this surjective_pairing, of "''qtSd/x''" "''claude/opus''" 0 None emptyQs]
  show ?thesis by simp
qed

text \<open>
  C19. Deficit round robin is proportional with bounded error: in the first \<open>n\<close> calls for a combo
  with a fixed list of \<open>k\<close> targets, a target of weight share \<open>q\<close> is put first fewer than
  \<open>n * q + 1\<close> and more than \<open>n * q - (k - 1)\<close> times, for every \<open>n\<close>.
\<close>

theorem drr_proportional:
  assumes "distinct (map tg_executionKey ts)" and "2 \<le> length ts" and "t \<in> set ts" and "jget combo m = None"
  shows "let served = of_nat (length (filter ((=) t) (applyRun n ts combo m))) in
    served < of_nat n * quantum ts t + 1 \<and> of_nat n * quantum ts t - (of_nat (length ts) - 1) < served"
proof -
  have ne: "ts \<noteq> []" using assms(2) by auto
  have run: "applyRun n ts combo m = fst (drrRun n ts [])"
    using applyRun_drrRun [OF assms(2)] assms(4) by (simp add: getDrrDeficits_def)
  let ?d = "snd (drrRun n ts [])"
  have b: "balanced ts ?d"
    and acc: "deficitOf ?d t = of_nat n * quantum ts t - of_nat (length (filter ((=) t) (applyRun n ts combo m)))"
    using drrRun_account [OF assms(1) ne assms(3) balanced_Nil, of n] by (simp_all add: run deficitOf_def)
  have "-1 < deficitOf ?d t" using b assms(3) by (simp add: balanced_def)
  moreover have "deficitOf ?d t < of_nat (length ts) - 1"
    using balanced_upper [OF b _ assms(3,2)] assms(1) by (simp add: distinct_map)
  ultimately show ?thesis using acc by (simp add: Let_def)
qed

theorem drr_proportional_witness:
  "of_nat (length (filter ((=) (tgt ''b'' 3)) (applyRun 1000 [tgt ''a'' 1, tgt ''b'' 3] ''qtSd/x'' []))) < (751 :: rat)
   \<and> (749 :: rat) < of_nat (length (filter ((=) (tgt ''b'' 3)) (applyRun 1000 [tgt ''a'' 1, tgt ''b'' 3] ''qtSd/x'' [])))"
proof -
  have d: "distinct (map tg_executionKey [tgt ''a'' 1, tgt ''b'' 3])" by (simp add: tgt_def)
  have q: "quantum [tgt ''a'' 1, tgt ''b'' 3] (tgt ''b'' 3) = 3 / 4"
    by (simp add: quantum_def totalWeight_def normalizeWeight_def tgt_def)
  from drr_proportional [OF d, of "tgt ''b'' 3" "''qtSd/x''" "[]" 1000] show ?thesis
    by (simp add: q)
qed

text \<open>A request that releases its slot at once, at each of the given times.\<close>

fun serveAll :: "string \<Rightarrow> millis list \<Rightarrow> inflight \<Rightarrow> inflight" where
  "serveAll c [] m = m"
| "serveAll c (t # ts) m = serveAll c ts (decrementInflight c t (snd (incrementInflight c DEFAULT_LEASE_MS t m)))"

fun steady :: "millis \<Rightarrow> millis list \<Rightarrow> bool" where
  "steady t0 [] \<longleftrightarrow> True"
| "steady t0 (t # ts) \<longleftrightarrow> t < t0 + DEFAULT_LEASE_MS \<and> steady t ts"

lemma serveAll_keeps:
  "jinv m \<Longrightarrow> c \<noteq> '''' \<Longrightarrow> jget c m = Some \<lparr>is_count = 1, is_expiresAtMs = t0 + DEFAULT_LEASE_MS\<rparr> \<Longrightarrow> steady t0 ts \<Longrightarrow>
   jget c (serveAll c ts m) = Some \<lparr>is_count = 1, is_expiresAtMs = last (t0 # ts) + DEFAULT_LEASE_MS\<rparr>"
proof (induction ts arbitrary: t0 m)
  case (Cons t ts)
  let ?m = "decrementInflight c t (snd (incrementInflight c DEFAULT_LEASE_MS t m))"
  have "jget c ?m = Some \<lparr>is_count = 1, is_expiresAtMs = t + DEFAULT_LEASE_MS\<rparr>"
    using Cons.prems by (simp add: incrementInflight_def decrementInflight_def Let_def jget_prune DEFAULT_LEASE_MS_def)
  moreover have "jinv ?m"
    using increment_inv [OF Cons.prems(1), of c DEFAULT_LEASE_MS t]
    by (auto simp: decrementInflight_def Let_def split: option.split)
  ultimately show ?case using Cons by simp
qed simp

text \<open>
  A leaked slot outlives its lease under traffic: the lease belongs to the connection, not to
  the request, and every increment renews it. After one request that never releases its slot,
  requests at gaps shorter than the lease, each releasing its own, keep the count at one for as
  long as they go on.
\<close>

theorem inflight_leak_never_expires:
  assumes "c \<noteq> ''''" and "steady t0 (ts @ [now])"
  shows "getInflight c now (serveAll c ts (snd (incrementInflight c DEFAULT_LEASE_MS t0 []))) = 1"
proof -
  let ?m = "snd (incrementInflight c DEFAULT_LEASE_MS t0 [])"
  have s: "steady t0 ts" "now < last (t0 # ts) + DEFAULT_LEASE_MS"
    using assms(2) by (induction ts arbitrary: t0) auto
  have "jget c ?m = Some \<lparr>is_count = 1, is_expiresAtMs = t0 + DEFAULT_LEASE_MS\<rparr>" "jinv ?m"
    using assms(1) by (simp_all add: incrementInflight_def Let_def pruneExpired_def jget_Cons jinv_def jkeys_def)
  from serveAll_keeps [OF this(2) assms(1) this(1) s(1)] s(2) assms(1) show ?thesis
    by (simp add: getInflight_def)
qed

theorem inflight_leak_never_expires_witness:
  "getInflight ''a'' 500000 (serveAll ''a'' [100000, 200000, 300000, 400000] (snd (incrementInflight ''a'' DEFAULT_LEASE_MS 0 []))) = 1"
  by (rule inflight_leak_never_expires) (simp_all add: DEFAULT_LEASE_MS_def)

text \<open>Selections with equal weights, each settled at once, at the given times.\<close>

fun selectRun :: "qtarget list \<Rightarrow> millis list \<Rightarrow> qs_state \<Rightarrow> string list" where
  "selectRun ts [] s = []"
| "selectRun ts (t # tms) s =
     (let (r, s1) = selectQuotaShareTarget ts ''qtSd/x'' ''claude/opus'' t None s; w = the (qr_target r)
      in tg_executionKey w # selectRun ts tms (snd (decrementOnce w t (False, s1))))"

text \<open>
  DRR charges the wrong target when load decides: with two targets of equal weight and one
  long request on the first, every one of the next six requests goes to the second, while the
  deficits pay for three each, as if the load had been shared.
\<close>

theorem drr_charges_the_unserved:
  "(let s = emptyQs\<lparr>qsInflight := snd (incrementInflight ''a'' DEFAULT_LEASE_MS 0 [])\<rparr>
    in selectRun [tgt ''a'' 1, tgt ''b'' 1] [1, 2, 3, 4, 5, 6] s = [''b'', ''b'', ''b'', ''b'', ''b'', ''b''])
   \<and> map tg_executionKey (applyRun 6 [tgt ''a'' 1, tgt ''b'' 1] ''qtSd/x'' []) = [''a'', ''b'', ''a'', ''b'', ''a'', ''b'']"
  by code_simp

end
