(* ===== verification/ShuffleDeck.thy ===== *)
theory ShuffleDeck
  imports Prelude Complex_Main "HOL-Library.List_Lexorder" "HOL-Library.Char_ord"
begin

text \<open>
  The shuffle decks of \<open>src/shared/utils/shuffleDeck.ts\<close> and the random integers of
  \<open>src/shared/utils/secureRandom.ts\<close> they draw. \<open>getNextFromDeck\<close> and
  \<open>getNextFromDeckSync\<close> have the same body; the first waits for the promise of the previous
  caller of its namespace, and nothing is awaited after that, so both are the one atomic
  step \<open>getNextFromDeck\<close> here. The chain of promises itself has no other effect.

  A draw is either the test-only float source or the external \<open>crypto.randomInt\<close>, a
  function of its bound. The draw of the loop index \<open>i\<close> is \<open>ds i\<close>; the anti-repeat draw
  is \<open>ds 0\<close>, since the loop stops at index 1.
\<close>

section \<open>Model\<close>

datatype rand_draw = TestFloat rat | CryptoInt "nat \<Rightarrow> nat"

definition secureRandomInt :: "rand_draw \<Rightarrow> nat \<Rightarrow> nat" where
  "secureRandomInt d m =
     (if m \<le> 1 then 0
      else case d of
        TestFloat u \<Rightarrow> nat (min (int m - 1) \<lfloor>u * of_nat m\<rfloor>)
      | CryptoInt r \<Rightarrow> r m)"

text \<open>What the sources promise: a float is not negative, \<open>randomInt max\<close> is below \<open>max\<close>.\<close>

definition draw_ok :: "rand_draw \<Rightarrow> bool" where
  "draw_ok d = (case d of TestFloat u \<Rightarrow> 0 \<le> u | CryptoInt r \<Rightarrow> \<forall>m > 0. r m < m)"

definition swapAt :: "nat \<Rightarrow> nat \<Rightarrow> 'a list \<Rightarrow> 'a list" where
  "swapAt i j xs = (let tmp = xs ! i in xs[i := xs ! j, j := tmp])"

fun shuffleLoop :: "(nat \<Rightarrow> rand_draw) \<Rightarrow> nat \<Rightarrow> 'a list \<Rightarrow> 'a list" where
  "shuffleLoop ds 0 result = result"
| "shuffleLoop ds (Suc i) result =
     shuffleLoop ds i (swapAt (Suc i) (secureRandomInt (ds (Suc i)) (Suc i + 1)) result)"

definition fisherYatesShuffle :: "(nat \<Rightarrow> rand_draw) \<Rightarrow> 'a list \<Rightarrow> 'a list" where
  "fisherYatesShuffle ds arr = shuffleLoop ds (length arr - 1) arr"

record shuffle_deck =
  sd_order :: "string list"
  sd_index :: nat
  sd_idsKey :: string

type_synonym decks = "(string, shuffle_deck) jmap"

fun joinComma :: "string list \<Rightarrow> string" where
  "joinComma [] = []"
| "joinComma [s] = s"
| "joinComma (s # t # ss) = s @ '','' @ joinComma (t # ss)"

definition idsKeyOf :: "string list \<Rightarrow> string" where
  "idsKeyOf itemIds = joinComma (sort itemIds)"

definition lastUsedId :: "string \<Rightarrow> shuffle_deck option \<Rightarrow> string option" where
  "lastUsedId idsKey existing =
     (case existing of
        Some d \<Rightarrow> if sd_idsKey d = idsKey \<and> 0 < length (sd_order d)
                  then Some (sd_order d ! (length (sd_order d) - 1)) else None
      | None \<Rightarrow> None)"

definition antiRepeat :: "(nat \<Rightarrow> rand_draw) \<Rightarrow> string option \<Rightarrow> string list \<Rightarrow> string list" where
  "antiRepeat ds lastUsed newOrder =
     (if lastUsed \<noteq> None \<and> newOrder ! 0 = the lastUsed \<and> 1 < length newOrder
      then swapAt 0 (1 + secureRandomInt (ds 0) (length newOrder - 1)) newOrder
      else newOrder)"

definition getNextFromDeck ::
  "(nat \<Rightarrow> rand_draw) \<Rightarrow> string \<Rightarrow> string list \<Rightarrow> decks \<Rightarrow> string \<times> decks" where
  "getNextFromDeck ds namespace itemIds decks =
     (if length itemIds = 0 then ([], decks)
      else if length itemIds = 1 then (itemIds ! 0, decks)
      else
        (let idsKey = idsKeyOf itemIds;
             existing = jget namespace decks;
             current = (case existing of
                          Some d \<Rightarrow> sd_idsKey d = idsKey \<and> sd_index d < length (sd_order d)
                        | None \<Rightarrow> False)
         in if current
            then (let d = the existing
                  in (sd_order d ! sd_index d, jset namespace (d\<lparr>sd_index := sd_index d + 1\<rparr>) decks))
            else
              (let newOrder = antiRepeat ds (lastUsedId idsKey existing) (fisherYatesShuffle ds itemIds)
               in (newOrder ! 0,
                   jset namespace \<lparr>sd_order = newOrder, sd_index = 1, sd_idsKey = idsKey\<rparr> decks))))"

definition getNextFromDeckSync ::
  "(nat \<Rightarrow> rand_draw) \<Rightarrow> string \<Rightarrow> string list \<Rightarrow> decks \<Rightarrow> string \<times> decks" where
  "getNextFromDeckSync ds namespace itemIds decks = getNextFromDeck ds namespace itemIds decks"

definition resetAllDecks :: "decks \<Rightarrow> decks" where
  "resetAllDecks decks = []"

text \<open>A run of calls, each with its namespace, its ids and its draws; the answers in order.\<close>

type_synonym deck_call = "string \<times> string list \<times> (nat \<Rightarrow> rand_draw)"

fun runDeck :: "deck_call list \<Rightarrow> decks \<Rightarrow> (string \<times> string) list \<times> decks" where
  "runDeck [] s = ([], s)"
| "runDeck ((ns, ids, ds) # cs) s =
     (let (x, s1) = getNextFromDeck ds ns ids s;
          (xs, s2) = runDeck cs s1
      in ((ns, x) # xs, s2))"

definition answersOf :: "string \<Rightarrow> (string \<times> string) list \<Rightarrow> string list" where
  "answersOf ns xs = map snd (filter (\<lambda>p. fst p = ns) xs)"

section \<open>Shuffling permutes\<close>

lemma secureRandomInt_less: "draw_ok d \<Longrightarrow> 0 < m \<Longrightarrow> secureRandomInt d m < m"
  by (auto simp: secureRandomInt_def draw_ok_def split: rand_draw.splits)

lemma length_swapAt [simp]: "length (swapAt i j xs) = length xs"
  by (simp add: swapAt_def Let_def)

lemma mset_swapAt: "i < length xs \<Longrightarrow> j < length xs \<Longrightarrow> mset (swapAt i j xs) = mset xs"
  by (simp add: swapAt_def Let_def mset_swap)

lemma mset_shuffleLoop:
  assumes "\<forall>i. draw_ok (ds i)" and "n < length xs \<or> n = 0"
  shows "mset (shuffleLoop ds n xs) = mset xs"
  using assms(2)
proof (induction n arbitrary: xs)
  case (Suc i)
  have "secureRandomInt (ds (Suc i)) (Suc i + 1) < Suc i + 1"
    by (rule secureRandomInt_less) (simp_all add: assms(1))
  with Suc show ?case by (simp add: mset_swapAt)
qed simp

lemma mset_fisherYates: "\<forall>i. draw_ok (ds i) \<Longrightarrow> mset (fisherYatesShuffle ds xs) = mset xs"
  unfolding fisherYatesShuffle_def by (rule mset_shuffleLoop) auto

lemma antiRepeat_mset:
  assumes "\<forall>i. draw_ok (ds i)"
  shows "mset (antiRepeat ds l xs) = mset xs"
proof (cases "1 < length xs")
  case True
  then have "secureRandomInt (ds 0) (length xs - 1) < length xs - 1"
    by (intro secureRandomInt_less) (simp_all add: assms)
  with True show ?thesis by (auto simp: antiRepeat_def intro!: mset_swapAt)
qed (simp add: antiRepeat_def)

lemma antiRepeat_differs:
  assumes "\<forall>i. draw_ok (ds i)" and "distinct xs" and "1 < length xs"
  shows "antiRepeat ds (Some l) xs ! 0 \<noteq> l"
proof (cases "xs ! 0 = l")
  case True
  define j where "j = 1 + secureRandomInt (ds 0) (length xs - 1)"
  have "secureRandomInt (ds 0) (length xs - 1) < length xs - 1"
    using assms(3) by (intro secureRandomInt_less) (simp_all add: assms(1))
  then have j: "j < length xs" "0 < j" by (simp_all add: j_def)
  have "antiRepeat ds (Some l) xs = swapAt 0 j xs"
    using True assms(3) by (simp add: antiRepeat_def j_def)
  moreover have "swapAt 0 j xs ! 0 = xs ! j"
    using j assms(3) by (cases xs) (auto simp: swapAt_def Let_def split: nat.split)
  moreover have "xs ! j \<noteq> xs ! 0"
    using j assms(2,3) nth_eq_iff_index_eq [of xs j 0] by fastforce
  ultimately show ?thesis using True by simp
qed (simp add: antiRepeat_def)

lemma idsKeyOf_perm: "mset xs = mset ys \<Longrightarrow> idsKeyOf xs = idsKeyOf ys"
proof -
  assume "mset xs = mset ys"
  then have "sort xs = sort ys" by (metis properties_for_sort mset_sort sorted_sort)
  then show ?thesis by (simp add: idsKeyOf_def)
qed

section \<open>Cycles\<close>

text \<open>
  The deck of \<open>ns\<close> after the answers \<open>outs\<close>: they are complete cycles followed by the part of
  the current order that has been dealt, and no two neighbours are equal.
\<close>

definition deckInv :: "string \<Rightarrow> string list \<Rightarrow> string list \<Rightarrow> decks \<Rightarrow> bool" where
  "deckInv ns ids outs s \<longleftrightarrow> distinct_adj outs \<and>
     (case jget ns s of
        None \<Rightarrow> outs = []
      | Some d \<Rightarrow> sd_idsKey d = idsKeyOf ids \<and> mset (sd_order d) = mset ids \<and> 1 \<le> sd_index d \<and>
          sd_index d \<le> length ids \<and>
          (\<exists>bs. outs = concat bs @ take (sd_index d) (sd_order d) \<and> (\<forall>b \<in> set bs. mset b = mset ids)))"

lemma deck_advance:
  assumes inv: "deckInv ns ids outs s" and dist: "distinct ids"
    and d: "jget ns s = Some d" and more: "sd_index d < length (sd_order d)"
  shows "deckInv ns ids (outs @ [sd_order d ! sd_index d]) (jset ns (d\<lparr>sd_index := sd_index d + 1\<rparr>) s)"
proof -
  let ?o = "sd_order d" and ?i = "sd_index d"
  have o: "mset ?o = mset ids" "1 \<le> ?i" using inv d by (simp_all add: deckInv_def)
  then have do: "distinct ?o" using dist by (metis mset_eq_imp_distinct_iff)
  have len: "length ?o = length ids" using o(1) by (rule mset_eq_length)
  obtain bs where outs: "outs = concat bs @ take ?i ?o" and bs: "\<forall>b \<in> set bs. mset b = mset ids"
    using inv d by (auto simp: deckInv_def)
  have outs': "outs @ [?o ! ?i] = concat bs @ take (?i + 1) ?o"
    using outs more by (simp add: take_Suc_conv_app_nth)
  have "last outs = ?o ! (?i - 1)"
  proof -
    have t: "take ?i ?o \<noteq> []" using o(2) more by auto
    show ?thesis using o(2) more unfolding outs last_appendR [OF t] last_conv_nth [OF t] by simp
  qed
  moreover have "?o ! (?i - 1) \<noteq> ?o ! ?i"
    using do more o(2) nth_eq_iff_index_eq [of ?o "?i - 1" ?i] by simp
  ultimately have "distinct_adj (outs @ [?o ! ?i])"
    using inv by (simp add: deckInv_def distinct_adj_append_iff)
  moreover have "sd_idsKey d = idsKeyOf ids" using inv d by (simp add: deckInv_def)
  ultimately show ?thesis
    using o more len outs' bs by (auto simp: deckInv_def)
qed

lemma deck_reshuffle:
  assumes inv: "deckInv ns ids outs s" and dist: "distinct ids" and n: "2 \<le> length ids"
    and exhausted: "\<forall>d. jget ns s = Some d \<longrightarrow> length (sd_order d) \<le> sd_index d"
    and ds: "\<forall>i. draw_ok (ds i)" and perm: "mset ids' = mset ids"
    and new: "new = antiRepeat ds (lastUsedId (idsKeyOf ids) (jget ns s)) (fisherYatesShuffle ds ids')"
  shows "deckInv ns ids (outs @ [new ! 0]) (jset ns \<lparr>sd_order = new, sd_index = 1, sd_idsKey = idsKeyOf ids\<rparr> s)"
proof -
  let ?f = "fisherYatesShuffle ds ids'"
  have f: "mset ?f = mset ids" by (simp add: mset_fisherYates ds perm)
  then have df: "distinct ?f" using dist by (metis mset_eq_imp_distinct_iff)
  have lf: "1 < length ?f" using mset_eq_length [OF f] n by simp
  have m: "mset new = mset ids" by (simp add: new antiRepeat_mset ds f)
  have ln: "length new = length ids" using m by (rule mset_eq_length)
  have nonempty: "new \<noteq> []" using ln n by auto
  have t1: "take (Suc 0) new = [new ! 0]" using nonempty by (cases new) auto
  show ?thesis
  proof (cases "jget ns s")
    case None
    then have "outs = []" using inv by (simp add: deckInv_def)
    then show ?thesis using m n t1 by (auto simp: deckInv_def intro!: exI [of _ "[]"])
  next
    case (Some d)
    have d: "sd_idsKey d = idsKeyOf ids" "mset (sd_order d) = mset ids" "sd_index d \<le> length ids"
      using inv Some by (simp_all add: deckInv_def)
    have ld: "length (sd_order d) = length ids" using d(2) by (rule mset_eq_length)
    then have ix: "sd_index d = length (sd_order d)" using exhausted Some d(3) by force
    obtain bs where outs: "outs = concat bs @ sd_order d" and bs: "\<forall>b \<in> set bs. mset b = mset ids"
      using inv Some ix by (auto simp: deckInv_def)
    have last: "last outs = sd_order d ! (length (sd_order d) - 1)"
    proof -
      have "sd_order d \<noteq> []" using ld n by auto
      then show ?thesis unfolding outs by (simp add: last_conv_nth [of "sd_order d"])
    qed
    have "lastUsedId (idsKeyOf ids) (Some d) = Some (last outs)"
      using d(1) ld n last by (auto simp: lastUsedId_def)
    then have "new ! 0 \<noteq> last outs"
      using antiRepeat_differs [OF ds df lf, of "last outs"] by (simp add: new Some)
    then have adj: "distinct_adj (outs @ [new ! 0])"
      using inv by (auto simp: deckInv_def distinct_adj_append_iff)
    have "outs @ [new ! 0] = concat (bs @ [sd_order d]) @ take 1 new"
      using outs t1 by simp
    moreover have "\<forall>b \<in> set (bs @ [sd_order d]). mset b = mset ids" using bs d(2) by simp
    ultimately have "\<exists>cs. outs @ [new ! 0] = concat cs @ take 1 new \<and> (\<forall>b \<in> set cs. mset b = mset ids)"
      by blast
    then show ?thesis using adj m n by (simp add: deckInv_def)
  qed
qed

lemma deck_step:
  assumes inv: "deckInv ns ids outs s" and dist: "distinct ids" and n: "2 \<le> length ids"
    and ds: "\<forall>i. draw_ok (ds i)" and perm: "mset ids' = mset ids"
  shows "deckInv ns ids (outs @ [fst (getNextFromDeck ds ns ids' s)]) (snd (getNextFromDeck ds ns ids' s))"
proof -
  have len: "length ids' = length ids" using perm by (rule mset_eq_length)
  have key: "idsKeyOf ids' = idsKeyOf ids" using perm by (rule idsKeyOf_perm)
  show ?thesis
  proof (cases "\<exists>d. jget ns s = Some d \<and> sd_index d < length (sd_order d)")
    case True
    then obtain d where d: "jget ns s = Some d" "sd_index d < length (sd_order d)" by blast
    then have "sd_idsKey d = idsKeyOf ids" using inv by (simp add: deckInv_def)
    then have "getNextFromDeck ds ns ids' s
        = (sd_order d ! sd_index d, jset ns (d\<lparr>sd_index := sd_index d + 1\<rparr>) s)"
      using d len key n by (auto simp: getNextFromDeck_def)
    then show ?thesis using deck_advance [OF inv dist d] by simp
  next
    case False
    then have ex: "\<forall>d. jget ns s = Some d \<longrightarrow> length (sd_order d) \<le> sd_index d" by force
    let ?new = "antiRepeat ds (lastUsedId (idsKeyOf ids) (jget ns s)) (fisherYatesShuffle ds ids')"
    have "getNextFromDeck ds ns ids' s
        = (?new ! 0, jset ns \<lparr>sd_order = ?new, sd_index = 1, sd_idsKey = idsKeyOf ids\<rparr> s)"
      using ex len key n
      by (auto simp: getNextFromDeck_def Let_def split: option.splits dest: not_le_imp_less)
    then show ?thesis using deck_reshuffle [OF inv dist n ex ds perm refl] by simp
  qed
qed

lemma getNextFromDeck_frame: "ns' \<noteq> ns \<Longrightarrow> jget ns (snd (getNextFromDeck ds ns' ids s)) = jget ns s"
  by (simp add: getNextFromDeck_def Let_def)

lemma deckInv_frame: "ns' \<noteq> ns \<Longrightarrow> deckInv ns ids outs s \<Longrightarrow>
  deckInv ns ids outs (snd (getNextFromDeck ds ns' ids' s))"
  by (simp add: deckInv_def getNextFromDeck_frame)

definition deckCall_ok :: "string \<Rightarrow> string list \<Rightarrow> deck_call \<Rightarrow> bool" where
  "deckCall_ok ns ids c \<longleftrightarrow> (\<forall>i. draw_ok (snd (snd c) i)) \<and> (fst c = ns \<longrightarrow> mset (fst (snd c)) = mset ids)"

lemma deckInv_run:
  assumes "distinct ids" and "2 \<le> length ids"
  shows "\<forall>c \<in> set calls. deckCall_ok ns ids c \<Longrightarrow> deckInv ns ids outs s \<Longrightarrow>
    deckInv ns ids (outs @ answersOf ns (fst (runDeck calls s))) (snd (runDeck calls s))"
proof (induction calls arbitrary: outs s)
  case Nil
  then show ?case by (simp add: answersOf_def)
next
  case (Cons c calls)
  obtain ns' ids' ds where c: "c = (ns', ids', ds)" by (cases c) auto
  obtain x s1 where g: "getNextFromDeck ds ns' ids' s = (x, s1)" by fastforce
  obtain xs s2 where r: "runDeck calls s1 = (xs, s2)" by fastforce
  have ok: "\<forall>i. draw_ok (ds i)" "ns' = ns \<Longrightarrow> mset ids' = mset ids" and rest: "\<forall>c \<in> set calls. deckCall_ok ns ids c"
    using Cons.prems(1) by (auto simp: c deckCall_ok_def)
  show ?case
  proof (cases "ns' = ns")
    case True
    have "deckInv ns ids (outs @ [x]) s1"
      using deck_step [OF Cons.prems(2) assms ok(1) ok(2) [OF True]] g True by simp
    from Cons.IH [OF rest this] show ?thesis using True g r by (simp add: c answersOf_def)
  next
    case False
    have "deckInv ns ids outs s1" using deckInv_frame [OF False Cons.prems(2), of ds ids'] g by simp
    from Cons.IH [OF rest this] show ?thesis using False by (simp add: c g r answersOf_def)
  qed
qed

text \<open>The blocks of a concatenation of equally long lists.\<close>

lemma block_of_concat:
  assumes "\<forall>b \<in> set bs. length b = n" and "k < length bs"
  shows "take n (drop (k * n) (concat bs @ ys)) = bs ! k"
  using assms
proof (induction bs arbitrary: k)
  case (Cons b bs)
  then show ?case by (cases k) (simp_all add: add.commute)
qed simp

lemma length_concat_const: "\<forall>b \<in> set bs. length b = n \<Longrightarrow> length (concat bs) = length bs * n"
  by (induction bs) auto

lemma deckInv_blocks:
  assumes inv: "deckInv ns ids outs s" and n: "0 < length ids"
    and k: "(k + 1) * length ids \<le> length outs"
  shows "mset (take (length ids) (drop (k * length ids) outs)) = mset ids"
proof (cases "jget ns s")
  case None
  then show ?thesis using inv k n by (auto simp: deckInv_def)
next
  case (Some d)
  obtain bs where outs: "outs = concat bs @ take (sd_index d) (sd_order d)" and bs: "\<forall>b \<in> set bs. mset b = mset ids"
    using inv Some by (auto simp: deckInv_def)
  have d: "mset (sd_order d) = mset ids" "sd_index d \<le> length ids" using inv Some by (simp_all add: deckInv_def)
  have ld: "length (sd_order d) = length ids" using d(1) by (rule mset_eq_length)
  have lb: "\<forall>b \<in> set bs. length b = length ids" using bs mset_eq_length by blast
  consider "k < length bs" | "length bs \<le> k" by linarith
  then show ?thesis
  proof cases
    case 1
    then show ?thesis using block_of_concat [OF lb 1] bs by (simp add: outs)
  next
    case 2
    have len: "length outs = length bs * length ids + sd_index d"
      using d(2) ld by (simp add: outs length_concat_const [OF lb])
    obtain j where j: "k = length bs + j" using 2 le_Suc_ex by blast
    have "j * length ids + length ids \<le> sd_index d"
      using k len by (simp add: j algebra_simps)
    with d(2) have e: "sd_index d = length ids" "k = length bs"
      using n by (auto simp: j le_antisym dest: order_trans) 
    show ?thesis using e d(1) ld by (simp add: outs length_concat_const [OF lb])
  qed
qed

section \<open>Properties\<close>

text \<open>
  A shuffle deck deals fairly. For any sequence of calls, whatever the draws and
  whatever other namespaces do in between, the answers of a fresh namespace that is always
  asked with the same distinct ids (in any order) fall into cycles in each of which every id
  appears exactly once, and no id is ever answered twice in a row, also not across a
  reshuffle.
\<close>

theorem deck_cycles:
  assumes "distinct ids" and "2 \<le> length ids" and "jget ns s = None"
    and "\<forall>c \<in> set calls. deckCall_ok ns ids c"
    and "outs = answersOf ns (fst (runDeck calls s))"
  shows "distinct_adj outs \<and>
    (\<forall>k. (k + 1) * length ids \<le> length outs \<longrightarrow>
       mset (take (length ids) (drop (k * length ids) outs)) = mset ids)"
proof -
  have "deckInv ns ids [] s" using assms(3) by (simp add: deckInv_def)
  from deckInv_run [OF assms(1,2,4) this] have inv: "deckInv ns ids outs (snd (runDeck calls s))"
    by (simp add: assms(5))
  moreover have "0 < length ids" using assms(2) by linarith
  ultimately show ?thesis using deckInv_blocks [OF inv] by (simp add: deckInv_def)
qed

definition exampleCalls :: "deck_call list" where
  "exampleCalls =
     [(''combo:a'', [''x'', ''y''], \<lambda>_. TestFloat 0),
      (''conn:b'', [''p'', ''q''], \<lambda>_. CryptoInt (\<lambda>m. m - 1)),
      (''combo:a'', [''y'', ''x''], \<lambda>_. TestFloat (1 / 2)),
      (''combo:a'', [''x'', ''y''], \<lambda>_. CryptoInt (\<lambda>m. 0)),
      (''combo:a'', [''x'', ''y''], \<lambda>_. CryptoInt (\<lambda>m. 0))]"

lemma deck_cycles_witness:
  "distinct_adj (answersOf ''combo:a'' (fst (runDeck exampleCalls []))) \<and>
   mset (take 2 (drop 2 (answersOf ''combo:a'' (fst (runDeck exampleCalls []))))) = mset [''x'', ''y'']"
proof -
  let ?outs = "answersOf ''combo:a'' (fst (runDeck exampleCalls []))"
  have "\<forall>c \<in> set exampleCalls. deckCall_ok ''combo:a'' [''x'', ''y''] c"
    by (simp add: exampleCalls_def deckCall_ok_def draw_ok_def add_mset_commute)
  then have "distinct_adj ?outs \<and> (\<forall>k. (k + 1) * length [''x'', ''y''] \<le> length ?outs \<longrightarrow>
      mset (take (length [''x'', ''y'']) (drop (k * length [''x'', ''y'']) ?outs)) = mset [''x'', ''y''])"
    by (intro deck_cycles [OF _ _ _ _ refl]) simp_all
  moreover have "length ?outs = 4" by code_simp
  ultimately show ?thesis by (auto dest!: spec [of _ "1 :: nat"] simp: numeral_2_eq_2)
qed

text \<open>
  With a repeated id the anti-repeat swap may exchange equal ids, so the promise of the
  module that the last item of a cycle is not the first of the next fails.
\<close>

lemma deck_repeat_with_duplicates:
  "answersOf ''n'' (fst (runDeck (replicate 4 (''n'', [''x'', ''x'', ''y''],
       \<lambda>i. if i = 0 then TestFloat (1 / 2) else TestFloat 0)) []))
     = [''x'', ''y'', ''x'', ''x'']"
  by code_simp

text \<open>Different item sets may share a key, so a deck may deal ids that are not asked for.\<close>

lemma idsKey_not_injective: "idsKeyOf [''a,b'', ''c''] = idsKeyOf [''a'', ''b,c'']"
  by code_simp

lemma deck_deals_foreign_id:
  "answersOf ''n'' (fst (runDeck [(''n'', [''a,b'', ''c''], \<lambda>_. TestFloat 0),
                                (''n'', [''a'', ''b,c''], \<lambda>_. TestFloat 0)] [])) = [''c'', ''a,b'']"
  by code_simp

end
