(* ===== verification/RoundRobin.thy ===== *)
theory RoundRobin
  imports Prelude Complex_Main
begin

text \<open>
  The round-robin state of combos: \<open>open-sse/services/combo/rrState.ts\<close> and the places of
  \<open>open-sse/services/combo.ts\<close> (\<open>handleRoundRobinCombo\<close>) and \<open>combo/quotaStrategies.ts\<close>
  (\<open>rotateLeadingTies\<close>) that mutate its maps directly. A target is its \<open>executionKey\<close>.

  A limit that the code reads with \<open>Number(value)\<close> is a rational, or \<open>None\<close> when it is not a
  finite number. An index into an empty list of targets (\<open>NaN\<close> in the code) is \<open>None\<close>.
\<close>

section \<open>Model\<close>

record sticky_target =
  st_executionKey :: string
  st_successCount :: int

record rr_state =
  rrCounters :: "(string, nat) jmap"
  rrStickyTargets :: "(string, sticky_target) jmap"
  weightedStickyTargets :: "(string, sticky_target) jmap"

definition MAX_RR_COUNTERS :: nat where "MAX_RR_COUNTERS = 500"

definition clampStickyRoundRobinTargetLimit :: "rat option \<Rightarrow> int" where
  "clampStickyRoundRobinTargetLimit value =
     (case value of None \<Rightarrow> 1 | Some r \<Rightarrow> min (max \<lfloor>r\<rfloor> 1) 1000)"

fun findIndex :: "('a \<Rightarrow> bool) \<Rightarrow> 'a list \<Rightarrow> nat option" where
  "findIndex P [] = None"
| "findIndex P (x # xs) = (if P x then Some 0 else map_option Suc (findIndex P xs))"

definition counterOf :: "string \<Rightarrow> rr_state \<Rightarrow> nat" where
  "counterOf comboName s = nullish (jget comboName (rrCounters s)) 0"

definition getStickyRoundRobinStartIndex ::
  "string \<Rightarrow> string list \<Rightarrow> int \<Rightarrow> rr_state \<Rightarrow> nat option \<times> nat" where
  "getStickyRoundRobinStartIndex comboName targets stickyLimit s =
     (let sticky = jget comboName (rrStickyTargets s);
          stickyIndex = (case sticky of
                           Some k \<Rightarrow> findIndex (\<lambda>t. t = st_executionKey k) targets
                         | None \<Rightarrow> None);
          counter = counterOf comboName s
      in if 1 < stickyLimit \<and> sticky \<noteq> None \<and> stickyIndex \<noteq> None
            \<and> st_successCount (the sticky) < stickyLimit
         then (stickyIndex, counter)
         else (if targets = [] then None else Some (counter mod length targets), counter))"

definition nextSuccessCount :: "string \<Rightarrow> sticky_target option \<Rightarrow> int" where
  "nextSuccessCount key sticky =
     (case sticky of
        Some k \<Rightarrow> if st_executionKey k = key then st_successCount k + 1 else 1
      | None \<Rightarrow> 1)"

definition recordStickyRoundRobinSuccess ::
  "string \<Rightarrow> string \<Rightarrow> int \<Rightarrow> string list \<Rightarrow> rr_state \<Rightarrow> rr_state" where
  "recordStickyRoundRobinSuccess comboName target stickyLimit targets s =
     (let successCount = nextSuccessCount target (jget comboName (rrStickyTargets s))
      in if stickyLimit \<le> successCount
         then (let servedIndex = findIndex (\<lambda>t. t = target) targets;
                   next = (case servedIndex of Some i \<Rightarrow> i + 1 | None \<Rightarrow> counterOf comboName s + 1)
               in s\<lparr>rrCounters := jset comboName next (rrCounters s),
                    rrStickyTargets := jdel comboName (rrStickyTargets s)\<rparr>)
         else s\<lparr>rrStickyTargets := jset comboName
                  \<lparr>st_executionKey = target, st_successCount = successCount\<rparr> (rrStickyTargets s)\<rparr>)"

definition getStickyWeightedExecutionKey :: "string \<Rightarrow> int \<Rightarrow> rr_state \<Rightarrow> string option" where
  "getStickyWeightedExecutionKey comboName stickyLimit s =
     (case jget comboName (weightedStickyTargets s) of
        None \<Rightarrow> None
      | Some k \<Rightarrow> if stickyLimit \<le> 1 \<or> stickyLimit \<le> st_successCount k then None
                  else Some (st_executionKey k))"

definition recordStickyWeightedSuccess :: "string \<Rightarrow> string \<Rightarrow> int \<Rightarrow> rr_state \<Rightarrow> rr_state" where
  "recordStickyWeightedSuccess comboName key stickyLimit s =
     (let successCount = nextSuccessCount key (jget comboName (weightedStickyTargets s))
      in if stickyLimit \<le> successCount
         then s\<lparr>weightedStickyTargets := jdel comboName (weightedStickyTargets s)\<rparr>
         else s\<lparr>weightedStickyTargets := jset comboName
                  \<lparr>st_executionKey = key, st_successCount = successCount\<rparr> (weightedStickyTargets s)\<rparr>)"

text \<open>The outer option of a limit is \<open>undefined\<close> or \<open>null\<close>.\<close>

definition resolveComboStickyRoundRobinLimit ::
  "rat option option \<Rightarrow> rat option option \<Rightarrow> rat option option \<Rightarrow> int" where
  "resolveComboStickyRoundRobinLimit perComboLimit comboSticky globalSticky =
     (case perComboLimit of
        Some v \<Rightarrow> clampStickyRoundRobinTargetLimit v
      | None \<Rightarrow> (case comboSticky of
          Some v \<Rightarrow> clampStickyRoundRobinTargetLimit v
        | None \<Rightarrow> clampStickyRoundRobinTargetLimit (nullish globalSticky None)))"

text \<open>
  The start of a round-robin request: a sticky target that is in the list but not available
  is forgotten, the oldest counter makes room for a new combo, and without stickiness the
  counter moves on at once.
\<close>

definition clearStaleSticky :: "string \<Rightarrow> string list \<Rightarrow> int \<Rightarrow> (string \<Rightarrow> bool) \<Rightarrow> rr_state \<Rightarrow> rr_state" where
  "clearStaleSticky comboName targets stickyLimit available s =
     (if 1 < stickyLimit
      then (case jget comboName (rrStickyTargets s) of
              Some k \<Rightarrow> if st_executionKey k \<in> set targets \<and> \<not> available (st_executionKey k)
                        then s\<lparr>rrStickyTargets := jdel comboName (rrStickyTargets s)\<rparr> else s
            | None \<Rightarrow> s)
      else s)"

definition evictOldestCounter :: "string \<Rightarrow> rr_state \<Rightarrow> rr_state" where
  "evictOldestCounter comboName s =
     (if \<not> jhas comboName (rrCounters s) \<and> \<not> jhas comboName (rrStickyTargets s)
         \<and> MAX_RR_COUNTERS \<le> jsize (rrCounters s)
      then (let oldest = hd (jkeys (rrCounters s))
            in s\<lparr>rrCounters := jdel oldest (rrCounters s),
                 rrStickyTargets := jdel oldest (rrStickyTargets s)\<rparr>)
      else s)"

definition beginRoundRobin ::
  "string \<Rightarrow> string list \<Rightarrow> int \<Rightarrow> (string \<Rightarrow> bool) \<Rightarrow> rr_state \<Rightarrow> nat option \<times> rr_state" where
  "beginRoundRobin comboName targets stickyLimit available s =
     (let s1 = evictOldestCounter comboName (clearStaleSticky comboName targets stickyLimit available s);
          s2 = (if jhas comboName (rrCounters s1) then s1
                else s1\<lparr>rrCounters := jset comboName 0 (rrCounters s1)\<rparr>);
          (startIndex, counter) = getStickyRoundRobinStartIndex comboName targets stickyLimit s2
      in (startIndex,
          if \<not> 1 < stickyLimit then s2\<lparr>rrCounters := jset comboName (counter + 1) (rrCounters s2)\<rparr> else s2))"

text \<open>A success of the target at \<open>modelIndex\<close>.\<close>

definition servedRoundRobin :: "string \<Rightarrow> string list \<Rightarrow> int \<Rightarrow> nat \<Rightarrow> rr_state \<Rightarrow> rr_state" where
  "servedRoundRobin comboName targets stickyLimit modelIndex s =
     (if 1 < stickyLimit
      then recordStickyRoundRobinSuccess comboName (targets ! modelIndex) stickyLimit targets s
      else s\<lparr>rrCounters := jset comboName (modelIndex + 1) (rrCounters s)\<rparr>)"

definition rotateLeadingTies :: "string list \<Rightarrow> string list \<Rightarrow> string \<Rightarrow> rr_state \<Rightarrow> string list \<times> rr_state" where
  "rotateLeadingTies sortedTargets tiedTargets key s =
     (let (ordered, s') =
        (if 1 < length tiedTargets
         then (let counter = counterOf key s;
                   s1 = (if \<not> jhas key (rrCounters s) \<and> MAX_RR_COUNTERS \<le> jsize (rrCounters s)
                         then s\<lparr>rrCounters := jdel (hd (jkeys (rrCounters s))) (rrCounters s)\<rparr> else s);
                   startIndex = counter mod length tiedTargets
               in (drop startIndex tiedTargets @ take startIndex tiedTargets,
                   s1\<lparr>rrCounters := jset key (counter + 1) (rrCounters s1)\<rparr>))
         else (tiedTargets, s))
      in (ordered @ filter (\<lambda>t. t \<notin> set ordered) sortedTargets, s'))"

section \<open>Limits\<close>

lemma clamp_range: "1 \<le> clampStickyRoundRobinTargetLimit v \<and> clampStickyRoundRobinTargetLimit v \<le> 1000"
  by (simp add: clampStickyRoundRobinTargetLimit_def split: option.split)

lemma resolve_limit_range:
  "1 \<le> resolveComboStickyRoundRobinLimit a b c \<and> resolveComboStickyRoundRobinLimit a b c \<le> 1000"
  by (simp add: resolveComboStickyRoundRobinLimit_def clamp_range split: option.split)

lemma findIndex_nth: "distinct xs \<Longrightarrow> i < length xs \<Longrightarrow> findIndex (\<lambda>t. t = xs ! i) xs = Some i"
proof (induction xs arbitrary: i)
  case (Cons x xs)
  then show ?case by (cases i) (auto simp: nth_mem)
qed simp

section \<open>Rotation\<close>

text \<open>
  After \<open>k\<close> successes of a combo with \<open>n\<close> targets and limit \<open>L\<close>: the counter points at target
  \<open>k div L\<close> modulo \<open>n\<close> and the sticky record counts the \<open>k mod L\<close> successes of its batch.
\<close>

definition rotationAt :: "string \<Rightarrow> string list \<Rightarrow> nat \<Rightarrow> nat \<Rightarrow> rr_state \<Rightarrow> bool" where
  "rotationAt c targets L k s \<longleftrightarrow>
     counterOf c s mod length targets = (k div L) mod length targets \<and>
     jget c (rrStickyTargets s) =
       (if k mod L = 0 then None
        else Some \<lparr>st_executionKey = targets ! ((k div L) mod length targets), st_successCount = int (k mod L)\<rparr>)"

text \<open>A request in which the scheduled target serves.\<close>

definition serveOnce :: "string \<Rightarrow> string list \<Rightarrow> int \<Rightarrow> rr_state \<Rightarrow> nat \<times> rr_state" where
  "serveOnce c targets L s =
     (let (start, s1) = beginRoundRobin c targets L (\<lambda>_. True) s
      in (the start, servedRoundRobin c targets L (the start) s1))"

fun serveMany :: "nat \<Rightarrow> string \<Rightarrow> string list \<Rightarrow> int \<Rightarrow> rr_state \<Rightarrow> nat list \<times> rr_state" where
  "serveMany 0 c targets L s = ([], s)"
| "serveMany (Suc m) c targets L s =
     (let (i, s1) = serveOnce c targets L s; (js, s2) = serveMany m c targets L s1 in (i # js, s2))"

lemma clearStale_available [simp]: "clearStaleSticky c targets L (\<lambda>_. True) s = s"
  by (simp add: clearStaleSticky_def split: option.split)

lemma evict_keeps:
  "counterOf c (evictOldestCounter c s) = counterOf c s"
  "jget c (rrStickyTargets (evictOldestCounter c s)) = jget c (rrStickyTargets s)"
proof -
  have h: "jget c (rrCounters s) = None \<Longrightarrow> MAX_RR_COUNTERS \<le> jsize (rrCounters s) \<Longrightarrow>
      hd (jkeys (rrCounters s)) \<noteq> c"
  proof -
    assume a: "jget c (rrCounters s) = None" "MAX_RR_COUNTERS \<le> jsize (rrCounters s)"
    then have "jkeys (rrCounters s) \<noteq> []" by (auto simp: jsize_keys MAX_RR_COUNTERS_def)
    then have "hd (jkeys (rrCounters s)) \<in> set (jkeys (rrCounters s))" by simp
    then show ?thesis using a(1) by (auto simp: jget_None_iff)
  qed
  show "counterOf c (evictOldestCounter c s) = counterOf c s"
    using h by (simp add: evictOldestCounter_def counterOf_def Let_def jhas_def)
  show "jget c (rrStickyTargets (evictOldestCounter c s)) = jget c (rrStickyTargets s)"
    by (simp add: evictOldestCounter_def Let_def jhas_def)
qed

lemma getSticky_cong:
  assumes "counterOf c s = counterOf c s'" and "jget c (rrStickyTargets s) = jget c (rrStickyTargets s')"
  shows "getStickyRoundRobinStartIndex c ts L s = getStickyRoundRobinStartIndex c ts L s'"
  unfolding getStickyRoundRobinStartIndex_def assms ..

lemma snd_getSticky: "snd (getStickyRoundRobinStartIndex c ts L s) = counterOf c s"
  by (simp add: getStickyRoundRobinStartIndex_def Let_def)

lemma begin_facts:
  "fst (beginRoundRobin c ts L (\<lambda>_. True) s) = fst (getStickyRoundRobinStartIndex c ts L s)"
  "counterOf c (snd (beginRoundRobin c ts L (\<lambda>_. True) s)) = (if 1 < L then counterOf c s else counterOf c s + 1)"
  "jget c (rrStickyTargets (snd (beginRoundRobin c ts L (\<lambda>_. True) s))) = jget c (rrStickyTargets s)"
proof -
  define s1 where "s1 = evictOldestCounter c s"
  define s2 where "s2 = (if jhas c (rrCounters s1) then s1 else s1\<lparr>rrCounters := jset c 0 (rrCounters s1)\<rparr>)"
  have c2: "counterOf c s2 = counterOf c s"
    using evict_keeps(1) [of c s] by (auto simp: s2_def s1_def counterOf_def jhas_def)
  have k2: "jget c (rrStickyTargets s2) = jget c (rrStickyTargets s)"
    using evict_keeps(2) [of c s] by (simp add: s2_def s1_def)
  have g: "getStickyRoundRobinStartIndex c ts L s2 = getStickyRoundRobinStartIndex c ts L s"
    by (rule getSticky_cong [OF c2 k2])
  have b: "beginRoundRobin c ts L (\<lambda>_. True) s
      = (fst (getStickyRoundRobinStartIndex c ts L s),
         if \<not> 1 < L then s2\<lparr>rrCounters := jset c (counterOf c s + 1) (rrCounters s2)\<rparr> else s2)"
    using snd_getSticky [of c ts L s]
    by (simp add: beginRoundRobin_def Let_def g case_prod_beta flip: s1_def s2_def)
  show "fst (beginRoundRobin c ts L (\<lambda>_. True) s) = fst (getStickyRoundRobinStartIndex c ts L s)"
    by (simp add: b)
  show "counterOf c (snd (beginRoundRobin c ts L (\<lambda>_. True) s)) = (if 1 < L then counterOf c s else counterOf c s + 1)"
    using c2 by (simp add: b counterOf_def)
  show "jget c (rrStickyTargets (snd (beginRoundRobin c ts L (\<lambda>_. True) s))) = jget c (rrStickyTargets s)"
    using k2 by (simp add: b)
qed

lemma rotation_start:
  assumes "rotationAt c ts L k s" and "distinct ts" and "ts \<noteq> []" and "1 \<le> L"
  shows "fst (getStickyRoundRobinStartIndex c ts (int L) s) = Some ((k div L) mod length ts)"
proof -
  have "(k div L) mod length ts < length ts" using assms(3) by simp
  then show ?thesis
    using assms by (auto simp: getStickyRoundRobinStartIndex_def Let_def rotationAt_def findIndex_nth)
qed

lemma div_mod_Suc:
  fixes k L :: nat
  assumes "1 \<le> L"
  shows "Suc k div L = (if Suc (k mod L) = L then Suc (k div L) else k div L)"
    and "Suc k mod L = (if Suc (k mod L) = L then 0 else Suc (k mod L))"
  by (simp_all add: div_Suc mod_Suc)

lemma rotation_success:
  assumes r: "rotationAt c ts L k s" and "distinct ts" and "ts \<noteq> []" and L: "1 < L"
  shows "rotationAt c ts L (Suc k) (recordStickyRoundRobinSuccess c (ts ! ((k div L) mod length ts)) (int L) ts s)"
proof -
  let ?i = "(k div L) mod length ts"
  have i: "?i < length ts" using assms(3) by simp
  have f: "findIndex (\<lambda>t. t = ts ! ?i) ts = Some ?i" by (rule findIndex_nth [OF assms(2) i])
  have n: "nextSuccessCount (ts ! ?i) (jget c (rrStickyTargets s)) = int (Suc (k mod L))"
    using r by (simp add: rotationAt_def nextSuccessCount_def)
  have bound: "Suc (k mod L) \<le> L" using L mod_less_divisor [of L k] by linarith
  show ?thesis
  proof (cases "Suc (k mod L) = L")
    case True
    then have "recordStickyRoundRobinSuccess c (ts ! ?i) (int L) ts s
        = s\<lparr>rrCounters := jset c (?i + 1) (rrCounters s), rrStickyTargets := jdel c (rrStickyTargets s)\<rparr>"
      by (simp add: recordStickyRoundRobinSuccess_def n f)
    moreover have "(?i + 1) mod length ts = (Suc k div L) mod length ts"
      using True L div_mod_Suc(1) [of L k] by (simp add: mod_Suc_eq)
    moreover have "Suc k mod L = 0" using True L div_mod_Suc(2) [of L k] by simp
    ultimately show ?thesis by (simp add: rotationAt_def counterOf_def)
  next
    case False
    then have "Suc (k mod L) < L" using bound by simp
    then have "recordStickyRoundRobinSuccess c (ts ! ?i) (int L) ts s
        = s\<lparr>rrStickyTargets := jset c \<lparr>st_executionKey = ts ! ?i, st_successCount = int (Suc (k mod L))\<rparr>
              (rrStickyTargets s)\<rparr>"
      by (simp add: recordStickyRoundRobinSuccess_def n)
    then show ?thesis
      using r False L div_mod_Suc [of L k] by (simp add: rotationAt_def counterOf_def)
  qed
qed

lemma serveOnce_rotation:
  assumes r: "rotationAt c ts L k s" and "distinct ts" and "ts \<noteq> []" and L: "1 \<le> L"
  shows "fst (serveOnce c ts (int L) s) = (k div L) mod length ts \<and> rotationAt c ts L (Suc k) (snd (serveOnce c ts (int L) s))"
proof -
  let ?b = "beginRoundRobin c ts (int L) (\<lambda>_. True) s"
  have st: "fst ?b = Some ((k div L) mod length ts)"
    by (simp add: begin_facts(1) rotation_start [OF assms])
  have f: "fst (serveOnce c ts (int L) s) = (k div L) mod length ts"
    by (simp add: serveOnce_def case_prod_beta st)
  have e: "snd (serveOnce c ts (int L) s) = servedRoundRobin c ts (int L) ((k div L) mod length ts) (snd ?b)"
    by (simp add: serveOnce_def case_prod_beta st)
  show ?thesis
  proof (cases "1 < L")
    case True
    have "rotationAt c ts L k (snd ?b)"
      using r True begin_facts(2,3) [of c ts "int L" s] by (simp add: rotationAt_def)
    from rotation_success [OF this assms(2,3) True] show ?thesis
      using True f by (simp add: e servedRoundRobin_def)
  next
    case False
    then have "L = 1" using L by simp
    have b: "jget c (rrStickyTargets (snd ?b)) = None"
      using r by (simp add: begin_facts(3) rotationAt_def \<open>L = 1\<close>)
    have "snd (serveOnce c ts (int L) s)
        = (snd ?b)\<lparr>rrCounters := jset c ((k div L) mod length ts + 1) (rrCounters (snd ?b))\<rparr>"
      unfolding e using False by (simp add: servedRoundRobin_def)
    then have "rotationAt c ts L (Suc k) (snd (serveOnce c ts (int L) s))"
      using b by (simp add: rotationAt_def counterOf_def mod_Suc_eq \<open>L = 1\<close>)
    with f show ?thesis by blast
  qed
qed

lemma serveMany_rotation:
  assumes "distinct ts" and "ts \<noteq> []" and "1 \<le> L"
  shows "rotationAt c ts L k s \<Longrightarrow>
    fst (serveMany m c ts (int L) s) = map (\<lambda>i. (i div L) mod length ts) [k..<k + m]"
proof (induction m arbitrary: k s)
  case (Suc m)
  obtain i s1 where o1: "serveOnce c ts (int L) s = (i, s1)" by (rule prod.exhaust)
  obtain js s2 where o2: "serveMany m c ts (int L) s1 = (js, s2)" by (rule prod.exhaust)
  have "i = (k div L) mod length ts" and r: "rotationAt c ts L (Suc k) s1"
    using serveOnce_rotation [OF Suc.prems assms] by (simp_all add: o1)
  moreover have "js = map (\<lambda>i. (i div L) mod length ts) [Suc k..<Suc k + m]"
    using Suc.IH [OF r] by (simp add: o2)
  moreover have "[k..<k + Suc m] = k # [Suc k..<Suc k + m]"
    by (subst upt_conv_Cons) (simp_all del: upt_Suc)
  ultimately show ?case by (simp add: o1 o2 del: upt_Suc)
qed simp

section \<open>Properties\<close>

text \<open>
  C24. Round robin rotates in batches. For a combo that has no counter and no sticky record
  yet, with distinct targets and any sticky limit \<open>L\<close> from 1 on, the target scheduled for the
  \<open>i\<close>-th of any number of served requests is target \<open>i div L\<close>, counted modulo the number of
  targets: each serves \<open>L\<close> requests in a row, in the order of the list, and so on round.
\<close>

theorem round_robin_batches:
  assumes "distinct targets" and "targets \<noteq> []" and "1 \<le> L"
    and "jget combo (rrCounters s) = None" and "jget combo (rrStickyTargets s) = None"
  shows "fst (serveMany m combo targets (int L) s) = map (\<lambda>i. (i div L) mod length targets) [0..<m]"
proof -
  have "rotationAt combo targets L 0 s" using assms(4,5) by (simp add: rotationAt_def counterOf_def)
  from serveMany_rotation [OF assms(1-3) this, of m] show ?thesis by simp
qed

definition exampleRR :: rr_state where
  "exampleRR = \<lparr>rrCounters = [(''other'', 7)], rrStickyTargets = [], weightedStickyTargets = []\<rparr>"

lemma round_robin_batches_witness:
  "fst (serveMany 7 ''c'' [''a'', ''b'', ''d''] (int 2) exampleRR) = [0, 0, 1, 1, 2, 2, 0]"
  by (subst round_robin_batches) (simp_all add: exampleRR_def upt_conv_Cons jget_def)

text \<open>
  The tied leaders are rotated and the rest follows: nothing is lost and nothing doubled.
\<close>

lemma rotateLeadingTies_permutes:
  assumes "distinct everyone" and "distinct tied" and "set tied \<subseteq> set everyone"
  shows "mset (fst (rotateLeadingTies everyone tied key s)) = mset everyone"
proof -
  define ordered where "ordered =
    (if 1 < length tied then drop (counterOf key s mod length tied) tied @ take (counterOf key s mod length tied) tied
     else tied)"
  have "fst (rotateLeadingTies everyone tied key s) = ordered @ filter (\<lambda>t. t \<notin> set ordered) everyone"
    by (simp add: rotateLeadingTies_def ordered_def Let_def case_prod_beta)
  moreover have "mset ordered = mset tied"
    by (simp add: ordered_def) (metis append_take_drop_id mset_append union_commute)
  then have "set ordered = set tied" "distinct ordered"
    using assms(2) by (metis mset_eq_setD, metis mset_eq_imp_distinct_iff)
  ultimately show ?thesis
    using assms by (intro set_eq_iff_mset_eq_distinct [THEN iffD1]) auto
qed

end
