(* ===== verification/FairShare.thy ===== *)
theory FairShare
  imports Prelude Complex_Main
begin

text \<open>
  The fair-share decision of \<open>src/lib/quota/fairShare.ts\<close> over the dimensions of a quota pool
  and the burn-rate estimate of \<open>src/lib/quota/burnRate.ts\<close>. Amounts, weights and rates are
  rational numbers where the code has floating-point ones. A policy read from the database
  may be any string (\<open>OtherPolicy\<close>): the code casts it without a check.
\<close>

section \<open>Fair share\<close>

datatype policy = Hard | Soft | Burst | OtherPolicy string

record dimension_key =
  dk_poolId :: string
  dk_unit :: string
  dk_window :: string

record fair_dimension =
  fd_key :: dimension_key
  fd_limit :: rat
  fd_consumedTotal :: rat
  fd_globalUsedPercent :: rat

record fair_allocation =
  fa_weight :: rat
  fa_capValue :: "rat option"
  fa_capUnit :: "string option"
  fa_policy :: policy

record fair_input =
  fi_dimensions :: "fair_dimension list"
  fi_allocation :: fair_allocation
  fi_consumedByThisKey :: "(string, rat) jmap"
  fi_saturationThreshold :: rat

datatype decision_kind = Allow | Block

datatype decision_reason = Ok | FairShare | CapAbsolute | GlobalSaturated

text \<open>\<open>penalized\<close> is \<open>true\<close> or absent.\<close>

record fair_decision =
  fx_kind :: decision_kind
  fx_reason :: decision_reason
  fx_penalized :: bool

definition dimensionKeyString :: "dimension_key \<Rightarrow> string" where
  "dimensionKeyString k = dk_poolId k @ '':'' @ dk_unit k @ '':'' @ dk_window k"

fun normalizePolicy :: "policy \<Rightarrow> policy" where
  "normalizePolicy (OtherPolicy p) = Hard"
| "normalizePolicy p = p"

definition blocked :: "decision_reason \<Rightarrow> fair_decision" where
  "blocked r = \<lparr>fx_kind = Block, fx_reason = r, fx_penalized = False\<rparr>"

text \<open>
  The body of the loop for one dimension: a decision that ends it, or the new value of
  \<open>anyPenalized\<close>.
\<close>

definition judgeDimension ::
  "fair_allocation \<Rightarrow> (string, rat) jmap \<Rightarrow> rat \<Rightarrow> policy \<Rightarrow> fair_dimension \<Rightarrow> bool \<Rightarrow> fair_decision + bool" where
  "judgeDimension alloc byKey threshold effective dm anyPenalized =
     (let consumed = nullish (jget (dimensionKeyString (fd_key dm)) byKey) 0;
          fairShare = (fa_weight alloc / 100) * fd_limit dm
      in if (case fa_capValue alloc of
               Some cap \<Rightarrow> fa_capUnit alloc = Some (dk_unit (fd_key dm)) \<and> cap \<le> consumed
             | None \<Rightarrow> False)
         then Inl (blocked CapAbsolute)
         else if fd_limit dm \<le> fd_consumedTotal dm
         then (if effective \<noteq> Burst then Inl (blocked GlobalSaturated) else Inl (blocked GlobalSaturated))
         else if threshold \<le> fd_globalUsedPercent dm
         then (case effective of
                 Hard \<Rightarrow> if fairShare \<le> consumed then Inl (blocked FairShare) else Inr anyPenalized
               | Soft \<Rightarrow> Inr (if fairShare \<le> consumed then True else anyPenalized)
               | _ \<Rightarrow> Inr anyPenalized)
         else (case effective of
                 Hard \<Rightarrow> if fd_limit dm \<le> consumed then Inl (blocked GlobalSaturated) else Inr anyPenalized
               | Soft \<Rightarrow> Inr (if fairShare \<le> consumed then True else anyPenalized)
               | _ \<Rightarrow> Inr anyPenalized))"

fun judgeLoop ::
  "fair_allocation \<Rightarrow> (string, rat) jmap \<Rightarrow> rat \<Rightarrow> policy \<Rightarrow> fair_dimension list \<Rightarrow> bool \<Rightarrow> fair_decision" where
  "judgeLoop alloc byKey threshold effective [] anyPenalized =
     \<lparr>fx_kind = Allow, fx_reason = Ok, fx_penalized = anyPenalized\<rparr>"
| "judgeLoop alloc byKey threshold effective (dm # dms) anyPenalized =
     (case judgeDimension alloc byKey threshold effective dm anyPenalized of
        Inl d \<Rightarrow> d
      | Inr p \<Rightarrow> judgeLoop alloc byKey threshold effective dms p)"

definition decideFairShare :: "fair_input \<Rightarrow> fair_decision" where
  "decideFairShare inp =
     (if fi_dimensions inp = [] then \<lparr>fx_kind = Allow, fx_reason = Ok, fx_penalized = False\<rparr>
      else judgeLoop (fi_allocation inp) (fi_consumedByThisKey inp) (fi_saturationThreshold inp)
             (normalizePolicy (fa_policy (fi_allocation inp))) (fi_dimensions inp) False)"

section \<open>What a decision means\<close>

definition consumedBy :: "fair_input \<Rightarrow> fair_dimension \<Rightarrow> rat" where
  "consumedBy inp dm = nullish (jget (dimensionKeyString (fd_key dm)) (fi_consumedByThisKey inp)) 0"

definition capReached :: "fair_input \<Rightarrow> fair_dimension \<Rightarrow> bool" where
  "capReached inp dm \<longleftrightarrow> (\<exists>cap. fa_capValue (fi_allocation inp) = Some cap
     \<and> fa_capUnit (fi_allocation inp) = Some (dk_unit (fd_key dm)) \<and> cap \<le> consumedBy inp dm)"

definition fairShareOf :: "fair_input \<Rightarrow> fair_dimension \<Rightarrow> rat" where
  "fairShareOf inp dm = (fa_weight (fi_allocation inp) / 100) * fd_limit dm"

text \<open>The contract of one dimension: under which conditions it lets the key pass.\<close>

definition passes :: "fair_input \<Rightarrow> fair_dimension \<Rightarrow> bool" where
  "passes inp dm \<longleftrightarrow> \<not> capReached inp dm \<and> fd_consumedTotal dm < fd_limit dm
     \<and> (fa_policy (fi_allocation inp) \<notin> {Soft, Burst} \<longrightarrow>
          consumedBy inp dm <
            (if fi_saturationThreshold inp \<le> fd_globalUsedPercent dm
             then fairShareOf inp dm else fd_limit dm))"

definition overShare :: "fair_input \<Rightarrow> fair_dimension \<Rightarrow> bool" where
  "overShare inp dm \<longleftrightarrow> fa_policy (fi_allocation inp) = Soft \<and> fairShareOf inp dm \<le> consumedBy inp dm"

lemma normalize_cases:
  "normalizePolicy p = (if p = Soft then Soft else if p = Burst then Burst else Hard)"
  by (cases p) auto

lemma judgeDimension_meaning:
  "judgeDimension (fi_allocation inp) (fi_consumedByThisKey inp) (fi_saturationThreshold inp)
     (normalizePolicy (fa_policy (fi_allocation inp))) dm b
   = (if passes inp dm then Inr (b \<or> overShare inp dm)
      else Inl (blocked (if capReached inp dm then CapAbsolute
                         else if fd_limit dm \<le> fd_consumedTotal dm then GlobalSaturated
                         else if fi_saturationThreshold inp \<le> fd_globalUsedPercent dm then FairShare
                         else GlobalSaturated)))"
  by (auto simp: judgeDimension_def Let_def passes_def overShare_def capReached_def consumedBy_def
      fairShareOf_def normalize_cases split: option.splits)

lemma judgeLoop_allow:
  "fx_kind (judgeLoop (fi_allocation inp) (fi_consumedByThisKey inp) (fi_saturationThreshold inp)
     (normalizePolicy (fa_policy (fi_allocation inp))) dms b) = Allow \<longleftrightarrow> (\<forall>dm \<in> set dms. passes inp dm)"
  by (induction dms arbitrary: b) (simp_all add: judgeDimension_meaning blocked_def)

lemma judgeLoop_penalized:
  "\<forall>dm \<in> set dms. passes inp dm \<Longrightarrow>
   judgeLoop (fi_allocation inp) (fi_consumedByThisKey inp) (fi_saturationThreshold inp)
     (normalizePolicy (fa_policy (fi_allocation inp))) dms b
   = \<lparr>fx_kind = Allow, fx_reason = Ok, fx_penalized = b \<or> (\<exists>dm \<in> set dms. overShare inp dm)\<rparr>"
  by (induction dms arbitrary: b) (auto simp: judgeDimension_meaning)

lemma allow_iff: "fx_kind (decideFairShare inp) = Allow \<longleftrightarrow> (\<forall>dm \<in> set (fi_dimensions inp). passes inp dm)"
  by (simp add: decideFairShare_def judgeLoop_allow)

lemma allow_result:
  assumes "\<forall>dm \<in> set (fi_dimensions inp). passes inp dm"
  shows "decideFairShare inp = \<lparr>fx_kind = Allow, fx_reason = Ok,
           fx_penalized = (\<exists>dm \<in> set (fi_dimensions inp). overShare inp dm)\<rparr>"
  using judgeLoop_penalized [OF assms, of False] by (auto simp: decideFairShare_def)

lemma kind_not_allow: "k \<noteq> Allow \<longleftrightarrow> k = Block"
  by (cases k) auto

text \<open>The first dimension that does not pass gives the reason.\<close>

lemma block_reason:
  assumes "fi_dimensions inp = pre @ dm # post" and "\<forall>d \<in> set pre. passes inp d" and "\<not> passes inp dm"
  shows "decideFairShare inp = blocked (if capReached inp dm then CapAbsolute
           else if fd_limit dm \<le> fd_consumedTotal dm then GlobalSaturated
           else if fi_saturationThreshold inp \<le> fd_globalUsedPercent dm then FairShare else GlobalSaturated)"
proof -
  have "judgeLoop (fi_allocation inp) (fi_consumedByThisKey inp) (fi_saturationThreshold inp)
      (normalizePolicy (fa_policy (fi_allocation inp))) (pre @ dm # post) b
    = blocked (if capReached inp dm then CapAbsolute
           else if fd_limit dm \<le> fd_consumedTotal dm then GlobalSaturated
           else if fi_saturationThreshold inp \<le> fd_globalUsedPercent dm then FairShare else GlobalSaturated)" for b
    using assms(2,3) by (induction pre arbitrary: b) (auto simp: judgeDimension_meaning)
  then show ?thesis using assms(1) by (simp add: decideFairShare_def)
qed

section \<open>Burn rate\<close>

record burn_result =
  tokensPerSecond :: rat
  timeToExhaustionMs :: "rat option"

definition EMA_ALPHA :: rat where "EMA_ALPHA = 3 / 10"

definition exhaustion :: "rat \<Rightarrow> rat option \<Rightarrow> rat option" where
  "exhaustion safeRate remaining =
     (case remaining of
        Some r \<Rightarrow> if 0 < safeRate \<and> 0 \<le> r then Some ((r / safeRate) * 1000) else None
      | None \<Rightarrow> None)"

definition computeBurnRateFromWindow :: "int \<Rightarrow> rat \<Rightarrow> int \<Rightarrow> rat option \<Rightarrow> burn_result" where
  "computeBurnRateFromWindow nowMs consumedTotal windowMs remaining =
     (if consumedTotal \<le> 0 \<or> windowMs \<le> 0 then \<lparr>tokensPerSecond = 0, timeToExhaustionMs = None\<rparr>
      else
        (let currentBucketIndex = nowMs div windowMs;
             windowStartMs = currentBucketIndex * windowMs;
             elapsedMs = max 1 (nowMs - windowStartMs);
             safeRate = consumedTotal / (of_int elapsedMs / 1000)
         in \<lparr>tokensPerSecond = safeRate, timeToExhaustionMs = exhaustion safeRate remaining\<rparr>))"

record burn_sample =
  bs_ts :: int
  bs_consumed :: rat

fun emaLoop :: "burn_sample \<Rightarrow> burn_sample list \<Rightarrow> rat \<Rightarrow> bool \<Rightarrow> rat \<times> bool" where
  "emaLoop prev [] emaRate initialized = (emaRate, initialized)"
| "emaLoop prev (cur # rest) emaRate initialized =
     (let deltaConsumed = bs_consumed cur - bs_consumed prev;
          deltaTs = bs_ts cur - bs_ts prev
      in if deltaTs \<le> 0 then emaLoop cur rest emaRate initialized
         else (let instantRate = deltaConsumed / (of_int deltaTs / 1000)
               in if \<not> initialized then emaLoop cur rest instantRate True
                  else emaLoop cur rest (EMA_ALPHA * instantRate + (1 - EMA_ALPHA) * emaRate) True))"

definition computeBurnRate :: "burn_sample list \<Rightarrow> rat option \<Rightarrow> burn_result" where
  "computeBurnRate history remaining =
     (case history of
        first # second # rest \<Rightarrow>
          (let (emaRate, initialized) = emaLoop first (second # rest) 0 False
           in if \<not> initialized then \<lparr>tokensPerSecond = 0, timeToExhaustionMs = None\<rparr>
              else (let safeRate = max 0 emaRate
                    in \<lparr>tokensPerSecond = safeRate, timeToExhaustionMs = exhaustion safeRate remaining\<rparr>))
      | _ \<Rightarrow> \<lparr>tokensPerSecond = 0, timeToExhaustionMs = None\<rparr>)"

text \<open>The samples bound every instantaneous rate by \<open>r\<close>.\<close>

fun ratesWithin :: "rat \<Rightarrow> rat \<Rightarrow> burn_sample list \<Rightarrow> bool" where
  "ratesWithin lo hi (a # b # rest) =
     ((bs_ts a < bs_ts b \<longrightarrow>
         lo \<le> (bs_consumed b - bs_consumed a) / (of_int (bs_ts b - bs_ts a) / 1000) \<and>
         (bs_consumed b - bs_consumed a) / (of_int (bs_ts b - bs_ts a) / 1000) \<le> hi)
      \<and> ratesWithin lo hi (b # rest))"
| "ratesWithin lo hi xs = True"

lemma ema_between:
  assumes "lo \<le> x" "x \<le> hi" "lo \<le> y" "y \<le> (hi::rat)"
  shows "lo \<le> EMA_ALPHA * x + (1 - EMA_ALPHA) * y \<and> EMA_ALPHA * x + (1 - EMA_ALPHA) * y \<le> hi"
  using assms by (simp add: EMA_ALPHA_def field_simps)

lemma emaLoop_within:
  "ratesWithin lo hi (prev # xs) \<Longrightarrow> (initialized \<longrightarrow> lo \<le> e \<and> e \<le> hi) \<Longrightarrow>
   snd (emaLoop prev xs e initialized) \<Longrightarrow>
   lo \<le> fst (emaLoop prev xs e initialized) \<and> fst (emaLoop prev xs e initialized) \<le> hi"
proof (induction prev xs e initialized rule: emaLoop.induct)
  case (1 prev e i)
  then show ?case by simp
next
  case (2 prev cur rest e i)
  let ?d = "bs_ts cur - bs_ts prev"
  let ?r = "(bs_consumed cur - bs_consumed prev) / (of_int ?d / 1000)"
  have rest: "ratesWithin lo hi (cur # rest)" using "2.prems"(1) by simp
  consider "?d \<le> 0" | "\<not> ?d \<le> 0" "\<not> i" | "\<not> ?d \<le> 0" "i" by blast
  then show ?case
  proof cases
    case 1
    with "2.IH"(1) [OF refl refl 1 rest] "2.prems" show ?thesis by (simp add: Let_def)
  next
    case c: 2
    have r: "lo \<le> ?r \<and> ?r \<le> hi" using "2.prems"(1) c by simp
    with "2.IH"(2) [OF refl refl c(1) refl c(2) rest] "2.prems" c show ?thesis by (simp add: Let_def)
  next
    case c: 3
    have r: "lo \<le> ?r \<and> ?r \<le> hi" using "2.prems"(1) c by simp
    then have "lo \<le> EMA_ALPHA * ?r + (1 - EMA_ALPHA) * e \<and> EMA_ALPHA * ?r + (1 - EMA_ALPHA) * e \<le> hi"
      using "2.prems"(2) c by (intro ema_between) auto
    with "2.IH"(3) [OF refl refl c(1) refl _ rest] "2.prems" c show ?thesis by (simp add: Let_def)
  qed
qed

lemma burn_rate_bounds:
  assumes "ratesWithin lo hi history" and "0 \<le> hi"
  shows "0 \<le> tokensPerSecond (computeBurnRate history remaining) \<and>
         tokensPerSecond (computeBurnRate history remaining) \<le> hi"
proof (cases "length history < 2")
  case True
  then show ?thesis using assms(2) by (cases history; cases "tl history") (auto simp: computeBurnRate_def)
next
  case False
  then obtain a b rest where h: "history = a # b # rest"
    by (cases history; cases "tl history") auto
  obtain e i where ei: "emaLoop a (b # rest) 0 False = (e, i)" by (rule prod.exhaust)
  have "i \<Longrightarrow> e \<le> hi" using emaLoop_within [of lo hi a "b # rest" False 0] assms(1)
    by (simp add: h ei del: emaLoop.simps ratesWithin.simps)
  then show ?thesis using assms(2) by (simp add: computeBurnRate_def h ei Let_def del: emaLoop.simps)
qed

text \<open>The projected exhaustion is the time in which the rate consumes what remains.\<close>

lemma exhaustion_meaning: "exhaustion rate remaining = Some ms \<Longrightarrow> \<exists>r. remaining = Some r \<and> rate * (ms / 1000) = r"
  by (auto simp: exhaustion_def split: option.splits if_splits)

section \<open>Properties\<close>

text \<open>
  \<open>moreUse inp inp'\<close>: the same plan, key and threshold at a later time of the window.
\<close>

definition grows :: "fair_dimension \<Rightarrow> fair_dimension \<Rightarrow> bool" where
  "grows d d' \<longleftrightarrow> fd_key d' = fd_key d \<and> fd_limit d' = fd_limit d
     \<and> fd_consumedTotal d \<le> fd_consumedTotal d' \<and> fd_globalUsedPercent d \<le> fd_globalUsedPercent d'"

definition moreUse :: "fair_input \<Rightarrow> fair_input \<Rightarrow> bool" where
  "moreUse inp inp' \<longleftrightarrow> list_all2 grows (fi_dimensions inp) (fi_dimensions inp')
     \<and> fi_allocation inp' = fi_allocation inp \<and> fi_saturationThreshold inp' = fi_saturationThreshold inp
     \<and> (\<forall>d \<in> set (fi_dimensions inp). consumedBy inp d \<le> consumedBy inp' d)"

lemma passes_antimono:
  assumes "grows d d'" and "fi_allocation inp' = fi_allocation inp"
    and "fi_saturationThreshold inp' = fi_saturationThreshold inp"
    and "consumedBy inp d \<le> consumedBy inp' d"
    and "0 \<le> fd_limit d" and "fa_weight (fi_allocation inp) \<le> 100" and "passes inp' d'"
  shows "passes inp d"
proof -
  have c: "consumedBy inp' d' = consumedBy inp' d" using assms(1) by (simp add: grows_def consumedBy_def)
  have f: "fairShareOf inp d = fairShareOf inp' d'" using assms(1,2) by (simp add: grows_def fairShareOf_def)
  have s: "fairShareOf inp d \<le> fd_limit d"
    using assms(5,6) mult_right_mono [of "fa_weight (fi_allocation inp) / 100" 1 "fd_limit d"]
    by (simp add: fairShareOf_def)
  show ?thesis
    using assms c f s unfolding passes_def capReached_def grows_def
    by (auto split: if_splits; force)
qed

text \<open>
  A fair-share block is stable, and a corrupted policy cannot open the gate. A key that is
  blocked stays blocked as long as the consumption of the key and of the pool and the
  saturation signal do not fall, for a weight of at most 100 and non-negative limits, whichever
  dimension or mode blocked it; and a policy outside soft and burst, known or not, is decided
  exactly like \<open>hard\<close>.
\<close>

theorem fair_share_monotone:
  assumes "moreUse inp inp'" and "\<forall>d \<in> set (fi_dimensions inp). 0 \<le> fd_limit d"
    and "fa_weight (fi_allocation inp) \<le> 100"
  shows "(fx_kind (decideFairShare inp) = Block \<longrightarrow> fx_kind (decideFairShare inp') = Block) \<and>
    (fa_policy (fi_allocation inp) \<notin> {Soft, Burst} \<longrightarrow>
       decideFairShare inp = decideFairShare (inp\<lparr>fi_allocation := (fi_allocation inp)\<lparr>fa_policy := Hard\<rparr>\<rparr>))"
proof (intro conjI impI)
  assume b: "fx_kind (decideFairShare inp) = Block"
  show "fx_kind (decideFairShare inp') = Block"
  proof (rule ccontr)
    assume "fx_kind (decideFairShare inp') \<noteq> Block"
    then have p: "\<forall>d' \<in> set (fi_dimensions inp'). passes inp' d'"
      using allow_iff [of inp'] by (cases "fx_kind (decideFairShare inp')") auto
    have "passes inp d" if d: "d \<in> set (fi_dimensions inp)" for d
    proof -
      obtain d' where d': "d' \<in> set (fi_dimensions inp')" "grows d d'"
        using assms(1) d unfolding moreUse_def by (metis list_all2_conv_all_nth in_set_conv_nth)
      show ?thesis
        by (rule passes_antimono [OF d'(2), where inp' = inp']) (use assms d p d' in \<open>auto simp: moreUse_def\<close>)
    qed
    then show False using allow_iff [of inp] b by simp
  qed
next
  assume "fa_policy (fi_allocation inp) \<notin> {Soft, Burst}"
  then have n: "normalizePolicy (fa_policy (fi_allocation inp)) = Hard" by (simp add: normalize_cases)
  have "judgeDimension (al\<lparr>fa_policy := q\<rparr>) = judgeDimension al" for al q
    unfolding judgeDimension_def
    by (simp cong: option.case_cong)
  then have "judgeLoop (al\<lparr>fa_policy := q\<rparr>) k t e ds b = judgeLoop al k t e ds b" for al q k t e ds b
    by (induction ds arbitrary: b) (simp_all split: sum.split)
  then show "decideFairShare inp = decideFairShare (inp\<lparr>fi_allocation := (fi_allocation inp)\<lparr>fa_policy := Hard\<rparr>\<rparr>)"
    by (simp add: decideFairShare_def n)
qed

definition exampleFair :: fair_input where
  "exampleFair = \<lparr>fi_dimensions = [\<lparr>fd_key = \<lparr>dk_poolId = ''p'', dk_unit = ''tokens'', dk_window = ''daily''\<rparr>,
       fd_limit = 1000, fd_consumedTotal = 700, fd_globalUsedPercent = 7 / 10\<rparr>],
     fi_allocation = \<lparr>fa_weight = 40, fa_capValue = None, fa_capUnit = None, fa_policy = OtherPolicy ''???''\<rparr>,
     fi_consumedByThisKey = [(''p:tokens:daily'', 450)], fi_saturationThreshold = 1 / 2\<rparr>"

definition exampleFairLater :: fair_input where
  "exampleFairLater = exampleFair\<lparr>fi_consumedByThisKey := [(''p:tokens:daily'', 460)],
     fi_dimensions := map (\<lambda>d. d\<lparr>fd_consumedTotal := 720, fd_globalUsedPercent := 72 / 100\<rparr>) (fi_dimensions exampleFair)\<rparr>"

lemma fair_share_monotone_witness:
  "fx_kind (decideFairShare exampleFair) = Block \<and> fx_kind (decideFairShare exampleFairLater) = Block \<and>
   decideFairShare exampleFair = decideFairShare (exampleFair\<lparr>fi_allocation := (fi_allocation exampleFair)\<lparr>fa_policy := Hard\<rparr>\<rparr>)"
proof -
  have m: "moreUse exampleFair exampleFairLater" "\<forall>d \<in> set (fi_dimensions exampleFair). 0 \<le> fd_limit d"
    "fa_weight (fi_allocation exampleFair) \<le> 100" "fa_policy (fi_allocation exampleFair) \<notin> {Soft, Burst}"
    by (simp_all add: moreUse_def grows_def consumedBy_def dimensionKeyString_def jget_def exampleFairLater_def exampleFair_def)
  moreover have "fx_kind (decideFairShare exampleFair) = Block" by code_simp
  ultimately show ?thesis using fair_share_monotone [OF m(1-3)] by blast
qed

text \<open>A weight above 100, which the schema excludes but the engine does not check, breaks it.\<close>

lemma heavy_weight_unblocks:
  "let heavy = (exampleFair\<lparr>fi_allocation := (fi_allocation exampleFair)\<lparr>fa_weight := 200\<rparr>,
                            fi_consumedByThisKey := [(''p:tokens:daily'', 1200)]\<rparr>);
       early = heavy\<lparr>fi_dimensions := map (\<lambda>d. d\<lparr>fd_globalUsedPercent := 1 / 10\<rparr>) (fi_dimensions heavy)\<rparr>
   in fx_kind (decideFairShare early) = Block \<and> fx_kind (decideFairShare heavy) = Allow"
  by code_simp

end
