(* ===== verification/TargetExhaustion.thy ===== *)
theory TargetExhaustion
  imports ComboPredicates ModelLockout
begin

text \<open>
  The exhaustion sets of one combo request: \<open>open-sse/services/combo/targetExhaustion.ts\<close>,
  the skip test \<open>getExhaustedTargetSkipReason\<close> (\<open>comboPredicates.ts\<close>) and
  \<open>isProviderExhaustedReason\<close> (\<open>accountFallback.ts\<close>).

  The field \<open>xo_quotaText\<close> is the test \<open>classifyErrorText(t) === QUOTA_EXHAUSTED\<close> of a text;
  the text classifier itself is not modelled. Log messages are left out.
\<close>

section \<open>Model\<close>

record combo_target =
  ct_provider :: "string option"
  ct_connectionId :: "string option"
  ct_modelStr :: string

record exhaustion_sets =
  exhaustedProviders :: "string set"
  exhaustedConnections :: "string set"
  transientRateLimitedProviders :: "string set"

record fallback_result =
  fb_reason :: "string option"
  fb_creditsExhausted :: bool
  fb_dailyQuotaExhausted :: bool

record exhaustion_options =
  xo_result :: http_result
  xo_fallbackResult :: fallback_result
  xo_errorText :: string
  xo_quotaText :: "string \<Rightarrow> bool"
  xo_isTokenLimitBreach :: bool
  xo_allAccountsRateLimited :: bool
  xo_structuredError :: "structured_error option"

definition truthy :: "string option \<Rightarrow> bool" where
  "truthy v \<longleftrightarrow> (case v of None \<Rightarrow> False | Some s \<Rightarrow> s \<noteq> [])"

text \<open>\<open>provider && provider !== "unknown"\<close>\<close>

definition knownProvider :: "string option \<Rightarrow> bool" where
  "knownProvider p \<longleftrightarrow> truthy p \<and> p \<noteq> Some ''unknown''"

definition connKey :: "string \<Rightarrow> string \<Rightarrow> string" where
  "connKey provider connId = provider @ '':'' @ connId"

definition CONNECTION_LEVEL_ERROR_STATUSES :: "int list" where
  "CONNECTION_LEVEL_ERROR_STATUSES = [408, 500, 502, 503, 504, 524]"

definition AUTH_LEVEL_ERROR_STATUSES :: "int list" where
  "AUTH_LEVEL_ERROR_STATUSES = [401, 403]"

definition isEmptyContentFailure :: "int \<Rightarrow> string \<Rightarrow> bool" where
  "isEmptyContentFailure status errorText \<longleftrightarrow>
     status = 502 \<and> (contains ''empty content'' (toLowerCase errorText)
                     \<or> contains ''empty response'' (toLowerCase errorText))"

definition isProviderExhaustedReason :: "fallback_result \<Rightarrow> bool" where
  "isProviderExhaustedReason result =
     (if fb_creditsExhausted result \<or> fb_dailyQuotaExhausted result then True
      else fb_reason result = Some ''quota_exhausted'')"

definition getExhaustedTargetSkipReason ::
  "combo_target \<Rightarrow> exhaustion_sets \<Rightarrow> string option" where
  "getExhaustedTargetSkipReason target sets =
     (let provider = nullish (ct_provider target) []; connId = nullish (ct_connectionId target) []
      in if truthy (ct_provider target) \<and> truthy (ct_connectionId target)
            \<and> connKey provider connId \<in> exhaustedConnections sets
         then Some ''connection error''
         else if truthy (ct_provider target) \<and> provider \<in> exhaustedProviders sets
         then Some ''provider exhausted''
         else None)"

definition addConnectionOrProvider :: "combo_target \<Rightarrow> exhaustion_sets \<Rightarrow> exhaustion_sets" where
  "addConnectionOrProvider target sets =
     (let provider = nullish (ct_provider target) []
      in if truthy (ct_connectionId target)
         then sets\<lparr>exhaustedConnections := insert (connKey provider (the (ct_connectionId target))) (exhaustedConnections sets)\<rparr>
         else sets\<lparr>exhaustedProviders := insert provider (exhaustedProviders sets)\<rparr>)"

definition markAuthLevelExhaustion :: "combo_target \<Rightarrow> exhaustion_sets \<Rightarrow> exhaustion_sets" where
  "markAuthLevelExhaustion target sets = addConnectionOrProvider target sets"

definition isProviderQuotaExhausted :: "registry \<Rightarrow> string option \<Rightarrow> exhaustion_options \<Rightarrow> bool" where
  "isProviderQuotaExhausted reg provider opts \<longleftrightarrow>
     knownProvider provider
     \<and> \<not> hasPerModelQuota reg provider None
     \<and> (isProviderExhaustedReason (xo_fallbackResult opts)
        \<or> xo_quotaText opts
            (orText (case xo_structuredError opts of Some e \<Rightarrow> se_code e | None \<Rightarrow> None) (xo_errorText opts))
        \<or> xo_allAccountsRateLimited opts)"

definition markProviderQuotaExhaustion :: "string \<Rightarrow> exhaustion_sets \<Rightarrow> exhaustion_sets" where
  "markProviderQuotaExhaustion provider sets =
     sets\<lparr>exhaustedProviders := insert provider (exhaustedProviders sets)\<rparr>"

definition markConnectionLevelExhaustion ::
  "registry \<Rightarrow> combo_target \<Rightarrow> exhaustion_options \<Rightarrow> exhaustion_sets \<Rightarrow> exhaustion_sets" where
  "markConnectionLevelExhaustion reg target opts sets =
     (let status = hr_status (xo_result opts); provider = ct_provider target
      in if \<not> knownProvider provider
            \<or> status \<notin> set CONNECTION_LEVEL_ERROR_STATUSES
            \<or> isProviderCircuitOpenResult (xo_result opts) (xo_errorText opts)
            \<or> isRequestScopedUpstreamFailure (xo_structuredError opts)
            \<or> isEmptyContentFailure status (xo_errorText opts)
            \<or> (status = 500 \<and> hasPerModelQuota reg provider None)
         then sets
         else addConnectionOrProvider target sets)"

definition markTransientOrConnectionLevel ::
  "registry \<Rightarrow> combo_target \<Rightarrow> exhaustion_options \<Rightarrow> exhaustion_sets \<Rightarrow> exhaustion_sets" where
  "markTransientOrConnectionLevel reg target opts sets =
     (let provider = ct_provider target;
          sets1 = (if hr_status (xo_result opts) = 429 \<and> \<not> xo_isTokenLimitBreach opts \<and> knownProvider provider
                   then sets\<lparr>transientRateLimitedProviders :=
                          insert (the provider) (transientRateLimitedProviders sets)\<rparr>
                   else sets)
      in markConnectionLevelExhaustion reg target opts sets1)"

definition applyComboTargetExhaustion ::
  "registry \<Rightarrow> combo_target \<Rightarrow> exhaustion_options \<Rightarrow> exhaustion_sets \<Rightarrow> bool \<times> exhaustion_sets" where
  "applyComboTargetExhaustion reg target opts sets =
     (let provider = ct_provider target
      in if hr_status (xo_result opts) \<in> set AUTH_LEVEL_ERROR_STATUSES \<and> knownProvider provider
         then (True, markAuthLevelExhaustion target sets)
         else
           (let providerExhausted = isProviderQuotaExhausted reg provider opts
            in (providerExhausted,
                if providerExhausted then markProviderQuotaExhaustion (the provider) sets
                else markTransientOrConnectionLevel reg target opts sets)))"

section \<open>What a failure marks\<close>

lemma connKey_inj:
  assumes "CHR '':'' \<notin> set p" and "CHR '':'' \<notin> set p'" and "connKey p c = connKey p' c'"
  shows "p = p' \<and> c = c'"
  using assms
proof (induction p arbitrary: p')
  case Nil
  then show ?case by (cases p') (auto simp: connKey_def)
next
  case (Cons x p)
  then show ?case by (cases p') (auto simp: connKey_def)
qed

lemma truthy_simps [simp]: "\<not> truthy None" "truthy (Some s) \<longleftrightarrow> s \<noteq> []"
  by (simp_all add: truthy_def)

lemma truthy_obtain: "truthy v \<Longrightarrow> \<exists>s. v = Some s \<and> s \<noteq> []"
  by (cases v) auto

text \<open>The three outcomes of a failure.\<close>

lemma apply_cases:
  obtains (none) "exhaustedProviders (snd (applyComboTargetExhaustion reg t opts S)) = exhaustedProviders S"
      "exhaustedConnections (snd (applyComboTargetExhaustion reg t opts S)) = exhaustedConnections S"
  | (quota) "isProviderQuotaExhausted reg (ct_provider t) opts"
      "snd (applyComboTargetExhaustion reg t opts S) = markProviderQuotaExhaustion (the (ct_provider t)) S"
  | (local) S' where "knownProvider (ct_provider t)"
      "exhaustedProviders S' = exhaustedProviders S" "exhaustedConnections S' = exhaustedConnections S"
      "snd (applyComboTargetExhaustion reg t opts S) = addConnectionOrProvider t S'"
proof -
  consider (a) "hr_status (xo_result opts) \<in> set AUTH_LEVEL_ERROR_STATUSES \<and> knownProvider (ct_provider t)"
    | (q) "\<not> (hr_status (xo_result opts) \<in> set AUTH_LEVEL_ERROR_STATUSES \<and> knownProvider (ct_provider t))"
        "isProviderQuotaExhausted reg (ct_provider t) opts"
    | (c) "\<not> (hr_status (xo_result opts) \<in> set AUTH_LEVEL_ERROR_STATUSES \<and> knownProvider (ct_provider t))"
        "\<not> isProviderQuotaExhausted reg (ct_provider t) opts" by blast
  then show ?thesis
  proof cases
    case a
    show ?thesis
    proof (rule local [of S])
      show "snd (applyComboTargetExhaustion reg t opts S) = addConnectionOrProvider t S"
        using a by (simp add: applyComboTargetExhaustion_def markAuthLevelExhaustion_def)
    qed (use a in simp_all)
  next
    case q
    then show ?thesis
      by (intro quota) (auto simp: applyComboTargetExhaustion_def Let_def)
  next
    case c
    define S' where "S' = (if hr_status (xo_result opts) = 429 \<and> \<not> xo_isTokenLimitBreach opts \<and> knownProvider (ct_provider t)
        then S\<lparr>transientRateLimitedProviders := insert (the (ct_provider t)) (transientRateLimitedProviders S)\<rparr> else S)"
    have S': "exhaustedProviders S' = exhaustedProviders S" "exhaustedConnections S' = exhaustedConnections S"
      by (simp_all add: S'_def)
    have e: "snd (applyComboTargetExhaustion reg t opts S) = markConnectionLevelExhaustion reg t opts S'"
      using c by (auto simp: applyComboTargetExhaustion_def markTransientOrConnectionLevel_def Let_def S'_def)
    show ?thesis
    proof (cases "markConnectionLevelExhaustion reg t opts S' = S'")
      case True
      then show ?thesis using e S' by (intro none) simp_all
    next
      case False
      then have "knownProvider (ct_provider t)" "markConnectionLevelExhaustion reg t opts S' = addConnectionOrProvider t S'"
        by (auto simp: markConnectionLevelExhaustion_def Let_def split: if_splits)
      then show ?thesis using e S' by (intro local [of S']) simp_all
    qed
  qed
qed

definition skipped :: "combo_target \<Rightarrow> exhaustion_sets \<Rightarrow> bool" where
  "skipped u S \<longleftrightarrow> getExhaustedTargetSkipReason u S \<noteq> None"

lemma skip_iff:
  "skipped u S \<longleftrightarrow> truthy (ct_provider u) \<and>
     (truthy (ct_connectionId u) \<and> connKey (the (ct_provider u)) (the (ct_connectionId u)) \<in> exhaustedConnections S
      \<or> the (ct_provider u) \<in> exhaustedProviders S)"
  by (cases "ct_provider u"; cases "ct_connectionId u") (simp_all add: skipped_def getExhaustedTargetSkipReason_def)

lemma local_skip:
  assumes "knownProvider (ct_provider t)" and "ct_provider u = ct_provider t"
    and "truthy (ct_connectionId t) \<longrightarrow> ct_connectionId u = ct_connectionId t"
  shows "skipped u (addConnectionOrProvider t S)"
proof -
  obtain p where "ct_provider t = Some p" "p \<noteq> []"
    using assms(1) truthy_obtain unfolding knownProvider_def by blast
  then show ?thesis
    using assms by (auto simp: skip_iff addConnectionOrProvider_def)
qed

section \<open>Properties\<close>

text \<open>
  A failure only condemns what it is about. If a target was not skipped before another
  target of the same request failed and is skipped after, it has the same provider; and unless
  the provider's quota is exhausted or the failing target has no connection, it has the same
  connection too. (Provider ids contain no colon, so that the keys of different pairs differ.)
\<close>

theorem exhaustion_scope:
  assumes "getExhaustedTargetSkipReason u sets = None"
    and "getExhaustedTargetSkipReason u (snd (applyComboTargetExhaustion reg t opts sets)) \<noteq> None"
    and "ct_provider t = Some p" and "CHR '':'' \<notin> set p"
    and "ct_provider u = Some q" and "CHR '':'' \<notin> set q"
  shows "q = p \<and> (isProviderQuotaExhausted reg (Some p) opts \<or> \<not> truthy (ct_connectionId t)
                   \<or> ct_connectionId u = ct_connectionId t)"
proof -
  have before: "\<not> skipped u sets" using assms(1) by (simp add: skipped_def)
  have after: "skipped u (snd (applyComboTargetExhaustion reg t opts sets))" using assms(2) by (simp add: skipped_def)
  show ?thesis
  proof (cases rule: apply_cases [of reg t opts sets])
    case none
    then show ?thesis using before after by (simp add: skip_iff)
  next
    case quota
    then show ?thesis
      using assms(3,5) before after by (auto simp: skip_iff markProviderQuotaExhaustion_def)
  next
    case (local S')
    show ?thesis
    proof (cases "truthy (ct_connectionId t)")
      case True
      then obtain c where c: "ct_connectionId t = Some c" by (cases "ct_connectionId t") auto
      have "truthy (ct_connectionId u) \<and> connKey q (the (ct_connectionId u)) = connKey p c"
        using assms(3,5) local True c before after
        by (auto simp: skip_iff addConnectionOrProvider_def)
      then show ?thesis
        using connKey_inj [OF assms(6,4)] c by (cases "ct_connectionId u") auto
    next
      case False
      then show ?thesis
        using assms(3,5) local before after
        by (auto simp: skip_iff addConnectionOrProvider_def)
    qed
  qed
qed

definition exampleTarget :: "string \<Rightarrow> combo_target" where
  "exampleTarget c = \<lparr>ct_provider = Some ''openai'', ct_connectionId = Some c, ct_modelStr = ''openai/gpt''\<rparr>"

definition exampleOptions :: "int \<Rightarrow> exhaustion_options" where
  "exampleOptions status = \<lparr>xo_result = \<lparr>hr_status = status, hr_headers = []\<rparr>,
     xo_fallbackResult = \<lparr>fb_reason = None, fb_creditsExhausted = False, fb_dailyQuotaExhausted = False\<rparr>,
     xo_errorText = ''bad gateway'', xo_quotaText = (\<lambda>_. False), xo_isTokenLimitBreach = False,
     xo_allAccountsRateLimited = False, xo_structuredError = None\<rparr>"

definition noExhaustion :: exhaustion_sets where
  "noExhaustion = \<lparr>exhaustedProviders = {}, exhaustedConnections = {}, transientRateLimitedProviders = {}\<rparr>"

definition bareRegistry :: registry where
  "bareRegistry = \<lparr>sections = [], passthrough = [], oauthProviders = []\<rparr>"

lemma exhaustion_scope_witness:
  "getExhaustedTargetSkipReason ((exampleTarget ''c1'')\<lparr>ct_modelStr := ''openai/o3''\<rparr>) noExhaustion = None \<and>
   getExhaustedTargetSkipReason ((exampleTarget ''c1'')\<lparr>ct_modelStr := ''openai/o3''\<rparr>)
     (snd (applyComboTargetExhaustion bareRegistry (exampleTarget ''c1'') (exampleOptions 502) noExhaustion)) \<noteq> None \<and>
   ct_connectionId ((exampleTarget ''c1'')\<lparr>ct_modelStr := ''openai/o3''\<rparr>) = ct_connectionId (exampleTarget ''c1'')"
proof -
  let ?u = "(exampleTarget ''c1'')\<lparr>ct_modelStr := ''openai/o3''\<rparr>"
  have a: "getExhaustedTargetSkipReason ?u noExhaustion = None" by code_simp
  have b: "getExhaustedTargetSkipReason ?u
      (snd (applyComboTargetExhaustion bareRegistry (exampleTarget ''c1'') (exampleOptions 502) noExhaustion)) \<noteq> None"
    by code_simp
  have "''openai'' = (''openai'' :: string) \<and>
      (isProviderQuotaExhausted bareRegistry (Some ''openai'') (exampleOptions 502)
       \<or> \<not> truthy (ct_connectionId (exampleTarget ''c1'')) \<or> ct_connectionId ?u = ct_connectionId (exampleTarget ''c1''))"
    by (rule exhaustion_scope [OF a b]) (simp_all add: exampleTarget_def)
  moreover have "\<not> isProviderQuotaExhausted bareRegistry (Some ''openai'') (exampleOptions 502)" by code_simp
  moreover have "truthy (ct_connectionId (exampleTarget ''c1''))" by code_simp
  ultimately show ?thesis using a b by blast
qed

text \<open>Evaluations of the response of an open circuit.\<close>

lemma breaker_response_lower:
  "toLowerCase ''Content-Type'' = ''content-type''"
  "toLowerCase ''Retry-After'' = ''retry-after''"
  "toLowerCase ''X-AI-Gate-Provider-Breaker'' = ''x-ai-gate-provider-breaker''"
  "toLowerCase ''x-omniroute-provider-breaker'' = ''x-omniroute-provider-breaker''"
  "toLowerCase ''provider_circuit_open'' = ''provider_circuit_open''"
  "toLowerCase ''server_error'' = ''server_error''"
  by code_simp+

lemma breaker_header_unread:
  "headerGet ''x-omniroute-provider-breaker'' (fst (providerCircuitOpenResponse p ra)) = None"
  by (simp add: headerGet_def providerCircuitOpenResponse_def breaker_response_lower)

lemma breaker_response_fields:
  "hr_status (fst (providerCircuitOpenResponse p ra)) = 503"
  "structuredErrorOf (snd (providerCircuitOpenResponse p ra))
     = Some \<lparr>se_code = Some ''provider_circuit_open'', se_type = Some ''server_error''\<rparr>"
  "comboErrorText (snd (providerCircuitOpenResponse p ra)) bm text = ''Provider '' @ p @ '' circuit breaker is open''"
  by (simp_all add: providerCircuitOpenResponse_def structuredErrorOf_def comboErrorText_def orText_def)

lemma breaker_not_request_scoped:
  "\<not> isRequestScopedUpstreamFailure (Some \<lparr>se_code = Some ''provider_circuit_open'', se_type = Some ''server_error''\<rparr>)"
  by code_simp

text \<open>
  The guard for open circuits never fires. The combo loop reads the gateway's own
  circuit-open response (its header, and the message of its body as the error text) as a
  connection failure: whatever else holds, every later target of the same connection, or of the
  whole provider when the target has no connection, is skipped for the rest of the request,
  although the guard of the code means to leave them eligible. The guard looks for the header
  under an old name and for the error code in the message text, which does not contain it.
\<close>

theorem circuit_open_guard_defeated:
  assumes "knownProvider (Some p)"
    and "\<not> contains ''provider_circuit_open'' (toLowerCase (''Provider '' @ p @ '' circuit breaker is open''))"
    and "xo_result opts = fst (providerCircuitOpenResponse p retryAfterSec)"
    and "xo_errorText opts = comboErrorText (snd (providerCircuitOpenResponse p retryAfterSec)) bodyMessage text"
    and "xo_structuredError opts = structuredErrorOf (snd (providerCircuitOpenResponse p retryAfterSec))"
    and "ct_provider t = Some p" and "ct_provider u = Some p"
    and "truthy (ct_connectionId t) \<longrightarrow> ct_connectionId u = ct_connectionId t"
  shows "getExhaustedTargetSkipReason u (snd (applyComboTargetExhaustion reg t opts sets)) \<noteq> None"
proof -
  note f = assms(3-5) [unfolded breaker_response_fields]
  have st: "hr_status (xo_result opts) = 503" unfolding assms(3) by (rule breaker_response_fields)
  have guard: "\<not> isProviderCircuitOpenResult (xo_result opts) (xo_errorText opts)"
    using assms(2) unfolding isProviderCircuitOpenResult_def assms(3) breaker_header_unread f(2) by simp
  have p: "p \<noteq> []" using assms(1) by (simp add: knownProvider_def)
  have "skipped u (snd (applyComboTargetExhaustion reg t opts sets))"
  proof (cases "isProviderQuotaExhausted reg (Some p) opts")
    case True
    then show ?thesis
      using st assms(6,7) p
      by (simp add: applyComboTargetExhaustion_def AUTH_LEVEL_ERROR_STATUSES_def markProviderQuotaExhaustion_def skip_iff)
  next
    case False
    then have "snd (applyComboTargetExhaustion reg t opts sets) = addConnectionOrProvider t sets"
      using st guard breaker_not_request_scoped assms(1,6) f(3)
      by (simp add: applyComboTargetExhaustion_def AUTH_LEVEL_ERROR_STATUSES_def markTransientOrConnectionLevel_def
          markConnectionLevelExhaustion_def CONNECTION_LEVEL_ERROR_STATUSES_def isEmptyContentFailure_def)
    moreover have "skipped u (addConnectionOrProvider t sets)"
      by (rule local_skip) (use assms in simp_all)
    ultimately show ?thesis by simp
  qed
  then show ?thesis by (simp add: skipped_def)
qed

definition exampleOpenOptions :: exhaustion_options where
  "exampleOpenOptions = (exampleOptions 503)\<lparr>xo_result := fst (providerCircuitOpenResponse ''openai'' ''30''),
     xo_errorText := comboErrorText (snd (providerCircuitOpenResponse ''openai'' ''30'')) None ''Service Unavailable'',
     xo_structuredError := structuredErrorOf (snd (providerCircuitOpenResponse ''openai'' ''30''))\<rparr>"

lemma circuit_open_guard_defeated_witness:
  "getExhaustedTargetSkipReason (exampleTarget ''c1'')
     (snd (applyComboTargetExhaustion bareRegistry (exampleTarget ''c1'') exampleOpenOptions noExhaustion)) \<noteq> None"
proof (rule circuit_open_guard_defeated)
  show "knownProvider (Some ''openai'')" by (simp add: knownProvider_def)
  show "\<not> contains ''provider_circuit_open'' (toLowerCase (''Provider '' @ ''openai'' @ '' circuit breaker is open''))"
    by code_simp
qed (simp_all add: exampleTarget_def exampleOpenOptions_def)

text \<open>With the header name that is sent, the guard would hold.\<close>

lemma breaker_header_sent:
  "headerGet ''x-ai-gate-provider-breaker'' (fst (providerCircuitOpenResponse p ra)) = Some ''open''"
proof -
  have "toLowerCase ''x-ai-gate-provider-breaker'' = ''x-ai-gate-provider-breaker''" by code_simp
  then show ?thesis by (simp add: headerGet_def providerCircuitOpenResponse_def breaker_response_lower)
qed

end
