(* ===== verification/CooldownWait.thy ===== *)
theory CooldownWait
  imports JsValues
begin

text \<open>
  Waiting out a short cooldown instead of failing: the combo path
  (\<open>open-sse/services/combo/comboCooldownRetry.ts\<close> and its loop in \<open>combo.ts\<close>) and the
  single-model path (\<open>src/sse/services/cooldownAwareRetry.ts\<close> and its loop in
  \<open>src/sse/handlers/chat.ts\<close>). Both are budgeted waits: the locale \<open>budgeted_wait\<close> states
  what a decision promises and bounds every run of the loop once for both.

  A wait that is not a finite number is \<open>None\<close>; a lock reason that is not a string is \<open>None\<close>.
  The wait itself (a timer against the abort signal) is the constructor of its outcome.
\<close>

section \<open>Interface: budgeted waits\<close>

text \<open>
  One round of a loop: \<open>decide i attempt budgetLeft\<close> is the wait of the round, or \<open>None\<close> when
  the loop ends; a wait counts an attempt and uses up budget.
\<close>

primrec waitLoop :: "('i \<Rightarrow> nat \<Rightarrow> int \<Rightarrow> int option) \<Rightarrow> 'i list \<Rightarrow> nat \<Rightarrow> int \<Rightarrow> int list" where
  "waitLoop decide [] attempt budgetLeft = []"
| "waitLoop decide (i # is) attempt budgetLeft =
     (case decide i attempt budgetLeft of
        None \<Rightarrow> []
      | Some w \<Rightarrow> w # waitLoop decide is (attempt + 1) (max 0 (budgetLeft - w)))"

locale budgeted_wait =
  fixes decide :: "'i \<Rightarrow> nat \<Rightarrow> int \<Rightarrow> int option"
    and maxAttempts :: nat and maxWait :: int
  assumes attempts: "decide i n b = Some w \<Longrightarrow> n < maxAttempts"
    and nonneg: "decide i n b = Some w \<Longrightarrow> 0 \<le> w"
    and ceiling: "decide i n b = Some w \<Longrightarrow> w \<le> maxWait"
    and within: "decide i n b = Some w \<Longrightarrow> w \<le> b"
begin

lemma loop_length: "n \<le> maxAttempts \<Longrightarrow> length (waitLoop decide is n b) \<le> maxAttempts - n"
proof (induction "is" arbitrary: n b)
  case (Cons i "is")
  show ?case
  proof (cases "decide i n b")
    case (Some w)
    then have "n < maxAttempts" by (rule attempts)
    then show ?thesis using Cons.IH [of "n + 1" "max 0 (b - w)"] Some by simp
  qed simp
qed simp

lemma loop_total: "0 \<le> b \<Longrightarrow> sum_list (waitLoop decide is n b) \<le> b"
proof (induction "is" arbitrary: n b)
  case (Cons i "is")
  show ?case
  proof (cases "decide i n b")
    case (Some w)
    have "w \<le> b" using Some by (rule within)
    then show ?thesis using Cons.IH [of "max 0 (b - w)" "n + 1"] Some by simp
  qed (simp add: Cons.prems)
qed simp

lemma loop_each: "w \<in> set (waitLoop decide is n b) \<Longrightarrow> 0 \<le> w \<and> w \<le> maxWait"
proof (induction "is" arbitrary: n b)
  case (Cons i "is")
  then show ?case using nonneg ceiling by (auto split: option.splits)
qed simp

end

section \<open>The combo path\<close>

definition COMBO_COOLDOWN_NON_RETRYABLE_REASONS :: "string list" where
  "COMBO_COOLDOWN_NON_RETRYABLE_REASONS =
     [''quota_exhausted'', ''auth_error'', ''not_found'', ''not_found_local'']"

definition COMBO_COOLDOWN_RETRYABLE_REASONS :: "string list" where
  "COMBO_COOLDOWN_RETRYABLE_REASONS =
     [''rate_limit'', ''rate_limited'', ''transient'', ''overloaded'', ''server_error'']"

record combo_wait_settings =
  cw_enabled :: bool
  cw_maxWaitMs :: int
  cw_maxAttempts :: nat
  cw_budgetMs :: int

record wait_result =
  wr_wait :: bool
  wr_waitMs :: int

definition toFiniteWaitMs :: "int option \<Rightarrow> int" where
  "toFiniteWaitMs value = (case value of Some v \<Rightarrow> if 0 < v then v else 0 | None \<Rightarrow> 0)"

definition isRetryableComboCooldownReason :: "string option \<Rightarrow> bool" where
  "isRetryableComboCooldownReason reason =
     (case reason of
        None \<Rightarrow> False
      | Some r \<Rightarrow> if r = [] then False
                  else if r \<in> set COMBO_COOLDOWN_NON_RETRYABLE_REASONS then False
                  else r \<in> set COMBO_COOLDOWN_RETRYABLE_REASONS)"

definition shouldWaitForComboCooldown ::
  "string option \<Rightarrow> int option \<Rightarrow> nat \<Rightarrow> int \<Rightarrow> combo_wait_settings \<Rightarrow> wait_result" where
  "shouldWaitForComboCooldown reason waitMs0 attempt budgetLeftMs settings =
     (let waitMs = toFiniteWaitMs waitMs0
      in \<lparr>wr_wait = (cw_enabled settings \<and> isRetryableComboCooldownReason reason \<and> 0 < waitMs
             \<and> waitMs \<le> cw_maxWaitMs settings \<and> attempt < cw_maxAttempts settings \<and> waitMs \<le> budgetLeftMs),
          wr_waitMs = waitMs\<rparr>)"

record cooldown_lock =
  cl_reason :: "string option"
  cl_remainingMs :: "int option"

record cooldown_target =
  cd_provider :: "string option"
  cd_connectionId :: "string option"
  cd_modelStr :: "string option"

type_synonym lock_lookup = "string \<Rightarrow> string \<Rightarrow> cooldown_target \<Rightarrow> cooldown_lock option"

definition COMBO_COOLDOWN_WAIT_MARGIN_MS :: int where "COMBO_COOLDOWN_WAIT_MARGIN_MS = 50"

text \<open>The body of the search loop, and the loop.\<close>

definition betterLock ::
  "lock_lookup \<Rightarrow> cooldown_target \<Rightarrow> (string option \<times> int) option \<Rightarrow> (string option \<times> int) option" where
  "betterLock lookupLock target best =
     (let provider = nullish (cd_provider target) []
      in if provider = [] then best
         else (case lookupLock provider (nullish (cd_connectionId target) []) target of
                 None \<Rightarrow> best
               | Some info \<Rightarrow>
                 (let remainingMs = nullish (cl_remainingMs info) 0
                  in if remainingMs \<le> 0 then best
                     else (case best of
                             None \<Rightarrow> Some (cl_reason info, remainingMs)
                           | Some b \<Rightarrow> if remainingMs < snd b then Some (cl_reason info, remainingMs) else best))))"

definition bestLock :: "lock_lookup \<Rightarrow> cooldown_target list \<Rightarrow> (string option \<times> int) option" where
  "bestLock lookupLock targets = fold (betterLock lookupLock) targets None"

record combo_wait_decision = wait_result +
  wd_reason :: "string option"

definition resolveComboCooldownWaitDecision ::
  "cooldown_target list \<Rightarrow> lock_lookup \<Rightarrow> int option \<Rightarrow> nat \<Rightarrow> int \<Rightarrow> combo_wait_settings \<Rightarrow> combo_wait_decision" where
  "resolveComboCooldownWaitDecision targets lookupLock rawHintWaitMs attempt budgetLeftMs settings =
     (if \<not> cw_enabled settings then \<lparr>wr_wait = False, wr_waitMs = 0, wd_reason = None\<rparr>
      else (case bestLock lookupLock targets of
              None \<Rightarrow> \<lparr>wr_wait = False, wr_waitMs = 0, wd_reason = None\<rparr>
            | Some (reason, remainingMs) \<Rightarrow>
              (let hintWaitMs = (case rawHintWaitMs of Some h \<Rightarrow> if 0 < h then h else 0 | None \<Rightarrow> 0);
                   waitMs = max remainingMs hintWaitMs + COMBO_COOLDOWN_WAIT_MARGIN_MS;
                   decision = shouldWaitForComboCooldown reason (Some waitMs) attempt budgetLeftMs settings
               in \<lparr>wr_wait = wr_wait decision, wr_waitMs = wr_waitMs decision, wd_reason = reason\<rparr>)))"

text \<open>
  One round of the combo loop at the point where a failure would crystallize: the targets, the
  locks at that time and the wait that \<open>earliestRetryAfter\<close> hints at (\<open>None\<close> for the outer
  option when there is no retry-after at all).
\<close>

type_synonym combo_round = "cooldown_target list \<times> lock_lookup \<times> int option option"

definition comboRound :: "combo_wait_settings \<Rightarrow> combo_round \<Rightarrow> nat \<Rightarrow> int \<Rightarrow> int option" where
  "comboRound settings rnd attempt budgetLeftMs =
     (case rnd of (targets, lookupLock, hint) \<Rightarrow>
        (case hint of
           None \<Rightarrow> None
         | Some h \<Rightarrow>
           (if \<not> cw_enabled settings then None
            else (let decision = resolveComboCooldownWaitDecision targets lookupLock h attempt budgetLeftMs settings
                  in if wr_wait decision then Some (wr_waitMs decision) else None))))"

definition comboWaits :: "combo_wait_settings \<Rightarrow> combo_round list \<Rightarrow> int list" where
  "comboWaits settings rounds = waitLoop (comboRound settings) rounds 0 (cw_budgetMs settings)"

section \<open>The single-model path\<close>

definition MAX_REQUEST_RETRY :: int where "MAX_REQUEST_RETRY = 10"
definition MAX_RETRY_INTERVAL_SEC :: int where "MAX_RETRY_INTERVAL_SEC = 300"
definition MAX_BUDGET_MS :: int where "MAX_BUDGET_MS = 5 * 60 * 1000"

record retry_settings =
  rs_enabled :: bool
  rs_maxRetries :: int
  rs_maxRetryWaitSec :: int
  rs_maxRetryWaitMs :: int
  rs_budgetMs :: int

text \<open>A value that is a finite number, or a non-blank string of one.\<close>

definition normalizeInteger :: "rat option \<Rightarrow> int \<Rightarrow> int \<Rightarrow> int \<Rightarrow> int" where
  "normalizeInteger value fallback lo hi =
     (case value of Some v \<Rightarrow> min hi (max lo (mathTrunc v)) | None \<Rightarrow> fallback)"

record wait_for_cooldown =
  wf_enabled :: bool
  wf_maxRetries :: int
  wf_maxRetryWaitSec :: int
  wf_budgetMs :: int

definition resolveCooldownAwareRetrySettings :: "wait_for_cooldown \<Rightarrow> retry_settings" where
  "resolveCooldownAwareRetrySettings w =
     (let maxRetries = normalizeInteger (Some (of_int (wf_maxRetries w))) (wf_maxRetries w) 0 MAX_REQUEST_RETRY;
          maxRetryWaitSec = normalizeInteger (Some (of_int (wf_maxRetryWaitSec w))) (wf_maxRetryWaitSec w) 0 MAX_RETRY_INTERVAL_SEC;
          maxRetryWaitMs = maxRetryWaitSec * 1000;
          budgetMs = normalizeInteger (Some (of_int (wf_budgetMs w))) (wf_budgetMs w) maxRetryWaitMs MAX_BUDGET_MS
      in \<lparr>rs_enabled = (wf_enabled w \<and> 0 < maxRetries \<and> 0 < maxRetryWaitSec),
          rs_maxRetries = maxRetries, rs_maxRetryWaitSec = maxRetryWaitSec,
          rs_maxRetryWaitMs = maxRetryWaitMs, rs_budgetMs = budgetMs\<rparr>)"

definition disableCooldownAwareRetry :: "retry_settings \<Rightarrow> bool \<Rightarrow> retry_settings" where
  "disableCooldownAwareRetry settings disabled =
     (if \<not> disabled then settings
      else \<lparr>rs_enabled = False, rs_maxRetries = 0, rs_maxRetryWaitSec = 0, rs_maxRetryWaitMs = 0, rs_budgetMs = 0\<rparr>)"

text \<open>The retry-after is the epoch value of \<open>new Date(retryAfter)\<close>, \<open>None\<close> when there is none.\<close>

definition computeClosestRetryAfter :: "millis \<Rightarrow> millis option \<Rightarrow> millis option \<times> int option" where
  "computeClosestRetryAfter now retryAfter =
     (case retryAfter of None \<Rightarrow> (None, None) | Some t \<Rightarrow> (Some t, Some (max (t - now) 0)))"

record retry_decision =
  rd_shouldRetry :: bool
  rd_retryAfter :: "millis option"
  rd_waitMs :: int

definition getCooldownAwareRetryDecision ::
  "millis \<Rightarrow> millis option \<Rightarrow> retry_settings \<Rightarrow> int \<Rightarrow> int option \<Rightarrow> retry_decision" where
  "getCooldownAwareRetryDecision now retryAfter settings attempt budgetLeftMs =
     (let closest = computeClosestRetryAfter now retryAfter;
          effectiveBudgetLeftMs = nullish budgetLeftMs (rs_budgetMs settings)
      in if \<not> rs_enabled settings \<or> rs_maxRetries settings \<le> 0 \<or> rs_maxRetryWaitMs settings \<le> 0
            \<or> rs_maxRetries settings \<le> attempt \<or> snd closest = None
         then \<lparr>rd_shouldRetry = False, rd_retryAfter = fst closest, rd_waitMs = 0\<rparr>
         else if rs_maxRetryWaitMs settings < the (snd closest) \<or> effectiveBudgetLeftMs < the (snd closest)
         then \<lparr>rd_shouldRetry = False, rd_retryAfter = fst closest, rd_waitMs = the (snd closest)\<rparr>
         else \<lparr>rd_shouldRetry = True, rd_retryAfter = fst closest, rd_waitMs = the (snd closest)\<rparr>)"

text \<open>
  What ends a wait: the timer, or the abort signal, whichever fires first (an instant after
  the start of the wait; \<open>None\<close> when it never fires).
\<close>

definition waitForCooldownAwareRetry :: "bool \<Rightarrow> int \<Rightarrow> int option \<Rightarrow> bool" where
  "waitForCooldownAwareRetry aborted waitMs abortAfter =
     (if aborted then False
      else if waitMs \<le> 0 then True
      else (case abortAfter of Some a \<Rightarrow> \<not> a < waitMs | None \<Rightarrow> True))"

type_synonym chat_round = "millis \<times> millis option"

definition chatRound :: "retry_settings \<Rightarrow> chat_round \<Rightarrow> nat \<Rightarrow> int \<Rightarrow> int option" where
  "chatRound settings rnd attempt budgetLeftMs =
     (let decision = getCooldownAwareRetryDecision (fst rnd) (snd rnd) settings (int attempt) (Some budgetLeftMs)
      in if rd_shouldRetry decision then Some (rd_waitMs decision) else None)"

definition chatWaits :: "retry_settings \<Rightarrow> chat_round list \<Rightarrow> int list" where
  "chatWaits settings rounds = waitLoop (chatRound settings) rounds 0 (rs_budgetMs settings)"

section \<open>The decisions are budgeted waits\<close>

lemma shouldWait_True:
  "wr_wait (shouldWaitForComboCooldown reason (Some v) n b settings) \<Longrightarrow>
   wr_waitMs (shouldWaitForComboCooldown reason (Some v) n b settings) = v
   \<and> isRetryableComboCooldownReason reason \<and> 0 < v \<and> v \<le> cw_maxWaitMs settings
   \<and> n < cw_maxAttempts settings \<and> v \<le> b"
  by (cases "0 < v") (simp_all add: shouldWaitForComboCooldown_def toFiniteWaitMs_def)

lemma comboRound_Some:
  "comboRound settings rnd n b = Some w \<Longrightarrow>
   (\<exists>targets lookupLock h reason r. rnd = (targets, lookupLock, Some h) \<and> bestLock lookupLock targets = Some (reason, r)
     \<and> w = max r (case h of Some v \<Rightarrow> if 0 < v then v else 0 | None \<Rightarrow> 0) + COMBO_COOLDOWN_WAIT_MARGIN_MS
     \<and> isRetryableComboCooldownReason reason \<and> 0 < w \<and> w \<le> cw_maxWaitMs settings
     \<and> n < cw_maxAttempts settings \<and> w \<le> b)"
proof -
  assume a: "comboRound settings rnd n b = Some w"
  obtain targets lookupLock hint where rnd: "rnd = (targets, lookupLock, hint)" by (cases rnd) auto
  obtain h where h: "hint = Some h" and en: "cw_enabled settings"
    using a by (auto simp: comboRound_def rnd split: option.splits if_splits)
  let ?d = "resolveComboCooldownWaitDecision targets lookupLock h n b settings"
  have d: "wr_wait ?d" "w = wr_waitMs ?d"
    using a en by (auto simp: comboRound_def rnd h Let_def split: if_splits)
  obtain reason r where best: "bestLock lookupLock targets = Some (reason, r)"
    using d(1) en by (cases "bestLock lookupLock targets") (auto simp: resolveComboCooldownWaitDecision_def)
  let ?w = "max r (case h of Some v \<Rightarrow> if 0 < v then v else 0 | None \<Rightarrow> 0) + COMBO_COOLDOWN_WAIT_MARGIN_MS"
  have e: "?d = \<lparr>wr_wait = wr_wait (shouldWaitForComboCooldown reason (Some ?w) n b settings),
                wr_waitMs = wr_waitMs (shouldWaitForComboCooldown reason (Some ?w) n b settings), wd_reason = reason\<rparr>"
    using en by (simp add: resolveComboCooldownWaitDecision_def best Let_def)
  have s: "wr_wait (shouldWaitForComboCooldown reason (Some ?w) n b settings)"
    "w = wr_waitMs (shouldWaitForComboCooldown reason (Some ?w) n b settings)"
    using d unfolding e by simp_all
  from shouldWait_True [OF s(1)] have "w = ?w" "isRetryableComboCooldownReason reason" "0 < ?w"
    "?w \<le> cw_maxWaitMs settings" "n < cw_maxAttempts settings" "?w \<le> b"
    unfolding s(2) by blast+
  then show ?thesis
    unfolding \<open>w = ?w\<close> rnd h
    by (intro exI [of _ targets] exI [of _ lookupLock] exI [of _ h] exI [of _ reason] exI [of _ r] conjI refl best)
qed

interpretation combo: budgeted_wait "comboRound settings" "cw_maxAttempts settings" "cw_maxWaitMs settings"
  for settings
  by unfold_locales (auto dest!: comboRound_Some)

lemma chatRound_Some:
  "chatRound settings rnd n b = Some w \<Longrightarrow>
   int n < rs_maxRetries settings \<and> 0 \<le> w \<and> w \<le> rs_maxRetryWaitMs settings \<and> w \<le> b
   \<and> (\<exists>t. snd rnd = Some t \<and> w = max (t - fst rnd) 0)"
  by (auto simp: chatRound_def getCooldownAwareRetryDecision_def computeClosestRetryAfter_def Let_def
      split: if_splits option.splits)

interpretation chat: budgeted_wait "chatRound settings" "nat (rs_maxRetries settings)" "rs_maxRetryWaitMs settings"
  for settings
  by unfold_locales (auto dest!: chatRound_Some)

section \<open>The best lock\<close>

text \<open>The remaining time of the lock of a target, if it has one that has not expired.\<close>

definition activeLock :: "lock_lookup \<Rightarrow> cooldown_target \<Rightarrow> (string option \<times> int) option" where
  "activeLock lookupLock target =
     (let provider = nullish (cd_provider target) []
      in if provider = [] then None
         else (case lookupLock provider (nullish (cd_connectionId target) []) target of
                 None \<Rightarrow> None
               | Some info \<Rightarrow> if nullish (cl_remainingMs info) 0 \<le> 0 then None
                              else Some (cl_reason info, nullish (cl_remainingMs info) 0)))"

lemma betterLock_active:
  "betterLock lookupLock target best =
     (case activeLock lookupLock target of
        None \<Rightarrow> best
      | Some l \<Rightarrow> (case best of None \<Rightarrow> Some l | Some b \<Rightarrow> if snd l < snd b then Some l else best))"
  by (simp add: betterLock_def activeLock_def Let_def split: option.split)

lemma bestLock_fold:
  "fold (betterLock lookupLock) targets best = Some l \<Longrightarrow>
   (best = Some l \<or> (\<exists>t \<in> set targets. activeLock lookupLock t = Some l))
   \<and> (\<forall>b. best = Some b \<longrightarrow> snd l \<le> snd b)
   \<and> (\<forall>t \<in> set targets. \<forall>k. activeLock lookupLock t = Some k \<longrightarrow> snd l \<le> snd k)"
proof (induction targets arbitrary: best)
  case (Cons t targets)
  let ?b = "betterLock lookupLock t best"
  have ih: "?b = Some l \<or> (\<exists>t \<in> set targets. activeLock lookupLock t = Some l)"
    "\<And>b. ?b = Some b \<Longrightarrow> snd l \<le> snd b"
    "\<And>u k. u \<in> set targets \<Longrightarrow> activeLock lookupLock u = Some k \<Longrightarrow> snd l \<le> snd k"
    using Cons.IH [of ?b] Cons.prems by (simp_all del: split_paired_All split_paired_Ex)
  have step: "\<And>b. best = Some b \<Longrightarrow> \<exists>c. ?b = Some c \<and> snd c \<le> snd b"
    "\<And>k. activeLock lookupLock t = Some k \<Longrightarrow> \<exists>c. ?b = Some c \<and> snd c \<le> snd k"
    "\<And>c. ?b = Some c \<Longrightarrow> best = Some c \<or> activeLock lookupLock t = Some c"
    by (auto simp: betterLock_active split: option.splits if_splits)
  have "best = Some l \<or> (\<exists>t \<in> set (t # targets). activeLock lookupLock t = Some l)"
    using ih(1) step(3) [of l] by auto
  moreover have "snd l \<le> snd b" if "best = Some b" for b
    using step(1) [OF that] ih(2) order_trans by blast
  moreover have "snd l \<le> snd k" if "u \<in> set (t # targets)" "activeLock lookupLock u = Some k" for u k
  proof (cases "u = t")
    case True
    then show ?thesis using step(2) [of k] that(2) ih(2) order_trans by blast
  next
    case False
    then show ?thesis using ih(3) [of u k] that by simp
  qed
  ultimately show ?case by blast
qed simp

lemma bestLock_min:
  assumes "bestLock lookupLock targets = Some l"
  shows "(\<exists>t \<in> set targets. activeLock lookupLock t = Some l)
    \<and> (\<forall>t \<in> set targets. \<forall>k. activeLock lookupLock t = Some k \<longrightarrow> snd l \<le> snd k)"
  using bestLock_fold [of lookupLock targets None l] assms by (simp add: bestLock_def)

text \<open>
  The wait of a round clears the lock that recovers first, and that lock is a transient one.
\<close>

definition clearsLock :: "combo_round \<Rightarrow> int \<Rightarrow> bool" where
  "clearsLock rnd w =
     (case rnd of (targets, lookupLock, hint) \<Rightarrow>
        (\<exists>t \<in> set targets. \<exists>reason r. activeLock lookupLock t = Some (Some reason, r)
           \<and> reason \<in> set COMBO_COOLDOWN_RETRYABLE_REASONS \<and> r + COMBO_COOLDOWN_WAIT_MARGIN_MS \<le> w
           \<and> (\<forall>u \<in> set targets. \<forall>k. activeLock lookupLock u = Some k \<longrightarrow> r \<le> snd k)))"

lemma round_clears: "comboRound settings rnd n b = Some w \<Longrightarrow> clearsLock rnd w"
proof -
  assume "comboRound settings rnd n b = Some w"
  then obtain targets lookupLock h reason r where rnd: "rnd = (targets, lookupLock, Some h)"
    and best: "bestLock lookupLock targets = Some (reason, r)"
    and w: "w = max r (case h of Some v \<Rightarrow> if 0 < v then v else 0 | None \<Rightarrow> 0) + COMBO_COOLDOWN_WAIT_MARGIN_MS"
    and ret: "isRetryableComboCooldownReason reason"
    by (blast dest: comboRound_Some)
  obtain s where s: "reason = Some s" "s \<in> set COMBO_COOLDOWN_RETRYABLE_REASONS"
    using ret by (auto simp: isRetryableComboCooldownReason_def split: option.splits if_splits)
  have "r + COMBO_COOLDOWN_WAIT_MARGIN_MS \<le> w" unfolding w by simp
  with bestLock_min [OF best] s show ?thesis by (auto simp: clearsLock_def rnd)
qed

lemma waitLoop_rounds:
  assumes "\<And>i n b w. decide i n b = Some w \<Longrightarrow> P i w"
  shows "list_all2 P (take (length (waitLoop decide rs n b)) rs) (waitLoop decide rs n b)"
  by (induction rs arbitrary: n b) (auto split: option.split intro: assms)

section \<open>Properties\<close>

text \<open>
  C29. Waiting is bounded and worth it. Over any sequence of rounds of one combo request the
  number of waits is at most \<open>maxAttempts\<close>, none is longer than \<open>maxWaitMs\<close> and all together
  stay within the budget; and every wait outlasts, by the margin, the active lock that recovers
  first among the targets of its round, whose reason is a transient one (so never an exhausted
  quota, an auth error or a missing model).
\<close>

theorem combo_waits_bounded:
  assumes "0 \<le> cw_budgetMs settings" and "ws = comboWaits settings rounds"
  shows "length ws \<le> cw_maxAttempts settings \<and> sum_list ws \<le> cw_budgetMs settings
    \<and> (\<forall>w \<in> set ws. w \<le> cw_maxWaitMs settings)
    \<and> list_all2 clearsLock (take (length ws) rounds) ws
    \<and> set COMBO_COOLDOWN_RETRYABLE_REASONS \<inter> set COMBO_COOLDOWN_NON_RETRYABLE_REASONS = {}"
  unfolding assms(2) comboWaits_def
  using combo.loop_length [of 0 settings rounds "cw_budgetMs settings"]
    combo.loop_total [OF assms(1), of settings rounds 0]
    combo.loop_each [of _ settings rounds 0 "cw_budgetMs settings"]
    waitLoop_rounds [of "comboRound settings" clearsLock, OF round_clears]
  by (simp add: COMBO_COOLDOWN_RETRYABLE_REASONS_def COMBO_COOLDOWN_NON_RETRYABLE_REASONS_def)

definition exampleWaitSettings :: combo_wait_settings where
  "exampleWaitSettings = \<lparr>cw_enabled = True, cw_maxWaitMs = 5000, cw_maxAttempts = 2, cw_budgetMs = 8000\<rparr>"

definition exampleRounds :: "combo_round list" where
  "exampleRounds = replicate 3
     ([\<lparr>cd_provider = Some ''p'', cd_connectionId = Some ''c'', cd_modelStr = Some ''m''\<rparr>],
      \<lambda>_ _ _. Some \<lparr>cl_reason = Some ''rate_limit'', cl_remainingMs = Some 2000\<rparr>, Some (Some 3000))"

lemma combo_waits_bounded_witness:
  "comboWaits exampleWaitSettings exampleRounds = [3050, 3050]
   \<and> length [3050, 3050 :: int] \<le> cw_maxAttempts exampleWaitSettings
   \<and> sum_list [3050, 3050 :: int] \<le> cw_budgetMs exampleWaitSettings"
proof -
  have e: "[3050, 3050] = comboWaits exampleWaitSettings exampleRounds" by code_simp
  have "0 \<le> cw_budgetMs exampleWaitSettings" by (simp add: exampleWaitSettings_def)
  from combo_waits_bounded [OF this e] e show ?thesis by simp
qed

text \<open>The single-model loop keeps the same bounds.\<close>

lemma chat_waits_bounded:
  assumes "0 \<le> rs_budgetMs settings" and "ws = chatWaits settings rounds"
  shows "length ws \<le> nat (rs_maxRetries settings) \<and> sum_list ws \<le> rs_budgetMs settings
    \<and> (\<forall>w \<in> set ws. 0 \<le> w \<and> w \<le> rs_maxRetryWaitMs settings)"
  unfolding assms(2) chatWaits_def
  using chat.loop_length [of 0 settings rounds "rs_budgetMs settings"]
    chat.loop_total [OF assms(1), of settings rounds 0]
    chat.loop_each [of _ settings rounds 0 "rs_budgetMs settings"]
  by simp

text \<open>The resolved settings are in range, and a full wait fits into the budget.\<close>

lemma normalizeInteger_range: "lo \<le> hi \<Longrightarrow> lo \<le> fallback \<and> fallback \<le> hi \<Longrightarrow>
  lo \<le> normalizeInteger v fallback lo hi \<and> normalizeInteger v fallback lo hi \<le> hi"
  by (simp add: normalizeInteger_def split: option.split)

lemma resolved_settings_range:
  "0 \<le> rs_maxRetries (resolveCooldownAwareRetrySettings w) \<and> rs_maxRetries (resolveCooldownAwareRetrySettings w) \<le> 10
   \<and> rs_maxRetryWaitMs (resolveCooldownAwareRetrySettings w) \<le> rs_budgetMs (resolveCooldownAwareRetrySettings w)
   \<and> rs_budgetMs (resolveCooldownAwareRetrySettings w) \<le> 300000"
  by (simp add: resolveCooldownAwareRetrySettings_def normalizeInteger_def Let_def MAX_REQUEST_RETRY_def
      MAX_RETRY_INTERVAL_SEC_def MAX_BUDGET_MS_def min_def max_def)

end
