(* ===== verification/Degradation.thy ===== *)
theory Degradation
  imports Prelude
begin

text \<open>
  Graceful degradation, \<open>src/domain/degradation.ts\<close>: primary, fallback, safe default, and the
  registry of the levels. The outcomes of the two functions and of the listener \<open>onDegrade\<close>
  are inputs; \<open>since\<close> is in milliseconds instead of an ISO string. A thrown value is kept with
  both texts the code takes from it: its message and its \<open>String(e)\<close>. Texts are UTF-8 bytes.
\<close>

section \<open>Levels\<close>

datatype degradation_level = DefaultLevel | MinimalLevel | ReducedLevel | FullLevel

fun levelRank :: "degradation_level \<Rightarrow> nat" where
  "levelRank DefaultLevel = 0"
| "levelRank MinimalLevel = 1"
| "levelRank ReducedLevel = 2"
| "levelRank FullLevel = 3"

lemma levelRank_inj: "levelRank a = levelRank b \<Longrightarrow> a = b"
  by (cases a; cases b) simp_all

text \<open>The order of the report: the worst level is the least.\<close>

instantiation degradation_level :: linorder
begin

definition less_eq_degradation_level :: "degradation_level \<Rightarrow> degradation_level \<Rightarrow> bool" where
  "less_eq_degradation_level a b \<longleftrightarrow> levelRank a \<le> levelRank b"

definition less_degradation_level :: "degradation_level \<Rightarrow> degradation_level \<Rightarrow> bool" where
  "less_degradation_level a b \<longleftrightarrow> levelRank a < levelRank b"

instance
  by standard (auto simp: less_eq_degradation_level_def less_degradation_level_def intro: levelRank_inj)

end

lemma le_Full: "l \<le> FullLevel"
  by (cases l) (simp_all add: less_eq_degradation_level_def)

section \<open>Model\<close>

record degradation_status =
  dg_level :: degradation_level
  dg_feature :: string
  dg_capability :: string
  dg_reason :: string
  dg_since :: millis

type_synonym degradation_registry = "(string, degradation_status) jmap"

record thrown =
  th_message :: string
  th_string :: string

record degradation_texts =
  tx_full :: string
  tx_reduced :: string
  tx_default :: string
  tx_joined :: "thrown \<Rightarrow> thrown \<Rightarrow> string"

definition arrow :: string where
  "arrow = [CHR '' '', CHR 0xE2, CHR 0x86, CHR 0x92, CHR '' '']"

text \<open>The default texts of the asynchronous and of the synchronous function.\<close>

definition asyncTexts :: degradation_texts where
  "asyncTexts = \<lparr>tx_full = ''Full capability'', tx_reduced = ''Reduced capability (fallback active)'',
     tx_default = ''Safe default (all backends unavailable)'',
     tx_joined = (\<lambda>p f. th_message p @ arrow @ th_message f)\<rparr>"

definition syncTexts :: degradation_texts where
  "syncTexts = \<lparr>tx_full = ''Full capability'', tx_reduced = ''Reduced capability'',
     tx_default = ''Safe default'', tx_joined = (\<lambda>p f. th_string p @ arrow @ th_string f)\<rparr>"

record degradation_options =
  op_fullCapability :: "string option"
  op_reducedCapability :: "string option"
  op_defaultCapability :: "string option"
  op_onDegrade :: "degradation_status \<Rightarrow> thrown option"

definition updateRegistry ::
  "string \<Rightarrow> degradation_status \<Rightarrow> degradation_registry \<Rightarrow> degradation_status \<times> degradation_registry" where
  "updateRegistry feature status registry =
     (let status' = (case jget feature registry of
                       Some existing \<Rightarrow> if dg_level existing = dg_level status
                                        then status\<lparr>dg_since := dg_since existing\<rparr> else status
                     | None \<Rightarrow> status)
      in (status', jset feature status' registry))"

text \<open>The branch in which both backends failed; a listener that throws rejects the call.\<close>

definition degradeToDefault ::
  "degradation_texts \<Rightarrow> millis \<Rightarrow> string \<Rightarrow> thrown \<Rightarrow> thrown \<Rightarrow> 'a \<Rightarrow> degradation_options
   \<Rightarrow> degradation_registry \<Rightarrow> (thrown + 'a \<times> degradation_status) \<times> degradation_registry" where
  "degradeToDefault tx now feature primaryError fallbackError safeDefault options registry =
     (let status = \<lparr>dg_level = DefaultLevel, dg_feature = feature,
                    dg_capability = nullish (op_defaultCapability options) (tx_default tx),
                    dg_reason = tx_joined tx primaryError fallbackError, dg_since = now\<rparr>;
          (status', registry') = updateRegistry feature status registry
      in (case op_onDegrade options status' of
            Some e \<Rightarrow> Inl e
          | None \<Rightarrow> Inr (safeDefault, status'), registry'))"

text \<open>
  The listener of the reduced level is called inside the inner \<open>try\<close>, so what it throws is
  taken for a failure of the fallback.
\<close>

definition withDegradationTexts ::
  "degradation_texts \<Rightarrow> millis \<Rightarrow> string \<Rightarrow> thrown + 'a \<Rightarrow> thrown + 'a \<Rightarrow> 'a \<Rightarrow> degradation_options
   \<Rightarrow> degradation_registry \<Rightarrow> (thrown + 'a \<times> degradation_status) \<times> degradation_registry" where
  "withDegradationTexts tx now feature primary fallback safeDefault options registry =
     (case primary of
        Inr result \<Rightarrow>
        (let (status, registry') = updateRegistry feature
               \<lparr>dg_level = FullLevel, dg_feature = feature,
                dg_capability = nullish (op_fullCapability options) (tx_full tx),
                dg_reason = [], dg_since = now\<rparr> registry
         in (Inr (result, status), registry'))
      | Inl primaryError \<Rightarrow>
        (case fallback of
           Inr result \<Rightarrow>
           (let (status, registry') = updateRegistry feature
                  \<lparr>dg_level = ReducedLevel, dg_feature = feature,
                   dg_capability = nullish (op_reducedCapability options) (tx_reduced tx),
                   dg_reason = th_message primaryError, dg_since = now\<rparr> registry
            in (case op_onDegrade options status of
                  None \<Rightarrow> (Inr (result, status), registry')
                | Some e \<Rightarrow> degradeToDefault tx now feature primaryError e safeDefault options registry'))
         | Inl fallbackError \<Rightarrow>
           degradeToDefault tx now feature primaryError fallbackError safeDefault options registry))"

definition withDegradation ::
  "millis \<Rightarrow> string \<Rightarrow> thrown + 'a \<Rightarrow> thrown + 'a \<Rightarrow> 'a \<Rightarrow> degradation_options
   \<Rightarrow> degradation_registry \<Rightarrow> (thrown + 'a \<times> degradation_status) \<times> degradation_registry" where
  "withDegradation = withDegradationTexts asyncTexts"

definition withDegradationSync ::
  "millis \<Rightarrow> string \<Rightarrow> thrown + 'a \<Rightarrow> thrown + 'a \<Rightarrow> 'a \<Rightarrow> degradation_options
   \<Rightarrow> degradation_registry \<Rightarrow> (thrown + 'a \<times> degradation_status) \<times> degradation_registry" where
  "withDegradationSync = withDegradationTexts syncTexts"

definition getDegradationReport :: "degradation_registry \<Rightarrow> degradation_status list" where
  "getDegradationReport registry = sort_key dg_level (map snd registry)"

definition getFeatureStatus :: "string \<Rightarrow> degradation_registry \<Rightarrow> degradation_status option" where
  "getFeatureStatus feature registry = jget feature registry"

definition hasAnyDegradation :: "degradation_registry \<Rightarrow> bool" where
  "hasAnyDegradation registry = list_ex (\<lambda>p. dg_level (snd p) \<noteq> FullLevel) registry"

definition getDegradationSummary :: "degradation_registry \<Rightarrow> degradation_level \<Rightarrow> nat" where
  "getDegradationSummary registry level = length (filter (\<lambda>p. dg_level (snd p) = level) registry)"

definition resetDegradationRegistry :: "degradation_registry \<Rightarrow> degradation_registry" where
  "resetDegradationRegistry registry = []"

section \<open>Properties\<close>

lemmas degradation_defs = withDegradationTexts_def degradeToDefault_def updateRegistry_def Let_def

text \<open>With a listener that does not throw, the answer is the best available one.\<close>

lemma degraded_answer:
  assumes "\<forall>st. op_onDegrade options st = None"
  shows "\<exists>st registry'. withDegradationTexts tx now f primary fallback d options r
      = (Inr (case primary of Inr x \<Rightarrow> x | Inl _ \<Rightarrow> (case fallback of Inr y \<Rightarrow> y | Inl _ \<Rightarrow> d), st), registry')
    \<and> dg_level st = (case primary of Inr _ \<Rightarrow> FullLevel
                     | Inl _ \<Rightarrow> (case fallback of Inr _ \<Rightarrow> ReducedLevel | Inl _ \<Rightarrow> DefaultLevel))
    \<and> getFeatureStatus f registry' = Some st"
  using assms by (auto simp: degradation_defs getFeatureStatus_def split: sum.split option.split)

text \<open>\<open>since\<close> is the start of the current level: it moves exactly when the level changes.\<close>

lemma updateRegistry_since:
  "dg_since (fst (updateRegistry f st r)) =
     (case jget f r of Some old \<Rightarrow> if dg_level old = dg_level st then dg_since old else dg_since st
      | None \<Rightarrow> dg_since st)"
  by (simp add: updateRegistry_def Let_def split: option.split)

text \<open>The report is sorted from the worst level, with nothing lost.\<close>

lemma degradation_report:
  "sorted (map dg_level (getDegradationReport r)) \<and> mset (getDegradationReport r) = mset (map snd r)"
  by (simp add: getDegradationReport_def)

lemma hasAny_head:
  assumes "r \<noteq> []"
  shows "hasAnyDegradation r \<longleftrightarrow> dg_level (hd (getDegradationReport r)) \<noteq> FullLevel"
proof -
  obtain x xs where rep: "getDegradationReport r = x # xs"
    using assms degradation_report [of r] by (cases "getDegradationReport r") auto
  have "set (x # xs) = snd ` set r"
    using degradation_report [of r] rep by (metis mset_eq_setD list.set_map)
  moreover have "\<forall>y \<in> set (x # xs). dg_level x \<le> dg_level y"
    using degradation_report [of r] rep by auto
  moreover have "hasAnyDegradation r \<longleftrightarrow> (\<exists>y \<in> set (x # xs). dg_level y \<noteq> FullLevel)"
    using calculation(1) by (simp add: hasAnyDegradation_def list_ex_iff)
  moreover have "dg_level y = FullLevel" if "dg_level x = FullLevel" "y \<in> set (x # xs)" for y
    using that calculation(2) le_Full [of "dg_level y"] by (metis order.antisym)
  ultimately show ?thesis unfolding rep list.sel by (metis list.set_intros(1))
qed

lemma summary_total:
  "getDegradationSummary r DefaultLevel + getDegradationSummary r MinimalLevel
   + getDegradationSummary r ReducedLevel + getDegradationSummary r FullLevel = jsize r"
proof (induction r)
  case (Cons p r)
  then show ?case by (cases "dg_level (snd p)") (auto simp: getDegradationSummary_def jsize_def)
qed (simp add: getDegradationSummary_def jsize_def)

text \<open>A listener that throws once turns a working fallback into the safe default.\<close>

lemma throwing_listener_discards_fallback:
  assumes "\<forall>st. op_onDegrade options st = (if dg_level st = ReducedLevel then Some e else None)"
  shows "\<exists>st registry'. withDegradationTexts tx now f (Inl pe) (Inr y) d options r = (Inr (d, st), registry')
    \<and> dg_level st = DefaultLevel"
  using assms by (auto simp: degradation_defs split: option.split)
end
