(* ===== verification/Refinement.thy ===== *)
theory Refinement
  imports Prelude
begin

text \<open>
  Data refinement, for the components that have an abstract specification: a step function with
  answers, its runs over a sequence of operations, and the contract of an implementation whose
  every step answers and changes the abstract state as the specification does.
\<close>

fun runOps :: "('o \<Rightarrow> 's \<Rightarrow> 'r \<times> 's) \<Rightarrow> 'o list \<Rightarrow> 's \<Rightarrow> 'r list \<times> 's" where
  "runOps f [] s = ([], s)"
| "runOps f (x # xs) s = (let (r, s1) = f x s; (rs, s2) = runOps f xs s1 in (r # rs, s2))"

lemma length_answers [simp]: "length (fst (runOps f xs s)) = length xs"
  by (induction xs arbitrary: s) (simp_all add: case_prod_beta)

lemma runOps_append:
  "runOps f (xs @ ys) s =
     (fst (runOps f xs s) @ fst (runOps f ys (snd (runOps f xs s))), snd (runOps f ys (snd (runOps f xs s))))"
  by (induction xs arbitrary: s) (simp_all add: case_prod_beta)

locale refinement =
  fixes step :: "'o \<Rightarrow> 's \<Rightarrow> 'r \<times> 's"
    and astep :: "'o \<Rightarrow> 'a \<Rightarrow> 'r \<times> 'a"
    and abs :: "'s \<Rightarrow> 'a"
    and inv :: "'s \<Rightarrow> bool"
  assumes step_refines: "inv s \<Longrightarrow> astep x (abs s) = (fst (step x s), abs (snd (step x s)))"
    and step_inv: "inv s \<Longrightarrow> inv (snd (step x s))"
begin

lemma run_inv: "inv s \<Longrightarrow> inv (snd (runOps step xs s))"
  by (induction xs arbitrary: s) (simp_all add: case_prod_beta step_inv)

lemma run_refines: "inv s \<Longrightarrow> runOps astep xs (abs s) = (fst (runOps step xs s), abs (snd (runOps step xs s)))"
  by (induction xs arbitrary: s) (simp_all add: case_prod_beta step_refines step_inv)

lemma answers_agree: "inv s \<Longrightarrow> fst (runOps step xs s) = fst (runOps astep xs (abs s))"
  by (simp add: run_refines)

end

end
