(* ===== verification/LruCache.thy ===== *)
theory LruCache
  imports Refinement
begin

text \<open>
  The LRU cache of \<open>src/lib/cacheLayer.ts\<close>: the class \<open>LRUCache\<close> with its entry and byte limits,
  and the key it derives from the parameters of a request. The abstract cache below it is a list
  of entries, oldest first, without counters; the class refines it.

  \<open>jsonLength v\<close> is the length of \<open>JSON.stringify(v)\<close>, \<open>None\<close> when that throws or gives no
  string. The hash of \<open>generateKey\<close> is an argument.
\<close>

section \<open>Model\<close>

record 'v cache_entry =
  ca_value :: 'v
  ca_createdAt :: millis
  ca_ttl :: int
  ca_size :: int
  ca_hits :: nat

record 'v lru =
  lru_cache :: "(string, 'v cache_entry) jmap"
  lru_maxSize :: int
  lru_maxBytes :: int
  lru_defaultTTL :: int
  lru_currentSize :: int
  lru_currentBytes :: int
  lru_hits :: nat
  lru_misses :: nat
  lru_evictions :: nat

definition DEFAULT_MAX_ENTRIES :: int where "DEFAULT_MAX_ENTRIES = 50"
definition DEFAULT_MAX_BYTES :: int where "DEFAULT_MAX_BYTES = 2 * 1024 * 1024"
definition DEFAULT_TTL :: int where "DEFAULT_TTL = 300000"

definition newLru :: "int option \<Rightarrow> int option \<Rightarrow> int option \<Rightarrow> 'v lru" where
  "newLru maxSize maxBytes defaultTTL =
     \<lparr>lru_cache = [], lru_maxSize = nullish maxSize DEFAULT_MAX_ENTRIES,
      lru_maxBytes = nullish maxBytes DEFAULT_MAX_BYTES, lru_defaultTTL = nullish defaultTTL DEFAULT_TTL,
      lru_currentSize = 0, lru_currentBytes = 0, lru_hits = 0, lru_misses = 0, lru_evictions = 0\<rparr>"

definition estimateSize :: "('v \<Rightarrow> nat option) \<Rightarrow> 'v \<Rightarrow> int" where
  "estimateSize jsonLength v = (case jsonLength v of Some n \<Rightarrow> int n * 2 | None \<Rightarrow> 1024)"

definition expired :: "millis \<Rightarrow> 'v cache_entry \<Rightarrow> bool" where
  "expired now e \<longleftrightarrow> ca_ttl e < now - ca_createdAt e"

definition deleteEntry :: "string \<Rightarrow> 'v cache_entry \<Rightarrow> 'v lru \<Rightarrow> 'v lru" where
  "deleteEntry k e c =
     c\<lparr>lru_cache := jdel k (lru_cache c), lru_currentSize := lru_currentSize c - 1,
       lru_currentBytes := (if lru_currentBytes c - ca_size e < 0 then 0 else lru_currentBytes c - ca_size e)\<rparr>"

definition lruGet :: "millis \<Rightarrow> string \<Rightarrow> 'v lru \<Rightarrow> 'v option \<times> 'v lru" where
  "lruGet now k c =
     (case jget k (lru_cache c) of
        None \<Rightarrow> (None, c\<lparr>lru_misses := lru_misses c + 1\<rparr>)
      | Some e \<Rightarrow>
        (if expired now e
         then (let c1 = deleteEntry k e c in (None, c1\<lparr>lru_misses := lru_misses c1 + 1\<rparr>))
         else (let e1 = e\<lparr>ca_hits := ca_hits e + 1\<rparr>
               in (Some (ca_value e1),
                   c\<lparr>lru_cache := jset k e1 (jdel k (lru_cache c)), lru_hits := lru_hits c + 1\<rparr>))))"

lemma jdel_hd_shorter: "m \<noteq> [] \<Longrightarrow> length (jdel (hd (jkeys m)) m) < length m"
  by (cases m) (simp_all add: jdel_def jkeys_def le_imp_less_Suc)

lemma jget_hd: "m \<noteq> [] \<Longrightarrow> jget (hd (jkeys m)) m = Some (snd (hd m))"
  by (cases m) (simp_all add: jkeys_def jget_Cons)

function evictOldest :: "int \<Rightarrow> 'v lru \<Rightarrow> 'v lru" where
  "evictOldest entrySize c =
     (if (lru_maxSize c \<le> lru_currentSize c \<or> lru_maxBytes c < lru_currentBytes c + entrySize)
         \<and> lru_cache c \<noteq> []
      then (let oldestKey = hd (jkeys (lru_cache c));
                c1 = (case jget oldestKey (lru_cache c) of Some e \<Rightarrow> deleteEntry oldestKey e c | None \<Rightarrow> c)
            in evictOldest entrySize (c1\<lparr>lru_evictions := lru_evictions c1 + 1\<rparr>))
      else c)"
  by pat_completeness auto

termination
  by (relation "measure (\<lambda>(z, c). length (lru_cache c))")
     (auto simp: jget_hd deleteEntry_def jdel_hd_shorter Let_def)

declare evictOldest.simps [simp del]

definition lruSet :: "('v \<Rightarrow> nat option) \<Rightarrow> millis \<Rightarrow> string \<Rightarrow> 'v \<Rightarrow> int option \<Rightarrow> 'v lru \<Rightarrow> 'v lru" where
  "lruSet jsonLength now k v ttl c =
     (let entrySize = estimateSize jsonLength v;
          c1 = (case jget k (lru_cache c) of
                  Some old \<Rightarrow> c\<lparr>lru_currentBytes := lru_currentBytes c - ca_size old,
                                lru_currentSize := lru_currentSize c - 1,
                                lru_cache := jdel k (lru_cache c)\<rparr>
                | None \<Rightarrow> c);
          c2 = evictOldest entrySize c1;
          entry = \<lparr>ca_value = v, ca_createdAt = now, ca_ttl = nullish ttl (lru_defaultTTL c),
                   ca_size = entrySize, ca_hits = 0\<rparr>
      in c2\<lparr>lru_cache := jset k entry (lru_cache c2), lru_currentSize := lru_currentSize c2 + 1,
            lru_currentBytes := lru_currentBytes c2 + entrySize\<rparr>)"

definition lruHas :: "millis \<Rightarrow> string \<Rightarrow> 'v lru \<Rightarrow> bool \<times> 'v lru" where
  "lruHas now k c =
     (case jget k (lru_cache c) of
        None \<Rightarrow> (False, c)
      | Some e \<Rightarrow> if expired now e then (False, deleteEntry k e c) else (True, c))"

definition lruDelete :: "string \<Rightarrow> 'v lru \<Rightarrow> bool \<times> 'v lru" where
  "lruDelete k c =
     (case jget k (lru_cache c) of Some e \<Rightarrow> (True, deleteEntry k e c) | None \<Rightarrow> (False, c))"

definition lruClear :: "'v lru \<Rightarrow> 'v lru" where
  "lruClear c = c\<lparr>lru_cache := [], lru_currentSize := 0, lru_currentBytes := 0\<rparr>"

text \<open>The hit rate in percent as a pair of numerator and denominator, none before the first access.\<close>

definition lruStats :: "'v lru \<Rightarrow> int \<times> int \<times> nat \<times> nat \<times> nat \<times> (nat \<times> nat) option" where
  "lruStats c =
     (let accesses = lru_hits c + lru_misses c
      in (lru_currentSize c, lru_currentBytes c, lru_hits c, lru_misses c, lru_evictions c,
          if 0 < accesses then Some (lru_hits c * 100, accesses) else None))"

section \<open>The abstract cache\<close>

text \<open>Entries with key, value, size and end of life; the most recently used is the last.\<close>

type_synonym 'v arow = "string \<times> 'v \<times> int \<times> int"

definition aWithout :: "string \<Rightarrow> 'v arow list \<Rightarrow> 'v arow list" where
  "aWithout k rows = filter (\<lambda>r. fst r \<noteq> k) rows"

definition aFind :: "string \<Rightarrow> 'v arow list \<Rightarrow> 'v arow option" where
  "aFind k rows = find (\<lambda>r. fst r = k) rows"

definition aBytes :: "'v arow list \<Rightarrow> int" where
  "aBytes rows = (\<Sum>r \<leftarrow> rows. fst (snd (snd r)))"

definition aDead :: "millis \<Rightarrow> 'v arow \<Rightarrow> bool" where
  "aDead now r \<longleftrightarrow> snd (snd (snd r)) < now"

text \<open>What is kept when an entry of size \<open>z\<close> comes in: the longest suffix that leaves room.\<close>

fun aFitting :: "int \<Rightarrow> int \<Rightarrow> int \<Rightarrow> 'v arow list \<Rightarrow> 'v arow list" where
  "aFitting maxSize maxBytes z [] = []"
| "aFitting maxSize maxBytes z (r # rows) =
     (if int (length (r # rows)) < maxSize \<and> aBytes (r # rows) + z \<le> maxBytes then r # rows
      else aFitting maxSize maxBytes z rows)"

datatype 'v cache_op =
  Get millis string | Put millis string 'v "int option" | Has millis string | Del string | Clear

datatype 'v cache_out = Value "'v option" | Answer bool | Done

fun aStep :: "('v \<Rightarrow> nat option) \<Rightarrow> int \<Rightarrow> int \<Rightarrow> int \<Rightarrow> 'v cache_op \<Rightarrow> 'v arow list \<Rightarrow> 'v cache_out \<times> 'v arow list" where
  "aStep len maxSize maxBytes ttl0 (Get now k) rows =
     (case aFind k rows of
        None \<Rightarrow> (Value None, rows)
      | Some r \<Rightarrow> if aDead now r then (Value None, aWithout k rows)
                  else (Value (Some (fst (snd r))), aWithout k rows @ [r]))"
| "aStep len maxSize maxBytes ttl0 (Put now k v ttl) rows =
     (Done, aFitting maxSize maxBytes (estimateSize len v) (aWithout k rows)
              @ [(k, v, estimateSize len v, now + nullish ttl ttl0)])"
| "aStep len maxSize maxBytes ttl0 (Has now k) rows =
     (case aFind k rows of
        None \<Rightarrow> (Answer False, rows)
      | Some r \<Rightarrow> if aDead now r then (Answer False, aWithout k rows) else (Answer True, rows))"
| "aStep len maxSize maxBytes ttl0 (Del k) rows = (Answer (aFind k rows \<noteq> None), aWithout k rows)"
| "aStep len maxSize maxBytes ttl0 Clear rows = (Done, [])"

fun lruStep :: "('v \<Rightarrow> nat option) \<Rightarrow> 'v cache_op \<Rightarrow> 'v lru \<Rightarrow> 'v cache_out \<times> 'v lru" where
  "lruStep len (Get now k) c = (let (v, c') = lruGet now k c in (Value v, c'))"
| "lruStep len (Put now k v ttl) c = (Done, lruSet len now k v ttl c)"
| "lruStep len (Has now k) c = (let (b, c') = lruHas now k c in (Answer b, c'))"
| "lruStep len (Del k) c = (let (b, c') = lruDelete k c in (Answer b, c'))"
| "lruStep len Clear c = (Done, lruClear c)"

section \<open>Representation\<close>

definition entryRow :: "string \<times> 'v cache_entry \<Rightarrow> 'v arow" where
  "entryRow p = (fst p, ca_value (snd p), ca_size (snd p), ca_createdAt (snd p) + ca_ttl (snd p))"

definition absLru :: "'v lru \<Rightarrow> 'v arow list" where
  "absLru c = map entryRow (lru_cache c)"

definition sizeSum :: "(string, 'v cache_entry) jmap \<Rightarrow> int" where
  "sizeSum m = (\<Sum>p \<leftarrow> m. ca_size (snd p))"

text \<open>
  The counters agree with the map, sizes are not negative, and the map is within both limits
  unless a single entry is all it holds.
\<close>

definition lru_inv :: "'v lru \<Rightarrow> bool" where
  "lru_inv c \<longleftrightarrow> jinv (lru_cache c) \<and> lru_currentSize c = int (length (lru_cache c))
     \<and> lru_currentBytes c = sizeSum (lru_cache c) \<and> (\<forall>p \<in> set (lru_cache c). 0 \<le> ca_size (snd p))
     \<and> (length (lru_cache c) \<le> 1 \<or>
        int (length (lru_cache c)) \<le> lru_maxSize c \<and> sizeSum (lru_cache c) \<le> lru_maxBytes c)"

lemma entryRow_simps [simp]:
  "fst (entryRow p) = fst p"
  "fst (snd (entryRow p)) = ca_value (snd p)"
  "fst (snd (snd (entryRow p))) = ca_size (snd p)"
  "snd (snd (snd (entryRow p))) = ca_createdAt (snd p) + ca_ttl (snd p)"
  by (simp_all add: entryRow_def)

lemma sizeSum_simps [simp]:
  "sizeSum [] = 0"
  "sizeSum (p # m) = ca_size (snd p) + sizeSum m"
  "sizeSum (m @ m') = sizeSum m + sizeSum m'"
  by (simp_all add: sizeSum_def)

lemma aBytes_rows [simp]: "aBytes (map entryRow m) = sizeSum m"
  by (simp add: aBytes_def sizeSum_def o_def)

lemma aDead_expired: "aDead now (entryRow (k, e)) \<longleftrightarrow> expired now e"
  by (auto simp: aDead_def expired_def)

lemma aWithout_rows: "aWithout k (map entryRow m) = map entryRow (jdel k m)"
  by (simp add: aWithout_def jdel_def filter_map o_def)

lemma aFind_rows: "aFind k (map entryRow m) = map_option (\<lambda>e. entryRow (k, e)) (jget k m)"
  by (induction m) (auto simp: aFind_def jget_Cons entryRow_def)

lemma sizeSum_nonneg: "\<forall>p \<in> set m. 0 \<le> ca_size (snd p) \<Longrightarrow> 0 \<le> sizeSum m"
  by (induction m) auto

lemma length_jdel: "jinv m \<Longrightarrow> jget k m = Some e \<Longrightarrow> length m = Suc (length (jdel k m))"
  using jsize_jdel [of m k] by (simp add: jsize_def jhas_def)

lemma jdel_absent: "jget k m = None \<Longrightarrow> jdel k m = m"
  by (auto simp: jdel_def jget_None_iff jkeys_def filter_id_conv)

lemma sizeSum_jdel: "jinv m \<Longrightarrow> jget k m = Some e \<Longrightarrow> sizeSum m = ca_size e + sizeSum (jdel k m)"
proof (induction m)
  case (Cons p m)
  show ?case
  proof (cases "fst p = k")
    case True
    then have "jget k m = None" using Cons.prems(1) by (auto simp: jget_None_iff jinv_def jkeys_def)
    then have "jdel k m = m" by (rule jdel_absent)
    then show ?thesis using True Cons.prems(2) by (simp add: jdel_def jget_Cons)
  next
    case False
    then show ?thesis using Cons by (simp add: jdel_def jget_Cons jinv_def jkeys_def)
  qed
qed simp

lemma jset_jdel [simp]: "jset k v (jdel k m) = jdel k m @ [(k, v)]"
  by (rule jset_absent) simp

lemma sizeSum_jdel_le: "\<forall>p \<in> set m. 0 \<le> ca_size (snd p) \<Longrightarrow> sizeSum (jdel k m) \<le> sizeSum m"
  by (induction m) (auto simp: jdel_def)

text \<open>Deleting an entry keeps the invariant and removes the row.\<close>

lemma deleteEntry_refines:
  assumes inv: "lru_inv c" and e: "jget k (lru_cache c) = Some e"
  shows "lru_inv (deleteEntry k e c)" and "absLru (deleteEntry k e c) = aWithout k (absLru c)"
proof -
  have s: "sizeSum (lru_cache c) = ca_size e + sizeSum (jdel k (lru_cache c))"
    and l: "length (lru_cache c) = Suc (length (jdel k (lru_cache c)))"
    using sizeSum_jdel length_jdel inv e by (auto simp: lru_inv_def)
  have nn: "\<forall>p \<in> set (jdel k (lru_cache c)). 0 \<le> ca_size (snd p)"
    using inv by (auto simp: lru_inv_def jdel_set)
  have "(k, e) \<in> set (lru_cache c)" using e by (rule jget_in_set)
  then have "0 \<le> ca_size e" using inv by (auto simp: lru_inv_def)
  then show "lru_inv (deleteEntry k e c)"
    using inv s l nn sizeSum_nonneg [OF nn] by (auto simp: lru_inv_def deleteEntry_def)
  show "absLru (deleteEntry k e c) = aWithout k (absLru c)"
    by (simp add: absLru_def deleteEntry_def aWithout_rows)
qed

text \<open>
  The eviction loop walks through the suffixes of the map; it stops at the longest one that
  leaves room.
\<close>

lemma evictOldest_fits:
  assumes "jinv (lru_cache c)" and "lru_currentSize c = int (length (lru_cache c))"
    and "lru_currentBytes c = sizeSum (lru_cache c)" and "\<forall>p \<in> set (lru_cache c). 0 \<le> ca_size (snd p)"
    and "0 \<le> z"
  shows "\<exists>ev cs. evictOldest z c = c\<lparr>lru_cache := cs, lru_currentSize := int (length cs),
             lru_currentBytes := sizeSum cs, lru_evictions := ev\<rparr>
           \<and> map entryRow cs = aFitting (lru_maxSize c) (lru_maxBytes c) z (map entryRow (lru_cache c))
           \<and> (\<exists>pre. lru_cache c = pre @ cs)"
  using assms
proof (induction "length (lru_cache c)" arbitrary: c)
  case 0
  then have "lru_cache c = []" by simp
  moreover have "evictOldest z c = c" by (subst evictOldest.simps) (simp add: calculation)
  ultimately show ?case using 0
    by (intro exI [of _ "lru_evictions c"] exI [of _ "[]"]) (cases c, simp)
next
  case (Suc n)
  then obtain p m where m: "lru_cache c = p # m" by (cases "lru_cache c") auto
  obtain k e where p: "p = (k, e)" by (cases p)
  show ?case
  proof (cases "lru_maxSize c \<le> lru_currentSize c \<or> lru_maxBytes c < lru_currentBytes c + z")
    case False
    then have "evictOldest z c = c" by (subst evictOldest.simps) simp
    moreover have "aFitting (lru_maxSize c) (lru_maxBytes c) z (map entryRow (lru_cache c)) = map entryRow (lru_cache c)"
      using False Suc.prems by (simp add: m aBytes_rows [of "p # m", simplified])
    ultimately show ?thesis using Suc.prems
      by (intro exI [of _ "lru_evictions c"] exI [of _ "lru_cache c"]) (cases c, simp)
  next
    case True
    have jd: "jdel k (lru_cache c) = m"
      using Suc.prems(1) by (auto simp: m p jdel_def jinv_def jkeys_def filter_id_conv)
    define d where "d = (deleteEntry k e c)\<lparr>lru_evictions := lru_evictions c + 1\<rparr>"
    have g: "jget k (lru_cache c) = Some e" by (simp add: m p jget_Cons)
    have "evictOldest z c = evictOldest z d"
      using True by (subst evictOldest.simps) (simp add: m p jkeys_def jget_Cons d_def deleteEntry_def)
    have nn: "\<forall>p \<in> set m. 0 \<le> ca_size (snd p)" "0 \<le> ca_size e" using Suc.prems(4) by (auto simp: m p)
    have d: "lru_cache d = m" "lru_currentSize d = int (length m)" "lru_currentBytes d = sizeSum m"
      "lru_maxSize d = lru_maxSize c" "lru_maxBytes d = lru_maxBytes c"
      using Suc.prems(2,3) jd sizeSum_nonneg [OF nn(1)] by (auto simp: d_def deleteEntry_def m p)
    have "jinv m" using Suc.prems(1) by (simp add: m jinv_def jkeys_def)
    then obtain ev cs where ih: "evictOldest z d = d\<lparr>lru_cache := cs, lru_currentSize := int (length cs),
             lru_currentBytes := sizeSum cs, lru_evictions := ev\<rparr>"
      "map entryRow cs = aFitting (lru_maxSize d) (lru_maxBytes d) z (map entryRow m)" "\<exists>pre. m = pre @ cs"
      using Suc.hyps(1) [of d] Suc.hyps(2) Suc.prems(5) nn d by (auto simp: m)
    have "aFitting (lru_maxSize c) (lru_maxBytes c) z (map entryRow (lru_cache c))
        = aFitting (lru_maxSize d) (lru_maxBytes d) z (map entryRow m)"
      using True Suc.prems(2,3) aBytes_rows [of "p # m"] by (auto simp: m d(4,5))
    moreover have "d\<lparr>lru_cache := cs, lru_currentSize := int (length cs),
             lru_currentBytes := sizeSum cs, lru_evictions := ev\<rparr>
        = c\<lparr>lru_cache := cs, lru_currentSize := int (length cs),
             lru_currentBytes := sizeSum cs, lru_evictions := ev\<rparr>"
      by (simp add: d_def deleteEntry_def)
    moreover obtain pre where "m = pre @ cs" using ih(3) by blast
    then have "lru_cache c = (p # pre) @ cs" using m by simp
    ultimately show ?thesis using ih(1,2) \<open>evictOldest z c = evictOldest z d\<close> by metis
  qed
qed

lemma aFitting_fits:
  assumes "aFitting n b z rows \<noteq> []"
  shows "int (length (aFitting n b z rows)) < n" and "aBytes (aFitting n b z rows) + z \<le> b"
  using assms by (induction n b z rows rule: aFitting.induct) (auto split: if_splits)

lemma jget_suffix_None: "jget k (pre @ m) = None \<Longrightarrow> jget k m = None"
  by (auto simp: jget_None_iff jkeys_def)

text \<open>Every operation of the class does what the abstract operation does and keeps the invariant.\<close>

lemma lruGet_refines:
  assumes inv: "lru_inv c"
  shows "aStep len n b t (Get now k) (absLru c)
           = (Value (fst (lruGet now k c)), absLru (snd (lruGet now k c)))"
    and "lru_inv (snd (lruGet now k c))"
proof -
  have "aStep len n b t (Get now k) (absLru c)
           = (Value (fst (lruGet now k c)), absLru (snd (lruGet now k c)))
        \<and> lru_inv (snd (lruGet now k c))"
  proof (cases "jget k (lru_cache c)")
    case None
    then show ?thesis using inv by (simp add: lruGet_def absLru_def aFind_rows lru_inv_def)
  next
    case (Some e)
    have f: "aFind k (absLru c) = Some (entryRow (k, e))" by (simp add: absLru_def aFind_rows Some)
    show ?thesis
    proof (cases "expired now e")
      case True
      have "absLru (c\<lparr>lru_misses := x\<rparr>) = absLru c" "lru_inv (c\<lparr>lru_misses := x\<rparr>) = lru_inv c"
        for x and c :: "'a lru" by (simp_all add: absLru_def lru_inv_def)
      then show ?thesis using True deleteEntry_refines [OF inv Some]
        by (simp add: lruGet_def Some f aDead_expired Let_def)
    next
      case False
      have s: "sizeSum (lru_cache c) = ca_size e + sizeSum (jdel k (lru_cache c))"
        and l: "length (lru_cache c) = Suc (length (jdel k (lru_cache c)))"
        using sizeSum_jdel length_jdel inv Some by (auto simp: lru_inv_def)
      have "(k, e) \<in> set (lru_cache c)" using Some by (rule jget_in_set)
      then have nn: "0 \<le> ca_size e" using inv by (auto simp: lru_inv_def)
      have ji: "jinv (jdel k (lru_cache c) @ [(k, x)])" for x
        using inv by (auto simp: lru_inv_def jinv_def jdel_def jkeys_def distinct_map_filter)
      have "lru_inv (snd (lruGet now k c))" using False nn s l inv ji
        by (auto simp: lruGet_def Some Let_def lru_inv_def jdel_set)
      moreover have "aStep len n b t (Get now k) (absLru c)
          = (Value (fst (lruGet now k c)), absLru (snd (lruGet now k c)))"
        by (simp add: f False aDead_expired)
           (simp add: lruGet_def Some False Let_def absLru_def aWithout_rows entryRow_def)
      ultimately show ?thesis by blast
    qed
  qed
  then show "aStep len n b t (Get now k) (absLru c)
           = (Value (fst (lruGet now k c)), absLru (snd (lruGet now k c)))"
    and "lru_inv (snd (lruGet now k c))" by auto
qed

lemma lruHas_refines:
  assumes inv: "lru_inv c"
  shows "aStep len n b t (Has now k) (absLru c)
           = (Answer (fst (lruHas now k c)), absLru (snd (lruHas now k c)))"
    and "lru_inv (snd (lruHas now k c))"
  using inv deleteEntry_refines [OF inv]
  by (auto simp: lruHas_def absLru_def aFind_rows aDead_expired split: option.splits)

lemma lruDelete_refines:
  assumes inv: "lru_inv c"
  shows "aStep len n b t (Del k) (absLru c)
           = (Answer (fst (lruDelete k c)), absLru (snd (lruDelete k c)))"
    and "lru_inv (snd (lruDelete k c))"
  using inv deleteEntry_refines [OF inv]
  by (auto simp: lruDelete_def absLru_def aFind_rows aWithout_rows jdel_absent split: option.splits)

lemma lruClear_refines:
  "absLru (lruClear c) = []" "lru_inv (lruClear c)"
  by (simp_all add: lruClear_def absLru_def lru_inv_def)

lemma estimateSize_nonneg: "0 \<le> estimateSize len v"
  by (simp add: estimateSize_def split: option.split)

lemma lruSet_refines:
  assumes inv: "lru_inv c"
  shows "aStep len (lru_maxSize c) (lru_maxBytes c) (lru_defaultTTL c) (Put now k v ttl) (absLru c)
           = (Done, absLru (lruSet len now k v ttl c))"
    and "lru_inv (lruSet len now k v ttl c)"
proof -
  define z where "z = estimateSize len v"
  define c1 where "c1 = c\<lparr>lru_cache := jdel k (lru_cache c), lru_currentSize := int (length (jdel k (lru_cache c))),
      lru_currentBytes := sizeSum (jdel k (lru_cache c))\<rparr>"
  have c1: "(case jget k (lru_cache c) of
                  Some old \<Rightarrow> c\<lparr>lru_currentBytes := lru_currentBytes c - ca_size old,
                                lru_currentSize := lru_currentSize c - 1,
                                lru_cache := jdel k (lru_cache c)\<rparr>
                | None \<Rightarrow> c) = c1"
  proof (cases "jget k (lru_cache c)")
    case None
    then show ?thesis using inv by (cases c) (simp add: c1_def jdel_absent lru_inv_def)
  next
    case (Some e)
    then have "sizeSum (lru_cache c) = ca_size e + sizeSum (jdel k (lru_cache c))"
      and "length (lru_cache c) = Suc (length (jdel k (lru_cache c)))"
      using sizeSum_jdel length_jdel inv by (auto simp: lru_inv_def)
    then show ?thesis using Some inv by (cases c) (simp add: c1_def lru_inv_def)
  qed
  have z: "0 \<le> z" by (simp add: z_def estimateSize_nonneg)
  have pre: "jinv (lru_cache c1)" "lru_currentSize c1 = int (length (lru_cache c1))"
    "lru_currentBytes c1 = sizeSum (lru_cache c1)" "\<forall>p \<in> set (lru_cache c1). 0 \<le> ca_size (snd p)"
    using inv by (auto simp: c1_def lru_inv_def jdel_set)
  obtain ev cs us where e: "evictOldest z c1 = c1\<lparr>lru_cache := cs, lru_currentSize := int (length cs),
             lru_currentBytes := sizeSum cs, lru_evictions := ev\<rparr>"
    and cs: "map entryRow cs = aFitting (lru_maxSize c1) (lru_maxBytes c1) z (map entryRow (lru_cache c1))"
    and us: "lru_cache c1 = us @ cs"
    using evictOldest_fits [OF pre z] by blast
  have mc: "lru_maxSize c1 = lru_maxSize c" "lru_maxBytes c1 = lru_maxBytes c"
    "lru_cache c1 = jdel k (lru_cache c)" by (simp_all add: c1_def)
  have kcs: "jget k cs = None" using us mc(3) jget_suffix_None [of k us cs] by (metis jget_jdel)
  define entry where "entry = \<lparr>ca_value = v, ca_createdAt = now, ca_ttl = nullish ttl (lru_defaultTTL c),
                   ca_size = z, ca_hits = 0\<rparr>"
  have r: "lruSet len now k v ttl c
      = c1\<lparr>lru_cache := cs @ [(k, entry)], lru_currentSize := int (length cs) + 1,
           lru_currentBytes := sizeSum cs + z, lru_evictions := ev\<rparr>"
    using e kcs by (simp add: lruSet_def Let_def c1 z_def entry_def jset_absent)
  show "aStep len (lru_maxSize c) (lru_maxBytes c) (lru_defaultTTL c) (Put now k v ttl) (absLru c)
           = (Done, absLru (lruSet len now k v ttl c))"
    using cs by (simp add: r mc absLru_def aWithout_rows z_def [symmetric] entry_def entryRow_def)
  have "jinv cs" using pre(1) by (simp add: us jinv_def jkeys_def)
  then have ji: "jinv (cs @ [(k, entry)])" using kcs by (simp add: jget_None_iff jinv_def jkeys_def)
  have nn: "\<forall>p \<in> set (cs @ [(k, entry)]). 0 \<le> ca_size (snd p)"
    using pre(4) z by (auto simp: us entry_def)
  have fits: "cs = [] \<or> int (length cs) < lru_maxSize c \<and> sizeSum cs + z \<le> lru_maxBytes c"
  proof (cases "cs = []")
    case False
    then have "aFitting (lru_maxSize c1) (lru_maxBytes c1) z (map entryRow (lru_cache c1)) \<noteq> []"
      unfolding cs [symmetric] by simp
    note f = aFitting_fits [OF this, folded cs]
    then show ?thesis by (simp add: mc)
  qed simp
  show "lru_inv (lruSet len now k v ttl c)"
    using ji nn fits by (auto simp: r lru_inv_def entry_def c1_def)
qed

lemma evictOldest_limits:
  "lru_maxSize (evictOldest z c) = lru_maxSize c \<and> lru_maxBytes (evictOldest z c) = lru_maxBytes c
   \<and> lru_defaultTTL (evictOldest z c) = lru_defaultTTL c"
proof (induction z c rule: evictOldest.induct)
  case (1 z c)
  show ?case
  proof (cases "(lru_maxSize c \<le> lru_currentSize c \<or> lru_maxBytes c < lru_currentBytes c + z) \<and> lru_cache c \<noteq> []")
    case True
    then have g: "jget (hd (jkeys (lru_cache c))) (lru_cache c) = Some (snd (hd (lru_cache c)))"
      by (simp add: jget_hd)
    have "evictOldest z c = evictOldest z ((deleteEntry (hd (jkeys (lru_cache c))) (snd (hd (lru_cache c))) c)
        \<lparr>lru_evictions := lru_evictions c + 1\<rparr>)"
      using True by (subst evictOldest.simps) (simp add: g deleteEntry_def)
    with 1 [OF True refl refl] show ?thesis by (simp add: g deleteEntry_def)
  next
    case False
    then have "evictOldest z c = c" by (subst evictOldest.simps) auto
    then show ?thesis by simp
  qed
qed

lemma limits_kept:
  "lru_maxSize (snd (lruStep len oper c)) = lru_maxSize c
   \<and> lru_maxBytes (snd (lruStep len oper c)) = lru_maxBytes c
   \<and> lru_defaultTTL (snd (lruStep len oper c)) = lru_defaultTTL c"
proof (cases oper)
  case (Put now k v ttl)
  then show ?thesis by (simp add: lruSet_def Let_def evictOldest_limits split: option.split)
qed (simp_all add: lruGet_def lruHas_def lruDelete_def lruClear_def deleteEntry_def Let_def split: option.split)

lemma lruStep_refines:
  assumes inv: "lru_inv c"
  shows "aStep len (lru_maxSize c) (lru_maxBytes c) (lru_defaultTTL c) oper (absLru c)
           = (fst (lruStep len oper c), absLru (snd (lruStep len oper c)))
         \<and> lru_inv (snd (lruStep len oper c))"
proof (cases oper)
  case (Get now k)
  then show ?thesis using lruGet_refines [OF inv] by (simp add: case_prod_beta del: aStep.simps)
next
  case (Put now k v ttl)
  then show ?thesis using lruSet_refines [OF inv] by (simp del: aStep.simps)
next
  case (Has now k)
  then show ?thesis using lruHas_refines [OF inv] by (simp add: case_prod_beta del: aStep.simps)
next
  case (Del k)
  then show ?thesis using lruDelete_refines [OF inv] by (simp add: case_prod_beta del: aStep.simps)
next
  case Clear
  then show ?thesis by (simp add: lruClear_refines)
qed

text \<open>The cache with limits \<open>n\<close> and \<open>b\<close> and time to live \<open>t\<close> refines the abstract one.\<close>

interpretation lru: refinement "lruStep len" "aStep len n b t" absLru
    "\<lambda>c. lru_inv c \<and> lru_maxSize c = n \<and> lru_maxBytes c = b \<and> lru_defaultTTL c = t"
  for len n b t
  by unfold_locales (use lruStep_refines limits_kept in force)+

text \<open>
  The suffix that is kept is the longest one that leaves room, and the only longer ones are over a
  limit.
\<close>

lemma aFitting_suffix: "\<exists>dropped. rows = dropped @ aFitting n b z rows"
proof (induction rows)
  case (Cons r rows)
  then obtain d where "r # rows = (r # d) @ aFitting n b z rows" by auto
  then show ?case by (metis aFitting.simps(2) append_Nil)
qed simp

lemma aFitting_longest:
  assumes "rows = dropped @ kept" and "kept \<noteq> []" and "int (length kept) < n" and "aBytes kept + z \<le> b"
  shows "length kept \<le> length (aFitting n b z rows)"
  using assms
proof (induction n b z rows arbitrary: dropped rule: aFitting.induct)
  case (2 n b z r rows)
  show ?case
  proof (cases "int (length (r # rows)) < n \<and> aBytes (r # rows) + z \<le> b")
    case True
    then show ?thesis using "2.prems"(1) by (cases dropped) auto
  next
    case False
    then obtain d where "dropped = r # d" using "2.prems" by (cases dropped) auto
    then have "length kept \<le> length (aFitting n b z rows)" using 2(1) [OF False, of d] "2.prems" by simp
    moreover have "aFitting n b z (r # rows) = aFitting n b z rows"
      unfolding aFitting.simps using False by (simp only: if_False)
    ultimately show ?thesis by (simp del: aFitting.simps)
  qed
qed simp

lemma absLru_new [simp]: "absLru (newLru n b t) = []"
  by (simp add: newLru_def absLru_def)

lemma newLru_rep:
  "lru_inv (newLru n b t) \<and> lru_maxSize (newLru n b t) = nullish n DEFAULT_MAX_ENTRIES
   \<and> lru_maxBytes (newLru n b t) = nullish b DEFAULT_MAX_BYTES
   \<and> lru_defaultTTL (newLru n b t) = nullish t DEFAULT_TTL"
  by (simp add: newLru_def lru_inv_def)

section \<open>Properties\<close>

text \<open>
  C6. Refinement: whatever sequence of calls a fresh \<open>LRUCache\<close> serves, every answer is the one
  the abstract cache gives, a list of rows that drops its oldest ones until a new row fits, and
  the map of the class holds the rows of that list in their order.
\<close>

theorem lru_refines:
  "fst (runOps (lruStep len) ops (newLru n b t))
     = fst (runOps (aStep len (nullish n DEFAULT_MAX_ENTRIES) (nullish b DEFAULT_MAX_BYTES)
                     (nullish t DEFAULT_TTL)) ops [])
   \<and> absLru (snd (runOps (lruStep len) ops (newLru n b t)))
     = snd (runOps (aStep len (nullish n DEFAULT_MAX_ENTRIES) (nullish b DEFAULT_MAX_BYTES)
                     (nullish t DEFAULT_TTL)) ops [])"
  using lru.run_refines [OF newLru_rep, of len n b t ops] by simp

text \<open>
  The counters of the cache always equal what its map holds, and the map is within the entry
  and the byte limit after every sequence of calls, unless a single entry is all it holds.
\<close>

theorem lru_counters_and_limits:
  "let c = snd (runOps (lruStep len) ops (newLru n b t))
   in lru_currentSize c = int (length (lru_cache c)) \<and> lru_currentBytes c = sizeSum (lru_cache c)
    \<and> (length (lru_cache c) \<le> 1
       \<or> int (length (lru_cache c)) \<le> nullish n DEFAULT_MAX_ENTRIES
         \<and> sizeSum (lru_cache c) \<le> nullish b DEFAULT_MAX_BYTES)"
  using lru.run_inv [OF newLru_rep, of len ops n b t]
  by (auto simp: lru_inv_def Let_def)

text \<open>
  A value that alone is larger than the byte limit is stored all the same: it flushes every
  other entry, and the cache is over its byte limit until the value is replaced or expires.
\<close>

theorem lru_oversized_flushes:
  assumes inv: "lru_inv c" and big: "lru_maxBytes c < estimateSize len v"
  shows "jkeys (lru_cache (lruSet len now k v ttl c)) = [k]
    \<and> lru_maxBytes c < lru_currentBytes (lruSet len now k v ttl c)"
proof -
  have e: "aFitting m b z rows = []" if "b < z" "\<forall>r \<in> set rows. 0 \<le> fst (snd (snd r))"
    for m b z and rows :: "'a arow list"
  proof (rule ccontr)
    assume "aFitting m b z rows \<noteq> []"
    from aFitting_fits(2) [OF this] have "aBytes (aFitting m b z rows) < 0" using that(1) by simp
    moreover obtain d where "rows = d @ aFitting m b z rows" using aFitting_suffix by blast
    then have "\<forall>r \<in> set (aFitting m b z rows). 0 \<le> fst (snd (snd r))"
      using that(2) by (metis Un_iff set_append)
    then have "0 \<le> aBytes (aFitting m b z rows)" unfolding aBytes_def
      by (intro sum_list_nonneg) auto
    ultimately show False by simp
  qed
  have "\<forall>r \<in> set (aWithout k (absLru c)). 0 \<le> fst (snd (snd r))"
    using inv by (auto simp: aWithout_def absLru_def lru_inv_def entryRow_def)
  from e [OF big this] have r: "absLru (lruSet len now k v ttl c)
      = [(k, v, estimateSize len v, now + nullish ttl (lru_defaultTTL c))]"
    using lruSet_refines(1) [OF inv, of len now k v ttl] by simp
  then obtain p where p: "lru_cache (lruSet len now k v ttl c) = [p]"
      "entryRow p = (k, v, estimateSize len v, now + nullish ttl (lru_defaultTTL c))"
    by (auto simp: absLru_def)
  moreover have "lru_currentBytes (lruSet len now k v ttl c) = sizeSum (lru_cache (lruSet len now k v ttl c))"
    using lruSet_refines(2) [OF inv, of len now k v ttl] by (simp add: lru_inv_def)
  ultimately show ?thesis using big by (auto simp: entryRow_def jkeys_def)
qed

lemma lru_oversized_flushes_witness:
  "lru_maxBytes (lruSet (\<lambda>n. Some n) 0 ''a'' (1::nat) None (newLru None (Some 10) None)) < estimateSize (\<lambda>n. Some n) 6
   \<and> jkeys (lru_cache (lruSet (\<lambda>n. Some n) 5 ''b'' (6::nat) None
         (lruSet (\<lambda>n. Some n) 0 ''a'' (1::nat) None (newLru None (Some 10) None)))) = [''b'']"
proof -
  have i: "lru_inv (lruSet (\<lambda>n. Some n) 0 ''a'' (1::nat) None (newLru None (Some 10) None))" by code_simp
  have b: "lru_maxBytes (lruSet (\<lambda>n. Some n) 0 ''a'' (1::nat) None (newLru None (Some 10) None))
      < estimateSize (\<lambda>n. Some n) 6" by code_simp
  show ?thesis using lru_oversized_flushes [OF i b, of 5 "''b''" None] b by blast
qed

end
