(* ===== verification/SemanticCache.thy ===== *)
theory SemanticCache
  imports LruCache JsValues
begin

text \<open>
  The semantic response cache: \<open>src/lib/semanticCache.ts\<close> over the LRU cache, its use by
  \<open>open-sse/handlers/chatCore/semanticCache.ts\<close>, \<open>semanticCacheStore.ts\<close> and
  \<open>streamingSemanticCacheStore.ts\<close>, and \<open>open-sse/utils/estimateSize.ts\<close>.

  \<open>digest\<close> is the hex SHA-256 of the JSON text of a value, \<open>render\<close> the JSON text, \<open>len\<close> the
  length of the JSON text of a cached value. A number of milliseconds that \<open>parseInt\<close> cannot read
  from the environment is outside the model. The persisted tier is what a read of it delivers: a
  list of rows. Metrics are left out.
\<close>

section \<open>Size of a response\<close>

definition SIZE_LIMIT :: int where "SIZE_LIMIT = 262144"

fun nodes :: "json \<Rightarrow> nat" where
  "nodes (JArr xs) = Suc (sum_list (map nodes xs))"
| "nodes (JObj fs) = Suc (sum_list (map (\<lambda>f. nodes (snd f)) fs))"
| "nodes v = 1"

lemma nodes_pos: "0 < nodes v"
  by (cases v) simp_all

text \<open>The walk of \<open>estimateSizeFast\<close> with its explicit stack, whose top is the head.\<close>

function walkSize :: "int \<Rightarrow> json list \<Rightarrow> int" where
  "walkSize bytes [] = bytes"
| "walkSize bytes (v # stack) =
     (case v of
        JUndefined \<Rightarrow> walkSize bytes stack
      | JNull \<Rightarrow> walkSize bytes stack
      | JStr s \<Rightarrow> if SIZE_LIMIT < bytes + int (length s) then bytes + int (length s)
                  else walkSize (bytes + int (length s)) stack
      | JNum r \<Rightarrow> walkSize (bytes + 8) stack
      | JNaN \<Rightarrow> walkSize (bytes + 8) stack
      | JBool b \<Rightarrow> walkSize (bytes + 4) stack
      | JArr xs \<Rightarrow> walkSize bytes (rev xs @ stack)
      | JObj fs \<Rightarrow> walkSize bytes (rev (map snd fs) @ stack))"
  by pat_completeness auto

termination
  by (relation "measure (\<lambda>(b, st). sum_list (map nodes st))")
     (auto simp: rev_map [symmetric] sum_list_rev o_def nodes_pos)

declare walkSize.simps(2) [simp del]

definition estimateSizeFast :: "json \<Rightarrow> int" where
  "estimateSizeFast v = walkSize 0 [v]"

definition isSmallEnoughForSemanticCache :: "json \<Rightarrow> bool" where
  "isSmallEnoughForSemanticCache v \<longleftrightarrow> estimateSizeFast v \<le> 256 * 1024"

section \<open>Signatures\<close>

type_synonym headers = "string \<Rightarrow> string option"

definition stringifyForSignature :: "(json \<Rightarrow> string) \<Rightarrow> json \<Rightarrow> json" where
  "stringifyForSignature render v = (case v of JStr s \<Rightarrow> JStr s | JUndefined \<Rightarrow> JUndefined | _ \<Rightarrow> JStr (render v))"

text \<open>\<open>item?.key\<close> on any value\<close>

definition normalizeItem :: "(json \<Rightarrow> string) \<Rightarrow> json \<Rightarrow> json" where
  "normalizeItem render item =
     JObj [(''role'', (case field ''role'' (asRecord item) of
                         JStr r \<Rightarrow> if trim r \<noteq> [] then JStr r else JStr ''user''
                       | _ \<Rightarrow> JStr ''user'')),
           (''content'', stringifyForSignature render (field ''content'' (asRecord item)))]"

definition normalizeConversation :: "(json \<Rightarrow> string) \<Rightarrow> json \<Rightarrow> json" where
  "normalizeConversation render conversation =
     (case conversation of
        JStr s \<Rightarrow> JArr [JObj [(''role'', JStr ''user''), (''content'', JStr s)]]
      | JArr items \<Rightarrow> JArr (map (normalizeItem render) items)
      | _ \<Rightarrow> JArr [])"

definition defaulted :: "json \<Rightarrow> json \<Rightarrow> json" where
  "defaulted v dflt = (case v of JUndefined \<Rightarrow> dflt | _ \<Rightarrow> v)"

definition generateSignature ::
  "(json \<Rightarrow> string) \<Rightarrow> (json \<Rightarrow> string) \<Rightarrow> string \<Rightarrow> json \<Rightarrow> json \<Rightarrow> json \<Rightarrow> string option \<Rightarrow> string" where
  "generateSignature digest render model conversation temperature topP apiKeyId =
     (let d = digest (JObj [(''model'', JStr model), (''messages'', normalizeConversation render conversation),
                            (''temperature'', defaulted temperature (JNum 0)), (''top_p'', defaulted topP (JNum 1))])
      in (case apiKeyId of
            Some k \<Rightarrow> if k \<noteq> [] then k @ ''.'' @ d else d
          | None \<Rightarrow> d))"

definition isNoCacheRequested :: "headers \<Rightarrow> bool" where
  "isNoCacheRequested hs \<longleftrightarrow>
     list_ex (\<lambda>name. toLowerCase (nullish (hs name) []) = ''true'') [''x-ai-gate-no-cache'', ''x-omniroute-no-cache'']"

definition isCacheableForRead :: "json_object \<Rightarrow> headers \<Rightarrow> bool" where
  "isCacheableForRead body hs \<longleftrightarrow> \<not> isNoCacheRequested hs \<and> field ''temperature'' body = JNum 0"

definition isCacheableForWrite :: "json_object \<Rightarrow> headers \<Rightarrow> bool" where
  "isCacheableForWrite body hs \<longleftrightarrow> \<not> isNoCacheRequested hs \<and> field ''temperature'' body = JNum 0"

text \<open>The signature of a request body, as the three callers compute it.\<close>

definition bodySignature ::
  "(json \<Rightarrow> string) \<Rightarrow> (json \<Rightarrow> string) \<Rightarrow> string \<Rightarrow> json_object \<Rightarrow> string option \<Rightarrow> string" where
  "bodySignature digest render model body apiKeyId =
     generateSignature digest render model (orElse (field ''messages'' body) (field ''input'' body))
       (field ''temperature'' body) (field ''top_p'' body) apiKeyId"

section \<open>The two tiers\<close>

type_synonym cached = "json \<times> rat"

definition DB_TIER_WARM_TTL_MS :: int where "DB_TIER_WARM_TTL_MS = 30000"

record sem_cache =
  sc_memory :: "cached lru"
  sc_warmAt :: "millis option"
  sc_warming :: bool

record db_row =
  db_signature :: string
  db_response :: "json option"
  db_tokens :: rat
  db_expiresAt :: "millis option"

text \<open>\<open>warmDbTier\<close> up to its query, and from the rows on (\<open>None\<close> when the database fails).\<close>

definition warmStart :: "millis \<Rightarrow> sem_cache \<Rightarrow> sem_cache" where
  "warmStart now s =
     (if (case sc_warmAt s of Some t \<Rightarrow> now - t < DB_TIER_WARM_TTL_MS | None \<Rightarrow> False) then s
      else if sc_warming s then s
      else s\<lparr>sc_warming := True\<rparr>)"

definition promoteRow :: "(cached \<Rightarrow> nat option) \<Rightarrow> millis \<Rightarrow> db_row \<Rightarrow> cached lru \<Rightarrow> cached lru" where
  "promoteRow len now r mem =
     (case db_response r of
        None \<Rightarrow> mem
      | Some response \<Rightarrow>
        (if db_signature r = [] then mem
         else (let (present, mem1) = lruHas now (db_signature r) mem;
                   remainingMs = (case db_expiresAt r of Some t \<Rightarrow> t - now | None \<Rightarrow> DB_TIER_WARM_TTL_MS)
               in if present then mem1
                  else if \<not> 0 < remainingMs then mem1
                  else lruSet len now (db_signature r) (response, db_tokens r) (Some remainingMs) mem1)))"

definition warmFinish :: "(cached \<Rightarrow> nat option) \<Rightarrow> millis \<Rightarrow> db_row list option \<Rightarrow> sem_cache \<Rightarrow> sem_cache" where
  "warmFinish len now rows s =
     s\<lparr>sc_memory := (case rows of Some rs \<Rightarrow> fold (promoteRow len now) rs (sc_memory s) | None \<Rightarrow> sc_memory s),
       sc_warmAt := Some now, sc_warming := False\<rparr>"

definition getCachedResponse :: "millis \<Rightarrow> string \<Rightarrow> sem_cache \<Rightarrow> json option \<times> sem_cache" where
  "getCachedResponse now signature s =
     (let (memResult, mem) = lruGet now signature (sc_memory s); s1 = s\<lparr>sc_memory := mem\<rparr>
      in (case memResult of
            Some v \<Rightarrow> (Some (fst v), s1)
          | None \<Rightarrow> (None, warmStart now s1)))"

definition setCachedResponse ::
  "(cached \<Rightarrow> nat option) \<Rightarrow> millis \<Rightarrow> int \<Rightarrow> string \<Rightarrow> json \<Rightarrow> rat \<Rightarrow> sem_cache \<Rightarrow> sem_cache" where
  "setCachedResponse len now ttl signature response tokensSaved s =
     s\<lparr>sc_memory := lruSet len now signature (response, tokensSaved) (Some ttl) (sc_memory s)\<rparr>"

definition invalidateAll :: "sem_cache \<Rightarrow> int \<times> sem_cache" where
  "invalidateAll s = (lru_currentSize (sc_memory s), s\<lparr>sc_memory := lruClear (sc_memory s)\<rparr>)"

definition invalidateBySignature :: "string \<Rightarrow> sem_cache \<Rightarrow> bool \<times> sem_cache" where
  "invalidateBySignature signature s =
     (let (removed, mem) = lruDelete signature (sc_memory s) in (removed, s\<lparr>sc_memory := mem\<rparr>))"

section \<open>The request path\<close>

text \<open>A response that is truthy is served from the cache.\<close>

definition checkSemanticCache ::
  "(json \<Rightarrow> string) \<Rightarrow> (json \<Rightarrow> string) \<Rightarrow> bool \<Rightarrow> millis \<Rightarrow> json_object \<Rightarrow> headers \<Rightarrow> string \<Rightarrow> string option
   \<Rightarrow> sem_cache \<Rightarrow> json option \<times> sem_cache" where
  "checkSemanticCache digest render enabled now body hs model apiKeyId s =
     (if enabled \<and> isCacheableForRead body hs
      then (let (c, s1) = getCachedResponse now (bodySignature digest render model body apiKeyId) s
            in (case c of Some r \<Rightarrow> if isTruthy r then (Some r, s1) else (None, s1) | None \<Rightarrow> (None, s1)))
      else (None, s))"

definition storeSemanticCacheResponse ::
  "(json \<Rightarrow> string) \<Rightarrow> (json \<Rightarrow> string) \<Rightarrow> (cached \<Rightarrow> nat option) \<Rightarrow> bool \<Rightarrow> millis \<Rightarrow> int \<Rightarrow> json_object \<Rightarrow> headers
   \<Rightarrow> string \<Rightarrow> string option \<Rightarrow> json \<Rightarrow> rat \<Rightarrow> sem_cache \<Rightarrow> sem_cache" where
  "storeSemanticCacheResponse digest render len enabled now ttl body hs model apiKeyId response tokensSaved s =
     (if \<not> enabled \<or> \<not> isCacheableForWrite body hs \<or> \<not> isSmallEnoughForSemanticCache response then s
      else setCachedResponse len now ttl (bodySignature digest render model body apiKeyId) response tokensSaved s)"

definition streamTokensSaved :: "json_object \<Rightarrow> rat" where
  "streamTokensSaved u =
     nullish (jsNumberOf (orElse (field ''prompt_tokens'' u) (JNum 0))) 0
     + nullish (jsNumberOf (orElse (field ''completion_tokens'' u) (JNum 0))) 0"

definition storeStreamingSemanticCacheResponse ::
  "(json \<Rightarrow> string) \<Rightarrow> (json \<Rightarrow> string) \<Rightarrow> (cached \<Rightarrow> nat option) \<Rightarrow> bool \<Rightarrow> millis \<Rightarrow> int \<Rightarrow> json_object \<Rightarrow> headers
   \<Rightarrow> string \<Rightarrow> string option \<Rightarrow> int \<Rightarrow> json_object option \<Rightarrow> json_object \<Rightarrow> sem_cache \<Rightarrow> sem_cache" where
  "storeStreamingSemanticCacheResponse digest render len enabled now ttl body hs model apiKeyId status response usage s =
     (case response of
        None \<Rightarrow> s
      | Some fs \<Rightarrow>
        (if \<not> enabled \<or> status \<noteq> 200 \<or> \<not> isCacheableForWrite body hs then s
         else (let cleanBody = JObj (filter (\<lambda>f. fst f \<noteq> ''_streamed'') fs)
               in if \<not> isSmallEnoughForSemanticCache cleanBody then s
                  else setCachedResponse len now ttl (bodySignature digest render model body apiKeyId) cleanBody
                         (streamTokensSaved usage) s)))"

section \<open>Lemmas\<close>

text \<open>What the walk estimates: eight bytes a number, four a boolean, the length of a string.\<close>

fun weight :: "json \<Rightarrow> int" where
  "weight (JStr s) = int (length s)"
| "weight (JNum r) = 8"
| "weight JNaN = 8"
| "weight (JBool b) = 4"
| "weight (JArr xs) = sum_list (map weight xs)"
| "weight (JObj fs) = sum_list (map (\<lambda>f. weight (snd f)) fs)"
| "weight v = 0"

lemma weight_nonneg: "0 \<le> weight v"
  by (induction v rule: weight.induct) (auto intro!: sum_list_nonneg)

lemma weights_nonneg: "0 \<le> sum_list (map weight vs)"
  by (intro sum_list_nonneg) (auto simp: weight_nonneg)

lemma walkSize_weight:
  "walkSize bytes stack \<le> SIZE_LIMIT \<longleftrightarrow> bytes + sum_list (map weight stack) \<le> SIZE_LIMIT"
proof (induction bytes stack rule: walkSize.induct)
  case (2 bytes v stack)
  have r: "sum_list (map weight (rev xs)) = sum_list (map weight xs)" for xs
    by (simp only: rev_map [symmetric] sum_list_rev)
  show ?case
  proof (cases v)
    case (JStr s)
    then show ?thesis using 2(6) [OF JStr] weights_nonneg [of stack]
      by (auto simp: walkSize.simps(2) [of bytes "JStr s" stack])
  next
    case (JArr xs)
    then show ?thesis using 2(7) [OF JArr] r [of xs]
      by (simp add: walkSize.simps(2) [of bytes "JArr xs" stack] add.assoc)
  next
    case (JObj fs)
    then show ?thesis using 2(8) [OF JObj] r [of "map snd fs"]
      by (simp add: walkSize.simps(2) [of bytes "JObj fs" stack] add.assoc o_def)
  qed (use 2 in \<open>simp_all add: walkSize.simps(2) [of bytes] add.assoc\<close>)
qed simp

lemma small_weight: "isSmallEnoughForSemanticCache v \<longleftrightarrow> weight v \<le> SIZE_LIMIT"
  using walkSize_weight [of 0 "[v]"]
  by (simp add: isSmallEnoughForSemanticCache_def estimateSizeFast_def SIZE_LIMIT_def)

lemma aFind_last: "\<forall>r \<in> set rows. fst r \<noteq> k \<Longrightarrow> aFind k (rows @ [(k, r)]) = Some (k, r)"
  by (induction rows) (auto simp: aFind_def)

lemma lruGet_after_set:
  assumes "lru_inv c" and "now2 \<le> now + nullish ttl (lru_defaultTTL c)"
  shows "fst (lruGet now2 k (lruSet len now k v ttl c)) = Some v"
proof -
  have a: "absLru (lruSet len now k v ttl c)
      = aFitting (lru_maxSize c) (lru_maxBytes c) (estimateSize len v) (aWithout k (absLru c))
          @ [(k, v, estimateSize len v, now + nullish ttl (lru_defaultTTL c))]"
    using lruSet_refines(1) [OF assms(1), of len now k v ttl] by simp
  have "aFind k (aFitting n b z (aWithout k rows) @ [(k, r)]) = Some (k, r)" for n b z rows r
  proof -
    obtain d where "aWithout k rows = d @ aFitting n b z (aWithout k rows)" using aFitting_suffix by blast
    then have "set (aFitting n b z (aWithout k rows)) \<subseteq> set (aWithout k rows)" by (metis Un_upper2 set_append)
    then have "\<forall>r \<in> set (aFitting n b z (aWithout k rows)). fst r \<noteq> k" by (auto simp: aWithout_def)
    then show ?thesis by (rule aFind_last)
  qed
  then have f: "aFind k (absLru (lruSet len now k v ttl c))
      = Some (k, v, estimateSize len v, now + nullish ttl (lru_defaultTTL c))"
    by (simp add: a)
  from lruGet_refines(1) [OF lruSet_refines(2) [OF assms(1), of len now k v ttl], where now = now2 and k = k] f assms(2)
  show ?thesis by (simp add: aDead_def)
qed

text \<open>Promoting rows: what was cached before stays in front of what has been promoted.\<close>

lemma aFitting_append:
  "\<exists>old' new'. aFitting n b z (old @ new) = old' @ new' \<and> (old' \<noteq> [] \<longrightarrow> new' = new)
     \<and> set old' \<subseteq> set old \<and> set new' \<subseteq> set new"
proof (induction old)
  case Nil
  obtain d where "new = d @ aFitting n b z new" using aFitting_suffix by blast
  then have "set (aFitting n b z new) \<subseteq> set new" by (metis Un_upper2 set_append)
  then show ?case by (intro exI [of _ "[]"] exI [of _ "aFitting n b z new"]) simp
next
  case (Cons r old)
  show ?case
  proof (cases "int (length ((r # old) @ new)) < n \<and> aBytes ((r # old) @ new) + z \<le> b")
    case True
    then have "aFitting n b z ((r # old) @ new) = (r # old) @ new" by simp
    then show ?thesis by blast
  next
    case False
    then have "aFitting n b z ((r # old) @ new) = aFitting n b z (old @ new)" by auto
    then show ?thesis using Cons.IH by fastforce
  qed
qed

lemma promote_fresh:
  assumes "lru_inv mem" and "aFind (db_signature r) (absLru mem) = None"
    and "db_signature r \<noteq> []" and "db_response r = Some response" and "\<forall>t. db_expiresAt r = Some t \<longrightarrow> now < t"
  shows "lru_inv (promoteRow len now r mem)"
    and "lru_maxSize (promoteRow len now r mem) = lru_maxSize mem"
    and "\<exists>row. fst row = db_signature r \<and> absLru (promoteRow len now r mem)
          = aFitting (lru_maxSize mem) (lru_maxBytes mem) (estimateSize len (response, db_tokens r)) (absLru mem) @ [row]"
proof -
  have j: "jget (db_signature r) (lru_cache mem) = None"
    using assms(2) by (simp add: absLru_def aFind_rows)
  obtain ms where p: "promoteRow len now r mem = lruSet len now (db_signature r) (response, db_tokens r) (Some ms) mem"
  proof -
    define ms where "ms = (case db_expiresAt r of Some t \<Rightarrow> t - now | None \<Rightarrow> DB_TIER_WARM_TTL_MS)"
    have "0 < ms" using assms(5) by (auto simp: ms_def DB_TIER_WARM_TTL_MS_def split: option.split)
    then have "promoteRow len now r mem = lruSet len now (db_signature r) (response, db_tokens r) (Some ms) mem"
      using assms(3,4) j by (simp add: promoteRow_def lruHas_def ms_def [symmetric])
    then show ?thesis by (rule that)
  qed
  show "lru_inv (promoteRow len now r mem)" unfolding p by (rule lruSet_refines(2) [OF assms(1)])
  show "lru_maxSize (promoteRow len now r mem) = lru_maxSize mem"
    using limits_kept [of len "Put now (db_signature r) (response, db_tokens r) (Some ms)" mem] by (simp add: p)
  have "aWithout (db_signature r) (absLru mem) = absLru mem"
    using j by (simp add: absLru_def aWithout_rows jdel_absent)
  with lruSet_refines(1) [OF assms(1), of len now "db_signature r" "(response, db_tokens r)" "Some ms"]
  have "absLru (promoteRow len now r mem) = aFitting (lru_maxSize mem) (lru_maxBytes mem)
      (estimateSize len (response, db_tokens r)) (absLru mem)
      @ [(db_signature r, (response, db_tokens r), estimateSize len (response, db_tokens r), now + ms)]"
    by (simp add: p)
  then show "\<exists>row. fst row = db_signature r \<and> absLru (promoteRow len now r mem)
          = aFitting (lru_maxSize mem) (lru_maxBytes mem) (estimateSize len (response, db_tokens r)) (absLru mem) @ [row]"
    by (metis fst_conv)
qed

definition validRow :: "millis \<Rightarrow> db_row \<Rightarrow> bool" where
  "validRow now r \<longleftrightarrow> db_signature r \<noteq> [] \<and> db_response r \<noteq> None \<and> pred_option (\<lambda>t. now < t) (db_expiresAt r)"

definition splitRows :: "string set \<Rightarrow> db_row list \<Rightarrow> cached lru \<Rightarrow> bool" where
  "splitRows K rs mem \<longleftrightarrow> (\<exists>old new. absLru mem = old @ new \<and> (old \<noteq> [] \<longrightarrow> length new = length rs)
     \<and> fst ` set old \<subseteq> K \<and> fst ` set new \<subseteq> db_signature ` set rs)"

lemma aFind_None: "aFind k rows = None \<longleftrightarrow> k \<notin> fst ` set rows"
  by (induction rows) (auto simp: aFind_def)

lemma promote_all:
  assumes "lru_inv mem" and "distinct (map db_signature rs)" and "list_all (validRow now) rs"
    and "fst ` set (absLru mem) = K" and "K \<inter> db_signature ` set rs = {}"
  shows "lru_inv (fold (promoteRow len now) rs mem)
    \<and> lru_maxSize (fold (promoteRow len now) rs mem) = lru_maxSize mem
    \<and> splitRows K rs (fold (promoteRow len now) rs mem)"
  using assms(2,3,5)
proof (induction rs rule: rev_induct)
  case Nil
  then show ?case using assms(1,4) by (auto simp: splitRows_def intro: exI [of _ "absLru mem"])
next
  case (snoc r rs)
  let ?m = "fold (promoteRow len now) rs mem"
  have ih: "lru_inv ?m" "lru_maxSize ?m = lru_maxSize mem" "splitRows K rs ?m"
    using snoc.IH snoc.prems by auto
  then obtain old new where on: "absLru ?m = old @ new" "old \<noteq> [] \<longrightarrow> length new = length rs"
    "fst ` set old \<subseteq> K" "fst ` set new \<subseteq> db_signature ` set rs" by (auto simp: splitRows_def)
  have "db_signature r \<notin> K" "db_signature r \<notin> db_signature ` set rs" using snoc.prems by auto
  then have "aFind (db_signature r) (absLru ?m) = None" using on by (auto simp: aFind_None image_Un)
  note none = this
  have vr: "validRow now r" using snoc.prems(2) by simp
  then obtain response where resp: "db_response r = Some response" and sg: "db_signature r \<noteq> []"
    by (auto simp: validRow_def)
  have ex: "\<forall>t. db_expiresAt r = Some t \<longrightarrow> now < t" using vr by (cases "db_expiresAt r") (simp_all add: validRow_def)
  note p = promote_fresh [OF ih(1) none sg resp ex, of len]
  then obtain row where row: "fst row = db_signature r" "absLru (promoteRow len now r ?m)
      = aFitting (lru_maxSize ?m) (lru_maxBytes ?m) (estimateSize len (response, db_tokens r)) (old @ new) @ [row]"
    using on(1) by auto
  obtain old' new' where f: "aFitting (lru_maxSize ?m) (lru_maxBytes ?m) (estimateSize len (response, db_tokens r)) (old @ new)
      = old' @ new'" "old' \<noteq> [] \<longrightarrow> new' = new" "set old' \<subseteq> set old" "set new' \<subseteq> set new"
    using aFitting_append [of "lru_maxSize ?m" "lru_maxBytes ?m" "estimateSize len (response, db_tokens r)" old new]
    by (elim exE conjE) (rule that)
  have "splitRows K (rs @ [r]) (promoteRow len now r ?m)"
    unfolding splitRows_def
  proof (intro exI conjI)
    show "absLru (promoteRow len now r ?m) = old' @ (new' @ [row])" by (simp add: row(2) f(1))
    show "old' \<noteq> [] \<longrightarrow> length (new' @ [row]) = length (rs @ [r])" using f(2,3) on(2) by auto
    show "fst ` set old' \<subseteq> K" using f(3) on(3) by auto
    show "fst ` set (new' @ [row]) \<subseteq> db_signature ` set (rs @ [r])" using f(4) on(4) row(1) by auto
  qed
  with p(1,2) ih(2) show ?case by simp
qed

section \<open>Properties\<close>

text \<open>
  A response is only served to the API key it was stored for: signatures of requests with
  different keys never agree, whatever the models and bodies, provided that digests have 64
  characters and no dot.
\<close>

theorem signatures_isolate_keys:
  assumes "\<forall>v. length (digest v) = 64 \<and> CHR ''.'' \<notin> set (digest v)"
    and "bodySignature digest render model1 body1 key1 = bodySignature digest render model2 body2 key2"
  shows "nullish key1 [] = nullish key2 []"
proof -
  have "bodySignature digest render m b k \<in> {x. \<exists>d. length d = 64 \<and> CHR ''.'' \<notin> set d
      \<and> x = (if nullish k [] = [] then d else nullish k [] @ ''.'' @ d)}" for m b k
    using assms(1) by (auto simp: bodySignature_def generateSignature_def Let_def split: option.split)
  from this [of model1 body1 key1] this [of model2 body2 key2] obtain d1 d2 where
    d: "length d1 = 64" "length d2 = 64" "CHR ''.'' \<notin> set d1" "CHR ''.'' \<notin> set d2"
    "(if nullish key1 [] = [] then d1 else nullish key1 [] @ ''.'' @ d1)
       = (if nullish key2 [] = [] then d2 else nullish key2 [] @ ''.'' @ d2)"
    using assms(2) by auto
  show ?thesis
  proof (cases "nullish key1 [] = [] \<or> nullish key2 [] = []")
    case True
    then have "nullish key1 [] = [] \<and> nullish key2 [] = []"
    proof (rule disjE)
      assume k: "nullish key1 [] = []"
      then have "d1 = nullish key2 [] @ ''.'' @ d2 \<or> nullish key2 [] = []" using d(5) by auto
      then show ?thesis using k d(3) by auto
    next
      assume k: "nullish key2 [] = []"
      then have "nullish key1 [] @ ''.'' @ d1 = d2 \<or> nullish key1 [] = []" using d(5) by auto
      then show ?thesis using k d(4) by auto
    qed
    then show ?thesis by simp
  next
    case False
    then have "nullish key1 [] @ ''.'' @ d1 = nullish key2 [] @ ''.'' @ d2" using d(5) by simp
    then show ?thesis using d(1,2) by (simp add: append_eq_append_conv)
  qed
qed

definition exampleDigest :: "json \<Rightarrow> string" where
  "exampleDigest v = replicate 64 CHR ''a''"

lemma signatures_isolate_keys_witness:
  "(\<forall>v. length (exampleDigest v) = 64 \<and> CHR ''.'' \<notin> set (exampleDigest v))
   \<and> nullish (Some ''key-1'') [] = nullish (Some ''key-1'') ([] :: string)"
proof -
  have d: "\<forall>v. length (exampleDigest v) = 64 \<and> CHR ''.'' \<notin> set (exampleDigest v)"
    by (simp add: exampleDigest_def)
  have "bodySignature exampleDigest (\<lambda>_. []) ''m1'' [] (Some ''key-1'')
      = bodySignature exampleDigest (\<lambda>_. []) ''m2'' [(''input'', JStr ''x'')] (Some ''key-1'')"
    by (simp add: bodySignature_def generateSignature_def exampleDigest_def)
  from signatures_isolate_keys [OF d this] d show ?thesis by blast
qed

text \<open>
  C33. What is stored is served: after a response has been stored for a body, every later request
  within its time to live gets it whose model, key, temperature 0, \<open>top_p\<close> and roles and contents of
  the messages agree. Nothing else of the two bodies has to agree: tools, response format, limits
  and system prompt are not part of the signature, so a request that differs in them is answered
  with the response to the other.
\<close>

theorem stored_response_served:
  assumes "lru_inv (sc_memory s)" and "isCacheableForWrite body1 hs1" and "isCacheableForRead body2 hs2"
    and "weight response \<le> 262144" and "isTruthy response" and "now2 \<le> now1 + ttl"
    and "normalizeConversation render (orElse (field ''messages'' body1) (field ''input'' body1))
       = normalizeConversation render (orElse (field ''messages'' body2) (field ''input'' body2))"
    and "defaulted (field ''top_p'' body1) (JNum 1) = defaulted (field ''top_p'' body2) (JNum 1)"
  shows "fst (checkSemanticCache digest render True now2 body2 hs2 model apiKeyId
      (storeSemanticCacheResponse digest render len True now1 ttl body1 hs1 model apiKeyId response tokensSaved s))
    = Some response"
proof -
  let ?sig = "bodySignature digest render model body1 apiKeyId"
  have "field ''temperature'' body1 = JNum 0" "field ''temperature'' body2 = JNum 0"
    using assms(2,3) by (simp_all add: isCacheableForWrite_def isCacheableForRead_def)
  then have sig: "bodySignature digest render model body2 apiKeyId = ?sig"
    using assms(7,8) by (simp add: bodySignature_def generateSignature_def defaulted_def)
  have "isSmallEnoughForSemanticCache response" using assms(4) by (simp add: small_weight SIZE_LIMIT_def)
  then have st: "storeSemanticCacheResponse digest render len True now1 ttl body1 hs1 model apiKeyId response tokensSaved s
      = setCachedResponse len now1 ttl ?sig response tokensSaved s"
    using assms(2) by (simp add: storeSemanticCacheResponse_def)
  have "fst (lruGet now2 ?sig (lruSet len now1 ?sig (response, tokensSaved) (Some ttl) (sc_memory s))) = Some (response, tokensSaved)"
    by (rule lruGet_after_set [OF assms(1)]) (simp add: assms(6))
  then have "fst (getCachedResponse now2 ?sig (setCachedResponse len now1 ttl ?sig response tokensSaved s)) = Some response"
    by (auto simp: getCachedResponse_def setCachedResponse_def Let_def case_prod_beta split: option.split)
  then show ?thesis using assms(3,5)
    by (simp add: checkSemanticCache_def st sig case_prod_beta Let_def)
qed

definition emptyCache :: sem_cache where
  "emptyCache = \<lparr>sc_memory = newLru None None None, sc_warmAt = None, sc_warming = False\<rparr>"

lemma stored_response_served_witness:
  "fst (checkSemanticCache exampleDigest (\<lambda>_. []) True 7000
      [(''messages'', JArr [JObj [(''role'', JStr ''user''), (''content'', JStr ''hi'')]]), (''temperature'', JNum 0),
       (''tools'', JArr [JStr ''shell''])] (\<lambda>_. None) ''gpt'' (Some ''k'')
      (storeSemanticCacheResponse exampleDigest (\<lambda>_. []) (\<lambda>_. Some 9) True 0 60000
        [(''messages'', JArr [JObj [(''role'', JStr ''user''), (''content'', JStr ''hi'')]]), (''temperature'', JNum 0)]
        (\<lambda>_. None) ''gpt'' (Some ''k'') (JObj [(''id'', JStr ''r1'')]) 3 emptyCache))
   = Some (JObj [(''id'', JStr ''r1'')])"
  by (rule stored_response_served)
     (simp_all add: emptyCache_def newLru_rep isCacheableForWrite_def isCacheableForRead_def isNoCacheRequested_def
       toLowerCase_def)

text \<open>
  Warming the memory tier evicts what is in use: when the query delivers as many fresh rows as
  the cache has places, none of the entries that were in memory before is left, although they were
  used more recently than the rows.
\<close>

theorem warm_up_evicts_memory:
  assumes "lru_inv (sc_memory s)" and "1 \<le> lru_maxSize (sc_memory s)" and "lru_maxSize (sc_memory s) \<le> int (length rs)"
    and "distinct (map db_signature rs)" and "list_all (validRow now) rs"
    and "set (jkeys (lru_cache (sc_memory s))) \<inter> db_signature ` set rs = {}"
    and "k \<in> set (jkeys (lru_cache (sc_memory s)))"
  shows "jget k (lru_cache (sc_memory (warmFinish len now (Some rs) s))) = None"
proof -
  let ?K = "set (jkeys (lru_cache (sc_memory s)))"
  have K: "fst ` set (absLru c) = set (jkeys (lru_cache c))" for c :: "cached lru"
    by (simp add: absLru_def jkeys_def image_image)
  define m where "m = fold (promoteRow len now) rs (sc_memory s)"
  have m: "lru_inv m" "lru_maxSize m = lru_maxSize (sc_memory s)" "splitRows ?K rs m"
    using promote_all [OF assms(1,4,5) K assms(6), of len] by (simp_all add: m_def)
  then obtain old new where on: "absLru m = old @ new" "old \<noteq> [] \<longrightarrow> length new = length rs"
    "fst ` set new \<subseteq> db_signature ` set rs" by (auto simp: splitRows_def)
  have l: "length (absLru m) \<le> 1 \<or> int (length (absLru m)) \<le> lru_maxSize m"
    using m(1) by (auto simp: lru_inv_def absLru_def)
  have "old = []"
  proof (rule ccontr)
    assume o1: "old \<noteq> []"
    then have "length (absLru m) = length old + length rs" "1 \<le> length old" using on by (simp_all add: Suc_le_eq)
    then show False using l assms(2,3) m(2) by linarith
  qed
  then have "set (jkeys (lru_cache m)) \<subseteq> db_signature ` set rs" using on(1,3) K [of m] by simp
  then have "k \<notin> set (jkeys (lru_cache m))" using assms(6,7) by auto
  then show ?thesis by (simp add: warmFinish_def m_def jget_None_iff)
qed

lemma warm_up_evicts_memory_witness:
  "jget ''hot'' (lru_cache (sc_memory (warmFinish (\<lambda>_. Some 3) 100
      (Some [\<lparr>db_signature = ''a'', db_response = Some (JStr ''x''), db_tokens = 0, db_expiresAt = Some 900\<rparr>])
      (emptyCache\<lparr>sc_memory := lruSet (\<lambda>_. Some 3) 99 ''hot'' (JNull, 0) None (newLru (Some 1) None None)\<rparr>)))) = None"
proof -
  let ?m = "lruSet (\<lambda>_. Some 3) 99 ''hot'' (JNull, 0) None (newLru (Some 1) None None) :: cached lru"
  have "lru_inv ?m" by (rule lruSet_refines(2)) (simp add: newLru_rep)
  moreover have "lru_maxSize ?m = 1" "jkeys (lru_cache ?m) = [''hot'']" by code_simp+
  ultimately show ?thesis
    by (intro warm_up_evicts_memory) (simp_all add: validRow_def)
qed

text \<open>
  The early exit and the explicit stack of the size estimate change nothing: a response is small
  enough exactly when its strings, numbers and booleans weigh at most 256 KiB together.
\<close>

theorem size_estimate_exact:
  "isSmallEnoughForSemanticCache v \<longleftrightarrow> weight v \<le> 262144"
  by (simp add: small_weight SIZE_LIMIT_def)

end
