(* ===== verification/Decimals.thy ===== *)
theory Decimals
  imports JsValues
begin

text \<open>
  Decimal text: what \<open>decimalDigits\<close> writes is read back by \<open>parseInt\<close>, and contains nothing but digits.
\<close>

lemma digitValue_digit: "n < 10 \<Longrightarrow> digitValue 10 (char_of (48 + n :: nat)) = Some (int n)"
proof -
  assume n: "n < 10"
  have "(of_char (char_of (48 + n :: nat)) :: int) = int (of_char (char_of (48 + n)))" by (simp only: of_nat_of_char)
  also have "\<dots> = 48 + int n" using n by (simp add: of_char_of)
  finally show ?thesis using n by (simp add: digitValue_def Let_def)
qed

lemma char_eq_nat: "c = d \<longleftrightarrow> (of_char c :: nat) = of_char d"
  by (simp add: of_char_eq_iff)

text \<open>The digits of a number are read back, up to the first character that is not a digit.\<close>

lemma spanDigits_decimal:
  "spanDigits 10 v k (decimalDigits n @ cs)
     = spanDigits 10 (v * 10 ^ length (decimalDigits n) + int n) (k + length (decimalDigits n)) cs"
proof (induction n arbitrary: v k cs rule: decimalDigits.induct)
  case (1 n)
  show ?case
  proof (cases "n < 10")
    case True
    then show ?thesis by (subst (1 2 3) decimalDigits.simps) (simp add: digitValue_digit)
  next
    case False
    have d: "decimalDigits n = decimalDigits (n div 10) @ [char_of (48 + n mod 10)]"
      using False by (subst decimalDigits.simps) simp
    have "int n = int (n div 10) * 10 + int (n mod 10)" by presburger
    then show ?thesis using False
      by (simp add: d 1 [OF False] digitValue_digit algebra_simps del: of_nat_mod of_nat_div)
  qed
qed

lemma decimal_head: "\<exists>d q. decimalDigits n = char_of (48 + d :: nat) # q \<and> d < 10"
proof (induction n rule: decimalDigits.induct)
  case (1 n)
  show ?case
  proof (cases "n < 10")
    case True
    then show ?thesis by (subst decimalDigits.simps) (intro exI [of _ n] exI [of _ "[]"], simp)
  next
    case False
    then obtain d q where "decimalDigits (n div 10) = char_of (48 + d :: nat) # q" "d < 10" using 1 by blast
    then show ?thesis using False
      by (subst decimalDigits.simps) (intro exI [of _ d] exI [of _ "q @ _"], simp)
  qed
qed

lemma of_char_digit: "d < 10 \<Longrightarrow> (of_char (char_of (48 + d :: nat)) :: nat) = 48 + d"
  by (simp add: of_char_of)

lemma digit_plain: "d < 10 \<Longrightarrow> \<not> isSpace (char_of (48 + d :: nat))"
  by (simp add: isSpace_def of_char_digit)

lemma digit_not:
  "d < 10 \<Longrightarrow> (of_char c :: nat) < 48 \<Longrightarrow> char_of (48 + d :: nat) \<noteq> c"
  by (auto simp: char_eq_nat of_char_digit)

lemma parse_decimal:
  assumes "cs = [] \<or> digitValue 10 (hd cs) = None"
  shows "jsParseInt (decimalDigits n @ cs) = Some (int n)"
proof -
  obtain d q where d: "decimalDigits n = char_of (48 + d :: nat) # q" "d < 10" using decimal_head by blast
  have "splitSign (decimalDigits n @ cs) = (1, decimalDigits n @ cs)"
    using d(2) by (simp add: d(1) splitSign_def digit_not)
  moreover have "dropWhile isSpace (decimalDigits n @ cs) = decimalDigits n @ cs"
    using d(2) by (simp add: d(1) digit_plain)
  moreover have "spanDigits 10 v k cs = (v, k, cs)" for v k
    using assms by (cases cs) auto
  ultimately show ?thesis
    by (simp add: jsParseInt_def spanDigits_decimal) (simp add: d(1))
qed

lemma decimal_chars: "c \<in> set (decimalDigits n) \<Longrightarrow> 48 \<le> (of_char c :: nat)"
proof (induction n rule: decimalDigits.induct)
  case (1 n)
  then show ?case by (subst (asm) (2) decimalDigits.simps) (auto split: if_splits simp: of_char_digit)
qed

lemma not_in_decimal: "(of_char c :: nat) < 48 \<Longrightarrow> c \<notin> set (decimalDigits n)"
  using decimal_chars by fastforce

end
