(* ===== verification/IpFilter.thy ===== *)
theory IpFilter
  imports Decimals "HOL-Library.Word"
begin

unbundle bit_operations_syntax

text \<open>
  The access control by IP address, \<open>open-sse/services/ipFilter.ts\<close>: the lists and temporary bans,
  the check, CIDR and wildcard matching on 32-bit integers, and the configuration that is written
  to the database at once and loaded from it asynchronously.

  The lists are in insertion order, as \<open>Set\<close> keeps them. \<open>isIP\<close> of \<open>node:net\<close> is an argument. A read
  of the stored row that is under way ends in a step of its own, \<open>applyLoad\<close>, with the row it read.
\<close>

section \<open>Addresses\<close>

definition normalizeIP :: "string \<Rightarrow> string" where
  "normalizeIP ip =
     (if ip = [] then [] else trim (if starts_with ''::ffff:'' ip then drop 7 ip else ip))"

text \<open>The loop of \<open>ipToNum\<close> over the four parts; \<open>num << 8 | n\<close> on 32 bits.\<close>

fun numOfParts :: "32 word \<Rightarrow> string list \<Rightarrow> 32 word option" where
  "numOfParts num [] = Some num"
| "numOfParts num (p # ps) =
     (case jsParseInt p of
        None \<Rightarrow> None
      | Some n \<Rightarrow> if n < 0 \<or> 255 < n then None else numOfParts (push_bit 8 num OR word_of_int n) ps)"

definition ipToNum :: "string \<Rightarrow> 32 word option" where
  "ipToNum ip = (let parts = splitOn (CHR ''.'') ip in if length parts \<noteq> 4 then None else numOfParts 0 parts)"

text \<open>\<open>(-1 << (32 - mask)) >>> 0\<close>: a shift count is taken modulo 32.\<close>

definition maskBits :: "int \<Rightarrow> 32 word" where
  "maskBits m = push_bit (nat ((32 - m) mod 32)) (- 1)"

definition matchesCIDR :: "string \<Rightarrow> string \<Rightarrow> bool" where
  "matchesCIDR ip cidr =
     (case splitOn (CHR ''/'') cidr of
        rangeText # bitsText # rest \<Rightarrow>
          (case jsParseInt bitsText of
             None \<Rightarrow> False
           | Some m \<Rightarrow>
             (if m < 0 \<or> 32 < m then False
              else (case (ipToNum ip, ipToNum rangeText) of
                      (Some ipNum, Some rangeNum) \<Rightarrow> ipNum AND maskBits m = rangeNum AND maskBits m
                    | _ \<Rightarrow> False)))
      | _ \<Rightarrow> False)"

definition matchesWildcard :: "string \<Rightarrow> string \<Rightarrow> bool" where
  "matchesWildcard ip pat =
     (let ipParts = splitOn (CHR ''.'') ip; patParts = splitOn (CHR ''.'') pat
      in if length ipParts \<noteq> 4 \<or> length patParts \<noteq> 4 then False
         else list_all2 (\<lambda>part q. q = ''*'' \<or> part = q) ipParts patParts)"

definition matchesAny :: "string \<Rightarrow> string list \<Rightarrow> bool" where
  "matchesAny ip ipSet \<longleftrightarrow>
     ip \<in> set ipSet
     \<or> list_ex (\<lambda>entry. CHR ''/'' \<in> set entry \<and> matchesCIDR ip entry
                        \<or> CHR ''*'' \<in> set entry \<and> matchesWildcard ip entry) ipSet"

definition pickFirstValidIp :: "(string \<Rightarrow> nat) \<Rightarrow> string option \<Rightarrow> string option" where
  "pickFirstValidIp isIP rawValue =
     (case rawValue of
        None \<Rightarrow> None
      | Some raw \<Rightarrow>
        (if trim raw = [] then None
         else find (\<lambda>ip. ip \<noteq> [] \<and> isIP ip \<noteq> 0) (map normalizeIP (splitOn (CHR '','') raw))))"

section \<open>The filter\<close>

text \<open>\<open>Set.add\<close>, and a set built from an array.\<close>

definition addTo :: "string \<Rightarrow> string list \<Rightarrow> string list" where
  "addTo x xs = (if x \<in> set xs then xs else xs @ [x])"

definition setOf :: "string list \<Rightarrow> string list" where
  "setOf xs = fold addTo xs []"


record temp_ban =
  tb_until :: millis
  tb_reason :: string

record ip_row =
  ir_enabled :: bool
  ir_mode :: "string option"
  ir_blacklist :: "string list option"
  ir_whitelist :: "string list option"

record ip_filter =
  if_loaded :: bool
  if_enabled :: bool
  if_mode :: string
  if_blacklist :: "string list"
  if_whitelist :: "string list"
  if_tempBans :: "(string, temp_ban) jmap"
  if_saved :: "ip_row option"

definition resetIPFilter :: "ip_filter \<Rightarrow> ip_filter" where
  "resetIPFilter s =
     \<lparr>if_loaded = False, if_enabled = False, if_mode = ''blacklist'', if_blacklist = [], if_whitelist = [],
      if_tempBans = [], if_saved = if_saved s\<rparr>"

text \<open>The first access starts a read of the row; what it starts is the second component.\<close>

definition ensureLoaded :: "ip_filter \<Rightarrow> ip_filter \<times> ip_row option option" where
  "ensureLoaded s = (if if_loaded s then (s, None) else (s\<lparr>if_loaded := True\<rparr>, Some (if_saved s)))"

text \<open>The continuation of the read.\<close>

definition applyLoad :: "ip_row option \<Rightarrow> ip_filter \<Rightarrow> ip_filter" where
  "applyLoad row s =
     (case row of
        None \<Rightarrow> s
      | Some r \<Rightarrow> s\<lparr>if_enabled := ir_enabled r, if_mode := nullish (ir_mode r) (if_mode s),
                    if_blacklist := setOf (nullish (ir_blacklist r) []),
                    if_whitelist := setOf (nullish (ir_whitelist r) [])\<rparr>)"

definition persist :: "ip_filter \<Rightarrow> ip_filter" where
  "persist s =
     s\<lparr>if_saved := Some \<lparr>ir_enabled = if_enabled s, ir_mode = Some (if_mode s),
          ir_blacklist = Some (if_blacklist s), ir_whitelist = Some (if_whitelist s)\<rparr>\<rparr>"

definition sweepBans :: "millis \<Rightarrow> ip_filter \<Rightarrow> ip_filter" where
  "sweepBans now s = s\<lparr>if_tempBans := filter (\<lambda>(ip, e). \<not> tb_until e \<le> now) (if_tempBans s)\<rparr>"

record ip_patch =
  ip_enabled :: "bool option"
  ip_mode :: "string option"
  ip_blacklist :: "string list option"
  ip_whitelist :: "string list option"

definition configureIPFilter :: "ip_patch \<Rightarrow> ip_filter \<Rightarrow> ip_filter \<times> ip_row option option" where
  "configureIPFilter config s0 =
     (let (s, load) = ensureLoaded s0;
          s1 = (case ip_enabled config of Some e \<Rightarrow> s\<lparr>if_enabled := e\<rparr> | None \<Rightarrow> s);
          s2 = (case ip_mode config of Some m \<Rightarrow> if m \<noteq> [] then s1\<lparr>if_mode := m\<rparr> else s1 | None \<Rightarrow> s1);
          s3 = (case ip_blacklist config of Some l \<Rightarrow> s2\<lparr>if_blacklist := setOf l\<rparr> | None \<Rightarrow> s2);
          s4 = (case ip_whitelist config of Some l \<Rightarrow> s3\<lparr>if_whitelist := setOf l\<rparr> | None \<Rightarrow> s3)
      in (persist s4, load))"

datatype refusal = TemporarilyBanned string | NotInWhitelist | Blacklisted

text \<open>\<open>None\<close> is an address that is allowed.\<close>

definition checkMode :: "string \<Rightarrow> ip_filter \<Rightarrow> refusal option" where
  "checkMode ip s =
     (if if_mode s = ''whitelist'' then (if matchesAny ip (if_whitelist s) then None else Some NotInWhitelist)
      else if if_mode s = ''whitelist-priority''
           then (if matchesAny ip (if_whitelist s) then None
                 else if matchesAny ip (if_blacklist s) then Some Blacklisted else None)
      else (if matchesAny ip (if_blacklist s) then Some Blacklisted else None))"

definition checkIP :: "millis \<Rightarrow> string \<Rightarrow> ip_filter \<Rightarrow> refusal option \<times> ip_filter \<times> ip_row option option" where
  "checkIP now ip s0 =
     (let (s, load) = ensureLoaded s0
      in if \<not> if_enabled s then (None, s, load)
         else if ip = [] then (None, s, load)
         else (let normalizedIP = normalizeIP ip
               in (case jget normalizedIP (if_tempBans s) of
                     None \<Rightarrow> (checkMode normalizedIP s, s, load)
                   | Some ban \<Rightarrow>
                     (if now < tb_until ban then (Some (TemporarilyBanned (tb_reason ban)), s, load)
                      else (let s' = s\<lparr>if_tempBans := jdel normalizedIP (if_tempBans s)\<rparr>
                            in (checkMode normalizedIP s', s', load))))))"

definition tempBanIP :: "millis \<Rightarrow> string \<Rightarrow> int \<Rightarrow> string \<Rightarrow> ip_filter \<Rightarrow> ip_filter" where
  "tempBanIP now ip durationMs reason s =
     s\<lparr>if_tempBans := jset (normalizeIP ip) \<lparr>tb_until = now + durationMs, tb_reason = reason\<rparr> (if_tempBans s)\<rparr>"

definition removeTempBan :: "string \<Rightarrow> ip_filter \<Rightarrow> ip_filter" where
  "removeTempBan ip s = s\<lparr>if_tempBans := jdel (normalizeIP ip) (if_tempBans s)\<rparr>"

definition addToBlacklist :: "string \<Rightarrow> ip_filter \<Rightarrow> ip_filter \<times> ip_row option option" where
  "addToBlacklist ip s0 =
     (let (s, load) = ensureLoaded s0 in (persist (s\<lparr>if_blacklist := addTo (normalizeIP ip) (if_blacklist s)\<rparr>), load))"

definition removeFromBlacklist :: "string \<Rightarrow> ip_filter \<Rightarrow> ip_filter \<times> ip_row option option" where
  "removeFromBlacklist ip s0 =
     (let (s, load) = ensureLoaded s0
      in (persist (s\<lparr>if_blacklist := filter (\<lambda>x. x \<noteq> normalizeIP ip) (if_blacklist s)\<rparr>), load))"

definition addToWhitelist :: "string \<Rightarrow> ip_filter \<Rightarrow> ip_filter \<times> ip_row option option" where
  "addToWhitelist ip s0 =
     (let (s, load) = ensureLoaded s0 in (persist (s\<lparr>if_whitelist := addTo (normalizeIP ip) (if_whitelist s)\<rparr>), load))"

definition removeFromWhitelist :: "string \<Rightarrow> ip_filter \<Rightarrow> ip_filter \<times> ip_row option option" where
  "removeFromWhitelist ip s0 =
     (let (s, load) = ensureLoaded s0
      in (persist (s\<lparr>if_whitelist := filter (\<lambda>x. x \<noteq> normalizeIP ip) (if_whitelist s)\<rparr>), load))"

text \<open>The address a request is checked under: the first header that has a valid one.\<close>

definition firstValid :: "string option list \<Rightarrow> string option" where
  "firstValid xs = (case find (\<lambda>x. case x of Some v \<Rightarrow> v \<noteq> [] | None \<Rightarrow> False) xs of Some v \<Rightarrow> v | None \<Rightarrow> None)"

definition requestIP :: "(string \<Rightarrow> nat) \<Rightarrow> (string \<Rightarrow> string option) \<Rightarrow> string option \<Rightarrow> string" where
  "requestIP isIP headers reqIp =
     nullish (firstValid [pickFirstValidIp isIP (headers ''cf-connecting-ip''),
                          pickFirstValidIp isIP (headers ''x-forwarded-for''),
                          pickFirstValidIp isIP (headers ''x-real-ip''),
                          Some (normalizeIP (nullish reqIp []))]) ''unknown''"

definition checkRequestIP ::
  "(string \<Rightarrow> nat) \<Rightarrow> millis \<Rightarrow> (string \<Rightarrow> string option) \<Rightarrow> string option \<Rightarrow> ip_filter
   \<Rightarrow> refusal option \<times> ip_filter \<times> ip_row option option" where
  "checkRequestIP isIP now headers reqIp s = checkIP now (requestIP isIP headers reqIp) s"

definition extractClientIP ::
  "(string \<Rightarrow> nat) \<Rightarrow> (string \<Rightarrow> string option) \<Rightarrow> string option \<Rightarrow> string option \<Rightarrow> string" where
  "extractClientIP isIP headers remoteAddress reqIp =
     nullish (firstValid [pickFirstValidIp isIP (headers ''cf-connecting-ip''),
                          pickFirstValidIp isIP (headers ''x-forwarded-for''),
                          pickFirstValidIp isIP (headers ''x-real-ip''),
                          pickFirstValidIp isIP remoteAddress,
                          pickFirstValidIp isIP reqIp]) ''unknown''"

section \<open>Dotted notation\<close>

definition byteAt :: "nat \<Rightarrow> 32 word \<Rightarrow> nat" where
  "byteAt i w = unat (take_bit 8 (drop_bit i w))"

definition dotted :: "32 word \<Rightarrow> string" where
  "dotted w = decimalDigits (byteAt 24 w) @ ''.'' @ decimalDigits (byteAt 16 w) @ ''.''
     @ decimalDigits (byteAt 8 w) @ ''.'' @ decimalDigits (byteAt 0 w)"

lemma byteAt_bound: "byteAt i w < 256"
proof -
  have "unat (take_bit 8 (drop_bit i w) :: 32 word) < 2 ^ 8"
    by (simp only: unsigned_take_bit_eq take_bit_nat_less_exp)
  then show ?thesis by (simp add: byteAt_def)
qed

lemma word_of_byte: "word_of_int (int (byteAt i w)) = (take_bit 8 (drop_bit i w) :: 32 word)"
  by (simp add: byteAt_def)

lemma split_dotted:
  "splitOn (CHR ''.'') (dotted w)
     = [decimalDigits (byteAt 24 w), decimalDigits (byteAt 16 w), decimalDigits (byteAt 8 w), decimalDigits (byteAt 0 w)]"
  by (simp add: dotted_def splitOn_append splitOn_none not_in_decimal)

lemma bytes_joined:
  "push_bit 8 (push_bit 8 (push_bit 8 (push_bit 8 0 OR take_bit 8 (drop_bit 24 w)) OR take_bit 8 (drop_bit 16 w))
      OR take_bit 8 (drop_bit 8 w)) OR take_bit 8 (drop_bit 0 w) = (w :: 32 word)"
proof (rule bit_word_eqI)
  fix n assume "n < LENGTH(32)"
  consider "n < 8" | "8 \<le> n" "n < 16" | "16 \<le> n" "n < 24" | "24 \<le> n" "n < 32"
    using \<open>n < LENGTH(32)\<close> by fastforce
  then show "bit (push_bit 8 (push_bit 8 (push_bit 8 (push_bit 8 0 OR take_bit 8 (drop_bit 24 w)) OR take_bit 8 (drop_bit 16 w))
      OR take_bit 8 (drop_bit 8 w)) OR take_bit 8 (drop_bit 0 w)) n = bit w n"
    by cases (simp_all add: bit_simps less_diff_conv2)
qed

text \<open>Every address in dotted notation is read as its number.\<close>

lemma ipToNum_dotted: "ipToNum (dotted w) = Some w"
proof -
  have p: "jsParseInt (decimalDigits n) = Some (int n)" for n using parse_decimal [of "[]" n] by simp
  have b: "\<not> (int (byteAt i w) < 0 \<or> 255 < int (byteAt i w))" for i using byteAt_bound [of i w] by simp
  have "numOfParts 0 [decimalDigits (byteAt 24 w), decimalDigits (byteAt 16 w), decimalDigits (byteAt 8 w),
      decimalDigits (byteAt 0 w)] = Some w"
    unfolding numOfParts.simps p option.case if_not_P [OF b] word_of_byte bytes_joined by (rule refl)
  then show ?thesis unfolding ipToNum_def split_dotted Let_def by simp
qed

lemma masked_eq: "(a AND push_bit n (- 1) = b AND push_bit n (- 1)) = (drop_bit n a = drop_bit n (b :: 32 word))"
proof
  assume e: "a AND push_bit n (- 1) = b AND push_bit n (- 1)"
  show "drop_bit n a = drop_bit n b"
  proof (rule bit_word_eqI)
    fix i assume i: "i < LENGTH(32)"
    have "bit (a AND push_bit n (- 1)) (n + i) = bit (b AND push_bit n (- 1)) (n + i)" using e by simp
    then show "bit (drop_bit n a) i = bit (drop_bit n b) i"
      by (cases "n + i < 32") (auto simp: bit_simps dest: bit_imp_le_length)
  qed
next
  assume e: "drop_bit n a = drop_bit n b"
  show "a AND push_bit n (- 1) = b AND push_bit n (- 1)"
  proof (rule bit_word_eqI)
    fix i assume "i < LENGTH(32)"
    have "bit (drop_bit n a) (i - n) = bit (drop_bit n b) (i - n)" using e by simp
    then show "bit (a AND push_bit n (- 1)) i = bit (b AND push_bit n (- 1)) i" by (auto simp: bit_simps)
  qed
qed

lemma maskBits_eq:
  "(a AND maskBits m = b AND maskBits m)
     = (drop_bit (nat ((32 - m) mod 32)) a = drop_bit (nat ((32 - m) mod 32)) b)"
  unfolding maskBits_def by (rule masked_eq)

lemma cidr_dotted:
  assumes "m \<le> 32"
  shows "matchesCIDR (dotted a) (dotted b @ ''/'' @ decimalDigits m) \<longleftrightarrow>
     drop_bit (nat ((32 - int m) mod 32)) a = drop_bit (nat ((32 - int m) mod 32)) b"
proof -
  have "CHR ''/'' \<notin> set (dotted b)" "CHR ''/'' \<notin> set (decimalDigits m)"
    by (simp_all add: dotted_def not_in_decimal)
  then have "splitOn (CHR ''/'') (dotted b @ ''/'' @ decimalDigits m) = [dotted b, decimalDigits m]"
    by (simp add: splitOn_append splitOn_none)
  then show ?thesis using assms parse_decimal [of "[]" m]
    by (simp add: matchesCIDR_def ipToNum_dotted maskBits_eq)
qed

lemma list_ex_set: "list_ex P xs \<longleftrightarrow> (\<exists>x \<in> set xs. P x)"
  by (induction xs) auto

lemma matchesAny_listed: "ip \<in> set ipSet \<Longrightarrow> matchesAny ip ipSet"
  by (simp add: matchesAny_def)

lemma set_fold_addTo: "set (fold addTo xs acc) = set acc \<union> set xs"
  by (induction xs arbitrary: acc) (auto simp: addTo_def)

lemma set_setOf [simp]: "set (setOf xs) = set xs"
  by (simp add: setOf_def set_fold_addTo)

section \<open>Properties\<close>

text \<open>
  A CIDR entry with a prefix of 1 to 32 bits matches exactly the addresses that agree with it on
  those bits, for all addresses in dotted notation.
\<close>

theorem cidr_matches_prefix:
  assumes "1 \<le> m" and "m \<le> 32"
  shows "matchesCIDR (dotted a) (dotted b @ ''/'' @ decimalDigits m) \<longleftrightarrow> drop_bit (32 - m) a = drop_bit (32 - m) b"
proof -
  have "(32 - int m) mod 32 = 32 - int m" by (rule mod_pos_pos_trivial) (use assms in linarith)+
  then have "nat ((32 - int m) mod 32) = 32 - m" using assms by simp
  then show ?thesis using cidr_dotted [OF assms(2), of a b] by simp
qed

lemma cidr_matches_prefix_witness:
  "matchesCIDR ''192.168.7.9'' ''192.168.0.0/16'' \<and> \<not> matchesCIDR ''192.169.7.9'' ''192.168.0.0/16''"
proof -
  have d: "dotted 0xC0A80709 = ''192.168.7.9''" "dotted 0xC0A90709 = ''192.169.7.9''"
    "dotted 0xC0A80000 = ''192.168.0.0''" "decimalDigits 16 = ''16''" by code_simp+
  show ?thesis
    using cidr_matches_prefix [where m = 16 and a = "0xC0A80709" and b = "0xC0A80000"]
      cidr_matches_prefix [where m = 16 and a = "0xC0A90709" and b = "0xC0A80000"]
    by (simp add: d)
qed

text \<open>
  A prefix of 0 bits should match every address, but the shift by 32 is a shift by 0 in
  JavaScript, so that \<open>0.0.0.0/0\<close> matches the one address \<open>0.0.0.0\<close> and a list meant for every
  address applies to none.
\<close>

theorem cidr_zero_matches_one:
  "matchesCIDR (dotted a) (dotted b @ ''/0'') \<longleftrightarrow> a = b"
proof -
  have "decimalDigits 0 = ''0''" by code_simp
  then show ?thesis using cidr_dotted [of 0 a b] by simp
qed

text \<open>
  The answer of a check is exactly the documented order: a disabled filter allows, then a running
  temporary ban refuses, then the mode decides, the whitelist winning over the blacklist only where
  it has priority; an unknown mode is the blacklist.
\<close>

theorem check_precedence:
  assumes "if_enabled s" and "ip \<noteq> []" and "if_loaded s" and "ipN = normalizeIP ip"
  shows "fst (checkIP now ip s) =
    (case jget ipN (if_tempBans s) of
       Some ban \<Rightarrow> if now < tb_until ban then Some (TemporarilyBanned (tb_reason ban)) else checkMode ipN s
     | None \<Rightarrow> checkMode ipN s)
    \<and> (checkMode ipN s = None \<longleftrightarrow>
        (if if_mode s = ''whitelist'' then matchesAny ipN (if_whitelist s)
         else if if_mode s = ''whitelist-priority''
              then matchesAny ipN (if_whitelist s) \<or> \<not> matchesAny ipN (if_blacklist s)
              else \<not> matchesAny ipN (if_blacklist s)))"
  using assms
  by (auto simp: checkIP_def ensureLoaded_def checkMode_def Let_def split: option.split)

definition exampleFilter :: ip_filter where
  "exampleFilter = \<lparr>if_loaded = True, if_enabled = True, if_mode = ''whitelist-priority'',
     if_blacklist = [''10.0.0.0/8''], if_whitelist = [''10.1.*.*''],
     if_tempBans = [(''10.1.0.7'', \<lparr>tb_until = 500, tb_reason = ''x''\<rparr>)], if_saved = None\<rparr>"

lemma check_precedence_witness:
  "fst (checkIP 100 ''::ffff:10.1.0.7'' exampleFilter) = Some (TemporarilyBanned ''x'')
   \<and> fst (checkIP 500 ''10.1.0.7'' exampleFilter) = None \<and> fst (checkIP 500 ''10.2.0.7'' exampleFilter) = Some Blacklisted"
proof -
  have f: "if_enabled exampleFilter" "if_loaded exampleFilter" by (simp_all add: exampleFilter_def)
  have n: "normalizeIP ''::ffff:10.1.0.7'' = ''10.1.0.7''" "normalizeIP ''10.1.0.7'' = ''10.1.0.7''"
    "normalizeIP ''10.2.0.7'' = ''10.2.0.7''" by code_simp+
  have m: "checkMode ''10.1.0.7'' exampleFilter = None" "checkMode ''10.2.0.7'' exampleFilter = Some Blacklisted"
    by code_simp+
  have b: "jget ''10.1.0.7'' (if_tempBans exampleFilter) = Some \<lparr>tb_until = 500, tb_reason = ''x''\<rparr>"
    "jget ''10.2.0.7'' (if_tempBans exampleFilter) = None" by (simp_all add: exampleFilter_def jget_Cons)
  show ?thesis
    using conjunct1 [OF check_precedence [OF f(1) _ f(2) n(1) [symmetric], of 100]]
      conjunct1 [OF check_precedence [OF f(1) _ f(2) n(2) [symmetric], of 500]]
      conjunct1 [OF check_precedence [OF f(1) _ f(2) n(3) [symmetric], of 500]]
    by (simp add: b m)
qed

text \<open>
  A configuration made through the first access after a start is lost in memory: the access
  starts reading the stored row, the new configuration is applied and saved, and then the old row
  arrives and replaces it; the filter enforces the old configuration although the new one is stored.
\<close>

theorem first_configuration_overwritten:
  assumes "\<not> if_loaded s0" and "if_saved s0 = Some row" and "configureIPFilter config s0 = (s1, load)"
  shows "\<exists>r. load = Some r \<and> (let s2 = applyLoad r s1 in
      if_enabled s2 = ir_enabled row \<and> if_blacklist s2 = setOf (nullish (ir_blacklist row) [])
      \<and> if_whitelist s2 = setOf (nullish (ir_whitelist row) [])
      \<and> map_option ir_enabled (if_saved s2) = Some (nullish (ip_enabled config) (if_enabled s0)))"
proof -
  have l: "load = Some (Some row)"
    using assms by (simp add: configureIPFilter_def ensureLoaded_def Let_def)
  have "if_saved s1 \<noteq> None \<and> ir_enabled (the (if_saved s1)) = nullish (ip_enabled config) (if_enabled s0)"
    using assms(1,3)
    by (cases "ip_enabled config"; cases "ip_mode config"; cases "ip_blacklist config"; cases "ip_whitelist config")
       (simp_all add: configureIPFilter_def ensureLoaded_def persist_def Let_def, clarsimp+)
  then obtain r where "if_saved s1 = Some r" "ir_enabled r = nullish (ip_enabled config) (if_enabled s0)" by auto
  then show ?thesis by (simp add: l applyLoad_def)
qed

lemma first_configuration_overwritten_witness:
  "let s0 = \<lparr>if_loaded = False, if_enabled = False, if_mode = ''blacklist'', if_blacklist = [], if_whitelist = [],
             if_tempBans = [], if_saved = Some \<lparr>ir_enabled = False, ir_mode = None, ir_blacklist = None, ir_whitelist = None\<rparr>\<rparr>;
       (s1, load) = configureIPFilter \<lparr>ip_enabled = Some True, ip_mode = None, ip_blacklist = Some [''6.6.6.6''],
                                       ip_whitelist = None\<rparr> s0
   in \<not> if_enabled (applyLoad (the load) s1)"
proof -
  let ?s0 = "\<lparr>if_loaded = False, if_enabled = False, if_mode = ''blacklist'', if_blacklist = [], if_whitelist = [],
             if_tempBans = [], if_saved = Some \<lparr>ir_enabled = False, ir_mode = None, ir_blacklist = None, ir_whitelist = None\<rparr>\<rparr>"
  let ?c = "\<lparr>ip_enabled = Some True, ip_mode = None, ip_blacklist = Some [''6.6.6.6''], ip_whitelist = None\<rparr>"
  obtain s1 load where c: "configureIPFilter ?c ?s0 = (s1, load)" by (rule prod.exhaust)
  from first_configuration_overwritten [OF _ _ c] show ?thesis by (auto simp: c Let_def)
qed

end
