(* ===== verification/ResilienceSettings.thy ===== *)
theory ResilienceSettings
  imports JsValues
begin

text \<open>
  The resilience settings: \<open>src/lib/resilience/settings.ts\<close>, its coercions in
  \<open>settings/normalize.ts\<close>, its shapes in \<open>settings/types.ts\<close>, and the part of the route
  \<open>src/app/api/resilience/route.ts\<close> that turns a request body into the stored settings.

  \<open>env\<close> is \<open>process.env\<close>; \<open>override\<close> is the stored override of a feature flag
  (\<open>getFeatureFlagOverride\<close>), \<open>None\<close> when reading it throws. A default that comes from the
  environment is an int here: \<open>None\<close> stands for a value the process keeps as a fraction or as
  \<open>NaN\<close>, and then nothing below is claimed.
\<close>

section \<open>Shapes\<close>

record request_queue =
  rq_autoEnableApiKeyProviders :: bool
  rq_requestsPerMinute :: int
  rq_minTimeBetweenRequestsMs :: int
  rq_concurrentRequests :: int
  rq_maxWaitMs :: int
  rq_maxQueueDepth :: int

record connection_cooldown =
  cc_baseCooldownMs :: int
  cc_useUpstreamRetryHints :: bool
  cc_useUpstream429BreakerHints :: "bool option"
  cc_maxBackoffSteps :: int

record provider_breaker =
  pb_failureThreshold :: int
  pb_degradationThreshold :: int
  pb_resetTimeoutMs :: int

record wait_for_cooldown_settings =
  ws_enabled :: bool
  ws_maxRetries :: int
  ws_maxRetryWaitSec :: int
  ws_maxRetryWaitMs :: int
  ws_budgetMs :: int

record combo_cooldown_wait =
  cb_enabled :: bool
  cb_maxWaitMs :: int
  cb_maxAttempts :: int
  cb_budgetMs :: int

record provider_cooldown =
  pc_minRetryCooldownMs :: int
  pc_maxRetryCooldownMs :: int
  pc_enabled :: bool

type_synonym window_defaults = "(string, (string, int) jmap) jmap"

record quota_preflight =
  qp_enabled :: bool
  qp_defaultThresholdPercent :: int
  qp_warnThresholdPercent :: int
  qp_providerWindowDefaults :: window_defaults

record quota_override =
  qo_rpm :: "int option"
  qo_concurrency :: "int option"

record stream_recovery =
  sr_enabled :: bool
  sr_continueMidStream :: bool

record resilience_settings =
  rs_requestQueue :: request_queue
  rs_cooldown_oauth :: connection_cooldown
  rs_cooldown_apikey :: connection_cooldown
  rs_breaker_oauth :: provider_breaker
  rs_breaker_apikey :: provider_breaker
  rs_waitForCooldown :: wait_for_cooldown_settings
  rs_comboCooldownWait :: combo_cooldown_wait
  rs_quotaShareConcurrencyLimit_enabled :: bool
  rs_providerCooldown :: provider_cooldown
  rs_quotaPreflight :: quota_preflight
  rs_streamRecovery :: stream_recovery
  rs_providerQuotaOverrides :: "(string, quota_override) jmap"

section \<open>Coercions\<close>

definition toInteger :: "json \<Rightarrow> int \<Rightarrow> int \<Rightarrow> int \<Rightarrow> int" where
  "toInteger value fallback lo hi =
     (case numberOrText value of None \<Rightarrow> fallback | Some parsed \<Rightarrow> min hi (max lo (mathTrunc parsed)))"

definition toBoolean :: "json \<Rightarrow> bool \<Rightarrow> bool" where
  "toBoolean value fallback = (case value of JBool b \<Rightarrow> b | _ \<Rightarrow> fallback)"

definition parseFeatureFlagBoolean :: "string \<Rightarrow> bool \<Rightarrow> bool" where
  "parseFeatureFlagBoolean value fallback =
     (let normalized = toLowerCase (trim value)
      in if normalized \<in> set [''true'', ''1'', ''yes'', ''on''] then True
         else if normalized \<in> set [''false'', ''0'', ''no'', ''off''] then False
         else fallback)"

text \<open>\<open>resolveFeatureFlag\<close> for a flag whose declared default is \<open>dflt\<close>; \<open>None\<close> when it throws.\<close>

definition resolveFeatureFlag ::
  "(string \<Rightarrow> string option option) \<Rightarrow> (string \<Rightarrow> string option) \<Rightarrow> string \<Rightarrow> string \<Rightarrow> string option" where
  "resolveFeatureFlag override env dflt key =
     (case override key of
        None \<Rightarrow> None
      | Some (Some v) \<Rightarrow> Some v
      | Some None \<Rightarrow>
        (case env key of
           Some v \<Rightarrow> if v \<noteq> [] then Some v else Some dflt
         | None \<Rightarrow> Some dflt))"

definition resolveBooleanFeatureFlag ::
  "(string \<Rightarrow> string option option) \<Rightarrow> (string \<Rightarrow> string option) \<Rightarrow> string \<Rightarrow> bool \<Rightarrow> bool" where
  "resolveBooleanFeatureFlag override env key fallback =
     (case resolveFeatureFlag override env ''false'' key of
        Some v \<Rightarrow> parseFeatureFlagBoolean v fallback
      | None \<Rightarrow>
        (case env key of
           Some v \<Rightarrow> if trim v \<noteq> [] then parseFeatureFlagBoolean v fallback else fallback
         | None \<Rightarrow> fallback))"

definition resolveStreamRecoveryDefaults ::
  "(string \<Rightarrow> string option option) \<Rightarrow> (string \<Rightarrow> string option) \<Rightarrow> stream_recovery" where
  "resolveStreamRecoveryDefaults override env =
     \<lparr>sr_enabled = resolveBooleanFeatureFlag override env ''STREAM_RECOVERY_ENABLED'' False,
      sr_continueMidStream = resolveBooleanFeatureFlag override env ''STREAM_RECOVERY_MIDSTREAM_ENABLED'' False\<rparr>"

section \<open>Normalizing one section\<close>

definition DAY_MS :: int where "DAY_MS = 24 * 60 * 60 * 1000"

definition normalizeRequestQueueSettings :: "json \<Rightarrow> request_queue \<Rightarrow> request_queue" where
  "normalizeRequestQueueSettings next fallback =
     (let r = asRecord next
      in \<lparr>rq_autoEnableApiKeyProviders =
            toBoolean (field ''autoEnableApiKeyProviders'' r) (rq_autoEnableApiKeyProviders fallback),
          rq_requestsPerMinute = toInteger (field ''requestsPerMinute'' r) (rq_requestsPerMinute fallback) 1 1000000,
          rq_minTimeBetweenRequestsMs =
            toInteger (field ''minTimeBetweenRequestsMs'' r) (rq_minTimeBetweenRequestsMs fallback) 0 (60 * 60 * 1000),
          rq_concurrentRequests = toInteger (field ''concurrentRequests'' r) (rq_concurrentRequests fallback) 1 10000,
          rq_maxWaitMs = toInteger (field ''maxWaitMs'' r) (rq_maxWaitMs fallback) 1 DAY_MS,
          rq_maxQueueDepth = toInteger (field ''maxQueueDepth'' r) (rq_maxQueueDepth fallback) 0 100000\<rparr>)"

definition normalizeConnectionCooldownProfile :: "json \<Rightarrow> connection_cooldown \<Rightarrow> connection_cooldown" where
  "normalizeConnectionCooldownProfile next fallback =
     (let r = asRecord next;
          rawHints = field ''useUpstream429BreakerHints'' r;
          hints = (if \<not> hasOwn ''useUpstream429BreakerHints'' r then cc_useUpstream429BreakerHints fallback
                   else (case rawHints of
                           JNull \<Rightarrow> None
                         | JBool b \<Rightarrow> Some b
                         | _ \<Rightarrow> cc_useUpstream429BreakerHints fallback))
      in \<lparr>cc_baseCooldownMs = toInteger (field ''baseCooldownMs'' r) (cc_baseCooldownMs fallback) 0 DAY_MS,
          cc_useUpstreamRetryHints = toBoolean (field ''useUpstreamRetryHints'' r) (cc_useUpstreamRetryHints fallback),
          cc_useUpstream429BreakerHints = hints,
          cc_maxBackoffSteps = toInteger (field ''maxBackoffSteps'' r) (cc_maxBackoffSteps fallback) 0 32\<rparr>)"

definition normalizeLegacyConnectionCooldownProfile :: "json \<Rightarrow> connection_cooldown \<Rightarrow> connection_cooldown" where
  "normalizeLegacyConnectionCooldownProfile next fallback =
     (let r = asRecord next;
          transientCooldown = toInteger (field ''transientCooldown'' r) (cc_baseCooldownMs fallback) 0 DAY_MS;
          legacyRateLimitCooldown = toInteger (field ''rateLimitCooldown'' r) transientCooldown 0 DAY_MS;
          useHints = (case field ''rateLimitCooldown'' r of
                        JNum n \<Rightarrow> n = 0
                      | JNaN \<Rightarrow> False
                      | _ \<Rightarrow> cc_useUpstreamRetryHints fallback)
      in \<lparr>cc_baseCooldownMs =
            (if useHints then transientCooldown else max transientCooldown legacyRateLimitCooldown),
          cc_useUpstreamRetryHints = useHints,
          cc_useUpstream429BreakerHints = None,
          cc_maxBackoffSteps = toInteger (field ''maxBackoffLevel'' r) (cc_maxBackoffSteps fallback) 0 32\<rparr>)"

definition normalizeProviderBreakerProfile :: "json \<Rightarrow> provider_breaker \<Rightarrow> provider_breaker" where
  "normalizeProviderBreakerProfile next fallback =
     (let r = asRecord next;
          failureThreshold = toInteger (field ''failureThreshold'' r) (pb_failureThreshold fallback) 1 1000
      in \<lparr>pb_failureThreshold = failureThreshold,
          pb_degradationThreshold =
            min (toInteger (field ''degradationThreshold'' r) (pb_degradationThreshold fallback) 1 1000)
                (if failureThreshold \<le> 1 then 1 else failureThreshold - 1),
          pb_resetTimeoutMs = toInteger (field ''resetTimeoutMs'' r) (pb_resetTimeoutMs fallback) 1000 DAY_MS\<rparr>)"

definition addWindow :: "string \<times> json \<Rightarrow> (string, int) jmap \<Rightarrow> (string, int) jmap" where
  "addWindow e windowMap =
     (if fst e = [] then windowMap
      else (case numberOrText (snd e) of
              Some parsed \<Rightarrow> jset (fst e) (min 100 (max 0 (mathTrunc parsed))) windowMap
            | None \<Rightarrow> windowMap))"

definition addProviderWindows :: "string \<times> json \<Rightarrow> window_defaults \<Rightarrow> window_defaults" where
  "addProviderWindows e out =
     (if fst e = [] then out
      else (case objectEntries (snd e) of
              None \<Rightarrow> out
            | Some windows \<Rightarrow>
              (let windowMap = fold addWindow windows []
               in if windowMap \<noteq> [] then jset (fst e) windowMap out else out)))"

text \<open>Typed maps as the objects they are.\<close>

definition windowsJson :: "(string, int) jmap \<Rightarrow> json" where
  "windowsJson m = JObj (map (\<lambda>(w, p). (w, JNum (of_int p))) m)"

definition windowDefaultsJson :: "window_defaults \<Rightarrow> json" where
  "windowDefaultsJson m = JObj (map (\<lambda>(p, w). (p, windowsJson w)) m)"

definition normalizeProviderWindowDefaults :: "json \<Rightarrow> window_defaults \<Rightarrow> window_defaults" where
  "normalizeProviderWindowDefaults next fallback =
     fold addProviderWindows (asRecord (orElse next (windowDefaultsJson fallback))) []"

definition normalizeQuotaPreflightSettings :: "json \<Rightarrow> quota_preflight \<Rightarrow> quota_preflight" where
  "normalizeQuotaPreflightSettings next fallback =
     (let r = asRecord next;
          cutoff = toInteger (field ''defaultThresholdPercent'' r) (qp_defaultThresholdPercent fallback) 0 99;
          warnRaw = toInteger (field ''warnThresholdPercent'' r) (qp_warnThresholdPercent fallback) 0 100
      in \<lparr>qp_enabled = toBoolean (field ''enabled'' r) (qp_enabled fallback),
          qp_defaultThresholdPercent = cutoff,
          qp_warnThresholdPercent = (if warnRaw \<le> cutoff then min 100 (cutoff + 1) else warnRaw),
          qp_providerWindowDefaults =
            normalizeProviderWindowDefaults (field ''providerWindowDefaults'' r) (qp_providerWindowDefaults fallback)\<rparr>)"

definition normalizeWaitForCooldownSettings :: "json \<Rightarrow> wait_for_cooldown_settings \<Rightarrow> wait_for_cooldown_settings" where
  "normalizeWaitForCooldownSettings next fallback =
     (let r = asRecord next;
          maxRetryWaitSec = toInteger (field ''maxRetryWaitSec'' r) (ws_maxRetryWaitSec fallback) 0 300;
          maxRetries = toInteger (field ''maxRetries'' r) (ws_maxRetries fallback) 0 10;
          maxRetryWaitMs = maxRetryWaitSec * 1000
      in \<lparr>ws_enabled = (toBoolean (field ''enabled'' r) (ws_enabled fallback) \<and> 0 < maxRetries \<and> 0 < maxRetryWaitSec),
          ws_maxRetries = maxRetries, ws_maxRetryWaitSec = maxRetryWaitSec, ws_maxRetryWaitMs = maxRetryWaitMs,
          ws_budgetMs = toInteger (field ''budgetMs'' r) (ws_budgetMs fallback) maxRetryWaitMs (5 * 60 * 1000)\<rparr>)"

definition normalizeComboCooldownWaitSettings :: "json \<Rightarrow> combo_cooldown_wait \<Rightarrow> combo_cooldown_wait" where
  "normalizeComboCooldownWaitSettings next fallback =
     (let r = asRecord next;
          maxWaitMs = toInteger (field ''maxWaitMs'' r) (cb_maxWaitMs fallback) 0 300000;
          maxAttempts = toInteger (field ''maxAttempts'' r) (cb_maxAttempts fallback) 0 10
      in \<lparr>cb_enabled = (toBoolean (field ''enabled'' r) (cb_enabled fallback) \<and> 0 < maxWaitMs \<and> 0 < maxAttempts),
          cb_maxWaitMs = maxWaitMs, cb_maxAttempts = maxAttempts,
          cb_budgetMs = toInteger (field ''budgetMs'' r) (cb_budgetMs fallback) maxWaitMs (5 * 60 * 1000)\<rparr>)"

definition normalizeQuotaShareConcurrencyLimitSettings :: "json \<Rightarrow> bool \<Rightarrow> bool" where
  "normalizeQuotaShareConcurrencyLimitSettings next fallback = toBoolean (field ''enabled'' (asRecord next)) fallback"

definition normalizeProviderCooldownSettings :: "json \<Rightarrow> provider_cooldown \<Rightarrow> provider_cooldown" where
  "normalizeProviderCooldownSettings next fallback =
     (let r = asRecord next;
          minCd = toInteger (field ''minRetryCooldownMs'' r) (pc_minRetryCooldownMs fallback) 0 (60 * 60 * 1000)
      in \<lparr>pc_minRetryCooldownMs = minCd,
          pc_maxRetryCooldownMs = toInteger (field ''maxRetryCooldownMs'' r) (pc_maxRetryCooldownMs fallback) minCd DAY_MS,
          pc_enabled = toBoolean (field ''enabled'' r) (pc_enabled fallback)\<rparr>)"

definition normalizeStreamRecoverySettings :: "json \<Rightarrow> stream_recovery \<Rightarrow> stream_recovery" where
  "normalizeStreamRecoverySettings next fallback =
     (let r = asRecord next
      in \<lparr>sr_enabled = toBoolean (field ''enabled'' r) (sr_enabled fallback),
          sr_continueMidStream = toBoolean (field ''continueMidStream'' r) (sr_continueMidStream fallback)\<rparr>)"

definition positiveField :: "json \<Rightarrow> int option" where
  "positiveField v = (case jsNumberOf v of Some n \<Rightarrow> if 0 < n then Some (mathTrunc n) else None | None \<Rightarrow> None)"

definition normalizeProviderQuotaOverrideEntry :: "json \<Rightarrow> quota_override option" where
  "normalizeProviderQuotaOverrideEntry raw =
     (case raw of
        JObj record \<Rightarrow>
          (let out = \<lparr>qo_rpm = positiveField (field ''rpm'' record),
                      qo_concurrency = positiveField (field ''concurrency'' record)\<rparr>
           in if qo_rpm out \<noteq> None \<or> qo_concurrency out \<noteq> None then Some out else None)
      | _ \<Rightarrow> None)"

definition optionalField :: "string \<Rightarrow> json option \<Rightarrow> json_object" where
  "optionalField k v = (case v of None \<Rightarrow> [] | Some x \<Rightarrow> [(k, x)])"

definition quotaOverrideJson :: "quota_override \<Rightarrow> json" where
  "quotaOverrideJson q =
     JObj (optionalField ''rpm'' (map_option (\<lambda>n. JNum (of_int n)) (qo_rpm q))
           @ optionalField ''concurrency'' (map_option (\<lambda>n. JNum (of_int n)) (qo_concurrency q)))"

definition quotaOverridesJson :: "(string, quota_override) jmap \<Rightarrow> json" where
  "quotaOverridesJson m = JObj (map (\<lambda>(p, q). (p, quotaOverrideJson q)) m)"

definition addQuotaOverride :: "string \<times> json \<Rightarrow> (string, quota_override) jmap \<Rightarrow> (string, quota_override) jmap" where
  "addQuotaOverride e out =
     (if fst e = [] then out
      else (case normalizeProviderQuotaOverrideEntry (snd e) of
              Some q \<Rightarrow> jset (fst e) q out
            | None \<Rightarrow> out))"

definition normalizeProviderQuotaOverrides :: "json \<Rightarrow> (string, quota_override) jmap \<Rightarrow> (string, quota_override) jmap" where
  "normalizeProviderQuotaOverrides next fallback =
     fold addQuotaOverride (asRecord (orElse next (quotaOverridesJson fallback))) []"

section \<open>Defaults\<close>

definition wholeNumber :: "rat option \<Rightarrow> int option" where
  "wholeNumber v = (case v of Some r \<Rightarrow> if r = of_int \<lfloor>r\<rfloor> then Some \<lfloor>r\<rfloor> else None | None \<Rightarrow> None)"

text \<open>\<open>process.env[name] || text\<close>\<close>

definition envOr :: "(string \<Rightarrow> string option) \<Rightarrow> string \<Rightarrow> string \<Rightarrow> string" where
  "envOr env name text = (case env name of Some v \<Rightarrow> if v = [] then text else v | None \<Rightarrow> text)"

definition envInt :: "(string \<Rightarrow> string option) \<Rightarrow> string \<Rightarrow> int \<Rightarrow> int option" where
  "envInt env name fallback =
     (case env name of
        None \<Rightarrow> Some fallback
      | Some raw \<Rightarrow>
        (if raw = [] then Some fallback
         else (case jsNumber raw of
                 Some parsed \<Rightarrow> if 0 \<le> parsed then wholeNumber (Some parsed) else Some fallback
               | None \<Rightarrow> Some fallback)))"

definition envFlag :: "(string \<Rightarrow> string option) \<Rightarrow> string \<Rightarrow> bool" where
  "envFlag env name \<longleftrightarrow> toLowerCase (trim (envOr env name [])) \<in> set [''true'', ''1'', ''on'']"

definition DEFAULT_REQUEST_QUEUE_MAX_WAIT_MS :: "(string \<Rightarrow> string option) \<Rightarrow> int" where
  "DEFAULT_REQUEST_QUEUE_MAX_WAIT_MS env =
     (case jsNumber (envOr env ''RATE_LIMIT_MAX_WAIT_MS'' ''15000'') of
        Some parsed \<Rightarrow> if 0 < parsed then mathTrunc parsed else 15000
      | None \<Rightarrow> 15000)"

definition DEFAULT_REQUEST_QUEUE_MAX_DEPTH :: "(string \<Rightarrow> string option) \<Rightarrow> int" where
  "DEFAULT_REQUEST_QUEUE_MAX_DEPTH env =
     (case jsNumber (envOr env ''RATE_LIMIT_MAX_QUEUE_DEPTH'' ''0'') of
        Some parsed \<Rightarrow> if 0 \<le> parsed then mathTrunc parsed else 0
      | None \<Rightarrow> 0)"

text \<open>The four numbers that \<open>PROVIDER_PROFILES\<close> reads from the environment, and the two of the
  provider cooldown.\<close>

record env_numbers =
  en_oauthThreshold :: int
  en_oauthReset :: int
  en_apikeyThreshold :: int
  en_apikeyReset :: int
  en_minCooldown :: int
  en_maxCooldown :: int

definition envNumbers :: "(string \<Rightarrow> string option) \<Rightarrow> env_numbers option" where
  "envNumbers env =
     Option.bind (envInt env ''OMNIROUTE_CIRCUIT_BREAKER_OAUTH_THRESHOLD'' 8) (\<lambda>a.
     Option.bind (envInt env ''OMNIROUTE_CIRCUIT_BREAKER_OAUTH_RESET_MS'' 60000) (\<lambda>b.
     Option.bind (envInt env ''OMNIROUTE_CIRCUIT_BREAKER_API_KEY_THRESHOLD'' 12) (\<lambda>c.
     Option.bind (envInt env ''OMNIROUTE_CIRCUIT_BREAKER_API_KEY_RESET_MS'' 30000) (\<lambda>d.
     Option.bind (wholeNumber (jsNumber (envOr env ''PROVIDER_COOLDOWN_MIN_MS'' ''5000''))) (\<lambda>lo.
     Option.bind (wholeNumber (jsNumber (envOr env ''PROVIDER_COOLDOWN_MAX_MS'' ''300000''))) (\<lambda>hi.
       Some \<lparr>en_oauthThreshold = a, en_oauthReset = b, en_apikeyThreshold = c, en_apikeyReset = d,
             en_minCooldown = lo, en_maxCooldown = hi\<rparr>))))))"

definition DEFAULT_RESILIENCE_SETTINGS :: "(string \<Rightarrow> string option) \<Rightarrow> env_numbers \<Rightarrow> resilience_settings" where
  "DEFAULT_RESILIENCE_SETTINGS env n =
     \<lparr>rs_requestQueue =
        \<lparr>rq_autoEnableApiKeyProviders = True, rq_requestsPerMinute = 60, rq_minTimeBetweenRequestsMs = 350,
         rq_concurrentRequests = 6, rq_maxWaitMs = DEFAULT_REQUEST_QUEUE_MAX_WAIT_MS env,
         rq_maxQueueDepth = DEFAULT_REQUEST_QUEUE_MAX_DEPTH env\<rparr>,
      rs_cooldown_oauth =
        \<lparr>cc_baseCooldownMs = 5000, cc_useUpstreamRetryHints = False, cc_useUpstream429BreakerHints = None,
         cc_maxBackoffSteps = 8\<rparr>,
      rs_cooldown_apikey =
        \<lparr>cc_baseCooldownMs = 3000, cc_useUpstreamRetryHints = True, cc_useUpstream429BreakerHints = None,
         cc_maxBackoffSteps = 5\<rparr>,
      rs_breaker_oauth =
        \<lparr>pb_failureThreshold = en_oauthThreshold n, pb_degradationThreshold = 5, pb_resetTimeoutMs = en_oauthReset n\<rparr>,
      rs_breaker_apikey =
        \<lparr>pb_failureThreshold = en_apikeyThreshold n, pb_degradationThreshold = 7, pb_resetTimeoutMs = en_apikeyReset n\<rparr>,
      rs_waitForCooldown =
        \<lparr>ws_enabled = True, ws_maxRetries = 5, ws_maxRetryWaitSec = 90, ws_maxRetryWaitMs = 90000,
         ws_budgetMs = 300000\<rparr>,
      rs_comboCooldownWait =
        \<lparr>cb_enabled = True, cb_maxWaitMs = 90000, cb_maxAttempts = 5, cb_budgetMs = 300000\<rparr>,
      rs_quotaShareConcurrencyLimit_enabled = True,
      rs_providerCooldown =
        \<lparr>pc_minRetryCooldownMs = en_minCooldown n, pc_maxRetryCooldownMs = en_maxCooldown n,
         pc_enabled = envFlag env ''PROVIDER_COOLDOWN_ENABLED''\<rparr>,
      rs_quotaPreflight =
        \<lparr>qp_enabled = envFlag env ''QUOTA_PREFLIGHT_CUTOFF_ENABLED'', qp_defaultThresholdPercent = 2,
         qp_warnThresholdPercent = 20, qp_providerWindowDefaults = []\<rparr>,
      rs_streamRecovery =
        \<lparr>sr_enabled = envFlag env ''STREAM_RECOVERY_ENABLED'',
         sr_continueMidStream = envFlag env ''STREAM_RECOVERY_MIDSTREAM_ENABLED''\<rparr>,
      rs_providerQuotaOverrides = []\<rparr>"

section \<open>Resolving, merging, the legacy shape\<close>

text \<open>\<open>d\<close> is \<open>DEFAULT_RESILIENCE_SETTINGS\<close>, \<open>sr\<close> what \<open>resolveStreamRecoveryDefaults\<close> returns.\<close>

definition buildLegacyFallback :: "resilience_settings \<Rightarrow> stream_recovery \<Rightarrow> json_object \<Rightarrow> resilience_settings" where
  "buildLegacyFallback d sr settings =
     (let profiles = asRecord (field ''providerProfiles'' settings);
          defaults = asRecord (field ''rateLimitDefaults'' settings);
          oauthLegacy = asRecord (field ''oauth'' profiles);
          apikeyLegacy = asRecord (field ''apikey'' profiles);
          waitMaxRetrySec = toInteger (field ''maxRetryIntervalSec'' settings) (ws_maxRetryWaitSec (rs_waitForCooldown d)) 0 300;
          waitMaxRetries = toInteger (field ''requestRetry'' settings) (ws_maxRetries (rs_waitForCooldown d)) 0 10
      in \<lparr>rs_requestQueue =
            \<lparr>rq_autoEnableApiKeyProviders = rq_autoEnableApiKeyProviders (rs_requestQueue d),
             rq_requestsPerMinute =
               toInteger (field ''requestsPerMinute'' defaults) (rq_requestsPerMinute (rs_requestQueue d)) 1 1000000,
             rq_minTimeBetweenRequestsMs =
               toInteger (field ''minTimeBetweenRequests'' defaults) (rq_minTimeBetweenRequestsMs (rs_requestQueue d))
                 0 (60 * 60 * 1000),
             rq_concurrentRequests =
               toInteger (field ''concurrentRequests'' defaults) (rq_concurrentRequests (rs_requestQueue d)) 1 10000,
             rq_maxWaitMs = rq_maxWaitMs (rs_requestQueue d),
             rq_maxQueueDepth = rq_maxQueueDepth (rs_requestQueue d)\<rparr>,
          rs_cooldown_oauth = normalizeLegacyConnectionCooldownProfile (JObj oauthLegacy) (rs_cooldown_oauth d),
          rs_cooldown_apikey = normalizeLegacyConnectionCooldownProfile (JObj apikeyLegacy) (rs_cooldown_apikey d),
          rs_breaker_oauth =
            \<lparr>pb_failureThreshold =
               toInteger (field ''circuitBreakerThreshold'' oauthLegacy) (pb_failureThreshold (rs_breaker_oauth d)) 1 1000,
             pb_degradationThreshold = pb_degradationThreshold (rs_breaker_oauth d),
             pb_resetTimeoutMs =
               toInteger (field ''circuitBreakerReset'' oauthLegacy) (pb_resetTimeoutMs (rs_breaker_oauth d)) 1000 DAY_MS\<rparr>,
          rs_breaker_apikey =
            \<lparr>pb_failureThreshold =
               toInteger (field ''circuitBreakerThreshold'' apikeyLegacy) (pb_failureThreshold (rs_breaker_apikey d)) 1 1000,
             pb_degradationThreshold = pb_degradationThreshold (rs_breaker_apikey d),
             pb_resetTimeoutMs =
               toInteger (field ''circuitBreakerReset'' apikeyLegacy) (pb_resetTimeoutMs (rs_breaker_apikey d)) 1000 DAY_MS\<rparr>,
          rs_waitForCooldown =
            \<lparr>ws_enabled = (0 < waitMaxRetries \<and> 0 < waitMaxRetrySec), ws_maxRetries = waitMaxRetries,
             ws_maxRetryWaitSec = waitMaxRetrySec, ws_maxRetryWaitMs = waitMaxRetrySec * 1000,
             ws_budgetMs = max (waitMaxRetrySec * 1000) (ws_budgetMs (rs_waitForCooldown d))\<rparr>,
          rs_comboCooldownWait = rs_comboCooldownWait d,
          rs_quotaShareConcurrencyLimit_enabled = rs_quotaShareConcurrencyLimit_enabled d,
          rs_providerCooldown = rs_providerCooldown d,
          rs_quotaPreflight = rs_quotaPreflight d,
          rs_streamRecovery = sr,
          rs_providerQuotaOverrides = rs_providerQuotaOverrides d\<rparr>)"

text \<open>The ten sections normalized against a fallback, which is what resolving and merging share.\<close>

definition normalizeSections :: "json_object \<Rightarrow> resilience_settings \<Rightarrow> resilience_settings" where
  "normalizeSections current fallback =
     (let cooldown = asRecord (field ''connectionCooldown'' current);
          breaker = asRecord (field ''providerBreaker'' current)
      in \<lparr>rs_requestQueue = normalizeRequestQueueSettings (field ''requestQueue'' current) (rs_requestQueue fallback),
          rs_cooldown_oauth = normalizeConnectionCooldownProfile (field ''oauth'' cooldown) (rs_cooldown_oauth fallback),
          rs_cooldown_apikey = normalizeConnectionCooldownProfile (field ''apikey'' cooldown) (rs_cooldown_apikey fallback),
          rs_breaker_oauth = normalizeProviderBreakerProfile (field ''oauth'' breaker) (rs_breaker_oauth fallback),
          rs_breaker_apikey = normalizeProviderBreakerProfile (field ''apikey'' breaker) (rs_breaker_apikey fallback),
          rs_waitForCooldown =
            normalizeWaitForCooldownSettings (field ''waitForCooldown'' current) (rs_waitForCooldown fallback),
          rs_comboCooldownWait =
            normalizeComboCooldownWaitSettings (field ''comboCooldownWait'' current) (rs_comboCooldownWait fallback),
          rs_quotaShareConcurrencyLimit_enabled =
            normalizeQuotaShareConcurrencyLimitSettings (field ''quotaShareConcurrencyLimit'' current)
              (rs_quotaShareConcurrencyLimit_enabled fallback),
          rs_providerCooldown =
            normalizeProviderCooldownSettings (field ''providerCooldown'' current) (rs_providerCooldown fallback),
          rs_quotaPreflight =
            normalizeQuotaPreflightSettings (field ''quotaPreflight'' current) (rs_quotaPreflight fallback),
          rs_streamRecovery =
            normalizeStreamRecoverySettings (field ''streamRecovery'' current) (rs_streamRecovery fallback),
          rs_providerQuotaOverrides =
            normalizeProviderQuotaOverrides (field ''providerQuotaOverrides'' current) (rs_providerQuotaOverrides fallback)\<rparr>)"

definition resolveResilienceSettings :: "resilience_settings \<Rightarrow> stream_recovery \<Rightarrow> json \<Rightarrow> resilience_settings" where
  "resolveResilienceSettings d sr settings =
     normalizeSections (asRecord (field ''resilienceSettings'' (asRecord settings)))
       (buildLegacyFallback d sr (asRecord settings))"

definition mergeResilienceSettings :: "resilience_settings \<Rightarrow> json_object \<Rightarrow> resilience_settings" where
  "mergeResilienceSettings current updates = normalizeSections updates current"

definition isStreamRecoveryExplicitlyConfigured :: "(string \<Rightarrow> string option) \<Rightarrow> json \<Rightarrow> bool" where
  "isStreamRecoveryExplicitlyConfigured env settings =
     (let current = asRecord (field ''resilienceSettings'' (asRecord settings));
          rec = asRecord (field ''streamRecovery'' current)
      in (case field ''enabled'' rec of JBool b \<Rightarrow> True
          | _ \<Rightarrow> trim (envOr env ''STREAM_RECOVERY_ENABLED'' []) \<noteq> []))"

definition legacyProfile :: "connection_cooldown \<Rightarrow> provider_breaker \<Rightarrow> json" where
  "legacyProfile c b =
     JObj [(''transientCooldown'', JNum (of_int (cc_baseCooldownMs c))),
           (''rateLimitCooldown'', JNum (of_int (if cc_useUpstreamRetryHints c then 0 else cc_baseCooldownMs c))),
           (''maxBackoffLevel'', JNum (of_int (cc_maxBackoffSteps c))),
           (''circuitBreakerThreshold'', JNum (of_int (pb_failureThreshold b))),
           (''degradationThreshold'', JNum (of_int (pb_degradationThreshold b))),
           (''circuitBreakerReset'', JNum (of_int (pb_resetTimeoutMs b)))]"

definition buildLegacyResilienceCompat :: "resilience_settings \<Rightarrow> json" where
  "buildLegacyResilienceCompat s =
     JObj [(''profiles'', JObj [(''oauth'', legacyProfile (rs_cooldown_oauth s) (rs_breaker_oauth s)),
                               (''apikey'', legacyProfile (rs_cooldown_apikey s) (rs_breaker_apikey s))]),
           (''defaults'', JObj [(''requestsPerMinute'', JNum (of_int (rq_requestsPerMinute (rs_requestQueue s)))),
                               (''minTimeBetweenRequests'', JNum (of_int (rq_minTimeBetweenRequestsMs (rs_requestQueue s)))),
                               (''concurrentRequests'', JNum (of_int (rq_concurrentRequests (rs_requestQueue s))))])]"

section \<open>The stored form and the route\<close>

definition num :: "int \<Rightarrow> json" where
  "num n = JNum (of_int n)"

definition breakerJson :: "provider_breaker \<Rightarrow> json" where
  "breakerJson b =
     JObj [(''failureThreshold'', num (pb_failureThreshold b)),
           (''degradationThreshold'', num (pb_degradationThreshold b)),
           (''resetTimeoutMs'', num (pb_resetTimeoutMs b))]"

text \<open>The key of the hints is only there when the value is defined.\<close>

definition cooldownJson :: "connection_cooldown \<Rightarrow> json" where
  "cooldownJson c =
     JObj ([(''baseCooldownMs'', num (cc_baseCooldownMs c)),
            (''useUpstreamRetryHints'', JBool (cc_useUpstreamRetryHints c)),
            (''maxBackoffSteps'', num (cc_maxBackoffSteps c))]
           @ optionalField ''useUpstream429BreakerHints'' (map_option JBool (cc_useUpstream429BreakerHints c)))"

definition settingsJson :: "resilience_settings \<Rightarrow> json" where
  "settingsJson s =
     JObj [(''requestQueue'', (let q = rs_requestQueue s in JObj
              [(''autoEnableApiKeyProviders'', JBool (rq_autoEnableApiKeyProviders q)),
               (''requestsPerMinute'', num (rq_requestsPerMinute q)),
               (''minTimeBetweenRequestsMs'', num (rq_minTimeBetweenRequestsMs q)),
               (''concurrentRequests'', num (rq_concurrentRequests q)),
               (''maxWaitMs'', num (rq_maxWaitMs q)), (''maxQueueDepth'', num (rq_maxQueueDepth q))])),
           (''connectionCooldown'', JObj [(''oauth'', cooldownJson (rs_cooldown_oauth s)),
                                          (''apikey'', cooldownJson (rs_cooldown_apikey s))]),
           (''providerBreaker'', JObj [(''oauth'', breakerJson (rs_breaker_oauth s)),
                                       (''apikey'', breakerJson (rs_breaker_apikey s))]),
           (''waitForCooldown'', (let w = rs_waitForCooldown s in JObj
              [(''enabled'', JBool (ws_enabled w)), (''maxRetries'', num (ws_maxRetries w)),
               (''maxRetryWaitSec'', num (ws_maxRetryWaitSec w)), (''maxRetryWaitMs'', num (ws_maxRetryWaitMs w)),
               (''budgetMs'', num (ws_budgetMs w))])),
           (''comboCooldownWait'', (let w = rs_comboCooldownWait s in JObj
              [(''enabled'', JBool (cb_enabled w)), (''maxWaitMs'', num (cb_maxWaitMs w)),
               (''maxAttempts'', num (cb_maxAttempts w)), (''budgetMs'', num (cb_budgetMs w))])),
           (''quotaShareConcurrencyLimit'', JObj [(''enabled'', JBool (rs_quotaShareConcurrencyLimit_enabled s))]),
           (''providerCooldown'', (let p = rs_providerCooldown s in JObj
              [(''enabled'', JBool (pc_enabled p)), (''minRetryCooldownMs'', num (pc_minRetryCooldownMs p)),
               (''maxRetryCooldownMs'', num (pc_maxRetryCooldownMs p))])),
           (''quotaPreflight'', (let q = rs_quotaPreflight s in JObj
              [(''enabled'', JBool (qp_enabled q)),
               (''defaultThresholdPercent'', num (qp_defaultThresholdPercent q)),
               (''warnThresholdPercent'', num (qp_warnThresholdPercent q)),
               (''providerWindowDefaults'', windowDefaultsJson (qp_providerWindowDefaults q))])),
           (''streamRecovery'', JObj [(''enabled'', JBool (sr_enabled (rs_streamRecovery s))),
                                      (''continueMidStream'', JBool (sr_continueMidStream (rs_streamRecovery s)))]),
           (''providerQuotaOverrides'', quotaOverridesJson (rs_providerQuotaOverrides s))]"

text \<open>A field that is copied when it is a number, under another name.\<close>

definition isNumber :: "json \<Rightarrow> bool" where
  "isNumber v = (case v of JNum n \<Rightarrow> True | JNaN \<Rightarrow> True | _ \<Rightarrow> False)"

definition copyNumber :: "string \<Rightarrow> string \<Rightarrow> json_object \<Rightarrow> json_object" where
  "copyNumber from dest r = (if isNumber (field from r) then [(dest, field from r)] else [])"

definition buildLegacyCooldownPatch :: "json_object \<Rightarrow> json_object" where
  "buildLegacyCooldownPatch profile =
     (let candidates =
            (case field ''transientCooldown'' profile of JNum t \<Rightarrow> [t] | _ \<Rightarrow> [])
            @ (case field ''rateLimitCooldown'' profile of JNum t \<Rightarrow> if 0 < t then [t] else [] | _ \<Rightarrow> [])
      in (if candidates \<noteq> [] then [(''baseCooldownMs'', JNum (foldr max (tl candidates) (hd candidates)))] else [])
         @ (case field ''rateLimitCooldown'' profile of
              JNum t \<Rightarrow> [(''useUpstreamRetryHints'', JBool (t = 0))]
            | _ \<Rightarrow> [])
         @ copyNumber ''maxBackoffLevel'' ''maxBackoffSteps'' profile)"

definition legacyBreakerPatch :: "json_object \<Rightarrow> json_object" where
  "legacyBreakerPatch profile =
     copyNumber ''circuitBreakerThreshold'' ''failureThreshold'' profile
     @ copyNumber ''circuitBreakerReset'' ''resetTimeoutMs'' profile"

definition normalizeLegacyPatch :: "json_object \<Rightarrow> json_object" where
  "normalizeLegacyPatch body =
     (let profiles = asRecord (field ''profiles'' body);
          defaults = asRecord (field ''defaults'' body);
          oauth = asRecord (field ''oauth'' profiles);
          apikey = asRecord (field ''apikey'' profiles)
      in (if defaults \<noteq> []
          then [(''requestQueue'', JObj (copyNumber ''requestsPerMinute'' ''requestsPerMinute'' defaults
                   @ copyNumber ''minTimeBetweenRequests'' ''minTimeBetweenRequestsMs'' defaults
                   @ copyNumber ''concurrentRequests'' ''concurrentRequests'' defaults))]
          else [])
         @ (if oauth \<noteq> [] \<or> apikey \<noteq> []
            then [(''connectionCooldown'',
                     JObj ((if oauth \<noteq> [] then [(''oauth'', JObj (buildLegacyCooldownPatch oauth))] else [])
                           @ (if apikey \<noteq> [] then [(''apikey'', JObj (buildLegacyCooldownPatch apikey))] else []))),
                  (''providerBreaker'',
                     JObj ((if oauth \<noteq> [] then [(''oauth'', JObj (legacyBreakerPatch oauth))] else [])
                           @ (if apikey \<noteq> [] then [(''apikey'', JObj (legacyBreakerPatch apikey))] else [])))]
            else []))"

definition bodySection :: "string \<Rightarrow> json_object \<Rightarrow> json_object" where
  "bodySection k body = (if isTruthy (field k body) then [(k, field k body)] else [])"

text \<open>The patch that the route merges: what the legacy shape gives replaces a whole section.\<close>

definition patchOf :: "json_object \<Rightarrow> json_object" where
  "patchOf body =
     normalizeLegacyPatch body
     @ bodySection ''requestQueue'' body @ bodySection ''connectionCooldown'' body @ bodySection ''providerBreaker'' body
     @ bodySection ''waitForCooldown'' body @ bodySection ''comboCooldownWait'' body
     @ bodySection ''quotaShareConcurrencyLimit'' body @ bodySection ''providerCooldown'' body"

definition updateSettings :: "json_object \<Rightarrow> json_object \<Rightarrow> json_object" where
  "updateSettings updates settings = spread updates settings"

text \<open>The settings a PATCH answers with, and what is stored after it.\<close>

definition patchResilience ::
  "resilience_settings \<Rightarrow> stream_recovery \<Rightarrow> json_object \<Rightarrow> json_object \<Rightarrow> resilience_settings \<times> json_object" where
  "patchResilience d sr settings body =
     (let next = mergeResilienceSettings (resolveResilienceSettings d sr (JObj settings)) (patchOf body)
      in (next, updateSettings [(''resilienceSettings'', settingsJson next),
                                (''requestRetry'', num (ws_maxRetries (rs_waitForCooldown next))),
                                (''maxRetryIntervalSec'', num (ws_maxRetryWaitSec (rs_waitForCooldown next)))]
                  settings))"

end
