(* ===== verification/SettingsLaws.thy ===== *)
theory SettingsLaws
  imports ResilienceSettings
begin

text \<open>
  What the resilience settings promise: every section is in its range whatever was stored, merging
  nothing changes nothing, and what a PATCH answers is what the next read resolves.
\<close>

section \<open>Ranges\<close>

definition inRange :: "int \<Rightarrow> int \<Rightarrow> int \<Rightarrow> bool" where
  "inRange lo hi n \<longleftrightarrow> lo \<le> n \<and> n \<le> hi"

definition wfQueue :: "request_queue \<Rightarrow> bool" where
  "wfQueue q \<longleftrightarrow> inRange 1 1000000 (rq_requestsPerMinute q) \<and> inRange 0 3600000 (rq_minTimeBetweenRequestsMs q)
     \<and> inRange 1 10000 (rq_concurrentRequests q) \<and> inRange 1 DAY_MS (rq_maxWaitMs q)
     \<and> inRange 0 100000 (rq_maxQueueDepth q)"

definition wfCooldown :: "connection_cooldown \<Rightarrow> bool" where
  "wfCooldown c \<longleftrightarrow> inRange 0 DAY_MS (cc_baseCooldownMs c) \<and> inRange 0 32 (cc_maxBackoffSteps c)"

definition okBreaker :: "provider_breaker \<Rightarrow> bool" where
  "okBreaker b \<longleftrightarrow> inRange 1 1000 (pb_failureThreshold b) \<and> 1 \<le> pb_degradationThreshold b
     \<and> inRange 1000 DAY_MS (pb_resetTimeoutMs b)"

definition wfBreaker :: "provider_breaker \<Rightarrow> bool" where
  "wfBreaker b \<longleftrightarrow> okBreaker b \<and> pb_degradationThreshold b \<le> max 1 (pb_failureThreshold b - 1)"

definition okWait :: "wait_for_cooldown_settings \<Rightarrow> bool" where
  "okWait w \<longleftrightarrow> inRange 0 10 (ws_maxRetries w) \<and> inRange 0 300 (ws_maxRetryWaitSec w)
     \<and> inRange 0 300000 (ws_budgetMs w)"

definition wfWait :: "wait_for_cooldown_settings \<Rightarrow> bool" where
  "wfWait w \<longleftrightarrow> okWait w \<and> ws_maxRetryWaitMs w = ws_maxRetryWaitSec w * 1000
     \<and> (ws_enabled w \<longrightarrow> 0 < ws_maxRetries w \<and> 0 < ws_maxRetryWaitSec w)"

definition okCombo :: "combo_cooldown_wait \<Rightarrow> bool" where
  "okCombo w \<longleftrightarrow> inRange 0 300000 (cb_maxWaitMs w) \<and> inRange 0 10 (cb_maxAttempts w)
     \<and> inRange 0 300000 (cb_budgetMs w)"

definition wfCombo :: "combo_cooldown_wait \<Rightarrow> bool" where
  "wfCombo w \<longleftrightarrow> okCombo w \<and> (cb_enabled w \<longrightarrow> 0 < cb_maxWaitMs w \<and> 0 < cb_maxAttempts w)"

definition wfProviderCooldown :: "provider_cooldown \<Rightarrow> bool" where
  "wfProviderCooldown p \<longleftrightarrow> inRange 0 3600000 (pc_minRetryCooldownMs p) \<and> inRange 0 DAY_MS (pc_maxRetryCooldownMs p)"

definition wfWindows :: "(string, int) jmap \<Rightarrow> bool" where
  "wfWindows m \<longleftrightarrow> jinv m \<and> list_all (\<lambda>e. fst e \<noteq> [] \<and> inRange 0 100 (snd e)) m"

definition wfWindowDefaults :: "window_defaults \<Rightarrow> bool" where
  "wfWindowDefaults m \<longleftrightarrow> jinv m \<and> list_all (\<lambda>e. fst e \<noteq> [] \<and> snd e \<noteq> [] \<and> wfWindows (snd e)) m"

definition okPreflight :: "quota_preflight \<Rightarrow> bool" where
  "okPreflight q \<longleftrightarrow> inRange 0 99 (qp_defaultThresholdPercent q) \<and> inRange 0 100 (qp_warnThresholdPercent q)"

definition wfPreflight :: "quota_preflight \<Rightarrow> bool" where
  "wfPreflight q \<longleftrightarrow> okPreflight q \<and> qp_defaultThresholdPercent q < qp_warnThresholdPercent q
     \<and> wfWindowDefaults (qp_providerWindowDefaults q)"

text \<open>An override above \<open>lo\<close>: \<open>0\<close> is what a fraction below one becomes.\<close>

definition wfOverride :: "int \<Rightarrow> quota_override \<Rightarrow> bool" where
  "wfOverride lo q \<longleftrightarrow> (qo_rpm q \<noteq> None \<or> qo_concurrency q \<noteq> None)
     \<and> pred_option (\<lambda>n. lo \<le> n) (qo_rpm q) \<and> pred_option (\<lambda>n. lo \<le> n) (qo_concurrency q)"

definition wfOverrides :: "int \<Rightarrow> (string, quota_override) jmap \<Rightarrow> bool" where
  "wfOverrides lo m \<longleftrightarrow> jinv m \<and> list_all (\<lambda>e. fst e \<noteq> [] \<and> wfOverride lo (snd e)) m"

definition wfSettings :: "resilience_settings \<Rightarrow> bool" where
  "wfSettings s \<longleftrightarrow> wfQueue (rs_requestQueue s) \<and> wfCooldown (rs_cooldown_oauth s) \<and> wfCooldown (rs_cooldown_apikey s)
     \<and> wfBreaker (rs_breaker_oauth s) \<and> wfBreaker (rs_breaker_apikey s) \<and> wfWait (rs_waitForCooldown s)
     \<and> wfCombo (rs_comboCooldownWait s) \<and> wfProviderCooldown (rs_providerCooldown s)
     \<and> wfPreflight (rs_quotaPreflight s) \<and> wfOverrides 0 (rs_providerQuotaOverrides s)"

text \<open>What is needed of a fallback.\<close>

definition okSettings :: "resilience_settings \<Rightarrow> bool" where
  "okSettings s \<longleftrightarrow> wfQueue (rs_requestQueue s) \<and> wfCooldown (rs_cooldown_oauth s) \<and> wfCooldown (rs_cooldown_apikey s)
     \<and> okBreaker (rs_breaker_oauth s) \<and> okBreaker (rs_breaker_apikey s) \<and> okWait (rs_waitForCooldown s)
     \<and> okCombo (rs_comboCooldownWait s) \<and> wfProviderCooldown (rs_providerCooldown s)
     \<and> okPreflight (rs_quotaPreflight s)"

lemma wf_ok: "wfSettings s \<Longrightarrow> okSettings s"
  by (simp add: wfSettings_def okSettings_def wfBreaker_def wfWait_def wfCombo_def wfPreflight_def)

lemma toInteger_inRange:
  "lo \<le> hi \<Longrightarrow> inRange lo hi fallback \<Longrightarrow> inRange lo hi (toInteger v fallback lo hi)"
  by (auto simp: toInteger_def inRange_def split: option.split)

text \<open>A lower bound of the coercion need not bind the fallback, only another that the fallback keeps.\<close>

lemma toInteger_floor:
  "lo' \<le> lo \<Longrightarrow> lo \<le> hi \<Longrightarrow> inRange lo' hi fallback \<Longrightarrow> inRange lo' hi (toInteger v fallback lo hi)"
  by (auto simp: toInteger_def inRange_def split: option.split)

lemma DAY_MS_pos: "1000 \<le> DAY_MS" "3600000 \<le> DAY_MS"
  by (simp_all add: DAY_MS_def)

lemma queue_wf: "wfQueue f \<Longrightarrow> wfQueue (normalizeRequestQueueSettings v f)"
  using DAY_MS_pos by (simp add: wfQueue_def normalizeRequestQueueSettings_def Let_def toInteger_inRange)

lemma cooldown_wf: "wfCooldown f \<Longrightarrow> wfCooldown (normalizeConnectionCooldownProfile v f)"
  using DAY_MS_pos by (simp add: wfCooldown_def normalizeConnectionCooldownProfile_def Let_def toInteger_inRange)

lemma legacy_cooldown_wf: "wfCooldown f \<Longrightarrow> wfCooldown (normalizeLegacyConnectionCooldownProfile v f)"
proof -
  assume f: "wfCooldown f"
  define t where "t = toInteger (field ''transientCooldown'' (asRecord v)) (cc_baseCooldownMs f) 0 DAY_MS"
  have t: "inRange 0 DAY_MS t" using f DAY_MS_pos by (simp add: t_def wfCooldown_def toInteger_inRange)
  define l where "l = toInteger (field ''rateLimitCooldown'' (asRecord v)) t 0 DAY_MS"
  have "inRange 0 DAY_MS l" using t DAY_MS_pos by (simp add: l_def toInteger_inRange)
  then have "inRange 0 DAY_MS (max t l)" using t by (auto simp: inRange_def)
  then show ?thesis using f t
    by (simp add: wfCooldown_def normalizeLegacyConnectionCooldownProfile_def Let_def toInteger_inRange
        t_def [symmetric] l_def [symmetric])
qed

lemma breaker_wf:
  assumes f: "okBreaker f"
  shows "wfBreaker (normalizeProviderBreakerProfile v f)"
proof -
  define t where "t = toInteger (field ''failureThreshold'' (asRecord v)) (pb_failureThreshold f) 1 1000"
  define g where "g = toInteger (field ''degradationThreshold'' (asRecord v)) (pb_degradationThreshold f) 1 1000"
  have "inRange 1 1000 t" using f by (simp add: t_def okBreaker_def toInteger_inRange)
  moreover have "1 \<le> g" using f by (auto simp: g_def okBreaker_def toInteger_def split: option.split)
  ultimately show ?thesis using f DAY_MS_pos
    by (simp add: wfBreaker_def okBreaker_def normalizeProviderBreakerProfile_def Let_def toInteger_inRange
        t_def [symmetric] g_def [symmetric] min_def)
qed

lemma wait_wf:
  assumes f: "okWait f"
  shows "wfWait (normalizeWaitForCooldownSettings v f)"
proof -
  define t where "t = toInteger (field ''maxRetryWaitSec'' (asRecord v)) (ws_maxRetryWaitSec f) 0 300"
  have "inRange 0 300 t" using f by (simp add: t_def okWait_def toInteger_inRange)
  moreover have "inRange 0 300000 (toInteger (field ''budgetMs'' (asRecord v)) (ws_budgetMs f) (t * 1000) 300000)"
    using f calculation by (intro toInteger_floor) (auto simp: okWait_def inRange_def)
  ultimately show ?thesis using f
    by (simp add: wfWait_def okWait_def normalizeWaitForCooldownSettings_def Let_def toInteger_inRange
        t_def [symmetric])
qed

lemma combo_wf:
  assumes f: "okCombo f"
  shows "wfCombo (normalizeComboCooldownWaitSettings v f)"
proof -
  define t where "t = toInteger (field ''maxWaitMs'' (asRecord v)) (cb_maxWaitMs f) 0 300000"
  have "inRange 0 300000 t" using f by (simp add: t_def okCombo_def toInteger_inRange)
  moreover have "inRange 0 300000 (toInteger (field ''budgetMs'' (asRecord v)) (cb_budgetMs f) t 300000)"
    using f calculation by (intro toInteger_floor) (auto simp: okCombo_def inRange_def)
  ultimately show ?thesis using f
    by (simp add: wfCombo_def okCombo_def normalizeComboCooldownWaitSettings_def Let_def toInteger_inRange
        t_def [symmetric])
qed

lemma provider_cooldown_wf:
  assumes f: "wfProviderCooldown f"
  shows "wfProviderCooldown (normalizeProviderCooldownSettings v f)"
proof -
  define t where "t = toInteger (field ''minRetryCooldownMs'' (asRecord v)) (pc_minRetryCooldownMs f) 0 3600000"
  have t: "inRange 0 3600000 t" using f by (simp add: t_def wfProviderCooldown_def toInteger_inRange)
  have "inRange 0 DAY_MS (toInteger (field ''maxRetryCooldownMs'' (asRecord v)) (pc_maxRetryCooldownMs f) t DAY_MS)"
    using f t DAY_MS_pos by (intro toInteger_floor) (auto simp: wfProviderCooldown_def inRange_def)
  then show ?thesis using t
    by (simp add: wfProviderCooldown_def normalizeProviderCooldownSettings_def Let_def t_def [symmetric])
qed

lemma list_all_jset:
  "list_all P m \<Longrightarrow> P (k, v) \<Longrightarrow> list_all P (jset k v m)"
  using jset_set_subset [of k v m] by (auto simp: list_all_iff)

lemma windows_wf: "wfWindows m \<Longrightarrow> wfWindows (fold addWindow es m)"
proof (induction es arbitrary: m)
  case (Cons e es)
  have "wfWindows (addWindow e m)" using Cons.prems
    by (auto simp: wfWindows_def addWindow_def inRange_def intro: list_all_jset split: option.split)
  then show ?case using Cons.IH by simp
qed simp

lemma window_defaults_wf: "wfWindowDefaults m \<Longrightarrow> wfWindowDefaults (fold addProviderWindows es m)"
proof (induction es arbitrary: m)
  case (Cons e es)
  have w: "wfWindows (fold addWindow ws [])" for ws by (rule windows_wf) (simp add: wfWindows_def)
  have "wfWindowDefaults (addProviderWindows e m)" using Cons.prems w
    by (auto simp: wfWindowDefaults_def addProviderWindows_def Let_def intro: list_all_jset split: option.split)
  then show ?case using Cons.IH by simp
qed simp

lemma preflight_wf:
  assumes f: "okPreflight f"
  shows "wfPreflight (normalizeQuotaPreflightSettings v f)"
proof -
  define t where "t = toInteger (field ''defaultThresholdPercent'' (asRecord v)) (qp_defaultThresholdPercent f) 0 99"
  define g where "g = toInteger (field ''warnThresholdPercent'' (asRecord v)) (qp_warnThresholdPercent f) 0 100"
  have "inRange 0 99 t" "inRange 0 100 g" using f by (simp_all add: t_def g_def okPreflight_def toInteger_inRange)
  moreover have "wfWindowDefaults (normalizeProviderWindowDefaults x y)" for x y
    unfolding normalizeProviderWindowDefaults_def by (rule window_defaults_wf) (simp add: wfWindowDefaults_def)
  ultimately show ?thesis using f
    by (auto simp: wfPreflight_def okPreflight_def normalizeQuotaPreflightSettings_def Let_def
        t_def [symmetric] g_def [symmetric] inRange_def)
qed

lemma mathTrunc_nonneg: "0 < n \<Longrightarrow> 0 \<le> mathTrunc n"
  by (simp add: mathTrunc_def)

lemma override_entry_wf:
  "normalizeProviderQuotaOverrideEntry v = Some q \<Longrightarrow> wfOverride 0 q"
  by (auto simp: normalizeProviderQuotaOverrideEntry_def wfOverride_def positiveField_def mathTrunc_nonneg Let_def
      split: json.splits option.splits if_splits)

lemma overrides_wf: "wfOverrides 0 m \<Longrightarrow> wfOverrides 0 (fold addQuotaOverride es m)"
proof (induction es arbitrary: m)
  case (Cons e es)
  have "wfOverrides 0 (addQuotaOverride e m)" using Cons.prems
    by (auto simp: wfOverrides_def addQuotaOverride_def list_all_jset override_entry_wf split: option.split)
  then show ?case using Cons.IH by simp
qed simp

lemma sections_wf:
  assumes f: "okSettings f"
  shows "wfSettings (normalizeSections v f)"
proof -
  have "wfOverrides 0 (normalizeProviderQuotaOverrides x y)" for x y
    unfolding normalizeProviderQuotaOverrides_def by (rule overrides_wf) (simp add: wfOverrides_def)
  then show ?thesis using f
    by (simp add: okSettings_def wfSettings_def normalizeSections_def Let_def queue_wf cooldown_wf breaker_wf wait_wf
        combo_wf provider_cooldown_wf preflight_wf)
qed

text \<open>The fallback that the older settings give is in range when the defaults are.\<close>

lemma legacy_fallback_ok:
  assumes d: "okSettings d"
  shows "okSettings (buildLegacyFallback d sr settings)"
proof -
  have b: "inRange 0 300000 (max (t * 1000) (ws_budgetMs (rs_waitForCooldown d)))" if "inRange 0 300 t" for t
    using d that by (auto simp: okSettings_def okWait_def inRange_def)
  show ?thesis using d DAY_MS_pos
    by (simp add: okSettings_def buildLegacyFallback_def Let_def legacy_cooldown_wf)
       (simp add: wfQueue_def okBreaker_def okWait_def toInteger_inRange b)
qed

lemma resolved_wf: "okSettings d \<Longrightarrow> wfSettings (resolveResilienceSettings d sr v)"
  unfolding resolveResilienceSettings_def by (intro sections_wf legacy_fallback_ok)

lemma merged_wf: "wfSettings s \<Longrightarrow> wfSettings (mergeResilienceSettings s updates)"
  unfolding mergeResilienceSettings_def by (intro sections_wf wf_ok)

section \<open>Writing and reading back\<close>

lemma toInteger_num [simp]: "toInteger (num n) fallback lo hi = min hi (max lo n)"
  by (simp add: toInteger_def num_def)

lemma toInteger_undefined [simp]: "toInteger JUndefined fallback lo hi = fallback"
  by (simp add: toInteger_def)

lemma toBoolean_simps [simp]: "toBoolean (JBool b) fallback = b" "toBoolean JUndefined fallback = fallback"
  by (simp_all add: toBoolean_def)

lemma clamp_id: "inRange lo hi n \<Longrightarrow> min hi (max lo n) = n"
  by (simp add: inRange_def)

lemma fold_rebuild:
  assumes "jinv (acc @ m)" and "\<forall>e \<in> set m. \<forall>a. step (enc e) a = jset (fst e) (snd e) a"
  shows "fold step (map enc m) acc = acc @ m"
  using assms
proof (induction m arbitrary: acc)
  case (Cons e m)
  have "jget (fst e) acc = None" using Cons.prems(1) by (auto simp: jget_None_iff jinv_def jkeys_def)
  then have "step (enc e) acc = acc @ [e]" using Cons.prems(2) by (simp add: jset_absent)
  moreover have "fold step (map enc m) (acc @ [e]) = (acc @ [e]) @ m" using Cons by simp
  ultimately show ?case by simp
qed simp

lemma addWindow_stored:
  "fst e \<noteq> [] \<Longrightarrow> inRange 0 100 (snd e) \<Longrightarrow>
     addWindow (case e of (w, p) \<Rightarrow> (w, JNum (of_int p))) a = jset (fst e) (snd e) a"
  by (cases e) (simp add: addWindow_def clamp_id)

lemma windows_rebuild:
  assumes "wfWindows m"
  shows "fold addWindow (map (\<lambda>(w, p). (w, JNum (of_int p))) m) [] = m"
  using fold_rebuild [of "[]" m addWindow "\<lambda>(w, p). (w, JNum (of_int p))"] assms
  by (simp add: wfWindows_def list_all_iff addWindow_stored)

lemma addProviderWindows_stored:
  "fst e \<noteq> [] \<Longrightarrow> snd e \<noteq> [] \<Longrightarrow> wfWindows (snd e) \<Longrightarrow>
     addProviderWindows (case e of (p, w) \<Rightarrow> (p, windowsJson w)) a = jset (fst e) (snd e) a"
  by (cases e) (simp add: addProviderWindows_def windowsJson_def windows_rebuild)

lemma window_defaults_rebuild:
  assumes "wfWindowDefaults m"
  shows "fold addProviderWindows (map (\<lambda>(p, w). (p, windowsJson w)) m) [] = m"
  using fold_rebuild [of "[]" m addProviderWindows "\<lambda>(p, w). (p, windowsJson w)"] assms
  by (simp add: wfWindowDefaults_def list_all_iff addProviderWindows_stored)

lemma positiveField_int [simp]: "positiveField (JNum (of_int n)) = (if 0 < n then Some n else None)"
  by (simp add: positiveField_def)

lemma positiveField_undefined [simp]: "positiveField JUndefined = None"
  by (simp add: positiveField_def)

lemma override_entry_stored:
  "wfOverride 1 q \<Longrightarrow> normalizeProviderQuotaOverrideEntry (quotaOverrideJson q) = Some q"
  by (cases q; cases "qo_rpm q"; cases "qo_concurrency q")
     (auto simp: normalizeProviderQuotaOverrideEntry_def quotaOverrideJson_def wfOverride_def optionalField_def Let_def)

lemma addQuotaOverride_stored:
  "fst e \<noteq> [] \<Longrightarrow> wfOverride 1 (snd e) \<Longrightarrow>
     addQuotaOverride (case e of (p, q) \<Rightarrow> (p, quotaOverrideJson q)) a = jset (fst e) (snd e) a"
  by (cases e) (simp add: addQuotaOverride_def override_entry_stored)

lemma overrides_rebuild:
  assumes "wfOverrides 1 m"
  shows "fold addQuotaOverride (map (\<lambda>(p, q). (p, quotaOverrideJson q)) m) [] = m"
  using fold_rebuild [of "[]" m addQuotaOverride "\<lambda>(p, q). (p, quotaOverrideJson q)"] assms
  by (simp add: wfOverrides_def list_all_iff addQuotaOverride_stored)

text \<open>A typed map of overrides as the fallback loses the entries that are not positive.\<close>

lemma override_entry_typed:
  "normalizeProviderQuotaOverrideEntry (quotaOverrideJson q) = Some q' \<Longrightarrow> wfOverride 1 q'"
  by (cases "qo_rpm q"; cases "qo_concurrency q")
     (auto simp: normalizeProviderQuotaOverrideEntry_def quotaOverrideJson_def wfOverride_def optionalField_def Let_def
       split: if_splits)

lemma overrides_typed:
  "wfOverrides 1 m \<Longrightarrow> wfOverrides 1 (fold addQuotaOverride (map (\<lambda>(p, q). (p, quotaOverrideJson q)) es) m)"
proof (induction es arbitrary: m)
  case (Cons e es)
  have "wfOverrides 1 (addQuotaOverride (case e of (p, q) \<Rightarrow> (p, quotaOverrideJson q)) m)" using Cons.prems
    by (cases e) (auto simp: wfOverrides_def addQuotaOverride_def list_all_jset override_entry_typed split: option.split)
  then show ?case using Cons.IH by simp
qed simp

text \<open>
  What a read makes of stored settings: a budget below a single wait is raised to it, a maximal
  cooldown below the minimal one to that.
\<close>

definition settleSettings :: "resilience_settings \<Rightarrow> resilience_settings" where
  "settleSettings s =
     s\<lparr>rs_waitForCooldown := (let w = rs_waitForCooldown s in w\<lparr>ws_budgetMs := max (ws_maxRetryWaitMs w) (ws_budgetMs w)\<rparr>),
       rs_comboCooldownWait := (let w = rs_comboCooldownWait s in w\<lparr>cb_budgetMs := max (cb_maxWaitMs w) (cb_budgetMs w)\<rparr>),
       rs_providerCooldown := (let p = rs_providerCooldown s in
          p\<lparr>pc_maxRetryCooldownMs := max (pc_minRetryCooldownMs p) (pc_maxRetryCooldownMs p)\<rparr>)\<rparr>"

lemma cooldown_stored: "wfCooldown c \<Longrightarrow> cc_useUpstream429BreakerHints f = None \<Longrightarrow>
    normalizeConnectionCooldownProfile (cooldownJson c) f = c"
  by (cases "cc_useUpstream429BreakerHints c"; cases c)
     (auto simp: normalizeConnectionCooldownProfile_def cooldownJson_def optionalField_def wfCooldown_def Let_def clamp_id)

lemma breaker_stored: "wfBreaker b \<Longrightarrow> normalizeProviderBreakerProfile (breakerJson b) f = b"
  by (cases b) (auto simp: normalizeProviderBreakerProfile_def breakerJson_def wfBreaker_def okBreaker_def Let_def
      inRange_def min_def max_def split: if_splits)

lemma settings_stored:
  assumes s: "wfSettings s" and o1: "wfOverrides 1 (rs_providerQuotaOverrides s)"
    and h: "cc_useUpstream429BreakerHints (rs_cooldown_oauth f) = None"
      "cc_useUpstream429BreakerHints (rs_cooldown_apikey f) = None"
  shows "normalizeSections (asRecord (settingsJson s)) f = settleSettings s"
proof -
  define v where "v = asRecord (settingsJson s)"
  have q: "normalizeRequestQueueSettings (field ''requestQueue'' v) (rs_requestQueue f) = rs_requestQueue s"
    using s by (cases "rs_requestQueue s")
      (simp add: v_def settingsJson_def normalizeRequestQueueSettings_def wfSettings_def wfQueue_def Let_def clamp_id)
  have w: "normalizeWaitForCooldownSettings (field ''waitForCooldown'' v) (rs_waitForCooldown f)
      = rs_waitForCooldown (settleSettings s)"
    using s by (cases "rs_waitForCooldown s")
      (auto simp: v_def settingsJson_def normalizeWaitForCooldownSettings_def wfSettings_def wfWait_def okWait_def
        Let_def clamp_id settleSettings_def inRange_def)
  have cb: "normalizeComboCooldownWaitSettings (field ''comboCooldownWait'' v) (rs_comboCooldownWait f)
      = rs_comboCooldownWait (settleSettings s)"
    using s by (cases "rs_comboCooldownWait s")
      (auto simp: v_def settingsJson_def normalizeComboCooldownWaitSettings_def wfSettings_def wfCombo_def okCombo_def
        Let_def clamp_id settleSettings_def inRange_def)
  have pc: "normalizeProviderCooldownSettings (field ''providerCooldown'' v) (rs_providerCooldown f)
      = rs_providerCooldown (settleSettings s)"
    using s DAY_MS_pos by (cases "rs_providerCooldown s")
      (auto simp: v_def settingsJson_def normalizeProviderCooldownSettings_def wfSettings_def wfProviderCooldown_def
        Let_def clamp_id settleSettings_def inRange_def)
  have qp: "normalizeQuotaPreflightSettings (field ''quotaPreflight'' v) (rs_quotaPreflight f) = rs_quotaPreflight s"
  proof -
    have "normalizeProviderWindowDefaults (windowDefaultsJson (qp_providerWindowDefaults (rs_quotaPreflight s))) x
        = qp_providerWindowDefaults (rs_quotaPreflight s)" for x
      using s by (simp add: normalizeProviderWindowDefaults_def windowDefaultsJson_def window_defaults_rebuild
          wfSettings_def wfPreflight_def)
    then show ?thesis using s by (cases "rs_quotaPreflight s")
      (simp add: v_def settingsJson_def normalizeQuotaPreflightSettings_def wfSettings_def wfPreflight_def okPreflight_def
        Let_def clamp_id)
  qed
  have o2: "normalizeProviderQuotaOverrides (field ''providerQuotaOverrides'' v) (rs_providerQuotaOverrides f)
      = rs_providerQuotaOverrides s"
    using o1 by (simp add: v_def settingsJson_def normalizeProviderQuotaOverrides_def quotaOverridesJson_def overrides_rebuild)
  have sr: "normalizeStreamRecoverySettings (field ''streamRecovery'' v) (rs_streamRecovery f) = rs_streamRecovery s"
    by (cases "rs_streamRecovery s") (simp add: v_def settingsJson_def normalizeStreamRecoverySettings_def Let_def)
  have rest: "asRecord (field ''connectionCooldown'' v) = [(''oauth'', cooldownJson (rs_cooldown_oauth s)),
        (''apikey'', cooldownJson (rs_cooldown_apikey s))]"
      "asRecord (field ''providerBreaker'' v) = [(''oauth'', breakerJson (rs_breaker_oauth s)),
        (''apikey'', breakerJson (rs_breaker_apikey s))]"
      "normalizeQuotaShareConcurrencyLimitSettings (field ''quotaShareConcurrencyLimit'' v) x
        = rs_quotaShareConcurrencyLimit_enabled s" for x
    by (simp_all add: v_def settingsJson_def normalizeQuotaShareConcurrencyLimitSettings_def)
  have wf: "wfCooldown (rs_cooldown_oauth s)" "wfCooldown (rs_cooldown_apikey s)"
      "wfBreaker (rs_breaker_oauth s)" "wfBreaker (rs_breaker_apikey s)" using s by (simp_all add: wfSettings_def)
  have "normalizeSections v f = settleSettings s"
    by (simp add: normalizeSections_def Let_def q w cb pc qp o2 sr rest cooldown_stored wf h breaker_stored)
       (simp add: settleSettings_def)
  then show ?thesis by (simp add: v_def)
qed

text \<open>The route never patches the overrides, so what it merges keeps only positive ones.\<close>

lemma patchOf_no_overrides: "field ''providerQuotaOverrides'' (patchOf body) = JUndefined"
  by (simp add: patchOf_def normalizeLegacyPatch_def bodySection_def Let_def field_append)

lemma patched_overrides: "wfOverrides 1 (rs_providerQuotaOverrides (mergeResilienceSettings s (patchOf body)))"
  by (simp add: mergeResilienceSettings_def normalizeSections_def Let_def patchOf_no_overrides
      normalizeProviderQuotaOverrides_def quotaOverridesJson_def)
     (rule overrides_typed, simp add: wfOverrides_def)

text \<open>Merging nothing changes nothing.\<close>

lemma merge_nothing:
  assumes s: "wfSettings s" and o1: "wfOverrides 1 (rs_providerQuotaOverrides s)"
  shows "mergeResilienceSettings s [] = s"
proof -
  have b: "normalizeProviderBreakerProfile JUndefined b = b" if "wfBreaker b" for b
    using that by (cases b) (auto simp: normalizeProviderBreakerProfile_def wfBreaker_def okBreaker_def Let_def
        inRange_def min_def max_def split: if_splits)
  have "normalizeWaitForCooldownSettings JUndefined (rs_waitForCooldown s) = rs_waitForCooldown s"
    using s by (cases "rs_waitForCooldown s")
      (auto simp: normalizeWaitForCooldownSettings_def wfSettings_def wfWait_def Let_def)
  moreover have "normalizeComboCooldownWaitSettings JUndefined (rs_comboCooldownWait s) = rs_comboCooldownWait s"
    using s by (cases "rs_comboCooldownWait s")
      (auto simp: normalizeComboCooldownWaitSettings_def wfSettings_def wfCombo_def Let_def)
  moreover have "normalizeQuotaPreflightSettings JUndefined (rs_quotaPreflight s) = rs_quotaPreflight s"
    using s by (cases "rs_quotaPreflight s")
      (simp add: normalizeQuotaPreflightSettings_def wfSettings_def wfPreflight_def okPreflight_def Let_def
        normalizeProviderWindowDefaults_def windowDefaultsJson_def window_defaults_rebuild)
  moreover have "normalizeProviderQuotaOverrides JUndefined (rs_providerQuotaOverrides s) = rs_providerQuotaOverrides s"
    using o1 by (simp add: normalizeProviderQuotaOverrides_def quotaOverridesJson_def overrides_rebuild)
  moreover have "normalizeRequestQueueSettings JUndefined q = q" "normalizeConnectionCooldownProfile JUndefined c = c"
      "normalizeQuotaShareConcurrencyLimitSettings JUndefined x = x" "normalizeProviderCooldownSettings JUndefined p = p"
      "normalizeStreamRecoverySettings JUndefined r = r" for q c x p r
    by (simp_all add: normalizeRequestQueueSettings_def normalizeConnectionCooldownProfile_def
        normalizeQuotaShareConcurrencyLimitSettings_def normalizeProviderCooldownSettings_def
        normalizeStreamRecoverySettings_def Let_def)
  moreover have "wfBreaker (rs_breaker_oauth s)" "wfBreaker (rs_breaker_apikey s)"
    using s by (simp_all add: wfSettings_def)
  ultimately show ?thesis by (simp add: mergeResilienceSettings_def normalizeSections_def b)
qed

section \<open>The environment\<close>

definition okEnv :: "(string \<Rightarrow> string option) \<Rightarrow> env_numbers \<Rightarrow> bool" where
  "okEnv env n \<longleftrightarrow> inRange 1 1000 (en_oauthThreshold n) \<and> inRange 1000 DAY_MS (en_oauthReset n)
     \<and> inRange 1 1000 (en_apikeyThreshold n) \<and> inRange 1000 DAY_MS (en_apikeyReset n)
     \<and> inRange 0 3600000 (en_minCooldown n) \<and> inRange 0 DAY_MS (en_maxCooldown n)
     \<and> inRange 1 DAY_MS (DEFAULT_REQUEST_QUEUE_MAX_WAIT_MS env)
     \<and> inRange 0 100000 (DEFAULT_REQUEST_QUEUE_MAX_DEPTH env)"

lemma defaults_ok: "okEnv env n \<Longrightarrow> okSettings (DEFAULT_RESILIENCE_SETTINGS env n)"
  by (simp add: okEnv_def okSettings_def DEFAULT_RESILIENCE_SETTINGS_def wfQueue_def wfCooldown_def okBreaker_def
      okWait_def okCombo_def wfProviderCooldown_def okPreflight_def)
     (simp add: inRange_def DAY_MS_def)

text \<open>The process with none of the variables set.\<close>

definition noEnv :: "string \<Rightarrow> string option" where
  "noEnv name = None"

definition noEnvNumbers :: env_numbers where
  "noEnvNumbers = \<lparr>en_oauthThreshold = 8, en_oauthReset = 60000, en_apikeyThreshold = 12, en_apikeyReset = 30000,
     en_minCooldown = 5000, en_maxCooldown = 300000\<rparr>"

lemma noEnv_ok: "envNumbers noEnv = Some noEnvNumbers" "okEnv noEnv noEnvNumbers"
  by code_simp+

abbreviation noRecovery :: stream_recovery where
  "noRecovery \<equiv> \<lparr>sr_enabled = False, sr_continueMidStream = False\<rparr>"

section \<open>Properties\<close>

text \<open>
  An override of a provider drops what is not positive, but truncates afterwards: half a request per minute becomes the 0 that
  stands for no cap.
\<close>

lemma override_fraction_lifts_cap:
  "normalizeProviderQuotaOverrides (JObj [(''nvidia'', JObj [(''rpm'', JNum (1 / 2))])]) []
    = [(''nvidia'', \<lparr>qo_rpm = Some 0, qo_concurrency = None\<rparr>)]"
  by code_simp

text \<open>
  C17. Whatever JSON is stored, when the environment gives numbers that are in range, since a fallback is not clamped, the
  resolved resilience settings are in range in every section: rates and waits within their bounds, the degradation
  threshold below the failure threshold (or both 1), the warning percentage above the cutoff, an enabled wait with a
  positive number of positive waits, window cutoffs between 0 and 100. The numbers of an override of a provider are only
  known not to be negative: a positive fraction becomes 0, against the comment that says such values are dropped.
\<close>

theorem resolved_settings_in_range:
  assumes "envNumbers env = Some n" and "okEnv env n"
  shows "wfSettings (resolveResilienceSettings (DEFAULT_RESILIENCE_SETTINGS env n) sr v)"
  using assms by (intro resolved_wf defaults_ok)

lemma resolved_settings_in_range_witness:
  "wfSettings (resolveResilienceSettings (DEFAULT_RESILIENCE_SETTINGS noEnv noEnvNumbers) noRecovery
     (JObj [(''resilienceSettings'', JObj [(''comboCooldownWait'', JObj [(''maxWaitMs'', JStr ''-7.5e9'')])])]))"
  by (rule resolved_settings_in_range) (rule noEnv_ok)+

text \<open>
  C27. What a PATCH of the resilience settings answers is what the next read resolves from the
  stored settings, for any stored settings and any body, up to the floors a read applies: a wait
  budget below a single wait, and a maximal cooldown below the minimal one, are raised.
\<close>

theorem read_after_patch:
  assumes "envNumbers env = Some n" and "okEnv env n"
  shows "let d = DEFAULT_RESILIENCE_SETTINGS env n;
             (next, stored) = patchResilience d sr settings body
         in resolveResilienceSettings d sr (JObj stored) = settleSettings next"
proof -
  define d where "d = DEFAULT_RESILIENCE_SETTINGS env n"
  define s where "s = mergeResilienceSettings (resolveResilienceSettings d sr (JObj settings)) (patchOf body)"
  have "wfSettings s" unfolding s_def d_def by (intro merged_wf resolved_wf defaults_ok assms)
  moreover have "wfOverrides 1 (rs_providerQuotaOverrides s)" unfolding s_def by (rule patched_overrides)
  ultimately have "normalizeSections (asRecord (settingsJson s)) (buildLegacyFallback d sr x) = settleSettings s" for x
    by (rule settings_stored)
      (simp_all add: buildLegacyFallback_def Let_def normalizeLegacyConnectionCooldownProfile_def)
  then have r: "resolveResilienceSettings d sr (JObj (updateSettings [(''resilienceSettings'', settingsJson s),
      (''requestRetry'', x), (''maxRetryIntervalSec'', y)] settings)) = settleSettings s" for x y
    by (simp add: resolveResilienceSettings_def updateSettings_def)
  have "patchResilience d sr settings body = (s, updateSettings [(''resilienceSettings'', settingsJson s),
      (''requestRetry'', num (ws_maxRetries (rs_waitForCooldown s))),
      (''maxRetryIntervalSec'', num (ws_maxRetryWaitSec (rs_waitForCooldown s)))] settings)"
    by (simp only: patchResilience_def Let_def s_def)
  then show ?thesis by (simp only: d_def [symmetric] Let_def prod.case r)
qed

lemma read_after_patch_witness:
  "let d = DEFAULT_RESILIENCE_SETTINGS noEnv noEnvNumbers;
       (next, stored) = patchResilience d noRecovery [(''requestRetry'', num 3)]
          [(''comboCooldownWait'', JObj [(''budgetMs'', num 100000)]), (''defaults'', JObj [(''requestsPerMinute'', num 0)])]
   in resolveResilienceSettings d noRecovery (JObj stored) = settleSettings next"
  by (rule read_after_patch) (rule noEnv_ok)+

text \<open>
  The floor of a wait budget is not applied to the fallback: a PATCH that only raises the
  longest single wait above the current budget leaves the budget below it, so no wait of that
  length fits the budget, although the comment says the budget can never be smaller than a
  single wait. The same holds for a minimal cooldown above the current maximal one.
\<close>

theorem patch_leaves_budget_below_wait:
  assumes "wfSettings s" and "cb_budgetMs (rs_comboCooldownWait s) < m" and "m \<le> 300000"
    and "pc_maxRetryCooldownMs (rs_providerCooldown s) < k" and "k \<le> 3600000"
  shows "let s' = mergeResilienceSettings s (patchOf [(''comboCooldownWait'', JObj [(''maxWaitMs'', num m)]),
                     (''providerCooldown'', JObj [(''minRetryCooldownMs'', num k)])])
         in cb_budgetMs (rs_comboCooldownWait s') < cb_maxWaitMs (rs_comboCooldownWait s')
            \<and> pc_maxRetryCooldownMs (rs_providerCooldown s') < pc_minRetryCooldownMs (rs_providerCooldown s')"
  using assms
  by (simp add: mergeResilienceSettings_def normalizeSections_def Let_def patchOf_def normalizeLegacyPatch_def
      bodySection_def normalizeComboCooldownWaitSettings_def normalizeProviderCooldownSettings_def wfSettings_def
      wfCombo_def okCombo_def wfProviderCooldown_def inRange_def)

lemma patch_leaves_budget_below_wait_witness:
  "let s = fst (patchResilience (DEFAULT_RESILIENCE_SETTINGS noEnv noEnvNumbers) noRecovery []
              [(''comboCooldownWait'', JObj [(''budgetMs'', num 100000)])]);
       s' = mergeResilienceSettings s (patchOf [(''comboCooldownWait'', JObj [(''maxWaitMs'', num 200000)]),
                     (''providerCooldown'', JObj [(''minRetryCooldownMs'', num 600000)])])
   in cb_budgetMs (rs_comboCooldownWait s') < cb_maxWaitMs (rs_comboCooldownWait s')"
proof -
  let ?s = "fst (patchResilience (DEFAULT_RESILIENCE_SETTINGS noEnv noEnvNumbers) noRecovery []
              [(''comboCooldownWait'', JObj [(''budgetMs'', num 100000)])])"
  have "wfSettings ?s" by code_simp
  moreover have "cb_budgetMs (rs_comboCooldownWait ?s) < 200000" by code_simp
  moreover have "pc_maxRetryCooldownMs (rs_providerCooldown ?s) < 600000" by code_simp
  ultimately show ?thesis using patch_leaves_budget_below_wait [of ?s 200000 600000] by (simp add: Let_def)
qed

text \<open>
  A stored value for the window cutoffs that is not an object does not fall back, as the
  comment says it does: it drops every cutoff that was configured. Only \<open>null\<close> and an absent
  value fall back.
\<close>

theorem malformed_window_defaults_wipe:
  assumes "v \<noteq> JUndefined" and "v \<noteq> JNull" and "asRecord v = []"
  shows "qp_providerWindowDefaults (normalizeQuotaPreflightSettings (JObj [(''providerWindowDefaults'', v)]) f) = []"
  using assms
  by (cases v) (simp_all add: normalizeQuotaPreflightSettings_def normalizeProviderWindowDefaults_def Let_def orElse_def)

lemma malformed_window_defaults_wipe_witness:
  "qp_providerWindowDefaults (normalizeQuotaPreflightSettings
      (JObj [(''providerWindowDefaults'', JStr ''codex'')])
      \<lparr>qp_enabled = True, qp_defaultThresholdPercent = 2, qp_warnThresholdPercent = 20,
       qp_providerWindowDefaults = [(''codex'', [(''weekly'', 10)])]\<rparr>) = []"
  by (rule malformed_window_defaults_wipe) simp_all

end
