(* ===== verification/LockoutSettings.thy ===== *)
theory LockoutSettings
  imports JsValues
begin

text \<open>
  The stored settings of model lockouts, \<open>src/lib/resilience/modelLockoutSettings.ts\<close>. Whether the
  process is a test run (\<open>isAutomatedTestProcess\<close>) is an argument; its coercions differ from those
  of \<open>ResilienceSettings\<close> and carry their own names.
\<close>

record lockout_settings =
  ml_enabled :: bool
  ml_errorCodes :: "rat list"
  ml_baseCooldownMs :: int
  ml_maxCooldownMs :: int
  ml_maxBackoffSteps :: int
  ml_useExponentialBackoff :: bool

definition DEFAULT_MODEL_LOCKOUT_SETTINGS :: lockout_settings where
  "DEFAULT_MODEL_LOCKOUT_SETTINGS =
     \<lparr>ml_enabled = False, ml_errorCodes = [403, 404, 429, 502, 503, 504], ml_baseCooldownMs = 120000,
      ml_maxCooldownMs = 1800000, ml_maxBackoffSteps = 10, ml_useExponentialBackoff = True\<rparr>"

definition lockoutInteger :: "json \<Rightarrow> int \<Rightarrow> int \<Rightarrow> int \<Rightarrow> int" where
  "lockoutInteger value fallback lo hi =
     (case value of
        JNum r \<Rightarrow> max lo (min hi (mathTrunc r))
      | JStr s \<Rightarrow> (case jsNumber s of Some r \<Rightarrow> max lo (min hi (mathTrunc r)) | None \<Rightarrow> fallback)
      | JNaN \<Rightarrow> fallback
      | _ \<Rightarrow> max lo (min hi fallback))"

definition lockoutBoolean :: "json \<Rightarrow> bool \<Rightarrow> bool" where
  "lockoutBoolean value fallback =
     (case value of
        JBool b \<Rightarrow> b
      | JNum n \<Rightarrow> n \<noteq> 0
      | JNaN \<Rightarrow> True
      | JStr s \<Rightarrow> s = ''true'' \<or> s = ''1''
      | _ \<Rightarrow> fallback)"

definition toNumberArray :: "json \<Rightarrow> rat list \<Rightarrow> rat list" where
  "toNumberArray value fallback =
     (case value of
        JArr vs \<Rightarrow> (let nums = filter (\<lambda>n. 100 \<le> n \<and> n \<le> 599) (List.map_filter jsNumberOf vs)
                    in if nums \<noteq> [] then nums else fallback)
      | _ \<Rightarrow> fallback)"

definition resolveModelLockoutSettings :: "bool \<Rightarrow> json \<Rightarrow> lockout_settings" where
  "resolveModelLockoutSettings isTest settings =
     (let raw = asRecord (field ''modelLockout'' (asRecord settings));
          d = DEFAULT_MODEL_LOCKOUT_SETTINGS;
          lo = (if isTest then 0 else 5000);
          baseCooldownMs = lockoutInteger (field ''baseCooldownMs'' raw) (ml_baseCooldownMs d) lo 600000;
          maxCooldownMs = max (lockoutInteger (field ''maxCooldownMs'' raw) (ml_maxCooldownMs d) lo 3600000) baseCooldownMs
      in \<lparr>ml_enabled = lockoutBoolean (field ''enabled'' raw) (ml_enabled d),
          ml_errorCodes = toNumberArray (field ''errorCodes'' raw) (ml_errorCodes d),
          ml_baseCooldownMs = baseCooldownMs, ml_maxCooldownMs = maxCooldownMs,
          ml_maxBackoffSteps = lockoutInteger (field ''maxBackoffSteps'' raw) (ml_maxBackoffSteps d) 0 20,
          ml_useExponentialBackoff = lockoutBoolean (field ''useExponentialBackoff'' raw) (ml_useExponentialBackoff d)\<rparr>)"

section \<open>Ranges\<close>

lemma lockoutInteger_range:
  "lo \<le> fallback \<Longrightarrow> fallback \<le> hi \<Longrightarrow> lo \<le> lockoutInteger v fallback lo hi \<and> lockoutInteger v fallback lo hi \<le> hi"
  by (auto simp: lockoutInteger_def split: json.split option.split)

lemma errorCodes_range: "\<forall>n \<in> set (toNumberArray v (ml_errorCodes DEFAULT_MODEL_LOCKOUT_SETTINGS)). 100 \<le> n \<and> n \<le> 599"
  by (auto simp: toNumberArray_def DEFAULT_MODEL_LOCKOUT_SETTINGS_def Let_def split: json.split)

lemma errorCodes_nonempty: "toNumberArray v (ml_errorCodes DEFAULT_MODEL_LOCKOUT_SETTINGS) \<noteq> []"
  by (cases v) (simp_all add: toNumberArray_def DEFAULT_MODEL_LOCKOUT_SETTINGS_def Let_def)

lemma lockout_settings_range:
  fixes isTest :: bool and v :: json
  defines "s \<equiv> resolveModelLockoutSettings isTest v"
  shows "0 \<le> ml_baseCooldownMs s" and "ml_baseCooldownMs s \<le> 600000"
    and "ml_baseCooldownMs s \<le> ml_maxCooldownMs s" and "ml_maxCooldownMs s \<le> 3600000"
    and "0 \<le> ml_maxBackoffSteps s" and "ml_maxBackoffSteps s \<le> 20"
    and "isTest \<or> 5000 \<le> ml_baseCooldownMs s"
    and "ml_errorCodes s \<noteq> [] \<and> list_all (\<lambda>n. 100 \<le> n \<and> n \<le> 599) (ml_errorCodes s)"
proof -
  define raw where "raw = asRecord (field ''modelLockout'' (asRecord v))"
  define lo :: int where "lo = (if isTest then 0 else 5000)"
  define b where "b = lockoutInteger (field ''baseCooldownMs'' raw) 120000 lo 600000"
  define m where "m = lockoutInteger (field ''maxCooldownMs'' raw) 1800000 lo 3600000"
  define k where "k = lockoutInteger (field ''maxBackoffSteps'' raw) 10 0 20"
  have r: "0 \<le> lo" "lo \<le> b" "b \<le> 600000" "lo \<le> m" "m \<le> 3600000" "0 \<le> k" "k \<le> 20"
    using lockoutInteger_range [of lo 120000 600000] lockoutInteger_range [of lo 1800000 3600000]
      lockoutInteger_range [of 0 10 20] by (simp_all add: b_def m_def k_def lo_def)
  have s: "ml_baseCooldownMs s = b" "ml_maxCooldownMs s = max m b" "ml_maxBackoffSteps s = k"
    "ml_errorCodes s = toNumberArray (field ''errorCodes'' raw) (ml_errorCodes DEFAULT_MODEL_LOCKOUT_SETTINGS)"
    by (simp_all add: s_def resolveModelLockoutSettings_def Let_def raw_def b_def m_def k_def lo_def
        DEFAULT_MODEL_LOCKOUT_SETTINGS_def)
  show "0 \<le> ml_baseCooldownMs s" "ml_baseCooldownMs s \<le> 600000" "ml_baseCooldownMs s \<le> ml_maxCooldownMs s"
    "ml_maxCooldownMs s \<le> 3600000" "0 \<le> ml_maxBackoffSteps s" "ml_maxBackoffSteps s \<le> 20"
    using r by (simp_all add: s)
  show "isTest \<or> 5000 \<le> ml_baseCooldownMs s" using r(2) by (cases isTest) (simp_all add: s lo_def)
  show "ml_errorCodes s \<noteq> [] \<and> list_all (\<lambda>n. 100 \<le> n \<and> n \<le> 599) (ml_errorCodes s)"
    using errorCodes_range errorCodes_nonempty by (simp add: s list_all_iff)
qed

end
