(* ===== verification/ComboConfig.thy ===== *)
theory ComboConfig
  imports JsValues
begin

text \<open>
  The configuration of combos, \<open>open-sse/services/comboConfig.ts\<close>: the cascade from the defaults
  over the global and the provider's settings to the combo's own, the timeout per target with its
  floor for combos that wait out cooldowns, and the queue depth.
\<close>

section \<open>Constants\<close>

definition DEFAULT_COMBO_TARGET_TIMEOUT_MS :: int where "DEFAULT_COMBO_TARGET_TIMEOUT_MS = 120000"
definition COMBO_TARGET_TIMEOUT_WAIT_BUFFER_MS :: int where "COMBO_TARGET_TIMEOUT_WAIT_BUFFER_MS = 10000"
definition MAX_TIMER_TIMEOUT_MS :: int where "MAX_TIMER_TIMEOUT_MS = 2147483647"
definition DEFAULT_COMBO_QUEUE_DEPTH :: int where "DEFAULT_COMBO_QUEUE_DEPTH = 20"
definition MAX_COMBO_QUEUE_DEPTH :: int where "MAX_COMBO_QUEUE_DEPTH = 100"

definition DEFAULT_SHADOW_ROUTING :: json_object where
  "DEFAULT_SHADOW_ROUTING =
     [(''enabled'', JBool False), (''targets'', JArr []), (''sampleRate'', JNum 1), (''maxTargets'', JNum 2),
      (''timeoutMs'', JNum 30000)]"

definition DEFAULT_EVAL_ROUTING :: json_object where
  "DEFAULT_EVAL_ROUTING =
     [(''enabled'', JBool False), (''suiteIds'', JArr []), (''maxAgeHours'', JNum 720), (''minCases'', JNum 1),
      (''qualityWeight'', JNum (85 / 100)), (''latencyWeight'', JNum (15 / 100)), (''cacheTtlMs'', JNum 60000)]"

definition DEFAULT_COMBO_CONFIG :: json_object where
  "DEFAULT_COMBO_CONFIG =
     [(''strategy'', JStr ''priority''), (''maxRetries'', JNum 1), (''retryDelayMs'', JNum 2000),
      (''fallbackDelayMs'', JNum 0), (''concurrencyPerModel'', JNum 3), (''queueTimeoutMs'', JNum 30000),
      (''queueDepth'', JNum (of_int DEFAULT_COMBO_QUEUE_DEPTH)), (''handoffThreshold'', JNum (85 / 100)),
      (''handoffModel'', JStr []), (''handoffProviders'', JArr [JStr ''codex'']), (''maxMessagesForSummary'', JNum 30),
      (''maxComboDepth'', JNum 3), (''nestedComboMode'', JStr ''flatten''), (''trackMetrics'', JBool True),
      (''reasoningTokenBufferEnabled'', JBool True), (''manifestRouting'', JBool False),
      (''complexityAwareRouting'', JBool False), (''resetAwareSessionWeight'', JNum (35 / 100)),
      (''resetAwareWeeklyWeight'', JNum (65 / 100)), (''resetAwareTieBandPercent'', JNum 5),
      (''resetAwareExhaustionGuardPercent'', JNum 10), (''failoverBeforeRetry'', JBool True),
      (''responseValidation'', JUndefined), (''maxSetRetries'', JNum 0), (''setRetryDelayMs'', JNum 2000),
      (''zeroLatencyOptimizationsEnabled'', JBool False), (''hedging'', JBool False), (''hedgeDelayMs'', JNum 500),
      (''fallbackCompressionMode'', JStr ''lite''), (''fallbackCompressionThreshold'', JNum 1000),
      (''predictiveTtftMs'', JNum 0), (''pipeline_enabled'', JBool False), (''task_detection'', JStr ''pattern''),
      (''max_reflection_loops'', JNum 1), (''skip_pipeline_for_tokens_under'', JNum 50),
      (''pipeline_fallback'', JStr ''single-provider''), (''resetAwareQuotaCacheTtlMs'', JNum 0),
      (''resetAwareQuotaCacheMaxStaleMs'', JNum 0), (''comboTimeoutMs'', JNum 0),
      (''shadowRouting'', JObj DEFAULT_SHADOW_ROUTING), (''evalRouting'', JObj DEFAULT_EVAL_ROUTING),
      (''contextRequirements'', JUndefined)]"

definition LEGACY_COMBO_RESILIENCE_KEYS :: "string list" where
  "LEGACY_COMBO_RESILIENCE_KEYS = [''timeoutMs'', ''healthCheckEnabled'', ''healthCheckTimeoutMs'']"

section \<open>Timeouts and queue depth\<close>

definition isComboCooldownWaitEligible :: "string \<Rightarrow> bool \<Rightarrow> bool" where
  "isComboCooldownWaitEligible strategy waitEnabled = waitEnabled"

definition isRecord :: "json \<Rightarrow> bool" where
  "isRecord v = (case v of JObj fs \<Rightarrow> True | _ \<Rightarrow> False)"

definition normalizePositiveTimeoutMs :: "json \<Rightarrow> int" where
  "normalizePositiveTimeoutMs v =
     (case jsNumberOf v of
        None \<Rightarrow> 0
      | Some n \<Rightarrow> if n \<le> 0 then 0 else min \<lfloor>n\<rfloor> MAX_TIMER_TIMEOUT_MS)"

definition resolveComboTargetTimeoutMs :: "json \<Rightarrow> json \<Rightarrow> json \<Rightarrow> int" where
  "resolveComboTargetTimeoutMs config upstreamTimeoutMs defaultTimeoutMs =
     (let ceilingMs = normalizePositiveTimeoutMs upstreamTimeoutMs;
          configuredMs = (if isRecord config then normalizePositiveTimeoutMs (field ''targetTimeoutMs'' (asRecord config)) else 0)
      in if 0 < configuredMs then (if ceilingMs \<le> 0 then configuredMs else min configuredMs ceilingMs)
         else (let fallbackMs = normalizePositiveTimeoutMs defaultTimeoutMs
               in if ceilingMs \<le> 0 then ceilingMs
                  else if fallbackMs \<le> 0 then ceilingMs
                  else min fallbackMs ceilingMs))"

definition resolveComboTargetTimeoutMsForCombo :: "json \<Rightarrow> json \<Rightarrow> string \<Rightarrow> bool \<Rightarrow> int \<Rightarrow> int" where
  "resolveComboTargetTimeoutMsForCombo config upstreamTimeoutMs strategy waitEnabled waitBudgetMs =
     (let defaultMs = (if isComboCooldownWaitEligible strategy waitEnabled
                       then max DEFAULT_COMBO_TARGET_TIMEOUT_MS (waitBudgetMs + COMBO_TARGET_TIMEOUT_WAIT_BUFFER_MS)
                       else DEFAULT_COMBO_TARGET_TIMEOUT_MS)
      in resolveComboTargetTimeoutMs config upstreamTimeoutMs (JNum (of_int defaultMs)))"

definition resolveComboQueueDepth :: "json \<Rightarrow> int" where
  "resolveComboQueueDepth config =
     (case (if isRecord config then jsNumberOf (field ''queueDepth'' (asRecord config)) else None) of
        None \<Rightarrow> DEFAULT_COMBO_QUEUE_DEPTH
      | Some raw \<Rightarrow> if raw < 0 then DEFAULT_COMBO_QUEUE_DEPTH else min \<lfloor>raw\<rfloor> MAX_COMBO_QUEUE_DEPTH)"

section \<open>The cascade\<close>

definition clean :: "json_object \<Rightarrow> json_object" where
  "clean obj = filter (\<lambda>(k, v). v \<noteq> JUndefined \<and> v \<noteq> JNull \<and> k \<notin> set LEGACY_COMBO_RESILIENCE_KEYS) obj"

definition cleanRecord :: "string \<Rightarrow> json_object \<Rightarrow> json_object" where
  "cleanRecord k layer = (if isRecord (field k layer) then clean (asRecord (field k layer)) else [])"

text \<open>The three layers of a combo: global defaults, the provider's overrides, its own configuration.\<close>

definition configLayers :: "json \<Rightarrow> json \<Rightarrow> string option \<Rightarrow> json_object \<times> json_object \<times> json_object" where
  "configLayers combo settings provider =
     (asRecord (field ''comboDefaults'' (asRecord settings)),
      (case provider of
         None \<Rightarrow> []
       | Some p \<Rightarrow> if p = [] then []
                   else asRecord (field p (asRecord (field ''providerOverrides'' (asRecord settings))))),
      asRecord (field ''config'' (asRecord combo)))"

definition resolveComboConfig :: "json \<Rightarrow> json \<Rightarrow> string option \<Rightarrow> json_object" where
  "resolveComboConfig combo settings provider =
     (case configLayers combo settings provider of
        (glob, providerOverride, comboConfig) \<Rightarrow>
          (let merged = spread (clean comboConfig) (spread (clean providerOverride)
                          (spread (clean glob) DEFAULT_COMBO_CONFIG));
               nested = (\<lambda>k dflt. JObj (spread (cleanRecord k comboConfig) (spread (cleanRecord k providerOverride)
                          (spread (cleanRecord k glob) dflt))))
           in spread [(''shadowRouting'', nested ''shadowRouting'' DEFAULT_SHADOW_ROUTING),
                      (''evalRouting'', nested ''evalRouting'' DEFAULT_EVAL_ROUTING)] merged))"

definition getDefaultComboConfig :: json_object where
  "getDefaultComboConfig = DEFAULT_COMBO_CONFIG"

definition resolveComboSetupConfig :: "json \<Rightarrow> json \<Rightarrow> json_object" where
  "resolveComboSetupConfig combo settings =
     (if isTruthy settings then resolveComboConfig combo settings None
      else spread (asRecord (field ''config'' (asRecord combo))) getDefaultComboConfig)"

section \<open>Lemmas\<close>

text \<open>A layer decides a key when it has a value there and the key is not a legacy one.\<close>

definition decides :: "string \<Rightarrow> json_object \<Rightarrow> bool" where
  "decides k layer \<longleftrightarrow> field k layer \<noteq> JUndefined \<and> field k layer \<noteq> JNull \<and> k \<notin> set LEGACY_COMBO_RESILIENCE_KEYS"

lemma hasOwn_clean: "distinct (map fst layer) \<Longrightarrow> hasOwn k (clean layer) \<longleftrightarrow> decides k layer"
  by (auto simp: clean_def hasOwn_filter decides_def dest: field_absent field_defined)

lemma field_clean: "distinct (map fst layer) \<Longrightarrow> decides k layer \<Longrightarrow> field k (clean layer) = field k layer"
  by (simp add: clean_def field_filter decides_def)

definition wellKeyed :: "json_object \<Rightarrow> bool" where
  "wellKeyed layer \<longleftrightarrow> distinct (map fst layer)"

lemma spread_clean:
  "wellKeyed layer \<Longrightarrow> field k (spread (clean layer) base) = (if decides k layer then field k layer else field k base)"
  by (simp add: wellKeyed_def hasOwn_clean field_clean)

lemma timeout_of_int: "0 < n \<Longrightarrow> n \<le> MAX_TIMER_TIMEOUT_MS \<Longrightarrow> normalizePositiveTimeoutMs (JNum (of_int n)) = n"
  by (simp add: normalizePositiveTimeoutMs_def)

lemma timeout_range: "0 \<le> normalizePositiveTimeoutMs v \<and> normalizePositiveTimeoutMs v \<le> MAX_TIMER_TIMEOUT_MS"
  by (auto simp: normalizePositiveTimeoutMs_def MAX_TIMER_TIMEOUT_MS_def split: option.split)

section \<open>Properties\<close>

text \<open>
  The cascade of a combo's configuration: a key takes the value of the most specific layer
  that has one, the combo before the provider before the global defaults, and the built-in default
  when none has. Undefined and null values do not override, and the three legacy keys never come
  through.
\<close>

theorem combo_config_cascade:
  assumes "configLayers combo settings provider = (glob, prov, own)"
    and "wellKeyed glob" and "wellKeyed prov" and "wellKeyed own"
    and "k \<noteq> ''shadowRouting''" and "k \<noteq> ''evalRouting''"
  shows "field k (resolveComboConfig combo settings provider) =
    (if decides k own then field k own
     else if decides k prov then field k prov
     else if decides k glob then field k glob
     else field k DEFAULT_COMBO_CONFIG)"
  unfolding resolveComboConfig_def assms(1) prod.case Let_def
  using assms(5,6) by (subst field_spread) (simp del: field_spread add: spread_clean assms(2-4))

definition cascadeSettings :: json where
  "cascadeSettings = JObj [(''comboDefaults'', JObj [(''maxRetries'', JNum 4), (''queueDepth'', JNum 7)]),
     (''providerOverrides'', JObj [(''codex'', JObj [(''queueDepth'', JNum 3), (''timeoutMs'', JNum 9)])])]"

lemma combo_config_cascade_witness:
  "field ''queueDepth'' (resolveComboConfig (JObj [(''config'', JObj [(''queueDepth'', JNull)])]) cascadeSettings (Some ''codex''))
     = JNum 3"
proof -
  have l: "configLayers (JObj [(''config'', JObj [(''queueDepth'', JNull)])]) cascadeSettings (Some ''codex'')
      = ([(''maxRetries'', JNum 4), (''queueDepth'', JNum 7)], [(''queueDepth'', JNum 3), (''timeoutMs'', JNum 9)],
         [(''queueDepth'', JNull)])"
    by (simp add: configLayers_def cascadeSettings_def)
  show ?thesis by (subst combo_config_cascade [OF l])
    (simp_all add: wellKeyed_def decides_def LEGACY_COMBO_RESILIENCE_KEYS_def)
qed

text \<open>
  The queue depth of a combo is between 0 and 100 whatever its configuration holds, and 0, which
  means failing over without queueing, is kept.
\<close>

theorem queue_depth_bounded:
  "0 \<le> resolveComboQueueDepth config \<and> resolveComboQueueDepth config \<le> MAX_COMBO_QUEUE_DEPTH
   \<and> resolveComboQueueDepth (JObj [(''queueDepth'', JNum 0)]) = 0"
  by (auto simp: resolveComboQueueDepth_def DEFAULT_COMBO_QUEUE_DEPTH_def MAX_COMBO_QUEUE_DEPTH_def isRecord_def
      split: option.split)

end
