(* ===== verification/ResilienceWiring.thy ===== *)
theory ResilienceWiring
  imports SettingsLaws LockoutSettings ComboConfig BreakerLaws LockoutLaws CooldownWait ProviderCooldown
begin

text \<open>
  How the stored settings reach the components: the provider profile of
  \<open>open-sse/services/accountFallback.ts\<close>, the breaker options that its \<open>configureProviderBreaker\<close>,
  \<open>src/sse/handlers/chatHelpers.ts\<close> and \<open>src/sse/handlers/chat.ts\<close> build from it, the recording of
  provider failures with its deduplication, and what the settings then promise of the breaker, of
  the lockouts and of the waits.

  \<open>defaultHints\<close> is the answer of \<open>defaultUseUpstream429BreakerHints\<close> for the provider, which reads
  the provider registry.
\<close>

section \<open>Profiles and breaker options\<close>

datatype auth_category = OAuth | ApiKey

record provider_profile =
  pp_baseCooldownMs :: int
  pp_useUpstreamRetryHints :: bool
  pp_useUpstream429BreakerHints :: "bool option"
  pp_maxCooldownMs :: int
  pp_maxBackoffSteps :: int
  pp_failureThreshold :: int
  pp_resetTimeoutMs :: int
  pp_rateLimitCooldown :: int
  pp_degradationThreshold :: int
  pp_providerFailureThreshold :: int
  pp_providerFailureWindowMs :: int
  pp_maxBackoffMultiplier :: int
  pp_backoffEscalationCount :: int
  pp_providerCooldownMs :: int

text \<open>The fields of \<open>PROVIDER_PROFILES\<close> that are not settings: threshold, window, multiplier,
  escalation count and cooldown.\<close>

fun profileConstants :: "auth_category \<Rightarrow> int \<times> int \<times> int \<times> int \<times> int" where
  "profileConstants OAuth = (10, 900000, 8, 2, 300000)"
| "profileConstants ApiKey = (15, 1800000, 4, 3, 600000)"

definition cooldownOf :: "auth_category \<Rightarrow> resilience_settings \<Rightarrow> connection_cooldown" where
  "cooldownOf cat s = (case cat of OAuth \<Rightarrow> rs_cooldown_oauth s | ApiKey \<Rightarrow> rs_cooldown_apikey s)"

definition breakerOf :: "auth_category \<Rightarrow> resilience_settings \<Rightarrow> provider_breaker" where
  "breakerOf cat s = (case cat of OAuth \<Rightarrow> rs_breaker_oauth s | ApiKey \<Rightarrow> rs_breaker_apikey s)"

definition buildProviderProfile ::
  "resilience_settings \<Rightarrow> stream_recovery \<Rightarrow> bool \<Rightarrow> auth_category \<Rightarrow> json \<Rightarrow> provider_profile" where
  "buildProviderProfile d sr isTest cat settings =
     (let resilience = (if isTruthy settings then resolveResilienceSettings d sr settings else d);
          c = cooldownOf cat resilience; b = breakerOf cat resilience
      in (case profileConstants cat of (threshold, window, multiplier, escalation, cooldown) \<Rightarrow>
          \<lparr>pp_baseCooldownMs = cc_baseCooldownMs c, pp_useUpstreamRetryHints = cc_useUpstreamRetryHints c,
           pp_useUpstream429BreakerHints = cc_useUpstream429BreakerHints c,
           pp_maxCooldownMs = ml_maxCooldownMs (resolveModelLockoutSettings isTest settings),
           pp_maxBackoffSteps = cc_maxBackoffSteps c, pp_failureThreshold = pb_failureThreshold b,
           pp_resetTimeoutMs = pb_resetTimeoutMs b,
           pp_rateLimitCooldown = (if cc_useUpstreamRetryHints c then 0 else cc_baseCooldownMs c),
           pp_degradationThreshold = pb_degradationThreshold b,
           pp_providerFailureThreshold = threshold, pp_providerFailureWindowMs = window,
           pp_maxBackoffMultiplier = multiplier, pp_backoffEscalationCount = escalation,
           pp_providerCooldownMs = cooldown\<rparr>))"

definition resolveUseUpstream429BreakerHints :: "bool \<Rightarrow> bool option \<Rightarrow> bool" where
  "resolveUseUpstream429BreakerHints defaultHints userValue = nullish userValue defaultHints"

definition hintCooldowns :: "bool \<Rightarrow> (CircuitBreaker.failure_kind \<rightharpoonup> int) option" where
  "hintCooldowns useHints =
     (if useHints then Some [Rate_limit \<mapsto> 60000, Quota_exhausted \<mapsto> 3600000] else None)"

text \<open>\<open>checkPipelineGates\<close>\<close>

definition gateOptions :: "bool \<Rightarrow> provider_profile \<Rightarrow> breaker_options" where
  "gateOptions defaultHints p =
     no_options\<lparr>o_failureThreshold := Some (pp_failureThreshold p),
       o_degradationThreshold := Some (pp_degradationThreshold p),
       o_resetTimeout := Some (pp_resetTimeoutMs p), o_onStateChange := True,
       o_cooldownByKind := hintCooldowns (resolveUseUpstream429BreakerHints defaultHints (pp_useUpstream429BreakerHints p))\<rparr>"

text \<open>\<open>handleSingleModelChat\<close>\<close>

definition chatOptions :: "bool \<Rightarrow> provider_profile \<Rightarrow> breaker_options" where
  "chatOptions defaultHints p = (gateOptions defaultHints p)\<lparr>o_degradationThreshold := None\<rparr>"

definition configureOptions :: "bool \<Rightarrow> provider_profile \<Rightarrow> breaker_options" where
  "configureOptions defaultHints p =
     (gateOptions defaultHints p)\<lparr>o_onStateChange := False,
       o_maxBackoffMultiplier := Some (pp_maxBackoffMultiplier p),
       o_backoffEscalationCount := Some (pp_backoffEscalationCount p)\<rparr>"

section \<open>Recording provider failures\<close>

definition CONNECTION_FAILURE_DEDUP_MS :: int where "CONNECTION_FAILURE_DEDUP_MS = 5000"
definition MAX_CONNECTION_FAILURE_DEDUP_ENTRIES :: nat where "MAX_CONNECTION_FAILURE_DEDUP_ENTRIES = 10000"

type_synonym dedup_map = "(string, int) jmap"

fun pruneDedup :: "nat \<Rightarrow> dedup_map \<Rightarrow> dedup_map" where
  "pruneDedup cap [] = []"
| "pruneDedup cap (e # m) = (if cap < length (e # m) then pruneDedup cap m else e # m)"

definition sweepDedup :: "millis \<Rightarrow> dedup_map \<Rightarrow> dedup_map" where
  "sweepDedup now m = filter (\<lambda>(k, ts). \<not> CONNECTION_FAILURE_DEDUP_MS < now - ts) m"

definition dedupKey :: "string \<Rightarrow> string \<Rightarrow> string" where
  "dedupKey provider connectionId = provider @ '':'' @ connectionId"

definition recordProviderFailure ::
  "millis \<Rightarrow> string \<Rightarrow> string \<Rightarrow> breaker_options \<Rightarrow> dedup_map \<times> CircuitBreaker.registry
   \<Rightarrow> dedup_map \<times> CircuitBreaker.registry" where
  "recordProviderFailure now provider connectionId opts st =
     (if provider = [] then st
      else (case st of (seen, reg) \<Rightarrow>
        (let k = dedupKey provider connectionId;
             dup = (connectionId \<noteq> [] \<and>
                    (case jget k seen of
                       Some t \<Rightarrow> t \<noteq> 0 \<and> now - t < CONNECTION_FAILURE_DEDUP_MS
                     | None \<Rightarrow> False))
         in if dup then st
            else (let seen1 = (if connectionId = [] then seen
                               else pruneDedup MAX_CONNECTION_FAILURE_DEDUP_ENTRIES (jset k now (jdel k seen)));
                      (b, reg1) = getCircuitBreaker now provider (Some opts) reg;
                      (ok, b1) = canExecute now b
                  in if \<not> ok then (seen1, jset provider b1 reg1)
                     else (seen1, jset provider (snd (canExecute now (onFailure now None b1))) reg1)))))"

definition clearProviderFailure :: "millis \<Rightarrow> string \<Rightarrow> CircuitBreaker.registry \<Rightarrow> CircuitBreaker.registry" where
  "clearProviderFailure now provider reg =
     (if provider = [] then reg
      else (let (b, reg1) = getCircuitBreaker now provider None reg in jset provider (resetBreaker now b) reg1))"

section \<open>Lemmas\<close>

lemma pruneDedup_snoc: "0 < cap \<Longrightarrow> \<exists>m'. pruneDedup cap (m @ [e]) = m' @ [e]"
  by (induction m) auto

lemma pruneDedup_keeps:
  assumes "jinv m" and "jget k m = None" and "0 < cap"
  shows "jget k (pruneDedup cap (m @ [(k, v)])) = Some v"
proof -
  obtain m' where m': "pruneDedup cap (m @ [(k, v)]) = m' @ [(k, v)]" using pruneDedup_snoc [OF assms(3)] by blast
  have "set (pruneDedup cap xs) \<subseteq> set xs" for xs :: dedup_map by (induction xs) auto
  from this [of "m @ [(k, v)]"] have "set m' \<subseteq> set m \<union> {(k, v)}" by (auto simp: m')
  moreover have "jinv (pruneDedup cap xs)" if "jinv xs" for xs :: dedup_map
    using that by (induction xs) (auto simp: jinv_def jkeys_def)
  from this [of "m @ [(k, v)]"] have "jinv (m' @ [(k, v)])"
    using assms(1,2) by (auto simp: m' jget_None_iff jinv_def jkeys_def)
  ultimately show ?thesis by (simp add: m' jget_eq_Some_iff)
qed

lemma resolved_profile:
  assumes "okSettings d" and "isTruthy v"
  shows "1 \<le> pp_failureThreshold (buildProviderProfile d sr isTest cat v)"
    and "pp_failureThreshold (buildProviderProfile d sr isTest cat v) \<le> 1000"
    and "1 \<le> pp_degradationThreshold (buildProviderProfile d sr isTest cat v)"
    and "pp_degradationThreshold (buildProviderProfile d sr isTest cat v)
         \<le> pp_failureThreshold (buildProviderProfile d sr isTest cat v)"
    and "1000 \<le> pp_resetTimeoutMs (buildProviderProfile d sr isTest cat v)"
proof -
  have "wfBreaker (breakerOf cat (resolveResilienceSettings d sr v))"
    using resolved_wf [OF assms(1), of sr v] by (cases cat) (simp_all add: wfSettings_def breakerOf_def)
  then show "1 \<le> pp_failureThreshold (buildProviderProfile d sr isTest cat v)"
    "pp_failureThreshold (buildProviderProfile d sr isTest cat v) \<le> 1000"
    "1 \<le> pp_degradationThreshold (buildProviderProfile d sr isTest cat v)"
    "pp_degradationThreshold (buildProviderProfile d sr isTest cat v)
         \<le> pp_failureThreshold (buildProviderProfile d sr isTest cat v)"
    "1000 \<le> pp_resetTimeoutMs (buildProviderProfile d sr isTest cat v)"
    using assms(2)
    by (auto simp: buildProviderProfile_def Let_def wfBreaker_def okBreaker_def inRange_def max_def
        split: prod.split if_splits)
qed

definition comboWaitSettings :: "combo_cooldown_wait \<Rightarrow> combo_wait_settings" where
  "comboWaitSettings w =
     \<lparr>cw_enabled = cb_enabled w, cw_maxWaitMs = cb_maxWaitMs w, cw_maxAttempts = nat (cb_maxAttempts w),
      cw_budgetMs = cb_budgetMs w\<rparr>"

section \<open>Properties\<close>

text \<open>
  Whatever settings are stored, the combo loop waits out at most ten cooldowns of one request,
  never more than five minutes in total nor more than the budget, and when the upstream timeout
  leaves room for it and the combo sets no timeout of its own, the timeout of a target is at least
  ten seconds longer than all the waits together.
\<close>

theorem stored_settings_bound_combo_waits:
  assumes "okEnv env n" and "w = rs_comboCooldownWait (resolveResilienceSettings (DEFAULT_RESILIENCE_SETTINGS env n) sr v)"
    and "ws = comboWaits (comboWaitSettings w) rounds" and "cb_enabled w"
    and "\<not> isRecord config \<or> field ''targetTimeoutMs'' (asRecord config) = JUndefined"
    and "max 120000 (cb_budgetMs w + 10000) \<le> upstream" and "upstream \<le> MAX_TIMER_TIMEOUT_MS"
  shows "length ws \<le> 10 \<and> sum_list ws \<le> cb_budgetMs w \<and> cb_budgetMs w \<le> 300000
    \<and> sum_list ws + 10000 \<le> resolveComboTargetTimeoutMsForCombo config (JNum (of_int upstream)) strategy
          (cb_enabled w) (cb_budgetMs w)"
proof -
  have "wfCombo w"
    using resolved_wf [OF defaults_ok [OF assms(1)], of sr v] by (simp add: assms(2) wfSettings_def)
  then have w: "0 \<le> cb_maxAttempts w" "cb_maxAttempts w \<le> 10" "0 \<le> cb_budgetMs w" "cb_budgetMs w \<le> 300000"
    by (simp_all add: wfCombo_def okCombo_def inRange_def)
  have "length ws \<le> nat (cb_maxAttempts w)" "sum_list ws \<le> cb_budgetMs w"
    using combo.loop_length [of 0 "comboWaitSettings w" rounds "cb_budgetMs w"]
      combo.loop_total [OF w(3), of "comboWaitSettings w" rounds 0]
    by (simp_all add: assms(3) comboWaits_def comboWaitSettings_def)
  moreover have "resolveComboTargetTimeoutMsForCombo config (JNum (of_int upstream)) strategy (cb_enabled w) (cb_budgetMs w)
      = max 120000 (cb_budgetMs w + 10000)"
  proof -
    have u: "normalizePositiveTimeoutMs (JNum (of_int upstream)) = upstream"
      using assms(6,7) by (intro timeout_of_int) auto
    have m: "normalizePositiveTimeoutMs (JNum (of_int (max 120000 (cb_budgetMs w + 10000)))) = max 120000 (cb_budgetMs w + 10000)"
      using assms(6,7) by (intro timeout_of_int) auto
    have "normalizePositiveTimeoutMs JUndefined = 0" by (simp add: normalizePositiveTimeoutMs_def)
    then have c: "(if isRecord config then normalizePositiveTimeoutMs (field ''targetTimeoutMs'' (asRecord config)) else 0) = 0"
      using assms(5) by auto
    show ?thesis
      unfolding resolveComboTargetTimeoutMsForCombo_def resolveComboTargetTimeoutMs_def Let_def
        isComboCooldownWaitEligible_def DEFAULT_COMBO_TARGET_TIMEOUT_MS_def COMBO_TARGET_TIMEOUT_WAIT_BUFFER_MS_def
        c u if_P [OF assms(4)] m
      using assms(6) by auto
  qed
  ultimately show ?thesis using w by auto
qed

lemma stored_settings_bound_combo_waits_witness:
  "let w = rs_comboCooldownWait (resolveResilienceSettings (DEFAULT_RESILIENCE_SETTINGS noEnv noEnvNumbers) noRecovery
             (JObj [(''resilienceSettings'', JObj [(''comboCooldownWait'', JObj [(''maxAttempts'', num 99)])])]))
   in length (comboWaits (comboWaitSettings w) exampleRounds) \<le> 10
      \<and> resolveComboTargetTimeoutMsForCombo JUndefined (JNum 600000) ''priority'' (cb_enabled w) (cb_budgetMs w) = 310000"
proof -
  let ?v = "JObj [(''resilienceSettings'', JObj [(''comboCooldownWait'', JObj [(''maxAttempts'', num 99)])])]"
  let ?w = "rs_comboCooldownWait (resolveResilienceSettings (DEFAULT_RESILIENCE_SETTINGS noEnv noEnvNumbers) noRecovery ?v)"
  have e: "?w = \<lparr>cb_enabled = True, cb_maxWaitMs = 90000, cb_maxAttempts = 10, cb_budgetMs = 300000\<rparr>" by code_simp
  have "length (comboWaits (comboWaitSettings ?w) exampleRounds) \<le> 10"
    using stored_settings_bound_combo_waits [OF noEnv_ok(2) refl refl,
        where sr = noRecovery and v = ?v and config = JUndefined and upstream = 600000 and rounds = exampleRounds]
    unfolding e by (simp add: isRecord_def MAX_TIMER_TIMEOUT_MS_def)
  moreover have "resolveComboTargetTimeoutMsForCombo JUndefined (JNum 600000) ''priority'' (cb_enabled ?w) (cb_budgetMs ?w) = 310000"
    unfolding e by code_simp
  ultimately show ?thesis by (simp add: Let_def)
qed

text \<open>
  Whatever settings are stored, a fresh breaker of a provider opens after exactly as many
  uninterrupted failures as its profile says, a number between 1 and 1000, and it is degraded, or
  already open when that number is 1, from the degradation threshold on, which never lies above it.
\<close>

theorem stored_settings_breaker:
  assumes "okEnv env n" and "isTruthy v"
    and "p = buildProviderProfile (DEFAULT_RESILIENCE_SETTINGS env n) sr isTest cat v"
  shows "state (fold (\<lambda>t. onFailure t None) ts (newBreaker provider (gateOptions defaultHints p))) =
      (if pp_failureThreshold p \<le> int (length ts) then OPEN
       else if pp_degradationThreshold p \<le> int (length ts) then DEGRADED
       else CLOSED)
    \<and> 1 \<le> pp_degradationThreshold p \<and> pp_degradationThreshold p \<le> pp_failureThreshold p
    \<and> pp_failureThreshold p \<le> 1000"
proof -
  let ?b = "newBreaker provider (gateOptions defaultHints p)"
  have p: "1 \<le> pp_failureThreshold p" "pp_failureThreshold p \<le> 1000" "1 \<le> pp_degradationThreshold p"
    "pp_degradationThreshold p \<le> pp_failureThreshold p"
    unfolding assms(3) by (rule resolved_profile [OF defaults_ok [OF assms(1)] assms(2)])+
  have b: "state ?b = CLOSED" "failureCount ?b = 0" "failureThreshold ?b = pp_failureThreshold p"
    "degradationThreshold ?b = pp_degradationThreshold p"
    by (simp_all add: newBreaker_def gateOptions_def no_options_def Let_def)
  have "0 < degradationThreshold ?b" "degradationThreshold ?b \<le> failureThreshold ?b" using p by (simp_all add: b)
  from fresh_failures [OF b(1,2) this, of ts] p show ?thesis by (simp add: b)
qed

lemma stored_settings_breaker_witness:
  "let p = buildProviderProfile (DEFAULT_RESILIENCE_SETTINGS noEnv noEnvNumbers) noRecovery False ApiKey
             (JObj [(''providerProfiles'', JObj [(''apikey'', JObj [(''circuitBreakerThreshold'', num 2)])])])
   in state (fold (\<lambda>t. onFailure t None) [10, 20] (newBreaker ''glm'' (gateOptions True p))) = OPEN"
proof -
  let ?v = "JObj [(''providerProfiles'', JObj [(''apikey'', JObj [(''circuitBreakerThreshold'', num 2)])])]"
  let ?p = "buildProviderProfile (DEFAULT_RESILIENCE_SETTINGS noEnv noEnvNumbers) noRecovery False ApiKey ?v"
  have "pp_failureThreshold ?p = 2" by code_simp
  then show ?thesis
    using stored_settings_breaker [OF noEnv_ok(2) _ refl, where v = ?v and sr = noRecovery and isTest = False
        and cat = ApiKey and ts = "[10, 20]" and provider = "''glm''" and defaultHints = True]
    by (simp add: Let_def)
qed

text \<open>
  A burst of failures of one connection counts once: after a failure has been recorded,
  every further one of the same connection within the next five seconds changes nothing.
\<close>

theorem failure_burst_counts_once:
  assumes "connectionId \<noteq> []" and "jinv seen" and "t \<noteq> 0" and "\<forall>t' \<in> set ts. t' < t + CONNECTION_FAILURE_DEDUP_MS"
    and "\<not> (case jget (dedupKey provider connectionId) seen of Some s \<Rightarrow> s \<noteq> 0 \<and> t - s < CONNECTION_FAILURE_DEDUP_MS
             | None \<Rightarrow> False)"
  shows "fold (\<lambda>t'. recordProviderFailure t' provider connectionId opts) ts
           (recordProviderFailure t provider connectionId opts (seen, reg))
         = recordProviderFailure t provider connectionId opts (seen, reg)"
proof (cases "provider = []")
  case True
  have "recordProviderFailure t' [] connectionId opts st = st" for t' st by (simp add: recordProviderFailure_def)
  then show ?thesis using True by (induction ts) simp_all
next
  case False
  let ?k = "dedupKey provider connectionId"
  let ?st = "recordProviderFailure t provider connectionId opts (seen, reg)"
  have "fst ?st = pruneDedup MAX_CONNECTION_FAILURE_DEDUP_ENTRIES (jset ?k t (jdel ?k seen))"
    using False assms(1,5) by (auto simp: recordProviderFailure_def Let_def split: prod.split)
  moreover have "jset ?k t (jdel ?k seen) = jdel ?k seen @ [(?k, t)]" by (rule jset_absent) simp
  ultimately have k: "jget ?k (fst ?st) = Some t"
    using pruneDedup_keeps [of "jdel ?k seen" ?k MAX_CONNECTION_FAILURE_DEDUP_ENTRIES t] assms(2)
    by (simp add: MAX_CONNECTION_FAILURE_DEDUP_ENTRIES_def)
  have "recordProviderFailure t' provider connectionId opts st = st"
    if "jget ?k (fst st) = Some t" "t' < t + CONNECTION_FAILURE_DEDUP_MS" for t' st
    using that False assms(1,3) by (cases st) (simp add: recordProviderFailure_def)
  with k assms(4) show ?thesis by (induction ts) simp_all
qed

lemma failure_burst_counts_once_witness:
  "fold (\<lambda>t'. recordProviderFailure t' ''glm'' ''c1'' no_options) [1001, 1400, 5999]
       (recordProviderFailure 1000 ''glm'' ''c1'' no_options ([], []))
     = recordProviderFailure 1000 ''glm'' ''c1'' no_options ([], [])"
  by (rule failure_burst_counts_once) (simp_all add: CONNECTION_FAILURE_DEDUP_MS_def)

text \<open>
  The documented ceiling of the escalation, eight times the reset timeout for OAuth providers
  and four times for API keys, is not what the two request paths configure: a breaker they create
  has the default ceiling of sixteen. Only a failure recorded by the combo path sets the profile's.
\<close>

theorem request_paths_ignore_backoff_ceiling:
  "maxBackoffMultiplier (newBreaker provider (gateOptions defaultHints p)) = 16
   \<and> maxBackoffMultiplier (newBreaker provider (chatOptions defaultHints p)) = 16
   \<and> maxBackoffMultiplier (newBreaker provider (configureOptions defaultHints
        (buildProviderProfile d sr isTest OAuth v))) = 8
   \<and> maxBackoffMultiplier (applyOptions (gateOptions defaultHints p) (newBreaker provider no_options)) = 16"
  by (simp add: newBreaker_def gateOptions_def chatOptions_def configureOptions_def no_options_def Let_def
      buildProviderProfile_def applyOptions_def persistToDb_def split: option.split)

lemma failureCooldown_capped:
  assumes "lo_maxCooldownMs opts = Some m" and "0 < m" and "\<not> lo_upstreamReset opts"
  shows "0 < failureCooldown status fb pr opts k \<and> failureCooldown status fb pr opts k \<le> m"
proof -
  have "0 < getScaledCooldown b k l" for b l by (simp add: getScaledCooldown_def Let_def)
  then show ?thesis using assms by (auto simp: failureCooldown_def Let_def min_def split: option.split)
qed

text \<open>
  A model is never locked out for longer than the stored settings allow, and these never allow
  more than an hour: whatever is stored and whatever the failure, its reason and its history, the
  cooldown is positive and at most the configured maximum, unless the upstream itself announced
  when it resets.
\<close>

theorem stored_settings_bound_lockouts:
  assumes "s = resolveModelLockoutSettings False v" and "lo_maxCooldownMs opts = Some (ml_maxCooldownMs s)"
    and "\<not> lo_upstreamReset opts"
  shows "let r = fst (recordModelLockoutFailure reg midnight now p c m reason status fb profile opts locks)
         in 0 < fr_cooldownMs r \<and> fr_cooldownMs r \<le> ml_maxCooldownMs s \<and> ml_maxCooldownMs s \<le> 3600000"
proof -
  have s: "0 < ml_maxCooldownMs s" "ml_maxCooldownMs s \<le> 3600000"
    using lockout_settings_range [of False v] by (simp_all add: assms(1))
  have "0 < failureCooldown status fb profile o' k \<and> failureCooldown status fb profile o' k \<le> ml_maxCooldownMs s"
    if "lo_maxCooldownMs o' = Some (ml_maxCooldownMs s)" "\<not> lo_upstreamReset o'" for o' k
    using failureCooldown_capped [OF that(1) s(1) that(2)] .
  from this [of opts] this [of "opts\<lparr>lo_exactCooldownMs := Some (getMsUntilTomorrow midnight)\<rparr>"] assms(2,3) s
  show ?thesis by (simp add: recordModelLockoutFailure_def Let_def)
qed

lemma stored_settings_bound_lockouts_witness:
  "let s = resolveModelLockoutSettings False (JObj [(''modelLockout'', JObj [(''maxCooldownMs'', JStr ''1e9'')])]);
       r = fst (recordModelLockoutFailure emptyRegistry 80000000 5 ''openai'' ''c1'' ''gpt-4'' ''quota_exhausted'' 429 0 None
                 \<lparr>lo_exactCooldownMs = None, lo_maxCooldownMs = Some (ml_maxCooldownMs s), lo_upstreamReset = False\<rparr>
                 noLockouts)
   in 0 < fr_cooldownMs r \<and> fr_cooldownMs r \<le> ml_maxCooldownMs s"
  using stored_settings_bound_lockouts [OF refl, where v = "JObj [(''modelLockout'', JObj [(''maxCooldownMs'', JStr ''1e9'')])]"
      and opts = "\<lparr>lo_exactCooldownMs = None,
        lo_maxCooldownMs = Some (ml_maxCooldownMs (resolveModelLockoutSettings False
           (JObj [(''modelLockout'', JObj [(''maxCooldownMs'', JStr ''1e9'')])]))), lo_upstreamReset = False\<rparr>"]
  by (simp add: Let_def)

end
