(* ===== verification/KeyRotator.thy ===== *)
theory KeyRotator
  imports Decimals
begin

text \<open>
  The rotation of API keys, \<open>open-sse/services/apiKeyRotator.ts\<close>: one primary key and extra keys of a
  connection, in round robin over those that are not marked invalid, with a bounded table of key
  health; the update after a response (\<open>chatCore/keyHealth.ts\<close>) and the choice of a key for a request
  (\<open>executors/base.ts\<close>), which go through the stored connection.
\<close>

section \<open>State\<close>

datatype key_status = KeyActive | KeyWarning | KeyInvalid

record key_health =
  kh_status :: key_status
  kh_failures :: nat
  kh_lastFailure :: "millis option"
  kh_lastSuccess :: "millis option"
  kh_totalRequests :: nat
  kh_totalFailures :: nat

record key_rotator =
  keyIndexes :: "(string, nat) jmap"
  connectionExtraKeys :: "(string, bool) jmap"
  keyHealth :: "(string, nat) jmap"
  healthObjects :: "key_health list"

text \<open>
  A health record is an object that the table and a loaded connection can share, so the table holds
  references: positions in \<open>healthObjects\<close>.
\<close>

definition healthAt :: "key_rotator \<Rightarrow> nat \<Rightarrow> key_health" where
  "healthAt s a = healthObjects s ! a"

definition newObject :: "key_health \<Rightarrow> key_rotator \<Rightarrow> nat \<times> key_rotator" where
  "newObject h s = (length (healthObjects s), s\<lparr>healthObjects := healthObjects s @ [h]\<rparr>)"

definition writeObject :: "nat \<Rightarrow> key_health \<Rightarrow> key_rotator \<Rightarrow> key_rotator" where
  "writeObject a h s = s\<lparr>healthObjects := (healthObjects s)[a := h]\<rparr>"

definition MAX_KEY_HEALTH_ENTRIES :: nat where "MAX_KEY_HEALTH_ENTRIES = 500"
definition MAX_CONNECTION_EXTRA_KEYS :: nat where "MAX_CONNECTION_EXTRA_KEYS = 500"
definition FAILURE_THRESHOLD :: nat where "FAILURE_THRESHOLD = 2"

text \<open>Setting an entry; a new one evicts the oldest when the table is full.\<close>

definition setCapped :: "nat \<Rightarrow> string \<Rightarrow> 'v \<Rightarrow> (string, 'v) jmap \<Rightarrow> (string, 'v) jmap" where
  "setCapped cap k v m =
     jset k v (if jget k m = None \<and> cap \<le> length (jkeys m) then jdel (hd (jkeys m)) m else m)"

definition scopedKey :: "string \<Rightarrow> string \<Rightarrow> string" where
  "scopedKey connectionId keyId = connectionId @ '':'' @ keyId"

definition extraId :: "nat \<Rightarrow> string" where
  "extraId i = ''extra_'' @ decimalDigits i"

definition filledKeys :: "string list \<Rightarrow> string list" where
  "filledKeys extraKeys = filter (\<lambda>k. trim k \<noteq> []) extraKeys"

section \<open>Operations\<close>

definition trackConnectionExtraKeys :: "string \<Rightarrow> string list \<Rightarrow> key_rotator \<Rightarrow> key_rotator" where
  "trackConnectionExtraKeys c extraKeys s =
     s\<lparr>connectionExtraKeys :=
         setCapped MAX_CONNECTION_EXTRA_KEYS c (filledKeys extraKeys \<noteq> []) (connectionExtraKeys s)\<rparr>"

definition connectionHasExtraKeys :: "string \<Rightarrow> string list option \<Rightarrow> key_rotator \<Rightarrow> bool" where
  "connectionHasExtraKeys c extraKeys s \<longleftrightarrow>
     (case extraKeys of Some ks \<Rightarrow> ks \<noteq> [] | None \<Rightarrow> False) \<or> nullish (jget c (connectionExtraKeys s)) False"

definition newHealth :: key_health where
  "newHealth = \<lparr>kh_status = KeyActive, kh_failures = 0, kh_lastFailure = None, kh_lastSuccess = None,
                kh_totalRequests = 0, kh_totalFailures = 0\<rparr>"

definition putHealth :: "string \<Rightarrow> string \<Rightarrow> nat \<Rightarrow> key_rotator \<Rightarrow> key_rotator" where
  "putHealth c keyId a s = s\<lparr>keyHealth := setCapped MAX_KEY_HEALTH_ENTRIES (scopedKey c keyId) a (keyHealth s)\<rparr>"

definition getOrCreateHealth :: "string \<Rightarrow> string \<Rightarrow> key_rotator \<Rightarrow> nat \<times> key_rotator" where
  "getOrCreateHealth c keyId s =
     (case jget (scopedKey c keyId) (keyHealth s) of
        Some a \<Rightarrow> (a, s)
      | None \<Rightarrow> (let (a, s1) = newObject newHealth s in (a, putHealth c keyId a s1)))"

text \<open>\<open>health?.[keyId] || getOrCreateHealth(connectionId, keyId)\<close>\<close>

definition healthOf ::
  "(string, nat) jmap option \<Rightarrow> string \<Rightarrow> string \<Rightarrow> key_rotator \<Rightarrow> nat \<times> key_rotator" where
  "healthOf stored c keyId s =
     (case Option.bind stored (jget keyId) of Some a \<Rightarrow> (a, s) | None \<Rightarrow> getOrCreateHealth c keyId s)"

text \<open>The keys of a connection with their identifiers, and those that are not invalid.\<close>

definition candidateKeys :: "string \<Rightarrow> string list \<Rightarrow> (string \<times> string) list" where
  "candidateKeys primaryKey extraKeys =
     (if primaryKey \<noteq> [] then [(primaryKey, ''primary'')] else [])
     @ map (\<lambda>(i, k). (k, extraId i)) (List.enumerate 0 (filledKeys extraKeys))"

fun collectKeys ::
  "(string, nat) jmap option \<Rightarrow> string \<Rightarrow> (string \<times> string) list \<Rightarrow> key_rotator
   \<Rightarrow> (string \<times> string) list \<times> key_rotator" where
  "collectKeys stored c [] s = ([], s)"
| "collectKeys stored c ((key, keyId) # cs) s =
     (let (a, s1) = healthOf stored c keyId s; (rest, s2) = collectKeys stored c cs s1
      in (if kh_status (healthAt s1 a) \<noteq> KeyInvalid then (key, keyId) # rest else rest, s2))"

text \<open>The next key of a list in round robin.\<close>

definition takeTurn :: "string \<Rightarrow> 'a list \<Rightarrow> key_rotator \<Rightarrow> 'a \<times> key_rotator" where
  "takeTurn c allKeys s =
     (let current = nullish (jget c (keyIndexes s)) 0
      in (allKeys ! (current mod length allKeys), s\<lparr>keyIndexes := jset c (current + 1) (keyIndexes s)\<rparr>))"

definition getValidApiKey ::
  "string \<Rightarrow> string \<Rightarrow> string list \<Rightarrow> (string, nat) jmap option \<Rightarrow> key_rotator
   \<Rightarrow> (string \<times> string) option \<times> key_rotator" where
  "getValidApiKey c primaryKey extraKeys stored s =
     (let (allKeys, s1) = collectKeys stored c (candidateKeys primaryKey extraKeys) s
      in case allKeys of
           [] \<Rightarrow> (None, s1)
         | [k] \<Rightarrow> (Some k, s1)
         | _ \<Rightarrow> (let (k, s2) = takeTurn c allKeys s1 in (Some k, s2)))"

definition getRotatingApiKey :: "string \<Rightarrow> string \<Rightarrow> string list \<Rightarrow> key_rotator \<Rightarrow> string \<times> key_rotator" where
  "getRotatingApiKey c primaryKey extraKeys s =
     (let validExtras = filledKeys extraKeys; allKeys = filter (\<lambda>k. k \<noteq> []) (primaryKey # validExtras)
      in if validExtras = [] \<or> length allKeys \<le> 1 then (primaryKey, s) else takeTurn c allKeys s)"

definition recordKeyFailure :: "string \<Rightarrow> string \<Rightarrow> millis \<Rightarrow> key_rotator \<Rightarrow> key_health \<times> key_rotator" where
  "recordKeyFailure c keyId now s =
     (let (a, s1) = getOrCreateHealth c keyId s; h = healthAt s1 a;
          failures = kh_failures h + 1;
          h' = h\<lparr>kh_failures := failures, kh_totalRequests := kh_totalRequests h + 1,
                 kh_totalFailures := kh_totalFailures h + 1, kh_lastFailure := Some now,
                 kh_status := (if FAILURE_THRESHOLD \<le> failures then KeyInvalid else KeyWarning)\<rparr>
      in (h', writeObject a h' s1))"

definition recordKeyTerminal :: "string \<Rightarrow> string \<Rightarrow> millis \<Rightarrow> key_rotator \<Rightarrow> key_health \<times> key_rotator" where
  "recordKeyTerminal c keyId now s =
     (let (a, s1) = getOrCreateHealth c keyId s; h = healthAt s1 a;
          h' = h\<lparr>kh_failures := max (kh_failures h + 1) FAILURE_THRESHOLD,
                 kh_totalRequests := kh_totalRequests h + 1, kh_totalFailures := kh_totalFailures h + 1,
                 kh_lastFailure := Some now, kh_status := KeyInvalid\<rparr>
      in (h', writeObject a h' s1))"

definition recordKeySuccess :: "string \<Rightarrow> string \<Rightarrow> millis \<Rightarrow> key_rotator \<Rightarrow> key_health \<times> key_rotator" where
  "recordKeySuccess c keyId now s =
     (let (a, s1) = getOrCreateHealth c keyId s; h = healthAt s1 a;
          h' = h\<lparr>kh_failures := 0, kh_totalRequests := kh_totalRequests h + 1, kh_lastSuccess := Some now,
                 kh_status := KeyActive\<rparr>
      in (h', writeObject a h' s1))"

definition resetKeyStatus :: "string \<Rightarrow> string \<Rightarrow> key_rotator \<Rightarrow> key_health \<times> key_rotator" where
  "resetKeyStatus c keyId s =
     (let (a, s1) = getOrCreateHealth c keyId s; h = healthAt s1 a;
          h' = h\<lparr>kh_failures := 0, kh_status := KeyActive, kh_lastFailure := None\<rparr>
      in (h', writeObject a h' s1))"

definition getInvalidKeyCount :: "(string, nat) jmap option \<Rightarrow> key_rotator \<Rightarrow> nat" where
  "getInvalidKeyCount stored s =
     (case stored of None \<Rightarrow> 0 | Some m \<Rightarrow> length (filter (\<lambda>p. kh_status (healthAt s (snd p)) = KeyInvalid) m))"

text \<open>A copy of all entries, under their scoped names.\<close>

definition getAllKeyHealth :: "key_rotator \<Rightarrow> (string, key_health) jmap" where
  "getAllKeyHealth s = map (\<lambda>(k, a). (k, healthAt s a)) (keyHealth s)"

definition syncHealthFromDB :: "string \<Rightarrow> (string, nat) jmap option \<Rightarrow> key_rotator \<Rightarrow> key_rotator" where
  "syncHealthFromDB c stored s = fold (\<lambda>(keyId, a). putHealth c keyId a) (nullish stored []) s"

definition resetRotationIndex :: "string \<Rightarrow> key_rotator \<Rightarrow> key_rotator" where
  "resetRotationIndex c s = s\<lparr>keyIndexes := jdel c (keyIndexes s)\<rparr>"

definition getApiKeyCount :: "string \<Rightarrow> string list \<Rightarrow> nat" where
  "getApiKeyCount primaryKey extraKeys = (if primaryKey \<noteq> [] then 1 else 0) + length (filledKeys extraKeys)"

text \<open>\<open>/^extra_(\d+)$/\<close> and \<open>parseInt\<close> of what it captures.\<close>

definition parseExtraId :: "string \<Rightarrow> nat option" where
  "parseExtraId keyId =
     (let digits = drop 6 keyId
      in if take 6 keyId = ''extra_'' \<and> digits \<noteq> [] \<and> list_all (\<lambda>c. digitValue 10 c \<noteq> None) digits
         then map_option nat (jsParseInt digits) else None)"

definition resolveKeyForRequest ::
  "string \<Rightarrow> string \<Rightarrow> string list \<Rightarrow> string option \<Rightarrow> key_rotator
   \<Rightarrow> (string \<times> string) option \<times> key_rotator" where
  "resolveKeyForRequest c primaryKey extraKeys selectedKeyId s =
     (case selectedKeyId of
        None \<Rightarrow> getValidApiKey c primaryKey extraKeys None s
      | Some sel \<Rightarrow>
        (if sel = [] then getValidApiKey c primaryKey extraKeys None s
         else (let (a, s1) = getOrCreateHealth c sel s;
                   again = getValidApiKey c primaryKey extraKeys None s1
               in if kh_status (healthAt s1 a) = KeyInvalid then again
                  else if sel = ''primary'' \<and> primaryKey \<noteq> [] then (Some (primaryKey, ''primary''), s1)
                  else (case parseExtraId sel of
                          Some idx \<Rightarrow>
                            (if idx < length extraKeys \<and> trim (extraKeys ! idx) \<noteq> []
                             then (Some (extraKeys ! idx, sel), s1) else again)
                        | None \<Rightarrow> again))))"

definition removeConnectionHealth :: "string \<Rightarrow> key_rotator \<Rightarrow> key_rotator" where
  "removeConnectionHealth c s =
     s\<lparr>keyHealth := filter (\<lambda>p. \<not> starts_with (c @ '':'') (fst p)) (keyHealth s)\<rparr>"

definition removeConnectionIndex :: "string \<Rightarrow> key_rotator \<Rightarrow> key_rotator" where
  "removeConnectionIndex c s =
     removeConnectionHealth c
       (s\<lparr>keyIndexes := jdel c (keyIndexes s), connectionExtraKeys := jdel c (connectionExtraKeys s)\<rparr>)"

record key_stats =
  kst_total :: nat
  kst_active :: nat
  kst_warning :: nat
  kst_invalid :: nat

fun countHealth ::
  "(string, nat) jmap option \<Rightarrow> string \<Rightarrow> string list \<Rightarrow> key_stats \<Rightarrow> key_rotator
   \<Rightarrow> key_stats \<times> key_rotator" where
  "countHealth stored c [] t s = (t, s)"
| "countHealth stored c (keyId # ks) t s =
     (let (a, s1) = healthOf stored c keyId s;
          t' = (case kh_status (healthAt s1 a) of
                  KeyActive \<Rightarrow> t\<lparr>kst_active := kst_active t + 1\<rparr>
                | KeyWarning \<Rightarrow> t\<lparr>kst_warning := kst_warning t + 1\<rparr>
                | KeyInvalid \<Rightarrow> t\<lparr>kst_invalid := kst_invalid t + 1\<rparr>)
      in countHealth stored c ks t' s1)"

definition getKeyHealthStats ::
  "string \<Rightarrow> string \<Rightarrow> string list \<Rightarrow> (string, nat) jmap option \<Rightarrow> key_rotator
   \<Rightarrow> key_stats \<times> key_rotator" where
  "getKeyHealthStats c primaryKey extraKeys stored s =
     countHealth stored c (''primary'' # map extraId [0..<length extraKeys])
       \<lparr>kst_total = getApiKeyCount primaryKey extraKeys, kst_active = 0, kst_warning = 0, kst_invalid = 0\<rparr> s"

section \<open>A request and its response\<close>

text \<open>
  What the database stores for a connection, as far as the rotation reads and writes it, and the same as an
  object in memory. Reading a row creates new health objects.
\<close>

record key_row =
  kw_extraApiKeys :: "string list"
  kw_apiKeyHealth :: "(string, key_health) jmap option"
  kw_selectedKeyId :: "string option"

record key_data =
  kd_extraApiKeys :: "string list"
  kd_apiKeyHealth :: "(string, nat) jmap option"
  kd_selectedKeyId :: "string option"

fun loadObjects :: "(string, key_health) jmap \<Rightarrow> key_rotator \<Rightarrow> (string, nat) jmap \<times> key_rotator" where
  "loadObjects [] s = ([], s)"
| "loadObjects ((k, h) # m) s =
     (let (a, s1) = newObject h s; (refs, s2) = loadObjects m s1 in ((k, a) # refs, s2))"

definition loadRow :: "key_row \<Rightarrow> key_rotator \<Rightarrow> key_data \<times> key_rotator" where
  "loadRow row s =
     (let (refs, s1) = loadObjects (nullish (kw_apiKeyHealth row) []) s
      in (\<lparr>kd_extraApiKeys = kw_extraApiKeys row, kd_apiKeyHealth = map_option (\<lambda>m. refs) (kw_apiKeyHealth row),
           kd_selectedKeyId = kw_selectedKeyId row\<rparr>, s1))"

definition resolveEffectiveKey ::
  "string \<Rightarrow> string \<Rightarrow> key_data \<Rightarrow> key_rotator \<Rightarrow> string \<times> key_data \<times> key_rotator" where
  "resolveEffectiveKey c apiKey psd s =
     (let validExtras = filledKeys (kd_extraApiKeys psd)
      in if validExtras = [] \<or> c = [] then (apiKey, psd, s)
         else (case resolveKeyForRequest c apiKey validExtras (kd_selectedKeyId psd) s of
                 (Some (key, keyId), s1) \<Rightarrow> (key, psd\<lparr>kd_selectedKeyId := Some keyId\<rparr>, s1)
               | (None, s1) \<Rightarrow> (apiKey, psd, s1)))"

text \<open>
  \<open>providerSpecificData: {...psd, apiKeyHealth: {...health, [keyId]: updated}}\<close>, as it is written. \<open>prev\<close> reads
  the objects of \<open>psd\<close> after the update of the table, as the code does.
\<close>

definition savedRow :: "key_data \<Rightarrow> string \<Rightarrow> key_health \<Rightarrow> key_rotator \<Rightarrow> key_row" where
  "savedRow psd keyId h s =
     \<lparr>kw_extraApiKeys = kd_extraApiKeys psd,
      kw_apiKeyHealth = Some (jset keyId h (map (\<lambda>(k, a). (k, healthAt s a)) (nullish (kd_apiKeyHealth psd) []))),
      kw_selectedKeyId = kd_selectedKeyId psd\<rparr>"

definition recordKeyHealthStatus ::
  "int \<Rightarrow> string \<Rightarrow> key_data \<Rightarrow> string option \<Rightarrow> millis \<Rightarrow> key_rotator \<Rightarrow> key_row option \<times> key_rotator" where
  "recordKeyHealthStatus status c psd transport now s =
     (if transport = Some ''cliproxyapi'' \<or> c = [] then (None, s)
      else (let currentKeyId = nullish (kd_selectedKeyId psd) ''primary'';
                s1 = trackConnectionExtraKeys c (kd_extraApiKeys psd) s;
                prev = (\<lambda>s2. map_option (healthAt s2) (Option.bind (kd_apiKeyHealth psd) (jget currentKeyId)));
                prevStatus = (\<lambda>s2. map_option kh_status (prev s2));
                prevFailures = (\<lambda>s2. nullish (map_option kh_failures (prev s2)) 0);
                save = (\<lambda>h s2. Some (savedRow psd currentKeyId h s2))
            in if status = 401
               then (let (h, s2) = recordKeyFailure c currentKeyId now s1
                     in (if Some (kh_status h) \<noteq> prevStatus s2 \<or> kh_failures h \<noteq> prevFailures s2
                         then save h s2 else None, s2))
               else if status = 402
               then (let (h, s2) = recordKeyTerminal c currentKeyId now s1
                     in (if Some (kh_status h) \<noteq> prevStatus s2 then save h s2 else None, s2))
               else if 200 \<le> status \<and> status < 300
               then (let (h, s2) = recordKeySuccess c currentKeyId now s1
                     in (if prevStatus s2 = Some KeyWarning \<or> prevStatus s2 = Some KeyInvalid
                         then save h s2 else None, s2))
               else (None, s1)))"

text \<open>
  What \<open>chatCore.ts\<close> records for an answer: a 401 at once, and every answer of a request that is not
  streamed when its connection has a primary key. The later of two updates stays in the database.
\<close>

definition recordAnswer ::
  "bool \<Rightarrow> int \<Rightarrow> string option \<Rightarrow> string \<Rightarrow> string \<Rightarrow> key_data \<Rightarrow> millis \<Rightarrow> key_rotator \<Rightarrow> key_row option \<times> key_rotator" where
  "recordAnswer stream status transport c apiKey psd now s =
     (let (saved, s1) = (if status = 401 \<and> c \<noteq> [] then recordKeyHealthStatus 401 c psd None now s else (None, s));
          (saved', s2) = (if \<not> stream \<and> c \<noteq> [] \<and> apiKey \<noteq> [] then recordKeyHealthStatus status c psd transport now s1
                          else (None, s1))
      in (if saved' \<noteq> None then saved' else saved, s2))"

text \<open>
  One request of a connection: the row comes from the read cache or from the database, its health is shared
  with the table (\<open>auth.ts\<close>), a key is chosen, the provider answers, and the answer updates table and row;
  an update of the row empties the cache.
\<close>

record key_conn =
  kc_row :: key_row
  kc_cached :: "key_data option"
  kc_rotator :: key_rotator

definition serveKeyRequest ::
  "bool \<Rightarrow> (string \<Rightarrow> int) \<Rightarrow> string option \<Rightarrow> string \<Rightarrow> string \<Rightarrow> millis \<Rightarrow> key_conn \<Rightarrow> string \<times> key_conn" where
  "serveKeyRequest stream provider transport c apiKey now st =
     (let (conn, s) = (case kc_cached st of
                         Some conn \<Rightarrow> (conn, kc_rotator st)
                       | None \<Rightarrow> loadRow (kc_row st) (kc_rotator st));
          s1 = syncHealthFromDB c (kd_apiKeyHealth conn) s;
          (key, psd, s2) = resolveEffectiveKey c apiKey conn s1;
          (saved, s3) = recordAnswer stream (provider key) transport c apiKey psd now s2
      in (key, case saved of
                 Some row \<Rightarrow> \<lparr>kc_row = row, kc_cached = None, kc_rotator = s3\<rparr>
               | None \<Rightarrow> \<lparr>kc_row = kc_row st, kc_cached = Some conn, kc_rotator = s3\<rparr>))"

text \<open>The cached row expires after five seconds.\<close>

definition expireKeyCache :: "key_conn \<Rightarrow> key_conn" where
  "expireKeyCache st = st\<lparr>kc_cached := None\<rparr>"

definition emptyRotator :: key_rotator where
  "emptyRotator = \<lparr>keyIndexes = [], connectionExtraKeys = [], keyHealth = [], healthObjects = []\<rparr>"

end
