(* ===== verification/KeyRotatorLaws.thy ===== *)
theory KeyRotatorLaws
  imports KeyRotator "HOL-Library.Multiset"
begin

text \<open>
  What the rotation of keys guarantees, and where the exchange with the stored row undoes it.
\<close>

section \<open>Rotation\<close>

text \<open>The keys of a connection that are not invalid, when the table knows all of them.\<close>

definition knownKeys :: "string \<Rightarrow> (string \<times> string) list \<Rightarrow> key_rotator \<Rightarrow> bool" where
  "knownKeys c cs s \<longleftrightarrow> list_all (\<lambda>p. jget (scopedKey c (snd p)) (keyHealth s) \<noteq> None) cs"

definition statusOf :: "string \<Rightarrow> string \<Rightarrow> key_rotator \<Rightarrow> key_status" where
  "statusOf c keyId s =
     (case jget (scopedKey c keyId) (keyHealth s) of Some a \<Rightarrow> kh_status (healthAt s a) | None \<Rightarrow> KeyActive)"

definition validKeys :: "string \<Rightarrow> string \<Rightarrow> string list \<Rightarrow> key_rotator \<Rightarrow> (string \<times> string) list" where
  "validKeys c primaryKey extraKeys s =
     filter (\<lambda>p. statusOf c (snd p) s \<noteq> KeyInvalid) (candidateKeys primaryKey extraKeys)"

lemma statusOf_frame [simp]:
  "statusOf c k (s\<lparr>keyIndexes := x\<rparr>) = statusOf c k s"
  "statusOf c k (s\<lparr>connectionExtraKeys := y\<rparr>) = statusOf c k s"
  by (simp_all add: statusOf_def healthAt_def split: option.split)

lemma collect_known:
  "knownKeys c cs s \<Longrightarrow> collectKeys None c cs s = (filter (\<lambda>p. statusOf c (snd p) s \<noteq> KeyInvalid) cs, s)"
  by (induction cs) (auto simp: knownKeys_def healthOf_def getOrCreateHealth_def statusOf_def Let_def split: option.splits)

lemma getValid_known:
  assumes "knownKeys c (candidateKeys p e) s" and "2 \<le> length (validKeys c p e s)"
  shows "getValidApiKey c p e None s =
    (let cur = nullish (jget c (keyIndexes s)) 0
     in (Some (validKeys c p e s ! (cur mod length (validKeys c p e s))), s\<lparr>keyIndexes := jset c (cur + 1) (keyIndexes s)\<rparr>))"
proof -
  obtain k1 k2 ks where v: "validKeys c p e s = k1 # k2 # ks"
    using assms(2) by (cases "validKeys c p e s"; cases "tl (validKeys c p e s)") auto
  have "collectKeys None c (candidateKeys p e) s = (validKeys c p e s, s)"
    using collect_known [OF assms(1)] by (simp add: validKeys_def)
  then show ?thesis unfolding getValidApiKey_def v by (simp add: takeTurn_def Let_def)
qed

fun keyTurns :: "string \<Rightarrow> string \<Rightarrow> string list \<Rightarrow> nat \<Rightarrow> key_rotator \<Rightarrow> (string \<times> string) option list" where
  "keyTurns c p e 0 s = []"
| "keyTurns c p e (Suc n) s = (let (k, s1) = getValidApiKey c p e None s in k # keyTurns c p e n s1)"

lemma keyTurns_eq:
  assumes "knownKeys c (candidateKeys p e) s" and "2 \<le> length (validKeys c p e s)"
  shows "keyTurns c p e n s = map (\<lambda>i. Some (validKeys c p e s ! ((nullish (jget c (keyIndexes s)) 0 + i)
    mod length (validKeys c p e s)))) [0..<n]"
  using assms
proof (induction n arbitrary: s)
  case (Suc n)
  let ?cur = "nullish (jget c (keyIndexes s)) 0"
  let ?s = "s\<lparr>keyIndexes := jset c (?cur + 1) (keyIndexes s)\<rparr>"
  have same: "knownKeys c (candidateKeys p e) ?s" "validKeys c p e ?s = validKeys c p e s"
    using Suc.prems(1) by (simp_all add: knownKeys_def validKeys_def)
  have "keyTurns c p e (Suc n) s = Some (validKeys c p e s ! (?cur mod length (validKeys c p e s))) # keyTurns c p e n ?s"
    by (simp add: getValid_known [OF Suc.prems] Let_def)
  then show ?case
    using Suc.IH [of ?s] Suc.prems(2) same
    by (simp add: map_upt_Suc del: upt_Suc)
qed simp

text \<open>
  C23. Fair rotation: over as many consecutive requests as a connection has keys that are not invalid, every such
  key is handed out exactly once, in the cyclic order of the keys, from wherever the rotation stands, and an
  invalid key is never handed out.
\<close>

theorem key_rotation_fair:
  assumes "knownKeys c (candidateKeys p e) s" and "2 \<le> length (validKeys c p e s)"
  shows "keyTurns c p e (length (validKeys c p e s)) s
    = map Some (rotate (nullish (jget c (keyIndexes s)) 0) (validKeys c p e s))"
  using keyTurns_eq [OF assms] by (auto intro!: nth_equalityI simp: nth_rotate)

definition threeKeys :: key_rotator where
  "threeKeys = snd (recordKeyTerminal ''c'' ''extra_0'' 5 (snd (getValidApiKey ''c'' ''p'' [''a'', ''b''] None emptyRotator)))"

theorem key_rotation_fair_witness:
  "keyTurns ''c'' ''p'' [''a'', ''b''] 2 threeKeys = [Some (''b'', ''extra_1''), Some (''p'', ''primary'')]"
proof -
  have k: "knownKeys ''c'' (candidateKeys ''p'' [''a'', ''b'']) threeKeys" by code_simp
  have v: "validKeys ''c'' ''p'' [''a'', ''b''] threeKeys = [(''p'', ''primary''), (''b'', ''extra_1'')]" by code_simp
  have i: "nullish (jget ''c'' (keyIndexes threeKeys)) 0 = 1" by code_simp
  show ?thesis using key_rotation_fair [OF k] by (simp add: v i numeral_2_eq_2 del: keyTurns.simps)
qed

section \<open>Tables with room\<close>

text \<open>
  Every scoped key of the table and every one that will be entered lies in a set \<open>K\<close> that the table can hold;
  then nothing is evicted.
\<close>

definition roomFor :: "string set \<Rightarrow> key_rotator \<Rightarrow> bool" where
  "roomFor K s \<longleftrightarrow> finite K \<and> card K \<le> MAX_KEY_HEALTH_ENTRIES \<and> jinv (keyHealth s) \<and> set (jkeys (keyHealth s)) \<subseteq> K
     \<and> (\<forall>sk a. jget sk (keyHealth s) = Some a \<longrightarrow> a < length (healthObjects s))"

lemma roomFor_set:
  assumes "roomFor K s" and "sk \<in> K"
  shows "setCapped MAX_KEY_HEALTH_ENTRIES sk a (keyHealth s) = jset sk a (keyHealth s)"
proof -
  have "length (jkeys (keyHealth s)) < MAX_KEY_HEALTH_ENTRIES" if "jget sk (keyHealth s) = None"
  proof -
    have "set (jkeys (keyHealth s)) \<subset> K" using that assms by (auto simp: roomFor_def jget_None_iff)
    then have "card (set (jkeys (keyHealth s))) < card K" using assms(1) by (simp add: roomFor_def psubset_card_mono)
    then show ?thesis using assms(1) by (simp add: roomFor_def jinv_def distinct_card)
  qed
  then show ?thesis by (auto simp: setCapped_def)
qed

lemma jset_jinv_keys: "jinv m \<Longrightarrow> jinv (jset k v m) \<and> set (jkeys (jset k v m)) = insert k (set (jkeys m))"
  by (auto simp: jkeys_jset)

text \<open>What entering a reference, creating and writing a health object do to the table.\<close>

lemma putHealth_room:
  assumes "roomFor K s" and "scopedKey c k \<in> K" and "a < length (healthObjects s)"
  shows "roomFor K (putHealth c k a s)"
    and "jget sk (keyHealth (putHealth c k a s)) = (if sk = scopedKey c k then Some a else jget sk (keyHealth s))"
    and "healthObjects (putHealth c k a s) = healthObjects s"
  using assms roomFor_set [OF assms(1,2), of a] jset_jinv_keys [of "keyHealth s" "scopedKey c k" a]
  by (auto simp: putHealth_def roomFor_def split: if_splits)

text \<open>Entries are only added, and with new objects.\<close>

definition extends :: "key_rotator \<Rightarrow> key_rotator \<Rightarrow> bool" where
  "extends s s' \<longleftrightarrow> (\<forall>sk b. jget sk (keyHealth s) = Some b \<longrightarrow> jget sk (keyHealth s') = Some b)
     \<and> (\<forall>sk b. jget sk (keyHealth s') = Some b \<longrightarrow> jget sk (keyHealth s) = Some b \<or> length (healthObjects s) \<le> b)
     \<and> (\<exists>hs. healthObjects s' = healthObjects s @ hs)"

lemma extends_refl [simp]: "extends s s"
  by (simp add: extends_def)

lemma extends_trans: "extends s s' \<Longrightarrow> extends s' s'' \<Longrightarrow> extends s s''"
proof -
  assume 1: "extends s s'" and 2: "extends s' s''"
  then obtain hs hs' where "healthObjects s' = healthObjects s @ hs" "healthObjects s'' = healthObjects s' @ hs'"
    by (auto simp: extends_def)
  then have "healthObjects s'' = healthObjects s @ (hs @ hs')" "length (healthObjects s) \<le> length (healthObjects s')"
    by simp_all
  moreover have "jget sk (keyHealth s'') = Some b" if "jget sk (keyHealth s) = Some b" for sk b
    using 1 2 that by (simp add: extends_def)
  moreover have "jget sk (keyHealth s) = Some b \<or> length (healthObjects s) \<le> b" if "jget sk (keyHealth s'') = Some b" for sk b
  proof -
    have "jget sk (keyHealth s') = Some b \<or> length (healthObjects s') \<le> b" using 2 that by (simp add: extends_def)
    then show ?thesis using 1 calculation(2) by (auto simp: extends_def)
  qed
  ultimately show ?thesis unfolding extends_def by blast
qed

lemma extends_frame [simp]:
  "extends s (s'\<lparr>keyIndexes := x\<rparr>) = extends s s'" "roomFor K (s\<lparr>keyIndexes := x\<rparr>) = roomFor K s"
  "extends s (s'\<lparr>connectionExtraKeys := y\<rparr>) = extends s s'" "roomFor K (s\<lparr>connectionExtraKeys := y\<rparr>) = roomFor K s"
  by (simp_all add: extends_def roomFor_def)

lemma getOrCreate_room:
  assumes "roomFor K s" and "scopedKey c k \<in> K" and "getOrCreateHealth c k s = (a, s')"
  shows "roomFor K s' \<and> extends s s' \<and> jget (scopedKey c k) (keyHealth s') = Some a"
proof (cases "jget (scopedKey c k) (keyHealth s)")
  case None
  define s1 where "s1 = s\<lparr>healthObjects := healthObjects s @ [newHealth]\<rparr>"
  have r: "roomFor K s1" using assms(1) unfolding roomFor_def s1_def by (auto intro: less_SucI)
  have l: "length (healthObjects s) < length (healthObjects s1)" by (simp add: s1_def)
  have e: "a = length (healthObjects s)" "s' = putHealth c k (length (healthObjects s)) s1"
    using assms(3) None by (auto simp: getOrCreateHealth_def newObject_def s1_def Let_def)
  show ?thesis
    using putHealth_room [OF r assms(2) l] None unfolding e extends_def by (auto simp: s1_def)
next
  case (Some b)
  then show ?thesis using assms by (auto simp: getOrCreateHealth_def)
qed

lemma writeObject_room: "roomFor K s \<Longrightarrow> roomFor K (writeObject a h s)"
  by (auto simp: roomFor_def writeObject_def)

lemma collect_room:
  assumes "roomFor K s" and "scopedKey c ` snd ` set cs \<subseteq> K" and "collectKeys None c cs s = (ks, s')"
  shows "roomFor K s' \<and> extends s s'
    \<and> (\<forall>p \<in> set ks. p \<in> set cs \<and> (\<forall>a. jget (scopedKey c (snd p)) (keyHealth s) = Some a \<longrightarrow> kh_status (healthAt s a) \<noteq> KeyInvalid))"
  using assms
proof (induction cs arbitrary: s ks s')
  case (Cons q cs)
  obtain key keyId where q: "q = (key, keyId)" by (cases q)
  obtain a s1 where g: "getOrCreateHealth c keyId s = (a, s1)" by (cases "getOrCreateHealth c keyId s")
  obtain ks1 s2 where r: "collectKeys None c cs s1 = (ks1, s2)" by (cases "collectKeys None c cs s1")
  have e: "s' = s2" "ks = (if kh_status (healthAt s1 a) \<noteq> KeyInvalid then (key, keyId) # ks1 else ks1)"
    using Cons.prems(3) g r by (auto simp: q healthOf_def)
  have 1: "roomFor K s1 \<and> extends s s1 \<and> jget (scopedKey c keyId) (keyHealth s1) = Some a"
    by (rule getOrCreate_room [OF Cons.prems(1) _ g]) (use Cons.prems(2) q in auto)
  have 2: "roomFor K s2 \<and> extends s1 s2 \<and> (\<forall>p \<in> set ks1. p \<in> set cs
      \<and> (\<forall>a. jget (scopedKey c (snd p)) (keyHealth s1) = Some a \<longrightarrow> kh_status (healthAt s1 a) \<noteq> KeyInvalid))"
    by (rule Cons.IH [OF _ _ r]) (use 1 Cons.prems(2) in auto)
  have kept: "kh_status (healthAt s1 b) = kh_status (healthAt s b)" if "jget sk (keyHealth s) = Some b" for sk b
    using 1 that Cons.prems(1) by (auto simp: extends_def healthAt_def roomFor_def nth_append)
  have up: "jget sk (keyHealth s1) = Some b" if "jget sk (keyHealth s) = Some b" for sk b
    using 1 that by (auto simp: extends_def)
  have old: "kh_status (healthAt s b) \<noteq> KeyInvalid"
    if "p \<in> set ks" "jget (scopedKey c (snd p)) (keyHealth s) = Some b" for p b
  proof (cases "p \<in> set ks1")
    case True
    then show ?thesis using 2 up [OF that(2)] kept [OF that(2)] by auto
  next
    case False
    then have "p = (key, keyId)" "kh_status (healthAt s1 a) \<noteq> KeyInvalid" using that(1) e(2) by (auto split: if_splits)
    then show ?thesis using 1 up [OF that(2)] kept [OF that(2)] by auto
  qed
  show ?case unfolding e(1) using 1 2 extends_trans [of s s1 s2] old e(2) by (auto simp: q)
qed simp

lemma getValid_room:
  assumes "roomFor K s" and "scopedKey c ` snd ` set (candidateKeys p e) \<subseteq> K" and "getValidApiKey c p e None s = (r, s')"
  shows "roomFor K s' \<and> extends s s'
    \<and> (\<forall>q. r = Some q \<longrightarrow> q \<in> set (candidateKeys p e)
           \<and> (\<forall>a. jget (scopedKey c (snd q)) (keyHealth s) = Some a \<longrightarrow> kh_status (healthAt s a) \<noteq> KeyInvalid))"
proof -
  obtain ks s1 where k: "collectKeys None c (candidateKeys p e) s = (ks, s1)"
    by (cases "collectKeys None c (candidateKeys p e) s")
  note room = collect_room [OF assms(1,2) k]
  consider "ks = []" | q where "ks = [q]" | q1 q2 qs where "ks = q1 # q2 # qs"
    by (cases ks; cases "tl ks") auto
  then show ?thesis
  proof cases
    case 3
    define n where "n = nullish (jget c (keyIndexes s1)) 0"
    have "ks ! (n mod length ks) \<in> set ks" by (rule nth_mem) (simp add: 3)
    moreover have "r = Some (ks ! (n mod length ks))" "s' = s1\<lparr>keyIndexes := jset c (n + 1) (keyIndexes s1)\<rparr>"
      using assms(3) k 3 by (auto simp: getValidApiKey_def takeTurn_def Let_def n_def)
    ultimately show ?thesis using room by simp
  qed (use assms(3) room k in \<open>auto simp: getValidApiKey_def\<close>)
qed

section \<open>A dead key\<close>

definition deadHealth :: "key_health \<Rightarrow> bool" where
  "deadHealth h \<longleftrightarrow> kh_status h = KeyInvalid \<and> 1 \<le> kh_failures h"

definition deadKey :: "string \<Rightarrow> key_rotator \<Rightarrow> bool" where
  "deadKey sk s \<longleftrightarrow> (\<exists>a. jget sk (keyHealth s) = Some a \<and> deadHealth (healthAt s a)
     \<and> (\<forall>sk'. sk' \<noteq> sk \<longrightarrow> jget sk' (keyHealth s) \<noteq> Some a))"

lemma dead_extends: "deadKey sk s \<Longrightarrow> roomFor K s \<Longrightarrow> extends s s' \<Longrightarrow> deadKey sk s'"
proof -
  assume d: "deadKey sk s" and r: "roomFor K s" and e: "extends s s'"
  then obtain a where a: "jget sk (keyHealth s) = Some a" "deadHealth (healthAt s a)"
    "\<And>sk'. sk' \<noteq> sk \<Longrightarrow> jget sk' (keyHealth s) \<noteq> Some a" by (auto simp: deadKey_def)
  have l: "a < length (healthObjects s)" using r a(1) by (simp add: roomFor_def)
  have "jget sk (keyHealth s') = Some a" "deadHealth (healthAt s' a)"
    using e a(1,2) l by (auto simp: extends_def healthAt_def nth_append)
  moreover have "jget sk' (keyHealth s') \<noteq> Some a" if "sk' \<noteq> sk" for sk'
    using e a(3) [OF that] l unfolding extends_def by (metis not_le)
  ultimately show ?thesis by (auto simp: deadKey_def)
qed

lemma dead_write:
  assumes "deadKey sk s" and "jget sk' (keyHealth s) = Some a" and "sk' \<noteq> sk \<or> deadHealth h"
  shows "deadKey sk (writeObject a h s)"
proof -
  obtain b where b: "jget sk (keyHealth s) = Some b" "deadHealth (healthAt s b)"
    "\<And>sk'. sk' \<noteq> sk \<Longrightarrow> jget sk' (keyHealth s) \<noteq> Some b" using assms(1) by (auto simp: deadKey_def)
  have "deadHealth (healthAt (writeObject a h s) b)"
  proof (cases "a = b")
    case True
    then have "deadHealth h" using assms(2,3) b(3) by blast
    then show ?thesis using True b(2) by (cases "b < length (healthObjects s)") (simp_all add: healthAt_def writeObject_def list_update_beyond)
  next
    case False
    then show ?thesis using b(2) by (simp add: healthAt_def writeObject_def)
  qed
  then show ?thesis using b(1,3) by (auto simp: deadKey_def writeObject_def)
qed

text \<open>The operations of the rotation on any connection, with the table entries they may touch.\<close>

datatype key_op =
    KeyGet string string "string list"
  | KeyResolve string string "string list" "string option"
  | KeyRotating string string "string list"
  | KeyFailed string string millis
  | KeyTerminal string string millis
  | KeyWorked string string millis
  | KeyReset string string
  | KeyTrack string "string list"
  | KeyIndexReset string

fun keyOp :: "key_op \<Rightarrow> key_rotator \<Rightarrow> key_rotator" where
  "keyOp (KeyGet c p e) s = snd (getValidApiKey c p e None s)"
| "keyOp (KeyResolve c p e sel) s = snd (resolveKeyForRequest c p e sel s)"
| "keyOp (KeyRotating c p e) s = snd (getRotatingApiKey c p e s)"
| "keyOp (KeyFailed c k now) s = snd (recordKeyFailure c k now s)"
| "keyOp (KeyTerminal c k now) s = snd (recordKeyTerminal c k now s)"
| "keyOp (KeyWorked c k now) s = snd (recordKeySuccess c k now s)"
| "keyOp (KeyReset c k) s = snd (resetKeyStatus c k s)"
| "keyOp (KeyTrack c e) s = trackConnectionExtraKeys c e s"
| "keyOp (KeyIndexReset c) s = resetRotationIndex c s"

definition candidateEntries :: "string \<Rightarrow> string \<Rightarrow> string list \<Rightarrow> string list" where
  "candidateEntries c p e = map (\<lambda>q. scopedKey c (snd q)) (candidateKeys p e)"

fun opEntries :: "key_op \<Rightarrow> string list" where
  "opEntries (KeyGet c p e) = candidateEntries c p e"
| "opEntries (KeyResolve c p e sel) =
     candidateEntries c p e @ (case sel of Some k \<Rightarrow> [scopedKey c k] | None \<Rightarrow> [])"
| "opEntries (KeyFailed c k now) = [scopedKey c k]"
| "opEntries (KeyTerminal c k now) = [scopedKey c k]"
| "opEntries (KeyWorked c k now) = [scopedKey c k]"
| "opEntries (KeyReset c k) = [scopedKey c k]"
| "opEntries _ = []"

text \<open>The operations that bring a key back.\<close>

fun revives :: "string \<Rightarrow> key_op \<Rightarrow> bool" where
  "revives sk (KeyWorked c k now) = (sk = scopedKey c k)"
| "revives sk (KeyReset c k) = (sk = scopedKey c k)"
| "revives sk _ = False"

lemma candidates_in: "set (candidateEntries c p e) \<subseteq> K \<Longrightarrow> scopedKey c ` snd ` set (candidateKeys p e) \<subseteq> K"
  by (auto simp: candidateEntries_def)

lemma resolve_room:
  assumes "roomFor K s" and "set (opEntries (KeyResolve c p e sel)) \<subseteq> K" and "resolveKeyForRequest c p e sel s = (r, s')"
  shows "roomFor K s' \<and> extends s s'
    \<and> (\<forall>q. r = Some q \<longrightarrow> (\<forall>a. jget (scopedKey c (snd q)) (keyHealth s) = Some a \<longrightarrow> kh_status (healthAt s a) \<noteq> KeyInvalid))"
proof -
  have cs: "scopedKey c ` snd ` set (candidateKeys p e) \<subseteq> K" using assms(2) by (intro candidates_in) simp
  have plain: ?thesis if "getValidApiKey c p e None s = (r, s')"
    using getValid_room [OF assms(1) cs that] by blast
  show ?thesis
  proof (cases "sel = None \<or> sel = Some []")
    case True
    then have "getValidApiKey c p e None s = (r, s')" using assms(3) by (auto simp: resolveKeyForRequest_def)
    then show ?thesis by (rule plain)
  next
    case False
    then obtain k where k: "sel = Some k" "k \<noteq> []" by auto
    obtain a s1 where g: "getOrCreateHealth c k s = (a, s1)" by (cases "getOrCreateHealth c k s")
    have 1: "roomFor K s1 \<and> extends s s1 \<and> jget (scopedKey c k) (keyHealth s1) = Some a"
      by (rule getOrCreate_room [OF assms(1) _ g]) (use assms(2) k in auto)
    have kept: "jget sk (keyHealth s1) = Some b" "healthAt s1 b = healthAt s b" if "jget sk (keyHealth s) = Some b" for sk b
      using 1 that assms(1) by (auto simp: extends_def healthAt_def roomFor_def nth_append)
    have later: ?thesis if "getValidApiKey c p e None s1 = (r, s')"
      using getValid_room [OF conjunct1 [OF 1] cs that] 1 extends_trans [of s s1 s'] kept by fastforce
    have again: "getValidApiKey c p e None s1 = (r, s') \<or> (\<exists>x. r = Some (x, k) \<and> s' = s1 \<and> kh_status (healthAt s1 a) \<noteq> KeyInvalid)"
      using assms(3) k g unfolding resolveKeyForRequest_def Let_def
      by (auto split: if_splits option.splits)
    then show ?thesis using later 1 kept by fastforce
  qed
qed

lemma record_room:
  assumes "roomFor K s" and "scopedKey c k \<in> K" and "getOrCreateHealth c k s = (a, s1)"
    and "deadKey sk s" and "sk \<noteq> scopedKey c k \<or> deadHealth h"
  shows "roomFor K (writeObject a h s1) \<and> deadKey sk (writeObject a h s1)"
proof -
  note 1 = getOrCreate_room [OF assms(1-3)]
  have "deadKey sk s1" by (rule dead_extends [OF assms(4,1)]) (use 1 in blast)
  then show ?thesis using 1 writeObject_room [of K s1 a h] dead_write [of sk s1 "scopedKey c k" a h] assms(5) by metis
qed

lemma keyOp_dead:
  assumes "roomFor K s" and "set (opEntries op) \<subseteq> K" and "deadKey sk s" and "\<not> revives sk op"
  shows "roomFor K (keyOp op s) \<and> deadKey sk (keyOp op s)"
proof -
  have ext: "roomFor K s' \<and> extends s s' \<Longrightarrow> roomFor K s' \<and> deadKey sk s'" for s'
    using dead_extends [OF assms(3,1)] by blast
  show ?thesis
  proof (cases op)
    case (KeyGet c p e)
    then show ?thesis
      using getValid_room [OF assms(1) candidates_in, of c p e "fst (getValidApiKey c p e None s)"] assms(2) ext by simp
  next
    case (KeyResolve c p e sel)
    then show ?thesis
      using resolve_room [OF assms(1), of c p e sel "fst (resolveKeyForRequest c p e sel s)"] assms(2) ext by simp
  next
    case (KeyRotating c p e)
    have "deadKey sk (s\<lparr>keyIndexes := x\<rparr>) = deadKey sk s" for x by (simp add: deadKey_def healthAt_def)
    then show ?thesis using KeyRotating assms(1,3) by (simp add: getRotatingApiKey_def takeTurn_def Let_def)
  next
    case (KeyFailed c k now)
    obtain a s1 where g: "getOrCreateHealth c k s = (a, s1)" by (cases "getOrCreateHealth c k s")
    have e: "extends s s1" "jget (scopedKey c k) (keyHealth s1) = Some a"
      using getOrCreate_room [OF assms(1) _ g] assms(2) KeyFailed by auto
    have "sk = scopedKey c k \<Longrightarrow> 1 \<le> kh_failures (healthAt s1 a)"
      using dead_extends [OF assms(3,1) e(1)] e(2) by (auto simp: deadKey_def deadHealth_def)
    then show ?thesis using record_room [OF assms(1) _ g assms(3)] assms(2) KeyFailed g
      by (auto simp: recordKeyFailure_def Let_def deadHealth_def FAILURE_THRESHOLD_def)
  next
    case (KeyTerminal c k now)
    obtain a s1 where g: "getOrCreateHealth c k s = (a, s1)" by (cases "getOrCreateHealth c k s")
    show ?thesis using record_room [OF assms(1) _ g assms(3)] assms(2) KeyTerminal g
      by (simp add: recordKeyTerminal_def Let_def deadHealth_def FAILURE_THRESHOLD_def max_def)
  next
    case (KeyWorked c k now)
    obtain a s1 where g: "getOrCreateHealth c k s = (a, s1)" by (cases "getOrCreateHealth c k s")
    show ?thesis using record_room [OF assms(1) _ g assms(3)] assms(2,4) KeyWorked g
      by (auto simp: recordKeySuccess_def Let_def)
  next
    case (KeyReset c k)
    obtain a s1 where g: "getOrCreateHealth c k s = (a, s1)" by (cases "getOrCreateHealth c k s")
    show ?thesis using record_room [OF assms(1) _ g assms(3)] assms(2,4) KeyReset g
      by (auto simp: resetKeyStatus_def Let_def)
  next
    case (KeyTrack c e)
    have "deadKey sk (s\<lparr>connectionExtraKeys := x\<rparr>) = deadKey sk s" for x by (simp add: deadKey_def healthAt_def)
    then show ?thesis using KeyTrack assms(1,3) by (simp add: trackConnectionExtraKeys_def)
  next
    case (KeyIndexReset c)
    have "deadKey sk (s\<lparr>keyIndexes := x\<rparr>) = deadKey sk s" for x by (simp add: deadKey_def healthAt_def)
    then show ?thesis using KeyIndexReset assms(1,3) by (simp add: resetRotationIndex_def)
  qed
qed

lemma keyOps_dead:
  assumes "roomFor K s" and "\<And>op. op \<in> set ops \<Longrightarrow> set (opEntries op) \<subseteq> K \<and> \<not> revives sk op" and "deadKey sk s"
  shows "roomFor K (fold keyOp ops s) \<and> deadKey sk (fold keyOp ops s)"
  using assms
proof (induction ops arbitrary: s)
  case (Cons op ops)
  have "roomFor K (keyOp op s) \<and> deadKey sk (keyOp op s)"
    by (rule keyOp_dead [OF Cons.prems(1) _ Cons.prems(3)]) (use Cons.prems(2) [of op] in auto)
  then show ?case using Cons.IH [of "keyOp op s"] Cons.prems(2) by simp
qed simp

text \<open>Every table entry is an object of its own.\<close>

definition unshared :: "key_rotator \<Rightarrow> bool" where
  "unshared s \<longleftrightarrow> inj_on (\<lambda>sk. jget sk (keyHealth s)) (set (jkeys (keyHealth s)))"

lemma terminal_dead:
  assumes "roomFor K s" and "scopedKey c k \<in> K" and "unshared s"
  shows "roomFor K (snd (recordKeyTerminal c k now s)) \<and> deadKey (scopedKey c k) (snd (recordKeyTerminal c k now s))"
proof -
  obtain a s1 where g: "getOrCreateHealth c k s = (a, s1)" by (cases "getOrCreateHealth c k s")
  note 1 = getOrCreate_room [OF assms(1,2) g]
  have l: "a < length (healthObjects s1)" using 1 unfolding roomFor_def by blast
  have u: "jget sk (keyHealth s1) \<noteq> Some a" if "sk \<noteq> scopedKey c k" for sk
  proof (cases "jget (scopedKey c k) (keyHealth s)")
    case None
    then have "length (healthObjects s) \<le> a" "keyHealth s1 = jset (scopedKey c k) a (keyHealth s)"
      using g by (auto simp: getOrCreateHealth_def newObject_def putHealth_def Let_def roomFor_set [OF assms(1,2)])
    moreover have "jget sk (keyHealth s) = Some a \<Longrightarrow> a < length (healthObjects s)" using assms(1) by (simp add: roomFor_def)
    ultimately show ?thesis using that by auto
  next
    case (Some b)
    then have "s1 = s" "jget (scopedKey c k) (keyHealth s) = Some a" using g by (auto simp: getOrCreateHealth_def)
    then show ?thesis using that assms(3) unfolding unshared_def inj_on_def by (metis jget_None_iff option.distinct(1))
  qed
  show ?thesis
    using 1 g l u writeObject_room [of K s1 a]
    by (auto simp: recordKeyTerminal_def Let_def deadKey_def deadHealth_def healthAt_def writeObject_def FAILURE_THRESHOLD_def max_def)
qed

text \<open>
  A key that the provider refused for good stays out between two reads of its row: once a terminal failure is recorded
  for it, as long as the health of a row is not synchronised into the table, no health is removed and the table has room for
  the keys in use, no sequence of requests, failures, successes and resets of other keys makes the rotation hand it out
  again, also not to a request that had selected it before. What a new read of the row does to it is in \<open>KeyHealthLaws\<close>.
\<close>

theorem terminal_key_stays_out:
  assumes "roomFor K s" and "unshared s" and "scopedKey c k \<in> K"
    and "\<forall>op \<in> set ops. set (opEntries op) \<subseteq> K \<and> \<not> revives (scopedKey c k) op"
    and "set (opEntries (KeyResolve c p e sel)) \<subseteq> K"
  shows "let s' = fold keyOp ops (snd (recordKeyTerminal c k now s))
    in fst (getValidApiKey c p e None s') \<noteq> Some (key, k) \<and> fst (resolveKeyForRequest c p e sel s') \<noteq> Some (key, k)"
proof -
  define s' where "s' = fold keyOp ops (snd (recordKeyTerminal c k now s))"
  have 1: "roomFor K s' \<and> deadKey (scopedKey c k) s'"
    unfolding s'_def by (rule keyOps_dead) (use terminal_dead [OF assms(1,3,2)] assms(4) in auto)
  then obtain a where a: "jget (scopedKey c k) (keyHealth s') = Some a" "kh_status (healthAt s' a) = KeyInvalid"
    by (auto simp: deadKey_def deadHealth_def)
  have cs: "scopedKey c ` snd ` set (candidateKeys p e) \<subseteq> K" using assms(5) by (intro candidates_in) simp
  show ?thesis unfolding s'_def [symmetric] Let_def
    using getValid_room [OF conjunct1 [OF 1] cs, of "fst (getValidApiKey c p e None s')" "snd (getValidApiKey c p e None s')"]
      resolve_room [OF conjunct1 [OF 1] assms(5), of "fst (resolveKeyForRequest c p e sel s')" "snd (resolveKeyForRequest c p e sel s')"] a
    by auto
qed

theorem terminal_key_stays_out_witness:
  "fst (getValidApiKey ''c'' ''p'' [''a''] None
     (fold keyOp [KeyWorked ''c'' ''extra_0'' 1, KeyGet ''c'' ''p'' [''a'']]
       (snd (recordKeyTerminal ''c'' ''primary'' 0 emptyRotator)))) \<noteq> Some (''p'', ''primary'')"
proof -
  have e: "candidateEntries ''c'' ''p'' [''a''] = [''c:primary'', ''c:extra_0'']" by code_simp
  have k: "scopedKey ''c'' ''primary'' = ''c:primary''" "scopedKey ''c'' ''extra_0'' = ''c:extra_0''" by code_simp+
  have r: "roomFor {''c:primary'', ''c:extra_0''} emptyRotator" "unshared emptyRotator"
    by (simp_all add: roomFor_def unshared_def emptyRotator_def MAX_KEY_HEALTH_ENTRIES_def jkeys_def)
  show ?thesis
    using terminal_key_stays_out [OF r, of "''c''" "''primary''" "[KeyWorked ''c'' ''extra_0'' 1, KeyGet ''c'' ''p'' [''a'']]"
        "''p''" "[''a'']" None 0 "''p''"]
    by (simp add: Let_def e k)
qed

end
