(* ===== verification/KeyHealthLaws.thy ===== *)
theory KeyHealthLaws
  imports KeyRotatorLaws
begin

text \<open>
  The health of keys across requests: what the stored row keeps of it. A loaded row shares its health
  objects with the table, so an update changes both before they are compared.
\<close>

section \<open>Loading and sharing\<close>





lemma scopedKey_inj [simp]: "scopedKey c k = scopedKey c k' \<longleftrightarrow> k = k'"
  by (simp add: scopedKey_def)




section \<open>An answer is never saved twice\<close>



section \<open>Requests over time\<close>






lemma filled_filled [simp]: "filledKeys (filledKeys e) = filledKeys e"
  by (simp add: filledKeys_def)

lemma candidates_filled [simp]: "candidateKeys p (filledKeys e) = candidateKeys p e"
  by (simp add: candidateKeys_def)










section \<open>Where the counts go wrong\<close>

lemma failure_counts:
  assumes "roomFor K s" and "scopedKey c k \<in> K" and "jget (scopedKey c k) (keyHealth s) = Some a"
  shows "recordKeyFailure c k now s = (healthAt (snd (recordKeyFailure c k now s)) a, snd (recordKeyFailure c k now s))
    \<and> kh_failures (healthAt (snd (recordKeyFailure c k now s)) a) = kh_failures (healthAt s a) + 1
    \<and> kh_status (healthAt (snd (recordKeyFailure c k now s)) a) = (if kh_failures (healthAt s a) = 0 then KeyWarning else KeyInvalid)
    \<and> keyHealth (snd (recordKeyFailure c k now s)) = keyHealth s
    \<and> roomFor K (snd (recordKeyFailure c k now s))"
proof -
  have "getOrCreateHealth c k s = (a, s)" using assms(3) by (simp add: getOrCreateHealth_def)
  moreover have "a < length (healthObjects s)" using assms(1,3) by (simp add: roomFor_def)
  ultimately show ?thesis using writeObject_room [OF assms(1)]
    by (auto simp: recordKeyFailure_def Let_def healthAt_def writeObject_def FAILURE_THRESHOLD_def)
qed

lemma recorded_failure:
  assumes "c \<noteq> []" and "transport \<noteq> Some ''cliproxyapi''" and "nullish (kd_selectedKeyId psd) ''primary'' = k"
  shows "snd (recordKeyHealthStatus 401 c psd transport now s)
    = snd (recordKeyFailure c k now (trackConnectionExtraKeys c (kd_extraApiKeys psd) s))"
  using assms by (simp add: recordKeyHealthStatus_def Let_def split: prod.splits)

lemma track_frame [simp]:
  "keyHealth (trackConnectionExtraKeys c e s) = keyHealth s" "healthAt (trackConnectionExtraKeys c e s) = healthAt s"
  "roomFor K (trackConnectionExtraKeys c e s) = roomFor K s"
  by (simp_all add: trackConnectionExtraKeys_def healthAt_def fun_eq_iff)

text \<open>
  One refusal counts twice: the answer of a request that is not streamed is recorded when it arrives and again
  when it has been read, so a single 401 marks a key invalid that never failed before, although the threshold is two
  failures in a row; the same answer to a streamed request is counted once.
\<close>

theorem one_refusal_counts_twice:
  assumes "roomFor K s" and "scopedKey c k \<in> K" and "jget (scopedKey c k) (keyHealth s) = Some a"
    and "c \<noteq> []" and "apiKey \<noteq> []" and "nullish (kd_selectedKeyId psd) ''primary'' = k"
    and "kh_failures (healthAt s a) = 0" and "transport \<noteq> Some ''cliproxyapi''"
  shows "kh_status (healthAt (snd (recordAnswer False 401 transport c apiKey psd now s)) a) = KeyInvalid
    \<and> kh_status (healthAt (snd (recordAnswer True 401 transport c apiKey psd now s)) a) = KeyWarning"
proof -
  define s1 where "s1 = snd (recordKeyHealthStatus 401 c psd None now s)"
  have 1: "s1 = snd (recordKeyFailure c k now (trackConnectionExtraKeys c (kd_extraApiKeys psd) s))"
    unfolding s1_def using assms(4,6) by (simp add: recorded_failure)
  have f1: "kh_failures (healthAt s1 a) = 1" "kh_status (healthAt s1 a) = KeyWarning" "keyHealth s1 = keyHealth s" "roomFor K s1"
    using failure_counts [of K "trackConnectionExtraKeys c (kd_extraApiKeys psd) s" c k a now] assms(1-3,7) by (simp_all add: 1)
  have f2: "kh_status (healthAt (snd (recordKeyHealthStatus 401 c psd transport now s1)) a) = KeyInvalid"
    using failure_counts [of K "trackConnectionExtraKeys c (kd_extraApiKeys psd) s1" c k a now] assms(2,3) f1
    by (simp add: recorded_failure [OF assms(4,8,6)])
  have a1: "snd (recordAnswer True 401 transport c apiKey psd now s) = s1"
    using assms(4) by (simp add: recordAnswer_def Let_def s1_def split: prod.splits)
  have a2: "snd (recordAnswer False 401 transport c apiKey psd now s) = snd (recordKeyHealthStatus 401 c psd transport now s1)"
    using assms(4,5) by (simp add: recordAnswer_def Let_def s1_def split: prod.splits)
  show ?thesis unfolding a1 a2 using f1(2) f2 by simp
qed

definition oneKeyTable :: key_rotator where
  "oneKeyTable = snd (getValidApiKey ''c'' ''p'' [] None emptyRotator)"

definition plainData :: key_data where
  "plainData = \<lparr>kd_extraApiKeys = [], kd_apiKeyHealth = None, kd_selectedKeyId = None\<rparr>"

theorem one_refusal_counts_twice_witness:
  "kh_status (healthAt (snd (recordAnswer False 401 None ''c'' ''p'' plainData 7 oneKeyTable)) 0) = KeyInvalid"
proof -
  have t: "keyHealth oneKeyTable = [(''c:primary'', 0)]" "healthObjects oneKeyTable = [newHealth]"
    and sk: "scopedKey ''c'' ''primary'' = ''c:primary''" by code_simp+
  have "roomFor {''c:primary''} oneKeyTable"
    by (simp add: roomFor_def t MAX_KEY_HEALTH_ENTRIES_def jinv_def jkeys_def jget_Cons)
  then show ?thesis
    using one_refusal_counts_twice [of "{''c:primary''}" oneKeyTable "''c''" "''primary''" 0 "''p''" plainData None 7]
    by (simp add: sk t jget_Cons plainData_def healthAt_def newHealth_def)
qed

text \<open>
  The bound of the table brings dead keys back: the oldest entry is evicted whatever it says, so with a full table
  a request of another connection makes the rotation hand out a key again that was marked invalid.
\<close>

theorem eviction_revives_key:
  assumes "MAX_KEY_HEALTH_ENTRIES \<le> length (jkeys (keyHealth s))" and "jinv (keyHealth s)"
    and "hd (jkeys (keyHealth s)) = scopedKey c ''primary''" and "statusOf c ''primary'' s = KeyInvalid"
    and "jget (scopedKey c2 ''primary'') (keyHealth s) = None" and "p \<noteq> []" and "p2 \<noteq> []"
  shows "fst (getValidApiKey c p [] None s) = None
    \<and> fst (getValidApiKey c p [] None (snd (getValidApiKey c2 p2 [] None s))) = Some (p, ''primary'')"
proof -
  obtain a where a: "jget (scopedKey c ''primary'') (keyHealth s) = Some a" "kh_status (healthAt s a) = KeyInvalid"
    using assms(4) by (auto simp: statusOf_def split: option.splits)
  have cands: "candidateKeys q [] = [(q, ''primary'')]" if "q \<noteq> []" for q
    using that by (simp add: candidateKeys_def filledKeys_def)
  define s1 where "s1 = snd (getOrCreateHealth c2 ''primary'' s)"
  have "scopedKey c2 ''primary'' \<noteq> scopedKey c ''primary''" using assms(5) a(1) by auto
  then have gone: "jget (scopedKey c ''primary'') (keyHealth s1) = None"
    using assms(1,3,5) by (simp add: s1_def getOrCreateHealth_def newObject_def putHealth_def setCapped_def Let_def)
  have new: "fst (getOrCreateHealth c2 ''primary'' s) = length (healthObjects s)"
    "kh_status (healthAt s1 (length (healthObjects s))) = KeyActive"
    using assms(5) by (simp_all add: s1_def getOrCreateHealth_def newObject_def putHealth_def Let_def healthAt_def newHealth_def)
  have s2: "snd (getValidApiKey c2 p2 [] None s) = s1"
    using new by (simp add: getValidApiKey_def cands [OF assms(7)] healthOf_def s1_def split: prod.splits)
  show ?thesis
    unfolding s2 using a gone
    by (simp add: getValidApiKey_def cands [OF assms(6)] healthOf_def getOrCreateHealth_def newObject_def putHealth_def
        healthAt_def newHealth_def Let_def)
qed

text \<open>A full table whose oldest entry is the dead key of connection \<open>c\<close>.\<close>

definition fullTable :: key_rotator where
  "fullTable = \<lparr>keyIndexes = [], connectionExtraKeys = [],
     keyHealth = (scopedKey ''c'' ''primary'', 0) # map (\<lambda>i. (scopedKey ''c'' (extraId i), 1)) [0..<499],
     healthObjects = [newHealth\<lparr>kh_status := KeyInvalid, kh_failures := 2\<rparr>, newHealth]\<rparr>"

theorem eviction_revives_key_witness:
  "fst (getValidApiKey ''c'' ''p'' [] None (snd (getValidApiKey ''d'' ''q'' [] None fullTable))) = Some (''p'', ''primary'')"
proof -
  have inj: "inj extraId"
  proof (rule injI)
    fix i j assume "extraId i = extraId j"
    then have "jsParseInt (decimalDigits i @ []) = jsParseInt (decimalDigits j @ [])" by (simp add: extraId_def)
    then show "i = j" by (simp only: parse_decimal simp_thms) simp
  qed
  have keys: "jkeys (keyHealth fullTable) = scopedKey ''c'' ''primary'' # map (\<lambda>i. scopedKey ''c'' (extraId i)) [0..<499]"
    by (simp add: fullTable_def jkeys_def o_def del: upt_rec_numeral)
  have "jinv (keyHealth fullTable)"
    unfolding jinv_def keys using inj by (auto simp: distinct_map inj_on_def inj_def extraId_def)
  moreover have "scopedKey ''d'' k \<noteq> scopedKey ''c'' k'" for k k' by (simp add: scopedKey_def)
  then have "jget (scopedKey ''d'' ''primary'') (keyHealth fullTable) = None" by (auto simp: jget_None_iff keys)
  moreover have "statusOf ''c'' ''primary'' fullTable = KeyInvalid"
    by (simp add: statusOf_def fullTable_def jget_Cons healthAt_def)
  ultimately show ?thesis
    using eviction_revives_key [of fullTable "''c''" "''d''" "''p''" "''q''"]
    by (simp add: keys MAX_KEY_HEALTH_ENTRIES_def del: upt_rec_numeral)
qed

end
