(* ===== verification/CivilDates.thy ===== *)
theory CivilDates
  imports Decimals
begin

text \<open>
  Dates of JavaScript in UTC, as ECMA-262 defines them: day number, year, month, date and weekday of an
  instant, and \<open>Date.UTC\<close>. Instants are integers of milliseconds since 1970; the range check of \<open>Date\<close>
  (8640000000000000 ms on either side) is not modelled.
\<close>

definition msPerDay :: int where "msPerDay = 86400000"

definition dayOf :: "millis \<Rightarrow> int" where "dayOf t = t div msPerDay"

definition timeOfDay :: "millis \<Rightarrow> int" where "timeOfDay t = t mod msPerDay"

definition weekDay :: "int \<Rightarrow> int" where "weekDay d = (d + 4) mod 7"

text \<open>The day number of the first of January.\<close>

definition dayFromYear :: "int \<Rightarrow> int" where
  "dayFromYear y = 365 * (y - 1970) + (y - 1969) div 4 - (y - 1901) div 100 + (y - 1601) div 400"

definition leapYear :: "int \<Rightarrow> bool" where
  "leapYear y \<longleftrightarrow> y mod 4 = 0 \<and> (y mod 100 \<noteq> 0 \<or> y mod 400 = 0)"

text \<open>The year of a day: an estimate from the mean length of a year, corrected by at most one.\<close>

definition yearOf :: "int \<Rightarrow> int" where
  "yearOf d =
     (let e = 1970 + (400 * d) div 146097
      in if d < dayFromYear e then e - 1 else if dayFromYear (e + 1) \<le> d then e + 1 else e)"

text \<open>Days of the year before each month.\<close>

definition monthStarts :: "int list" where
  "monthStarts = [0, 31, 59, 90, 120, 151, 181, 212, 243, 273, 304, 334, 365]"

definition monthStart :: "int \<Rightarrow> int \<Rightarrow> int" where
  "monthStart y m = monthStarts ! nat m + (if leapYear y \<and> 2 \<le> m then 1 else 0)"

definition dayInYear :: "int \<Rightarrow> int" where "dayInYear d = d - dayFromYear (yearOf d)"

definition monthOf :: "int \<Rightarrow> int" where
  "monthOf d = int (length (takeWhile (\<lambda>m. monthStart (yearOf d) m \<le> dayInYear d) [1..11]))"

definition dateOf :: "int \<Rightarrow> int" where
  "dateOf d = dayInYear d - monthStart (yearOf d) (monthOf d) + 1"

definition makeDay :: "int \<Rightarrow> int \<Rightarrow> int \<Rightarrow> int" where
  "makeDay y m date = (let ym = y + m div 12 in dayFromYear ym + monthStart ym (m mod 12) + date - 1)"

text \<open>\<open>Date.UTC\<close>, which reads the years 0 to 99 as 1900 to 1999.\<close>

definition dateUTC :: "int \<Rightarrow> int \<Rightarrow> int \<Rightarrow> int \<Rightarrow> int \<Rightarrow> millis" where
  "dateUTC y m date hours minutes =
     makeDay (if 0 \<le> y \<and> y \<le> 99 then 1900 + y else y) m date * msPerDay + hours * 3600000 + minutes * 60000"

section \<open>The year of a day\<close>

lemma div_bounds: "0 < (k::int) \<Longrightarrow> k * (a div k) \<le> a \<and> a < k * (a div k) + k"
  using pos_mod_bound [of k a] pos_mod_sign [of k a] mult_div_mod_eq [of k a] by linarith

lemma div_step:
  assumes "0 < (k::int)"
  shows "(a + 1) div k = a div k + (if k dvd a + 1 then 1 else 0)"
proof (cases "k dvd a + 1")
  case True
  then obtain q where q: "a + 1 = k * q" by auto
  then have "a = k * (q - 1) + (k - 1)" by (simp add: algebra_simps)
  then have "a div k = q - 1" using assms by (intro int_div_pos_eq [where r = "k - 1"]) auto
  then show ?thesis using True q assms by simp
next
  case False
  have "a mod k \<noteq> k - 1"
  proof
    assume "a mod k = k - 1"
    then have "a + 1 = k * (a div k + 1)" using mult_div_mod_eq [of k a] unfolding distrib_left by linarith
    then show False using False by (metis dvd_triv_left)
  qed
  then have "a mod k + 1 < k" using pos_mod_bound [OF assms, of a] by linarith
  then have "(a + 1) div k = a div k"
    using mult_div_mod_eq [of k a] pos_mod_sign [OF assms, of a] by (intro int_div_pos_eq) auto
  then show ?thesis using False by simp
qed

lemma div_step_from:
  assumes "0 < (k::int)" and "k dvd c"
  shows "(y - c) div k = (y - (c + 1)) div k + (if k dvd y then 1 else 0)"
proof -
  have "y - (c + 1) + 1 = y - c" by simp
  then show ?thesis using div_step [OF assms(1), of "y - (c + 1)"] dvd_diff_left_iff [OF assms(2), of y] by simp
qed

lemma year_length: "dayFromYear (y + 1) - dayFromYear y = (if leapYear y then 366 else 365)"
proof -
  define a b c where "a = (y - 1969) div 4" and "b = (y - 1901) div 100" and "c = (y - 1601) div 400"
  have n: "dayFromYear y = 365 * (y - 1970) + a - b + c" by (simp add: dayFromYear_def a_def b_def c_def)
  have 1: "(y + 1 - 1969) div 4 = a + (if 4 dvd y then 1 else 0)"
    using div_step_from [of 4 1968 y] by (simp add: a_def)
  have 2: "(y + 1 - 1901) div 100 = b + (if 100 dvd y then 1 else 0)"
    using div_step_from [of 100 1900 y] by (simp add: b_def)
  have 3: "(y + 1 - 1601) div 400 = c + (if 400 dvd y then 1 else 0)"
    using div_step_from [of 400 1600 y] by (simp add: c_def)
  have s: "dayFromYear (y + 1) = 365 * (y + 1 - 1970) + (a + (if 4 dvd y then 1 else 0))
      - (b + (if 100 dvd y then 1 else 0)) + (c + (if 400 dvd y then 1 else 0))"
    unfolding dayFromYear_def 1 2 3 ..
  have d: "400 dvd y \<Longrightarrow> 100 dvd y" "100 dvd y \<Longrightarrow> 4 dvd y"
    by (rule dvd_trans [of 100 400], simp_all) (rule dvd_trans [of 4 100], simp_all)
  show ?thesis unfolding leapYear_def mod_eq_0_iff_dvd n s using d
    by (cases "4 dvd y"; cases "100 dvd y"; cases "400 dvd y") simp_all
qed

lemma dayFromYear_mono: "y \<le> z \<Longrightarrow> dayFromYear y + 365 * (z - y) \<le> dayFromYear z"
proof (induction "nat (z - y)" arbitrary: z)
  case (Suc n)
  have "dayFromYear y + 365 * (z - 1 - y) \<le> dayFromYear (z - 1)" using Suc by (intro Suc.hyps) auto
  then show ?case using year_length [of "z - 1"] by (auto split: if_splits)
qed simp

lemma yearOf_bounds: "dayFromYear (yearOf d) \<le> d \<and> d < dayFromYear (yearOf d + 1)"
proof -
  have b: "146097 * (y - 1970) - 506 \<le> 400 * dayFromYear y \<and> 400 * dayFromYear y \<le> 146097 * (y - 1970) + 589" for y
    using div_bounds [of 4 "y - 1969"] div_bounds [of 100 "y - 1901"] div_bounds [of 400 "y - 1601"]
    by (simp add: dayFromYear_def)
  define e where "e = 1970 + (400 * d) div 146097"
  have e: "146097 * (e - 1970) \<le> 400 * d \<and> 400 * d < 146097 * (e - 1970) + 146097"
    using div_bounds [of 146097 "400 * d"] by (simp add: e_def)
  have "dayFromYear (e - 1) \<le> d" "d < dayFromYear (e + 2)" using b [of "e - 1"] b [of "e + 2"] e by simp_all
  then show ?thesis by (simp add: yearOf_def e_def [symmetric] Let_def add.commute)
qed

lemma yearOf_unique:
  assumes "dayFromYear y \<le> d" and "d < dayFromYear (y + 1)"
  shows "yearOf d = y"
proof (rule ccontr)
  assume "yearOf d \<noteq> y"
  then have "yearOf d + 1 \<le> y \<or> y + 1 \<le> yearOf d" by linarith
  then show False
    using yearOf_bounds [of d] assms dayFromYear_mono [of "yearOf d + 1" y] dayFromYear_mono [of "y + 1" "yearOf d"] by auto
qed

section \<open>Month and date\<close>

lemma monthStart_0 [simp]: "monthStart y 0 = 0" by (simp add: monthStart_def monthStarts_def)

lemma monthStart_12: "monthStart y 12 = dayFromYear (y + 1) - dayFromYear y"
  by (simp add: year_length monthStart_def monthStarts_def)

lemma monthStart_step:
  assumes "0 \<le> m" and "m \<le> 11"
  shows "monthStart y m + 28 \<le> monthStart y (m + 1)"
proof -
  have "m = 0 \<or> m = 1 \<or> m = 2 \<or> m = 3 \<or> m = 4 \<or> m = 5 \<or> m = 6 \<or> m = 7 \<or> m = 8 \<or> m = 9 \<or> m = 10 \<or> m = 11"
    using assms by presburger
  then show ?thesis by (elim disjE) (simp_all add: monthStart_def monthStarts_def)
qed

text \<open>Months counted from January of the year 0, and the day each starts on.\<close>

definition firstOfMonth :: "int \<Rightarrow> int" where "firstOfMonth k = makeDay 0 k 1"

lemma makeDay_month: "makeDay y m date = firstOfMonth (12 * y + m) + date - 1"
  by (simp add: firstOfMonth_def makeDay_def Let_def)

lemma firstOfMonth_Suc: "firstOfMonth k + 28 \<le> firstOfMonth (k + 1)"
proof -
  have k: "0 \<le> k mod 12" "k mod 12 \<le> 11" using pos_mod_bound [of 12 k] by auto
  define q r where "q = k div 12" and "r = k mod 12"
  have qr: "k = 12 * q + r" "0 \<le> r" "r \<le> 11" using k by (simp_all add: q_def r_def)
  have 1: "firstOfMonth k = dayFromYear (k div 12) + monthStart (k div 12) (k mod 12)"
    by (simp add: firstOfMonth_def makeDay_def Let_def)
  have 2: "firstOfMonth (k + 1) = dayFromYear (k div 12) + monthStart (k div 12) (k mod 12 + 1)"
  proof (cases "k mod 12 = 11")
    case True
    then have "r = 11" by (simp only: r_def)
    then have e: "k + 1 = 12 * (q + 1)" using qr(1) unfolding distrib_left by linarith
    have "(k + 1) div 12 = q + 1" "(k + 1) mod 12 = 0" unfolding e by simp_all
    then show ?thesis using True monthStart_12 [of q] by (simp add: firstOfMonth_def makeDay_def Let_def q_def [symmetric])
  next
    case False
    then have "r \<noteq> 11" by (simp only: r_def not_False_eq_True)
    then have "k + 1 = 12 * q + (r + 1)" "0 \<le> r + 1" "r + 1 < 12" using qr by linarith+
    then have "(k + 1) div 12 = q" "(k + 1) mod 12 = r + 1" by (rule int_div_pos_eq, rule int_mod_pos_eq)
    then show ?thesis by (simp add: firstOfMonth_def makeDay_def Let_def q_def r_def)
  qed
  show ?thesis using monthStart_step [OF k, of "k div 12"] by (simp add: 1 2)
qed

lemma dayInYear_bounds: "0 \<le> dayInYear d \<and> dayInYear d < monthStart (yearOf d) 12"
  using yearOf_bounds [of d] by (simp add: dayInYear_def monthStart_12)

lemma monthOf_bounds:
  "0 \<le> monthOf d \<and> monthOf d \<le> 11 \<and> monthStart (yearOf d) (monthOf d) \<le> dayInYear d
   \<and> dayInYear d < monthStart (yearOf d) (monthOf d + 1)"
proof -
  define P where "P m \<longleftrightarrow> monthStart (yearOf d) m \<le> dayInYear d" for m
  define n where "n = length (takeWhile P [1..11])"
  have len: "n \<le> 11" using length_takeWhile_le [of P "[1..11]"] by (simp add: n_def)
  have nth: "[1..11] ! i = (1 + int i)" if "i < 11" for i
    using that by (simp add: nth_upto)
  have "P (int n)"
  proof (cases n)
    case 0
    then show ?thesis using dayInYear_bounds [of d] by (simp add: P_def)
  next
    case (Suc i)
    then have "P (takeWhile P [1..11] ! i)" using set_takeWhileD [of "takeWhile P [1..11] ! i" P "[1..11]"]
      by (simp add: n_def)
    then show ?thesis using Suc len takeWhile_nth [of i P "[1..11]"] nth [of i] by (simp add: n_def)
  qed
  moreover have "\<not> P (int n + 1)"
  proof (cases "n = 11")
    case True
    then show ?thesis using dayInYear_bounds [of d] by (simp add: P_def)
  next
    case False
    then have "n < length [1..11]" using len by simp
    then have "\<not> P ([1..11] ! n)" using nth_length_takeWhile [of P "[1..11]"] by (simp add: n_def)
    then show ?thesis using nth [of n] False len by (simp add: add.commute)
  qed
  moreover have "monthOf d = int n" by (simp add: monthOf_def n_def P_def [abs_def])
  ultimately show ?thesis using len by (simp add: P_def)
qed

text \<open>The calendar date of a day gives the day back.\<close>

lemma makeDay_of_day: "makeDay (yearOf d) (monthOf d) (dateOf d) = d"
  using monthOf_bounds [of d] by (simp add: makeDay_def Let_def dateOf_def dayInYear_def zdiv_eq_0_iff)

text \<open>The month of a day, counted from the year 0, is the only one whose days include it.\<close>

definition monthIndex :: "int \<Rightarrow> int" where "monthIndex d = 12 * yearOf d + monthOf d"

lemma monthIndex_bounds: "firstOfMonth (monthIndex d) \<le> d \<and> d < firstOfMonth (monthIndex d + 1)"
proof -
  note b = monthOf_bounds [of d]
  have 1: "firstOfMonth (monthIndex d) = dayFromYear (yearOf d) + monthStart (yearOf d) (monthOf d)"
    using makeDay_month [of "yearOf d" "monthOf d" 1] b by (simp add: monthIndex_def makeDay_def Let_def zdiv_eq_0_iff)
  have 2: "firstOfMonth (monthIndex d + 1) = dayFromYear (yearOf d) + monthStart (yearOf d) (monthOf d + 1)"
  proof (cases "monthOf d = 11")
    case True
    then show ?thesis using makeDay_month [of "yearOf d" 12 1] by (simp add: monthIndex_def makeDay_def Let_def monthStart_12 add.commute)
  next
    case False
    then show ?thesis using makeDay_month [of "yearOf d" "monthOf d + 1" 1] b
      by (simp add: monthIndex_def makeDay_def Let_def zdiv_eq_0_iff ac_simps)
  qed
  show ?thesis using b by (simp add: 1 2 dayInYear_def)
qed

end
