(* ===== verification/BudgetWindow.thy ===== *)
theory BudgetWindow
  imports CivilDates
begin

text \<open>
  The reset windows of budgets and token limits, \<open>getBudgetWindow\<close> of \<open>src/domain/costRules.ts\<close>: daily, weekly
  (from Monday) or monthly (from the first), each at a time of day in UTC.
\<close>

datatype reset_interval = ResetDaily | ResetWeekly | ResetMonthly

record budget_window =
  periodStartAt :: millis
  nextResetAt :: millis

definition normalizeResetInterval :: "json \<Rightarrow> reset_interval" where
  "normalizeResetInterval v =
     (case v of
        JStr s \<Rightarrow> (let normalized = toLowerCase (trim s)
                   in if normalized = ''weekly'' then ResetWeekly
                      else if normalized = ''monthly'' then ResetMonthly else ResetDaily)
      | _ \<Rightarrow> ResetDaily)"

text \<open>\<open>/^(\d{2}):(\d{2})$/\<close> and what it captures.\<close>

definition isDigit :: "char \<Rightarrow> bool" where
  "isDigit c \<longleftrightarrow> digitValue 10 c \<noteq> None"

definition resetTimeMatch :: "string \<Rightarrow> (string \<times> string) option" where
  "resetTimeMatch s =
     (case s of
        [a, b, c, d, e] \<Rightarrow>
          (if isDigit a \<and> isDigit b \<and> c = CHR '':'' \<and> isDigit d \<and> isDigit e then Some ([a, b], [d, e]) else None)
      | _ \<Rightarrow> None)"

definition parseDigits :: "string \<Rightarrow> int" where
  "parseDigits s = nullish (jsParseInt s) 0"

definition padTwo :: "int \<Rightarrow> string" where
  "padTwo n = (let s = decimalDigits (nat n) in replicate (2 - length s) CHR ''0'' @ s)"

definition normalizeResetTime :: "json \<Rightarrow> string" where
  "normalizeResetTime v =
     (case v of
        JStr s \<Rightarrow>
          (case resetTimeMatch (trim s) of
             Some (h, m) \<Rightarrow>
               (let hours = min (max (parseDigits h) 0) 23; minutes = min (max (parseDigits m) 0) 59
                in padTwo hours @ '':'' @ padTwo minutes)
           | None \<Rightarrow> ''00:00'')
      | _ \<Rightarrow> ''00:00'')"

definition getResetTimeParts :: "string \<Rightarrow> int \<times> int" where
  "getResetTimeParts resetTime =
     (case resetTimeMatch resetTime of Some (h, m) \<Rightarrow> (parseDigits h, parseDigits m) | None \<Rightarrow> (0, 0))"

definition getBudgetWindow :: "reset_interval \<Rightarrow> string \<Rightarrow> millis \<Rightarrow> budget_window" where
  "getBudgetWindow resetInterval resetTime now =
     (let (hours, minutes) = getResetTimeParts (normalizeResetTime (JStr resetTime));
          current = dayOf now; year = yearOf current; month = monthOf current; day = dateOf current
      in case resetInterval of
           ResetWeekly \<Rightarrow>
             (let daysSinceMonday = (weekDay current + 6) mod 7;
                  thisWeekReset = dateUTC year month (day - daysSinceMonday) hours minutes
              in if thisWeekReset \<le> now
                 then \<lparr>periodStartAt = thisWeekReset,
                       nextResetAt = dateUTC year month (day - daysSinceMonday + 7) hours minutes\<rparr>
                 else \<lparr>periodStartAt = dateUTC year month (day - daysSinceMonday - 7) hours minutes,
                       nextResetAt = thisWeekReset\<rparr>)
         | ResetMonthly \<Rightarrow>
             (let thisMonthReset = dateUTC year month 1 hours minutes
              in if thisMonthReset \<le> now
                 then \<lparr>periodStartAt = thisMonthReset, nextResetAt = dateUTC year (month + 1) 1 hours minutes\<rparr>
                 else \<lparr>periodStartAt = dateUTC year (month - 1) 1 hours minutes, nextResetAt = thisMonthReset\<rparr>)
         | ResetDaily \<Rightarrow>
             (let todayReset = dateUTC year month day hours minutes
              in if todayReset \<le> now
                 then \<lparr>periodStartAt = todayReset, nextResetAt = dateUTC year month (day + 1) hours minutes\<rparr>
                 else \<lparr>periodStartAt = dateUTC year month (day - 1) hours minutes, nextResetAt = todayReset\<rparr>))"

section \<open>The time of day\<close>

lemma digit_range: "isDigit c \<Longrightarrow> 48 \<le> (of_char c :: nat) \<and> (of_char c :: nat) \<le> 57"
proof -
  assume "isDigit c"
  moreover have "(of_char c :: int) = int (of_char c)" by (rule of_nat_of_char [symmetric])
  ultimately show ?thesis by (auto simp: isDigit_def digitValue_def Let_def split: if_splits)
qed

lemma digit_plain_char: "isDigit c \<Longrightarrow> \<not> isSpace c \<and> c \<noteq> CHR ''-'' \<and> c \<noteq> CHR ''+''"
  using digit_range [of c] by (auto simp: isSpace_def)

lemma two_digits:
  assumes "digitValue 10 a = Some x" and "digitValue 10 b = Some y"
  shows "parseDigits [a, b] = x * 10 + y"
  using assms digit_plain_char [of a] by (simp add: parseDigits_def jsParseInt_def splitSign_def isDigit_def)

lemma padTwo_eq:
  assumes "n < 100"
  shows "padTwo (int n) = [char_of (48 + n div 10 :: nat), char_of (48 + n mod 10 :: nat)]"
proof (cases "n < 10")
  case True
  moreover have "char_of (48 :: nat) = CHR ''0''" by code_simp
  ultimately show ?thesis by (simp add: padTwo_def decimalDigits.simps [of n])
next
  case False
  then have "n div 10 < 10" using assms by linarith
  then show ?thesis using False by (simp add: padTwo_def decimalDigits.simps [of n] decimalDigits.simps [of "n div 10"])
qed

lemma padded:
  assumes "0 \<le> n" and "n \<le> 59"
  obtains a b where "padTwo n = [a, b]" and "isDigit a" and "isDigit b" and "parseDigits [a, b] = n"
proof -
  define k where "k = nat n"
  have k: "n = int k" "k < 100" using assms by (simp_all add: k_def)
  have v: "digitValue 10 (char_of (48 + k div 10 :: nat)) = Some (int (k div 10))"
    "digitValue 10 (char_of (48 + k mod 10 :: nat)) = Some (int (k mod 10))"
    using k(2) by (intro digitValue_digit; linarith)+
  have "int (k div 10) * 10 + int (k mod 10) = n" using mult_div_mod_eq [of 10 k] unfolding k(1) by linarith
  then show thesis using that padTwo_eq [OF k(2)] two_digits [OF v] by (simp add: k(1) v isDigit_def)
qed

text \<open>A normalised time is a time of day, and is its own normal form.\<close>

lemma reset_time_normal:
  obtains h m where "normalizeResetTime v = padTwo h @ CHR '':'' # padTwo m" and "0 \<le> h" "h \<le> 23" "0 \<le> m" "m \<le> 59"
proof -
  have zero: "''00:00'' = padTwo 0 @ CHR '':'' # padTwo 0" by code_simp
  show thesis
  proof (cases "\<exists>s h m. v = JStr s \<and> resetTimeMatch (trim s) = Some (h, m)")
    case True
    then obtain s h m where v: "v = JStr s" "resetTimeMatch (trim s) = Some (h, m)" by blast
    show thesis
      by (rule that [of "min (max (parseDigits h) 0) 23" "min (max (parseDigits m) 0) 59"])
        (simp_all add: v normalizeResetTime_def Let_def)
  next
    case False
    have "normalizeResetTime v = ''00:00''"
    proof (cases v)
      case (JStr s)
      then show ?thesis using False by (cases "resetTimeMatch (trim s)") (auto simp: normalizeResetTime_def)
    qed (simp_all add: normalizeResetTime_def)
    then show thesis using that [of 0 0] zero by simp
  qed
qed

lemma match_padded:
  assumes "0 \<le> h" "h \<le> 59" "0 \<le> m" "m \<le> 59"
  shows "getResetTimeParts (padTwo h @ CHR '':'' # padTwo m) = (h, m)"
    and "trim (padTwo h @ CHR '':'' # padTwo m) = padTwo h @ CHR '':'' # padTwo m"
proof -
  obtain a b where h: "padTwo h = [a, b]" "isDigit a" "isDigit b" "parseDigits [a, b] = h" by (rule padded [OF assms(1,2)])
  obtain d e where m: "padTwo m = [d, e]" "isDigit d" "isDigit e" "parseDigits [d, e] = m" by (rule padded [OF assms(3,4)])
  show "getResetTimeParts (padTwo h @ CHR '':'' # padTwo m) = (h, m)"
    by (simp add: getResetTimeParts_def resetTimeMatch_def h m)
  show "trim (padTwo h @ CHR '':'' # padTwo m) = padTwo h @ CHR '':'' # padTwo m" by (simp add: trim_def h m digit_plain_char)
qed

lemma normalize_normal: "normalizeResetTime (JStr (normalizeResetTime v)) = normalizeResetTime v"
proof -
  obtain h m where n: "normalizeResetTime v = padTwo h @ CHR '':'' # padTwo m" "0 \<le> h" "h \<le> 23" "0 \<le> m" "m \<le> 59"
    by (rule reset_time_normal)
  have t: "trim (padTwo h @ CHR '':'' # padTwo m) = padTwo h @ CHR '':'' # padTwo m" and g: "getResetTimeParts (padTwo h @ CHR '':'' # padTwo m) = (h, m)"
    using n by (simp_all add: match_padded)
  obtain a b where a: "padTwo h = [a, b]" "isDigit a" "isDigit b" "parseDigits [a, b] = h" using n by (auto intro: padded [of h])
  obtain d e where d: "padTwo m = [d, e]" "isDigit d" "isDigit e" "parseDigits [d, e] = m" using n by (auto intro: padded [of m])
  have "resetTimeMatch (padTwo h @ CHR '':'' # padTwo m) = Some (padTwo h, padTwo m)"
    by (simp add: resetTimeMatch_def a d)
  then show ?thesis using n a(4) d(4) by (simp add: n(1) normalizeResetTime_def t a(1) [symmetric] d(1) [symmetric])
qed

definition resetOffset :: "string \<Rightarrow> int" where
  "resetOffset resetTime =
     (let (hours, minutes) = getResetTimeParts (normalizeResetTime (JStr resetTime)) in hours * 3600000 + minutes * 60000)"

lemma resetOffset_bounds: "0 \<le> resetOffset resetTime \<and> resetOffset resetTime < msPerDay"
proof -
  obtain h m where n: "normalizeResetTime (JStr resetTime) = padTwo h @ CHR '':'' # padTwo m" "0 \<le> h" "h \<le> 23" "0 \<le> m" "m \<le> 59"
    by (rule reset_time_normal)
  then have "getResetTimeParts (normalizeResetTime (JStr resetTime)) = (h, m)" by (simp add: match_padded)
  then show ?thesis using n by (simp add: resetOffset_def msPerDay_def)
qed

section \<open>Windows\<close>

text \<open>The reset instants, numbered: days from 1970, Mondays, or firsts of the months from the year 0.\<close>

definition resetInstant :: "reset_interval \<Rightarrow> int \<Rightarrow> int \<Rightarrow> millis" where
  "resetInstant i off k =
     (case i of ResetDaily \<Rightarrow> k | ResetWeekly \<Rightarrow> 7 * k - 3 | ResetMonthly \<Rightarrow> firstOfMonth k) * msPerDay + off"

lemma resetInstant_step: "resetInstant i off k < resetInstant i off (k + 1)"
  using firstOfMonth_Suc [of k] by (cases i) (simp_all add: resetInstant_def msPerDay_def)

lemma resetInstant_mono: "j < k \<Longrightarrow> resetInstant i off j < resetInstant i off k"
proof (induction "nat (k - j)" arbitrary: k)
  case (Suc n)
  show ?case
  proof (cases "k = j + 1")
    case False
    then have "resetInstant i off j < resetInstant i off (k - 1)" using Suc by (intro Suc.hyps) auto
    then show ?thesis using resetInstant_step [of i off "k - 1"] by simp
  qed (use resetInstant_step in simp)
qed simp

lemma resetInstant_unique:
  assumes "resetInstant i off j \<le> t" "t < resetInstant i off (j + 1)"
    and "resetInstant i off k \<le> t" "t < resetInstant i off (k + 1)"
  shows "j = k"
proof (rule ccontr)
  assume "j \<noteq> k"
  then have "resetInstant i off (j + 1) \<le> resetInstant i off k \<or> resetInstant i off (k + 1) \<le> resetInstant i off j"
    using resetInstant_mono [of "j + 1" k i off] resetInstant_mono [of "k + 1" j i off] by (cases "j < k"; cases "j + 1 = k"; cases "k + 1 = j") auto
  then show False using assms by linarith
qed

lemma year_after_epoch:
  assumes "0 \<le> now"
  shows "1970 \<le> yearOf (dayOf now)"
proof (rule ccontr)
  assume "\<not> 1970 \<le> yearOf (dayOf now)"
  then have "dayFromYear (yearOf (dayOf now) + 1) \<le> dayFromYear 1970"
    using dayFromYear_mono [of "yearOf (dayOf now) + 1" 1970] by simp
  moreover have "dayFromYear 1970 = 0" by (simp add: dayFromYear_def)
  moreover have "0 \<le> dayOf now" using assms by (simp add: dayOf_def msPerDay_def)
  ultimately show False using yearOf_bounds [of "dayOf now"] by linarith
qed

lemma dateUTC_eq:
  "99 < y \<Longrightarrow> dateUTC y m date hours minutes = (firstOfMonth (12 * y + m) + date - 1) * msPerDay + (hours * 3600000 + minutes * 60000)"
  by (simp add: dateUTC_def makeDay_month)

lemma day_bounds: "dayOf t * msPerDay \<le> t \<and> t < (dayOf t + 1) * msPerDay"
  using div_bounds [of msPerDay t] by (simp add: dayOf_def msPerDay_def)

text \<open>A window lies between two consecutive reset instants around the current time.\<close>

lemma window_between:
  assumes "0 \<le> now"
  shows "\<exists>k. getBudgetWindow i resetTime now =
      \<lparr>periodStartAt = resetInstant i (resetOffset resetTime) k, nextResetAt = resetInstant i (resetOffset resetTime) (k + 1)\<rparr>
    \<and> resetInstant i (resetOffset resetTime) k \<le> now \<and> now < resetInstant i (resetOffset resetTime) (k + 1)"
proof -
  obtain hours minutes where hm: "getResetTimeParts (normalizeResetTime (JStr resetTime)) = (hours, minutes)"
    by (cases "getResetTimeParts (normalizeResetTime (JStr resetTime))")
  define off where "off = resetOffset resetTime"
  have off: "hours * 3600000 + minutes * 60000 = off" "0 \<le> off" "off < msPerDay"
    using resetOffset_bounds [of resetTime] by (simp_all add: off_def resetOffset_def hm)
  define d where "d = dayOf now"
  have d: "d * msPerDay \<le> now" "now < (d + 1) * msPerDay" using day_bounds [of now] by (simp_all add: d_def)
  have y: "99 < yearOf d" using year_after_epoch [OF assms] by (simp add: d_def)
  have date: "firstOfMonth (12 * yearOf d + monthOf d) + dateOf d - 1 = d"
    using makeDay_of_day [of d] by (simp add: makeDay_month)
  have at: "dateUTC (yearOf d) (monthOf d) (dateOf d + n) hours minutes = (d + n) * msPerDay + off" for n
    using y off(1) date by (simp add: dateUTC_eq)
  let ?at = "resetInstant i off"
  have pick: ?thesis
    if "getBudgetWindow i resetTime now =
        (if ?at k \<le> now then \<lparr>periodStartAt = ?at k, nextResetAt = ?at (k + 1)\<rparr>
         else \<lparr>periodStartAt = ?at (k - 1), nextResetAt = ?at k\<rparr>)" and "?at (k - 1) \<le> now" and "now < ?at (k + 1)" for k
    by (rule exI [of _ "if ?at k \<le> now then k else k - 1"]) (use that in \<open>simp add: off_def\<close>)
  note window = getBudgetWindow_def hm d_def [symmetric] resetInstant_def
  show ?thesis
  proof (cases i)
    case ResetDaily
    show ?thesis
      by (rule pick [of d]) (use at [of 0] at [of 1] at [of "-1"] d off(2,3) in \<open>simp_all add: window ResetDaily msPerDay_def\<close>)
  next
    case ResetWeekly
    define w where "w = (weekDay d + 6) mod 7"
    have "\<exists>k. d - (((d + 4) mod 7 + 6) mod 7) = 7 * k - 3" by presburger
    then obtain k where k: "d - w = 7 * k - 3" by (auto simp: w_def weekDay_def)
    have w: "0 \<le> w" "w \<le> 6" by (simp_all add: w_def)
    have r: "d = 7 * k - 3 + w" using k by simp
    have shift: "dateUTC (yearOf d) (monthOf d) (dateOf d - w + n) hours minutes = (d - w + n) * msPerDay + off" for n
      using at [of "- w + n"] by (simp only: add_uminus_conv_diff add_diff_eq diff_add_eq add.assoc [symmetric])
    have m: "dateUTC (yearOf d) (monthOf d) (dateOf d - w) hours minutes = ?at k"
      "dateUTC (yearOf d) (monthOf d) (dateOf d - w + 7) hours minutes = ?at (k + 1)"
      "dateUTC (yearOf d) (monthOf d) (dateOf d - w - 7) hours minutes = ?at (k - 1)"
      using shift [of 0] shift [of 7] shift [of "-7"] k by (simp_all add: resetInstant_def ResetWeekly)
    show ?thesis
    proof (rule pick [of k])
      show "getBudgetWindow i resetTime now =
        (if ?at k \<le> now then \<lparr>periodStartAt = ?at k, nextResetAt = ?at (k + 1)\<rparr>
         else \<lparr>periodStartAt = ?at (k - 1), nextResetAt = ?at k\<rparr>)"
        by (simp add: getBudgetWindow_def hm d_def [symmetric] ResetWeekly w_def [symmetric] m [unfolded ResetWeekly])
      show "?at (k - 1) \<le> now" "now < ?at (k + 1)"
        using d off(2,3) w r by (simp_all add: resetInstant_def ResetWeekly msPerDay_def)
    qed
  next
    case ResetMonthly
    define k where "k = monthIndex d"
    have k: "firstOfMonth k \<le> d" "d < firstOfMonth (k + 1)" "firstOfMonth (k - 1) + 28 \<le> firstOfMonth k"
      using monthIndex_bounds [of d] firstOfMonth_Suc [of "k - 1"] by (simp_all add: k_def)
    have m: "dateUTC (yearOf d) (monthOf d) 1 hours minutes = ?at k"
      "dateUTC (yearOf d) (monthOf d + 1) 1 hours minutes = ?at (k + 1)"
      "dateUTC (yearOf d) (monthOf d - 1) 1 hours minutes = ?at (k - 1)"
      using y off(1) by (simp_all add: dateUTC_eq k_def monthIndex_def resetInstant_def ResetMonthly algebra_simps)
    show ?thesis
    proof (rule pick [of k])
      show "getBudgetWindow i resetTime now =
        (if ?at k \<le> now then \<lparr>periodStartAt = ?at k, nextResetAt = ?at (k + 1)\<rparr>
         else \<lparr>periodStartAt = ?at (k - 1), nextResetAt = ?at k\<rparr>)"
        by (simp add: getBudgetWindow_def hm d_def [symmetric] ResetMonthly m [unfolded ResetMonthly])
      show "?at (k - 1) \<le> now" "now < ?at (k + 1)"
        using d off(2,3) k by (simp_all add: resetInstant_def ResetMonthly msPerDay_def)
    qed
  qed
qed

lemma start_in_calendar:
  "timeOfDay (resetInstant i (resetOffset resetTime) k) = resetOffset resetTime"
  "dayOf (resetInstant i (resetOffset resetTime) k)
    = (case i of ResetDaily \<Rightarrow> k | ResetWeekly \<Rightarrow> 7 * k - 3 | ResetMonthly \<Rightarrow> firstOfMonth k)"
  using resetOffset_bounds [of resetTime]
  by (simp_all add: timeOfDay_def dayOf_def resetInstant_def msPerDay_def mod_pos_pos_trivial)

lemma date_of_first: "dateOf (firstOfMonth k) = 1"
proof -
  define d where "d = firstOfMonth k"
  have "resetInstant ResetMonthly 0 (monthIndex d) \<le> d * msPerDay" "d * msPerDay < resetInstant ResetMonthly 0 (monthIndex d + 1)"
    "resetInstant ResetMonthly 0 k \<le> d * msPerDay" "d * msPerDay < resetInstant ResetMonthly 0 (k + 1)"
    using monthIndex_bounds [of d] firstOfMonth_Suc [of k] by (simp_all add: resetInstant_def msPerDay_def d_def)
  then have "monthIndex d = k" by (rule resetInstant_unique)
  then show ?thesis using makeDay_of_day [of d] by (simp add: makeDay_month monthIndex_def d_def)
qed

text \<open>
  C15. Reset windows tile time: the window of an instant contains it, is the window of every other instant inside,
  and the next window begins where it ends; it begins at the configured time of day, a weekly one on a Monday, a
  monthly one on the first of a month. So no spend falls between two windows or into two of them.
\<close>

theorem budget_windows_tile:
  assumes "0 \<le> now"
  shows "let w = getBudgetWindow i resetTime now in
     periodStartAt w \<le> now \<and> now < nextResetAt w
     \<and> (\<forall>t. 0 \<le> t \<and> periodStartAt w \<le> t \<and> t < nextResetAt w \<longrightarrow> getBudgetWindow i resetTime t = w)
     \<and> periodStartAt (getBudgetWindow i resetTime (nextResetAt w)) = nextResetAt w
     \<and> timeOfDay (periodStartAt w) = resetOffset resetTime
     \<and> (i = ResetWeekly \<longrightarrow> weekDay (dayOf (periodStartAt w)) = 1)
     \<and> (i = ResetMonthly \<longrightarrow> dateOf (dayOf (periodStartAt w)) = 1)"
proof -
  define off where "off = resetOffset resetTime"
  obtain k where k: "getBudgetWindow i resetTime now = \<lparr>periodStartAt = resetInstant i off k, nextResetAt = resetInstant i off (k + 1)\<rparr>"
    "resetInstant i off k \<le> now" "now < resetInstant i off (k + 1)"
    using window_between [OF assms] unfolding off_def by blast
  have other: "getBudgetWindow i resetTime t = \<lparr>periodStartAt = resetInstant i off j, nextResetAt = resetInstant i off (j + 1)\<rparr>"
    if "0 \<le> t" "resetInstant i off j \<le> t" "t < resetInstant i off (j + 1)" for t j
    using window_between [OF that(1), of i resetTime] resetInstant_unique [OF _ _ that(2,3)] unfolding off_def by blast
  have n: "periodStartAt (getBudgetWindow i resetTime (resetInstant i off (k + 1))) = resetInstant i off (k + 1)"
    using other [of "resetInstant i off (k + 1)" "k + 1"] k(3) assms resetInstant_step [of i off "k + 1"] by simp
  have "weekDay (7 * k - 3) = 1" by (simp add: weekDay_def)
  then have cal: "timeOfDay (resetInstant i off k) = resetOffset resetTime"
    "i = ResetWeekly \<longrightarrow> weekDay (dayOf (resetInstant i off k)) = 1" "i = ResetMonthly \<longrightarrow> dateOf (dayOf (resetInstant i off k)) = 1"
    using start_in_calendar [of i resetTime k] date_of_first [of k] by (cases i; simp add: off_def)+
  show ?thesis using k(2,3) other [of _ k] n cal by (simp only: k(1) Let_def budget_window.simps) blast
qed

lemma october_window:
  "getBudgetWindow ResetMonthly ''9:30'' 1760000000000 = \<lparr>periodStartAt = 1759276800000, nextResetAt = 1761955200000\<rparr>"
  "getBudgetWindow ResetWeekly '' 09:30 '' 1760000000000 = \<lparr>periodStartAt = 1759743000000, nextResetAt = 1760347800000\<rparr>"
  by code_simp+

theorem budget_windows_tile_witness:
  "getBudgetWindow ResetMonthly ''9:30'' 1761955199999 = getBudgetWindow ResetMonthly ''9:30'' 1760000000000
   \<and> periodStartAt (getBudgetWindow ResetWeekly '' 09:30 '' 1760347800000) = 1760347800000"
  using budget_windows_tile [of 1760000000000 ResetMonthly "''9:30''"] budget_windows_tile [of 1760000000000 ResetWeekly "'' 09:30 ''"]
  by (simp add: Let_def october_window)

end
