(* ===== verification/SpendWriter.thy ===== *)
theory SpendWriter
  imports Prelude Complex_Main
begin

text \<open>
  The batch writer of spend, \<open>src/lib/spend/batchWriter.ts\<close>, and the cost rows of \<open>src/lib/db/domainState.ts\<close>:
  costs are buffered and written in batches; a batch that is being written counts as pending; a batch that
  fails goes back into the buffer. The write is one transaction on the connection that the sums are read from, with an await
  for every row, so its rows are inserted one by one before the end of the flush. No other transaction overlaps it.
  Costs are rational numbers instead of floating-point ones.
\<close>

section \<open>State\<close>

record cost_entry =
  ce_apiKeyId :: string
  ce_cost :: rat
  ce_timestamp :: millis

record flush_result =
  fr_flushedEntries :: nat
  fr_uniqueKeys :: nat
  fr_requeued :: bool

text \<open>A flush waits for the write of its entries or has settled.\<close>

datatype flush_promise = FlushWriting "cost_entry list" | FlushSettled flush_result

record spend_writer =
  sw_buffer :: "cost_entry list"
  sw_inFlightEntries :: "cost_entry list"
  sw_discardedApiKeyIds :: "string list"
  sw_started :: bool
  sw_flushPromise :: "flush_promise option"
  sw_maxBufferSize :: nat

definition newSpendWriter :: "nat \<Rightarrow> spend_writer" where
  "newSpendWriter n =
     \<lparr>sw_buffer = [], sw_inFlightEntries = [], sw_discardedApiKeyIds = [], sw_started = False, sw_flushPromise = None,
      sw_maxBufferSize = n\<rparr>"

definition DEFAULT_MAX_BUFFER_SIZE :: nat where "DEFAULT_MAX_BUFFER_SIZE = 1000"

definition getMaxBufferSize :: "int option \<Rightarrow> nat" where
  "getMaxBufferSize parsed = (case parsed of Some n \<Rightarrow> if 0 < n then nat n else DEFAULT_MAX_BUFFER_SIZE | None \<Rightarrow> DEFAULT_MAX_BUFFER_SIZE)"

section \<open>Operations\<close>

text \<open>A cost that is not finite is \<open>None\<close>.\<close>

definition normalizeEntry :: "string \<Rightarrow> rat option \<Rightarrow> millis \<Rightarrow> cost_entry option" where
  "normalizeEntry apiKeyId cost timestamp =
     (case cost of
        None \<Rightarrow> None
      | Some c \<Rightarrow> if apiKeyId = [] \<or> c \<le> 0 then None
                  else Some \<lparr>ce_apiKeyId = apiKeyId, ce_cost = c, ce_timestamp = timestamp\<rparr>)"

definition startWriter :: "spend_writer \<Rightarrow> spend_writer" where
  "startWriter w = w\<lparr>sw_started := True\<rparr>"

definition flushSettled :: "cost_entry list \<Rightarrow> bool \<Rightarrow> flush_result" where
  "flushSettled entries requeued =
     \<lparr>fr_flushedEntries = (if requeued then 0 else length entries),
      fr_uniqueKeys = length (remdups (map ce_apiKeyId entries)), fr_requeued = requeued\<rparr>"

text \<open>
  \<open>flush\<close> up to the write. When nothing is left to write, the body of the flush ends before its promise is
  assigned, so the assignment puts the settled promise over the reset of its own \<open>finally\<close>.
\<close>

definition flushWriter :: "spend_writer \<Rightarrow> flush_promise \<times> spend_writer" where
  "flushWriter w =
     (case sw_flushPromise w of
        Some p \<Rightarrow> (p, w)
      | None \<Rightarrow>
        (if sw_buffer w = [] then (FlushSettled (flushSettled [] False), w)
         else (let entriesToFlush = sw_buffer w;
                   entriesToPersist = filter (\<lambda>e. ce_apiKeyId e \<notin> set (sw_discardedApiKeyIds w)) entriesToFlush;
                   w1 = w\<lparr>sw_buffer := [], sw_inFlightEntries := entriesToFlush\<rparr>;
                   p = (if entriesToPersist = [] then FlushSettled (flushSettled [] False) else FlushWriting entriesToPersist);
                   w2 = (if entriesToPersist = [] then w1\<lparr>sw_inFlightEntries := [], sw_flushPromise := None\<rparr> else w1)
               in (p, w2\<lparr>sw_flushPromise := Some p\<rparr>))))"

text \<open>The entries that the running write inserts, and the writer after its end, the \<open>catch\<close> and the \<open>finally\<close> of the flush.\<close>

definition runningBatch :: "spend_writer \<Rightarrow> cost_entry list" where
  "runningBatch w = (case sw_flushPromise w of Some (FlushWriting entries) \<Rightarrow> entries | _ \<Rightarrow> [])"

definition isWriting :: "spend_writer \<Rightarrow> bool" where
  "isWriting w \<longleftrightarrow> (case sw_flushPromise w of Some (FlushWriting entries) \<Rightarrow> True | _ \<Rightarrow> False)"

definition finishFlush :: "bool \<Rightarrow> spend_writer \<Rightarrow> spend_writer" where
  "finishFlush written w =
     (case sw_flushPromise w of
        Some (FlushWriting entries) \<Rightarrow>
          (if written then w\<lparr>sw_inFlightEntries := [], sw_flushPromise := None\<rparr>
           else w\<lparr>sw_buffer := entries @ sw_buffer w, sw_inFlightEntries := [], sw_flushPromise := None\<rparr>)
      | _ \<Rightarrow> w)"

definition incrementSpend :: "string \<Rightarrow> rat option \<Rightarrow> millis \<Rightarrow> spend_writer \<Rightarrow> spend_writer" where
  "incrementSpend apiKeyId cost timestamp w =
     (case normalizeEntry apiKeyId cost timestamp of
        None \<Rightarrow> w
      | Some entry \<Rightarrow>
        (let w1 = (startWriter w)\<lparr>sw_discardedApiKeyIds := removeAll (ce_apiKeyId entry) (sw_discardedApiKeyIds w),
                                  sw_buffer := sw_buffer w @ [entry]\<rparr>
         in if sw_maxBufferSize w1 \<le> length (sw_buffer w1) then snd (flushWriter w1) else w1))"

text \<open>An upper bound that is not given is infinity.\<close>

definition getBufferedEntries :: "string \<Rightarrow> millis \<Rightarrow> millis option \<Rightarrow> spend_writer \<Rightarrow> cost_entry list" where
  "getBufferedEntries apiKeyId sinceTimestamp untilTimestamp w =
     filter (\<lambda>e. ce_apiKeyId e = apiKeyId \<and> sinceTimestamp \<le> ce_timestamp e
                 \<and> (case untilTimestamp of None \<Rightarrow> True | Some u \<Rightarrow> ce_timestamp e < u))
       (sw_inFlightEntries w @ sw_buffer w)"

definition sumEntries :: "cost_entry list \<Rightarrow> rat" where
  "sumEntries entries = sum_list (map ce_cost entries)"

definition getPendingCostTotal :: "string \<Rightarrow> millis \<Rightarrow> millis option \<Rightarrow> spend_writer \<Rightarrow> rat" where
  "getPendingCostTotal apiKeyId sinceTimestamp untilTimestamp w =
     sumEntries (getBufferedEntries apiKeyId sinceTimestamp untilTimestamp w)"

definition discardEntries :: "string \<Rightarrow> spend_writer \<Rightarrow> spend_writer" where
  "discardEntries apiKeyId w =
     w\<lparr>sw_discardedApiKeyIds := List.insert apiKeyId (sw_discardedApiKeyIds w),
       sw_buffer := filter (\<lambda>e. ce_apiKeyId e \<noteq> apiKeyId) (sw_buffer w),
       sw_inFlightEntries := filter (\<lambda>e. ce_apiKeyId e \<noteq> apiKeyId) (sw_inFlightEntries w)\<rparr>"

definition stopWriter :: "spend_writer \<Rightarrow> flush_promise \<times> spend_writer" where
  "stopWriter w = flushWriter (w\<lparr>sw_started := False\<rparr>)"

section \<open>With the rows of the database\<close>

text \<open>
  The rows that the connection sees, those of an open transaction included; how many rows of the running write are among
  them, and the rows that were there when its transaction began; and whether a sum of the rows can be read, which fails on
  PostgreSQL, where the synchronous handle has no cost table.
\<close>

record spend =
  sp_writer :: spend_writer
  sp_rows :: "cost_entry list"
  sp_inserted :: nat
  sp_begin :: "cost_entry list"
  sp_readable :: bool

text \<open>A sum that cannot be read is 0.\<close>

definition loadCostTotal :: "string \<Rightarrow> millis \<Rightarrow> spend \<Rightarrow> rat" where
  "loadCostTotal apiKeyId sinceTimestamp s =
     (if sp_readable s
      then sumEntries (filter (\<lambda>e. ce_apiKeyId e = apiKeyId \<and> sinceTimestamp \<le> ce_timestamp e) (sp_rows s))
      else 0)"

definition loadCostEntriesInRange :: "string \<Rightarrow> millis \<Rightarrow> millis \<Rightarrow> spend \<Rightarrow> cost_entry list" where
  "loadCostEntriesInRange apiKeyId sinceTimestamp untilTimestamp s =
     filter (\<lambda>e. ce_apiKeyId e = apiKeyId \<and> sinceTimestamp \<le> ce_timestamp e \<and> ce_timestamp e < untilTimestamp) (sp_rows s)"

definition deleteCostEntries :: "string \<Rightarrow> spend \<Rightarrow> spend" where
  "deleteCostEntries apiKeyId s = s\<lparr>sp_rows := filter (\<lambda>e. ce_apiKeyId e \<noteq> apiKeyId) (sp_rows s)\<rparr>"

text \<open>\<open>loadCostTotal\<close> catches its own failure, so the \<open>catch\<close> of the sum, which answers 0 as well, is not reached.\<close>

definition getBudgetWindowTotal :: "string \<Rightarrow> millis \<Rightarrow> spend \<Rightarrow> rat" where
  "getBudgetWindowTotal apiKeyId periodStart s =
     loadCostTotal apiKeyId periodStart s + getPendingCostTotal apiKeyId periodStart None (sp_writer s)"

text \<open>\<open>batchSaveCostEntries\<close>: the next row, before which the transaction begins when it is the first; the commit, or the rollback.\<close>

definition insertNextRow :: "spend \<Rightarrow> spend" where
  "insertNextRow s =
     (if sp_inserted s < length (runningBatch (sp_writer s))
      then s\<lparr>sp_rows := sp_rows s @ [runningBatch (sp_writer s) ! sp_inserted s],
             sp_begin := (if sp_inserted s = 0 then sp_rows s else sp_begin s), sp_inserted := Suc (sp_inserted s)\<rparr>
      else s)"

definition endWrite :: "bool \<Rightarrow> spend \<Rightarrow> spend" where
  "endWrite written s =
     (if \<not> isWriting (sp_writer s) \<or> (written \<and> sp_inserted s < length (runningBatch (sp_writer s))) then s
      else s\<lparr>sp_writer := finishFlush written (sp_writer s), sp_inserted := 0, sp_begin := [],
             sp_rows := (if \<not> written \<and> 0 < sp_inserted s then sp_begin s else sp_rows s)\<rparr>)"

datatype spend_op =
    SpendRecord string "rat option" millis
  | SpendFlush
  | SpendRow
  | SpendWritten bool
  | SpendDiscard string
  | SpendDeleteRows string
  | SpendStart
  | SpendStop
  | SpendReadable bool

fun spendOp :: "spend_op \<Rightarrow> spend \<Rightarrow> spend" where
  "spendOp (SpendRecord k cost t) s = s\<lparr>sp_writer := incrementSpend k cost t (sp_writer s)\<rparr>"
| "spendOp SpendFlush s = s\<lparr>sp_writer := snd (flushWriter (sp_writer s))\<rparr>"
| "spendOp SpendRow s = insertNextRow s"
| "spendOp (SpendWritten ok) s = endWrite ok s"
| "spendOp (SpendDiscard k) s = s\<lparr>sp_writer := discardEntries k (sp_writer s)\<rparr>"
| "spendOp (SpendDeleteRows k) s = deleteCostEntries k s"
| "spendOp SpendStart s = s\<lparr>sp_writer := startWriter (sp_writer s)\<rparr>"
| "spendOp SpendStop s = s\<lparr>sp_writer := snd (stopWriter (sp_writer s))\<rparr>"
| "spendOp (SpendReadable ok) s = s\<lparr>sp_readable := ok\<rparr>"

definition emptySpend :: "nat \<Rightarrow> spend" where
  "emptySpend n = \<lparr>sp_writer = newSpendWriter n, sp_rows = [], sp_inserted = 0, sp_begin = [], sp_readable = True\<rparr>"

text \<open>The rows of the running write that are inserted already; they are in flight as well.\<close>

definition insertedRows :: "spend \<Rightarrow> cost_entry list" where
  "insertedRows s = take (sp_inserted s) (runningBatch (sp_writer s))"

section \<open>No cost is lost\<close>

text \<open>What a run records for a key, and the operations that take the records of a key away.\<close>

fun recordedFor :: "string \<Rightarrow> spend_op \<Rightarrow> cost_entry list" where
  "recordedFor k (SpendRecord k' cost t) =
     (if k' = k then (case normalizeEntry k' cost t of Some e \<Rightarrow> [e] | None \<Rightarrow> []) else [])"
| "recordedFor k _ = []"

fun dropsKey :: "string \<Rightarrow> spend_op \<Rightarrow> bool" where
  "dropsKey k (SpendDiscard k') \<longleftrightarrow> k' = k"
| "dropsKey k (SpendDeleteRows k') \<longleftrightarrow> k' = k"
| "dropsKey k _ \<longleftrightarrow> False"

lemma recorded_key: "e \<in> set (recordedFor k op) \<Longrightarrow> ce_apiKeyId e = k"
proof (cases op)
  case (SpendRecord k' cost t)
  assume "e \<in> set (recordedFor k op)"
  then show ?thesis using SpendRecord
    by (cases "k' = k"; cases cost) (auto simp: normalizeEntry_def split: if_splits)
qed simp_all

definition costIf :: "(cost_entry \<Rightarrow> bool) \<Rightarrow> cost_entry list \<Rightarrow> rat" where
  "costIf P entries = sumEntries (filter P entries)"

lemma costIf_simps [simp]:
  "costIf P [] = 0" "costIf P (e # es) = (if P e then ce_cost e else 0) + costIf P es"
  "costIf P (es @ fs) = costIf P es + costIf P fs"
  by (simp_all add: costIf_def sumEntries_def)

lemma costIf_filter: "(\<And>e. e \<in> set es \<Longrightarrow> P e \<Longrightarrow> Q e) \<Longrightarrow> costIf P (filter Q es) = costIf P es"
  by (induction es) auto

lemma costIf_none: "(\<And>e. e \<in> set es \<Longrightarrow> \<not> P e) \<Longrightarrow> costIf P es = 0"
  by (induction es) auto

text \<open>The costs of the rows without those that are in flight as well, of what is in flight, and of the buffer.\<close>

definition spendIf :: "(cost_entry \<Rightarrow> bool) \<Rightarrow> spend \<Rightarrow> rat" where
  "spendIf P s = costIf P (sp_rows s) - costIf P (insertedRows s)
     + costIf P (sw_inFlightEntries (sp_writer s)) + costIf P (sw_buffer (sp_writer s))"

text \<open>The key is not discarded, and what is in flight for it is what the flush writes.\<close>

definition keptKey :: "string \<Rightarrow> (cost_entry \<Rightarrow> bool) \<Rightarrow> spend_writer \<Rightarrow> bool" where
  "keptKey k P w \<longleftrightarrow> k \<notin> set (sw_discardedApiKeyIds w)
     \<and> (if isWriting w then costIf P (runningBatch w) = costIf P (sw_inFlightEntries w) else sw_inFlightEntries w = [])"

text \<open>What is inserted comes on top of the rows from before, as far as the key is concerned.\<close>

definition writeInv :: "string \<Rightarrow> (cost_entry \<Rightarrow> bool) \<Rightarrow> spend \<Rightarrow> bool" where
  "writeInv k P s \<longleftrightarrow> keptKey k P (sp_writer s) \<and> sp_inserted s \<le> length (runningBatch (sp_writer s))
     \<and> (0 < sp_inserted s \<longrightarrow> costIf P (sp_rows s) = costIf P (sp_begin s) + costIf P (insertedRows s))"

text \<open>Operations on the writer that leave a running write alone.\<close>

lemma flush_keeps:
  assumes "keptKey k P w" and "\<And>e. P e \<Longrightarrow> ce_apiKeyId e = k"
  shows "keptKey k P (snd (flushWriter w))
    \<and> costIf P (sw_inFlightEntries (snd (flushWriter w))) + costIf P (sw_buffer (snd (flushWriter w)))
      = costIf P (sw_inFlightEntries w) + costIf P (sw_buffer w)
    \<and> (isWriting w \<longrightarrow> snd (flushWriter w) = w)"
proof (cases "sw_flushPromise w")
  case None
  define es where "es = filter (\<lambda>e. ce_apiKeyId e \<notin> set (sw_discardedApiKeyIds w)) (sw_buffer w)"
  have "costIf P es = costIf P (sw_buffer w)" unfolding es_def using assms by (intro costIf_filter) (auto simp: keptKey_def)
  then show ?thesis using assms(1) None
    by (auto simp: flushWriter_def es_def [symmetric] keptKey_def isWriting_def runningBatch_def Let_def)
next
  case (Some p)
  then show ?thesis using assms(1) by (simp add: flushWriter_def)
qed

lemma write_inv_writer:
  assumes "writeInv k P s" and "keptKey k P w" and "isWriting (sp_writer s) \<Longrightarrow> runningBatch w = runningBatch (sp_writer s)"
  shows "writeInv k P (s\<lparr>sp_writer := w\<rparr>) \<and> insertedRows (s\<lparr>sp_writer := w\<rparr>) = insertedRows s"
proof (cases "isWriting (sp_writer s)")
  case True
  then show ?thesis using assms by (simp add: writeInv_def insertedRows_def)
next
  case False
  then have "runningBatch (sp_writer s) = []" by (auto simp: isWriting_def runningBatch_def split: option.splits flush_promise.splits)
  then show ?thesis using assms(1,2) by (simp add: writeInv_def insertedRows_def)
qed

lemma spend_step:
  assumes inv: "writeInv k P s" and P: "\<And>e. P e \<Longrightarrow> ce_apiKeyId e = k" and "\<not> dropsKey k op"
  shows "writeInv k P (spendOp op s) \<and> spendIf P (spendOp op s) = spendIf P s + costIf P (recordedFor k op)"
proof -
  have kept: "keptKey k P (sp_writer s)" using inv by (simp add: writeInv_def)
  have other: "costIf P (filter (\<lambda>e. ce_apiKeyId e \<noteq> k') es) = costIf P es" if "k' \<noteq> k" for k' es
    by (intro costIf_filter) (use P that in auto)
  have flush: "writeInv k P (s\<lparr>sp_writer := snd (flushWriter w)\<rparr>) \<and> insertedRows (s\<lparr>sp_writer := snd (flushWriter w)\<rparr>) = insertedRows s"
    if w: "keptKey k P w" "isWriting w = isWriting (sp_writer s)" "runningBatch w = runningBatch (sp_writer s)" for w
    by (rule write_inv_writer [OF inv]) (use flush_keeps [OF w(1) P] w in auto)
  show ?thesis
  proof (cases op)
    case (SpendRecord k' cost t)
    show ?thesis
    proof (cases "normalizeEntry k' cost t")
      case None
      then show ?thesis using inv SpendRecord by (auto simp: incrementSpend_def)
    next
      case (Some e)
      have e: "ce_apiKeyId e = k'" using Some by (auto simp: normalizeEntry_def split: option.splits if_splits)
      define w where "w = (startWriter (sp_writer s))\<lparr>sw_discardedApiKeyIds := removeAll k' (sw_discardedApiKeyIds (sp_writer s)),
          sw_buffer := sw_buffer (sp_writer s) @ [e]\<rparr>"
      have same: "isWriting w = isWriting (sp_writer s)" "runningBatch w = runningBatch (sp_writer s)"
        by (simp_all add: w_def isWriting_def runningBatch_def startWriter_def)
      have w: "keptKey k P w" "sw_inFlightEntries w = sw_inFlightEntries (sp_writer s)" "sw_buffer w = sw_buffer (sp_writer s) @ [e]"
        using kept same by (auto simp: w_def keptKey_def startWriter_def)
      have rec: "costIf P (recordedFor k op) = costIf P [e]" using P [of e] e Some SpendRecord by auto
      have inv': "writeInv k P (s\<lparr>sp_writer := w\<rparr>) \<and> insertedRows (s\<lparr>sp_writer := w\<rparr>) = insertedRows s"
        by (rule write_inv_writer [OF inv w(1)]) (simp add: same)
      show ?thesis using flush [OF w(1) same] flush_keeps [OF w(1) P] inv' w rec e Some SpendRecord
        by (simp add: incrementSpend_def w_def [symmetric] spendIf_def Let_def)
    qed
  next
    case SpendFlush
    then show ?thesis using flush [OF kept] flush_keeps [OF kept P] by (simp add: spendIf_def)
  next
    case SpendRow
    define es where "es = runningBatch (sp_writer s)"
    show ?thesis
    proof (cases "sp_inserted s < length es")
      case True
      have cost: "costIf P (take (Suc (sp_inserted s)) es) = costIf P (take (sp_inserted s) es)
          + (if P (es ! sp_inserted s) then ce_cost (es ! sp_inserted s) else 0)"
        unfolding take_Suc_conv_app_nth [OF True] by simp
      show ?thesis using SpendRow True Suc_leI [OF True] inv cost
        by (cases "sp_inserted s = 0") (auto simp: insertNextRow_def writeInv_def insertedRows_def spendIf_def es_def [symmetric])
    next
      case False
      then show ?thesis using SpendRow inv by (simp add: insertNextRow_def es_def [symmetric])
    qed
  next
    case (SpendWritten ok)
    show ?thesis
    proof (cases "\<not> isWriting (sp_writer s) \<or> (ok \<and> sp_inserted s < length (runningBatch (sp_writer s)))")
      case True
      then show ?thesis using SpendWritten inv by (simp only: spendOp.simps endWrite_def if_True recordedFor.simps) simp
    next
      case False
      then obtain entries where p: "sw_flushPromise (sp_writer s) = Some (FlushWriting entries)"
        by (auto simp: isWriting_def split: option.splits flush_promise.splits)
      then have es: "runningBatch (sp_writer s) = entries" "isWriting (sp_writer s)" by (simp_all add: runningBatch_def isWriting_def)
      have fly: "costIf P (sw_inFlightEntries (sp_writer s)) = costIf P entries" using kept es by (simp add: keptKey_def)
      have after: "keptKey k P (finishFlush ok (sp_writer s))" "runningBatch (finishFlush ok (sp_writer s)) = []"
        using kept p by (auto simp: finishFlush_def keptKey_def isWriting_def runningBatch_def)
      have run: "spendOp op s = s\<lparr>sp_writer := finishFlush ok (sp_writer s), sp_inserted := 0, sp_begin := [],
             sp_rows := (if \<not> ok \<and> 0 < sp_inserted s then sp_begin s else sp_rows s)\<rparr>"
        using False unfolding SpendWritten spendOp.simps endWrite_def by (simp only: if_False)
      have all: "sp_inserted s = length entries" if ok using False that inv es by (simp add: writeInv_def)
      have before: "costIf P (sp_rows s) = costIf P (sp_begin s) + costIf P (insertedRows s)" if "0 < sp_inserted s"
        using inv that by (simp add: writeInv_def)
      have none: "insertedRows s = []" if "sp_inserted s = 0" using that by (simp add: insertedRows_def)
      have "spendIf P (spendOp op s) = spendIf P s"
        using p fly all before none es unfolding run
        by (cases ok; cases "sp_inserted s = 0") (auto simp: spendIf_def insertedRows_def finishFlush_def runningBatch_def)
      moreover have "writeInv k P (spendOp op s)" unfolding run using after by (simp add: writeInv_def)
      ultimately show ?thesis using SpendWritten by simp
    qed
  next
    case (SpendDiscard k')
    then have k': "k' \<noteq> k" using assms(3) by simp
    have same: "isWriting (discardEntries k' (sp_writer s)) = isWriting (sp_writer s)"
      "runningBatch (discardEntries k' (sp_writer s)) = runningBatch (sp_writer s)"
      by (simp_all add: discardEntries_def isWriting_def runningBatch_def)
    have "keptKey k P (discardEntries k' (sp_writer s))" using kept k' same
      by (auto simp: keptKey_def discardEntries_def other)
    from write_inv_writer [OF inv this] show ?thesis using SpendDiscard k' same
      by (simp add: spendIf_def) (simp add: discardEntries_def other)
  next
    case (SpendDeleteRows k')
    then show ?thesis using inv assms(3) by (auto simp: deleteCostEntries_def spendIf_def writeInv_def insertedRows_def other)
  next
    case SpendStart
    have same: "isWriting (startWriter (sp_writer s)) = isWriting (sp_writer s)"
      "runningBatch (startWriter (sp_writer s)) = runningBatch (sp_writer s)"
      by (simp_all add: startWriter_def isWriting_def runningBatch_def)
    have "keptKey k P (startWriter (sp_writer s))" using kept same by (simp add: keptKey_def) (simp add: startWriter_def)
    from write_inv_writer [OF inv this] show ?thesis using SpendStart
      by (simp add: spendIf_def) (simp add: startWriter_def runningBatch_def)
  next
    case SpendStop
    have same: "isWriting (sp_writer s\<lparr>sw_started := False\<rparr>) = isWriting (sp_writer s)"
      "runningBatch (sp_writer s\<lparr>sw_started := False\<rparr>) = runningBatch (sp_writer s)" by (simp_all add: isWriting_def runningBatch_def)
    have "keptKey k P (sp_writer s\<lparr>sw_started := False\<rparr>)" using kept same by (simp add: keptKey_def)
    from flush [OF this same] flush_keeps [OF this P] show ?thesis using SpendStop by (simp add: stopWriter_def spendIf_def)
  next
    case (SpendReadable ok)
    then show ?thesis using inv by (simp add: writeInv_def insertedRows_def spendIf_def)
  qed
qed

lemma spend_run:
  assumes "\<And>e. P e \<Longrightarrow> ce_apiKeyId e = k"
  shows "writeInv k P s \<Longrightarrow> \<forall>op \<in> set ops. \<not> dropsKey k op
    \<Longrightarrow> writeInv k P (fold spendOp ops s) \<and> spendIf P (fold spendOp ops s) = spendIf P s + costIf P (concat (map (recordedFor k) ops))"
proof (induction ops arbitrary: s)
  case (Cons op ops)
  have "writeInv k P (spendOp op s) \<and> spendIf P (spendOp op s) = spendIf P s + costIf P (recordedFor k op)"
    using spend_step [OF Cons.prems(1) assms] Cons.prems(2) by simp
  then show ?case using Cons.IH [of "spendOp op s"] Cons.prems(2) by simp
qed simp

text \<open>The costs recorded for a key since a time, and those of them that are counted as rows and as entries in flight.\<close>

definition recordedSince :: "string \<Rightarrow> millis \<Rightarrow> spend_op list \<Rightarrow> rat" where
  "recordedSince k since ops = sumEntries (filter (\<lambda>e. since \<le> ce_timestamp e) (concat (map (recordedFor k) ops)))"

definition countedTwice :: "string \<Rightarrow> millis \<Rightarrow> spend \<Rightarrow> rat" where
  "countedTwice k since s = sumEntries (filter (\<lambda>e. ce_apiKeyId e = k \<and> since \<le> ce_timestamp e) (insertedRows s))"

lemma spend_total:
  assumes "\<forall>op \<in> set ops. \<not> dropsKey k op" and "s = fold spendOp ops (emptySpend n)" and "sp_readable s"
  shows "getBudgetWindowTotal k since s = recordedSince k since ops + countedTwice k since s"
proof -
  define P where "P e \<longleftrightarrow> ce_apiKeyId e = k \<and> since \<le> ce_timestamp e" for e :: cost_entry
  have "writeInv k P (emptySpend n)"
    by (simp add: writeInv_def keptKey_def emptySpend_def newSpendWriter_def isWriting_def runningBatch_def)
  then have "spendIf P s = costIf P (concat (map (recordedFor k) ops))"
    using spend_run [of P k "emptySpend n" ops] assms
    by (simp add: P_def spendIf_def emptySpend_def newSpendWriter_def insertedRows_def)
  moreover have "getBudgetWindowTotal k since s = spendIf P s + costIf P (insertedRows s)"
    using assms(3)
    by (simp add: getBudgetWindowTotal_def loadCostTotal_def getPendingCostTotal_def getBufferedEntries_def spendIf_def
        costIf_def P_def [abs_def] sumEntries_def)
  moreover have "filter P (concat (map (recordedFor k) ops)) = filter (\<lambda>e. since \<le> ce_timestamp e) (concat (map (recordedFor k) ops))"
    by (intro filter_cong refl) (auto simp: P_def dest: recorded_key)
  ultimately show ?thesis by (simp add: costIf_def recordedSince_def countedTwice_def P_def [abs_def])
qed

lemma countedTwice_idle [simp]: "sp_inserted s = 0 \<Longrightarrow> countedTwice k since s = 0"
  by (simp add: countedTwice_def insertedRows_def sumEntries_def)

lemma recorded_positive: "e \<in> set (recordedFor k op) \<Longrightarrow> 0 < ce_cost e"
proof (cases op)
  case (SpendRecord k' cost t)
  assume "e \<in> set (recordedFor k op)"
  then show ?thesis using SpendRecord by (cases "k' = k"; cases cost) (auto simp: normalizeEntry_def split: if_splits)
qed simp_all

text \<open>
  C16. No spend is lost. Whatever the order of records, flushes, inserted rows, commits and rollbacks of a batch, discards and
  deletions of other keys, stops and restarts, the spend of a key in a window that the rows and the pending entries show is
  the sum of the costs recorded for it in that window, and, while a batch is being written, the rows of the key that it has
  inserted a second time. When the sum of the rows cannot be read, only the pending entries are left.
\<close>

theorem spend_never_lost:
  assumes "\<forall>op \<in> set ops. \<not> dropsKey k op" and "s = fold spendOp ops (emptySpend n)"
  shows "getBudgetWindowTotal k since s
    = (if sp_readable s then recordedSince k since ops + countedTwice k since s else getPendingCostTotal k since None (sp_writer s))
    \<and> (sp_inserted s = 0 \<longrightarrow> countedTwice k since s = 0)"
  using spend_total [OF assms, of since] by (simp add: getBudgetWindowTotal_def loadCostTotal_def)

lemma spend_never_lost_witness:
  "getBudgetWindowTotal ''k'' 10 (fold spendOp [SpendRecord ''k'' (Some 2) 5, SpendRecord ''k'' (Some 3) 11, SpendFlush,
      SpendRow, SpendRow, SpendRecord ''k'' (Some 4) 12, SpendWritten False, SpendDiscard ''j'', SpendFlush, SpendRow, SpendRow,
      SpendRecord ''k'' (Some 1) 13] (emptySpend 9)) = 11"
proof -
  define ops where "ops = [SpendRecord ''k'' (Some 2) 5, SpendRecord ''k'' (Some 3) 11, SpendFlush,
      SpendRow, SpendRow, SpendRecord ''k'' (Some 4) 12, SpendWritten False, SpendDiscard ''j'', SpendFlush, SpendRow, SpendRow,
      SpendRecord ''k'' (Some 1) 13]"
  have "sp_readable (fold spendOp ops (emptySpend 9))" "countedTwice ''k'' 10 (fold spendOp ops (emptySpend 9)) = 3"
    unfolding ops_def by code_simp+
  moreover have "\<forall>op \<in> set ops. \<not> dropsKey ''k'' op" "recordedSince ''k'' 10 ops = 8"
    by (simp_all add: ops_def recordedSince_def normalizeEntry_def sumEntries_def)
  ultimately show ?thesis unfolding ops_def [symmetric] using spend_never_lost [of ops "''k''" _ 9 10, OF _ refl] by simp
qed

section \<open>A flush that never ends\<close>

text \<open>With a settled promise in its field the writer never writes again.\<close>

definition wedged :: "spend_writer \<Rightarrow> bool" where
  "wedged w \<longleftrightarrow> (\<exists>r. sw_flushPromise w = Some (FlushSettled r))"

lemma wedged_step:
  assumes "wedged (sp_writer s)"
  shows "wedged (sp_writer (spendOp op s)) \<and> set (sp_rows (spendOp op s)) \<subseteq> set (sp_rows s)"
  using assms
  by (cases op) (auto simp: wedged_def incrementSpend_def flushWriter_def insertNextRow_def endWrite_def runningBatch_def isWriting_def
      discardEntries_def startWriter_def stopWriter_def deleteCostEntries_def Let_def split: option.splits)

lemma wedged_run:
  "wedged (sp_writer s) \<Longrightarrow> set (sp_rows (fold spendOp ops s)) \<subseteq> set (sp_rows s)"
  by (induction ops arbitrary: s) (simp, metis (no_types, lifting) fold_simps(2) order_trans wedged_step)

text \<open>
  A discard during a failing write stops the writer for good: when a batch of one key is being written, the key is
  discarded, the write fails, and the next flush runs before anything else is recorded, then no later flush, no
  later record and no stop ever writes a row again, although costs go on being recorded and counted as pending.
\<close>

theorem discarded_failure_stops_writer:
  assumes "sw_flushPromise (sp_writer s) = None" and "sw_buffer (sp_writer s) \<noteq> []"
    and "\<forall>e \<in> set (sw_buffer (sp_writer s)). ce_apiKeyId e = k" and "k \<notin> set (sw_discardedApiKeyIds (sp_writer s))"
    and idle: "sp_inserted s = 0"
  shows "set (sp_rows (fold spendOp ([SpendFlush, SpendDiscard k, SpendWritten False, SpendFlush] @ ops) s)) \<subseteq> set (sp_rows s)"
proof -
  define w where "w = sp_writer s"
  have keep: "filter (\<lambda>e. ce_apiKeyId e \<notin> set (sw_discardedApiKeyIds w)) (sw_buffer w) = sw_buffer w"
    using assms(3,4) by (auto simp: w_def filter_id_conv)
  have gone: "filter (\<lambda>e. ce_apiKeyId e \<noteq> k \<and> ce_apiKeyId e \<notin> set (sw_discardedApiKeyIds w)) (sw_buffer w) = []"
    using assms(3) by (auto simp: w_def filter_empty_conv)
  have "wedged (sp_writer (fold spendOp [SpendFlush, SpendDiscard k, SpendWritten False, SpendFlush] s))
      \<and> sp_rows (fold spendOp [SpendFlush, SpendDiscard k, SpendWritten False, SpendFlush] s) = sp_rows s"
    using assms(1,2) keep gone
    by (simp add: flushWriter_def discardEntries_def endWrite_def finishFlush_def isWriting_def wedged_def idle w_def [symmetric] Let_def)
  then show ?thesis using wedged_run [of "fold spendOp [SpendFlush, SpendDiscard k, SpendWritten False, SpendFlush] s" ops]
    by (simp only: fold_append o_apply)
qed

theorem discarded_failure_stops_writer_witness:
  "sp_rows (fold spendOp ([SpendFlush, SpendDiscard ''k'', SpendWritten False, SpendFlush]
     @ [SpendRecord ''j'' (Some 7) 3, SpendFlush, SpendWritten True, SpendStop])
     (spendOp (SpendRecord ''k'' (Some 1) 2) (emptySpend 9))) = []"
  using discarded_failure_stops_writer [of "spendOp (SpendRecord ''k'' (Some 1) 2) (emptySpend 9)" "''k''"
      "[SpendRecord ''j'' (Some 7) 3, SpendFlush, SpendWritten True, SpendStop]"]
  by (simp add: emptySpend_def newSpendWriter_def incrementSpend_def normalizeEntry_def startWriter_def)

end
