(* ===== verification/Budgets.thy ===== *)
theory Budgets
  imports BudgetWindow SpendWriter "HOL-Library.List_Lexorder" "HOL-Library.Char_ord"
begin

text \<open>
  Budgets of API keys, \<open>src/domain/costRules.ts\<close>, with the rows of \<open>src/lib/db/domainState.ts\<close>: normalisation, the
  schedule of resets with its log, the check before a request, the warning. The schedule awaits its writes, so it is a
  job with the writes and the update of the cache as operations of their own, composed in the order of the code.
\<close>

section \<open>Configuration\<close>

record budget_config =
  bc_dailyLimitUsd :: rat
  bc_weeklyLimitUsd :: rat
  bc_monthlyLimitUsd :: rat
  bc_warningThreshold :: rat
  bc_resetInterval :: reset_interval
  bc_resetTime :: string
  bc_budgetResetAt :: "rat option"
  bc_lastBudgetResetAt :: "rat option"
  bc_warningEmittedAt :: "rat option"
  bc_warningPeriodStart :: "rat option"

definition toNumber :: "json \<Rightarrow> rat \<Rightarrow> rat" where
  "toNumber v fallback = nullish (numberOrText v) fallback"

definition normalizeTimestamp :: "json \<Rightarrow> rat option" where
  "normalizeTimestamp v = (case numberOrText v of Some r \<Rightarrow> if 0 < r then Some r else None | None \<Rightarrow> None)"

definition normalizeBudgetConfig :: "json_object \<Rightarrow> budget_config" where
  "normalizeBudgetConfig config =
     \<lparr>bc_dailyLimitUsd = max 0 (toNumber (field ''dailyLimitUsd'' config) 0),
      bc_weeklyLimitUsd = max 0 (toNumber (field ''weeklyLimitUsd'' config) 0),
      bc_monthlyLimitUsd = max 0 (toNumber (field ''monthlyLimitUsd'' config) 0),
      bc_warningThreshold = min (max (toNumber (field ''warningThreshold'' config) (4/5)) 0) 1,
      bc_resetInterval = normalizeResetInterval (field ''resetInterval'' config),
      bc_resetTime = normalizeResetTime (field ''resetTime'' config),
      bc_budgetResetAt = normalizeTimestamp (field ''budgetResetAt'' config),
      bc_lastBudgetResetAt = normalizeTimestamp (field ''lastBudgetResetAt'' config),
      bc_warningEmittedAt = normalizeTimestamp (field ''warningEmittedAt'' config),
      bc_warningPeriodStart = normalizeTimestamp (field ''warningPeriodStart'' config)\<rparr>"

definition intervalText :: "reset_interval \<Rightarrow> string" where
  "intervalText i = (case i of ResetDaily \<Rightarrow> ''daily'' | ResetWeekly \<Rightarrow> ''weekly'' | ResetMonthly \<Rightarrow> ''monthly'')"

definition numberOrNull :: "rat option \<Rightarrow> json" where
  "numberOrNull r = (case r of Some n \<Rightarrow> JNum n | None \<Rightarrow> JNull)"

text \<open>A normalised configuration as the object it is, and as a row.\<close>

definition configObject :: "budget_config \<Rightarrow> json_object" where
  "configObject b =
     [(''dailyLimitUsd'', JNum (bc_dailyLimitUsd b)), (''weeklyLimitUsd'', JNum (bc_weeklyLimitUsd b)),
      (''monthlyLimitUsd'', JNum (bc_monthlyLimitUsd b)), (''warningThreshold'', JNum (bc_warningThreshold b)),
      (''resetInterval'', JStr (intervalText (bc_resetInterval b))), (''resetTime'', JStr (bc_resetTime b)),
      (''budgetResetAt'', numberOrNull (bc_budgetResetAt b)), (''lastBudgetResetAt'', numberOrNull (bc_lastBudgetResetAt b)),
      (''warningEmittedAt'', numberOrNull (bc_warningEmittedAt b)),
      (''warningPeriodStart'', numberOrNull (bc_warningPeriodStart b))]"

definition saveBudgetRow :: "budget_config \<Rightarrow> json_object" where
  "saveBudgetRow b =
     [(''daily_limit_usd'', JNum (bc_dailyLimitUsd b)), (''weekly_limit_usd'', JNum (bc_weeklyLimitUsd b)),
      (''monthly_limit_usd'', JNum (bc_monthlyLimitUsd b)), (''warning_threshold'', JNum (bc_warningThreshold b)),
      (''reset_interval'', JStr (intervalText (bc_resetInterval b))), (''reset_time'', JStr (bc_resetTime b)),
      (''budget_reset_at'', numberOrNull (bc_budgetResetAt b)), (''last_budget_reset_at'', numberOrNull (bc_lastBudgetResetAt b)),
      (''warning_emitted_at'', numberOrNull (bc_warningEmittedAt b)),
      (''warning_period_start'', numberOrNull (bc_warningPeriodStart b))]"

definition textOr :: "json \<Rightarrow> string \<Rightarrow> json" where
  "textOr v fallback = (case v of JStr s \<Rightarrow> JStr s | _ \<Rightarrow> JStr fallback)"

definition stampOrNull :: "json \<Rightarrow> json" where
  "stampOrNull v = (let r = toNumber v 0 in if r = 0 then JNull else JNum r)"

definition loadBudgetRow :: "json_object \<Rightarrow> json_object" where
  "loadBudgetRow row =
     [(''dailyLimitUsd'', JNum (toNumber (field ''daily_limit_usd'' row) 0)),
      (''weeklyLimitUsd'', JNum (toNumber (field ''weekly_limit_usd'' row) 0)),
      (''monthlyLimitUsd'', JNum (toNumber (field ''monthly_limit_usd'' row) 0)),
      (''warningThreshold'', JNum (toNumber (field ''warning_threshold'' row) (4/5))),
      (''resetInterval'', textOr (field ''reset_interval'' row) ''daily''),
      (''resetTime'', textOr (field ''reset_time'' row) ''00:00''),
      (''budgetResetAt'', stampOrNull (field ''budget_reset_at'' row)),
      (''lastBudgetResetAt'', stampOrNull (field ''last_budget_reset_at'' row)),
      (''warningEmittedAt'', stampOrNull (field ''warning_emitted_at'' row)),
      (''warningPeriodStart'', stampOrNull (field ''warning_period_start'' row))]"

definition getActiveBudgetLimit :: "budget_config \<Rightarrow> rat" where
  "getActiveBudgetLimit b =
     (case bc_resetInterval b of
        ResetMonthly \<Rightarrow> if 0 < bc_monthlyLimitUsd b then bc_monthlyLimitUsd b else bc_dailyLimitUsd b
      | ResetWeekly \<Rightarrow> if 0 < bc_weeklyLimitUsd b then bc_weeklyLimitUsd b else bc_dailyLimitUsd b
      | ResetDaily \<Rightarrow> bc_dailyLimitUsd b)"

section \<open>State and schedule\<close>

record budget_log =
  bl_apiKeyId :: string
  bl_resetInterval :: reset_interval
  bl_previousSpend :: rat
  bl_resetAt :: millis
  bl_nextResetAt :: millis

record budget_state =
  bs_budgets :: "(string, budget_config) jmap"
  bs_rows :: "(string, json_object) jmap"
  bs_logs :: "budget_log list"
  bs_spend :: spend

definition getBudgetWindowRangeTotal :: "string \<Rightarrow> millis \<Rightarrow> millis \<Rightarrow> spend \<Rightarrow> rat" where
  "getBudgetWindowRangeTotal apiKeyId periodStart periodEnd s =
     sumEntries (loadCostEntriesInRange apiKeyId periodStart periodEnd s)
     + getPendingCostTotal apiKeyId periodStart (Some periodEnd) (sp_writer s)"

record sync_job =
  sj_apiKeyId :: string
  sj_updated :: budget_config
  sj_log :: "budget_log option"
  sj_save :: bool

text \<open>What the schedule decides before it awaits anything but the sum for its log.\<close>

definition syncStart :: "string \<Rightarrow> json_object \<Rightarrow> millis \<Rightarrow> bool \<Rightarrow> bool \<Rightarrow> budget_state \<Rightarrow> sync_job" where
  "syncStart apiKeyId config now logReset persist s =
     (let normalized = normalizeBudgetConfig config;
          window = getBudgetWindow (bc_resetInterval normalized) (bc_resetTime normalized) now;
          resetRolled = (case bc_lastBudgetResetAt normalized of Some l \<Rightarrow> l < of_int (periodStartAt window) | None \<Rightarrow> False);
          updated = normalized\<lparr>bc_budgetResetAt := Some (of_int (nextResetAt window)),
                      bc_lastBudgetResetAt := Some (of_int (periodStartAt window)),
                      bc_warningEmittedAt := (if resetRolled then None else bc_warningEmittedAt normalized),
                      bc_warningPeriodStart := (if resetRolled then None else bc_warningPeriodStart normalized)\<rparr>
      in \<lparr>sj_apiKeyId = apiKeyId, sj_updated = updated,
          sj_log = (if resetRolled \<and> logReset
                    then Some \<lparr>bl_apiKeyId = apiKeyId, bl_resetInterval = bc_resetInterval normalized,
                               bl_previousSpend = getBudgetWindowRangeTotal apiKeyId
                                 \<lceil>nullish (bc_lastBudgetResetAt normalized) 0\<rceil> (periodStartAt window) (bs_spend s),
                               bl_resetAt = periodStartAt window, bl_nextResetAt = nextResetAt window\<rparr>
                    else None),
          sj_save = (normalized \<noteq> updated \<and> persist)\<rparr>)"

definition syncLog :: "sync_job \<Rightarrow> budget_state \<Rightarrow> budget_state" where
  "syncLog job s = (case sj_log job of Some l \<Rightarrow> s\<lparr>bs_logs := bs_logs s @ [l]\<rparr> | None \<Rightarrow> s)"

definition saveBudget :: "string \<Rightarrow> budget_config \<Rightarrow> budget_state \<Rightarrow> budget_state" where
  "saveBudget apiKeyId b s = s\<lparr>bs_rows := jset apiKeyId (saveBudgetRow b) (bs_rows s)\<rparr>"

definition syncSave :: "sync_job \<Rightarrow> budget_state \<Rightarrow> budget_state" where
  "syncSave job s = (if sj_save job then saveBudget (sj_apiKeyId job) (sj_updated job) s else s)"

definition syncFinish :: "sync_job \<Rightarrow> budget_state \<Rightarrow> budget_state" where
  "syncFinish job s = s\<lparr>bs_budgets := jset (sj_apiKeyId job) (sj_updated job) (bs_budgets s)\<rparr>"

definition syncBudgetSchedule ::
  "string \<Rightarrow> json_object \<Rightarrow> millis \<Rightarrow> bool \<Rightarrow> bool \<Rightarrow> budget_state \<Rightarrow> budget_config \<times> budget_state" where
  "syncBudgetSchedule apiKeyId config now logReset persist s =
     (let job = syncStart apiKeyId config now logReset persist s
      in (sj_updated job, syncFinish job (syncSave job (syncLog job s))))"

section \<open>Operations\<close>

definition setBudget :: "string \<Rightarrow> json_object \<Rightarrow> millis \<Rightarrow> budget_state \<Rightarrow> budget_config \<times> budget_state" where
  "setBudget apiKeyId config now s = syncBudgetSchedule apiKeyId config now False True s"

text \<open>The configuration that \<open>getBudget\<close> hands to the schedule.\<close>

definition storedConfig :: "string \<Rightarrow> budget_state \<Rightarrow> json_object option" where
  "storedConfig apiKeyId s =
     (case jget apiKeyId (bs_budgets s) of
        Some cached \<Rightarrow> Some (configObject cached)
      | None \<Rightarrow> map_option loadBudgetRow (jget apiKeyId (bs_rows s)))"

definition getBudget :: "string \<Rightarrow> millis \<Rightarrow> budget_state \<Rightarrow> budget_config option \<times> budget_state" where
  "getBudget apiKeyId now s =
     (case storedConfig apiKeyId s of
        None \<Rightarrow> (None, s)
      | Some config \<Rightarrow> (let (b, s') = syncBudgetSchedule apiKeyId config now True True s in (Some b, s')))"

text \<open>\<open>deleteBudget\<close>: the cache and the buffered spend at once, the rows after the first await.\<close>

definition deleteBudgetNow :: "string \<Rightarrow> budget_state \<Rightarrow> budget_state" where
  "deleteBudgetNow apiKeyId s =
     s\<lparr>bs_budgets := jdel apiKeyId (bs_budgets s),
       bs_spend := (bs_spend s)\<lparr>sp_writer := discardEntries apiKeyId (sp_writer (bs_spend s))\<rparr>\<rparr>"

definition deleteBudgetRows :: "string \<Rightarrow> budget_state \<Rightarrow> budget_state" where
  "deleteBudgetRows apiKeyId s =
     s\<lparr>bs_rows := jdel apiKeyId (bs_rows s), bs_logs := filter (\<lambda>l. bl_apiKeyId l \<noteq> apiKeyId) (bs_logs s),
       bs_spend := deleteCostEntries apiKeyId (bs_spend s)\<rparr>"

definition deleteBudget :: "string \<Rightarrow> budget_state \<Rightarrow> budget_state" where
  "deleteBudget apiKeyId s = deleteBudgetRows apiKeyId (deleteBudgetNow apiKeyId s)"

definition recordCost :: "string \<Rightarrow> rat option \<Rightarrow> millis \<Rightarrow> budget_state \<Rightarrow> budget_state" where
  "recordCost apiKeyId cost now s = s\<lparr>bs_spend := spendOp (SpendRecord apiKeyId cost now) (bs_spend s)\<rparr>"

definition syncAllBudgetSchedules :: "millis \<Rightarrow> budget_state \<Rightarrow> (nat \<times> nat) \<times> budget_state" where
  "syncAllBudgetSchedules now s =
     fold (\<lambda>(apiKeyId, row) ((processed, resetCount), s).
             let config = loadBudgetRow row; (synced, s') = syncBudgetSchedule apiKeyId config now True True s
             in ((processed + 1,
                  if numberOrNull (bc_lastBudgetResetAt synced) \<noteq> field ''lastBudgetResetAt'' config
                  then resetCount + 1 else resetCount), s'))
       (sort_key fst (filter (\<lambda>(apiKeyId, row). apiKeyId \<noteq> []) (bs_rows s))) ((0, 0), s)"

record budget_check =
  ck_allowed :: bool
  ck_periodUsed :: rat
  ck_activeLimitUsd :: rat
  ck_warningReached :: bool
  ck_remaining :: rat
  ck_window :: "budget_window option"

text \<open>
  The check reads the clock for the schedule, for its window, and for the time of a warning. It awaits \<open>getBudget\<close>, and
  decides on the budget it was given and the spend at that time. The last component of the answer says whether a warning
  was emitted.
\<close>

definition checkAgainst ::
  "budget_config option \<Rightarrow> string \<Rightarrow> rat \<Rightarrow> millis \<Rightarrow> millis \<Rightarrow> budget_state \<Rightarrow> (budget_check \<times> bool) \<times> budget_state" where
  "checkAgainst budgetOrNull apiKeyId additionalCost now nowWarn s1 =
     (case budgetOrNull of
        None \<Rightarrow>
          ((\<lparr>ck_allowed = True, ck_periodUsed = 0, ck_activeLimitUsd = 0, ck_warningReached = False, ck_remaining = 0,
             ck_window = None\<rparr>, False), s1)
      | Some budget \<Rightarrow>
          (let window = getBudgetWindow (bc_resetInterval budget) (bc_resetTime budget) now;
               periodUsed = getBudgetWindowTotal apiKeyId (periodStartAt window) (bs_spend s1);
               projectedTotal = periodUsed + additionalCost;
               activeLimitUsd = getActiveBudgetLimit budget;
               warningReached = (0 < activeLimitUsd \<and> activeLimitUsd * bc_warningThreshold budget \<le> projectedTotal);
               remaining = max (activeLimitUsd - projectedTotal) 0;
               emitted = (warningReached \<and> bc_warningPeriodStart budget \<noteq> Some (of_int (periodStartAt window)));
               updatedBudget = budget\<lparr>bc_warningEmittedAt := Some (of_int nowWarn),
                                      bc_warningPeriodStart := Some (of_int (periodStartAt window))\<rparr>;
               s2 = (if emitted
                     then saveBudget apiKeyId updatedBudget (s1\<lparr>bs_budgets := jset apiKeyId updatedBudget (bs_budgets s1)\<rparr>)
                     else s1);
               exceeded = (0 < activeLimitUsd \<and> activeLimitUsd < projectedTotal)
           in ((\<lparr>ck_allowed = (\<not> exceeded), ck_periodUsed = periodUsed, ck_activeLimitUsd = activeLimitUsd,
                 ck_warningReached = (exceeded \<or> warningReached), ck_remaining = remaining, ck_window = Some window\<rparr>,
                emitted), s2)))"

text \<open>A check during which nothing else happens.\<close>

definition checkBudget ::
  "string \<Rightarrow> rat \<Rightarrow> millis \<Rightarrow> millis \<Rightarrow> millis \<Rightarrow> budget_state \<Rightarrow> (budget_check \<times> bool) \<times> budget_state" where
  "checkBudget apiKeyId additionalCost nowSync now nowWarn s =
     (let (b, s1) = getBudget apiKeyId nowSync s in checkAgainst b apiKeyId additionalCost now nowWarn s1)"

definition emptyBudgets :: "nat \<Rightarrow> budget_state" where
  "emptyBudgets n = \<lparr>bs_budgets = [], bs_rows = [], bs_logs = [], bs_spend = emptySpend n\<rparr>"

end
