(* ===== verification/BudgetLaws.thy ===== *)
theory BudgetLaws
  imports Budgets
begin

text \<open>
  Properties of budgets: a normalised configuration survives the cache and the database, the check is exact with
  respect to the costs recorded in the window, one warning per window, and a change of a budget that races with the
  roll of its window.
\<close>

section \<open>Round trips\<close>

lemma toNumber_simps [simp]: "toNumber (JNum r) d = r" "toNumber JUndefined d = d"
  by (simp_all add: toNumber_def)

lemma numberOrText_null [simp]: "numberOrText JNull = None"
  by (simp add: numberOrText_def)

lemma normalize_interval [simp]: "normalizeResetInterval (JStr (intervalText i)) = i"
  by (cases i) (simp_all add: normalizeResetInterval_def intervalText_def trim_def toLowerCase_def ascii_lower_def isSpace_def)

lemma normalize_stamp:
  "normalizeTimestamp (numberOrNull r) = (case r of Some n \<Rightarrow> if 0 < n then Some n else None | None \<Rightarrow> None)"
  by (cases r) (simp_all add: numberOrNull_def normalizeTimestamp_def)

lemma stamp_row: "normalizeTimestamp (stampOrNull (numberOrNull r)) = normalizeTimestamp (numberOrNull r)"
  by (cases r) (simp_all add: stampOrNull_def numberOrNull_def normalizeTimestamp_def toNumber_def Let_def)

lemma textOr_text [simp]: "textOr (JStr s) d = JStr s"
  by (simp add: textOr_def)

text \<open>What the cache or the row of a configuration normalises to.\<close>

definition renormalized :: "budget_config \<Rightarrow> budget_config" where
  "renormalized b =
     b\<lparr>bc_dailyLimitUsd := max 0 (bc_dailyLimitUsd b), bc_weeklyLimitUsd := max 0 (bc_weeklyLimitUsd b),
       bc_monthlyLimitUsd := max 0 (bc_monthlyLimitUsd b), bc_warningThreshold := min (max (bc_warningThreshold b) 0) 1,
       bc_resetTime := normalizeResetTime (JStr (bc_resetTime b)),
       bc_budgetResetAt := normalizeTimestamp (numberOrNull (bc_budgetResetAt b)),
       bc_lastBudgetResetAt := normalizeTimestamp (numberOrNull (bc_lastBudgetResetAt b)),
       bc_warningEmittedAt := normalizeTimestamp (numberOrNull (bc_warningEmittedAt b)),
       bc_warningPeriodStart := normalizeTimestamp (numberOrNull (bc_warningPeriodStart b))\<rparr>"

lemma normalize_cached: "normalizeBudgetConfig (configObject b) = renormalized b"
  by (simp add: normalizeBudgetConfig_def configObject_def renormalized_def)

lemma normalize_row: "normalizeBudgetConfig (loadBudgetRow (saveBudgetRow b)) = renormalized b"
  by (simp add: normalizeBudgetConfig_def loadBudgetRow_def saveBudgetRow_def renormalized_def stamp_row)

lemma stamp_again: "normalizeTimestamp (numberOrNull (normalizeTimestamp v)) = normalizeTimestamp v"
  by (simp add: normalize_stamp) (simp add: normalizeTimestamp_def split: option.splits)

lemma renormalized_normal: "renormalized (normalizeBudgetConfig c) = normalizeBudgetConfig c"
  by (simp add: renormalized_def normalizeBudgetConfig_def stamp_again normalize_normal)

lemma limit_nonneg: "0 \<le> getActiveBudgetLimit (normalizeBudgetConfig c)"
  by (auto simp: normalizeBudgetConfig_def getActiveBudgetLimit_def less_max_iff_disj split: reset_interval.splits)

text \<open>
  A budget survives storage: whatever was configured, the normalised configuration that is saved as a row and read
  back, or kept in the cache, normalises to itself; its limits are not negative and its threshold is a fraction.
\<close>

theorem budget_config_roundtrip:
  "let b = normalizeBudgetConfig config in
     normalizeBudgetConfig (loadBudgetRow (saveBudgetRow b)) = b \<and> normalizeBudgetConfig (configObject b) = b
     \<and> 0 \<le> getActiveBudgetLimit b \<and> 0 \<le> bc_warningThreshold b \<and> bc_warningThreshold b \<le> 1"
  unfolding Let_def normalize_row normalize_cached renormalized_normal
  by (simp add: limit_nonneg) (simp add: normalizeBudgetConfig_def)

section \<open>The check\<close>

lemma start_fields:
  "sj_apiKeyId (syncStart k config now lr ps s) = k"
  "getActiveBudgetLimit (sj_updated (syncStart k config now lr ps s)) = getActiveBudgetLimit (normalizeBudgetConfig config)"
  "bc_resetInterval (sj_updated (syncStart k config now lr ps s)) = bc_resetInterval (normalizeBudgetConfig config)"
  "bc_resetTime (sj_updated (syncStart k config now lr ps s)) = bc_resetTime (normalizeBudgetConfig config)"
  "bc_warningThreshold (sj_updated (syncStart k config now lr ps s)) = bc_warningThreshold (normalizeBudgetConfig config)"
  by (cases "bc_resetInterval (normalizeBudgetConfig config)"; simp add: syncStart_def Let_def getActiveBudgetLimit_def)+

lemma job_frame [simp]:
  "bs_spend (syncLog job s) = bs_spend s" "bs_spend (syncSave job s) = bs_spend s" "bs_spend (syncFinish job s) = bs_spend s"
  "bs_budgets (syncLog job s) = bs_budgets s" "bs_budgets (syncSave job s) = bs_budgets s"
  "bs_rows (syncLog job s) = bs_rows s" "bs_rows (syncFinish job s) = bs_rows s"
  by (simp_all add: syncLog_def syncSave_def syncFinish_def saveBudget_def split: option.split)

lemma sync_keeps_limits:
  assumes "syncBudgetSchedule k config now lr ps s = (b, s')"
  shows "getActiveBudgetLimit b = getActiveBudgetLimit (normalizeBudgetConfig config)"
    and "bc_resetInterval b = bc_resetInterval (normalizeBudgetConfig config)"
    and "bc_resetTime b = bc_resetTime (normalizeBudgetConfig config)" and "bs_spend s' = bs_spend s"
proof -
  have "b = sj_updated (syncStart k config now lr ps s)"
    and "s' = syncFinish (syncStart k config now lr ps s) (syncSave (syncStart k config now lr ps s) (syncLog (syncStart k config now lr ps s) s))"
    using assms by (simp_all add: syncBudgetSchedule_def Let_def)
  then show "getActiveBudgetLimit b = getActiveBudgetLimit (normalizeBudgetConfig config)"
    and "bc_resetInterval b = bc_resetInterval (normalizeBudgetConfig config)"
    and "bc_resetTime b = bc_resetTime (normalizeBudgetConfig config)" and "bs_spend s' = bs_spend s"
    by (simp_all only: start_fields job_frame)
qed

lemma budget_read:
  assumes "storedConfig k s = Some config"
  shows "\<exists>b. fst (getBudget k now s) = Some b \<and> getActiveBudgetLimit b = getActiveBudgetLimit (normalizeBudgetConfig config)
    \<and> bc_resetInterval b = bc_resetInterval (normalizeBudgetConfig config) \<and> bc_resetTime b = bc_resetTime (normalizeBudgetConfig config)
    \<and> bs_spend (snd (getBudget k now s)) = bs_spend s"
proof -
  obtain b s1 where b: "syncBudgetSchedule k config now True True s = (b, s1)"
    by (cases "syncBudgetSchedule k config now True True s")
  then show ?thesis using sync_keeps_limits [OF b] assms by (simp add: getBudget_def)
qed

text \<open>
  C10. Budgets are enforced on what was spent. A key has a budget when a check reads it; whatever happens to the budgets before
  the check goes on after its awaits, and whatever order of recorded costs, flushes, inserted rows, commits and rollbacks there
  has been: the check allows the request exactly when no limit is set or the spend since the start of the window together
  with the projected cost is within the limit it has read, and reports what remains. The spend is the sum of the costs
  recorded, and while a batch is being written the rows of the key that it has inserted once more; the sum of the rows can
  be read.
\<close>

theorem budget_enforced:
  assumes spend: "bs_spend s = fold spendOp ops (emptySpend n)" "\<forall>op \<in> set ops. \<not> dropsKey k op" "sp_readable (bs_spend s)"
    and read: "storedConfig k s0 = Some config"
  shows "let b = normalizeBudgetConfig config; limit = getActiveBudgetLimit b;
       w = getBudgetWindow (bc_resetInterval b) (bc_resetTime b) now;
       spent = recordedSince k (periodStartAt w) ops + countedTwice k (periodStartAt w) (bs_spend s);
       c = fst (fst (checkAgainst (fst (getBudget k nowSync s0)) k additional now nowWarn s))
     in (ck_allowed c \<longleftrightarrow> limit = 0 \<or> spent + additional \<le> limit) \<and> ck_remaining c = max (limit - (spent + additional)) 0
        \<and> ck_periodUsed c = spent \<and> ck_window c = Some w \<and> (sp_inserted (bs_spend s) = 0 \<longrightarrow> spent = recordedSince k (periodStartAt w) ops)"
proof -
  obtain b where b: "fst (getBudget k nowSync s0) = Some b" "getActiveBudgetLimit b = getActiveBudgetLimit (normalizeBudgetConfig config)"
    "bc_resetInterval b = bc_resetInterval (normalizeBudgetConfig config)" "bc_resetTime b = bc_resetTime (normalizeBudgetConfig config)"
    using budget_read [OF read] by blast
  have nn: "getActiveBudgetLimit (normalizeBudgetConfig config) \<le> 0 \<longleftrightarrow> getActiveBudgetLimit (normalizeBudgetConfig config) = 0"
    using limit_nonneg [of config] by (auto intro: antisym)
  show ?thesis using b spend_total [OF spend(2,1,3)]
    by (simp add: checkAgainst_def Let_def not_less nn)
qed

text \<open>A check during which nothing happens is that check on the state after the read.\<close>

lemma check_alone:
  "checkBudget k additional nowSync now nowWarn s
    = checkAgainst (fst (getBudget k nowSync s)) k additional now nowWarn (snd (getBudget k nowSync s))"
  by (simp add: checkBudget_def Let_def case_prod_unfold)

definition dailyBudget :: budget_state where
  "dailyBudget = (snd (setBudget ''k'' [(''dailyLimitUsd'', JNum 10), (''resetTime'', JStr ''06:00'')] 1760000000000 (emptyBudgets 9)))
     \<lparr>bs_spend := fold spendOp [SpendRecord ''k'' (Some 4) 1759900000000, SpendRecord ''k'' (Some 7) 1760000000001, SpendFlush]
        (emptySpend 9)\<rparr>"

lemma dailyBudget_config:
  "\<exists>c. storedConfig ''k'' dailyBudget = Some c \<and> getActiveBudgetLimit (normalizeBudgetConfig c) = 10
    \<and> bc_resetInterval (normalizeBudgetConfig c) = ResetDaily \<and> bc_resetTime (normalizeBudgetConfig c) = ''06:00''"
proof -
  define c where "c = the (storedConfig ''k'' dailyBudget)"
  have "storedConfig ''k'' dailyBudget = Some c" "getActiveBudgetLimit (normalizeBudgetConfig c) = 10"
    "bc_resetInterval (normalizeBudgetConfig c) = ResetDaily" "bc_resetTime (normalizeBudgetConfig c) = ''06:00''"
    unfolding c_def by code_simp+
  then show ?thesis by blast
qed

lemma budget_enforced_witness:
  "let check = (\<lambda>additional. ck_allowed (fst (fst (checkAgainst (fst (getBudget ''k'' 1760000000002 dailyBudget)) ''k'' additional
        1760000000002 1760000000003 dailyBudget))))
   in check 3 \<and> \<not> check 4"
proof -
  obtain c where c: "storedConfig ''k'' dailyBudget = Some c" "getActiveBudgetLimit (normalizeBudgetConfig c) = 10"
    "bc_resetInterval (normalizeBudgetConfig c) = ResetDaily" "bc_resetTime (normalizeBudgetConfig c) = ''06:00''"
    using dailyBudget_config by blast
  have w: "periodStartAt (getBudgetWindow ResetDaily ''06:00'' 1760000000002) = 1759989600000" by code_simp
  define ops where "ops = [SpendRecord ''k'' (Some 4) 1759900000000, SpendRecord ''k'' (Some 7) 1760000000001, SpendFlush]"
  have sp: "bs_spend dailyBudget = fold spendOp ops (emptySpend 9)" by (simp add: dailyBudget_def ops_def)
  have keep: "\<forall>op \<in> set ops. \<not> dropsKey ''k'' op" by (simp add: ops_def)
  have idle: "sp_readable (bs_spend dailyBudget)" "sp_inserted (bs_spend dailyBudget) = 0" by code_simp+
  have rec: "recordedSince ''k'' 1759989600000 ops = 7" unfolding ops_def by code_simp
  show ?thesis
    using budget_enforced [OF sp keep idle(1) c(1), of 1760000000002 1760000000002 3 1760000000003]
      budget_enforced [OF sp keep idle(1) c(1), of 1760000000002 1760000000002 4 1760000000003]
    by (simp add: Let_def c(2-4) w rec idle(2))
qed

section \<open>Changes that race with a reset\<close>

text \<open>
  A change of a budget that falls into a running schedule is undone: a schedule that has read the configuration and
  awaits its writes puts back what it read, into the cache and, when it saves, into the database. So a budget deleted
  meanwhile comes back, and one that was changed meanwhile has its old limits again.
\<close>

theorem budget_change_undone:
  assumes "job = syncStart k config now lr ps s0" and "sj_save job"
  shows "storedConfig k (deleteBudget k s) = None
    \<and> storedConfig k (syncFinish job (syncSave job (deleteBudget k s))) = Some (configObject (sj_updated job))
    \<and> jget k (bs_rows (syncFinish job (syncSave job (deleteBudget k s)))) = Some (saveBudgetRow (sj_updated job))
    \<and> storedConfig k (syncFinish job (syncSave job (snd (setBudget k config' now' s)))) = Some (configObject (sj_updated job))
    \<and> getActiveBudgetLimit (sj_updated job) = getActiveBudgetLimit (normalizeBudgetConfig config)"
proof -
  have k: "sj_apiKeyId job = k" and l: "getActiveBudgetLimit (sj_updated job) = getActiveBudgetLimit (normalizeBudgetConfig config)"
    unfolding assms(1) by (simp_all only: start_fields)
  have "storedConfig k (syncFinish job s') = Some (configObject (sj_updated job))" for s'
    by (simp add: storedConfig_def syncFinish_def k)
  then show ?thesis using assms(2) l
    by (simp add: k storedConfig_def deleteBudget_def deleteBudgetRows_def deleteBudgetNow_def syncSave_def saveBudget_def)
qed

definition tenDollars :: budget_state where
  "tenDollars = snd (setBudget ''k'' [(''dailyLimitUsd'', JNum 10)] 1760000000000 (emptyBudgets 9))"

theorem budget_change_undone_witness:
  "let job = syncStart ''k'' (the (storedConfig ''k'' tenDollars)) 1760100000000 True True tenDollars
   in sj_save job \<and> sj_log job \<noteq> None
     \<and> storedConfig ''k'' (syncFinish job (syncSave job (deleteBudget ''k'' (syncLog job tenDollars)))) \<noteq> None"
proof -
  define job where "job = syncStart ''k'' (the (storedConfig ''k'' tenDollars)) 1760100000000 True True tenDollars"
  have "sj_save job" "sj_log job \<noteq> None" unfolding job_def by code_simp+
  then show ?thesis using budget_change_undone [OF job_def, of "syncLog job tenDollars"] by (simp add: job_def [symmetric])
qed

section \<open>One warning per window\<close>

text \<open>A configuration whose window is \<open>w\<close> and that has warned in it.\<close>

definition warnedIn :: "budget_window \<Rightarrow> budget_config \<Rightarrow> bool" where
  "warnedIn w b \<longleftrightarrow>
     (\<forall>t. 0 \<le> t \<and> periodStartAt w \<le> t \<and> t < nextResetAt w \<longrightarrow> getBudgetWindow (bc_resetInterval b) (bc_resetTime b) t = w)
     \<and> bc_lastBudgetResetAt b = Some (of_int (periodStartAt w)) \<and> bc_warningPeriodStart b = Some (of_int (periodStartAt w))
     \<and> normalizeResetTime (JStr (bc_resetTime b)) = bc_resetTime b"

definition warnedState :: "string \<Rightarrow> budget_window \<Rightarrow> budget_state \<Rightarrow> bool" where
  "warnedState k w s \<longleftrightarrow> (\<exists>b. jget k (bs_budgets s) = Some b \<and> warnedIn w b)"

lemma renormalized_warned: "0 < periodStartAt w \<Longrightarrow> warnedIn w b \<Longrightarrow> warnedIn w (renormalized b)"
  by (simp add: warnedIn_def renormalized_def normalize_stamp)

lemma sync_warned:
  assumes "warnedIn w b" and "0 < periodStartAt w" and "periodStartAt w \<le> now" and "now < nextResetAt w"
    and "syncBudgetSchedule k (configObject b) now lr ps s = (b', s')"
  shows "warnedIn w b' \<and> jget j (bs_budgets s') = (if j = k then Some b' else jget j (bs_budgets s))"
proof -
  define c where "c = renormalized b"
  have c: "warnedIn w c" using assms(1,2) by (simp add: c_def renormalized_warned)
  define job where "job = syncStart k (configObject b) now lr ps s"
  have win: "getBudgetWindow (bc_resetInterval c) (bc_resetTime c) now = w"
    using c assms(2-4) by (auto simp: warnedIn_def)
  have last: "bc_lastBudgetResetAt c = Some (of_int (periodStartAt w))" using c by (simp add: warnedIn_def)
  have "sj_updated job = c\<lparr>bc_budgetResetAt := Some (of_int (nextResetAt w)), bc_lastBudgetResetAt := Some (of_int (periodStartAt w))\<rparr>"
    by (simp add: job_def syncStart_def normalize_cached c_def [symmetric] win last Let_def)
  moreover have "b' = sj_updated job" "s' = syncFinish job (syncSave job (syncLog job s))"
    using assms(5) by (simp_all add: syncBudgetSchedule_def job_def Let_def)
  moreover have "sj_apiKeyId job = k" by (simp add: job_def start_fields)
  ultimately show ?thesis using c by (simp add: warnedIn_def syncFinish_def)
qed

lemma check_warned:
  assumes "warnedState k w s" and "0 < periodStartAt w"
    and "periodStartAt w \<le> nowSync" "nowSync < nextResetAt w" "periodStartAt w \<le> now" "now < nextResetAt w"
  shows "\<not> snd (fst (checkBudget k additional nowSync now nowWarn s)) \<and> warnedState k w (snd (checkBudget k additional nowSync now nowWarn s))"
proof -
  obtain b where b: "jget k (bs_budgets s) = Some b" "warnedIn w b" using assms(1) by (auto simp: warnedState_def)
  obtain b' s' where y: "syncBudgetSchedule k (configObject b) nowSync True True s = (b', s')"
    by (cases "syncBudgetSchedule k (configObject b) nowSync True True s")
  note w = sync_warned [OF b(2) assms(2-4) y, of k]
  have "getBudgetWindow (bc_resetInterval b') (bc_resetTime b') now = w" "bc_warningPeriodStart b' = Some (of_int (periodStartAt w))"
    using w assms(2,5,6) by (auto simp: warnedIn_def)
  then show ?thesis using w by (simp add: checkBudget_def checkAgainst_def getBudget_def storedConfig_def b(1) y Let_def warnedState_def)
qed

text \<open>Checks and reads of any key within a window, with records and writes of spend in between.\<close>

datatype budget_op = BudgetCheck string rat millis millis millis | BudgetRead string millis | BudgetSpend spend_op

fun budgetOp :: "budget_op \<Rightarrow> budget_state \<Rightarrow> budget_state" where
  "budgetOp (BudgetCheck k additional nowSync now nowWarn) s = snd (checkBudget k additional nowSync now nowWarn s)"
| "budgetOp (BudgetRead k now) s = snd (getBudget k now s)"
| "budgetOp (BudgetSpend op) s = s\<lparr>bs_spend := spendOp op (bs_spend s)\<rparr>"

definition insideWindow :: "budget_window \<Rightarrow> millis \<Rightarrow> bool" where
  "insideWindow w t \<longleftrightarrow> periodStartAt w \<le> t \<and> t < nextResetAt w"

fun opWithin :: "budget_window \<Rightarrow> budget_op \<Rightarrow> bool" where
  "opWithin w (BudgetCheck k additional nowSync now nowWarn) \<longleftrightarrow> insideWindow w nowSync \<and> insideWindow w now"
| "opWithin w (BudgetRead k now) \<longleftrightarrow> insideWindow w now"
| "opWithin w (BudgetSpend op) \<longleftrightarrow> True"

lemma sync_budgets_other:
  "syncBudgetSchedule j config now lr ps s = (b, s') \<Longrightarrow> jget k (bs_budgets s') = (if k = j then Some b else jget k (bs_budgets s))"
  by (auto simp: syncBudgetSchedule_def Let_def syncFinish_def start_fields)

lemma getBudget_other: "j \<noteq> k \<Longrightarrow> jget k (bs_budgets (snd (getBudget j now s))) = jget k (bs_budgets s)"
  by (auto simp: getBudget_def sync_budgets_other split: option.split prod.split)

lemma budget_check_other: "j \<noteq> k \<Longrightarrow> jget k (bs_budgets (snd (checkBudget j a n1 n2 n3 s))) = jget k (bs_budgets s)"
proof -
  assume j: "j \<noteq> k"
  obtain r s1 where g: "getBudget j n1 s = (r, s1)" by (cases "getBudget j n1 s")
  have "jget k (bs_budgets s1) = jget k (bs_budgets s)" using getBudget_other [OF j, of n1 s] g by simp
  then show ?thesis using j by (cases r) (simp_all add: checkBudget_def checkAgainst_def g Let_def saveBudget_def)
qed

lemma op_warned:
  assumes "warnedState k w s" and "0 < periodStartAt w" and "opWithin w op"
  shows "warnedState k w (budgetOp op s)"
proof (cases op)
  case (BudgetCheck j a n1 n2 n3)
  then show ?thesis using check_warned [OF assms(1,2), of n1 n2 a n3] assms(1,3) budget_check_other [of j k a n1 n2 n3 s]
    by (cases "j = k") (simp_all add: insideWindow_def warnedState_def)
next
  case (BudgetRead j n)
  show ?thesis
  proof (cases "j = k")
    case True
    obtain b where b: "jget k (bs_budgets s) = Some b" "warnedIn w b" using assms(1) by (auto simp: warnedState_def)
    obtain b' s' where y: "syncBudgetSchedule k (configObject b) n True True s = (b', s')"
      by (cases "syncBudgetSchedule k (configObject b) n True True s")
    show ?thesis using sync_warned [OF b(2) assms(2) _ _ y, of k] BudgetRead True assms(3)
      by (simp add: getBudget_def storedConfig_def b(1) y warnedState_def insideWindow_def)
  next
    case False
    then show ?thesis using BudgetRead assms(1) by (simp add: warnedState_def getBudget_other)
  qed
next
  case (BudgetSpend x)
  then show ?thesis using assms(1) by (simp add: warnedState_def)
qed

lemma ops_warned:
  "warnedState k w s \<Longrightarrow> 0 < periodStartAt w \<Longrightarrow> \<forall>op \<in> set ops. opWithin w op \<Longrightarrow> warnedState k w (fold budgetOp ops s)"
  by (induction ops arbitrary: s) (simp_all add: op_warned)

lemma window_of_inside:
  assumes "0 \<le> now" and "w = getBudgetWindow i resetTime now" and "0 \<le> t" and "insideWindow w t"
  shows "getBudgetWindow i resetTime t = w"
proof -
  obtain k where "w = \<lparr>periodStartAt = resetInstant i (resetOffset resetTime) k, nextResetAt = resetInstant i (resetOffset resetTime) (k + 1)\<rparr>"
    using window_between [OF assms(1)] assms(2) by metis
  moreover obtain j where "getBudgetWindow i resetTime t =
      \<lparr>periodStartAt = resetInstant i (resetOffset resetTime) j, nextResetAt = resetInstant i (resetOffset resetTime) (j + 1)\<rparr>"
    "resetInstant i (resetOffset resetTime) j \<le> t" "t < resetInstant i (resetOffset resetTime) (j + 1)"
    using window_between [OF assms(3)] by metis
  ultimately show ?thesis using resetInstant_unique [of i "resetOffset resetTime" k t j] assms(4) by (simp add: insideWindow_def)
qed

text \<open>
  One warning per window: after a check has emitted the warning of a budget, no later check of it in the same window
  emits another, whatever checks and reads of it and of other budgets, records and writes of spend happen in between.
\<close>

theorem warned_once_per_window:
  assumes "checkBudget k a n1 n2 n3 s = ((c, True), s1)" and "ck_window c = Some w"
    and "0 < periodStartAt w" and "insideWindow w n1" and "0 \<le> n2"
    and "\<forall>op \<in> set ops. opWithin w op" and "insideWindow w m1" and "insideWindow w m2"
  shows "\<not> snd (fst (checkBudget k a' m1 m2 m3 (fold budgetOp ops s1)))"
proof -
  obtain config where conf: "storedConfig k s = Some config"
    using assms(1) by (cases "storedConfig k s") (simp_all add: checkBudget_def checkAgainst_def getBudget_def)
  obtain b s0 where y: "syncBudgetSchedule k config n1 True True s = (b, s0)" by (cases "syncBudgetSchedule k config n1 True True s")
  define i rt where "i = bc_resetInterval b" and "rt = bc_resetTime b"
  have b: "i = bc_resetInterval (normalizeBudgetConfig config)" "rt = bc_resetTime (normalizeBudgetConfig config)"
    using sync_keeps_limits [OF y] by (simp_all add: i_def rt_def)
  have w: "w = getBudgetWindow i rt n2"
    using assms(1,2) by (auto simp: checkBudget_def checkAgainst_def getBudget_def conf y Let_def i_def rt_def)
  note inside = window_of_inside [OF assms(5) w]
  have "getBudgetWindow i rt n1 = w" using inside [of n1] assms(3,4) by (simp add: insideWindow_def)
  then have last: "bc_lastBudgetResetAt b = Some (of_int (periodStartAt w))"
    using y b by (auto simp: syncBudgetSchedule_def syncStart_def Let_def)
  have "normalizeResetTime (JStr rt) = rt" by (simp add: b normalizeBudgetConfig_def normalize_normal)
  moreover have "getBudgetWindow i rt t = w" if "0 \<le> t" "periodStartAt w \<le> t" "t < nextResetAt w" for t
    using inside [of t] that by (simp add: insideWindow_def)
  ultimately have "warnedIn w (b\<lparr>bc_warningEmittedAt := Some (of_int n3), bc_warningPeriodStart := Some (of_int (periodStartAt w))\<rparr>)"
    using last by (simp add: warnedIn_def i_def rt_def)
  then have "warnedState k w s1"
    using assms(1) by (auto simp: checkBudget_def checkAgainst_def getBudget_def conf y Let_def w i_def rt_def saveBudget_def warnedState_def split: if_splits)
  then have "warnedState k w (fold budgetOp ops s1)" by (rule ops_warned [OF _ assms(3,6)])
  from check_warned [OF this assms(3)] show ?thesis using assms(7,8) by (simp add: insideWindow_def)
qed

theorem warned_once_per_window_witness:
  "let s1 = snd (checkBudget ''k'' 2 1760000000002 1760000000002 1760000000003 dailyBudget)
   in \<not> snd (fst (checkBudget ''k'' 9 1760070000000 1760070000000 1760070000000
        (fold budgetOp [BudgetSpend SpendFlush, BudgetRead ''k'' 1760050000000, BudgetCheck ''j'' 0 1760060000000 1760060000000 0] s1)))"
proof -
  define c where "c = fst (fst (checkBudget ''k'' 2 1760000000002 1760000000002 1760000000003 dailyBudget))"
  define s1 where "s1 = snd (checkBudget ''k'' 2 1760000000002 1760000000002 1760000000003 dailyBudget)"
  have e: "snd (fst (checkBudget ''k'' 2 1760000000002 1760000000002 1760000000003 dailyBudget)) = True" by code_simp
  have w: "ck_window c = Some \<lparr>periodStartAt = 1759989600000, nextResetAt = 1760076000000\<rparr>" unfolding c_def by code_simp
  have r: "checkBudget ''k'' 2 1760000000002 1760000000002 1760000000003 dailyBudget = ((c, True), s1)"
    using e by (simp add: c_def s1_def prod_eq_iff)
  show ?thesis unfolding Let_def s1_def [symmetric]
    by (rule warned_once_per_window [OF r w]) (simp_all add: insideWindow_def)
qed

end
