(* ===== verification/TokenLimits.thy ===== *)
theory TokenLimits
  imports BudgetWindow "HOL-Library.List_Lexorder" "HOL-Library.Char_ord"
begin

text \<open>
  Token limits of API keys: the rows of \<open>src/lib/db/tokenLimits.ts\<close> and the counters, the check and the recording of
  \<open>open-sse/services/tokenLimitCounter.ts\<close>. A read of a window is split where it awaits the database, and
  a check is such a read for each of its limits; the recording of a request is one step, because it is queued and runs in
  a transaction, or none when the transaction fails, which the queue swallows. The start of a window is its
  number instead of the text of it, which orders alike from 2001 to 2286.
\<close>

section \<open>Limits\<close>

datatype scope_type = ScopeModel | ScopeProvider | ScopeGlobal

record token_limit =
  tl_id :: string
  tl_apiKeyId :: string
  tl_scopeType :: scope_type
  tl_scopeValue :: string
  tl_tokenLimit :: int
  tl_resetInterval :: reset_interval
  tl_resetTime :: string
  tl_enabled :: bool

record upsert_input =
  ui_id :: "string option"
  ui_apiKeyId :: string
  ui_scopeType :: json
  ui_scopeValue :: "string option"
  ui_tokenLimit :: json
  ui_resetInterval :: json
  ui_resetTime :: json
  ui_enabled :: "bool option"

definition normalizeScopeType :: "json \<Rightarrow> scope_type" where
  "normalizeScopeType v =
     (if v = JStr ''model'' then ScopeModel else if v = JStr ''provider'' then ScopeProvider else ScopeGlobal)"

definition normalizeLimitInterval :: "json \<Rightarrow> reset_interval" where
  "normalizeLimitInterval v =
     (if v = JStr ''daily'' then ResetDaily else if v = JStr ''weekly'' then ResetWeekly else ResetMonthly)"

text \<open>A row of \<open>usage_history\<close>, as far as the limits read it and the guard against duplicates compares it.\<close>

record usage_row =
  ur_apiKeyId :: string
  ur_provider :: string
  ur_model :: string
  ur_connectionId :: string
  ur_input :: nat
  ur_output :: nat
  ur_reasoning :: nat
  ur_timestamp :: millis

record counter_cache =
  cc_windowStart :: millis
  cc_tokensUsed :: nat
  cc_syncedAt :: millis

record reset_log =
  rl_limitId :: string
  rl_prevTokens :: nat
  rl_windowStart :: millis

record token_state =
  ts_limits :: "token_limit list"
  ts_counters :: "(string \<times> millis, nat) jmap"
  ts_logs :: "reset_log list"
  ts_history :: "usage_row list"
  ts_cache :: "(string, counter_cache) jmap"

definition CACHE_TTL_MS :: millis where "CACHE_TTL_MS = 5000"

definition sameScope :: "string \<Rightarrow> scope_type \<Rightarrow> string \<Rightarrow> token_limit \<Rightarrow> bool" where
  "sameScope apiKeyId scopeType scopeValue l \<longleftrightarrow>
     tl_apiKeyId l = apiKeyId \<and> tl_scopeType l = scopeType \<and> tl_scopeValue l = scopeValue"

text \<open>
  The upsert; \<open>None\<close> when a constraint of the table fails: a limit that is not positive, an identifier in use.
\<close>

definition upsertTokenLimit :: "string \<Rightarrow> upsert_input \<Rightarrow> token_state \<Rightarrow> (token_limit \<times> token_state) option" where
  "upsertTokenLimit randomUUID input s =
     (let scopeType = normalizeScopeType (ui_scopeType input);
          scopeValue = (if scopeType = ScopeGlobal then [] else trim (nullish (ui_scopeValue input) []));
          resetTime = (case ui_resetTime input of JStr t \<Rightarrow> if t \<noteq> [] then t else ''00:00'' | _ \<Rightarrow> ''00:00'');
          tokenLimit = \<lfloor>nullish (numberOrText (ui_tokenLimit input)) 0\<rfloor>;
          id = (case ui_id input of Some i \<Rightarrow> if trim i \<noteq> [] then trim i else randomUUID | None \<Rightarrow> randomUUID);
          new = \<lparr>tl_id = id, tl_apiKeyId = ui_apiKeyId input, tl_scopeType = scopeType, tl_scopeValue = scopeValue,
                 tl_tokenLimit = tokenLimit, tl_resetInterval = normalizeLimitInterval (ui_resetInterval input),
                 tl_resetTime = resetTime, tl_enabled = (ui_enabled input \<noteq> Some False)\<rparr>
      in if tokenLimit \<le> 0 then None
         else (case find (sameScope (ui_apiKeyId input) scopeType scopeValue) (ts_limits s) of
                 Some old \<Rightarrow>
                   (let row = new\<lparr>tl_id := tl_id old\<rparr>
                    in Some (row, s\<lparr>ts_limits := map (\<lambda>l. if sameScope (ui_apiKeyId input) scopeType scopeValue l then row else l)
                                                  (ts_limits s)\<rparr>))
               | None \<Rightarrow>
                   (if id \<in> tl_id ` set (ts_limits s) then None else Some (new, s\<lparr>ts_limits := ts_limits s @ [new]\<rparr>))))"

definition scopeRank :: "scope_type \<Rightarrow> nat" where
  "scopeRank t = (case t of ScopeModel \<Rightarrow> 0 | ScopeProvider \<Rightarrow> 1 | ScopeGlobal \<Rightarrow> 2)"

definition listTokenLimits :: "string \<Rightarrow> token_state \<Rightarrow> token_limit list" where
  "listTokenLimits apiKeyId s =
     sort_key (scopeRank \<circ> tl_scopeType) (sort_key tl_scopeValue (filter (\<lambda>l. tl_apiKeyId l = apiKeyId) (ts_limits s)))"

definition appliesTo :: "string \<Rightarrow> string \<Rightarrow> string \<Rightarrow> token_limit \<Rightarrow> bool" where
  "appliesTo apiKeyId provider model l \<longleftrightarrow>
     tl_apiKeyId l = apiKeyId \<and> tl_enabled l
     \<and> (tl_scopeType l = ScopeGlobal \<or> tl_scopeType l = ScopeModel \<and> tl_scopeValue l = model
        \<or> tl_scopeType l = ScopeProvider \<and> tl_scopeValue l = provider)"

definition getTokenLimitsForRequest :: "string \<Rightarrow> string \<Rightarrow> string \<Rightarrow> token_state \<Rightarrow> token_limit list" where
  "getTokenLimitsForRequest apiKeyId provider model s = filter (appliesTo apiKeyId provider model) (ts_limits s)"

definition deleteTokenLimit :: "string \<Rightarrow> token_state \<Rightarrow> bool \<times> token_state" where
  "deleteTokenLimit limitId s =
     (limitId \<in> tl_id ` set (ts_limits s),
      s\<lparr>ts_counters := filter (\<lambda>p. fst (fst p) \<noteq> limitId) (ts_counters s),
        ts_logs := filter (\<lambda>l. rl_limitId l \<noteq> limitId) (ts_logs s),
        ts_limits := filter (\<lambda>l. tl_id l \<noteq> limitId) (ts_limits s)\<rparr>)"

section \<open>Counters\<close>

definition resetWindowIfElapsed :: "token_limit \<Rightarrow> millis \<Rightarrow> budget_window" where
  "resetWindowIfElapsed l now = getBudgetWindow (tl_resetInterval l) (tl_resetTime l) now"

definition getWindowUsage :: "token_limit \<Rightarrow> millis \<Rightarrow> token_state \<Rightarrow> nat" where
  "getWindowUsage l now s = nullish (jget (tl_id l, periodStartAt (resetWindowIfElapsed l now)) (ts_counters s)) 0"

definition incrementWindowTokens :: "string \<Rightarrow> millis \<Rightarrow> nat \<Rightarrow> token_state \<Rightarrow> nat \<times> token_state" where
  "incrementWindowTokens limitId windowStart tokens s =
     (let total = nullish (jget (limitId, windowStart) (ts_counters s)) 0 + tokens
      in (total, s\<lparr>ts_counters := jset (limitId, windowStart) total (ts_counters s)\<rparr>))"

definition logTokenLimitReset :: "string \<Rightarrow> nat \<Rightarrow> millis \<Rightarrow> token_state \<Rightarrow> token_state" where
  "logTokenLimitReset limitId prevTokens windowStart s =
     s\<lparr>ts_logs := ts_logs s @ [\<lparr>rl_limitId = limitId, rl_prevTokens = prevTokens, rl_windowStart = windowStart\<rparr>]\<rparr>"

definition billable :: "usage_row \<Rightarrow> nat" where
  "billable r = ur_input r + ur_output r + ur_reasoning r"

definition countsFor :: "token_limit \<Rightarrow> millis \<Rightarrow> usage_row \<Rightarrow> bool" where
  "countsFor l lowerBound r \<longleftrightarrow>
     ur_apiKeyId r = tl_apiKeyId l \<and> lowerBound \<le> ur_timestamp r
     \<and> (case tl_scopeType l of
          ScopeModel \<Rightarrow> ur_model r = tl_scopeValue l
        | ScopeProvider \<Rightarrow> ur_provider r = tl_scopeValue l
        | ScopeGlobal \<Rightarrow> True)"

definition seedWindowUsageFromHistory :: "token_limit \<Rightarrow> millis \<Rightarrow> token_state \<Rightarrow> nat" where
  "seedWindowUsageFromHistory l now s =
     sum_list (map billable (filter (countsFor l (periodStartAt (resetWindowIfElapsed l now))) (ts_history s)))"

text \<open>\<open>getCurrentWindowUsage\<close>: the cache, or the counter and whether the window has to be seeded.\<close>

datatype usage_read = UsageCached nat | UsageCounter nat bool

definition readUsage :: "token_limit \<Rightarrow> millis \<Rightarrow> bool \<Rightarrow> token_state \<Rightarrow> usage_read" where
  "readUsage l now forceFresh s =
     (let windowStart = periodStartAt (resetWindowIfElapsed l now); cached = jget (tl_id l) (ts_cache s);
          sameWindow = (case cached of Some c \<Rightarrow> cc_windowStart c = windowStart | None \<Rightarrow> False);
          fresh = (case cached of Some c \<Rightarrow> now - cc_syncedAt c < CACHE_TTL_MS | None \<Rightarrow> False);
          dbUsage = getWindowUsage l now s
      in if \<not> forceFresh \<and> sameWindow \<and> fresh then UsageCached (case cached of Some c \<Rightarrow> cc_tokensUsed c | None \<Rightarrow> 0)
         else UsageCounter dbUsage (dbUsage = 0 \<and> \<not> sameWindow))"

definition storeUsage :: "token_limit \<Rightarrow> millis \<Rightarrow> nat \<Rightarrow> nat \<Rightarrow> token_state \<Rightarrow> nat \<times> token_state" where
  "storeUsage l now dbUsage seeded s =
     (let windowStart = periodStartAt (resetWindowIfElapsed l now);
          (total, s1) = (if 0 < seeded then incrementWindowTokens (tl_id l) windowStart seeded s else (dbUsage, s))
      in (total, s1\<lparr>ts_cache := jset (tl_id l)
            \<lparr>cc_windowStart = windowStart, cc_tokensUsed = total, cc_syncedAt = now\<rparr> (ts_cache s1)\<rparr>))"

definition getCurrentWindowUsage :: "token_limit \<Rightarrow> millis \<Rightarrow> bool \<Rightarrow> token_state \<Rightarrow> nat \<times> token_state" where
  "getCurrentWindowUsage l now forceFresh s =
     (case readUsage l now forceFresh s of
        UsageCached n \<Rightarrow> (n, s)
      | UsageCounter n cold \<Rightarrow> storeUsage l now n (if cold then seedWindowUsageFromHistory l now s else 0) s)"

definition addWindowTokens :: "token_limit \<Rightarrow> rat \<Rightarrow> millis \<Rightarrow> token_state \<Rightarrow> nat \<times> token_state" where
  "addWindowTokens l tokens now s =
     (let windowStart = periodStartAt (resetWindowIfElapsed l now); delta = (if 0 < tokens then nat \<lfloor>tokens\<rfloor> else 0);
          (total, s1) = incrementWindowTokens (tl_id l) windowStart delta s
      in (total, s1\<lparr>ts_cache := jset (tl_id l)
            \<lparr>cc_windowStart = windowStart, cc_tokensUsed = total, cc_syncedAt = now\<rparr> (ts_cache s1)\<rparr>))"

definition syncCache :: "string \<Rightarrow> millis \<Rightarrow> nat \<Rightarrow> millis \<Rightarrow> token_state \<Rightarrow> token_state" where
  "syncCache limitId windowStart tokensUsed now s =
     s\<lparr>ts_cache := jset limitId \<lparr>cc_windowStart = windowStart, cc_tokensUsed = tokensUsed, cc_syncedAt = now\<rparr> (ts_cache s)\<rparr>"

definition invalidateLimit :: "string \<Rightarrow> token_state \<Rightarrow> token_state" where
  "invalidateLimit limitId s = s\<lparr>ts_cache := jdel limitId (ts_cache s)\<rparr>"

definition clearTokenLimitCache :: "token_state \<Rightarrow> token_state" where
  "clearTokenLimitCache s = s\<lparr>ts_cache := []\<rparr>"

section \<open>The check\<close>

record token_breach =
  tb_limitId :: string
  tb_scopeType :: scope_type
  tb_scopeValue :: string
  tb_limitValue :: int
  tb_tokensUsed :: nat
  tb_remaining :: int
  tb_window :: budget_window

definition breachOf :: "token_limit \<Rightarrow> millis \<Rightarrow> nat \<Rightarrow> token_breach" where
  "breachOf l now tokensUsed =
     \<lparr>tb_limitId = tl_id l, tb_scopeType = tl_scopeType l, tb_scopeValue = tl_scopeValue l, tb_limitValue = tl_tokenLimit l,
      tb_tokensUsed = tokensUsed, tb_remaining = max 0 (tl_tokenLimit l - int tokensUsed), tb_window = resetWindowIfElapsed l now\<rparr>"

definition moreRestrictive :: "token_breach \<Rightarrow> token_breach option \<Rightarrow> bool" where
  "moreRestrictive b worst \<longleftrightarrow>
     (case worst of
        None \<Rightarrow> True
      | Some w \<Rightarrow> tb_remaining b < tb_remaining w \<or> tb_remaining b = tb_remaining w \<and> tb_limitValue b < tb_limitValue w)"

fun checkLimits ::
  "token_limit list \<Rightarrow> millis \<Rightarrow> token_breach option \<Rightarrow> token_state \<Rightarrow> token_breach option \<times> token_state" where
  "checkLimits [] now worst s = (worst, s)"
| "checkLimits (l # ls) now worst s =
     (if \<not> tl_enabled l \<or> tl_tokenLimit l \<le> 0 then checkLimits ls now worst s
      else (let (tokensUsed, s1) = getCurrentWindowUsage l now True s; b = breachOf l now tokensUsed
            in checkLimits ls now
                 (if int tokensUsed < tl_tokenLimit l then worst else if moreRestrictive b worst then Some b else worst) s1))"

definition checkTokenLimits ::
  "string \<Rightarrow> string \<Rightarrow> string \<Rightarrow> millis \<Rightarrow> token_state \<Rightarrow> token_breach option \<times> token_state" where
  "checkTokenLimits apiKeyId provider model now s =
     (if apiKeyId = [] then (None, s) else checkLimits (getTokenLimitsForRequest apiKeyId provider model s) now None s)"

section \<open>Recording\<close>

text \<open>The usage of the latest earlier window of a limit.\<close>

definition priorTokens :: "string \<Rightarrow> millis \<Rightarrow> token_state \<Rightarrow> nat" where
  "priorTokens limitId windowStart s =
     (let rows = filter (\<lambda>p. fst (fst p) = limitId \<and> snd (fst p) < windowStart) (ts_counters s)
      in case sort_key (\<lambda>p. - snd (fst p)) rows of [] \<Rightarrow> 0 | p # _ \<Rightarrow> snd p)"

definition recordFor :: "token_limit \<Rightarrow> nat \<Rightarrow> millis \<Rightarrow> token_state \<Rightarrow> nat \<times> token_state" where
  "recordFor l delta now s =
     (let windowStart = periodStartAt (resetWindowIfElapsed l now);
          s1 = (if jget (tl_id l, windowStart) (ts_counters s) = None
                then (let prev = priorTokens (tl_id l) windowStart s;
                          s0 = (if 0 < prev then logTokenLimitReset (tl_id l) prev windowStart s else s);
                          seeded = seedWindowUsageFromHistory l now s0
                      in if 0 < seeded then snd (incrementWindowTokens (tl_id l) windowStart seeded s0) else s0)
                else s)
      in incrementWindowTokens (tl_id l) windowStart delta s1)"

fun recordAll ::
  "token_limit list \<Rightarrow> nat \<Rightarrow> millis \<Rightarrow> token_state \<Rightarrow> (string \<times> millis \<times> nat) list \<times> token_state" where
  "recordAll [] delta now s = ([], s)"
| "recordAll (l # ls) delta now s =
     (if \<not> tl_enabled l then recordAll ls delta now s
      else (let (total, s1) = recordFor l delta now s; (applied, s2) = recordAll ls delta now s1
            in ((tl_id l, periodStartAt (resetWindowIfElapsed l now), total) # applied, s2)))"

text \<open>The queued work of \<open>recordTokenUsage\<close>, when its turn comes, and whether its transaction succeeds.\<close>

definition recordTokenUsage :: "bool \<Rightarrow> string \<Rightarrow> string \<Rightarrow> string \<Rightarrow> rat option \<Rightarrow> millis \<Rightarrow> token_state \<Rightarrow> token_state" where
  "recordTokenUsage written apiKeyId provider model tokens now s =
     (let delta = (case tokens of Some t \<Rightarrow> if 0 < t then nat \<lfloor>t\<rfloor> else 0 | None \<Rightarrow> 0)
      in if apiKeyId = [] \<or> delta = 0 \<or> \<not> written then s
         else (let (applied, s1) = recordAll (getTokenLimitsForRequest apiKeyId provider model s) delta now s
               in fold (\<lambda>(limitId, windowStart, total). syncCache limitId windowStart total now) applied s1))"

text \<open>The row a finished request leaves in the history; an equal one is not inserted again.\<close>

definition sameUsage :: "usage_row \<Rightarrow> usage_row \<Rightarrow> bool" where
  "sameUsage r r' \<longleftrightarrow> ur_timestamp r = ur_timestamp r' \<and> ur_provider r = ur_provider r' \<and> ur_model r = ur_model r'
     \<and> ur_connectionId r = ur_connectionId r' \<and> ur_apiKeyId r = ur_apiKeyId r' \<and> ur_input r = ur_input r' \<and> ur_output r = ur_output r'"

definition saveUsageRow :: "usage_row \<Rightarrow> token_state \<Rightarrow> token_state" where
  "saveUsageRow r s = (if list_ex (sameUsage r) (ts_history s) then s else s\<lparr>ts_history := ts_history s @ [r]\<rparr>)"

definition emptyTokens :: "token_limit list \<Rightarrow> token_state" where
  "emptyTokens limits = \<lparr>ts_limits = limits, ts_counters = [], ts_logs = [], ts_history = [], ts_cache = []\<rparr>"

end
