(* ===== verification/TokenLaws.thy ===== *)
theory TokenLaws
  imports TokenLimits
begin

text \<open>
  Properties of token limits: which breach the check reports, exact counting once a window has a counter, and the
  two ways in which a cold window counts usage twice.
\<close>

section \<open>The check\<close>

lemma increment_frame [simp]:
  "ts_limits (snd (incrementWindowTokens i w n s)) = ts_limits s" "ts_history (snd (incrementWindowTokens i w n s)) = ts_history s"
  "ts_cache (snd (incrementWindowTokens i w n s)) = ts_cache s" "ts_logs (snd (incrementWindowTokens i w n s)) = ts_logs s"
  by (simp_all add: incrementWindowTokens_def Let_def)

lemma increment_counters [simp]:
  "jget k (ts_counters (snd (incrementWindowTokens i w n s)))
    = (if k = (i, w) then Some (nullish (jget (i, w) (ts_counters s)) 0 + n) else jget k (ts_counters s))"
  "fst (incrementWindowTokens i w n s) = nullish (jget (i, w) (ts_counters s)) 0 + n"
  by (simp_all add: incrementWindowTokens_def Let_def)

text \<open>The state as far as one limit sees it.\<close>

definition sameFor :: "string \<Rightarrow> token_state \<Rightarrow> token_state \<Rightarrow> bool" where
  "sameFor i s s' \<longleftrightarrow> ts_history s' = ts_history s \<and> jget i (ts_cache s') = jget i (ts_cache s)
     \<and> (\<forall>w. jget (i, w) (ts_counters s') = jget (i, w) (ts_counters s))"

lemma usage_other:
  "tl_id l \<noteq> i \<Longrightarrow> sameFor i s (snd (getCurrentWindowUsage l now ff s))"
  by (auto simp: sameFor_def getCurrentWindowUsage_def storeUsage_def Let_def split: usage_read.split prod.split
      dest: arg_cong [of "(_, _)" _ snd])
     (simp_all add: incrementWindowTokens_def Let_def)

lemma usage_same:
  assumes "sameFor (tl_id l) s s'"
  shows "fst (getCurrentWindowUsage l now ff s') = fst (getCurrentWindowUsage l now ff s)"
proof -
  have r: "readUsage l now ff s' = readUsage l now ff s"
    using assms by (simp add: readUsage_def getWindowUsage_def sameFor_def)
  have h: "seedWindowUsageFromHistory l now s' = seedWindowUsageFromHistory l now s"
    using assms by (simp add: seedWindowUsageFromHistory_def sameFor_def)
  have i: "fst (storeUsage l now n m s') = fst (storeUsage l now n m s)" for n m
    using assms by (simp add: storeUsage_def sameFor_def incrementWindowTokens_def Let_def)
  show ?thesis by (cases "readUsage l now ff s") (simp_all add: getCurrentWindowUsage_def r h i)
qed

lemma sameFor_trans: "sameFor i s s' \<Longrightarrow> sameFor i s' s'' \<Longrightarrow> sameFor i s s''"
  by (simp add: sameFor_def)

definition usageOf :: "token_limit \<Rightarrow> millis \<Rightarrow> token_state \<Rightarrow> nat" where
  "usageOf l now s = fst (getCurrentWindowUsage l now True s)"

definition breached :: "millis \<Rightarrow> token_state \<Rightarrow> token_limit \<Rightarrow> bool" where
  "breached now s l \<longleftrightarrow> tl_enabled l \<and> 0 < tl_tokenLimit l \<and> tl_tokenLimit l \<le> int (usageOf l now s)"

text \<open>The worst of the breaches so far.\<close>

definition worstOf :: "token_limit list \<Rightarrow> millis \<Rightarrow> token_state \<Rightarrow> token_breach option \<Rightarrow> bool" where
  "worstOf ls now s worst \<longleftrightarrow>
     (case worst of
        None \<Rightarrow> \<forall>l \<in> set ls. \<not> breached now s l
      | Some b \<Rightarrow> tb_remaining b = 0 \<and> (\<exists>l \<in> set ls. breached now s l \<and> b = breachOf l now (usageOf l now s))
          \<and> (\<forall>l \<in> set ls. breached now s l \<longrightarrow> tb_limitValue b \<le> tl_tokenLimit l))"

lemma breach_remaining: "breached now s l \<Longrightarrow> tb_remaining (breachOf l now (usageOf l now s)) = 0"
  by (simp add: breached_def breachOf_def)

lemma worst_step:
  assumes "worstOf done now s worst" and "breached now s l"
  shows "worstOf (done @ [l]) now s
    (if moreRestrictive (breachOf l now (usageOf l now s)) worst then Some (breachOf l now (usageOf l now s)) else worst)"
proof -
  have r: "tb_remaining (breachOf l now (usageOf l now s)) = 0" "tb_limitValue (breachOf l now (usageOf l now s)) = tl_tokenLimit l"
    using breach_remaining [OF assms(2)] by (simp_all add: breachOf_def)
  show ?thesis using assms r
    by (cases worst) (auto simp: worstOf_def moreRestrictive_def intro: order_trans less_imp_le)
qed

lemma check_worst:
  "distinct (map tl_id (done @ ls)) \<Longrightarrow> \<forall>l \<in> set ls. sameFor (tl_id l) s s' \<Longrightarrow> worstOf done now s worst
   \<Longrightarrow> worstOf (done @ ls) now s (fst (checkLimits ls now worst s'))"
proof (induction ls arbitrary: "done" worst s')
  case (Cons l ls)
  show ?case
  proof (cases "\<not> tl_enabled l \<or> tl_tokenLimit l \<le> 0")
    case True
    then have "worstOf (done @ [l]) now s worst" using Cons.prems(3)
      by (auto simp: worstOf_def breached_def split: option.splits)
    then show ?thesis using Cons.IH [of "done @ [l]" s' worst] Cons.prems(1,2) True by simp
  next
    case False
    obtain n s1 where g: "getCurrentWindowUsage l now True s' = (n, s1)" by (cases "getCurrentWindowUsage l now True s'")
    have n: "n = usageOf l now s" using usage_same [of l s s' now True] Cons.prems(2) g by (simp add: usageOf_def)
    define worst' where "worst' = (if int n < tl_tokenLimit l then worst
      else if moreRestrictive (breachOf l now n) worst then Some (breachOf l now n) else worst)"
    have w: "worstOf (done @ [l]) now s worst'"
    proof (cases "int n < tl_tokenLimit l")
      case True
      then show ?thesis using Cons.prems(3) n by (auto simp: worst'_def worstOf_def breached_def split: option.splits)
    next
      case F: False
      then have b: "breached now s l" using False n by (simp add: breached_def)
      have "worst' = (if moreRestrictive (breachOf l now (usageOf l now s)) worst then Some (breachOf l now (usageOf l now s)) else worst)"
        using F by (simp add: worst'_def n)
      then show ?thesis using worst_step [OF Cons.prems(3) b] by (simp only:)
    qed
    have same: "\<forall>l' \<in> set ls. sameFor (tl_id l') s s1"
    proof
      fix l' assume l': "l' \<in> set ls"
      then have "tl_id l \<noteq> tl_id l'" using Cons.prems(1) by auto
      from usage_other [OF this, of s' now True] show "sameFor (tl_id l') s s1"
        using Cons.prems(2) l' g sameFor_trans [of "tl_id l'" s s' s1] by simp
    qed
    have "worstOf ((done @ [l]) @ ls) now s (fst (checkLimits ls now worst' s1))"
      by (rule Cons.IH [OF _ same w]) (use Cons.prems(1) in simp)
    then show ?thesis using False by (simp add: g worst'_def Let_def)
  qed
qed simp

text \<open>
  The check reports a breach exactly when an applicable limit has no budget left in its current window, and then the
  breached limit with the smallest value; the tokens that remain are 0 in every breach, so the comparison of what
  remains never decides.
\<close>

theorem token_check_exact:
  assumes "apiKeyId \<noteq> []" and "distinct (map tl_id (ts_limits s))"
  shows "case fst (checkTokenLimits apiKeyId provider model now s) of
      None \<Rightarrow> \<forall>l \<in> set (ts_limits s). appliesTo apiKeyId provider model l \<and> 0 < tl_tokenLimit l \<longrightarrow> int (usageOf l now s) < tl_tokenLimit l
    | Some b \<Rightarrow> tb_remaining b = 0
        \<and> (\<exists>l \<in> set (ts_limits s). appliesTo apiKeyId provider model l \<and> tl_tokenLimit l \<le> int (usageOf l now s)
              \<and> b = breachOf l now (usageOf l now s))
        \<and> (\<forall>l \<in> set (ts_limits s). appliesTo apiKeyId provider model l \<and> 0 < tl_tokenLimit l \<and> tl_tokenLimit l \<le> int (usageOf l now s)
              \<longrightarrow> tb_limitValue b \<le> tl_tokenLimit l)"
proof -
  let ?ls = "getTokenLimitsForRequest apiKeyId provider model s"
  have d: "distinct (map tl_id ([] @ ?ls))" using assms(2) by (simp add: getTokenLimitsForRequest_def distinct_map_filter)
  have "worstOf ([] @ ?ls) now s (fst (checkLimits ?ls now None s))"
    by (rule check_worst [OF d]) (simp_all add: sameFor_def worstOf_def)
  moreover have "appliesTo apiKeyId provider model l \<Longrightarrow> tl_enabled l" for l by (simp add: appliesTo_def)
  ultimately show ?thesis using assms(1)
    by (fastforce simp: checkTokenLimits_def worstOf_def breached_def getTokenLimitsForRequest_def split: option.splits)
qed

definition sampleLimit :: "string \<Rightarrow> int \<Rightarrow> token_limit" where
  "sampleLimit i n = \<lparr>tl_id = i, tl_apiKeyId = ''k'', tl_scopeType = ScopeGlobal, tl_scopeValue = [], tl_tokenLimit = n,
     tl_resetInterval = ResetMonthly, tl_resetTime = ''00:00'', tl_enabled = True\<rparr>"

lemma sample_applies: "appliesTo k p m (sampleLimit i n) \<longleftrightarrow> k = ''k''"
  by (auto simp: appliesTo_def sampleLimit_def)

definition sampleTokens :: token_state where
  "sampleTokens = (emptyTokens [sampleLimit ''a'' 90, sampleLimit ''b'' 50])
     \<lparr>ts_counters := [((''a'', 1759276800000), 95), ((''b'', 1759276800000), 60)]\<rparr>"

theorem token_check_exact_witness:
  "case fst (checkTokenLimits ''k'' ''p'' ''m'' 1760000000000 sampleTokens) of None \<Rightarrow> False | Some b \<Rightarrow> tb_limitValue b \<le> 50"
proof -
  have "distinct (map tl_id (ts_limits sampleTokens))" by code_simp
  moreover have "appliesTo ''k'' ''p'' ''m'' (sampleLimit ''b'' 50) \<and> sampleLimit ''b'' 50 \<in> set (ts_limits sampleTokens)" by code_simp
  moreover have "usageOf (sampleLimit ''b'' 50) 1760000000000 sampleTokens = 60" by code_simp
  moreover have "tl_tokenLimit (sampleLimit ''b'' 50) = 50" by code_simp
  ultimately show ?thesis using token_check_exact [of "''k''" sampleTokens "''p''" "''m''" 1760000000000]
    by (fastforce split: option.splits)
qed

section \<open>A window with a counter\<close>

text \<open>The state, and the reads that await the database with what they have found.\<close>

record token_run =
  tr_tokens :: token_state
  tr_reads :: "(token_limit \<times> millis \<times> usage_read) list"

datatype token_op =
    TokenStart token_limit millis bool
  | TokenFinish nat
  | TokenRecord bool string string string "rat option" millis
  | TokenSaved usage_row
  | TokenInvalidate string
  | TokenClear

definition finishUsage :: "token_limit \<times> millis \<times> usage_read \<Rightarrow> token_state \<Rightarrow> token_state" where
  "finishUsage r s =
     (case r of (l, now, UsageCached n) \<Rightarrow> s
      | (l, now, UsageCounter n cold) \<Rightarrow> snd (storeUsage l now n (if cold then seedWindowUsageFromHistory l now s else 0) s))"

fun tokenOp :: "token_op \<Rightarrow> token_run \<Rightarrow> token_run" where
  "tokenOp (TokenStart l now ff) s = s\<lparr>tr_reads := tr_reads s @ [(l, now, readUsage l now ff (tr_tokens s))]\<rparr>"
| "tokenOp (TokenFinish i) s =
     (if i < length (tr_reads s)
      then s\<lparr>tr_tokens := finishUsage (tr_reads s ! i) (tr_tokens s), tr_reads := take i (tr_reads s) @ drop (Suc i) (tr_reads s)\<rparr>
      else s)"
| "tokenOp (TokenRecord ok k p m n now) s = s\<lparr>tr_tokens := recordTokenUsage ok k p m n now (tr_tokens s)\<rparr>"
| "tokenOp (TokenSaved r) s = s\<lparr>tr_tokens := saveUsageRow r (tr_tokens s)\<rparr>"
| "tokenOp (TokenInvalidate i) s = s\<lparr>tr_tokens := invalidateLimit i (tr_tokens s)\<rparr>"
| "tokenOp TokenClear s = s\<lparr>tr_tokens := clearTokenLimitCache (tr_tokens s)\<rparr>"

text \<open>A read between whose steps nothing happens.\<close>

lemma read_alone:
  "tr_tokens (fold tokenOp [TokenStart l now ff, TokenFinish 0] \<lparr>tr_tokens = s, tr_reads = []\<rparr>) = snd (getCurrentWindowUsage l now ff s)"
  by (simp add: finishUsage_def getCurrentWindowUsage_def split: usage_read.split)

definition deltaOf :: "rat option \<Rightarrow> nat" where
  "deltaOf tokens = (case tokens of Some t \<Rightarrow> if 0 < t then nat \<lfloor>t\<rfloor> else 0 | None \<Rightarrow> 0)"

text \<open>What an operation adds to a limit.\<close>

fun addsTo :: "token_limit \<Rightarrow> token_op \<Rightarrow> nat" where
  "addsTo l (TokenRecord ok k p m n now) = (if ok \<and> k \<noteq> [] \<and> appliesTo k p m l then deltaOf n else 0)"
| "addsTo l _ = 0"

text \<open>The time of an operation lies in the window of the limit that starts at \<open>w\<close>.\<close>

fun opInWindow :: "token_limit \<Rightarrow> millis \<Rightarrow> token_op \<Rightarrow> bool" where
  "opInWindow l w (TokenRecord ok k p m n now) \<longleftrightarrow> periodStartAt (resetWindowIfElapsed l now) = w"
| "opInWindow l w _ \<longleftrightarrow> True"

text \<open>A counter that is not 0 is not seeded again, and only records change it.\<close>

definition counterAt :: "string \<Rightarrow> millis \<Rightarrow> token_state \<Rightarrow> nat option" where
  "counterAt i w s = jget (i, w) (ts_counters s)"

text \<open>A read that has found a counter in the window, or looked at another limit or window.\<close>

definition warmRead :: "string \<Rightarrow> millis \<Rightarrow> token_limit \<times> millis \<times> usage_read \<Rightarrow> bool" where
  "warmRead i w r \<longleftrightarrow> (case r of (l, now, u) \<Rightarrow> tl_id l = i \<and> periodStartAt (resetWindowIfElapsed l now) = w \<longrightarrow> (\<forall>m. u \<noteq> UsageCounter m True))"

lemma read_warm:
  assumes "counterAt i w s = Some n" and "0 < n"
  shows "warmRead i w (l, now, readUsage l now ff s)"
proof -
  have "readUsage l now ff s \<noteq> UsageCounter m True" if "tl_id l = i" "periodStartAt (resetWindowIfElapsed l now) = w" for m
  proof -
    have "getWindowUsage l now s = n" using assms(1) that by (simp add: getWindowUsage_def counterAt_def)
    then show ?thesis using assms(2) by (simp add: readUsage_def Let_def)
  qed
  then show ?thesis by (simp add: warmRead_def)
qed

lemma finish_keeps_counter:
  assumes "counterAt i w s = Some n" and "warmRead i w r"
  shows "counterAt i w (finishUsage r s) = Some n \<and> ts_limits (finishUsage r s) = ts_limits s"
proof -
  obtain l now u where r: "r = (l, now, u)" by (cases r) auto
  show ?thesis
  proof (cases u)
    case (UsageCached m)
    then show ?thesis using assms(1) r by (simp add: finishUsage_def)
  next
    case (UsageCounter m cold)
    then show ?thesis using assms r
      by (auto simp: finishUsage_def storeUsage_def warmRead_def counterAt_def Let_def case_prod_beta)
  qed
qed

lemma prior_log [simp]: "counterAt i w (logTokenLimitReset j p v s) = counterAt i w s" "ts_limits (logTokenLimitReset j p v s) = ts_limits s"
  by (simp_all add: logTokenLimitReset_def counterAt_def)

lemma counter_increment [simp]:
  "counterAt i w (snd (incrementWindowTokens j v d s))
    = (if i = j \<and> w = v then Some (nullish (counterAt i w s) 0 + d) else counterAt i w s)"
  by (simp add: counterAt_def)

lemma record_for_counter:
  assumes "counterAt i w s = Some n"
  shows "counterAt i w (snd (recordFor l d now s))
      = Some (n + (if tl_id l = i \<and> periodStartAt (resetWindowIfElapsed l now) = w then d else 0))
    \<and> ts_limits (snd (recordFor l d now s)) = ts_limits s"
proof -
  have "jget (tl_id l, periodStartAt (resetWindowIfElapsed l now)) (ts_counters s)
      = counterAt (tl_id l) (periodStartAt (resetWindowIfElapsed l now)) s" by (simp add: counterAt_def)
  then show ?thesis using assms by (auto simp: recordFor_def Let_def)
qed

lemma record_all_counter:
  "distinct (map tl_id ls) \<Longrightarrow> counterAt (tl_id l) w s = Some n \<Longrightarrow> periodStartAt (resetWindowIfElapsed l now) = w
   \<Longrightarrow> \<forall>l' \<in> set ls. tl_id l' = tl_id l \<longrightarrow> l' = l
   \<Longrightarrow> counterAt (tl_id l) w (snd (recordAll ls d now s)) = Some (n + (if l \<in> set ls \<and> tl_enabled l then d else 0))
    \<and> ts_limits (snd (recordAll ls d now s)) = ts_limits s"
proof (induction ls arbitrary: s n)
  case (Cons x ls)
  show ?case
  proof (cases "tl_enabled x")
    case False
    then show ?thesis using Cons.IH [OF _ Cons.prems(2,3)] Cons.prems(1,4) by auto
  next
    case True
    obtain t s1 where r: "recordFor x d now s = (t, s1)" by (cases "recordFor x d now s")
    define n1 where "n1 = n + (if tl_id x = tl_id l then d else 0)"
    have 1: "counterAt (tl_id l) w s1 = Some n1" "ts_limits s1 = ts_limits s"
      using record_for_counter [OF Cons.prems(2), of x d now] Cons.prems(3,4) r by (auto simp: n1_def)
    have 2: "counterAt (tl_id l) w (snd (recordAll ls d now s1)) = Some (n1 + (if l \<in> set ls \<and> tl_enabled l then d else 0))
        \<and> ts_limits (snd (recordAll ls d now s1)) = ts_limits s1"
      by (rule Cons.IH [OF _ 1(1) Cons.prems(3)]) (use Cons.prems(1,4) in auto)
    have "l \<notin> set ls" if "tl_id x = tl_id l" using Cons.prems(1) that by auto
    moreover have "x = l" if "tl_id x = tl_id l" using Cons.prems(4) that by auto
    ultimately show ?thesis using 1 2 True by (auto simp: r n1_def case_prod_beta)
  qed
qed simp

lemma sync_frame: "counterAt i w (fold (\<lambda>(j, v, t). syncCache j v t now) xs s) = counterAt i w s
    \<and> ts_limits (fold (\<lambda>(j, v, t). syncCache j v t now) xs s) = ts_limits s"
  by (induction xs arbitrary: s) (auto simp: syncCache_def counterAt_def)

definition countedInv :: "token_limit \<Rightarrow> millis \<Rightarrow> nat \<Rightarrow> token_run \<Rightarrow> bool" where
  "countedInv l w n s \<longleftrightarrow> counterAt (tl_id l) w (tr_tokens s) = Some n \<and> 0 < n \<and> l \<in> set (ts_limits (tr_tokens s))
     \<and> distinct (map tl_id (ts_limits (tr_tokens s))) \<and> (\<forall>r \<in> set (tr_reads s). warmRead (tl_id l) w r)"

lemma record_counted:
  assumes inv: "countedInv l w n s" and op: "opInWindow l w (TokenRecord ok k p m t now)"
  shows "countedInv l w (n + addsTo l (TokenRecord ok k p m t now)) (tokenOp (TokenRecord ok k p m t now) s)"
proof (cases "k = [] \<or> deltaOf t = 0 \<or> \<not> ok")
  case True
  then show ?thesis using inv by (auto simp: recordTokenUsage_def deltaOf_def countedInv_def Let_def)
next
  case False
  define u where "u = tr_tokens s"
  let ?ls = "getTokenLimitsForRequest k p m u"
  have c: "counterAt (tl_id l) w u = Some n" and l: "l \<in> set (ts_limits u)" and dl: "distinct (map tl_id (ts_limits u))"
    using inv by (simp_all add: countedInv_def u_def)
  obtain ap s1 where r: "recordAll ?ls (deltaOf t) now u = (ap, s1)" by (cases "recordAll ?ls (deltaOf t) now u")
  have d: "distinct (map tl_id ?ls)" using dl by (simp add: getTokenLimitsForRequest_def distinct_map_filter)
  have same: "\<forall>l' \<in> set ?ls. tl_id l' = tl_id l \<longrightarrow> l' = l"
    using l dl by (auto simp: getTokenLimitsForRequest_def distinct_map inj_on_def)
  have m: "l \<in> set ?ls \<and> tl_enabled l \<longleftrightarrow> appliesTo k p m l"
    using l by (auto simp: getTokenLimitsForRequest_def appliesTo_def)
  have "counterAt (tl_id l) w s1 = Some (n + (if appliesTo k p m l then deltaOf t else 0)) \<and> ts_limits s1 = ts_limits u"
    using record_all_counter [OF d c _ same, of now "deltaOf t"] op r by (simp add: m)
  moreover have "recordTokenUsage ok k p m t now u = fold (\<lambda>(i, v, t). syncCache i v t now) ap s1"
    using False r by (simp add: recordTokenUsage_def deltaOf_def [symmetric] Let_def)
  ultimately show ?thesis using False inv sync_frame [of "tl_id l" w now ap s1]
    by (simp add: countedInv_def u_def [symmetric])
qed

lemma token_step:
  assumes inv: "countedInv l w n s" and "opInWindow l w op"
  shows "countedInv l w (n + addsTo l op) (tokenOp op s)"
proof (cases op)
  case (TokenStart l' now ff)
  then show ?thesis using inv read_warm [of "tl_id l" w "tr_tokens s" n l' now ff] by (auto simp: countedInv_def)
next
  case (TokenFinish i)
  show ?thesis
  proof (cases "i < length (tr_reads s)")
    case True
    then have "warmRead (tl_id l) w (tr_reads s ! i)" using inv by (simp add: countedInv_def)
    then have "counterAt (tl_id l) w (finishUsage (tr_reads s ! i) (tr_tokens s)) = Some n
        \<and> ts_limits (finishUsage (tr_reads s ! i) (tr_tokens s)) = ts_limits (tr_tokens s)"
      using inv by (intro finish_keeps_counter) (simp_all add: countedInv_def)
    then show ?thesis using TokenFinish True inv by (auto simp: countedInv_def dest: in_set_takeD in_set_dropD)
  next
    case False
    then show ?thesis using TokenFinish inv by simp
  qed
next
  case (TokenRecord ok k p m t now)
  then show ?thesis using record_counted [OF inv] assms(2) by blast
qed (use inv in \<open>simp_all add: countedInv_def saveUsageRow_def invalidateLimit_def clearTokenLimitCache_def counterAt_def\<close>)

lemma token_run:
  "countedInv l w n s \<Longrightarrow> \<forall>op \<in> set ops. opInWindow l w op
   \<Longrightarrow> countedInv l w (n + (\<Sum>op \<leftarrow> ops. addsTo l op)) (fold tokenOp ops s)"
proof (induction ops arbitrary: s n)
  case (Cons op ops)
  have "countedInv l w (n + addsTo l op) (tokenOp op s)" using token_step [OF Cons.prems(1)] Cons.prems(2) by simp
  then show ?case using Cons.IH [of "n + addsTo l op" "tokenOp op s"] Cons.prems(2) by (simp add: ac_simps)
qed simp

lemma usage_is_counter:
  assumes "counterAt (tl_id l) (periodStartAt (resetWindowIfElapsed l now)) s = Some n" and "0 < n"
  shows "usageOf l now s = n"
proof -
  have "getWindowUsage l now s = n" using assms(1) by (simp add: getWindowUsage_def counterAt_def)
  then have "readUsage l now True s = UsageCounter n False" using assms(2) by (simp add: readUsage_def Let_def)
  then show ?thesis by (simp add: usageOf_def getCurrentWindowUsage_def storeUsage_def)
qed

text \<open>
  C11. Once the window of a limit has a counter and no read that found none is under way, usage is counted exactly. After any
  order of reads (those of checks included) with their awaits, records, saved usage rows and cache resets in the window, the
  usage that a check enforces is the usage at the start plus the tokens of the requests that the limit applies to and
  whose record was written; a record whose transaction fails is swallowed and adds nothing.
\<close>

theorem tokens_counted_exactly:
  assumes "counterAt (tl_id l) w (tr_tokens s) = Some n" and "0 < n" and "l \<in> set (ts_limits (tr_tokens s))"
    and "distinct (map tl_id (ts_limits (tr_tokens s)))" and "\<forall>r \<in> set (tr_reads s). warmRead (tl_id l) w r"
    and "\<forall>op \<in> set ops. opInWindow l w op" and "periodStartAt (resetWindowIfElapsed l now) = w"
  shows "usageOf l now (tr_tokens (fold tokenOp ops s)) = n + (\<Sum>op \<leftarrow> ops. addsTo l op)"
proof -
  have "countedInv l w n s" using assms(1-5) by (simp add: countedInv_def)
  from token_run [OF this assms(6)] show ?thesis using assms(7) by (intro usage_is_counter) (simp_all add: countedInv_def)
qed

lemma tokens_counted_exactly_witness:
  "usageOf (sampleLimit ''a'' 90) 1760000000009 (tr_tokens (fold tokenOp [TokenStart (sampleLimit ''a'' 90) 1760000000000 True,
      TokenRecord True ''k'' ''p'' ''m'' (Some 7) 1760000000000, TokenRecord True ''j'' ''p'' ''m'' (Some 8) 1760000000002, TokenFinish 0,
      TokenClear, TokenRecord False ''k'' ''p'' ''m'' (Some 6) 1760000000002, TokenRecord True ''k'' ''q'' ''m'' (Some (5/2)) 1760000000003]
      \<lparr>tr_tokens = sampleTokens, tr_reads = []\<rparr>)) = 104"
proof -
  have w: "periodStartAt (resetWindowIfElapsed (sampleLimit ''a'' 90) t) = 1759276800000"
    if "t = 1760000000000 \<or> t = 1760000000002 \<or> t = 1760000000003 \<or> t = 1760000000009" for t
    using that by (elim disjE) (simp only:, code_simp)+
  have c: "counterAt (tl_id (sampleLimit ''a'' 90)) 1759276800000 sampleTokens = Some 95" by code_simp
  have m: "sampleLimit ''a'' 90 \<in> set (ts_limits sampleTokens)" "distinct (map tl_id (ts_limits sampleTokens))" by code_simp+
  show ?thesis
    by (subst tokens_counted_exactly [where w = 1759276800000 and n = 95])
      (use c m in \<open>simp_all add: w sample_applies deltaOf_def floor_divide_of_int_eq [of 5 2, simplified]\<close>)
qed

section \<open>A cold window\<close>

lemma seed_nothing: "\<forall>r \<in> set (ts_history s). \<not> countsFor l (periodStartAt (resetWindowIfElapsed l now)) r
    \<Longrightarrow> seedWindowUsageFromHistory l now s = 0"
  by (simp add: seedWindowUsageFromHistory_def filter_empty_conv [THEN iffD2])

lemma record_cold:
  assumes "ts_limits s = [l]" and "appliesTo k p m l" and "k \<noteq> []" and "0 < d"
    and "w = periodStartAt (resetWindowIfElapsed l now)" and "counterAt (tl_id l) w s = None"
  shows "counterAt (tl_id l) w (recordTokenUsage True k p m (Some (of_nat d)) now s) = Some (seedWindowUsageFromHistory l now s + d)"
proof -
  have hist: "seedWindowUsageFromHistory l now (logTokenLimitReset i q v s) = seedWindowUsageFromHistory l now s" for i q v
    by (simp add: seedWindowUsageFromHistory_def logTokenLimitReset_def)
  have e: "tl_enabled l" using assms(2) by (simp add: appliesTo_def)
  have c: "jget (tl_id l, periodStartAt (resetWindowIfElapsed l now)) (ts_counters s) = None"
    using assms(5,6) by (simp add: counterAt_def)
  define q where "q = priorTokens (tl_id l) w s"
  define s0 where "s0 = (if 0 < q then logTokenLimitReset (tl_id l) q w s else s)"
  have s0: "counterAt (tl_id l) w s0 = None" "seedWindowUsageFromHistory l now s0 = seedWindowUsageFromHistory l now s"
    using assms(6) hist by (simp_all add: s0_def)
  have r: "counterAt (tl_id l) w (snd (recordFor l d now s)) = Some (seedWindowUsageFromHistory l now s + d)"
    using s0 unfolding recordFor_def assms(5) [symmetric] Let_def q_def [symmetric] s0_def [symmetric]
    using c assms(5) by simp
  have "getTokenLimitsForRequest k p m s = [l]" using assms(1,2) by (simp add: getTokenLimitsForRequest_def)
  moreover have "counterAt i v (syncCache j x t now t') = counterAt i v t'" for i v j x t t' by (simp add: syncCache_def counterAt_def)
  ultimately show ?thesis using r e assms(3,4) by (simp add: recordTokenUsage_def Let_def case_prod_beta)
qed

text \<open>
  The first request of a cold window is counted twice: a finished request saves its usage row before the queued
  record runs, and the record seeds the new counter from the history, that row included, before it adds the tokens of
  the same request; recorded before the row is saved, the request counts once. So a limit is exhausted by a first
  request of half its size.
\<close>

theorem first_request_counted_twice:
  assumes "ts_limits s = [l]" and "appliesTo k p m l" and "k \<noteq> []" and "ts_history s = []"
    and "counterAt (tl_id l) (periodStartAt (resetWindowIfElapsed l now)) s = None"
    and "ur_apiKeyId r = k" and "ur_provider r = p" and "ur_model r = m" and "0 < billable r"
    and "periodStartAt (resetWindowIfElapsed l now) \<le> ur_timestamp r"
  shows "usageOf l now (recordTokenUsage True k p m (Some (of_nat (billable r))) now (saveUsageRow r s)) = 2 * billable r
    \<and> usageOf l now (saveUsageRow r (recordTokenUsage True k p m (Some (of_nat (billable r))) now s)) = billable r"
proof -
  define w where "w = periodStartAt (resetWindowIfElapsed l now)"
  have "countsFor l w r" using assms(2,6-8,10) by (cases "tl_scopeType l") (auto simp: countsFor_def appliesTo_def w_def)
  then have seed: "seedWindowUsageFromHistory l now (saveUsageRow r s) = billable r" "seedWindowUsageFromHistory l now s = 0"
    using assms(4) by (simp_all add: seedWindowUsageFromHistory_def saveUsageRow_def w_def)
  have save: "counterAt i v (saveUsageRow r t) = counterAt i v t" "ts_limits (saveUsageRow r t) = ts_limits t" for i v t
    by (simp_all add: saveUsageRow_def counterAt_def)
  have "counterAt (tl_id l) w (recordTokenUsage True k p m (Some (of_nat (billable r))) now (saveUsageRow r s)) = Some (2 * billable r)"
    "counterAt (tl_id l) w (saveUsageRow r (recordTokenUsage True k p m (Some (of_nat (billable r))) now s)) = Some (billable r)"
    using record_cold [OF _ assms(2,3,9) w_def, of "saveUsageRow r s"] record_cold [OF assms(1-3,9) w_def] assms(1,5) seed
    by (simp_all add: save w_def)
  then show ?thesis using usage_is_counter assms(9) by (simp add: w_def)
qed

theorem first_request_counted_twice_witness:
  "usageOf (sampleLimit ''a'' 90) 1760000000002
     (recordTokenUsage True ''k'' ''p'' ''m'' (Some 45) 1760000000002
       (saveUsageRow \<lparr>ur_apiKeyId = ''k'', ur_provider = ''p'', ur_model = ''m'', ur_connectionId = ''c'', ur_input = 40, ur_output = 5,
          ur_reasoning = 0, ur_timestamp = 1760000000001\<rparr> (emptyTokens [sampleLimit ''a'' 90]))) = 90"
proof -
  define r where "r = \<lparr>ur_apiKeyId = ''k'', ur_provider = ''p'', ur_model = ''m'', ur_connectionId = ''c'', ur_input = 40, ur_output = 5,
    ur_reasoning = 0, ur_timestamp = 1760000000001\<rparr>"
  have w: "periodStartAt (resetWindowIfElapsed (sampleLimit ''a'' 90) 1760000000002) = 1759276800000" by code_simp
  have b: "billable r = 45" by (simp add: r_def billable_def)
  show ?thesis
    using first_request_counted_twice [of "emptyTokens [sampleLimit ''a'' 90]" "sampleLimit ''a'' 90" "''k''" "''p''" "''m''" 1760000000002 r]
    by (simp add: w b emptyTokens_def counterAt_def sample_applies) (simp add: r_def)
qed

text \<open>
  Two concurrent checks of a cold window seed it twice: both read that there is no counter before either has stored
  its seed, and the second adds the whole history again, so twice the usage is enforced from then on.
\<close>

theorem cold_checks_seed_twice:
  assumes "counterAt (tl_id l) (periodStartAt (resetWindowIfElapsed l now)) s = None" and "jget (tl_id l) (ts_cache s) = None"
    and "0 < seedWindowUsageFromHistory l now s"
  shows "let h = seedWindowUsageFromHistory l now s; s1 = snd (storeUsage l now 0 h s); s2 = snd (storeUsage l now 0 h s1)
    in readUsage l now True s = UsageCounter 0 True \<and> usageOf l now s = h \<and> usageOf l now s1 = h \<and> usageOf l now s2 = 2 * h"
proof -
  define w where "w = periodStartAt (resetWindowIfElapsed l now)"
  define h where "h = seedWindowUsageFromHistory l now s"
  have h: "0 < h" using assms(3) by (simp add: h_def)
  have r: "readUsage l now True s = UsageCounter 0 True"
    using assms(1,2) by (simp add: readUsage_def getWindowUsage_def counterAt_def)
  have store: "counterAt (tl_id l) w (snd (storeUsage l now 0 h t)) = Some (nullish (counterAt (tl_id l) w t) 0 + h)" for t
    using h by (simp add: storeUsage_def w_def counterAt_def case_prod_beta Let_def)
  have 1: "usageOf l now (snd (storeUsage l now 0 h s)) = h"
    using usage_is_counter [OF store [of s, unfolded w_def]] assms(1) h by simp
  have 2: "usageOf l now (snd (storeUsage l now 0 h (snd (storeUsage l now 0 h s)))) = 2 * h"
    using usage_is_counter [OF store [of "snd (storeUsage l now 0 h s)", unfolded w_def]] store [of s] assms(1) h by (simp add: w_def)
  have 0: "usageOf l now s = h"
    using assms(1) h by (simp add: usageOf_def getCurrentWindowUsage_def r h_def [symmetric] storeUsage_def case_prod_beta counterAt_def Let_def)
  show ?thesis using r 0 1 2 by (simp add: h_def [symmetric] Let_def)
qed

theorem cold_checks_seed_twice_witness:
  "let l = sampleLimit ''a'' 90; s = saveUsageRow \<lparr>ur_apiKeyId = ''k'', ur_provider = ''p'', ur_model = ''m'', ur_connectionId = ''c'',
      ur_input = 40, ur_output = 5, ur_reasoning = 0, ur_timestamp = 1760000000001\<rparr> (emptyTokens [l])
   in usageOf l 1760000000002 (snd (storeUsage l 1760000000002 0 45 (snd (storeUsage l 1760000000002 0 45 s)))) = 90"
proof -
  define s where "s = saveUsageRow \<lparr>ur_apiKeyId = ''k'', ur_provider = ''p'', ur_model = ''m'', ur_connectionId = ''c'',
      ur_input = 40, ur_output = 5, ur_reasoning = 0, ur_timestamp = 1760000000001\<rparr> (emptyTokens [sampleLimit ''a'' 90])"
  have h: "seedWindowUsageFromHistory (sampleLimit ''a'' 90) 1760000000002 s = 45" unfolding s_def by code_simp
  have c: "counterAt i w s = None" "jget i (ts_cache s) = None" for i w
    by (simp_all add: s_def saveUsageRow_def emptyTokens_def counterAt_def)
  show ?thesis using cold_checks_seed_twice [of "sampleLimit ''a'' 90" 1760000000002 s] by (simp add: c h Let_def s_def [symmetric])
qed

end
