(* ===== verification/RefreshSerializer.thy ===== *)
theory RefreshSerializer
  imports JsValues
begin

text \<open>
  The serialization of token refreshes, \<open>open-sse/services/refreshSerializer.ts\<close>: the providers of a rotation group share
  a lane, a chain of promises in which each refresh waits for the tail of the one before. A call is split where it
  waits for its turn, where it awaits the refresh, and where it waits for the settle gap.
\<close>

section \<open>State\<close>

definition ROTATION_LOCK_GROUP :: "(string, string) jmap" where
  "ROTATION_LOCK_GROUP =
     [(''codex'', ''openai-auth0''), (''openai'', ''openai-auth0''), (''claude'', ''anthropic-oauth''),
      (''gitlab-duo'', ''gitlab-duo''), (''kiro'', ''kiro''), (''kimi-coding'', ''kimi-coding'')]"

definition DEFAULT_REFRESH_SPACING_MS :: rat where "DEFAULT_REFRESH_SPACING_MS = 2000"

definition getRefreshSpacingMs :: "string option \<Rightarrow> rat" where
  "getRefreshSpacingMs rawEnv =
     (case rawEnv of
        None \<Rightarrow> DEFAULT_REFRESH_SPACING_MS
      | Some e \<Rightarrow> if e = [] then DEFAULT_REFRESH_SPACING_MS
                  else (case jsNumber e of
                          Some raw \<Rightarrow> if 0 \<le> raw then raw else DEFAULT_REFRESH_SPACING_MS
                        | None \<Rightarrow> DEFAULT_REFRESH_SPACING_MS))"

definition rotationGroupFor :: "string \<Rightarrow> string option" where
  "rotationGroupFor provider = jget provider ROTATION_LOCK_GROUP"

datatype refresh_phase = RefreshWaiting | RefreshRunning | RefreshSettling | RefreshReleased

text \<open>A call with the tail it waits for; \<open>None\<close> is a promise that is resolved.\<close>

record refresh_call =
  rf_group :: "string option"
  rf_prev :: "nat option"
  rf_phase :: refresh_phase

record serializer =
  sr_groupTail :: "(string, nat) jmap"
  sr_calls :: "refresh_call list"

definition callAt :: "serializer \<Rightarrow> nat \<Rightarrow> refresh_call" where
  "callAt s i = sr_calls s ! i"

definition setPhase :: "nat \<Rightarrow> refresh_phase \<Rightarrow> serializer \<Rightarrow> serializer" where
  "setPhase i p s = s\<lparr>sr_calls := (sr_calls s)[i := (callAt s i)\<lparr>rf_phase := p\<rparr>]\<rparr>"

text \<open>\<open>prevTail.then(() => mine)\<close>: the tail of a call is resolved when the one before is and the call has released.\<close>

function tailResolved :: "serializer \<Rightarrow> nat \<Rightarrow> bool" where
  "tailResolved s i \<longleftrightarrow>
     rf_phase (callAt s i) = RefreshReleased
     \<and> (case rf_prev (callAt s i) of None \<Rightarrow> True | Some j \<Rightarrow> if j < i then tailResolved s j else False)"
  by pat_completeness auto
termination by (relation "measure snd") auto

declare tailResolved.simps [simp del]

section \<open>Operations\<close>

definition callRefresh :: "string \<Rightarrow> serializer \<Rightarrow> serializer" where
  "callRefresh provider s =
     (case rotationGroupFor provider of
        None \<Rightarrow> s\<lparr>sr_calls := sr_calls s @ [\<lparr>rf_group = None, rf_prev = None, rf_phase = RefreshRunning\<rparr>]\<rparr>
      | Some g \<Rightarrow>
          s\<lparr>sr_calls := sr_calls s @ [\<lparr>rf_group = Some g, rf_prev = jget g (sr_groupTail s), rf_phase = RefreshWaiting\<rparr>],
            sr_groupTail := jset g (length (sr_calls s)) (sr_groupTail s)\<rparr>)"

definition canStart :: "serializer \<Rightarrow> nat \<Rightarrow> bool" where
  "canStart s i \<longleftrightarrow>
     i < length (sr_calls s) \<and> rf_phase (callAt s i) = RefreshWaiting
     \<and> (case rf_prev (callAt s i) of None \<Rightarrow> True | Some j \<Rightarrow> tailResolved s j)"

definition startRefresh :: "nat \<Rightarrow> serializer \<Rightarrow> serializer" where
  "startRefresh i s = (if canStart s i then setPhase i RefreshRunning s else s)"

definition releaseLane :: "nat \<Rightarrow> serializer \<Rightarrow> serializer" where
  "releaseLane i s =
     (let s1 = setPhase i RefreshReleased s
      in case rf_group (callAt s i) of
           None \<Rightarrow> s1
         | Some g \<Rightarrow> if jget g (sr_groupTail s1) = Some i then s1\<lparr>sr_groupTail := jdel g (sr_groupTail s1)\<rparr> else s1)"

definition hasSuccessor :: "serializer \<Rightarrow> nat \<Rightarrow> bool" where
  "hasSuccessor s i \<longleftrightarrow>
     (case rf_group (callAt s i) of None \<Rightarrow> False | Some g \<Rightarrow> jget g (sr_groupTail s) \<noteq> Some i)"

text \<open>The refresh itself has ended, well or not.\<close>

definition finishRefresh :: "rat \<Rightarrow> nat \<Rightarrow> serializer \<Rightarrow> serializer" where
  "finishRefresh spacing i s =
     (if i < length (sr_calls s) \<and> rf_phase (callAt s i) = RefreshRunning
      then (if hasSuccessor s i \<and> 0 < spacing then setPhase i RefreshSettling s else releaseLane i s)
      else s)"

definition settleRefresh :: "nat \<Rightarrow> serializer \<Rightarrow> serializer" where
  "settleRefresh i s =
     (if i < length (sr_calls s) \<and> rf_phase (callAt s i) = RefreshSettling then releaseLane i s else s)"

definition wasRefreshTokenRotated :: "string option \<Rightarrow> string option \<Rightarrow> bool" where
  "wasRefreshTokenRotated attempted latest \<longleftrightarrow>
     (case (attempted, latest) of (Some a, Some l) \<Rightarrow> a \<noteq> [] \<and> l \<noteq> [] \<and> l \<noteq> a | _ \<Rightarrow> False)"

datatype refresh_op = RefreshCall string | RefreshStart nat | RefreshDone rat nat | RefreshSettled nat

fun refreshOp :: "refresh_op \<Rightarrow> serializer \<Rightarrow> serializer" where
  "refreshOp (RefreshCall provider) s = callRefresh provider s"
| "refreshOp (RefreshStart i) s = startRefresh i s"
| "refreshOp (RefreshDone spacing i) s = finishRefresh spacing i s"
| "refreshOp (RefreshSettled i) s = settleRefresh i s"

definition idleSerializer :: serializer where
  "idleSerializer = \<lparr>sr_groupTail = [], sr_calls = []\<rparr>"

section \<open>Lanes\<close>

definition inLane :: "serializer \<Rightarrow> string \<Rightarrow> nat \<Rightarrow> bool" where
  "inLane s g i \<longleftrightarrow> i < length (sr_calls s) \<and> rf_group (callAt s i) = Some g"

definition released :: "serializer \<Rightarrow> nat \<Rightarrow> bool" where
  "released s i \<longleftrightarrow> rf_phase (callAt s i) = RefreshReleased"

text \<open>All calls of the lane before \<open>i\<close> have released.\<close>

definition clearBefore :: "serializer \<Rightarrow> string \<Rightarrow> nat \<Rightarrow> bool" where
  "clearBefore s g i \<longleftrightarrow> (\<forall>j < i. inLane s g j \<longrightarrow> released s j)"

text \<open>A call waits for the one before it in its lane, or for nothing when the lane was clear.\<close>

definition chained :: "serializer \<Rightarrow> string \<Rightarrow> nat \<Rightarrow> bool" where
  "chained s g i \<longleftrightarrow>
     (case rf_prev (callAt s i) of
        None \<Rightarrow> clearBefore s g i
      | Some j \<Rightarrow> j < i \<and> inLane s g j \<and> (\<forall>m. j < m \<and> m < i \<longrightarrow> \<not> inLane s g m))"

definition laneTail :: "serializer \<Rightarrow> string \<Rightarrow> bool" where
  "laneTail s g \<longleftrightarrow>
     (case jget g (sr_groupTail s) of
        None \<Rightarrow> clearBefore s g (length (sr_calls s))
      | Some j \<Rightarrow> inLane s g j \<and> (\<forall>m. j < m \<longrightarrow> \<not> inLane s g m))"

definition laneInv :: "serializer \<Rightarrow> bool" where
  "laneInv s \<longleftrightarrow> (\<forall>g. laneTail s g \<and> (\<forall>i. inLane s g i \<longrightarrow>
     chained s g i \<and> (rf_phase (callAt s i) \<noteq> RefreshWaiting \<longrightarrow> clearBefore s g i)))"

lemma phase_frame [simp]:
  "length (sr_calls (setPhase i p s)) = length (sr_calls s)" "sr_groupTail (setPhase i p s) = sr_groupTail s"
  "rf_group (callAt (setPhase i p s) j) = rf_group (callAt s j)" "rf_prev (callAt (setPhase i p s) j) = rf_prev (callAt s j)"
  "inLane (setPhase i p s) g j = inLane s g j"
proof -
  have "rf_group (callAt (setPhase i p s) j) = rf_group (callAt s j) \<and> rf_prev (callAt (setPhase i p s) j) = rf_prev (callAt s j)"
    by (cases "i < length (sr_calls s)") (simp_all add: setPhase_def callAt_def nth_list_update list_update_beyond)
  then show "rf_group (callAt (setPhase i p s) j) = rf_group (callAt s j)" "rf_prev (callAt (setPhase i p s) j) = rf_prev (callAt s j)"
    "inLane (setPhase i p s) g j = inLane s g j" by (simp_all add: inLane_def setPhase_def)
qed (simp_all add: setPhase_def)

lemma phase_after [simp]:
  "i < length (sr_calls s) \<Longrightarrow> rf_phase (callAt (setPhase i p s) j) = (if j = i then p else rf_phase (callAt s j))"
  by (simp add: setPhase_def callAt_def nth_list_update)

text \<open>A phase that keeps the release of a call keeps the invariant, if a call that leaves the queue had a clear lane.\<close>

lemma phase_inv:
  assumes "laneInv s" and "i < length (sr_calls s)" and "p = RefreshReleased \<or> \<not> released s i"
    and "\<And>g. inLane s g i \<Longrightarrow> p \<noteq> RefreshWaiting \<Longrightarrow> clearBefore s g i"
  shows "laneInv (setPhase i p s)"
proof -
  have rel: "released s j \<Longrightarrow> released (setPhase i p s) j" for j using assms(2,3) by (auto simp: released_def)
  then have clear: "clearBefore s g j \<Longrightarrow> clearBefore (setPhase i p s) g j" for g j by (simp add: clearBefore_def)
  have inv: "laneTail s g" "inLane s g j \<Longrightarrow> chained s g j" for g j using assms(1) by (simp_all add: laneInv_def)
  have "laneTail (setPhase i p s) g" for g
    using inv(1) [of g] clear [of g "length (sr_calls s)"] by (cases "jget g (sr_groupTail s)") (simp_all add: laneTail_def)
  moreover have "chained (setPhase i p s) g j" if "inLane s g j" for g j
    using inv(2) [OF that] clear [of g j] by (cases "rf_prev (callAt s j)") (simp_all add: chained_def)
  moreover have "clearBefore (setPhase i p s) g j"
    if "inLane s g j" "rf_phase (callAt (setPhase i p s) j) \<noteq> RefreshWaiting" for g j
  proof (rule clear)
    show "clearBefore s g j"
      using assms(1,2) assms(4) [of g] that by (cases "j = i") (auto simp: laneInv_def)
  qed
  ultimately show ?thesis by (simp add: laneInv_def)
qed

lemma released_resolved:
  assumes "laneInv s"
  shows "inLane s g i \<Longrightarrow> tailResolved s i \<longleftrightarrow> released s i"
proof (induction i rule: less_induct)
  case (less i)
  have c: "chained s g i" and w: "released s i \<Longrightarrow> clearBefore s g i"
    using assms less.prems by (auto simp: laneInv_def released_def)
  show ?case
  proof (cases "rf_prev (callAt s i)")
    case None
    then show ?thesis by (simp add: tailResolved.simps [of s i] released_def)
  next
    case (Some j)
    then have j: "j < i" "inLane s g j" using c by (simp_all add: chained_def)
    then have "released s i \<Longrightarrow> tailResolved s j" using w less.IH [OF j] by (simp add: clearBefore_def)
    then show ?thesis using Some j(1) by (auto simp: tailResolved.simps [of s i] released_def)
  qed
qed

text \<open>A waiting call can start exactly when every earlier call of its lane has released.\<close>

lemma start_iff:
  assumes "laneInv s" and "inLane s g i" and "rf_phase (callAt s i) = RefreshWaiting"
  shows "canStart s i \<longleftrightarrow> clearBefore s g i"
proof -
  have c: "chained s g i" using assms(1,2) by (simp add: laneInv_def)
  show ?thesis
  proof (cases "rf_prev (callAt s i)")
    case None
    then show ?thesis using c assms by (simp add: canStart_def chained_def inLane_def)
  next
    case (Some j)
    then have j: "j < i" "inLane s g j" "\<And>m. j < m \<Longrightarrow> m < i \<Longrightarrow> \<not> inLane s g m" using c by (auto simp: chained_def)
    have "clearBefore s g i \<longleftrightarrow> released s j"
    proof
      assume r: "released s j"
      then have "clearBefore s g j" using assms(1) j(2) by (auto simp: laneInv_def released_def)
      show "clearBefore s g i" unfolding clearBefore_def
      proof (intro allI impI)
        fix m assume "m < i" "inLane s g m"
        then have "m \<le> j" using j(3) [of m] by (cases "j < m") auto
        then show "released s m" using \<open>clearBefore s g j\<close> r \<open>inLane s g m\<close> by (cases "m = j") (auto simp: clearBefore_def)
      qed
    qed (use j in \<open>simp add: clearBefore_def\<close>)
    then show ?thesis using Some released_resolved [OF assms(1) j(2)] assms(2,3) by (simp add: canStart_def inLane_def)
  qed
qed

lemma call_inv:
  assumes "laneInv s"
  shows "laneInv (callRefresh provider s)"
proof -
  define n where "n = length (sr_calls s)"
  define c where "c = last (sr_calls (callRefresh provider s))"
  have c: "sr_calls (callRefresh provider s) = sr_calls s @ [c]" "rf_phase c = RefreshWaiting \<or> rf_group c = None"
    "rf_group c = rotationGroupFor provider" "\<And>g. rf_group c = Some g \<Longrightarrow> rf_prev c = jget g (sr_groupTail s)"
    by (auto simp: c_def callRefresh_def split: option.split)
  have old: "callAt (callRefresh provider s) i = callAt s i" if "i < n" for i using that by (simp add: callAt_def c(1) nth_append n_def)
  have new: "callAt (callRefresh provider s) n = c" by (simp add: callAt_def c(1) nth_append n_def)
  have lane: "inLane (callRefresh provider s) g i \<longleftrightarrow> inLane s g i \<or> i = n \<and> rf_group c = Some g" for g i
    using old [of i] new by (auto simp: inLane_def c(1) n_def less_Suc_eq)
  have rel: "released (callRefresh provider s) i = released s i" if "i < n" for i using old that by (simp add: released_def)
  have clear: "clearBefore (callRefresh provider s) g i \<longleftrightarrow> clearBefore s g i" if "i \<le> n" for g i
    using that rel by (auto simp: clearBefore_def lane)
  have lt: "inLane s g i \<Longrightarrow> i < n" for g i by (simp add: inLane_def n_def)
  have tail: "jget g (sr_groupTail (callRefresh provider s)) = (if rf_group c = Some g then Some n else jget g (sr_groupTail s))" for g
    using c(3) by (auto simp: callRefresh_def n_def split: option.splits)
  have inv: "laneTail s g" "inLane s g i \<Longrightarrow> chained s g i" "inLane s g i \<Longrightarrow> rf_phase (callAt s i) \<noteq> RefreshWaiting \<Longrightarrow> clearBefore s g i" for g i
    using assms by (simp_all add: laneInv_def)
  have "laneTail (callRefresh provider s) g" for g
  proof (cases "rf_group c = Some g")
    case True
    then show ?thesis using tail [of g] by (auto simp: laneTail_def lane dest: lt)
  next
    case False
    then have "clearBefore (callRefresh provider s) g (Suc n) \<longleftrightarrow> clearBefore s g n"
      using rel lt [of g] by (auto simp: clearBefore_def lane less_Suc_eq)
    then show ?thesis using False inv(1) [of g] tail [of g] by (auto simp: laneTail_def lane c(1) n_def split: option.splits)
  qed
  moreover have "chained (callRefresh provider s) g i" if "inLane (callRefresh provider s) g i" for g i
  proof (cases "i = n")
    case True
    then have g: "rf_group c = Some g" using that lt [of g n] by (auto simp: lane)
    have tl: "laneTail s g" by (rule inv(1))
    show ?thesis
    proof (cases "jget g (sr_groupTail s)")
      case None
      then show ?thesis using tl c(4) [OF g] clear [of n g] by (simp add: chained_def True new laneTail_def n_def [symmetric])
    next
      case (Some j)
      then have j: "inLane s g j" "\<And>m. j < m \<Longrightarrow> \<not> inLane s g m" using tl by (simp_all add: laneTail_def)
      then show ?thesis using Some c(4) [OF g] lt [OF j(1)] by (simp add: chained_def True new lane)
    qed
  next
    case False
    then have i: "inLane s g i" "i < n" using that lt [of g i] by (auto simp: lane)
    show ?thesis using inv(2) [OF i(1)] clear [of i g] i(2) old [OF i(2)]
      by (cases "rf_prev (callAt s i)") (auto simp: chained_def lane)
  qed
  moreover have "clearBefore (callRefresh provider s) g i"
    if "inLane (callRefresh provider s) g i" "rf_phase (callAt (callRefresh provider s) i) \<noteq> RefreshWaiting" for g i
  proof -
    have i: "inLane s g i" "i < n" using that c(2) new lt [of g i] by (auto simp: lane)
    then show ?thesis using inv(3) [OF i(1)] that(2) clear [of i g] old by simp
  qed
  ultimately show ?thesis by (simp add: laneInv_def)
qed

lemma lane_release_inv:
  assumes "laneInv s" and "i < length (sr_calls s)" and "rf_phase (callAt s i) \<noteq> RefreshWaiting"
  shows "laneInv (releaseLane i s)"
proof -
  define s1 where "s1 = setPhase i RefreshReleased s"
  have 1: "laneInv s1" unfolding s1_def
    by (rule phase_inv [OF assms(1,2)]) (use assms in \<open>auto simp: laneInv_def\<close>)
  show ?thesis
  proof (cases "\<exists>g. rf_group (callAt s i) = Some g \<and> jget g (sr_groupTail s1) = Some i")
    case True
    then obtain g where g: "rf_group (callAt s i) = Some g" "jget g (sr_groupTail s1) = Some i" by blast
    have e: "releaseLane i s = s1\<lparr>sr_groupTail := jdel g (sr_groupTail s1)\<rparr>" (is "_ = ?s2")
      using g by (simp add: releaseLane_def s1_def)
    have at: "callAt ?s2 = callAt s1" by (simp add: fun_eq_iff callAt_def)
    then have lane: "inLane ?s2 = inLane s1" "released ?s2 = released s1" by (simp_all add: fun_eq_iff inLane_def released_def)
    then have clear: "clearBefore ?s2 = clearBefore s1" by (simp add: fun_eq_iff clearBefore_def)
    have "chained ?s2 = chained s1" by (intro ext) (simp add: chained_def at lane clear split: option.split)
    note fr = at lane clear this
    have i: "inLane s1 g i" using g assms(2) by (simp add: s1_def inLane_def)
    have "released s1 i" using assms(2) by (simp add: s1_def released_def)
    then have "clearBefore s1 g i" using 1 i by (auto simp: laneInv_def released_def)
    moreover have "\<not> inLane s1 g m" if "i < m" for m using 1 g(2) that by (auto simp: laneInv_def laneTail_def split: option.splits)
    ultimately have "clearBefore s1 g n" for n
      using \<open>released s1 i\<close> by (auto simp: clearBefore_def) (metis linorder_neqE_nat)
    then have "laneTail ?s2 h" for h
    proof (cases "h = g")
      case False
      have "laneTail s1 h" using 1 by (simp add: laneInv_def)
      then show ?thesis using False by (cases "jget h (sr_groupTail s1)") (simp_all add: laneTail_def fr)
    qed (simp add: laneTail_def fr)
    then show ?thesis using 1 unfolding e by (simp add: laneInv_def fr)
  next
    case False
    then have "releaseLane i s = s1" by (auto simp: releaseLane_def s1_def [symmetric] Let_def split: option.split)
    then show ?thesis using 1 by simp
  qed
qed

lemma op_inv: "laneInv s \<Longrightarrow> laneInv (refreshOp op s)"
proof (cases op)
  case (RefreshCall provider)
  assume "laneInv s"
  then show ?thesis using RefreshCall by (simp add: call_inv)
next
  case (RefreshStart i)
  assume inv: "laneInv s"
  show ?thesis
  proof (cases "canStart s i")
    case True
    then have w: "i < length (sr_calls s)" "rf_phase (callAt s i) = RefreshWaiting" by (simp_all add: canStart_def)
    have "laneInv (setPhase i RefreshRunning s)"
      by (rule phase_inv [OF inv w(1)]) (use True start_iff [OF inv _ w(2)] w(2) in \<open>auto simp: released_def\<close>)
    then show ?thesis using RefreshStart True by (simp add: startRefresh_def)
  qed (use RefreshStart inv in \<open>simp add: startRefresh_def\<close>)
next
  case (RefreshDone spacing i)
  assume inv: "laneInv s"
  have "laneInv (setPhase i RefreshSettling s)" if "i < length (sr_calls s)" "rf_phase (callAt s i) = RefreshRunning"
    by (rule phase_inv [OF inv that(1)]) (use inv that in \<open>auto simp: released_def laneInv_def\<close>)
  then show ?thesis using RefreshDone inv lane_release_inv [OF inv, of i] by (simp add: finishRefresh_def)
next
  case (RefreshSettled i)
  assume inv: "laneInv s"
  then show ?thesis using RefreshSettled lane_release_inv [OF inv, of i] by (simp add: settleRefresh_def)
qed

lemma lane_run_inv: "laneInv s \<Longrightarrow> laneInv (fold refreshOp ops s)"
  by (induction ops arbitrary: s) (simp_all add: op_inv)

lemma idle_inv: "laneInv idleSerializer"
  by (simp add: laneInv_def laneTail_def idleSerializer_def inLane_def clearBefore_def)

text \<open>
  C12. Refreshes of a rotation group are exclusive: in every interleaving of calls, starts, ends and settle gaps at most
  one call of a group runs or settles; so sibling accounts never present refresh tokens at the same time.
\<close>

theorem refresh_exclusive:
  assumes "s = fold refreshOp ops idleSerializer" and "inLane s g i" and "inLane s g j"
    and "rf_phase (callAt s i) \<in> {RefreshRunning, RefreshSettling}" and "rf_phase (callAt s j) \<in> {RefreshRunning, RefreshSettling}"
  shows "i = j"
proof -
  have inv: "laneInv s" unfolding assms(1) by (rule lane_run_inv [OF idle_inv])
  have "clearBefore s g i" "clearBefore s g j" using inv assms(2-5) by (auto simp: laneInv_def)
  then have "\<not> i < j" "\<not> j < i" using assms(2-5) by (auto simp: clearBefore_def released_def)
  then show ?thesis by simp
qed

definition siblingRun :: serializer where
  "siblingRun = fold refreshOp [RefreshCall ''codex'', RefreshCall ''openai'', RefreshStart 0, RefreshCall ''kiro'', RefreshStart 1,
     RefreshStart 2, RefreshDone 2000 0, RefreshStart 1] idleSerializer"

theorem refresh_exclusive_witness:
  "rf_phase (callAt siblingRun 0) = RefreshSettling \<and> rf_phase (callAt siblingRun 1) \<notin> {RefreshRunning, RefreshSettling}"
proof -
  have p: "rf_phase (callAt siblingRun 0) = RefreshSettling" "inLane siblingRun ''openai-auth0'' 0" "inLane siblingRun ''openai-auth0'' 1"
    by code_simp+
  then show ?thesis using refresh_exclusive [OF siblingRun_def p(2,3)] by auto
qed

text \<open>
  C26. The lane is fair and does not get stuck: while calls of a group have not released, the oldest of them is running,
  settling, or can start now, and no other call of the group can start; a call that fails releases its lane like
  one that succeeds.
\<close>

theorem refresh_lane_progress:
  assumes "s = fold refreshOp ops idleSerializer" and "inLane s g i" and "\<not> released s i"
  shows "\<exists>k \<le> i. inLane s g k \<and> (rf_phase (callAt s k) \<in> {RefreshRunning, RefreshSettling} \<or> canStart s k)
    \<and> (\<forall>j. inLane s g j \<and> canStart s j \<longrightarrow> j = k)"
proof -
  have inv: "laneInv s" unfolding assms(1) by (rule lane_run_inv [OF idle_inv])
  define k where "k = (LEAST k. inLane s g k \<and> \<not> released s k)"
  have k: "inLane s g k \<and> \<not> released s k" unfolding k_def by (rule LeastI [of _ i]) (use assms(2,3) in simp)
  have le: "k \<le> i" unfolding k_def by (rule Least_le) (use assms(2,3) in simp)
  have clear: "clearBefore s g k" unfolding clearBefore_def
  proof (intro allI impI)
    fix j assume j: "j < k" "inLane s g j"
    show "released s j" using not_less_Least [OF j(1) [unfolded k_def]] j(2) by blast
  qed
  have "rf_phase (callAt s k) \<in> {RefreshRunning, RefreshSettling} \<or> canStart s k"
    using k start_iff [OF inv, of g k] clear by (cases "rf_phase (callAt s k)") (auto simp: released_def)
  moreover have "j = k" if "inLane s g j" "canStart s j" for j
  proof -
    have w: "rf_phase (callAt s j) = RefreshWaiting" using that(2) by (simp add: canStart_def)
    have "clearBefore s g j" using start_iff [OF inv that(1) w] that(2) by simp
    then have "\<not> k < j" using k by (auto simp: clearBefore_def)
    moreover have "\<not> j < k" using clear that(1) w by (auto simp: clearBefore_def released_def)
    ultimately show ?thesis by simp
  qed
  ultimately show ?thesis using le k by blast
qed

theorem refresh_lane_progress_witness:
  "\<exists>k \<le> 1. inLane siblingRun ''openai-auth0'' k \<and> (rf_phase (callAt siblingRun k) \<in> {RefreshRunning, RefreshSettling} \<or> canStart siblingRun k)"
proof -
  have p: "inLane siblingRun ''openai-auth0'' 1" "\<not> released siblingRun 1" by code_simp+
  from refresh_lane_progress [OF siblingRun_def this] show ?thesis by (elim exE conjE) (rule exI, intro conjI)
qed

end
