(* ===== verification/SqlTransactions.thy ===== *)
theory SqlTransactions
  imports Decimals
begin

text \<open>
  Transactions of the database adapters, \<open>src/lib/db/adapters/betterSqliteAdapter.ts\<close> and \<open>nodeSqliteShared.ts\<close>, on one
  SQLite connection. The connection is a parameter: \<open>exec\<close> runs a transaction command and is \<open>None\<close> when SQLite
  reports an error, \<open>write\<close> runs a statement that writes, and \<open>view\<close> reads the visible data and the open frames, newest
  first, each with the data it would restore. \<open>sqliteLaws\<close> states what the SQLite documentation says of them. A
  transaction is split where it awaits its function.
\<close>

section \<open>The connection\<close>

datatype sql_command =
    BeginImmediate
  | Commit
  | Rollback
  | Savepoint string
  | Release string
  | RollbackTo string

type_synonym 'c frames = "(string option \<times> 'c) list"

text \<open>The frames from the newest savepoint with a name on.\<close>

definition fromSavepoint :: "string \<Rightarrow> 'c frames \<Rightarrow> 'c frames" where
  "fromSavepoint n fs = dropWhile (\<lambda>f. fst f \<noteq> Some n) fs"

fun afterCommand :: "sql_command \<Rightarrow> 'c \<times> 'c frames \<Rightarrow> ('c \<times> 'c frames) option" where
  "afterCommand BeginImmediate (c, fs) = (if fs = [] then Some (c, [(None, c)]) else None)"
| "afterCommand Commit (c, fs) = (if fs = [] then None else Some (c, []))"
| "afterCommand Rollback (c, fs) = (if fs = [] then None else Some (snd (last fs), []))"
| "afterCommand (Savepoint n) (c, fs) = Some (c, (Some n, c) # fs)"
| "afterCommand (Release n) (c, fs) = (case fromSavepoint n fs of [] \<Rightarrow> None | f # rest \<Rightarrow> Some (c, rest))"
| "afterCommand (RollbackTo n) (c, fs) = (case fromSavepoint n fs of [] \<Rightarrow> None | f # rest \<Rightarrow> Some (snd f, f # rest))"

definition sqliteLaws ::
  "(sql_command \<Rightarrow> 'db \<Rightarrow> 'db option) \<Rightarrow> ('w \<Rightarrow> 'db \<Rightarrow> 'db) \<Rightarrow> ('db \<Rightarrow> 'c \<times> 'c frames) \<Rightarrow> ('w \<Rightarrow> 'c \<Rightarrow> 'c) \<Rightarrow> bool" where
  "sqliteLaws exec write view effect \<longleftrightarrow>
     (\<forall>cmd db. map_option view (exec cmd db) = afterCommand cmd (view db))
     \<and> (\<forall>w db. view (write w db) = (effect w (fst (view db)), snd (view db)))"

section \<open>The adapter over better-sqlite3\<close>

record 'db adapter =
  ad_db :: 'db
  ad_txDepth :: nat

text \<open>What a transaction remembers while it awaits its function.\<close>

record tx_token =
  tk_nested :: bool
  tk_sp :: string

datatype tx_result = TxDone | TxThrown

text \<open>\<open>`sp_${txDepth}`\<close>\<close>

definition spName :: "nat \<Rightarrow> string" where
  "spName n = ''sp_'' @ decimalDigits n"

definition txBegin :: "(sql_command \<Rightarrow> 'db \<Rightarrow> 'db option) \<Rightarrow> 'db adapter \<Rightarrow> tx_token option \<times> 'db adapter" where
  "txBegin exec a =
     (let nested = (0 < ad_txDepth a); sp = spName (ad_txDepth a)
      in case exec (if nested then Savepoint sp else BeginImmediate) (ad_db a) of
           None \<Rightarrow> (None, a)
         | Some db \<Rightarrow> (Some \<lparr>tk_nested = nested, tk_sp = sp\<rparr>, \<lparr>ad_db = db, ad_txDepth = ad_txDepth a + 1\<rparr>))"

text \<open>The \<open>catch\<close> block: a command that fails there changes nothing and throws its own error.\<close>

definition execOrKeep :: "(sql_command \<Rightarrow> 'db \<Rightarrow> 'db option) \<Rightarrow> sql_command \<Rightarrow> 'db \<Rightarrow> 'db" where
  "execOrKeep exec cmd db = (case exec cmd db of Some db' \<Rightarrow> db' | None \<Rightarrow> db)"

definition txEnd ::
  "(sql_command \<Rightarrow> 'db \<Rightarrow> 'db option) \<Rightarrow> tx_token \<Rightarrow> bool \<Rightarrow> 'db adapter \<Rightarrow> tx_result \<times> 'db adapter" where
  "txEnd exec t returned a =
     (let commit = (if tk_nested t then Release (tk_sp t) else Commit);
          undo = (if tk_nested t then RollbackTo (tk_sp t) else Rollback);
          depth = ad_txDepth a - 1
      in case (if returned then exec commit (ad_db a) else None) of
           Some db \<Rightarrow> (TxDone, \<lparr>ad_db = db, ad_txDepth = depth\<rparr>)
         | None \<Rightarrow> (TxThrown, \<lparr>ad_db = execOrKeep exec undo (ad_db a), ad_txDepth = depth\<rparr>))"

definition immediateBegin :: "(sql_command \<Rightarrow> 'db \<Rightarrow> 'db option) \<Rightarrow> 'db adapter \<Rightarrow> bool \<times> 'db adapter" where
  "immediateBegin exec a =
     (case exec BeginImmediate (ad_db a) of None \<Rightarrow> (False, a) | Some db \<Rightarrow> (True, a\<lparr>ad_db := db\<rparr>))"

definition immediateEnd :: "(sql_command \<Rightarrow> 'db \<Rightarrow> 'db option) \<Rightarrow> bool \<Rightarrow> 'db adapter \<Rightarrow> tx_result \<times> 'db adapter" where
  "immediateEnd exec returned a =
     (case (if returned then exec Commit (ad_db a) else None) of
        Some db \<Rightarrow> (TxDone, a\<lparr>ad_db := db\<rparr>)
      | None \<Rightarrow> (TxThrown, a\<lparr>ad_db := execOrKeep exec Rollback (ad_db a)\<rparr>))"

definition runWrite :: "('w \<Rightarrow> 'db \<Rightarrow> 'db) \<Rightarrow> 'w \<Rightarrow> 'db adapter \<Rightarrow> 'db adapter" where
  "runWrite write w a = a\<lparr>ad_db := write w (ad_db a)\<rparr>"

section \<open>The adapter over node:sqlite\<close>

text \<open>Savepoints with random names; the \<open>catch\<close> stops at the first command that fails.\<close>

definition savepointBegin :: "(sql_command \<Rightarrow> 'db \<Rightarrow> 'db option) \<Rightarrow> string \<Rightarrow> 'db \<Rightarrow> 'db option" where
  "savepointBegin exec sp db = exec (Savepoint sp) db"

definition savepointEnd ::
  "(sql_command \<Rightarrow> 'db \<Rightarrow> 'db option) \<Rightarrow> string \<Rightarrow> bool \<Rightarrow> 'db \<Rightarrow> tx_result \<times> 'db" where
  "savepointEnd exec sp returned db =
     (case (if returned then exec (Release sp) db else None) of
        Some db' \<Rightarrow> (TxDone, db')
      | None \<Rightarrow>
          (TxThrown, case exec (RollbackTo sp) db of None \<Rightarrow> db | Some db1 \<Rightarrow> execOrKeep exec (Release sp) db1))"

section \<open>Programs of nested transactions\<close>

text \<open>
  The function of a transaction writes, throws, or runs another transaction, and lets the error of it pass or
  catches it.
\<close>

datatype 'w tx_stmt =
    DoWrite 'w
  | DoThrow
  | DoTransaction bool "'w tx_stmt list"

fun runBody ::
  "(sql_command \<Rightarrow> 'db \<Rightarrow> 'db option) \<Rightarrow> ('w \<Rightarrow> 'db \<Rightarrow> 'db) \<Rightarrow> 'w tx_stmt list \<Rightarrow> 'db adapter \<Rightarrow> bool \<times> 'db adapter" where
  "runBody exec write [] a = (True, a)"
| "runBody exec write (DoWrite w # ss) a = runBody exec write ss (runWrite write w a)"
| "runBody exec write (DoThrow # ss) a = (False, a)"
| "runBody exec write (DoTransaction caught body # ss) a =
     (case txBegin exec a of
        (None, a1) \<Rightarrow> if caught then runBody exec write ss a1 else (False, a1)
      | (Some t, a1) \<Rightarrow>
          (let (returned, a2) = runBody exec write body a1; (result, a3) = txEnd exec t returned a2
           in if result = TxDone \<or> caught then runBody exec write ss a3 else (False, a3)))"

text \<open>What nested transactions promise: a transaction that throws leaves no trace.\<close>

fun nestedSpec :: "('w \<Rightarrow> 'c \<Rightarrow> 'c) \<Rightarrow> 'w tx_stmt list \<Rightarrow> 'c \<Rightarrow> 'c option" where
  "nestedSpec effect [] c = Some c"
| "nestedSpec effect (DoWrite w # ss) c = nestedSpec effect ss (effect w c)"
| "nestedSpec effect (DoThrow # ss) c = None"
| "nestedSpec effect (DoTransaction caught body # ss) c =
     (case nestedSpec effect body c of
        Some c' \<Rightarrow> nestedSpec effect ss c'
      | None \<Rightarrow> if caught then nestedSpec effect ss c else None)"

lemma spName_inj [simp]: "spName m = spName n \<longleftrightarrow> m = n"
proof
  assume "spName m = spName n"
  then have "jsParseInt (decimalDigits m @ []) = jsParseInt (decimalDigits n @ [])" by (simp add: spName_def)
  then show "m = n" by (simp only: parse_decimal simp_thms) simp
qed simp

lemma laws_exec:
  "sqliteLaws exec write view effect \<Longrightarrow> view db = v \<Longrightarrow> afterCommand cmd v = Some v' \<Longrightarrow> \<exists>db'. exec cmd db = Some db' \<and> view db' = v'"
  by (cases "exec cmd db") (auto simp: sqliteLaws_def dest!: spec [of _ cmd] dest: spec [of _ db])

text \<open>Frames that a body at a depth may leave behind.\<close>

definition leftover :: "nat \<Rightarrow> 'c frames \<Rightarrow> bool" where
  "leftover d fs \<longleftrightarrow> (\<forall>f \<in> set fs. \<exists>k \<ge> d. fst f = Some (spName k))"

lemma fromSavepoint_own: "leftover (Suc d) l \<Longrightarrow> fromSavepoint (spName d) (l @ (Some (spName d), c) # fs) = (Some (spName d), c) # fs"
proof -
  assume l: "leftover (Suc d) l"
  have "\<forall>f \<in> set l. fst f \<noteq> Some (spName d)" using l by (fastforce simp: leftover_def)
  then show ?thesis by (simp add: fromSavepoint_def dropWhile_append2)
qed

text \<open>A body that runs at depth \<open>d\<close> follows the specification and leaves savepoints of its own depth or deeper only.\<close>

definition bodyRuns ::
  "(sql_command \<Rightarrow> 'db \<Rightarrow> 'db option) \<Rightarrow> ('w \<Rightarrow> 'db \<Rightarrow> 'db) \<Rightarrow> ('db \<Rightarrow> 'c \<times> 'c frames) \<Rightarrow> 'w tx_stmt list \<Rightarrow> 'db adapter
   \<Rightarrow> 'c frames \<Rightarrow> 'c option \<Rightarrow> bool" where
  "bodyRuns exec write view ss a fs expected \<longleftrightarrow>
     (\<exists>returned a' l c. runBody exec write ss a = (returned, a') \<and> ad_txDepth a' = ad_txDepth a
        \<and> view (ad_db a') = (c, l @ fs) \<and> leftover (ad_txDepth a) l
        \<and> (case expected of Some c' \<Rightarrow> returned \<and> c = c' | None \<Rightarrow> \<not> returned))"

lemma leftover_simps [simp]:
  "leftover d []" "leftover d (f # fs) \<longleftrightarrow> (\<exists>k \<ge> d. fst f = Some (spName k)) \<and> leftover d fs"
  "leftover d (fs @ gs) \<longleftrightarrow> leftover d fs \<and> leftover d gs"
  by (auto simp: leftover_def)

lemma nested_begin:
  assumes "sqliteLaws exec write view effect" and "view (ad_db a) = (c, fs)" and "0 < ad_txDepth a"
  obtains db where "txBegin exec a = (Some \<lparr>tk_nested = True, tk_sp = spName (ad_txDepth a)\<rparr>, \<lparr>ad_db = db, ad_txDepth = Suc (ad_txDepth a)\<rparr>)"
    and "view db = (c, (Some (spName (ad_txDepth a)), c) # fs)"
  using laws_exec [OF assms(1,2), of "Savepoint (spName (ad_txDepth a))"] assms(3) that by (auto simp: txBegin_def)

lemma nested_end:
  assumes "sqliteLaws exec write view effect" and "ad_txDepth a = Suc d" and "leftover (Suc d) l"
    and "view (ad_db a) = (c', l @ (Some (spName d), c) # fs)"
  shows "\<exists>a'. txEnd exec \<lparr>tk_nested = True, tk_sp = spName d\<rparr> returned a = (if returned then TxDone else TxThrown, a')
    \<and> ad_txDepth a' = d \<and> view (ad_db a') = (if returned then (c', fs) else (c, (Some (spName d), c) # fs))"
  using laws_exec [OF assms(1,4), of "Release (spName d)"] laws_exec [OF assms(1,4), of "RollbackTo (spName d)"]
  by (cases returned) (auto simp: txEnd_def Let_def assms(2) fromSavepoint_own [OF assms(3)] execOrKeep_def)

lemma bodies_run:
  "sqliteLaws exec write view effect \<Longrightarrow> view (ad_db a) = (c, fs) \<Longrightarrow> 0 < ad_txDepth a
   \<Longrightarrow> bodyRuns exec write view ss a fs (nestedSpec effect ss c)"
proof (induction effect ss c arbitrary: a fs rule: nestedSpec.induct)
  case (1 effect c)
  then show ?case by (auto simp: bodyRuns_def)
next
  case (2 effect w ss c)
  have "view (ad_db (runWrite write w a)) = (effect w c, fs)"
    using 2(2,3) by (simp add: sqliteLaws_def runWrite_def)
  from 2(1) [OF 2(2) this] 2(4) show ?case by (simp add: bodyRuns_def runWrite_def)
next
  case (3 effect ss c)
  then show ?case by (auto simp: bodyRuns_def)
next
  case (4 effect caught body ss c)
  define d where "d = ad_txDepth a"
  obtain db where b: "txBegin exec a = (Some \<lparr>tk_nested = True, tk_sp = spName d\<rparr>, \<lparr>ad_db = db, ad_txDepth = Suc d\<rparr>)"
    "view db = (c, (Some (spName d), c) # fs)"
    unfolding d_def by (rule nested_begin [OF 4(4-6)])
  have "bodyRuns exec write view body \<lparr>ad_db = db, ad_txDepth = Suc d\<rparr> ((Some (spName d), c) # fs) (nestedSpec effect body c)"
    using 4(1) [OF 4(4), of "\<lparr>ad_db = db, ad_txDepth = Suc d\<rparr>"] b(2) by simp
  then obtain returned a2 l c2 where r: "runBody exec write body \<lparr>ad_db = db, ad_txDepth = Suc d\<rparr> = (returned, a2)" "ad_txDepth a2 = Suc d"
    "view (ad_db a2) = (c2, l @ (Some (spName d), c) # fs)" "leftover (Suc d) l"
    "case nestedSpec effect body c of Some c' \<Rightarrow> returned \<and> c2 = c' | None \<Rightarrow> \<not> returned"
    unfolding bodyRuns_def by auto
  obtain a3 where e: "txEnd exec \<lparr>tk_nested = True, tk_sp = spName d\<rparr> returned a2 = (if returned then TxDone else TxThrown, a3)"
    "ad_txDepth a3 = d" "view (ad_db a3) = (if returned then (c2, fs) else (c, (Some (spName d), c) # fs))"
    using nested_end [OF 4(4) r(2,4,3)] by blast
  have run: "runBody exec write (DoTransaction caught body # ss) a = (if returned \<or> caught then runBody exec write ss a3 else (False, a3))"
    by (simp add: b(1) r(1) e(1))
  show ?case
  proof (cases "nestedSpec effect body c")
    case (Some c')
    then have "view (ad_db a3) = (c', fs)" "returned" using r(5) e(3) by auto
    then show ?thesis using 4(3) [OF Some 4(4), of a3 fs] 4(6) Some run e(2) by (simp add: bodyRuns_def d_def)
  next
    case None
    then have f: "view (ad_db a3) = (c, (Some (spName d), c) # fs)" "\<not> returned" using r(5) e(3) by auto
    show ?thesis
    proof (cases caught)
      case True
      have "bodyRuns exec write view ss a3 ((Some (spName d), c) # fs) (nestedSpec effect ss c)"
        using 4(2) [OF None True 4(4) f(1)] 4(6) e(2) by (simp add: d_def)
      then obtain ok a4 l4 c4 where s: "runBody exec write ss a3 = (ok, a4)" "ad_txDepth a4 = d"
        "view (ad_db a4) = (c4, (l4 @ [(Some (spName d), c)]) @ fs)" "leftover d l4"
        "case nestedSpec effect ss c of Some c' \<Rightarrow> ok \<and> c4 = c' | None \<Rightarrow> \<not> ok"
        using e(2) unfolding bodyRuns_def by auto
      then have "leftover d (l4 @ [(Some (spName d), c)])" by auto
      then show ?thesis using s True None run unfolding bodyRuns_def d_def [symmetric] by auto
    next
      case False
      have "leftover d [(Some (spName d), c)]" by auto
      moreover have "view (ad_db a3) = (c, [(Some (spName d), c)] @ fs)" using f by simp
      ultimately show ?thesis using f(2) False None run e(2) unfolding bodyRuns_def d_def [symmetric] by auto
    qed
  qed
qed

text \<open>
  C9. Nested transactions are atomic: on an idle connection a transaction whose function runs transactions inside, in any
  nesting, and lets their errors pass or catches them, succeeds exactly when the specification does, leaves the data
  of the specification or, when it throws, the data from before, and leaves the connection idle.
\<close>

theorem nested_transactions_atomic:
  assumes "sqliteLaws exec write view effect" and "view (ad_db a) = (c, [])" and "ad_txDepth a = 0"
  shows "\<exists>a'. runBody exec write [DoTransaction False body] a = (nestedSpec effect body c \<noteq> None, a')
    \<and> ad_txDepth a' = 0 \<and> view (ad_db a') = (nullish (nestedSpec effect body c) c, [])"
proof -
  obtain db where b: "exec BeginImmediate (ad_db a) = Some db" "view db = (c, [(None, c)])"
    using laws_exec [OF assms(1,2), of BeginImmediate] by auto
  then have t: "txBegin exec a = (Some \<lparr>tk_nested = False, tk_sp = spName 0\<rparr>, \<lparr>ad_db = db, ad_txDepth = 1\<rparr>)"
    using assms(3) by (simp add: txBegin_def)
  have "bodyRuns exec write view body \<lparr>ad_db = db, ad_txDepth = 1\<rparr> [(None, c)] (nestedSpec effect body c)"
    using bodies_run [OF assms(1), of "\<lparr>ad_db = db, ad_txDepth = 1\<rparr>"] b(2) by simp
  then obtain returned a2 l c2 where r: "runBody exec write body \<lparr>ad_db = db, ad_txDepth = 1\<rparr> = (returned, a2)" "ad_txDepth a2 = 1"
    "view (ad_db a2) = (c2, l @ [(None, c)])" "case nestedSpec effect body c of Some c' \<Rightarrow> returned \<and> c2 = c' | None \<Rightarrow> \<not> returned"
    unfolding bodyRuns_def by auto
  obtain dc where dc: "exec Commit (ad_db a2) = Some dc" "view dc = (c2, [])" using laws_exec [OF assms(1) r(3), of Commit] by auto
  obtain dr where dr: "exec Rollback (ad_db a2) = Some dr" "view dr = (c, [])" using laws_exec [OF assms(1) r(3), of Rollback] by auto
  show ?thesis
    using r dc dr by (cases "nestedSpec effect body c") (auto simp: t txEnd_def execOrKeep_def Let_def)
qed

text \<open>A connection over a list of written values, with its frames.\<close>

definition listWrite :: "nat \<Rightarrow> nat list \<times> nat list frames \<Rightarrow> nat list \<times> nat list frames" where
  "listWrite w db = (fst db @ [w], snd db)"

lemma list_sqlite: "sqliteLaws afterCommand listWrite (\<lambda>db. db) (\<lambda>w c. c @ [w])"
  by (simp add: sqliteLaws_def listWrite_def option.map_ident)

definition idleList :: "(nat list \<times> nat list frames) adapter" where
  "idleList = \<lparr>ad_db = ([], []), ad_txDepth = 0\<rparr>"

theorem nested_transactions_atomic_witness:
  "\<exists>a'. runBody afterCommand listWrite [DoTransaction False [DoWrite 1, DoTransaction True [DoWrite 2, DoTransaction True [DoWrite 3], DoThrow],
      DoTransaction False [DoWrite 4]]] idleList = (True, a') \<and> ad_db a' = ([1, 4], [])"
  using nested_transactions_atomic [OF list_sqlite, of idleList "[]" "[DoWrite 1, DoTransaction True [DoWrite 2, DoTransaction True [DoWrite 3], DoThrow],
      DoTransaction False [DoWrite 4]]"]
  by (auto simp: idleList_def)

section \<open>Transactions that overlap\<close>

text \<open>
  C31. Transactions that overlap on the connection of better-sqlite3 are not isolated: a transaction that starts while
  another awaits becomes a savepoint of it. When the inner one has committed and its caller has been told so, a
  failure of the outer one discards its write; when the outer one commits first, a failure of the inner one no longer
  undoes its write; and \<open>immediate\<close> fails while any transaction is open.
\<close>

theorem overlapping_transactions_mix:
  assumes "sqliteLaws exec write view effect" and "view (ad_db a) = (c, [])" and "ad_txDepth a = 0"
  shows "\<exists>ta tb a1 a2 a4 a5 b4 b5. txBegin exec a = (Some ta, a1) \<and> txBegin exec a1 = (Some tb, a2)
    \<and> txEnd exec tb True (runWrite write w a2) = (TxDone, a4) \<and> txEnd exec ta False a4 = (TxThrown, a5) \<and> view (ad_db a5) = (c, [])
    \<and> txEnd exec ta True (runWrite write w a2) = (TxDone, b4) \<and> txEnd exec tb False b4 = (TxThrown, b5)
    \<and> view (ad_db b5) = (effect w c, []) \<and> fst (immediateBegin exec a1) = False"
proof -
  obtain d1 where 1: "exec BeginImmediate (ad_db a) = Some d1" "view d1 = (c, [(None, c)])"
    using laws_exec [OF assms(1,2), of BeginImmediate] by auto
  obtain d2 where 2: "exec (Savepoint (spName 1)) d1 = Some d2" "view d2 = (c, [(Some (spName 1), c), (None, c)])"
    using laws_exec [OF assms(1) 1(2), of "Savepoint (spName 1)"] by auto
  have 3: "view (write w d2) = (effect w c, [(Some (spName 1), c), (None, c)])" using assms(1) 2(2) by (simp add: sqliteLaws_def)
  obtain d4 where 4: "exec (Release (spName 1)) (write w d2) = Some d4" "view d4 = (effect w c, [(None, c)])"
    using laws_exec [OF assms(1) 3, of "Release (spName 1)"] by (auto simp: fromSavepoint_def)
  obtain d5 where 5: "exec Rollback d4 = Some d5" "view d5 = (c, [])"
    using laws_exec [OF assms(1) 4(2), of Rollback] by auto
  obtain e4 where 6: "exec Commit (write w d2) = Some e4" "view e4 = (effect w c, [])"
    using laws_exec [OF assms(1) 3, of Commit] by auto
  have 7: "exec (RollbackTo (spName 1)) e4 = None"
    using assms(1) 6(2) by (cases "exec (RollbackTo (spName 1)) e4") (auto simp: sqliteLaws_def fromSavepoint_def dest!: spec [of _ "RollbackTo (spName 1)"] dest: spec [of _ e4])
  have 8: "exec BeginImmediate d1 = None"
    using assms(1) 1(2) by (cases "exec BeginImmediate d1") (auto simp: sqliteLaws_def dest!: spec [of _ BeginImmediate] dest: spec [of _ d1])
  show ?thesis
    using assms(3) 1 2 4 5 6 7 8
    by (auto simp: txBegin_def txEnd_def runWrite_def execOrKeep_def immediateBegin_def)
qed

theorem overlapping_transactions_mix_witness:
  "\<exists>ta tb a1 a2 a4 a5. txBegin afterCommand idleList = (Some ta, a1) \<and> txBegin afterCommand a1 = (Some tb, a2)
    \<and> txEnd afterCommand tb True (runWrite listWrite 7 a2) = (TxDone, a4) \<and> txEnd afterCommand ta False a4 = (TxThrown, a5)
    \<and> ad_db a5 = ([], [])"
  using overlapping_transactions_mix [OF list_sqlite, of idleList "[]" 7] by (simp add: idleList_def) metis

text \<open>
  Over node:sqlite, when the transaction that started first commits first, the other one is reported as failed
  although its write is kept: its savepoint went with the outer one, so its own release fails.
\<close>

theorem node_transaction_misreports:
  assumes "sqliteLaws exec write view effect" and "view db = (c, [])" and "sa \<noteq> sb"
  shows "\<exists>d1 d2 d3 d4. savepointBegin exec sa db = Some d1 \<and> savepointBegin exec sb d1 = Some d2
    \<and> savepointEnd exec sa True (write w d2) = (TxDone, d3) \<and> savepointEnd exec sb True d3 = (TxThrown, d4) \<and> view d4 = (effect w c, [])"
proof -
  obtain d1 where 1: "exec (Savepoint sa) db = Some d1" "view d1 = (c, [(Some sa, c)])"
    using laws_exec [OF assms(1,2), of "Savepoint sa"] by auto
  obtain d2 where 2: "exec (Savepoint sb) d1 = Some d2" "view d2 = (c, [(Some sb, c), (Some sa, c)])"
    using laws_exec [OF assms(1) 1(2), of "Savepoint sb"] by auto
  have 3: "view (write w d2) = (effect w c, [(Some sb, c), (Some sa, c)])" using assms(1) 2(2) by (simp add: sqliteLaws_def)
  obtain d3 where 4: "exec (Release sa) (write w d2) = Some d3" "view d3 = (effect w c, [])"
    using laws_exec [OF assms(1) 3, of "Release sa"] assms(3) by (auto simp: fromSavepoint_def)
  have none: "exec cmd d3 = None" if "afterCommand cmd (effect w c, []) = None" for cmd
    using assms(1) 4(2) that by (cases "exec cmd d3") (auto simp: sqliteLaws_def dest!: spec [of _ cmd] dest: spec [of _ d3])
  show ?thesis using 1 2 4 none [of "Release sb"] none [of "RollbackTo sb"]
    by (simp add: savepointBegin_def savepointEnd_def fromSavepoint_def)
qed

theorem node_transaction_misreports_witness:
  "\<exists>d1 d2 d3 d4. savepointBegin afterCommand ''x'' ([], []) = Some d1 \<and> savepointBegin afterCommand ''y'' d1 = Some d2
    \<and> savepointEnd afterCommand ''x'' True (listWrite 7 d2) = (TxDone, d3) \<and> savepointEnd afterCommand ''y'' True d3 = (TxThrown, d4)
    \<and> d4 = ([7], [])"
  using node_transaction_misreports [OF list_sqlite, of "([], [])" "[]" "''x''" "''y''" 7] by simp

end
