(* ===== verification/RequestDedup.thy ===== *)
theory RequestDedup
  imports JsValues
begin

text \<open>
  Sharing of concurrent equal requests: \<open>open-sse/services/requestDedup.ts\<close> and its use in \<open>executeProviderRequest\<close>
  of \<open>open-sse/handlers/chatCore.ts\<close>. The digest (SHA-256 of the JSON text) is a parameter. A call is a number; the
  shared promise of a leading call is that call's result, which a joined call awaits. The closure \<open>fn\<close> is the body it
  sends. A body comes from \<open>JSON.parse\<close>: a number literal that overflows is not modelled, so \<open>JNaN\<close> is a NaN.
\<close>

section \<open>Which requests are shared\<close>

definition MAX_INFLIGHT :: nat where "MAX_INFLIGHT = 1000"

record dedup_config =
  dc_enabled :: bool
  dc_maxTemperatureForDedup :: rat
  dc_timeoutMs :: millis

definition DEFAULT_DEDUP_CONFIG :: dedup_config where
  "DEFAULT_DEDUP_CONFIG = \<lparr>dc_enabled = True, dc_maxTemperatureForDedup = 1 / 10, dc_timeoutMs = 60000\<rparr>"

definition temperatureOf :: "json_object \<Rightarrow> json" where
  "temperatureOf body = (case field ''temperature'' body of JNum t \<Rightarrow> JNum t | JNaN \<Rightarrow> JNaN | _ \<Rightarrow> JNum 1)"

definition canonicalRequest :: "json_object \<Rightarrow> json" where
  "canonicalRequest body =
     JObj [(''model'', orElse (field ''model'' body) JNull),
           (''messages'', orElse (field ''messages'' body) JNull),
           (''temperature'', temperatureOf body),
           (''tools'', orElse (field ''tools'' body) JNull),
           (''tool_choice'', orElse (field ''tool_choice'' body) JNull),
           (''max_tokens'', orElse (field ''max_tokens'' body) JNull),
           (''response_format'', orElse (field ''response_format'' body) JNull),
           (''top_p'', orElse (field ''top_p'' body) JNull),
           (''frequency_penalty'', orElse (field ''frequency_penalty'' body) JNull),
           (''presence_penalty'', orElse (field ''presence_penalty'' body) JNull)]"

definition computeRequestHash :: "(json \<Rightarrow> string) \<Rightarrow> json_object \<Rightarrow> string" where
  "computeRequestHash digest body = digest (canonicalRequest body)"

definition shouldDeduplicate :: "json_object \<Rightarrow> dedup_config \<Rightarrow> bool" where
  "shouldDeduplicate body config =
     (if \<not> dc_enabled config then False
      else if field ''stream'' body = JBool True then False
      else (case temperatureOf body of JNum t \<Rightarrow> \<not> dc_maxTemperatureForDedup config < t | _ \<Rightarrow> True))"

section \<open>Calls\<close>

datatype call_role = Alone | Leads | Joins nat

datatype call_result = Pending | Fulfilled string | Rejected string

record dedup_call =
  cl_hash :: string
  cl_body :: json_object
  cl_role :: call_role
  cl_result :: call_result
  cl_timer :: bool

record dedup_state =
  ds_inflight :: "(string, nat) jmap"
  ds_calls :: "dedup_call list"

definition idleDedup :: dedup_state where
  "idleDedup = \<lparr>ds_inflight = [], ds_calls = []\<rparr>"

definition addCall :: "dedup_call \<Rightarrow> dedup_state \<Rightarrow> dedup_state" where
  "addCall c s = s\<lparr>ds_calls := ds_calls s @ [c]\<rparr>"

definition newCall :: "string \<Rightarrow> json_object \<Rightarrow> call_role \<Rightarrow> dedup_call" where
  "newCall hash body role = \<lparr>cl_hash = hash, cl_body = body, cl_role = role, cl_result = Pending, cl_timer = (role = Leads)\<rparr>"

text \<open>\<open>inflight.keys().next().value\<close>, deleted.\<close>

definition evictOldestInflight :: "(string, nat) jmap \<Rightarrow> (string, nat) jmap" where
  "evictOldestInflight m = (case jkeys m of [] \<Rightarrow> m | oldestKey # _ \<Rightarrow> jdel oldestKey m)"

text \<open>\<open>deduplicate\<close> up to its first \<open>await\<close>.\<close>

definition deduplicate :: "string \<Rightarrow> json_object \<Rightarrow> dedup_config \<Rightarrow> dedup_state \<Rightarrow> dedup_state" where
  "deduplicate hash body config s =
     (if \<not> dc_enabled config then addCall (newCall hash body Alone) s
      else (case jget hash (ds_inflight s) of
              Some existing \<Rightarrow> addCall (newCall hash body (Joins existing)) s
            | None \<Rightarrow>
                (let inflight = (if MAX_INFLIGHT \<le> jsize (ds_inflight s) then evictOldestInflight (ds_inflight s) else ds_inflight s)
                 in addCall (newCall hash body Leads)
                      (s\<lparr>ds_inflight := jset hash (length (ds_calls s)) inflight\<rparr>))))"

text \<open>\<open>if (inflight.get(hash) === sharedPromise) inflight.delete(hash)\<close>\<close>

definition dropShared :: "nat \<Rightarrow> string \<Rightarrow> (string, nat) jmap \<Rightarrow> (string, nat) jmap" where
  "dropShared i hash m = (if jget hash m = Some i then jdel hash m else m)"

text \<open>\<open>fn()\<close> settles: the promise is settled, the timer cleared and the entry removed in one go.\<close>

definition settleCall :: "nat \<Rightarrow> call_result \<Rightarrow> dedup_state \<Rightarrow> dedup_state" where
  "settleCall i r s =
     (if i < length (ds_calls s) \<and> cl_result (ds_calls s ! i) = Pending \<and> r \<noteq> Pending then
        (let c = ds_calls s ! i
         in case cl_role c of
              Joins _ \<Rightarrow> s
            | Alone \<Rightarrow> s\<lparr>ds_calls := (ds_calls s)[i := c\<lparr>cl_result := r\<rparr>]\<rparr>
            | Leads \<Rightarrow> s\<lparr>ds_calls := (ds_calls s)[i := c\<lparr>cl_result := r, cl_timer := False\<rparr>],
                        ds_inflight := dropShared i (cl_hash c) (ds_inflight s)\<rparr>)
      else s)"

definition timeoutCall :: "nat \<Rightarrow> dedup_state \<Rightarrow> dedup_state" where
  "timeoutCall i s =
     (if i < length (ds_calls s) \<and> cl_timer (ds_calls s ! i) then
        (let c = ds_calls s ! i
         in s\<lparr>ds_calls := (ds_calls s)[i := c\<lparr>cl_timer := False\<rparr>],
              ds_inflight := dropShared i (cl_hash c) (ds_inflight s)\<rparr>)
      else s)"

definition clearInflight :: "dedup_state \<Rightarrow> dedup_state" where
  "clearInflight s = s\<lparr>ds_inflight := []\<rparr>"

definition getInflightCount :: "dedup_state \<Rightarrow> nat" where
  "getInflightCount s = jsize (ds_inflight s)"

definition getInflightHashes :: "dedup_state \<Rightarrow> string list" where
  "getInflightHashes s = jkeys (ds_inflight s)"

text \<open>What the caller of a call gets.\<close>

definition answerOf :: "nat \<Rightarrow> dedup_state \<Rightarrow> call_result" where
  "answerOf i s = (case cl_role (ds_calls s ! i) of
      Joins existing \<Rightarrow> cl_result (ds_calls s ! existing)
    | _ \<Rightarrow> cl_result (ds_calls s ! i))"

section \<open>Requests of the chat handler\<close>

definition dedupRequestBody :: "json_object \<Rightarrow> string \<Rightarrow> string \<Rightarrow> bool \<Rightarrow> json_object" where
  "dedupRequestBody translatedBody provider model stream =
     spread [(''model'', JStr (provider @ ''/'' @ model)), (''stream'', JBool stream)] translatedBody"

text \<open>
  \<open>executeProviderRequest\<close>: the first attempt of a request may be shared, a retry or a fallback (\<open>allowDedup\<close> false)
  is sent on its own.
\<close>

definition executeProviderRequest ::
  "(json \<Rightarrow> string) \<Rightarrow> json_object \<Rightarrow> string \<Rightarrow> string \<Rightarrow> bool \<Rightarrow> bool \<Rightarrow> dedup_state \<Rightarrow> dedup_state" where
  "executeProviderRequest digest translatedBody provider model stream allowDedup s =
     (let body = dedupRequestBody translatedBody provider model stream;
          dedupEnabled = shouldDeduplicate body DEFAULT_DEDUP_CONFIG;
          dedupHash = (if dedupEnabled then Some (computeRequestHash digest body) else None)
      in case dedupHash of
           Some h \<Rightarrow> if allowDedup \<and> h \<noteq> [] then deduplicate h body DEFAULT_DEDUP_CONFIG s
                     else addCall (newCall [] body Alone) s
         | None \<Rightarrow> addCall (newCall [] body Alone) s)"

datatype dedup_op =
    ExecuteRequest json_object string string bool bool
  | SettleCall nat call_result
  | TimeoutCall nat
  | ClearInflight

fun dedupOp :: "(json \<Rightarrow> string) \<Rightarrow> dedup_op \<Rightarrow> dedup_state \<Rightarrow> dedup_state" where
  "dedupOp digest (ExecuteRequest body provider model stream allowDedup) s =
     executeProviderRequest digest body provider model stream allowDedup s"
| "dedupOp digest (SettleCall i r) s = settleCall i r s"
| "dedupOp digest (TimeoutCall i) s = timeoutCall i s"
| "dedupOp digest ClearInflight s = clearInflight s"

end
