(* ===== verification/RequestDedupLaws.thy ===== *)
theory RequestDedupLaws
  imports RequestDedup
begin

text \<open>
  What sharing requests guarantees: the invariant of the calls, one upstream call for the requests of one digest, and
  which requests get the answer of another one.
\<close>

section \<open>The invariant\<close>

definition leading :: "dedup_state \<Rightarrow> nat \<Rightarrow> bool" where
  "leading s i \<longleftrightarrow> i < length (ds_calls s) \<and> cl_role (ds_calls s ! i) = Leads"

definition leadsNow :: "dedup_state \<Rightarrow> nat \<Rightarrow> bool" where
  "leadsNow s i \<longleftrightarrow> leading s i \<and> cl_result (ds_calls s ! i) = Pending"

definition hashOf :: "dedup_state \<Rightarrow> nat \<Rightarrow> string" where
  "hashOf s i = cl_hash (ds_calls s ! i)"

definition inflightOk :: "dedup_state \<Rightarrow> bool" where
  "inflightOk s \<longleftrightarrow> jinv (ds_inflight s) \<and> jsize (ds_inflight s) \<le> MAX_INFLIGHT
     \<and> (\<forall>h i. jget h (ds_inflight s) = Some i \<longrightarrow> leadsNow s i \<and> hashOf s i = h)"

definition callOk :: "(json \<Rightarrow> string) \<Rightarrow> dedup_state \<Rightarrow> nat \<Rightarrow> bool" where
  "callOk digest s j \<longleftrightarrow>
     (let c = ds_calls s ! j
      in (\<forall>i. cl_role c = Joins i \<longrightarrow> leading s i \<and> hashOf s i = cl_hash c)
         \<and> (cl_timer c \<longrightarrow> cl_role c = Leads)
         \<and> (cl_role c \<noteq> Alone \<longrightarrow> cl_hash c = computeRequestHash digest (cl_body c)
              \<and> shouldDeduplicate (cl_body c) DEFAULT_DEDUP_CONFIG))"

definition dedupInv :: "(json \<Rightarrow> string) \<Rightarrow> dedup_state \<Rightarrow> bool" where
  "dedupInv digest s \<longleftrightarrow> inflightOk s \<and> (\<forall>j < length (ds_calls s). callOk digest s j)"

text \<open>Adding a call and changing the result or the timer of one leave the others as they are.\<close>

lemma addCall_frame:
  "leading s i \<and> hashOf s i = h \<Longrightarrow> leading (addCall c s) i \<and> hashOf (addCall c s) i = h"
  "leadsNow s i \<and> hashOf s i = h \<Longrightarrow> leadsNow (addCall c s) i \<and> hashOf (addCall c s) i = h"
  by (simp_all add: leading_def leadsNow_def hashOf_def addCall_def nth_append)

lemma inflight_frame [simp]:
  "leading (s\<lparr>ds_inflight := m\<rparr>) = leading s"
  "leadsNow (s\<lparr>ds_inflight := m\<rparr>) = leadsNow s"
  "hashOf (s\<lparr>ds_inflight := m\<rparr>) = hashOf s"
  "callOk digest (s\<lparr>ds_inflight := m\<rparr>) = callOk digest s"
  by (simp_all add: fun_eq_iff leading_def leadsNow_def hashOf_def callOk_def)

lemma addCall_calls:
  assumes calls: "\<forall>j < length (ds_calls s). callOk digest s j"
    and new: "\<forall>i. cl_role c = Joins i \<longrightarrow> leading s i \<and> hashOf s i = cl_hash c"
    and timer: "cl_timer c \<longrightarrow> cl_role c = Leads"
    and shared: "cl_role c \<noteq> Alone \<longrightarrow> cl_hash c = computeRequestHash digest (cl_body c)
          \<and> shouldDeduplicate (cl_body c) DEFAULT_DEDUP_CONFIG"
  shows "\<forall>j < length (ds_calls (addCall c s)). callOk digest (addCall c s) j"
proof (intro allI impI)
  fix j
  assume j: "j < length (ds_calls (addCall c s))"
  show "callOk digest (addCall c s) j"
  proof (cases "j < length (ds_calls s)")
    case True
    then have "ds_calls (addCall c s) ! j = ds_calls s ! j" by (simp add: addCall_def nth_append)
    then show ?thesis using calls True addCall_frame(1) by (simp add: callOk_def Let_def)
  next
    case False
    then have "ds_calls (addCall c s) ! j = c" using j by (simp add: addCall_def nth_append)
    then show ?thesis using new timer shared addCall_frame(1) by (simp add: callOk_def Let_def)
  qed
qed

lemma inflightOk_addCall: "inflightOk s \<Longrightarrow> inflightOk (addCall c s)"
  using addCall_frame(2) by (simp add: inflightOk_def addCall_def)

lemma evictOldestInflight_jget: "jget h (evictOldestInflight m) = Some i \<Longrightarrow> jget h m = Some i"
  by (auto simp: evictOldestInflight_def split: list.splits if_splits)

lemma evictOldestInflight_jinv: "jinv m \<Longrightarrow> jinv (evictOldestInflight m)"
  by (simp add: evictOldestInflight_def split: list.split)

lemma evictOldestInflight_size: "jinv m \<Longrightarrow> 0 < jsize m \<Longrightarrow> Suc (jsize (evictOldestInflight m)) = jsize m"
  by (cases m) (simp_all add: evictOldestInflight_def jkeys_def jsize_def jsize_jdel [unfolded jsize_def] jhas_def jget_Cons)

lemma deduplicate_inv:
  assumes inv: "dedupInv digest s" and h: "h = computeRequestHash digest body"
    and share: "shouldDeduplicate body DEFAULT_DEDUP_CONFIG"
  shows "dedupInv digest (deduplicate h body DEFAULT_DEDUP_CONFIG s)"
proof (cases "jget h (ds_inflight s)")
  case (Some e)
  have e: "leading s e" "hashOf s e = h" using inv Some by (auto simp: dedupInv_def inflightOk_def leadsNow_def)
  define c where "c = newCall h body (Joins e)"
  have "\<forall>j < length (ds_calls (addCall c s)). callOk digest (addCall c s) j"
    using inv e h share by (intro addCall_calls) (auto simp: dedupInv_def c_def newCall_def)
  moreover have "inflightOk (addCall c s)"
    using inv by (auto simp: dedupInv_def inflightOk_addCall)
  ultimately show ?thesis using Some by (simp add: dedupInv_def deduplicate_def DEFAULT_DEDUP_CONFIG_def c_def)
next
  case None
  define m where "m = (if MAX_INFLIGHT \<le> jsize (ds_inflight s) then evictOldestInflight (ds_inflight s) else ds_inflight s)"
  define t where "t = s\<lparr>ds_inflight := jset h (length (ds_calls s)) m\<rparr>"
  define c where "c = newCall h body Leads"
  have ok: "jinv (ds_inflight s)" "jsize (ds_inflight s) \<le> MAX_INFLIGHT" using inv by (auto simp: dedupInv_def inflightOk_def)
  have m: "jinv m" "jsize m < MAX_INFLIGHT" "\<And>k i. jget k m = Some i \<Longrightarrow> jget k (ds_inflight s) = Some i"
    using ok evictOldestInflight_size [OF ok(1)]
    by (auto simp: m_def evictOldestInflight_jinv MAX_INFLIGHT_def dest: evictOldestInflight_jget split: if_splits)
  have "\<forall>j < length (ds_calls (addCall c t)). callOk digest (addCall c t) j"
    using inv h share by (intro addCall_calls) (auto simp: dedupInv_def c_def t_def newCall_def)
  moreover have "leadsNow (addCall c t) i \<and> hashOf (addCall c t) i = k"
    if g: "jget k (jset h (length (ds_calls s)) m) = Some i" for k i
  proof (cases "k = h")
    case True
    then show ?thesis using g
      by (auto simp: addCall_def c_def t_def newCall_def leadsNow_def leading_def hashOf_def nth_append)
  next
    case False
    then have "leadsNow s i \<and> hashOf s i = k" using g m(3) inv by (auto simp: dedupInv_def inflightOk_def)
    then show ?thesis using addCall_frame(2) [of t i k c] by (simp add: t_def)
  qed
  then have "inflightOk (addCall c t)"
    using m(1,2) by (auto simp: inflightOk_def addCall_def t_def jsize_jset)
  ultimately show ?thesis using None
    by (simp add: dedupInv_def deduplicate_def DEFAULT_DEDUP_CONFIG_def c_def t_def m_def)
qed

lemma alone_inv: "dedupInv digest s \<Longrightarrow> dedupInv digest (addCall (newCall h body Alone) s)"
  using addCall_calls [of s digest "newCall h body Alone"] by (auto simp: dedupInv_def inflightOk_addCall newCall_def)

lemma execute_inv:
  assumes "dedupInv digest s"
  shows "dedupInv digest (executeProviderRequest digest body provider model stream allowDedup s)"
  using assms by (auto simp: executeProviderRequest_def Let_def intro: alone_inv deduplicate_inv)

text \<open>Settling a call or firing its timer changes the entry of its own digest at most.\<close>

lemma dropShared_simps:
  "jinv m \<Longrightarrow> jinv (dropShared i h m)" "jsize (dropShared i h m) \<le> jsize m"
  "jget k (dropShared i h m) = (if k = h \<and> jget h m = Some i then None else jget k m)"
  by (auto simp: dropShared_def jsize_jdel_le)

lemma update_frame:
  assumes "i < length (ds_calls s)" and c: "cl_role c = cl_role (ds_calls s ! i)" "cl_hash c = cl_hash (ds_calls s ! i)"
  shows "leading (s\<lparr>ds_calls := (ds_calls s)[i := c]\<rparr>) j = leading s j"
    "hashOf (s\<lparr>ds_calls := (ds_calls s)[i := c]\<rparr>) j = hashOf s j"
    "leadsNow (s\<lparr>ds_calls := (ds_calls s)[i := c]\<rparr>) j =
       (if j = i then leading s i \<and> cl_result c = Pending else leadsNow s j)"
  using assms by (auto simp: leading_def hashOf_def leadsNow_def nth_list_update)

lemma update_calls:
  assumes calls: "\<forall>j < length (ds_calls s). callOk digest s j" and i: "i < length (ds_calls s)"
    and c: "cl_role c = cl_role (ds_calls s ! i)" "cl_hash c = cl_hash (ds_calls s ! i)"
           "cl_body c = cl_body (ds_calls s ! i)" "cl_timer c \<longrightarrow> cl_timer (ds_calls s ! i)"
    and t: "t = s\<lparr>ds_calls := (ds_calls s)[i := c], ds_inflight := m\<rparr>"
  shows "\<forall>j < length (ds_calls t). callOk digest t j"
proof (intro allI impI)
  fix j
  assume "j < length (ds_calls t)"
  then have j: "callOk digest s j" "j < length (ds_calls s)" using calls by (auto simp: t)
  have "ds_calls t ! j = (if j = i then c else ds_calls s ! j)" using i by (simp add: t nth_list_update)
  moreover have "leading t = leading s" "hashOf t = hashOf s" using update_frame(1,2) [OF i c(1,2)] by (simp_all add: t fun_eq_iff)
  ultimately show "callOk digest t j" using j c by (cases "j = i") (simp_all add: callOk_def Let_def)
qed

lemma update_inflight:
  assumes ok: "inflightOk s" and i: "i < length (ds_calls s)"
    and c: "cl_role c = cl_role (ds_calls s ! i)" "cl_hash c = cl_hash (ds_calls s ! i)"
    and t: "t = s\<lparr>ds_calls := (ds_calls s)[i := c], ds_inflight := dropShared i (cl_hash (ds_calls s ! i)) (ds_inflight s)\<rparr>"
  shows "inflightOk t"
proof -
  let ?m = "ds_inflight s" and ?h = "cl_hash (ds_calls s ! i)"
  have "leadsNow t j \<and> hashOf t j = k" if g: "jget k (dropShared i ?h ?m) = Some j" for k j
  proof -
    have s: "leadsNow s j \<and> hashOf s j = k" and j: "jget k ?m = Some j"
      using ok g by (auto simp: dropShared_simps inflightOk_def split: if_splits)
    have "j \<noteq> i" using g s j by (auto simp: dropShared_simps hashOf_def split: if_splits)
    then show ?thesis using s by (simp add: t update_frame [OF i c])
  qed
  then show ?thesis using ok order_trans [OF dropShared_simps(2)] by (auto simp: inflightOk_def t dropShared_simps(1))
qed

lemma settle_inv:
  assumes inv: "dedupInv digest s"
  shows "dedupInv digest (settleCall i r s)"
proof (cases "i < length (ds_calls s) \<and> cl_result (ds_calls s ! i) = Pending \<and> r \<noteq> Pending")
  case c: True
  let ?c = "ds_calls s ! i"
  have inv': "inflightOk s" "\<forall>j < length (ds_calls s). callOk digest s j" using inv by (auto simp: dedupInv_def)
  show ?thesis
  proof (cases "cl_role ?c")
    case Alone
    define t where "t = s\<lparr>ds_calls := (ds_calls s)[i := ?c\<lparr>cl_result := r\<rparr>], ds_inflight := ds_inflight s\<rparr>"
    have "\<forall>j < length (ds_calls t). callOk digest t j" by (rule update_calls [OF inv'(2) _ _ _ _ _ t_def]) (use c in auto)
    moreover have "inflightOk t"
      using inv'(1) c Alone by (auto simp: inflightOk_def t_def update_frame leadsNow_def leading_def hashOf_def nth_list_update)
    ultimately show ?thesis using c Alone by (simp add: dedupInv_def settleCall_def t_def)
  next
    case Leads
    define t where "t = s\<lparr>ds_calls := (ds_calls s)[i := ?c\<lparr>cl_result := r, cl_timer := False\<rparr>],
        ds_inflight := dropShared i (cl_hash ?c) (ds_inflight s)\<rparr>"
    have "\<forall>j < length (ds_calls t). callOk digest t j" by (rule update_calls [OF inv'(2) _ _ _ _ _ t_def]) (use c in auto)
    moreover have "inflightOk t" by (rule update_inflight [OF inv'(1) _ _ _ t_def]) (use c in auto)
    ultimately show ?thesis using c Leads by (simp add: dedupInv_def settleCall_def t_def Let_def)
  next
    case (Joins x)
    then show ?thesis using inv c by (simp add: settleCall_def)
  qed
next
  case False
  then show ?thesis using inv by (auto simp: settleCall_def)
qed

lemma timeout_inv:
  assumes inv: "dedupInv digest s"
  shows "dedupInv digest (timeoutCall i s)"
proof (cases "i < length (ds_calls s) \<and> cl_timer (ds_calls s ! i)")
  case c: True
  let ?c = "ds_calls s ! i"
  define t where "t = s\<lparr>ds_calls := (ds_calls s)[i := ?c\<lparr>cl_timer := False\<rparr>],
      ds_inflight := dropShared i (cl_hash ?c) (ds_inflight s)\<rparr>"
  have inv': "inflightOk s" "\<forall>j < length (ds_calls s). callOk digest s j" using inv by (auto simp: dedupInv_def)
  have "\<forall>j < length (ds_calls t). callOk digest t j" by (rule update_calls [OF inv'(2) _ _ _ _ _ t_def]) (use c in auto)
  moreover have "inflightOk t" by (rule update_inflight [OF inv'(1) _ _ _ t_def]) (use c in auto)
  ultimately show ?thesis using c by (simp add: dedupInv_def timeoutCall_def t_def Let_def)
next
  case False
  then show ?thesis using inv by (auto simp: timeoutCall_def)
qed

lemma clear_inv: "dedupInv digest s \<Longrightarrow> dedupInv digest (clearInflight s)"
  by (simp add: dedupInv_def inflightOk_def clearInflight_def jsize_def)

lemma dedupOp_inv: "dedupInv digest s \<Longrightarrow> dedupInv digest (dedupOp digest op s)"
  by (cases op) (simp_all add: execute_inv settle_inv timeout_inv clear_inv)

lemma dedup_run_inv: "dedupInv digest s \<Longrightarrow> dedupInv digest (fold (dedupOp digest) ops s)"
  by (induction ops arbitrary: s) (simp_all add: dedupOp_inv)

lemma dedup_idle_inv: "dedupInv digest idleDedup"
  by (simp add: dedupInv_def inflightOk_def idleDedup_def jsize_def)

section \<open>One upstream call for one digest\<close>

text \<open>Without a timeout, a cleared map or an eviction, every leading call that waits is in the map.\<close>

definition allMapped :: "dedup_state \<Rightarrow> bool" where
  "allMapped s \<longleftrightarrow> (\<forall>i. leadsNow s i \<longrightarrow> jget (hashOf s i) (ds_inflight s) = Some i)"

lemma allMapped_addCall:
  assumes "allMapped s" and "cl_role c \<noteq> Leads"
  shows "allMapped (addCall c s)"
  using assms by (auto simp: allMapped_def leadsNow_def leading_def hashOf_def addCall_def nth_append split: if_splits)

lemma deduplicate_mapped:
  assumes m: "allMapped s" and room: "jsize (ds_inflight s) < MAX_INFLIGHT"
  shows "allMapped (deduplicate h body DEFAULT_DEDUP_CONFIG s)"
proof (cases "jget h (ds_inflight s)")
  case None
  have "hashOf s i \<noteq> h" if "leadsNow s i" for i using m that None by (auto simp: allMapped_def)
  then show ?thesis using m room None
    by (auto simp: deduplicate_def DEFAULT_DEDUP_CONFIG_def allMapped_def leadsNow_def leading_def hashOf_def addCall_def
        newCall_def nth_append split: if_splits)
next
  case (Some e)
  then show ?thesis using allMapped_addCall [OF m] by (simp add: deduplicate_def DEFAULT_DEDUP_CONFIG_def newCall_def)
qed

lemma execute_mapped:
  assumes "allMapped s" and "jsize (ds_inflight s) < MAX_INFLIGHT"
  shows "allMapped (executeProviderRequest digest body provider model stream allowDedup s)"
  using assms by (auto simp: executeProviderRequest_def Let_def newCall_def intro: allMapped_addCall deduplicate_mapped)

lemma settle_mapped:
  assumes m: "allMapped s"
  shows "allMapped (settleCall i r s)"
proof -
  have "jget (hashOf s j) (dropShared i (hashOf s i) (ds_inflight s)) = Some j" if "leadsNow s j" "j \<noteq> i" for j
    using m that by (auto simp: allMapped_def dropShared_simps)
  then show ?thesis using m
    by (auto simp: settleCall_def Let_def allMapped_def update_frame hashOf_def split: call_role.splits if_splits)
qed

text \<open>A run in which no timer fires, the map is not cleared and never full.\<close>

definition calmRun :: "(json \<Rightarrow> string) \<Rightarrow> dedup_op list \<Rightarrow> bool" where
  "calmRun digest ops \<longleftrightarrow> (\<forall>n < length ops.
     getInflightCount (fold (dedupOp digest) (take n ops) idleDedup) < MAX_INFLIGHT
     \<and> (case ops ! n of TimeoutCall _ \<Rightarrow> False | ClearInflight \<Rightarrow> False | _ \<Rightarrow> True))"

lemma calmRun_snoc:
  "calmRun digest (ops @ [op]) \<longleftrightarrow> calmRun digest ops
     \<and> getInflightCount (fold (dedupOp digest) ops idleDedup) < MAX_INFLIGHT
     \<and> (case op of TimeoutCall _ \<Rightarrow> False | ClearInflight \<Rightarrow> False | _ \<Rightarrow> True)"
  by (auto simp: calmRun_def less_Suc_eq nth_append)

lemma calm_mapped: "calmRun digest ops \<Longrightarrow> allMapped (fold (dedupOp digest) ops idleDedup)"
proof (induction ops rule: rev_induct)
  case Nil
  then show ?case by (simp add: allMapped_def leadsNow_def leading_def idleDedup_def)
next
  case (snoc op ops)
  then show ?case
    by (cases op) (auto simp: calmRun_snoc getInflightCount_def intro: execute_mapped settle_mapped)
qed

lemma find_leader:
  assumes "allMapped s" and "inflightOk s"
  shows "find (\<lambda>i. leadsNow s i \<and> hashOf s i = h) [0..<length (ds_calls s)] = jget h (ds_inflight s)"
proof (cases "jget h (ds_inflight s)")
  case None
  then show ?thesis using assms(1) by (auto simp: find_None_iff allMapped_def)
next
  case (Some i)
  then have i: "leadsNow s i" "hashOf s i = h" using assms(2) by (auto simp: inflightOk_def)
  have uniq: "\<And>j. leadsNow s j \<and> hashOf s j = h \<Longrightarrow> j = i" using assms(1) Some by (auto simp: allMapped_def)
  have "find (\<lambda>j. leadsNow s j \<and> hashOf s j = h) [0..<length (ds_calls s)] = Some i"
  proof -
    have "i < length (ds_calls s)" using i by (simp add: leadsNow_def leading_def)
    moreover have "\<not> (leadsNow s j \<and> hashOf s j = h)" if "j < i" for j using uniq [of j] that by blast
    ultimately show ?thesis unfolding find_Some_iff using i by (intro exI [of _ i]) auto
  qed
  then show ?thesis using Some by simp
qed

lemma execute_role:
  assumes "shouldDeduplicate (dedupRequestBody tb provider model stream) DEFAULT_DEDUP_CONFIG"
    and "h = computeRequestHash digest (dedupRequestBody tb provider model stream)" and "h \<noteq> []"
  shows "ds_calls (executeProviderRequest digest tb provider model stream True s)
       = ds_calls s @ [newCall h (dedupRequestBody tb provider model stream)
           (case jget h (ds_inflight s) of Some i \<Rightarrow> Joins i | None \<Rightarrow> Leads)]"
  using assms by (simp add: executeProviderRequest_def Let_def deduplicate_def DEFAULT_DEDUP_CONFIG_def addCall_def
      split: option.split)

text \<open>
  C8. Concurrent equal requests make one upstream call. In a run without timeouts, evictions and a cleared map: no two
  calls with the same digest are waiting upstream; a request that may be shared joins the call that is waiting upstream
  with its digest when there is one and starts a call of its own otherwise; and when the digest does not collide on the
  requests of the run, the answer of a joined call is the answer to a request that is equal in the ten fields.
\<close>

theorem dedup_one_upstream_call:
  assumes calm: "calmRun digest ops" and s: "s = fold (dedupOp digest) ops idleDedup"
    and body: "body = dedupRequestBody tb provider model stream"
    and share: "shouldDeduplicate body DEFAULT_DEDUP_CONFIG" and digest: "digest (canonicalRequest body) \<noteq> []"
    and inj: "inj_on digest ((canonicalRequest \<circ> cl_body) ` set (ds_calls s))"
  shows "(\<forall>i j. leadsNow s i \<and> leadsNow s j \<and> hashOf s i = hashOf s j \<longrightarrow> i = j)
    \<and> cl_role (ds_calls (executeProviderRequest digest tb provider model stream True s) ! length (ds_calls s))
       = (case find (\<lambda>i. leadsNow s i \<and> hashOf s i = computeRequestHash digest body) [0..<length (ds_calls s)] of
            Some i \<Rightarrow> Joins i | None \<Rightarrow> Leads)
    \<and> (\<forall>k < length (ds_calls s). \<forall>i. cl_role (ds_calls s ! k) = Joins i \<longrightarrow>
           answerOf k s = answerOf i s
           \<and> canonicalRequest (cl_body (ds_calls s ! i)) = canonicalRequest (cl_body (ds_calls s ! k)))"
proof (intro conjI)
  have mapped: "allMapped s" unfolding s by (rule calm_mapped [OF calm])
  have inv: "dedupInv digest s" unfolding s by (rule dedup_run_inv [OF dedup_idle_inv])
  then have ok: "inflightOk s" and calls: "\<And>j. j < length (ds_calls s) \<Longrightarrow> callOk digest s j" by (auto simp: dedupInv_def)
  show "\<forall>i j. leadsNow s i \<and> leadsNow s j \<and> hashOf s i = hashOf s j \<longrightarrow> i = j"
    using mapped unfolding allMapped_def by (metis option.inject)
  show "cl_role (ds_calls (executeProviderRequest digest tb provider model stream True s) ! length (ds_calls s))
       = (case find (\<lambda>i. leadsNow s i \<and> hashOf s i = computeRequestHash digest body) [0..<length (ds_calls s)] of
            Some i \<Rightarrow> Joins i | None \<Rightarrow> Leads)"
    using execute_role [OF share [unfolded body] refl] digest
    by (simp add: body find_leader [OF mapped ok] newCall_def computeRequestHash_def)
  show "\<forall>k < length (ds_calls s). \<forall>i. cl_role (ds_calls s ! k) = Joins i \<longrightarrow>
           answerOf k s = answerOf i s
           \<and> canonicalRequest (cl_body (ds_calls s ! i)) = canonicalRequest (cl_body (ds_calls s ! k))"
  proof (intro allI impI)
    fix k i
    assume k: "k < length (ds_calls s)" and join: "cl_role (ds_calls s ! k) = Joins i"
    have i: "i < length (ds_calls s)" "cl_role (ds_calls s ! i) = Leads" "cl_hash (ds_calls s ! i) = cl_hash (ds_calls s ! k)"
      using calls [OF k] join by (auto simp: callOk_def leading_def hashOf_def Let_def)
    have "digest (canonicalRequest (cl_body (ds_calls s ! i))) = digest (canonicalRequest (cl_body (ds_calls s ! k)))"
      using calls [OF k] calls [OF i(1)] i join by (auto simp: callOk_def computeRequestHash_def Let_def)
    then have "canonicalRequest (cl_body (ds_calls s ! i)) = canonicalRequest (cl_body (ds_calls s ! k))"
      using inj_onD [OF inj, of "canonicalRequest (cl_body (ds_calls s ! i))" "canonicalRequest (cl_body (ds_calls s ! k))"]
        k i(1) by simp
    then show "answerOf k s = answerOf i s
           \<and> canonicalRequest (cl_body (ds_calls s ! i)) = canonicalRequest (cl_body (ds_calls s ! k))"
      using join i by (simp add: answerOf_def)
  qed
qed

definition exampleBody :: "string \<Rightarrow> json_object" where
  "exampleBody system =
     [(''system'', JStr system), (''messages'', JArr [JStr ''hello'']), (''temperature'', JNum 0)]"

lemma dedup_one_upstream_call_witness:
  "ds_calls (executeProviderRequest (\<lambda>v. ''d'') (exampleBody ''b'') ''p'' ''m'' False True
     (fold (dedupOp (\<lambda>v. ''d'')) [ExecuteRequest (exampleBody ''a'') ''p'' ''m'' False True] idleDedup)) ! 1
   = newCall ''d'' (dedupRequestBody (exampleBody ''b'') ''p'' ''m'' False) (Joins 0)"
proof -
  define s where "s = fold (dedupOp (\<lambda>v. ''d'')) [ExecuteRequest (exampleBody ''a'') ''p'' ''m'' False True] idleDedup"
  have calls: "ds_calls s = [newCall ''d'' (dedupRequestBody (exampleBody ''a'') ''p'' ''m'' False) Leads]"
    unfolding s_def by code_simp
  have "calmRun (\<lambda>v. ''d'') [ExecuteRequest (exampleBody ''a'') ''p'' ''m'' False True]"
    by (simp add: calmRun_def getInflightCount_def idleDedup_def MAX_INFLIGHT_def jsize_def)
  moreover have "shouldDeduplicate (dedupRequestBody (exampleBody ''b'') ''p'' ''m'' False) DEFAULT_DEDUP_CONFIG" by code_simp
  ultimately have "cl_role (ds_calls (executeProviderRequest (\<lambda>v. ''d'') (exampleBody ''b'') ''p'' ''m'' False True s) ! length (ds_calls s))
       = (case find (\<lambda>i. leadsNow s i \<and> hashOf s i = computeRequestHash (\<lambda>v. ''d'') (dedupRequestBody (exampleBody ''b'') ''p'' ''m'' False))
            [0..<length (ds_calls s)] of Some i \<Rightarrow> Joins i | None \<Rightarrow> Leads)"
    using dedup_one_upstream_call [OF _ s_def refl, of "exampleBody ''b''" "''p''" "''m''" False] calls by simp
  moreover have "find (\<lambda>i. leadsNow s i \<and> hashOf s i = computeRequestHash (\<lambda>v. ''d'') (dedupRequestBody (exampleBody ''b'') ''p'' ''m'' False))
            [0..<length (ds_calls s)] = Some 0"
    by (simp add: calls leadsNow_def leading_def hashOf_def newCall_def computeRequestHash_def)
  ultimately have "cl_role (ds_calls (executeProviderRequest (\<lambda>v. ''d'') (exampleBody ''b'') ''p'' ''m'' False True s) ! 1) = Joins 0"
    by (simp add: calls)
  moreover have "ds_calls (executeProviderRequest (\<lambda>v. ''d'') (exampleBody ''b'') ''p'' ''m'' False True s) ! 1
      = newCall ''d'' (dedupRequestBody (exampleBody ''b'') ''p'' ''m'' False) (Joins 0)"
    unfolding s_def by code_simp
  ultimately show ?thesis unfolding s_def by simp
qed

section \<open>Requests that differ elsewhere\<close>

definition hashedFields :: "string list" where
  "hashedFields = [''messages'', ''temperature'', ''tools'', ''tool_choice'', ''max_tokens'', ''response_format'', ''top_p'',
     ''frequency_penalty'', ''presence_penalty'']"

lemma dedupRequestBody_simps:
  "temperatureOf (dedupRequestBody tb provider model stream) = temperatureOf tb"
  "field ''stream'' (dedupRequestBody tb provider model stream) = JBool stream"
  by (simp_all add: dedupRequestBody_def temperatureOf_def)

lemma canonical_cong:
  assumes "\<forall>k \<in> set hashedFields. field k tb = field k tb'"
  shows "canonicalRequest (dedupRequestBody tb provider model stream)
       = canonicalRequest (dedupRequestBody tb' provider model stream)"
  using assms by (simp add: canonicalRequest_def dedupRequestBody_def temperatureOf_def hashedFields_def)

text \<open>
  The digest reads ten fields of the body that is sent upstream, so requests that differ anywhere else (the system
  prompt of the Messages format, the \<open>input\<close> of the Responses format, stop sequences, the seed) and run at the same
  time get one answer: the second one is not sent, and its caller gets what the upstream answered to the first.
\<close>

theorem other_prompt_same_answer:
  assumes same: "\<forall>k \<in> set hashedFields. field k tb = field k tb'"
    and share: "shouldDeduplicate (dedupRequestBody tb provider model False) DEFAULT_DEDUP_CONFIG"
    and digest: "digest (canonicalRequest (dedupRequestBody tb provider model False)) \<noteq> []" and r: "r \<noteq> Pending"
    and s: "s = fold (dedupOp digest) [ExecuteRequest tb provider model False True,
              ExecuteRequest tb' provider model False True, SettleCall 0 r] idleDedup"
  shows "cl_body (ds_calls s ! 0) = dedupRequestBody tb provider model False \<and> cl_role (ds_calls s ! 1) = Joins 0
    \<and> answerOf 0 s = r \<and> answerOf 1 s = r"
proof -
  define h where "h = computeRequestHash digest (dedupRequestBody tb provider model False)"
  have h': "h = computeRequestHash digest (dedupRequestBody tb' provider model False)" "h \<noteq> []"
    using canonical_cong [OF same] digest by (simp_all add: h_def computeRequestHash_def)
  have t: "temperatureOf tb = temperatureOf tb'" using same by (simp add: temperatureOf_def hashedFields_def)
  have share': "shouldDeduplicate (dedupRequestBody tb' provider model False) DEFAULT_DEDUP_CONFIG"
    using share t by (simp only: shouldDeduplicate_def dedupRequestBody_simps)
  have "executeProviderRequest digest tb provider model False True idleDedup
      = deduplicate h (dedupRequestBody tb provider model False) DEFAULT_DEDUP_CONFIG idleDedup"
    using share h' by (simp add: executeProviderRequest_def h_def Let_def)
  moreover have "executeProviderRequest digest tb' provider model False True t
      = deduplicate h (dedupRequestBody tb' provider model False) DEFAULT_DEDUP_CONFIG t" for t
    using share' h' by (simp add: executeProviderRequest_def Let_def)
  ultimately show ?thesis using r
    by (simp add: s deduplicate_def DEFAULT_DEDUP_CONFIG_def idleDedup_def addCall_def newCall_def jsize_def MAX_INFLIGHT_def
        settleCall_def answerOf_def jget_Cons)
qed

lemma other_prompt_same_answer_witness:
  "answerOf 1 (fold (dedupOp (\<lambda>v. ''d'')) [ExecuteRequest (exampleBody ''answer in French'') ''claude'' ''opus'' False True,
     ExecuteRequest (exampleBody ''answer in German'') ''claude'' ''opus'' False True, SettleCall 0 (Fulfilled ''bonjour'')] idleDedup)
   = Fulfilled ''bonjour''"
proof -
  have "shouldDeduplicate (dedupRequestBody (exampleBody ''answer in French'') ''claude'' ''opus'' False) DEFAULT_DEDUP_CONFIG"
    by code_simp
  moreover have "\<forall>k \<in> set hashedFields. field k (exampleBody ''answer in French'') = field k (exampleBody ''answer in German'')"
    by code_simp
  ultimately show ?thesis
    using other_prompt_same_answer [OF _ _ _ _ refl, of "exampleBody ''answer in French''" "exampleBody ''answer in German''"
        "''claude''" "''opus''" "\<lambda>v. ''d''" "Fulfilled ''bonjour''"] by simp
qed

end
