(* ===== verification/QuotaPools.thy ===== *)
theory QuotaPools
  imports FairShare "HOL-Library.List_Lexorder" "HOL-Library.Char_ord"
begin

text \<open>
  Quota pools: the tables of \<open>src/lib/db/quotaPools.ts\<close> and \<open>src/lib/db/quotaModelCaps.ts\<close> with their constraints and
  the operations on them. A transaction is one step: it gives the new tables, or an error and the old ones. Foreign keys
  are enforced, as the SQLite drivers do. Rows that SQL may return in any order come in the order of the table. \<open>upsertAllocations\<close>
  reads the pools of the group before its transaction (\<open>writeAllocations\<close>), which writes to the pools read; at once it is the
  run in which no pool joins or leaves between. The combos that follow a pool (\<open>quotaCombos.ts\<close>) are not modelled.
\<close>

section \<open>Tables\<close>

datatype quota_unit = UnitPercent | UnitRequests | UnitTokens | UnitUsd

definition unitName :: "quota_unit \<Rightarrow> string" where
  "unitName u = (case u of UnitPercent \<Rightarrow> ''percent'' | UnitRequests \<Rightarrow> ''requests'' | UnitTokens \<Rightarrow> ''tokens'' | UnitUsd \<Rightarrow> ''usd'')"

record pool_allocation =
  pa_apiKeyId :: string
  pa_weight :: rat
  pa_capValue :: "rat option"
  pa_capUnit :: "quota_unit option"
  pa_policy :: policy

record quota_pool =
  qp_id :: string
  qp_connectionId :: string
  qp_connectionIds :: "string list"
  qp_name :: string
  qp_groupId :: string
  qp_createdAt :: string
  qp_allocations :: "pool_allocation list"

record pool_create =
  pc_connectionId :: string
  pc_name :: string
  pc_groupId :: "string option"
  pc_allocations :: "pool_allocation list option"
  pc_connectionIds :: "string list option"

record pool_update =
  pu_name :: "string option"
  pu_groupId :: "string option"
  pu_allocations :: "pool_allocation list option"
  pu_connectionIds :: "string list option"

record pool_row =
  pr_id :: string
  pr_connectionId :: string
  pr_name :: string
  pr_groupId :: "string option"
  pr_createdAt :: string

record allocation_row =
  al_poolId :: string
  al_apiKeyId :: string
  al_weight :: rat
  al_capValue :: "rat option"
  al_capUnit :: "quota_unit option"
  al_policy :: string

record connection_row =
  cn_poolId :: string
  cn_connectionId :: string
  cn_createdAt :: nat

record model_cap =
  mc_poolId :: string
  mc_apiKeyId :: string
  mc_model :: string
  mc_capValue :: rat
  mc_capUnit :: quota_unit

text \<open>The tables, the quotas allowed to each key, and the provider of each connection.\<close>

record pool_db =
  pd_pools :: "pool_row list"
  pd_allocations :: "allocation_row list"
  pd_connections :: "connection_row list"
  pd_caps :: "model_cap list"
  pd_allowedQuotas :: "(string, string list) jmap"
  pd_providers :: "(string, string) jmap"

datatype pool_error = MixedProviders "string list" | ConstraintFailed

section \<open>Reading rows\<close>

definition readPolicy :: "string \<Rightarrow> policy" where
  "readPolicy p = (if p = ''hard'' then Hard else if p = ''soft'' then Soft else if p = ''burst'' then Burst else Hard)"

definition policyName :: "policy \<Rightarrow> string" where
  "policyName p = (case p of Hard \<Rightarrow> ''hard'' | Soft \<Rightarrow> ''soft'' | Burst \<Rightarrow> ''burst'' | OtherPolicy s \<Rightarrow> s)"

definition rowToAllocation :: "allocation_row \<Rightarrow> pool_allocation" where
  "rowToAllocation r = \<lparr>pa_apiKeyId = al_apiKeyId r, pa_weight = al_weight r, pa_capValue = al_capValue r,
     pa_capUnit = al_capUnit r, pa_policy = readPolicy (al_policy r)\<rparr>"

definition connectionRows :: "string \<Rightarrow> pool_db \<Rightarrow> string list" where
  "connectionRows poolId db =
     map cn_connectionId (sort_key cn_createdAt (filter (\<lambda>r. cn_poolId r = poolId) (pd_connections db)))"

definition getConnectionIds :: "string \<Rightarrow> string \<Rightarrow> pool_db \<Rightarrow> string list" where
  "getConnectionIds poolId fallbackConnectionId db =
     (if connectionRows poolId db \<noteq> [] then connectionRows poolId db
      else if fallbackConnectionId \<noteq> [] then [fallbackConnectionId] else [])"

definition getAllocations :: "string \<Rightarrow> pool_db \<Rightarrow> pool_allocation list" where
  "getAllocations poolId db = map rowToAllocation (filter (\<lambda>r. al_poolId r = poolId) (pd_allocations db))"

text \<open>\<open>row.group_id || "group-demo"\<close>\<close>

definition groupOr :: "string option \<Rightarrow> string" where
  "groupOr g = (case g of Some (c # cs) \<Rightarrow> c # cs | _ \<Rightarrow> ''group-demo'')"

definition rowToPool :: "pool_row \<Rightarrow> pool_allocation list \<Rightarrow> pool_db \<Rightarrow> quota_pool" where
  "rowToPool r allocations db =
     \<lparr>qp_id = pr_id r, qp_connectionId = pr_connectionId r,
      qp_connectionIds = getConnectionIds (pr_id r) (pr_connectionId r) db, qp_name = pr_name r,
      qp_groupId = groupOr (pr_groupId r), qp_createdAt = pr_createdAt r, qp_allocations = allocations\<rparr>"

definition batchBuildPools :: "pool_row list \<Rightarrow> pool_db \<Rightarrow> quota_pool list" where
  "batchBuildPools rows db =
     map (\<lambda>r. \<lparr>qp_id = pr_id r, qp_connectionId = pr_connectionId r,
        qp_connectionIds = (if connectionRows (pr_id r) db \<noteq> [] then connectionRows (pr_id r) db else [pr_connectionId r]),
        qp_name = pr_name r, qp_groupId = groupOr (pr_groupId r), qp_createdAt = pr_createdAt r,
        qp_allocations = getAllocations (pr_id r) db\<rparr>) rows"

definition pageOf :: "int option \<Rightarrow> int option \<Rightarrow> 'a list \<Rightarrow> 'a list" where
  "pageOf limit offset rows =
     (case limit of
        Some l \<Rightarrow> if 0 < l then take (nat l) (case offset of Some k \<Rightarrow> drop (nat k) rows | None \<Rightarrow> rows) else rows
      | None \<Rightarrow> rows)"

definition getPoolsByGroup :: "string \<Rightarrow> int option \<Rightarrow> int option \<Rightarrow> pool_db \<Rightarrow> quota_pool list" where
  "getPoolsByGroup groupId limit offset db =
     batchBuildPools (pageOf limit offset (sort_key pr_createdAt (filter (\<lambda>r. pr_groupId r = Some groupId) (pd_pools db)))) db"

definition listPools :: "int option \<Rightarrow> int option \<Rightarrow> pool_db \<Rightarrow> quota_pool list \<times> nat" where
  "listPools limit offset db =
     (batchBuildPools (pageOf limit offset (sort_key pr_createdAt (pd_pools db))) db, length (pd_pools db))"

definition findPool :: "string \<Rightarrow> pool_db \<Rightarrow> pool_row option" where
  "findPool i db = find (\<lambda>r. pr_id r = i) (pd_pools db)"

definition getPool :: "string \<Rightarrow> pool_db \<Rightarrow> quota_pool option" where
  "getPool i db = (case findPool i db of None \<Rightarrow> None | Some row \<Rightarrow> Some (hd (batchBuildPools [row] db)))"

definition listAllocationsForApiKey :: "string \<Rightarrow> pool_db \<Rightarrow> (string \<times> pool_allocation) list" where
  "listAllocationsForApiKey apiKeyId db =
     map (\<lambda>r. (al_poolId r, rowToAllocation r)) (filter (\<lambda>r. al_apiKeyId r = apiKeyId) (pd_allocations db))"

section \<open>Writing rows\<close>

text \<open>\<open>INSERT INTO quota_allocations\<close> with the constraints of the table; \<open>None\<close> when one fails.\<close>

definition allocationRow :: "string \<Rightarrow> pool_allocation \<Rightarrow> allocation_row" where
  "allocationRow poolId a = \<lparr>al_poolId = poolId, al_apiKeyId = pa_apiKeyId a, al_weight = pa_weight a,
     al_capValue = pa_capValue a, al_capUnit = pa_capUnit a, al_policy = policyName (pa_policy a)\<rparr>"

definition insertAllocation :: "string \<Rightarrow> pool_allocation \<Rightarrow> pool_db \<Rightarrow> pool_db option" where
  "insertAllocation poolId a db =
     (if 0 \<le> pa_weight a \<and> pa_weight a \<le> 100 \<and> policyName (pa_policy a) \<in> {''hard'', ''soft'', ''burst''}
         \<and> findPool poolId db \<noteq> None
         \<and> find (\<lambda>r. al_poolId r = poolId \<and> al_apiKeyId r = pa_apiKeyId a) (pd_allocations db) = None
      then Some (db\<lparr>pd_allocations := pd_allocations db @ [allocationRow poolId a]\<rparr>) else None)"

fun insertAllocations :: "string \<Rightarrow> pool_allocation list \<Rightarrow> pool_db \<Rightarrow> pool_db option" where
  "insertAllocations poolId [] db = Some db"
| "insertAllocations poolId (a # rest) db =
     (case insertAllocation poolId a db of None \<Rightarrow> None | Some db' \<Rightarrow> insertAllocations poolId rest db')"

definition clearAllocations :: "string \<Rightarrow> pool_db \<Rightarrow> pool_db" where
  "clearAllocations poolId db = db\<lparr>pd_allocations := filter (\<lambda>r. al_poolId r \<noteq> poolId) (pd_allocations db)\<rparr>"

text \<open>\<open>INSERT OR IGNORE INTO quota_pool_connections\<close>\<close>

definition insertConnection :: "nat \<Rightarrow> string \<Rightarrow> string \<Rightarrow> pool_db \<Rightarrow> pool_db" where
  "insertConnection stamp poolId connId db =
     (if find (\<lambda>r. cn_poolId r = poolId \<and> cn_connectionId r = connId) (pd_connections db) = None
      then db\<lparr>pd_connections := pd_connections db @ [\<lparr>cn_poolId = poolId, cn_connectionId = connId, cn_createdAt = stamp\<rparr>]\<rparr>
      else db)"

definition clearConnections :: "string \<Rightarrow> pool_db \<Rightarrow> pool_db" where
  "clearConnections poolId db = db\<lparr>pd_connections := filter (\<lambda>r. cn_poolId r \<noteq> poolId) (pd_connections db)\<rparr>"

text \<open>The providers of the connections; \<open>Some ps\<close> when they are more than one and the operation throws.\<close>

definition assertSingleProvider :: "string list \<Rightarrow> pool_db \<Rightarrow> string list option" where
  "assertSingleProvider connectionIds db =
     (if length connectionIds \<le> 1 then None
      else (let providers = remdups (filter (\<lambda>p. p \<noteq> [])
                  (map snd (filter (\<lambda>q. fst q \<in> set connectionIds) (pd_providers db))))
            in if 1 < length providers then Some providers else None))"

definition mixedProviders :: "string list option \<Rightarrow> pool_db \<Rightarrow> string list option" where
  "mixedProviders connectionIds db = (case connectionIds of Some ids \<Rightarrow> assertSingleProvider ids db | None \<Rightarrow> None)"

definition createPool :: "string \<Rightarrow> string \<Rightarrow> nat \<Rightarrow> pool_create \<Rightarrow> pool_db \<Rightarrow> pool_error + quota_pool \<times> pool_db" where
  "createPool i now stamp input db =
     (let members = (case pc_connectionIds input of Some (c # cs) \<Rightarrow> c # cs | _ \<Rightarrow> [pc_connectionId input]);
          row = \<lparr>pr_id = i, pr_connectionId = hd members, pr_name = pc_name input,
                 pr_groupId = Some (groupOr (pc_groupId input)), pr_createdAt = now\<rparr>
      in case mixedProviders (pc_connectionIds input) db of
           Some ps \<Rightarrow> Inl (MixedProviders ps)
         | None \<Rightarrow>
             (if findPool i db \<noteq> None then Inl ConstraintFailed
              else (let db1 = fold (insertConnection stamp i) members (db\<lparr>pd_pools := pd_pools db @ [row]\<rparr>)
                    in case insertAllocations i (nullish (pc_allocations input) []) db1 of
                         None \<Rightarrow> Inl ConstraintFailed
                       | Some db2 \<Rightarrow> Inr (rowToPool row (getAllocations i db2) db2, db2))))"

definition setRow :: "pool_row \<Rightarrow> pool_db \<Rightarrow> pool_db" where
  "setRow row db = db\<lparr>pd_pools := map (\<lambda>r. if pr_id r = pr_id row then row else r) (pd_pools db)\<rparr>"

text \<open>The steps of the update's transaction: the row, the members, the allocations.\<close>

definition renamePool :: "pool_update \<Rightarrow> pool_row \<Rightarrow> pool_row" where
  "renamePool input existing =
     (let row = (case pu_name input of Some n \<Rightarrow> existing\<lparr>pr_name := n\<rparr> | None \<Rightarrow> existing)
      in case pu_groupId input of Some g \<Rightarrow> row\<lparr>pr_groupId := Some g\<rparr> | None \<Rightarrow> row)"

definition replaceMembers :: "nat \<Rightarrow> string list option \<Rightarrow> pool_row \<Rightarrow> pool_db \<Rightarrow> pool_row \<times> pool_db" where
  "replaceMembers stamp connectionIds row db =
     (case connectionIds of
        Some (c # cs) \<Rightarrow> (row\<lparr>pr_connectionId := c\<rparr>,
            fold (insertConnection stamp (pr_id row)) (c # cs) (clearConnections (pr_id row) db))
      | _ \<Rightarrow> (row, db))"

definition replaceGiven :: "string \<Rightarrow> pool_allocation list option \<Rightarrow> pool_db \<Rightarrow> pool_db option" where
  "replaceGiven poolId allocations db =
     (case allocations of Some as \<Rightarrow> insertAllocations poolId as (clearAllocations poolId db) | None \<Rightarrow> Some db)"

definition updatePool ::
  "string \<Rightarrow> nat \<Rightarrow> pool_update \<Rightarrow> pool_db \<Rightarrow> pool_error + quota_pool option \<times> pool_db" where
  "updatePool i stamp input db =
     (case findPool i db of
        None \<Rightarrow> Inr (None, db)
      | Some existing \<Rightarrow>
          (case mixedProviders (pu_connectionIds input) db of
             Some ps \<Rightarrow> Inl (MixedProviders ps)
           | None \<Rightarrow>
               (let (row, db1) = replaceMembers stamp (pu_connectionIds input) (renamePool input existing) db
                in case replaceGiven i (pu_allocations input) (setRow row db1) of
                     None \<Rightarrow> Inl ConstraintFailed
                   | Some db2 \<Rightarrow> Inr (Some (rowToPool row (getAllocations i db2) db2), db2))))"

text \<open>The pool goes with its connections, its allocations (by cascade) and its mention in the keys' quotas.\<close>

definition deletePool :: "string \<Rightarrow> pool_db \<Rightarrow> bool \<times> pool_db" where
  "deletePool i db =
     (findPool i db \<noteq> None,
      (let db1 = clearConnections i db;
           db2 = db1\<lparr>pd_allowedQuotas := map (\<lambda>(k, qs). (k, filter (\<lambda>q. q \<noteq> i) qs)) (pd_allowedQuotas db1)\<rparr>;
           db3 = db2\<lparr>pd_pools := filter (\<lambda>r. pr_id r \<noteq> i) (pd_pools db2)\<rparr>
       in clearAllocations i db3))"

definition normalizeWeights :: "pool_allocation list \<Rightarrow> pool_allocation list" where
  "normalizeWeights allocations =
     (if sum_list (map pa_weight allocations) = 0 \<and> allocations \<noteq> []
      then map (\<lambda>a. a\<lparr>pa_weight := 100 / of_nat (length allocations)\<rparr>) allocations else allocations)"

definition poolIdsInGroup :: "string \<Rightarrow> pool_db \<Rightarrow> string list" where
  "poolIdsInGroup poolId db =
     (case findPool poolId db of
        Some target \<Rightarrow>
          (case pr_groupId target of
             Some (c # cs) \<Rightarrow>
               (let groupRows = filter (\<lambda>r. pr_groupId r = Some (c # cs)) (pd_pools db)
                in if groupRows \<noteq> [] then map pr_id groupRows else [poolId])
           | _ \<Rightarrow> [poolId])
      | None \<Rightarrow> [poolId])"

fun replaceAllocations :: "string list \<Rightarrow> pool_allocation list \<Rightarrow> pool_db \<Rightarrow> pool_db option" where
  "replaceAllocations [] allocations db = Some db"
| "replaceAllocations (pid # pids) allocations db =
     (case insertAllocations pid allocations (clearAllocations pid db) of
        None \<Rightarrow> None | Some db' \<Rightarrow> replaceAllocations pids allocations db')"

text \<open>
  The ids of the pools are read before the transaction, which awaits the connection: \<open>writeAllocations\<close> is the transaction for
  the ids that were read, so a pool that joins the group in between is not written. \<open>upsertAllocations\<close> is the case in
  which nothing happens in between.
\<close>

definition writeAllocations :: "string list \<Rightarrow> pool_allocation list \<Rightarrow> pool_db \<Rightarrow> pool_error + pool_db" where
  "writeAllocations poolIds allocations db =
     (case replaceAllocations poolIds (normalizeWeights allocations) db of None \<Rightarrow> Inl ConstraintFailed | Some db' \<Rightarrow> Inr db')"

definition upsertAllocations :: "string \<Rightarrow> pool_allocation list \<Rightarrow> pool_db \<Rightarrow> pool_error + pool_db" where
  "upsertAllocations poolId allocations db = writeAllocations (poolIdsInGroup poolId db) allocations db"

section \<open>Model caps\<close>

definition sameCap :: "string \<Rightarrow> string \<Rightarrow> string \<Rightarrow> model_cap \<Rightarrow> bool" where
  "sameCap poolId apiKeyId model c \<longleftrightarrow> mc_poolId c = poolId \<and> mc_apiKeyId c = apiKeyId \<and> mc_model c = model"

definition getModelCap :: "string \<Rightarrow> string \<Rightarrow> string \<Rightarrow> pool_db \<Rightarrow> model_cap option" where
  "getModelCap poolId apiKeyId model db = find (sameCap poolId apiKeyId model) (pd_caps db)"

definition listModelCaps :: "string \<Rightarrow> string \<Rightarrow> pool_db \<Rightarrow> model_cap list" where
  "listModelCaps poolId apiKeyId db = filter (\<lambda>c. mc_poolId c = poolId \<and> mc_apiKeyId c = apiKeyId) (pd_caps db)"

definition setModelCap :: "model_cap \<Rightarrow> pool_db \<Rightarrow> pool_error + pool_db" where
  "setModelCap cap db =
     (if mc_capValue cap \<le> 0 then Inl ConstraintFailed
      else (case getModelCap (mc_poolId cap) (mc_apiKeyId cap) (mc_model cap) db of
              None \<Rightarrow> Inr (db\<lparr>pd_caps := pd_caps db @ [cap]\<rparr>)
            | Some _ \<Rightarrow> Inr (db\<lparr>pd_caps := map (\<lambda>c. if sameCap (mc_poolId cap) (mc_apiKeyId cap) (mc_model cap) c then cap else c)
                                            (pd_caps db)\<rparr>)))"

definition deleteModelCap :: "string \<Rightarrow> string \<Rightarrow> string \<Rightarrow> pool_db \<Rightarrow> pool_db" where
  "deleteModelCap poolId apiKeyId model db =
     db\<lparr>pd_caps := filter (\<lambda>c. \<not> sameCap poolId apiKeyId model c) (pd_caps db)\<rparr>"

end
