(* ===== verification/QuotaStore.thy ===== *)
theory QuotaStore
  imports QuotaPools JsValues
begin

text \<open>
  The consumption of quota pools: the rows of \<open>src/lib/db/quotaConsumption.ts\<close>, the windows of
  \<open>src/lib/quota/dimensions.ts\<close> and the SQLite store of \<open>src/lib/quota/sqliteQuotaStore.ts\<close>, a counter with two buckets.
  A row is keyed by API key, dimension and bucket. The upsert and the read of \<open>consume\<close> are one step: a mutex for the
  key and the dimension keeps other writes of the process out between them. Amounts are rationals.
\<close>

section \<open>Dimensions\<close>

datatype quota_window = WindowFiveHours | WindowHourly | WindowDaily | WindowWeekly | WindowMonthly

definition windowName :: "quota_window \<Rightarrow> string" where
  "windowName w = (case w of WindowFiveHours \<Rightarrow> ''5h'' | WindowHourly \<Rightarrow> ''hourly'' | WindowDaily \<Rightarrow> ''daily''
     | WindowWeekly \<Rightarrow> ''weekly'' | WindowMonthly \<Rightarrow> ''monthly'')"

definition windowMs :: "quota_window \<Rightarrow> millis" where
  "windowMs w = (case w of
      WindowHourly \<Rightarrow> 60 * 60 * 1000
    | WindowFiveHours \<Rightarrow> 5 * 60 * 60 * 1000
    | WindowDaily \<Rightarrow> 24 * 60 * 60 * 1000
    | WindowWeekly \<Rightarrow> 7 * 24 * 60 * 60 * 1000
    | WindowMonthly \<Rightarrow> 30 * 24 * 60 * 60 * 1000)"

record quota_key =
  qk_poolId :: string
  qk_unit :: quota_unit
  qk_window :: quota_window

definition dimensionKeyToString :: "quota_key \<Rightarrow> string" where
  "dimensionKeyToString k = qk_poolId k @ '':'' @ unitName (qk_unit k) @ '':'' @ windowName (qk_window k)"

section \<open>Rows\<close>

record bucket =
  bk_consumed :: rat
  bk_updatedAt :: millis

type_synonym quota_table = "(string \<times> string \<times> int, bucket) jmap"

definition getBucket :: "string \<Rightarrow> string \<Rightarrow> int \<Rightarrow> quota_table \<Rightarrow> rat" where
  "getBucket apiKeyId dimKey bucketIndex t = (case jget (apiKeyId, dimKey, bucketIndex) t of Some b \<Rightarrow> bk_consumed b | None \<Rightarrow> 0)"

definition incrementBucket :: "string \<Rightarrow> string \<Rightarrow> int \<Rightarrow> rat \<Rightarrow> millis \<Rightarrow> quota_table \<Rightarrow> quota_table" where
  "incrementBucket apiKeyId dimKey bucketIndex delta now t =
     jset (apiKeyId, dimKey, bucketIndex)
       \<lparr>bk_consumed = getBucket apiKeyId dimKey bucketIndex t + delta, bk_updatedAt = now\<rparr> t"

definition getPair :: "string \<Rightarrow> string \<Rightarrow> int \<Rightarrow> quota_table \<Rightarrow> rat \<times> rat" where
  "getPair apiKeyId dimKey currentBucket t =
     (getBucket apiKeyId dimKey currentBucket t, getBucket apiKeyId dimKey (currentBucket - 1) t)"

definition bucketTotal :: "string \<Rightarrow> int \<Rightarrow> quota_table \<Rightarrow> rat" where
  "bucketTotal dimKey bucketIndex t =
     sum_list (map (bk_consumed \<circ> snd) (filter (\<lambda>((k, d, b), row). d = dimKey \<and> b = bucketIndex) t))"

definition sumPoolDimension :: "string \<Rightarrow> int \<Rightarrow> quota_table \<Rightarrow> rat \<times> rat" where
  "sumPoolDimension dimKey currentBucket t = (bucketTotal dimKey currentBucket t, bucketTotal dimKey (currentBucket - 1) t)"

definition gcOlderThan :: "millis \<Rightarrow> quota_table \<Rightarrow> nat \<times> quota_table" where
  "gcOlderThan maxUpdatedAtMs t =
     (let kept = filter (\<lambda>(k, row). \<not> bk_updatedAt row < maxUpdatedAtMs) t in (length t - length kept, kept))"

record consumption_event =
  ce_apiKeyId :: string
  ce_dimensionKey :: string
  ce_unit :: string
  ce_window :: string
  ce_bucketIndex :: int
  ce_consumed :: rat
  ce_updatedAt :: millis

fun joinColon :: "string list \<Rightarrow> string" where
  "joinColon [] = []"
| "joinColon [s] = s"
| "joinColon (s # t # rest) = s @ '':'' @ joinColon (t # rest)"

definition eventOf :: "(string \<times> string \<times> int) \<times> bucket \<Rightarrow> consumption_event" where
  "eventOf r = (case r of ((k, d, b), row) \<Rightarrow>
     (let parts = splitOn CHR '':'' d
      in \<lparr>ce_apiKeyId = k, ce_dimensionKey = d, ce_unit = (case parts of _ # u # _ \<Rightarrow> u | _ \<Rightarrow> []),
          ce_window = joinColon (drop 2 parts), ce_bucketIndex = b, ce_consumed = bk_consumed row,
          ce_updatedAt = bk_updatedAt row\<rparr>))"

text \<open>\<open>LIKE\<close> with an escaped prefix: SQLite compares it without regard to the case of ASCII letters.\<close>

definition listConsumptionForPool :: "string \<Rightarrow> int \<Rightarrow> quota_table \<Rightarrow> consumption_event list" where
  "listConsumptionForPool poolId limit t =
     (let safeLimit = max 1 (min limit 500);
          rows = filter (\<lambda>((k, d, b), row). starts_with (toLowerCase (poolId @ '':'')) (toLowerCase d)) t
      in map eventOf (take (nat safeLimit) (sort_key (\<lambda>r. - bk_updatedAt (snd r)) rows)))"

section \<open>The store\<close>

definition slidingWindowEffective :: "rat \<Rightarrow> rat \<Rightarrow> millis \<Rightarrow> millis \<Rightarrow> rat" where
  "slidingWindowEffective cur prev now window =
     (let currentBucketIndex = now div window;
          currentBucketStartMs = currentBucketIndex * window;
          elapsed = now - currentBucketStartMs;
          weight = 1 - of_int elapsed / of_int window
      in prev * weight + cur)"

definition peek :: "string \<Rightarrow> quota_key \<Rightarrow> millis \<Rightarrow> quota_table \<Rightarrow> rat" where
  "peek apiKeyId key now t =
     (let dimKey = dimensionKeyToString key;
          window = windowMs (qk_window key);
          (cur, prev) = getPair apiKeyId dimKey (now div window) t
      in slidingWindowEffective cur prev now window)"

definition consume :: "string \<Rightarrow> quota_key \<Rightarrow> rat \<Rightarrow> millis \<Rightarrow> quota_table \<Rightarrow> rat \<times> quota_table" where
  "consume apiKeyId key cost now t =
     (let dimKey = dimensionKeyToString key;
          window = windowMs (qk_window key);
          currentBucket = now div window;
          t' = incrementBucket apiKeyId dimKey currentBucket cost now t;
          (cur, prev) = getPair apiKeyId dimKey currentBucket t'
      in (slidingWindowEffective cur prev now window, t'))"

definition poolConsumedTotal :: "quota_key \<Rightarrow> millis \<Rightarrow> quota_table \<Rightarrow> rat" where
  "poolConsumedTotal key now t =
     (let window = windowMs (qk_window key);
          (currTotal, prevTotal) = sumPoolDimension (dimensionKeyToString key) (now div window) t
      in slidingWindowEffective currTotal prevTotal now window)"

definition clearQuota :: "string \<Rightarrow> quota_key \<Rightarrow> millis \<Rightarrow> quota_table \<Rightarrow> quota_table" where
  "clearQuota apiKeyId key now t =
     (let dimKey = dimensionKeyToString key;
          currentBucket = now div windowMs (qk_window key);
          currVal = getBucket apiKeyId dimKey currentBucket t;
          t1 = (if currVal \<noteq> 0 then incrementBucket apiKeyId dimKey currentBucket (- currVal) now t else t);
          prevVal = getBucket apiKeyId dimKey (currentBucket - 1) t1
      in if prevVal \<noteq> 0 then incrementBucket apiKeyId dimKey (currentBucket - 1) (- prevVal) now t1 else t1)"

section \<open>Usage of a pool\<close>

record key_usage =
  ku_apiKeyId :: string
  ku_consumed :: rat
  ku_fairShare :: rat
  ku_deficit :: rat
  ku_borrowing :: bool

record dimension_usage =
  du_unit :: quota_unit
  du_window :: quota_window
  du_limit :: rat
  du_consumedTotal :: rat
  du_perKey :: "key_usage list"

record usage_snapshot =
  us_poolId :: string
  us_generatedAt :: millis
  us_dimensions :: "dimension_usage list"
  us_burnRate :: "burn_result option"

definition keyUsage ::
  "string \<Rightarrow> quota_unit \<times> quota_window \<times> rat \<Rightarrow> rat \<Rightarrow> millis \<Rightarrow> quota_table \<Rightarrow> pool_allocation \<Rightarrow> key_usage" where
  "keyUsage poolId planDim totalWeight now t alloc =
     (case planDim of (u, w, limit) \<Rightarrow>
       (let consumed = peek (pa_apiKeyId alloc) \<lparr>qk_poolId = poolId, qk_unit = u, qk_window = w\<rparr> now t;
            effectiveWeight = (if 0 < totalWeight then pa_weight alloc else 0);
            fairShare = (effectiveWeight / 100) * limit
        in \<lparr>ku_apiKeyId = pa_apiKeyId alloc, ku_consumed = consumed, ku_fairShare = fairShare,
            ku_deficit = consumed - fairShare, ku_borrowing = (fairShare < consumed)\<rparr>))"

definition dimensionUsage ::
  "string \<Rightarrow> pool_allocation list \<Rightarrow> millis \<Rightarrow> quota_table \<Rightarrow> quota_unit \<times> quota_window \<times> rat \<Rightarrow> dimension_usage" where
  "dimensionUsage poolId allocations now t planDim =
     (let totalWeight = sum_list (map pa_weight allocations);
          perKey = map (keyUsage poolId planDim totalWeight now t) allocations
      in case planDim of (u, w, limit) \<Rightarrow>
           \<lparr>du_unit = u, du_window = w, du_limit = limit,
            du_consumedTotal = sum_list (map ku_consumed perKey), du_perKey = perKey\<rparr>)"

text \<open>
  The snapshot with the dimensions of a plan. The code reads the clock again for every key; the model reads it once.
\<close>

definition poolUsageWithDimensions ::
  "string \<Rightarrow> (quota_unit \<times> quota_window \<times> rat) list \<Rightarrow> millis \<Rightarrow> quota_table \<Rightarrow> pool_db \<Rightarrow> usage_snapshot" where
  "poolUsageWithDimensions poolId planDimensions now t db =
     (case getPool poolId db of
        None \<Rightarrow> \<lparr>us_poolId = poolId, us_generatedAt = now, us_dimensions = [], us_burnRate = None\<rparr>
      | Some pool \<Rightarrow>
          (let dims = map (dimensionUsage poolId (qp_allocations pool) now t) planDimensions;
               burnRate = (case find (\<lambda>d. du_unit d = UnitTokens) dims of
                   Some tokenDim \<Rightarrow>
                     if 0 < du_consumedTotal tokenDim
                     then Some (computeBurnRateFromWindow now (du_consumedTotal tokenDim) (windowMs (du_window tokenDim))
                                  (Some (du_limit tokenDim - du_consumedTotal tokenDim)))
                     else None
                 | None \<Rightarrow> None)
           in \<lparr>us_poolId = poolId, us_generatedAt = now, us_dimensions = dims, us_burnRate = burnRate\<rparr>))"

text \<open>Without a plan the snapshot has no dimensions.\<close>

definition poolUsage :: "string \<Rightarrow> millis \<Rightarrow> usage_snapshot" where
  "poolUsage poolId now = \<lparr>us_poolId = poolId, us_generatedAt = now, us_dimensions = [], us_burnRate = None\<rparr>"

end
