(* ===== verification/QuotaPlans.thy ===== *)
theory QuotaPlans
  imports QuotaStore
begin

text \<open>
  Plans: the dimensions a plan limits (\<open>src/lib/quota/dimensions.ts\<close>), the catalogue of
  \<open>src/lib/quota/planRegistry.ts\<close>, the stored plans of \<open>src/lib/db/providerPlans.ts\<close> and \<open>src/lib/quota/planResolver.ts\<close>.
  The fractions of shorter windows are kept; the enforcement does not read them.
\<close>

datatype window_period =
    Rolling rat
  | Calendar string "string option"
  | Billing string

datatype dimension_scope = ScopeAccount | ScopeOneModel

record quota_dimension =
  qd_unit :: quota_unit
  qd_window :: quota_window
  qd_limit :: rat
  qd_scope :: "dimension_scope option"
  qd_model :: "string option"
  qd_period :: "window_period option"

record known_plan =
  kp_provider :: string
  kp_dimensions :: "quota_dimension list"
  kp_windowFractions :: "(quota_window \<times> rat) list"

datatype plan_source = AutoPlan | ManualPlan

record provider_plan =
  pp_connectionId :: "string option"
  pp_provider :: string
  pp_dimensions :: "quota_dimension list"
  pp_source :: plan_source

definition isModelScopedDimension :: "quota_dimension \<Rightarrow> bool" where
  "isModelScopedDimension d \<longleftrightarrow>
     qd_scope d = Some ScopeOneModel \<or> (case qd_model d of Some m \<Rightarrow> m \<noteq> [] | None \<Rightarrow> False)"

section \<open>The catalogue\<close>

definition EPSILON :: rat where "EPSILON = 1 / 2 ^ 52"

definition simpleDimension :: "quota_unit \<Rightarrow> quota_window \<Rightarrow> rat \<Rightarrow> quota_dimension" where
  "simpleDimension u w limit =
     \<lparr>qd_unit = u, qd_window = w, qd_limit = limit, qd_scope = None, qd_model = None, qd_period = None\<rparr>"

definition OPENCODE_GO_BILLING_ANCHOR :: string where
  "OPENCODE_GO_BILLING_ANCHOR = ''2026-10-22T06:08:40.000Z''"

definition OPENCODE_GO_MODEL_POOLS :: "(string \<times> rat) list" where
  "OPENCODE_GO_MODEL_POOLS = [(''deepseek-v4.1-flash'', 160), (''glm-5.3-flash'', 180), (''mimo-v2.6-flash'', 120),
     (''qwen3.8-flash'', 90), (''gpt-6-luna'', 60), (''kimi-k3'', 60)]"

definition opencodeGoDimensions :: "quota_dimension list" where
  "opencodeGoDimensions =
     (let account =
        [\<lparr>qd_unit = UnitUsd, qd_window = WindowFiveHours, qd_limit = 48, qd_scope = Some ScopeAccount, qd_model = None,
          qd_period = Some (Rolling 5)\<rparr>,
         \<lparr>qd_unit = UnitUsd, qd_window = WindowWeekly, qd_limit = 120, qd_scope = Some ScopeAccount, qd_model = None,
          qd_period = Some (Calendar ''week'' (Some ''monday''))\<rparr>,
         \<lparr>qd_unit = UnitUsd, qd_window = WindowMonthly, qd_limit = 240, qd_scope = Some ScopeAccount, qd_model = None,
          qd_period = Some (Billing OPENCODE_GO_BILLING_ANCHOR)\<rparr>];
          perModel = map (\<lambda>(model, limit).
            \<lparr>qd_unit = UnitUsd, qd_window = WindowMonthly, qd_limit = limit, qd_scope = Some ScopeOneModel,
             qd_model = Some model, qd_period = Some (Billing OPENCODE_GO_BILLING_ANCHOR)\<rparr>) OPENCODE_GO_MODEL_POOLS
      in account @ perModel)"

definition plainPlan :: "string \<Rightarrow> quota_dimension list \<Rightarrow> known_plan" where
  "plainPlan provider dims = \<lparr>kp_provider = provider, kp_dimensions = dims, kp_windowFractions = []\<rparr>"

definition percentPlan :: "string \<Rightarrow> quota_window list \<Rightarrow> known_plan" where
  "percentPlan provider windows = plainPlan provider (map (\<lambda>w. simpleDimension UnitPercent w 100) windows)"

definition unknownTokenPlan :: "string \<Rightarrow> known_plan" where
  "unknownTokenPlan provider = plainPlan provider
     [simpleDimension UnitTokens WindowFiveHours EPSILON, simpleDimension UnitTokens WindowWeekly EPSILON]"

definition KNOWN_PLANS :: "(string \<times> known_plan) list" where
  "KNOWN_PLANS = [
     (''opencode-go'', \<lparr>kp_provider = ''opencode-go'', kp_dimensions = opencodeGoDimensions,
        kp_windowFractions = [(WindowFiveHours, 1 / 5), (WindowWeekly, 1 / 2), (WindowMonthly, 1)]\<rparr>),
     (''codex'', percentPlan ''codex'' [WindowFiveHours, WindowWeekly]),
     (''claude'', percentPlan ''claude'' [WindowFiveHours, WindowWeekly]),
     (''glm'', unknownTokenPlan ''glm''),
     (''minimax'', unknownTokenPlan ''minimax''),
     (''deepseek'', plainPlan ''deepseek'' [simpleDimension UnitUsd WindowMonthly EPSILON]),
     (''bailian'', percentPlan ''bailian'' [WindowFiveHours, WindowWeekly, WindowMonthly]),
     (''kimi'', plainPlan ''kimi'' [simpleDimension UnitRequests WindowHourly 1500]),
     (''kimi-coding'', unknownTokenPlan ''kimi-coding''),
     (''xiaomi-mimo'', plainPlan ''xiaomi-mimo'' [simpleDimension UnitTokens WindowMonthly 4100000000]),
     (''xiaomi-mimo-token-plan'', plainPlan ''xiaomi-mimo-token-plan'' [simpleDimension UnitTokens WindowMonthly 4100000000]),
     (''alibaba'', plainPlan ''alibaba'' [simpleDimension UnitRequests WindowMonthly 90000]),
     (''grok-cli'', plainPlan ''grok-cli''
        [simpleDimension UnitRequests WindowDaily 864, simpleDimension UnitTokens WindowDaily 18000000,
         simpleDimension UnitRequests WindowWeekly 6048, simpleDimension UnitTokens WindowWeekly 126000000])]"

definition getKnownPlan :: "string \<Rightarrow> known_plan option" where
  "getKnownPlan provider = map_of KNOWN_PLANS provider"

definition knownProviders :: "string list" where
  "knownProviders = map fst KNOWN_PLANS"

section \<open>Stored plans\<close>

text \<open>A row of \<open>provider_plans\<close>: its dimensions, or \<open>None\<close> when the stored text is not JSON.\<close>

record plan_row =
  pw_connectionId :: string
  pw_provider :: string
  pw_dimensions :: "quota_dimension list option"
  pw_source :: plan_source

definition rowToPlan :: "plan_row \<Rightarrow> provider_plan" where
  "rowToPlan r = \<lparr>pp_connectionId = Some (pw_connectionId r), pp_provider = pw_provider r,
     pp_dimensions = nullish (pw_dimensions r) [], pp_source = pw_source r\<rparr>"

definition getPlan :: "string \<Rightarrow> plan_row list \<Rightarrow> provider_plan option" where
  "getPlan connectionId rows = map_option rowToPlan (find (\<lambda>r. pw_connectionId r = connectionId) rows)"

definition upsertPlan :: "string \<Rightarrow> string \<Rightarrow> quota_dimension list \<Rightarrow> plan_source \<Rightarrow> plan_row list \<Rightarrow> plan_row list" where
  "upsertPlan connectionId provider dims source rows =
     (let new = \<lparr>pw_connectionId = connectionId, pw_provider = provider, pw_dimensions = Some dims, pw_source = source\<rparr>
      in case find (\<lambda>r. pw_connectionId r = connectionId) rows of
           None \<Rightarrow> rows @ [new]
         | Some _ \<Rightarrow> map (\<lambda>r. if pw_connectionId r = connectionId then new else r) rows)"

definition deletePlan :: "string \<Rightarrow> plan_row list \<Rightarrow> bool \<times> plan_row list" where
  "deletePlan connectionId rows =
     (find (\<lambda>r. pw_connectionId r = connectionId) rows \<noteq> None, filter (\<lambda>r. pw_connectionId r \<noteq> connectionId) rows)"

definition listPlans :: "plan_row list \<Rightarrow> provider_plan list" where
  "listPlans rows = map rowToPlan (sort_key pw_provider rows)"

text \<open>The read of the stored plan is \<open>None\<close> when it throws.\<close>

definition resolvePlan :: "provider_plan option option \<Rightarrow> string \<Rightarrow> provider_plan" where
  "resolvePlan stored provider =
     (let fallback =
        (case getKnownPlan provider of
           Some k \<Rightarrow> \<lparr>pp_connectionId = None, pp_provider = kp_provider k, pp_dimensions = kp_dimensions k, pp_source = AutoPlan\<rparr>
         | None \<Rightarrow> \<lparr>pp_connectionId = None, pp_provider = provider, pp_dimensions = [], pp_source = ManualPlan\<rparr>)
      in case stored of
           Some (Some dbPlan) \<Rightarrow> if pp_dimensions dbPlan \<noteq> [] then dbPlan else fallback
         | _ \<Rightarrow> fallback)"

end
