(* ===== verification/QuotaEnforce.thy ===== *)
theory QuotaEnforce
  imports QuotaPlans
begin

text \<open>
  The enforcement of quota pools: \<open>src/lib/quota/enforce.ts\<close>, the costs of \<open>src/lib/quota/spendRecorder.ts\<close> and the
  hooks of the chat handler. Every read that may throw or reject is a function of an environment with \<open>None\<close> for the
  failure; \<open>healthyEnv\<close> is the one in which all of them succeed. The webhook of a block is not modelled; a block keeps
  the code of its reason.
\<close>

record quota_env =
  qe_allocations :: "string \<Rightarrow> (string \<times> pool_allocation) list option"
  qe_pool :: "string \<Rightarrow> quota_pool option option"
  qe_plan :: "string \<Rightarrow> provider_plan option option"
  qe_modelCap :: "string \<Rightarrow> string \<Rightarrow> string \<Rightarrow> model_cap option option"
  qe_peek :: "string \<Rightarrow> quota_key \<Rightarrow> rat option"
  qe_total :: "quota_key \<Rightarrow> rat option"
  qe_saturation :: "string \<Rightarrow> string \<Rightarrow> quota_dimension \<Rightarrow> rat option"

definition healthyEnv ::
  "pool_db \<Rightarrow> plan_row list \<Rightarrow> quota_table \<Rightarrow> (string \<Rightarrow> string \<Rightarrow> quota_dimension \<Rightarrow> rat) \<Rightarrow> millis \<Rightarrow> quota_env" where
  "healthyEnv db plans t saturation now =
     \<lparr>qe_allocations = (\<lambda>k. Some (listAllocationsForApiKey k db)), qe_pool = (\<lambda>i. Some (getPool i db)),
      qe_plan = (\<lambda>c. Some (getPlan c plans)), qe_modelCap = (\<lambda>p k m. Some (getModelCap p k m db)),
      qe_peek = (\<lambda>k d. Some (peek k d now t)), qe_total = (\<lambda>d. Some (poolConsumedTotal d now t)),
      qe_saturation = (\<lambda>c p d. Some (saturation c p d))\<rparr>"

record enforce_input =
  ei_apiKeyId :: string
  ei_connectionId :: string
  ei_provider :: string
  ei_model :: "string option"

datatype enforce_decision =
    QuotaAllow bool
  | QuotaBlock string string

text \<open>The first pool of the key that has the connection as a member.\<close>

fun matchPool ::
  "quota_env \<Rightarrow> string \<Rightarrow> (string \<times> pool_allocation) list \<Rightarrow> (string \<times> quota_pool \<times> pool_allocation) option" where
  "matchPool env connectionId [] = None"
| "matchPool env connectionId ((poolId, allocation) # rest) =
     (case qe_pool env poolId of
        Some (Some p) \<Rightarrow> if connectionId \<in> set (qp_connectionIds p) then Some (poolId, p, allocation)
                         else matchPool env connectionId rest
      | _ \<Rightarrow> matchPool env connectionId rest)"

definition truthyModel :: "string option \<Rightarrow> string option" where
  "truthyModel m = (case m of Some (c # cs) \<Rightarrow> Some (c # cs) | _ \<Rightarrow> None)"

definition modelKey :: "string \<Rightarrow> string \<Rightarrow> quota_unit \<Rightarrow> quota_key" where
  "modelKey poolId model u = \<lparr>qk_poolId = poolId @ '':model:'' @ model, qk_unit = u, qk_window = WindowHourly\<rparr>"

text \<open>Step 3b: the cap of the key on the model.\<close>

definition realCap :: "model_cap option option \<Rightarrow> model_cap option" where
  "realCap c = (case c of Some (Some cap) \<Rightarrow> if EPSILON < mc_capValue cap then Some cap else None | _ \<Rightarrow> None)"

definition modelCapReached :: "quota_env \<Rightarrow> enforce_input \<Rightarrow> string \<Rightarrow> bool" where
  "modelCapReached env input poolId =
     (case truthyModel (ei_model input) of
        None \<Rightarrow> False
      | Some model \<Rightarrow>
          (case realCap (qe_modelCap env poolId (ei_apiKeyId input) model) of
             None \<Rightarrow> False
           | Some cap \<Rightarrow> mc_capValue cap
               \<le> nullish (qe_peek env (ei_apiKeyId input) (modelKey poolId model (mc_capUnit cap))) 0))"

definition accountCount :: "quota_pool \<Rightarrow> nat" where
  "accountCount p = (if qp_connectionIds p \<noteq> [] then length (qp_connectionIds p) else 1)"

definition countable :: "quota_unit \<Rightarrow> bool" where
  "countable u \<longleftrightarrow> u \<in> {UnitRequests, UnitTokens, UnitUsd}"

definition dimKeyOf :: "string \<Rightarrow> quota_dimension \<Rightarrow> quota_key" where
  "dimKeyOf poolId d = \<lparr>qk_poolId = poolId, qk_unit = qd_unit d, qk_window = qd_window d\<rparr>"

definition fairKey :: "quota_key \<Rightarrow> dimension_key" where
  "fairKey k = \<lparr>dk_poolId = qk_poolId k, dk_unit = unitName (qk_unit k), dk_window = windowName (qk_window k)\<rparr>"

text \<open>The body of step 4 for a dimension with a real limit.\<close>

definition dimensionInfo :: "quota_env \<Rightarrow> enforce_input \<Rightarrow> quota_pool \<Rightarrow> quota_dimension \<Rightarrow> fair_dimension" where
  "dimensionInfo env input pool d =
     (let dimKey = dimKeyOf (qp_id pool) d;
          globalUsedPercent = nullish (qe_saturation env (ei_connectionId input) (ei_provider input) d) 0;
          effectiveLimit = qd_limit d * of_nat (accountCount pool);
          consumedTotal = (if countable (qd_unit d) then nullish (qe_total env dimKey) 0
                           else globalUsedPercent * effectiveLimit)
      in \<lparr>fd_key = fairKey dimKey, fd_limit = effectiveLimit, fd_consumedTotal = consumedTotal,
          fd_globalUsedPercent = globalUsedPercent\<rparr>)"

definition activeDimensions :: "provider_plan \<Rightarrow> quota_dimension list" where
  "activeDimensions plan = filter (\<lambda>d. EPSILON < qd_limit d) (pp_dimensions plan)"

definition consumedByKey :: "quota_env \<Rightarrow> enforce_input \<Rightarrow> quota_pool \<Rightarrow> quota_dimension list \<Rightarrow> (string, rat) jmap" where
  "consumedByKey env input pool dims =
     fold (\<lambda>d. jset (dimensionKeyToString (dimKeyOf (qp_id pool) d))
                 (nullish (qe_peek env (ei_apiKeyId input) (dimKeyOf (qp_id pool) d)) 0)) dims []"

definition effectiveWeight :: "quota_pool \<Rightarrow> pool_allocation \<Rightarrow> rat" where
  "effectiveWeight pool a =
     (let poolTotalWeight = sum_list (map pa_weight (qp_allocations pool));
          allocCount = length (qp_allocations pool)
      in if 0 < poolTotalWeight then pa_weight a else if 0 < allocCount then 100 / of_nat allocCount else 0)"

definition fairInput :: "quota_env \<Rightarrow> enforce_input \<Rightarrow> quota_pool \<Rightarrow> pool_allocation \<Rightarrow> provider_plan \<Rightarrow> rat \<Rightarrow> fair_input" where
  "fairInput env input pool a plan threshold =
     \<lparr>fi_dimensions = map (dimensionInfo env input pool) (activeDimensions plan),
      fi_allocation = \<lparr>fa_weight = effectiveWeight pool a, fa_capValue = pa_capValue a,
        fa_capUnit = map_option unitName (pa_capUnit a), fa_policy = pa_policy a\<rparr>,
      fi_consumedByThisKey = consumedByKey env input pool (activeDimensions plan),
      fi_saturationThreshold = threshold\<rparr>"

definition messageForReason :: "decision_reason \<Rightarrow> string \<Rightarrow> string" where
  "messageForReason reason provider =
     (case reason of
        FairShare \<Rightarrow> ''Quota share limit reached for your API key on '' @ provider
      | CapAbsolute \<Rightarrow> ''Absolute quota cap reached for your API key on '' @ provider
      | GlobalSaturated \<Rightarrow> ''Provider '' @ provider @ '' quota window is saturated; no shared capacity available''
      | Ok \<Rightarrow> ''Quota share enforcement blocked the request'')"

definition reasonCode :: "decision_reason \<Rightarrow> string" where
  "reasonCode reason = (case reason of FairShare \<Rightarrow> ''fair-share'' | CapAbsolute \<Rightarrow> ''cap-absolute''
     | GlobalSaturated \<Rightarrow> ''global-saturated'' | Ok \<Rightarrow> ''ok'')"

definition enforceQuotaShare :: "rat \<Rightarrow> quota_env \<Rightarrow> enforce_input \<Rightarrow> enforce_decision" where
  "enforceQuotaShare threshold env input =
     (case qe_allocations env (ei_apiKeyId input) of
        None \<Rightarrow> QuotaAllow False
      | Some allocations \<Rightarrow>
          if allocations = [] then QuotaAllow False
          else (case matchPool env (ei_connectionId input) allocations of
                  None \<Rightarrow> QuotaAllow False
                | Some (_, pool, a) \<Rightarrow>
                    (let plan = resolvePlan (qe_plan env (ei_connectionId input)) (ei_provider input)
                     in if modelCapReached env input (qp_id pool)
                        then QuotaBlock ''model-cap'' (''Model cap reached for your API key on '' @ ei_provider input @ ''/''
                               @ nullish (ei_model input) [] @ '' [model-cap]'')
                        else if pp_dimensions plan = [] then QuotaAllow False
                        else (let decision = decideFairShare (fairInput env input pool a plan threshold)
                              in if fx_kind decision = Block
                                 then QuotaBlock (reasonCode (fx_reason decision))
                                        (messageForReason (fx_reason decision) (ei_provider input))
                                 else QuotaAllow (fx_penalized decision)))))"

section \<open>Recording\<close>

record request_cost =
  rc_tokens :: "rat option"
  rc_usd :: "rat option"
  rc_requests :: "rat option"

record record_input =
  ri_apiKeyId :: string
  ri_connectionId :: string
  ri_provider :: string
  ri_model :: "string option"
  ri_cost :: request_cost

definition costForUnit :: "request_cost \<Rightarrow> quota_unit \<Rightarrow> rat" where
  "costForUnit c u = (case u of
      UnitTokens \<Rightarrow> nullish (rc_tokens c) 0
    | UnitUsd \<Rightarrow> nullish (rc_usd c) 0
    | UnitRequests \<Rightarrow> nullish (rc_requests c) 1
    | UnitPercent \<Rightarrow> 0)"

text \<open>A \<open>consume\<close> that rejects is swallowed; \<open>rejects\<close> says on which keys that happens.\<close>

definition consumeOn :: "(quota_key \<Rightarrow> bool) \<Rightarrow> string \<Rightarrow> millis \<Rightarrow> request_cost \<Rightarrow> quota_key \<Rightarrow> quota_table \<Rightarrow> quota_table" where
  "consumeOn rejects apiKeyId now cost key t =
     (if 0 < costForUnit cost (qk_unit key) \<and> \<not> rejects key
      then snd (consume apiKeyId key (costForUnit cost (qk_unit key)) now t) else t)"

definition recordConsumption ::
  "quota_env \<Rightarrow> (quota_key \<Rightarrow> bool) \<Rightarrow> record_input \<Rightarrow> millis \<Rightarrow> quota_table \<Rightarrow> quota_table" where
  "recordConsumption env rejects input now t =
     (case qe_allocations env (ri_apiKeyId input) of
        None \<Rightarrow> t
      | Some allocations \<Rightarrow>
          (case matchPool env (ri_connectionId input) allocations of
             None \<Rightarrow> t
           | Some (poolId, _, _) \<Rightarrow>
               (let plan = resolvePlan (qe_plan env (ri_connectionId input)) (ri_provider input);
                    t1 = fold (\<lambda>d. consumeOn rejects (ri_apiKeyId input) now (ri_cost input) (dimKeyOf poolId d))
                           (pp_dimensions plan) t
                in case truthyModel (ri_model input) of
                     None \<Rightarrow> t1
                   | Some model \<Rightarrow>
                       (case realCap (qe_modelCap env poolId (ri_apiKeyId input) model) of
                          None \<Rightarrow> t1
                        | Some cap \<Rightarrow> consumeOn rejects (ri_apiKeyId input) now (ri_cost input)
                                        (modelKey poolId model (mc_capUnit cap)) t1))))"

section \<open>The hooks of the chat handler\<close>

definition buildConsumptionCost :: "json \<Rightarrow> rat \<Rightarrow> request_cost" where
  "buildConsumptionCost usage estimatedCost =
     (let u = asRecord usage;
          tokens = nullish (jsNumberOf (orElse (field ''prompt_tokens'' u) (JNum 0))) 0
                 + nullish (jsNumberOf (orElse (field ''completion_tokens'' u) (JNum 0))) 0
      in \<lparr>rc_tokens = Some tokens, rc_usd = Some (if 0 < estimatedCost then estimatedCost else 0), rc_requests = Some 1\<rparr>)"

definition truthyText :: "string option \<Rightarrow> bool" where
  "truthyText s = (case s of Some (c # cs) \<Rightarrow> True | _ \<Rightarrow> False)"

text \<open>The record of a completed response that was not streamed; \<open>None\<close> when nothing is recorded.\<close>

definition scheduleQuotaShareConsumption ::
  "string option \<Rightarrow> string option \<Rightarrow> string option \<Rightarrow> string option \<Rightarrow> json \<Rightarrow> rat \<Rightarrow> record_input option" where
  "scheduleQuotaShareConsumption apiKeyId connectionId provider model usage estimatedCost =
     (if \<not> truthyText apiKeyId \<or> \<not> truthyText connectionId then None
      else Some \<lparr>ri_apiKeyId = the apiKeyId, ri_connectionId = the connectionId,
                 ri_provider = nullish provider ''unknown'', ri_model = model,
                 ri_cost = buildConsumptionCost usage estimatedCost\<rparr>)"

text \<open>The record of a streamed response; the price is a parameter, \<open>None\<close> when it throws.\<close>

definition recordStreamingConsumption ::
  "(string \<Rightarrow> string \<Rightarrow> json \<Rightarrow> string option \<Rightarrow> rat option) \<Rightarrow> string option \<Rightarrow> string option \<Rightarrow> string option \<Rightarrow> string \<Rightarrow> json
   \<Rightarrow> nat \<Rightarrow> string option \<Rightarrow> record_input option" where
  "recordStreamingConsumption calculateCost apiKeyId connectionId provider model streamUsage streamStatus serviceTier =
     (if \<not> truthyText apiKeyId \<or> \<not> truthyText connectionId \<or> streamStatus \<noteq> 200 then None
      else (let resolvedProvider = nullish provider ''unknown'';
                estimatedCost = (case streamUsage of
                    JObj _ \<Rightarrow> nullish (calculateCost resolvedProvider model streamUsage serviceTier) 0
                  | JArr _ \<Rightarrow> nullish (calculateCost resolvedProvider model streamUsage serviceTier) 0
                  | _ \<Rightarrow> 0)
            in Some \<lparr>ri_apiKeyId = the apiKeyId, ri_connectionId = the connectionId, ri_provider = resolvedProvider,
                     ri_model = (if model \<noteq> [] then Some model else None),
                     ri_cost = buildConsumptionCost streamUsage estimatedCost\<rparr>))"

text \<open>The gate before a request is sent: no key or no connection, no gate.\<close>

definition quotaPreHook ::
  "rat \<Rightarrow> quota_env \<Rightarrow> string option \<Rightarrow> string option \<Rightarrow> string option \<Rightarrow> string option \<Rightarrow> enforce_decision" where
  "quotaPreHook threshold env apiKeyId connectionId provider model =
     (if \<not> truthyText apiKeyId \<or> \<not> truthyText connectionId then QuotaAllow False
      else enforceQuotaShare threshold env
             \<lparr>ei_apiKeyId = the apiKeyId, ei_connectionId = the connectionId,
              ei_provider = nullish provider ''unknown'', ei_model = truthyModel model\<rparr>)"

end
