(* ===== verification/QuotaPoolLaws.thy ===== *)
theory QuotaPoolLaws
  imports QuotaPools
begin

text \<open>
  The constraints that every operation on quota pools keeps, and which pools a change of allocations reaches.
\<close>

section \<open>The invariant of the tables\<close>

definition allocationOk :: "pool_db \<Rightarrow> allocation_row \<Rightarrow> bool" where
  "allocationOk db r \<longleftrightarrow> 0 \<le> al_weight r \<and> al_weight r \<le> 100 \<and> al_policy r \<in> {''hard'', ''soft'', ''burst''}
     \<and> findPool (al_poolId r) db \<noteq> None"

definition poolInv :: "pool_db \<Rightarrow> bool" where
  "poolInv db \<longleftrightarrow> distinct (map pr_id (pd_pools db))
     \<and> distinct (map (\<lambda>r. (al_poolId r, al_apiKeyId r)) (pd_allocations db))
     \<and> (\<forall>r \<in> set (pd_allocations db). allocationOk db r)
     \<and> distinct (map (\<lambda>r. (cn_poolId r, cn_connectionId r)) (pd_connections db))
     \<and> distinct (map (\<lambda>c. (mc_poolId c, mc_apiKeyId c, mc_model c)) (pd_caps db))
     \<and> (\<forall>c \<in> set (pd_caps db). 0 < mc_capValue c)"

lemma findPool_iff: "findPool i db \<noteq> None \<longleftrightarrow> i \<in> pr_id ` set (pd_pools db)"
  by (auto simp: findPool_def find_None_iff)

lemma findPool_id: "findPool i db = Some r \<Longrightarrow> pr_id r = i \<and> r \<in> set (pd_pools db)"
  by (auto simp: findPool_def find_Some_iff)

lemma findPool_cong: "pd_pools db' = pd_pools db \<Longrightarrow> findPool i db' = findPool i db"
  by (simp add: findPool_def)

lemma distinct_map_filter': "distinct (map f xs) \<Longrightarrow> distinct (map f (filter P xs))"
  by (rule distinct_map_filter)

lemma insertAllocation_inv:
  assumes inv: "poolInv db" and ins: "insertAllocation poolId a db = Some db'"
  shows "poolInv db' \<and> pd_pools db' = pd_pools db"
proof -
  have db': "db' = db\<lparr>pd_allocations := pd_allocations db @ [allocationRow poolId a]\<rparr>"
    and row: "allocationOk db (allocationRow poolId a)"
    and none: "find (\<lambda>r. al_poolId r = poolId \<and> al_apiKeyId r = pa_apiKeyId a) (pd_allocations db) = None"
    using ins by (auto simp: insertAllocation_def allocationOk_def allocationRow_def split: if_splits)
  have "(poolId, pa_apiKeyId a) \<notin> (\<lambda>r. (al_poolId r, al_apiKeyId r)) ` set (pd_allocations db)"
    using none by (auto simp: find_None_iff)
  then have "distinct (map (\<lambda>r. (al_poolId r, al_apiKeyId r)) (pd_allocations db'))"
    using inv by (simp add: db' poolInv_def allocationRow_def)
  moreover have "allocationOk db' r = allocationOk db r" for r by (simp add: db' allocationOk_def findPool_def)
  ultimately show ?thesis using inv row by (simp add: db' poolInv_def)
qed

lemma insertAllocations_inv:
  "poolInv db \<Longrightarrow> insertAllocations poolId as db = Some db' \<Longrightarrow> poolInv db' \<and> pd_pools db' = pd_pools db"
proof (induction as arbitrary: db)
  case Nil
  then show ?case by simp
next
  case (Cons a as)
  then obtain db1 where "insertAllocation poolId a db = Some db1" "insertAllocations poolId as db1 = Some db'"
    by (auto split: option.splits)
  then show ?case using Cons insertAllocation_inv by metis
qed

lemma clearAllocations_inv: "poolInv db \<Longrightarrow> poolInv (clearAllocations poolId db)"
  by (auto simp: poolInv_def clearAllocations_def allocationOk_def findPool_def intro: distinct_map_filter')

lemma insertConnection_inv: "poolInv db \<Longrightarrow> poolInv (insertConnection stamp poolId c db)"
  by (auto simp: poolInv_def insertConnection_def allocationOk_def findPool_def find_None_iff)

lemma insertConnections_inv: "poolInv db \<Longrightarrow> poolInv (fold (insertConnection stamp poolId) cs db)"
  by (induction cs arbitrary: db) (simp_all add: insertConnection_inv)

lemma clearConnections_inv: "poolInv db \<Longrightarrow> poolInv (clearConnections poolId db)"
  by (auto simp: poolInv_def clearConnections_def allocationOk_def findPool_def intro: distinct_map_filter')

lemma addPool_inv: "poolInv db \<Longrightarrow> findPool (pr_id row) db = None \<Longrightarrow> poolInv (db\<lparr>pd_pools := pd_pools db @ [row]\<rparr>)"
  by (auto simp: poolInv_def allocationOk_def findPool_def find_None_iff)

lemma setRow_inv:
  assumes "poolInv db"
  shows "poolInv (setRow row db)"
proof -
  have ids: "map pr_id (pd_pools (setRow row db)) = map pr_id (pd_pools db)" by (simp add: setRow_def)
  then have "findPool i (setRow row db) \<noteq> None \<longleftrightarrow> findPool i db \<noteq> None" for i
    unfolding findPool_iff by (metis list.set_map)
  then show ?thesis using assms ids by (simp add: poolInv_def allocationOk_def) (simp add: setRow_def)
qed

lemma createPool_inv:
  assumes "poolInv db" and "createPool i now stamp input db = Inr (p, db')"
  shows "poolInv db'"
proof -
  define members where "members = (case pc_connectionIds input of Some (c # cs) \<Rightarrow> c # cs | _ \<Rightarrow> [pc_connectionId input])"
  define row where "row = \<lparr>pr_id = i, pr_connectionId = hd members, pr_name = pc_name input,
                 pr_groupId = Some (groupOr (pc_groupId input)), pr_createdAt = now\<rparr>"
  define db1 where "db1 = fold (insertConnection stamp i) members (db\<lparr>pd_pools := pd_pools db @ [row]\<rparr>)"
  have new: "findPool i db = None" and ins: "insertAllocations i (nullish (pc_allocations input) []) db1 = Some db'"
    using assms(2) unfolding createPool_def Let_def members_def [symmetric] row_def [symmetric] db1_def [symmetric]
    by (auto split: option.splits if_splits)
  have "poolInv db1" unfolding db1_def
    using assms(1) new by (intro insertConnections_inv addPool_inv) (simp_all add: row_def)
  then show ?thesis using insertAllocations_inv ins by blast
qed

lemma replaceMembers_inv: "poolInv db \<Longrightarrow> replaceMembers stamp ids row db = (row', db') \<Longrightarrow> poolInv db'"
  by (auto simp: replaceMembers_def insertConnections_inv clearConnections_inv insertConnection_inv
      split: option.splits list.splits)

lemma replaceGiven_inv: "poolInv db \<Longrightarrow> replaceGiven poolId as db = Some db' \<Longrightarrow> poolInv db'"
  by (cases as) (use insertAllocations_inv [OF clearAllocations_inv] in \<open>auto simp: replaceGiven_def\<close>)

lemma updatePool_inv:
  assumes "poolInv db" and "updatePool i stamp input db = Inr (p, db')"
  shows "poolInv db'"
proof (cases "findPool i db")
  case None
  then show ?thesis using assms by (simp add: updatePool_def)
next
  case (Some existing)
  obtain row db1 where m: "replaceMembers stamp (pu_connectionIds input) (renamePool input existing) db = (row, db1)"
    by (rule prod.exhaust)
  have "replaceGiven i (pu_allocations input) (setRow row db1) = Some db'"
    using assms(2) Some m
    by (cases "mixedProviders (pu_connectionIds input) db"; cases "replaceGiven i (pu_allocations input) (setRow row db1)")
      (simp_all add: updatePool_def)
  then show ?thesis using replaceGiven_inv setRow_inv replaceMembers_inv [OF assms(1) m] by blast
qed

lemma deletePool_inv:
  assumes "poolInv db"
  shows "poolInv (snd (deletePool i db))"
  using assms
  by (auto simp: deletePool_def poolInv_def clearConnections_def clearAllocations_def allocationOk_def findPool_def
      find_None_iff Let_def intro: distinct_map_filter') metis

lemma replaceAllocations_inv:
  "poolInv db \<Longrightarrow> replaceAllocations pids as db = Some db' \<Longrightarrow> poolInv db' \<and> pd_pools db' = pd_pools db"
proof (induction pids arbitrary: db)
  case Nil
  then show ?case by simp
next
  case (Cons p pids)
  then obtain db1 where "insertAllocations p as (clearAllocations p db) = Some db1" "replaceAllocations pids as db1 = Some db'"
    by (auto split: option.splits)
  then show ?case
    using Cons.IH [of db1] insertAllocations_inv [OF clearAllocations_inv [OF Cons.prems(1)]]
    by (simp add: clearAllocations_def)
qed

lemma upsertAllocations_inv: "poolInv db \<Longrightarrow> upsertAllocations poolId as db = Inr db' \<Longrightarrow> poolInv db'"
  using replaceAllocations_inv by (auto simp: upsertAllocations_def writeAllocations_def split: option.splits)

lemma setModelCap_inv: "poolInv db \<Longrightarrow> setModelCap cap db = Inr db' \<Longrightarrow> poolInv db'"
proof -
  assume inv: "poolInv db" and set: "setModelCap cap db = Inr db'"
  let ?key = "\<lambda>c. (mc_poolId c, mc_apiKeyId c, mc_model c)"
  let ?put = "\<lambda>c. if sameCap (mc_poolId cap) (mc_apiKeyId cap) (mc_model cap) c then cap else c"
  have keys: "map ?key (map ?put cs) = map ?key cs" for cs by (simp add: sameCap_def)
  have d: "distinct (map ?key (pd_caps db))" "\<forall>c \<in> set (pd_caps db). 0 < mc_capValue c" using inv by (auto simp: poolInv_def)
  have "distinct (map ?key (pd_caps db')) \<and> (\<forall>c \<in> set (pd_caps db'). 0 < mc_capValue c)"
  proof (cases "getModelCap (mc_poolId cap) (mc_apiKeyId cap) (mc_model cap) db")
    case None
    then have db': "db' = db\<lparr>pd_caps := pd_caps db @ [cap]\<rparr>" "0 < mc_capValue cap"
      using set by (auto simp: setModelCap_def split: if_splits)
    have "?key cap \<notin> ?key ` set (pd_caps db)" using None by (auto simp: getModelCap_def find_None_iff sameCap_def)
    then show ?thesis using d db' by auto
  next
    case (Some old)
    then have db': "db' = db\<lparr>pd_caps := map ?put (pd_caps db)\<rparr>" "0 < mc_capValue cap"
      using set by (auto simp: setModelCap_def split: if_splits)
    have "map ?key (pd_caps db') = map ?key (pd_caps db)" using keys [of "pd_caps db"] by (simp add: db'(1))
    then have "distinct (map ?key (pd_caps db'))" using d(1) by simp
    then show ?thesis using d(2) db' by auto
  qed
  moreover have "pd_pools db' = pd_pools db" "pd_allocations db' = pd_allocations db" "pd_connections db' = pd_connections db"
    using set by (auto simp: setModelCap_def split: if_splits option.splits)
  ultimately show "poolInv db'" using inv by (simp add: poolInv_def allocationOk_def findPool_def)
qed

lemma deleteModelCap_inv: "poolInv db \<Longrightarrow> poolInv (deleteModelCap poolId apiKeyId model db)"
  by (auto simp: poolInv_def deleteModelCap_def allocationOk_def findPool_def intro: distinct_map_filter')

section \<open>Operations\<close>

datatype pool_op =
    CreatePool string string nat pool_create
  | UpdatePool string nat pool_update
  | DeletePool string
  | UpsertAllocations string "pool_allocation list"
  | SetModelCap model_cap
  | DeleteModelCap string string string

text \<open>An operation that throws leaves the tables as they are.\<close>

fun poolOp :: "pool_op \<Rightarrow> pool_db \<Rightarrow> pool_db" where
  "poolOp (CreatePool i now stamp input) db = (case createPool i now stamp input db of Inl e \<Rightarrow> db | Inr r \<Rightarrow> snd r)"
| "poolOp (UpdatePool i stamp input) db = (case updatePool i stamp input db of Inl e \<Rightarrow> db | Inr r \<Rightarrow> snd r)"
| "poolOp (DeletePool i) db = snd (deletePool i db)"
| "poolOp (UpsertAllocations i as) db = (case upsertAllocations i as db of Inl e \<Rightarrow> db | Inr db' \<Rightarrow> db')"
| "poolOp (SetModelCap cap) db = (case setModelCap cap db of Inl e \<Rightarrow> db | Inr db' \<Rightarrow> db')"
| "poolOp (DeleteModelCap i k m) db = deleteModelCap i k m db"

lemma poolOp_inv: "poolInv db \<Longrightarrow> poolInv (poolOp op db)"
  by (cases op) (auto simp: deletePool_inv deleteModelCap_inv split: sum.split
      intro: createPool_inv updatePool_inv upsertAllocations_inv setModelCap_inv)

lemma pool_run_inv: "poolInv db \<Longrightarrow> poolInv (fold poolOp ops db)"
  by (induction ops arbitrary: db) (simp_all add: poolOp_inv)

definition emptyPools :: pool_db where
  "emptyPools = \<lparr>pd_pools = [], pd_allocations = [], pd_connections = [], pd_caps = [], pd_allowedQuotas = [], pd_providers = []\<rparr>"

lemma emptyPools_inv: "poolInv emptyPools"
  by (simp add: poolInv_def emptyPools_def)

section \<open>Which pools a change of allocations reaches\<close>

text \<open>An allocation as it is read back: its policy goes through its name.\<close>

definition storedAllocation :: "pool_allocation \<Rightarrow> pool_allocation" where
  "storedAllocation a = a\<lparr>pa_policy := readPolicy (policyName (pa_policy a))\<rparr>"

lemma rowToAllocation_row: "rowToAllocation (allocationRow poolId a) = storedAllocation a"
  by (simp add: rowToAllocation_def allocationRow_def storedAllocation_def)

lemma stored_known: "(\<And>s. pa_policy a \<noteq> OtherPolicy s) \<Longrightarrow> storedAllocation a = a"
  by (cases "pa_policy a") (auto simp: storedAllocation_def readPolicy_def policyName_def)

lemma insertAllocations_rows:
  "insertAllocations poolId as db = Some db' \<Longrightarrow>
   db' = db\<lparr>pd_allocations := pd_allocations db @ map (allocationRow poolId) as\<rparr>"
proof (induction as arbitrary: db)
  case Nil
  then show ?case by simp
next
  case (Cons a as)
  then obtain db1 where "insertAllocation poolId a db = Some db1" "insertAllocations poolId as db1 = Some db'"
    by (auto split: option.splits)
  then show ?case using Cons.IH [of db1] by (auto simp: insertAllocation_def split: if_splits)
qed

lemma replaced_allocations:
  assumes "insertAllocations poolId as (clearAllocations poolId db) = Some db'"
  shows "getAllocations q db' = (if q = poolId then map storedAllocation as else getAllocations q db)"
proof -
  have "filter (\<lambda>r. al_poolId r = q) (map (allocationRow poolId) as) = (if q = poolId then map (allocationRow poolId) as else [])"
    by (induction as) (auto simp: allocationRow_def)
  moreover have "filter (\<lambda>r. al_poolId r = q) (filter (\<lambda>r. al_poolId r \<noteq> poolId) rows)
      = (if q = poolId then [] else filter (\<lambda>r. al_poolId r = q) rows)" for rows :: "allocation_row list"
    by (induction rows) auto
  ultimately show ?thesis
    using insertAllocations_rows [OF assms]
    by (simp add: getAllocations_def clearAllocations_def rowToAllocation_row del: filter_filter)
qed

lemma replaceAllocations_rows:
  "replaceAllocations pids as db = Some db' \<Longrightarrow>
   getAllocations q db' = (if q \<in> set pids then map storedAllocation as else getAllocations q db)"
proof (induction pids arbitrary: db)
  case Nil
  then show ?case by simp
next
  case (Cons p pids)
  then obtain db1 where "insertAllocations p as (clearAllocations p db) = Some db1" "replaceAllocations pids as db1 = Some db'"
    by (auto split: option.splits)
  then show ?case using Cons.IH [of db1] replaced_allocations by auto
qed

lemma replaceMembers_allocations:
  "replaceMembers stamp ids row db = (row', db') \<Longrightarrow> pd_allocations db' = pd_allocations db"
proof -
  have "pd_allocations (fold (insertConnection stamp p) cs d) = pd_allocations d" for p cs d
    by (induction cs arbitrary: d) (simp_all add: insertConnection_def)
  note f = this
  assume "replaceMembers stamp ids row db = (row', db')"
  then show ?thesis by (auto simp: replaceMembers_def f clearConnections_def insertConnection_def split: option.splits list.splits)
qed

lemma updatePool_allocations:
  assumes "updatePool i stamp input db = Inr (Some p, db')"
  shows "getAllocations q db' = (case pu_allocations input of
           Some as \<Rightarrow> if q = i then map storedAllocation as else getAllocations q db | None \<Rightarrow> getAllocations q db)"
proof -
  obtain existing where e: "findPool i db = Some existing" using assms by (auto simp: updatePool_def split: option.splits)
  obtain row db1 where m: "replaceMembers stamp (pu_connectionIds input) (renamePool input existing) db = (row, db1)"
    by (rule prod.exhaust)
  have r: "replaceGiven i (pu_allocations input) (setRow row db1) = Some db'"
    using assms e m
    by (cases "mixedProviders (pu_connectionIds input) db"; cases "replaceGiven i (pu_allocations input) (setRow row db1)")
      (simp_all add: updatePool_def)
  have "getAllocations q (setRow row db1) = getAllocations q db"
    using replaceMembers_allocations [OF m] by (simp add: getAllocations_def setRow_def)
  then show ?thesis
    using r replaced_allocations [of i _ "setRow row db1" db' q] by (cases "pu_allocations input") (auto simp: replaceGiven_def)
qed

lemma upsertAllocations_reach:
  assumes "upsertAllocations i as db = Inr db'"
  shows "getAllocations q db' =
    (if q \<in> set (poolIdsInGroup i db) then map storedAllocation (normalizeWeights as) else getAllocations q db)"
  using assms replaceAllocations_rows [of _ _ db db' q] by (auto simp: upsertAllocations_def writeAllocations_def split: option.splits)

lemma normalizeWeights_sum:
  "as \<noteq> [] \<Longrightarrow> sum_list (map pa_weight as) = 0 \<Longrightarrow> sum_list (map pa_weight (normalizeWeights as)) = 100"
  by (simp add: normalizeWeights_def comp_def sum_list_triv)

text \<open>
  C39. Allocations of a pool stay well-formed and reach the pools they should. Whatever operations ran, weights are
  between 0 and 100, policies are known, and a key has at most one allocation in a pool. A successful
  \<open>upsertAllocations\<close> gives the same allocations to every pool of the group and to no other pool, with equal shares of
  100 in place of weights that are all 0; a successful \<open>updatePool\<close>, which is what the route calls, changes the
  allocations of its own pool only, so the other pools of the group keep their old ones.
\<close>

theorem allocations_reach:
  assumes db: "db = fold poolOp ops emptyPools"
    and upsert: "upsertAllocations i as db = Inr db'"
    and update: "updatePool i stamp input db = Inr (Some p, db'')" and given: "pu_allocations input = Some bs"
  shows "poolInv db' \<and> poolInv db''
    \<and> getAllocations q db' = (if q \<in> set (poolIdsInGroup i db) then map storedAllocation (normalizeWeights as) else getAllocations q db)
    \<and> (as \<noteq> [] \<longrightarrow> sum_list (map pa_weight as) = 0 \<longrightarrow> sum_list (map pa_weight (normalizeWeights as)) = 100)
    \<and> getAllocations q db'' = (if q = i then map storedAllocation bs else getAllocations q db)"
proof (intro conjI impI)
  have inv: "poolInv db" unfolding db by (rule pool_run_inv [OF emptyPools_inv])
  show "poolInv db'" by (rule upsertAllocations_inv [OF inv upsert])
  show "poolInv db''" by (rule updatePool_inv [OF inv update])
  show "getAllocations q db' = (if q \<in> set (poolIdsInGroup i db) then map storedAllocation (normalizeWeights as) else getAllocations q db)"
    by (rule upsertAllocations_reach [OF upsert])
  show "sum_list (map pa_weight (normalizeWeights as)) = 100" if "as \<noteq> []" "sum_list (map pa_weight as) = 0"
    using normalizeWeights_sum that by blast
  show "getAllocations q db'' = (if q = i then map storedAllocation bs else getAllocations q db)"
    using updatePool_allocations [OF update, of q] given by simp
qed

definition hardAllocation :: "string \<Rightarrow> rat \<Rightarrow> pool_allocation" where
  "hardAllocation k w = \<lparr>pa_apiKeyId = k, pa_weight = w, pa_capValue = None, pa_capUnit = None, pa_policy = Hard\<rparr>"

definition exampleOps :: "pool_op list" where
  "exampleOps = [
     CreatePool ''p'' ''t1'' 1 \<lparr>pc_connectionId = ''c1'', pc_name = ''a'', pc_groupId = Some ''g'', pc_allocations = None, pc_connectionIds = None\<rparr>,
     CreatePool ''q'' ''t2'' 2 \<lparr>pc_connectionId = ''c2'', pc_name = ''b'', pc_groupId = Some ''g'', pc_allocations = None, pc_connectionIds = None\<rparr>]"

definition exampleUpdate :: pool_update where
  "exampleUpdate = \<lparr>pu_name = None, pu_groupId = None, pu_allocations = Some [hardAllocation ''k'' 100], pu_connectionIds = None\<rparr>"

lemma allocations_reach_witness:
  "\<exists>db' db'' p. upsertAllocations ''p'' [hardAllocation ''k'' 0] (fold poolOp exampleOps emptyPools) = Inr db'
     \<and> updatePool ''p'' 3 exampleUpdate (fold poolOp exampleOps emptyPools) = Inr (Some p, db'')
     \<and> getAllocations ''q'' db' = [hardAllocation ''k'' 100] \<and> getAllocations ''q'' db'' = []"
proof -
  have "\<not> isl (upsertAllocations ''p'' [hardAllocation ''k'' 0] (fold poolOp exampleOps emptyPools))" by code_simp
  then obtain db' where u: "upsertAllocations ''p'' [hardAllocation ''k'' 0] (fold poolOp exampleOps emptyPools) = Inr db'"
    by (auto simp: isl_def) (metis sum.exhaust)
  have "(case updatePool ''p'' 3 exampleUpdate (fold poolOp exampleOps emptyPools) of Inr (Some p, x) \<Rightarrow> True | _ \<Rightarrow> False)" by code_simp
  then obtain p db'' where v: "updatePool ''p'' 3 exampleUpdate (fold poolOp exampleOps emptyPools) = Inr (Some p, db'')"
    by (auto split: sum.splits option.splits)
  have g: "''q'' \<in> set (poolIdsInGroup ''p'' (fold poolOp exampleOps emptyPools))" by code_simp
  have n: "map storedAllocation (normalizeWeights [hardAllocation ''k'' 0]) = [hardAllocation ''k'' 100]" by code_simp
  have e: "getAllocations ''q'' (fold poolOp exampleOps emptyPools) = []" by code_simp
  have "pu_allocations exampleUpdate = Some [hardAllocation ''k'' 100]" by (simp add: exampleUpdate_def)
  from allocations_reach [OF refl u v this, of "''q''"] show ?thesis using u v g n e by auto
qed

end
