(* ===== verification/QuotaLaws.thy ===== *)
theory QuotaLaws
  imports QuotaEnforce QuotaPoolLaws
begin

text \<open>
  What the quota pools guarantee: consumption of a pool stays within its budget and one request, requests are counted
  exactly, a store that fails lets requests pass; and the catalogue plan whose dimensions share a counter.
\<close>

section \<open>Keys of dimensions\<close>

lemma split_first:
  "x \<notin> set w \<Longrightarrow> x \<notin> set w' \<Longrightarrow> w @ x # r = w' @ x # r' \<Longrightarrow> w = w' \<and> r = r'"
proof (induction w arbitrary: w')
  case Nil
  then show ?case by (cases w') auto
next
  case (Cons a w)
  then show ?case by (cases w') auto
qed

lemma split_final:
  assumes "x \<notin> set w" and "x \<notin> set w'" and "r @ x # w = r' @ x # w'"
  shows "r = r' \<and> w = w'"
proof -
  have "rev (r @ x # w) = rev (r' @ x # w')" using assms(3) by simp
  then show ?thesis using split_first [of x "rev w" "rev w'" "rev r" "rev r'"] assms(1,2) by simp
qed

lemma names_plain: "CHR '':'' \<notin> set (unitName u)" "CHR '':'' \<notin> set (windowName w)"
  by (cases u; simp add: unitName_def) (cases w; simp add: windowName_def)

lemma names_inj: "unitName u = unitName u' \<longleftrightarrow> u = u'" "windowName w = windowName w' \<longleftrightarrow> w = w'"
  by (cases u; cases u'; simp add: unitName_def) (cases w; cases w'; simp add: windowName_def)

lemma key_inj [simp]: "dimensionKeyToString k = dimensionKeyToString k' \<longleftrightarrow> k = k'"
proof
  assume "dimensionKeyToString k = dimensionKeyToString k'"
  then have e: "(qk_poolId k @ '':'' @ unitName (qk_unit k)) @ CHR '':'' # windowName (qk_window k)
    = (qk_poolId k' @ '':'' @ unitName (qk_unit k')) @ CHR '':'' # windowName (qk_window k')"
    by (simp add: dimensionKeyToString_def)
  have w: "qk_poolId k @ '':'' @ unitName (qk_unit k) = qk_poolId k' @ '':'' @ unitName (qk_unit k')
      \<and> windowName (qk_window k) = windowName (qk_window k')"
    by (rule split_final [OF names_plain(2) names_plain(2) e])
  then have e': "qk_poolId k @ CHR '':'' # unitName (qk_unit k) = qk_poolId k' @ CHR '':'' # unitName (qk_unit k')" by simp
  have "qk_poolId k = qk_poolId k' \<and> unitName (qk_unit k) = unitName (qk_unit k')"
    by (rule split_final [OF names_plain(1) names_plain(1) e'])
  then show "k = k'" using w by (simp add: names_inj)
qed simp

section \<open>Rows\<close>

lemma getBucket_increment:
  "getBucket k d b (incrementBucket k' d' b' c now t) = getBucket k d b t + (if k = k' \<and> d = d' \<and> b = b' then c else 0)"
  by (simp add: getBucket_def incrementBucket_def)

lemma bucketTotal_simps [simp]:
  "bucketTotal d b [] = 0"
  "bucketTotal d b (((k', d', b'), row) # t) = (if d' = d \<and> b' = b then bk_consumed row else 0) + bucketTotal d b t"
  by (simp_all add: bucketTotal_def)

lemma bucketTotal_jset:
  "bucketTotal d b (jset (k', d', b') row t)
   = bucketTotal d b t + (if d = d' \<and> b = b' then bk_consumed row - getBucket k' d' b' t else 0)"
proof (induction t)
  case Nil
  then show ?case by (simp add: getBucket_def)
next
  case (Cons p t)
  obtain k2 d2 b2 r2 where p: "p = ((k2, d2, b2), r2)" by (metis prod.collapse)
  show ?case
  proof (cases "(k2, d2, b2) = (k', d', b')")
    case True
    then show ?thesis by (auto simp: p getBucket_def jget_Cons)
  next
    case False
    then have "getBucket k' d' b' (p # t) = getBucket k' d' b' t" by (auto simp: p getBucket_def jget_Cons)
    then show ?thesis using False Cons by (auto simp: p)
  qed
qed

lemma bucketTotal_increment:
  "bucketTotal d b (incrementBucket k' d' b' c now t) = bucketTotal d b t + (if d = d' \<and> b = b' then c else 0)"
  by (simp add: incrementBucket_def bucketTotal_jset)

lemma bucketTotal_consume:
  "bucketTotal d b (snd (consume k key c now t))
   = bucketTotal d b t + (if d = dimensionKeyToString key \<and> b = now div windowMs (qk_window key) then c else 0)"
  by (simp add: consume_def Let_def bucketTotal_increment split: prod.split)

text \<open>What a record adds to the bucket of a key: the sum over the dimensions of the plan that have this key.\<close>

definition charge :: "(quota_key \<Rightarrow> bool) \<Rightarrow> request_cost \<Rightarrow> quota_key \<Rightarrow> rat" where
  "charge rejects cost key = (if 0 < costForUnit cost (qk_unit key) \<and> \<not> rejects key then costForUnit cost (qk_unit key) else 0)"

lemma charge_nonneg: "0 \<le> charge rejects cost key"
  by (simp add: charge_def)

lemma bucketTotal_consumeOn:
  "bucketTotal (dimensionKeyToString key) b (consumeOn rejects k now cost key' t)
   = bucketTotal (dimensionKeyToString key) b t
     + (if key' = key \<and> b = now div windowMs (qk_window key) then charge rejects cost key else 0)"
  by (auto simp: consumeOn_def bucketTotal_consume charge_def)

lemma bucketTotal_fold:
  "bucketTotal (dimensionKeyToString key) b (fold (\<lambda>d. consumeOn rejects k now cost (dimKeyOf p d)) dims t)
   = bucketTotal (dimensionKeyToString key) b t
     + (if b = now div windowMs (qk_window key)
        then of_nat (length (filter (\<lambda>d. dimKeyOf p d = key) dims)) * charge rejects cost key else 0)"
  by (induction dims arbitrary: t) (simp_all add: bucketTotal_consumeOn algebra_simps)

section \<open>The effective consumption decays\<close>

lemma windowMs_pos [simp]: "0 < windowMs w"
  by (cases w) (simp_all add: windowMs_def)

lemma weight_bounds:
  assumes "0 < (w::int)"
  shows "0 \<le> 1 - of_int (now - now div w * w) / (of_int w :: rat)" "1 - of_int (now - now div w * w) / (of_int w :: rat) \<le> 1"
proof -
  have m: "0 \<le> now - now div w * w" "now - now div w * w < w"
    using assms by (simp_all add: minus_div_mult_eq_mod)
  then have "(of_int (now - now div w * w) :: rat) \<le> of_int w" by (simp only: of_int_le_iff)
  then show "0 \<le> 1 - of_int (now - now div w * w) / (of_int w :: rat)" using assms by simp
  have "(0::rat) \<le> of_int (now - now div w * w)" using m by (simp only: of_int_0_le_iff)
  then show "1 - of_int (now - now div w * w) / (of_int w :: rat) \<le> 1" using assms by simp
qed

definition effectiveAt :: "(int \<Rightarrow> rat) \<Rightarrow> millis \<Rightarrow> millis \<Rightarrow> rat" where
  "effectiveAt f window now = slidingWindowEffective (f (now div window)) (f (now div window - 1)) now window"

lemma total_effective:
  "poolConsumedTotal key now t = effectiveAt (\<lambda>b. bucketTotal (dimensionKeyToString key) b t) (windowMs (qk_window key)) now"
  by (simp add: poolConsumedTotal_def sumPoolDimension_def effectiveAt_def Let_def)

lemma effective_above:
  assumes "0 < w" and "\<And>b. 0 \<le> f b"
  shows "f (now div w) \<le> effectiveAt f w now"
  using weight_bounds(1) [OF assms(1), of now] assms(2) [of "now div w - 1"]
  by (simp add: effectiveAt_def slidingWindowEffective_def)

lemma effective_decays:
  assumes w: "0 < w" and le: "now \<le> now'" and f: "\<And>b. 0 \<le> f b" "\<And>b. now div w < b \<Longrightarrow> f b = 0"
  shows "effectiveAt f w now' \<le> effectiveAt f w now"
proof -
  have "now div w \<le> now' div w" using w le by (rule zdiv_mono1 [rotated])
  then consider "now' div w = now div w" | "now' div w = now div w + 1" | "now div w + 1 < now' div w" by linarith
  then show ?thesis
  proof cases
    case 1
    have "(of_int (now - now div w * w) :: rat) \<le> of_int (now' - now div w * w)" using le by (simp only: of_int_le_iff)
    then have "1 - of_int (now' - now div w * w) / of_int w \<le> 1 - of_int (now - now div w * w) / (of_int w :: rat)"
      using w by (simp add: divide_right_mono)
    then have "f (now div w - 1) * (1 - of_int (now' - now div w * w) / of_int w)
      \<le> f (now div w - 1) * (1 - of_int (now - now div w * w) / of_int w)"
      using f(1) by (rule mult_left_mono)
    then show ?thesis unfolding effectiveAt_def slidingWindowEffective_def Let_def 1 by simp
  next
    case 2
    have "effectiveAt f w now' = f (now div w) * (1 - of_int (now' - now' div w * w) / of_int w)"
      unfolding effectiveAt_def slidingWindowEffective_def Let_def using f(2) [of "now div w + 1"] by (simp add: 2)
    also have "\<dots> \<le> f (now div w)"
      using mult_left_mono [OF weight_bounds(2) [OF w, of now'] f(1) [of "now div w"]] by simp
    also have "\<dots> \<le> effectiveAt f w now" by (rule effective_above [where f = f, OF w f(1)])
    finally show ?thesis .
  next
    case 3
    then have "effectiveAt f w now' = 0"
      using f(2) [of "now' div w"] f(2) [of "now' div w - 1"] by (simp add: effectiveAt_def slidingWindowEffective_def)
    then show ?thesis using effective_above [where f = f and now = now, OF w f(1)] f(1) [of "now div w"] by linarith
  qed
qed

section \<open>What an allowed request has seen\<close>

lemma fairKey_string [simp]: "dimensionKeyString (fairKey k) = dimensionKeyToString k"
  by (simp add: dimensionKeyString_def fairKey_def dimensionKeyToString_def)

lemma jget_fold_keys:
  assumes "\<And>d. d \<in> set ds \<Longrightarrow> K d = K x \<Longrightarrow> V d = V x"
  shows "jget (K x) (fold (\<lambda>d. jset (K d) (V d)) ds m) = (if K x \<in> K ` set ds then Some (V x) else jget (K x) m)"
  using assms by (induction ds arbitrary: m) auto

lemma consumedByKey_get:
  assumes "d \<in> set dims"
  shows "jget (dimensionKeyToString (dimKeyOf (qp_id pool) d)) (consumedByKey env input pool dims)
       = Some (nullish (qe_peek env (ei_apiKeyId input) (dimKeyOf (qp_id pool) d)) 0)"
  unfolding consumedByKey_def
  using assms jget_fold_keys [of dims "\<lambda>d. dimensionKeyToString (dimKeyOf (qp_id pool) d)" d
      "\<lambda>d. nullish (qe_peek env (ei_apiKeyId input) (dimKeyOf (qp_id pool) d)) 0" "[]"]
  by auto

definition planOf :: "quota_env \<Rightarrow> enforce_input \<Rightarrow> provider_plan" where
  "planOf env input = resolvePlan (qe_plan env (ei_connectionId input)) (ei_provider input)"

definition matchFor :: "quota_env \<Rightarrow> enforce_input \<Rightarrow> (string \<times> quota_pool \<times> pool_allocation) option" where
  "matchFor env input = (case qe_allocations env (ei_apiKeyId input) of
     None \<Rightarrow> None | Some allocations \<Rightarrow> matchPool env (ei_connectionId input) allocations)"

text \<open>The contract of the gate: it lets a request of a pool pass iff no cap and no dimension stands against it.\<close>

lemma enforce_iff:
  assumes "matchFor env input = Some (poolId, pool, a)"
  shows "(\<exists>b. enforceQuotaShare threshold env input = QuotaAllow b) \<longleftrightarrow>
    \<not> modelCapReached env input (qp_id pool)
    \<and> (\<forall>d \<in> set (activeDimensions (planOf env input)).
         passes (fairInput env input pool a (planOf env input) threshold) (dimensionInfo env input pool d))"
proof -
  obtain allocations where al: "qe_allocations env (ei_apiKeyId input) = Some allocations"
    and m: "matchPool env (ei_connectionId input) allocations = Some (poolId, pool, a)"
    using assms by (cases "qe_allocations env (ei_apiKeyId input)") (auto simp: matchFor_def)
  have ne: "allocations \<noteq> []" using m by auto
  have d: "set (fi_dimensions (fairInput env input pool a (planOf env input) threshold))
      = dimensionInfo env input pool ` set (activeDimensions (planOf env input))" by (simp add: fairInput_def)
  have b: "fx_kind x = Block \<longleftrightarrow> fx_kind x \<noteq> Allow" for x using kind_not_allow by blast
  have none: "pp_dimensions (planOf env input) = [] \<Longrightarrow> activeDimensions (planOf env input) = []" by (simp add: activeDimensions_def)
  show ?thesis using al ne m none
    by (auto simp: enforceQuotaShare_def Let_def b allow_iff d planOf_def [symmetric])
qed

lemma allowed_budget:
  assumes "matchFor env input = Some (poolId, pool, a)" and "enforceQuotaShare threshold env input = QuotaAllow b"
    and "d \<in> set (activeDimensions (planOf env input))" and "countable (qd_unit d)"
  shows "nullish (qe_total env (dimKeyOf (qp_id pool) d)) 0 < qd_limit d * of_nat (accountCount pool)"
  using assms enforce_iff [OF assms(1), of threshold] by (auto simp: passes_def dimensionInfo_def Let_def)

section \<open>Requests through the gate\<close>

record quota_request =
  qr_apiKeyId :: string
  qr_connectionId :: string
  qr_provider :: string
  qr_model :: "string option"
  qr_cost :: request_cost
  qr_time :: millis

record quota_world =
  qw_pools :: pool_db
  qw_plans :: "plan_row list"
  qw_saturation :: "string \<Rightarrow> string \<Rightarrow> quota_dimension \<Rightarrow> rat"
  qw_threshold :: rat
  qw_rejects :: "quota_key \<Rightarrow> bool"

definition requestInput :: "quota_request \<Rightarrow> enforce_input" where
  "requestInput r = \<lparr>ei_apiKeyId = qr_apiKeyId r, ei_connectionId = qr_connectionId r, ei_provider = qr_provider r,
     ei_model = qr_model r\<rparr>"

definition recordInput :: "quota_request \<Rightarrow> record_input" where
  "recordInput r = \<lparr>ri_apiKeyId = qr_apiKeyId r, ri_connectionId = qr_connectionId r, ri_provider = qr_provider r,
     ri_model = qr_model r, ri_cost = qr_cost r\<rparr>"

definition worldEnv :: "quota_world \<Rightarrow> millis \<Rightarrow> quota_table \<Rightarrow> quota_env" where
  "worldEnv w now t = healthyEnv (qw_pools w) (qw_plans w) t (qw_saturation w) now"

text \<open>A request that is served before the next one arrives: the gate, then the record of its cost.\<close>

definition serveQuota :: "quota_world \<Rightarrow> quota_request \<Rightarrow> quota_table \<Rightarrow> quota_table" where
  "serveQuota w r t =
     (case enforceQuotaShare (qw_threshold w) (worldEnv w (qr_time r) t) (requestInput r) of
        QuotaAllow _ \<Rightarrow> recordConsumption (worldEnv w (qr_time r) t) (qw_rejects w) (recordInput r) (qr_time r) t
      | QuotaBlock _ _ \<Rightarrow> t)"

definition poolFor :: "quota_world \<Rightarrow> quota_request \<Rightarrow> (string \<times> quota_pool \<times> pool_allocation) option" where
  "poolFor w r = matchFor (worldEnv w 0 []) (requestInput r)"

definition planFor :: "quota_world \<Rightarrow> quota_request \<Rightarrow> provider_plan" where
  "planFor w r = resolvePlan (Some (getPlan (qr_connectionId r) (qw_plans w))) (qr_provider r)"

lemma matchPool_cong: "qe_pool env = qe_pool env' \<Longrightarrow> matchPool env c as = matchPool env' c as"
  by (induction env c as rule: matchPool.induct) (auto split: option.split)

lemma world_match [simp]: "matchFor (worldEnv w now t) (requestInput r) = poolFor w r"
  by (simp add: poolFor_def matchFor_def worldEnv_def healthyEnv_def) (rule matchPool_cong, simp)

lemma world_plan [simp]: "planOf (worldEnv w now t) (requestInput r) = planFor w r"
  by (simp add: planOf_def planFor_def worldEnv_def healthyEnv_def requestInput_def)

lemma world_total: "qe_total (worldEnv w now t) key = Some (poolConsumedTotal key now t)"
  by (simp add: worldEnv_def healthyEnv_def)

lemma matchPool_id:
  "matchPool (worldEnv w now t) c as = Some (i, p, a) \<Longrightarrow> getPool i (qw_pools w) = Some p \<and> qp_id p = i"
proof (induction as)
  case Nil
  then show ?case by simp
next
  case (Cons x as)
  have "qp_id q = j" if "getPool j (qw_pools w) = Some q" for j q
    using that by (auto simp: getPool_def batchBuildPools_def dest: findPool_id split: option.splits)
  then show ?case using Cons by (cases x) (auto simp: worldEnv_def healthyEnv_def split: option.splits if_splits)
qed

lemma poolFor_id: "poolFor w r = Some (i, p, a) \<Longrightarrow> getPool i (qw_pools w) = Some p \<and> qp_id p = i"
  using matchPool_id [of w 0 "[]" "qr_connectionId r" _ i p a]
  by (auto simp: poolFor_def matchFor_def requestInput_def split: option.splits)

text \<open>The record of a request, by the pool it belongs to.\<close>

definition capKey :: "quota_world \<Rightarrow> quota_request \<Rightarrow> string \<Rightarrow> quota_key option" where
  "capKey w r poolId = (case truthyModel (qr_model r) of
     None \<Rightarrow> None
   | Some model \<Rightarrow> map_option (\<lambda>cap. modelKey poolId model (mc_capUnit cap))
       (realCap (Some (getModelCap poolId (qr_apiKeyId r) model (qw_pools w)))))"

lemma record_unfold:
  "recordConsumption (worldEnv w now t) rejects (recordInput r) now t =
     (case poolFor w r of
        None \<Rightarrow> t
      | Some (poolId, pool, a) \<Rightarrow>
          (let t1 = fold (\<lambda>d. consumeOn rejects (qr_apiKeyId r) now (qr_cost r) (dimKeyOf poolId d)) (pp_dimensions (planFor w r)) t
           in case capKey w r poolId of None \<Rightarrow> t1 | Some key \<Rightarrow> consumeOn rejects (qr_apiKeyId r) now (qr_cost r) key t1))"
proof -
  have m: "(case qe_allocations (worldEnv w now t) (qr_apiKeyId r) of
      None \<Rightarrow> None | Some as \<Rightarrow> matchPool (worldEnv w now t) (qr_connectionId r) as) = poolFor w r"
    using world_match [of w now t r] by (simp add: matchFor_def requestInput_def cong: option.case_cong)
  show ?thesis
    unfolding recordConsumption_def
    using m world_plan [of w now t r]
    by (auto simp: recordInput_def planOf_def requestInput_def capKey_def worldEnv_def healthyEnv_def Let_def
        split: option.splits)
qed

section \<open>The budget of a pool\<close>

lemma modelKey_other:
  assumes "CHR '':'' \<notin> set poolId"
  shows "modelKey i model u \<noteq> dimKeyOf poolId d"
proof
  assume "modelKey i model u = dimKeyOf poolId d"
  then have "poolId = i @ '':model:'' @ model" by (simp add: modelKey_def dimKeyOf_def)
  then show False using assms by auto
qed

lemma filter_unique:
  assumes "distinct (map g xs)" and "x \<in> set xs"
  shows "length (filter (\<lambda>y. g y = g x) xs) = 1"
  using assms
proof (induction xs)
  case Nil
  then show ?case by simp
next
  case (Cons y ys)
  have "g y \<notin> g ` set ys" using Cons.prems(1) by simp
  then have "filter (\<lambda>z. g z = g y) ys = []" by (auto simp: filter_empty_conv rev_image_eqI)
  then show ?case using Cons by auto
qed

text \<open>A record adds its cost once to the current bucket of each dimension of its pool, and nothing to other pools.\<close>

lemma record_adds:
  assumes plain: "CHR '':'' \<notin> set poolId" and d: "d \<in> set (pp_dimensions plan)"
    and dist: "distinct (map (\<lambda>d. (qd_unit d, qd_window d)) (pp_dimensions plan))"
    and plan: "\<And>pool a. poolFor w r = Some (poolId, pool, a) \<Longrightarrow> planFor w r = plan"
  shows "bucketTotal (dimensionKeyToString (dimKeyOf poolId d)) b (recordConsumption (worldEnv w now t) rejects (recordInput r) now t)
       = bucketTotal (dimensionKeyToString (dimKeyOf poolId d)) b t
         + (if (\<exists>pool a. poolFor w r = Some (poolId, pool, a)) \<and> b = now div windowMs (qd_window d)
            then charge rejects (qr_cost r) (dimKeyOf poolId d) else 0)"
proof (cases "poolFor w r")
  case None
  then show ?thesis by (simp add: record_unfold)
next
  case (Some m)
  obtain i pool a where m: "m = (i, pool, a)" by (rule prod_cases3)
  have cap: "capKey w r i = Some key' \<Longrightarrow> key' \<noteq> dimKeyOf poolId d" for key'
    using modelKey_other [OF plain] by (auto simp: capKey_def split: option.splits)
  have n: "(if i = poolId then 1 else 0) = length (filter (\<lambda>e. dimKeyOf i e = dimKeyOf poolId d) (pp_dimensions (planFor w r)))"
  proof (cases "i = poolId")
    case True
    then have "planFor w r = plan" using plan Some m by simp
    then show ?thesis using filter_unique [OF dist d] True by (simp add: dimKeyOf_def)
  next
    case False
    then show ?thesis by (simp add: dimKeyOf_def)
  qed
  have w: "windowMs (qk_window (dimKeyOf poolId d)) = windowMs (qd_window d)" by (simp add: dimKeyOf_def)
  show ?thesis
    using cap n [symmetric] by (cases "capKey w r i") (auto simp: record_unfold Some m Let_def bucketTotal_consumeOn bucketTotal_fold w)
qed

definition budgetInv :: "string \<Rightarrow> millis \<Rightarrow> rat \<Rightarrow> millis \<Rightarrow> quota_table \<Rightarrow> bool" where
  "budgetInv dimKey window bound now t \<longleftrightarrow>
     (\<forall>b. 0 \<le> bucketTotal dimKey b t \<and> bucketTotal dimKey b t \<le> bound)
     \<and> (\<forall>b > now div window. bucketTotal dimKey b t = 0)
     \<and> effectiveAt (\<lambda>b. bucketTotal dimKey b t) window now \<le> bound"

lemma budget_later:
  assumes inv: "budgetInv k window bound now t" and "0 < window" and "now \<le> now'"
  shows "budgetInv k window bound now' t"
proof -
  have "now div window \<le> now' div window" using assms by (intro zdiv_mono1)
  then show ?thesis
    using inv effective_decays [OF assms(2,3), of "\<lambda>b. bucketTotal k b t"] by (auto simp: budgetInv_def)
qed

lemma budget_added:
  assumes inv: "budgetInv k window bound now t" and w: "0 < window"
    and adds: "\<And>b. bucketTotal k b t' = bucketTotal k b t + (if b = now div window then c else 0)" and c: "0 \<le> c"
    and room: "effectiveAt (\<lambda>b. bucketTotal k b t) window now + c \<le> bound"
  shows "budgetInv k window bound now t'"
proof -
  have e: "effectiveAt (\<lambda>b. bucketTotal k b t') window now = effectiveAt (\<lambda>b. bucketTotal k b t) window now + c"
    by (simp add: effectiveAt_def slidingWindowEffective_def adds)
  have "bucketTotal k (now div window) t \<le> effectiveAt (\<lambda>b. bucketTotal k b t) window now"
    using inv by (intro effective_above [where f = "\<lambda>b. bucketTotal k b t"] w) (simp add: budgetInv_def)
  then show ?thesis using inv room c e by (auto simp: budgetInv_def adds)
qed

lemma serve_budget:
  assumes inv: "budgetInv (dimensionKeyToString (dimKeyOf poolId d)) (windowMs (qd_window d)) (qd_limit d * of_nat (accountCount pool) + c) (qr_time r) t"
    and pool: "getPool poolId (qw_pools w) = Some pool" and plain: "CHR '':'' \<notin> set poolId"
    and d: "d \<in> set (activeDimensions plan)" "countable (qd_unit d)"
    and dist: "distinct (map (\<lambda>d. (qd_unit d, qd_window d)) (pp_dimensions plan))"
    and plan: "\<And>pool a. poolFor w r = Some (poolId, pool, a) \<Longrightarrow> planFor w r = plan"
    and cost: "costForUnit (qr_cost r) (qd_unit d) \<le> c" "0 \<le> c"
  shows "budgetInv (dimensionKeyToString (dimKeyOf poolId d)) (windowMs (qd_window d)) (qd_limit d * of_nat (accountCount pool) + c) (qr_time r)
           (serveQuota w r t)"
proof (cases "enforceQuotaShare (qw_threshold w) (worldEnv w (qr_time r) t) (requestInput r)")
  case (QuotaBlock x y)
  then show ?thesis using inv by (simp add: serveQuota_def)
next
  case (QuotaAllow b)
  let ?k = "dimensionKeyToString (dimKeyOf poolId d)" and ?ch = "charge (qw_rejects w) (qr_cost r) (dimKeyOf poolId d)"
  define p where "p \<longleftrightarrow> (\<exists>pool a. poolFor w r = Some (poolId, pool, a))"
  have d': "d \<in> set (pp_dimensions plan)" using d(1) by (simp add: activeDimensions_def)
  have adds: "bucketTotal ?k b (serveQuota w r t)
      = bucketTotal ?k b t + (if b = qr_time r div windowMs (qd_window d) then (if p then ?ch else 0) else 0)" for b
    using record_adds [where b = b and now = "qr_time r" and t = t, OF plain d' dist plan] QuotaAllow by (simp add: serveQuota_def p_def)
  have room: "effectiveAt (\<lambda>b. bucketTotal ?k b t) (windowMs (qd_window d)) (qr_time r) + (if p then ?ch else 0)
      \<le> qd_limit d * of_nat (accountCount pool) + c"
  proof (cases p)
    case True
    then obtain pool' a where m: "poolFor w r = Some (poolId, pool', a)" by (auto simp: p_def)
    have id: "pool' = pool" "qp_id pool = poolId" using poolFor_id [OF m] pool by auto
    have "poolConsumedTotal (dimKeyOf poolId d) (qr_time r) t < qd_limit d * of_nat (accountCount pool)"
      using allowed_budget [OF _ QuotaAllow, of poolId pool' a d] m plan [OF m] d id by (simp add: world_total nullish_def)
    moreover have "?ch \<le> c" using cost by (simp add: charge_def dimKeyOf_def)
    ultimately show ?thesis using True by (simp add: total_effective dimKeyOf_def)
  next
    case False
    then show ?thesis using inv by (simp add: budgetInv_def)
  qed
  have "0 \<le> (if p then ?ch else 0)" by (simp add: charge_nonneg)
  from budget_added [OF inv windowMs_pos adds this room] show ?thesis .
qed

lemma run_budget:
  assumes pool: "getPool poolId (qw_pools w) = Some pool" and plain: "CHR '':'' \<notin> set poolId"
    and d: "d \<in> set (activeDimensions plan)" "countable (qd_unit d)"
    and dist: "distinct (map (\<lambda>d. (qd_unit d, qd_window d)) (pp_dimensions plan))" and c: "0 \<le> c"
  shows "sorted (map qr_time rs) \<Longrightarrow> \<forall>r \<in> set rs. start \<le> qr_time r \<and> qr_time r \<le> now \<Longrightarrow> start \<le> now \<Longrightarrow>
    \<forall>r \<in> set rs. costForUnit (qr_cost r) (qd_unit d) \<le> c
       \<and> (\<forall>pool a. poolFor w r = Some (poolId, pool, a) \<longrightarrow> planFor w r = plan) \<Longrightarrow>
    budgetInv (dimensionKeyToString (dimKeyOf poolId d)) (windowMs (qd_window d)) (qd_limit d * of_nat (accountCount pool) + c) start t \<Longrightarrow>
    budgetInv (dimensionKeyToString (dimKeyOf poolId d)) (windowMs (qd_window d)) (qd_limit d * of_nat (accountCount pool) + c) now
      (fold (serveQuota w) rs t)"
proof (induction rs arbitrary: start t)
  case Nil
  then show ?case using budget_later [OF _ windowMs_pos] by simp
next
  case (Cons r rs)
  have inv: "budgetInv (dimensionKeyToString (dimKeyOf poolId d)) (windowMs (qd_window d))
      (qd_limit d * of_nat (accountCount pool) + c) (qr_time r) t"
    using budget_later [OF Cons.prems(5) windowMs_pos] Cons.prems(2) by simp
  have plan: "\<And>pool a. poolFor w r = Some (poolId, pool, a) \<Longrightarrow> planFor w r = plan" using Cons.prems(4) by simp
  have cost: "costForUnit (qr_cost r) (qd_unit d) \<le> c" using Cons.prems(4) by simp
  have "budgetInv (dimensionKeyToString (dimKeyOf poolId d)) (windowMs (qd_window d))
      (qd_limit d * of_nat (accountCount pool) + c) (qr_time r) (serveQuota w r t)"
    by (rule serve_budget [OF inv pool plain d dist plan cost c])
  then show ?case using Cons.IH [of "qr_time r" "serveQuota w r t"] Cons.prems by simp
qed

lemma empty_budget: "0 \<le> bound \<Longrightarrow> budgetInv k window bound now []"
  by (simp add: budgetInv_def effectiveAt_def slidingWindowEffective_def)

text \<open>
  C5. A pool stays within its budget and one request. A pool with \<open>n\<close> connections has a plan with a limit \<open>L\<close> of
  requests, tokens or dollars in some window; the plan stays the same and has at most one limit for a unit and a window;
  the reads of the store succeed; and every request of any key passes the gate before it is served and is recorded before
  the next one. Then at every later time the
  effective consumption of the pool is at most \<open>n\<close> times \<open>L\<close> plus the cost of one request, whatever shares, caps and
  policies its keys have; and so is the consumption recorded in any single window.
\<close>

theorem quota_pool_bounded:
  assumes pool: "getPool poolId (qw_pools w) = Some pool" and plain: "CHR '':'' \<notin> set poolId"
    and d: "d \<in> set (activeDimensions plan)" "countable (qd_unit d)"
    and dist: "distinct (map (\<lambda>d. (qd_unit d, qd_window d)) (pp_dimensions plan))"
    and times: "sorted (map qr_time rs)" "\<forall>r \<in> set rs. qr_time r \<le> now"
    and plan: "\<forall>r \<in> set rs. \<forall>pool a. poolFor w r = Some (poolId, pool, a) \<longrightarrow> planFor w r = plan"
    and cost: "\<forall>r \<in> set rs. costForUnit (qr_cost r) (qd_unit d) \<le> c" "0 \<le> c"
    and t: "t = fold (serveQuota w) rs []"
  shows "poolConsumedTotal (dimKeyOf poolId d) now t \<le> qd_limit d * of_nat (accountCount pool) + c
    \<and> (\<forall>b. bucketTotal (dimensionKeyToString (dimKeyOf poolId d)) b t \<le> qd_limit d * of_nat (accountCount pool) + c)"
proof -
  define start where "start = (if rs = [] then now else qr_time (hd rs))"
  have s: "\<forall>r \<in> set rs. start \<le> qr_time r \<and> qr_time r \<le> now" "start \<le> now"
    using times by (cases rs; auto simp: start_def)+
  have "EPSILON < qd_limit d" using d(1) by (simp add: activeDimensions_def)
  then have "0 \<le> qd_limit d * of_nat (accountCount pool) + c" using cost(2) by (simp add: EPSILON_def)
  from run_budget [OF pool plain d dist cost(2) times(1) s _ empty_budget [OF this]] plan cost(1)
  have "budgetInv (dimensionKeyToString (dimKeyOf poolId d)) (windowMs (qd_window d)) (qd_limit d * of_nat (accountCount pool) + c) now t"
    by (simp add: t)
  then show ?thesis by (simp add: budgetInv_def total_effective dimKeyOf_def)
qed

definition kimiWorld :: quota_world where
  "kimiWorld = \<lparr>
     qw_pools = poolOp (UpsertAllocations ''p'' [hardAllocation ''k'' 100])
       (poolOp (CreatePool ''p'' ''t1'' 1 \<lparr>pc_connectionId = ''c'', pc_name = ''a'', pc_groupId = None, pc_allocations = None,
          pc_connectionIds = None\<rparr>) emptyPools),
     qw_plans = [], qw_saturation = (\<lambda>c p d. 0), qw_threshold = 1 / 2, qw_rejects = (\<lambda>k. False)\<rparr>"

definition poolRequest :: "string \<Rightarrow> rat \<Rightarrow> millis \<Rightarrow> quota_request" where
  "poolRequest provider usd now = \<lparr>qr_apiKeyId = ''k'', qr_connectionId = ''c'', qr_provider = provider, qr_model = None,
     qr_cost = \<lparr>rc_tokens = None, rc_usd = Some usd, rc_requests = Some 1\<rparr>, qr_time = now\<rparr>"

lemma kimiWorld_pool:
  "getPool ''p'' (qw_pools kimiWorld) = Some \<lparr>qp_id = ''p'', qp_connectionId = ''c'', qp_connectionIds = [''c''], qp_name = ''a'',
     qp_groupId = ''group-demo'', qp_createdAt = ''t1'', qp_allocations = [hardAllocation ''k'' 100]\<rparr>"
  by code_simp

lemma quota_pool_bounded_witness:
  "poolConsumedTotal (dimKeyOf ''p'' (simpleDimension UnitRequests WindowHourly 1500)) 9
     (fold (serveQuota kimiWorld) [poolRequest ''kimi'' 0 5, poolRequest ''kimi'' 0 7] []) \<le> 1501"
proof -
  have plan: "planFor kimiWorld (poolRequest ''kimi'' 0 n)
      = \<lparr>pp_connectionId = None, pp_provider = ''kimi'', pp_dimensions = [simpleDimension UnitRequests WindowHourly 1500],
         pp_source = AutoPlan\<rparr>" for n
    by (simp add: planFor_def poolRequest_def kimiWorld_def getPlan_def resolvePlan_def getKnownPlan_def KNOWN_PLANS_def plainPlan_def)
  have "simpleDimension UnitRequests WindowHourly 1500 \<in> set (activeDimensions (planFor kimiWorld (poolRequest ''kimi'' 0 5)))"
    by (simp add: plan activeDimensions_def simpleDimension_def EPSILON_def)
  from quota_pool_bounded [OF kimiWorld_pool _ this, of "[poolRequest ''kimi'' 0 5, poolRequest ''kimi'' 0 7]" 9 1]
  show ?thesis
    by (simp add: plan simpleDimension_def countable_def accountCount_def)
      (simp add: poolRequest_def costForUnit_def nullish_def)
qed

section \<open>Limits that share a counter\<close>

text \<open>
  C32. The catalogue plan of \<open>opencode-go\<close> has an account limit of 240 dollars a month and six monthly limits of single
  models. A dimension of a pool is named by unit and window only, so all seven share one counter: a request of any model
  that costs \<open>x\<close> dollars is recorded as \<open>7 x\<close>, and a pool with one connection whose counter has reached the smallest
  of the model limits, which 60 / 7 dollars are enough for, refuses every request of every key and model.
\<close>

theorem model_limits_share_a_counter:
  assumes r: "poolFor w r = Some (poolId, pool, a)" "qr_provider r = ''opencode-go''"
    and r2: "poolFor w r2 = Some (poolId, pool, a2)" "qr_provider r2 = ''opencode-go''"
    and plans: "getPlan (qr_connectionId r) (qw_plans w) = None" "getPlan (qr_connectionId r2) (qw_plans w) = None"
    and plain: "CHR '':'' \<notin> set poolId" and rejects: "qw_rejects w = (\<lambda>k. False)"
    and x: "rc_usd (qr_cost r) = Some x" "0 < x" and one: "length (qp_connectionIds pool) = 1"
    and key: "key = \<lparr>qk_poolId = poolId, qk_unit = UnitUsd, qk_window = WindowMonthly\<rparr>"
    and t: "\<forall>b. 0 \<le> bucketTotal (dimensionKeyToString key) b t"
    and t': "t' = recordConsumption (worldEnv w now t) (qw_rejects w) (recordInput r) now t"
  shows "bucketTotal (dimensionKeyToString key) (now div windowMs WindowMonthly) t'
         = bucketTotal (dimensionKeyToString key) (now div windowMs WindowMonthly) t + 7 * x
    \<and> (60 / 7 \<le> x \<longrightarrow> (\<exists>code msg. enforceQuotaShare (qw_threshold w) (worldEnv w now t') (requestInput r2) = QuotaBlock code msg))"
proof -
  have plan: "pp_dimensions (planFor w r) = opencodeGoDimensions" "pp_dimensions (planFor w r2) = opencodeGoDimensions"
    using r(2) r2(2) plans by (simp_all add: planFor_def resolvePlan_def getKnownPlan_def KNOWN_PLANS_def)
  have n: "length (filter (\<lambda>d. dimKeyOf poolId d = key) opencodeGoDimensions) = 7"
    by (simp add: opencodeGoDimensions_def OPENCODE_GO_MODEL_POOLS_def dimKeyOf_def key)
  have ch: "charge (\<lambda>k. False) (qr_cost r) key = x" using x by (simp add: charge_def key costForUnit_def nullish_def)
  have w: "qk_window key = WindowMonthly" by (simp add: key)
  have k: "key = dimKeyOf poolId (simpleDimension UnitUsd WindowMonthly 60)" by (simp add: key dimKeyOf_def simpleDimension_def)
  have cap: "capKey w r poolId = Some key' \<Longrightarrow> key' \<noteq> key" for key'
    unfolding k using modelKey_other [OF plain] by (auto simp: capKey_def split: option.splits)
  have total: "bucketTotal (dimensionKeyToString key) b t'
      = bucketTotal (dimensionKeyToString key) b t + (if b = now div windowMs WindowMonthly then 7 * x else 0)" for b
    using cap by (cases "capKey w r poolId")
      (auto simp: t' record_unfold r Let_def rejects plan bucketTotal_consumeOn bucketTotal_fold n ch w)
  have "\<exists>code msg. enforceQuotaShare (qw_threshold w) (worldEnv w now t') (requestInput r2) = QuotaBlock code msg" if "60 / 7 \<le> x"
  proof (cases "enforceQuotaShare (qw_threshold w) (worldEnv w now t') (requestInput r2)")
    case (QuotaAllow b)
    define d where "d = opencodeGoDimensions ! 8"
    have d': "d = \<lparr>qd_unit = UnitUsd, qd_window = WindowMonthly, qd_limit = 60, qd_scope = Some ScopeOneModel,
        qd_model = Some ''kimi-k3'', qd_period = Some (Billing OPENCODE_GO_BILLING_ANCHOR)\<rparr>"
      by (simp add: d_def opencodeGoDimensions_def OPENCODE_GO_MODEL_POOLS_def)
    have "d \<in> set opencodeGoDimensions" unfolding d_def by (rule nth_mem) (simp add: opencodeGoDimensions_def OPENCODE_GO_MODEL_POOLS_def)
    then have d: "d \<in> set (activeDimensions (planFor w r2))" by (simp add: activeDimensions_def plan d' EPSILON_def)
    have "dimKeyOf (qp_id pool) d = key" using poolFor_id [OF r2(1)] by (simp add: dimKeyOf_def d' key)
    moreover have "accountCount pool = 1" using one by (auto simp: accountCount_def)
    ultimately have "poolConsumedTotal key now t' < 60"
      using allowed_budget [OF _ QuotaAllow, of poolId pool a2 d] r2(1) d
      by (auto simp: world_total nullish_def countable_def d')
    moreover have "7 * x \<le> poolConsumedTotal key now t'"
    proof -
      have "bucketTotal (dimensionKeyToString key) (now div windowMs WindowMonthly) t'
          \<le> effectiveAt (\<lambda>b. bucketTotal (dimensionKeyToString key) b t') (windowMs WindowMonthly) now"
        using t x by (intro effective_above [where f = "\<lambda>b. bucketTotal (dimensionKeyToString key) b t'"]) (simp_all add: total)
      moreover have "7 * x \<le> bucketTotal (dimensionKeyToString key) (now div windowMs WindowMonthly) t'" using t by (simp add: total)
      ultimately show ?thesis by (simp add: total_effective w)
    qed
    ultimately show ?thesis using that by simp
  qed simp
  then show ?thesis by (simp add: total)
qed

lemma model_limits_share_a_counter_witness:
  "bucketTotal ''p:usd:monthly'' 0 (recordConsumption (worldEnv kimiWorld 5 []) (qw_rejects kimiWorld)
     (recordInput (poolRequest ''opencode-go'' 9 5)) 5 []) = 63"
proof -
  have "poolFor kimiWorld (poolRequest ''opencode-go'' 9 5) = Some (''p'', the (getPool ''p'' (qw_pools kimiWorld)), hardAllocation ''k'' 100)"
    by code_simp
  from model_limits_share_a_counter [OF this _ this, where key = "\<lparr>qk_poolId = ''p'', qk_unit = UnitUsd, qk_window = WindowMonthly\<rparr>"
      and x = 9 and t = "[]" and now = 5, OF _ _ _ _ _ _ _ _ _ refl _ refl]
  show ?thesis
    by (simp add: kimiWorld_pool) (simp add: kimiWorld_def poolRequest_def getPlan_def dimensionKeyToString_def unitName_def
        windowName_def windowMs_def)
qed

section \<open>Failing reads\<close>

text \<open>
  When the quota store and the saturation signals fail, the gate lets every request pass: with no consumption known,
  neither a cap, nor the budget of the pool, nor the share of the key stands against it; and when the allocations of the
  key cannot be read it passes without a penalty.
\<close>

theorem store_failure_allows:
  assumes fails: "\<forall>k d. qe_peek env k d = None" "\<forall>d. qe_total env d = None" "\<forall>c p d. qe_saturation env c p d = None"
    and threshold: "0 < threshold"
    and caps: "\<forall>allocations i a c. qe_allocations env (ei_apiKeyId input) = Some allocations \<longrightarrow> (i, a) \<in> set allocations
       \<longrightarrow> pa_capValue a = Some c \<longrightarrow> 0 < c"
  shows "(\<exists>b. enforceQuotaShare threshold env input = QuotaAllow b)
    \<and> (qe_allocations env (ei_apiKeyId input) = None \<longrightarrow> enforceQuotaShare threshold env input = QuotaAllow False)"
proof (cases "matchFor env input")
  case None
  then show ?thesis by (cases "qe_allocations env (ei_apiKeyId input)") (auto simp: enforceQuotaShare_def matchFor_def)
next
  case (Some m)
  obtain i pool a where m: "m = (i, pool, a)" by (rule prod_cases3)
  obtain as where as: "qe_allocations env (ei_apiKeyId input) = Some as" "matchPool env (ei_connectionId input) as = Some (i, pool, a)"
    using Some m by (auto simp: matchFor_def split: option.splits)
  have "(i, a) \<in> set as" using as(2) by (induction as) (auto split: option.splits if_splits)
  then have cap: "pa_capValue a = Some c \<Longrightarrow> 0 < c" for c using caps as(1) by blast
  have pos: "0 < accountCount pool" by (simp add: accountCount_def)
  have consumed: "consumedBy (fairInput env input pool a plan threshold) (dimensionInfo env input pool d) = 0"
    if "d \<in> set (activeDimensions plan)" for d plan
    using consumedByKey_get [OF that, of pool env input] fails(1)
    by (simp add: consumedBy_def fairInput_def dimensionInfo_def Let_def nullish_def)
  have "passes (fairInput env input pool a plan threshold) (dimensionInfo env input pool d)"
    if d: "d \<in> set (activeDimensions plan)" for d plan
  proof -
    have "EPSILON < qd_limit d" using d by (simp add: activeDimensions_def)
    then have l: "0 < qd_limit d * of_nat (accountCount pool)" using pos by (simp add: EPSILON_def)
    show ?thesis using l cap threshold fails consumed [OF d]
      by (auto simp: passes_def capReached_def dimensionInfo_def fairInput_def Let_def nullish_def)
  qed
  moreover have "\<not> modelCapReached env input (qp_id pool)"
    using fails(1) by (auto simp: modelCapReached_def nullish_def realCap_def EPSILON_def split: option.splits if_splits)
  ultimately show ?thesis using enforce_iff [of env input i pool a threshold] Some m as(1) by simp
qed

lemma store_failure_allows_witness:
  "\<exists>b. enforceQuotaShare (1 / 2) (healthyEnv (qw_pools kimiWorld) [] [] (\<lambda>c p d. 0) 5\<lparr>qe_peek := (\<lambda>k d. None),
     qe_total := (\<lambda>d. None), qe_saturation := (\<lambda>c p d. None)\<rparr>) (requestInput (poolRequest ''kimi'' 0 5)) = QuotaAllow b"
proof -
  have "listAllocationsForApiKey ''k'' (qw_pools kimiWorld) = [(''p'', hardAllocation ''k'' 100)]" by code_simp
  then show ?thesis
    by (intro conjunct1 [OF store_failure_allows]) (auto simp: healthyEnv_def requestInput_def poolRequest_def hardAllocation_def)
qed

end
