(* ===== verification/SessionManager.thy ===== *)
theory SessionManager
  imports Prelude
begin

text \<open>
  Sessions and the limit of sessions per API key: \<open>open-sse/services/sessionManager.ts\<close> and the gate of
  \<open>src/sse/handlers/chat.ts\<close>. The set of sessions of a key is a list without repetitions. The fingerprint of a body
  (\<open>generateSessionId\<close>) is an argument of the gate. A session is removed by the timer, which runs every minute, or by
  \<open>getSessionInfo\<close> when it finds it expired.
\<close>

section \<open>State\<close>

definition MAX_SESSIONS :: nat where "MAX_SESSIONS = 200"

definition SESSION_TTL_MS :: millis where "SESSION_TTL_MS = 15 * 60 * 1000"

record session =
  se_createdAt :: millis
  se_lastActive :: millis
  se_requestCount :: nat
  se_connectionId :: "string option"
  se_lastToolFinishAt :: "millis option"

record session_state =
  ss_sessions :: "(string, session) jmap"
  ss_byKey :: "(string, string list) jmap"

definition noSessions :: session_state where
  "noSessions = \<lparr>ss_sessions = [], ss_byKey = []\<rparr>"

definition sessionExpired :: "millis \<Rightarrow> session \<Rightarrow> bool" where
  "sessionExpired now e \<longleftrightarrow> SESSION_TTL_MS < now - se_lastActive e"

section \<open>The timer\<close>

text \<open>A session leaves the sets of all keys, and sets that become empty go.\<close>

definition forgetSession :: "string \<Rightarrow> (string, string list) jmap \<Rightarrow> (string, string list) jmap" where
  "forgetSession sid m = filter (\<lambda>p. snd p \<noteq> []) (map (\<lambda>(k, ids). (k, removeAll sid ids)) m)"

definition dropSession :: "string \<Rightarrow> session_state \<Rightarrow> session_state" where
  "dropSession sid s = s\<lparr>ss_sessions := jdel sid (ss_sessions s), ss_byKey := forgetSession sid (ss_byKey s)\<rparr>"

definition dropExpired :: "millis \<Rightarrow> session_state \<Rightarrow> session_state" where
  "dropExpired now s = fold dropSession (map fst (filter (\<lambda>p. sessionExpired now (snd p)) (ss_sessions s))) s"

text \<open>The first session with the least \<open>lastActive\<close>.\<close>

fun oldestSession :: "(string, session) jmap \<Rightarrow> (string \<times> millis) option \<Rightarrow> (string \<times> millis) option" where
  "oldestSession [] best = best"
| "oldestSession ((k, e) # m) best =
     oldestSession m (case best of
         None \<Rightarrow> Some (k, se_lastActive e)
       | Some (_, t) \<Rightarrow> if se_lastActive e < t then Some (k, se_lastActive e) else best)"

lemma oldestSession_in:
  "oldestSession m best = Some (k, t) \<Longrightarrow> k \<in> fst ` set m \<or> best = Some (k, t)"
  by (induction m best rule: oldestSession.induct) (auto split: option.splits if_splits prod.splits)

function enforceCap :: "session_state \<Rightarrow> session_state" where
  "enforceCap s =
     (if MAX_SESSIONS < jsize (ss_sessions s) then
        (case oldestSession (ss_sessions s) None of
           None \<Rightarrow> s
         | Some (k, _) \<Rightarrow> enforceCap (dropSession k s))
      else s)"
  by pat_completeness auto

termination
proof (relation "measure (\<lambda>s. jsize (ss_sessions s))", goal_cases)
  case 1
  then show ?case by simp
next
  case (2 s p k t)
  then have "k \<in> fst ` set (ss_sessions s)" using oldestSession_in [of "ss_sessions s" None k t] by auto
  then have "\<exists>q \<in> set (ss_sessions s). \<not> fst q \<noteq> k" by auto
  then have "length (jdel k (ss_sessions s)) < length (ss_sessions s)"
    unfolding jdel_def by (auto intro: length_filter_less)
  then show ?case by (simp add: dropSession_def jsize_def)
qed

declare enforceCap.simps [simp del]

definition sessionCleanup :: "millis \<Rightarrow> session_state \<Rightarrow> session_state" where
  "sessionCleanup now s = enforceCap (dropExpired now s)"

section \<open>Operations\<close>

definition nonEmpty :: "string option \<Rightarrow> bool" where
  "nonEmpty s = (case s of Some (c # cs) \<Rightarrow> True | _ \<Rightarrow> False)"

definition touchSession :: "string option \<Rightarrow> string option \<Rightarrow> millis \<Rightarrow> session_state \<Rightarrow> session_state" where
  "touchSession sessionId connectionId now s =
     (if \<not> nonEmpty sessionId then s
      else (let sid = the sessionId
            in case jget sid (ss_sessions s) of
                 Some e \<Rightarrow>
                   s\<lparr>ss_sessions := jset sid (e\<lparr>se_lastActive := now, se_requestCount := se_requestCount e + 1,
                       se_connectionId := (if nonEmpty connectionId then connectionId else se_connectionId e)\<rparr>) (ss_sessions s)\<rparr>
               | None \<Rightarrow>
                   s\<lparr>ss_sessions := jset sid \<lparr>se_createdAt = now, se_lastActive = now, se_requestCount = 1,
                       se_connectionId = connectionId, se_lastToolFinishAt = None\<rparr> (ss_sessions s)\<rparr>))"

definition markToolFinish :: "string option \<Rightarrow> millis \<Rightarrow> session_state \<Rightarrow> session_state" where
  "markToolFinish sessionId now s =
     (case (if nonEmpty sessionId then jget (the sessionId) (ss_sessions s) else None) of
        Some e \<Rightarrow> s\<lparr>ss_sessions := jset (the sessionId) (e\<lparr>se_lastToolFinishAt := Some now\<rparr>) (ss_sessions s)\<rparr>
      | None \<Rightarrow> s)"

text \<open>A time of 0 counts as absent.\<close>

definition consumeToolFinishTime :: "string option \<Rightarrow> session_state \<Rightarrow> millis option \<times> session_state" where
  "consumeToolFinishTime sessionId s =
     (case (if nonEmpty sessionId then jget (the sessionId) (ss_sessions s) else None) of
        Some e \<Rightarrow>
          if falsy_num (se_lastToolFinishAt e) then (None, s)
          else (se_lastToolFinishAt e,
                s\<lparr>ss_sessions := jset (the sessionId) (e\<lparr>se_lastToolFinishAt := None\<rparr>) (ss_sessions s)\<rparr>)
      | None \<Rightarrow> (None, s))"

definition getSessionInfo :: "string option \<Rightarrow> millis \<Rightarrow> session_state \<Rightarrow> session option \<times> session_state" where
  "getSessionInfo sessionId now s =
     (case (if nonEmpty sessionId then jget (the sessionId) (ss_sessions s) else None) of
        Some e \<Rightarrow>
          if sessionExpired now e then (None, s\<lparr>ss_sessions := jdel (the sessionId) (ss_sessions s)\<rparr>)
          else (Some e, s)
      | None \<Rightarrow> (None, s))"

definition getSessionConnection :: "string option \<Rightarrow> millis \<Rightarrow> session_state \<Rightarrow> string option \<times> session_state" where
  "getSessionConnection sessionId now s =
     (let (info, s') = getSessionInfo sessionId now s
      in (case info of Some e \<Rightarrow> if nonEmpty (se_connectionId e) then se_connectionId e else None | None \<Rightarrow> None, s'))"

definition getActiveSessionCount :: "session_state \<Rightarrow> nat" where
  "getActiveSessionCount s = jsize (ss_sessions s)"

definition getActiveSessions :: "millis \<Rightarrow> session_state \<Rightarrow> (string \<times> session \<times> millis) list" where
  "getActiveSessions now s =
     map (\<lambda>(sid, e). (sid, e, now - se_createdAt e)) (filter (\<lambda>p. \<not> sessionExpired now (snd p)) (ss_sessions s))"

section \<open>Sessions of a key\<close>

definition getActiveSessionCountForKey :: "string \<Rightarrow> session_state \<Rightarrow> nat" where
  "getActiveSessionCountForKey apiKeyId s = (case jget apiKeyId (ss_byKey s) of Some ids \<Rightarrow> length ids | None \<Rightarrow> 0)"

definition getAllActiveSessionCountsByKey :: "session_state \<Rightarrow> (string \<times> nat) list" where
  "getAllActiveSessionCountsByKey s = map (\<lambda>(k, ids). (k, length ids)) (ss_byKey s)"

definition registerKeySession :: "string \<Rightarrow> string \<Rightarrow> session_state \<Rightarrow> session_state" where
  "registerKeySession apiKeyId sid s =
     (let ids = nullish (jget apiKeyId (ss_byKey s)) []
      in s\<lparr>ss_byKey := jset apiKeyId (if sid \<in> set ids then ids else ids @ [sid]) (ss_byKey s)\<rparr>)"

definition isSessionRegisteredForKey :: "string \<Rightarrow> string \<Rightarrow> session_state \<Rightarrow> bool" where
  "isSessionRegisteredForKey apiKeyId sid s = (case jget apiKeyId (ss_byKey s) of Some ids \<Rightarrow> sid \<in> set ids | None \<Rightarrow> False)"

definition unregisterKeySession :: "string \<Rightarrow> string \<Rightarrow> session_state \<Rightarrow> session_state" where
  "unregisterKeySession apiKeyId sid s =
     (case jget apiKeyId (ss_byKey s) of
        None \<Rightarrow> s
      | Some ids \<Rightarrow>
          if removeAll sid ids = [] then s\<lparr>ss_byKey := jdel apiKeyId (ss_byKey s)\<rparr>
          else s\<lparr>ss_byKey := jset apiKeyId (removeAll sid ids) (ss_byKey s)\<rparr>)"

record limit_violation =
  lv_limit :: int
  lv_current :: nat

definition checkSessionLimit :: "string \<Rightarrow> int \<Rightarrow> session_state \<Rightarrow> limit_violation option" where
  "checkSessionLimit apiKeyId maxSessions s =
     (if maxSessions \<le> 0 then None
      else (let cur = getActiveSessionCountForKey apiKeyId s
            in if int cur < maxSessions then None else Some \<lparr>lv_limit = maxSessions, lv_current = cur\<rparr>))"

text \<open>The session a client names in a header; \<open>headers\<close> gives the value of a header.\<close>

definition extractExternalSessionId :: "(string \<Rightarrow> string option) \<Rightarrow> string option" where
  "extractExternalSessionId headers =
     (let raw = (case headers ''x-session-id'' of Some v \<Rightarrow> Some v | None \<Rightarrow>
                (case headers ''x_session_id'' of Some v \<Rightarrow> Some v | None \<Rightarrow>
                (case headers ''x-omniroute-session'' of Some v \<Rightarrow> Some v | None \<Rightarrow> headers ''session-id'')))
      in case raw of
           Some v \<Rightarrow> if trim v = [] then None else Some (''ext:'' @ take 64 (trim v))
         | None \<Rightarrow> None)"

section \<open>The gate of the chat handler\<close>

text \<open>The session of a request is touched when it arrives; the limit is checked after several awaits. There is no await
  between the check and the registration.\<close>

definition sessionOf :: "(string \<Rightarrow> string option) \<Rightarrow> string option \<Rightarrow> string option" where
  "sessionOf headers fingerprint =
     (let external = extractExternalSessionId headers in if nonEmpty external then external else fingerprint)"

definition admitSession ::
  "string option \<Rightarrow> string option \<Rightarrow> int option \<Rightarrow> session_state \<Rightarrow> limit_violation option \<times> session_state" where
  "admitSession apiKeyId sessionId keyMax s =
     (if nonEmpty apiKeyId \<and> nonEmpty sessionId then
        (let maxSessions = (case keyMax of Some n \<Rightarrow> if 0 < n then n else 0 | None \<Rightarrow> 0)
         in if 0 < maxSessions \<and> \<not> isSessionRegisteredForKey (the apiKeyId) (the sessionId) s then
              (case checkSessionLimit (the apiKeyId) maxSessions s of
                 Some violation \<Rightarrow> (Some violation, s)
               | None \<Rightarrow> (None, registerKeySession (the apiKeyId) (the sessionId) s))
            else (None, s))
      else (None, s))"

datatype session_op =
    Touch "string option" "string option" millis
  | Admit "string option" "string option" "int option"
  | ToolFinish "string option" millis
  | ToolTime "string option"
  | Info "string option" millis
  | Tick millis

fun sessionOp :: "session_op \<Rightarrow> session_state \<Rightarrow> session_state" where
  "sessionOp (Touch sid c now) s = touchSession sid c now s"
| "sessionOp (Admit k sid n) s = snd (admitSession k sid n s)"
| "sessionOp (ToolFinish sid now) s = markToolFinish sid now s"
| "sessionOp (ToolTime sid) s = snd (consumeToolFinishTime sid s)"
| "sessionOp (Info sid now) s = snd (getSessionInfo sid now s)"
| "sessionOp (Tick now) s = sessionCleanup now s"

end
