(* ===== verification/SessionLaws.thy ===== *)
theory SessionLaws
  imports SessionManager
begin

text \<open>
  The limit of sessions per key, when a session leaves its key, and the sessions that never do.
\<close>

section \<open>Sets of sessions\<close>

lemma nonEmpty_Some [simp]: "nonEmpty (Some sid) \<longleftrightarrow> sid \<noteq> []" "\<not> nonEmpty None"
  by (auto simp: nonEmpty_def split: list.split)

lemma nonEmpty_the: "nonEmpty s \<Longrightarrow> s = Some (the s)"
  by (cases s) auto

definition idsOf :: "string \<Rightarrow> session_state \<Rightarrow> string list" where
  "idsOf k s = nullish (jget k (ss_byKey s)) []"

lemma idsOf_count: "getActiveSessionCountForKey k s = length (idsOf k s)"
  by (simp add: getActiveSessionCountForKey_def idsOf_def nullish_def split: option.split)

lemma idsOf_registered: "isSessionRegisteredForKey k sid s \<longleftrightarrow> sid \<in> set (idsOf k s)"
  by (simp add: isSessionRegisteredForKey_def idsOf_def nullish_def split: option.split)

lemma forget_get:
  assumes "jinv m"
  shows "nullish (jget k (forgetSession sid m)) [] = removeAll sid (nullish (jget k m) [])"
  using assms
proof (induction m)
  case Nil
  then show ?case by (simp add: forgetSession_def nullish_def)
next
  case (Cons p m)
  obtain k' ids where p: "p = (k', ids)" by (rule prod.exhaust)
  have IH: "nullish (jget k (forgetSession sid m)) [] = removeAll sid (nullish (jget k m) [])"
    using Cons by (simp add: jinv_def jkeys_def)
  have step: "forgetSession sid ((k', ids) # m) = (if removeAll sid ids = [] then forgetSession sid m else (k', removeAll sid ids) # forgetSession sid m)"
    by (simp add: forgetSession_def)
  show ?case
  proof (cases "k' = k")
    case True
    then have "jget k m = None" using Cons.prems by (auto simp: p jinv_def jkeys_def jget_None_iff)
    then show ?thesis using IH by (simp add: p step jget_Cons nullish_def flip: True)
  next
    case False
    then show ?thesis using IH by (simp add: step p jget_Cons)
  qed
qed

lemma forget_jinv: "jinv m \<Longrightarrow> jinv (forgetSession sid m)"
  unfolding forgetSession_def jinv_def jkeys_def
  by (rule distinct_map_filter) (simp add: comp_def case_prod_unfold)

text \<open>Both maps have distinct keys.\<close>

definition mapsOk :: "session_state \<Rightarrow> bool" where
  "mapsOk s \<longleftrightarrow> jinv (ss_sessions s) \<and> jinv (ss_byKey s)"

lemma dropSession_simps:
  "mapsOk s \<Longrightarrow> mapsOk (dropSession sid s)"
  "mapsOk s \<Longrightarrow> idsOf k (dropSession sid s) = removeAll sid (idsOf k s)"
  "jget x (ss_sessions (dropSession sid s)) = (if x = sid then None else jget x (ss_sessions s))"
  by (simp_all add: mapsOk_def dropSession_def forget_jinv idsOf_def forget_get)

lemma dropAll_simps:
  "mapsOk s \<Longrightarrow> mapsOk (fold dropSession sids s)"
  "mapsOk s \<Longrightarrow> idsOf k (fold dropSession sids s) = filter (\<lambda>x. x \<notin> set sids) (idsOf k s)"
  "jget x (ss_sessions (fold dropSession sids s)) = (if x \<in> set sids then None else jget x (ss_sessions s))"
proof -
  show "mapsOk s \<Longrightarrow> mapsOk (fold dropSession sids s)"
    by (induction sids arbitrary: s) (simp_all add: dropSession_simps)
  show "mapsOk s \<Longrightarrow> idsOf k (fold dropSession sids s) = filter (\<lambda>x. x \<notin> set sids) (idsOf k s)"
    by (induction sids arbitrary: s) (auto simp: dropSession_simps removeAll_filter_not_eq intro: filter_cong)
  show "jget x (ss_sessions (fold dropSession sids s)) = (if x \<in> set sids then None else jget x (ss_sessions s))"
    by (induction sids arbitrary: s) (simp_all add: dropSession_simps)
qed

text \<open>The cap drops sessions of the map, each with its registrations.\<close>

lemma enforceCap_fold: "\<exists>sids. set sids \<subseteq> fst ` set (ss_sessions s) \<and> enforceCap s = fold dropSession sids s
    \<and> jsize (ss_sessions (enforceCap s)) \<le> MAX_SESSIONS"
proof (induction s rule: enforceCap.induct)
  case (1 s)
  show ?case
  proof (cases "MAX_SESSIONS < jsize (ss_sessions s)")
    case False
    then show ?thesis by (intro exI [of _ "[]"]) (simp add: enforceCap.simps [of s])
  next
    case True
    have "ss_sessions s \<noteq> []" using True by (auto simp: jsize_def)
    moreover have "oldestSession m (Some b) \<noteq> None" for m b
      by (induction m "Some b" arbitrary: b rule: oldestSession.induct) (auto split: prod.split)
    ultimately obtain k t where o: "oldestSession (ss_sessions s) None = Some (k, t)"
      by (cases "ss_sessions s") (auto, metis old.prod.exhaust option.exhaust)
    then have k: "k \<in> fst ` set (ss_sessions s)" using oldestSession_in [of "ss_sessions s" None k t] by simp
    obtain sids where "set sids \<subseteq> fst ` set (ss_sessions (dropSession k s))"
      "enforceCap (dropSession k s) = fold dropSession sids (dropSession k s)"
      "jsize (ss_sessions (enforceCap (dropSession k s))) \<le> MAX_SESSIONS"
      using 1 [OF True o refl] by blast
    moreover have "ss_sessions (dropSession k s) = jdel k (ss_sessions s)" by (simp add: dropSession_def)
    ultimately show ?thesis using True o k
      by (intro exI [of _ "k # sids"]) (auto simp: enforceCap.simps [of s] jdel_def)
  qed
qed

lemma tick_fold: "\<exists>sids. sessionCleanup now s = fold dropSession sids s
    \<and> (\<forall>p \<in> set (ss_sessions s). sessionExpired now (snd p) \<longrightarrow> fst p \<in> set sids)
    \<and> set sids \<subseteq> fst ` set (ss_sessions s) \<and> jsize (ss_sessions (sessionCleanup now s)) \<le> MAX_SESSIONS"
proof -
  define old where "old = map fst (filter (\<lambda>p. sessionExpired now (snd p)) (ss_sessions s))"
  obtain sids where s: "set sids \<subseteq> fst ` set (ss_sessions (dropExpired now s))"
    "enforceCap (dropExpired now s) = fold dropSession sids (dropExpired now s)"
    "jsize (ss_sessions (enforceCap (dropExpired now s))) \<le> MAX_SESSIONS"
    using enforceCap_fold by blast
  have sub: "set (ss_sessions (fold dropSession xs t)) \<subseteq> set (ss_sessions t)" for xs t
  proof (induction xs arbitrary: t)
    case (Cons x xs)
    have "set (ss_sessions (dropSession x t)) \<subseteq> set (ss_sessions t)" by (auto simp: dropSession_def jdel_def)
    then show ?case using Cons [of "dropSession x t"] by auto
  qed simp
  have "fst ` set (ss_sessions (dropExpired now s)) \<subseteq> fst ` set (ss_sessions s)"
    unfolding dropExpired_def by (rule image_mono [OF sub])
  then show ?thesis using s
    by (intro exI [of _ "old @ sids"]) (auto simp: sessionCleanup_def dropExpired_def old_def)
qed

section \<open>What the operations do to the keys\<close>

lemma keep_simps:
  "ss_byKey (touchSession sid c now s) = ss_byKey s"
  "ss_byKey (markToolFinish sid now s) = ss_byKey s"
  "ss_byKey (snd (consumeToolFinishTime sid s)) = ss_byKey s"
  "ss_byKey (snd (getSessionInfo sid now s)) = ss_byKey s"
  by (auto simp: touchSession_def markToolFinish_def consumeToolFinishTime_def getSessionInfo_def Let_def split: option.split)

lemma sessionOp_maps:
  assumes "mapsOk s"
  shows "mapsOk (sessionOp op s)"
proof (cases op)
  case (Admit k sid n)
  then show ?thesis using assms
    by (auto simp: admitSession_def registerKeySession_def Let_def mapsOk_def split: option.split)
next
  case (Tick now)
  obtain sids where "sessionCleanup now s = fold dropSession sids s" using tick_fold by blast
  then show ?thesis using Tick dropAll_simps(1) [OF assms] by simp
next
  case (Touch sid c now)
  then show ?thesis using assms by (auto simp: mapsOk_def keep_simps touchSession_def Let_def split: option.split)
next
  case (ToolFinish sid now)
  then show ?thesis using assms by (auto simp: mapsOk_def keep_simps markToolFinish_def split: option.split)
next
  case (ToolTime sid)
  then show ?thesis using assms by (auto simp: mapsOk_def keep_simps consumeToolFinishTime_def split: option.split)
next
  case (Info sid now)
  then show ?thesis using assms by (auto simp: mapsOk_def keep_simps getSessionInfo_def split: option.split)
qed

lemma run_maps: "mapsOk s \<Longrightarrow> mapsOk (fold sessionOp ops s)"
  by (induction ops arbitrary: s) (simp_all add: sessionOp_maps)

lemma noSessions_maps: "mapsOk noSessions"
  by (simp add: mapsOk_def noSessions_def)

text \<open>The sessions of a key after an operation: what a tick drops leaves, what an admission adds comes, in every other case nothing changes.\<close>

definition admitsFor :: "string \<Rightarrow> string \<Rightarrow> session_op \<Rightarrow> session_state \<Rightarrow> bool" where
  "admitsFor k sid op s \<longleftrightarrow> (\<exists>n. op = Admit (Some k) (Some sid) (Some n) \<and> k \<noteq> [] \<and> sid \<noteq> [] \<and> 0 < n
     \<and> sid \<notin> set (idsOf k s) \<and> int (length (idsOf k s)) < n)"

lemma admit_ids:
  "idsOf k (snd (admitSession k' sid n s)) =
     (if \<exists>x. sid = Some x \<and> admitsFor k x (Admit k' sid n) s then idsOf k s @ [the sid] else idsOf k s)"
proof (cases "nonEmpty k' \<and> nonEmpty sid")
  case False
  then have "\<not> (\<exists>x. sid = Some x \<and> admitsFor k x (Admit k' sid n) s)" by (auto simp: admitsFor_def)
  then show ?thesis using False by (auto simp: admitSession_def)
next
  case True
  then obtain kk x where k: "k' = Some kk" "kk \<noteq> []" and x: "sid = Some x" "x \<noteq> []"
    by (cases k'; cases sid) auto
  show ?thesis
    by (cases n; cases "jget kk (ss_byKey s)")
      (auto simp: admitSession_def admitsFor_def idsOf_registered checkSessionLimit_def idsOf_count Let_def registerKeySession_def
        k x idsOf_def nullish_def)
qed

lemma sessionOp_ids:
  assumes "mapsOk s"
  shows "(\<exists>sid. admitsFor k sid op s \<and> idsOf k (sessionOp op s) = idsOf k s @ [sid])
    \<or> (\<exists>now sids. op = Tick now \<and> sessionOp op s = fold dropSession sids s
          \<and> idsOf k (sessionOp op s) = filter (\<lambda>x. x \<notin> set sids) (idsOf k s) \<and> set sids \<subseteq> fst ` set (ss_sessions s)
          \<and> (\<forall>p \<in> set (ss_sessions s). sessionExpired now (snd p) \<longrightarrow> fst p \<in> set sids))
    \<or> (\<forall>now. op \<noteq> Tick now) \<and> idsOf k (sessionOp op s) = idsOf k s"
proof (cases op)
  case (Tick now)
  obtain sids where "sessionCleanup now s = fold dropSession sids s" "set sids \<subseteq> fst ` set (ss_sessions s)"
    "\<forall>p \<in> set (ss_sessions s). sessionExpired now (snd p) \<longrightarrow> fst p \<in> set sids" using tick_fold by blast
  then show ?thesis using Tick dropAll_simps(2) [OF assms] by auto
next
  case (Admit k' sid n)
  then show ?thesis by (auto simp: admit_ids)
qed (auto simp: idsOf_def keep_simps)

section \<open>The limit\<close>

lemma limit_run:
  assumes limit: "\<forall>op \<in> set ops. \<forall>sid m. op = Admit (Some k) sid m \<longrightarrow> m = Some n" and "0 \<le> n"
  shows "int (length (idsOf k (fold sessionOp ops noSessions))) \<le> n"
proof -
  have "int (length (idsOf k (fold sessionOp ops s))) \<le> n" if "mapsOk s" "int (length (idsOf k s)) \<le> n" for s
    using limit that
  proof (induction ops arbitrary: s)
    case Nil
    then show ?case by simp
  next
    case (Cons op ops)
    have "int (length (idsOf k (sessionOp op s))) \<le> n"
    proof -
      consider (admit) sid where "admitsFor k sid op s" "idsOf k (sessionOp op s) = idsOf k s @ [sid]"
        | (filtered) P where "idsOf k (sessionOp op s) = filter P (idsOf k s)"
        using sessionOp_ids [OF Cons.prems(2), of k op] filter_True by (metis)
      then show ?thesis
      proof cases
        case admit
        then show ?thesis using Cons.prems(1) by (auto simp: admitsFor_def)
      next
        case filtered
        have "int (length (filter P (idsOf k s))) \<le> int (length (idsOf k s))" by simp
        then show ?thesis unfolding filtered using Cons.prems(3) by (rule order_trans)
      qed
    qed
    then show ?case using Cons sessionOp_maps by simp
  qed
  from this [OF noSessions_maps] show ?thesis using assms(2) by (simp add: idsOf_def noSessions_def nullish_def)
qed

text \<open>
  C40. A key never has more sessions than its limit. Whatever requests, ticks, reads and sessions of other keys come in
  between, as long as the limit of the key stays the same.
\<close>

theorem session_limit_holds:
  assumes "\<forall>op \<in> set ops. \<forall>sid m. op = Admit (Some k) sid m \<longrightarrow> m = Some n" and "0 \<le> n"
  shows "int (getActiveSessionCountForKey k (fold sessionOp ops noSessions)) \<le> n"
  using limit_run [OF assms] by (simp add: idsOf_count)

lemma session_limit_holds_witness:
  "int (getActiveSessionCountForKey ''k'' (fold sessionOp [Touch (Some ''a'') None 0, Admit (Some ''k'') (Some ''a'') (Some 1),
     Touch (Some ''b'') None 5, Admit (Some ''k'') (Some ''b'') (Some 1)] noSessions)) \<le> 1"
  by (rule session_limit_holds) auto

section \<open>Sessions that free their slot\<close>

text \<open>An operation that makes a registration outlive its session: a read of an expired session, or an admission of a session that is not there.\<close>

definition leaks :: "session_op \<Rightarrow> session_state \<Rightarrow> bool" where
  "leaks op s \<longleftrightarrow> (case op of
      Info (Some sid) now \<Rightarrow> (\<exists>e. jget sid (ss_sessions s) = Some e \<and> sessionExpired now e)
    | Admit k (Some sid) n \<Rightarrow> jget sid (ss_sessions s) = None
    | _ \<Rightarrow> False)"

definition leakFree :: "session_op list \<Rightarrow> bool" where
  "leakFree ops \<longleftrightarrow> (\<forall>n < length ops. \<not> leaks (ops ! n) (fold sessionOp (take n ops) noSessions))"

definition registrationsLive :: "session_state \<Rightarrow> bool" where
  "registrationsLive s \<longleftrightarrow> (\<forall>k. \<forall>sid \<in> set (idsOf k s). jget sid (ss_sessions s) \<noteq> None)"

lemma sessions_kept:
  assumes "\<not> leaks op s" and "\<And>now. op \<noteq> Tick now" and "jget sid (ss_sessions s) \<noteq> None"
  shows "jget sid (ss_sessions (sessionOp op s)) \<noteq> None"
proof (cases op)
  case (Info x now)
  then show ?thesis using assms by (cases x) (auto simp: getSessionInfo_def leaks_def split: option.splits)
next
  case (Admit k x n)
  then show ?thesis using assms(3) by (auto simp: admitSession_def registerKeySession_def Let_def split: option.splits)
qed (use assms in \<open>auto simp: touchSession_def markToolFinish_def consumeToolFinishTime_def Let_def split: option.splits\<close>)

lemma registrations_kept:
  assumes live: "registrationsLive s" and maps: "mapsOk s" and free: "\<not> leaks op s"
  shows "registrationsLive (sessionOp op s)"
  unfolding registrationsLive_def
proof (intro allI ballI)
  fix k sid
  assume sid: "sid \<in> set (idsOf k (sessionOp op s))"
  consider (admit) x where "admitsFor k x op s" "idsOf k (sessionOp op s) = idsOf k s @ [x]"
    | (tick) now sids where "op = Tick now" "sessionOp op s = fold dropSession sids s"
        "idsOf k (sessionOp op s) = filter (\<lambda>x. x \<notin> set sids) (idsOf k s)"
    | (same) "\<forall>now. op \<noteq> Tick now" "idsOf k (sessionOp op s) = idsOf k s"
    using sessionOp_ids [OF maps, of k op] by blast
  then show "jget sid (ss_sessions (sessionOp op s)) \<noteq> None"
  proof cases
    case admit
    have "jget sid (ss_sessions s) \<noteq> None"
    proof (cases "sid = x")
      case True
      then show ?thesis using admit(1) free by (auto simp: admitsFor_def leaks_def)
    next
      case False
      then show ?thesis using admit(2) sid live by (auto simp: registrationsLive_def)
    qed
    then show ?thesis using sessions_kept [OF free] admit(1) by (auto simp: admitsFor_def)
  next
    case tick
    then show ?thesis using sid live by (auto simp: registrationsLive_def dropAll_simps(3))
  next
    case same
    then show ?thesis using sessions_kept [OF free] sid live by (auto simp: registrationsLive_def)
  qed
qed

lemma leakFree_snoc: "leakFree (ops @ [op]) \<longleftrightarrow> leakFree ops \<and> \<not> leaks op (fold sessionOp ops noSessions)"
  by (auto simp: leakFree_def less_Suc_eq nth_append)

lemma leakFree_live: "leakFree ops \<Longrightarrow> registrationsLive (fold sessionOp ops noSessions)"
proof (induction ops rule: rev_induct)
  case Nil
  then show ?case by (simp add: registrationsLive_def idsOf_def noSessions_def nullish_def)
next
  case (snoc op ops)
  then show ?case using registrations_kept [OF _ run_maps [OF noSessions_maps]] by (simp add: leakFree_snoc)
qed

text \<open>
  Idle sessions give their slots back. In a run without a leak, after a tick every session that counts against a
  key has been active within fifteen minutes, and there are at most 200 sessions in all.
\<close>

theorem idle_sessions_leave_keys:
  assumes "leakFree ops" and s: "s = sessionOp (Tick now) (fold sessionOp ops noSessions)"
  shows "(\<forall>k sid. isSessionRegisteredForKey k sid s \<longrightarrow> (\<exists>e. jget sid (ss_sessions s) = Some e \<and> now - se_lastActive e \<le> SESSION_TTL_MS))
    \<and> getActiveSessionCount s \<le> MAX_SESSIONS"
proof -
  define s0 where "s0 = fold sessionOp ops noSessions"
  have maps: "mapsOk s0" unfolding s0_def by (rule run_maps [OF noSessions_maps])
  have live: "registrationsLive s0" unfolding s0_def by (rule leakFree_live [OF assms(1)])
  obtain sids where t: "s = fold dropSession sids s0" "\<forall>p \<in> set (ss_sessions s0). sessionExpired now (snd p) \<longrightarrow> fst p \<in> set sids"
    and n: "jsize (ss_sessions s) \<le> MAX_SESSIONS"
    using tick_fold [of now s0] by (auto simp: s s0_def)
  have "\<exists>e. jget sid (ss_sessions s) = Some e \<and> now - se_lastActive e \<le> SESSION_TTL_MS"
    if "sid \<in> set (idsOf k s)" for k sid
  proof -
    have sid: "sid \<in> set (idsOf k s0)" "sid \<notin> set sids" using that dropAll_simps(2) [OF maps, of k sids] by (auto simp: t(1))
    then obtain e where e: "jget sid (ss_sessions s0) = Some e" using live by (auto simp: registrationsLive_def)
    then have "\<not> sessionExpired now e" using t(2) sid(2) jget_in_set by fastforce
    then show ?thesis using e sid(2) by (simp add: t(1) dropAll_simps(3) sessionExpired_def)
  qed
  then show ?thesis using n by (simp add: idsOf_registered getActiveSessionCount_def)
qed

lemma idle_sessions_leave_keys_witness:
  "\<not> isSessionRegisteredForKey ''k'' ''a'' (sessionOp (Tick 900001) (fold sessionOp [Touch (Some ''a'') None 0,
     Admit (Some ''k'') (Some ''a'') (Some 1)] noSessions))"
proof
  define ops where "ops = [Touch (Some ''a'') None 0, Admit (Some ''k'') (Some ''a'') (Some 1)]"
  have free: "leakFree ops"
    by (auto simp: ops_def leakFree_def less_Suc_eq leaks_def touchSession_def noSessions_def jget_Cons)
  have a: "map_option se_lastActive (jget ''a'' (ss_sessions (fold sessionOp ops noSessions))) = Some 0"
    unfolding ops_def by code_simp
  obtain sids where t: "sessionOp (Tick 900001) (fold sessionOp ops noSessions) = fold dropSession sids (fold sessionOp ops noSessions)"
    using tick_fold by fastforce
  assume "isSessionRegisteredForKey ''k'' ''a'' (sessionOp (Tick 900001) (fold sessionOp [Touch (Some ''a'') None 0,
     Admit (Some ''k'') (Some ''a'') (Some 1)] noSessions))"
  then obtain e where e: "jget ''a'' (ss_sessions (sessionOp (Tick 900001) (fold sessionOp ops noSessions))) = Some e"
    and "900001 - se_lastActive e \<le> SESSION_TTL_MS"
    using idle_sessions_leave_keys [OF free refl, of 900001] unfolding ops_def by blast
  moreover have "se_lastActive e = 0" using e a unfolding t by (auto simp: dropAll_simps(3) split: if_splits)
  ultimately show False by (simp add: SESSION_TTL_MS_def)
qed

section \<open>Sessions that never leave\<close>

lemma leaked_stays:
  assumes "mapsOk s" and "sid \<in> set (idsOf k s)" and "jget sid (ss_sessions s) = None" and "\<forall>c now. op \<noteq> Touch (Some sid) c now"
  shows "sid \<in> set (idsOf k (sessionOp op s)) \<and> jget sid (ss_sessions (sessionOp op s)) = None"
proof
  show "sid \<in> set (idsOf k (sessionOp op s))"
    using sessionOp_ids [OF assms(1), of k op] assms(2,3) jget_None_iff [of sid "ss_sessions s"] by (auto simp: jkeys_def)
  show "jget sid (ss_sessions (sessionOp op s)) = None"
  proof (cases op)
    case (Tick now)
    then show ?thesis using tick_fold [of now s] assms(3) by (auto simp: dropAll_simps(3))
  next
    case (Touch x c now)
    then show ?thesis using assms(3,4) nonEmpty_the [of x] by (auto simp: touchSession_def Let_def split: option.splits)
  next
    case (Admit k' x n)
    then show ?thesis using assms(3) by (auto simp: admitSession_def registerKeySession_def Let_def split: option.splits)
  next
    case (ToolFinish x now)
    then show ?thesis using assms(3) by (auto simp: markToolFinish_def split: option.splits if_splits)
  next
    case (ToolTime x)
    then show ?thesis using assms(3) by (auto simp: consumeToolFinishTime_def split: option.splits if_splits)
  next
    case (Info x now)
    then show ?thesis using assms(3) by (auto simp: getSessionInfo_def split: option.splits if_splits)
  qed
qed

text \<open>
  A session that is found expired by a read keeps its slot for good. \<open>getSessionInfo\<close> removes the session without its
  registrations, and the timer only looks for registrations of sessions it removes itself: until the client comes back
  with the same session it counts against the key whatever happens, and a key with a limit of one session is refused
  every other session.
\<close>

theorem expired_read_blocks_key:
  assumes before: "s = fold sessionOp ops noSessions"
    and limit: "\<forall>op \<in> set (ops @ ops'). \<forall>x m. op = Admit (Some k) x m \<longrightarrow> m = Some 1"
    and reg: "isSessionRegisteredForKey k sid s"
    and e: "jget sid (ss_sessions s) = Some e" "sessionExpired now e" "sid \<noteq> []" "k \<noteq> []"
    and away: "\<forall>op \<in> set ops'. \<forall>c t. op \<noteq> Touch (Some sid) c t"
    and t: "t = fold sessionOp (Info (Some sid) now # ops') s" and other: "sid' \<noteq> sid" "sid' \<noteq> []"
  shows "isSessionRegisteredForKey k sid t \<and> admitSession (Some k) (Some sid') (Some 1) t = (Some \<lparr>lv_limit = 1, lv_current = 1\<rparr>, t)"
proof -
  have maps: "mapsOk s" unfolding before by (rule run_maps [OF noSessions_maps])
  define s1 where "s1 = sessionOp (Info (Some sid) now) s"
  have "mapsOk s1" unfolding s1_def by (rule sessionOp_maps [OF maps])
  then have s1: "mapsOk s1" "sid \<in> set (idsOf k s1)" "jget sid (ss_sessions s1) = None"
    using reg e by (auto simp: s1_def getSessionInfo_def idsOf_registered idsOf_def)
  have "mapsOk u \<Longrightarrow> sid \<in> set (idsOf k u) \<Longrightarrow> jget sid (ss_sessions u) = None \<Longrightarrow> sid \<in> set (idsOf k (fold sessionOp ops' u))" for u
    using away
  proof (induction ops' arbitrary: u)
    case (Cons op ops')
    then show ?case using leaked_stays [of u sid k op] sessionOp_maps by simp
  qed simp
  then have r: "sid \<in> set (idsOf k t)" using s1 by (simp add: t s1_def)
  have "t = fold sessionOp (ops @ [Info (Some sid) now] @ ops') noSessions" by (simp add: t before)
  moreover have "\<forall>op \<in> set (ops @ [Info (Some sid) now] @ ops'). \<forall>x m. op = Admit (Some k) x m \<longrightarrow> m = Some 1" using limit by auto
  ultimately have "length (idsOf k t) \<le> 1"
    using limit_run [of "ops @ [Info (Some sid) now] @ ops'" k 1] by simp
  then have "idsOf k t = [sid]" using r by (cases "idsOf k t") auto
  then show ?thesis using r other e(4)
    by (simp add: admitSession_def idsOf_registered checkSessionLimit_def idsOf_count Let_def)
qed

lemma expired_read_blocks_key_witness:
  "admitSession (Some ''k'') (Some ''b'') (Some 1) (fold sessionOp [Info (Some ''a'') 900001, Tick 999999, Tick 9999999]
     (fold sessionOp [Touch (Some ''a'') None 0, Admit (Some ''k'') (Some ''a'') (Some 1)] noSessions))
   = (Some \<lparr>lv_limit = 1, lv_current = 1\<rparr>, fold sessionOp [Info (Some ''a'') 900001, Tick 999999, Tick 9999999]
     (fold sessionOp [Touch (Some ''a'') None 0, Admit (Some ''k'') (Some ''a'') (Some 1)] noSessions))"
proof -
  have "isSessionRegisteredForKey ''k'' ''a'' (fold sessionOp [Touch (Some ''a'') None 0, Admit (Some ''k'') (Some ''a'') (Some 1)] noSessions)"
    by code_simp
  moreover have "jget ''a'' (ss_sessions (fold sessionOp [Touch (Some ''a'') None 0, Admit (Some ''k'') (Some ''a'') (Some 1)] noSessions))
      = Some \<lparr>se_createdAt = 0, se_lastActive = 0, se_requestCount = 1, se_connectionId = None, se_lastToolFinishAt = None\<rparr>"
    by code_simp
  ultimately show ?thesis
    using expired_read_blocks_key [OF refl, of "[Touch (Some ''a'') None 0, Admit (Some ''k'') (Some ''a'') (Some 1)]"
        "[Tick 999999, Tick 9999999]" "''k''" "''a''" _ 900001 _ "''b''"]
    by (simp add: sessionExpired_def SESSION_TTL_MS_def)
qed

end
