(* ===== verification/QuotaWindows.thy ===== *)
theory QuotaWindows
  imports ModelLockout Complex_Main
begin

text \<open>
  Names and scopes of quota windows and the cutoff that a fetched quota passes: \<open>open-sse/config/codexQuotaScopes.ts\<close>
  and \<open>open-sse/services/quotaPreflight.ts\<close>. A number that may not be finite is \<open>None\<close> when it is not. What the fetcher
  of a provider answers is an argument.
\<close>

section \<open>Dates as text\<close>

text \<open>
  A text is known by what \<open>new Date(text).getTime()\<close> makes of it and, when it consists of digits with an optional
  fraction, by the number it shows. An empty text is treated like a missing one everywhere and is \<open>None\<close>.
\<close>

record date_text =
  dt_date :: "millis option"
  dt_number :: "millis option"

definition isoText :: "millis \<Rightarrow> date_text" where
  "isoText t = \<lparr>dt_date = Some t, dt_number = None\<rparr>"

lemma isoText_simps [simp]: "dt_date (isoText t) = Some t" "dt_number (isoText t) = None"
  by (simp_all add: isoText_def)

section \<open>Codex windows\<close>

definition CODEX_SPARK_MODEL_ID :: string where "CODEX_SPARK_MODEL_ID = ''gpt-5.3-codex-spark''"
definition CODEX_SPARK_METERED_FEATURE :: string where "CODEX_SPARK_METERED_FEATURE = ''gpt_5_3_codex_spark''"
definition CODEX_SPARK_QUOTA_SESSION :: string where "CODEX_SPARK_QUOTA_SESSION = CODEX_SPARK_METERED_FEATURE @ ''_session''"
definition CODEX_SPARK_QUOTA_WEEKLY :: string where "CODEX_SPARK_QUOTA_WEEKLY = CODEX_SPARK_METERED_FEATURE @ ''_weekly''"

definition codexScopeOf :: "string option \<Rightarrow> codex_scope" where
  "codexScopeOf model = getCodexModelScope (nullish model [])"

definition getCodexRateLimitKey :: "string \<Rightarrow> string \<Rightarrow> string" where
  "getCodexRateLimitKey accountId model = accountId @ '':'' @ scopeName (getCodexModelScope model)"

definition isCodexSparkQuotaKey :: "string \<Rightarrow> bool" where
  "isCodexSparkQuotaKey key \<longleftrightarrow>
     (let normalized = toLowerCase (trim key)
      in normalized \<noteq> [] \<and>
         (normalized = CODEX_SPARK_QUOTA_SESSION \<or> normalized = CODEX_SPARK_QUOTA_WEEKLY
          \<or> normalized = ''codex-spark'' \<or> normalized = ''codex-spark-weekly''
          \<or> contains ''codex-spark'' normalized \<or> contains ''codex_spark'' normalized
          \<or> contains CODEX_SPARK_METERED_FEATURE normalized))"

text \<open>\<open>None\<close> for a value that is not a string.\<close>

definition isCodexSparkLimitDescriptor :: "string option list \<Rightarrow> bool" where
  "isCodexSparkLimitDescriptor values \<longleftrightarrow>
     (\<exists>v \<in> set values. case v of None \<Rightarrow> False
        | Some s \<Rightarrow> (let normalized = toLowerCase (trim s)
                     in contains ''spark'' normalized \<or> contains ''bengalfox'' normalized
                        \<or> contains CODEX_SPARK_METERED_FEATURE normalized))"

definition noText :: "string option \<Rightarrow> bool" where
  "noText s \<longleftrightarrow> (case s of None \<Rightarrow> True | Some t \<Rightarrow> t = [])"

definition getCodexQuotaWindowFilterForModel :: "string option \<Rightarrow> (string \<Rightarrow> bool) option" where
  "getCodexQuotaWindowFilterForModel model =
     (if noText model then None
      else (let scope = codexScopeOf model
            in Some (\<lambda>windowName. if scope = SparkScope then isCodexSparkQuotaKey windowName
                                  else \<not> isCodexSparkQuotaKey windowName)))"

definition toCodexScopedQuotaWindowName :: "string \<Rightarrow> string option \<Rightarrow> string" where
  "toCodexScopedQuotaWindowName base model =
     (if noText model \<or> codexScopeOf model \<noteq> SparkScope then base
      else (let normalized = toLowerCase (trim base)
            in if normalized = ''session'' then CODEX_SPARK_QUOTA_SESSION
               else if normalized = ''weekly'' then CODEX_SPARK_QUOTA_WEEKLY else base))"

definition toCodexBaseQuotaWindowName :: "string \<Rightarrow> string" where
  "toCodexBaseQuotaWindowName windowName =
     (let normalized = toLowerCase (trim windowName)
      in if windowName = [] then windowName
         else if normalized = CODEX_SPARK_QUOTA_SESSION \<or> normalized = ''codex-spark'' then ''session''
         else if normalized = CODEX_SPARK_QUOTA_WEEKLY \<or> normalized = ''codex-spark-weekly'' then ''weekly''
         else windowName)"

section \<open>Windows and models\<close>

datatype window_scope = AccountScope | ModelScope

record upstream_window =
  qw_percentUsed :: "rat option"
  qw_resetAt :: "date_text option"
  qw_scope :: "window_scope option"
  qw_model :: "string option"

record upstream_quota =
  qi_percentUsed :: "rat option"
  qi_resetAt :: "date_text option"
  qi_windows :: "(string \<times> upstream_window) list"
  qi_limitReached :: bool

definition windowBaseName :: "string \<Rightarrow> string" where
  "windowBaseName windowName = takeWhile (\<lambda>c. c \<noteq> CHR '':'') windowName"

definition windowThresholdAliases :: "string \<Rightarrow> string list" where
  "windowThresholdAliases windowName =
     (let base = windowBaseName windowName
      in if base = windowName then [windowName] else [windowName, base @ '':*'', base])"

definition GENERIC_WINDOWS :: "string list" where
  "GENERIC_WINDOWS = [''window_'', ''session'', ''weekly'', ''monthly'', ''rolling'', ''5h'', ''7d'', ''30d'', ''credits'',
     ''balance'', ''daily'', ''mcp_'']"

definition isGenericWindow :: "string \<Rightarrow> bool" where
  "isGenericWindow windowName \<longleftrightarrow> (\<exists>p \<in> set GENERIC_WINDOWS. starts_with p (toLowerCase windowName))"

text \<open>What follows the last slash.\<close>

definition bareModel :: "string \<Rightarrow> string" where
  "bareModel model = rev (takeWhile (\<lambda>c. c \<noteq> CHR ''/'') (rev model))"

definition windowAppliesToModel :: "string \<Rightarrow> string option \<Rightarrow> window_scope option \<Rightarrow> string option \<Rightarrow> bool" where
  "windowAppliesToModel windowName modelFilter scope scopeModel \<longleftrightarrow>
     (let model = trim (toLowerCase (nullish modelFilter []))
      in case scope of
           Some AccountScope \<Rightarrow> True
         | Some ModelScope \<Rightarrow>
             if model = [] then True
             else (let scoped = toLowerCase (if noText scopeModel then windowBaseName windowName else the scopeModel)
                   in if scoped = [] then False else scoped = bareModel model \<or> scoped = model)
         | None \<Rightarrow>
             if model = [] then True
             else if isGenericWindow windowName then True
             else (let name = toLowerCase windowName; bare = bareModel model
                   in name = bare \<or> contains bare name \<or> contains name bare))"

section \<open>The cutoff\<close>

definition DEFAULT_MIN_REMAINING_PERCENT :: rat where "DEFAULT_MIN_REMAINING_PERCENT = 2"
definition REMAINING_PERCENT_EPSILON :: rat where "REMAINING_PERCENT_EPSILON = 1 / 10 ^ 9"

text \<open>A resolver answers for a window, or for \<open>None\<close> when the fetcher reports a single figure.\<close>

type_synonym cutoffs = "(string option \<Rightarrow> rat option) option"

definition resolveOrDefault :: "cutoffs \<Rightarrow> string option \<Rightarrow> rat \<Rightarrow> rat" where
  "resolveOrDefault resolver window fallback =
     (case resolver of
        None \<Rightarrow> fallback
      | Some r \<Rightarrow> (case r window of
          Some raw \<Rightarrow> if 0 \<le> raw \<and> raw \<le> 100 then raw else fallback
        | None \<Rightarrow> fallback))"

definition remainingPercentFrom :: "rat \<Rightarrow> rat" where
  "remainingPercentFrom percentUsed = max 0 ((1 - percentUsed) * 100)"

definition isRemainingAtOrBelowThreshold :: "rat \<Rightarrow> rat \<Rightarrow> bool" where
  "isRemainingAtOrBelowThreshold remaining threshold \<longleftrightarrow> remaining \<le> threshold + REMAINING_PERCENT_EPSILON"

record cutoff_result =
  cr_proceed :: bool
  cr_quotaPercent :: "rat option"
  cr_resetAt :: "date_text option"
  cr_window :: "string option"
  cr_scope :: "window_scope option"

definition proceedWith :: "rat option \<Rightarrow> cutoff_result" where
  "proceedWith percent = \<lparr>cr_proceed = True, cr_quotaPercent = percent, cr_resetAt = None, cr_window = None, cr_scope = None\<rparr>"

definition exhaustedResult ::
  "rat \<Rightarrow> date_text option \<Rightarrow> string option \<Rightarrow> window_scope option \<Rightarrow> cutoff_result" where
  "exhaustedResult percent resetAt window scope =
     \<lparr>cr_proceed = False, cr_quotaPercent = Some percent, cr_resetAt = resetAt, cr_window = window, cr_scope = scope\<rparr>"

definition limitReachedResult :: "upstream_quota \<Rightarrow> cutoff_result" where
  "limitReachedResult quota = exhaustedResult (nullish (qi_percentUsed quota) 1) (qi_resetAt quota) None None"

text \<open>A window below its cutoff.\<close>

definition windowCut :: "cutoffs \<Rightarrow> string option \<Rightarrow> string \<times> upstream_window \<Rightarrow> bool" where
  "windowCut minimum modelFilter p \<longleftrightarrow>
     (case qw_percentUsed (snd p) of
        None \<Rightarrow> False
      | Some used \<Rightarrow>
          windowAppliesToModel (fst p) modelFilter (qw_scope (snd p)) (qw_model (snd p))
          \<and> isRemainingAtOrBelowThreshold (remainingPercentFrom used)
              (resolveOrDefault minimum (Some (fst p)) DEFAULT_MIN_REMAINING_PERCENT))"

definition usedOf :: "string \<times> upstream_window \<Rightarrow> rat" where
  "usedOf p = nullish (qw_percentUsed (snd p)) 0"

text \<open>The loop keeps the first of the windows below their cutoff that are used most.\<close>

fun worstWindow ::
  "cutoffs \<Rightarrow> string option \<Rightarrow> (string \<times> upstream_window) list \<Rightarrow> (string \<times> upstream_window) option \<Rightarrow> (string \<times> upstream_window) option" where
  "worstWindow minimum modelFilter [] worst = worst"
| "worstWindow minimum modelFilter (p # ps) worst =
     worstWindow minimum modelFilter ps
       (if \<not> windowCut minimum modelFilter p then worst
        else case worst of
               None \<Rightarrow> Some p
             | Some w \<Rightarrow> if usedOf p \<le> usedOf w then worst else Some p)"

definition quotaWindowCutoffResult ::
  "(string \<times> upstream_window) list \<Rightarrow> cutoffs \<Rightarrow> string option \<Rightarrow> cutoff_result option" where
  "quotaWindowCutoffResult windows minimum modelFilter =
     (case worstWindow minimum modelFilter windows None of
        None \<Rightarrow> None
      | Some (name, w) \<Rightarrow>
          Some (exhaustedResult (usedOf (name, w)) (qw_resetAt w)
            (Some (if noText (qw_model w) then name else name @ '' ('' @ the (qw_model w) @ '')'')) (qw_scope w)))"

definition quotaPercentCutoffResult :: "upstream_quota \<Rightarrow> cutoffs \<Rightarrow> cutoff_result" where
  "quotaPercentCutoffResult quota minimum =
     (case qi_percentUsed quota of
        None \<Rightarrow> proceedWith None
      | Some used \<Rightarrow>
          if isRemainingAtOrBelowThreshold (remainingPercentFrom used) (resolveOrDefault minimum None DEFAULT_MIN_REMAINING_PERCENT)
          then exhaustedResult used (qi_resetAt quota) None None
          else proceedWith (Some used))"

definition evaluateQuotaCutoff :: "upstream_quota option \<Rightarrow> cutoffs \<Rightarrow> string option \<Rightarrow> cutoff_result" where
  "evaluateQuotaCutoff quota minimum modelFilter =
     (case quota of
        None \<Rightarrow> proceedWith None
      | Some q \<Rightarrow>
          if qi_limitReached q then limitReachedResult q
          else if qi_windows q \<noteq> [] then
            (case quotaWindowCutoffResult (qi_windows q) minimum modelFilter of
               Some r \<Rightarrow> r
             | None \<Rightarrow> proceedWith (qi_percentUsed q))
          else quotaPercentCutoffResult q minimum)"

text \<open>\<open>fetched\<close> is what the registered fetcher answers: nothing when there is none, when it throws or when it has no data.\<close>

definition preflightQuota :: "upstream_quota option \<Rightarrow> cutoffs \<Rightarrow> string option \<Rightarrow> cutoff_result" where
  "preflightQuota fetched minimum requestedModel =
     (case fetched of None \<Rightarrow> proceedWith None | Some q \<Rightarrow> evaluateQuotaCutoff (Some q) minimum requestedModel)"

section \<open>The windows that block\<close>

lemma worstWindow_None: "worstWindow minimum m ps worst = None \<longleftrightarrow> worst = None \<and> (\<forall>p \<in> set ps. \<not> windowCut minimum m p)"
  by (induction ps arbitrary: worst) (auto split: option.splits)

lemma worstWindow_Some:
  assumes "worstWindow minimum m ps worst = Some w"
  shows "(w \<in> set ps \<and> windowCut minimum m w \<or> worst = Some w)
    \<and> (\<forall>p \<in> set ps. windowCut minimum m p \<longrightarrow> usedOf p \<le> usedOf w) \<and> (\<forall>v. worst = Some v \<longrightarrow> usedOf v \<le> usedOf w)"
  using assms
proof (induction ps arbitrary: worst)
  case Nil
  then show ?case by simp
next
  case (Cons p ps)
  show ?case
  proof (cases "windowCut minimum m p")
    case False
    then show ?thesis using Cons by auto
  next
    case cut: True
    show ?thesis
    proof (cases worst)
      case None
      then show ?thesis using Cons.IH [of "Some p"] Cons.prems cut by auto
    next
      case (Some v)
      show ?thesis
      proof (cases "usedOf p \<le> usedOf v")
        case True
        then have "worstWindow minimum m ps worst = Some w" using Cons.prems cut Some by simp
        from Cons.IH [OF this] show ?thesis using True Some by auto
      next
        case False
        then have "worstWindow minimum m ps (Some p) = Some w" using Cons.prems cut Some by simp
        from Cons.IH [OF this] show ?thesis using False cut Some by auto
      qed
    qed
  qed
qed

text \<open>
  What blocks, in plain figures: the cutoff of a window is what is set for it when that is a percentage, else 2, and a figure
  blocks when the percentage it leaves is at most the cutoff, up to a billionth.
\<close>

definition cutoffOf :: "cutoffs \<Rightarrow> string option \<Rightarrow> rat" where
  "cutoffOf minimum window =
     (case minimum of
        Some r \<Rightarrow> (case r window of Some c \<Rightarrow> if c < 0 \<or> 100 < c then 2 else c | None \<Rightarrow> 2)
      | None \<Rightarrow> 2)"

definition leavesTooLittle :: "cutoffs \<Rightarrow> string option \<Rightarrow> rat option \<Rightarrow> bool" where
  "leavesTooLittle minimum window used \<longleftrightarrow>
     (case used of None \<Rightarrow> False | Some u \<Rightarrow> 100 - 100 * u \<le> cutoffOf minimum window + 1 / 10 ^ 9)"

definition windowBlocks :: "cutoffs \<Rightarrow> string option \<Rightarrow> string \<times> upstream_window \<Rightarrow> bool" where
  "windowBlocks minimum m p \<longleftrightarrow>
     windowAppliesToModel (fst p) m (qw_scope (snd p)) (qw_model (snd p))
     \<and> leavesTooLittle minimum (Some (fst p)) (qw_percentUsed (snd p))"

lemma cutoff_is: "resolveOrDefault minimum window DEFAULT_MIN_REMAINING_PERCENT = cutoffOf minimum window"
  by (auto simp: resolveOrDefault_def cutoffOf_def DEFAULT_MIN_REMAINING_PERCENT_def split: option.split)

lemma cutoff_nonneg: "0 \<le> cutoffOf minimum window"
  by (auto simp: cutoffOf_def split: option.split)

lemma threshold_met:
  "isRemainingAtOrBelowThreshold (remainingPercentFrom u) (cutoffOf minimum window) \<longleftrightarrow> leavesTooLittle minimum window (Some u)"
  using cutoff_nonneg [of minimum window]
  by (simp add: isRemainingAtOrBelowThreshold_def remainingPercentFrom_def leavesTooLittle_def REMAINING_PERCENT_EPSILON_def
      left_diff_distrib mult.commute)

lemma nothing_left_out: "\<not> leavesTooLittle minimum window None"
  by (simp add: leavesTooLittle_def)

lemma windowCut_blocks: "windowCut minimum m p \<longleftrightarrow> windowBlocks minimum m p"
  by (simp add: windowCut_def windowBlocks_def cutoff_is threshold_met nothing_left_out split: option.split)

text \<open>
  C25. The evaluation of a quota blocks a request exactly when its limit is reached or, for a quota with windows, some
  window that applies to the model is at or below its cutoff, for one without windows its single figure is. When
  windows block, the answer is that of one of them that is used most among those at or below their cutoff: its name (with
  its model, when it has one), its used share, its reset and its scope; otherwise the answer names no window.
\<close>

theorem cutoff_blocks_exactly:
  "(\<not> cr_proceed (evaluateQuotaCutoff (Some q) minimum m)
      \<longleftrightarrow> qi_limitReached q \<or> (if qi_windows q \<noteq> [] then \<exists>p \<in> set (qi_windows q). windowBlocks minimum m p
        else leavesTooLittle minimum None (qi_percentUsed q)))
    \<and> (\<not> cr_proceed (evaluateQuotaCutoff (Some q) minimum m) \<longrightarrow>
        (if qi_limitReached q \<or> qi_windows q = [] then cr_window (evaluateQuotaCutoff (Some q) minimum m) = None
         else (\<exists>name w. (name, w) \<in> set (qi_windows q) \<and> windowBlocks minimum m (name, w)
           \<and> (\<forall>p \<in> set (qi_windows q). windowBlocks minimum m p \<longrightarrow> usedOf p \<le> usedOf (name, w))
           \<and> cr_window (evaluateQuotaCutoff (Some q) minimum m) = Some (if noText (qw_model w) then name else name @ '' ('' @ the (qw_model w) @ '')'')
           \<and> cr_quotaPercent (evaluateQuotaCutoff (Some q) minimum m) = qw_percentUsed w
           \<and> cr_resetAt (evaluateQuotaCutoff (Some q) minimum m) = qw_resetAt w
           \<and> cr_scope (evaluateQuotaCutoff (Some q) minimum m) = qw_scope w)))"
proof -
  consider (limit) "qi_limitReached q" | (single) "\<not> qi_limitReached q" "qi_windows q = []"
    | (windows) "\<not> qi_limitReached q" "qi_windows q \<noteq> []" by blast
  then show ?thesis
  proof cases
    case limit
    then show ?thesis by (simp add: evaluateQuotaCutoff_def limitReachedResult_def exhaustedResult_def)
  next
    case single
    then show ?thesis
      by (auto simp: evaluateQuotaCutoff_def quotaPercentCutoffResult_def cutoff_is threshold_met nothing_left_out exhaustedResult_def proceedWith_def split: option.split)
  next
    case windows
    show ?thesis
    proof (cases "worstWindow minimum m (qi_windows q) None")
      case None
      then have "\<forall>p \<in> set (qi_windows q). \<not> windowBlocks minimum m p" by (simp add: worstWindow_None windowCut_blocks)
      then show ?thesis using None windows by (simp add: evaluateQuotaCutoff_def quotaWindowCutoffResult_def proceedWith_def)
    next
      case (Some v)
      obtain name w where v: "v = (name, w)" by (rule prod.exhaust)
      have w: "(name, w) \<in> set (qi_windows q)" "windowBlocks minimum m (name, w)"
        "\<forall>p \<in> set (qi_windows q). windowBlocks minimum m p \<longrightarrow> usedOf p \<le> usedOf (name, w)"
        using worstWindow_Some [OF Some] by (simp_all add: v windowCut_blocks)
      then have used: "Some (usedOf (name, w)) = qw_percentUsed w" by (auto simp: windowBlocks_def leavesTooLittle_def usedOf_def split: option.splits)
      have e: "evaluateQuotaCutoff (Some q) minimum m = exhaustedResult (usedOf (name, w)) (qw_resetAt w)
          (Some (if noText (qw_model w) then name else name @ '' ('' @ the (qw_model w) @ '')'')) (qw_scope w)"
        using Some windows by (simp add: v evaluateQuotaCutoff_def quotaWindowCutoffResult_def)
      show ?thesis using w windows used unfolding e by (auto simp: exhaustedResult_def)
    qed
  qed
qed

lemma cutoff_blocks_exactly_witness:
  "cr_window (evaluateQuotaCutoff (Some \<lparr>qi_percentUsed = Some 0, qi_resetAt = None, qi_windows =
     [(''session'', \<lparr>qw_percentUsed = Some (98 / 100), qw_resetAt = None, qw_scope = None, qw_model = None\<rparr>),
      (''weekly'', \<lparr>qw_percentUsed = Some (99 / 100), qw_resetAt = None, qw_scope = None, qw_model = None\<rparr>)], qi_limitReached = False\<rparr>) None None)
   = Some ''weekly''"
proof -
  let ?s = "\<lparr>qw_percentUsed = Some (98 / 100), qw_resetAt = None, qw_scope = None, qw_model = None\<rparr>"
  let ?w = "\<lparr>qw_percentUsed = Some (99 / 100), qw_resetAt = None, qw_scope = None, qw_model = None\<rparr>"
  let ?q = "\<lparr>qi_percentUsed = Some 0, qi_resetAt = None, qi_windows = [(''session'', ?s), (''weekly'', ?w)], qi_limitReached = False\<rparr>"
  have cut: "windowBlocks None None (''weekly'', ?w)" by code_simp
  have "\<not> cr_proceed (evaluateQuotaCutoff (Some ?q) None None)" using cutoff_blocks_exactly [of ?q None None] cut by auto
  then obtain name w where "(name, w) \<in> {(''session'', ?s), (''weekly'', ?w)}" "usedOf (''weekly'', ?w) \<le> usedOf (name, w)"
    "cr_window (evaluateQuotaCutoff (Some ?q) None None) = Some (if noText (qw_model w) then name else name @ '' ('' @ the (qw_model w) @ '')'')"
    using cutoff_blocks_exactly [of ?q None None] cut by auto
  then show ?thesis by (auto simp: usedOf_def noText_def)
qed

end
