(* ===== verification/SortBy.thy ===== *)
theory SortBy
  imports Prelude Complex_Main
begin

text \<open>
  \<open>Array.prototype.sort\<close> with a comparator, as a stable insertion sort, and what is known of its first element when
  the comparator orders the elements.
\<close>

fun insertBy :: "('a \<Rightarrow> 'a \<Rightarrow> rat) \<Rightarrow> 'a \<Rightarrow> 'a list \<Rightarrow> 'a list" where
  "insertBy cmp x [] = [x]"
| "insertBy cmp x (y # ys) = (if cmp x y \<le> 0 then x # y # ys else y # insertBy cmp x ys)"

definition sortBy :: "('a \<Rightarrow> 'a \<Rightarrow> rat) \<Rightarrow> 'a list \<Rightarrow> 'a list" where
  "sortBy cmp xs = foldr (insertBy cmp) xs []"

lemma mset_insertBy [simp]: "mset (insertBy cmp x ys) = add_mset x (mset ys)"
  by (induction ys) auto

lemma mset_sortBy [simp]: "mset (sortBy cmp xs) = mset xs"
  by (induction xs) (simp_all add: sortBy_def)

lemma set_insertBy [simp]: "set (insertBy cmp x ys) = insert x (set ys)"
  by (metis mset_insertBy set_mset_add_mset_insert set_mset_mset)

lemma set_sortBy [simp]: "set (sortBy cmp xs) = set xs"
  by (metis mset_sortBy set_mset_mset)

lemma length_sortBy [simp]: "length (sortBy cmp xs) = length xs"
  by (metis mset_sortBy size_mset)

lemma sortBy_Nil_iff [simp]: "sortBy cmp xs = [] \<longleftrightarrow> xs = []"
  by (metis length_0_conv length_sortBy)

lemma hd_sortBy_in: "xs \<noteq> [] \<Longrightarrow> hd (sortBy cmp xs) \<in> set xs"
  by (metis hd_in_set set_sortBy sortBy_Nil_iff)

text \<open>A comparator that orders the elements of a set.\<close>

definition orders :: "('a \<Rightarrow> 'a \<Rightarrow> rat) \<Rightarrow> 'a set \<Rightarrow> bool" where
  "orders cmp A \<longleftrightarrow> (\<forall>x \<in> A. \<forall>y \<in> A. cmp x y \<le> 0 \<or> cmp y x \<le> 0)
     \<and> (\<forall>x \<in> A. \<forall>y \<in> A. \<forall>z \<in> A. cmp x y \<le> 0 \<longrightarrow> cmp y z \<le> 0 \<longrightarrow> cmp x z \<le> 0)"

lemma orders_total: "orders cmp A \<Longrightarrow> x \<in> A \<Longrightarrow> y \<in> A \<Longrightarrow> cmp x y \<le> 0 \<or> cmp y x \<le> 0"
  unfolding orders_def by (elim conjE) (drule bspec, assumption, drule bspec, assumption, assumption)

lemma orders_trans:
  assumes "orders cmp A" and x: "x \<in> A" and y: "y \<in> A" and z: "z \<in> A" and "cmp x y \<le> 0" and "cmp y z \<le> 0"
  shows "cmp x z \<le> 0"
proof -
  have "\<forall>x \<in> A. \<forall>y \<in> A. \<forall>z \<in> A. cmp x y \<le> 0 \<longrightarrow> cmp y z \<le> 0 \<longrightarrow> cmp x z \<le> 0"
    using assms(1) unfolding orders_def by (rule conjunct2)
  from bspec [OF bspec [OF bspec [OF this x] y] z] show ?thesis using assms(5,6) by simp
qed

lemma orders_subset:
  assumes "orders cmp A" and "B \<subseteq> A"
  shows "orders cmp B"
  unfolding orders_def
proof (intro conjI ballI impI)
  fix x y
  assume xy: "x \<in> B" "y \<in> B"
  then have A: "x \<in> A" "y \<in> A" using assms(2) by auto
  show "cmp x y \<le> 0 \<or> cmp y x \<le> 0" by (rule orders_total [OF assms(1) A])
  fix z
  assume "z \<in> B" and le: "cmp x y \<le> 0" "cmp y z \<le> 0"
  then have "z \<in> A" using assms(2) by auto
  then show "cmp x z \<le> 0" by (rule orders_trans [OF assms(1) A _ le])
qed

lemma sorted_insertBy:
  assumes "orders cmp A" and "x \<in> A" and "set ys \<subseteq> A" and "sorted_wrt (\<lambda>a b. cmp a b \<le> 0) ys"
  shows "sorted_wrt (\<lambda>a b. cmp a b \<le> 0) (insertBy cmp x ys)"
  using assms(3,4)
proof (induction ys)
  case Nil
  then show ?case by simp
next
  case (Cons y ys)
  have y: "y \<in> A" "set ys \<subseteq> A" "\<forall>z \<in> set ys. cmp y z \<le> 0" "sorted_wrt (\<lambda>a b. cmp a b \<le> 0) ys"
    using Cons.prems by simp_all
  show ?case
  proof (cases "cmp x y \<le> 0")
    case True
    have "cmp x z \<le> 0" if "z \<in> set ys" for z
      using orders_trans [OF assms(1,2) y(1) _ True] y that by blast
    then show ?thesis using True Cons.prems by simp
  next
    case False
    have "cmp y x \<le> 0" using orders_total [OF assms(1,2) y(1)] False by simp
    then show ?thesis using False Cons.IH y by simp
  qed
qed

lemma sorted_sortBy:
  assumes "orders cmp (set xs)"
  shows "sorted_wrt (\<lambda>a b. cmp a b \<le> 0) (sortBy cmp xs)"
proof -
  have "orders cmp A \<Longrightarrow> set xs \<subseteq> A \<Longrightarrow> sorted_wrt (\<lambda>a b. cmp a b \<le> 0) (sortBy cmp xs) \<and> set (sortBy cmp xs) \<subseteq> A" for A
  proof (induction xs)
    case Nil
    then show ?case by (simp add: sortBy_def)
  next
    case (Cons x xs)
    then have "sorted_wrt (\<lambda>a b. cmp a b \<le> 0) (insertBy cmp x (sortBy cmp xs))"
      by (intro sorted_insertBy [of cmp A]) auto
    then show ?case using Cons by (auto simp: sortBy_def)
  qed
  then show ?thesis using assms by blast
qed

text \<open>The first element is one of the least, and the first of them.\<close>

lemma hd_sortBy_least:
  assumes "orders cmp (set xs)" and "x \<in> set xs"
  shows "cmp (hd (sortBy cmp xs)) x \<le> 0"
proof -
  have ne: "sortBy cmp xs \<noteq> []" using assms(2) by auto
  then obtain y ys where s: "sortBy cmp xs = y # ys" by (cases "sortBy cmp xs") auto
  have "x = y \<or> x \<in> set ys" using assms(2) set_sortBy [of cmp xs] unfolding s by auto
  moreover have "cmp y x \<le> 0" if "x \<in> set ys" using sorted_sortBy [OF assms(1)] that by (simp add: s)
  moreover have "cmp y y \<le> 0" using orders_total [OF assms(1), of y y] set_sortBy [of cmp xs] by (auto simp: s)
  ultimately show ?thesis by (auto simp: s)
qed

text \<open>A comparator that subtracts keys orders everything.\<close>

lemma orders_key: "orders (\<lambda>x y. f x - f y) A"
  by (auto simp: orders_def)

text \<open>Comparing by a first comparator, and by a second one where the first does not decide.\<close>

lemma orders_lex:
  assumes "\<And>x y. x \<in> A \<Longrightarrow> y \<in> A \<Longrightarrow> cmp x y = (if f x = f y then g x y else f x - f y)" and "orders g A"
  shows "orders cmp A"
  unfolding orders_def
proof (intro conjI ballI impI)
  fix x y
  assume xy: "x \<in> A" "y \<in> A"
  show "cmp x y \<le> 0 \<or> cmp y x \<le> 0"
    using assms(1) [OF xy] assms(1) [OF xy(2,1)] orders_total [OF assms(2) xy] by (auto split: if_splits)
  fix z
  assume z: "z \<in> A" and le: "cmp x y \<le> 0" "cmp y z \<le> 0"
  show "cmp x z \<le> 0"
    using assms(1) [OF xy] assms(1) [OF xy(2) z] assms(1) [OF xy(1) z] le orders_trans [OF assms(2) xy z]
    by (auto split: if_splits)
qed

end
