(* ===== verification/QuotaCache.thy ===== *)
theory QuotaCache
  imports QuotaWindows SortBy
begin

text \<open>
  The cache of provider quotas per connection: \<open>src/domain/quotaCache.ts\<close>, with the snapshots it persists
  (\<open>src/lib/db/quotaSnapshots.ts\<close>). Percentages are rational. A refresh is split at its await; what the upstream
  answers is an argument. Writes of snapshots, which the code does not await, take effect at once. The events of
  \<open>quotaResetEvents.ts\<close>, cleanup by age and failures of the database are left out. \<open>cmp\<close> stands for
  \<open>localeCompare\<close>.
\<close>

section \<open>State\<close>

record cached_quota =
  cq_remaining :: rat
  cq_resetAt :: "date_text option"
  cq_scope :: "window_scope option"
  cq_model :: "string option"

record quota_entry =
  qn_provider :: string
  qn_quotas :: "(string, cached_quota) jmap"
  qn_fetchedAt :: millis
  qn_exhausted :: bool
  qn_nextResetAt :: "date_text option"
  qn_windowDurationMs :: "millis option"

record quota_snapshot =
  sn_provider :: string
  sn_connection :: string
  sn_window :: string
  sn_remaining :: rat
  sn_exhausted :: bool
  sn_nextReset :: "date_text option"
  sn_windowDurationMs :: "millis option"
  sn_createdAt :: millis

text \<open>The rows of the table in the order of their ids, and the cache of the latest rows of a connection.\<close>

record snapshot_store =
  sq_rows :: "quota_snapshot list"
  sq_latest :: "(string, quota_snapshot list \<times> millis) jmap"

record quota_cache =
  qk_cache :: "(string, quota_entry) jmap"
  qk_refreshing :: "string list"
  qk_tickRunning :: bool
  qk_snapshots :: snapshot_store

definition emptyQuotaCache :: quota_cache where
  "emptyQuotaCache = \<lparr>qk_cache = [], qk_refreshing = [], qk_tickRunning = False, qk_snapshots = \<lparr>sq_rows = [], sq_latest = []\<rparr>\<rparr>"

definition ACTIVE_TTL_MS :: millis where "ACTIVE_TTL_MS = 5 * 60 * 1000"
definition EXHAUSTED_TTL_MS :: millis where "EXHAUSTED_TTL_MS = 5 * 60 * 1000"
definition EXHAUSTED_REFRESH_MS :: millis where "EXHAUSTED_REFRESH_MS = 5 * 60 * 1000"
definition DEFAULT_QUOTA_THRESHOLD_PERCENT :: rat where "DEFAULT_QUOTA_THRESHOLD_PERCENT = 99"
definition MAX_CONCURRENT_REFRESHES :: nat where "MAX_CONCURRENT_REFRESHES = 5"
definition LATEST_SNAPSHOT_CACHE_TTL_MS :: millis where "LATEST_SNAPSHOT_CACHE_TTL_MS = 60000"

section \<open>Snapshots\<close>

text \<open>The latest row of a window; of rows of the same time the one with the largest id.\<close>

fun latestRow :: "quota_snapshot list \<Rightarrow> quota_snapshot option \<Rightarrow> quota_snapshot option" where
  "latestRow [] best = best"
| "latestRow (r # rs) best =
     latestRow rs (case best of None \<Rightarrow> Some r | Some b \<Rightarrow> if sn_createdAt b \<le> sn_createdAt r then Some r else best)"

text \<open>The query leaves the order of the windows open; here it is that of their first rows.\<close>

definition loadLatestSnapshotsForConnection :: "string \<Rightarrow> snapshot_store \<Rightarrow> quota_snapshot list" where
  "loadLatestSnapshotsForConnection c s =
     (let rows = filter (\<lambda>r. sn_connection r = c) (sq_rows s)
      in List.map_filter (\<lambda>w. latestRow (filter (\<lambda>r. sn_window r = w) rows) None) (rev (remdups (rev (map sn_window rows)))))"

definition applySnapshotToCache :: "quota_snapshot \<Rightarrow> millis \<Rightarrow> snapshot_store \<Rightarrow> snapshot_store" where
  "applySnapshotToCache r now s =
     (let known = jget (sn_connection r) (sq_latest s);
          rows = (case known of Some (rows, t) \<Rightarrow> rows | None \<Rightarrow> []);
          rows' = filter (\<lambda>x. sn_window x \<noteq> sn_window r) rows @ [r]
      in s\<lparr>sq_latest := jset (sn_connection r) (rows', if known = None then 0 else now) (sq_latest s)\<rparr>)"

definition saveQuotaSnapshot :: "quota_snapshot \<Rightarrow> millis \<Rightarrow> snapshot_store \<Rightarrow> snapshot_store" where
  "saveQuotaSnapshot r now s = applySnapshotToCache r now (s\<lparr>sq_rows := sq_rows s @ [r]\<rparr>)"

text \<open>\<open>primeLatestQuotaSnapshots\<close>, and the load that a stale read starts in the background.\<close>

definition primeLatestQuotaSnapshots :: "string \<Rightarrow> millis \<Rightarrow> snapshot_store \<Rightarrow> snapshot_store" where
  "primeLatestQuotaSnapshots c now s = s\<lparr>sq_latest := jset c (loadLatestSnapshotsForConnection c s, now) (sq_latest s)\<rparr>"

definition snapshotsStale :: "string \<Rightarrow> millis \<Rightarrow> snapshot_store \<Rightarrow> bool" where
  "snapshotsStale c now s \<longleftrightarrow> (case jget c (sq_latest s) of None \<Rightarrow> True | Some (rows, t) \<Rightarrow> LATEST_SNAPSHOT_CACHE_TTL_MS \<le> now - t)"

definition getLatestQuotaSnapshotsForConnectionSync :: "string \<Rightarrow> snapshot_store \<Rightarrow> quota_snapshot list" where
  "getLatestQuotaSnapshotsForConnectionSync c s = (case jget c (sq_latest s) of Some (rows, t) \<Rightarrow> rows | None \<Rightarrow> [])"

section \<open>Windows\<close>

definition isExhausted :: "(string, cached_quota) jmap \<Rightarrow> bool" where
  "isExhausted quotas \<longleftrightarrow> quotas \<noteq> [] \<and> (\<forall>p \<in> set quotas. cq_remaining (snd p) \<le> 0)"

definition resetPassed :: "date_text option \<Rightarrow> millis \<Rightarrow> bool" where
  "resetPassed resetAt now \<longleftrightarrow> (case Option.bind resetAt dt_date of Some t \<Rightarrow> t \<le> now | None \<Rightarrow> False)"

text \<open>\<open>advancedWindowResetAt\<close> answers that the window is renewed or nothing.\<close>

definition advancedWindowResetAt :: "quota_entry \<Rightarrow> millis \<Rightarrow> bool" where
  "advancedWindowResetAt e now \<longleftrightarrow> resetPassed (qn_nextResetAt e) now"

definition clampQuotaPercent :: "rat \<Rightarrow> rat" where
  "clampQuotaPercent v = max 0 (min 100 v)"

definition isAlphaNum :: "char \<Rightarrow> bool" where
  "isAlphaNum c \<longleftrightarrow> (let n = (of_char c :: nat) in 97 \<le> n \<and> n \<le> 122 \<or> 48 \<le> n \<and> n \<le> 57)"

text \<open>A run of other characters becomes one space; the flag tells that one has just been written.\<close>

fun spaceRuns :: "bool \<Rightarrow> string \<Rightarrow> string" where
  "spaceRuns blank [] = []"
| "spaceRuns blank (c # cs) =
     (if isAlphaNum c then c # spaceRuns False cs else if blank then spaceRuns True cs else CHR '' '' # spaceRuns True cs)"

definition normalizeWindowKey :: "string \<Rightarrow> string" where
  "normalizeWindowKey value = trim (spaceRuns False (toLowerCase value))"

definition resolveQuotaWindow :: "(string \<Rightarrow> string \<Rightarrow> rat) \<Rightarrow> (string, cached_quota) jmap \<Rightarrow> string \<Rightarrow> cached_quota option" where
  "resolveQuotaWindow cmp quotas windowName =
     (case jget windowName quotas of
        Some q \<Rightarrow> Some q
      | None \<Rightarrow>
          (let target = normalizeWindowKey windowName
           in if target = [] then None
              else (case find (\<lambda>p. normalizeWindowKey (fst p) = target) quotas of
                      Some p \<Rightarrow> Some (snd p)
                    | None \<Rightarrow>
                        (case sortBy (\<lambda>a b. cmp (fst a) (fst b))
                                (filter (\<lambda>p. starts_with (target @ '' '') (normalizeWindowKey (fst p))) quotas) of
                           [] \<Rightarrow> None
                         | p # ps \<Rightarrow> Some (snd p)))))"

fun earliestReset :: "(string \<times> cached_quota) list \<Rightarrow> (date_text \<times> millis) option \<Rightarrow> (date_text \<times> millis) option" where
  "earliestReset [] best = best"
| "earliestReset (p # ps) best =
     earliestReset ps
       (case cq_resetAt (snd p) of
          None \<Rightarrow> best
        | Some d \<Rightarrow> (case dt_date d of
            None \<Rightarrow> best
          | Some t \<Rightarrow> (case best of None \<Rightarrow> Some (d, t) | Some (_, t') \<Rightarrow> if t < t' then Some (d, t) else best)))"

definition earliestResetAt :: "(string, cached_quota) jmap \<Rightarrow> date_text option" where
  "earliestResetAt quotas = map_option fst (earliestReset quotas None)"

definition quotaSnapshotChanged :: "quota_entry option \<Rightarrow> string \<Rightarrow> rat \<Rightarrow> bool \<Rightarrow> bool" where
  "quotaSnapshotChanged prior windowKey remaining exhausted =
     (case prior of
        None \<Rightarrow> True
      | Some e \<Rightarrow> (case jget windowKey (qn_quotas e) of
          None \<Rightarrow> True
        | Some q \<Rightarrow> cq_remaining q \<noteq> remaining \<or> qn_exhausted e \<noteq> exhausted))"

text \<open>What a fetcher reports of a window; figures that are not finite numbers are \<open>None\<close>.\<close>

record raw_quota =
  rq_remainingPercentage :: "rat option"
  rq_total :: "rat option"
  rq_used :: "rat option"
  rq_resetAt :: "date_text option"
  rq_scope :: "window_scope option"
  rq_model :: "string option"

definition rawPercentage :: "raw_quota \<Rightarrow> rat" where
  "rawPercentage q =
     (case rq_remainingPercentage q of
        Some r \<Rightarrow> r
      | None \<Rightarrow> (case rq_total q of
          Some t \<Rightarrow> if 0 < t then of_int \<lfloor>(t - nullish (rq_used q) 0) / t * 100 + 1 / 2\<rfloor> else 0
        | None \<Rightarrow> 0))"

definition withWindowScope :: "string \<Rightarrow> cached_quota \<Rightarrow> cached_quota" where
  "withWindowScope key info =
     (if cq_scope info \<noteq> None \<or> \<not> isCodexSparkQuotaKey key then info
      else info\<lparr>cq_scope := Some ModelScope, cq_model := Some CODEX_SPARK_MODEL_ID\<rparr>)"

definition normalizeQuotas :: "(string \<times> raw_quota) list \<Rightarrow> (string, cached_quota) jmap" where
  "normalizeQuotas raw =
     map (\<lambda>(k, q). (k, withWindowScope k \<lparr>cq_remaining = rawPercentage q, cq_resetAt = rq_resetAt q, cq_scope = rq_scope q,
        cq_model = (if noText (rq_model q) then None else rq_model q)\<rparr>)) raw"

section \<open>Storing\<close>

definition newEntry :: "string \<Rightarrow> (string, cached_quota) jmap \<Rightarrow> millis \<Rightarrow> millis option \<Rightarrow> quota_entry" where
  "newEntry provider quotas fetchedAt duration =
     \<lparr>qn_provider = provider, qn_quotas = quotas, qn_fetchedAt = fetchedAt, qn_exhausted = isExhausted quotas,
      qn_nextResetAt = (if isExhausted quotas then earliestResetAt quotas else None), qn_windowDurationMs = duration\<rparr>"

text \<open>The snapshots of a stored quota: one for each window whose figures differ from the entry before.\<close>

definition snapshotsOf :: "string \<Rightarrow> string \<Rightarrow> (string \<times> raw_quota) list \<Rightarrow> quota_entry option \<Rightarrow> millis \<Rightarrow> quota_snapshot list" where
  "snapshotsOf c provider raw prior now =
     map (\<lambda>(w, q). \<lparr>sn_provider = provider, sn_connection = c, sn_window = w, sn_remaining = rawPercentage q,
            sn_exhausted = (rawPercentage q \<le> 0), sn_nextReset = rq_resetAt q, sn_windowDurationMs = None, sn_createdAt = now\<rparr>)
       (filter (\<lambda>(w, q). quotaSnapshotChanged prior w (rawPercentage q) (rawPercentage q \<le> 0)) raw)"

definition setQuotaCache :: "string \<Rightarrow> string \<Rightarrow> (string \<times> raw_quota) list \<Rightarrow> millis \<Rightarrow> quota_cache \<Rightarrow> quota_cache" where
  "setQuotaCache c provider raw now s =
     (let prior = jget c (qk_cache s)
      in s\<lparr>qk_cache := jset c (newEntry provider (normalizeQuotas raw) now None) (qk_cache s),
           qk_snapshots := fold (\<lambda>r. saveQuotaSnapshot r now) (snapshotsOf c provider raw prior now) (qk_snapshots s)\<rparr>)"

definition getQuotaCache :: "string \<Rightarrow> quota_cache \<Rightarrow> quota_entry option" where
  "getQuotaCache c s = jget c (qk_cache s)"

text \<open>The entry that the latest snapshots of a connection give.\<close>

definition snapshotQuotas :: "quota_snapshot list \<Rightarrow> (string, cached_quota) jmap" where
  "snapshotQuotas rows =
     fold (\<lambda>r. jset (sn_window r) (withWindowScope (sn_window r)
            \<lparr>cq_remaining = clampQuotaPercent (sn_remaining r), cq_resetAt = sn_nextReset r, cq_scope = None, cq_model = None\<rparr>))
       (filter (\<lambda>r. sn_window r \<noteq> []) rows) []"

definition hydratedEntry :: "quota_snapshot list \<Rightarrow> millis \<Rightarrow> quota_entry option" where
  "hydratedEntry rows now =
     (let used = filter (\<lambda>r. sn_window r \<noteq> []) rows;
          provider = (case filter (\<lambda>r. sn_provider r \<noteq> []) used of [] \<Rightarrow> [] | r # rs \<Rightarrow> sn_provider r);
          fetchedAt = fold (\<lambda>r. max (sn_createdAt r)) used 0;
          duration = fold (\<lambda>r d. case sn_windowDurationMs r of Some n \<Rightarrow> if 0 < n then Some n else d | None \<Rightarrow> d) used None
      in if used = [] then None
         else Some (newEntry provider (snapshotQuotas rows) (if fetchedAt = 0 then now else fetchedAt) duration))"

text \<open>What a read finds, and what it leaves in the cache.\<close>

definition entryOf :: "string \<Rightarrow> millis \<Rightarrow> quota_cache \<Rightarrow> quota_entry option" where
  "entryOf c now s =
     (case jget c (qk_cache s) of
        Some e \<Rightarrow> Some e
      | None \<Rightarrow> hydratedEntry (getLatestQuotaSnapshotsForConnectionSync c (qk_snapshots s)) now)"

definition hydrateQuotaCacheFromSnapshots :: "string \<Rightarrow> millis \<Rightarrow> quota_cache \<Rightarrow> quota_cache" where
  "hydrateQuotaCacheFromSnapshots c now s =
     (case (jget c (qk_cache s), entryOf c now s) of
        (None, Some e) \<Rightarrow> s\<lparr>qk_cache := jset c e (qk_cache s)\<rparr>
      | _ \<Rightarrow> s)"

section \<open>Reading\<close>

record window_status =
  ws_remaining :: rat
  ws_used :: rat
  ws_resetAt :: "date_text option"
  ws_reached :: bool
  ws_scope :: "window_scope option"
  ws_model :: "string option"

definition windowStatusOf :: "cached_quota \<Rightarrow> rat \<Rightarrow> millis \<Rightarrow> window_status" where
  "windowStatusOf w threshold now =
     (let remaining = clampQuotaPercent (cq_remaining w); used = clampQuotaPercent (100 - remaining)
      in \<lparr>ws_remaining = remaining, ws_used = used,
          ws_resetAt = (if resetPassed (cq_resetAt w) now then None else cq_resetAt w),
          ws_reached = (\<not> resetPassed (cq_resetAt w) now \<and> threshold \<le> used),
          ws_scope = cq_scope w, ws_model = cq_model w\<rparr>)"

definition getQuotaWindowStatus ::
  "(string \<Rightarrow> string \<Rightarrow> rat) \<Rightarrow> string \<Rightarrow> string \<Rightarrow> rat \<Rightarrow> millis \<Rightarrow> quota_cache \<Rightarrow> window_status option" where
  "getQuotaWindowStatus cmp c windowName threshold now s =
     (case entryOf c now s of
        None \<Rightarrow> None
      | Some e \<Rightarrow> map_option (\<lambda>w. windowStatusOf w threshold now) (resolveQuotaWindow cmp (qn_quotas e) windowName))"

definition windowSpent :: "(string \<Rightarrow> string \<Rightarrow> rat) \<Rightarrow> string \<Rightarrow> millis \<Rightarrow> quota_cache \<Rightarrow> string \<Rightarrow> bool" where
  "windowSpent cmp c now s windowName = (case getQuotaWindowStatus cmp c windowName 100 now s of Some st \<Rightarrow> ws_reached st | None \<Rightarrow> False)"

definition stripAntigravity :: "string \<Rightarrow> string" where
  "stripAntigravity name =
     (if starts_with ''antigravity/'' name then drop 12 name else if starts_with ''agy/'' name then drop 4 name else name)"

definition isAntigravityQuotaExhausted ::
  "(string \<Rightarrow> string \<Rightarrow> rat) \<Rightarrow> string \<Rightarrow> quota_entry \<Rightarrow> string option \<Rightarrow> millis \<Rightarrow> quota_cache \<Rightarrow> bool" where
  "isAntigravityQuotaExhausted cmp c e model now s =
     (if noText model \<or> qn_quotas e = [] then qn_exhausted e
      else (let family = getAntigravityQuotaFamily (the model);
                matching = filter (\<lambda>w. if family = OtherFamily then stripAntigravity w = stripAntigravity (the model)
                                        else getAntigravityQuotaFamily w = family) (jkeys (qn_quotas e))
            in matching \<noteq> [] \<and> (\<forall>w \<in> set matching. windowSpent cmp c now s w)))"

definition isCodexQuotaExhausted ::
  "(string \<Rightarrow> string \<Rightarrow> rat) \<Rightarrow> string \<Rightarrow> quota_entry \<Rightarrow> string option \<Rightarrow> millis \<Rightarrow> quota_cache \<Rightarrow> bool" where
  "isCodexQuotaExhausted cmp c e model now s =
     (if noText model \<or> qn_quotas e = [] then qn_exhausted e
      else (let scoped = filter (\<lambda>w. case getCodexQuotaWindowFilterForModel model of Some f \<Rightarrow> f w | None \<Rightarrow> False) (jkeys (qn_quotas e))
            in scoped \<noteq> [] \<and> (\<forall>w \<in> set scoped. windowSpent cmp c now s w)))"

definition isStandardQuotaExhausted :: "quota_entry \<Rightarrow> millis \<Rightarrow> bool" where
  "isStandardQuotaExhausted e now \<longleftrightarrow>
     qn_exhausted e \<and> \<not> (qn_nextResetAt e = None \<and> EXHAUSTED_TTL_MS < now - qn_fetchedAt e)"

definition isQuotaExhaustedForRequest ::
  "(string \<Rightarrow> string \<Rightarrow> rat) \<Rightarrow> string \<Rightarrow> string \<Rightarrow> string option \<Rightarrow> millis \<Rightarrow> quota_cache \<Rightarrow> bool" where
  "isQuotaExhaustedForRequest cmp c provider model now s =
     (case entryOf c now s of
        None \<Rightarrow> False
      | Some e \<Rightarrow>
          if advancedWindowResetAt e now then False
          else if provider = ''antigravity'' \<or> provider = ''agy'' then isAntigravityQuotaExhausted cmp c e model now s
          else if provider = ''codex'' then isCodexQuotaExhausted cmp c e model now s
          else isStandardQuotaExhausted e now)"

definition isAccountQuotaExhausted :: "string \<Rightarrow> millis \<Rightarrow> quota_cache \<Rightarrow> bool" where
  "isAccountQuotaExhausted c now s =
     (case entryOf c now s of
        None \<Rightarrow> False
      | Some e \<Rightarrow>
          if \<not> qn_exhausted e then False
          else if advancedWindowResetAt e now then False
          else \<not> (qn_nextResetAt e = None \<and> EXHAUSTED_TTL_MS < now - qn_fetchedAt e))"

text \<open>What both questions do to the cache: the entry is hydrated and, when its window is renewed, no longer exhausted.\<close>

definition clearRenewed :: "string \<Rightarrow> millis \<Rightarrow> quota_cache \<Rightarrow> quota_cache" where
  "clearRenewed c now s0 =
     (let s = hydrateQuotaCacheFromSnapshots c now s0
      in case jget c (qk_cache s) of
           Some e \<Rightarrow> if advancedWindowResetAt e now then s\<lparr>qk_cache := jset c (e\<lparr>qn_exhausted := False\<rparr>) (qk_cache s)\<rparr> else s
         | None \<Rightarrow> s)"

text \<open>
  Called by \<open>src/sse/handlers/chat.ts\<close> only where \<open>shouldMarkAccountExhaustedFrom429\<close> (\<open>ModelLockout\<close>) allows it: the failure is no
  plain rate limit and the provider keeps quota signals of the account rather than of a model.
\<close>

definition markAccountExhaustedFrom429 :: "string \<Rightarrow> string \<Rightarrow> millis \<Rightarrow> quota_cache \<Rightarrow> quota_cache" where
  "markAccountExhaustedFrom429 c provider now s =
     s\<lparr>qk_cache := jset c \<lparr>qn_provider = provider, qn_quotas = [], qn_fetchedAt = now, qn_exhausted = True,
        qn_nextResetAt = None, qn_windowDurationMs = None\<rparr> (qk_cache s)\<rparr>"

section \<open>The background refresh\<close>

definition needsRefresh :: "quota_entry \<Rightarrow> millis \<Rightarrow> bool" where
  "needsRefresh e now =
     (if qn_exhausted e then resetPassed (qn_nextResetAt e) now \<or> EXHAUSTED_REFRESH_MS \<le> now - qn_fetchedAt e
      else ACTIVE_TTL_MS \<le> now - qn_fetchedAt e)"

definition batches :: "nat \<Rightarrow> 'a list \<Rightarrow> 'a list list" where
  "batches n xs = map (\<lambda>i. take n (drop (i * n) xs)) [0..<(length xs + n - 1) div n]"

text \<open>A tick answers the batches that it refreshes one after the other.\<close>

definition beginTick :: "millis \<Rightarrow> quota_cache \<Rightarrow> string list list \<times> quota_cache" where
  "beginTick now s =
     (if qk_tickRunning s then ([], s)
      else (batches MAX_CONCURRENT_REFRESHES (map fst (filter (\<lambda>p. needsRefresh (snd p) now) (qk_cache s))), s\<lparr>qk_tickRunning := True\<rparr>))"

definition endTick :: "quota_cache \<Rightarrow> quota_cache" where
  "endTick s = s\<lparr>qk_tickRunning := False\<rparr>"

definition beginRefresh :: "string \<Rightarrow> quota_cache \<Rightarrow> quota_cache" where
  "beginRefresh c s = (if c \<in> set (qk_refreshing s) then s else s\<lparr>qk_refreshing := qk_refreshing s @ [c]\<rparr>)"

text \<open>A refresh finds that the connection is gone, not OAuth or inactive, or a usage, or nothing (no quotas, or an error).\<close>

datatype refresh_outcome = ConnectionGone | UsageFetched "(string \<times> raw_quota) list" | NothingFetched

definition finishEntryRefresh :: "string \<Rightarrow> string \<Rightarrow> refresh_outcome \<Rightarrow> millis \<Rightarrow> quota_cache \<Rightarrow> quota_cache" where
  "finishEntryRefresh c provider outcome now s0 =
     (let s = s0\<lparr>qk_refreshing := removeAll c (qk_refreshing s0)\<rparr>
      in case outcome of
           ConnectionGone \<Rightarrow> s\<lparr>qk_cache := jdel c (qk_cache s)\<rparr>
         | UsageFetched raw \<Rightarrow> setQuotaCache c provider raw now s
         | NothingFetched \<Rightarrow> s)"

definition getQuotaCacheStats :: "millis \<Rightarrow> quota_cache \<Rightarrow> nat \<times> (string \<times> string \<times> bool \<times> date_text option \<times> millis) list" where
  "getQuotaCacheStats now s =
     (jsize (qk_cache s),
      map (\<lambda>(c, e). (take 8 c @ ''...'', qn_provider e, qn_exhausted e, qn_nextResetAt e, now - qn_fetchedAt e)) (qk_cache s))"

datatype cache_op =
    SetQuota string string "(string \<times> raw_quota) list" millis
  | Mark429 string string millis
  | AskExhausted string millis
  | AskWindow string millis
  | BeginTick millis
  | EndTick
  | BeginRefresh string
  | FinishRefresh string string refresh_outcome millis
  | PrimeSnapshots string millis

fun cacheOp :: "cache_op \<Rightarrow> quota_cache \<Rightarrow> quota_cache" where
  "cacheOp (SetQuota c p raw now) s = setQuotaCache c p raw now s"
| "cacheOp (Mark429 c p now) s = markAccountExhaustedFrom429 c p now s"
| "cacheOp (AskExhausted c now) s = clearRenewed c now s"
| "cacheOp (AskWindow c now) s = hydrateQuotaCacheFromSnapshots c now s"
| "cacheOp (BeginTick now) s = snd (beginTick now s)"
| "cacheOp EndTick s = endTick s"
| "cacheOp (BeginRefresh c) s = beginRefresh c s"
| "cacheOp (FinishRefresh c p outcome now) s = finishEntryRefresh c p outcome now s"
| "cacheOp (PrimeSnapshots c now) s = s\<lparr>qk_snapshots := primeLatestQuotaSnapshots c now (qk_snapshots s)\<rparr>"

end
