(* ===== verification/QuotaCacheLaws.thy ===== *)
theory QuotaCacheLaws
  imports QuotaCache
begin

text \<open>
  Which refreshes write snapshots; what a restart keeps of the readings of an account, and what it loses.
\<close>

section \<open>Snapshots of an idle account\<close>

lemma save_rows [simp]: "sq_rows (saveQuotaSnapshot r now s) = sq_rows s @ [r]"
  by (simp add: saveQuotaSnapshot_def applySnapshotToCache_def Let_def)

lemma saves_rows [simp]: "sq_rows (fold (\<lambda>r. saveQuotaSnapshot r now) rs s) = sq_rows s @ rs"
  by (induction rs arbitrary: s) simp_all

lemma set_rows: "sq_rows (qk_snapshots (setQuotaCache c p raw now s))
    = sq_rows (qk_snapshots s) @ snapshotsOf c p raw (jget c (qk_cache s)) now"
  by (simp add: setQuotaCache_def Let_def)

lemma set_entry [simp]: "jget c (qk_cache (setQuotaCache c p raw now s)) = Some (newEntry p (normalizeQuotas raw) now None)"
  by (simp add: setQuotaCache_def Let_def)

lemma normalize_keys [simp]: "map fst (normalizeQuotas raw) = map fst raw"
  by (induction raw) (auto simp: normalizeQuotas_def)

lemma scope_keeps [simp]:
  "cq_remaining (withWindowScope k q) = cq_remaining q" "cq_resetAt (withWindowScope k q) = cq_resetAt q"
  by (simp_all add: withWindowScope_def)

lemma normalize_get:
  "distinct (map fst raw) \<Longrightarrow> (w, q) \<in> set raw \<Longrightarrow>
    \<exists>u. jget w (normalizeQuotas raw) = Some u \<and> cq_remaining u = rawPercentage q \<and> cq_resetAt u = rq_resetAt q"
proof (induction raw)
  case (Cons p raw)
  then show ?case
    by (cases p) (force simp: normalizeQuotas_def jget_Cons)
qed simp

lemma exhausted_iff: "isExhausted (normalizeQuotas raw) \<longleftrightarrow> raw \<noteq> [] \<and> (\<forall>(w, q) \<in> set raw. rawPercentage q \<le> 0)"
  by (auto simp: isExhausted_def normalizeQuotas_def)

lemma idle_snapshots:
  assumes "distinct (map fst raw)"
  shows "length (snapshotsOf c p raw (Some (newEntry p (normalizeQuotas raw) t None)) now)
    = length (filter (\<lambda>(w, q). (rawPercentage q \<le> 0) \<noteq> isExhausted (normalizeQuotas raw)) raw)"
proof -
  have "quotaSnapshotChanged (Some (newEntry p (normalizeQuotas raw) t None)) w (rawPercentage q) (rawPercentage q \<le> 0)
      \<longleftrightarrow> (rawPercentage q \<le> 0) \<noteq> isExhausted (normalizeQuotas raw)" if "(w, q) \<in> set raw" for w q
    using normalize_get [OF assms that] by (auto simp: quotaSnapshotChanged_def newEntry_def)
  then show ?thesis unfolding snapshotsOf_def length_map by (intro arg_cong [where f = length] filter_cong) auto
qed

text \<open>
  C37. Refreshes of an idle account write a snapshot for every depleted window of an account that still has quota in
  another. The flag of the window is compared with the flag of the whole account, so \<open>n\<close> refreshes that bring nothing
  new add \<open>n\<close> rows for each such window; they add none when no window is depleted or all are.
\<close>

theorem idle_refreshes_write:
  assumes d: "distinct (map fst raw)" and s: "s = setQuotaCache c p raw t s0"
  shows "length (sq_rows (qk_snapshots (fold (setQuotaCache c p raw) ticks s)))
    = length (sq_rows (qk_snapshots s))
      + (if \<forall>(w, q) \<in> set raw. rawPercentage q \<le> 0 then 0
         else length ticks * length (filter (\<lambda>(w, q). rawPercentage q \<le> 0) raw))"
proof -
  define k where "k = length (filter (\<lambda>(w, q). (rawPercentage q \<le> 0) \<noteq> isExhausted (normalizeQuotas raw)) raw)"
  have run: "length (sq_rows (qk_snapshots (fold (setQuotaCache c p raw) ticks u))) = length (sq_rows (qk_snapshots u)) + length ticks * k"
    if "jget c (qk_cache u) = Some (newEntry p (normalizeQuotas raw) t' None)" for u t'
    using that
  proof (induction ticks arbitrary: u t')
    case Nil
    then show ?case by simp
  next
    case (Cons now ticks)
    have "length (sq_rows (qk_snapshots (setQuotaCache c p raw now u))) = length (sq_rows (qk_snapshots u)) + k"
      using idle_snapshots [OF d] by (simp add: set_rows Cons.prems k_def)
    then show ?case using Cons.IH [OF set_entry] by simp
  qed
  have "k = (if \<forall>(w, q) \<in> set raw. rawPercentage q \<le> 0 then 0 else length (filter (\<lambda>(w, q). rawPercentage q \<le> 0) raw))"
  proof (cases "\<forall>(w, q) \<in> set raw. rawPercentage q \<le> 0")
    case True
    then have "filter (\<lambda>(w, q). (rawPercentage q \<le> 0) \<noteq> isExhausted (normalizeQuotas raw)) raw = []"
      unfolding exhausted_iff by (intro filter_False) auto
    then show ?thesis using True by (simp add: k_def)
  next
    case False
    then have ex: "isExhausted (normalizeQuotas raw) = False" unfolding exhausted_iff by blast
    have "k = length (filter (\<lambda>(w, q). rawPercentage q \<le> 0) raw)" unfolding k_def ex by simp
    then show ?thesis by (simp only: if_not_P [OF False])
  qed
  then show ?thesis using run [of s t] by (simp add: s)
qed

definition halfSpent :: "(string \<times> raw_quota) list" where
  "halfSpent = [(''session'', \<lparr>rq_remainingPercentage = Some 0, rq_total = None, rq_used = None, rq_resetAt = None, rq_scope = None, rq_model = None\<rparr>),
     (''weekly'', \<lparr>rq_remainingPercentage = Some 40, rq_total = None, rq_used = None, rq_resetAt = None, rq_scope = None, rq_model = None\<rparr>)]"

lemma idle_refreshes_write_witness:
  "length (sq_rows (qk_snapshots (fold (setQuotaCache ''c'' ''p'' halfSpent) [1, 2, 3] (setQuotaCache ''c'' ''p'' halfSpent 0 emptyQuotaCache)))) = 5"
proof -
  have "length (sq_rows (qk_snapshots (setQuotaCache ''c'' ''p'' halfSpent 0 emptyQuotaCache))) = 2" by code_simp
  then show ?thesis by (subst idle_refreshes_write [OF _ refl]) (auto simp: halfSpent_def rawPercentage_def)
qed

section \<open>A restart\<close>

lemma map_filter_Some: "(\<And>x. x \<in> set xs \<Longrightarrow> f x = Some (g x)) \<Longrightarrow> List.map_filter f xs = map g xs"
  by (induction xs) (simp_all add: List.map_filter_simps)

definition restoredQuota :: "quota_snapshot \<Rightarrow> cached_quota" where
  "restoredQuota r = withWindowScope (sn_window r)
     \<lparr>cq_remaining = clampQuotaPercent (sn_remaining r), cq_resetAt = sn_nextReset r, cq_scope = None, cq_model = None\<rparr>"

lemma snapshotQuotas_map:
  assumes "distinct (map sn_window rs)" and "\<forall>r \<in> set rs. sn_window r \<noteq> []"
  shows "snapshotQuotas rs = map (\<lambda>r. (sn_window r, restoredQuota r)) rs"
proof -
  have app: "distinct (map sn_window rs) \<Longrightarrow> (\<And>r. r \<in> set rs \<Longrightarrow> jget (sn_window r) m = None) \<Longrightarrow>
      fold (\<lambda>r. jset (sn_window r) (restoredQuota r)) rs m = m @ map (\<lambda>r. (sn_window r, restoredQuota r)) rs" for m
  proof (induction rs arbitrary: m)
    case (Cons r rs)
    have "jset (sn_window r) (restoredQuota r) m = m @ [(sn_window r, restoredQuota r)]"
      by (rule jset_absent) (use Cons.prems in simp)
    moreover have "jget (sn_window x) (jset (sn_window r) (restoredQuota r) m) = None" if "x \<in> set rs" for x
    proof -
      have "sn_window x \<noteq> sn_window r"
      proof
        assume "sn_window x = sn_window r"
        then have "sn_window r \<in> sn_window ` set rs" using that by (metis imageI)
        then show False using Cons.prems(1) by simp
      qed
      then show ?thesis using Cons.prems(2) that by simp
    qed
    ultimately show ?case using Cons.IH [of "jset (sn_window r) (restoredQuota r) m"] Cons.prems(1) by simp
  qed simp
  have "filter (\<lambda>r. sn_window r \<noteq> []) rs = rs" using assms(2) by simp
  then show ?thesis using app [OF assms(1), of "[]"] by (simp add: snapshotQuotas_def restoredQuota_def)
qed

text \<open>The process that starts anew with the rows of the old one, primed for a connection.\<close>

definition restartedFor :: "string \<Rightarrow> millis \<Rightarrow> quota_cache \<Rightarrow> quota_cache" where
  "restartedFor c now s = emptyQuotaCache\<lparr>qk_snapshots := primeLatestQuotaSnapshots c now \<lparr>sq_rows = sq_rows (qk_snapshots s), sq_latest = []\<rparr>\<rparr>"

text \<open>
  A reading of an account: the windows that a fetcher reports, and the time at which they are stored. The readings of an
  account that always has the same windows, with percentages from 0 to 100.
\<close>

type_synonym reading = "(string \<times> raw_quota) list \<times> millis"

definition steadyReadings :: "string set \<Rightarrow> reading list \<Rightarrow> bool" where
  "steadyReadings names hist \<longleftrightarrow> names \<noteq> {} \<and> [] \<notin> names \<and> sorted (map snd hist)
     \<and> (\<forall>(raw, t) \<in> set hist. 0 < t \<and> distinct (map fst raw) \<and> set (map fst raw) = names
          \<and> (\<forall>(w, q) \<in> set raw. 0 \<le> rawPercentage q \<and> rawPercentage q \<le> 100))"

definition percentOf :: "string \<Rightarrow> reading \<Rightarrow> rat" where
  "percentOf w m = (case jget w (fst m) of Some q \<Rightarrow> rawPercentage q | None \<Rightarrow> 0)"

definition resetOf :: "string \<Rightarrow> reading \<Rightarrow> date_text option" where
  "resetOf w m = (case jget w (fst m) of Some q \<Rightarrow> rq_resetAt q | None \<Rightarrow> None)"

text \<open>A reset time that a reading has reported since which the percentage of the window has not changed.\<close>

definition resetSince :: "string \<Rightarrow> reading list \<Rightarrow> date_text option \<Rightarrow> bool" where
  "resetSince w hist d \<longleftrightarrow> (\<exists>before m after. hist = before @ m # after \<and> d = resetOf w m \<and> (\<forall>m' \<in> set after. percentOf w m' = percentOf w m))"

lemma latestRow_append: "latestRow (xs @ ys) best = latestRow ys (latestRow xs best)"
  by (induction xs arbitrary: best) simp_all

lemma jget_normalize:
  "jget w (normalizeQuotas raw) = map_option (\<lambda>q. withWindowScope w \<lparr>cq_remaining = rawPercentage q, cq_resetAt = rq_resetAt q,
     cq_scope = rq_scope q, cq_model = (if noText (rq_model q) then None else rq_model q)\<rparr>) (jget w raw)"
  by (induction raw) (auto simp: normalizeQuotas_def jget_Cons)

lemma jget_in: "w \<in> fst ` set (raw :: (string \<times> 'b) list) \<Longrightarrow> \<exists>q. jget w raw = Some q \<and> (w, q) \<in> set raw"
  by (induction raw) (auto simp: jget_Cons)

lemma jget_unique: "distinct (map fst raw) \<Longrightarrow> (w, q) \<in> set (raw :: (string \<times> 'b) list) \<Longrightarrow> jget w raw = Some q"
  by (induction raw) (auto simp: jget_Cons, force)

text \<open>What is stored of an account after its readings.\<close>

definition storedRows :: "string \<Rightarrow> quota_cache \<Rightarrow> quota_snapshot list" where
  "storedRows c s = filter (\<lambda>r. sn_connection r = c) (sq_rows (qk_snapshots s))"

definition storedInv :: "string \<Rightarrow> string \<Rightarrow> string set \<Rightarrow> reading list \<Rightarrow> quota_cache \<Rightarrow> bool" where
  "storedInv c p names hist s \<longleftrightarrow>
     jget c (qk_cache s) = Some (newEntry p (normalizeQuotas (fst (last hist))) (snd (last hist)) None)
     \<and> sn_window ` set (storedRows c s) = names
     \<and> (\<forall>r \<in> set (storedRows c s). sn_provider r = p \<and> 0 < sn_createdAt r \<and> sn_createdAt r \<le> snd (last hist) \<and> sn_windowDurationMs r = None)
     \<and> (\<forall>w \<in> names. \<exists>r. latestRow (filter (\<lambda>r. sn_window r = w) (storedRows c s)) None = Some r
          \<and> sn_remaining r = percentOf w (last hist) \<and> resetSince w hist (sn_nextReset r))"

lemma stored_append:
  "storedRows c (setQuotaCache c p raw t s) = storedRows c s @ snapshotsOf c p raw (jget c (qk_cache s)) t"
proof -
  have "filter (\<lambda>r. sn_connection r = c) (snapshotsOf c p raw e t) = snapshotsOf c p raw e t" for e
    by (auto simp: snapshotsOf_def filter_id_conv)
  then show ?thesis by (simp add: storedRows_def set_rows)
qed

lemma snapshots_of_window:
  assumes "distinct (map fst raw)" and "(w, q) \<in> set raw"
  shows "filter (\<lambda>r. sn_window r = w) (snapshotsOf c p raw e t)
    = (if quotaSnapshotChanged e w (rawPercentage q) (rawPercentage q \<le> 0)
       then [\<lparr>sn_provider = p, sn_connection = c, sn_window = w, sn_remaining = rawPercentage q, sn_exhausted = (rawPercentage q \<le> 0),
              sn_nextReset = rq_resetAt q, sn_windowDurationMs = None, sn_createdAt = t\<rparr>] else [])"
  using assms
proof (induction raw)
  case (Cons x raw)
  obtain v u where x: "x = (v, u)" by (rule prod.exhaust)
  have tail: "filter (\<lambda>r. sn_window r = w) (snapshotsOf c p raw e t) = []" if "w \<notin> fst ` set raw"
    using that by (force simp: snapshotsOf_def filter_empty_conv)
  show ?case
  proof (cases "v = w")
    case True
    then have "w \<notin> fst ` set raw" "u = q" using Cons.prems x by force+
    then show ?thesis using tail True x by (simp add: snapshotsOf_def)
  next
    case False
    then show ?thesis using Cons x by (simp add: snapshotsOf_def)
  qed
qed simp

lemma resetSince_one: "resetSince w (hist @ [m]) (resetOf w m)"
  unfolding resetSince_def by (intro exI [of _ hist] exI [of _ m] exI [of _ "[]"]) simp

lemma resetSince_more:
  assumes "resetSince w hist d" and "hist \<noteq> []" and "percentOf w m = percentOf w (last hist)"
  shows "resetSince w (hist @ [m]) d"
proof -
  obtain before k after where k: "hist = before @ k # after" "d = resetOf w k" "\<forall>m' \<in> set after. percentOf w m' = percentOf w k"
    using assms(1) by (auto simp: resetSince_def)
  then have "percentOf w (last hist) = percentOf w k" by (cases "after = []") simp_all
  then show ?thesis unfolding resetSince_def using k assms(3)
    by (intro exI [of _ before] exI [of _ k] exI [of _ "after @ [m]"]) auto
qed

text \<open>A first reading stores a row for every window; a later one for those whose figures have changed.\<close>

lemma stored_step:
  assumes raw: "distinct (map fst raw)" "set (map fst raw) = names" "0 < t"
    and before: "hist = [] \<and> jget c (qk_cache s) = None \<and> storedRows c s = [] \<or> hist \<noteq> [] \<and> storedInv c p names hist s \<and> snd (last hist) \<le> t"
  shows "storedInv c p names (hist @ [(raw, t)]) (setQuotaCache c p raw t s)"
proof -
  define e where "e = jget c (qk_cache s)"
  define new where "new = snapshotsOf c p raw e t"
  have rows: "storedRows c (setQuotaCache c p raw t s) = storedRows c s @ new" by (simp add: stored_append new_def e_def)
  have fields: "sn_provider r = p \<and> sn_createdAt r = t \<and> sn_windowDurationMs r = None \<and> sn_window r \<in> names" if "r \<in> set new" for r
    using that raw(2) by (force simp: new_def snapshotsOf_def)
  have old: "sn_provider r = p \<and> 0 < sn_createdAt r \<and> sn_createdAt r \<le> t \<and> sn_windowDurationMs r = None \<and> sn_window r \<in> names"
    if "r \<in> set (storedRows c s)" for r
    using that before by (force simp: storedInv_def)
  have latest: "\<exists>r. latestRow (filter (\<lambda>r. sn_window r = w) (storedRows c s @ new)) None = Some r
      \<and> sn_remaining r = percentOf w (raw, t) \<and> resetSince w (hist @ [(raw, t)]) (sn_nextReset r)" if w: "w \<in> names" for w
  proof -
    obtain q where q: "jget w raw = Some q" "(w, q) \<in> set raw" using w raw(2) jget_in [of w raw] by auto
    have pct: "percentOf w (raw, t) = rawPercentage q" "resetOf w (raw, t) = rq_resetAt q" using q by (simp_all add: percentOf_def resetOf_def)
    note new_w = snapshots_of_window [OF raw(1) q(2), of c p e t, folded new_def]
    define best where "best = latestRow (filter (\<lambda>r. sn_window r = w) (storedRows c s)) None"
    show ?thesis
    proof (cases "quotaSnapshotChanged e w (rawPercentage q) (rawPercentage q \<le> 0)")
      case True
      have mem: "latestRow xs b = Some r \<Longrightarrow> r \<in> set xs \<or> b = Some r" for xs b r
        by (induction xs arbitrary: b) (auto split: option.splits if_splits)
      have "sn_createdAt b \<le> t" if "best = Some b" for b
      proof -
        have "b \<in> set (storedRows c s)" using mem [OF that [unfolded best_def]] by simp
        then show ?thesis using old by blast
      qed
      then show ?thesis using True new_w pct resetSince_one [of w hist "(raw, t)"]
        by (auto simp: latestRow_append best_def [symmetric] split: option.split)
    next
      case False
      then have he: "hist \<noteq> []" "storedInv c p names hist s" using before by (auto simp: e_def quotaSnapshotChanged_def)
      obtain r where r: "best = Some r" "sn_remaining r = percentOf w (last hist)" "resetSince w hist (sn_nextReset r)"
        using he(2) w by (auto simp: storedInv_def best_def)
      have "e = Some (newEntry p (normalizeQuotas (fst (last hist))) (snd (last hist)) None)" using he(2) by (simp add: storedInv_def e_def)
      then have "percentOf w (raw, t) = percentOf w (last hist)"
        using False unfolding pct by (auto simp: quotaSnapshotChanged_def newEntry_def jget_normalize percentOf_def split: option.splits)
      then show ?thesis using False new_w r resetSince_more [OF r(3) he(1)] by (auto simp: latestRow_append best_def [symmetric])
    qed
  qed
  have "sn_window ` set (storedRows c s @ new) = names"
  proof
    show "sn_window ` set (storedRows c s @ new) \<subseteq> names" using old fields by auto
    show "names \<subseteq> sn_window ` set (storedRows c s @ new)"
    proof
      fix w assume "w \<in> names"
      then obtain r where r: "latestRow (filter (\<lambda>r. sn_window r = w) (storedRows c s @ new)) None = Some r" using latest by blast
      have "filter (\<lambda>r. sn_window r = w) (storedRows c s @ new) \<noteq> []"
      proof
        assume "filter (\<lambda>r. sn_window r = w) (storedRows c s @ new) = []"
        then show False using r by (simp only: latestRow.simps option.distinct)
      qed
      then have "\<exists>r \<in> set (storedRows c s @ new). sn_window r = w" unfolding filter_empty_conv by blast
      then show "w \<in> sn_window ` set (storedRows c s @ new)" by blast
    qed
  qed
  then show ?thesis unfolding storedInv_def rows using latest old fields raw(3) by auto
qed

text \<open>The state after the readings of an account.\<close>

definition storeReadings :: "string \<Rightarrow> string \<Rightarrow> reading list \<Rightarrow> quota_cache \<Rightarrow> quota_cache" where
  "storeReadings c p hist s = fold (\<lambda>(raw, t). setQuotaCache c p raw t) hist s"

lemma stored_readings:
  assumes fresh: "jget c (qk_cache s) = None" "storedRows c s = []"
  shows "hist \<noteq> [] \<Longrightarrow> steadyReadings names hist \<Longrightarrow> storedInv c p names hist (storeReadings c p hist s)"
proof (induction hist rule: rev_induct)
  case (snoc m hist)
  obtain raw t where m: "m = (raw, t)" by (rule prod.exhaust)
  have raw: "distinct (map fst raw)" "set (map fst raw) = names" "0 < t" and st: "steadyReadings names hist"
    using snoc.prems(2) by (auto simp: m steadyReadings_def sorted_append)
  have run: "storeReadings c p (hist @ [(raw, t)]) s = setQuotaCache c p raw t (storeReadings c p hist s)" by (simp add: storeReadings_def)
  show ?case
  proof (cases "hist = []")
    case True
    then show ?thesis using stored_step [OF raw, of hist c s] fresh by (simp add: m storeReadings_def)
  next
    case False
    moreover have "snd (last hist) \<le> t" using snoc.prems(2) False by (auto simp: m steadyReadings_def sorted_append)
    ultimately show ?thesis using stored_step [OF raw, of hist c "storeReadings c p hist s" p] snoc.IH [OF False st] unfolding m run by simp
  qed
qed simp

text \<open>What the restarted process reads from the rows.\<close>

lemma restart_entry:
  assumes rows: "sn_window ` set (storedRows c s) = names" "names \<noteq> {}" "[] \<notin> names"
    and fields: "\<forall>r \<in> set (storedRows c s). sn_provider r = p \<and> 0 < sn_createdAt r \<and> sn_createdAt r \<le> t \<and> sn_windowDurationMs r = None" and "p \<noteq> []"
    and latest: "\<forall>w \<in> names. latestRow (filter (\<lambda>r. sn_window r = w) (storedRows c s)) None = Some (f w)"
  shows "\<exists>ws u. distinct ws \<and> set ws = names \<and> u \<le> t
    \<and> entryOf c now (restartedFor c now s) = Some (newEntry p (map (\<lambda>w. (w, restoredQuota (f w))) ws) u None)"
proof -
  define ws where "ws = rev (remdups (rev (map sn_window (storedRows c s))))"
  have ws: "distinct ws" "set ws = names" using rows(1) by (simp_all add: ws_def)
  have mem: "latestRow xs b = Some r \<Longrightarrow> r \<in> set xs \<or> b = Some r" for xs b r
    by (induction xs arbitrary: b) (auto split: option.splits if_splits)
  have f: "sn_window (f w) = w" "f w \<in> set (storedRows c s)" if "w \<in> names" for w
    using mem [of "filter (\<lambda>r. sn_window r = w) (storedRows c s)" None "f w"] latest that by auto
  have load: "loadLatestSnapshotsForConnection c \<lparr>sq_rows = sq_rows (qk_snapshots s), sq_latest = []\<rparr> = map f ws"
    unfolding loadLatestSnapshotsForConnection_def Let_def quota_cache.simps snapshot_store.simps storedRows_def [symmetric] ws_def [symmetric]
    by (rule map_filter_Some) (use latest ws in auto)
  have windows: "map sn_window (map f ws) = ws" unfolding map_map by (rule map_idI) (use f(1) ws in auto)
  have quotas: "snapshotQuotas (map f ws) = map (\<lambda>w. (w, restoredQuota (f w))) ws"
  proof -
    have "snapshotQuotas (map f ws) = map (\<lambda>r. (sn_window r, restoredQuota r)) (map f ws)"
      by (rule snapshotQuotas_map) (use windows ws rows(3) f(1) in auto)
    then show ?thesis unfolding map_map using f(1) ws(2) by simp
  qed
  have all: "filter (\<lambda>r. sn_window r \<noteq> []) (map f ws) = map f ws" "filter (\<lambda>r. sn_provider r \<noteq> []) (map f ws) = map f ws"
    using f fields rows(3) ws(2) \<open>p \<noteq> []\<close> by (auto simp: filter_id_conv)
  define u where "u = fold (\<lambda>r. max (sn_createdAt r)) (map f ws) 0"
  have ne: "map f ws \<noteq> []" using rows(2) ws(2) by auto
  have "fold (\<lambda>r. max (sn_createdAt r)) rs b \<le> t" if "\<forall>r \<in> set rs. sn_createdAt r \<le> t" "b \<le> t" for rs :: "quota_snapshot list" and b
    using that by (induction rs arbitrary: b) simp_all
  moreover obtain r where r: "r \<in> set (storedRows c s)" using rows(1,2) by (cases "storedRows c s") auto
  moreover have "0 \<le> t" using r fields by force
  ultimately have ut: "u \<le> t" unfolding u_def using f(2) ws(2) fields by simp
  have mono: "b \<le> fold (\<lambda>r. max (sn_createdAt r)) rs b" for rs :: "quota_snapshot list" and b
  proof (induction rs arbitrary: b)
    case (Cons r rs)
    then show ?case using order_trans [OF max.cobounded2 [of b "sn_createdAt r"] Cons [of "max (sn_createdAt r) b"]] by simp
  qed simp
  obtain w ws' where w: "ws = w # ws'" using ne by (cases ws) auto
  have wn: "w \<in> names" using ws(2) w by auto
  have "0 < sn_createdAt (f w)" using f(2) [OF wn] fields by blast
  then have u0: "0 < u" using mono [of "max (sn_createdAt (f w)) 0" "map f ws'"] by (simp add: u_def w)
  have dur: "fold (\<lambda>r d. case sn_windowDurationMs r of Some n \<Rightarrow> if 0 < n then Some n else d | None \<Rightarrow> d) rs None = None"
    if "\<forall>r \<in> set rs. sn_windowDurationMs r = None" for rs using that by (induction rs) simp_all
  have durs: "\<forall>r \<in> set (map f ws). sn_windowDurationMs r = None" using f(2) ws(2) fields by simp
  have prov: "sn_provider (f w) = p" using f(2) [OF wn] fields by blast
  have "hydratedEntry (map f ws) now = Some (newEntry p (map (\<lambda>w. (w, restoredQuota (f w))) ws) u None)"
    using ne all dur [OF durs] quotas u0 prov by (simp add: hydratedEntry_def Let_def u_def [symmetric]) (simp add: w)
  moreover have "entryOf c now (restartedFor c now s) = hydratedEntry (map f ws) now"
    by (simp add: entryOf_def restartedFor_def emptyQuotaCache_def primeLatestQuotaSnapshots_def getLatestQuotaSnapshotsForConnectionSync_def
        jget_Cons load)
  ultimately show ?thesis using ws ut by auto
qed

text \<open>
  C14. The figures of an account survive a restart. After any readings of an account that always reports the same windows,
  with percentages from 0 to 100, a new process reads from the snapshots the same windows with the same percentages, for
  the same provider, not younger than they are, and with the same answer to whether the account is exhausted. The reset
  time of a window is that of a reading since which its percentage has not changed.
\<close>

theorem restart_restores_quota:
  assumes fresh: "jget c (qk_cache s0) = None" "storedRows c s0 = []"
    and hist: "hist \<noteq> []" "steadyReadings names hist" and p: "p \<noteq> []"
  shows "\<exists>e e'. getQuotaCache c (storeReadings c p hist s0) = Some e
    \<and> entryOf c now (restartedFor c now (storeReadings c p hist s0)) = Some e'
    \<and> fst ` set (qn_quotas e') = fst ` set (qn_quotas e) \<and> qn_provider e' = qn_provider e \<and> qn_fetchedAt e' \<le> qn_fetchedAt e
    \<and> qn_exhausted e' = qn_exhausted e
    \<and> (\<forall>w \<in> names. \<exists>q q'. jget w (qn_quotas e) = Some q \<and> jget w (qn_quotas e') = Some q'
          \<and> cq_remaining q' = cq_remaining q \<and> cq_resetAt q = resetOf w (last hist) \<and> resetSince w hist (cq_resetAt q'))"
proof -
  define s where "s = storeReadings c p hist s0"
  define f where "f = (\<lambda>w. the (latestRow (filter (\<lambda>r. sn_window r = w) (storedRows c s)) None))"
  obtain raw t where m: "last hist = (raw, t)" by (rule prod.exhaust)
  have "(raw, t) \<in> set hist" using hist(1) m by (metis last_in_set)
  then have raw: "distinct (map fst raw)" "set (map fst raw) = names" "\<forall>(w, q) \<in> set raw. 0 \<le> rawPercentage q \<and> rawPercentage q \<le> 100"
    and names: "names \<noteq> {}" "[] \<notin> names" using hist(2) by (auto simp: steadyReadings_def)
  have inv: "storedInv c p names hist s" using stored_readings [OF fresh hist] by (simp add: s_def)
  have all: "latestRow (filter (\<lambda>r. sn_window r = w) (storedRows c s)) None = Some (f w)
      \<and> sn_remaining (f w) = percentOf w (raw, t) \<and> resetSince w hist (sn_nextReset (f w))" if w: "w \<in> names" for w
  proof -
    obtain r where "latestRow (filter (\<lambda>r. sn_window r = w) (storedRows c s)) None = Some r"
      "sn_remaining r = percentOf w (raw, t)" "resetSince w hist (sn_nextReset r)"
      using inv m w unfolding storedInv_def by auto
    then show ?thesis by (simp add: f_def)
  qed
  then have latest: "\<forall>w \<in> names. latestRow (filter (\<lambda>r. sn_window r = w) (storedRows c s)) None = Some (f w)"
    and f: "\<And>w. w \<in> names \<Longrightarrow> sn_remaining (f w) = percentOf w (raw, t)" "\<And>w. w \<in> names \<Longrightarrow> resetSince w hist (sn_nextReset (f w))"
    by blast+
  obtain ws u where e': "distinct ws" "set ws = names" "u \<le> t"
    "entryOf c now (restartedFor c now s) = Some (newEntry p (map (\<lambda>w. (w, restoredQuota (f w))) ws) u None)"
    using restart_entry [OF _ names _ p latest, of t now] inv m by (auto simp: storedInv_def)
  let ?qs = "map (\<lambda>w. (w, restoredQuota (f w))) ws"
  have range: "0 \<le> percentOf w (raw, t)" "percentOf w (raw, t) \<le> 100" if "w \<in> names" for w
    using that raw(2,3) jget_in [of w raw] by (auto simp: percentOf_def split: option.split)
  have rem: "cq_remaining (restoredQuota (f w)) = percentOf w (raw, t)" "cq_resetAt (restoredQuota (f w)) = sn_nextReset (f w)" if "w \<in> names" for w
    using f(1) [OF that] range [OF that] by (simp_all add: restoredQuota_def clampQuotaPercent_def)
  have pct: "rawPercentage q = percentOf w (raw, t)" if "(w, q) \<in> set raw" for w q
    using jget_unique [OF raw(1) that] by (simp add: percentOf_def)
  have ex: "isExhausted ?qs = isExhausted (normalizeQuotas raw)"
  proof -
    have "isExhausted ?qs \<longleftrightarrow> (\<forall>w \<in> names. percentOf w (raw, t) \<le> 0)" using e'(2) rem(1) names(1) by (auto simp: isExhausted_def)
    moreover have "isExhausted (normalizeQuotas raw) \<longleftrightarrow> (\<forall>w \<in> fst ` set raw. percentOf w (raw, t) \<le> 0)"
      using pct raw(2) names(1) unfolding exhausted_iff by fastforce
    ultimately show ?thesis unfolding raw(2) [symmetric] by simp
  qed
  have got: "jget w ?qs = Some (restoredQuota (f w))" if "w \<in> names" for w
    using that e'(1,2) by (intro jget_unique) (auto simp: comp_def)
  have "\<exists>q q'. jget w (normalizeQuotas raw) = Some q \<and> jget w ?qs = Some q' \<and> cq_remaining q' = cq_remaining q
      \<and> cq_resetAt q = resetOf w (raw, t) \<and> resetSince w hist (cq_resetAt q')" if w: "w \<in> names" for w
  proof -
    obtain q where "jget w raw = Some q" using w raw(2) jget_in [of w raw] by auto
    then show ?thesis using got [OF w] rem [OF w] f(2) [OF w] by (simp add: jget_normalize percentOf_def resetOf_def)
  qed
  moreover have "fst ` set ?qs = fst ` set (normalizeQuotas raw)" using e'(2) raw(2) by (simp add: image_image normalizeQuotas_def case_prod_unfold)
  moreover have "getQuotaCache c s = Some (newEntry p (normalizeQuotas raw) t None)" using inv m by (simp add: storedInv_def getQuotaCache_def)
  ultimately show ?thesis unfolding s_def [symmetric] using e'(3,4) ex m by (simp add: newEntry_def)
qed

definition readingOf :: "rat \<Rightarrow> rat \<Rightarrow> int \<Rightarrow> (string \<times> raw_quota) list" where
  "readingOf a b reset =
     [(''session'', \<lparr>rq_remainingPercentage = Some a, rq_total = None, rq_used = None, rq_resetAt = Some (isoText reset), rq_scope = None, rq_model = None\<rparr>),
      (''weekly'', \<lparr>rq_remainingPercentage = Some b, rq_total = None, rq_used = None, rq_resetAt = None, rq_scope = None, rq_model = None\<rparr>)]"

text \<open>A reset time that moves while the percentages stay is not written: after a restart the old one is back.\<close>

lemma moved_reset_lost:
  "let s = storeReadings ''c'' ''p'' [(readingOf 30 40 1000, 5), (readingOf 30 40 9000, 6)] emptyQuotaCache;
       reset = (\<lambda>e. Option.bind (jget ''session'' (qn_quotas e)) cq_resetAt)
   in map_option reset (getQuotaCache ''c'' s) = Some (Some (isoText 9000))
     \<and> map_option reset (entryOf ''c'' 9 (restartedFor ''c'' 9 s)) = Some (Some (isoText 1000))"
  by code_simp

lemma restart_restores_quota_witness:
  "let s = storeReadings ''c'' ''p'' [(readingOf 30 40 1000, 5), (readingOf 0 40 9000, 6)] emptyQuotaCache
   in \<exists>e e'. getQuotaCache ''c'' s = Some e \<and> entryOf ''c'' 9 (restartedFor ''c'' 9 s) = Some e' \<and> qn_exhausted e' = qn_exhausted e"
proof -
  let ?hist = "[(readingOf 30 40 1000, 5), (readingOf 0 40 9000, 6)]"
  have "steadyReadings {''session'', ''weekly''} ?hist"
    by (simp add: steadyReadings_def readingOf_def rawPercentage_def)
  from restart_restores_quota [of "''c''" emptyQuotaCache ?hist "{''session'', ''weekly''}" "''p''" 9] this
  show ?thesis by (auto simp: Let_def storedRows_def emptyQuotaCache_def)
qed

end
