(* ===== verification/ConnectionRules.thy ===== *)
theory ConnectionRules
  imports QuotaCache JsValues
begin

text \<open>
  Provider connections and the rules that decide about one of them: the models it excludes
  (\<open>src/domain/connectionModelRules.ts\<close> over \<open>wildcardMatch\<close> of \<open>open-sse/services/wildcardRouter.ts\<close>), its cooldown
  (\<open>open-sse/services/accountFallback.ts\<close>), its status, its Codex scopes, its quota policy and its score in
  \<open>src/sse/services/auth.ts\<close>. A connection is the view that \<open>lazyConnectionView.ts\<close> makes of a row; whether its base
  URL is local (\<open>isLocalProvider\<close>, through \<open>URL\<close>) is a field.
\<close>

section \<open>Connections\<close>

record provider_data =
  psd_limitPolicy :: json
  psd_codexLimitPolicy :: json
  psd_codexScopeUntil :: "(codex_scope, date_text) jmap"
  psd_excludedModels :: json
  psd_excluded_models :: json
  psd_disableCooling :: bool
  psd_passthroughModels :: "bool option"
  psd_local :: bool
  psd_quotaPreflightEnabled :: "bool option"

record connection =
  cn_id :: string
  cn_isActive :: bool
  cn_rateLimitedUntil :: "date_text option"
  cn_testStatus :: "string option"
  cn_lastUsedAt :: "millis option"
  cn_consecutiveUseCount :: int
  cn_priority :: int
  cn_lastError :: "string option"
  cn_lastErrorType :: "string option"
  cn_lastErrorSource :: "string option"
  cn_lastErrorAt :: "millis option"
  cn_errorCode :: "int option"
  cn_backoffLevel :: int
  cn_windowThresholds :: "(string, rat) jmap"
  cn_data :: provider_data

section \<open>Cooldowns\<close>

text \<open>Not a number is \<open>None\<close>.\<close>

definition cooldownUntilMs :: "date_text option \<Rightarrow> millis option" where
  "cooldownUntilMs value =
     (case value of
        None \<Rightarrow> None
      | Some d \<Rightarrow> (case dt_number d of Some n \<Rightarrow> Some n | None \<Rightarrow> dt_date d))"

definition isAccountUnavailable :: "date_text option \<Rightarrow> millis \<Rightarrow> bool" where
  "isAccountUnavailable unavailableUntil now \<longleftrightarrow> (case cooldownUntilMs unavailableUntil of Some t \<Rightarrow> now < t | None \<Rightarrow> False)"

definition getUnavailableUntil :: "millis \<Rightarrow> millis \<Rightarrow> date_text" where
  "getUnavailableUntil cooldownMs now = isoText (now + cooldownMs)"

text \<open>The loop takes a time of 0 for none; a time in the future is not 0.\<close>

fun earliestLimit :: "millis \<Rightarrow> date_text option list \<Rightarrow> millis option \<Rightarrow> millis option" where
  "earliestLimit now [] best = best"
| "earliestLimit now (u # us) best =
     earliestLimit now us
       (case cooldownUntilMs u of
          None \<Rightarrow> best
        | Some t \<Rightarrow> if t \<le> now then best else if falsy_num best \<or> t < the best then Some t else best)"

definition getEarliestRateLimitedUntil :: "connection list \<Rightarrow> millis \<Rightarrow> date_text option" where
  "getEarliestRateLimitedUntil accounts now =
     (let e = earliestLimit now (map cn_rateLimitedUntil accounts) None in if falsy_num e then None else map_option isoText e)"

text \<open>\<open>parseFutureDateMs\<close> and the earliest future date of a list, which answers the text itself.\<close>

definition parseFutureDateMs :: "date_text option \<Rightarrow> millis \<Rightarrow> millis option" where
  "parseFutureDateMs value now = (case cooldownUntilMs value of Some t \<Rightarrow> if t \<le> now then None else Some t | None \<Rightarrow> None)"

definition getEarliestFutureDate :: "date_text option list \<Rightarrow> millis \<Rightarrow> date_text option" where
  "getEarliestFutureDate candidates now =
     (case sortBy (\<lambda>a b. of_int (the (parseFutureDateMs a now) - the (parseFutureDateMs b now)))
             (filter (\<lambda>c. parseFutureDateMs c now \<noteq> None) candidates) of
        [] \<Rightarrow> None
      | c # cs \<Rightarrow> c)"

section \<open>Excluded models\<close>

definition isLineEnd :: "char \<Rightarrow> bool" where
  "isLineEnd c \<longleftrightarrow> (let n = (of_char c :: nat) in n = 10 \<or> n = 13)"

text \<open>The match of the regular expression that a pattern becomes, without regard to case.\<close>

fun globMatch :: "string \<Rightarrow> string \<Rightarrow> bool" where
  "globMatch [] [] = True"
| "globMatch [] (c # cs) = False"
| "globMatch (p # ps) [] = (p = CHR ''*'' \<and> globMatch ps [])"
| "globMatch (p # ps) (c # cs) =
     (if p = CHR ''*'' then globMatch ps (c # cs) \<or> \<not> isLineEnd c \<and> globMatch (p # ps) cs
      else (if p = CHR ''?'' then \<not> isLineEnd c else ascii_lower p = ascii_lower c) \<and> globMatch ps cs)"

definition wildcardMatch :: "string \<Rightarrow> string \<Rightarrow> bool" where
  "wildcardMatch model pattern \<longleftrightarrow>
     model \<noteq> [] \<and> pattern \<noteq> [] \<and> (pattern = ''*'' \<or> pattern = model \<or> globMatch pattern model)"

definition normalizePattern :: "json \<Rightarrow> string option" where
  "normalizePattern v =
     (case v of JStr s \<Rightarrow> (let t = trim s in if t = [] \<or> t = ''**'' then None else Some t) | _ \<Rightarrow> None)"

definition toPatternList :: "json \<Rightarrow> string list" where
  "toPatternList v =
     (case v of
        JArr xs \<Rightarrow> List.map_filter normalizePattern xs
      | JStr s \<Rightarrow> List.map_filter (\<lambda>w. normalizePattern (JStr w)) (splitOn (CHR '','') s)
      | _ \<Rightarrow> [])"

text \<open>Without repetitions, in the order of first appearance.\<close>

definition unique :: "'a list \<Rightarrow> 'a list" where
  "unique xs = rev (remdups (rev xs))"

definition getModelMatchCandidates :: "string \<Rightarrow> string list" where
  "getModelMatchCandidates modelId =
     (let normalized = trim modelId;
          plain = (if starts_with (rev ''[1m]'') (rev normalized) then take (length normalized - 4) normalized else normalized)
      in if normalized = [] then [] else unique (filter (\<lambda>s. s \<noteq> []) [normalized, plain, bareModel plain]))"

definition getConnectionExcludedModels :: "provider_data \<Rightarrow> string list" where
  "getConnectionExcludedModels d = unique (toPatternList (orElse (psd_excludedModels d) (psd_excluded_models d)))"

definition isModelExcludedByConnection :: "string \<Rightarrow> provider_data \<Rightarrow> bool" where
  "isModelExcludedByConnection modelId d \<longleftrightarrow>
     (\<exists>p \<in> set (getConnectionExcludedModels d). \<exists>c \<in> set (getModelMatchCandidates modelId). wildcardMatch c p)"

definition hasEligibleConnectionForModel :: "provider_data list \<Rightarrow> string \<Rightarrow> bool" where
  "hasEligibleConnectionForModel ds modelId \<longleftrightarrow> (\<exists>d \<in> set ds. \<not> isModelExcludedByConnection modelId d)"

section \<open>Status\<close>

definition normalizeStatus :: "string option \<Rightarrow> string" where
  "normalizeStatus v = toLowerCase (trim (nullish v []))"

definition isTerminalConnectionStatus :: "connection \<Rightarrow> bool" where
  "isTerminalConnectionStatus c \<longleftrightarrow> normalizeStatus (cn_testStatus c) \<in> {''credits_exhausted'', ''banned'', ''expired''}"

definition getCodexScopeRateLimitedUntil :: "provider_data \<Rightarrow> string option \<Rightarrow> date_text option" where
  "getCodexScopeRateLimitedUntil d model = (if noText model then None else jget (codexScopeOf model) (psd_codexScopeUntil d))"

definition isCodexScopeUnavailable :: "connection \<Rightarrow> string option \<Rightarrow> millis \<Rightarrow> bool" where
  "isCodexScopeUnavailable c model now \<longleftrightarrow>
     (case Option.bind (getCodexScopeRateLimitedUntil (cn_data c) model) dt_date of Some t \<Rightarrow> now < t | None \<Rightarrow> False)"

section \<open>Quota policy\<close>

definition toNumberOr :: "json \<Rightarrow> rat \<Rightarrow> rat" where
  "toNumberOr v fallback = (case numberOrText v of Some r \<Rightarrow> r | None \<Rightarrow> fallback)"

definition toBooleanOrDefault :: "json \<Rightarrow> bool \<Rightarrow> bool" where
  "toBooleanOrDefault v fallback = (case v of JBool b \<Rightarrow> b | _ \<Rightarrow> fallback)"

text \<open>\<open>use5h\<close> and \<open>useWeekly\<close>.\<close>

definition getCodexLimitPolicy :: "provider_data \<Rightarrow> bool \<times> bool" where
  "getCodexLimitPolicy d =
     (let policy = asRecord (psd_codexLimitPolicy d)
      in (toBooleanOrDefault (field ''use5h'' policy) True, toBooleanOrDefault (field ''useWeekly'' policy) True))"

definition normalizeQuotaThreshold :: "json \<Rightarrow> rat" where
  "normalizeQuotaThreshold v = min 100 (max 1 (toNumberOr v DEFAULT_QUOTA_THRESHOLD_PERCENT))"

definition normalizeWindowName :: "json \<Rightarrow> string option" where
  "normalizeWindowName v =
     (case v of JStr s \<Rightarrow> (let n = toLowerCase (trim s) in if n = [] then None else Some n) | _ \<Rightarrow> None)"

definition normalizeCodexWindowName :: "string \<Rightarrow> string" where
  "normalizeCodexWindowName windowName =
     (let n = toLowerCase (trim windowName)
      in if n = ''session (5h)'' \<or> n = ''5h'' \<or> n = ''five_hour'' then ''session''
         else if n = ''weekly (7d)'' \<or> n = ''7d'' \<or> n = ''seven_day'' then ''weekly''
         else toCodexBaseQuotaWindowName n)"

definition applyCodexWindowPolicy :: "string list \<Rightarrow> provider_data \<Rightarrow> string list" where
  "applyCodexWindowPolicy rawWindows d =
     (let (use5h, useWeekly) = getCodexLimitPolicy d;
          windows = filter (\<lambda>w. if w = ''session'' then use5h else if w = ''weekly'' then useWeekly else True)
                      (filter (\<lambda>w. w \<noteq> []) (map normalizeCodexWindowName rawWindows))
      in unique (windows @ (if use5h then [''session''] else []) @ (if useWeekly then [''weekly''] else [])))"

record quota_policy =
  qp_enabled :: bool
  qp_threshold :: rat
  qp_windows :: "string list"

definition resolveQuotaLimitPolicy :: "string \<Rightarrow> provider_data \<Rightarrow> quota_policy" where
  "resolveQuotaLimitPolicy provider d =
     (let raw = asRecord (psd_limitPolicy d);
          rawWindows = (case field ''windows'' raw of JArr xs \<Rightarrow> xs | _ \<Rightarrow> []);
          windows = List.map_filter normalizeWindowName rawWindows;
          threshold = normalizeQuotaThreshold (field ''thresholdPercent'' raw)
      in if provider = ''codex'' then
           (let defaults = applyCodexWindowPolicy windows d
            in \<lparr>qp_enabled = toBooleanOrDefault (field ''enabled'' raw) (defaults \<noteq> []), qp_threshold = threshold, qp_windows = defaults\<rparr>)
         else \<lparr>qp_enabled = toBooleanOrDefault (field ''enabled'' raw) False, qp_threshold = threshold, qp_windows = windows\<rparr>)"

definition scopedWindow :: "string \<Rightarrow> string option \<Rightarrow> string \<Rightarrow> string" where
  "scopedWindow provider model w = (if provider = ''codex'' then toCodexScopedQuotaWindowName w model else w)"

text \<open>The status of a window of the policy when it blocks the request.\<close>

definition blockingWindow ::
  "(string \<Rightarrow> string \<Rightarrow> rat) \<Rightarrow> string \<Rightarrow> connection \<Rightarrow> string option \<Rightarrow> quota_policy \<Rightarrow> millis \<Rightarrow> quota_cache \<Rightarrow> string
   \<Rightarrow> (string \<times> window_status) option" where
  "blockingWindow cmp provider c model policy now q w =
     (let name = scopedWindow provider model w
      in case getQuotaWindowStatus cmp (cn_id c) name (qp_threshold policy) now q of
           None \<Rightarrow> None
         | Some st \<Rightarrow> if ws_reached st \<and> windowAppliesToModel name model (ws_scope st) (ws_model st) then Some (name, st) else None)"

record policy_evaluation =
  pe_blocked :: bool
  pe_reasons :: "(string \<times> rat) list"
  pe_resetAt :: "date_text option"
  pe_modelScoped :: bool

definition evaluateQuotaLimitPolicy ::
  "(string \<Rightarrow> string \<Rightarrow> rat) \<Rightarrow> string \<Rightarrow> connection \<Rightarrow> string option \<Rightarrow> millis \<Rightarrow> quota_cache \<Rightarrow> policy_evaluation" where
  "evaluateQuotaLimitPolicy cmp provider c model now q =
     (let policy = resolveQuotaLimitPolicy provider (cn_data c);
          blocks = List.map_filter (blockingWindow cmp provider c model policy now q) (qp_windows policy)
      in if \<not> qp_enabled policy \<or> qp_windows policy = []
         then \<lparr>pe_blocked = False, pe_reasons = [], pe_resetAt = None, pe_modelScoped = False\<rparr>
         else \<lparr>pe_blocked = (blocks \<noteq> []), pe_reasons = map (\<lambda>(n, st). (n, ws_used st)) blocks,
               pe_resetAt = getEarliestFutureDate (map (\<lambda>(n, st). ws_resetAt st) blocks) now,
               pe_modelScoped = (blocks \<noteq> [] \<and> (\<forall>(n, st) \<in> set blocks. ws_scope st = Some ModelScope))\<rparr>)"

definition getCachedQuotaResetAt :: "string \<Rightarrow> millis \<Rightarrow> quota_cache \<Rightarrow> date_text option" where
  "getCachedQuotaResetAt c now q =
     (case getQuotaCache c q of
        None \<Rightarrow> None
      | Some e \<Rightarrow> getEarliestFutureDate (map (\<lambda>p. cq_resetAt (snd p)) (qn_quotas e)) now)"

section \<open>Headroom and score\<close>

fun headroomWindows :: "string \<Rightarrow> string option \<Rightarrow> string list \<Rightarrow> string list \<Rightarrow> string list" where
  "headroomWindows provider model seen [] = []"
| "headroomWindows provider model seen (w # ws) =
     (case normalizeWindowName (JStr (scopedWindow provider model w)) of
        None \<Rightarrow> headroomWindows provider model seen ws
      | Some n \<Rightarrow> if n \<in> set seen then headroomWindows provider model seen ws
                  else n # headroomWindows provider model (n # seen) ws)"

definition collectPolicyQuotaHeadroomPercentages ::
  "(string \<Rightarrow> string \<Rightarrow> rat) \<Rightarrow> string \<Rightarrow> connection \<Rightarrow> quota_policy \<Rightarrow> string option \<Rightarrow> millis \<Rightarrow> quota_cache \<Rightarrow> rat list" where
  "collectPolicyQuotaHeadroomPercentages cmp provider c policy model now q =
     List.map_filter (\<lambda>n. map_option (\<lambda>st. clampQuotaPercent (ws_remaining st)) (getQuotaWindowStatus cmp (cn_id c) n (qp_threshold policy) now q))
       (headroomWindows provider model [] (qp_windows policy))"

definition collectCachedQuotaHeadroomPercentages :: "string \<Rightarrow> connection \<Rightarrow> string option \<Rightarrow> millis \<Rightarrow> quota_cache \<Rightarrow> rat list" where
  "collectCachedQuotaHeadroomPercentages provider c model now q =
     (let quotas = (case getQuotaCache (cn_id c) q of Some e \<Rightarrow> qn_quotas e | None \<Rightarrow> []);
          wanted = (if provider = ''codex'' then getCodexQuotaWindowFilterForModel model else None)
      in map (\<lambda>p. clampQuotaPercent (cq_remaining (snd p)))
           (filter (\<lambda>p. (case wanted of Some f \<Rightarrow> f (fst p) | None \<Rightarrow> True) \<and> \<not> resetPassed (cq_resetAt (snd p)) now) quotas))"

definition getConnectionQuotaHeadroomPercent ::
  "(string \<Rightarrow> string \<Rightarrow> rat) \<Rightarrow> string \<Rightarrow> connection \<Rightarrow> string option \<Rightarrow> millis \<Rightarrow> quota_cache \<Rightarrow> rat option" where
  "getConnectionQuotaHeadroomPercent cmp provider c model now q =
     (let policy = resolveQuotaLimitPolicy provider (cn_data c);
          byPolicy = collectPolicyQuotaHeadroomPercentages cmp provider c policy model now q;
          percentages = (if byPolicy \<noteq> [] then byPolicy else collectCachedQuotaHeadroomPercentages provider c model now q)
      in if percentages = [] then None else Some (Min (set percentages)))"

definition getConnectionErrorPenalty :: "connection \<Rightarrow> int" where
  "getConnectionErrorPenalty c =
     (let errorType = normalizeStatus (cn_lastErrorType c); errorSource = normalizeStatus (cn_lastErrorSource c);
          code = nullish (cn_errorCode c) 0
      in (if noText (cn_lastError c) then 0 else 6)
         + (if errorType \<in> {''rate_limited'', ''quota_exhausted'', ''quota''} \<or> code = 429 then 24
            else if code = 401 \<or> code = 403 \<or> errorSource = ''oauth'' then 18
            else if 500 \<le> code then 10 else 0))"

definition getConnectionRecencyPenalty :: "connection \<Rightarrow> millis \<Rightarrow> int" where
  "getConnectionRecencyPenalty c now =
     (case cn_lastUsedAt c of
        None \<Rightarrow> 0
      | Some t \<Rightarrow> (let age = now - t in if age < 15000 then 3 else if age < 60000 then 2 else if age < 5 * 60000 then 1 else 0))"

definition quotaPenalty :: "rat option \<Rightarrow> bool \<Rightarrow> int" where
  "quotaPenalty headroom impaired =
     (case headroom of
        Some h \<Rightarrow> \<lfloor>(100 - h) / 8 + 1 / 2\<rfloor> + (if h \<le> 10 then 10 else if h \<le> 25 then 4 else 0)
      | None \<Rightarrow> if impaired then 0 else 4)"

text \<open>\<open>known\<close> holds the answers that the selection has already computed.\<close>

definition getP2CConnectionScore ::
  "(string \<Rightarrow> string \<Rightarrow> rat) \<Rightarrow> string \<Rightarrow> connection \<Rightarrow> string option \<Rightarrow> (string, bool \<times> bool) jmap \<Rightarrow> millis \<Rightarrow> quota_cache
   \<Rightarrow> int \<times> rat option" where
  "getP2CConnectionScore cmp provider c model known now q =
     (let (blocked, exhausted) = (case jget (cn_id c) known of
            Some r \<Rightarrow> r
          | None \<Rightarrow> (pe_blocked (evaluateQuotaLimitPolicy cmp provider c model now q),
                     isQuotaExhaustedForRequest cmp (cn_id c) provider model now q));
          headroom = getConnectionQuotaHeadroomPercent cmp provider c model now q
      in ((if exhausted then 200 else 0) + (if blocked then 80 else 0) + getConnectionErrorPenalty c
          + min 40 (cn_backoffLevel c * 8) + quotaPenalty headroom (blocked \<or> exhausted)
          + min 12 (cn_consecutiveUseCount c * 2) + getConnectionRecencyPenalty c now
          + min 6 (max 0 (cn_priority c) - 1), headroom))"

definition priorityOr :: "connection \<Rightarrow> int" where
  "priorityOr c = (if cn_priority c = 0 then 999 else cn_priority c)"

definition compareP2CConnections ::
  "(string \<Rightarrow> string \<Rightarrow> rat) \<Rightarrow> string \<Rightarrow> string option \<Rightarrow> (string, bool \<times> bool) jmap \<Rightarrow> millis \<Rightarrow> quota_cache
   \<Rightarrow> connection \<Rightarrow> connection \<Rightarrow> rat" where
  "compareP2CConnections cmp provider model known now q a b =
     (let (scoreA, headA) = getP2CConnectionScore cmp provider a model known now q;
          (scoreB, headB) = getP2CConnectionScore cmp provider b model known now q;
          ha = nullish headA (-1); hb = nullish headB (-1)
      in if scoreA \<noteq> scoreB then of_int (scoreA - scoreB)
         else if ha \<noteq> hb then hb - ha
         else if priorityOr a \<noteq> priorityOr b then of_int (priorityOr a - priorityOr b)
         else cmp (cn_id a) (cn_id b))"

end
