(* ===== verification/SessionAffinity.thy ===== *)
theory SessionAffinity
  imports ConnectionRules
begin

text \<open>
  The pins that keep a session on an account: \<open>src/lib/db/sessionAccountAffinity.ts\<close> and
  \<open>src/sse/services/sessionAffinityPin.ts\<close>. A row whose text cannot be read is \<open>None\<close>; the digest of a key is a
  parameter. The operations await the database; each is one step, because the caller holds the selection lock of the
  provider.
\<close>

section \<open>Pins\<close>

record affinity =
  af_connection :: string
  af_createdAt :: millis
  af_lastUsedAt :: millis
  af_expiresAt :: millis

type_synonym pins = "(string, affinity option) jmap"

definition affinityKey :: "(string \<Rightarrow> string) \<Rightarrow> string \<Rightarrow> string \<Rightarrow> string" where
  "affinityKey digest sessionKey provider = provider @ '':'' @ digest (provider @ '':'' @ sessionKey)"

definition normalizePositiveTtl :: "int \<Rightarrow> int" where
  "normalizePositiveTtl ttl = (if 0 < ttl then ttl else 0)"

definition getSessionAccountAffinity ::
  "(string \<Rightarrow> string) \<Rightarrow> string \<Rightarrow> string \<Rightarrow> int \<Rightarrow> millis \<Rightarrow> pins \<Rightarrow> affinity option \<times> pins" where
  "getSessionAccountAffinity digest sessionKey provider ttl now s =
     (if sessionKey = [] \<or> provider = [] \<or> normalizePositiveTtl ttl \<le> 0 then (None, s)
      else (let key = affinityKey digest sessionKey provider
            in case jget key s of
                 Some (Some r) \<Rightarrow> if af_expiresAt r \<le> now then (None, jdel key s) else (Some r, s)
               | _ \<Rightarrow> (None, s)))"

definition upsertSessionAccountAffinity ::
  "(string \<Rightarrow> string) \<Rightarrow> string \<Rightarrow> string \<Rightarrow> string \<Rightarrow> millis \<Rightarrow> int \<Rightarrow> pins \<Rightarrow> pins" where
  "upsertSessionAccountAffinity digest sessionKey provider connectionId now ttl s =
     (if sessionKey = [] \<or> provider = [] \<or> connectionId = [] \<or> normalizePositiveTtl ttl \<le> 0 then s
      else (let (existing, s1) = getSessionAccountAffinity digest sessionKey provider ttl now s
            in jset (affinityKey digest sessionKey provider)
                 (Some \<lparr>af_connection = connectionId, af_createdAt = (case existing of Some r \<Rightarrow> af_createdAt r | None \<Rightarrow> now),
                        af_lastUsedAt = now, af_expiresAt = now + ttl\<rparr>) s1))"

definition touchSessionAccountAffinity ::
  "(string \<Rightarrow> string) \<Rightarrow> string \<Rightarrow> string \<Rightarrow> millis \<Rightarrow> int \<Rightarrow> pins \<Rightarrow> pins" where
  "touchSessionAccountAffinity digest sessionKey provider now ttl s =
     (if normalizePositiveTtl ttl \<le> 0 then s
      else (case getSessionAccountAffinity digest sessionKey provider ttl now s of
              (None, s1) \<Rightarrow> s1
            | (Some r, s1) \<Rightarrow> upsertSessionAccountAffinity digest sessionKey provider (af_connection r) now ttl s1))"

definition deleteSessionAccountAffinity :: "(string \<Rightarrow> string) \<Rightarrow> string \<Rightarrow> string \<Rightarrow> pins \<Rightarrow> pins" where
  "deleteSessionAccountAffinity digest sessionKey provider s =
     (if sessionKey = [] \<or> provider = [] then s else jdel (affinityKey digest sessionKey provider) s)"

definition evictSessionAccountAffinityForConnection ::
  "(string \<Rightarrow> string) \<Rightarrow> string \<Rightarrow> string \<Rightarrow> string \<Rightarrow> pins \<Rightarrow> bool \<times> pins" where
  "evictSessionAccountAffinityForConnection digest sessionKey provider connectionId s =
     (if sessionKey = [] \<or> provider = [] \<or> connectionId = [] then (False, s)
      else (let key = affinityKey digest sessionKey provider
            in case jget key s of
                 Some (Some r) \<Rightarrow> if af_connection r = connectionId then (True, jdel key s) else (False, s)
               | _ \<Rightarrow> (False, s)))"

definition cleanupStaleSessionAccountAffinities :: "millis \<Rightarrow> pins \<Rightarrow> nat \<times> pins" where
  "cleanupStaleSessionAccountAffinities now s =
     (let stale = (\<lambda>p. case snd p of None \<Rightarrow> True | Some r \<Rightarrow> af_expiresAt r \<le> now)
      in (length (filter stale s), filter (\<lambda>p. \<not> stale p) s))"

section \<open>Selection by pin\<close>

text \<open>A comparison of two that were never used by priority; one that was never used comes first.\<close>

definition compareLastUsed :: "connection \<Rightarrow> connection \<Rightarrow> rat" where
  "compareLastUsed a b =
     (case (cn_lastUsedAt a, cn_lastUsedAt b) of
        (None, None) \<Rightarrow> of_int (priorityOr a - priorityOr b)
      | (None, Some _) \<Rightarrow> - 1
      | (Some _, None) \<Rightarrow> 1
      | (Some s, Some t) \<Rightarrow> of_int (s - t))"

definition compareLruConnections :: "connection \<Rightarrow> connection \<Rightarrow> rat" where
  "compareLruConnections a b =
     (case (cn_lastUsedAt a, cn_lastUsedAt b) of
        (Some s, Some t) \<Rightarrow>
          if s \<noteq> t then of_int (s - t)
          else if cn_consecutiveUseCount a \<noteq> cn_consecutiveUseCount b then of_int (cn_consecutiveUseCount a - cn_consecutiveUseCount b)
          else of_int (priorityOr a - priorityOr b)
      | _ \<Rightarrow> compareLastUsed a b)"

text \<open>The connection and its new count of consecutive uses.\<close>

definition selectSessionAffinityConnection ::
  "(string \<Rightarrow> string) \<Rightarrow> string \<Rightarrow> string option \<Rightarrow> connection list \<Rightarrow> int \<Rightarrow> millis \<Rightarrow> pins
   \<Rightarrow> (connection \<times> int) option \<times> pins" where
  "selectSessionAffinityConnection digest provider sessionKey connections ttl now s =
     (if noText sessionKey \<or> connections = [] \<or> ttl \<le> 0 then (None, s)
      else (let key = the sessionKey; (existing, s1) = getSessionAccountAffinity digest key provider ttl now s;
                pinned = (case existing of Some r \<Rightarrow> find (\<lambda>c. cn_id c = af_connection r) connections | None \<Rightarrow> None)
            in case pinned of
                 Some c \<Rightarrow> (Some (c, cn_consecutiveUseCount c + 1), touchSessionAccountAffinity digest key provider now ttl s1)
               | None \<Rightarrow>
                   (let s2 = (if existing = None then s1 else deleteSessionAccountAffinity digest key provider s1)
                    in case sortBy compareLruConnections connections of
                         [] \<Rightarrow> (None, s2)
                       | c # cs \<Rightarrow> (Some (c, 1), upsertSessionAccountAffinity digest key provider (cn_id c) now ttl s2))))"

definition resolveSessionAffinityTtlMs :: "int option \<Rightarrow> int option \<Rightarrow> int option \<Rightarrow> int" where
  "resolveSessionAffinityTtlMs override configured legacy =
     (case override of
        Some n \<Rightarrow> if 0 < n then n else
          (case (case configured of Some m \<Rightarrow> Some m | None \<Rightarrow> legacy) of Some m \<Rightarrow> if 0 < m then m else 0 | None \<Rightarrow> 0)
      | None \<Rightarrow> (case (case configured of Some m \<Rightarrow> Some m | None \<Rightarrow> legacy) of Some m \<Rightarrow> if 0 < m then m else 0 | None \<Rightarrow> 0))"

section \<open>What a selection depends on\<close>

record selection_options =
  so_allowSuppressed :: bool
  so_allowRateLimited :: bool
  so_bypassQuota :: bool
  so_forced :: "string option"
  so_excluded :: "string list"
  so_sessionKey :: "string option"

text \<open>The tables a selection reads: the registry and the model lockouts, the quota cache, the collation, the digest.\<close>

record selection_env =
  sv_registry :: registry
  sv_locks :: lockouts
  sv_quota :: quota_cache
  sv_cmp :: "string \<Rightarrow> string \<Rightarrow> rat"
  sv_digest :: "string \<Rightarrow> string"

definition lockedFor :: "selection_env \<Rightarrow> string \<Rightarrow> string option \<Rightarrow> millis \<Rightarrow> connection \<Rightarrow> bool" where
  "lockedFor env provider model now c \<longleftrightarrow>
     \<not> noText model \<and> fst (isModelLocked (sv_registry env) now provider (cn_id c) model (sv_locks env))"

text \<open>The conditions of the pin, which resemble those of the selection.\<close>

definition isConnectionEligibleForAffinityPin ::
  "selection_env \<Rightarrow> selection_options \<Rightarrow> string \<Rightarrow> string option \<Rightarrow> millis \<Rightarrow> connection \<Rightarrow> bool" where
  "isConnectionEligibleForAffinityPin env opts provider model now c \<longleftrightarrow>
     cn_id c \<notin> set (so_excluded opts)
     \<and> \<not> (\<not> noText model \<and> isModelExcludedByConnection (the model) (cn_data c))
     \<and> (so_allowSuppressed opts \<or>
          ((so_allowRateLimited opts \<or> \<not> isAccountUnavailable (cn_rateLimitedUntil c) now)
           \<and> \<not> isTerminalConnectionStatus c
           \<and> \<not> (provider = ''codex'' \<and> isCodexScopeUnavailable c model now)
           \<and> \<not> lockedFor env provider model now c))
     \<and> \<not> isAccountQuotaExhausted (cn_id c) now (sv_quota env)
     \<and> (so_bypassQuota opts \<or> \<not> pe_blocked (evaluateQuotaLimitPolicy (sv_cmp env) provider c model now (sv_quota env)))"

definition applySessionAffinityPin ::
  "selection_env \<Rightarrow> selection_options \<Rightarrow> int \<Rightarrow> connection list \<Rightarrow> string \<Rightarrow> string option \<Rightarrow> millis \<Rightarrow> pins
   \<Rightarrow> string option \<times> pins" where
  "applySessionAffinityPin env opts ttl connections provider model now s =
     (if noText (so_forced opts) \<or> noText (so_sessionKey opts) \<or> ttl \<le> 0 then (None, s)
      else (let (pinned, s1) = getSessionAccountAffinity (sv_digest env) (the (so_sessionKey opts)) provider ttl now s
            in case pinned of
                 None \<Rightarrow> (None, s1)
               | Some r \<Rightarrow>
                   if Some (af_connection r) = so_forced opts then (None, s1)
                   else (case find (\<lambda>c. cn_id c = af_connection r) connections of
                           None \<Rightarrow> (None, s1)
                         | Some c \<Rightarrow> if isConnectionEligibleForAffinityPin env opts provider model now c
                                     then (Some (af_connection r), s1) else (None, s1))))"

end
