(* ===== verification/AccountSelection.thy ===== *)
theory AccountSelection
  imports SessionAffinity ShuffleDeck
begin

text \<open>
  The selection of an account for a request: \<open>getProviderCredentials\<close> of \<open>src/sse/services/auth.ts\<close>. The function runs
  under a selection lock (\<open>SelectionLocks\<close>), but marks, recoveries and responses go on at its awaits: \<open>selectSeen\<close> has the
  rows that it has read, active or not, in the order of the database, beside those it writes to, and
  \<open>getProviderCredentials\<close> is the selection during which no row changes. What is fetched before (settings, the providers that share the rows, whether the provider needs no
  credentials) is an argument, as are the random draws. The rows come through a read cache
  that every write empties (\<open>getCachedRawProviderConnections\<close>); it is taken to agree with the database. Messages and the credentials that are copied into the answer are left out: the answer is the connection. An exclusion of the blank id counts as none.
\<close>

section \<open>Arguments and answers\<close>

record strategy_settings =
  sg_overrideStrategy :: "string option"
  sg_overrideSticky :: json
  sg_strategy :: "string option"
  sg_sticky :: json
  sg_affinityTtl :: int

text \<open>Facts of the registry about the provider: it needs no credentials, and it can be used without any.\<close>

record provider_facts =
  pf_noAuth :: bool
  pf_blocked :: bool
  pf_syntheticFallback :: bool

record limit_answer =
  la_retryAfter :: date_text
  la_errorCode :: "int option"
  la_modelScope :: "bool option"
  la_count :: "nat option"

datatype selection =
    Selected connection
  | Synthetic
  | AllRateLimited limit_answer
  | AllExpired nat string
  | NoCredentials

record selection_state =
  sl_rows :: "connection list"
  sl_pins :: pins
  sl_decks :: decks

definition SYNTHETIC_NOAUTH_CONNECTION_ID :: string where "SYNTHETIC_NOAUTH_CONNECTION_ID = ''noauth''"

definition getSelectionMutexKey :: "registry \<Rightarrow> string \<Rightarrow> string option \<Rightarrow> string" where
  "getSelectionMutexKey reg provider forced =
     (let resolved = resolveProviderId reg provider
      in (if resolved = [] then provider else resolved) @ '':'' @ (if noText forced then ''pool'' else ''forced:'' @ the forced))"

definition normalizeExcludedConnectionIds :: "string option \<Rightarrow> string list \<Rightarrow> string list" where
  "normalizeExcludedConnectionIds exclude extra =
     unique (filter (\<lambda>s. s \<noteq> []) (map trim ((case exclude of Some s \<Rightarrow> [s] | None \<Rightarrow> []) @ extra)))"

definition maybeSyntheticNoAuthFallback :: "provider_facts \<Rightarrow> string list \<Rightarrow> bool" where
  "maybeSyntheticNoAuthFallback facts excluded \<longleftrightarrow>
     pf_syntheticFallback facts \<and> SYNTHETIC_NOAUTH_CONNECTION_ID \<notin> set excluded"

section \<open>The pool\<close>

definition allowedBy :: "string list option \<Rightarrow> connection \<Rightarrow> bool" where
  "allowedBy allowed c \<longleftrightarrow> (case allowed of None \<Rightarrow> True | Some ids \<Rightarrow> ids = [] \<or> cn_id c \<in> set ids)"

definition forcedTo :: "string option \<Rightarrow> connection \<Rightarrow> bool" where
  "forcedTo forced c \<longleftrightarrow> (case forced of None \<Rightarrow> True | Some x \<Rightarrow> cn_id c = x)"

definition trimmedForced :: "selection_options \<Rightarrow> string option" where
  "trimmedForced opts = (case so_forced opts of None \<Rightarrow> None | Some s \<Rightarrow> if trim s = [] then None else Some (trim s))"

text \<open>The backoff level of an account whose cooldown is over starts anew in the view; the errors in its row are cleared too.\<close>

definition decays :: "connection \<Rightarrow> millis \<Rightarrow> bool" where
  "decays c now \<longleftrightarrow> 0 < cn_backoffLevel c \<and> \<not> isTerminalConnectionStatus c \<and> \<not> isAccountUnavailable (cn_rateLimitedUntil c) now"

definition decayBackoff :: "millis \<Rightarrow> connection \<Rightarrow> connection" where
  "decayBackoff now c = (if decays c now then c\<lparr>cn_backoffLevel := 0\<rparr> else c)"

definition resetConnectionBackoff :: "connection \<Rightarrow> connection" where
  "resetConnectionBackoff c =
     c\<lparr>cn_backoffLevel := 0, cn_testStatus := Some ''active'', cn_lastError := None, cn_lastErrorAt := None, cn_lastErrorType := None,
       cn_lastErrorSource := None, cn_errorCode := None\<rparr>"

datatype filter_status = Excluded | ModelExcluded | RateLimited | TerminalStatus | CodexScopeLimited | ModelLocked | Available

definition connectionFilterStatus ::
  "selection_env \<Rightarrow> selection_options \<Rightarrow> string \<Rightarrow> string option \<Rightarrow> millis \<Rightarrow> connection \<Rightarrow> filter_status" where
  "connectionFilterStatus env opts provider model now c =
     (if cn_id c \<in> set (so_excluded opts) then Excluded
      else if \<not> noText model \<and> isModelExcludedByConnection (the model) (cn_data c) then ModelExcluded
      else if so_allowSuppressed opts then Available
      else if \<not> so_allowRateLimited opts \<and> isAccountUnavailable (cn_rateLimitedUntil c) now then RateLimited
      else if isTerminalConnectionStatus c then TerminalStatus
      else if provider = ''codex'' \<and> isCodexScopeUnavailable c model now then CodexScopeLimited
      else if lockedFor env provider model now c then ModelLocked
      else Available)"

section \<open>Answers without an account\<close>

text \<open>The status that most accounts have; the first of them when several have it equally often.\<close>

definition dominantStatus :: "connection list \<Rightarrow> string" where
  "dominantStatus cs =
     (let statuses = map (\<lambda>c. let s = normalizeStatus (cn_testStatus c) in if s = [] then ''expired'' else s) cs
      in case sortBy (\<lambda>a b. of_int (int (count_list statuses b) - int (count_list statuses a))) (unique statuses) of
           [] \<Rightarrow> ''expired''
         | s # ss \<Rightarrow> if s = [] then ''expired'' else s)"

definition emptyPoolAnswer :: "provider_facts \<Rightarrow> selection_options \<Rightarrow> connection list \<Rightarrow> millis \<Rightarrow> selection" where
  "emptyPoolAnswer facts opts allRows now =
     (case (if allRows = [] then None else getEarliestRateLimitedUntil allRows now) of
        Some until \<Rightarrow> AllRateLimited \<lparr>la_retryAfter = until, la_errorCode = None, la_modelScope = None, la_count = None\<rparr>
      | None \<Rightarrow>
          if maybeSyntheticNoAuthFallback facts (so_excluded opts) then Synthetic
          else if allRows \<noteq> [] \<and> list_all isTerminalConnectionStatus allRows
          then AllExpired (length allRows) (dominantStatus allRows)
          else NoCredentials)"

record cooldown_state =
  cs_connection :: connection
  cs_connectionMs :: "millis option"
  cs_codexMs :: "millis option"
  cs_modelMs :: "millis option"

definition isRetryableModelLockoutReason :: "string \<Rightarrow> bool" where
  "isRetryableModelLockoutReason reason \<longleftrightarrow> reason \<noteq> [] \<and> reason \<noteq> ''not_found'' \<and> reason \<noteq> ''not_found_local''"

definition cooldownStateOf ::
  "selection_env \<Rightarrow> string \<Rightarrow> string option \<Rightarrow> millis \<Rightarrow> connection \<Rightarrow> cooldown_state" where
  "cooldownStateOf env provider model now c =
     \<lparr>cs_connection = c,
      cs_connectionMs = parseFutureDateMs (cn_rateLimitedUntil c) now,
      cs_codexMs = (if provider = ''codex'' then parseFutureDateMs (getCodexScopeRateLimitedUntil (cn_data c) model) now else None),
      cs_modelMs =
        (if noText model then None
         else (case fst (getModelLockoutInfo (sv_registry env) now provider (cn_id c) model (sv_locks env)) of
                 None \<Rightarrow> None
               | Some i \<Rightarrow> if 0 < li_remainingMs i \<and> isRetryableModelLockoutReason (li_reason i)
                           then Some (now + li_remainingMs i) else None))\<rparr>"

definition cooldownCandidates :: "cooldown_state list \<Rightarrow> (millis \<times> connection) list" where
  "cooldownCandidates states =
     sortBy (\<lambda>a b. of_int (fst a - fst b))
       (concat (map (\<lambda>s. map (\<lambda>t. (t, cs_connection s))
          (List.map_filter (\<lambda>t. t) [cs_connectionMs s, cs_codexMs s, cs_modelMs s])) states))"

definition unavailableAnswer ::
  "selection_env \<Rightarrow> provider_facts \<Rightarrow> selection_options \<Rightarrow> string \<Rightarrow> string option \<Rightarrow> millis \<Rightarrow> connection list \<Rightarrow> selection" where
  "unavailableAnswer env facts opts provider model now connections =
     (let states = map (cooldownStateOf env provider model now) connections;
          allByModel = (\<not> noText model \<and> states \<noteq> []
            \<and> (\<forall>s \<in> set states. (cs_codexMs s \<noteq> None \<or> cs_modelMs s \<noteq> None) \<and> cs_connectionMs s = None))
      in case cooldownCandidates states of
           (t, c) # cs \<Rightarrow>
             AllRateLimited \<lparr>la_retryAfter = isoText t, la_errorCode = (if allByModel then Some 429 else cn_errorCode c),
               la_modelScope = Some allByModel, la_count = Some (length connections)\<rparr>
         | [] \<Rightarrow> if maybeSyntheticNoAuthFallback facts (so_excluded opts) then Synthetic else NoCredentials)"

definition policyAnswer :: "date_text option list \<Rightarrow> millis \<Rightarrow> selection" where
  "policyAnswer resets now =
     AllRateLimited
       \<lparr>la_retryAfter = isoText (case parseFutureDateMs (getEarliestFutureDate resets now) now of
            Some t \<Rightarrow> if t = 0 then now + 5 * 60 * 1000 else t
          | None \<Rightarrow> now + 5 * 60 * 1000),
        la_errorCode = Some 429, la_modelScope = None, la_count = None\<rparr>"

section \<open>Strategies\<close>

definition compareRecency :: "connection \<Rightarrow> connection \<Rightarrow> rat" where
  "compareRecency a b =
     (case (cn_lastUsedAt a, cn_lastUsedAt b) of
        (None, None) \<Rightarrow> of_int (priorityOr a - priorityOr b)
      | (None, Some _) \<Rightarrow> 1
      | (Some _, None) \<Rightarrow> - 1
      | (Some s, Some t) \<Rightarrow> of_int (t - s))"

definition compareOldest :: "connection \<Rightarrow> connection \<Rightarrow> rat" where
  "compareOldest a b =
     (if cn_backoffLevel a \<noteq> cn_backoffLevel b then of_int (cn_backoffLevel a - cn_backoffLevel b) else compareLastUsed a b)"

text \<open>The connection and, where the strategy counts uses, its new count.\<close>

definition pickRoundRobin :: "rat \<Rightarrow> bool \<Rightarrow> connection list \<Rightarrow> connection \<times> int" where
  "pickRoundRobin stickyLimit fallback cs =
     (let oldest = hd (sortBy compareOldest cs); recent = hd (sortBy compareRecency cs)
      in if fallback then (oldest, 1)
         else if cn_lastUsedAt recent \<noteq> None \<and> of_int (cn_consecutiveUseCount recent) < stickyLimit
         then (recent, cn_consecutiveUseCount recent + 1)
         else (oldest, 1))"

text \<open>Two different positions out of \<open>n\<close> from two draws.\<close>

definition twoChoices :: "nat \<Rightarrow> nat \<Rightarrow> nat \<Rightarrow> nat \<times> nat" where
  "twoChoices n d1 d2 = (let i = d1 mod n; j = d2 mod (n - 1) in (i, if i \<le> j then j + 1 else j))"

definition pickP2C :: "(connection \<Rightarrow> connection \<Rightarrow> rat) \<Rightarrow> nat \<Rightarrow> nat \<Rightarrow> connection list \<Rightarrow> connection" where
  "pickP2C compare d1 d2 cs =
     (if length cs \<le> 2 then hd (sortBy compare cs)
      else (let (i, j) = twoChoices (length cs) d1 d2 in if compare (cs ! i) (cs ! j) \<le> 0 then cs ! i else cs ! j))"

definition pickFromDeck :: "(nat \<Rightarrow> rand_draw) \<Rightarrow> string \<Rightarrow> connection list \<Rightarrow> decks \<Rightarrow> connection \<times> decks" where
  "pickFromDeck ds provider cs decks =
     (let (x, decks') = getNextFromDeckSync ds (''conn:'' @ provider) (map cn_id cs) decks
      in (case find (\<lambda>c. cn_id c = x) cs of Some c \<Rightarrow> c | None \<Rightarrow> hd cs, decks'))"

definition strategyOf :: "strategy_settings \<Rightarrow> string" where
  "strategyOf sg =
     (if \<not> noText (sg_overrideStrategy sg) then the (sg_overrideStrategy sg)
      else if \<not> noText (sg_strategy sg) then the (sg_strategy sg) else ''fill-first'')"

definition stickyLimitOf :: "strategy_settings \<Rightarrow> rat" where
  "stickyLimitOf sg = toNumberOr (orElse (sg_overrideSticky sg) (sg_sticky sg)) 3"

record draws =
  dw_first :: nat
  dw_second :: nat
  dw_shuffle :: "nat \<Rightarrow> rand_draw"

definition touchConnection :: "string \<Rightarrow> int \<Rightarrow> millis \<Rightarrow> connection list \<Rightarrow> connection list" where
  "touchConnection x n now rows = map (\<lambda>c. if cn_id c = x then c\<lparr>cn_lastUsedAt := Some now, cn_consecutiveUseCount := n\<rparr> else c) rows"

text \<open>The choice among the accounts that are left; \<open>known\<close> are the quota answers of the selection.\<close>

definition pickByStrategy ::
  "selection_env \<Rightarrow> strategy_settings \<Rightarrow> bool \<Rightarrow> string \<Rightarrow> string option \<Rightarrow> draws \<Rightarrow> millis \<Rightarrow> (string, bool \<times> bool) jmap
   \<Rightarrow> connection list \<Rightarrow> selection_state \<Rightarrow> connection \<times> selection_state" where
  "pickByStrategy env sg fallback provider model dw now known cs s =
     (let strategy = strategyOf sg
      in if strategy = ''round-robin'' then
           (let (c, n) = pickRoundRobin (stickyLimitOf sg) fallback cs in (c, s\<lparr>sl_rows := touchConnection (cn_id c) n now (sl_rows s)\<rparr>))
         else if strategy = ''p2c'' then
           (pickP2C (compareP2CConnections (sv_cmp env) provider model known now (sv_quota env)) (dw_first dw) (dw_second dw) cs, s)
         else if strategy = ''random'' then (cs ! (dw_first dw mod length cs), s)
         else if strategy = ''least-used'' then (hd (sortBy compareLastUsed cs), s)
         else if strategy = ''cost-optimized'' then (hd (sortBy (\<lambda>a b. of_int (priorityOr a - priorityOr b)) cs), s)
         else if strategy = ''strict-random'' then
           (let (c, decks) = pickFromDeck (dw_shuffle dw) provider cs (sl_decks s) in (c, s\<lparr>sl_decks := decks\<rparr>))
         else (hd cs, s))"

section \<open>The selection\<close>

definition selectFrom ::
  "selection_env \<Rightarrow> strategy_settings \<Rightarrow> selection_options \<Rightarrow> string \<Rightarrow> string option \<Rightarrow> draws \<Rightarrow> millis \<Rightarrow> connection list
   \<Rightarrow> selection_state \<Rightarrow> selection \<times> selection_state" where
  "selectFrom env sg opts provider model dw now available s =
     (let evaluate = (\<lambda>c. evaluateQuotaLimitPolicy (sv_cmp env) provider c model now (sv_quota env));
          spent = (\<lambda>c. isQuotaExhaustedForRequest (sv_cmp env) (cn_id c) provider model now (sv_quota env));
          eligible = (if so_bypassQuota opts then available else filter (\<lambda>c. \<not> pe_blocked (evaluate c)) available);
          withQuota = filter (\<lambda>c. \<not> spent c) eligible;
          known = (if so_bypassQuota opts then [] else map (\<lambda>c. (cn_id c, pe_blocked (evaluate c), spent c)) eligible)
      in if eligible = [] then
           (policyAnswer (map (\<lambda>c. pe_resetAt (evaluate c)) (filter (\<lambda>c. pe_blocked (evaluate c)) available)) now, s)
         else if withQuota = [] then
           (policyAnswer (map (\<lambda>c. Option.bind (getQuotaCache (cn_id c) (sv_quota env)) qn_nextResetAt) eligible) now, s)
         else (case selectSessionAffinityConnection (sv_digest env) provider (so_sessionKey opts) withQuota (sg_affinityTtl sg) now (sl_pins s) of
                 (Some (c, n), pins) \<Rightarrow>
                   (Selected c, s\<lparr>sl_pins := pins, sl_rows := touchConnection (cn_id c) n now (sl_rows s)\<rparr>)
               | (None, pins) \<Rightarrow>
                   (let (c, s') = pickByStrategy env sg (so_excluded opts \<noteq> []) provider model dw now known withQuota (s\<lparr>sl_pins := pins\<rparr>)
                    in (Selected c, s'))))"

text \<open>
  The answer of a selection that has read the rows \<open>seen\<close>, and its writes to the rows of now. A write goes to the rows of an
  id; those of the decays are not awaited, the one of the last use is the last thing the selection does.
\<close>

definition selectSeen ::
  "selection_env \<Rightarrow> strategy_settings \<Rightarrow> provider_facts \<Rightarrow> selection_options \<Rightarrow> string \<Rightarrow> string list option \<Rightarrow> string option
   \<Rightarrow> draws \<Rightarrow> millis \<Rightarrow> connection list \<Rightarrow> selection_state \<Rightarrow> selection \<times> selection_state" where
  "selectSeen env sg facts opts provider allowed model dw now seen s =
     (if pf_noAuth facts then
        (if pf_blocked facts then NoCredentials
         else if maybeSyntheticNoAuthFallback facts (so_excluded opts) then Synthetic else NoCredentials, s)
      else
        (let rows = filter (\<lambda>c. cn_id c \<noteq> [] \<and> allowedBy allowed c) seen;
             active = filter cn_isActive rows;
             (pin, pins) = applySessionAffinityPin env (opts\<lparr>so_forced := trimmedForced opts\<rparr>) (sg_affinityTtl sg) active provider model now (sl_pins s);
             forced = (case pin of Some x \<Rightarrow> Some x | None \<Rightarrow> trimmedForced opts);
             pool = filter (forcedTo forced) active;
             s1 = s\<lparr>sl_pins := pins\<rparr>
         in if pool = [] then (emptyPoolAnswer facts opts (filter (forcedTo forced) rows) now, s1)
            else (let decaying = map cn_id (filter (\<lambda>c. decays c now) pool);
                      connections = map (decayBackoff now) pool;
                      s2 = s1\<lparr>sl_rows := map (\<lambda>c. if cn_id c \<in> set decaying then resetConnectionBackoff c else c) (sl_rows s1)\<rparr>;
                      available = filter (\<lambda>c. connectionFilterStatus env opts provider model now c = Available) connections
                  in if available = [] then (unavailableAnswer env facts opts provider model now connections, s2)
                     else selectFrom env sg opts provider model dw now available s2)))"

text \<open>A selection during which no row changes.\<close>

definition getProviderCredentials ::
  "selection_env \<Rightarrow> strategy_settings \<Rightarrow> provider_facts \<Rightarrow> selection_options \<Rightarrow> string \<Rightarrow> string list option \<Rightarrow> string option
   \<Rightarrow> draws \<Rightarrow> millis \<Rightarrow> selection_state \<Rightarrow> selection \<times> selection_state" where
  "getProviderCredentials env sg facts opts provider allowed model dw now s =
     selectSeen env sg facts opts provider allowed model dw now (sl_rows s) s"

end
