(* ===== verification/SelectionLocks.thy ===== *)
theory SelectionLocks
  imports AccountSelection
begin

text \<open>
  The promise chains of \<open>src/sse/services/auth.ts\<close> that serialise the selection of an account
  (\<open>createSelectionLock\<close>) and the marking of an account (the mutex of \<open>markAccountUnavailable\<close>). A call publishes a
  promise of its own under its key, waits for the promise that was there before, runs, and resolves its promise when
  it is done. A call is a position in the list of calls; the map holds the call whose promise is stored under a key. The key
  of a selection is \<open>getSelectionMutexKey\<close>: the selections from the pool of a provider share one, those that are forced
  on a connection have one per connection.
\<close>

section \<open>State\<close>

datatype turn = Waits | Runs | Done

record lock_call =
  lc_key :: string
  lc_prev :: "nat option"
  lc_turn :: turn

record lock_table =
  lt_mutexes :: "(string, nat) jmap"
  lt_calls :: "lock_call list"

definition noLocks :: lock_table where
  "noLocks = \<lparr>lt_mutexes = [], lt_calls = []\<rparr>"

section \<open>Operations\<close>

definition enterLock :: "string \<Rightarrow> lock_table \<Rightarrow> lock_table" where
  "enterLock k s =
     s\<lparr>lt_calls := lt_calls s @ [\<lparr>lc_key = k, lc_prev = jget k (lt_mutexes s), lc_turn = Waits\<rparr>],
       lt_mutexes := jset k (length (lt_calls s)) (lt_mutexes s)\<rparr>"

definition setTurn :: "nat \<Rightarrow> turn \<Rightarrow> lock_table \<Rightarrow> lock_table" where
  "setTurn i p s = s\<lparr>lt_calls := (lt_calls s)[i := (lt_calls s ! i)\<lparr>lc_turn := p\<rparr>]\<rparr>"

definition hasTurn :: "lock_table \<Rightarrow> nat \<Rightarrow> bool" where
  "hasTurn s i \<longleftrightarrow> i < length (lt_calls s) \<and> lc_turn (lt_calls s ! i) = Waits
     \<and> (case lc_prev (lt_calls s ! i) of None \<Rightarrow> True | Some p \<Rightarrow> lc_turn (lt_calls s ! p) = Done)"

definition takeLockTurn :: "nat \<Rightarrow> lock_table \<Rightarrow> lock_table" where
  "takeLockTurn i s = (if hasTurn s i then setTurn i Runs s else s)"

text \<open>The release of a selection removes the entry of its key only when it is its own.\<close>

definition releaseSelection :: "nat \<Rightarrow> lock_table \<Rightarrow> lock_table" where
  "releaseSelection i s =
     (if i < length (lt_calls s) \<and> lc_turn (lt_calls s ! i) = Runs then
        (let k = lc_key (lt_calls s ! i); s1 = setTurn i Done s
         in if jget k (lt_mutexes s1) = Some i then s1\<lparr>lt_mutexes := jdel k (lt_mutexes s1)\<rparr> else s1)
      else s)"

text \<open>The release of a mark removes it in any case.\<close>

definition releaseMark :: "nat \<Rightarrow> lock_table \<Rightarrow> lock_table" where
  "releaseMark i s =
     (if i < length (lt_calls s) \<and> lc_turn (lt_calls s ! i) = Runs
      then (setTurn i Done s)\<lparr>lt_mutexes := jdel (lc_key (lt_calls s ! i)) (lt_mutexes s)\<rparr>
      else s)"

datatype lock_op = EnterLock string | TakeTurn nat | ReleaseLock nat

fun selectionOp :: "lock_op \<Rightarrow> lock_table \<Rightarrow> lock_table" where
  "selectionOp (EnterLock k) s = enterLock k s"
| "selectionOp (TakeTurn i) s = takeLockTurn i s"
| "selectionOp (ReleaseLock i) s = releaseSelection i s"

text \<open>The steps of selections: the call, which names its provider and maybe a connection, its start and its end.\<close>

datatype selection_step = CallSelection string "string option" | StartSelection nat | EndSelection nat

fun selectionStep :: "registry \<Rightarrow> selection_step \<Rightarrow> lock_op" where
  "selectionStep reg (CallSelection provider forced) = EnterLock (getSelectionMutexKey reg provider forced)"
| "selectionStep reg (StartSelection i) = TakeTurn i"
| "selectionStep reg (EndSelection i) = ReleaseLock i"

definition selectionRun :: "registry \<Rightarrow> selection_step list \<Rightarrow> lock_table" where
  "selectionRun reg steps = fold selectionOp (map (selectionStep reg) steps) noLocks"

fun markOp :: "lock_op \<Rightarrow> lock_table \<Rightarrow> lock_table" where
  "markOp (EnterLock k) s = enterLock k s"
| "markOp (TakeTurn i) s = takeLockTurn i s"
| "markOp (ReleaseLock i) s = releaseMark i s"

text \<open>The calls of a key that run.\<close>

definition runningCalls :: "lock_table \<Rightarrow> string \<Rightarrow> nat list" where
  "runningCalls s k = filter (\<lambda>i. lc_key (lt_calls s ! i) = k \<and> lc_turn (lt_calls s ! i) = Runs) [0..<length (lt_calls s)]"

section \<open>The chain of a selection\<close>

definition ofKey :: "lock_table \<Rightarrow> string \<Rightarrow> nat \<Rightarrow> bool" where
  "ofKey s k i \<longleftrightarrow> i < length (lt_calls s) \<and> lc_key (lt_calls s ! i) = k"

definition doneCall :: "lock_table \<Rightarrow> nat \<Rightarrow> bool" where
  "doneCall s i \<longleftrightarrow> lc_turn (lt_calls s ! i) = Done"

definition allDone :: "lock_table \<Rightarrow> string \<Rightarrow> nat \<Rightarrow> bool" where
  "allDone s k n \<longleftrightarrow> (\<forall>i < n. ofKey s k i \<longrightarrow> doneCall s i)"

text \<open>A call or the map names the last call of the key before it, or nothing when all of them are done.\<close>

definition linksTo :: "lock_table \<Rightarrow> string \<Rightarrow> nat \<Rightarrow> nat option \<Rightarrow> bool" where
  "linksTo s k n link \<longleftrightarrow>
     (case link of
        None \<Rightarrow> allDone s k n
      | Some p \<Rightarrow> p < n \<and> ofKey s k p \<and> (\<forall>i. p < i \<and> i < n \<longrightarrow> \<not> ofKey s k i))"

definition chainInv :: "lock_table \<Rightarrow> bool" where
  "chainInv s \<longleftrightarrow> (\<forall>k. linksTo s k (length (lt_calls s)) (jget k (lt_mutexes s))
     \<and> (\<forall>i. ofKey s k i \<longrightarrow> linksTo s k i (lc_prev (lt_calls s ! i))
          \<and> (lc_turn (lt_calls s ! i) \<noteq> Waits \<longrightarrow> allDone s k i)))"

lemma setTurn_simps [simp]:
  "length (lt_calls (setTurn i p s)) = length (lt_calls s)" "lt_mutexes (setTurn i p s) = lt_mutexes s"
  "i < length (lt_calls s) \<Longrightarrow> lt_calls (setTurn i p s) ! j = (if j = i then (lt_calls s ! i)\<lparr>lc_turn := p\<rparr> else lt_calls s ! j)"
  by (simp_all add: setTurn_def nth_list_update)

lemma setTurn_ofKey [simp]: "i < length (lt_calls s) \<Longrightarrow> ofKey (setTurn i p s) k j = ofKey s k j"
  by (auto simp: ofKey_def)

text \<open>Done calls stay done, so links survive.\<close>

lemma links_mono:
  assumes "linksTo s k n link" and "\<And>j. j < n \<Longrightarrow> ofKey s' k j = ofKey s k j"
    and "\<And>j. j < n \<Longrightarrow> doneCall s j \<Longrightarrow> doneCall s' j"
  shows "linksTo s' k n link"
  using assms by (auto simp: linksTo_def allDone_def split: option.splits)

lemma allDone_mono:
  assumes "allDone s k n" and "\<And>j. j < n \<Longrightarrow> ofKey s' k j = ofKey s k j"
    and "\<And>j. j < n \<Longrightarrow> doneCall s j \<Longrightarrow> doneCall s' j"
  shows "allDone s' k n"
  using assms by (auto simp: allDone_def)

lemma setTurn_inv:
  assumes inv: "chainInv s" and i: "i < length (lt_calls s)" and up: "p = Done \<or> \<not> doneCall s i"
    and clear: "p \<noteq> Waits \<Longrightarrow> allDone s (lc_key (lt_calls s ! i)) i"
  shows "chainInv (setTurn i p s)"
  unfolding chainInv_def
proof (intro allI conjI impI)
  fix k
  have keep: "doneCall s j \<Longrightarrow> doneCall (setTurn i p s) j" for j using up i by (auto simp: doneCall_def)
  note mono = links_mono [where s = s and s' = "setTurn i p s"] allDone_mono [where s = s and s' = "setTurn i p s"]
  show "linksTo (setTurn i p s) k (length (lt_calls (setTurn i p s))) (jget k (lt_mutexes (setTurn i p s)))"
    using inv i keep by (auto simp: chainInv_def intro: mono(1))
  fix j
  assume "ofKey (setTurn i p s) k j"
  then have j: "ofKey s k j" using i by simp
  show "linksTo (setTurn i p s) k j (lc_prev (lt_calls (setTurn i p s) ! j))"
    using inv i keep j by (auto simp: chainInv_def intro: mono(1))
  assume t: "lc_turn (lt_calls (setTurn i p s) ! j) \<noteq> Waits"
  have "allDone s k j"
  proof (cases "j = i")
    case True
    then show ?thesis using clear t i j by (auto simp: ofKey_def)
  next
    case False
    then show ?thesis using inv j t i by (auto simp: chainInv_def)
  qed
  then show "allDone (setTurn i p s) k j" using i keep by (auto intro: mono(2))
qed

lemma turn_clear:
  assumes inv: "chainInv s" and "hasTurn s i"
  shows "allDone s (lc_key (lt_calls s ! i)) i"
proof -
  define k where "k = lc_key (lt_calls s ! i)"
  have i: "ofKey s k i" and prev: "\<And>p. lc_prev (lt_calls s ! i) = Some p \<Longrightarrow> doneCall s p"
    using assms(2) by (auto simp: hasTurn_def ofKey_def doneCall_def k_def)
  have link: "linksTo s k i (lc_prev (lt_calls s ! i))" using inv i by (auto simp: chainInv_def)
  have "allDone s k i"
  proof (cases "lc_prev (lt_calls s ! i)")
    case None
    then show ?thesis using link by (simp add: linksTo_def)
  next
    case (Some p)
    then have p: "p < i" "ofKey s k p" "\<forall>j. p < j \<and> j < i \<longrightarrow> \<not> ofKey s k j" using link by (auto simp: linksTo_def)
    have "doneCall s p" by (rule prev [OF Some])
    moreover from this have "allDone s k p" using inv p(2) by (auto simp: chainInv_def doneCall_def)
    ultimately show ?thesis using p(3) unfolding allDone_def by (metis linorder_neqE_nat)
  qed
  then show ?thesis by (simp add: k_def)
qed

lemma enterLock_inv:
  assumes inv: "chainInv s"
  shows "chainInv (enterLock k s)"
  unfolding chainInv_def
proof (intro allI conjI impI)
  define n where "n = length (lt_calls s)"
  have len: "length (lt_calls (enterLock k s)) = Suc n" by (simp add: enterLock_def n_def)
  have old: "lt_calls (enterLock k s) ! j = lt_calls s ! j" if "j < n" for j
    using that by (simp add: enterLock_def n_def nth_append)
  have new: "lt_calls (enterLock k s) ! n = \<lparr>lc_key = k, lc_prev = jget k (lt_mutexes s), lc_turn = Waits\<rparr>"
    by (simp add: enterLock_def n_def)
  have same: "ofKey (enterLock k s) k' j = ofKey s k' j" "doneCall s j \<Longrightarrow> doneCall (enterLock k s) j" if "j < n" for k' j
    using that old [OF that] len by (simp_all add: ofKey_def doneCall_def n_def)
  have at: "ofKey (enterLock k s) k' n \<longleftrightarrow> k' = k" for k' using new len by (auto simp: ofKey_def)
  have links: "linksTo s k' (length (lt_calls s)) (jget k' (lt_mutexes s))" for k' using inv by (simp add: chainInv_def)
  fix k'
  show "linksTo (enterLock k s) k' (length (lt_calls (enterLock k s))) (jget k' (lt_mutexes (enterLock k s)))"
  proof (cases "k' = k")
    case True
    then have "jget k' (lt_mutexes (enterLock k s)) = Some n" by (simp add: enterLock_def n_def)
    moreover have "ofKey (enterLock k s) k' n" using True at by simp
    ultimately show ?thesis unfolding linksTo_def len by auto
  next
    case False
    have "linksTo (enterLock k s) k' n (jget k' (lt_mutexes s))"
      by (rule links_mono [OF links [of k', folded n_def]]) (use same in auto)
    moreover have "\<not> ofKey (enterLock k s) k' n" using False at by simp
    ultimately show ?thesis using False len
      by (auto simp: linksTo_def allDone_def enterLock_def less_Suc_eq simp flip: n_def split: option.splits)
  qed
  fix j
  assume j: "ofKey (enterLock k s) k' j"
  then have "j < Suc n" using len by (simp add: ofKey_def)
  then consider "j < n" | "j = n" by linarith
  then show "linksTo (enterLock k s) k' j (lc_prev (lt_calls (enterLock k s) ! j))"
  proof cases
    case 1
    then have "linksTo s k' j (lc_prev (lt_calls s ! j))" using inv j same by (auto simp: chainInv_def)
    then show ?thesis unfolding old [OF 1] by (rule links_mono) (use same 1 in auto)
  next
    case 2
    then have k': "k' = k" using j at by simp
    have "linksTo (enterLock k s) k n (jget k (lt_mutexes s))"
      by (rule links_mono [OF links [of k, folded n_def]]) (use same in auto)
    then show ?thesis using 2 k' new by simp
  qed
  assume t: "lc_turn (lt_calls (enterLock k s) ! j) \<noteq> Waits"
  then have "j \<noteq> n" using new by auto
  then have "j < n" using \<open>j < Suc n\<close> by simp
  then have "allDone s k' j" using inv j same t old by (auto simp: chainInv_def)
  then show "allDone (enterLock k s) k' j" by (rule allDone_mono) (use same \<open>j < n\<close> in auto)
qed

lemma selection_release_inv:
  assumes inv: "chainInv s" and i: "i < length (lt_calls s)" "lc_turn (lt_calls s ! i) = Runs"
  shows "chainInv (releaseSelection i s)"
proof -
  define k where "k = lc_key (lt_calls s ! i)"
  have ofi: "ofKey s k i" using i by (simp add: ofKey_def k_def)
  have clear: "allDone s k i" using inv i ofi by (auto simp: chainInv_def)
  define s1 where "s1 = setTurn i Done s"
  have s1: "chainInv s1" unfolding s1_def by (rule setTurn_inv [OF inv i(1)]) (use clear in \<open>simp_all add: k_def\<close>)
  show ?thesis
  proof (cases "jget k (lt_mutexes s) = Some i")
    case False
    then show ?thesis using s1 i by (simp add: releaseSelection_def s1_def k_def Let_def)
  next
    case True
    define s2 where "s2 = s1\<lparr>lt_mutexes := jdel k (lt_mutexes s1)\<rparr>"
    have r: "releaseSelection i s = s2" using True i by (simp add: releaseSelection_def s2_def s1_def k_def Let_def)
    have same: "linksTo s2 = linksTo s1" "allDone s2 = allDone s1" "ofKey s2 = ofKey s1" "lt_calls s2 = lt_calls s1"
      by (simp_all add: fun_eq_iff s2_def linksTo_def allDone_def ofKey_def doneCall_def split: option.split)
    have last: "\<forall>j. i < j \<and> j < length (lt_calls s) \<longrightarrow> \<not> ofKey s k j"
      using inv True by (auto simp: chainInv_def linksTo_def split: option.splits dest: spec [of _ k])
    have "allDone s1 k (length (lt_calls s1))"
      unfolding allDone_def
    proof (intro allI impI)
      fix j
      assume j: "j < length (lt_calls s1)" "ofKey s1 k j"
      then have "ofKey s k j" "j < length (lt_calls s)" using i by (simp_all add: s1_def)
      then consider "j < i" | "j = i" using last by (metis linorder_neqE_nat)
      then show "doneCall s1 j"
        using clear i \<open>ofKey s k j\<close> by cases (auto simp: s1_def doneCall_def allDone_def)
    qed
    then have "linksTo s1 k' (length (lt_calls s1)) (jget k' (lt_mutexes s2))" for k'
      using s1 by (cases "k' = k") (auto simp: s2_def chainInv_def linksTo_def)
    then show ?thesis unfolding r using s1 by (simp add: chainInv_def same)
  qed
qed

lemma selection_inv: "chainInv s \<Longrightarrow> chainInv (selectionOp op s)"
proof (cases op)
  case (TakeTurn i)
  assume inv: "chainInv s"
  show ?thesis
  proof (cases "hasTurn s i")
    case True
    then have "chainInv (setTurn i Runs s)"
      by (intro setTurn_inv [OF inv]) (auto simp: hasTurn_def doneCall_def intro: turn_clear [OF inv])
    then show ?thesis using True TakeTurn by (simp add: takeLockTurn_def)
  next
    case False
    then show ?thesis using inv TakeTurn by (simp add: takeLockTurn_def)
  qed
next
  case (ReleaseLock i)
  assume inv: "chainInv s"
  then show ?thesis
    using selection_release_inv [OF inv, of i] ReleaseLock by (auto simp: releaseSelection_def)
qed (simp add: enterLock_inv)

lemma selection_run: "chainInv (fold selectionOp ops noLocks)"
proof -
  have "chainInv s \<Longrightarrow> chainInv (fold selectionOp ops s)" for s
    by (induction ops arbitrary: s) (simp_all add: selection_inv)
  moreover have "chainInv noLocks" by (simp add: chainInv_def noLocks_def linksTo_def allDone_def ofKey_def)
  ultimately show ?thesis by blast
qed

lemma chain_exclusive:
  assumes "chainInv s" and "i \<in> set (runningCalls s k)" and "j \<in> set (runningCalls s k)"
  shows "i = j"
proof -
  have "False" if "i < j" "i \<in> set (runningCalls s k)" "j \<in> set (runningCalls s k)" for i j
  proof -
    have "allDone s k j" using assms(1) that by (auto simp: chainInv_def runningCalls_def ofKey_def)
    then show False using that by (auto simp: allDone_def runningCalls_def ofKey_def doneCall_def)
  qed
  then show ?thesis using assms by (metis linorder_neqE_nat)
qed

text \<open>The oldest call of a key that is not done runs or has its turn.\<close>

lemma chain_progress:
  assumes inv: "chainInv s" and i: "ofKey s k i" "\<not> doneCall s i" "allDone s k i"
  shows "i \<in> set (runningCalls s k) \<or> hasTurn s i"
proof (cases "lc_turn (lt_calls s ! i)")
  case Waits
  have "linksTo s k i (lc_prev (lt_calls s ! i))" using inv i(1) by (auto simp: chainInv_def)
  then have "case lc_prev (lt_calls s ! i) of None \<Rightarrow> True | Some p \<Rightarrow> lc_turn (lt_calls s ! p) = Done"
    using i(3) by (auto simp: linksTo_def allDone_def doneCall_def split: option.splits)
  then show ?thesis using Waits i(1) by (simp add: hasTurn_def ofKey_def)
qed (use i in \<open>auto simp: runningCalls_def ofKey_def doneCall_def\<close>)

lemma serialized_key:
  assumes s: "s = fold selectionOp ops noLocks"
  shows "length (runningCalls s k) \<le> 1
    \<and> (\<forall>i. ofKey s k i \<and> \<not> doneCall s i \<and> allDone s k i \<longrightarrow> runningCalls s k = [i] \<or> runningCalls s k = [] \<and> hasTurn s i)"
proof -
  have inv: "chainInv s" unfolding s by (rule selection_run)
  have one: "length (runningCalls s k) \<le> 1"
  proof (rule ccontr)
    assume "\<not> length (runningCalls s k) \<le> 1"
    then have two: "0 < length (runningCalls s k)" "1 < length (runningCalls s k)" by auto
    have "distinct (runningCalls s k)" by (simp add: runningCalls_def)
    then have "runningCalls s k ! 0 \<noteq> runningCalls s k ! 1" using two nth_eq_iff_index_eq by fastforce
    moreover have "runningCalls s k ! 0 = runningCalls s k ! 1" by (rule chain_exclusive [OF inv, where k = k]) (use two nth_mem in auto)
    ultimately show False by simp
  qed
  have "runningCalls s k = [i] \<or> runningCalls s k = [] \<and> hasTurn s i" if i: "ofKey s k i" "\<not> doneCall s i" "allDone s k i" for i
  proof (cases "runningCalls s k")
    case Nil
    then show ?thesis using chain_progress [OF inv i] by simp
  next
    case (Cons j js)
    then have js: "js = []" "j \<in> set (runningCalls s k)" using one by auto
    have jk: "ofKey s k j" "lc_turn (lt_calls s ! j) = Runs" using js(2) by (auto simp: runningCalls_def ofKey_def)
    then have "allDone s k j" using inv by (auto simp: chainInv_def)
    moreover have "\<not> doneCall s j" using jk(2) by (simp add: doneCall_def)
    ultimately have "j = i" using i jk(1) unfolding allDone_def by (metis linorder_neqE_nat)
    then show ?thesis using Cons js(1) by simp
  qed
  then show ?thesis using one by blast
qed

definition smallRegistry :: registry where
  "smallRegistry = \<lparr>sections = [], passthrough = [], oauthProviders = []\<rparr>"

text \<open>A selection that is forced on a connection does not wait for one from the pool of the same provider.\<close>

lemma forced_beside_pool:
  "let s = selectionRun smallRegistry [CallSelection ''p'' None, StartSelection 0, CallSelection ''p'' (Some ''c''), StartSelection 1]
   in runningCalls s (getSelectionMutexKey smallRegistry ''p'' None) = [0] \<and> runningCalls s (getSelectionMutexKey smallRegistry ''p'' (Some ''c'')) = [1]"
  by code_simp

text \<open>
  C13. The selections of a provider that come from its pool exclude each other, and so do those that are forced on the same
  connection: in every interleaving of calls, starts and ends at most one selection of such a group runs, and while some
  selection of the group is not done, the oldest of them runs or can start. The two groups have different keys.
\<close>

theorem selections_serialized:
  assumes s: "s = selectionRun reg steps" and k: "k = getSelectionMutexKey reg provider forced"
  shows "length (runningCalls s k) \<le> 1
    \<and> (\<forall>i. ofKey s k i \<and> \<not> doneCall s i \<and> allDone s k i \<longrightarrow> runningCalls s k = [i] \<or> runningCalls s k = [] \<and> hasTurn s i)
    \<and> (c \<noteq> [] \<longrightarrow> getSelectionMutexKey reg provider None \<noteq> getSelectionMutexKey reg provider (Some c))"
proof -
  have "getSelectionMutexKey reg provider None \<noteq> getSelectionMutexKey reg provider (Some c)" if "c \<noteq> []"
    using that by (simp add: getSelectionMutexKey_def Let_def noText_def)
  then show ?thesis using serialized_key [OF s [unfolded selectionRun_def]] by blast
qed

lemma selections_serialized_witness:
  "let s = selectionRun smallRegistry [CallSelection ''p'' None, StartSelection 0, CallSelection ''p'' None, EndSelection 0, StartSelection 1,
       CallSelection ''p'' (Some ''a''), StartSelection 2]
   in length (runningCalls s ''p:pool'') \<le> 1 \<and> runningCalls s ''p:pool'' = [1] \<and> runningCalls s ''p:forced:a'' = [2]"
proof -
  let ?steps = "[CallSelection ''p'' None, StartSelection 0, CallSelection ''p'' None, EndSelection 0, StartSelection 1,
       CallSelection ''p'' (Some ''a''), StartSelection 2]"
  have "''p:pool'' = getSelectionMutexKey smallRegistry ''p'' None" by code_simp
  from selections_serialized [OF refl this, of ?steps] have "length (runningCalls (selectionRun smallRegistry ?steps) ''p:pool'') \<le> 1" by blast
  moreover have "runningCalls (selectionRun smallRegistry ?steps) ''p:pool'' = [1]" "runningCalls (selectionRun smallRegistry ?steps) ''p:forced:a'' = [2]"
    by code_simp+
  ultimately show ?thesis by (simp only: Let_def)
qed

section \<open>The chain of a mark\<close>

text \<open>
  C38. Marks of an account overlap. A mark that releases removes the promise of the next one from the map, so a third
  mark finds none and starts at once: from any state in which no mark of the account is on its way, three marks are
  enough for two to run at the same time.
\<close>

theorem marks_overlap:
  assumes idle: "jget c (lt_mutexes s) = None" and n: "n = length (lt_calls s)"
    and quiet: "runningCalls s c = []"
  shows "runningCalls (fold markOp [EnterLock c, TakeTurn n, EnterLock c, ReleaseLock n, TakeTurn (n + 1), EnterLock c, TakeTurn (n + 2)] s) c
    = [n + 1, n + 2]"
proof -
  define a where "a = (\<lambda>prev turn. \<lparr>lc_key = c, lc_prev = prev, lc_turn = turn\<rparr>)"
  define cs where "cs = lt_calls s"
  have n: "length cs = n" by (simp add: n cs_def)
  define s1 where "s1 = enterLock c s"
  define s2 where "s2 = takeLockTurn n s1"
  define s3 where "s3 = enterLock c s2"
  define s4 where "s4 = releaseMark n s3"
  define s5 where "s5 = takeLockTurn (n + 1) s4"
  define s6 where "s6 = enterLock c s5"
  define t where "t = takeLockTurn (n + 2) s6"
  have 1: "lt_calls s1 = cs @ [a None Waits]" "jget c (lt_mutexes s1) = Some n"
    using idle n by (simp_all add: s1_def enterLock_def a_def cs_def)
  have 2: "lt_calls s2 = cs @ [a None Runs]" "jget c (lt_mutexes s2) = Some n"
    using 1 n by (simp_all add: s2_def takeLockTurn_def hasTurn_def setTurn_def a_def nth_append list_update_append)
  have 3: "lt_calls s3 = cs @ [a None Runs, a (Some n) Waits]"
    using 2 by (simp add: s3_def enterLock_def a_def)
  have 4: "lt_calls s4 = cs @ [a None Done, a (Some n) Waits]" "jget c (lt_mutexes s4) = None"
    using 3 n by (simp_all add: s4_def releaseMark_def setTurn_def a_def nth_append list_update_append)
  have 5: "lt_calls s5 = cs @ [a None Done, a (Some n) Runs]" "jget c (lt_mutexes s5) = None"
    using 4 n by (simp_all add: s5_def takeLockTurn_def hasTurn_def setTurn_def a_def nth_append list_update_append)
  have 6: "lt_calls s6 = cs @ [a None Done, a (Some n) Runs, a None Waits]"
    using 5 by (simp add: s6_def enterLock_def a_def)
  have calls: "lt_calls t = cs @ [a None Done, a (Some n) Runs, a None Runs]"
    using 6 n by (simp add: t_def takeLockTurn_def hasTurn_def setTurn_def a_def nth_append list_update_append)
  have "[0..<length (lt_calls t)] = [0..<n] @ [n, n + 1, n + 2]" by (simp add: calls n)
  moreover have "filter (\<lambda>i. lc_key (lt_calls t ! i) = c \<and> lc_turn (lt_calls t ! i) = Runs) [0..<n] = runningCalls s c"
    (is "filter ?P _ = _")
  proof -
    have "lt_calls t ! i = lt_calls s ! i" if "i < n" for i using that n by (simp add: calls nth_append cs_def)
    then have "filter ?P [0..<n] = filter (\<lambda>i. lc_key (lt_calls s ! i) = c \<and> lc_turn (lt_calls s ! i) = Runs) [0..<n]"
      by (intro filter_cong) simp_all
    also have "\<dots> = runningCalls s c" using n by (simp only: runningCalls_def cs_def)
    finally show ?thesis .
  qed
  moreover have "filter (\<lambda>i. lc_key (lt_calls t ! i) = c \<and> lc_turn (lt_calls t ! i) = Runs) [n, n + 1, n + 2] = [n + 1, n + 2]"
    by (simp add: calls nth_append n a_def)
  ultimately have "runningCalls t c = [n + 1, n + 2]" using quiet by (simp add: runningCalls_def)
  then show ?thesis by (simp add: t_def s6_def s5_def s4_def s3_def s2_def s1_def numeral_2_eq_2)
qed

lemma marks_overlap_witness:
  "runningCalls (fold markOp [EnterLock ''c'', TakeTurn 0, EnterLock ''c'', ReleaseLock 0, TakeTurn 1, EnterLock ''c'', TakeTurn 2] noLocks) ''c'' = [1, 2]"
proof -
  have "jget ''c'' (lt_mutexes noLocks) = None" "0 = length (lt_calls noLocks)" "runningCalls noLocks ''c'' = []"
    by (simp_all add: noLocks_def runningCalls_def)
  from marks_overlap [OF this] show ?thesis by (simp add: numeral_2_eq_2)
qed

end
