(* ===== verification/SelectionLaws.thy ===== *)
theory SelectionLaws
  imports AccountSelection
begin

text \<open>
  A selection answers an account exactly when one is eligible, and then an eligible one; the turns of round robin; a
  pin that costs the request.
\<close>

section \<open>Eligible accounts\<close>

text \<open>The id that the pool is narrowed to, and the pool.\<close>

definition forcedFrom :: "selection_env \<Rightarrow> strategy_settings \<Rightarrow> selection_options \<Rightarrow> string \<Rightarrow> string list option \<Rightarrow> string option \<Rightarrow> millis
   \<Rightarrow> connection list \<Rightarrow> pins \<Rightarrow> string option" where
  "forcedFrom env sg opts provider allowed model now seen pins =
     (case fst (applySessionAffinityPin env (opts\<lparr>so_forced := trimmedForced opts\<rparr>) (sg_affinityTtl sg)
              (filter cn_isActive (filter (\<lambda>c. cn_id c \<noteq> [] \<and> allowedBy allowed c) seen)) provider model now pins) of
        Some x \<Rightarrow> Some x
      | None \<Rightarrow> trimmedForced opts)"

definition forcedFor :: "selection_env \<Rightarrow> strategy_settings \<Rightarrow> selection_options \<Rightarrow> string \<Rightarrow> string list option \<Rightarrow> string option \<Rightarrow> millis
   \<Rightarrow> selection_state \<Rightarrow> string option" where
  "forcedFor env sg opts provider allowed model now s = forcedFrom env sg opts provider allowed model now (sl_rows s) (sl_pins s)"

definition inPool :: "string list option \<Rightarrow> string option \<Rightarrow> connection \<Rightarrow> bool" where
  "inPool allowed forced c \<longleftrightarrow> cn_id c \<noteq> [] \<and> cn_isActive c \<and> allowedBy allowed c \<and> forcedTo forced c"

definition eligible :: "selection_env \<Rightarrow> selection_options \<Rightarrow> string \<Rightarrow> string option \<Rightarrow> millis \<Rightarrow> connection \<Rightarrow> bool" where
  "eligible env opts provider model now c \<longleftrightarrow>
     cn_id c \<notin> set (so_excluded opts)
     \<and> (noText model \<or> \<not> isModelExcludedByConnection (the model) (cn_data c))
     \<and> (so_allowSuppressed opts \<or>
          ((so_allowRateLimited opts \<or> \<not> isAccountUnavailable (cn_rateLimitedUntil c) now)
           \<and> \<not> isTerminalConnectionStatus c
           \<and> (provider = ''codex'' \<longrightarrow> \<not> isCodexScopeUnavailable c model now)
           \<and> \<not> lockedFor env provider model now c))
     \<and> (so_bypassQuota opts \<or> \<not> pe_blocked (evaluateQuotaLimitPolicy (sv_cmp env) provider c model now (sv_quota env)))
     \<and> \<not> isQuotaExhaustedForRequest (sv_cmp env) (cn_id c) provider model now (sv_quota env)"

lemma available_iff:
  "connectionFilterStatus env opts provider model now c = Available \<longleftrightarrow>
     cn_id c \<notin> set (so_excluded opts)
     \<and> (noText model \<or> \<not> isModelExcludedByConnection (the model) (cn_data c))
     \<and> (so_allowSuppressed opts \<or>
          ((so_allowRateLimited opts \<or> \<not> isAccountUnavailable (cn_rateLimitedUntil c) now)
           \<and> \<not> isTerminalConnectionStatus c
           \<and> (provider = ''codex'' \<longrightarrow> \<not> isCodexScopeUnavailable c model now)
           \<and> \<not> lockedFor env provider model now c))"
  unfolding connectionFilterStatus_def by simp

lemma decay_frame [simp]:
  "cn_id (decayBackoff now c) = cn_id c" "cn_data (decayBackoff now c) = cn_data c"
  "cn_rateLimitedUntil (decayBackoff now c) = cn_rateLimitedUntil c" "cn_testStatus (decayBackoff now c) = cn_testStatus c"
  "cn_isActive (decayBackoff now c) = cn_isActive c"
  by (simp_all add: decayBackoff_def)

lemma decay_status [simp]:
  "isTerminalConnectionStatus (decayBackoff now c) = isTerminalConnectionStatus c"
  "isCodexScopeUnavailable (decayBackoff now c) model t = isCodexScopeUnavailable c model t"
  "lockedFor env provider model t (decayBackoff now c) = lockedFor env provider model t c"
  by (simp_all add: isTerminalConnectionStatus_def isCodexScopeUnavailable_def lockedFor_def)

lemma decay_policy [simp]:
  "evaluateQuotaLimitPolicy cmp provider (decayBackoff now c) model t q = evaluateQuotaLimitPolicy cmp provider c model t q"
proof -
  have "blockingWindow cmp provider (decayBackoff now c) = blockingWindow cmp provider c"
    by (simp add: fun_eq_iff blockingWindow_def)
  then show ?thesis by (simp add: evaluateQuotaLimitPolicy_def)
qed

lemma decay_eligible [simp]: "eligible env opts provider model now (decayBackoff now c) = eligible env opts provider model now c"
  by (simp add: eligible_def)

section \<open>What a strategy picks\<close>

lemma affinity_in:
  assumes "fst (selectSessionAffinityConnection digest provider key cs ttl now pins) = Some (c, n)"
  shows "c \<in> set cs"
proof -
  have on: "\<not> (noText key \<or> cs = [] \<or> ttl \<le> 0)" using assms by (auto simp: selectSessionAffinityConnection_def)
  obtain existing s1 where g: "getSessionAccountAffinity digest (the key) provider ttl now pins = (existing, s1)" by (rule prod.exhaust)
  define pinned where "pinned = (case existing of Some r \<Rightarrow> find (\<lambda>c. cn_id c = af_connection r) cs | None \<Rightarrow> None)"
  show ?thesis
  proof (cases pinned)
    case (Some d)
    then have "d \<in> set cs" by (auto simp: pinned_def find_Some_iff split: option.splits)
    moreover have "c = d" using assms on g Some by (simp add: selectSessionAffinityConnection_def pinned_def)
    ultimately show ?thesis by simp
  next
    case None
    obtain d ds where d: "sortBy compareLruConnections cs = d # ds" using on by (cases "sortBy compareLruConnections cs") auto
    have "c = d" using assms on g None d by (simp add: selectSessionAffinityConnection_def pinned_def Let_def)
    then show ?thesis using set_sortBy [of compareLruConnections cs] by (simp add: d) blast
  qed
qed

lemma twoChoices_bounds:
  assumes "2 < n" and "twoChoices n d1 d2 = (i, j)"
  shows "i < n" and "j < n" and "i \<noteq> j"
proof -
  have "d2 mod (n - 1) < n - 1" using assms(1) by simp
  then have "d2 mod (n - 1) + 1 < n" by simp
  moreover have "d1 mod n < n" using assms(1) by simp
  moreover have "i = d1 mod n" "j = (if d1 mod n \<le> d2 mod (n - 1) then d2 mod (n - 1) + 1 else d2 mod (n - 1))"
    using assms(2) by (auto simp: twoChoices_def Let_def)
  ultimately show "i < n" "j < n" "i \<noteq> j" by (simp_all split: if_splits)
qed

lemma pickP2C_in:
  assumes "cs \<noteq> []"
  shows "pickP2C compare d1 d2 cs \<in> set cs"
proof (cases "length cs \<le> 2")
  case True
  then show ?thesis using hd_sortBy_in [OF assms] by (simp add: pickP2C_def)
next
  case False
  obtain i j where ij: "twoChoices (length cs) d1 d2 = (i, j)" by (rule prod.exhaust)
  have "i < length cs" "j < length cs" using twoChoices_bounds [of "length cs" d1 d2 i j] False ij by simp_all
  then show ?thesis using False by (simp add: pickP2C_def ij)
qed

lemma pick_in:
  assumes "cs \<noteq> []"
  shows "fst (pickByStrategy env sg fb provider model dw now known cs s) \<in> set cs"
proof -
  have h: "hd (sortBy cmp cs) \<in> set cs" for cmp by (rule hd_sortBy_in [OF assms])
  have "fst (pickRoundRobin l fb cs) \<in> set cs" for l by (simp add: pickRoundRobin_def Let_def h)
  moreover have "fst (pickFromDeck ds provider cs decks) \<in> set cs" for ds decks
    using assms by (auto simp: pickFromDeck_def Let_def find_Some_iff split: prod.splits option.splits)
  moreover have "cs ! (dw_first dw mod length cs) \<in> set cs" using assms by simp
  ultimately show ?thesis
    using h pickP2C_in [OF assms] assms unfolding pickByStrategy_def by (simp add: Let_def case_prod_unfold)
qed

section \<open>The selection\<close>

lemma selectFrom_cases:
  assumes avail: "\<forall>c \<in> set available. connectionFilterStatus env opts provider model now c = Available"
  shows "case fst (selectFrom env sg opts provider model dw now available s) of
      Selected c \<Rightarrow> c \<in> set available \<and> eligible env opts provider model now c
    | _ \<Rightarrow> \<forall>c \<in> set available. \<not> eligible env opts provider model now c"
proof -
  define good where "good = (\<lambda>c. (so_bypassQuota opts \<or> \<not> pe_blocked (evaluateQuotaLimitPolicy (sv_cmp env) provider c model now (sv_quota env)))
     \<and> \<not> isQuotaExhaustedForRequest (sv_cmp env) (cn_id c) provider model now (sv_quota env))"
  have el: "eligible env opts provider model now c \<longleftrightarrow> good c" if "c \<in> set available" for c
    using avail that by (simp add: eligible_def available_iff good_def)
  define ok where "ok = (if so_bypassQuota opts then available
      else filter (\<lambda>c. \<not> pe_blocked (evaluateQuotaLimitPolicy (sv_cmp env) provider c model now (sv_quota env))) available)"
  define rest where "rest = filter (\<lambda>c. \<not> isQuotaExhaustedForRequest (sv_cmp env) (cn_id c) provider model now (sv_quota env)) ok"
  have rest: "set rest = {c \<in> set available. good c}" by (auto simp: rest_def ok_def good_def)
  show ?thesis
  proof (cases "rest = []")
    case True
    then have "\<forall>c \<in> set available. \<not> eligible env opts provider model now c" using rest el by auto
    moreover have "\<exists>la. fst (selectFrom env sg opts provider model dw now available s) = AllRateLimited la"
      using True unfolding selectFrom_def Let_def ok_def [symmetric] rest_def [symmetric] by (simp add: policyAnswer_def)
    ultimately show ?thesis by auto
  next
    case False
    then have "ok \<noteq> []" by (auto simp: rest_def)
    obtain a pins where aff: "selectSessionAffinityConnection (sv_digest env) provider (so_sessionKey opts) rest (sg_affinityTtl sg) now (sl_pins s) = (a, pins)"
      by (rule prod.exhaust)
    have "\<exists>c. fst (selectFrom env sg opts provider model dw now available s) = Selected c \<and> c \<in> set rest"
    proof (cases a)
      case (Some cn)
      then have "fst cn \<in> set rest" using affinity_in [of _ provider _ rest _ now _ "fst cn" "snd cn"] aff by (metis fst_conv prod.collapse)
      then show ?thesis using False \<open>ok \<noteq> []\<close> aff Some
        unfolding selectFrom_def Let_def ok_def [symmetric] rest_def [symmetric] by (simp add: case_prod_unfold)
    next
      case None
      then show ?thesis using False \<open>ok \<noteq> []\<close> aff pick_in [OF False]
        unfolding selectFrom_def Let_def ok_def [symmetric] rest_def [symmetric] by (simp add: case_prod_unfold)
    qed
    then show ?thesis using rest el by auto
  qed
qed

lemma seen_cases:
  assumes "\<not> pf_noAuth facts"
  shows "case fst (selectSeen env sg facts opts provider allowed model dw now seen s) of
      Selected c \<Rightarrow> \<exists>r \<in> set seen. c = decayBackoff now r \<and> inPool allowed (forcedFrom env sg opts provider allowed model now seen (sl_pins s)) r
        \<and> eligible env opts provider model now r
    | _ \<Rightarrow> \<forall>r \<in> set seen. inPool allowed (forcedFrom env sg opts provider allowed model now seen (sl_pins s)) r
        \<longrightarrow> \<not> eligible env opts provider model now r"
proof -
  define rows where "rows = filter (\<lambda>c. cn_id c \<noteq> [] \<and> allowedBy allowed c) seen"
  obtain pin pins where pin: "applySessionAffinityPin env (opts\<lparr>so_forced := trimmedForced opts\<rparr>) (sg_affinityTtl sg)
      (filter cn_isActive rows) provider model now (sl_pins s) = (pin, pins)" by (rule prod.exhaust)
  define forced where "forced = forcedFrom env sg opts provider allowed model now seen (sl_pins s)"
  have forced: "(case pin of Some x \<Rightarrow> Some x | None \<Rightarrow> trimmedForced opts) = forced"
    using pin by (simp add: forced_def forcedFrom_def rows_def)
  define pool where "pool = filter (forcedTo forced) (filter cn_isActive rows)"
  have pool: "set pool = {r \<in> set seen. inPool allowed forced r}" by (auto simp: pool_def rows_def inPool_def)
  define avail where "avail = filter (\<lambda>c. connectionFilterStatus env opts provider model now c = Available) (map (decayBackoff now) pool)"
  define s2 where "s2 = (s\<lparr>sl_pins := pins\<rparr>)\<lparr>sl_rows := map (\<lambda>c. if cn_id c \<in> set (map cn_id (filter (\<lambda>c. decays c now) pool)) then resetConnectionBackoff c else c) (sl_rows s)\<rparr>"
  have run: "fst (selectSeen env sg facts opts provider allowed model dw now seen s)
      = (if pool = [] then emptyPoolAnswer facts opts (filter (forcedTo forced) rows) now
         else if avail = [] then unavailableAnswer env facts opts provider model now (map (decayBackoff now) pool)
         else fst (selectFrom env sg opts provider model dw now avail s2))"
    using assms pin unfolding selectSeen_def Let_def rows_def [symmetric] by (simp add: forced avail_def pool_def s2_def)
  have notAvail: "\<not> eligible env opts provider model now r" if "r \<in> set pool" "decayBackoff now r \<notin> set avail" for r
  proof -
    have "connectionFilterStatus env opts provider model now (decayBackoff now r) \<noteq> Available" using that by (auto simp: avail_def)
    then have "\<not> eligible env opts provider model now (decayBackoff now r)" by (auto simp: eligible_def available_iff)
    then show ?thesis by simp
  qed
  show ?thesis unfolding forced_def [symmetric]
  proof (cases "pool = [] \<or> avail = []")
    case True
    then have none: "\<forall>r \<in> set seen. inPool allowed forced r \<longrightarrow> \<not> eligible env opts provider model now r"
      using notAvail pool by (metis (mono_tags, lifting) empty_iff list.set(1) mem_Collect_eq)
    have "\<And>c. fst (selectSeen env sg facts opts provider allowed model dw now seen s) \<noteq> Selected c"
      using True run by (auto simp: emptyPoolAnswer_def unavailableAnswer_def Let_def split: if_splits option.splits list.splits prod.splits)
    then show "case fst (selectSeen env sg facts opts provider allowed model dw now seen s) of
      Selected c \<Rightarrow> \<exists>r \<in> set seen. c = decayBackoff now r \<and> inPool allowed forced r \<and> eligible env opts provider model now r
      | _ \<Rightarrow> \<forall>r \<in> set seen. inPool allowed forced r \<longrightarrow> \<not> eligible env opts provider model now r"
      using none by (simp split: selection.split)
  next
    case False
    have "\<forall>c \<in> set avail. connectionFilterStatus env opts provider model now c = Available" by (simp add: avail_def)
    from selectFrom_cases [OF this, of sg dw s2]
    have sel: "case fst (selectSeen env sg facts opts provider allowed model dw now seen s) of
        Selected c \<Rightarrow> c \<in> set avail \<and> eligible env opts provider model now c
      | _ \<Rightarrow> \<forall>c \<in> set avail. \<not> eligible env opts provider model now c" using False run by simp
    have origin: "\<exists>r \<in> set seen. c = decayBackoff now r \<and> inPool allowed forced r \<and> eligible env opts provider model now r"
      if c: "c \<in> set avail" "eligible env opts provider model now c" for c
    proof -
      obtain r where "r \<in> set pool" "c = decayBackoff now r" using c(1) by (auto simp: avail_def)
      then show ?thesis using c(2) pool by auto
    qed
    have none: "\<forall>r \<in> set seen. inPool allowed forced r \<longrightarrow> \<not> eligible env opts provider model now r"
      if "\<forall>c \<in> set avail. \<not> eligible env opts provider model now c"
    proof (intro ballI impI)
      fix r
      assume r: "r \<in> set seen" "inPool allowed forced r"
      show "\<not> eligible env opts provider model now r"
      proof (cases "decayBackoff now r \<in> set avail")
        case True
        then show ?thesis using that decay_eligible [of env opts provider model now r] by blast
      next
        case False
        then show ?thesis using notAvail [of r] r pool by auto
      qed
    qed
    show "case fst (selectSeen env sg facts opts provider allowed model dw now seen s) of
      Selected c \<Rightarrow> \<exists>r \<in> set seen. c = decayBackoff now r \<and> inPool allowed forced r \<and> eligible env opts provider model now r
      | _ \<Rightarrow> \<forall>r \<in> set seen. inPool allowed forced r \<longrightarrow> \<not> eligible env opts provider model now r"
    proof (cases "fst (selectSeen env sg facts opts provider allowed model dw now seen s)")
      case (Selected c)
      then show ?thesis using sel origin by auto
    qed (use sel none in auto)
  qed
qed

lemma credentials_cases:
  assumes "\<not> pf_noAuth facts"
  shows "case fst (getProviderCredentials env sg facts opts provider allowed model dw now s) of
      Selected c \<Rightarrow> \<exists>r \<in> set (sl_rows s). c = decayBackoff now r \<and> inPool allowed (forcedFor env sg opts provider allowed model now s) r
        \<and> eligible env opts provider model now r
    | _ \<Rightarrow> \<forall>r \<in> set (sl_rows s). inPool allowed (forcedFor env sg opts provider allowed model now s) r
        \<longrightarrow> \<not> eligible env opts provider model now r"
  unfolding getProviderCredentials_def forcedFor_def by (rule seen_cases [OF assms])

text \<open>
  C2. A selection answers an account exactly when one is eligible, whatever the strategy, the pins and the draws: the
  account is active, allowed, the one that is forced, not excluded, does not exclude the model, is not cooling down,
  has no terminal status and no lock for the model, passes the quota policy and has quota; and when the answer is
  something else, no account of the pool is eligible.
\<close>

theorem selects_exactly_eligible:
  assumes "\<not> pf_noAuth facts"
  shows "case fst (getProviderCredentials env sg facts opts provider allowed model dw now s) of
      Selected c \<Rightarrow> \<exists>r \<in> set (sl_rows s). c = decayBackoff now r \<and> inPool allowed (forcedFor env sg opts provider allowed model now s) r
        \<and> eligible env opts provider model now r
    | _ \<Rightarrow> \<forall>r \<in> set (sl_rows s). inPool allowed (forcedFor env sg opts provider allowed model now s) r
        \<longrightarrow> \<not> eligible env opts provider model now r"
  by (rule credentials_cases [OF assms])

section \<open>The turns of round robin\<close>

text \<open>Successive selections among the same accounts, none of which fails; each has its time.\<close>

fun roundRobinRun :: "rat \<Rightarrow> millis list \<Rightarrow> connection list \<Rightarrow> string list" where
  "roundRobinRun l [] cs = []"
| "roundRobinRun l (t # ts) cs =
     (let (c, n) = pickRoundRobin l False cs in cn_id c # roundRobinRun l ts (touchConnection (cn_id c) n t cs))"

text \<open>The same with a queue of ids, the one used last at its end, and the number of its uses.\<close>

fun turns :: "nat \<Rightarrow> nat \<Rightarrow> string list \<Rightarrow> nat \<Rightarrow> string list" where
  "turns l 0 q n = []"
| "turns l (Suc m) q n = (if n < l then last q # turns l m q (Suc n) else hd q # turns l m (rotate1 q) 1)"

definition usedAt :: "connection list \<Rightarrow> string \<Rightarrow> millis" where
  "usedAt cs x = the (cn_lastUsedAt (the (find (\<lambda>c. cn_id c = x) cs)))"

text \<open>All accounts have been used, at different times that the queue orders; the last of it has \<open>n\<close> uses.\<close>

definition warm :: "connection list \<Rightarrow> string list \<Rightarrow> nat \<Rightarrow> bool" where
  "warm cs q n \<longleftrightarrow> distinct (map cn_id cs) \<and> q \<noteq> [] \<and> distinct q \<and> set q = cn_id ` set cs
     \<and> (\<forall>c \<in> set cs. cn_lastUsedAt c \<noteq> None \<and> cn_backoffLevel c = 0)
     \<and> (\<forall>i j. i < j \<longrightarrow> j < length q \<longrightarrow> usedAt cs (q ! i) < usedAt cs (q ! j))
     \<and> (\<forall>c \<in> set cs. cn_id c = last q \<longrightarrow> cn_consecutiveUseCount c = int n)"

lemma usedAt_of: "distinct (map cn_id cs) \<Longrightarrow> c \<in> set cs \<Longrightarrow> usedAt cs (cn_id c) = the (cn_lastUsedAt c)"
proof -
  assume d: "distinct (map cn_id cs)" and c: "c \<in> set cs"
  then have "find (\<lambda>d. cn_id d = cn_id c) cs \<noteq> None" by (auto simp: find_None_iff)
  then obtain d where "find (\<lambda>d. cn_id d = cn_id c) cs = Some d" by auto
  moreover from this have "d \<in> set cs" "cn_id d = cn_id c" by (auto simp: find_Some_iff)
  then have "d = c" using d c by (simp add: distinct_map inj_on_def)
  ultimately show ?thesis by (simp add: usedAt_def)
qed

lemma hd_by_key:
  assumes "cs \<noteq> []" and "\<And>a b. a \<in> set cs \<Longrightarrow> b \<in> set cs \<Longrightarrow> cmp a b = of_int (f a - f b)"
    and "c \<in> set cs" and "\<And>d. d \<in> set cs \<Longrightarrow> d \<noteq> c \<Longrightarrow> f c < f d"
  shows "hd (sortBy cmp cs) = c"
proof (rule ccontr)
  assume ne: "hd (sortBy cmp cs) \<noteq> c"
  have h: "hd (sortBy cmp cs) \<in> set cs" by (rule hd_sortBy_in [OF assms(1)])
  have "orders cmp (set cs)"
    unfolding orders_def using assms(2) by (auto simp flip: of_int_le_0_iff) 
  then have "cmp (hd (sortBy cmp cs)) c \<le> 0" by (rule hd_sortBy_least [OF _ assms(3)])
  then have "f (hd (sortBy cmp cs)) - f c \<le> 0" using assms(2) [OF h assms(3)] by simp
  then show False using assms(4) [OF h ne] by simp
qed

lemma warm_ends:
  assumes w: "warm cs q n" and c: "c \<in> set cs"
  shows "cn_id c = hd q \<Longrightarrow> hd (sortBy compareOldest cs) = c"
    and "cn_id c = last q \<Longrightarrow> hd (sortBy compareRecency cs) = c"
proof -
  have d: "distinct (map cn_id cs)" and q: "q \<noteq> []" "set q = cn_id ` set cs"
    and used: "\<And>c. c \<in> set cs \<Longrightarrow> cn_lastUsedAt c \<noteq> None \<and> cn_backoffLevel c = 0"
    and ord: "\<And>i j. i < j \<Longrightarrow> j < length q \<Longrightarrow> usedAt cs (q ! i) < usedAt cs (q ! j)" using w by (auto simp: warm_def)
  have ne: "cs \<noteq> []" using c by auto
  have pos: "\<exists>i < length q. q ! i = cn_id e" if "e \<in> set cs" for e using that q(2) by (metis imageI in_set_conv_nth)
  show "hd (sortBy compareOldest cs) = c" if "cn_id c = hd q"
  proof (rule hd_by_key [OF ne _ c, where f = "\<lambda>c. the (cn_lastUsedAt c)"])
    fix e
    assume e: "e \<in> set cs" "e \<noteq> c"
    then obtain i where i: "i < length q" "q ! i = cn_id e" using pos by blast
    have "cn_id e \<noteq> cn_id c" using d c e by (auto simp: distinct_map inj_on_def)
    then have "0 < i" using i that q(1) by (cases i) (auto simp: hd_conv_nth)
    then have "usedAt cs (q ! 0) < usedAt cs (q ! i)" using i(1) by (rule ord)
    moreover have "q ! 0 = cn_id c" using that q(1) by (simp add: hd_conv_nth)
    ultimately show "the (cn_lastUsedAt c) < the (cn_lastUsedAt e)"
      using usedAt_of [OF d c] usedAt_of [OF d e(1)] i(2) by simp
  next
    fix a b
    assume "a \<in> set cs" "b \<in> set cs"
    then show "compareOldest a b = of_int (the (cn_lastUsedAt a) - the (cn_lastUsedAt b))"
      using used [of a] used [of b] by (auto simp: compareOldest_def compareLastUsed_def)
  qed
  show "hd (sortBy compareRecency cs) = c" if "cn_id c = last q"
  proof (rule hd_by_key [OF ne _ c, where f = "\<lambda>c. - the (cn_lastUsedAt c)"])
    fix e
    assume e: "e \<in> set cs" "e \<noteq> c"
    then obtain i where i: "i < length q" "q ! i = cn_id e" using pos by blast
    have "cn_id e \<noteq> cn_id c" using d c e by (auto simp: distinct_map inj_on_def)
    then have "i \<noteq> length q - 1" using i that q(1) by (auto simp: last_conv_nth)
    then have "i < length q - 1" "length q - 1 < length q" using i(1) q(1) by auto
    then have "usedAt cs (q ! i) < usedAt cs (q ! (length q - 1))" by (rule ord)
    moreover have "q ! (length q - 1) = cn_id c" using that q(1) by (simp add: last_conv_nth)
    ultimately show "- the (cn_lastUsedAt c) < - the (cn_lastUsedAt e)"
      using usedAt_of [OF d c] usedAt_of [OF d e(1)] i(2) by simp
  next
    fix a b
    assume "a \<in> set cs" "b \<in> set cs"
    then show "compareRecency a b = of_int (- the (cn_lastUsedAt a) - - the (cn_lastUsedAt b))"
      using used [of a] used [of b] by (auto simp: compareRecency_def)
  qed
qed

lemma touch_frame:
  "map cn_id (touchConnection x n t cs) = map cn_id cs"
  by (induction cs) (simp_all add: touchConnection_def)

lemma touch_usedAt:
  assumes "distinct (map cn_id cs)" and "y \<in> cn_id ` set cs"
  shows "usedAt (touchConnection x n t cs) y = (if y = x then t else usedAt cs y)"
proof -
  obtain c where c: "c \<in> set cs" "y = cn_id c" using assms(2) by auto
  define c' where "c' = (if cn_id c = x then c\<lparr>cn_lastUsedAt := Some t, cn_consecutiveUseCount := n\<rparr> else c)"
  have "c' \<in> set (touchConnection x n t cs)" using c(1) by (force simp: c'_def touchConnection_def)
  moreover have "distinct (map cn_id (touchConnection x n t cs))" using assms(1) by (simp add: touch_frame)
  ultimately have "usedAt (touchConnection x n t cs) (cn_id c') = the (cn_lastUsedAt c')" by (intro usedAt_of)
  then show ?thesis using c usedAt_of [OF assms(1) c(1)] by (auto simp: c'_def split: if_splits)
qed

text \<open>A use of the account at the end, or of the one at the front, which moves to the end.\<close>

lemma warm_touch:
  assumes w: "warm cs q n" and later: "\<forall>c \<in> set cs. the (cn_lastUsedAt c) < t"
    and q': "q' = q \<and> x = last q \<or> q' = rotate1 q \<and> x = hd q"
  shows "warm (touchConnection x (int m) t cs) q' m"
proof -
  have d: "distinct (map cn_id cs)" and q: "q \<noteq> []" "distinct q" "set q = cn_id ` set cs"
    and used: "\<And>c. c \<in> set cs \<Longrightarrow> cn_lastUsedAt c \<noteq> None \<and> cn_backoffLevel c = 0"
    and ord: "\<And>i j. i < j \<Longrightarrow> j < length q \<Longrightarrow> usedAt cs (q ! i) < usedAt cs (q ! j)" using w by (auto simp: warm_def)
  define cs' where "cs' = touchConnection x (int m) t cs"
  have ids: "map cn_id cs' = map cn_id cs" by (simp add: cs'_def touch_frame)
  have set': "set q' = set q" "distinct q'" "length q' = length q" using q q' by auto
  then have ne': "q' \<noteq> []" using q(1) by auto
  have last': "last q' = x"
  proof -
    obtain y ys where "q = y # ys" using q(1) by (cases q) auto
    then show ?thesis using q' by auto
  qed
  have at: "usedAt cs' y = (if y = x then t else usedAt cs y)" if "y \<in> set q" for y
    unfolding cs'_def by (rule touch_usedAt [OF d]) (use that q(3) in simp)
  have old: "usedAt cs y < t" if "y \<in> set q" for y using that q(3) later usedAt_of [OF d] by auto
  have "usedAt cs' (q' ! i) < usedAt cs' (q' ! j)" if ij: "i < j" "j < length q'" for i j
  proof -
    have inq: "q' ! i \<in> set q" "q' ! j \<in> set q" using ij set' by (metis nth_mem order.strict_trans)+
    have ix: "q' ! i \<noteq> x"
    proof -
      have "i < length q'" "length q' - 1 < length q'" "i \<noteq> length q' - 1" using ij ne' by auto
      then have "q' ! i \<noteq> q' ! (length q' - 1)" using nth_eq_iff_index_eq [OF set'(2)] by blast
      then show ?thesis using last' ne' by (simp add: last_conv_nth)
    qed
    show ?thesis
    proof (cases "q' ! j = x")
      case True
      then show ?thesis using at inq ix old by simp
    next
      case False
      have "j \<noteq> length q' - 1" using False last' ne' by (auto simp: last_conv_nth)
      then have "\<exists>i' j'. i' < j' \<and> j' < length q \<and> q ! i' = q' ! i \<and> q ! j' = q' ! j"
      proof (cases "q' = q")
        case True
        then show ?thesis using ij by auto
      next
        case False
        then have "q' = rotate1 q" using q' by auto
        then have "q' ! i = q ! Suc i" "q' ! j = q ! Suc j" "Suc j < length q"
          using ij \<open>j \<noteq> length q' - 1\<close> set'(3) by (simp_all add: nth_rotate1)
        then show ?thesis using ij(1) by (metis Suc_less_eq)
      qed
      then obtain i' j' where "i' < j'" "j' < length q" "q ! i' = q' ! i" "q ! j' = q' ! j" by blast
      then have "usedAt cs (q' ! i) < usedAt cs (q' ! j)" using ord [of i' j'] by simp
      then show ?thesis using at inq ix False by simp
    qed
  qed
  moreover have "\<forall>c \<in> set cs'. cn_lastUsedAt c \<noteq> None \<and> cn_backoffLevel c = 0"
    using used by (auto simp: cs'_def touchConnection_def)
  moreover have "\<forall>c \<in> set cs'. cn_id c = last q' \<longrightarrow> cn_consecutiveUseCount c = int m"
  proof (intro ballI impI)
    fix c
    assume c: "c \<in> set cs'" "cn_id c = last q'"
    then obtain e where "c = (if cn_id e = x then e\<lparr>cn_lastUsedAt := Some t, cn_consecutiveUseCount := int m\<rparr> else e)"
      unfolding cs'_def touchConnection_def set_map by blast
    then show "cn_consecutiveUseCount c = int m" using c(2) last' by (cases "cn_id e = x") simp_all
  qed
  moreover have "distinct (map cn_id cs')" using d by (simp only: ids)
  moreover have "set q' = cn_id ` set cs'" unfolding set'(1) q(3) list.set_map [symmetric] ids ..
  ultimately show ?thesis using set' ne' by (simp add: warm_def cs'_def)
qed

lemma warm_run:
  assumes "warm cs q n" and "sorted_wrt (<) ts" and "\<forall>c \<in> set cs. \<forall>t \<in> set ts. the (cn_lastUsedAt c) < t"
  shows "roundRobinRun (of_nat l) ts cs = turns l (length ts) q n"
  using assms
proof (induction ts arbitrary: cs q n)
  case Nil
  then show ?case by simp
next
  case (Cons t ts)
  have w: "warm cs q n" and q: "q \<noteq> []" "set q = cn_id ` set cs" using Cons.prems(1) by (auto simp: warm_def)
  then obtain a b where ab: "a \<in> set cs" "cn_id a = hd q" "b \<in> set cs" "cn_id b = last q"
    by (metis hd_in_set imageE last_in_set)
  have ends: "hd (sortBy compareOldest cs) = a" "hd (sortBy compareRecency cs) = b" using warm_ends [OF w] ab by auto
  have b: "cn_lastUsedAt b \<noteq> None" "cn_consecutiveUseCount b = int n" using w ab(3,4) by (auto simp: warm_def)
  have later: "\<forall>c \<in> set cs. the (cn_lastUsedAt c) < t" using Cons.prems(3) by simp
  have after: "\<forall>c \<in> set (touchConnection x m t cs). \<forall>u \<in> set ts. the (cn_lastUsedAt c) < u" for x m
    using Cons.prems(2,3) by (auto simp: touchConnection_def)
  show ?case
  proof (cases "n < l")
    case True
    then have p: "pickRoundRobin (of_nat l) False cs = (b, int (Suc n))" using b ends by (simp add: pickRoundRobin_def Let_def)
    have "warm (touchConnection (last q) (int (Suc n)) t cs) q (Suc n)" by (rule warm_touch [OF w later]) simp
    from Cons.IH [OF this _ after] show ?thesis using p True ab Cons.prems(2) by simp
  next
    case False
    then have p: "pickRoundRobin (of_nat l) False cs = (a, 1)" using b ends by (simp add: pickRoundRobin_def Let_def)
    have "warm (touchConnection (hd q) (int 1) t cs) (rotate1 q) 1" by (rule warm_touch [OF w later]) simp
    from Cons.IH [OF this _ after] show ?thesis using p False ab Cons.prems(2) by simp
  qed
qed

lemma turns_stay: "n + d = l \<Longrightarrow> turns l (d + m) q n = replicate d (last q) @ turns l m q l"
proof (induction d arbitrary: n)
  case (Suc d)
  then show ?case using Suc.IH [of "Suc n"] by simp
qed simp

lemma last_rotate1: "q \<noteq> [] \<Longrightarrow> last (rotate1 q) = hd q"
  by (cases q) auto

lemma turns_turn:
  assumes "0 < l" and "q \<noteq> []"
  shows "turns l (l + m) q l = replicate l (hd q) @ turns l m (rotate1 q) l"
proof -
  obtain k where k: "l = Suc k" using assms(1) by (cases l) auto
  have "turns l (l + m) q l = hd q # turns l (k + m) (rotate1 q) 1" by (simp add: k)
  also have "turns l (k + m) (rotate1 q) 1 = replicate k (hd q) @ turns l m (rotate1 q) l"
    using turns_stay [of 1 k l m "rotate1 q"] last_rotate1 [OF assms(2)] by (simp add: k)
  finally show ?thesis by (simp add: k)
qed

lemma turns_round:
  assumes "0 < l" and "q \<noteq> []"
  shows "j \<le> length q \<Longrightarrow> turns l (j * l + m) q l = concat (map (replicate l) (take j q)) @ turns l m (rotate j q) l"
proof (induction j arbitrary: m)
  case (Suc j)
  have "hd (rotate j q) = q ! j" using Suc.prems by (simp add: hd_rotate_conv_nth assms(2))
  moreover have "turns l (Suc j * l + m) q l = turns l (j * l + (l + m)) q l" by (simp add: ac_simps)
  ultimately show ?case
    using Suc.IH [of "l + m"] Suc.prems turns_turn [OF assms(1), of "rotate j q" m] assms(2)
    by (simp add: take_Suc_conv_app_nth)
qed simp

lemma turns_rounds:
  assumes "0 < l" and "q \<noteq> []"
  shows "turns l (k * (length q * l)) q l = concat (replicate k (concat (map (replicate l) q)))"
proof (induction k)
  case (Suc k)
  have "turns l (Suc k * (length q * l)) q l = turns l (length q * l + k * (length q * l)) q l" by simp
  then show ?case using turns_round [OF assms, of "length q" "k * (length q * l)"] Suc by simp
qed simp

text \<open>
  C24. Round robin gives every account its turns. When all accounts have been used, at different times, and the turn of
  the last one is over, then the selections that follow give each account \<open>l\<close> uses in a row, in the order in which
  they were used last, and start again from the first: in \<open>k\<close> rounds each of them serves \<open>k * l\<close> requests.
\<close>

theorem round_robin_fair:
  assumes "warm cs q l" and "0 < l" and "sorted_wrt (<) ts" and "\<forall>c \<in> set cs. \<forall>t \<in> set ts. the (cn_lastUsedAt c) < t"
    and "length ts = k * (length q * l)"
  shows "roundRobinRun (of_nat l) ts cs = concat (replicate k (concat (map (replicate l) q)))"
proof -
  have "q \<noteq> []" using assms(1) by (simp add: warm_def)
  then show ?thesis using warm_run [OF assms(1,3,4)] turns_rounds [OF assms(2)] assms(5) by simp
qed

section \<open>A pin that costs the request\<close>

lemma forcedFor_no_session:
  "forcedFor env sg (opts\<lparr>so_sessionKey := None\<rparr>) provider allowed model now s = trimmedForced opts"
  by (simp add: forcedFor_def forcedFrom_def applySessionAffinityPin_def trimmedForced_def noText_def)

lemma eligible_no_session [simp]:
  "eligible env (opts\<lparr>so_sessionKey := None\<rparr>) provider model now c = eligible env opts provider model now c"
  by (simp add: eligible_def)

lemma none_selected:
  assumes "\<not> pf_noAuth facts"
    and "\<forall>r \<in> set (sl_rows s). inPool allowed (forcedFor env sg opts provider allowed model now s) r \<longrightarrow> \<not> eligible env opts provider model now r"
  shows "fst (getProviderCredentials env sg facts opts provider allowed model dw now s) \<noteq> Selected c"
  using credentials_cases [OF assms(1), where env = env and sg = sg and opts = opts and provider = provider and allowed = allowed
      and model = model and dw = dw and now = now and s = s] assms(2) by (auto split: selection.splits)

lemma some_selected:
  assumes "\<not> pf_noAuth facts" and "r \<in> set (sl_rows s)"
    and "inPool allowed (forcedFor env sg opts provider allowed model now s) r" and "eligible env opts provider model now r"
  shows "\<exists>c. fst (getProviderCredentials env sg facts opts provider allowed model dw now s) = Selected c"
  using credentials_cases [OF assms(1), where env = env and sg = sg and opts = opts and provider = provider and allowed = allowed
      and model = model and dw = dw and now = now and s = s] assms(2-)
  by (auto split: selection.splits)

text \<open>
  C33. A pin can cost a request its answer. A caller forces an account, and the session is pinned to another one. Where the
  pinned account passes every condition of the selection but that it has quota for the model, while it has quota left for
  other models, the pin overrides the forced account and no account is selected; the forced one is eligible and is selected for
  the same request outside the session.
\<close>

theorem pin_costs_request:
  assumes "\<not> pf_noAuth facts" and forced: "trimmedForced opts = Some f"
    and session: "so_sessionKey opts = Some key" "key \<noteq> []" "0 < sg_affinityTtl sg"
    and pin: "fst (getSessionAccountAffinity (sv_digest env) key provider (sg_affinityTtl sg) now (sl_pins s)) = Some p" "af_connection p \<noteq> f"
    and pinned: "find (\<lambda>c. cn_id c = af_connection p) (filter cn_isActive (filter (\<lambda>c. cn_id c \<noteq> [] \<and> allowedBy allowed c) (sl_rows s))) = Some c"
    and passes: "connectionFilterStatus env opts provider model now c = Available"
      "so_bypassQuota opts \<or> \<not> pe_blocked (evaluateQuotaLimitPolicy (sv_cmp env) provider c model now (sv_quota env))"
    and quota: "\<not> isAccountQuotaExhausted (cn_id c) now (sv_quota env)"
      "isQuotaExhaustedForRequest (sv_cmp env) (cn_id c) provider model now (sv_quota env)"
    and r: "r \<in> set (sl_rows s)" "inPool allowed (Some f) r" "eligible env opts provider model now r"
  shows "forcedFor env sg opts provider allowed model now s = Some (cn_id c)
    \<and> (\<forall>q. fst (getProviderCredentials env sg facts opts provider allowed model dw now s) \<noteq> Selected q)
    \<and> (\<exists>q. fst (getProviderCredentials env sg facts (opts\<lparr>so_sessionKey := None\<rparr>) provider allowed model dw now s) = Selected q)"
proof -
  have id: "cn_id c = af_connection p" using pinned by (auto simp: find_Some_iff)
  have "isConnectionEligibleForAffinityPin env (opts\<lparr>so_forced := Some f\<rparr>) provider model now c"
    using passes quota(1) unfolding available_iff isConnectionEligibleForAffinityPin_def by simp
  moreover have "f \<noteq> []" using forced by (auto simp: trimmedForced_def split: option.splits if_splits)
  ultimately have over: "forcedFor env sg opts provider allowed model now s = Some (cn_id c)"
    using session pin pinned id
    by (simp add: forcedFor_def forcedFrom_def applySessionAffinityPin_def forced noText_def case_prod_unfold Let_def)
  moreover have "fst (getProviderCredentials env sg facts opts provider allowed model dw now s) \<noteq> Selected q" for q
    by (rule none_selected [OF assms(1)]) (use over quota(2) in \<open>auto simp: inPool_def forcedTo_def eligible_def\<close>)
  moreover have "\<exists>q. fst (getProviderCredentials env sg facts (opts\<lparr>so_sessionKey := None\<rparr>) provider allowed model dw now s) = Selected q"
    by (rule some_selected [OF assms(1) r(1)]) (simp_all add: forcedFor_no_session forced r)
  ultimately show ?thesis by blast
qed

section \<open>Examples\<close>

definition plainProviderData :: provider_data where
  "plainProviderData = \<lparr>psd_limitPolicy = JUndefined, psd_codexLimitPolicy = JUndefined, psd_codexScopeUntil = [], psd_excludedModels = JUndefined,
     psd_excluded_models = JUndefined, psd_disableCooling = False, psd_passthroughModels = None, psd_local = False,
     psd_quotaPreflightEnabled = None\<rparr>"

definition account :: "string \<Rightarrow> millis option \<Rightarrow> int \<Rightarrow> connection" where
  "account x used n = \<lparr>cn_id = x, cn_isActive = True, cn_rateLimitedUntil = None, cn_testStatus = None, cn_lastUsedAt = used,
     cn_consecutiveUseCount = n, cn_priority = 1, cn_lastError = None, cn_lastErrorType = None, cn_lastErrorSource = None,
     cn_lastErrorAt = None, cn_errorCode = None, cn_backoffLevel = 0, cn_windowThresholds = [], cn_data = plainProviderData\<rparr>"

definition plainOptions :: selection_options where
  "plainOptions = \<lparr>so_allowSuppressed = False, so_allowRateLimited = False, so_bypassQuota = False, so_forced = None,
     so_excluded = [], so_sessionKey = None\<rparr>"

definition plainSettings :: strategy_settings where
  "plainSettings = \<lparr>sg_overrideStrategy = None, sg_overrideSticky = JUndefined, sg_strategy = Some ''round-robin'',
     sg_sticky = JNum 3, sg_affinityTtl = 1000\<rparr>"

definition plainFacts :: provider_facts where
  "plainFacts = \<lparr>pf_noAuth = False, pf_blocked = False, pf_syntheticFallback = False\<rparr>"

definition plainEnv :: "quota_cache \<Rightarrow> selection_env" where
  "plainEnv q = \<lparr>sv_registry = \<lparr>sections = [], passthrough = [], oauthProviders = []\<rparr>, sv_locks = noLockouts, sv_quota = q, sv_cmp = (\<lambda>a b. 0), sv_digest = (\<lambda>s. s)\<rparr>"

text \<open>Two accounts, a session that is pinned to the second, and the quota of that account for two families of models.\<close>

definition twoAccounts :: "connection list" where
  "twoAccounts = [account ''a'' (Some 1) 0, account ''b'' (Some 2) 2]"

definition pinnedState :: selection_state where
  "pinnedState = \<lparr>sl_rows = twoAccounts,
     sl_pins = [(''antigravity:antigravity:s'', Some \<lparr>af_connection = ''b'', af_createdAt = 0, af_lastUsedAt = 0, af_expiresAt = 1000\<rparr>)],
     sl_decks = []\<rparr>"

definition halfFamilies :: quota_cache where
  "halfFamilies = setQuotaCache ''b'' ''antigravity''
     (map (\<lambda>(k, n). (k, \<lparr>rq_remainingPercentage = Some n, rq_total = None, rq_used = None, rq_resetAt = None, rq_scope = None, rq_model = None\<rparr>))
       [(''gemini-3-pro'', 0), (''claude-sonnet'', 50)]) 0 emptyQuotaCache"

definition plainDraws :: draws where
  "plainDraws = \<lparr>dw_first = 0, dw_second = 0, dw_shuffle = (\<lambda>i. TestFloat 0)\<rparr>"

definition pinnedRequest :: "string option \<Rightarrow> selection" where
  "pinnedRequest session = fst (getProviderCredentials (plainEnv halfFamilies) plainSettings plainFacts
     (plainOptions\<lparr>so_forced := Some ''a'', so_sessionKey := session\<rparr>) ''antigravity'' None (Some ''gemini-3-pro'') plainDraws 100 pinnedState)"

lemma selects_exactly_eligible_witness:
  "\<exists>r \<in> set twoAccounts. cn_id r = ''a'' \<and> eligible (plainEnv halfFamilies) (plainOptions\<lparr>so_forced := Some ''a'', so_sessionKey := None\<rparr>)
     ''antigravity'' (Some ''gemini-3-pro'') 100 r"
proof -
  have sel: "case pinnedRequest None of Selected c \<Rightarrow> cn_id c = ''a'' | _ \<Rightarrow> False" by code_simp
  have rows: "sl_rows pinnedState = twoAccounts" by (simp add: pinnedState_def)
  have "\<not> pf_noAuth plainFacts" by (simp add: plainFacts_def)
  from selects_exactly_eligible [OF this, where env = "plainEnv halfFamilies" and sg = plainSettings
      and opts = "plainOptions\<lparr>so_forced := Some ''a'', so_sessionKey := None\<rparr>" and provider = "''antigravity''" and allowed = None
      and model = "Some ''gemini-3-pro''" and dw = plainDraws and now = 100 and s = pinnedState]
  show ?thesis using sel unfolding pinnedRequest_def [symmetric] rows
    by (auto split: selection.splits)
qed

lemma round_robin_fair_witness:
  "roundRobinRun 2 [10, 20, 30, 40] twoAccounts = [''a'', ''a'', ''b'', ''b'']"
proof -
  have "warm twoAccounts [''a'', ''b''] 2"
    by (auto simp: warm_def twoAccounts_def account_def usedAt_def less_Suc_eq)
  then have "roundRobinRun (of_nat 2) [10, 20, 30, 40] twoAccounts = concat (replicate 1 (concat (map (replicate 2) [''a'', ''b''])))"
    by (rule round_robin_fair) (auto simp: twoAccounts_def account_def)
  then show ?thesis by (simp add: numeral_2_eq_2)
qed

lemma pin_costs_request_witness:
  "(\<forall>c. pinnedRequest (Some ''s'') \<noteq> Selected c) \<and> (\<exists>c. pinnedRequest None = Selected c)"
proof -
  let ?env = "plainEnv halfFamilies" and ?opts = "plainOptions\<lparr>so_forced := Some ''a'', so_sessionKey := Some ''s''\<rparr>"
  let ?b = "account ''b'' (Some 2) 2" and ?pin = "\<lparr>af_connection = ''b'', af_createdAt = 0, af_lastUsedAt = 0, af_expiresAt = 1000\<rparr>"
  have forced: "\<not> pf_noAuth plainFacts" "trimmedForced ?opts = Some ''a''" by code_simp+
  have session: "so_sessionKey ?opts = Some ''s''" "''s'' \<noteq> []" "0 < sg_affinityTtl plainSettings" "af_connection ?pin \<noteq> ''a''"
    by (simp_all add: plainSettings_def)
  have pin: "fst (getSessionAccountAffinity (sv_digest ?env) ''s'' ''antigravity'' (sg_affinityTtl plainSettings) 100 (sl_pins pinnedState)) = Some ?pin"
    by code_simp
  have pinned: "find (\<lambda>c. cn_id c = af_connection ?pin)
      (filter cn_isActive (filter (\<lambda>c. cn_id c \<noteq> [] \<and> allowedBy None c) (sl_rows pinnedState))) = Some ?b"
    by (simp add: pinnedState_def twoAccounts_def account_def allowedBy_def)
  have passes: "connectionFilterStatus ?env ?opts ''antigravity'' (Some ''gemini-3-pro'') 100 ?b = Available"
    "so_bypassQuota ?opts \<or> \<not> pe_blocked (evaluateQuotaLimitPolicy (sv_cmp ?env) ''antigravity'' ?b (Some ''gemini-3-pro'') 100 (sv_quota ?env))"
    by code_simp+
  have quota: "\<not> isAccountQuotaExhausted (cn_id ?b) 100 (sv_quota ?env)"
    "isQuotaExhaustedForRequest (sv_cmp ?env) (cn_id ?b) ''antigravity'' (Some ''gemini-3-pro'') 100 (sv_quota ?env)" by code_simp+
  have r: "account ''a'' (Some 1) 0 \<in> set (sl_rows pinnedState)" "inPool None (Some ''a'') (account ''a'' (Some 1) 0)"
    "eligible ?env ?opts ''antigravity'' (Some ''gemini-3-pro'') 100 (account ''a'' (Some 1) 0)"
    by (simp add: pinnedState_def twoAccounts_def, code_simp, code_simp)
  show ?thesis unfolding pinnedRequest_def
    using pin_costs_request [OF forced session(1-3) pin session(4) pinned passes quota r, of plainDraws] by simp
qed

end
