(* ===== verification/AccountPreflight.thy ===== *)
theory AccountPreflight
  imports SelectionLaws
begin

text \<open>
  The selection with the live check of the quota: \<open>getProviderCredentialsWithQuotaPreflight\<close> of
  \<open>src/sse/services/auth.ts\<close>. The loop selects an account, fetches its quota when something is to be enforced, marks and
  excludes the account when it is below its cutoff, and selects again. What happens outside the loop is a world that
  gives, round by round, the tables of the selection, its time and draws, what other requests do to the accounts before
  the selection and during the fetch, and what the fetcher answers. Messages are shortened.
\<close>

section \<open>Cutoffs\<close>

text \<open>The settings of the preflight for the provider; \<open>pq_noAuth\<close> is the flag in the data of a no-auth provider.\<close>

record preflight_settings =
  pq_default :: rat
  pq_windows :: "(string, rat) jmap"
  pq_modelScoped :: bool
  pq_creditsAlways :: bool
  pq_noAuth :: "bool option"

fun firstCutoff :: "(string, rat) jmap \<Rightarrow> (string, rat) jmap \<Rightarrow> string list \<Rightarrow> rat \<Rightarrow> rat" where
  "firstCutoff overrides defaults [] fallback = fallback"
| "firstCutoff overrides defaults (n # ns) fallback =
     (case jget n overrides of
        Some r \<Rightarrow> r
      | None \<Rightarrow> (case jget n defaults of Some r \<Rightarrow> r | None \<Rightarrow> firstCutoff overrides defaults ns fallback))"

definition resolveMinRemainingPercent :: "preflight_settings \<Rightarrow> string \<Rightarrow> (string, rat) jmap \<Rightarrow> string option \<Rightarrow> rat" where
  "resolveMinRemainingPercent pq provider overrides window =
     (case window of
        None \<Rightarrow> pq_default pq
      | Some w \<Rightarrow>
          (let codexAlias = (if provider = ''codex'' then toCodexBaseQuotaWindowName w else []);
               names = unique (windowThresholdAliases w @ (if codexAlias = [] then [] else [codexAlias]))
           in firstCutoff overrides (pq_windows pq) names (pq_default pq)))"

definition FACTORY_NO_OP_REMAINING_PERCENT :: rat where "FACTORY_NO_OP_REMAINING_PERCENT = 2"

text \<open>Whether the quota is fetched, by the overrides of the account and the flag in its data.\<close>

definition needsPreflight :: "preflight_settings \<Rightarrow> (string, rat) jmap \<Rightarrow> bool option \<Rightarrow> bool" where
  "needsPreflight pq overrides enabled \<longleftrightarrow>
     enabled \<noteq> Some False
     \<and> (overrides \<noteq> [] \<or> pq_windows pq \<noteq> [] \<or> enabled = Some True \<or> FACTORY_NO_OP_REMAINING_PERCENT < pq_default pq)"

definition modelAwarePreflight :: "preflight_settings \<Rightarrow> string \<Rightarrow> bool" where
  "modelAwarePreflight pq provider \<longleftrightarrow> provider = ''codex'' \<or> provider = ''openrouter'' \<or> pq_modelScoped pq"

section \<open>Blocked accounts\<close>

definition quotaPreflightUnavailableUntil :: "date_text option \<Rightarrow> millis \<Rightarrow> date_text" where
  "quotaPreflightUnavailableUntil resetAt now = isoText (nullish (parseFutureDateMs resetAt now) (now + 5 * 60 * 1000))"

definition markQuotaPreflightAccountUnavailable ::
  "string \<Rightarrow> date_text option \<Rightarrow> millis \<Rightarrow> selection_state \<Rightarrow> date_text \<times> selection_state" where
  "markQuotaPreflightAccountUnavailable c resetAt now s =
     (let until = quotaPreflightUnavailableUntil resetAt now
      in (until, s\<lparr>sl_rows := map (\<lambda>r. if cn_id r = c then
            r\<lparr>cn_rateLimitedUntil := Some until, cn_testStatus := Some ''unavailable'', cn_lastError := Some ''Quota preflight blocked'',
              cn_lastErrorType := Some ''quota_exhausted'', cn_lastErrorSource := Some ''quota_preflight'', cn_errorCode := Some 429,
              cn_lastErrorAt := Some now\<rparr> else r) (sl_rows s)\<rparr>))"

definition buildQuotaPreflightRateLimitedResult :: "(string \<times> date_text) list \<Rightarrow> millis \<Rightarrow> selection" where
  "buildQuotaPreflightRateLimitedResult blocked now =
     AllRateLimited
       \<lparr>la_retryAfter = (case getEarliestFutureDate (map (\<lambda>b. Some (snd b)) blocked) now of
            Some d \<Rightarrow> d
          | None \<Rightarrow> isoText (now + 5 * 60 * 1000)),
        la_errorCode = Some 429, la_modelScope = None, la_count = None\<rparr>"

section \<open>The loop\<close>

record preflight_round =
  pr_env :: selection_env
  pr_now :: millis
  pr_draws :: draws
  pr_others :: "selection_state \<Rightarrow> selection_state"
  pr_fetch :: "string \<Rightarrow> upstream_quota option"
  pr_meanwhile :: "selection_state \<Rightarrow> selection_state"
  pr_after :: millis

text \<open>The id, the overrides and the flag of the credentials in an answer.\<close>

definition subjectOf :: "preflight_settings \<Rightarrow> selection \<Rightarrow> (string \<times> (string, rat) jmap \<times> bool option) option" where
  "subjectOf pq answer =
     (case answer of
        Selected c \<Rightarrow> Some (cn_id c, cn_windowThresholds c, psd_quotaPreflightEnabled (cn_data c))
      | Synthetic \<Rightarrow> Some (SYNTHETIC_NOAUTH_CONNECTION_ID, [], pq_noAuth pq)
      | _ \<Rightarrow> None)"

definition answerWithoutAccount :: "selection \<Rightarrow> (string \<times> date_text) list \<Rightarrow> millis \<Rightarrow> selection" where
  "answerWithoutAccount answer blocked now =
     (case answer of
        AllExpired n status \<Rightarrow> answer
      | _ \<Rightarrow> if blocked = [] then answer else buildQuotaPreflightRateLimitedResult blocked now)"

definition verdictOn ::
  "preflight_settings \<Rightarrow> string \<Rightarrow> string option \<Rightarrow> preflight_round \<Rightarrow> string \<times> (string, rat) jmap \<times> bool option \<Rightarrow> cutoff_result" where
  "verdictOn pq provider model w subject =
     (let (c, overrides, enabled) = subject
      in if \<not> needsPreflight pq overrides enabled then proceedWith None
         else preflightQuota (pr_fetch w c) (Some (\<lambda>window. Some (resolveMinRemainingPercent pq provider overrides window)))
                (if \<not> noText model \<and> modelAwarePreflight pq provider then model else None))"

text \<open>An account that is blocked: until when, and the state with its row marked unless the block is for the model only.\<close>

definition blockAccount :: "preflight_round \<Rightarrow> string \<Rightarrow> cutoff_result \<Rightarrow> selection_state \<Rightarrow> date_text \<times> selection_state" where
  "blockAccount w c verdict s =
     (if cr_scope verdict = Some ModelScope
      then (nullish (cr_resetAt verdict) (isoText (pr_after w + 5 * 60 * 1000)), s)
      else markQuotaPreflightAccountUnavailable c (cr_resetAt verdict) (pr_after w) s)"

partial_function (option) preflightLoop ::
  "preflight_settings \<Rightarrow> strategy_settings \<Rightarrow> provider_facts \<Rightarrow> selection_options \<Rightarrow> string \<Rightarrow> string list option \<Rightarrow> string option
   \<Rightarrow> (nat \<Rightarrow> preflight_round) \<Rightarrow> nat \<Rightarrow> string list \<Rightarrow> (string \<times> date_text) list \<Rightarrow> selection_state
   \<Rightarrow> (selection \<times> (string \<times> date_text) list \<times> selection_state) option" where
  "preflightLoop pq sg facts opts provider allowed model world n excluded blocked s =
     (let w = world n;
          r = getProviderCredentials (pr_env w) sg facts (opts\<lparr>so_excluded := normalizeExcludedConnectionIds None excluded\<rparr>) provider allowed
                model (pr_draws w) (pr_now w) (pr_others w s);
          answer = fst r; s1 = snd r
      in case subjectOf pq answer of
           None \<Rightarrow> Some (answerWithoutAccount answer blocked (pr_now w), blocked, s1)
         | Some subject \<Rightarrow>
             (let verdict = verdictOn pq provider model w subject; c = fst subject
              in if cr_proceed verdict then Some (answer, blocked, s1)
                 else (let b = blockAccount w c verdict (pr_meanwhile w s1)
                       in preflightLoop pq sg facts opts provider allowed model world (Suc n) (excluded @ [c]) (blocked @ [(c, fst b)]) (snd b))))"

definition getProviderCredentialsWithQuotaPreflight ::
  "preflight_settings \<Rightarrow> strategy_settings \<Rightarrow> provider_facts \<Rightarrow> selection_options \<Rightarrow> string \<Rightarrow> string list option \<Rightarrow> string option
   \<Rightarrow> (nat \<Rightarrow> preflight_round) \<Rightarrow> selection_state \<Rightarrow> (selection \<times> (string \<times> date_text) list \<times> selection_state) option" where
  "getProviderCredentialsWithQuotaPreflight pq sg facts opts provider allowed model world s =
     (if so_bypassQuota opts \<or> provider = ''antigravity'' \<and> pq_creditsAlways pq then
        (let w = world 0;
             r = getProviderCredentials (pr_env w) sg facts (opts\<lparr>so_bypassQuota := True\<rparr>) provider allowed model (pr_draws w) (pr_now w) (pr_others w s)
         in Some (fst r, [], snd r))
      else preflightLoop pq sg facts opts provider allowed model world 0 (so_excluded opts) [] s)"

section \<open>Every run of the loop ends\<close>

lemma set_unique [simp]: "set (unique xs) = set xs"
  by (simp add: unique_def)

lemma normalized_excluded: "set (normalizeExcludedConnectionIds None xs) = trim ` set xs - {[]}"
  by (auto simp: normalizeExcludedConnectionIds_def)

lemma selected_source:
  assumes "fst (getProviderCredentials env sg facts opts provider allowed model dw now s) = Selected c"
  shows "cn_id c \<in> cn_id ` set (sl_rows s)" and "cn_id c \<notin> set (so_excluded opts)" and "eligible env opts provider model now c"
proof -
  have "\<not> pf_noAuth facts" using assms by (auto simp: getProviderCredentials_def selectSeen_def split: if_splits)
  from credentials_cases [OF this, where env = env and sg = sg and opts = opts and provider = provider and allowed = allowed
      and model = model and dw = dw and now = now and s = s]
  obtain r where r: "r \<in> set (sl_rows s)" "c = decayBackoff now r" "eligible env opts provider model now r" using assms by auto
  then show "cn_id c \<in> cn_id ` set (sl_rows s)" "eligible env opts provider model now c" by auto
  then show "cn_id c \<notin> set (so_excluded opts)" by (simp add: eligible_def)
qed

lemma synthetic_source:
  assumes "fst (getProviderCredentials env sg facts opts provider allowed model dw now s) = Synthetic"
  shows "SYNTHETIC_NOAUTH_CONNECTION_ID \<notin> set (so_excluded opts)"
proof (cases "pf_noAuth facts")
  case True
  then show ?thesis using assms by (auto simp: getProviderCredentials_def selectSeen_def maybeSyntheticNoAuthFallback_def split: if_splits)
next
  case False
  have "fst (selectFrom env sg opts provider model dw now available s') \<noteq> Synthetic" for available s'
    unfolding selectFrom_def by (simp add: Let_def policyAnswer_def case_prod_unfold split: option.split)
  then show ?thesis using assms False
    by (auto simp: getProviderCredentials_def selectSeen_def Let_def emptyPoolAnswer_def unavailableAnswer_def maybeSyntheticNoAuthFallback_def
        split: if_splits option.splits list.splits prod.splits)
qed

text \<open>The ids of the accounts are among \<open>ids\<close>, whatever other requests do.\<close>

definition staysWithin :: "string set \<Rightarrow> (nat \<Rightarrow> preflight_round) \<Rightarrow> bool" where
  "staysWithin ids world \<longleftrightarrow> (\<forall>n s. cn_id ` set (sl_rows s) \<subseteq> ids \<longrightarrow>
     cn_id ` set (sl_rows (pr_others (world n) s)) \<subseteq> ids \<and> cn_id ` set (sl_rows (pr_meanwhile (world n) s)) \<subseteq> ids)"

lemma touch_ids [simp]: "cn_id ` set (touchConnection x n t cs) = cn_id ` set cs"
  using touch_frame [of x n t cs] by (metis list.set_map)

lemma selectFrom_rows: "cn_id ` set (sl_rows (snd (selectFrom env sg opts provider model dw now available s))) = cn_id ` set (sl_rows s)"
  unfolding selectFrom_def pickByStrategy_def by (simp add: Let_def case_prod_unfold split: option.split)

lemma same_ids: "(\<And>r. cn_id (f r) = cn_id r) \<Longrightarrow> cn_id ` set (map f cs) = cn_id ` set cs"
  by (simp add: image_image)

lemma credentials_rows:
  "cn_id ` set (sl_rows (snd (getProviderCredentials env sg facts opts provider allowed model dw now s))) = cn_id ` set (sl_rows s)"
proof -
  have "cn_id ` set (map (\<lambda>c. if P c then resetConnectionBackoff c else c) cs) = cn_id ` set cs" for P cs
    by (rule same_ids) (simp add: resetConnectionBackoff_def)
  then show ?thesis unfolding getProviderCredentials_def selectSeen_def
    by (simp add: Let_def case_prod_unfold selectFrom_rows del: set_map)
qed

lemma block_rows: "cn_id ` set (sl_rows (snd (blockAccount w c verdict s))) = cn_id ` set (sl_rows s)"
proof -
  have "cn_id ` set (sl_rows (snd (markQuotaPreflightAccountUnavailable x resetAt now s))) = cn_id ` set (sl_rows s)" for x resetAt now
    by (simp add: markQuotaPreflightAccountUnavailable_def Let_def same_ids del: set_map)
  then show ?thesis by (simp add: blockAccount_def)
qed

lemma subject_fresh:
  assumes r: "r = getProviderCredentials env sg facts (opts\<lparr>so_excluded := normalizeExcludedConnectionIds None excluded\<rparr>) provider allowed model dw now s"
    and sub: "subjectOf pq (fst r) = Some subject" and ids: "cn_id ` set (sl_rows s) \<subseteq> ids"
    and plain: "\<forall>x \<in> ids. trim x = x \<and> x \<noteq> []"
  shows "fst subject \<in> insert SYNTHETIC_NOAUTH_CONNECTION_ID ids - set excluded"
proof -
  have noauth: "trim SYNTHETIC_NOAUTH_CONNECTION_ID = SYNTHETIC_NOAUTH_CONNECTION_ID" "SYNTHETIC_NOAUTH_CONNECTION_ID \<noteq> []" by code_simp+
  have fresh: "x \<notin> set excluded" if "x \<notin> set (normalizeExcludedConnectionIds None excluded)" "trim x = x" "x \<noteq> []" for x
    using that unfolding normalized_excluded by (metis Diff_iff empty_iff image_eqI insert_iff)
  show ?thesis
  proof (cases "fst r")
    case (Selected c)
    then have sel: "fst (getProviderCredentials env sg facts (opts\<lparr>so_excluded := normalizeExcludedConnectionIds None excluded\<rparr>)
        provider allowed model dw now s) = Selected c" by (simp add: r)
    have c: "cn_id c \<in> ids" using selected_source(1) [OF sel] ids by blast
    have "cn_id c \<notin> set (normalizeExcludedConnectionIds None excluded)" using selected_source(2) [OF sel] by simp
    note c = c this
    then show ?thesis using sub Selected fresh [OF c(2)] plain by (auto simp: subjectOf_def)
  next
    case Synthetic
    then have "SYNTHETIC_NOAUTH_CONNECTION_ID \<notin> set (normalizeExcludedConnectionIds None excluded)"
      using synthetic_source [of env sg facts "opts\<lparr>so_excluded := normalizeExcludedConnectionIds None excluded\<rparr>" provider allowed model dw now s]
      by (simp add: r)
    then show ?thesis using sub Synthetic fresh [OF _ noauth] by (auto simp: subjectOf_def)
  qed (use sub in \<open>simp_all add: subjectOf_def\<close>)
qed

text \<open>An account is admitted in a round: it is eligible there, and its quota need not be fetched or is above its cutoffs.\<close>

definition admittedIn ::
  "preflight_settings \<Rightarrow> selection_options \<Rightarrow> string \<Rightarrow> string option \<Rightarrow> preflight_round \<Rightarrow> string list \<Rightarrow> connection \<Rightarrow> bool" where
  "admittedIn pq opts provider model w excluded c \<longleftrightarrow>
     eligible (pr_env w) (opts\<lparr>so_excluded := normalizeExcludedConnectionIds None excluded\<rparr>) provider model (pr_now w) c
     \<and> cr_proceed (verdictOn pq provider model w (cn_id c, cn_windowThresholds c, psd_quotaPreflightEnabled (cn_data c)))"

lemma loop_ends:
  assumes world: "staysWithin ids world" and plain: "\<forall>x \<in> ids. trim x = x \<and> x \<noteq> []" and fin: "finite ids"
  shows "cn_id ` set (sl_rows s) \<subseteq> ids \<Longrightarrow>
    \<exists>answer bs s'. preflightLoop pq sg facts opts provider allowed model world n excluded blocked s = Some (answer, blocked @ bs, s')
      \<and> distinct (map fst bs) \<and> set (map fst bs) \<subseteq> insert SYNTHETIC_NOAUTH_CONNECTION_ID ids - set excluded
      \<and> (\<forall>c. answer = Selected c \<longrightarrow> admittedIn pq opts provider model (world (n + length bs)) (excluded @ map fst bs) c)"
proof (induction "card (insert SYNTHETIC_NOAUTH_CONNECTION_ID ids - set excluded)" arbitrary: n excluded blocked s rule: less_induct)
  case less
  define w where "w = world n"
  define opts' where "opts' = opts\<lparr>so_excluded := normalizeExcludedConnectionIds None excluded\<rparr>"
  define r where "r = getProviderCredentials (pr_env w) sg facts opts' provider allowed model (pr_draws w) (pr_now w) (pr_others w s)"
  have here: "cn_id ` set (sl_rows (pr_others w s)) \<subseteq> ids" using world less.prems by (simp add: staysWithin_def w_def)
  have unfold: "preflightLoop pq sg facts opts provider allowed model world n excluded blocked s
      = (case subjectOf pq (fst r) of
           None \<Rightarrow> Some (answerWithoutAccount (fst r) blocked (pr_now w), blocked, snd r)
         | Some subject \<Rightarrow>
             if cr_proceed (verdictOn pq provider model w subject) then Some (fst r, blocked, snd r)
             else (let b = blockAccount w (fst subject) (verdictOn pq provider model w subject) (pr_meanwhile w (snd r))
                   in preflightLoop pq sg facts opts provider allowed model world (Suc n) (excluded @ [fst subject])
                        (blocked @ [(fst subject, fst b)]) (snd b)))"
    by (subst preflightLoop.simps) (simp only: Let_def w_def r_def opts'_def)
  show ?case
  proof (cases "subjectOf pq (fst r)")
    case None
    then have "answerWithoutAccount (fst r) blocked (pr_now w) \<noteq> Selected c" for c
      by (auto simp: subjectOf_def answerWithoutAccount_def buildQuotaPreflightRateLimitedResult_def split: selection.splits)
    then show ?thesis using None unfolding unfold by auto
  next
    case (Some subject)
    define x where "x = fst subject"
    have x: "x \<in> insert SYNTHETIC_NOAUTH_CONNECTION_ID ids - set excluded"
      unfolding x_def by (rule subject_fresh [OF _ Some here plain]) (simp add: r_def opts'_def)
    show ?thesis
    proof (cases "cr_proceed (verdictOn pq provider model w subject)")
      case True
      have "admittedIn pq opts provider model w excluded c" if "fst r = Selected c" for c
        using selected_source(3) [of "pr_env w" sg facts opts' provider allowed model "pr_draws w" "pr_now w" "pr_others w s" c]
          that True Some by (simp add: admittedIn_def r_def opts'_def subjectOf_def)
      then show ?thesis using True Some unfolding unfold w_def by auto
    next
      case False
      define b where "b = blockAccount w x (verdictOn pq provider model w subject) (pr_meanwhile w (snd r))"
      have "cn_id ` set (sl_rows (snd r)) \<subseteq> ids" using here by (simp add: r_def credentials_rows)
      then have rows: "cn_id ` set (sl_rows (snd b)) \<subseteq> ids" using world by (simp add: staysWithin_def w_def b_def block_rows)
      have "insert SYNTHETIC_NOAUTH_CONNECTION_ID ids - set (excluded @ [x]) = (insert SYNTHETIC_NOAUTH_CONNECTION_ID ids - set excluded) - {x}"
        by auto
      then have "card (insert SYNTHETIC_NOAUTH_CONNECTION_ID ids - set (excluded @ [x])) < card (insert SYNTHETIC_NOAUTH_CONNECTION_ID ids - set excluded)"
        using x fin by (metis card_Diff1_less finite_Diff finite_insert)
      from less.hyps [OF this rows, of "Suc n" "blocked @ [(x, fst b)]"]
      obtain answer bs s' where run: "preflightLoop pq sg facts opts provider allowed model world (Suc n) (excluded @ [x])
          (blocked @ [(x, fst b)]) (snd b) = Some (answer, (blocked @ [(x, fst b)]) @ bs, s')"
        and bs: "distinct (map fst bs)" "set (map fst bs) \<subseteq> insert SYNTHETIC_NOAUTH_CONNECTION_ID ids - set (excluded @ [x])"
        and sel: "\<forall>c. answer = Selected c \<longrightarrow> admittedIn pq opts provider model (world (Suc n + length bs)) ((excluded @ [x]) @ map fst bs) c"
        by auto
      have "preflightLoop pq sg facts opts provider allowed model world n excluded blocked s = Some (answer, blocked @ ((x, fst b) # bs), s')"
        using run False Some unfolding unfold by (simp add: Let_def x_def b_def)
      moreover have "distinct (map fst ((x, fst b) # bs))" using bs by auto
      moreover have "set (map fst ((x, fst b) # bs)) \<subseteq> insert SYNTHETIC_NOAUTH_CONNECTION_ID ids - set excluded" using bs(2) x by auto
      moreover have "\<forall>c. answer = Selected c \<longrightarrow> admittedIn pq opts provider model (world (n + length ((x, fst b) # bs)))
          (excluded @ map fst ((x, fst b) # bs)) c" using sel by simp
      ultimately show ?thesis by blast
    qed
  qed
qed

lemma admitted_fresh:
  assumes "admittedIn pq opts provider model w excluded c" and "trim (cn_id c) = cn_id c" and "cn_id c \<noteq> []"
  shows "cn_id c \<notin> set excluded"
  using assms unfolding admittedIn_def eligible_def
  by (metis Diff_iff empty_iff image_eqI insert_iff normalized_excluded selection_options.select_convs(5) selection_options.surjective selection_options.update_convs(5))

text \<open>
  C4. The loop ends and answers only what it has admitted: when the ids of the accounts stay within a finite set of
  texts without blanks around them, then whatever other requests and the upstreams do, the selection with preflight
  returns; it fetches the quota of no account twice, of at most as many as there are ids and the synthetic one; and an
  account that it answers was eligible in the last round and above its cutoffs there, unless the cutoffs are bypassed.
\<close>

theorem preflight_returns:
  assumes "staysWithin ids world" and "\<forall>x \<in> ids. trim x = x \<and> x \<noteq> []" and "finite ids" and "cn_id ` set (sl_rows s) \<subseteq> ids"
  shows "\<exists>answer blocked s'. getProviderCredentialsWithQuotaPreflight pq sg facts opts provider allowed model world s = Some (answer, blocked, s')
    \<and> distinct (map fst blocked) \<and> set (map fst blocked) \<inter> set (so_excluded opts) = {} \<and> length blocked \<le> card ids + 1
    \<and> (\<forall>c. answer = Selected c \<longrightarrow> so_bypassQuota opts \<or> provider = ''antigravity'' \<and> pq_creditsAlways pq
          \<or> admittedIn pq opts provider model (world (length blocked)) (so_excluded opts @ map fst blocked) c)"
proof (cases "so_bypassQuota opts \<or> provider = ''antigravity'' \<and> pq_creditsAlways pq")
  case True
  then show ?thesis by (simp add: getProviderCredentialsWithQuotaPreflight_def Let_def) blast
next
  case False
  then have run: "getProviderCredentialsWithQuotaPreflight pq sg facts opts provider allowed model world s
      = preflightLoop pq sg facts opts provider allowed model world 0 (so_excluded opts) [] s"
    by (simp only: getProviderCredentialsWithQuotaPreflight_def if_False)
  from loop_ends [OF assms(1-3) assms(4), of pq sg facts opts provider allowed model 0 "so_excluded opts" "[]"]
  obtain answer bs s' where b: "preflightLoop pq sg facts opts provider allowed model world 0 (so_excluded opts) [] s = Some (answer, bs, s')"
    "distinct (map fst bs)" "set (map fst bs) \<subseteq> insert SYNTHETIC_NOAUTH_CONNECTION_ID ids - set (so_excluded opts)"
    "\<forall>c. answer = Selected c \<longrightarrow> admittedIn pq opts provider model (world (length bs)) (so_excluded opts @ map fst bs) c" by auto
  have "length bs = card (set (map fst bs))" using b(2) by (metis distinct_card length_map)
  also have "\<dots> \<le> card (insert SYNTHETIC_NOAUTH_CONNECTION_ID ids)"
    by (rule card_mono) (use assms(3) b(3) in auto)
  also have "\<dots> \<le> card ids + 1" using assms(3) by (simp add: card_insert_if)
  finally have "length bs \<le> card ids + 1" .
  moreover have "set (map fst bs) \<inter> set (so_excluded opts) = {}" using b(3) by auto
  ultimately show ?thesis using b unfolding run by (intro exI [of _ answer] exI [of _ bs] exI [of _ s']) simp
qed

definition halfSpentRound :: preflight_round where
  "halfSpentRound = \<lparr>pr_env = plainEnv emptyQuotaCache, pr_now = 100, pr_draws = plainDraws, pr_others = (\<lambda>s. s),
     pr_fetch = (\<lambda>x. Some \<lparr>qi_percentUsed = Some (if x = ''a'' then 1 else 0), qi_resetAt = None, qi_windows = [], qi_limitReached = False\<rparr>),
     pr_meanwhile = (\<lambda>s. s), pr_after = 200\<rparr>"

lemma preflight_returns_witness:
  "\<exists>answer blocked s'. getProviderCredentialsWithQuotaPreflight
      \<lparr>pq_default = 10, pq_windows = [], pq_modelScoped = False, pq_creditsAlways = False, pq_noAuth = None\<rparr> plainSettings plainFacts plainOptions
      ''antigravity'' None None (\<lambda>n. halfSpentRound) pinnedState = Some (answer, blocked, s') \<and> length blocked \<le> 3"
proof -
  have "staysWithin {''a'', ''b''} (\<lambda>n. halfSpentRound)" by (simp add: staysWithin_def halfSpentRound_def)
  moreover have "trim ''a'' = ''a''" "trim ''b'' = ''b''" by code_simp+
  then have "\<forall>x \<in> {''a'', ''b''}. trim x = x \<and> x \<noteq> []" by simp
  moreover have "cn_id ` set (sl_rows pinnedState) \<subseteq> {''a'', ''b''}" by (simp add: pinnedState_def twoAccounts_def account_def)
  ultimately show ?thesis
    using preflight_returns [of "{''a'', ''b''}" "\<lambda>n. halfSpentRound" pinnedState] by fastforce
qed

end
