(* ===== verification/AccountMarking.thy ===== *)
theory AccountMarking
  imports AccountSelection
begin

text \<open>
  What a failure does to an account, and what clears it: \<open>markAccountUnavailable\<close>, \<open>clearAccountError\<close> and
  \<open>clearRecoveredProviderState\<close> of \<open>src/sse/services/auth.ts\<close>, the recovery tick of
  \<open>src/lib/quota/connectionRecovery.ts\<close>, the quota headers of Codex (\<open>open-sse/executors/codex/quota.ts\<close>,
  \<open>chatCore/codexQuota.ts\<close>) and its failover (\<open>chatCore/codexFailover.ts\<close>). A mark reads its
  row and then decides and writes (\<open>markSeen\<close>); the update of a row is one step. What \<open>checkFallbackError\<close>, \<open>classifyProviderError\<close> and
  \<open>isResourceNotFoundResponse\<close> make of a failure is an argument, since they match texts. A duration that is not a
  number is 0. Messages are shortened.
\<close>

section \<open>Failures\<close>

text \<open>The answer of \<open>checkFallbackError\<close>.\<close>

record fallback_answer =
  fb_shouldFallback :: bool
  fb_cooldownMs :: int
  fb_baseCooldownMs :: "int option"
  fb_newBackoffLevel :: "int option"
  fb_reason :: "string option"
  fb_usedUpstreamRetryHint :: bool
  fb_quotaResetHintMs :: "int option"
  fb_permanent :: bool
  fb_creditsExhausted :: bool

text \<open>A failure of a request to a model; the fallback depends on the backoff level of the account.\<close>

record account_failure =
  ff_status :: int
  ff_text :: string
  ff_resourceMissing :: bool
  ff_fallback :: "int \<Rightarrow> fallback_answer"
  ff_errorType :: "string option"
  ff_provider :: "string option"
  ff_model :: "string option"
  ff_persist :: bool

record mark_env =
  mk_registry :: registry
  mk_webCookie :: "string list"
  mk_profile :: "lock_profile option"
  mk_maxCooldownMs :: "int option"
  mk_midnight :: int
  mk_autoDisable :: bool
  mk_quota :: quota_cache

record account_state =
  as_rows :: "connection list"
  as_locks :: lockouts

definition notFoundLocal :: int where "notFoundLocal = 5 * 1000"
definition serviceUnavailable :: int where "serviceUnavailable = 2 * 1000"
definition ANTIGRAVITY_FAMILY_INFERRED_BASE_COOLDOWN_MS :: int where "ANTIGRAVITY_FAMILY_INFERRED_BASE_COOLDOWN_MS = 30000"

definition isRecoverableCookieAuth401 :: "mark_env \<Rightarrow> string option \<Rightarrow> string option \<Rightarrow> bool" where
  "isRecoverableCookieAuth401 env provider errorType \<longleftrightarrow>
     errorType \<noteq> Some ''account_deactivated'' \<and> provider \<noteq> None
     \<and> resolveProviderId (mk_registry env) (the provider) \<in> set (mk_webCookie env)"

definition resolveTerminalConnectionStatus ::
  "mark_env \<Rightarrow> int \<Rightarrow> fallback_answer \<Rightarrow> string option \<Rightarrow> string option \<Rightarrow> string option" where
  "resolveTerminalConnectionStatus env status fb errorType provider =
     (if fb_creditsExhausted fb \<or> status = 402 then Some ''credits_exhausted''
      else if errorType = Some ''project_route_error'' \<or> errorType = Some ''oauth_invalid_token'' then None
      else if fb_permanent fb \<or> errorType = Some ''forbidden'' then Some ''banned''
      else if (errorType = Some ''account_deactivated'' \<or> errorType = Some ''unauthorized'' \<or> status = 401)
              \<and> \<not> isRecoverableCookieAuth401 env provider errorType then Some ''expired''
      else None)"

section \<open>Rows\<close>

definition updateRow :: "string \<Rightarrow> (connection \<Rightarrow> connection) \<Rightarrow> account_state \<Rightarrow> account_state" where
  "updateRow c f s = s\<lparr>as_rows := map (\<lambda>r. if cn_id r = c then f r else r) (as_rows s)\<rparr>"

text \<open>The last error, without a change of the status.\<close>

definition noteError :: "string option \<Rightarrow> string \<Rightarrow> int \<Rightarrow> millis \<Rightarrow> connection \<Rightarrow> connection" where
  "noteError errorType msg status now r =
     r\<lparr>cn_lastErrorType := errorType, cn_lastError := Some msg, cn_lastErrorAt := Some now, cn_errorCode := Some status\<rparr>"

record mark_answer =
  ma_shouldFallback :: bool
  ma_cooldownMs :: int

section \<open>Locks of a model\<close>

definition lockFailure ::
  "mark_env \<Rightarrow> string \<Rightarrow> string \<Rightarrow> string \<Rightarrow> string \<Rightarrow> int \<Rightarrow> int \<Rightarrow> int option \<Rightarrow> bool \<Rightarrow> millis \<Rightarrow> account_state
   \<Rightarrow> mark_answer \<times> account_state" where
  "lockFailure env provider c model reason status fallbackMs exact upstream now s =
     (let (r, locks) = recordModelLockoutFailure (mk_registry env) (mk_midnight env) now provider c model reason status fallbackMs (mk_profile env)
            \<lparr>lo_exactCooldownMs = exact, lo_maxCooldownMs = mk_maxCooldownMs env, lo_upstreamReset = upstream\<rparr> (as_locks s)
      in (\<lparr>ma_shouldFallback = True, ma_cooldownMs = fr_cooldownMs r\<rparr>,
          updateRow c (noteError (Some reason) (''Model '' @ model @ '' '' @ reason) status now) (s\<lparr>as_locks := locks\<rparr>)))"

definition isModelGone410 :: "int \<Rightarrow> string option \<Rightarrow> bool" where
  "isModelGone410 status provider \<longleftrightarrow>
     status = 410 \<and> (case provider of None \<Rightarrow> False | Some p \<Rightarrow> p = ''nvidia'' \<or> starts_with ''opencode'' (toLowerCase p))"

definition perModelReason :: "int \<Rightarrow> bool \<Rightarrow> fallback_answer \<Rightarrow> string" where
  "perModelReason status gone fb =
     (if status = 404 \<or> gone then ''not_found''
      else if status = 429 \<and> fb_reason fb = Some ''quota_exhausted'' then ''quota_exhausted''
      else if status = 429 then ''rate_limited''
      else ''server_error'')"

text \<open>A failure of a provider that has its quotas per model.\<close>

definition perModelFailure ::
  "mark_env \<Rightarrow> account_failure \<Rightarrow> fallback_answer \<Rightarrow> string \<Rightarrow> string \<Rightarrow> string \<Rightarrow> millis \<Rightarrow> account_state
   \<Rightarrow> mark_answer \<times> account_state" where
  "perModelFailure env f fb c provider model now s =
     (let status = ff_status f;
          gone = (status = 404 \<or> isModelGone410 status (Some provider));
          reason = perModelReason status gone fb;
          base = Option.bind (mk_profile env) lp_baseCooldownMs;
          family = (provider = ''antigravity'' \<and> getQuotaScopeLabelForProvider provider model = ''family'' \<and> status = 429)
      in if status = 500 then
           (\<lparr>ma_shouldFallback = True, ma_cooldownMs = 0\<rparr>,
            updateRow c (noteError (Some reason) (''Model '' @ model @ '' '' @ reason) status now) s)
         else lockFailure env provider c model reason status
                (if gone then nullish base notFoundLocal
                 else if family then ANTIGRAVITY_FAMILY_INFERRED_BASE_COOLDOWN_MS
                 else nullish (fb_baseCooldownMs fb) (nullish base 0))
                (if fb_usedUpstreamRetryHint fb then Some (fb_cooldownMs fb) else fb_quotaResetHintMs fb)
                (fb_usedUpstreamRetryHint fb \<or> fb_quotaResetHintMs fb \<noteq> None) now s)"

section \<open>Marking\<close>

text \<open>A Codex 429 limits the scope of the model.\<close>

definition limitCodexScope ::
  "mark_env \<Rightarrow> account_failure \<Rightarrow> fallback_answer \<Rightarrow> connection \<Rightarrow> string \<Rightarrow> int \<Rightarrow> millis \<Rightarrow> account_state
   \<Rightarrow> mark_answer \<times> account_state" where
  "limitCodexScope env f fb r model cooldownMs now s =
     (let c = cn_id r; scope = codexScopeOf (Some model);
          until = nullish (getCodexScopeRateLimitedUntil (cn_data r) (Some model)) (getUnavailableUntil cooldownMs now);
          scopeCooldownMs = (case dt_date until of Some t \<Rightarrow> max (t - now) 0 | None \<Rightarrow> 0);
          s1 = updateRow c (\<lambda>row. row\<lparr>cn_testStatus := Some ''unavailable'', cn_lastError := Some (take 100 (ff_text f)),
                 cn_errorCode := Some (ff_status f), cn_lastErrorAt := Some now,
                 cn_backoffLevel := nullish (fb_newBackoffLevel fb) (cn_backoffLevel r),
                 cn_data := (cn_data r)\<lparr>psd_codexScopeUntil := jset scope until (psd_codexScopeUntil (cn_data r))\<rparr>\<rparr>) s
      in (\<lparr>ma_shouldFallback = True, ma_cooldownMs = scopeCooldownMs\<rparr>,
          if 0 < scopeCooldownMs
          then s1\<lparr>as_locks := lockModel (mk_registry env) now (the (ff_provider f)) c (Some model) (nullish (fb_reason fb) ''unknown'')
                    scopeCooldownMs noMetadata (as_locks s1)\<rparr>
          else s1))"

text \<open>The write of a failure that concerns the whole account.\<close>

definition persistFailure ::
  "mark_env \<Rightarrow> account_failure \<Rightarrow> fallback_answer \<Rightarrow> string \<Rightarrow> int \<Rightarrow> string option \<Rightarrow> int \<Rightarrow> bool \<Rightarrow> millis \<Rightarrow> account_state
   \<Rightarrow> account_state" where
  "persistFailure env f fb c backoff terminal cooldownMs disableCooling now s =
     (let base = (\<lambda>r. (noteError (ff_errorType f) (take 100 (ff_text f)) (ff_status f) now r)
                        \<lparr>cn_backoffLevel := nullish (fb_newBackoffLevel fb) backoff\<rparr>);
          s1 = (if \<not> ff_persist f then
                  updateRow c base
                    (if \<not> noText (ff_provider f) \<and> \<not> noText (ff_model f) \<and> 0 < cooldownMs
                     then s\<lparr>as_locks := lockModel (mk_registry env) now (the (ff_provider f)) c (ff_model f)
                              (nullish (fb_reason fb) ''unknown'') cooldownMs noMetadata (as_locks s)\<rparr>
                     else s)
                else if 0 < cooldownMs \<and> \<not> disableCooling then
                  updateRow c (\<lambda>r. (base r)\<lparr>cn_rateLimitedUntil := Some (getUnavailableUntil cooldownMs now),
                                           cn_testStatus := Some ''unavailable''\<rparr>) s
                else
                  updateRow c (\<lambda>r. (base r)\<lparr>cn_rateLimitedUntil := None,
                                           cn_testStatus := (if terminal = None then cn_testStatus r else terminal)\<rparr>) s)
      in if fb_permanent fb \<and> mk_autoDisable env then updateRow c (\<lambda>r. r\<lparr>cn_isActive := False\<rparr>) s1 else s1)"

definition scopeRunning :: "connection \<Rightarrow> string option \<Rightarrow> millis \<Rightarrow> millis option" where
  "scopeRunning r model now =
     (case Option.bind (getCodexScopeRateLimitedUntil (cn_data r) model) dt_date of
        Some t \<Rightarrow> if now < t then Some t else None
      | None \<Rightarrow> None)"

definition emptyProviderData :: provider_data where
  "emptyProviderData = \<lparr>psd_limitPolicy = JUndefined, psd_codexLimitPolicy = JUndefined, psd_codexScopeUntil = [], psd_excludedModels = JUndefined,
     psd_excluded_models = JUndefined, psd_disableCooling = False, psd_passthroughModels = None, psd_local = False,
     psd_quotaPreflightEnabled = None\<rparr>"

text \<open>What remains when no guard has answered.\<close>

definition markFailure :: "mark_env \<Rightarrow> account_failure \<Rightarrow> string \<Rightarrow> connection option \<Rightarrow> millis \<Rightarrow> account_state \<Rightarrow> mark_answer \<times> account_state" where
  "markFailure env f c conn now s =
     (let backoff = (case conn of Some r \<Rightarrow> cn_backoffLevel r | None \<Rightarrow> 0);
          d = (case conn of Some r \<Rightarrow> cn_data r | None \<Rightarrow> emptyProviderData);
          fb = ff_fallback f backoff; status = ff_status f; provider = ff_provider f;
          named = (\<not> noText provider \<and> \<not> noText (ff_model f)); p = the provider; m = the (ff_model f);
          perModel = hasPerModelQuota (mk_registry env) provider (psd_passthroughModels d);
          base = Option.bind (mk_profile env) lp_baseCooldownMs;
          terminal = resolveTerminalConnectionStatus env status fb (ff_errorType f) provider;
          cachedReset = (if ff_errorType f = Some ''quota_exhausted'' \<or> fb_reason fb = Some ''quota_exhausted''
                         then getCachedQuotaResetAt c now (mk_quota env) else None);
          cachedMs = parseFutureDateMs cachedReset now;
          cooldownMs = (if terminal \<noteq> None then 0 else if \<not> falsy_num cachedMs then the cachedMs - now else fb_cooldownMs fb)
      in if perModel \<and> named \<and> p \<noteq> ''codex'' \<and> (status = 404 \<or> isModelGone410 status provider \<or> status = 429 \<or> 500 \<le> status)
         then perModelFailure env f fb c p m now s
         else if \<not> fb_shouldFallback fb then (\<lparr>ma_shouldFallback = False, ma_cooldownMs = 0\<rparr>, s)
         else if named \<and> resolveProviderId (mk_registry env) p = ''grok-web'' \<and> status = 403
         then lockFailure env p c m ''forbidden'' status (nullish base serviceUnavailable) None False now s
         else if perModel \<and> status = 403 \<and> named \<and> terminal = None
         then lockFailure env p c m ''forbidden'' status (nullish (fb_baseCooldownMs fb) (nullish base serviceUnavailable))
                (if fb_usedUpstreamRetryHint fb then Some (fb_cooldownMs fb) else None) False now s
         else if psd_local d \<and> status = 404 \<and> named
         then lockFailure env p c m ''not_found'' status (nullish base notFoundLocal) None False now s
         else if provider = Some ''codex'' \<and> status = 429 \<and> \<not> noText (ff_model f) \<and> conn \<noteq> None
         then limitCodexScope env f fb (the conn) m cooldownMs now s
         else (\<lparr>ma_shouldFallback = True, ma_cooldownMs = cooldownMs\<rparr>,
               persistFailure env f fb c backoff terminal cooldownMs (psd_disableCooling d) now s))"

text \<open>The decision of a mark that has read \<open>conn\<close>, and its writes to the rows of now.\<close>

definition markSeen ::
  "mark_env \<Rightarrow> account_failure \<Rightarrow> string \<Rightarrow> connection option \<Rightarrow> millis \<Rightarrow> account_state \<Rightarrow> mark_answer \<times> account_state" where
  "markSeen env f c conn now s =
     (if ff_status f = 404 \<and> ff_resourceMissing f then (\<lparr>ma_shouldFallback = False, ma_cooldownMs = 0\<rparr>, s)
      else case conn of
        None \<Rightarrow> markFailure env f c None now s
      | Some r \<Rightarrow>
          if isTerminalConnectionStatus r then (\<lparr>ma_shouldFallback = True, ma_cooldownMs = 0\<rparr>, s)
          else (case parseFutureDateMs (cn_rateLimitedUntil r) now of
                  Some t \<Rightarrow> (\<lparr>ma_shouldFallback = True, ma_cooldownMs = t - now\<rparr>, s)
                | None \<Rightarrow>
                    (case (if ff_provider f = Some ''codex'' \<and> \<not> noText (ff_model f) then scopeRunning r (ff_model f) now else None) of
                       Some t \<Rightarrow> (\<lparr>ma_shouldFallback = True, ma_cooldownMs = t - now\<rparr>, s)
                     | None \<Rightarrow> markFailure env f c (Some r) now s)))"

definition readAccount :: "string \<Rightarrow> account_state \<Rightarrow> connection option" where
  "readAccount c s = find (\<lambda>r. cn_id r = c) (as_rows s)"

text \<open>A mark during which no row changes.\<close>

definition markAccountUnavailable ::
  "mark_env \<Rightarrow> account_failure \<Rightarrow> string \<Rightarrow> millis \<Rightarrow> account_state \<Rightarrow> mark_answer \<times> account_state" where
  "markAccountUnavailable env f c now s = markSeen env f c (readAccount c s) now s"

section \<open>Clearing\<close>

definition hasErrorState :: "connection \<Rightarrow> bool" where
  "hasErrorState r \<longleftrightarrow>
     \<not> noText (cn_testStatus r) \<and> cn_testStatus r \<noteq> Some ''active'' \<or> \<not> noText (cn_lastError r) \<or> cn_rateLimitedUntil r \<noteq> None
     \<or> \<not> falsy_num (cn_errorCode r) \<or> \<not> noText (cn_lastErrorType r) \<or> \<not> noText (cn_lastErrorSource r)"

definition clearedRow :: "connection \<Rightarrow> connection" where
  "clearedRow r = (resetConnectionBackoff r)\<lparr>cn_rateLimitedUntil := None\<rparr>"

text \<open>The caller's view of the connection decides whether anything is written.\<close>

definition clearAccountError :: "string \<Rightarrow> connection \<Rightarrow> account_state \<Rightarrow> account_state" where
  "clearAccountError c seen s = (if hasErrorState seen then updateRow c clearedRow s else s)"

text \<open>The columns that a conditional clear compares; a missing text equals an empty one.\<close>

definition unchangedSince :: "connection \<Rightarrow> connection \<Rightarrow> bool" where
  "unchangedSince seen r \<longleftrightarrow>
     nullish (cn_testStatus r) [] = nullish (cn_testStatus seen) [] \<and> cn_lastErrorAt r = cn_lastErrorAt seen
     \<and> cn_rateLimitedUntil r = cn_rateLimitedUntil seen"

definition clearConnectionErrorIfUnchanged :: "string \<Rightarrow> connection \<Rightarrow> account_state \<Rightarrow> bool \<times> account_state" where
  "clearConnectionErrorIfUnchanged c expected s =
     (if \<exists>r \<in> set (as_rows s). cn_id r = c \<and> unchangedSince expected r
      then (True, updateRow c (\<lambda>r. if unchangedSince expected r then clearedRow r else r) s)
      else (False, s))"

definition clearRecoveredProviderState ::
  "connection option \<Rightarrow> connection option \<Rightarrow> account_state \<Rightarrow> bool \<times> account_state" where
  "clearRecoveredProviderState credentials expected s =
     (case credentials of
        None \<Rightarrow> (False, s)
      | Some c \<Rightarrow>
          if cn_id c = [] then (False, s)
          else (case expected of
                  Some e \<Rightarrow> clearConnectionErrorIfUnchanged (cn_id c) e s
                | None \<Rightarrow> (True, clearAccountError (cn_id c) c s)))"

section \<open>The recovery tick\<close>

definition hasElapsedCooldown :: "date_text option \<Rightarrow> millis \<Rightarrow> bool" where
  "hasElapsedCooldown until now \<longleftrightarrow> (case cooldownUntilMs until of Some t \<Rightarrow> t \<le> now | None \<Rightarrow> False)"

definition isRecoverableCooldownConnection :: "connection \<Rightarrow> millis \<Rightarrow> bool" where
  "isRecoverableCooldownConnection r now \<longleftrightarrow>
     cn_id r \<noteq> [] \<and> normalizeStatus (cn_testStatus r) = ''unavailable'' \<and> hasElapsedCooldown (cn_rateLimitedUntil r) now"

definition selectRecoverableConnections :: "connection list \<Rightarrow> millis \<Rightarrow> connection list" where
  "selectRecoverableConnections rs now = filter (\<lambda>r. isRecoverableCooldownConnection r now) rs"

text \<open>A tick loads the active rows and then clears those it has selected, one after the other, with an await before each.\<close>

definition loadRecoverable :: "millis \<Rightarrow> account_state \<Rightarrow> connection list" where
  "loadRecoverable now s = selectRecoverableConnections (filter cn_isActive (as_rows s)) now"

definition recoverConnection :: "connection \<Rightarrow> account_state \<Rightarrow> account_state" where
  "recoverConnection r s = clearAccountError (cn_id r) r s"

text \<open>The tick when nothing happens between its steps.\<close>

definition runConnectionRecoveryTick :: "millis \<Rightarrow> account_state \<Rightarrow> account_state" where
  "runConnectionRecoveryTick now s = fold recoverConnection (loadRecoverable now s) s"

definition resolveConnectionRecoveryIntervalMs :: "rat option \<Rightarrow> int" where
  "resolveConnectionRecoveryIntervalMs parsed =
     (case parsed of Some n \<Rightarrow> if 0 < n then max (5 * 1000) \<lfloor>n\<rfloor> else 60 * 1000 | None \<Rightarrow> 60 * 1000)"

section \<open>Quota headers of Codex\<close>

text \<open>A snapshot parsed from the headers; an infinite limit is \<open>None\<close>.\<close>

record codex_snapshot =
  cx_usage5h :: rat
  cx_limit5h :: "rat option"
  cx_resetAt5h :: "date_text option"
  cx_usage7d :: rat
  cx_limit7d :: "rat option"
  cx_resetAt7d :: "date_text option"

definition futureResetOf :: "date_text option \<Rightarrow> millis \<Rightarrow> millis option" where
  "futureResetOf d now = (case Option.bind d dt_date of Some t \<Rightarrow> if now < t then Some t else None | None \<Rightarrow> None)"

definition getCodexResetTime :: "codex_snapshot \<Rightarrow> millis \<Rightarrow> millis option" where
  "getCodexResetTime q now =
     (let times = List.map_filter (\<lambda>d. futureResetOf d now) [cx_resetAt7d q, cx_resetAt5h q]
      in if times = [] then None else Some (fold max (tl times) (hd times)))"

definition usageRatio :: "rat \<Rightarrow> rat option \<Rightarrow> rat" where
  "usageRatio usage limit = (case limit of Some l \<Rightarrow> if 0 < l then usage / l else 0 | None \<Rightarrow> 0)"

datatype exhausted_window = SevenDays | FiveHours | NoWindow

definition getCodexDualWindowCooldownMs :: "codex_snapshot \<Rightarrow> rat \<Rightarrow> millis \<Rightarrow> int \<times> exhausted_window" where
  "getCodexDualWindowCooldownMs q threshold now =
     (case (if threshold \<le> usageRatio (cx_usage7d q) (cx_limit7d q) then futureResetOf (cx_resetAt7d q) now else None) of
        Some t \<Rightarrow> (t - now, SevenDays)
      | None \<Rightarrow>
          (case (if threshold \<le> usageRatio (cx_usage5h q) (cx_limit5h q) then futureResetOf (cx_resetAt5h q) now else None) of
             Some t \<Rightarrow> (t - now, FiveHours)
           | None \<Rightarrow> (0, NoWindow)))"

text \<open>The provider data to store, from the data that the request has; the snapshot itself, which no rule reads, is left out.\<close>

definition buildCodexQuotaPersistence :: "codex_snapshot option \<Rightarrow> provider_data \<Rightarrow> string \<Rightarrow> int \<Rightarrow> millis \<Rightarrow> provider_data option" where
  "buildCodexQuotaPersistence quota d model status now =
     (case quota of
        None \<Rightarrow> None
      | Some q \<Rightarrow>
          Some (let (cooldownMs, window) = getCodexDualWindowCooldownMs q (95 / 100) now
                in if status = 429 \<and> 0 < cooldownMs
                   then d\<lparr>psd_codexScopeUntil := jset (codexScopeOf (Some model)) (isoText (now + cooldownMs)) (psd_codexScopeUntil d)\<rparr>
                   else d))"

text \<open>\<open>persistCodexQuotaState\<close>: the write of a response with quota headers; \<open>d\<close> is the data of the request.\<close>

definition persistCodexQuotaState ::
  "string \<Rightarrow> codex_snapshot option \<Rightarrow> provider_data \<Rightarrow> string \<Rightarrow> int \<Rightarrow> millis \<Rightarrow> account_state \<Rightarrow> provider_data \<times> account_state" where
  "persistCodexQuotaState c quota d model status now s =
     (case buildCodexQuotaPersistence quota d model status now of
        None \<Rightarrow> (d, s)
      | Some d' \<Rightarrow> (d', updateRow c (\<lambda>r. r\<lparr>cn_data := d'\<rparr>) s))"

text \<open>The failover within a request marks the scope from the stored data, and the whole connection.\<close>

definition markCodexScopeRateLimited :: "string \<Rightarrow> string \<Rightarrow> date_text \<Rightarrow> account_state \<Rightarrow> account_state" where
  "markCodexScopeRateLimited c model until s =
     updateRow c (\<lambda>r. r\<lparr>cn_data := (cn_data r)\<lparr>psd_codexScopeUntil := jset (codexScopeOf (Some model)) until (psd_codexScopeUntil (cn_data r))\<rparr>,
       cn_lastError := Some ''429 rate limited'', cn_errorCode := Some 429\<rparr>) s"

definition setConnectionRateLimitUntil :: "string \<Rightarrow> millis option \<Rightarrow> account_state \<Rightarrow> account_state" where
  "setConnectionRateLimitUntil c until s =
     (if c = [] then s
      else updateRow c (\<lambda>r. r\<lparr>cn_rateLimitedUntil := map_option (\<lambda>t. \<lparr>dt_date = None, dt_number = Some t\<rparr>) until\<rparr>) s)"

text \<open>A 429 of Codex that rotates the account; the header asks for a wait in seconds or is missing.\<close>

definition codexFailover :: "string \<Rightarrow> string \<Rightarrow> rat option \<Rightarrow> millis \<Rightarrow> account_state \<Rightarrow> account_state" where
  "codexFailover c model retryAfter now s =
     (let retryMs = (case retryAfter of Some n \<Rightarrow> if n = 0 then 60000 else \<lfloor>n * 1000\<rfloor> | None \<Rightarrow> 60000)
      in setConnectionRateLimitUntil c (Some (now + retryMs)) (markCodexScopeRateLimited c model (isoText (now + retryMs)) s))"

end
