(* ===== verification/MarkingLaws.thy ===== *)
theory MarkingLaws
  imports AccountMarking AccountPreflight
begin

text \<open>
  Terminal accounts stay out; a clear that undoes a ban; Codex scopes that are limited only once, and limits that an
  older request erases.
\<close>

section \<open>Rows\<close>

lemma find_updateRow:
  assumes "\<And>r. cn_id (f r) = cn_id r"
  shows "find (\<lambda>r. cn_id r = c) (as_rows (updateRow c f s)) = map_option f (find (\<lambda>r. cn_id r = c) (as_rows s))"
proof -
  have "find (\<lambda>r. cn_id r = c) (map (\<lambda>r. if cn_id r = c then f r else r) rs) = map_option f (find (\<lambda>r. cn_id r = c) rs)" for rs
    by (induction rs) (simp_all add: assms)
  then show ?thesis by (simp add: updateRow_def)
qed

lemma updateRow_locks [simp]: "as_locks (updateRow c f s) = as_locks s"
  by (simp add: updateRow_def)

section \<open>Terminal accounts\<close>

text \<open>All rows of an account have a status, which is terminal.\<close>

definition stuckAt :: "string \<Rightarrow> string \<Rightarrow> connection list \<Rightarrow> bool" where
  "stuckAt x status rows \<longleftrightarrow> (\<forall>r \<in> set rows. cn_id r = x \<longrightarrow> cn_testStatus r = Some status \<and> isTerminalConnectionStatus r)"

lemma terminal_by_status: "cn_testStatus a = cn_testStatus b \<Longrightarrow> isTerminalConnectionStatus a = isTerminalConnectionStatus b"
  by (simp add: isTerminalConnectionStatus_def)

lemma stuck_update:
  assumes "stuckAt x status (as_rows s)"
    and "c = x \<Longrightarrow> \<forall>r \<in> set (as_rows s). cn_id r = x \<longrightarrow> cn_testStatus (f r) = cn_testStatus r"
    and "\<And>r. cn_id (f r) = cn_id r"
  shows "stuckAt x status (as_rows (updateRow c f s))"
proof -
  have "cn_testStatus q = Some status \<and> isTerminalConnectionStatus q" if q: "q \<in> set (as_rows (updateRow c f s))" "cn_id q = x" for q
  proof -
    obtain r where r: "r \<in> set (as_rows s)" "q = (if cn_id r = c then f r else r)" using q(1) by (auto simp: updateRow_def)
    then have id: "cn_id r = x" using q(2) assms(3) by (auto split: if_splits)
    have "cn_testStatus q = cn_testStatus r" using r id assms(2) by (cases "c = x") auto
    then show ?thesis using assms(1) r(1) id terminal_by_status [of q r] by (simp add: stuckAt_def)
  qed
  then show ?thesis by (simp add: stuckAt_def)
qed

lemma other_rows:
  assumes "\<And>r. cn_id (f r) = cn_id r" and "c \<noteq> x"
  shows "stuckAt x status (as_rows (updateRow c f s)) = stuckAt x status (as_rows s)"
  using assms by (auto simp: stuckAt_def updateRow_def)

text \<open>A mark of another account writes rows of that account only.\<close>

lemma lockFailure_rows: "\<exists>f. as_rows (snd (lockFailure env p c m reason status fm ex up now s)) = as_rows (updateRow c f s) \<and> (\<forall>r. cn_id (f r) = cn_id r)"
proof -
  have "as_rows (snd (lockFailure env p c m reason status fm ex up now s))
      = as_rows (updateRow c (noteError (Some reason) (''Model '' @ m @ '' '' @ reason) status now) s)"
    by (simp add: lockFailure_def Let_def case_prod_unfold updateRow_def)
  moreover have "cn_id (noteError (Some reason) (''Model '' @ m @ '' '' @ reason) status now r) = cn_id r" for r
    by (simp add: noteError_def)
  ultimately show ?thesis by blast
qed

text \<open>A mark writes rows of its account only.\<close>

lemma persistFailure_other:
  assumes "c \<noteq> x"
  shows "stuckAt x status (as_rows (persistFailure env f fb c backoff terminal cd dis now s)) = stuckAt x status (as_rows s)"
proof -
  have s: "as_rows (if b then s\<lparr>as_locks := l\<rparr> else s) = as_rows s" for b l by simp
  have u: "stuckAt x status (as_rows (updateRow c g (if b then s\<lparr>as_locks := l\<rparr> else s))) = stuckAt x status (as_rows s)"
    if "\<And>r. cn_id (g r) = cn_id r" for g b l
    using other_rows [OF that assms] s by metis
  show ?thesis unfolding persistFailure_def Let_def
    by (simp add: other_rows [OF _ assms] u noteError_def)
qed

lemma markFailure_other:
  assumes "c \<noteq> x" and "\<And>r. conn = Some r \<Longrightarrow> cn_id r = c"
  shows "stuckAt x status (as_rows (snd (markFailure env f c conn now s))) = stuckAt x status (as_rows s)"
proof -
  have lock: "stuckAt x status (as_rows (snd (lockFailure env p c m reason st fm ex up now s))) = stuckAt x status (as_rows s)"
    for p m reason st fm ex up
    using lockFailure_rows [of env p c m reason st fm ex up now s] other_rows [OF _ assms(1)] by metis
  have model: "stuckAt x status (as_rows (snd (perModelFailure env f fb c p m now s))) = stuckAt x status (as_rows s)" for fb p m
    by (simp add: perModelFailure_def Let_def lock other_rows [OF _ assms(1)] noteError_def)
  have scope: "stuckAt x status (as_rows (snd (limitCodexScope env f fb r m cd now s))) = stuckAt x status (as_rows s)"
    if "cn_id r = c" for fb r m cd
    using that assms(1) by (simp add: limitCodexScope_def Let_def other_rows)
  show ?thesis unfolding markFailure_def Let_def
    by (simp add: lock model scope persistFailure_other [OF assms(1)] assms(2) split: option.split)
qed

text \<open>So does one that has read the account as terminal; no mark removes a row.\<close>

lemma seen_keeps_stuck:
  assumes "stuckAt x status (as_rows s)" and "\<And>r. conn = Some r \<Longrightarrow> cn_id r = c"
    and "c = x \<Longrightarrow> \<exists>r. conn = Some r \<and> isTerminalConnectionStatus r"
  shows "stuckAt x status (as_rows (snd (markSeen env f c conn now s)))"
proof (cases "c = x")
  case True
  then show ?thesis using assms(1,3) by (auto simp: markSeen_def)
next
  case False
  then show ?thesis using assms markFailure_other [OF False] by (simp add: markSeen_def split: option.split)
qed

definition idsOf :: "account_state \<Rightarrow> string set" where
  "idsOf s = cn_id ` set (as_rows s)"

lemma idsOf_locks [simp]: "idsOf (s\<lparr>as_locks := l\<rparr>) = idsOf s"
  by (simp add: idsOf_def)

lemma ids_map: "(\<And>r. cn_id (f r) = cn_id r) \<Longrightarrow> cn_id ` set (map f cs) = cn_id ` set cs"
  by (simp add: image_image)

lemma idsOf_update: "(\<And>r. cn_id (f r) = cn_id r) \<Longrightarrow> idsOf (updateRow c f s) = idsOf s"
  unfolding idsOf_def updateRow_def by (simp add: ids_map del: set_map)

lemma idsOf_mark: "idsOf (snd (markSeen env f c conn now s)) = idsOf s"
proof -
  have lock: "idsOf (snd (lockFailure env p c m reason st fm ex up now s)) = idsOf s" for p c m reason st fm ex up
    using lockFailure_rows [of env p c m reason st fm ex up now s] idsOf_update unfolding idsOf_def by metis
  have model: "idsOf (snd (perModelFailure env f fb c p m now s)) = idsOf s" for fb p m
    by (simp add: perModelFailure_def Let_def lock idsOf_update noteError_def)
  have scope: "idsOf (snd (limitCodexScope env f fb r m cd now s)) = idsOf s" for fb r m cd
    by (simp add: limitCodexScope_def Let_def idsOf_update)
  have persist: "idsOf (persistFailure env f fb c backoff terminal cd dis now s) = idsOf s" for fb backoff terminal cd dis
    unfolding persistFailure_def Let_def by (simp add: idsOf_update noteError_def)
  have "idsOf (snd (markFailure env f c conn now s)) = idsOf s" for conn
    unfolding markFailure_def Let_def by (simp add: lock model scope persist split: option.split)
  then show ?thesis by (simp add: markSeen_def split: option.split)
qed

section \<open>Runs of a process\<close>

record select_request =
  sr_env :: selection_env
  sr_settings :: strategy_settings
  sr_facts :: provider_facts
  sr_options :: selection_options
  sr_provider :: string
  sr_allowed :: "string list option"
  sr_model :: "string option"
  sr_draws :: draws

text \<open>
  The accounts, and what is under way at an await: the rows that selections have read, the rows that marks have read, the
  rows that recovery ticks have loaded and not yet cleared, and the accounts that requests were given and have not given up.
\<close>

record account_world =
  aw_accounts :: account_state
  aw_pins :: pins
  aw_decks :: decks
  aw_selections :: "connection list list"
  aw_marks :: "(string \<times> connection option) list"
  aw_ticks :: "connection list"
  aw_requests :: "connection list"

text \<open>
  What happens between two awaits. A selection reads the rows, and answers and writes later; a mark reads its row, and decides
  and writes later; a tick loads rows and clears them one by one; a request that succeeds clears the errors of its account, and one
  whose preflight finds no quota marks it, whatever its status is by then; a response of Codex brings the data of its request. A number names the one of its kind that goes on.
\<close>

datatype account_step =
    ReadRows
  | AnswerSelection nat select_request millis
  | ReadMark string
  | WriteMark nat mark_env account_failure millis
  | LoadTick millis
  | ClearNext nat
  | RequestSucceeds nat
  | PreflightBlocks nat "date_text option" millis
  | CodexResponse string "codex_snapshot option" provider_data string int millis
  | CodexFailover string string "rat option" millis

definition dropAt :: "nat \<Rightarrow> 'a list \<Rightarrow> 'a list" where
  "dropAt i xs = take i xs @ drop (Suc i) xs"

lemma set_dropAt: "set (dropAt i xs) \<subseteq> set xs"
  using set_take_subset [of i xs] set_drop_subset [of "Suc i" xs] by (auto simp: dropAt_def)

definition answerSelection :: "connection list \<Rightarrow> select_request \<Rightarrow> millis \<Rightarrow> account_world \<Rightarrow> selection \<times> account_world" where
  "answerSelection seen q now w =
     (let (answer, s) = selectSeen ((sr_env q)\<lparr>sv_locks := as_locks (aw_accounts w)\<rparr>) (sr_settings q) (sr_facts q) (sr_options q)
            (sr_provider q) (sr_allowed q) (sr_model q) (sr_draws q) now seen
            \<lparr>sl_rows = as_rows (aw_accounts w), sl_pins = aw_pins w, sl_decks = aw_decks w\<rparr>
      in (answer,
          w\<lparr>aw_accounts := (aw_accounts w)\<lparr>as_rows := sl_rows s\<rparr>, aw_pins := sl_pins s, aw_decks := sl_decks s,
            aw_requests := (case answer of Selected c \<Rightarrow> aw_requests w @ [c] | _ \<Rightarrow> aw_requests w)\<rparr>))"

fun accountStep :: "account_step \<Rightarrow> account_world \<Rightarrow> selection list \<times> account_world" where
  "accountStep ReadRows w = ([], w\<lparr>aw_selections := aw_selections w @ [as_rows (aw_accounts w)]\<rparr>)"
| "accountStep (AnswerSelection i q now) w =
     (if i < length (aw_selections w)
      then (let (answer, w') = answerSelection (aw_selections w ! i) q now (w\<lparr>aw_selections := dropAt i (aw_selections w)\<rparr>) in ([answer], w'))
      else ([], w))"
| "accountStep (ReadMark c) w = ([], w\<lparr>aw_marks := aw_marks w @ [(c, readAccount c (aw_accounts w))]\<rparr>)"
| "accountStep (WriteMark i env f now) w =
     ([], if i < length (aw_marks w)
          then w\<lparr>aw_accounts := snd (markSeen env f (fst (aw_marks w ! i)) (snd (aw_marks w ! i)) now (aw_accounts w)),
                 aw_marks := dropAt i (aw_marks w)\<rparr>
          else w)"
| "accountStep (LoadTick now) w = ([], w\<lparr>aw_ticks := aw_ticks w @ loadRecoverable now (aw_accounts w)\<rparr>)"
| "accountStep (ClearNext i) w =
     ([], if i < length (aw_ticks w)
          then w\<lparr>aw_accounts := recoverConnection (aw_ticks w ! i) (aw_accounts w), aw_ticks := dropAt i (aw_ticks w)\<rparr>
          else w)"
| "accountStep (RequestSucceeds i) w =
     ([], if i < length (aw_requests w)
          then w\<lparr>aw_accounts := snd (clearRecoveredProviderState (Some (aw_requests w ! i)) None (aw_accounts w))\<rparr>
          else w)"
| "accountStep (PreflightBlocks i resetAt now) w =
     ([], if i < length (aw_requests w)
          then w\<lparr>aw_accounts := (aw_accounts w)\<lparr>as_rows := sl_rows (snd (markQuotaPreflightAccountUnavailable
                   (cn_id (aw_requests w ! i)) resetAt now
                   \<lparr>sl_rows = as_rows (aw_accounts w), sl_pins = aw_pins w, sl_decks = aw_decks w\<rparr>))\<rparr>\<rparr>
          else w)"
| "accountStep (CodexResponse c quota d model status now) w =
     ([], w\<lparr>aw_accounts := snd (persistCodexQuotaState c quota d model status now (aw_accounts w))\<rparr>)"
| "accountStep (CodexFailover c model wait now) w = ([], w\<lparr>aw_accounts := codexFailover c model wait now (aw_accounts w)\<rparr>)"

text \<open>The answers of the selections in a run, and the state after it.\<close>

fun accountRun :: "account_step list \<Rightarrow> account_world \<Rightarrow> selection list \<times> account_world" where
  "accountRun [] w = ([], w)"
| "accountRun (step # steps) w = (let r = accountStep step w; t = accountRun steps (snd r) in (fst r @ fst t, snd t))"

text \<open>A tick between whose steps nothing happens is the whole tick.\<close>

lemma clear_in_turn:
  "aw_ticks w = rs \<Longrightarrow> aw_accounts (snd (accountRun (replicate (length rs) (ClearNext 0)) w)) = fold recoverConnection rs (aw_accounts w)"
  by (induction rs arbitrary: w) (simp_all add: Let_def dropAt_def)

lemma tick_alone:
  assumes "aw_ticks w = []" and "n = length (loadRecoverable now (aw_accounts w))"
  shows "aw_accounts (snd (accountRun (LoadTick now # replicate n (ClearNext 0)) w)) = runConnectionRecoveryTick now (aw_accounts w)"
  using clear_in_turn [of "snd (accountStep (LoadTick now) w)" "loadRecoverable now (aw_accounts w)"] assms
  by (simp add: runConnectionRecoveryTick_def Let_def)

text \<open>Steps that keep a terminal account as it is.\<close>

lemma touch_stuck:
  assumes "stuckAt x status rows"
  shows "stuckAt x status (touchConnection y n t rows)"
proof -
  have "cn_testStatus q = Some status \<and> isTerminalConnectionStatus q" if q: "q \<in> set (touchConnection y n t rows)" "cn_id q = x" for q
  proof -
    obtain r where r: "r \<in> set rows" "q = (if cn_id r = y then r\<lparr>cn_lastUsedAt := Some t, cn_consecutiveUseCount := n\<rparr> else r)"
      using q(1) by (auto simp: touchConnection_def)
    then have "cn_id r = x" "cn_testStatus q = cn_testStatus r" using q(2) by (auto split: if_splits)
    then show ?thesis using assms r(1) terminal_by_status [of q r] by (simp add: stuckAt_def)
  qed
  then show ?thesis by (simp add: stuckAt_def)
qed

lemma selectFrom_stuck:
  "stuckAt x status (sl_rows s) \<Longrightarrow> stuckAt x status (sl_rows (snd (selectFrom env sg opts provider model dw now available s)))"
  unfolding selectFrom_def pickByStrategy_def by (simp add: Let_def case_prod_unfold touch_stuck split: option.split)

lemma seen_rows_stuck:
  assumes seen: "stuckAt x status seen" and now: "stuckAt x status (sl_rows s)"
  shows "stuckAt x status (sl_rows (snd (selectSeen env sg facts opts provider allowed model dw now seen s)))"
proof -
  have decay: "stuckAt x status (map (\<lambda>c. if cn_id c \<in> A then resetConnectionBackoff c else c) (sl_rows s))" if A: "x \<notin> A" for A
  proof -
    have "cn_testStatus q = Some status \<and> isTerminalConnectionStatus q"
      if q: "q \<in> set (map (\<lambda>c. if cn_id c \<in> A then resetConnectionBackoff c else c) (sl_rows s))" "cn_id q = x" for q
    proof -
      obtain r where r: "r \<in> set (sl_rows s)" "q = (if cn_id r \<in> A then resetConnectionBackoff r else r)"
        using q(1) unfolding set_map by blast
      then have "cn_id r = x" using q(2) by (auto simp: resetConnectionBackoff_def split: if_splits)
      then have "q = r" using r(2) A by simp
      then show ?thesis using now r(1) \<open>cn_id r = x\<close> by (auto simp: stuckAt_def)
    qed
    then show ?thesis unfolding stuckAt_def by blast
  qed
  have kept: "x \<notin> cn_id ` {c \<in> set seen. P c \<and> decays c now}" for P
    using seen by (auto simp: stuckAt_def decays_def)
  have ids: "x \<notin> set (map cn_id (filter (\<lambda>c. decays c now) (filter Q (filter cn_isActive (filter R seen)))))" for Q R
    using kept [of "\<lambda>_. True"] by auto
  show ?thesis unfolding selectSeen_def Let_def case_prod_unfold
    using now by (auto simp: selectFrom_stuck decay [OF ids] simp del: set_map set_filter filter_filter map_map)
qed

lemma select_not_stuck:
  assumes "stuckAt x status seen" and "\<not> so_allowSuppressed opts"
    and sel: "fst (selectSeen env sg facts opts provider allowed model dw now seen s) = Selected c"
  shows "cn_id c \<noteq> x"
proof -
  have "\<not> pf_noAuth facts" using sel by (auto simp: selectSeen_def split: if_splits)
  from seen_cases [OF this, where env = env and sg = sg and opts = opts and provider = provider and allowed = allowed
      and model = model and dw = dw and now = now and s = s and seen = seen]
  obtain r where r: "r \<in> set seen" "c = decayBackoff now r" "eligible env opts provider model now r" using sel by auto
  then have "\<not> isTerminalConnectionStatus r" using assms(2) by (simp add: eligible_def)
  then show ?thesis using assms(1) r(1,2) by (auto simp: stuckAt_def)
qed

lemma load_not_stuck:
  assumes "stuckAt x status (as_rows s)" and "r \<in> set (loadRecoverable now s)"
  shows "cn_id r \<noteq> x"
proof -
  have "r \<in> set (as_rows s)" "normalizeStatus (cn_testStatus r) = ''unavailable''"
    using assms(2) by (auto simp: loadRecoverable_def selectRecoverableConnections_def isRecoverableCooldownConnection_def)
  then show ?thesis using assms(1) by (auto simp: stuckAt_def isTerminalConnectionStatus_def)
qed

lemma clear_stuck:
  assumes "stuckAt x status (as_rows s)" and "c \<noteq> x"
  shows "stuckAt x status (as_rows (clearAccountError c seen s))"
  using assms other_rows [of clearedRow c x status s] by (simp add: clearAccountError_def clearedRow_def resetConnectionBackoff_def)

lemma response_stuck:
  assumes "stuckAt x status (as_rows s)"
  shows "stuckAt x status (as_rows (snd (persistCodexQuotaState c quota d model st now s)))"
    and "stuckAt x status (as_rows (codexFailover c model wait now s))"
proof -
  have u: "stuckAt x status (as_rows (updateRow c f u))"
    if "stuckAt x status (as_rows u)" "\<And>r. cn_id (f r) = cn_id r" "\<And>r. cn_testStatus (f r) = cn_testStatus r" for c f u
    by (rule stuck_update) (use that in auto)
  show "stuckAt x status (as_rows (snd (persistCodexQuotaState c quota d model st now s)))"
    unfolding persistCodexQuotaState_def by (simp add: u assms split: option.split)
  have scope: "stuckAt x status (as_rows (markCodexScopeRateLimited c model until s))" for c until
    unfolding markCodexScopeRateLimited_def by (rule u [OF assms]) simp_all
  show "stuckAt x status (as_rows (codexFailover c model wait now s))"
    unfolding codexFailover_def Let_def setConnectionRateLimitUntil_def by (simp add: u scope)
qed

text \<open>The ids of the rows stay.\<close>

lemma ids_touch [simp]: "cn_id ` set (touchConnection x n t rows) = cn_id ` set rows"
  unfolding touchConnection_def by (rule ids_map) simp

lemma ids_selectFrom: "cn_id ` set (sl_rows (snd (selectFrom env sg opts provider model dw now available s))) = cn_id ` set (sl_rows s)"
  unfolding selectFrom_def pickByStrategy_def by (simp add: Let_def case_prod_unfold split: option.split)

lemma ids_seen: "cn_id ` set (sl_rows (snd (selectSeen env sg facts opts provider allowed model dw now seen s))) = cn_id ` set (sl_rows s)"
proof -
  have "cn_id ` set (map (\<lambda>c. if P c then resetConnectionBackoff c else c) cs) = cn_id ` set cs" for P cs
    by (rule ids_map) (simp add: resetConnectionBackoff_def)
  then show ?thesis unfolding selectSeen_def by (simp add: Let_def case_prod_unfold ids_selectFrom del: set_map)
qed

text \<open>Nothing is under way that has read the account, and what is known of it where something has.\<close>

definition nothingOld :: "string \<Rightarrow> account_world \<Rightarrow> bool" where
  "nothingOld x w \<longleftrightarrow>
     (\<forall>rows \<in> set (aw_selections w). x \<notin> cn_id ` set rows)
     \<and> (\<forall>m \<in> set (aw_marks w). fst m \<noteq> x \<and> (\<forall>r. snd m = Some r \<longrightarrow> cn_id r = fst m))
     \<and> x \<notin> cn_id ` set (aw_ticks w) \<and> x \<notin> cn_id ` set (aw_requests w)"

definition outInv :: "string \<Rightarrow> string \<Rightarrow> account_world \<Rightarrow> bool" where
  "outInv x status w \<longleftrightarrow>
     x \<in> idsOf (aw_accounts w) \<and> stuckAt x status (as_rows (aw_accounts w))
     \<and> (\<forall>rows \<in> set (aw_selections w). stuckAt x status rows)
     \<and> (\<forall>m \<in> set (aw_marks w). (\<forall>r. snd m = Some r \<longrightarrow> cn_id r = fst m)
          \<and> (fst m = x \<longrightarrow> (\<exists>r. snd m = Some r \<and> isTerminalConnectionStatus r)))
     \<and> x \<notin> cn_id ` set (aw_ticks w) \<and> x \<notin> cn_id ` set (aw_requests w)"

lemma out_accounts:
  assumes "outInv x status w" and "stuckAt x status (as_rows a)" and "idsOf a = idsOf (aw_accounts w)"
  shows "outInv x status (w\<lparr>aw_accounts := a\<rparr>)"
  using assms by (simp add: outInv_def)

lemma read_terminal:
  assumes "x \<in> idsOf s" and "stuckAt x status (as_rows s)"
  shows "\<exists>r. readAccount x s = Some r \<and> isTerminalConnectionStatus r"
proof (cases "readAccount x s")
  case None
  then show ?thesis using assms(1) by (auto simp: readAccount_def idsOf_def find_None_iff)
next
  case (Some r)
  then have "r \<in> set (as_rows s)" "cn_id r = x" by (auto simp: readAccount_def find_Some_iff)
  then show ?thesis using assms(2) Some by (auto simp: stuckAt_def)
qed

lemma answer_out:
  assumes inv: "outInv x status w" and seen: "stuckAt x status seen" and opts: "\<not> so_allowSuppressed (sr_options q)"
    and r: "answerSelection seen q now w = (answer, w')"
  shows "outInv x status w'" and "answer = Selected c \<Longrightarrow> cn_id c \<noteq> x"
proof -
  define p where "p = selectSeen ((sr_env q)\<lparr>sv_locks := as_locks (aw_accounts w)\<rparr>) (sr_settings q) (sr_facts q) (sr_options q)
            (sr_provider q) (sr_allowed q) (sr_model q) (sr_draws q) now seen
            \<lparr>sl_rows = as_rows (aw_accounts w), sl_pins = aw_pins w, sl_decks = aw_decks w\<rparr>"
  have out: "cn_id c \<noteq> x" if "answer = Selected c" for c
    by (rule select_not_stuck [OF seen opts]) (use r that in \<open>auto simp: answerSelection_def Let_def case_prod_unfold\<close>)
  then show "answer = Selected c \<Longrightarrow> cn_id c \<noteq> x" .
  have rows: "stuckAt x status (sl_rows (snd p))" "cn_id ` set (sl_rows (snd p)) = cn_id ` set (as_rows (aw_accounts w))"
    using inv by (simp_all add: p_def seen_rows_stuck [OF seen] ids_seen outInv_def)
  have "answer = fst p" "w' = w\<lparr>aw_accounts := (aw_accounts w)\<lparr>as_rows := sl_rows (snd p)\<rparr>, aw_pins := sl_pins (snd p), aw_decks := sl_decks (snd p),
            aw_requests := (case fst p of Selected c \<Rightarrow> aw_requests w @ [c] | _ \<Rightarrow> aw_requests w)\<rparr>"
    using r by (auto simp: answerSelection_def p_def [symmetric] Let_def case_prod_unfold)
  then show "outInv x status w'" using inv rows out by (auto simp: outInv_def idsOf_def split: selection.split)
qed

lemma step_out:
  assumes inv: "outInv x status w" and opts: "\<And>i q now. step = AnswerSelection i q now \<Longrightarrow> \<not> so_allowSuppressed (sr_options q)"
  shows "outInv x status (snd (accountStep step w)) \<and> (\<forall>c. Selected c \<in> set (fst (accountStep step w)) \<longrightarrow> cn_id c \<noteq> x)"
proof (cases step)
  case ReadRows
  then show ?thesis using inv by (auto simp: outInv_def)
next
  case (AnswerSelection i q now)
  show ?thesis
  proof (cases "i < length (aw_selections w)")
    case True
    obtain answer w' where r: "answerSelection (aw_selections w ! i) q now (w\<lparr>aw_selections := dropAt i (aw_selections w)\<rparr>) = (answer, w')"
      by (rule prod.exhaust)
    have "outInv x status (w\<lparr>aw_selections := dropAt i (aw_selections w)\<rparr>)"
      using inv set_dropAt [of i "aw_selections w"] by (auto simp: outInv_def)
    moreover have "stuckAt x status (aw_selections w ! i)" using inv True by (simp add: outInv_def)
    ultimately show ?thesis using answer_out [OF _ _ opts [OF AnswerSelection] r, of x status] True AnswerSelection by (auto simp: r)
  next
    case False
    then show ?thesis using inv AnswerSelection by simp
  qed
next
  case (ReadMark c)
  have "cn_id r = c" if "readAccount c (aw_accounts w) = Some r" for r using that by (auto simp: readAccount_def find_Some_iff)
  then show ?thesis using ReadMark inv read_terminal [of x "aw_accounts w" status] by (auto simp: outInv_def)
next
  case (WriteMark i env f now)
  have "stuckAt x status (as_rows (snd (markSeen env f (fst (aw_marks w ! i)) (snd (aw_marks w ! i)) now (aw_accounts w))))"
    if "i < length (aw_marks w)"
    by (rule seen_keeps_stuck) (use inv nth_mem [OF that] in \<open>auto simp: outInv_def\<close>)
  then show ?thesis using WriteMark inv set_dropAt [of i "aw_marks w"] by (auto simp: outInv_def idsOf_mark)
next
  case (LoadTick now)
  have "x \<notin> cn_id ` set (loadRecoverable now (aw_accounts w))" using inv load_not_stuck [of x status "aw_accounts w"] by (auto simp: outInv_def)
  then show ?thesis using LoadTick inv by (auto simp: outInv_def image_Un)
next
  case (ClearNext i)
  have "cn_id (aw_ticks w ! i) \<noteq> x" if "i < length (aw_ticks w)" using inv nth_mem [OF that] by (auto simp: outInv_def)
  then show ?thesis using ClearNext inv clear_stuck [of x status "aw_accounts w"] set_dropAt [of i "aw_ticks w"]
    by (auto simp: outInv_def recoverConnection_def clearAccountError_def idsOf_update clearedRow_def resetConnectionBackoff_def)
next
  case (RequestSucceeds i)
  have id: "cn_id (aw_requests w ! i) \<noteq> x" if "i < length (aw_requests w)" using inv nth_mem [OF that] by (auto simp: outInv_def)
  have "stuckAt x status (as_rows (snd (clearRecoveredProviderState (Some (aw_requests w ! i)) None (aw_accounts w))))"
    "idsOf (snd (clearRecoveredProviderState (Some (aw_requests w ! i)) None (aw_accounts w))) = idsOf (aw_accounts w)"
    if "i < length (aw_requests w)"
    using inv clear_stuck [OF _ id [OF that], of status "aw_accounts w"]
    by (simp_all add: clearRecoveredProviderState_def outInv_def clearAccountError_def idsOf_update clearedRow_def resetConnectionBackoff_def)
  then show ?thesis using RequestSucceeds out_accounts [OF inv] inv by auto
next
  case (PreflightBlocks i resetAt now)
  let ?g = "\<lambda>r. r\<lparr>cn_rateLimitedUntil := Some (quotaPreflightUnavailableUntil resetAt now), cn_testStatus := Some ''unavailable'',
      cn_lastError := Some ''Quota preflight blocked'', cn_lastErrorType := Some ''quota_exhausted'',
      cn_lastErrorSource := Some ''quota_preflight'', cn_errorCode := Some 429, cn_lastErrorAt := Some now\<rparr>"
  have id: "cn_id (aw_requests w ! i) \<noteq> x" if "i < length (aw_requests w)" using inv nth_mem [OF that] by (auto simp: outInv_def)
  have a: "(aw_accounts w)\<lparr>as_rows := sl_rows (snd (markQuotaPreflightAccountUnavailable c resetAt now
        \<lparr>sl_rows = as_rows (aw_accounts w), sl_pins = aw_pins w, sl_decks = aw_decks w\<rparr>))\<rparr> = updateRow c ?g (aw_accounts w)" for c
    by (simp add: markQuotaPreflightAccountUnavailable_def Let_def updateRow_def)
  have "outInv x status (w\<lparr>aw_accounts := updateRow (cn_id (aw_requests w ! i)) ?g (aw_accounts w)\<rparr>)" if "i < length (aw_requests w)"
    by (rule out_accounts [OF inv]) (use inv other_rows [of ?g, OF _ id [OF that]] in \<open>simp_all add: outInv_def idsOf_update\<close>)
  then show ?thesis using PreflightBlocks inv by (simp add: a)
next
  case (CodexResponse c quota d model st now)
  have "idsOf (snd (persistCodexQuotaState c quota d model st now (aw_accounts w))) = idsOf (aw_accounts w)"
    by (simp add: persistCodexQuotaState_def idsOf_update split: option.split)
  then show ?thesis using CodexResponse out_accounts [OF inv] response_stuck(1) inv by (simp add: outInv_def)
next
  case (CodexFailover c model wait now)
  have "idsOf (codexFailover c model wait now (aw_accounts w)) = idsOf (aw_accounts w)"
    by (simp add: codexFailover_def Let_def setConnectionRateLimitUntil_def markCodexScopeRateLimited_def idsOf_update)
  then show ?thesis using CodexFailover out_accounts [OF inv] response_stuck(2) inv by (simp add: outInv_def)
qed

lemma run_out:
  assumes "outInv x status w"
    and "\<forall>step \<in> set steps. \<forall>i q now. step = AnswerSelection i q now \<longrightarrow> \<not> so_allowSuppressed (sr_options q)"
  shows "outInv x status (snd (accountRun steps w)) \<and> (\<forall>c. Selected c \<in> set (fst (accountRun steps w)) \<longrightarrow> cn_id c \<noteq> x)"
  using assms
proof (induction steps arbitrary: w)
  case (Cons step steps)
  have s: "outInv x status (snd (accountStep step w))" "\<forall>c. Selected c \<in> set (fst (accountStep step w)) \<longrightarrow> cn_id c \<noteq> x"
    using step_out [OF Cons.prems(1), of step] Cons.prems(2) by auto
  then show ?case using Cons.IH [OF s(1)] Cons.prems(2) by (auto simp: Let_def)
qed simp

text \<open>
  C3. A terminal account stays out. From a moment at which an account is banned, expired or out of credits, and at which no
  selection, mark, recovery tick or request that has read the account before is still under way, no selection answers it
  and its status stays what it is: whatever selections, failures of any kind, recovery ticks, successful requests, blocks
  of the preflight, responses of Codex and failovers follow and however they overlap at their awaits, as long as no selection asks for suppressed
  accounts, which only live tests do, and the read cache that every write empties agrees with the rows.
\<close>

theorem terminal_account_stays_out:
  assumes "x \<in> idsOf (aw_accounts w)" and "stuckAt x status (as_rows (aw_accounts w))" and "nothingOld x w"
    and "\<forall>step \<in> set steps. \<forall>i q now. step = AnswerSelection i q now \<longrightarrow> \<not> so_allowSuppressed (sr_options q)"
  shows "stuckAt x status (as_rows (aw_accounts (snd (accountRun steps w))))
    \<and> (\<forall>c. Selected c \<in> set (fst (accountRun steps w)) \<longrightarrow> cn_id c \<noteq> x)"
proof -
  have "stuckAt x status rows" if "x \<notin> cn_id ` set rows" for rows using that by (auto simp: stuckAt_def)
  then have "outInv x status w" using assms(1-3) by (auto simp: outInv_def nothingOld_def)
  from run_out [OF this assms(4)] show ?thesis by (simp add: outInv_def)
qed

section \<open>A clear that undoes a ban\<close>

text \<open>
  C34. The recovery tick clears what it has seen, not what is there. When an account that a tick has loaded as
  recoverable becomes terminal before the tick reaches it, the tick makes it active again, without error and without
  cooldown, so that it is selected anew; the conditional clear that the recovery of quotas uses leaves it alone.
\<close>

theorem recovery_erases_ban:
  assumes "r \<in> set (loadRecoverable t0 s)" and "stuckAt (cn_id r) status (as_rows s')"
  shows "(\<forall>q \<in> set (as_rows (recoverConnection r s')). cn_id q = cn_id r \<longrightarrow>
      \<not> isTerminalConnectionStatus q \<and> cn_testStatus q = Some ''active'' \<and> cn_rateLimitedUntil q = None \<and> cn_lastError q = None)
    \<and> clearConnectionErrorIfUnchanged (cn_id r) r s' = (False, s')"
proof (intro conjI ballI impI)
  have st: "normalizeStatus (cn_testStatus r) = ''unavailable''"
    using assms(1) by (simp add: loadRecoverable_def selectRecoverableConnections_def isRecoverableCooldownConnection_def)
  have words: "normalizeStatus None \<noteq> ''unavailable''" "normalizeStatus (Some []) \<noteq> ''unavailable''" "normalizeStatus (Some ''active'') \<noteq> ''unavailable''"
    "normalizeStatus (Some ''active'') = ''active''" by code_simp+
  have "\<not> noText (cn_testStatus r)" using st words(1,2) by (cases "cn_testStatus r") (auto simp: noText_def)
  then have "hasErrorState r" using st words(3) by (auto simp: hasErrorState_def)
  then have run: "recoverConnection r s' = updateRow (cn_id r) clearedRow s'" by (simp add: recoverConnection_def clearAccountError_def)
  fix q
  assume "q \<in> set (as_rows (recoverConnection r s'))" "cn_id q = cn_id r"
  then obtain p where "q = clearedRow p"
    unfolding run updateRow_def by (auto simp: clearedRow_def resetConnectionBackoff_def split: if_splits)
  then show "\<not> isTerminalConnectionStatus q" "cn_testStatus q = Some ''active''" "cn_rateLimitedUntil q = None" "cn_lastError q = None"
    using words(4) by (simp_all add: clearedRow_def resetConnectionBackoff_def isTerminalConnectionStatus_def)
next
  have st: "normalizeStatus (cn_testStatus r) = ''unavailable''"
    using assms(1) by (simp add: loadRecoverable_def selectRecoverableConnections_def isRecoverableCooldownConnection_def)
  have "\<not> unchangedSince r q" if "q \<in> set (as_rows s')" "cn_id q = cn_id r" for q
  proof
    assume "unchangedSince r q"
    then have "normalizeStatus (cn_testStatus q) = normalizeStatus (cn_testStatus r)" by (simp add: unchangedSince_def normalizeStatus_def)
    moreover have "isTerminalConnectionStatus q" using that assms(2) unfolding stuckAt_def by blast
    ultimately show False using st by (auto simp: isTerminalConnectionStatus_def)
  qed
  then show "clearConnectionErrorIfUnchanged (cn_id r) r s' = (False, s')" by (auto simp: clearConnectionErrorIfUnchanged_def)
qed

section \<open>Codex scopes\<close>

text \<open>A 429 of Codex for a model that does not end the account.\<close>

definition codex429 :: "string \<Rightarrow> mark_env \<times> account_failure \<times> millis \<Rightarrow> bool" where
  "codex429 model e \<longleftrightarrow> (case e of (env, f, now) \<Rightarrow>
     ff_status f = 429 \<and> ff_provider f = Some ''codex'' \<and> ff_model f = Some model \<and> model \<noteq> []
     \<and> (\<forall>b. fb_shouldFallback (ff_fallback f b) \<and> resolveTerminalConnectionStatus env 429 (ff_fallback f b) (ff_errorType f) (Some ''codex'') = None))"

text \<open>The scope of the model has been limited before, and that is over at time \<open>t\<close>, as is every cooldown.\<close>

definition limitedBefore :: "string \<Rightarrow> millis \<Rightarrow> connection \<Rightarrow> bool" where
  "limitedBefore model t r \<longleftrightarrow> \<not> isTerminalConnectionStatus r
     \<and> (case cooldownUntilMs (cn_rateLimitedUntil r) of None \<Rightarrow> True | Some u \<Rightarrow> u \<le> t)
     \<and> (\<exists>d u. getCodexScopeRateLimitedUntil (cn_data r) (Some model) = Some d \<and> dt_date d = Some u \<and> u \<le> t)"

fun markRun :: "string \<Rightarrow> (mark_env \<times> account_failure \<times> millis) list \<Rightarrow> account_state \<Rightarrow> mark_answer list \<times> account_state" where
  "markRun c [] s = ([], s)"
| "markRun c ((env, f, now) # es) s =
     (let r = markAccountUnavailable env f c now s; t = markRun c es (snd r) in (fst r # fst t, snd t))"

lemma limited_mark:
  assumes find: "find (\<lambda>r. cn_id r = c) (as_rows s) = Some r" and lim: "limitedBefore model t r"
    and f: "codex429 model (env, f, now)" and late: "t \<le> now"
  shows "\<exists>r' s'. markAccountUnavailable env f c now s = (\<lparr>ma_shouldFallback = True, ma_cooldownMs = 0\<rparr>, s')
    \<and> find (\<lambda>r. cn_id r = c) (as_rows s') = Some r' \<and> limitedBefore model t r' \<and> as_locks s' = as_locks s"
proof -
  obtain d u where d: "getCodexScopeRateLimitedUntil (cn_data r) (Some model) = Some d" "dt_date d = Some u" "u \<le> t"
    using lim by (auto simp: limitedBefore_def)
  have ff: "ff_status f = 429" "ff_provider f = Some ''codex''" "ff_model f = Some model" "model \<noteq> []"
    "fb_shouldFallback (ff_fallback f b)" "resolveTerminalConnectionStatus env 429 (ff_fallback f b) (ff_errorType f) (Some ''codex'') = None" for b
    using f by (auto simp: codex429_def)
  have id: "cn_id r = c" using find by (auto simp: find_Some_iff)
  have guard: "\<not> isTerminalConnectionStatus r" "parseFutureDateMs (cn_rateLimitedUntil r) now = None" "scopeRunning r (Some model) now = None"
    using lim late d by (auto simp: limitedBefore_def parseFutureDateMs_def scopeRunning_def split: option.splits)
  define g where "g = (\<lambda>row :: connection. row\<lparr>cn_testStatus := Some ''unavailable'', cn_lastError := Some (take 100 (ff_text f)),
     cn_errorCode := Some (429::int), cn_lastErrorAt := Some now, cn_backoffLevel := nullish (fb_newBackoffLevel (ff_fallback f (cn_backoffLevel r))) (cn_backoffLevel r),
     cn_data := (cn_data r)\<lparr>psd_codexScopeUntil := jset (codexScopeOf (Some model)) d (psd_codexScopeUntil (cn_data r))\<rparr>\<rparr>)"
  have "max (u - now) 0 = 0" using d(3) late by simp
  then have scope: "limitCodexScope env f (ff_fallback f (cn_backoffLevel r)) r model cd now s
      = (\<lparr>ma_shouldFallback = True, ma_cooldownMs = 0\<rparr>, updateRow c g s)" for cd
    using d id ff(1) unfolding limitCodexScope_def Let_def g_def by simp
  have "markFailure env f c (Some r) now s = (\<lparr>ma_shouldFallback = True, ma_cooldownMs = 0\<rparr>, updateRow c g s)"
    unfolding markFailure_def Let_def by (simp add: ff scope noText_def)
  then have run: "markAccountUnavailable env f c now s = (\<lparr>ma_shouldFallback = True, ma_cooldownMs = 0\<rparr>, updateRow c g s)"
    using find guard ff by (simp add: markAccountUnavailable_def readAccount_def markSeen_def)
  have "find (\<lambda>r. cn_id r = c) (as_rows (updateRow c g s)) = Some (g r)"
    using find_updateRow [of g c s] find by (simp add: g_def)
  moreover have "normalizeStatus (Some ''unavailable'') = ''unavailable''" by code_simp
  then have "limitedBefore model t (g r)"
    using lim d ff(4) by (auto simp: limitedBefore_def g_def isTerminalConnectionStatus_def getCodexScopeRateLimitedUntil_def noText_def)
  ultimately show ?thesis using run by simp
qed

text \<open>
  C35. A scope of Codex is limited only once. When a 429 without quota headers arrives for a scope that was limited before
  and whose time is over, the mark takes the old time for the new one: it reports a cooldown of 0 and records nothing
  that keeps the account from being selected; and so does every later one, so that the account stays selectable for the
  model however often it is refused.
\<close>

theorem codex_scope_limited_once:
  assumes "find (\<lambda>r. cn_id r = c) (as_rows s) = Some r" and "limitedBefore model t r"
    and "\<forall>e \<in> set es. codex429 model e \<and> t \<le> snd (snd e)"
  shows "fst (markRun c es s) = replicate (length es) \<lparr>ma_shouldFallback = True, ma_cooldownMs = 0\<rparr>
    \<and> as_locks (snd (markRun c es s)) = as_locks s
    \<and> (\<exists>r'. find (\<lambda>r. cn_id r = c) (as_rows (snd (markRun c es s))) = Some r' \<and> \<not> isTerminalConnectionStatus r'
        \<and> (\<forall>now \<ge> t. \<not> isAccountUnavailable (cn_rateLimitedUntil r') now \<and> \<not> isCodexScopeUnavailable r' (Some model) now))"
proof -
  have selectable: "\<not> isTerminalConnectionStatus q \<and> (\<forall>now \<ge> t. \<not> isAccountUnavailable (cn_rateLimitedUntil q) now \<and> \<not> isCodexScopeUnavailable q (Some model) now)"
    if "limitedBefore model t q" for q
    using that by (auto simp: limitedBefore_def isAccountUnavailable_def isCodexScopeUnavailable_def split: option.splits)
  have "fst (markRun c es s) = replicate (length es) \<lparr>ma_shouldFallback = True, ma_cooldownMs = 0\<rparr>
    \<and> as_locks (snd (markRun c es s)) = as_locks s
    \<and> (\<exists>r'. find (\<lambda>r. cn_id r = c) (as_rows (snd (markRun c es s))) = Some r' \<and> limitedBefore model t r')"
    using assms
  proof (induction es arbitrary: s r)
    case Nil
    then show ?case by simp
  next
    case (Cons e es)
    obtain env f now where e: "e = (env, f, now)" by (cases e) auto
    have "codex429 model (env, f, now)" "t \<le> now" using Cons.prems(3) e by auto
    from limited_mark [OF Cons.prems(1,2) this] obtain r' s' where
      m: "markAccountUnavailable env f c now s = (\<lparr>ma_shouldFallback = True, ma_cooldownMs = 0\<rparr>, s')"
        "find (\<lambda>r. cn_id r = c) (as_rows s') = Some r'" "limitedBefore model t r'" "as_locks s' = as_locks s" by auto
    have "\<forall>e \<in> set es. codex429 model e \<and> t \<le> snd (snd e)" using Cons.prems(3) by simp
    from Cons.IH [OF m(2,3) this] show ?case using m(1,4) by (simp add: e Let_def)
  qed
  then show ?thesis using selectable by blast
qed

text \<open>
  C36. A response can erase the limit of another. The data of an account is written as the request found it when it was
  selected: when a second request, selected before a 429 with quota headers has limited the scope, gets a response with
  headers and another status, its write restores the data from before, so that nothing of the 429 is left although its
  mark has reported the cooldown and found nothing more to do.
\<close>

theorem response_erases_codex_limit:
  assumes d: "\<forall>r \<in> set (as_rows s). cn_id r = c \<longrightarrow> cn_data r = d" and "c \<in> cn_id ` set (as_rows s)"
    and free: "\<forall>r \<in> set (as_rows s). cn_id r = c \<longrightarrow> \<not> isTerminalConnectionStatus r \<and> parseFutureDateMs (cn_rateLimitedUntil r) t2 = None"
    and q: "getCodexDualWindowCooldownMs qa (95 / 100) t1 = (cd, w)" "t2 < t1 + cd" "t1 \<le> t2"
    and f: "codex429 model (env, f, t2)" and st: "status \<noteq> 429"
    and s1: "s1 = snd (persistCodexQuotaState c (Some qa) d model 429 t1 s)"
    and m: "markAccountUnavailable env f c t2 s1 = (answer, s2)"
  shows "answer = \<lparr>ma_shouldFallback = True, ma_cooldownMs = t1 + cd - t2\<rparr>
    \<and> snd (persistCodexQuotaState c (Some qb) d model' status t3 s2) = s"
proof -
  define d' where "d' = d\<lparr>psd_codexScopeUntil := jset (codexScopeOf (Some model)) (isoText (t1 + cd)) (psd_codexScopeUntil d)\<rparr>"
  have "0 < cd" using q by simp
  then have s1': "s1 = updateRow c (\<lambda>r. r\<lparr>cn_data := d'\<rparr>) s"
    using q(1) by (simp add: s1 persistCodexQuotaState_def buildCodexQuotaPersistence_def d'_def)
  obtain r where r: "find (\<lambda>r. cn_id r = c) (as_rows s) = Some r" using assms(2) by (cases "find (\<lambda>r. cn_id r = c) (as_rows s)") (auto simp: find_None_iff)
  then have rs: "r \<in> set (as_rows s)" "cn_id r = c" by (auto simp: find_Some_iff)
  have find: "find (\<lambda>r. cn_id r = c) (as_rows s1) = Some (r\<lparr>cn_data := d'\<rparr>)"
    using find_updateRow [of "\<lambda>r. r\<lparr>cn_data := d'\<rparr>" c s] r by (simp add: s1')
  have ff: "ff_status f = 429" "ff_provider f = Some ''codex''" "ff_model f = Some model" "model \<noteq> []" using f by (auto simp: codex429_def)
  have "scopeRunning (r\<lparr>cn_data := d'\<rparr>) (Some model) t2 = Some (t1 + cd)"
    using ff(4) q(2) by (simp add: scopeRunning_def getCodexScopeRateLimitedUntil_def noText_def d'_def)
  moreover have "\<not> isTerminalConnectionStatus (r\<lparr>cn_data := d'\<rparr>)" "parseFutureDateMs (cn_rateLimitedUntil r) t2 = None"
    using free rs by (auto simp: isTerminalConnectionStatus_def)
  ultimately have run: "markAccountUnavailable env f c t2 s1 = (\<lparr>ma_shouldFallback = True, ma_cooldownMs = t1 + cd - t2\<rparr>, s1)"
    using find ff by (simp add: markAccountUnavailable_def readAccount_def markSeen_def noText_def)
  have "snd (persistCodexQuotaState c (Some qb) d model' status t3 s1) = updateRow c (\<lambda>r. r\<lparr>cn_data := d\<rparr>) s1"
    using st by (simp add: persistCodexQuotaState_def buildCodexQuotaPersistence_def case_prod_unfold)
  also have "\<dots> = s"
  proof -
    have "map (\<lambda>r. if cn_id r = c then r\<lparr>cn_data := d\<rparr> else r) (map (\<lambda>r. if cn_id r = c then r\<lparr>cn_data := d'\<rparr> else r) (as_rows s)) = as_rows s"
      unfolding map_map using d by (intro map_idI) auto
    then show ?thesis by (simp add: s1' updateRow_def)
  qed
  finally show ?thesis using run m by simp
qed

section \<open>Examples\<close>

definition plainMarkEnv :: mark_env where
  "plainMarkEnv = \<lparr>mk_registry = \<lparr>sections = [], passthrough = [], oauthProviders = []\<rparr>, mk_webCookie = [], mk_profile = None,
     mk_maxCooldownMs = None, mk_midnight = 3600000, mk_autoDisable = False, mk_quota = emptyQuotaCache\<rparr>"

definition plainFailure :: "int \<Rightarrow> bool \<Rightarrow> account_failure" where
  "plainFailure status permanent =
     \<lparr>ff_status = status, ff_text = ''refused'', ff_resourceMissing = False,
      ff_fallback = (\<lambda>b. \<lparr>fb_shouldFallback = True, fb_cooldownMs = 60000, fb_baseCooldownMs = None, fb_newBackoffLevel = Some (b + 1),
        fb_reason = Some ''rate_limit_exceeded'', fb_usedUpstreamRetryHint = False, fb_quotaResetHintMs = None, fb_permanent = permanent,
        fb_creditsExhausted = False\<rparr>),
      ff_errorType = None, ff_provider = Some ''codex'', ff_model = Some ''gpt-5'', ff_persist = True\<rparr>"

definition coolingAccount :: connection where
  "coolingAccount = (account ''a'' None 0)\<lparr>cn_testStatus := Some ''unavailable'', cn_rateLimitedUntil := Some (isoText 500)\<rparr>"

definition oneAccount :: "connection \<Rightarrow> account_state" where
  "oneAccount r = \<lparr>as_rows = [r], as_locks = noLockouts\<rparr>"

definition fullFiveHours :: codex_snapshot where
  "fullFiveHours = \<lparr>cx_usage5h = 100, cx_limit5h = Some 100, cx_resetAt5h = Some (isoText 90000), cx_usage7d = 0, cx_limit7d = Some 100,
     cx_resetAt7d = None\<rparr>"

lemma terminal_account_stays_out_witness:
  "list_all (\<lambda>answer. case answer of Selected c \<Rightarrow> cn_id c \<noteq> ''a'' | _ \<Rightarrow> True) (fst (accountRun
      [ReadRows, ReadMark ''a'', LoadTick 15, WriteMark 0 plainMarkEnv (plainFailure 429 False) 20, ClearNext 0,
       AnswerSelection 0 \<lparr>sr_env = plainEnv emptyQuotaCache, sr_settings = plainSettings, sr_facts = plainFacts, sr_options = plainOptions,
         sr_provider = ''codex'', sr_allowed = None, sr_model = Some ''gpt-5'', sr_draws = plainDraws\<rparr> 30]
      \<lparr>aw_accounts = oneAccount ((account ''a'' None 0)\<lparr>cn_testStatus := Some ''banned''\<rparr>), aw_pins = [], aw_decks = [],
       aw_selections = [], aw_marks = [], aw_ticks = [], aw_requests = []\<rparr>))"
  (is "list_all ?ok (fst (accountRun ?steps ?w))")
proof -
  have "stuckAt ''a'' ''banned'' [(account ''a'' None 0)\<lparr>cn_testStatus := Some ''banned''\<rparr>]" by code_simp
  then have stuck: "stuckAt ''a'' ''banned'' (as_rows (aw_accounts ?w))" by (simp add: oneAccount_def)
  have "''a'' \<in> idsOf (aw_accounts ?w)" by (simp add: idsOf_def oneAccount_def account_def)
  moreover have "nothingOld ''a'' ?w" by (simp add: nothingOld_def)
  moreover have "\<forall>step \<in> set ?steps. \<forall>i q now. step = AnswerSelection i q now \<longrightarrow> \<not> so_allowSuppressed (sr_options q)"
    by (simp add: plainOptions_def)
  ultimately have "\<forall>c. Selected c \<in> set (fst (accountRun ?steps ?w)) \<longrightarrow> cn_id c \<noteq> ''a''"
    by (intro conjunct2 [OF terminal_account_stays_out [OF _ stuck]])
  then show ?thesis by (auto simp: list_all_iff split: selection.split)
qed

lemma recovery_erases_ban_witness:
  "(let s = snd (markAccountUnavailable plainMarkEnv (plainFailure 403 True) ''a'' 600 (oneAccount coolingAccount))
    in map cn_testStatus (as_rows s) = [Some ''banned''] \<and> map cn_testStatus (as_rows (recoverConnection coolingAccount s)) = [Some ''active''])"
proof -
  define s where "s = snd (markAccountUnavailable plainMarkEnv (plainFailure 403 True) ''a'' 600 (oneAccount coolingAccount))"
  have "map cn_testStatus (as_rows s) = [Some ''banned'']" "map cn_id (as_rows s) = [''a'']" unfolding s_def by code_simp+
  then obtain q where q: "as_rows s = [q]" "cn_testStatus q = Some ''banned''" "cn_id q = ''a''" by auto
  have ban: "normalizeStatus (Some ''banned'') = ''banned''" by code_simp
  have id: "cn_id coolingAccount = ''a''" by code_simp
  have load: "coolingAccount \<in> set (loadRecoverable 550 (oneAccount coolingAccount))" by code_simp
  have "stuckAt (cn_id coolingAccount) ''banned'' (as_rows s)" using q ban id by (simp add: stuckAt_def isTerminalConnectionStatus_def)
  from recovery_erases_ban [OF load this]
  have "\<forall>p \<in> set (as_rows (recoverConnection coolingAccount s)). cn_id p = ''a'' \<longrightarrow> cn_testStatus p = Some ''active''" using id by simp
  moreover have "\<exists>p. as_rows (recoverConnection coolingAccount s) = [p] \<and> cn_id p = ''a''"
    using q by (auto simp: recoverConnection_def clearAccountError_def updateRow_def clearedRow_def resetConnectionBackoff_def)
  ultimately show ?thesis using q by (auto simp: s_def [symmetric] Let_def)
qed

lemma codex_scope_limited_once_witness:
  "fst (markRun ''a'' (map (\<lambda>now. (plainMarkEnv, plainFailure 429 False, now)) [1000, 2000, 3000])
     (oneAccount ((account ''a'' None 0)\<lparr>cn_data := plainProviderData\<lparr>psd_codexScopeUntil := [(CodexScope, isoText 500)]\<rparr>\<rparr>)))
   = replicate 3 \<lparr>ma_shouldFallback = True, ma_cooldownMs = 0\<rparr>"
proof -
  let ?r = "(account ''a'' None 0)\<lparr>cn_data := plainProviderData\<lparr>psd_codexScopeUntil := [(CodexScope, isoText 500)]\<rparr>\<rparr>"
  have "find (\<lambda>r. cn_id r = ''a'') (as_rows (oneAccount ?r)) = Some ?r" by (simp add: oneAccount_def account_def)
  moreover have "getCodexScopeRateLimitedUntil (cn_data ?r) (Some ''gpt-5'') = Some (isoText 500)" "\<not> isTerminalConnectionStatus ?r" by code_simp+
  then have "limitedBefore ''gpt-5'' 1000 ?r" by (auto simp: limitedBefore_def account_def cooldownUntilMs_def)
  moreover define es where "es = map (\<lambda>now. (plainMarkEnv, plainFailure 429 False, now :: int)) [1000, 2000, 3000]"
  then have "\<forall>e \<in> set es. codex429 ''gpt-5'' e \<and> 1000 \<le> snd (snd e)"
    by (simp add: codex429_def plainFailure_def resolveTerminalConnectionStatus_def)
  ultimately have "fst (markRun ''a'' es (oneAccount ?r)) = replicate (length es) \<lparr>ma_shouldFallback = True, ma_cooldownMs = 0\<rparr>"
    by (intro conjunct1 [OF codex_scope_limited_once])
  moreover have "length es = 3" by (simp add: es_def)
  ultimately show ?thesis by (simp only: es_def)
qed

lemma response_erases_codex_limit_witness:
  "let s1 = snd (persistCodexQuotaState ''a'' (Some fullFiveHours) plainProviderData ''gpt-5'' 429 1000 (oneAccount (account ''a'' None 0)));
       (answer, s2) = markAccountUnavailable plainMarkEnv (plainFailure 429 False) ''a'' 1100 s1
   in ma_cooldownMs answer = 88900
     \<and> snd (persistCodexQuotaState ''a'' (Some fullFiveHours) plainProviderData ''gpt-5'' 200 1200 s2) = oneAccount (account ''a'' None 0)"
proof -
  define s1 where "s1 = snd (persistCodexQuotaState ''a'' (Some fullFiveHours) plainProviderData ''gpt-5'' 429 1000 (oneAccount (account ''a'' None 0)))"
  obtain answer s2 where m: "markAccountUnavailable plainMarkEnv (plainFailure 429 False) ''a'' 1100 s1 = (answer, s2)" by (rule prod.exhaust)
  have w: "getCodexDualWindowCooldownMs fullFiveHours (95 / 100) 1000 = (89000, FiveHours)" by code_simp
  have "\<forall>r \<in> set (as_rows (oneAccount (account ''a'' None 0))). cn_id r = ''a'' \<longrightarrow> cn_data r = plainProviderData"
    by (simp add: oneAccount_def account_def)
  moreover have "''a'' \<in> cn_id ` set (as_rows (oneAccount (account ''a'' None 0)))" by (simp add: oneAccount_def account_def)
  moreover have "\<forall>r \<in> set (as_rows (oneAccount (account ''a'' None 0))). cn_id r = ''a'' \<longrightarrow>
      \<not> isTerminalConnectionStatus r \<and> parseFutureDateMs (cn_rateLimitedUntil r) 1100 = None" by code_simp
  moreover have "codex429 ''gpt-5'' (plainMarkEnv, plainFailure 429 False, 1100)"
    by (simp add: codex429_def plainFailure_def resolveTerminalConnectionStatus_def)
  ultimately have "answer = \<lparr>ma_shouldFallback = True, ma_cooldownMs = 1000 + 89000 - 1100\<rparr>
      \<and> snd (persistCodexQuotaState ''a'' (Some fullFiveHours) plainProviderData ''gpt-5'' 200 1200 s2) = oneAccount (account ''a'' None 0)"
    by (intro response_erases_codex_limit [OF _ _ _ w _ _ _ _ s1_def m]) simp_all
  then show ?thesis unfolding s1_def [symmetric] by (simp add: m Let_def)
qed

end
