(* ===== verification/Spec2Isabelle.thy ===== *)
theory Spec2Isabelle
  imports BreakerLaws AccountSemaphoreLaws ComboNesting ComboCompat CompositeTiers RateLimitLaws WorkflowLaws LockoutLaws SlidingWindow LockoutPolicy
    ProviderCooldown FailureTracker QuotaShareLaws ShuffleDeck RoundRobin FairShare TargetExhaustion
    CooldownWait Degradation LruCache SemanticCache IpFilter ResilienceWiring KeyHealthLaws BudgetLaws TokenLaws
    RefreshSerializer SqlTransactions RequestDedupLaws QuotaLaws SessionLaws
    QuotaCacheLaws SelectionLocks SelectionLaws AccountPreflight MarkingLaws
begin

text \<open>
  \<^bold>\<open>The program.\<close> AI Gate is a gateway in front of many LLM providers. A request names a model or
  a combo (a list of targets); the gateway picks a target, an account and a key for it, limits how
  many requests are in flight, and falls back to other targets when one fails. This development
  models the part that decides: the routing and resilience state, not the translation of requests
  or the network. Paths below are relative to the root of the repository.

  \<^bold>\<open>How the parts interact.\<close> A combo orders its targets (\<open>QuotaShare\<close>, \<open>RoundRobin\<close>,
  \<open>ShuffleDeck\<close>), skips those whose circuit is open (\<open>CircuitBreaker\<close>), whose model is locked
  (\<open>ModelLockout\<close>), whose provider cools down (\<open>ProviderCooldown\<close>) or which this request has
  exhausted (\<open>TargetExhaustion\<close>), takes a slot of the account or of the model (\<open>AccountSemaphore\<close>,
  \<open>RateLimitSemaphore\<close>), and dispatches. A failure is classified (\<open>ComboPredicates\<close>), recorded in the
  breaker, the lockouts, the cooldowns and the failure streak (\<open>FailureTracker\<close>); when all targets
  have failed a short cooldown may be waited out (\<open>CooldownWait\<close>). Beside this path stand the
  sliding-window limiter, the login lockout, the quota engine, the workflow state machine and the
  registry of degraded services. Before any of this, stored combos are normalised (\<open>ComboSteps\<close>), their
  nesting and tiers validated and expanded (\<open>ComboStructure\<close>, \<open>CompositeTiers\<close>), the targets filtered by
  what the request needs (\<open>ComboCompat\<close>); an identical earlier request may be answered from the cache
  (\<open>SemanticCache\<close> over \<open>LruCache\<close>); the address of the client is checked (\<open>IpFilter\<close>); and every
  threshold, wait and cooldown comes from stored settings (\<open>ResilienceSettings\<close>, \<open>LockoutSettings\<close>,
  \<open>ComboConfig\<close>), which \<open>ResilienceWiring\<close> carries into the breaker, the lockouts and the waits. The caller's
  API key is checked against its budget (\<open>Budgets\<close> over \<open>SpendWriter\<close>) and its token limits (\<open>TokenLimits\<close>), both
  in windows of \<open>BudgetWindow\<close>; the connection chosen rotates its provider keys (\<open>KeyRotator\<close>), its OAuth token
  is refreshed one sibling at a time (\<open>RefreshSerializer\<close>), and what is stored goes through the transactions of
  the adapters (\<open>SqlTransactions\<close>). A key of a quota pool (\<open>QuotaPools\<close>) passes the gate of \<open>QuotaEnforce\<close>, which
  reads the plan (\<open>QuotaPlans\<close>) and the consumption (\<open>QuotaStore\<close>) and asks \<open>FairShare\<close>; the request itself may join
  an equal one that is on its way (\<open>RequestDedup\<close>). Its session counts against the limit of its key
  (\<open>SessionManager\<close>). The account of the provider is selected (\<open>AccountSelection\<close>, one at a time under \<open>SelectionLocks\<close>)
  among those that no rule excludes (\<open>ConnectionRules\<close>), no model lock closes (\<open>ModelLockout\<close>) and no known quota has run out for
  (\<open>QuotaCache\<close>), by the pin of the session (\<open>SessionAffinity\<close>) or by a strategy; its quota is then asked live (\<open>AccountPreflight\<close>) and
  another account selected while it has run out. What becomes of an account whose request failed, and how it recovers,
  is \<open>AccountMarking\<close>.

  \<^bold>\<open>Theories.\<close> A theory \<open>X\<close> with a companion \<open>XLaws\<close> holds the model, the companion the lemmas.
  \<^item> \<open>Prelude\<close>: the ordered map of JavaScript, truthiness, strings, and the interfaces
    \<open>keyed_store\<close>, \<open>ordered_store\<close>, \<open>capped_backoff\<close>. \<open>SlotGate\<close>: the interface of a bounded gate with
    a FIFO queue (\<open>slot_gate\<close>). \<open>WindowLog\<close>: the interface \<open>window_limiter\<close>.
  \<^item> \<open>CircuitBreaker\<close>, \<open>BreakerLaws\<close>: \<open>src/shared/utils/circuitBreaker.ts\<close>. One function per method of
    the class, \<open>execute\<close> split where it awaits the request, the registry and its eviction.
  \<^item> \<open>AccountSemaphore\<close>, \<open>AccountSemaphoreLaws\<close>: \<open>open-sse/services/accountSemaphore.ts\<close>.
    \<open>RateLimitSemaphore\<close>, \<open>RateLimitLaws\<close>: \<open>open-sse/services/rateLimitSemaphore.ts\<close> and
    \<open>combo/quotaShareConcurrency.ts\<close>. Timers, aborts and releases are operations of their own.
  \<^item> \<open>WorkflowFSM\<close>, \<open>WorkflowLaws\<close>: \<open>open-sse/services/workflowFSM.ts\<close>, as an inductive step
    relation and as the function the code computes.
  \<^item> \<open>ModelLockout\<close>, \<open>LockoutLaws\<close>: the lockout section of \<open>open-sse/services/accountFallback.ts\<close> with
    \<open>lockoutEviction.ts\<close>, \<open>cooldownCap.ts\<close> and the functions that build the keys.
  \<^item> \<open>SlidingWindow\<close>: \<open>slidingWindowLimiter.ts\<close>. \<open>LockoutPolicy\<close>: \<open>src/domain/lockoutPolicy.ts\<close>.
    \<open>ProviderCooldown\<close>: \<open>providerCooldownTracker.ts\<close>. \<open>FailureTracker\<close>: \<open>combo/failureTracker.ts\<close>.
  \<^item> \<open>AccountBuckets\<close>, \<open>QuotaShare\<close>, \<open>QuotaShareLaws\<close>: \<open>src/lib/quota/accountBuckets.ts\<close>,
    \<open>combo/quotaShareInflight.ts\<close>, \<open>combo/quotaShareStrategy.ts\<close>. \<open>FairShare\<close>:
    \<open>src/lib/quota/fairShare.ts\<close>, \<open>burnRate.ts\<close>.
  \<^item> \<open>ShuffleDeck\<close>: \<open>src/shared/utils/shuffleDeck.ts\<close>, \<open>secureRandom.ts\<close>. \<open>RoundRobin\<close>:
    \<open>combo/rrState.ts\<close> and the places of \<open>combo.ts\<close> and \<open>quotaStrategies.ts\<close> that change its maps.
  \<^item> \<open>ComboPredicates\<close>, \<open>TargetExhaustion\<close>: \<open>combo/comboPredicates.ts\<close>, \<open>combo/targetExhaustion.ts\<close>
    and what \<open>combo.ts\<close> extracts from an error response.
  \<^item> \<open>CooldownWait\<close>: \<open>combo/comboCooldownRetry.ts\<close>, \<open>src/sse/services/cooldownAwareRetry.ts\<close> and the
    loops of \<open>combo.ts\<close> and \<open>src/sse/handlers/chat.ts\<close> that spend their budgets.
  \<^item> \<open>Degradation\<close>: \<open>src/domain/degradation.ts\<close>, with its levels as a \<open>linorder\<close>.
  \<^item> \<open>JsValues\<close>, \<open>Decimals\<close>: JSON values with \<open>undefined\<close>, \<open>Number\<close>, \<open>parseInt\<close>, spreads, decimal text.
  \<^item> \<open>Refinement\<close>, \<open>LruCache\<close>, \<open>SemanticCache\<close>: \<open>src/lib/cacheLayer.ts\<close> with its abstract cache,
    \<open>src/lib/semanticCache.ts\<close>, \<open>chatCore/semanticCache*.ts\<close>, \<open>utils/estimateSize.ts\<close>.
  \<^item> \<open>ResilienceSettings\<close>, \<open>SettingsLaws\<close>: \<open>src/lib/resilience/settings\<close> and the route that patches it.
    \<open>LockoutSettings\<close>: \<open>src/lib/resilience/modelLockoutSettings.ts\<close>. \<open>ComboConfig\<close>:
    \<open>open-sse/services/comboConfig.ts\<close>. \<open>ResilienceWiring\<close>: \<open>buildProviderProfile\<close>, the breaker options
    of the request paths, and \<open>recordProviderFailure\<close> with its deduplication.
  \<^item> \<open>IpFilter\<close>: \<open>open-sse/services/ipFilter.ts\<close>, addresses and masks as 32-bit words.
  \<^item> \<open>ComboSteps\<close>: \<open>src/lib/combos/steps.ts\<close>. \<open>ComboStructure\<close>, \<open>ComboStructureLaws\<close>, \<open>ComboNesting\<close>:
    the resolution of \<open>combo/comboStructure.ts\<close> and the weighted draw of \<open>combo/targetSorters.ts\<close>.
    \<open>ComboCompat\<close>: its capability filter, with \<open>knownContextOverflow.ts\<close>, \<open>contextOverrideGate.ts\<close>,
    \<open>comboCompatFallback.ts\<close>. \<open>CompositeTiers\<close>: \<open>src/lib/combos/compositeTiers.ts\<close>.

  \<^item> \<open>KeyRotator\<close>, \<open>KeyRotatorLaws\<close>, \<open>KeyHealthLaws\<close>: \<open>open-sse/services/apiKeyRotator.ts\<close>,
    \<open>chatCore/keyHealth.ts\<close>, \<open>resolveEffectiveKey\<close> of \<open>executors/base.ts\<close>. Health records are objects that the table
    and a loaded row share, so the model has references.
  \<^item> \<open>CivilDates\<close>, \<open>BudgetWindow\<close>: the UTC dates of JavaScript and \<open>getBudgetWindow\<close> of \<open>src/domain/costRules.ts\<close>.
    \<open>SpendWriter\<close>: \<open>src/lib/spend/batchWriter.ts\<close>. \<open>Budgets\<close>, \<open>BudgetLaws\<close>: the rest of \<open>costRules.ts\<close> with its
    rows in \<open>src/lib/db/domainState.ts\<close>. \<open>TokenLimits\<close>, \<open>TokenLaws\<close>: \<open>open-sse/services/tokenLimitCounter.ts\<close> and
    \<open>src/lib/db/tokenLimits.ts\<close>.
  \<^item> \<open>RefreshSerializer\<close>: \<open>open-sse/services/refreshSerializer.ts\<close>. \<open>SqlTransactions\<close>:
    \<open>src/lib/db/adapters/betterSqliteAdapter.ts\<close> and \<open>nodeSqliteShared.ts\<close>; SQLite itself is a parameter with the
    laws of its documentation (\<open>sqliteLaws\<close>).
  \<^item> \<open>RequestDedup\<close>, \<open>RequestDedupLaws\<close>: \<open>open-sse/services/requestDedup.ts\<close> and \<open>executeProviderRequest\<close> of
    \<open>chatCore.ts\<close>; the digest is a parameter.
  \<^item> \<open>QuotaPools\<close>, \<open>QuotaPoolLaws\<close>: \<open>src/lib/db/quotaPools.ts\<close>, \<open>quotaModelCaps.ts\<close>. \<open>QuotaStore\<close>:
    \<open>src/lib/db/quotaConsumption.ts\<close>, \<open>src/lib/quota/sqliteQuotaStore.ts\<close>. \<open>QuotaPlans\<close>: \<open>src/lib/quota/planRegistry.ts\<close>,
    \<open>planResolver.ts\<close>, \<open>src/lib/db/providerPlans.ts\<close>. \<open>QuotaEnforce\<close>, \<open>QuotaLaws\<close>: \<open>src/lib/quota/enforce.ts\<close>,
    \<open>spendRecorder.ts\<close> and the quota hooks of the chat handler.
  \<^item> \<open>SessionManager\<close>, \<open>SessionLaws\<close>: \<open>open-sse/services/sessionManager.ts\<close>.
  \<^item> \<open>SortBy\<close>: \<open>Array.sort\<close> with a comparator. \<open>QuotaWindows\<close>: \<open>open-sse/config/codexQuotaScopes.ts\<close>,
    \<open>open-sse/services/quotaPreflight.ts\<close>. \<open>QuotaCache\<close>, \<open>QuotaCacheLaws\<close>: \<open>src/domain/quotaCache.ts\<close>,
    \<open>src/lib/db/quotaSnapshots.ts\<close>. \<open>ConnectionRules\<close>: \<open>src/domain/connectionModelRules.ts\<close>, the cooldown of
    \<open>accountFallback.ts\<close> and the rules of \<open>src/sse/services/auth.ts\<close> about one connection. \<open>SessionAffinity\<close>:
    \<open>src/lib/db/sessionAccountAffinity.ts\<close>, \<open>src/sse/services/sessionAffinityPin.ts\<close>. \<open>SelectionLocks\<close>: the promise chains
    of \<open>auth.ts\<close>. \<open>AccountSelection\<close>, \<open>SelectionLaws\<close>: its \<open>getProviderCredentials\<close>.
  \<^item> \<open>AccountPreflight\<close>: \<open>getProviderCredentialsWithQuotaPreflight\<close> of \<open>auth.ts\<close>. \<open>AccountMarking\<close>, \<open>MarkingLaws\<close>: its
    marks of failed accounts and what clears them, \<open>src/lib/quota/connectionRecovery.ts\<close>, \<open>executors/codex/quota.ts\<close>,
    \<open>chatCore/codexQuota.ts\<close> and \<open>chatCore/codexFailover.ts\<close>.

  \<^bold>\<open>Interfaces.\<close> \<open>ordered_store\<close> is interpreted on the ordered map, which every registry and its
  eviction use; \<open>slot_gate\<close> on both semaphores; \<open>capped_backoff\<close> on the reset timeout of the
  breaker, the lockout cooldown and the provider cooldown; \<open>window_limiter\<close> on the sliding window and
  on the login lockout; \<open>budgeted_wait\<close> on both cooldown waits; \<open>refinement\<close> (a concrete machine that
  simulates an abstract one, answer by answer) on the LRU cache.

  \<^bold>\<open>What is shown.\<close> Safety over every interleaving: the capacity of the semaphores (up to what a reset forgets), the promises of
  their callers, the fence of an open breaker, the life of a lockout, the trailing windows. Exact
  behaviour: thresholds, escalations, retry times, the rotation of decks and round robin, the share
  that deficit round robin gives every target, the scope of a failure within a request, the share of a
  weighted draw, the bits that a CIDR entry compares, the rotation of keys, the tiling of reset windows, which accounts a
  selection may answer and that it answers one when it can, and that a terminal account is not answered again
  whatever is marked, recovered or limited, once what has read it before is over. The loop of the preflight ends. Exact
  accounting: what a budget check sees of the recorded spend, row by row of a batch, and what a token limit sees of the
  written usage; where a quota is restored after a restart. A
  quota pool whose requests pass the gate one by one stays within its budget and one request.
  Refinement of an abstract cache and of nested atomic transactions. Settings that
  any stored JSON resolves to ranges, and what these ranges bound downstream. Equivalence of the bounded
  expansion of combos with the unbounded one where the validation accepts. Bounds of loops and tables. And places where the code misses its intent, each as a theorem: a wedged
  half-open breaker, an opening that is not saved, a lost wake-up, a stale release, a rate limit
  that is forgotten, a leaked in-flight count, a stale verdict, a guard that never fires, key health that is
  never saved, a refusal counted twice, a spend writer that stops, spend counted twice while a batch is written, a budget change that is undone, tokens counted
  twice in a cold window, an override whose fraction becomes 0, transactions that mix when they overlap, model limits that share one counter, requests with
  different prompts that share one answer, a session that never gives its slot back, a snapshot for every refresh of an idle account, a pin that
  costs a request its account, marks that are not serialised, a recovery that undoes a ban, a scope that is limited only
  once, a response that erases a limit.

  \<^bold>\<open>Conventions.\<close> A call to \<open>Date.now()\<close> is an argument \<open>now\<close> (times are \<open>int\<close> milliseconds), a random
  draw is an argument. Fractions that the code computes in floating point are rational numbers, so
  rounding errors are not modelled. An operation that awaits is split at the await; everything
  between two awaits is one step, as in the event loop. Logging, metrics and events are left out.
  No model uses fuel: loops recurse on data or carry a termination proof (the loop of the preflight, which asks a store that
  it changes, is a \<open>partial_function\<close> proved to return), and runs of operations
  are lists, so every property holds for runs of any length.

  \<^bold>\<open>What is not modelled.\<close> The dispatch loops of \<open>combo.ts\<close> and \<open>chat.ts\<close> as a whole, the text
  classifiers of upstream errors (regular expressions over free text), the search pool of a provider and the data of
  no-auth providers in \<open>auth.ts\<close>, the translators, executors and the compression pipeline, the database layer beyond the
  rows that a model saves, the dashboard, the MCP server, the CLI and the tests.
\<close>

end
